(* ===== verification/Gateway_Prelude.thy ===== *)
theory Gateway_Prelude
  imports Main "HOL-Library.Word" "HOL-Library.Sublist"
begin

text \<open>
  What every component of the gateway shares: the types of machine bytes and runes, results of
  fallible operations, the part of Go's \<^verbatim>\<open>strings\<close> package the sources call, decimal numbers,
  and generic lemmas on lists and results.

  A Go string is a byte sequence, modelled as \<^typ>\<open>string\<close> (a list of 8-bit characters). A Go
  string used as message text is modelled by its rune list, what \<^verbatim>\<open>for range\<close> yields.
  Go's \<^verbatim>\<open>int\<close> and \<^verbatim>\<open>int64\<close> are \<^typ>\<open>int\<close> or \<^typ>\<open>nat\<close> (no value in the modelled code comes near
  the 64-bit bound); \<^verbatim>\<open>byte\<close>, \<^verbatim>\<open>uint16\<close>, \<^verbatim>\<open>uint32\<close> and \<^verbatim>\<open>int16\<close> are words.
\<close>

unbundle bit_operations_syntax

section \<open>Types\<close>

type_synonym byte = "8 word"
type_synonym rune = nat
type_synonym rune_text = "rune list"

text \<open>A time in milliseconds; \<open>0\<close> stands for the zero \<^verbatim>\<open>time.Time\<close>.\<close>

type_synonym timestamp = nat

text \<open>
  The result of an operation: \<^term>\<open>Inl\<close> carries the error, \<^term>\<open>Inr\<close> the value. Code that can
  also panic returns an \<open>outcome\<close>.
\<close>

type_synonym ('e, 'a) result = "'e + 'a"

datatype ('e, 'a) outcome = Return 'a | Error 'e | Panic

named_theorems wf_intros \<open>preservation of the components' invariants\<close>
named_theorems step_defs \<open>definitions of the operations that change state\<close>

section \<open>Bytes\<close>

lemma byte_bit_less:
  fixes w :: byte
  assumes "unat w < 2 ^ n" and "bit w k"
  shows "k < n"
proof -
  from assms(2) have "bit (unat w) k" by (simp add: bit_unsigned_iff bit_imp_le_length)
  then have "bit (take_bit n (unat w)) k" using assms(1) by (simp add: take_bit_nat_eq_self)
  then show ?thesis by (simp add: bit_take_bit_iff)
qed


section \<open>Lists and bounds\<close>

lemma nth_append_replicate:
  "i < length (xs @ replicate n z) \<Longrightarrow>
     (xs @ replicate n z) ! i = (if i < length xs then xs ! i else z)"
  by (auto simp: nth_append)

lemma take_append_eq [simp]: "n = length xs \<Longrightarrow> take n (xs @ ys) = xs"
  by simp

lemma drop_append_eq [simp]: "n = length xs \<Longrightarrow> drop n (xs @ ys) = ys"
  by simp

lemma map_upt_nth_eq: "n = length xs \<Longrightarrow> map (\<lambda>i. xs ! i) [0..<n] = xs"
  by (simp add: map_nth)

lemma filter_eq_selfI: "(\<And>x. x \<in> set xs \<Longrightarrow> P x) \<Longrightarrow> filter P xs = xs"
  by (induction xs) auto

text \<open>A window of the newest \<open>n\<close> entries, as the bounded logs and queues keep it.\<close>

definition last_n :: "nat \<Rightarrow> 'a list \<Rightarrow> 'a list" where
  "last_n n xs = drop (length xs - n) xs"

lemma length_last_n [simp]: "length (last_n n xs) = min n (length xs)"
  by (simp add: last_n_def)

lemma last_n_suffix: "suffix (last_n n xs) xs"
  by (simp add: last_n_def suffix_drop)

lemma last_n_append: "last_n n (xs @ ys) = last_n (n - length ys) xs @ last_n n ys"
  by (cases "length ys \<le> n") (simp_all add: last_n_def)

lemma last_n_last_n: "m \<le> n \<Longrightarrow> last_n m (last_n n xs) = last_n m xs"
  by (cases "n \<le> length xs") (simp_all add: last_n_def)

lemma last_n_absorb [simp]: "last_n n (last_n n xs @ ys) = last_n n (xs @ ys)"
  by (simp add: last_n_append last_n_last_n)

lemma last_n_map: "last_n n (map f xs) = map f (last_n n xs)"
  by (simp add: last_n_def drop_map)

lemma last_n_upt: "i \<le> j \<Longrightarrow> last_n n [i..<j] = [j - min n (j - i)..<j]"
  by (auto simp: last_n_def drop_upt min_def)

lemma last_n_snoc: "0 < n \<Longrightarrow> last_n n (last_n n xs @ [x]) = last_n n (xs @ [x])"
  by simp

lemma last_n_snoc_full: "0 < n \<Longrightarrow> last_n n (xs @ [x]) = last_n (n - 1) xs @ [x]"
  by (auto simp: last_n_def)

section \<open>Maps as association lists\<close>

text \<open>A Go map whose order or values are inspected: distinct keys, newest entry first.\<close>

definition map_put :: "'k \<Rightarrow> 'v \<Rightarrow> ('k \<times> 'v) list \<Rightarrow> ('k \<times> 'v) list" where
  "map_put k v m = (k, v) # filter (\<lambda>(k', v'). k' \<noteq> k) m"

definition map_del :: "'k \<Rightarrow> ('k \<times> 'v) list \<Rightarrow> ('k \<times> 'v) list" where
  "map_del k m = filter (\<lambda>(k', v'). k' \<noteq> k) m"

lemma map_of_map_put [simp]: "map_of (map_put k v m) = (map_of m)(k \<mapsto> v)"
proof (rule ext)
  fix x
  have "x \<noteq> k \<Longrightarrow> map_of (filter (\<lambda>(k', v'). k' \<noteq> k) m) x = map_of m x"
    by (induction m) auto
  then show "map_of (map_put k v m) x = ((map_of m)(k \<mapsto> v)) x"
    by (simp add: map_put_def)
qed

lemma map_of_map_del [simp]: "map_of (map_del k m) = (map_of m)(k := None)"
proof (rule ext)
  fix x
  show "map_of (map_del k m) x = ((map_of m)(k := None)) x"
    by (induction m) (auto simp: map_del_def)
qed

lemma distinct_map_put [simp]: "distinct (map fst m) \<Longrightarrow> distinct (map fst (map_put k v m))"
  by (induction m) (auto simp: map_put_def)

lemma distinct_map_del [simp]: "distinct (map fst m) \<Longrightarrow> distinct (map fst (map_del k m))"
  by (induction m) (auto simp: map_del_def)

lemma set_map_put: "set (map_put k v m) = insert (k, v) {e \<in> set m. fst e \<noteq> k}"
  by (auto simp: map_put_def)

lemma set_map_del: "set (map_del k m) = {e \<in> set m. fst e \<noteq> k}"
  by (auto simp: map_del_def)

lemma map_del_map_put [simp]: "map_del k (map_put k v m) = map_del k m"
  by (simp add: map_del_def map_put_def)

section \<open>Strings\<close>

definition has_prefix :: "string \<Rightarrow> string \<Rightarrow> bool" where
  "has_prefix s p = (take (length p) s = p)"

definition trim_prefix :: "string \<Rightarrow> string \<Rightarrow> string" where
  "trim_prefix s p = (if has_prefix s p then drop (length p) s else s)"

definition has_suffix :: "string \<Rightarrow> string \<Rightarrow> bool" where
  "has_suffix s p = has_prefix (rev s) (rev p)"

definition trim_suffix :: "string \<Rightarrow> string \<Rightarrow> string" where
  "trim_suffix s p = (if has_suffix s p then take (length s - length p) s else s)"

text \<open>
  \<^verbatim>\<open>strings.Index\<close>: the first position of a substring, \<^term>\<open>None\<close> for Go's \<open>-1\<close>.
\<close>

fun str_index :: "string \<Rightarrow> string \<Rightarrow> nat option" where
  "str_index [] p = (if p = [] then Some 0 else None)"
| "str_index (c # s) p =
     (if has_prefix (c # s) p then Some 0 else map_option Suc (str_index s p))"

definition str_contains :: "string \<Rightarrow> string \<Rightarrow> bool" where
  "str_contains s p = (str_index s p \<noteq> None)"

fun last_index_char :: "string \<Rightarrow> char \<Rightarrow> nat option" where
  "last_index_char [] c = None"
| "last_index_char (x # s) c =
     (case last_index_char s c of Some i \<Rightarrow> Some (Suc i) | None \<Rightarrow> if x = c then Some 0 else None)"

text \<open>\<^verbatim>\<open>strings.Split\<close> at one character: always at least one field.\<close>

fun split_char :: "char \<Rightarrow> string \<Rightarrow> string list" where
  "split_char c [] = [[]]"
| "split_char c (x # s) =
     (if x = c then [] # split_char c s
      else (case split_char c s of [] \<Rightarrow> [[x]] | f # fs \<Rightarrow> (x # f) # fs))"

lemma split_char_free: "c \<notin> set s \<Longrightarrow> split_char c s = [s]"
  by (induction s) auto

lemma split_char_sep: "c \<notin> set u \<Longrightarrow> split_char c (u @ c # t) = u # split_char c t"
  by (induction u) auto

fun join_char :: "char \<Rightarrow> string list \<Rightarrow> string" where
  "join_char c [] = []"
| "join_char c [f] = f"
| "join_char c (f # g # fs) = f @ c # join_char c (g # fs)"

definition newline :: char where
  "newline = char_of (10::nat)"

definition carriage_return :: char where
  "carriage_return = char_of (13::nat)"

text \<open>
  Unicode white space as UTF-8 byte sequences: \<^verbatim>\<open>unicode.IsSpace\<close>, which
  \<^verbatim>\<open>strings.TrimSpace\<close> and \<^verbatim>\<open>strings.Fields\<close> use.
\<close>

definition space_encodings :: "nat list list" where
  "space_encodings =
     [[9], [10], [11], [12], [13], [32], [194, 133], [194, 160], [225, 154, 128],
      [226, 128, 168], [226, 128, 169], [226, 128, 175], [226, 129, 159], [227, 128, 128]] @
     map (\<lambda>n. [226, 128, 128 + n]) [0..<11]"

definition space_strings :: "string list" where
  "space_strings = map (map char_of) space_encodings"

text \<open>\<open>strip_any ps s\<close> drops leading sequences of \<open>ps\<close> as long as there is one.\<close>

function strip_any :: "string list \<Rightarrow> string \<Rightarrow> string" where
  "strip_any ps s =
     (case find (\<lambda>p. p \<noteq> [] \<and> has_prefix s p) ps of
        Some p \<Rightarrow> strip_any ps (drop (length p) s)
      | None \<Rightarrow> s)"
  by pat_completeness auto
termination
proof (relation "measure (\<lambda>(ps, s). length s)")
  fix ps s p
  assume "find (\<lambda>p. p \<noteq> [] \<and> has_prefix s p) ps = Some p"
  then have "p \<noteq> []" and "take (length p) s = p"
    by (auto simp: find_Some_iff has_prefix_def)
  then have "s \<noteq> []" and "0 < length p" by auto
  then show "((ps, drop (length p) s), ps, s) \<in> measure (\<lambda>(ps, s). length s)"
    by simp
qed simp

declare strip_any.simps [simp del]

definition trim_space :: "string \<Rightarrow> string" where
  "trim_space s = rev (strip_any (map rev space_strings) (rev (strip_any space_strings s)))"

text \<open>\<^verbatim>\<open>strings.TrimSpace\<close> on a text kept as runes.\<close>

definition space_rune :: "rune \<Rightarrow> bool" where
  "space_rune r \<longleftrightarrow> (9 \<le> r \<and> r \<le> 13) \<or> (0x2000 \<le> r \<and> r \<le> 0x200a) \<or>
     r \<in> {32, 0x85, 0xa0, 0x1680, 0x2028, 0x2029, 0x202f, 0x205f, 0x3000}"

definition trim_runes :: "rune_text \<Rightarrow> rune_text" where
  "trim_runes s = rev (dropWhile space_rune (rev (dropWhile space_rune s)))"

text \<open>
  Lower and upper case on ASCII letters. Other bytes are kept: the sources change case only to
  compare with ASCII literals.
\<close>

definition to_lower_char :: "char \<Rightarrow> char" where
  "to_lower_char c =
     (let n = of_char c :: nat in if 65 \<le> n \<and> n \<le> 90 then char_of (n + 32) else c)"

definition to_upper_char :: "char \<Rightarrow> char" where
  "to_upper_char c =
     (let n = of_char c :: nat in if 97 \<le> n \<and> n \<le> 122 then char_of (n - 32) else c)"

definition to_lower :: "string \<Rightarrow> string" where
  "to_lower s = map to_lower_char s"

definition to_upper :: "string \<Rightarrow> string" where
  "to_upper s = map to_upper_char s"

definition equal_fold :: "string \<Rightarrow> string \<Rightarrow> bool" where
  "equal_fold s t = (to_lower s = to_lower t)"

text \<open>\<^verbatim>\<open>strings.Fields\<close>: the maximal runs of non-space bytes (ASCII white space).\<close>

definition is_ascii_space :: "char \<Rightarrow> bool" where
  "is_ascii_space c = ((of_char c :: nat) \<in> {9, 10, 11, 12, 13, 32})"

function fields :: "string \<Rightarrow> string list" where
  "fields s =
     (case dropWhile is_ascii_space s of
        [] \<Rightarrow> []
      | c # t \<Rightarrow> (c # takeWhile (\<lambda>x. \<not> is_ascii_space x) t) #
                  fields (dropWhile (\<lambda>x. \<not> is_ascii_space x) t))"
  by pat_completeness auto
termination
proof (relation "measure length")
  fix s t :: string and c
  assume "dropWhile is_ascii_space s = c # t"
  then have "length (c # t) \<le> length s" by (metis length_dropWhile_le)
  moreover have "length (dropWhile (\<lambda>x. \<not> is_ascii_space x) t) \<le> length t"
    by (rule length_dropWhile_le)
  ultimately show "(dropWhile (\<lambda>x. \<not> is_ascii_space x) t, s) \<in> measure length" by simp
qed simp

declare fields.simps [simp del]

section \<open>Decimal numbers\<close>

definition is_digit :: "char \<Rightarrow> bool" where
  "is_digit c = (48 \<le> (of_char c :: nat) \<and> (of_char c :: nat) \<le> 57)"

definition digit_val :: "char \<Rightarrow> nat" where
  "digit_val c = (of_char c :: nat) - 48"

definition digits_val :: "string \<Rightarrow> nat" where
  "digits_val s = foldl (\<lambda>n c. 10 * n + digit_val c) 0 s"

text \<open>
  \<^verbatim>\<open>strconv.Atoi\<close> and \<^verbatim>\<open>strconv.ParseInt(s, 10, 64)\<close>: an optional sign, at least one digit, and a
  value in the 64-bit range.
\<close>

definition parse_unsigned :: "string \<Rightarrow> nat option" where
  "parse_unsigned s = (if s \<noteq> [] \<and> list_all is_digit s then Some (digits_val s) else None)"

definition in_int64 :: "int \<Rightarrow> bool" where
  "in_int64 n = (- (2 ^ 63) \<le> n \<and> n < 2 ^ 63)"

definition atoi :: "string \<Rightarrow> int option" where
  "atoi s =
     (let (neg, ds) = (case s of
            c # t \<Rightarrow> if c = CHR ''-'' then (True, t)
                     else if c = CHR ''+'' then (False, t) else (False, s)
          | [] \<Rightarrow> (False, s))
      in case parse_unsigned ds of
           None \<Rightarrow> None
         | Some n \<Rightarrow> (let v = (if neg then - int n else int n)
                     in if in_int64 v then Some v else None))"

fun nat_to_string :: "nat \<Rightarrow> string" where
  "nat_to_string n =
     (if n < 10 then [char_of (48 + n)]
      else nat_to_string (n div 10) @ [char_of (48 + n mod 10)])"

declare nat_to_string.simps [simp del]

definition itoa :: "int \<Rightarrow> string" where
  "itoa n = (if n < 0 then CHR ''-'' # nat_to_string (nat (- n)) else nat_to_string (nat n))"

section \<open>Facts on strings and numbers\<close>

definition graphic_char :: "char \<Rightarrow> bool" where
  "graphic_char c = (33 \<le> (of_char c :: nat) \<and> (of_char c :: nat) \<le> 126)"

lemma strip_any_id:
  assumes "\<And>p. p \<in> set ps \<Longrightarrow> p = [] \<or> \<not> has_prefix s p"
  shows "strip_any ps s = s"
proof -
  have "find (\<lambda>p. p \<noteq> [] \<and> has_prefix s p) ps = None"
    using assms by (auto simp: find_None_iff)
  then show ?thesis by (simp add: strip_any.simps [of ps s])
qed

lemma space_heads:
  assumes "p \<in> set space_strings"
  shows "p \<noteq> [] \<and> \<not> graphic_char (hd p) \<and> \<not> graphic_char (last p)"
proof -
  have "list_all (\<lambda>p. p \<noteq> [] \<and> \<not> graphic_char (hd p) \<and> \<not> graphic_char (last p)) space_strings"
    by code_simp
  with assms show ?thesis by (simp add: list_all_iff)
qed

lemma no_space_prefix:
  assumes "s \<noteq> []" and "graphic_char (hd s)"
  shows "p \<in> set space_strings \<Longrightarrow> p = [] \<or> \<not> has_prefix s p"
    and "p \<in> set (map rev space_strings) \<Longrightarrow> p = [] \<or> \<not> has_prefix s p"
proof -
  have head: "graphic_char c" if "has_prefix s (c # q)" for c q
    using that assms by (cases s) (auto simp: has_prefix_def)
  show "p \<in> set space_strings \<Longrightarrow> p = [] \<or> \<not> has_prefix s p"
    using head space_heads [of p] by (cases p) auto
  assume "p \<in> set (map rev space_strings)"
  then obtain q where q: "q \<in> set space_strings" "p = rev q" by auto
  from space_heads [OF q(1)] have "q \<noteq> []" and "\<not> graphic_char (last q)" by auto
  then show "p = [] \<or> \<not> has_prefix s p"
    using head q(2) by (cases q rule: rev_cases) auto
qed

text \<open>Trimming leaves a string with a printable ASCII character at both ends as it is.\<close>

lemma trim_space_ends:
  assumes "s \<noteq> []" and "graphic_char (hd s)" and "graphic_char (last s)"
  shows "trim_space s = s"
proof -
  have "rev s \<noteq> []" and "graphic_char (hd (rev s))" using assms by (simp_all add: hd_rev)
  then have "strip_any (map rev space_strings) (rev s) = rev s"
    by (intro strip_any_id no_space_prefix(2))
  moreover have "strip_any space_strings s = s"
    by (intro strip_any_id no_space_prefix(1) assms)
  ultimately show ?thesis by (simp add: trim_space_def)
qed

lemma trim_space_Nil [simp]: "trim_space [] = []"
proof -
  have "strip_any ps [] = []" for ps
    by (rule strip_any_id) (auto simp: has_prefix_def)
  then show ?thesis by (simp add: trim_space_def)
qed

lemma trim_space_graphic [simp]:
  assumes "list_all graphic_char s"
  shows "trim_space s = s"
proof (cases "s = []")
  case False
  then have "hd s \<in> set s" "last s \<in> set s" by simp_all
  with assms False show ?thesis by (intro trim_space_ends) (auto simp: list_all_iff)
qed simp

lemma is_digit_graphic: "is_digit c \<Longrightarrow> graphic_char c"
  by (simp add: is_digit_def graphic_char_def)

lemma digits_graphic: "list_all is_digit s \<Longrightarrow> list_all graphic_char s"
  by (auto simp: list_all_iff is_digit_graphic)

lemma digit_val_bound: "is_digit c \<Longrightarrow> digit_val c < 10"
  by (auto simp: is_digit_def digit_val_def)

lemma char_of_digit_val: "is_digit c \<Longrightarrow> char_of (48 + digit_val c) = c"
  by (simp add: is_digit_def digit_val_def)

lemma is_digit_char_of [simp]: "(d :: nat) < 10 \<Longrightarrow> is_digit (char_of (48 + d))"
  by (simp add: is_digit_def)

lemma digit_val_char_of [simp]: "(d :: nat) < 10 \<Longrightarrow> digit_val (char_of (48 + d)) = d"
  by (simp add: digit_val_def)

lemma nat_to_string_digits: "nat_to_string n \<noteq> [] \<and> list_all is_digit (nat_to_string n)"
proof (induction n rule: nat_to_string.induct)
  case (1 n)
  then show ?case by (cases "n < 10") (simp_all add: nat_to_string.simps [of n])
qed

lemma digits_val_snoc: "digits_val (s @ [c]) = 10 * digits_val s + digit_val c"
  by (simp add: digits_val_def)

lemma digits_val_nat_to_string [simp]: "digits_val (nat_to_string n) = n"
proof (induction n rule: nat_to_string.induct)
  case (1 n)
  show ?case
  proof (cases "n < 10")
    case True
    then show ?thesis
      by (simp add: nat_to_string.simps [of n] digits_val_def)
  next
    case False
    with 1 show ?thesis
      by (simp add: nat_to_string.simps [of n] digits_val_snoc)
  qed
qed

lemma parse_unsigned_nat_to_string [simp]: "parse_unsigned (nat_to_string n) = Some n"
  using nat_to_string_digits [of n] by (simp add: parse_unsigned_def)

lemma nat_to_string_head: "\<exists>c t. nat_to_string n = c # t \<and> is_digit c"
  using nat_to_string_digits [of n] by (cases "nat_to_string n") auto

text \<open>Printing a 64-bit integer and parsing it back gives the integer.\<close>

lemma atoi_itoa:
  assumes "in_int64 n"
  shows "atoi (itoa n) = Some n"
proof (cases "n < 0")
  case True
  then show ?thesis using assms by (simp add: itoa_def atoi_def)
next
  case False
  obtain c t where ct: "nat_to_string (nat n) = c # t" "is_digit c"
    using nat_to_string_head by blast
  then have "c \<noteq> CHR ''-''" and "c \<noteq> CHR ''+''" by (auto simp: is_digit_def)
  moreover have "parse_unsigned (c # t) = Some (nat n)"
    using parse_unsigned_nat_to_string [of "nat n"] ct(1) by simp
  ultimately show ?thesis using assms False ct(1) by (simp add: itoa_def atoi_def)
qed

end
