(* ===== verification/Sms_Codec.thy ===== *)
theory Sms_Codec
  imports Gateway_Prelude
begin

text \<open>
  The character codecs of \<^verbatim>\<open>gateway/internal/sms/pdu.go\<close>: the GSM 03.38 alphabet with its
  extension table, septet packing into a byte stream, UTF-16 code units and upper-case
  hexadecimal (the last two model Go's \<^verbatim>\<open>unicode/utf16\<close> and \<^verbatim>\<open>encoding/hex\<close>). Each codec comes with
  its round trip.
\<close>

section \<open>The GSM 7-bit alphabet\<close>

definition gsm7Alphabet :: "rune list" where
  "gsm7Alphabet =
    [64, 163, 36, 165, 232, 233, 249, 236, 242, 199, 10, 216, 248, 13, 197, 229,
     916, 95, 934, 915, 923, 937, 928, 936, 931, 920, 926, 27, 198, 230, 223, 201,
     32, 33, 34, 35, 164, 37, 38, 39, 40, 41, 42, 43, 44, 45, 46, 47,
     48, 49, 50, 51, 52, 53, 54, 55, 56, 57, 58, 59, 60, 61, 62, 63,
     161, 65, 66, 67, 68, 69, 70, 71, 72, 73, 74, 75, 76, 77, 78, 79,
     80, 81, 82, 83, 84, 85, 86, 87, 88, 89, 90, 196, 214, 209, 220, 167,
     191, 97, 98, 99, 100, 101, 102, 103, 104, 105, 106, 107, 108, 109, 110, 111,
     112, 113, 114, 115, 116, 117, 118, 119, 120, 121, 122, 228, 246, 241, 252, 224]"

text \<open>The extension table: rune and escape code.\<close>

definition gsm7Extension :: "(rune \<times> byte) list" where
  "gsm7Extension =
    [(94, 0x14), (123, 0x28), (125, 0x29), (92, 0x2f),
     (91, 0x3c), (126, 0x3d), (93, 0x3e), (124, 0x40), (8364, 0x65)]"

text \<open>\<^verbatim>\<open>gsm7Reverse\<close>: the index of a rune in the alphabet.\<close>

definition gsm7Reverse :: "rune \<Rightarrow> byte option" where
  "gsm7Reverse r =
     map_of (zip gsm7Alphabet (map word_of_nat [0..<length gsm7Alphabet])) r"

definition CanEncodeGSM7 :: "rune_text \<Rightarrow> bool" where
  "CanEncodeGSM7 body =
     list_all (\<lambda>r. gsm7Reverse r \<noteq> None \<or> map_of gsm7Extension r \<noteq> None) body"

fun GSM7Length :: "rune_text \<Rightarrow> nat" where
  "GSM7Length [] = 0"
| "GSM7Length (r # rs) = (if map_of gsm7Extension r \<noteq> None then 2 else 1) + GSM7Length rs"

text \<open>
  A rune outside both tables reads the zero value of the Go map, \<open>0\<close>, behind the escape code.
\<close>

fun encodeGSM7 :: "rune_text \<Rightarrow> byte list" where
  "encodeGSM7 [] = []"
| "encodeGSM7 (r # rs) =
     (case gsm7Reverse r of
        Some code \<Rightarrow> [code]
      | None \<Rightarrow> [0x1b, (case map_of gsm7Extension r of Some c \<Rightarrow> c | None \<Rightarrow> 0)]) @ encodeGSM7 rs"

definition extension_rune :: "byte \<Rightarrow> rune list" where
  "extension_rune code = (case find (\<lambda>(r, c). c = code) gsm7Extension of
     Some (r, c) \<Rightarrow> [r] | None \<Rightarrow> [])"

text \<open>
  \<^verbatim>\<open>decodeGSM7\<close>: the escape code consumes the next septet, and an unknown extension is dropped.
  The Go loop ranges over a map, but the extension codes are distinct, so at most one entry matches.
\<close>

fun decodeGSM7 :: "byte list \<Rightarrow> rune_text" where
  "decodeGSM7 [] = []"
| "decodeGSM7 [v] =
     (if unat v < length gsm7Alphabet then [gsm7Alphabet ! unat v] else [])"
| "decodeGSM7 (v # w # vs) =
     (if v = 0x1b then extension_rune w @ decodeGSM7 vs
      else (if unat v < length gsm7Alphabet then [gsm7Alphabet ! unat v] else []) @
           decodeGSM7 (w # vs))"

lemma length_gsm7Alphabet [simp]: "length gsm7Alphabet = 128"
  by (simp add: gsm7Alphabet_def)

lemma distinct_gsm7Alphabet: "distinct gsm7Alphabet"
  by (simp add: gsm7Alphabet_def)

text \<open>What the two tables say of a rune, as facts the proofs use.\<close>

lemma gsm7Reverse_SomeD:
  assumes "gsm7Reverse r = Some c"
  shows "unat c < 128 \<and> gsm7Alphabet ! unat c = r"
proof -
  let ?ys = "map word_of_nat [0..<length gsm7Alphabet] :: byte list"
  from assms have "(r, c) \<in> set (zip gsm7Alphabet ?ys)"
    unfolding gsm7Reverse_def by (rule map_of_SomeD)
  then obtain i where i: "i < 128" "r = gsm7Alphabet ! i" "c = word_of_nat i"
    by (auto simp: set_zip)
  then have "unat c = i" by (simp add: unat_of_nat)
  with i show ?thesis by simp
qed

lemma gsm7Reverse_nth:
  assumes "i < 128"
  shows "gsm7Reverse (gsm7Alphabet ! i) = Some (word_of_nat i)"
proof -
  have "map_of (zip gsm7Alphabet (map word_of_nat [0..<length gsm7Alphabet])) (gsm7Alphabet ! i)
      = Some (map word_of_nat [0..<length gsm7Alphabet] ! i)"
    by (rule map_of_zip_nth) (use assms distinct_gsm7Alphabet in simp_all)
  with assms show ?thesis by (simp add: gsm7Reverse_def)
qed

lemma gsm7Reverse_escape: "gsm7Reverse r = Some 0x1b \<Longrightarrow> r = 27"
  using gsm7Reverse_SomeD [of r "0x1b"] by (simp add: gsm7Alphabet_def)

lemma gsm7Reverse_None: "gsm7Reverse r = None \<longleftrightarrow> r \<notin> set gsm7Alphabet"
  unfolding gsm7Reverse_def by (rule map_of_zip_is_None) simp

lemma gsm7Extension_entries:
  "list_all (\<lambda>(r, c). gsm7Reverse r = None \<and> extension_rune c = [r] \<and> unat c < 128) gsm7Extension"
  unfolding gsm7Reverse_None
  by (simp add: gsm7Extension_def extension_rune_def gsm7Alphabet_def)

lemma gsm7Extension_SomeD:
  assumes "map_of gsm7Extension r = Some c"
  shows "gsm7Reverse r = None \<and> extension_rune c = [r] \<and> unat c < 128"
  using gsm7Extension_entries map_of_SomeD [OF assms] by (auto simp: list_all_iff)

text \<open>
  Runes of both tables but the escape character itself, whose septet \<open>0x1b\<close> the decoder reads as
  the escape code. On text of such runes the codec is a round trip.
\<close>

definition gsm7_safe :: "rune_text \<Rightarrow> bool" where
  "gsm7_safe body = (CanEncodeGSM7 body \<and> 27 \<notin> set body)"

lemma gsm7_safe_Cons [simp]:
  "gsm7_safe (r # rs) \<longleftrightarrow>
     r \<noteq> 27 \<and> (gsm7Reverse r \<noteq> None \<or> map_of gsm7Extension r \<noteq> None) \<and> gsm7_safe rs"
  by (auto simp: gsm7_safe_def CanEncodeGSM7_def)

lemma gsm7_safe_Nil [simp]: "gsm7_safe []"
  by (simp add: gsm7_safe_def CanEncodeGSM7_def)

lemma gsm7_safe_append [simp]: "gsm7_safe (xs @ ys) \<longleftrightarrow> gsm7_safe xs \<and> gsm7_safe ys"
  by (auto simp: gsm7_safe_def CanEncodeGSM7_def)

lemma decodeGSM7_literal:
  assumes "v \<noteq> 0x1b" and "unat v < 128"
  shows "decodeGSM7 (v # vs) = gsm7Alphabet ! unat v # decodeGSM7 vs"
  using assms by (cases vs) simp_all

lemma decodeGSM7_encodeGSM7: "gsm7_safe body \<Longrightarrow> decodeGSM7 (encodeGSM7 body) = body"
proof (induction body)
  case Nil
  show ?case by simp
next
  case (Cons r rs)
  show ?case
  proof (cases "gsm7Reverse r")
    case None
    with Cons.prems obtain c where "map_of gsm7Extension r = Some c" by auto
    with Cons None gsm7Extension_SomeD show ?thesis by simp
  next
    case (Some c)
    with Cons.prems have "c \<noteq> 0x1b" by (auto dest: gsm7Reverse_escape)
    with Some Cons gsm7Reverse_SomeD [OF Some] show ?thesis
      by (simp add: decodeGSM7_literal)
  qed
qed

lemma encodeGSM7_septets: "v \<in> set (encodeGSM7 body) \<Longrightarrow> unat v < 128"
proof (induction body)
  case (Cons r rs)
  then show ?case
    by (auto split: option.splits dest: gsm7Reverse_SomeD gsm7Extension_SomeD)
qed simp

lemma gsm7Reverse_not_extension: "gsm7Reverse r = Some c \<Longrightarrow> map_of gsm7Extension r = None"
  using gsm7Extension_SomeD [of r] by (cases "map_of gsm7Extension r") auto

lemma length_encodeGSM7: "CanEncodeGSM7 body \<Longrightarrow> length (encodeGSM7 body) = GSM7Length body"
  by (induction body)
    (auto simp: CanEncodeGSM7_def gsm7Reverse_not_extension split: option.splits)

lemma encodeGSM7_append [simp]: "encodeGSM7 (xs @ ys) = encodeGSM7 xs @ encodeGSM7 ys"
  by (induction xs) simp_all

lemma GSM7Length_append [simp]: "GSM7Length (xs @ ys) = GSM7Length xs + GSM7Length ys"
  by (induction xs) simp_all

section \<open>Septets in a byte stream\<close>

text \<open>
  The inner statement of \<^verbatim>\<open>packBits\<close>: grow the buffer with zero bytes up to \<open>position\<close>, then set
  one bit of that byte.
\<close>

definition set_stream_bit :: "byte list \<Rightarrow> nat \<Rightarrow> nat \<Rightarrow> byte list" where
  "set_stream_bit res position k =
     (let grown = res @ replicate (Suc position - length res) 0
      in grown[position := grown ! position OR push_bit k 1])"

text \<open>
  One turn of the loop over the seven bits of a septet (a zero bit is skipped, buffer included),
  and the loop.
\<close>

definition pack_bit :: "nat \<Rightarrow> byte \<Rightarrow> byte list \<Rightarrow> nat \<Rightarrow> byte list" where
  "pack_bit bitPosition septet res b =
     (if septet AND push_bit b 1 = 0 then res
      else set_stream_bit res
             (bitPosition div 8 + (bitPosition mod 8 + b) div 8)
             ((bitPosition mod 8 + b) mod 8))"

definition pack_septet :: "byte list \<Rightarrow> nat \<Rightarrow> byte \<Rightarrow> byte list" where
  "pack_septet result bitPosition septet = foldl (pack_bit bitPosition septet) result [0..<7]"

definition packBits :: "byte list \<Rightarrow> byte list \<Rightarrow> nat \<Rightarrow> byte list" where
  "packBits pre septets offset =
     foldl (\<lambda>res (index, septet). pack_septet res (offset + index * 7) septet)
       pre (enumerate 0 septets)"

definition packSeptets :: "byte list \<Rightarrow> byte list" where
  "packSeptets septets = packBits [] septets 0"

definition packUDHAndSeptets :: "byte list \<Rightarrow> byte list \<Rightarrow> byte list" where
  "packUDHAndSeptets udh septets = packBits udh septets (length udh * 8)"

definition unpack_bit :: "byte list \<Rightarrow> nat \<Rightarrow> byte \<Rightarrow> nat \<Rightarrow> byte" where
  "unpack_bit data bitPosition value b =
     (let position = bitPosition + b
      in if position div 8 < length data \<and>
            data ! (position div 8) AND push_bit (position mod 8) 1 \<noteq> 0
         then value OR push_bit b 1 else value)"

definition unpack_septet :: "byte list \<Rightarrow> nat \<Rightarrow> byte" where
  "unpack_septet data bitPosition = foldl (unpack_bit data bitPosition) 0 [0..<7]"

definition unpackSeptets :: "byte list \<Rightarrow> nat \<Rightarrow> nat \<Rightarrow> byte list" where
  "unpackSeptets data count offset =
     map (\<lambda>index. unpack_septet data (offset + index * 7)) [0..<count]"

text \<open>The abstraction of a byte buffer: which bits of the stream are set.\<close>

definition stream_bit :: "byte list \<Rightarrow> nat \<Rightarrow> bool" where
  "stream_bit data q = (q div 8 < length data \<and> bit (data ! (q div 8)) (q mod 8))"

lemma and_exp_eq_0: "(w AND 2 ^ k = 0) = (\<not> bit w k)" for w :: byte
  by (rule and_exp_eq_0_iff_not_bit)

lemma bit_or_exp: "n < 8 \<Longrightarrow> bit (w OR 2 ^ n) k = (bit w k \<or> k = n)" for w :: byte
  by (auto simp: bit_or_iff bit_exp_iff)

lemma byte_position: "k < 8 \<Longrightarrow> q = 8 * p + k \<longleftrightarrow> q div 8 = p \<and> q mod 8 = k" for q :: nat
  using div_mult_mod_eq [of q 8] by auto

lemma stream_bit_update:
  assumes "k < 8" and "p < length xs"
  shows "stream_bit (xs[p := xs ! p OR 2 ^ k]) q = (q = 8 * p + k \<or> stream_bit xs q)"
  unfolding byte_position [OF assms(1)]
  using assms(2) bit_or_exp [OF assms(1), of "xs ! p" "q mod 8"]
  by (cases "q div 8 = p") (simp_all add: stream_bit_def, blast?)

lemma stream_bit_grown: "stream_bit (res @ replicate n 0) q = stream_bit res q"
  by (auto simp: stream_bit_def nth_append)

lemma stream_bit_set_stream_bit:
  assumes "k < 8"
  shows "stream_bit (set_stream_bit res p k) q = (q = 8 * p + k \<or> stream_bit res q)"
  using stream_bit_update [OF assms, of p "res @ replicate (Suc p - length res) 0" q]
  by (simp add: set_stream_bit_def Let_def stream_bit_grown)

lemma stream_bit_pack_bit:
  "stream_bit (pack_bit pos septet res b) q = (stream_bit res q \<or> bit septet b \<and> q = pos + b)"
proof -
  have "8 * (pos div 8 + (pos mod 8 + b) div 8) + (pos mod 8 + b) mod 8 = pos + b"
    by (simp add: algebra_simps)
  then show ?thesis
    using stream_bit_set_stream_bit [of "(pos mod 8 + b) mod 8" res
        "pos div 8 + (pos mod 8 + b) div 8" q]
    by (auto simp: pack_bit_def and_exp_eq_0)
qed

lemma stream_bit_pack_upto:
  "stream_bit (foldl (pack_bit pos septet) res [0..<n]) q =
     (stream_bit res q \<or> (\<exists>b<n. bit septet b \<and> q = pos + b))"
  by (induction n) (auto simp: stream_bit_pack_bit less_Suc_eq)

lemma stream_bit_pack_septet:
  "stream_bit (pack_septet res pos septet) q =
     (stream_bit res q \<or> (\<exists>b<7. bit septet b \<and> q = pos + b))"
  unfolding pack_septet_def by (rule stream_bit_pack_upto)

lemma stream_bit_packBits:
  "stream_bit (packBits pre septets offset) q =
     (stream_bit pre q \<or>
      (\<exists>i<length septets. \<exists>b<7. bit (septets ! i) b \<and> q = offset + i * 7 + b))"
proof (induction septets rule: rev_induct)
  case Nil
  show ?case by (simp add: packBits_def)
next
  case (snoc s ss)
  have step: "packBits pre (ss @ [s]) offset =
      pack_septet (packBits pre ss offset) (offset + length ss * 7) s"
    by (simp add: packBits_def enumerate_append_eq)
  have ex: "(\<exists>i<length (ss @ [s]). \<exists>b<7. bit ((ss @ [s]) ! i) b \<and> q = offset + i * 7 + b) \<longleftrightarrow>
      (\<exists>i<length ss. \<exists>b<7. bit (ss ! i) b \<and> q = offset + i * 7 + b) \<or>
      (\<exists>b<7. bit s b \<and> q = offset + length ss * 7 + b)"
    by (auto simp: less_Suc_eq nth_append)
  show ?case
    unfolding step stream_bit_pack_septet snoc.IH ex by blast
qed

lemma bit_unpack_bit:
  "b < 8 \<Longrightarrow> bit (unpack_bit data pos value b) k =
     (bit value k \<or> stream_bit data (pos + b) \<and> k = b)"
  by (auto simp: unpack_bit_def Let_def stream_bit_def and_exp_eq_0 bit_or_exp)

lemma bit_unpack_upto:
  "n \<le> 7 \<Longrightarrow> bit (foldl (unpack_bit data pos) 0 [0..<n]) k = (k < n \<and> stream_bit data (pos + k))"
  by (induction n) (auto simp: bit_unpack_bit less_Suc_eq)

lemma bit_unpack_septet: "bit (unpack_septet data pos) k = (k < 7 \<and> stream_bit data (pos + k))"
  unfolding unpack_septet_def by (rule bit_unpack_upto) simp

lemma unpack_pack_septet:
  assumes i: "i < length septets" and small: "unat (septets ! i) < 128"
  shows "unpack_septet (packUDHAndSeptets udh septets) (length udh * 8 + i * 7) = septets ! i"
proof (rule bit_eqI)
  fix k
  have high: "k < 7" if "bit (septets ! i) k"
    using byte_bit_less [of _ 7] small that by simp
  have old: "\<not> stream_bit udh (length udh * 8 + i * 7 + k)"
    unfolding stream_bit_def by linarith
  have same: "j = i \<and> b = k" if "i * 7 + k = j * 7 + b" "b < 7" "k < 7" for j b
    using that by (cases i j rule: linorder_cases) linarith+
  have "(\<exists>j<length septets. \<exists>b<7. bit (septets ! j) b \<and> i * 7 + k = j * 7 + b) \<longleftrightarrow>
      bit (septets ! i) k" if "k < 7"
    using i that by (auto dest: same)
  then have "(\<exists>j<length septets. \<exists>b<7. bit (septets ! j) b \<and>
           length udh * 8 + i * 7 + k = length udh * 8 + j * 7 + b) \<longleftrightarrow> bit (septets ! i) k"
    if "k < 7"
    using that by (simp only: add.assoc add_left_cancel)
  with high old show "bit (unpack_septet (packUDHAndSeptets udh septets) (length udh * 8 + i * 7)) k =
        bit (septets ! i) k"
    unfolding bit_unpack_septet packUDHAndSeptets_def stream_bit_packBits by blast
qed

text \<open>Unpacking the packed stream behind its header gives the septets back.\<close>

lemma unpackSeptets_packUDHAndSeptets:
  assumes "\<And>v. v \<in> set septets \<Longrightarrow> unat v < 128"
  shows "unpackSeptets (packUDHAndSeptets udh septets) (length septets) (length udh * 8) = septets"
  unfolding unpackSeptets_def
  by (rule nth_equalityI) (auto simp: unpack_pack_septet assms)

lemma unpackSeptets_packSeptets:
  assumes "\<And>v. v \<in> set septets \<Longrightarrow> unat v < 128"
  shows "unpackSeptets (packSeptets septets) (length septets) 0 = septets"
  using unpackSeptets_packUDHAndSeptets [of septets "[]", OF assms]
  by (simp add: packUDHAndSeptets_def packSeptets_def)

section \<open>UTF-16\<close>

type_synonym utf16_unit = "16 word"

text \<open>\<^verbatim>\<open>utf16.Encode\<close>: one unit in the basic plane, a surrogate pair above, U+FFFD for what is no
  Unicode scalar value.\<close>

definition utf16_encode_rune :: "rune \<Rightarrow> utf16_unit list" where
  "utf16_encode_rune r =
     (if r < 0xd800 \<or> 0xe000 \<le> r \<and> r < 0x10000 then [word_of_nat r]
      else if 0x10000 \<le> r \<and> r \<le> 0x10ffff
      then [word_of_nat (0xd800 + (r - 0x10000) div 0x400),
            word_of_nat (0xdc00 + (r - 0x10000) mod 0x400)]
      else [0xfffd])"

definition utf16_encode :: "rune_text \<Rightarrow> utf16_unit list" where
  "utf16_encode rs = concat (map utf16_encode_rune rs)"

definition is_high_surrogate :: "utf16_unit \<Rightarrow> bool" where
  "is_high_surrogate u = (0xd800 \<le> unat u \<and> unat u < 0xdc00)"

definition is_low_surrogate :: "utf16_unit \<Rightarrow> bool" where
  "is_low_surrogate u = (0xdc00 \<le> unat u \<and> unat u < 0xe000)"

text \<open>\<^verbatim>\<open>utf16.Decode\<close>: an unpaired surrogate becomes U+FFFD.\<close>

fun utf16_decode :: "utf16_unit list \<Rightarrow> rune_text" where
  "utf16_decode [] = []"
| "utf16_decode [u] =
     [if is_high_surrogate u \<or> is_low_surrogate u then 0xfffd else unat u]"
| "utf16_decode (u # v # us) =
     (if is_high_surrogate u \<and> is_low_surrogate v
      then ((unat u - 0xd800) * 0x400 + (unat v - 0xdc00) + 0x10000) # utf16_decode us
      else (if is_high_surrogate u \<or> is_low_surrogate u then 0xfffd else unat u) #
           utf16_decode (v # us))"

text \<open>The Unicode scalar values: what a rune of a valid Go string can be.\<close>

definition scalar_value :: "rune \<Rightarrow> bool" where
  "scalar_value r = (r < 0xd800 \<or> 0xe000 \<le> r \<and> r \<le> 0x10ffff)"

lemma utf16_decode_single:
  assumes "\<not> is_high_surrogate u" and "\<not> is_low_surrogate u"
  shows "utf16_decode (u # us) = unat u # utf16_decode us"
  using assms by (cases us) simp_all

lemma utf16_decode_encode_rune:
  assumes "scalar_value r"
  shows "utf16_decode (utf16_encode_rune r @ us) = r # utf16_decode us"
proof (cases "r < 0x10000")
  case True
  with assms have "r < 0xd800 \<or> 0xe000 \<le> r" by (auto simp: scalar_value_def)
  moreover have "unat (word_of_nat r :: utf16_unit) = r" using True by (simp add: unat_of_nat)
  ultimately show ?thesis
    using True by (auto simp: utf16_encode_rune_def utf16_decode_single
        is_high_surrogate_def is_low_surrogate_def)
next
  case False
  define q where "q = r - 0x10000"
  from False assms have r: "r = q + 0x10000" "q < 0x100000"
    by (auto simp: scalar_value_def q_def)
  have hi: "unat (word_of_nat (0xd800 + q div 0x400) :: utf16_unit) = 0xd800 + q div 0x400"
    and lo: "unat (word_of_nat (0xdc00 + q mod 0x400) :: utf16_unit) = 0xdc00 + q mod 0x400"
    using r(2) by (simp_all add: unat_of_nat del: of_nat_add)
  have "q div 0x400 < 0x400" using r(2) by (simp add: less_mult_imp_div_less)
  then have "is_high_surrogate (word_of_nat (0xd800 + q div 0x400))"
    and "is_low_surrogate (word_of_nat (0xdc00 + q mod 0x400))"
    unfolding is_high_surrogate_def is_low_surrogate_def hi lo by simp_all
  moreover have "utf16_encode_rune r =
      [word_of_nat (0xd800 + q div 0x400), word_of_nat (0xdc00 + q mod 0x400)]"
    using r by (simp add: utf16_encode_rune_def)
  ultimately show ?thesis using r(1) by (simp add: hi lo del: of_nat_add)
qed

lemma utf16_decode_encode: "list_all scalar_value rs \<Longrightarrow> utf16_decode (utf16_encode rs) = rs"
  by (induction rs) (simp_all add: utf16_encode_def utf16_decode_encode_rune)

lemma utf16_encode_append [simp]: "utf16_encode (xs @ ys) = utf16_encode xs @ utf16_encode ys"
  by (simp add: utf16_encode_def)

lemma utf16_encode_simps [simp]:
  "utf16_encode [] = []"
  "utf16_encode (r # rs) = utf16_encode_rune r @ utf16_encode rs"
  by (simp_all add: utf16_encode_def)

text \<open>Units as big-endian byte pairs, and back.\<close>

definition unit_bytes :: "utf16_unit \<Rightarrow> byte list" where
  "unit_bytes v = [ucast (drop_bit 8 v), ucast v]"

definition bytes_unit :: "byte \<Rightarrow> byte \<Rightarrow> utf16_unit" where
  "bytes_unit hi lo = push_bit 8 (ucast hi) OR ucast lo"

fun pair_units :: "byte list \<Rightarrow> utf16_unit list" where
  "pair_units (hi # lo # rest) = bytes_unit hi lo # pair_units rest"
| "pair_units _ = []"

lemma bytes_unit_unit_bytes: "bytes_unit (ucast (drop_bit 8 v)) (ucast v) = v"
  unfolding bytes_unit_def
  by (rule bit_word_eqI) (auto simp: bit_simps not_le)

lemma pair_units_unit_bytes [simp]: "pair_units (concat (map unit_bytes us)) = us"
  by (induction us) (simp_all add: unit_bytes_def bytes_unit_unit_bytes)

lemma length_unit_bytes [simp]: "length (concat (map unit_bytes us)) = 2 * length us"
  by (induction us) (simp_all add: unit_bytes_def)

section \<open>Hexadecimal\<close>

definition upper_hex_digit :: "nat \<Rightarrow> char" where
  "upper_hex_digit n = char_of (if n < 10 then 48 + n else 55 + n)"

definition hex_value :: "char \<Rightarrow> nat option" where
  "hex_value c = (let n = of_char c :: nat in
     if 48 \<le> n \<and> n \<le> 57 then Some (n - 48)
     else if 65 \<le> n \<and> n \<le> 70 then Some (n - 55)
     else if 97 \<le> n \<and> n \<le> 102 then Some (n - 87) else None)"

text \<open>\<^verbatim>\<open>strings.ToUpper(hex.EncodeToString(data))\<close>, and \<^verbatim>\<open>hex.DecodeString\<close>, which takes both cases and
  fails on an odd length or another character.\<close>

definition hex_byte :: "byte \<Rightarrow> string" where
  "hex_byte b = [upper_hex_digit (unat b div 16), upper_hex_digit (unat b mod 16)]"

definition hex_encode_upper :: "byte list \<Rightarrow> string" where
  "hex_encode_upper data = concat (map hex_byte data)"

fun hex_decode :: "string \<Rightarrow> byte list option" where
  "hex_decode [] = Some []"
| "hex_decode [c] = None"
| "hex_decode (c # d # s) =
     (case (hex_value c, hex_value d) of
        (Some h, Some l) \<Rightarrow> map_option (\<lambda>bs. word_of_nat (16 * h + l) # bs) (hex_decode s)
      | _ \<Rightarrow> None)"

lemma hex_value_upper [simp]: "n < 16 \<Longrightarrow> hex_value (upper_hex_digit n) = Some n"
  by (simp add: hex_value_def upper_hex_digit_def)

lemma graphic_upper_hex [simp]: "n < 16 \<Longrightarrow> graphic_char (upper_hex_digit n)"
  by (simp add: graphic_char_def upper_hex_digit_def)

lemma unat_byte_bound [simp]: "unat (b :: byte) < 256"
  by (rule order_less_le_trans [OF unsigned_less]) simp

lemma unat_byte_div: "unat (b :: byte) div 16 < 16"
  by (rule less_mult_imp_div_less) simp

lemma hex_decode_encode [simp]: "hex_decode (hex_encode_upper data) = Some data"
proof (induction data)
  case (Cons b data)
  have "word_of_nat (16 * (unat b div 16) + unat b mod 16) = b"
    by (simp only: mult_div_mod_eq of_nat_unat ucast_id)
  with Cons show ?case
    by (simp add: hex_encode_upper_def hex_byte_def unat_byte_div)
qed (simp add: hex_encode_upper_def)

lemma hex_encode_graphic: "list_all graphic_char (hex_encode_upper data)"
  by (auto simp: hex_encode_upper_def hex_byte_def list_all_iff unat_byte_div)

lemma trim_space_hex [simp]: "trim_space (hex_encode_upper data) = hex_encode_upper data"
  by (rule trim_space_graphic) (rule hex_encode_graphic)

lemma length_hex_encode [simp]: "length (hex_encode_upper data) = 2 * length data"
  by (induction data) (simp_all add: hex_encode_upper_def hex_byte_def)

end
