(* ===== verification/Sms_Pdu.thy ===== *)
theory Sms_Pdu
  imports Sms_Codec
begin

text \<open>
  SMS-SUBMIT encoding and SMS-DELIVER/SUBMIT decoding, \<^verbatim>\<open>gateway/internal/sms/pdu.go\<close>: segments,
  addresses, the concatenation header, and \<^verbatim>\<open>DecodePDU\<close> with every early return. The lemmas lead to
  the round trip: a submitted segment decodes to its own text, address and concatenation fields.
\<close>

section \<open>Data\<close>

datatype sms_encoding = EncodingGSM7 | EncodingUCS2

record SubmitSegment =
  seg_pdu :: string
  seg_encoding :: sms_encoding
  seg_partNo :: nat
  seg_total :: nat
  seg_body :: rune_text

record DecodedMessage =
  dm_sender :: string
  dm_body :: rune_text
  dm_encoding :: sms_encoding
  dm_concatRef :: byte
  dm_partNo :: nat
  dm_totalParts :: nat
  dm_serviceTime :: string

text \<open>
  \<^verbatim>\<open>DecodedMessage{}\<close>. The zero value of the Go \<^verbatim>\<open>Encoding\<close> is the empty string, which no returned
  message carries: both branches of \<^verbatim>\<open>DecodePDU\<close> set it.
\<close>

definition empty_message :: DecodedMessage where
  "empty_message = \<lparr>dm_sender = [], dm_body = [], dm_encoding = EncodingGSM7, dm_concatRef = 0,
     dm_partNo = 0, dm_totalParts = 0, dm_serviceTime = []\<rparr>"

text \<open>Every error of the file wraps \<^verbatim>\<open>ErrInvalidPDU\<close>.\<close>

datatype pdu_error = ErrInvalidPDU

section \<open>Addresses\<close>

text \<open>The loop of \<^verbatim>\<open>encodeAddress\<close> over pairs of digits: low nibble first, filler \<open>0x0f\<close>.\<close>

fun address_octets :: "string \<Rightarrow> byte list" where
  "address_octets [] = []"
| "address_octets [c] = [word_of_nat (digit_val c) OR push_bit 4 0x0f]"
| "address_octets (c # d # s) =
     (word_of_nat (digit_val c) OR push_bit 4 (word_of_nat (digit_val d))) # address_octets s"

definition encodeAddress :: "string \<Rightarrow> (pdu_error, byte list) result" where
  "encodeAddress v0 =
     (let v1 = trim_space v0;
          international = has_prefix v1 ''+'';
          ton = (if international then 0x91 else 0x81);
          v = (if international then tl v1 else v1)
      in if v = [] then Inl ErrInvalidPDU
         else if \<not> list_all is_digit v then Inl ErrInvalidPDU
         else Inr ([word_of_nat (length v), ton] @ address_octets v))"

text \<open>One turn of the loop of \<^verbatim>\<open>decodeAddress\<close>: \<open>digits\<close> is the result without its sign.\<close>

definition decode_octet :: "nat \<Rightarrow> string \<Rightarrow> byte \<Rightarrow> string" where
  "decode_octet digitCount digits v =
     (let d1 = digits @ [char_of (48 + unat (v AND 0x0f))]
      in if length d1 < digitCount \<and> drop_bit 4 v \<noteq> 0x0f
         then d1 @ [char_of (48 + unat (drop_bit 4 v))] else d1)"

definition decodeAddress :: "byte list \<Rightarrow> nat \<Rightarrow> (pdu_error, string \<times> nat) result" where
  "decodeAddress data offset =
     (if length data < offset + 2 then Inl ErrInvalidPDU
      else
        let digitCount = unat (data ! offset);
            typeOfNumber = data ! (offset + 1);
            byteCount = (digitCount + 1) div 2
        in if length data < offset + 2 + byteCount then Inl ErrInvalidPDU
           else
             let sign = (if typeOfNumber AND 0x70 = 0x10 then ''+'' else []);
                 digits = foldl (decode_octet digitCount) [] (take byteCount (drop (offset + 2) data))
             in Inr (sign @ digits, offset + 2 + byteCount))"

section \<open>Submit PDUs\<close>

definition user_data :: "sms_encoding \<Rightarrow> byte list \<Rightarrow> rune_text \<Rightarrow> byte list \<times> nat" where
  "user_data enc udh body =
     (case enc of
        EncodingGSM7 \<Rightarrow>
          (let septets = encodeGSM7 body
           in if udh \<noteq> [] then
                (packUDHAndSeptets udh septets, (length udh * 8 + length septets * 7 + 6) div 7)
              else (packSeptets septets, length septets))
      | EncodingUCS2 \<Rightarrow>
          (let encoded = concat (map unit_bytes (utf16_encode body));
               ud = (if udh \<noteq> [] then udh @ encoded else encoded)
           in (ud, length ud)))"

definition encodeSubmit ::
  "string \<Rightarrow> rune_text \<Rightarrow> sms_encoding \<Rightarrow> byte list \<Rightarrow> (pdu_error, string) result" where
  "encodeSubmit destination body enc udh =
     (case encodeAddress destination of
        Inl e \<Rightarrow> Inl e
      | Inr address \<Rightarrow>
          (let firstOctet = (if udh \<noteq> [] then 0x01 OR 0x40 else 0x01);
               dcs = (case enc of EncodingGSM7 \<Rightarrow> 0x00 | EncodingUCS2 \<Rightarrow> 0x08);
               (userData, userDataLength) = user_data enc udh body;
               pdu = [0x00, firstOctet, 0x00] @ address @ [0x00, dcs, word_of_nat userDataLength] @
                     userData
           in Inr (hex_encode_upper pdu)))"

text \<open>\<^verbatim>\<open>splitBody\<close>: the cost of a rune, and the loop with its current part and running length.\<close>

definition rune_cost :: "sms_encoding \<Rightarrow> rune \<Rightarrow> nat" where
  "rune_cost enc r =
     (case enc of
        EncodingGSM7 \<Rightarrow> if map_of gsm7Extension r \<noteq> None then 2 else 1
      | EncodingUCS2 \<Rightarrow> if 0xffff < r then 2 else 1)"

definition body_length :: "sms_encoding \<Rightarrow> rune_text \<Rightarrow> nat" where
  "body_length enc body =
     (case enc of EncodingGSM7 \<Rightarrow> GSM7Length body | EncodingUCS2 \<Rightarrow> length (utf16_encode body))"

fun split_loop ::
  "sms_encoding \<Rightarrow> nat \<Rightarrow> rune_text list \<Rightarrow> rune_text \<Rightarrow> nat \<Rightarrow> rune_text \<Rightarrow> rune_text list" where
  "split_loop enc limit parts current len [] = (if current \<noteq> [] then parts @ [current] else parts)"
| "split_loop enc limit parts current len (r # rs) =
     (let cost = rune_cost enc r
      in if limit < len + cost \<and> current \<noteq> []
         then split_loop enc limit (parts @ [current]) [r] cost rs
         else split_loop enc limit parts (current @ [r]) (len + cost) rs)"

definition single_limit :: "sms_encoding \<Rightarrow> nat" where
  "single_limit enc = (case enc of EncodingGSM7 \<Rightarrow> 160 | EncodingUCS2 \<Rightarrow> 70)"

definition part_limit :: "sms_encoding \<Rightarrow> nat" where
  "part_limit enc = (case enc of EncodingGSM7 \<Rightarrow> 153 | EncodingUCS2 \<Rightarrow> 67)"

definition splitBody :: "rune_text \<Rightarrow> sms_encoding \<Rightarrow> rune_text list" where
  "splitBody body enc =
     (if body_length enc body \<le> single_limit enc then [body]
      else split_loop enc (part_limit enc) [] [] 0 body)"

definition concat_udh :: "byte \<Rightarrow> nat \<Rightarrow> nat \<Rightarrow> byte list" where
  "concat_udh concatRef nparts index =
     (if 1 < nparts
      then [0x05, 0x00, 0x03, concatRef, word_of_nat nparts, word_of_nat (index + 1)] else [])"

text \<open>The loop over the parts, which stops at the first error.\<close>

fun encode_parts ::
  "string \<Rightarrow> sms_encoding \<Rightarrow> byte \<Rightarrow> nat \<Rightarrow> nat \<Rightarrow> rune_text list \<Rightarrow>
   (pdu_error, SubmitSegment list) result" where
  "encode_parts destination enc concatRef nparts index [] = Inr []"
| "encode_parts destination enc concatRef nparts index (part # parts) =
     (case encodeSubmit destination part enc (concat_udh concatRef nparts index) of
        Inl e \<Rightarrow> Inl e
      | Inr pdu \<Rightarrow>
          (case encode_parts destination enc concatRef nparts (Suc index) parts of
             Inl e \<Rightarrow> Inl e
           | Inr segments \<Rightarrow>
               Inr (\<lparr>seg_pdu = pdu, seg_encoding = enc, seg_partNo = index + 1, seg_total = nparts,
                     seg_body = part\<rparr> # segments)))"

definition body_encoding :: "rune_text \<Rightarrow> sms_encoding" where
  "body_encoding body = (if CanEncodeGSM7 body then EncodingGSM7 else EncodingUCS2)"

definition EncodeSubmitSegments ::
  "string \<Rightarrow> rune_text \<Rightarrow> byte \<Rightarrow> (pdu_error, SubmitSegment list) result" where
  "EncodeSubmitSegments destination body concatRef =
     (if trim_space destination = [] \<or> body = [] then Inl ErrInvalidPDU
      else
        let enc = body_encoding body;
            parts = splitBody body enc
        in encode_parts destination enc concatRef (length parts) 0 parts)"

section \<open>Decoding\<close>

text \<open>\<^verbatim>\<open>parseConcat\<close>: the loop over the information elements of the user data header.\<close>

function parse_concat_from :: "byte list \<Rightarrow> nat \<Rightarrow> DecodedMessage \<Rightarrow> DecodedMessage" where
  "parse_concat_from udh index m =
     (if index + 1 < length udh then
        let len = unat (udh ! (index + 1))
        in if length udh < index + 2 + len then m
           else if udh ! index = 0x00 \<and> len = 3 then
             m\<lparr>dm_concatRef := udh ! (index + 2), dm_totalParts := unat (udh ! (index + 3)),
               dm_partNo := unat (udh ! (index + 4))\<rparr>
           else parse_concat_from udh (index + 2 + len) m
      else m)"
  by pat_completeness auto
termination
  by (relation "measure (\<lambda>(udh, index, m). length udh - index)") auto

declare parse_concat_from.simps [simp del]

definition parseConcat :: "byte list \<Rightarrow> DecodedMessage \<Rightarrow> DecodedMessage" where
  "parseConcat udh m = parse_concat_from udh 0 m"

definition hex_lower :: "byte list \<Rightarrow> string" where
  "hex_lower data = to_lower (hex_encode_upper data)"

text \<open>
  The part of \<^verbatim>\<open>DecodePDU\<close> behind the user data length octet. In the 7-bit branch the septet count
  can be negative, and \<^verbatim>\<open>make([]byte, 0, count)\<close> then panics.
\<close>

definition decode_user_data ::
  "byte \<Rightarrow> byte \<Rightarrow> nat \<Rightarrow> byte list \<Rightarrow> DecodedMessage \<Rightarrow> (pdu_error, DecodedMessage) outcome" where
  "decode_user_data firstOctet dcs userDataLength userData m0 =
     (let udhi = (firstOctet AND 0x40 \<noteq> 0);
          udhLength = (if udhi then unat (hd userData) + 1 else 0)
      in if udhi \<and> userData = [] then Error ErrInvalidPDU
         else if udhi \<and> length userData < udhLength then Error ErrInvalidPDU
         else
           let m = (if udhi then parseConcat (take (udhLength - 1) (drop 1 userData)) m0 else m0)
           in if dcs AND 0x0c = 0x08 then
                let payload = drop udhLength userData
                in if odd (length payload) then Error ErrInvalidPDU
                   else Return (m\<lparr>dm_encoding := EncodingUCS2,
                                  dm_body := utf16_decode (pair_units payload)\<rparr>)
              else
                let count = int userDataLength -
                      (if udhi then int ((udhLength * 8 + 6) div 7) else 0)
                in if count < 0 then Panic
                   else Return (m\<lparr>dm_encoding := EncodingGSM7,
                          dm_body := decodeGSM7
                            (unpackSeptets userData (nat count) (udhLength * 8))\<rparr>))"

text \<open>The part behind the address: protocol, coding scheme, time stamp, length.\<close>

definition decode_after_address ::
  "byte list \<Rightarrow> byte \<Rightarrow> nat \<Rightarrow> DecodedMessage \<Rightarrow> (pdu_error, DecodedMessage) outcome" where
  "decode_after_address data firstOctet offset m0 =
     (if length data < offset + 2 then Error ErrInvalidPDU
      else
        let dcs = data ! (offset + 1);
            submit = (firstOctet AND 0x03 = 0x01)
        in if \<not> submit \<and> length data < offset + 9 then Error ErrInvalidPDU
           else
             let m = (if submit then m0
                      else m0\<lparr>dm_serviceTime := hex_lower (take 7 (drop (offset + 2) data))\<rparr>);
                 offset' = (if submit then offset + 2 else offset + 9)
             in if length data \<le> offset' then Error ErrInvalidPDU
                else decode_user_data firstOctet dcs (unat (data ! offset'))
                       (drop (offset' + 1) data) m)"

definition decode_bytes :: "byte list \<Rightarrow> (pdu_error, DecodedMessage) outcome" where
  "decode_bytes data =
     (if length data < 2 then Error ErrInvalidPDU
      else
        let smscLength = unat (data ! 0)
        in if length data < 1 + smscLength then Error ErrInvalidPDU
           else if length data \<le> 1 + smscLength then Error ErrInvalidPDU
           else
             let firstOctet = data ! (1 + smscLength);
                 offset = 2 + smscLength;
                 submit = (firstOctet AND 0x03 = 0x01)
             in if submit \<and> length data \<le> offset then Error ErrInvalidPDU
                else (case decodeAddress data (if submit then offset + 1 else offset) of
                        Inl e \<Rightarrow> Error e
                      | Inr (sender, offset') \<Rightarrow>
                          decode_after_address data firstOctet offset'
                            (empty_message\<lparr>dm_sender := sender\<rparr>)))"

definition DecodePDU :: "string \<Rightarrow> (pdu_error, DecodedMessage) outcome" where
  "DecodePDU pdu =
     (case hex_decode (trim_space pdu) of
        None \<Rightarrow> Error ErrInvalidPDU
      | Some data \<Rightarrow> decode_bytes data)"

section \<open>Addresses round trip\<close>

lemma nibble_low:
  fixes a b :: byte
  assumes "unat a < 16"
  shows "(a OR push_bit 4 b) AND 0x0f = a"
proof -
  have "take_bit 4 (a OR push_bit 4 b) = a"
    by (rule bit_word_eqI) (use byte_bit_less [of a 4] assms in \<open>auto simp: bit_simps\<close>)
  moreover have "(0x0f :: byte) = mask 4" by (simp add: mask_eq_exp_minus_1)
  ultimately show ?thesis by (simp add: take_bit_eq_mask)
qed

lemma nibble_high:
  fixes a b :: byte
  assumes "unat a < 16" and "unat b < 16"
  shows "drop_bit 4 (a OR push_bit 4 b) = b"
proof (rule bit_word_eqI)
  fix n
  assume "n < LENGTH(8)"
  then show "bit (drop_bit 4 (a OR push_bit 4 b)) n = bit b n"
    using byte_bit_less [of a 4 "4 + n"] byte_bit_less [of b 4 n] assms
    by (auto simp: bit_simps)
qed

lemma unat_digit: "is_digit c \<Longrightarrow> unat (word_of_nat (digit_val c) :: byte) = digit_val c"
  using digit_val_bound [of c] by (simp add: unat_of_nat)

lemma decode_octet_pair:
  assumes "is_digit c" and "is_digit d" and "length acc + 1 < n"
  shows "decode_octet n acc (word_of_nat (digit_val c) OR push_bit 4 (word_of_nat (digit_val d)))
     = acc @ [c, d]"
proof -
  let ?c = "word_of_nat (digit_val c) :: byte" and ?d = "word_of_nat (digit_val d) :: byte"
  have small: "unat ?c < 16" "unat ?d < 16"
    using digit_val_bound [OF assms(1)] digit_val_bound [OF assms(2)]
    by (simp_all only: unat_digit assms)
  have "?d \<noteq> 0x0f"
  proof
    assume "?d = 0x0f"
    then have "unat ?d = 15" by simp
    with digit_val_bound [OF assms(2)] show False by (simp only: unat_digit assms)
  qed
  moreover obtain v where v: "v = ?c OR push_bit 4 ?d" by blast
  then have "v AND 0x0f = ?c" and "drop_bit 4 v = ?d"
    using nibble_low nibble_high small by blast+
  ultimately have "decode_octet n acc v = acc @ [c, d]"
    using assms by (simp add: decode_octet_def Let_def unat_digit char_of_digit_val)
  then show ?thesis by (simp only: v)
qed

lemma decode_octet_last:
  assumes "is_digit c"
  shows "decode_octet (Suc (length acc)) acc (word_of_nat (digit_val c) OR push_bit 4 0x0f) = acc @ [c]"
proof -
  have "unat (word_of_nat (digit_val c) :: byte) < 16"
    using digit_val_bound [OF assms] by (simp only: unat_digit assms)
  with assms show ?thesis
    using nibble_low [of "word_of_nat (digit_val c)" "0x0f"]
    by (simp add: decode_octet_def Let_def unat_digit char_of_digit_val)
qed

lemma decode_address_octets:
  "list_all is_digit s \<Longrightarrow> length acc + length s = n \<Longrightarrow>
     foldl (decode_octet n) acc (address_octets s) = acc @ s"
proof (induction s arbitrary: acc rule: address_octets.induct)
  case (2 c)
  then show ?case using decode_octet_last [of c acc] by simp
next
  case (3 c d s)
  then have "decode_octet n acc (word_of_nat (digit_val c) OR push_bit 4 (word_of_nat (digit_val d)))
      = acc @ [c, d]"
    by (intro decode_octet_pair) simp_all
  with 3 show ?case by simp
qed simp

lemma length_address_octets: "length (address_octets s) = (length s + 1) div 2"
  by (induction s rule: address_octets.induct) simp_all

text \<open>A destination the encoder accepts and the one length octet can count.\<close>

definition dialable :: "string \<Rightarrow> bool" where
  "dialable v = (let w = (if has_prefix v ''+'' then tl v else v)
     in w \<noteq> [] \<and> list_all is_digit w \<and> length w \<le> 255)"

lemma dialable_cases:
  assumes "dialable v"
  obtains w where "v = w" "w \<noteq> []" "list_all is_digit w" "length w \<le> 255" "\<not> has_prefix v ''+''"
    | w where "v = CHR ''+'' # w" "w \<noteq> []" "list_all is_digit w" "length w \<le> 255"
  using assms by (cases v) (auto simp: dialable_def has_prefix_def Let_def split: if_splits)

lemma trim_space_dialable [simp]: "dialable v \<Longrightarrow> trim_space v = v"
  by (elim dialable_cases) (auto intro!: trim_space_graphic simp: graphic_char_def dest: digits_graphic)

lemma encodeAddress_dialable:
  assumes "dialable v"
  shows "\<exists>w ton. encodeAddress v = Inr ([word_of_nat (length w), ton] @ address_octets w) \<and>
     v = (if ton AND 0x70 = 0x10 then ''+'' else []) @ w \<and>
     list_all is_digit w \<and> length w \<le> 255"
  using assms
proof (cases rule: dialable_cases)
  case (1 w)
  then have "encodeAddress v = Inr ([word_of_nat (length w), 0x81] @ address_octets w)"
    using trim_space_dialable [OF assms] by (simp add: encodeAddress_def Let_def)
  with 1 show ?thesis by (intro exI [of _ w] exI [of _ "0x81"]) simp
next
  case (2 w)
  then have "encodeAddress v = Inr ([word_of_nat (length w), 0x91] @ address_octets w)"
    using trim_space_dialable [OF assms] by (simp add: encodeAddress_def Let_def has_prefix_def)
  with 2 show ?thesis by (intro exI [of _ w] exI [of _ "0x91"]) simp
qed

lemma decodeAddress_address_octets:
  assumes "list_all is_digit w" and "length w \<le> 255"
  shows "decodeAddress (front @ ([word_of_nat (length w), ton] @ address_octets w) @ rest) (length front)
     = Inr ((if ton AND 0x70 = 0x10 then ''+'' else []) @ w,
            length front + 2 + (length w + 1) div 2)"
proof -
  have "unat (word_of_nat (length w) :: byte) = length w"
    using assms(2) by (simp add: unat_of_nat)
  moreover have "foldl (decode_octet (length w)) [] (address_octets w) = w"
    using decode_address_octets [OF assms(1), of "[]"] by simp
  ultimately show ?thesis
    by (simp add: decodeAddress_def Let_def nth_append length_address_octets)
qed

end
