(* ===== verification/Sms_Roundtrip.thy ===== *)
theory Sms_Roundtrip
  imports Sms_Pdu
begin

text \<open>
  Correctness of the SMS codec: splitting keeps the text and the size limits, and every segment
  that \<^verbatim>\<open>EncodeSubmitSegments\<close> produces decodes to its own text, sender and concatenation fields.
  Two defects of the code are theorems as well: a decoder panic on a short user data length, and
  the truncated user data of a message that ends in the septet \<open>0\<close>.
\<close>

section \<open>Splitting\<close>

definition total_cost :: "sms_encoding \<Rightarrow> rune_text \<Rightarrow> nat" where
  "total_cost enc rs = sum_list (map (rune_cost enc) rs)"

lemma total_cost_simps [simp]:
  "total_cost enc [] = 0"
  "total_cost enc (r # rs) = rune_cost enc r + total_cost enc rs"
  "total_cost enc (xs @ ys) = total_cost enc xs + total_cost enc ys"
  by (simp_all add: total_cost_def)

lemma rune_cost_le_2: "rune_cost enc r \<le> 2"
  by (simp add: rune_cost_def split: sms_encoding.splits)

lemma GSM7Length_total_cost: "GSM7Length rs = total_cost EncodingGSM7 rs"
  by (induction rs) (simp_all add: rune_cost_def)

lemma utf16_length_total_cost: "length (utf16_encode rs) \<le> total_cost EncodingUCS2 rs"
proof (induction rs)
  case (Cons r rs)
  have "length (utf16_encode_rune r) \<le> rune_cost EncodingUCS2 r"
    by (simp add: utf16_encode_rune_def rune_cost_def)
  with Cons show ?case by simp
qed simp

lemma body_length_total_cost: "body_length enc rs \<le> total_cost enc rs"
  by (cases enc) (simp_all add: body_length_def GSM7Length_total_cost utf16_length_total_cost)

lemma concat_split_loop:
  "concat (split_loop enc limit parts current len rs) = concat parts @ current @ rs"
  by (induction enc limit parts current len rs rule: split_loop.induct) (auto simp: Let_def)

lemma split_loop_limits:
  assumes "2 \<le> limit" and "len = total_cost enc current" and "len \<le> limit"
    and "\<And>p. p \<in> set parts \<Longrightarrow> p \<noteq> [] \<and> total_cost enc p \<le> limit"
  shows "\<forall>p \<in> set (split_loop enc limit parts current len rs). p \<noteq> [] \<and> total_cost enc p \<le> limit"
  using assms
proof (induction enc limit parts current len rs rule: split_loop.induct)
  case (2 enc limit parts current len r rs)
  let ?cost = "rune_cost enc r"
  show ?case
  proof (cases "limit < len + ?cost \<and> current \<noteq> []")
    case True
    have "\<forall>p \<in> set (split_loop enc limit (parts @ [current]) [r] ?cost rs).
        p \<noteq> [] \<and> total_cost enc p \<le> limit"
      by (rule "2.IH"(1) [OF refl True])
        (use "2.prems" True rune_cost_le_2 [of enc r] in \<open>auto\<close>)
    with True show ?thesis by (simp add: Let_def)
  next
    case False
    have "len + ?cost \<le> limit"
      using False "2.prems" rune_cost_le_2 [of enc r] by (cases current) auto
    then have "\<forall>p \<in> set (split_loop enc limit parts (current @ [r]) (len + ?cost) rs).
        p \<noteq> [] \<and> total_cost enc p \<le> limit"
      by (intro "2.IH"(2) [OF refl False]) (use "2.prems" in auto)
    then show ?thesis unfolding split_loop.simps Let_def if_not_P [OF False] .
  qed
qed auto

lemma concat_splitBody: "concat (splitBody body enc) = body"
  by (simp add: splitBody_def concat_split_loop)

lemma splitBody_parts:
  assumes "p \<in> set (splitBody body enc)" and "body \<noteq> []"
  shows "p \<noteq> []"
    and "body_length enc p \<le> (if length (splitBody body enc) = 1 then single_limit enc else part_limit enc)"
proof -
  have loop: "\<forall>q \<in> set (split_loop enc (part_limit enc) [] [] 0 body).
      q \<noteq> [] \<and> total_cost enc q \<le> part_limit enc"
    by (rule split_loop_limits) (auto simp: part_limit_def split: sms_encoding.splits)
  have "part_limit enc \<le> single_limit enc"
    by (cases enc) (simp_all add: part_limit_def single_limit_def)
  with loop assms body_length_total_cost [of enc p] show "p \<noteq> []"
    and "body_length enc p \<le> (if length (splitBody body enc) = 1 then single_limit enc else part_limit enc)"
    by (auto simp: splitBody_def split: if_splits)
qed

text \<open>Splitting a text loses nothing, makes no empty part, and keeps every part within the
  160/153 septets or 70/67 code units that one message of its kind carries.\<close>

theorem splitBody_correct:
  assumes "body \<noteq> []"
  shows "concat (splitBody body enc) = body \<and>
     list_all (\<lambda>p. p \<noteq> [] \<and> body_length enc p \<le>
       (if length (splitBody body enc) = 1 then single_limit enc else part_limit enc))
       (splitBody body enc)"
  using splitBody_parts [OF _ assms] by (simp add: concat_splitBody list_all_iff)

theorem splitBody_correct_witness:
  "concat (splitBody [104, 105] EncodingGSM7) = [104, 105] \<and>
   list_all (\<lambda>p. p \<noteq> [] \<and> body_length EncodingGSM7 p \<le>
       (if length (splitBody [104, 105] EncodingGSM7) = 1 then single_limit EncodingGSM7
        else part_limit EncodingGSM7)) (splitBody [104, 105] EncodingGSM7)"
  by (rule splitBody_correct) simp

section \<open>The text codec behind a header\<close>

text \<open>Texts on which the two encodings are faithful.\<close>

definition encodable :: "sms_encoding \<Rightarrow> rune_text \<Rightarrow> bool" where
  "encodable enc body =
     (case enc of EncodingGSM7 \<Rightarrow> gsm7_safe body | EncodingUCS2 \<Rightarrow> list_all scalar_value body)"

lemma encodable_append [simp]: "encodable enc (xs @ ys) \<longleftrightarrow> encodable enc xs \<and> encodable enc ys"
  by (cases enc) (simp_all add: encodable_def)

lemma encodable_concat: "encodable enc (concat ps) \<Longrightarrow> p \<in> set ps \<Longrightarrow> encodable enc p"
  by (induction ps) auto

definition dcs_of :: "sms_encoding \<Rightarrow> byte" where
  "dcs_of enc = (case enc of EncodingGSM7 \<Rightarrow> 0x00 | EncodingUCS2 \<Rightarrow> 0x08)"

text \<open>The two headers the encoder writes: none, or the six octets of a concatenation element.\<close>

lemma parseConcat_element:
  "parseConcat [0x00, 0x03, ref, n, i] m =
     m\<lparr>dm_concatRef := ref, dm_totalParts := unat n, dm_partNo := unat i\<rparr>"
  by (simp add: parseConcat_def parse_concat_from.simps [of "[0x00, 0x03, ref, n, i]" 0 m] Let_def)

lemma gsm7_safe_CanEncode: "gsm7_safe body \<Longrightarrow> CanEncodeGSM7 body"
  by (simp add: gsm7_safe_def)

lemma decode_gsm7_plain:
  assumes "gsm7_safe body"
  shows "decode_user_data 0x01 0x00 (length (encodeGSM7 body)) (packSeptets (encodeGSM7 body)) m =
     Return (m\<lparr>dm_encoding := EncodingGSM7, dm_body := body\<rparr>)"
  using assms
  by (simp add: decode_user_data_def Let_def decodeGSM7_encodeGSM7
      unpackSeptets_packSeptets [OF encodeGSM7_septets])

text \<open>Packing behind a header leaves the header bytes as they are.\<close>

lemma set_stream_bit_header:
  assumes "length pre \<le> p"
  shows "\<exists>rest'. set_stream_bit (pre @ rest) p k = pre @ rest'"
  using assms by (auto simp: set_stream_bit_def Let_def list_update_append)

lemma pack_bit_header:
  assumes "8 * length pre \<le> pos"
  shows "\<exists>rest'. pack_bit pos septet (pre @ rest) b = pre @ rest'"
proof -
  have "length pre \<le> pos div 8" using assms by simp
  then have "length pre \<le> pos div 8 + (pos mod 8 + b) div 8" by simp
  from set_stream_bit_header [OF this] show ?thesis by (auto simp: pack_bit_def)
qed

lemma foldl_pack_bit_header:
  assumes "8 * length pre \<le> pos"
  shows "\<exists>rest'. foldl (pack_bit pos septet) (pre @ rest) bs = pre @ rest'"
proof (induction bs arbitrary: rest)
  case (Cons b bs)
  obtain rest' where "pack_bit pos septet (pre @ rest) b = pre @ rest'"
    using pack_bit_header [OF assms] by blast
  with Cons show ?case by simp
qed simp

lemma packUDH_header: "\<exists>rest. packUDHAndSeptets udh septets = udh @ rest"
proof (induction septets rule: rev_induct)
  case Nil
  show ?case by (simp add: packUDHAndSeptets_def packBits_def)
next
  case (snoc s ss)
  then obtain rest where "packUDHAndSeptets udh ss = udh @ rest" by blast
  then have "packUDHAndSeptets udh (ss @ [s]) =
      foldl (pack_bit (length udh * 8 + length ss * 7) s) (udh @ rest) [0..<7]"
    by (simp add: packUDHAndSeptets_def packBits_def enumerate_append_eq pack_septet_def)
  then show ?case using foldl_pack_bit_header [of udh] by simp
qed

text \<open>What the decoder makes of a header and its payload.\<close>

definition header_fields :: "byte list \<Rightarrow> DecodedMessage \<Rightarrow> DecodedMessage" where
  "header_fields udh m = (if udh = [] then m else parseConcat (tl udh) m)"

definition good_udh :: "byte list \<Rightarrow> bool" where
  "good_udh udh = (udh = [] \<or> unat (hd udh) + 1 = length udh)"

lemma good_udh_concat [simp]: "good_udh (concat_udh ref n i)"
  by (simp add: good_udh_def concat_udh_def)

lemma header_fields_concat:
  "header_fields (concat_udh ref n i) m =
     (if 1 < n then m\<lparr>dm_concatRef := ref, dm_totalParts := n mod 256, dm_partNo := (i + 1) mod 256\<rparr>
      else m)"
  by (simp add: header_fields_def concat_udh_def parseConcat_element unat_of_nat del: of_nat_Suc)

lemma decode_user_data_gsm7:
  assumes "gsm7_safe body" and "good_udh udh"
    and "fo AND 0x40 = (if udh = [] then 0 else 0x40)"
    and "user_data EncodingGSM7 udh body = (ud, n)"
  shows "decode_user_data fo 0x00 n ud m =
     Return ((header_fields udh m)\<lparr>dm_encoding := EncodingGSM7, dm_body := body\<rparr>)"
proof (cases "udh = []")
  case True
  with assms show ?thesis
    by (auto simp: decode_user_data_def Let_def user_data_def decodeGSM7_encodeGSM7 header_fields_def
        unpackSeptets_packSeptets [OF encodeGSM7_septets])
next
  case False
  let ?s = "encodeGSM7 body"
  obtain rest where rest: "packUDHAndSeptets udh ?s = udh @ rest" using packUDH_header by blast
  from assms(4) False have ud: "ud = udh @ rest" "n = (length udh * 8 + length ?s * 7 + 6) div 7"
    by (simp_all add: user_data_def Let_def rest)
  have "int n - int ((length udh * 8 + 6) div 7) = int (length ?s)"
    unfolding ud(2) by (simp add: div_add1_eq [of "length udh * 8 + 6"] add.commute add.left_commute)
  moreover have "decodeGSM7 (unpackSeptets (udh @ rest) (length ?s) (length udh * 8)) = body"
    using unpackSeptets_packUDHAndSeptets [of ?s udh, OF encodeGSM7_septets]
    by (simp add: rest decodeGSM7_encodeGSM7 assms(1))
  ultimately show ?thesis
    using False assms(2,3)
    by (simp add: decode_user_data_def Let_def ud(1) good_udh_def header_fields_def drop_Suc)
qed

lemma decode_user_data_ucs2:
  assumes "list_all scalar_value body" and "good_udh udh"
    and "fo AND 0x40 = (if udh = [] then 0 else 0x40)"
    and "user_data EncodingUCS2 udh body = (ud, n)"
  shows "decode_user_data fo 0x08 n' ud m =
     Return ((header_fields udh m)\<lparr>dm_encoding := EncodingUCS2, dm_body := body\<rparr>)"
proof -
  let ?e = "concat (map unit_bytes (utf16_encode body))"
  from assms(4) have "ud = udh @ ?e" by (auto simp: user_data_def Let_def split: if_splits)
  then show ?thesis
    using assms(1-3)
    by (cases "udh = []")
      (simp_all add: decode_user_data_def Let_def good_udh_def header_fields_def drop_Suc
        utf16_decode_encode)
qed

lemma decode_user_data_encoded:
  assumes "encodable enc body" and "good_udh udh"
    and "fo AND 0x40 = (if udh = [] then 0 else 0x40)"
    and "user_data enc udh body = (ud, n)"
  shows "decode_user_data fo (dcs_of enc) n ud m =
     Return ((header_fields udh m)\<lparr>dm_encoding := enc, dm_body := body\<rparr>)"
  using assms decode_user_data_gsm7 decode_user_data_ucs2
  by (cases enc) (simp_all add: encodable_def dcs_of_def)

section \<open>Whole PDUs\<close>

lemma decode_after_address_submit:
  assumes "fo AND 0x03 = 0x01" and "off = length front"
  shows "decode_after_address (front @ [0x00, dcs, udl] @ ud) fo off m =
     decode_user_data fo dcs (unat udl) ud m"
  using assms by (simp add: decode_after_address_def Let_def nth_append)

lemma decode_bytes_submit:
  assumes "fo AND 0x03 = 0x01" and "list_all is_digit w" and "length w \<le> 255"
  shows "decode_bytes ([0x00, fo, 0x00] @ ([word_of_nat (length w), ton] @ address_octets w) @
       [0x00, dcs, udl] @ ud) =
     decode_user_data fo dcs (unat udl) ud
       (empty_message\<lparr>dm_sender := (if ton AND 0x70 = 0x10 then ''+'' else []) @ w\<rparr>)"
proof -
  let ?front = "[0x00, fo, 0x00] :: byte list"
  let ?addr = "[word_of_nat (length w), ton] @ address_octets w"
  let ?data = "?front @ ?addr @ [0x00, dcs, udl] @ ud"
  let ?sender = "(if ton AND 0x70 = 0x10 then ''+'' else []) @ w"
  have addr: "decodeAddress ?data 3 = Inr (?sender, 3 + 2 + (length w + 1) div 2)"
    using decodeAddress_address_octets [OF assms(2,3), of ?front ton "[0x00, dcs, udl] @ ud"]
    by (simp add: numeral_3_eq_3)
  have "decode_after_address ((?front @ ?addr) @ [0x00, dcs, udl] @ ud) fo
      (3 + 2 + (length w + 1) div 2) m = decode_user_data fo dcs (unat udl) ud m" for m
    by (rule decode_after_address_submit) (simp_all add: assms(1) length_address_octets)
  with addr show ?thesis
    using assms(1) by (simp add: decode_bytes_def Let_def)
qed

lemma user_data_length:
  assumes "encodable enc body" and "user_data enc udh body = (ud, n)" and "length udh \<le> 6"
    and "body_length enc body \<le> (if udh = [] then single_limit enc else part_limit enc)"
  shows "n < 256"
proof (cases enc)
  case EncodingGSM7
  then have "length (encodeGSM7 body) = GSM7Length body"
    using assms(1) by (simp add: encodable_def gsm7_safe_CanEncode length_encodeGSM7)
  then show ?thesis
    using assms EncodingGSM7
    by (auto simp: user_data_def Let_def body_length_def single_limit_def part_limit_def
        split: if_splits)
next
  case EncodingUCS2
  then show ?thesis
    using assms
    by (auto simp: user_data_def Let_def body_length_def single_limit_def part_limit_def
        split: if_splits)
qed

text \<open>Encoding one part and decoding the PDU gives the part back, with the header's fields.\<close>

lemma decode_encodeSubmit:
  assumes "dialable dest" and "encodable enc body" and "good_udh udh" and "length udh \<le> 6"
    and "body_length enc body \<le> (if udh = [] then single_limit enc else part_limit enc)"
  shows "\<exists>pdu. encodeSubmit dest body enc udh = Inr pdu \<and>
     DecodePDU pdu = Return ((header_fields udh (empty_message\<lparr>dm_sender := dest\<rparr>))
       \<lparr>dm_encoding := enc, dm_body := body\<rparr>)"
proof -
  obtain w ton where addr: "encodeAddress dest = Inr ([word_of_nat (length w), ton] @ address_octets w)"
    and dest: "dest = (if ton AND 0x70 = 0x10 then ''+'' else []) @ w"
    and w: "list_all is_digit w" "length w \<le> 255"
    using encodeAddress_dialable [OF assms(1)] by blast
  obtain ud n where ud: "user_data enc udh body = (ud, n)" by fastforce
  define fo :: byte where "fo = (if udh \<noteq> [] then 0x01 OR 0x40 else 0x01)"
  have fo: "fo AND 0x03 = 0x01" "fo AND 0x40 = (if udh = [] then 0 else 0x40)"
    by (simp_all add: fo_def)
  let ?data = "[0x00, fo, 0x00] @ ([word_of_nat (length w), ton] @ address_octets w) @
       [0x00, dcs_of enc, word_of_nat n] @ ud"
  have "encodeSubmit dest body enc udh = Inr (hex_encode_upper ?data)"
    unfolding encodeSubmit_def addr fo_def
    by (simp add: ud Let_def dcs_of_def)
  moreover have "unat (word_of_nat n :: byte) = n"
    using user_data_length [OF assms(2) ud assms(4,5)] by (simp add: unat_of_nat)
  then have "decode_bytes ?data = Return ((header_fields udh (empty_message\<lparr>dm_sender := dest\<rparr>))
       \<lparr>dm_encoding := enc, dm_body := body\<rparr>)"
    unfolding decode_bytes_submit [OF fo(1) w] dest [symmetric]
    using decode_user_data_encoded [OF assms(2,3) fo(2) ud] by simp
  ultimately show ?thesis by (simp add: DecodePDU_def)
qed

definition decoded_part :: "string \<Rightarrow> sms_encoding \<Rightarrow> byte \<Rightarrow> nat \<Rightarrow> nat \<Rightarrow> rune_text \<Rightarrow> DecodedMessage" where
  "decoded_part dest enc ref n index part =
     \<lparr>dm_sender = dest, dm_body = part, dm_encoding = enc,
      dm_concatRef = (if 1 < n then ref else 0),
      dm_partNo = (if 1 < n then (index + 1) mod 256 else 0),
      dm_totalParts = (if 1 < n then n mod 256 else 0), dm_serviceTime = []\<rparr>"

lemma decode_part:
  assumes "dialable dest" and "encodable enc part"
    and "body_length enc part \<le> (if n \<le> 1 then single_limit enc else part_limit enc)"
  shows "\<exists>pdu. encodeSubmit dest part enc (concat_udh ref n index) = Inr pdu \<and>
     DecodePDU pdu = Return (decoded_part dest enc ref n index part)"
proof -
  have "\<exists>pdu. encodeSubmit dest part enc (concat_udh ref n index) = Inr pdu \<and>
     DecodePDU pdu = Return ((header_fields (concat_udh ref n index) (empty_message\<lparr>dm_sender := dest\<rparr>))
       \<lparr>dm_encoding := enc, dm_body := part\<rparr>)"
    by (rule decode_encodeSubmit [OF assms(1,2) good_udh_concat])
      (use assms(3) in \<open>auto simp: concat_udh_def\<close>)
  then show ?thesis
    by (simp add: header_fields_concat decoded_part_def empty_message_def split: if_splits)
qed

lemma encode_parts_decode:
  assumes "dialable dest"
    and "\<And>p. p \<in> set parts \<Longrightarrow> encodable enc p \<and>
      body_length enc p \<le> (if n \<le> 1 then single_limit enc else part_limit enc)"
  shows "\<exists>segs. encode_parts dest enc ref n index parts = Inr segs \<and>
     map seg_body segs = parts \<and>
     list_all (\<lambda>s. seg_encoding s = enc \<and> seg_total s = n) segs \<and>
     map seg_partNo segs = map Suc [index..<index + length parts] \<and>
     map (DecodePDU \<circ> seg_pdu) segs =
       map2 (\<lambda>i p. Return (decoded_part dest enc ref n i p)) [index..<index + length parts] parts"
  using assms(2)
proof (induction parts arbitrary: index)
  case (Cons p ps)
  obtain pdu where "encodeSubmit dest p enc (concat_udh ref n index) = Inr pdu"
    and "DecodePDU pdu = Return (decoded_part dest enc ref n index p)"
    using decode_part [OF assms(1), of enc p n ref index] Cons.prems by force
  moreover have "[index..<index + length (p # ps)] = index # [Suc index..<Suc index + length ps]"
    by (simp add: upt_rec [of index] del: upt_Suc)
  moreover have "\<exists>segs. encode_parts dest enc ref n (Suc index) ps = Inr segs \<and>
     map seg_body segs = ps \<and>
     list_all (\<lambda>s. seg_encoding s = enc \<and> seg_total s = n) segs \<and>
     map seg_partNo segs = map Suc [Suc index..<Suc index + length ps] \<and>
     map (DecodePDU \<circ> seg_pdu) segs =
       map2 (\<lambda>i p. Return (decoded_part dest enc ref n i p)) [Suc index..<Suc index + length ps] ps"
    by (rule Cons.IH) (rule Cons.prems, simp)
  ultimately show ?case by (auto simp: comp_def simp del: upt_Suc)
qed simp

text \<open>C4: every segment of a text decodes to the part of the text it was made from, with the
  destination as sender, the encoding, and, for a text of several parts, the reference, the part
  count and the part number (modulo 256, the octets of the header); the parts make up the text.\<close>

theorem EncodeSubmitSegments_roundtrip:
  assumes "dialable dest" and "body \<noteq> []" and "encodable (body_encoding body) body"
  shows "\<exists>segs parts. EncodeSubmitSegments dest body ref = Inr segs \<and>
     parts = map seg_body segs \<and> concat parts = body \<and>
     map seg_partNo segs = [1..<length segs + 1] \<and>
     map (DecodePDU \<circ> seg_pdu) segs =
       map2 (\<lambda>i p. Return (decoded_part dest (body_encoding body) ref (length segs) i p))
         [0..<length segs] parts"
proof -
  let ?enc = "body_encoding body"
  let ?parts = "splitBody body ?enc"
  have ne: "?parts \<noteq> []" using concat_splitBody [of body ?enc] assms(2) by (metis concat.simps(1))
  have "encodable ?enc p \<and> body_length ?enc p \<le>
      (if length ?parts \<le> 1 then single_limit ?enc else part_limit ?enc)" if "p \<in> set ?parts" for p
  proof -
    have "encodable ?enc p"
      using encodable_concat [of ?enc ?parts p] that assms(3) by (simp add: concat_splitBody)
    moreover have "length ?parts \<le> 1 \<longleftrightarrow> length ?parts = 1"
      using ne by (cases ?parts) simp_all
    ultimately show ?thesis using splitBody_parts(2) [OF that assms(2)] by simp
  qed
  from encode_parts_decode [where ref = ref and index = 0, OF assms(1) this]
  obtain segs where segs: "encode_parts dest ?enc ref (length ?parts) 0 ?parts = Inr segs"
    "map seg_body segs = ?parts" "map seg_partNo segs = map Suc [0..<length ?parts]"
    "map (DecodePDU \<circ> seg_pdu) segs =
       map2 (\<lambda>i p. Return (decoded_part dest ?enc ref (length ?parts) i p)) [0..<length ?parts] ?parts"
    by auto
  have len: "length segs = length ?parts" using arg_cong [OF segs(2), of length] by simp
  have "dest \<noteq> []" using assms(1) by (auto simp: dialable_def has_prefix_def)
  then have "EncodeSubmitSegments dest body ref = Inr segs"
    using segs(1) assms by (simp add: EncodeSubmitSegments_def Let_def)
  moreover have "map Suc [0..<length ?parts] = [1..<length segs + 1]"
    by (simp add: map_Suc_upt len)
  ultimately show ?thesis
    using segs concat_splitBody [of body ?enc] len by auto
qed

lemma gsm7_tables_simp:
  "gsm7Reverse r \<noteq> None \<or> map_of gsm7Extension r \<noteq> None \<longleftrightarrow>
     r \<in> set gsm7Alphabet \<or> r \<in> set (map fst gsm7Extension)"
  by (simp add: gsm7Reverse_None map_of_eq_None_iff)

lemma gsm7_safe_replicate: "gsm7_safe [r] \<Longrightarrow> gsm7_safe (replicate n r)"
  by (induction n) simp_all

lemma gsm7_safe_letter_a: "gsm7_safe [97]"
  unfolding gsm7_safe_Cons gsm7_tables_simp by (simp add: gsm7Alphabet_def)

theorem EncodeSubmitSegments_roundtrip_witness:
  "\<exists>segs parts. EncodeSubmitSegments ''+8613800138000'' (replicate 200 97) 7 = Inr segs \<and>
     parts = map seg_body segs \<and> concat parts = replicate 200 97 \<and>
     map seg_partNo segs = [1..<length segs + 1] \<and>
     map (DecodePDU \<circ> seg_pdu) segs =
       map2 (\<lambda>i p. Return (decoded_part ''+8613800138000'' (body_encoding (replicate 200 97)) 7
               (length segs) i p))
         [0..<length segs] parts"
proof (rule EncodeSubmitSegments_roundtrip)
  show "dialable ''+8613800138000''"
    by (simp add: dialable_def has_prefix_def is_digit_def)
  have safe: "gsm7_safe (replicate 200 97)"
    by (rule gsm7_safe_replicate [OF gsm7_safe_letter_a])
  then show "encodable (body_encoding (replicate 200 97)) (replicate 200 97)"
    by (simp add: encodable_def body_encoding_def gsm7_safe_CanEncode)
qed simp

section \<open>Two defects\<close>

text \<open>The decoder panics exactly on a 7-bit message with a user data header whose declared
  length is smaller than the header: the septet count is negative and the slice allocation fails.\<close>

theorem decode_user_data_panics_iff:
  "decode_user_data fo dcs n ud m = Panic \<longleftrightarrow>
     fo AND 0x40 \<noteq> 0 \<and> ud \<noteq> [] \<and> unat (hd ud) + 1 \<le> length ud \<and> dcs AND 0x0c \<noteq> 0x08 \<and>
     n < ((unat (hd ud) + 1) * 8 + 6) div 7"
  by (auto simp: decode_user_data_def Let_def)

text \<open>An SMS-DELIVER that does it: user data length 0 in front of a concatenation header.\<close>

definition panic_pdu :: "byte list" where
  "panic_pdu = [0x00, 0x40, 0x02, 0x81, 0x21, 0x00, 0x00, 0, 0, 0, 0, 0, 0, 0, 0x00,
     0x05, 0x00, 0x03, 0x01, 0x02, 0x01]"

lemma DecodePDU_panics: "DecodePDU (hex_encode_upper panic_pdu) = Panic"
  by (simp add: DecodePDU_def decode_bytes_def panic_pdu_def decodeAddress_def
      decode_after_address_def decode_user_data_panics_iff Let_def)

text \<open>A message of \<open>n\<close> commercial-at signs (septet 0) is submitted with no user data at all,
  although its length octet says \<open>n\<close> septets: the packer grows its buffer only for set bits.\<close>

theorem user_data_of_zero_septets:
  "user_data EncodingGSM7 [] (replicate n 64) = ([], n)"
proof -
  have one: "encodeGSM7 [64] = [0]"
    using gsm7Reverse_nth [of 0] by (simp add: gsm7Alphabet_def)
  then have enc: "encodeGSM7 (replicate n 64) = replicate n 0" for n
    by (induction n) (simp_all split: option.splits)
  have "pack_bit pos 0 res b = res" for pos res b by (simp add: pack_bit_def)
  then have "foldl (pack_bit pos 0) res bs = res" for pos res bs
    by (induction bs arbitrary: res) simp_all
  then have "foldl (\<lambda>res (i, septet). pack_septet res (off + i * 7) septet) res
      (enumerate k (replicate n 0)) = res" for off res k n
    by (induction n arbitrary: k) (simp_all add: pack_septet_def)
  from this [of 0 "[]" 0 n] have "packBits [] (replicate n 0) 0 = []" by (simp add: packBits_def)
  then show ?thesis by (simp add: user_data_def enc packSeptets_def)
qed

text \<open>The escape character is in the alphabet but does not survive the round trip.\<close>

lemma escape_lost: "decodeGSM7 (encodeGSM7 [27, 97]) = []"
proof -
  have "gsm7Reverse 27 = Some 0x1b" "gsm7Reverse 97 = Some 0x61"
    using gsm7Reverse_nth [of 27] gsm7Reverse_nth [of 97] by (simp_all add: gsm7Alphabet_def)
  then show ?thesis by (simp add: extension_rune_def gsm7Extension_def)
qed

end
