(* ===== verification/Sms_Multipart.thy ===== *)
theory Sms_Multipart
  imports Sms_Roundtrip "HOL-Library.Multiset"
begin

text \<open>
  The reassembly of concatenated messages, \<^verbatim>\<open>gateway/internal/sms/multipart.go\<close>: the assembler's
  state, \<^verbatim>\<open>Add\<close> and \<^verbatim>\<open>Prune\<close>, the state invariant, what \<^verbatim>\<open>Add\<close> does in each case, and the order
  independence of a whole delivery. A Go map is an association list with distinct keys; a time is a
  number of milliseconds, with \<open>0\<close> for the zero \<^verbatim>\<open>time.Time\<close>.
\<close>

section \<open>Data\<close>

definition MultipartRetention :: timestamp where
  "MultipartRetention = 24 * 60 * 60 * 1000"

record Segment =
  sg_sender :: string
  sg_destination :: string
  sg_concatRef :: byte
  sg_partNo :: nat
  sg_totalParts :: nat
  sg_body :: rune_text
  sg_encoding :: sms_encoding
  sg_rawPDU :: "byte list"
  sg_receivedAt :: timestamp

record LogicalMessage =
  lm_sender :: string
  lm_body :: rune_text
  lm_encoding :: sms_encoding
  lm_concatRef :: byte
  lm_totalParts :: nat
  lm_segments :: "Segment list"
  lm_receivedAt :: timestamp

text \<open>\<^verbatim>\<open>multipartKey\<close>: sender, destination, reference, part count.\<close>

type_synonym multipartKey = "string \<times> string \<times> byte \<times> nat"

type_synonym part_map = "(nat \<times> Segment) list"

record MultipartAssembler =
  pending :: "(multipartKey \<times> part_map) list"

definition NewMultipartAssembler :: MultipartAssembler where
  "NewMultipartAssembler = \<lparr>pending = []\<rparr>"

datatype multipart_error = InvalidSegment nat nat

section \<open>Operations\<close>

definition segment_key :: "Segment \<Rightarrow> multipartKey" where
  "segment_key s = (sg_sender s, sg_destination s, sg_concatRef s, sg_totalParts s)"

definition valid_segment :: "Segment \<Rightarrow> bool" where
  "valid_segment s = (\<not> (sg_partNo s < 1 \<or> sg_totalParts s < 2 \<or> sg_totalParts s < sg_partNo s))"

text \<open>The loop over part numbers: \<^term>\<open>None\<close> is the early return on a missing part.\<close>

fun ordered_parts :: "part_map \<Rightarrow> nat list \<Rightarrow> Segment list option" where
  "ordered_parts parts [] = Some []"
| "ordered_parts parts (i # is) =
     (case map_of parts i of
        None \<Rightarrow> None
      | Some part \<Rightarrow> map_option (\<lambda>ps. part # ps) (ordered_parts parts is))"

definition earlier :: "timestamp \<Rightarrow> Segment \<Rightarrow> timestamp" where
  "earlier t part = (if t = 0 \<or> sg_receivedAt part < t then sg_receivedAt part else t)"

definition logical_message :: "Segment \<Rightarrow> Segment list \<Rightarrow> LogicalMessage" where
  "logical_message s ordered =
     \<lparr>lm_sender = sg_sender s, lm_body = concat (map sg_body ordered), lm_encoding = sg_encoding s,
      lm_concatRef = sg_concatRef s, lm_totalParts = sg_totalParts s, lm_segments = ordered,
      lm_receivedAt = foldl earlier 0 ordered\<rparr>"

definition Add ::
  "timestamp \<Rightarrow> Segment \<Rightarrow> MultipartAssembler \<Rightarrow>
   (multipart_error, LogicalMessage option) result \<times> MultipartAssembler" where
  "Add now s0 a =
     (if \<not> valid_segment s0 then (Inl (InvalidSegment (sg_partNo s0) (sg_totalParts s0)), a)
      else
        let s = (if sg_receivedAt s0 = 0 then s0\<lparr>sg_receivedAt := now\<rparr> else s0);
            key = segment_key s;
            parts = (case map_of (pending a) key of None \<Rightarrow> [] | Some ps \<Rightarrow> ps)
        in if map_of parts (sg_partNo s) \<noteq> None
           then (Inr None, a)
           else
             let parts' = parts @ [(sg_partNo s, s)];
                 a' = a\<lparr>pending := map_put key parts' (pending a)\<rparr>
             in if length parts' \<noteq> sg_totalParts s then (Inr None, a')
                else (case ordered_parts parts' [1..<sg_totalParts s + 1] of
                        None \<Rightarrow> (Inr None, a')
                      | Some ordered \<Rightarrow>
                          (Inr (Some (logical_message s ordered)),
                           a'\<lparr>pending := map_del key (pending a')\<rparr>)))"

text \<open>
  \<^verbatim>\<open>Prune\<close>: a group whose newest segment is older than the retention is dropped. Go sorts the
  dropped segments by time of receipt.
\<close>

definition latest_receipt :: "part_map \<Rightarrow> timestamp" where
  "latest_receipt parts = foldl (\<lambda>t (i, s). if t < sg_receivedAt s then sg_receivedAt s else t) 0 parts"

definition group_expired :: "timestamp \<Rightarrow> part_map \<Rightarrow> bool" where
  "group_expired cutoff parts = (latest_receipt parts \<noteq> 0 \<and> latest_receipt parts < cutoff)"

definition Prune :: "timestamp \<Rightarrow> MultipartAssembler \<Rightarrow> Segment list \<times> MultipartAssembler" where
  "Prune now a =
     (let cutoff = now - MultipartRetention;
          dropped = filter (\<lambda>(k, ps). group_expired cutoff ps) (pending a)
      in (sort_key sg_receivedAt (concat (map (\<lambda>(k, ps). map snd ps) dropped)),
          a\<lparr>pending := filter (\<lambda>(k, ps). \<not> group_expired cutoff ps) (pending a)\<rparr>))"

section \<open>The invariant\<close>

text \<open>A pending group: its segments stand under their own part number and key, and some part is
  missing.\<close>

definition group_ok :: "multipartKey \<Rightarrow> part_map \<Rightarrow> bool" where
  "group_ok key parts \<longleftrightarrow>
     distinct (map fst parts) \<and> parts \<noteq> [] \<and>
     (\<forall>(i, s) \<in> set parts. sg_partNo s = i \<and> segment_key s = key \<and> valid_segment s \<and> sg_receivedAt s \<noteq> 0) \<and>
     length parts < snd (snd (snd key))"

definition assembler_ok :: "MultipartAssembler \<Rightarrow> bool" where
  "assembler_ok a \<longleftrightarrow>
     distinct (map fst (pending a)) \<and> (\<forall>(key, parts) \<in> set (pending a). group_ok key parts)"

lemma assembler_ok_New: "assembler_ok NewMultipartAssembler"
  by (simp add: assembler_ok_def NewMultipartAssembler_def)

definition parts_of :: "MultipartAssembler \<Rightarrow> multipartKey \<Rightarrow> part_map" where
  "parts_of a key = (case map_of (pending a) key of None \<Rightarrow> [] | Some ps \<Rightarrow> ps)"

lemma parts_of_ok:
  assumes "assembler_ok a"
  shows "parts_of a key = [] \<or> group_ok key (parts_of a key)"
  using assms by (auto simp: assembler_ok_def parts_of_def dest!: map_of_SomeD split: option.splits)

lemma ordered_parts_complete:
  assumes "set is \<subseteq> set (map fst parts)"
  shows "ordered_parts parts is = Some (map (\<lambda>i. the (map_of parts i)) is)"
  using assms
proof (induction "is")
  case (Cons i "is")
  then have "i \<in> dom (map_of parts)" by (simp add: dom_map_of_conv_image_fst)
  with Cons show ?case by auto
qed simp

text \<open>As many distinct part numbers within \<open>1..n\<close> as \<open>n\<close>: none is missing.\<close>

lemma full_group:
  assumes "distinct (map fst parts)" and "set (map fst parts) \<subseteq> {1..n}" and "length parts = n"
  shows "set (map fst parts) = {1..n}"
proof (rule card_subset_eq)
  show "card (set (map fst parts)) = card {1..n}"
    using assms(1,3) by (simp only: distinct_card length_map card_atLeastAtMost)
qed (use assms in auto)

section \<open>Operations keep the invariant\<close>

lemma parts_of_put:
  "parts_of \<lparr>pending = map_put key ps (pending a)\<rparr> key' = (if key' = key then ps else parts_of a key')"
  by (simp add: parts_of_def)

lemma group_ok_insert:
  assumes "assembler_ok a" and "key = segment_key s" and "valid_segment s" and "sg_receivedAt s \<noteq> 0"
    and "map_of (parts_of a key) (sg_partNo s) = None"
  defines "ps \<equiv> parts_of a key @ [(sg_partNo s, s)]"
  shows "distinct (map fst ps)"
    and "\<And>i p. (i, p) \<in> set ps \<Longrightarrow>
      sg_partNo p = i \<and> segment_key p = key \<and> valid_segment p \<and> sg_receivedAt p \<noteq> 0"
    and "length ps \<le> sg_totalParts s"
proof -
  have g: "parts_of a key = [] \<or> group_ok key (parts_of a key)"
    using assms(1) by (rule parts_of_ok)
  have "sg_partNo s \<notin> set (map fst (parts_of a key))"
    using assms(5) by (simp add: map_of_eq_None_iff)
  with g show "distinct (map fst ps)" by (auto simp: ps_def group_ok_def)
  show "\<And>i p. (i, p) \<in> set ps \<Longrightarrow>
      sg_partNo p = i \<and> segment_key p = key \<and> valid_segment p \<and> sg_receivedAt p \<noteq> 0"
    using g assms(2,3,4) by (auto simp: ps_def group_ok_def)
  show "length ps \<le> sg_totalParts s"
    using g assms(2,3) by (auto simp: ps_def group_ok_def segment_key_def valid_segment_def)
qed

text \<open>\<open>stamp now s\<close>: the segment as \<^verbatim>\<open>Add\<close> stores it.\<close>

definition stamp :: "timestamp \<Rightarrow> Segment \<Rightarrow> Segment" where
  "stamp now s = (if sg_receivedAt s = 0 then s\<lparr>sg_receivedAt := now\<rparr> else s)"

lemma stamp_simps [simp]:
  fixes now :: timestamp
  shows
  "segment_key (stamp now s) = segment_key s" "sg_partNo (stamp now s) = sg_partNo s"
  "sg_totalParts (stamp now s) = sg_totalParts s" "sg_body (stamp now s) = sg_body s"
  "sg_sender (stamp now s) = sg_sender s" "sg_encoding (stamp now s) = sg_encoding s"
  "sg_concatRef (stamp now s) = sg_concatRef s"
  "valid_segment (stamp now s) = valid_segment s" "now \<noteq> 0 \<Longrightarrow> sg_receivedAt (stamp now s) \<noteq> 0"
  by (simp_all add: stamp_def segment_key_def valid_segment_def)

text \<open>The four cases of \<^verbatim>\<open>Add\<close> in a well-formed state.\<close>

lemma Add_invalid: "\<not> valid_segment s \<Longrightarrow> Add now s a = (Inl (InvalidSegment (sg_partNo s) (sg_totalParts s)), a)"
  by (simp add: Add_def)

lemma Add_duplicate:
  "valid_segment s \<Longrightarrow> map_of (parts_of a (segment_key s)) (sg_partNo s) \<noteq> None \<Longrightarrow>
     Add now s a = (Inr None, a)"
  unfolding Add_def Let_def stamp_def [symmetric] by (simp add: parts_of_def)

lemma Add_incomplete:
  "valid_segment s \<Longrightarrow> map_of (parts_of a (segment_key s)) (sg_partNo s) = None \<Longrightarrow>
     Suc (length (parts_of a (segment_key s))) \<noteq> sg_totalParts s \<Longrightarrow>
     Add now s a =
       (Inr None, a\<lparr>pending := map_put (segment_key s)
          (parts_of a (segment_key s) @ [(sg_partNo s, stamp now s)]) (pending a)\<rparr>)"
  unfolding Add_def Let_def stamp_def [symmetric] by (simp add: parts_of_def)

lemma Add_complete:
  fixes now :: timestamp
  assumes "assembler_ok a" and "valid_segment s" and "now \<noteq> 0"
    and new: "map_of (parts_of a (segment_key s)) (sg_partNo s) = None"
    and all: "Suc (length (parts_of a (segment_key s))) = sg_totalParts s"
  defines "ps \<equiv> parts_of a (segment_key s) @ [(sg_partNo s, stamp now s)]"
  shows "Add now s a =
     (Inr (Some (logical_message (stamp now s)
        (map (\<lambda>i. the (map_of ps i)) [1..<sg_totalParts s + 1]))),
      a\<lparr>pending := map_del (segment_key s) (map_put (segment_key s) ps (pending a))\<rparr>)"
proof -
  have pre: "segment_key s = segment_key (stamp now s)" "valid_segment (stamp now s)"
      "sg_receivedAt (stamp now s) \<noteq> 0"
      "map_of (parts_of a (segment_key s)) (sg_partNo (stamp now s)) = None"
    using assms(2,3) new by simp_all
  note ins = group_ok_insert(1,2) [OF assms(1) pre, unfolded stamp_simps, folded ps_def]
  have len: "length ps = sg_totalParts s" using all by (simp add: ps_def)
  have "set (map fst ps) \<subseteq> {1..sg_totalParts s}"
    using ins(2) by (force simp: valid_segment_def segment_key_def)
  then have full: "set (map fst ps) = {1..sg_totalParts s}"
    using ins(1) len by (intro full_group) simp_all
  then have "ordered_parts ps [1..<sg_totalParts s + 1] =
      Some (map (\<lambda>i. the (map_of ps i)) [1..<sg_totalParts s + 1])"
    by (intro ordered_parts_complete) auto
  then show ?thesis
    using assms(2) new len unfolding Add_def Let_def stamp_def [symmetric]
    by (simp add: parts_of_def ps_def split: option.splits)
qed

lemma Add_cases:
  fixes now :: timestamp
  assumes "assembler_ok a" and "now \<noteq> 0"
  obtains (invalid) "\<not> valid_segment s"
  | (duplicate) "valid_segment s" "map_of (parts_of a (segment_key s)) (sg_partNo s) \<noteq> None"
  | (incomplete) "valid_segment s" "map_of (parts_of a (segment_key s)) (sg_partNo s) = None"
      "Suc (length (parts_of a (segment_key s))) < sg_totalParts s"
  | (complete) "valid_segment s" "map_of (parts_of a (segment_key s)) (sg_partNo s) = None"
      "Suc (length (parts_of a (segment_key s))) = sg_totalParts s"
proof -
  have "valid_segment s \<Longrightarrow> map_of (parts_of a (segment_key s)) (sg_partNo s) = None \<Longrightarrow>
      Suc (length (parts_of a (segment_key s))) \<le> sg_totalParts s"
    using group_ok_insert(3) [of a "segment_key s" "stamp now s"] assms by simp
  with that show thesis by fastforce
qed

lemma group_ok_put:
  assumes "assembler_ok a" and "group_ok key ps"
  shows "assembler_ok (a\<lparr>pending := map_put key ps (pending a)\<rparr>)"
  using assms by (auto simp: assembler_ok_def set_map_put)

lemma assembler_ok_del: "assembler_ok a \<Longrightarrow> assembler_ok (a\<lparr>pending := map_del key (pending a)\<rparr>)"
  by (auto simp: assembler_ok_def set_map_del)

lemma Add_incomplete_ok:
  fixes now :: timestamp
  assumes "assembler_ok a" and "now \<noteq> 0" and "valid_segment s"
    and new: "map_of (parts_of a (segment_key s)) (sg_partNo s) = None"
    and few: "Suc (length (parts_of a (segment_key s))) < sg_totalParts s"
  shows "group_ok (segment_key s) (parts_of a (segment_key s) @ [(sg_partNo s, stamp now s)])"
proof -
  have pre: "segment_key s = segment_key (stamp now s)" "valid_segment (stamp now s)"
      "sg_receivedAt (stamp now s) \<noteq> 0"
      "map_of (parts_of a (segment_key s)) (sg_partNo (stamp now s)) = None"
    using assms by simp_all
  note ins = group_ok_insert [OF assms(1) pre, unfolded stamp_simps]
  have "snd (snd (snd (segment_key s))) = sg_totalParts s" by (simp add: segment_key_def)
  moreover have "\<forall>(i, p) \<in> set (parts_of a (segment_key s) @ [(sg_partNo s, stamp now s)]).
      sg_partNo p = i \<and> segment_key p = segment_key s \<and> valid_segment p \<and> sg_receivedAt p \<noteq> 0"
    using ins(2) by blast
  ultimately show ?thesis
    unfolding group_ok_def using ins(1) few by (simp only:) simp
qed

lemma Add_preserves [wf_intros]:
  fixes now :: timestamp
  assumes "assembler_ok a" and "now \<noteq> 0"
  shows "assembler_ok (snd (Add now s a))"
proof (rule Add_cases [OF assms, of s])
  assume *: "valid_segment s" "map_of (parts_of a (segment_key s)) (sg_partNo s) = None"
    "Suc (length (parts_of a (segment_key s))) < sg_totalParts s"
  then show ?thesis
    using group_ok_put [OF assms(1) Add_incomplete_ok [OF assms *]] by (simp add: Add_incomplete)
next
  assume *: "valid_segment s" "map_of (parts_of a (segment_key s)) (sg_partNo s) = None"
    "Suc (length (parts_of a (segment_key s))) = sg_totalParts s"
  show ?thesis
    unfolding Add_complete [OF assms(1) *(1) assms(2) *(2,3)] map_del_map_put
    using assembler_ok_del [OF assms(1)] by simp
qed (simp_all add: assms Add_invalid Add_duplicate)

text \<open>Every segment leaves the assembler well formed: no group is ever stored complete, each
  segment stands under its own number, and no part is stored twice.\<close>

theorem Add_preserves_assembler_ok:
  "assembler_ok a \<Longrightarrow> now \<noteq> 0 \<Longrightarrow> assembler_ok (snd (Add now s a))"
  by (rule Add_preserves)

theorem Add_preserves_assembler_ok_witness:
  "assembler_ok (snd (Add 1 \<lparr>sg_sender = ''1'', sg_destination = ''2'', sg_concatRef = 3, sg_partNo = 1,
     sg_totalParts = 2, sg_body = [97], sg_encoding = EncodingGSM7, sg_rawPDU = [], sg_receivedAt = 0\<rparr>
     NewMultipartAssembler))"
  by (rule Add_preserves_assembler_ok) (simp_all add: assembler_ok_New)

lemma Prune_preserves_assembler_ok [wf_intros]:
  assumes "assembler_ok a"
  shows "assembler_ok (snd (Prune now a))"
proof -
  have "distinct (map fst xs) \<Longrightarrow> distinct (map fst (filter P xs))"
    for P and xs :: "(multipartKey \<times> part_map) list"
    by (induction xs) auto
  with assms show ?thesis by (auto simp: Prune_def assembler_ok_def Let_def)
qed

lemma latest_receipt_less:
  "foldl (\<lambda>t (i, s). if t < sg_receivedAt s then sg_receivedAt s else t) t0 ps < c \<longleftrightarrow>
     t0 < c \<and> (\<forall>(i, s) \<in> set ps. sg_receivedAt s < c)"
  by (induction ps arbitrary: t0) (auto split: if_splits)

lemma group_expired_iff:
  assumes "group_ok key ps"
  shows "group_expired cutoff ps \<longleftrightarrow> (\<forall>(i, s) \<in> set ps. sg_receivedAt s < cutoff)"
proof -
  have ne: "ps \<noteq> []" and pos: "\<And>i s. (i, s) \<in> set ps \<Longrightarrow> sg_receivedAt s \<noteq> 0"
    using assms by (auto simp: group_ok_def)
  then obtain i s where "(i, s) \<in> set ps" by (cases ps) auto
  with pos have "\<not> latest_receipt ps < 1" unfolding latest_receipt_def latest_receipt_less by fastforce
  moreover from \<open>(i, s) \<in> set ps\<close> have "(\<forall>(i, s) \<in> set ps. sg_receivedAt s < cutoff) \<longrightarrow> 0 < cutoff"
    by (auto dest: bspec)
  ultimately show ?thesis
    unfolding group_expired_def using latest_receipt_less [of 0 ps cutoff]
    by (auto simp: latest_receipt_def)
qed

lemma map_of_filter_value:
  "distinct (map fst xs) \<Longrightarrow>
     map_of (filter (\<lambda>(k, v). \<not> P v) xs) key =
       (case map_of xs key of Some v \<Rightarrow> if P v then None else Some v | None \<Rightarrow> None)"
proof (induction xs)
  case (Cons x xs)
  have "fst x \<notin> fst ` set xs \<Longrightarrow> map_of xs (fst x) = None" by (simp add: map_of_eq_None_iff)
  with Cons show ?case by (cases x) auto
qed simp

text \<open>Pruning keeps exactly the incomplete messages that received a segment within the retention,
  with all their segments, and returns the segments of all the others in order of receipt.\<close>

theorem Prune_by_retention:
  assumes "assembler_ok a"
  shows "parts_of (snd (Prune now a)) key =
           (if \<exists>(i, s) \<in> set (parts_of a key). now - MultipartRetention \<le> sg_receivedAt s
            then parts_of a key else []) \<and>
         mset (fst (Prune now a)) + mset (concat (map (map snd \<circ> snd) (pending (snd (Prune now a))))) =
           mset (concat (map (map snd \<circ> snd) (pending a))) \<and>
         sorted (map sg_receivedAt (fst (Prune now a)))"
proof (intro conjI)
  have "map_of (pending (snd (Prune now a))) key =
      (case map_of (pending a) key of
         Some ps \<Rightarrow> if group_expired (now - MultipartRetention) ps then None else Some ps | None \<Rightarrow> None)"
    using assms by (simp add: Prune_def Let_def assembler_ok_def map_of_filter_value)
  moreover have "group_expired (now - MultipartRetention) ps \<longleftrightarrow>
      (\<forall>(i, s) \<in> set ps. sg_receivedAt s < now - MultipartRetention)"
    if "map_of (pending a) key = Some ps" for ps
    using assms that by (intro group_expired_iff) (auto simp: assembler_ok_def dest!: map_of_SomeD)
  ultimately show "parts_of (snd (Prune now a)) key =
           (if \<exists>(i, s) \<in> set (parts_of a key). now - MultipartRetention \<le> sg_receivedAt s
            then parts_of a key else [])"
    by (auto simp: parts_of_def not_less split: option.splits)
next
  have "mset (concat (map f (filter P xs))) + mset (concat (map f (filter (\<lambda>x. \<not> P x) xs))) =
      mset (concat (map f xs))" for P and f :: "multipartKey \<times> part_map \<Rightarrow> Segment list" and xs
    by (induction xs) simp_all
  from this [of "\<lambda>(k, ps). map snd ps" "\<lambda>(k, ps). group_expired (now - MultipartRetention) ps" "pending a"]
  show "mset (fst (Prune now a)) + mset (concat (map (map snd \<circ> snd) (pending (snd (Prune now a))))) =
      mset (concat (map (map snd \<circ> snd) (pending a)))"
    by (simp add: Prune_def Let_def case_prod_unfold comp_def)
qed (simp add: Prune_def Let_def)

section \<open>Delivery in any order\<close>

text \<open>The segments \<open>ss\<close> arrive one after the other.\<close>

definition deliver :: "timestamp \<Rightarrow> Segment list \<Rightarrow> MultipartAssembler \<Rightarrow> MultipartAssembler" where
  "deliver now ss a = fold (\<lambda>s a. snd (Add now s a)) ss a"

lemma deliver_simps [simp]:
  "deliver now [] a = a" "deliver now (s # ss) a = deliver now ss (snd (Add now s a))"
  by (simp_all add: deliver_def)

lemma deliver_ok [wf_intros]: "assembler_ok a \<Longrightarrow> now \<noteq> 0 \<Longrightarrow> assembler_ok (deliver now ss a)"
  by (induction ss arbitrary: a) (simp_all add: Add_preserves)

text \<open>\<open>collect now key ss ps\<close>: the group of \<open>key\<close> after \<open>ss\<close>, as long as it is incomplete: the first
  segment of every part number, in order of arrival.\<close>

fun collect :: "timestamp \<Rightarrow> multipartKey \<Rightarrow> Segment list \<Rightarrow> part_map \<Rightarrow> part_map" where
  "collect now key [] ps = ps"
| "collect now key (s # ss) ps =
     collect now key ss
       (if valid_segment s \<and> segment_key s = key \<and> map_of ps (sg_partNo s) = None
        then ps @ [(sg_partNo s, stamp now s)] else ps)"

lemma length_collect: "length ps \<le> length (collect now key ss ps)"
  by (induction now key ss ps rule: collect.induct) (auto split: if_splits)

lemma parts_of_Add_other:
  fixes now :: timestamp
  assumes "assembler_ok a" and "now \<noteq> 0" and "segment_key s \<noteq> key"
  shows "parts_of (snd (Add now s a)) key = parts_of a key"
proof (rule Add_cases [OF assms(1,2), of s])
  assume *: "valid_segment s" "map_of (parts_of a (segment_key s)) (sg_partNo s) = None"
    "Suc (length (parts_of a (segment_key s))) = sg_totalParts s"
  show ?thesis
    unfolding Add_complete [OF assms(1) *(1) assms(2) *(2,3)] using assms(3)
    by (simp add: parts_of_def)
qed (use assms in \<open>simp_all add: Add_invalid Add_duplicate Add_incomplete parts_of_def\<close>)

lemma parts_of_Add_same:
  fixes now :: timestamp
  assumes "assembler_ok a" and "now \<noteq> 0" and "segment_key s = key"
    and "length (collect now key [s] (parts_of a key)) < snd (snd (snd key))"
  shows "parts_of (snd (Add now s a)) key = collect now key [s] (parts_of a key)"
proof (rule Add_cases [OF assms(1,2), of s])
  assume *: "valid_segment s" "map_of (parts_of a (segment_key s)) (sg_partNo s) = None"
    "Suc (length (parts_of a (segment_key s))) = sg_totalParts s"
  then have False using assms(3,4) by (auto simp: segment_key_def)
  then show ?thesis ..
qed (use assms(3) in \<open>auto simp: Add_invalid Add_duplicate Add_incomplete parts_of_def\<close>)

lemma parts_of_deliver:
  fixes now :: timestamp
  assumes "assembler_ok a" and "now \<noteq> 0"
    and "length (collect now key ss (parts_of a key)) < snd (snd (snd key))"
  shows "parts_of (deliver now ss a) key = collect now key ss (parts_of a key)"
  using assms(1,3)
proof (induction ss arbitrary: a)
  case (Cons s ss)
  have "length (collect now key [s] (parts_of a key)) \<le> length (collect now key (s # ss) (parts_of a key))"
    using length_collect [of "collect now key [s] (parts_of a key)" now key ss] by simp
  with Cons.prems have few: "length (collect now key [s] (parts_of a key)) < snd (snd (snd key))"
    by linarith
  have "parts_of (snd (Add now s a)) key = collect now key [s] (parts_of a key)"
  proof (cases "segment_key s = key")
    case True
    then show ?thesis using parts_of_Add_same [OF Cons.prems(1) assms(2)] few by blast
  next
    case False
    then show ?thesis using parts_of_Add_other [OF Cons.prems(1) assms(2)] by simp
  qed
  with Cons.IH [OF Add_preserves [OF Cons.prems(1) assms(2)]] Cons.prems(2) show ?case by simp
qed simp

text \<open>What \<open>collect\<close> holds: exactly the part numbers seen, each with one of the segments seen.\<close>

lemma collect_keys:
  "fst ` set (collect now key ss ps) =
     fst ` set ps \<union> {sg_partNo s |s. s \<in> set ss \<and> valid_segment s \<and> segment_key s = key}"
proof (induction now key ss ps rule: collect.induct)
  case (2 now key s ss ps)
  then show ?case by (auto simp: map_of_eq_None_iff split: if_splits)
qed simp

lemma collect_values:
  "(i, p) \<in> set (collect now key ss ps) \<Longrightarrow>
     (i, p) \<in> set ps \<or> (\<exists>s \<in> set ss. valid_segment s \<and> segment_key s = key \<and> sg_partNo s = i \<and> p = stamp now s)"
proof (induction now key ss ps rule: collect.induct)
  case (2 now key s ss ps)
  then show ?case by (fastforce split: if_splits)
qed simp

lemma collect_distinct: "distinct (map fst ps) \<Longrightarrow> distinct (map fst (collect now key ss ps))"
  by (induction now key ss ps rule: collect.induct) (auto simp: map_of_eq_None_iff)

lemma collect_length:
  fixes seen :: "nat set"
  assumes "{sg_partNo s |s. s \<in> set ss \<and> valid_segment s \<and> segment_key s = key} = seen"
  shows "length (collect now key ss []) = card seen"
proof -
  have "card (fst ` set (collect now key ss [])) = length (collect now key ss [])"
    using distinct_card [OF collect_distinct [of "[]" now key ss]] by simp
  then show ?thesis by (simp add: collect_keys assms)
qed

text \<open>C5: however the segments of a message arrive, in any order, repeated, and mixed with segments of
  other messages, the arrival of the last missing part returns the whole text and forgets the
  group.\<close>

theorem reassembly_in_any_order:
  fixes now :: timestamp
  assumes "assembler_ok a" and "now \<noteq> 0" and "parts_of a key = []"
    and key: "segment_key s = key" and n: "n = sg_totalParts s" and "valid_segment s"
    and bodies: "\<forall>x \<in> set (ss @ [s]). segment_key x = key \<longrightarrow> sg_body x = part (sg_partNo x)"
    and seen: "{sg_partNo x |x. x \<in> set ss \<and> valid_segment x \<and> segment_key x = key} = {1..n} - {sg_partNo s}"
  shows "\<exists>m. fst (Add now s (deliver now ss a)) = Inr (Some m) \<and>
     lm_body m = concat (map part [1..<n + 1]) \<and> lm_sender m = sg_sender s \<and> lm_totalParts m = n \<and>
     parts_of (snd (Add now s (deliver now ss a))) key = []"
proof -
  have total: "snd (snd (snd key)) = n" using key n by (auto simp: segment_key_def)
  have part: "sg_partNo s \<in> {1..n}" using \<open>valid_segment s\<close> n by (auto simp: valid_segment_def)
  then have len: "Suc (length (collect now key ss [])) = n"
    by (simp add: collect_length [OF seen] card_Diff_singleton)
  let ?ps = "collect now key ss []"
  have ps: "parts_of (deliver now ss a) key = ?ps"
    using parts_of_deliver [of a now key ss] assms(1,2,3) total len by simp
  have keys: "fst ` set ?ps = {1..n} - {sg_partNo s}"
    unfolding collect_keys seen by simp
  then have new: "map_of ?ps (sg_partNo s) = None"
    unfolding map_of_eq_None_iff by simp
  let ?qs = "?ps @ [(sg_partNo s, stamp now s)]"
  note ok = deliver_ok [OF assms(1,2), of ss]
  have added: "Add now s (deliver now ss a) =
     (Inr (Some (logical_message (stamp now s) (map (\<lambda>i. the (map_of ?qs i)) [1..<sg_totalParts s + 1]))),
      deliver now ss a\<lparr>pending := map_del key (pending (deliver now ss a))\<rparr>)"
    using Add_complete [OF ok \<open>valid_segment s\<close> assms(2)] unfolding key ps map_del_map_put
    using new len n by simp
  have body: "sg_body (the (map_of ?qs i)) = part i" if "i \<in> {1..n}" for i
  proof -
    have "fst ` set ?qs = {1..n}" unfolding set_append image_Un keys using part by auto
    then have "map_of ?qs i \<noteq> None" unfolding map_of_eq_None_iff using that by blast
    then obtain p where p: "map_of ?qs i = Some p" by blast
    then have "(i, p) \<in> set ?qs" by (rule map_of_SomeD)
    then obtain x where "x \<in> set (ss @ [s])" "segment_key x = key" "sg_partNo x = i" "p = stamp now x"
      using collect_values [of i p now key ss "[]"] key unfolding set_append by fastforce
    with bodies p show ?thesis by auto
  qed
  have bodies_eq: "map (sg_body \<circ> (\<lambda>i. the (map_of ?qs i))) [1..<n + 1] = map part [1..<n + 1]"
  proof (rule map_cong [OF refl])
    fix i assume "i \<in> set [1..<n + 1]"
    then have "i \<in> {1..n}" by auto
    then show "(sg_body \<circ> (\<lambda>i. the (map_of ?qs i))) i = part i" unfolding comp_def by (rule body)
  qed
  have "lm_body (logical_message (stamp now s) (map (\<lambda>i. the (map_of ?qs i)) [1..<n + 1])) =
      concat (map part [1..<n + 1])"
    unfolding logical_message_def bodies_eq [symmetric] by simp
  then show ?thesis
    unfolding added n [symmetric] by (auto simp: logical_message_def parts_of_def n)
qed

definition sample_segment :: "nat \<Rightarrow> rune_text \<Rightarrow> Segment" where
  "sample_segment i body =
     \<lparr>sg_sender = ''1'', sg_destination = ''2'', sg_concatRef = 3, sg_partNo = i, sg_totalParts = 2,
      sg_body = body, sg_encoding = EncodingGSM7, sg_rawPDU = [], sg_receivedAt = 5\<rparr>"

theorem reassembly_in_any_order_witness:
  "\<exists>m. fst (Add 9 (sample_segment 1 [104]) (deliver 9 [sample_segment 2 [105], sample_segment 2 [105]]
         NewMultipartAssembler)) = Inr (Some m) \<and>
     lm_body m = concat (map (\<lambda>i. if i = 1 then [104] else [105]) [1..<2 + 1]) \<and>
     lm_sender m = sg_sender (sample_segment 1 [104]) \<and> lm_totalParts m = 2 \<and>
     parts_of (snd (Add 9 (sample_segment 1 [104])
       (deliver 9 [sample_segment 2 [105], sample_segment 2 [105]] NewMultipartAssembler)))
       (''1'', ''2'', 3, 2) = []"
proof (rule reassembly_in_any_order)
  have "{1..2::nat} - {1} = {2}" by auto
  then show "{sg_partNo x |x. x \<in> set [sample_segment 2 [105], sample_segment 2 [105]] \<and> valid_segment x \<and>
      segment_key x = (''1'', ''2'', 3, 2)} = {1..2} - {sg_partNo (sample_segment 1 [104])}"
    by (auto simp: sample_segment_def valid_segment_def segment_key_def)
qed (simp_all add: assembler_ok_New, simp_all add: sample_segment_def segment_key_def valid_segment_def
    parts_of_def NewMultipartAssembler_def)

definition sample_pending :: MultipartAssembler where
  "sample_pending = deliver 9 [sample_segment 2 [105]] NewMultipartAssembler"

theorem Prune_by_retention_witness:
  "parts_of (snd (Prune 100000000 sample_pending)) (''1'', ''2'', 3, 2) = [] \<and>
   mset (fst (Prune 100000000 sample_pending)) = {#sample_segment 2 [105]#}"
proof -
  let ?key = "(''1'', ''2'', 3, 2) :: multipartKey"
  have pend: "pending sample_pending = [(?key, [(2, sample_segment 2 [105])])]"
    by (simp add: sample_pending_def Add_incomplete sample_segment_def valid_segment_def segment_key_def
        parts_of_def NewMultipartAssembler_def map_put_def stamp_def)
  have "assembler_ok sample_pending"
    unfolding sample_pending_def by (intro deliver_ok assembler_ok_New) simp
  from Prune_by_retention [OF this, of 100000000 ?key] show ?thesis
    by (simp add: parts_of_def pend sample_segment_def MultipartRetention_def Prune_def group_expired_def
        latest_receipt_def)
qed

end
