(* ===== verification/Call_State.thy ===== *)
theory Call_State
  imports Gateway_Prelude
begin

text \<open>
  The call controller, \<^verbatim>\<open>gateway/internal/call/state.go\<close>: the single line, the states of its
  call, the idempotency cache of requests, and every operation. Each operation runs under the
  controller's mutex, so it is one step; \<open>now\<close> is the value of the clock it reads.

  The lemmas: an invariant on reachable controllers, the legal state transitions, replay of repeated
  requests, rollback, and two defects of the request cache.
\<close>

section \<open>Data\<close>

text \<open>The constructors \<open>NoDirection\<close> and \<open>NoState\<close> are the empty strings of \<^verbatim>\<open>Call{}\<close>.\<close>

datatype Direction = NoDirection | Inbound | Outbound

datatype State =
  NoState | Idle | IncomingRinging | OutgoingDialing | Connecting | Active | Ending | Recovering

datatype call_error = ErrLineBusy | ErrCallNotFound | ErrInvalidState | ErrDuplicateEvent | ErrInvalidDTMF

record Call =
  ca_ID :: string
  ca_Direction :: Direction
  ca_Peer :: string
  ca_State :: State
  ca_StartedAt :: timestamp
  ca_ConnectedAt :: "timestamp option"
  ca_EndedAt :: "timestamp option"
  ca_EndReason :: string
  ca_CellularReady :: bool
  ca_MediaReady :: bool
  ca_Answered :: bool

record Event =
  ev_CallID :: string
  ev_State :: State
  ev_Kind :: string
  ev_Reason :: string

text \<open>The zero values \<^verbatim>\<open>Call{}\<close> and \<^verbatim>\<open>Event{}\<close>.\<close>

definition zero_call :: Call where
  "zero_call = \<lparr>ca_ID = [], ca_Direction = NoDirection, ca_Peer = [], ca_State = NoState,
     ca_StartedAt = 0, ca_ConnectedAt = None, ca_EndedAt = None, ca_EndReason = [],
     ca_CellularReady = False, ca_MediaReady = False, ca_Answered = False\<rparr>"

definition zero_event :: Event where
  "zero_event = \<lparr>ev_CallID = [], ev_State = NoState, ev_Kind = [], ev_Reason = []\<rparr>"

text \<open>\<^verbatim>\<open>result\<close>: what a request returned, and the call before it.\<close>

record request_result =
  rr_call :: Call
  rr_event :: Event
  rr_err :: "call_error option"
  rr_previous :: "Call option"

record Controller =
  co_active :: "Call option"
  co_requests :: "string \<rightharpoonup> request_result"

text \<open>The three results of an operation: call, event, error.\<close>

type_synonym call_result = "Call \<times> Event \<times> call_error option"

abbreviation failed :: "call_error \<Rightarrow> call_result" where
  "failed e \<equiv> (zero_call, zero_event, Some e)"

abbreviation replayed :: "request_result \<Rightarrow> call_result" where
  "replayed r \<equiv> (rr_call r, rr_event r, rr_err r)"

section \<open>Emergency numbers\<close>

definition emergencyNumbers :: "string list" where
  "emergencyNumbers = [''112'', ''911'', ''999'', ''110'', ''119'', ''120'', ''122'']"

definition IsEmergencyNumber :: "string \<Rightarrow> bool" where
  "IsEmergencyNumber v =
     (let digits = filter is_digit v;
          normalized =
            (if has_prefix (trim_space v) ''+86'' \<and> has_prefix digits ''86''
             then trim_prefix digits ''86'' else digits)
      in normalized \<in> set emergencyNumbers)"

section \<open>Operations\<close>

definition NewController :: Controller where
  "NewController = \<lparr>co_active = None, co_requests = (\<lambda>_. None)\<rparr>"

definition Snapshot :: "Controller \<Rightarrow> Call option" where
  "Snapshot c = co_active c"

definition Incoming :: "timestamp \<Rightarrow> string \<Rightarrow> string \<Rightarrow> Controller \<Rightarrow> call_result \<times> Controller" where
  [step_defs]: "Incoming now callID peer c =
     (case co_active c of
        Some active \<Rightarrow>
          if ca_ID active = callID then
            ((active, \<lparr>ev_CallID = callID, ev_State = ca_State active, ev_Kind = ''duplicate_incoming'',
                ev_Reason = []\<rparr>, Some ErrDuplicateEvent), c)
          else (failed ErrLineBusy, c)
      | None \<Rightarrow>
          let call = zero_call\<lparr>ca_ID := callID, ca_Direction := Inbound, ca_Peer := peer,
                       ca_State := IncomingRinging, ca_StartedAt := now\<rparr>;
              event = \<lparr>ev_CallID = callID, ev_State = IncomingRinging, ev_Kind = ''call.incoming'',
                       ev_Reason = []\<rparr>
          in ((call, event, None), c\<lparr>co_active := Some call\<rparr>))"

definition Dial ::
  "timestamp \<Rightarrow> string \<Rightarrow> string \<Rightarrow> string \<Rightarrow> Controller \<Rightarrow> call_result \<times> Controller" where
  [step_defs]: "Dial now requestID callID peer c =
     (case co_requests c requestID of
        Some previous \<Rightarrow> (replayed previous, c)
      | None \<Rightarrow>
          if co_active c \<noteq> None then (failed ErrLineBusy, c)
          else
            let call = zero_call\<lparr>ca_ID := callID, ca_Direction := Outbound, ca_Peer := peer,
                         ca_State := OutgoingDialing, ca_StartedAt := now\<rparr>;
                event = \<lparr>ev_CallID = callID, ev_State = OutgoingDialing, ev_Kind = ''call.updated'',
                         ev_Reason = []\<rparr>
            in ((call, event, None),
                c\<lparr>co_active := Some call,
                  co_requests := (co_requests c)(requestID \<mapsto>
                    \<lparr>rr_call = call, rr_event = event, rr_err = None, rr_previous = None\<rparr>)\<rparr>))"

text \<open>\<^verbatim>\<open>mutate\<close>: \<open>change\<close> reports an error before it has touched the call, so a failed change leaves
  the controller as it was.\<close>

definition mutate ::
  "string \<Rightarrow> string \<Rightarrow> string \<Rightarrow> (Call \<Rightarrow> (call_error, Call) result) \<Rightarrow> Controller \<Rightarrow>
   call_result \<times> Controller" where
  "mutate requestID callID kind change c =
     (case co_requests c requestID of
        Some previous \<Rightarrow> (replayed previous, c)
      | None \<Rightarrow>
          (case co_active c of
             None \<Rightarrow> (failed ErrCallNotFound, c)
           | Some active \<Rightarrow>
               if ca_ID active \<noteq> callID then (failed ErrCallNotFound, c)
               else
                 (case change active of
                    Inl e \<Rightarrow> (failed e, c)
                  | Inr call \<Rightarrow>
                      let event = \<lparr>ev_CallID = callID, ev_State = ca_State call, ev_Kind = kind,
                            ev_Reason = (if ca_State call = Ending then ca_EndReason call else [])\<rparr>
                      in ((call, event, None),
                          c\<lparr>co_active := Some call,
                            co_requests := (co_requests c)(requestID \<mapsto>
                              \<lparr>rr_call = call, rr_event = event, rr_err = None,
                                rr_previous = Some active\<rparr>)\<rparr>))))"

definition answer_change :: "Call \<Rightarrow> (call_error, Call) result" where
  "answer_change call =
     (if ca_State call \<noteq> IncomingRinging then Inl ErrInvalidState
      else Inr (call\<lparr>ca_Answered := True, ca_State := Connecting\<rparr>))"

definition Answer :: "string \<Rightarrow> string \<Rightarrow> Controller \<Rightarrow> call_result \<times> Controller" where
  [step_defs]: "Answer requestID callID = mutate requestID callID ''answer'' answer_change"

text \<open>The common end of the two readiness marks: active once both sides are ready.\<close>

definition connect_if :: "bool \<Rightarrow> timestamp \<Rightarrow> Call \<Rightarrow> Call" where
  "connect_if ready now call =
     (if ready
      then call\<lparr>ca_State := Active,
                ca_ConnectedAt := (case ca_ConnectedAt call of None \<Rightarrow> Some now | Some t \<Rightarrow> Some t)\<rparr>
      else call\<lparr>ca_State := Connecting\<rparr>)"

definition cellular_change :: "timestamp \<Rightarrow> Call \<Rightarrow> (call_error, Call) result" where
  "cellular_change now call =
     (if ca_State call \<noteq> OutgoingDialing \<and> ca_State call \<noteq> Connecting then Inl ErrInvalidState
      else Inr (connect_if (ca_MediaReady call) now (call\<lparr>ca_CellularReady := True\<rparr>)))"

definition MarkCellularReady :: "timestamp \<Rightarrow> string \<Rightarrow> Controller \<Rightarrow> call_result \<times> Controller" where
  [step_defs]: "MarkCellularReady now callID =
     mutate (''cellular-ready:'' @ callID) callID ''cellular_ready'' (cellular_change now)"

definition media_change :: "timestamp \<Rightarrow> Call \<Rightarrow> (call_error, Call) result" where
  "media_change now call =
     (if ca_State call \<noteq> OutgoingDialing \<and> ca_State call \<noteq> Connecting \<and> ca_State call \<noteq> Active \<and>
         ca_State call \<noteq> Recovering then Inl ErrInvalidState
      else Inr (connect_if (ca_CellularReady call) now (call\<lparr>ca_MediaReady := True\<rparr>)))"

definition MarkMediaReady :: "timestamp \<Rightarrow> string \<Rightarrow> Controller \<Rightarrow> call_result \<times> Controller" where
  [step_defs]: "MarkMediaReady now callID =
     mutate (''media-ready:'' @ callID) callID ''media_ready'' (media_change now)"

definition recovering_change :: "string \<Rightarrow> Call \<Rightarrow> (call_error, Call) result" where
  "recovering_change reason call =
     (if ca_State call \<noteq> OutgoingDialing \<and> ca_State call \<noteq> Connecting \<and> ca_State call \<noteq> Active
      then Inl ErrInvalidState
      else Inr (call\<lparr>ca_State := Recovering, ca_MediaReady := False, ca_EndReason := reason\<rparr>))"

definition MarkRecovering :: "string \<Rightarrow> string \<Rightarrow> Controller \<Rightarrow> call_result \<times> Controller" where
  [step_defs]: "MarkRecovering callID reason =
     mutate (''recovering:'' @ callID @ '':'' @ reason) callID ''call.recovering''
       (recovering_change reason)"

definition hangup_change :: "string \<Rightarrow> Call \<Rightarrow> (call_error, Call) result" where
  "hangup_change reason call =
     (if ca_State call = Ending then Inr call
      else if ca_State call = Idle then Inl ErrInvalidState
      else Inr (call\<lparr>ca_State := Ending, ca_EndReason := reason\<rparr>))"

definition Hangup :: "string \<Rightarrow> string \<Rightarrow> string \<Rightarrow> Controller \<Rightarrow> call_result \<times> Controller" where
  [step_defs]: "Hangup requestID callID reason = mutate requestID callID ''hangup'' (hangup_change reason)"

definition ended_change :: "string \<Rightarrow> Call \<Rightarrow> (call_error, Call) result" where
  "ended_change reason call =
     (if ca_State call = Ending then Inr call
      else Inr (call\<lparr>ca_State := Ending, ca_EndReason := reason\<rparr>))"

definition RemoteEnded :: "string \<Rightarrow> string \<Rightarrow> Controller \<Rightarrow> call_result \<times> Controller" where
  [step_defs]: "RemoteEnded callID reason =
     mutate (''remote-ended:'' @ callID @ '':'' @ reason) callID ''call.ended'' (ended_change reason)"

definition Rollback :: "string \<Rightarrow> string \<Rightarrow> Controller \<Rightarrow> call_error option \<times> Controller" where
  [step_defs]: "Rollback requestID callID c =
     (case (co_requests c requestID, co_active c) of
        (Some r, Some active) \<Rightarrow>
          (case rr_previous r of
             Some previous \<Rightarrow>
               if ca_ID active \<noteq> callID then (Some ErrCallNotFound, c)
               else (None, c\<lparr>co_active := Some previous,
                             co_requests := (co_requests c)(requestID := None)\<rparr>)
           | None \<Rightarrow> (Some ErrCallNotFound, c))
      | _ \<Rightarrow> (Some ErrCallNotFound, c))"

definition DTMF :: "string \<Rightarrow> rune \<Rightarrow> Controller \<Rightarrow> call_error option" where
  "DTMF callID digit c =
     (if digit \<notin> set (map of_char ''0123456789*#ABCD'') then Some ErrInvalidDTMF
      else (case co_active c of
              None \<Rightarrow> Some ErrCallNotFound
            | Some active \<Rightarrow>
                if ca_ID active \<noteq> callID then Some ErrCallNotFound
                else if ca_State active \<noteq> Active then Some ErrInvalidState else None))"

definition Finish :: "timestamp \<Rightarrow> string \<Rightarrow> Controller \<Rightarrow> call_result \<times> Controller" where
  [step_defs]: "Finish now callID c =
     (case co_active c of
        None \<Rightarrow> (failed ErrCallNotFound, c)
      | Some active \<Rightarrow>
          if ca_ID active \<noteq> callID then (failed ErrCallNotFound, c)
          else if ca_State active \<noteq> Ending then (failed ErrInvalidState, c)
          else
            let call = active\<lparr>ca_EndedAt := Some now\<rparr>
            in ((call, \<lparr>ev_CallID = callID, ev_State = Ending, ev_Kind = ''call.ended'',
                        ev_Reason = ca_EndReason call\<rparr>, None),
                c\<lparr>co_active := None\<rparr>))"

section \<open>Steps\<close>

text \<open>Every operation that changes the controller, but \<open>Rollback\<close>, which is a step of its own.\<close>

inductive call_step :: "Controller \<Rightarrow> Controller \<Rightarrow> bool" where
  incoming: "call_step c (snd (Incoming now callID peer c))"
| dial: "call_step c (snd (Dial now requestID callID peer c))"
| answer: "call_step c (snd (Answer requestID callID c))"
| cellular: "call_step c (snd (MarkCellularReady now callID c))"
| media: "call_step c (snd (MarkMediaReady now callID c))"
| recovering: "call_step c (snd (MarkRecovering callID reason c))"
| hangup: "call_step c (snd (Hangup requestID callID reason c))"
| remote: "call_step c (snd (RemoteEnded callID reason c))"
| finish: "call_step c (snd (Finish now callID c))"

text \<open>What an operation can do to the call on the line.\<close>

inductive call_change :: "Call \<Rightarrow> Call \<Rightarrow> bool" where
  answer: "answer_change a = Inr a' \<Longrightarrow> call_change a a'"
| cellular: "cellular_change now a = Inr a' \<Longrightarrow> call_change a a'"
| media: "media_change now a = Inr a' \<Longrightarrow> call_change a a'"
| recovering: "recovering_change reason a = Inr a' \<Longrightarrow> call_change a a'"
| hangup: "hangup_change reason a = Inr a' \<Longrightarrow> call_change a a'"
| ended: "ended_change reason a = Inr a' \<Longrightarrow> call_change a a'"

lemmas change_defs = answer_change_def cellular_change_def media_change_def recovering_change_def
  hangup_change_def ended_change_def connect_if_def

definition fresh_call :: "Call \<Rightarrow> bool" where
  "fresh_call a \<longleftrightarrow> (\<exists>i p t. a = zero_call\<lparr>ca_ID := i, ca_Direction := Inbound, ca_Peer := p,
       ca_State := IncomingRinging, ca_StartedAt := t\<rparr> \<or>
     a = zero_call\<lparr>ca_ID := i, ca_Direction := Outbound, ca_Peer := p, ca_State := OutgoingDialing,
       ca_StartedAt := t\<rparr>)"

lemma mutate_cases:
  obtains (same) "snd (mutate req callID kind change c) = c"
  | (change) a a' e where "co_active c = Some a" "ca_ID a = callID" "change a = Inr a'"
      "co_requests c req = None"
      "snd (mutate req callID kind change c) = c\<lparr>co_active := Some a',
         co_requests := (co_requests c)(req \<mapsto>
           \<lparr>rr_call = a', rr_event = e, rr_err = None, rr_previous = Some a\<rparr>)\<rparr>"
proof (cases "co_requests c req")
  case None
  show thesis
  proof (cases "\<exists>a a'. co_active c = Some a \<and> ca_ID a = callID \<and> change a = Inr a'")
    case True
    then obtain a a' where "co_active c = Some a" "ca_ID a = callID" "change a = Inr a'" by blast
    with None show thesis by (intro change) (simp_all add: mutate_def Let_def)
  next
    case False
    with None show thesis
      by (intro same) (auto simp: mutate_def split: option.splits sum.splits)
  qed
qed (auto intro: same simp: mutate_def)

text \<open>Every step is one of four kinds.\<close>

lemma call_step_elim [consumes 1, case_names same new change finish]:
  assumes "call_step c c'"
  obtains (same) "c' = c"
  | (new) a reqs where "co_active c = None" "fresh_call a"
      "c' = c\<lparr>co_active := Some a, co_requests := reqs\<rparr>"
      "reqs = co_requests c \<or> (\<exists>req e. co_requests c req = None \<and> reqs = (co_requests c)(req \<mapsto>
         \<lparr>rr_call = a, rr_event = e, rr_err = None, rr_previous = None\<rparr>))"
  | (change) a a' req e where "co_active c = Some a" "call_change a a'" "co_requests c req = None"
      "c' = c\<lparr>co_active := Some a', co_requests := (co_requests c)(req \<mapsto>
         \<lparr>rr_call = a', rr_event = e, rr_err = None, rr_previous = Some a\<rparr>)\<rparr>"
  | (finish) a where "co_active c = Some a" "ca_State a = Ending" "c' = c\<lparr>co_active := None\<rparr>"
proof -
  note that_same = same and that_change = change and that_finish = finish
  have mut: thesis if c': "c' = snd (mutate req callID kind f c)"
      and f: "\<And>a a'. f a = Inr a' \<Longrightarrow> call_change a a'" for req callID kind f
  proof (cases rule: mutate_cases [of req callID kind f c])
    case same
    with c' that_same show thesis by simp
  next
    case (change a a' e)
    show thesis
      by (rule that_change [OF change(1) f [OF change(3)] change(4)]) (simp add: c' change(5))
  qed
  show thesis
    using assms
  proof cases
    case (incoming now callID peer)
    show thesis
    proof (cases "co_active c")
      case None
      with incoming show thesis
        by (intro new [of "zero_call\<lparr>ca_ID := callID, ca_Direction := Inbound, ca_Peer := peer,
             ca_State := IncomingRinging, ca_StartedAt := now\<rparr>" "co_requests c"])
          (auto simp: Incoming_def Let_def fresh_call_def)
    next
      case (Some a)
      with incoming same show thesis by (auto simp: Incoming_def split: if_splits)
    qed
  next
    case (dial now requestID callID peer)
    show thesis
    proof (cases "co_requests c requestID = None \<and> co_active c = None")
      case True
      let ?a = "zero_call\<lparr>ca_ID := callID, ca_Direction := Outbound, ca_Peer := peer,
         ca_State := OutgoingDialing, ca_StartedAt := now\<rparr>"
      from True dial have "c' = c\<lparr>co_active := Some ?a, co_requests := (co_requests c)(requestID \<mapsto>
          \<lparr>rr_call = ?a, rr_event = \<lparr>ev_CallID = callID, ev_State = OutgoingDialing,
             ev_Kind = ''call.updated'', ev_Reason = []\<rparr>, rr_err = None, rr_previous = None\<rparr>)\<rparr>"
        by (simp add: Dial_def Let_def)
      moreover have "fresh_call ?a" unfolding fresh_call_def by blast
      ultimately show thesis using True by (intro new) auto
    next
      case False
      with dial same show thesis by (auto simp: Dial_def split: option.splits)
    qed
  next
    case (finish now callID)
    with that_same that_finish show thesis
      by (auto simp: Finish_def Let_def split: option.splits if_splits)
  next
    case (answer requestID callID)
    then show thesis by (intro mut) (auto simp: Answer_def intro: call_change.intros)
  next
    case (cellular now callID)
    then show thesis
      by (intro mut [of _ _ _ "cellular_change now"]) (auto simp: MarkCellularReady_def intro: call_change.intros)
  next
    case (media now callID)
    then show thesis
      by (intro mut [of _ _ _ "media_change now"]) (auto simp: MarkMediaReady_def intro: call_change.intros)
  next
    case (recovering callID reason)
    then show thesis
      by (intro mut [of _ _ _ "recovering_change reason"]) (auto simp: MarkRecovering_def intro: call_change.intros)
  next
    case (hangup requestID callID reason)
    then show thesis
      by (intro mut [of _ _ _ "hangup_change reason"]) (auto simp: Hangup_def intro: call_change.intros)
  next
    case (remote callID reason)
    then show thesis
      by (intro mut [of _ _ _ "ended_change reason"]) (auto simp: RemoteEnded_def intro: call_change.intros)
  qed
qed

section \<open>The invariant\<close>

text \<open>A call on the line: an active call has both sides ready and a connection time, a ringing or dialing
  call has neither, an inbound call past ringing was answered unless it is ending, and a recovering
  call has no media.\<close>

definition call_ok :: "Call \<Rightarrow> bool" where
  "call_ok a \<longleftrightarrow>
     ca_State a \<noteq> NoState \<and> ca_State a \<noteq> Idle \<and> ca_Direction a \<noteq> NoDirection \<and> ca_EndedAt a = None \<and>
     (ca_State a = IncomingRinging \<longrightarrow> ca_Direction a = Inbound) \<and>
     (ca_State a = OutgoingDialing \<longrightarrow> ca_Direction a = Outbound) \<and>
     (ca_State a = IncomingRinging \<or> ca_State a = OutgoingDialing \<longrightarrow>
        \<not> ca_CellularReady a \<and> \<not> ca_MediaReady a \<and> \<not> ca_Answered a) \<and>
     (ca_State a = Connecting \<longrightarrow> \<not> (ca_CellularReady a \<and> ca_MediaReady a)) \<and>
     (ca_State a = Active \<longrightarrow> ca_CellularReady a \<and> ca_MediaReady a \<and> ca_ConnectedAt a \<noteq> None) \<and>
     (ca_State a = Recovering \<longrightarrow> \<not> ca_MediaReady a) \<and>
     (ca_Direction a = Inbound \<and> ca_State a \<in> {Connecting, Active, Recovering} \<longrightarrow> ca_Answered a)"

definition result_ok :: "request_result \<Rightarrow> bool" where
  "result_ok r \<longleftrightarrow> call_ok (rr_call r) \<and> rr_err r = None \<and>
     (case rr_previous r of None \<Rightarrow> True | Some p \<Rightarrow> call_ok p \<and> ca_ID (rr_call r) = ca_ID p)"

definition controller_ok :: "Controller \<Rightarrow> bool" where
  "controller_ok c \<longleftrightarrow>
     (\<forall>a. co_active c = Some a \<longrightarrow> call_ok a) \<and> (\<forall>req r. co_requests c req = Some r \<longrightarrow> result_ok r)"

lemma fresh_call_ok: "fresh_call a \<Longrightarrow> call_ok a"
  by (auto simp: fresh_call_def call_ok_def zero_call_def)

lemma call_change_identity:
  "call_change a a' \<Longrightarrow> ca_ID a' = ca_ID a \<and> ca_Peer a' = ca_Peer a \<and> ca_Direction a' = ca_Direction a \<and>
     ca_StartedAt a' = ca_StartedAt a"
  by (induction rule: call_change.induct) (auto simp: change_defs split: if_splits)

lemma connect_if_simps [simp]:
  "ca_State (connect_if b now a) = (if b then Active else Connecting)"
  "ca_Direction (connect_if b now a) = ca_Direction a" "ca_EndedAt (connect_if b now a) = ca_EndedAt a"
  "ca_CellularReady (connect_if b now a) = ca_CellularReady a"
  "ca_MediaReady (connect_if b now a) = ca_MediaReady a" "ca_Answered (connect_if b now a) = ca_Answered a"
  "\<exists>t. ca_ConnectedAt (connect_if True now a) = Some t"
  by (auto simp: connect_if_def split: option.split)

lemma connect_if_ok:
  assumes "call_ok a" and "ca_State a \<in> {OutgoingDialing, Connecting, Active, Recovering}"
  shows "call_ok (connect_if (ca_MediaReady a) now (a\<lparr>ca_CellularReady := True\<rparr>))"
    "call_ok (connect_if (ca_CellularReady a) now (a\<lparr>ca_MediaReady := True\<rparr>))"
proof -
  have "ca_Direction a = Inbound \<longrightarrow> ca_Answered a" using assms by (auto simp: call_ok_def)
  then show "call_ok (connect_if (ca_MediaReady a) now (a\<lparr>ca_CellularReady := True\<rparr>))"
    "call_ok (connect_if (ca_CellularReady a) now (a\<lparr>ca_MediaReady := True\<rparr>))"
    using assms(1) unfolding call_ok_def by simp_all
qed

lemma ending_ok: "call_ok a \<Longrightarrow> call_ok (a\<lparr>ca_State := Ending, ca_EndReason := reason\<rparr>)"
  unfolding call_ok_def by simp

lemma recovering_ok:
  assumes "call_ok a" and "ca_State a \<in> {OutgoingDialing, Connecting, Active}"
  shows "call_ok (a\<lparr>ca_State := Recovering, ca_MediaReady := False, ca_EndReason := reason\<rparr>)"
proof -
  have "ca_Direction a = Inbound \<longrightarrow> ca_Answered a" using assms by (auto simp: call_ok_def)
  then show ?thesis using assms(1) unfolding call_ok_def by simp
qed

lemma answered_ok:
  assumes "call_ok a" and "ca_State a = IncomingRinging"
  shows "call_ok (a\<lparr>ca_Answered := True, ca_State := Connecting\<rparr>)"
  using assms unfolding call_ok_def by simp

lemma call_change_ok: "call_change a a' \<Longrightarrow> call_ok a \<Longrightarrow> call_ok a'"
proof (induction rule: call_change.induct)
  case (answer a a')
  then show ?case by (auto simp: answer_change_def answered_ok split: if_splits)
next
  case (cellular now a a')
  then have "ca_State a \<in> {OutgoingDialing, Connecting, Active, Recovering}"
    and "a' = connect_if (ca_MediaReady a) now (a\<lparr>ca_CellularReady := True\<rparr>)"
    by (auto simp: cellular_change_def split: if_splits)
  with cellular.prems show ?case by (simp add: connect_if_ok)
next
  case (media now a a')
  then have "ca_State a \<in> {OutgoingDialing, Connecting, Active, Recovering}"
    and "a' = connect_if (ca_CellularReady a) now (a\<lparr>ca_MediaReady := True\<rparr>)"
    by (auto simp: media_change_def split: if_splits)
  with media.prems show ?case by (simp add: connect_if_ok)
next
  case (recovering reason a a')
  then have "ca_State a \<in> {OutgoingDialing, Connecting, Active}"
    and "a' = a\<lparr>ca_State := Recovering, ca_MediaReady := False, ca_EndReason := reason\<rparr>"
    by (auto simp: recovering_change_def split: if_splits)
  with recovering.prems show ?case by (simp add: recovering_ok)
next
  case (hangup reason a a')
  then have "a' = a \<or> a' = a\<lparr>ca_State := Ending, ca_EndReason := reason\<rparr>"
    by (auto simp: hangup_change_def split: if_splits)
  with hangup.prems show ?case using ending_ok by auto
next
  case (ended reason a a')
  then have "a' = a \<or> a' = a\<lparr>ca_State := Ending, ca_EndReason := reason\<rparr>"
    by (auto simp: ended_change_def split: if_splits)
  with ended.prems show ?case using ending_ok by auto
qed

lemma controller_ok_New [wf_intros]: "controller_ok NewController"
  by (simp add: controller_ok_def NewController_def)

lemma controller_ok_activeD: "controller_ok c \<Longrightarrow> co_active c = Some a \<Longrightarrow> call_ok a"
  by (simp add: controller_ok_def)

lemma controller_ok_record:
  assumes "controller_ok c" and "call_ok a"
    and "case prev of None \<Rightarrow> True | Some p \<Rightarrow> call_ok p \<and> ca_ID a = ca_ID p"
  shows "controller_ok (c\<lparr>co_active := Some a, co_requests := (co_requests c)(req \<mapsto>
     \<lparr>rr_call = a, rr_event = e, rr_err = None, rr_previous = prev\<rparr>)\<rparr>)"
  using assms unfolding controller_ok_def by (auto simp: result_ok_def split: option.splits)

lemma controller_ok_active: "controller_ok c \<Longrightarrow> (\<And>x. a = Some x \<Longrightarrow> call_ok x) \<Longrightarrow>
    controller_ok (c\<lparr>co_active := a\<rparr>)"
  unfolding controller_ok_def by simp

lemma call_step_ok [wf_intros]:
  assumes "call_step c c'" and "controller_ok c"
  shows "controller_ok c'"
  using assms(1)
proof (cases rule: call_step_elim)
  case (new a reqs)
  note a = fresh_call_ok [OF new(2)]
  from new(4) show ?thesis
  proof
    assume "reqs = co_requests c"
    then have "c' = c\<lparr>co_active := Some a\<rparr>" using new(3) by simp
    then show ?thesis using controller_ok_active [OF assms(2), of "Some a"] a by simp
  next
    assume "\<exists>req e. co_requests c req = None \<and> reqs = (co_requests c)(req \<mapsto>
         \<lparr>rr_call = a, rr_event = e, rr_err = None, rr_previous = None\<rparr>)"
    then show ?thesis using controller_ok_record [OF assms(2) a, of None] new(3) by auto
  qed
next
  case (change a a' req e)
  have a: "call_ok a" using change(1) assms(2) by (rule controller_ok_activeD [rotated])
  then show ?thesis
    unfolding change(4) using call_change_ok [OF change(2) a] call_change_identity [OF change(2)]
    by (intro controller_ok_record assms(2)) auto
next
  case (finish a)
  then show ?thesis using controller_ok_active [OF assms(2), of None] by simp
qed (use assms(2) in simp)

lemma Rollback_ok [wf_intros]: "controller_ok c \<Longrightarrow> controller_ok (snd (Rollback req callID c))"
  by (auto simp: Rollback_def controller_ok_def split: option.splits) (force simp: result_ok_def)

inductive reachable :: "Controller \<Rightarrow> bool" where
  start: "reachable NewController"
| step: "reachable c \<Longrightarrow> call_step c c' \<Longrightarrow> reachable c'"
| rollback: "reachable c \<Longrightarrow> reachable (snd (Rollback requestID callID c))"

lemma reachable_ok: "reachable c \<Longrightarrow> controller_ok c"
  by (induction rule: reachable.induct) (auto intro: wf_intros)

section \<open>Life cycle\<close>

text \<open>The states a call may take next.\<close>

fun next_states :: "State \<Rightarrow> State set" where
  "next_states IncomingRinging = {Connecting, Ending}"
| "next_states OutgoingDialing = {Connecting, Recovering, Ending}"
| "next_states Connecting = {Connecting, Active, Recovering, Ending}"
| "next_states Active = {Active, Recovering, Ending}"
| "next_states Recovering = {Connecting, Active, Ending}"
| "next_states Ending = {Ending}"
| "next_states _ = {}"

lemma call_change_next:
  assumes "call_change a a'" and "call_ok a"
  shows "ca_State a' \<in> next_states (ca_State a)"
  using assms(1)
proof cases
  case (cellular now)
  then show ?thesis
    using assms(2) by (auto simp: cellular_change_def call_ok_def split: if_splits)
next
  case (media now)
  then show ?thesis
    using assms(2) by (auto simp: media_change_def call_ok_def split: if_splits)
next
  case answer
  then show ?thesis by (auto simp: answer_change_def split: if_splits)
next
  case (recovering reason)
  then show ?thesis by (auto simp: recovering_change_def split: if_splits)
next
  case (hangup reason)
  then show ?thesis
    using assms(2) by (cases "ca_State a") (auto simp: hangup_change_def call_ok_def split: if_splits)
next
  case (ended reason)
  then show ?thesis
    using assms(2) by (cases "ca_State a") (auto simp: ended_change_def call_ok_def split: if_splits)
qed

lemma reachable_invariant:
  assumes "reachable c"
  shows "controller_ok c"
  using assms by (rule reachable_ok)

text \<open>C6: whatever sequence of operations and rollbacks ran, the call on the line is consistent: it is
  active only with both sides ready and a connection time, an inbound call gets past ringing only
  by being answered, and a recovering call has no media.\<close>

theorem reachable_call_consistent:
  assumes "reachable c" and "co_active c = Some a"
  shows "(ca_State a = Active \<longrightarrow> ca_CellularReady a \<and> ca_MediaReady a \<and> ca_ConnectedAt a \<noteq> None) \<and>
     (ca_Direction a = Inbound \<and> ca_State a \<in> {Connecting, Active, Recovering} \<longrightarrow> ca_Answered a) \<and>
     (ca_State a = Recovering \<longrightarrow> \<not> ca_MediaReady a) \<and> ca_EndedAt a = None"
  using controller_ok_activeD [OF reachable_ok [OF assms(1)] assms(2)] unfolding call_ok_def by simp

text \<open>C7: a single line. An operation on a reachable controller leaves the line as it is, puts a new
  ringing or dialing call on a free line, moves the call along the life cycle without changing its
  identity, or frees the line of an ending call.\<close>

theorem call_step_life_cycle:
  assumes "reachable c" and "call_step c c'"
  shows "co_active c' = co_active c \<or>
     (co_active c = None \<and> (\<exists>a. co_active c' = Some a \<and> ca_State a \<in> {IncomingRinging, OutgoingDialing})) \<or>
     (\<exists>a a'. co_active c = Some a \<and> co_active c' = Some a' \<and> ca_State a' \<in> next_states (ca_State a) \<and>
        ca_ID a' = ca_ID a \<and> ca_Peer a' = ca_Peer a \<and> ca_Direction a' = ca_Direction a) \<or>
     (\<exists>a. co_active c = Some a \<and> ca_State a = Ending \<and> co_active c' = None)"
  using assms(2)
proof (cases rule: call_step_elim)
  case (new a reqs)
  then show ?thesis by (auto simp: fresh_call_def)
next
  case (change a a' req e)
  with call_change_next [OF change(2)] call_change_identity [OF change(2)]
    controller_ok_activeD [OF reachable_ok [OF assms(1)] change(1)]
  show ?thesis by simp
qed simp_all

section \<open>Requests\<close>

lemma call_step_requests_mono:
  "call_step c c' \<Longrightarrow> co_requests c req = Some r \<Longrightarrow> co_requests c' req = Some r"
  by (cases rule: call_step_elim) auto

text \<open>Everything that can happen to a controller: its operations, and \<open>Rollback\<close> under any request id. A
  rollback drops the record it undoes; the record of a dial has no previous call, which \<open>Rollback\<close> refuses.\<close>

inductive controller_step :: "Controller \<Rightarrow> Controller \<Rightarrow> bool" where
  operation: "call_step c c' \<Longrightarrow> controller_step c c'"
| undone: "controller_step c (snd (Rollback requestID callID c))"

lemma dial_record_kept:
  assumes "controller_step c c'" and "co_requests c req = Some r" and "rr_previous r = None"
  shows "co_requests c' req = Some r"
  using assms(1)
proof cases
  case operation
  then show ?thesis using assms(2) by (rule call_step_requests_mono)
next
  case (undone requestID callID)
  then show ?thesis using assms(2,3) by (auto simp: Rollback_def split: option.splits)
qed

lemma dial_record_kept_steps:
  "controller_step\<^sup>*\<^sup>* c c' \<Longrightarrow> co_requests c req = Some r \<Longrightarrow> rr_previous r = None \<Longrightarrow>
     co_requests c' req = Some r"
  by (induction rule: rtranclp_induct) (auto intro: dial_record_kept)

lemma mutate_recorded:
  "mutate req callID kind f c = ((call, event, None), c') \<Longrightarrow> c' \<noteq> c \<Longrightarrow>
     \<exists>p. co_requests c' req = Some \<lparr>rr_call = call, rr_event = event, rr_err = None, rr_previous = p\<rparr>"
  by (auto simp: mutate_def Let_def split: option.splits sum.splits if_splits)

lemma mutate_replayed:
  "co_requests c req = Some r \<Longrightarrow> mutate req callID kind f c = (replayed r, c)"
  by (simp add: mutate_def)

text \<open>C10: an idempotency key stays bound. Once a dial has been accepted under a request id, every later
  dial, answer or hangup under that id, whatever call or number it names and whatever operations and
  rollbacks, of this id or of others, happened in between, returns the first result and changes nothing.\<close>

theorem request_id_replays:
  assumes "Dial now req callID peer c = ((call, event, None), c1)" and "co_requests c req = None"
    and "controller_step\<^sup>*\<^sup>* c1 c2"
  shows "Dial now' req callID' peer' c2 = ((call, event, None), c2) \<and>
     Answer req callID' c2 = ((call, event, None), c2) \<and>
     Hangup req callID' reason c2 = ((call, event, None), c2)"
proof -
  from assms(1,2) have "co_requests c1 req = Some \<lparr>rr_call = call, rr_event = event, rr_err = None,
      rr_previous = None\<rparr>"
    by (auto simp: Dial_def Let_def split: if_splits)
  from dial_record_kept_steps [OF assms(3) this] show ?thesis
    by (simp add: Dial_def Answer_def Hangup_def mutate_replayed)
qed

lemma restore_controller:
  "co_active c = Some a \<Longrightarrow> co_requests c req = None \<Longrightarrow>
     c\<lparr>co_active := Some a, co_requests := (co_requests c)(req := None)\<rparr> = c"
  by (cases c) auto

lemma mutate_Rollback:
  assumes "co_requests c req = None" and "snd (snd (fst (mutate req callID kind f c))) = None"
    and "\<And>a a'. f a = Inr a' \<Longrightarrow> ca_ID a' = ca_ID a"
  shows "Rollback req callID (snd (mutate req callID kind f c)) = (None, c)"
proof -
  from assms(1,2) obtain a a' where "co_active c = Some a" "ca_ID a = callID" "f a = Inr a'"
    by (auto simp: mutate_def split: option.splits if_splits sum.splits)
  with assms(1,3) show ?thesis
    by (simp add: mutate_def Rollback_def Let_def restore_controller)
qed

text \<open>Rolling back an answer or a hangup whose modem command failed restores the controller exactly,
  the request cache included.\<close>

theorem Rollback_undoes:
  assumes "co_requests c req = None"
  shows "(snd (snd (fst (Answer req callID c))) = None \<longrightarrow>
            Rollback req callID (snd (Answer req callID c)) = (None, c)) \<and>
         (snd (snd (fst (Hangup req callID reason c))) = None \<longrightarrow>
            Rollback req callID (snd (Hangup req callID reason c)) = (None, c))"
proof (intro conjI impI)
  assume "snd (snd (fst (Answer req callID c))) = None"
  then show "Rollback req callID (snd (Answer req callID c)) = (None, c)"
    unfolding Answer_def by (rule mutate_Rollback [OF assms]) (auto simp: answer_change_def split: if_splits)
next
  assume "snd (snd (fst (Hangup req callID reason c))) = None"
  then show "Rollback req callID (snd (Hangup req callID reason c)) = (None, c)"
    unfolding Hangup_def by (rule mutate_Rollback [OF assms]) (auto simp: hangup_change_def split: if_splits)
qed

section \<open>The recovery that never ends\<close>

text \<open>A call in recovery whose media was already reported ready once.\<close>

definition stuck :: "string \<Rightarrow> Controller \<Rightarrow> bool" where
  "stuck i c \<longleftrightarrow> (\<exists>a. co_active c = Some a \<and> ca_ID a = i \<and> ca_State a = Recovering) \<and>
     co_requests c (''media-ready:'' @ i) \<noteq> None"

text \<open>In that state the next media-ready report is answered from the request cache and leaves the call
  recovering, and every other operation does so too, unless it ends the call.\<close>

theorem recovery_is_stuck:
  assumes "stuck i c" and "call_step c c'"
  shows "(stuck i c' \<or> (\<exists>a. co_active c' = Some a \<and> ca_ID a = i \<and> ca_State a = Ending)) \<and>
     snd (MarkMediaReady now i c) = c"
proof -
  obtain a r where a: "co_active c = Some a" "ca_ID a = i" "ca_State a = Recovering"
    and r: "co_requests c (''media-ready:'' @ i) = Some r"
    using assms(1) unfolding stuck_def by blast
  have failing: "snd (mutate req j kind f c) = c" if "\<exists>e. f a = Inl e" for req j kind f
    using that a by (auto simp: mutate_def split: option.splits)
  have media: "snd (MarkMediaReady now j c) = c" for now j
    using a r by (auto simp: MarkMediaReady_def mutate_def split: option.splits)
  have ending: "stuck i (snd (mutate req j kind f c)) \<or>
      (\<exists>b. co_active (snd (mutate req j kind f c)) = Some b \<and> ca_ID b = i \<and> ca_State b = Ending)"
    if "\<exists>b. f a = Inr b \<and> ca_ID b = i \<and> ca_State b = Ending" for req j kind f
    using that a assms(1) by (auto simp: mutate_def Let_def split: option.splits)
  from assms(2) show ?thesis
  proof cases
    case (answer req j)
    have "c' = c" unfolding answer Answer_def by (rule failing) (simp add: answer_change_def a)
    with assms(1) media show ?thesis by simp
  next
    case (cellular now j)
    have "c' = c" unfolding cellular MarkCellularReady_def
      by (rule failing) (simp add: cellular_change_def a)
    with assms(1) media show ?thesis by simp
  next
    case (recovering j reason)
    have "c' = c" unfolding recovering MarkRecovering_def
      by (rule failing) (simp add: recovering_change_def a)
    with assms(1) media show ?thesis by simp
  next
    case (hangup req j reason)
    then show ?thesis using media ending [of "hangup_change reason"] a
      by (simp add: Hangup_def hangup_change_def)
  next
    case (remote j reason)
    then show ?thesis using media ending [of "ended_change reason"] a
      by (simp add: RemoteEnded_def ended_change_def)
  next
    case (incoming now j peer)
    have "c' = c" using a unfolding incoming by (simp add: Incoming_def)
    with assms(1) media show ?thesis by simp
  next
    case (dial now req j peer)
    have "c' = c" using a unfolding dial by (simp add: Dial_def split: option.split)
    with assms(1) media show ?thesis by simp
  next
    case (media now j)
    then show ?thesis
      using assms(1) \<open>\<And>now j. snd (MarkMediaReady now j c) = c\<close> by simp
  next
    case (finish now j)
    have "c' = c" using a unfolding finish by (simp add: Finish_def)
    with assms(1) media show ?thesis by simp
  qed
qed

text \<open>An outbound call that connects, loses its media and gets it back: the caller is told \<open>Active\<close>, the
  line says \<open>Recovering\<close>.\<close>

definition recovering_line :: Controller where
  "recovering_line = snd (MarkRecovering ''c'' ''ice'' (snd (MarkMediaReady 3 ''c''
     (snd (MarkCellularReady 2 ''c'' (snd (Dial 1 ''r'' ''c'' ''10086'' NewController)))))))"

lemmas line_simps = recovering_line_def Dial_def MarkCellularReady_def MarkMediaReady_def MarkRecovering_def
  mutate_def change_defs Let_def NewController_def zero_call_def

lemma recovering_line_stuck: "stuck ''c'' recovering_line"
  by (simp add: line_simps stuck_def)

lemma recovery_reports_active:
  "ev_State (fst (snd (fst (MarkMediaReady 9 ''c'' recovering_line)))) = Active \<and>
   map_option ca_State (Snapshot (snd (MarkMediaReady 9 ''c'' recovering_line))) = Some Recovering"
  by (simp add: line_simps Snapshot_def)

theorem recovery_is_stuck_witness:
  "(stuck ''c'' (snd (Answer ''q'' ''c'' recovering_line)) \<or>
     (\<exists>a. co_active (snd (Answer ''q'' ''c'' recovering_line)) = Some a \<and> ca_ID a = ''c'' \<and> ca_State a = Ending)) \<and>
   snd (MarkMediaReady 9 ''c'' recovering_line) = recovering_line"
  by (rule recovery_is_stuck [OF recovering_line_stuck call_step.answer])

section \<open>Witnesses\<close>

definition dialing_line :: Controller where
  "dialing_line = snd (Dial 1 ''r'' ''c'' ''10086'' NewController)"

lemma reachable_dialing_line: "reachable dialing_line"
  unfolding dialing_line_def by (rule reachable.step [OF reachable.start call_step.dial])

theorem reachable_call_consistent_witness:
  "ca_State (the (co_active dialing_line)) = OutgoingDialing \<and> ca_EndedAt (the (co_active dialing_line)) = None"
  using reachable_call_consistent [OF reachable_dialing_line, of "the (co_active dialing_line)"]
  by (simp add: dialing_line_def line_simps)

theorem call_step_life_cycle_witness:
  "co_active (snd (MarkCellularReady 2 ''c'' dialing_line)) = co_active dialing_line \<or>
     (co_active dialing_line = None \<and> (\<exists>a. co_active (snd (MarkCellularReady 2 ''c'' dialing_line)) = Some a \<and>
        ca_State a \<in> {IncomingRinging, OutgoingDialing})) \<or>
     (\<exists>a a'. co_active dialing_line = Some a \<and> co_active (snd (MarkCellularReady 2 ''c'' dialing_line)) = Some a' \<and>
        ca_State a' \<in> next_states (ca_State a) \<and>
        ca_ID a' = ca_ID a \<and> ca_Peer a' = ca_Peer a \<and> ca_Direction a' = ca_Direction a) \<or>
     (\<exists>a. co_active dialing_line = Some a \<and> ca_State a = Ending \<and>
        co_active (snd (MarkCellularReady 2 ''c'' dialing_line)) = None)"
  by (rule call_step_life_cycle [OF reachable_dialing_line call_step.cellular])

text \<open>The dialing line after a hangup that was rolled back, and after an attempt to roll back the dial.\<close>

definition undone_line :: Controller where
  "undone_line = snd (Rollback ''r'' ''c'' (snd (Rollback ''h'' ''c'' (snd (Hangup ''h'' ''c'' ''why'' dialing_line)))))"

lemma undone_line_steps: "controller_step\<^sup>*\<^sup>* dialing_line undone_line"
proof -
  have "controller_step\<^sup>*\<^sup>* dialing_line (snd (Hangup ''h'' ''c'' ''why'' dialing_line))"
    by (rule r_into_rtranclp) (rule controller_step.operation, rule call_step.hangup)
  then show ?thesis
    unfolding undone_line_def
    by (metis controller_step.undone rtranclp.rtrancl_into_rtrancl)
qed

theorem request_id_replays_witness:
  "let call = zero_call\<lparr>ca_ID := ''c'', ca_Direction := Outbound, ca_Peer := ''10086'',
        ca_State := OutgoingDialing, ca_StartedAt := 1\<rparr>;
      event = \<lparr>ev_CallID = ''c'', ev_State = OutgoingDialing, ev_Kind = ''call.updated'', ev_Reason = []\<rparr>
   in Dial 7 ''r'' ''other'' ''10010'' undone_line = ((call, event, None), undone_line) \<and>
     Answer ''r'' ''other'' undone_line = ((call, event, None), undone_line) \<and>
     Hangup ''r'' ''other'' ''why'' undone_line = ((call, event, None), undone_line)"
  unfolding Let_def
  by (rule request_id_replays [OF _ _ undone_line_steps, of 1 _ "''c''" "''10086''" NewController])
    (simp_all add: dialing_line_def Dial_def NewController_def Let_def)

theorem Rollback_undoes_witness:
  "Rollback ''h'' ''c'' (snd (Hangup ''h'' ''c'' ''why'' dialing_line)) = (None, dialing_line)"
  using Rollback_undoes [of dialing_line "''h''" "''c''" "''why''"]
  by (simp add: dialing_line_def Hangup_def line_simps)

end
