(* ===== verification/Stream_Buffers.thy ===== *)
theory Stream_Buffers
  imports Gateway_Prelude
begin

text \<open>
  Two contracts that the gateway's in-memory buffers share. A \<^emph>\<open>dropping\<close> buffer keeps the newest
  entries (the voice queues, the event journal); a \<^emph>\<open>lossy\<close> channel keeps the oldest and refuses what
  does not fit (the subscribers of the event bus and of the journal). Each contract is a locale; what
  follows for a whole sequence of insertions is proved once here, and each buffer's model interprets it.
\<close>

locale dropping_buffer =
  fixes put :: "'a \<Rightarrow> 's \<Rightarrow> 's" and contents :: "'s \<Rightarrow> 'a list" and capacity :: "'s \<Rightarrow> nat"
    and fits :: "'a \<Rightarrow> bool" and valid :: "'s \<Rightarrow> bool"
  assumes capacity_pos: "valid s \<Longrightarrow> 0 < capacity s"
    and contents_bound: "valid s \<Longrightarrow> length (contents s) \<le> capacity s"
    and contents_put: "valid s \<Longrightarrow> fits x \<Longrightarrow> contents (put x s) = last_n (capacity s) (contents s @ [x])"
    and capacity_put: "valid s \<Longrightarrow> fits x \<Longrightarrow> capacity (put x s) = capacity s"
    and valid_put: "valid s \<Longrightarrow> fits x \<Longrightarrow> valid (put x s)"
begin

lemma fold_put:
  "valid s \<Longrightarrow> list_all fits xs \<Longrightarrow>
     valid (fold put xs s) \<and> capacity (fold put xs s) = capacity s \<and>
     contents (fold put xs s) = last_n (capacity s) (contents s @ xs)"
proof (induction xs arbitrary: s)
  case Nil
  with contents_bound [OF Nil(1)] show ?case by (simp add: last_n_def)
next
  case (Cons x xs)
  then have "contents (fold put (x # xs) s) = last_n (capacity s) (last_n (capacity s) (contents s @ [x]) @ xs)"
    by (simp add: contents_put capacity_put valid_put)
  also have "\<dots> = last_n (capacity s) (contents s @ x # xs)"
    using last_n_absorb [of "capacity s" "contents s @ [x]" xs] by (simp only: append.assoc append_Cons append_Nil)
  finally show ?case using Cons by (simp add: capacity_put valid_put)
qed

lemma never_over: "valid s \<Longrightarrow> list_all fits xs \<Longrightarrow> length (contents (fold put xs s)) \<le> capacity s"
  using fold_put by simp

lemma nothing_dropped:
  "valid s \<Longrightarrow> list_all fits xs \<Longrightarrow> length (contents s) + length xs \<le> capacity s \<Longrightarrow>
     contents (fold put xs s) = contents s @ xs"
  using fold_put [of s xs] by (simp add: last_n_def)

lemma newest_last: "valid s \<Longrightarrow> fits x \<Longrightarrow> contents (put x s) \<noteq> [] \<and> last (contents (put x s)) = x"
  using contents_put capacity_pos last_n_snoc_full [of "capacity s" "contents s" x] by simp

end

locale lossy_channel =
  fixes offer :: "'a \<Rightarrow> 's \<Rightarrow> 's" and waiting :: "'s \<Rightarrow> 'a list" and room :: nat
  assumes waiting_offer: "waiting (offer x s) = (if length (waiting s) < room then waiting s @ [x] else waiting s)"
begin

lemma fold_offer:
  "length (waiting s) \<le> room \<Longrightarrow> waiting (fold offer xs s) = take room (waiting s @ xs)"
proof (induction xs arbitrary: s)
  case (Cons x xs)
  then show ?case
    by (cases "length (waiting s) < room") (simp_all add: waiting_offer take_Cons')
qed simp

lemma all_delivered:
  "length (waiting s) + length xs \<le> room \<Longrightarrow> waiting (fold offer xs s) = waiting s @ xs"
  using fold_offer [of s xs] by simp

lemma offers_prefix:
  "length (waiting s) \<le> room \<Longrightarrow> \<exists>n. waiting (fold offer xs s) = waiting s @ take n xs"
  using fold_offer [of s xs] by (metis append_eq_conv_conj take_append take_all)

end

end
