(* ===== verification/Voice_Codec.thy ===== *)
theory Voice_Codec
  imports Stream_Buffers
begin

text \<open>
  The voice sample formats: G.711 \<mu>-law (\<^verbatim>\<open>gateway/internal/voice/pcm.go\<close>, \<^verbatim>\<open>encodeSample\<close>,
  \<^verbatim>\<open>decodeSample\<close>, the frame functions) and raw little-endian PCM (\<^verbatim>\<open>voice/raw_pcm.go\<close>). A Go
  \<^verbatim>\<open>int16\<close> is a 16-bit word read with \<^const>\<open>sint\<close>; the \<^verbatim>\<open>int\<close> intermediates are integers.
\<close>

type_synonym sample = "16 word"

definition SampleRate :: nat where "SampleRate = 8000"

definition FrameMillis :: nat where "FrameMillis = 20"

definition FrameSamples :: nat where "FrameSamples = SampleRate * FrameMillis div 1000"

lemma FrameSamples_160 [simp]: "FrameSamples = 160"
  by (simp add: FrameSamples_def SampleRate_def FrameMillis_def)

datatype voice_error = FrameSize nat | QueueCapacity | AlreadyActive | MediaRequired | IoError

definition ValidateFrame :: "'a list \<Rightarrow> (voice_error, unit) result" where
  "ValidateFrame frame = (if length frame \<noteq> FrameSamples then Inl (FrameSize (length frame)) else Inr ())"

section \<open>One sample\<close>

definition pcmuSegmentEndpoints :: "int list" where
  "pcmuSegmentEndpoints = [0, 256, 512, 1024, 2048, 4096, 8192, 16384]"

text \<open>The search for the segment: at most seven turns.\<close>

function segment_from :: "int \<Rightarrow> nat \<Rightarrow> nat" where
  "segment_from v segment =
     (if segment < length pcmuSegmentEndpoints - 1 \<and> pcmuSegmentEndpoints ! (segment + 1) \<le> v
      then segment_from v (segment + 1) else segment)"
  by pat_completeness auto
termination
  by (relation "measure (\<lambda>(v, segment). length pcmuSegmentEndpoints - segment)") auto

declare segment_from.simps [simp del]

text \<open>The magnitude \<^verbatim>\<open>value\<close> after clipping and bias.\<close>

definition biased :: "sample \<Rightarrow> int" where
  "biased sample =
     (let v = (if sint sample < 0 then - sint sample else sint sample)
      in (if 32635 < v then 32635 else v) + 132)"

definition encodeSample :: "sample \<Rightarrow> byte" where
  "encodeSample sample =
     (let sign = (if sint sample < 0 then 0x80 else 0 :: byte);
          v = biased sample;
          segment = segment_from v 0;
          mantissa = drop_bit (segment + 3) v AND 0x0f
      in NOT (sign OR word_of_nat (segment * 2 ^ 4) OR word_of_int mantissa))"

definition decodeSample :: "byte \<Rightarrow> sample" where
  "decodeSample b =
     (let v = NOT b;
          sign = v AND 0x80;
          segment = unat (drop_bit 4 v AND 0x07);
          mantissa = v AND 0x0f;
          sample = push_bit segment (push_bit 3 (uint mantissa) + 132)
      in if sign \<noteq> 0 then word_of_int (132 - sample) else word_of_int (sample - 132))"

definition EncodePCMU :: "sample list \<Rightarrow> (voice_error, byte list) result" where
  "EncodePCMU frame =
     (case ValidateFrame frame of Inl e \<Rightarrow> Inl e | Inr _ \<Rightarrow> Inr (map encodeSample frame))"

definition DecodePCMU :: "byte list \<Rightarrow> (voice_error, sample list) result" where
  "DecodePCMU encoded =
     (if length encoded \<noteq> FrameSamples then Inl (FrameSize (length encoded))
      else Inr (map decodeSample encoded))"

section \<open>Raw PCM\<close>

text \<open>\<^verbatim>\<open>WritePCM\<close> writes each sample low byte first; \<^verbatim>\<open>ReadPCM\<close> reads pairs of the bytes it got and
  keeps the rest of the caller's buffer.\<close>

definition sample_bytes :: "sample \<Rightarrow> byte list" where
  "sample_bytes s = [ucast s, ucast (drop_bit 8 s)]"

definition bytes_sample :: "byte \<Rightarrow> byte \<Rightarrow> sample" where
  "bytes_sample lo hi = ucast lo OR push_bit 8 (ucast hi)"

fun pcm_samples :: "byte list \<Rightarrow> sample list" where
  "pcm_samples (lo # hi # bs) = bytes_sample lo hi # pcm_samples bs"
| "pcm_samples _ = []"

record RawPCMAudio =
  raw_call :: string
  raw_closed :: bool

definition raw_Start :: "string \<Rightarrow> bool \<Rightarrow> RawPCMAudio \<Rightarrow> (voice_error, unit) result \<times> RawPCMAudio" where
  "raw_Start callID cancelled a =
     (if cancelled then (Inl IoError, a)
      else if raw_call a \<noteq> [] \<and> raw_call a \<noteq> callID then (Inl AlreadyActive, a)
      else (Inr (), a\<lparr>raw_call := callID\<rparr>))"

definition raw_Stop :: "RawPCMAudio \<Rightarrow> RawPCMAudio" where
  "raw_Stop a = a\<lparr>raw_call := []\<rparr>"

text \<open>\<open>received\<close>: the bytes \<^verbatim>\<open>io.ReadFull\<close> put into a buffer of twice the number of samples.\<close>

definition raw_ReadPCM :: "byte list \<Rightarrow> sample list \<Rightarrow> nat \<times> sample list" where
  "raw_ReadPCM received samples =
     (let got = pcm_samples (take (2 * length samples) received)
      in (length (take (2 * length samples) received) div 2, got @ drop (length got) samples))"

definition raw_WritePCM :: "sample list \<Rightarrow> byte list" where
  "raw_WritePCM samples = concat (map sample_bytes samples)"

section \<open>Round trips\<close>

lemma bytes_sample_bytes: "bytes_sample (ucast s) (ucast (drop_bit 8 s)) = s"
  unfolding bytes_sample_def by (rule bit_word_eqI) (auto simp: bit_simps)

lemma pcm_samples_bytes: "pcm_samples (concat (map sample_bytes samples)) = samples"
  by (induction samples) (simp_all add: sample_bytes_def bytes_sample_bytes)

section \<open>Companding\<close>

text \<open>The three fields of a code word do not overlap.\<close>

lemma field_bits:
  fixes m h :: byte
  assumes high: "\<And>n. bit h n \<longleftrightarrow> n = 7" and "segment < 8" and "unat m < 16" and "sign = 0 \<or> sign = h"
  defines "w \<equiv> sign OR word_of_nat (segment * 2 ^ 4) OR m"
  shows "w AND h = sign" and "drop_bit 4 w AND 0x07 = word_of_nat segment" and "w AND 0x0f = m"
proof -
  have masks: "(0x0f :: byte) = mask 4" "(0x07 :: byte) = mask 3"
    by (simp_all add: mask_eq_exp_minus_1)
  have seg: "(word_of_nat (segment * 2 ^ 4) :: byte) = push_bit 4 (word_of_nat segment)"
    by (simp add: push_bit_eq_mult)
  have seg_bit: "bit (word_of_nat segment :: byte) n \<Longrightarrow> n < 3" for n
    using byte_bit_less [of "word_of_nat segment" 3 n] assms(2) by (simp add: unat_of_nat)
  have m_bit: "bit m n \<Longrightarrow> n < 4" for n
    using byte_bit_less [of m 4 n] assms(3) by simp
  show "w AND h = sign"
    unfolding w_def masks seg using assms(4)
    by (intro bit_word_eqI) (auto simp: bit_and_iff bit_or_iff bit_push_bit_iff bit_drop_bit_eq
        bit_mask_iff high dest: seg_bit m_bit)
  show "drop_bit 4 w AND 0x07 = word_of_nat segment"
    unfolding w_def masks seg using assms(4)
    by (intro bit_word_eqI) (auto simp: bit_and_iff bit_or_iff bit_push_bit_iff bit_drop_bit_eq
        bit_mask_iff high dest: seg_bit m_bit)
  show "w AND 0x0f = m"
    unfolding w_def masks seg using assms(4)
    by (intro bit_word_eqI) (auto simp: bit_and_iff bit_or_iff bit_push_bit_iff bit_drop_bit_eq
        bit_mask_iff high dest: seg_bit m_bit)
qed

text \<open>The segment search ends at the unique segment whose range holds the biased value.\<close>

lemma endpoint: "k < 8 \<Longrightarrow> 0 < k \<Longrightarrow> pcmuSegmentEndpoints ! k = 2 ^ (k + 7)"
  by (auto simp: pcmuSegmentEndpoints_def less_Suc_eq numeral_eq_Suc nth_Cons')

lemma segment_from_range:
  assumes "segment \<le> 7" and "2 ^ (segment + 7) \<le> v" and "v < 2 ^ 15"
  shows "segment_from v segment \<le> 7 \<and> 2 ^ (segment_from v segment + 7) \<le> v \<and>
     v < 2 ^ (segment_from v segment + 8)"
  using assms
proof (induction v segment rule: segment_from.induct)
  case (1 v segment)
  have len: "length pcmuSegmentEndpoints - 1 = 7" by (simp add: pcmuSegmentEndpoints_def)
  show ?case
  proof (cases "segment < 7 \<and> 2 ^ (segment + 8) \<le> v")
    case True
    then have "segment_from v segment = segment_from v (segment + 1)"
      using endpoint [of "segment + 1"] len by (subst segment_from.simps) (simp add: add.commute)
    then show ?thesis using 1 True len endpoint [of "segment + 1"] by (simp add: add.commute)
  next
    case False
    then have "segment_from v segment = segment"
      using endpoint [of "segment + 1"] len by (subst segment_from.simps) (auto simp: add.commute)
    moreover have "segment = 7 \<or> v < 2 ^ (segment + 8)" using False 1(2) by linarith
    ultimately show ?thesis using 1 by auto
  qed
qed

lemma biased_range: "132 \<le> biased s \<and> biased s \<le> 32767"
  by (simp add: biased_def Let_def)

definition segment_of :: "sample \<Rightarrow> nat" where
  "segment_of s = segment_from (biased s) 0"

lemma segment_of_range:
  "segment_of s \<le> 7 \<and> 2 ^ (segment_of s + 7) \<le> biased s \<and> biased s < 2 ^ (segment_of s + 8)"
  unfolding segment_of_def using biased_range [of s] by (intro segment_from_range) auto

lemma mantissa_eq:
  "drop_bit (segment + 3) v AND 0x0f = v div 2 ^ (segment + 3) mod 16" for v :: int
proof -
  have "(0x0f :: int) = mask 4" by (simp add: mask_eq_exp_minus_1)
  then show ?thesis by (simp only: take_bit_eq_mask [symmetric]) (simp add: take_bit_eq_mod drop_bit_eq_div)
qed

text \<open>Decoding the code word of \<open>s\<close> yields the middle of its quantisation step.\<close>

definition step_middle :: "sample \<Rightarrow> int" where
  "step_middle s = biased s div 2 ^ (segment_of s + 3) * 2 ^ (segment_of s + 3) + 4 * 2 ^ segment_of s"

lemma sign_bit: "bit (0x80 :: byte) n \<longleftrightarrow> n = 7"
proof -
  have "(0x80 :: byte) = 2 ^ 7" by simp
  then show ?thesis by (simp only: bit_exp_iff) auto
qed

lemma encodeSample_fields:
  "\<exists>m. encodeSample s = NOT ((if sint s < 0 then 0x80 else 0) OR word_of_nat (segment_of s * 2 ^ 4) OR m) \<and>
     uint m = biased s div 2 ^ (segment_of s + 3) mod 16"
proof -
  let ?m = "biased s div 2 ^ (segment_of s + 3) mod 16"
  have "encodeSample s = NOT ((if sint s < 0 then 0x80 else 0) OR word_of_nat (segment_of s * 2 ^ 4) OR
      word_of_int ?m)"
    by (simp add: encodeSample_def Let_def segment_of_def mantissa_eq)
  moreover have "uint (word_of_int ?m :: byte) = ?m"
    by (subst uint_word_of_int) (simp add: mod_pos_pos_trivial)
  ultimately show ?thesis by blast
qed

lemma step_middle_eq:
  "step_middle s = (8 * (biased s div 2 ^ (segment_of s + 3)) + 4) * 2 ^ segment_of s"
  by (simp add: step_middle_def power_add algebra_simps)

lemma quotient_range:
  "16 \<le> biased s div 2 ^ (segment_of s + 3)" "biased s div 2 ^ (segment_of s + 3) < 32"
proof -
  have lo: "16 * 2 ^ (segment_of s + 3) \<le> biased s" and hi: "biased s < 32 * 2 ^ (segment_of s + 3)"
    using segment_of_range [of s] by (simp_all add: power_add)
  show "16 \<le> (biased s div 2 ^ (segment_of s + 3))" using lo zdiv_mono1 [OF lo, of "2 ^ (segment_of s + 3)"] by simp
  have "(biased s div 2 ^ (segment_of s + 3)) * 2 ^ (segment_of s + 3) \<le> biased s"
    using div_mult_mod_eq [of "biased s" "2 ^ (segment_of s + 3)"] pos_mod_sign [of "2 ^ (segment_of s + 3)" "biased s"]
    by (smt (verit) zero_less_power)
  with hi have "(biased s div 2 ^ (segment_of s + 3)) * 2 ^ (segment_of s + 3) < 32 * 2 ^ (segment_of s + 3)" by linarith
  then show "(biased s div 2 ^ (segment_of s + 3)) < 32" by (rule mult_right_less_imp_less) simp
qed

lemma decodeSample_encodeSample:
  "decodeSample (encodeSample s) =
     word_of_int (if sint s < 0 then 132 - step_middle s else step_middle s - 132)"
proof -
  let ?seg = "segment_of s" and ?q = "biased s div 2 ^ (segment_of s + 3)"
  obtain m where enc: "encodeSample s = NOT ((if sint s < 0 then 0x80 else 0) OR word_of_nat (?seg * 2 ^ 4) OR m)"
    and m: "uint m = ?q mod 16"
    using encodeSample_fields by blast
  have "?seg < 8" using segment_of_range [of s] by simp
  moreover have "unat m < 16" using m by (simp add: unat_eq_nat_uint nat_less_iff)
  ultimately have fields: "NOT (encodeSample s) AND 0x80 = (if sint s < 0 then 0x80 else 0)"
    "drop_bit 4 (NOT (encodeSample s)) AND 0x07 = word_of_nat ?seg" "NOT (encodeSample s) AND 0x0f = m"
    using field_bits [OF sign_bit, of ?seg m "if sint s < 0 then 0x80 else 0"] by (simp_all add: enc)
  have seg: "unat (word_of_nat ?seg :: byte) = ?seg" using \<open>?seg < 8\<close> by (simp add: unat_of_nat)
  have "16 \<le> ?q" "?q < 32" by (rule quotient_range)+
  moreover have "16 \<le> q \<Longrightarrow> q < 32 \<Longrightarrow> q mod 16 = q - 16" for q :: int by presburger
  ultimately have m': "uint m = ?q - 16" using m by simp
  have "push_bit ?seg (push_bit 3 (uint m) + 132) = step_middle s"
    unfolding m' step_middle_eq by (simp add: push_bit_eq_mult)
  then show ?thesis
    by (simp add: decodeSample_def Let_def fields seg del: mask_eq_exp_minus_1)
qed

text \<open>The step middle is within half a step of the clipped sample.\<close>

definition clipped :: "sample \<Rightarrow> int" where
  "clipped s = max (-32635) (min 32635 (sint s))"

lemma clipped_biased: "clipped s = (if sint s < 0 then 132 - biased s else biased s - 132)"
  by (auto simp: clipped_def biased_def Let_def)

lemma step_middle_error: "\<bar>step_middle s - biased s\<bar> \<le> 4 * 2 ^ segment_of s"
proof -
  let ?k = "(2 :: int) ^ (segment_of s + 3)"
  have "biased s = biased s div ?k * ?k + biased s mod ?k" by (rule div_mult_mod_eq [symmetric])
  moreover have "0 \<le> biased s mod ?k" "biased s mod ?k < ?k" by simp_all
  moreover have "?k = 8 * 2 ^ segment_of s" by (simp add: power_add)
  ultimately show ?thesis unfolding step_middle_def by linarith
qed

lemma step_middle_range: "132 \<le> step_middle s \<and> step_middle s \<le> 32256"
proof -
  let ?q = "biased s div 2 ^ (segment_of s + 3)" and ?p = "(2 :: int) ^ segment_of s"
  have p: "1 \<le> ?p" "?p \<le> 128"
    using power_increasing [of "segment_of s" 7 "2 :: int"] segment_of_range [of s] by simp_all
  have "132 * 1 \<le> (8 * ?q + 4) * ?p"
    using quotient_range(1) [of s] p(1) by (intro mult_mono) simp_all
  moreover have "(8 * ?q + 4) * ?p \<le> 252 * 128"
    using quotient_range [of s] p by (intro mult_mono) linarith+
  ultimately show ?thesis unfolding step_middle_eq by simp
qed

text \<open>Companding a sample and expanding it again keeps its sign and moves it by at most half a
  quantisation step of its segment, after clipping to the codec's range.\<close>

theorem companding_error:
  "\<bar>sint (decodeSample (encodeSample s)) - clipped s\<bar> \<le> 4 * 2 ^ segment_of s \<and> segment_of s \<le> 7 \<and>
   (if sint s < 0 then sint (decodeSample (encodeSample s)) \<le> 0
    else 0 \<le> sint (decodeSample (encodeSample s)))"
proof -
  let ?v = "if sint s < 0 then 132 - step_middle s else step_middle s - 132"
  have "sint (word_of_int ?v :: sample) = ?v"
    unfolding int_word_sint using step_middle_range [of s] by (simp add: mod_pos_pos_trivial)
  then have "sint (decodeSample (encodeSample s)) = ?v" unfolding decodeSample_encodeSample .
  with step_middle_error [of s] step_middle_range [of s] segment_of_range [of s] show ?thesis
    unfolding clipped_biased by auto
qed

lemma code_words:
  "list_all (\<lambda>n. n = 127 \<or> encodeSample (decodeSample (word_of_nat n)) = word_of_nat n) [0..<256]"
  by code_simp

text \<open>Every code word but the negative zero survives expansion and companding, and the negative zero
  becomes the positive one.\<close>

theorem code_word_roundtrip:
  "encodeSample (decodeSample b) = (if b = 0x7F then 0xFF else b)"
proof (cases "b = 0x7F")
  case False
  have "unat b < 2 ^ LENGTH(8)" by (rule unsigned_less)
  then have "unat b \<in> set [0..<256]" by (simp del: upt_Suc)
  with code_words have "unat b = 127 \<or> encodeSample (decodeSample (word_of_nat (unat b))) = word_of_nat (unat b)"
    unfolding list_all_iff by blast
  moreover have "unat b \<noteq> 127"
  proof
    assume "unat b = 127"
    then have "(word_of_nat (unat b) :: byte) = 0x7F" by (simp only:) simp
    with False show False by simp
  qed
  ultimately show ?thesis using False by simp
next
  case True
  have "encodeSample (decodeSample 0x7F) = 0xFF" by code_simp
  with True show ?thesis by simp
qed

text \<open>Raw PCM written by \<^verbatim>\<open>WritePCM\<close> and read back by \<^verbatim>\<open>ReadPCM\<close> into a buffer of at least that
  length yields the samples written and their number; the rest of the buffer is untouched.\<close>

theorem raw_PCM_roundtrip:
  assumes "length samples \<le> length buffer"
  shows "raw_ReadPCM (raw_WritePCM samples) buffer = (length samples, samples @ drop (length samples) buffer)"
proof -
  have "length (concat (map sample_bytes samples)) = 2 * length samples"
    by (induction samples) (simp_all add: sample_bytes_def)
  then show ?thesis using assms
    by (simp add: raw_ReadPCM_def raw_WritePCM_def pcm_samples_bytes Let_def)
qed

theorem raw_PCM_roundtrip_witness:
  "raw_ReadPCM (raw_WritePCM [1, 0xFFFE]) [0, 0, 7] = (2, [1, 0xFFFE, 7])"
  using raw_PCM_roundtrip [of "[1, 0xFFFE]" "[0, 0, 7]"] by simp

end
