(* ===== verification/Voice_Bridge.thy ===== *)
theory Voice_Bridge
  imports Voice_Codec
begin

text \<open>
  The voice queues and the bridge between modem audio and WebRTC media:
  \<^verbatim>\<open>gateway/internal/voice/pcm.go\<close> (\<^verbatim>\<open>Queue\<close>) and \<^verbatim>\<open>voice/bridge.go\<close>. The bridge has three
  concurrent activities (client frames, the playback ticker, the capture loop) and \<^verbatim>\<open>Stop\<close>; each
  critical section is one operation, and a step relation interleaves them.
\<close>

type_synonym frame = "sample list"

section \<open>The bounded queue\<close>

record Queue =
  qu_capacity :: nat
  qu_frames :: "frame list"
  qu_dropped :: nat

definition NewQueue :: "int \<Rightarrow> (voice_error, Queue) result" where
  "NewQueue capacity =
     (if capacity < 1 then Inl QueueCapacity
      else Inr \<lparr>qu_capacity = nat capacity, qu_frames = [], qu_dropped = 0\<rparr>)"

definition Push :: "frame \<Rightarrow> Queue \<Rightarrow> (voice_error, unit) result \<times> Queue" where
  "Push frame q =
     (case ValidateFrame frame of
        Inl e \<Rightarrow> (Inl e, q)
      | Inr _ \<Rightarrow>
          let q1 = (if length (qu_frames q) = qu_capacity q
                    then q\<lparr>qu_frames := drop 1 (qu_frames q), qu_dropped := qu_dropped q + 1\<rparr> else q)
          in (Inr (), q1\<lparr>qu_frames := qu_frames q1 @ [frame]\<rparr>))"

definition Pop :: "Queue \<Rightarrow> frame option \<times> Queue" where
  "Pop q = (case qu_frames q of [] \<Rightarrow> (None, q) | f # fs \<Rightarrow> (Some f, q\<lparr>qu_frames := fs\<rparr>))"

definition queue_len :: "Queue \<Rightarrow> nat" where
  "queue_len q = length (qu_frames q)"

definition queue_dropped :: "Queue \<Rightarrow> nat" where
  "queue_dropped q = qu_dropped q"

definition queue_ok :: "Queue \<Rightarrow> bool" where
  "queue_ok q \<longleftrightarrow> 0 < qu_capacity q \<and> length (qu_frames q) \<le> qu_capacity q \<and>
     (\<forall>f \<in> set (qu_frames q). length f = FrameSamples)"

interpretation voice_queue: dropping_buffer "\<lambda>f q. snd (Push f q)" qu_frames qu_capacity
  "\<lambda>f. length f = FrameSamples" queue_ok
  by unfold_locales
    (auto simp: queue_ok_def Push_def ValidateFrame_def Let_def last_n_def dest: in_set_dropD)

text \<open>A sequence of pushes keeps the newest frames, as many as fit, in order, and counts exactly the
  frames it discards.\<close>

theorem Queue_keeps_newest:
  assumes "queue_ok q" and "list_all (\<lambda>f. length f = FrameSamples) fs"
  shows "qu_frames (fold (\<lambda>f q. snd (Push f q)) fs q) = last_n (qu_capacity q) (qu_frames q @ fs) \<and>
     qu_dropped (fold (\<lambda>f q. snd (Push f q)) fs q) + length (qu_frames (fold (\<lambda>f q. snd (Push f q)) fs q)) =
       qu_dropped q + length (qu_frames q) + length fs"
proof
  show "qu_frames (fold (\<lambda>f q. snd (Push f q)) fs q) = last_n (qu_capacity q) (qu_frames q @ fs)"
    using voice_queue.fold_put [OF assms] by simp
  have one: "qu_dropped (snd (Push f q)) + length (qu_frames (snd (Push f q))) =
      qu_dropped q + length (qu_frames q) + 1" if "queue_ok q" "length f = FrameSamples" for f q
    using that by (auto simp: Push_def ValidateFrame_def Let_def queue_ok_def)
  show "qu_dropped (fold (\<lambda>f q. snd (Push f q)) fs q) + length (qu_frames (fold (\<lambda>f q. snd (Push f q)) fs q)) =
       qu_dropped q + length (qu_frames q) + length fs"
    using assms
  proof (induction fs arbitrary: q)
    case (Cons f fs)
    then have "queue_ok (snd (Push f q))" using voice_queue.valid_put [of q f] by simp
    with Cons one [of q f] show ?case by simp
  qed simp
qed

theorem Queue_keeps_newest_witness:
  "qu_frames (fold (\<lambda>f q. snd (Push f q)) [replicate 160 1, replicate 160 2]
     \<lparr>qu_capacity = 1, qu_frames = [], qu_dropped = 0\<rparr>) = [replicate 160 2]"
  using Queue_keeps_newest [of "\<lparr>qu_capacity = 1, qu_frames = [], qu_dropped = 0\<rparr>"
      "[replicate 160 1, replicate 160 2]"]
  by (simp add: queue_ok_def last_n_def)

section \<open>The bridge\<close>

record Bridge =
  br_started :: bool
  br_callID :: string
  br_clientFrameSeen :: bool
  br_cellularFrameSeen :: bool
  br_cellularFrames :: nat
  br_clientFrames :: nat
  br_cellularPeakMax :: int
  br_clientPeakMax :: int
  br_cellularNonZero :: nat
  br_clientNonZero :: nat
  br_clientQueue :: "frame list"
  br_cellularSum :: int
  br_clientSum :: int
  br_stopped :: bool

definition NewBridge :: Bridge where
  "NewBridge = \<lparr>br_started = False, br_callID = [], br_clientFrameSeen = False,
     br_cellularFrameSeen = False, br_cellularFrames = 0, br_clientFrames = 0, br_cellularPeakMax = 0,
     br_clientPeakMax = 0, br_cellularNonZero = 0, br_clientNonZero = 0, br_clientQueue = [],
     br_cellularSum = 0, br_clientSum = 0, br_stopped = False\<rparr>"

definition clientQueueSize :: nat where "clientQueueSize = 50"

definition peak_step :: "int \<Rightarrow> sample \<Rightarrow> int" where
  "peak_step peak s =
     (let v = (if sint s < 0 then - sint s else sint s) in if peak < v then v else peak)"

definition pcmPeak :: "frame \<Rightarrow> int" where
  "pcmPeak samples = foldl peak_step 0 samples"

text \<open>\<open>audio\<close> is what the voice backend's \<^verbatim>\<open>Start\<close> returned.\<close>

definition bridge_Start ::
  "bool \<Rightarrow> bool \<Rightarrow> (voice_error, unit) result \<Rightarrow> string \<Rightarrow> Bridge \<Rightarrow> (voice_error, unit) result \<times> Bridge" where
  "bridge_Start has_audio has_media audio callID b =
     (if \<not> has_audio \<or> \<not> has_media then (Inl MediaRequired, b)
      else (case audio of
              Inl e \<Rightarrow> (Inl e, b)
            | Inr _ \<Rightarrow> (Inr (), b\<lparr>br_started := True, br_callID := callID, br_clientFrameSeen := False,
                              br_cellularFrameSeen := False, br_clientQueue := []\<rparr>)))"

definition enqueueClient :: "frame \<Rightarrow> Bridge \<Rightarrow> Bridge" where
  "enqueueClient pcm b =
     (let q = (if clientQueueSize \<le> length (br_clientQueue b) then drop 1 (br_clientQueue b)
               else br_clientQueue b)
      in b\<lparr>br_clientQueue := q @ [pcm]\<rparr>)"

text \<open>The statistics under the lock of the client callback; every 50 frames the peak is logged and
  reset.\<close>

definition client_stats :: "frame \<Rightarrow> Bridge \<Rightarrow> Bridge" where
  "client_stats pcm b =
     (let cpeak = pcmPeak pcm; n = br_clientFrames b + 1
      in b\<lparr>br_clientFrameSeen := True, br_clientFrames := n,
           br_clientPeakMax := (if n mod 50 = 0 then 0
              else if br_clientPeakMax b < cpeak then cpeak else br_clientPeakMax b),
           br_clientNonZero := br_clientNonZero b + (if 0 < cpeak then 1 else 0),
           br_clientSum := br_clientSum b + cpeak\<rparr>)"

text \<open>The callback of a client frame: its first critical section decodes and counts; the second is
  \<^verbatim>\<open>enqueueClient\<close>. The result is the frame to hand to the recording hook and to enqueue.\<close>

definition client_frame :: "byte list \<Rightarrow> Bridge \<Rightarrow> frame option \<times> Bridge" where
  "client_frame encoded b =
     (if length encoded \<noteq> FrameSamples then (None, b)
      else (case DecodePCMU encoded of
              Inl e \<Rightarrow> (None, b)
            | Inr pcm \<Rightarrow> if \<not> br_started b then (None, b) else (Some pcm, client_stats pcm b)))"

definition silence :: frame where
  "silence = replicate FrameSamples 0"

text \<open>The playback ticker: \<^term>\<open>None\<close> ends the loop, otherwise the queued frame, if there is one. The
  write happens in a critical section of its own, which looks at \<open>started\<close> again.\<close>

definition playback_take :: "Bridge \<Rightarrow> frame option option \<times> Bridge" where
  "playback_take b =
     (if \<not> br_started b then (None, b)
      else (case br_clientQueue b of
              [] \<Rightarrow> (Some None, b)
            | f # fs \<Rightarrow> (Some (Some f), b\<lparr>br_clientQueue := fs\<rparr>)))"

definition writePCM :: "frame \<Rightarrow> Bridge \<Rightarrow> frame list" where
  "writePCM pcm b = (if \<not> br_started b then [] else [pcm])"

definition cellular_stats :: "frame \<Rightarrow> Bridge \<Rightarrow> Bridge" where
  "cellular_stats pcm b =
     (let peak = pcmPeak pcm; n = br_cellularFrames b + 1
      in b\<lparr>br_cellularFrameSeen := True, br_cellularFrames := n,
           br_cellularPeakMax := (if n mod 50 = 0 then 0
              else if br_cellularPeakMax b < peak then peak else br_cellularPeakMax b),
           br_cellularNonZero := br_cellularNonZero b + (if 0 < peak then 1 else 0),
           br_cellularSum := br_cellularSum b + peak\<rparr>)"

text \<open>
  One turn of the capture loop, for a read that returned \<open>count\<close> and filled \<open>pcm\<close>: whether the loop
  goes on, the PCMU frame handed to the client's \<^verbatim>\<open>WritePCMU\<close> if there is one (\<open>sent\<close>: it
  returned no error), and the bridge.
\<close>

definition capture_turn ::
  "(voice_error, nat) result \<Rightarrow> frame \<Rightarrow> bool \<Rightarrow> Bridge \<Rightarrow> bool \<times> byte list option \<times> Bridge" where
  "capture_turn read_result pcm sent b =
     (case read_result of
        Inl e \<Rightarrow> (False, None, b)
      | Inr count \<Rightarrow>
          if \<not> br_started b then (False, None, b)
          else if count \<noteq> FrameSamples then (True, None, b)
          else
            let b1 = cellular_stats pcm b
            in (case EncodePCMU pcm of
                  Inl e \<Rightarrow> (False, None, b1)
                | Inr out \<Rightarrow> (sent, Some out, b1)))"

text \<open>\<^verbatim>\<open>Stop\<close> runs once; the first component tells whether the audio backend is stopped.\<close>

definition bridge_Stop :: "Bridge \<Rightarrow> bool \<times> Bridge" where
  "bridge_Stop b =
     (if br_stopped b then (False, b)
      else (br_started b, b\<lparr>br_started := False, br_callID := [], br_stopped := True\<rparr>))"

lemma enqueueClient_simps [simp]:
  "br_clientQueue (enqueueClient f b) =
     (if clientQueueSize \<le> length (br_clientQueue b) then drop 1 (br_clientQueue b) else br_clientQueue b) @ [f]"
  "br_started (enqueueClient f b) = br_started b" "br_stopped (enqueueClient f b) = br_stopped b"
  by (simp_all add: enqueueClient_def Let_def)

definition jitter_ok :: "Bridge \<Rightarrow> bool" where
  "jitter_ok b \<longleftrightarrow> length (br_clientQueue b) \<le> clientQueueSize"

interpretation jitter: dropping_buffer enqueueClient br_clientQueue "\<lambda>_. clientQueueSize" "\<lambda>_. True" jitter_ok
  by unfold_locales (auto simp: clientQueueSize_def jitter_ok_def last_n_def)

section \<open>Interleavings\<close>

text \<open>
  A running bridge: the frame the client callback holds between its two critical sections, the frame
  the ticker has taken and not yet written (\<open>Some None\<close>: silence), and, as history, what was written
  to the modem and which client frames were accepted.
\<close>

record bridge_world =
  bw_bridge :: Bridge
  bw_hand :: "frame option"
  bw_pending :: "frame option option"
  bw_written :: "frame option list"
  bw_accepted :: "frame list"

definition played :: "frame option \<Rightarrow> frame" where
  "played r = (case r of None \<Rightarrow> silence | Some f \<Rightarrow> f)"

inductive bridge_step :: "bridge_world \<Rightarrow> bridge_world \<Rightarrow> bool" where
  client: "bw_hand w = None \<Longrightarrow> client_frame encoded (bw_bridge w) = (r, b) \<Longrightarrow>
    bridge_step w (w\<lparr>bw_bridge := b, bw_hand := r,
      bw_accepted := bw_accepted w @ (case r of None \<Rightarrow> [] | Some f \<Rightarrow> [f])\<rparr>)"
| enqueue: "bw_hand w = Some f \<Longrightarrow>
    bridge_step w (w\<lparr>bw_bridge := enqueueClient f (bw_bridge w), bw_hand := None\<rparr>)"
| take: "bw_pending w = None \<Longrightarrow> playback_take (bw_bridge w) = (Some r, b) \<Longrightarrow>
    bridge_step w (w\<lparr>bw_bridge := b, bw_pending := Some r\<rparr>)"
| write_out: "bw_pending w = Some r \<Longrightarrow>
    bridge_step w (w\<lparr>bw_pending := None,
      bw_written := bw_written w @ map (\<lambda>_. r) (writePCM (played r) (bw_bridge w))\<rparr>)"
| capture: "capture_turn read_result pcm sent (bw_bridge w) = (go_on, out, b) \<Longrightarrow>
    bridge_step w (w\<lparr>bw_bridge := b\<rparr>)"
| stop: "bridge_step w (w\<lparr>bw_bridge := snd (bridge_Stop (bw_bridge w))\<rparr>)"

inductive bridge_run :: "bridge_world \<Rightarrow> bool" where
  start: "bridge_Start True True (Inr ()) callID NewBridge = (Inr (), b) \<Longrightarrow>
    bridge_run \<lparr>bw_bridge = b, bw_hand = None, bw_pending = None, bw_written = [], bw_accepted = []\<rparr>"
| step: "bridge_run w \<Longrightarrow> bridge_step w w' \<Longrightarrow> bridge_run w'"

definition voiced :: "frame option list \<Rightarrow> frame list" where
  "voiced rs = concat (map (\<lambda>r. case r of None \<Rightarrow> [] | Some f \<Rightarrow> [f]) rs)"

lemma voiced_simps [simp]:
  "voiced [] = []" "voiced (xs @ ys) = voiced xs @ voiced ys" "voiced [None] = []" "voiced [Some f] = [f]"
  by (simp_all add: voiced_def)

lemma set_voiced: "f \<in> set (voiced rs) \<longleftrightarrow> Some f \<in> set rs"
  by (induction rs) (auto simp: voiced_def split: option.splits)

definition in_flight :: "bridge_world \<Rightarrow> frame list" where
  "in_flight w = voiced (bw_written w) @ voiced (case bw_pending w of None \<Rightarrow> [] | Some r \<Rightarrow> [r]) @
     br_clientQueue (bw_bridge w) @ (case bw_hand w of None \<Rightarrow> [] | Some f \<Rightarrow> [f])"

definition bridge_ok :: "bridge_world \<Rightarrow> bool" where
  "bridge_ok w \<longleftrightarrow> jitter_ok (bw_bridge w) \<and> subseq (in_flight w) (bw_accepted w) \<and>
     (\<forall>f \<in> set (bw_accepted w). length f = FrameSamples) \<and>
     (br_stopped (bw_bridge w) \<longrightarrow> \<not> br_started (bw_bridge w))"

lemma client_frame_effect:
  "client_frame encoded b = (r, b') \<Longrightarrow> br_clientQueue b' = br_clientQueue b \<and> br_started b' = br_started b \<and>
     br_stopped b' = br_stopped b \<and> (case r of None \<Rightarrow> True | Some f \<Rightarrow> length f = FrameSamples)"
  by (auto simp: client_frame_def client_stats_def DecodePCMU_def Let_def split: if_splits)

lemma capture_turn_effect:
  "capture_turn rr pcm sent b = (go_on, out, b') \<Longrightarrow> br_clientQueue b' = br_clientQueue b \<and>
     br_started b' = br_started b \<and> br_stopped b' = br_stopped b"
  by (auto simp: capture_turn_def cellular_stats_def Let_def split: sum.splits if_splits)

lemma playback_take_effect:
  "playback_take b = (Some r, b') \<Longrightarrow> br_started b' = br_started b \<and>
     br_stopped b' = br_stopped b \<and>
     br_clientQueue b = voiced [r] @ br_clientQueue b'"
  by (auto simp: playback_take_def split: if_splits list.splits)

lemma bridge_Stop_effect [simp]:
  "br_clientQueue (snd (bridge_Stop b)) = br_clientQueue b"
  by (simp add: bridge_Stop_def)

lemma subseq_drop_middle: "subseq (xs @ drop n ys @ zs) (xs @ ys @ zs)"
  by (intro list_emb_append_mono subseq_order.refl suffix_imp_subseq suffix_drop)

lemma bridge_step_ok:
  assumes "bridge_step w w'" and "bridge_ok w"
  shows "bridge_ok w'"
  using assms
proof cases
  case (client encoded r b)
  let ?new = "case r of None \<Rightarrow> [] | Some f \<Rightarrow> [f]"
  note eff = client_frame_effect [OF client(3)]
  have "in_flight w' = in_flight w @ ?new" and acc: "bw_accepted w' = bw_accepted w @ ?new"
    using client eff by (simp_all add: in_flight_def)
  then have "subseq (in_flight w') (bw_accepted w')"
    using assms(2) by (simp add: bridge_ok_def list_emb_append_mono)
  with assms(2) eff client acc show ?thesis
    by (auto simp: bridge_ok_def jitter_ok_def split: option.splits)
next
  case (enqueue f)
  have "subseq (in_flight w') (in_flight w)"
    using subseq_drop_middle [of "voiced (bw_written w) @ voiced (case bw_pending w of None \<Rightarrow> [] | Some r \<Rightarrow> [r])"
        1 "br_clientQueue (bw_bridge w)" "[f]"] enqueue
    by (simp add: in_flight_def)
  with assms(2) enqueue show ?thesis
    unfolding bridge_ok_def by (auto simp: jitter_ok_def clientQueueSize_def dest: subseq_order.trans)
next
  case (take r b)
  from playback_take_effect [OF take(3)] take assms(2) have "in_flight w' = in_flight w"
    by (simp add: in_flight_def)
  with assms(2) take playback_take_effect [OF take(3)] show ?thesis
    by (auto simp: bridge_ok_def jitter_ok_def)
next
  case (write_out r)
  have "in_flight w' = in_flight w \<or> in_flight w = voiced (bw_written w) @ voiced [r] @ drop (length (voiced (bw_written w) @ voiced [r])) (in_flight w)
      \<and> in_flight w' = voiced (bw_written w) @ drop (length (voiced (bw_written w) @ voiced [r])) (in_flight w)"
    using write_out by (cases "br_started (bw_bridge w)") (auto simp: in_flight_def writePCM_def)
  then have "subseq (in_flight w') (in_flight w)"
    using subseq_drop_middle [of "voiced (bw_written w)" "length (voiced [r])" "voiced [r]"]
    by (metis append_Nil drop_all order_refl subseq_order.refl)
  with assms(2) write_out show ?thesis
    by (auto simp: bridge_ok_def dest: subseq_order.trans)
next
  case (capture rr pcm sent go_on out b)
  with assms(2) capture_turn_effect [OF capture(2)] show ?thesis
    by (auto simp: bridge_ok_def in_flight_def jitter_ok_def)
next
  case stop
  with assms(2) show ?thesis by (auto simp: bridge_ok_def in_flight_def jitter_ok_def bridge_Stop_def)
qed

lemma bridge_run_ok: "bridge_run w \<Longrightarrow> bridge_ok w"
proof (induction rule: bridge_run.induct)
  case (start callID b)
  then show ?case by (auto simp: NewBridge_def bridge_Start_def bridge_ok_def in_flight_def jitter_ok_def)
qed (rule bridge_step_ok)

text \<open>C33: whatever the interleaving, the client frames written to the modem are accepted frames in their
  order, each at most once, every buffer written has exactly 160 samples, and no more than 50 frames
  wait.\<close>

theorem bridge_plays_in_order:
  assumes "bridge_run w"
  shows "subseq (voiced (bw_written w)) (bw_accepted w) \<and>
     (\<forall>r \<in> set (bw_written w). length (played r) = FrameSamples) \<and>
     length (br_clientQueue (bw_bridge w)) \<le> 50"
proof -
  note ok = bridge_run_ok [OF assms, unfolded bridge_ok_def]
  have "subseq (voiced (bw_written w)) (in_flight w)"
    unfolding in_flight_def by (intro list_emb_prefix subseq_order.refl)
  with ok have sub: "subseq (voiced (bw_written w)) (bw_accepted w)" by (blast dest: subseq_order.trans)
  have "length (played r) = FrameSamples" if "r \<in> set (bw_written w)" for r
  proof (cases r)
    case (Some f)
    with that have "f \<in> set (voiced (bw_written w))" by (simp add: set_voiced)
    from list_emb_set [OF sub this] have "f \<in> set (bw_accepted w)" by blast
    with ok Some show ?thesis by (simp add: played_def)
  qed (simp add: played_def silence_def)
  with sub ok show ?thesis by (simp add: jitter_ok_def clientQueueSize_def)
qed

text \<open>Once \<^verbatim>\<open>Stop\<close> has run, nothing is written to the modem any more, even by a ticker turn that
  had already taken its frame.\<close>

theorem bridge_silent_after_Stop:
  assumes "bridge_run w" and "bridge_step\<^sup>*\<^sup>* (w\<lparr>bw_bridge := snd (bridge_Stop (bw_bridge w))\<rparr>) w'"
  shows "bw_written w' = bw_written w"
proof -
  have "\<not> br_started (bw_bridge w') \<and> bw_written w' = bw_written w"
    using assms(2)
  proof (induction rule: rtranclp_induct)
    case base
    show ?case using bridge_run_ok [OF assms(1)] by (auto simp: bridge_ok_def bridge_Stop_def)
  next
    case (step y z)
    from step.hyps(2) step.IH show ?case
      by cases (auto simp: writePCM_def bridge_Stop_def dest: client_frame_effect capture_turn_effect
          playback_take_effect)
  qed
  then show ?thesis ..
qed

section \<open>Witnesses\<close>

definition started_world :: bridge_world where
  "started_world = \<lparr>bw_bridge = snd (bridge_Start True True (Inr ()) ''c'' NewBridge), bw_hand = None,
     bw_pending = None, bw_written = [], bw_accepted = []\<rparr>"

definition silent_world :: bridge_world where
  "silent_world = started_world\<lparr>bw_written := [None]\<rparr>"

lemma bridge_run_started: "bridge_run started_world"
  unfolding started_world_def by (rule bridge_run.start) (simp add: bridge_Start_def)

lemma bridge_run_silent: "bridge_run silent_world"
proof -
  let ?w = "started_world\<lparr>bw_pending := Some None\<rparr>"
  have on: "br_started (bw_bridge started_world)" "br_clientQueue (bw_bridge started_world) = []"
    by (simp_all add: started_world_def bridge_Start_def)
  have "bridge_step started_world (started_world\<lparr>bw_bridge := bw_bridge started_world, bw_pending := Some None\<rparr>)"
    by (rule bridge_step.take) (use on in \<open>simp_all add: started_world_def playback_take_def\<close>)
  then have "bridge_run ?w" using bridge_run.step [OF bridge_run_started] by simp
  moreover have "bridge_step ?w (?w\<lparr>bw_pending := None,
      bw_written := bw_written ?w @ map (\<lambda>_. None) (writePCM (played None) (bw_bridge ?w))\<rparr>)"
    by (rule bridge_step.write_out) simp
  moreover have "?w\<lparr>bw_pending := None,
      bw_written := bw_written ?w @ map (\<lambda>_. None) (writePCM (played None) (bw_bridge ?w))\<rparr> = silent_world"
    using on by (simp add: silent_world_def writePCM_def started_world_def)
  ultimately show ?thesis using bridge_run.step by metis
qed

theorem bridge_plays_in_order_witness:
  "subseq (voiced (bw_written silent_world)) (bw_accepted silent_world) \<and>
     length (br_clientQueue (bw_bridge silent_world)) \<le> 50"
  using bridge_plays_in_order [OF bridge_run_silent] by blast

theorem bridge_silent_after_Stop_witness:
  "bw_written (silent_world\<lparr>bw_bridge := snd (bridge_Stop (snd (bridge_Stop (bw_bridge silent_world))))\<rparr>) = [None]"
  using bridge_silent_after_Stop [OF bridge_run_silent, OF r_into_rtranclp, OF bridge_step.stop]
  by (simp add: silent_world_def)

end
