(* ===== verification/At_Protocol.thy ===== *)
theory At_Protocol
  imports Gateway_Prelude
begin

text \<open>
  The serial AT protocol, \<^verbatim>\<open>gateway/internal/modem/at/parser.go\<close>: the line parser, command
  exchanges, and the two-phase SMS submission.

  The serial port is a script of what its reads return and of whether its writes succeed, and records
  what was written. An operation that runs out of script is still blocked on the port, which is
  \<^term>\<open>None\<close>. The lemmas: the parser does not depend on how the bytes are cut into reads; the outcome
  of an exchange; no network submission in a dry run; how submission errors are classified.
\<close>

section \<open>Lines\<close>

record Parser =
  pa_buffer :: string

text \<open>The loop of \<^verbatim>\<open>Feed\<close>: cut at each line feed, trim, drop empty lines; the rest stays.\<close>

definition clean_line :: "string \<Rightarrow> string" where
  "clean_line raw = trim_space (trim_suffix raw [carriage_return])"

fun cut_lines :: "string list \<Rightarrow> string list \<times> string" where
  "cut_lines [] = ([], [])"
| "cut_lines [r] = ([], r)"
| "cut_lines (r # rs) =
     (case cut_lines rs of (ls, rest) \<Rightarrow> (if clean_line r \<noteq> [] then clean_line r # ls else ls, rest))"

definition Feed :: "string \<Rightarrow> Parser \<Rightarrow> string list \<times> Parser" where
  "Feed chunk p =
     (case cut_lines (split_char newline (pa_buffer p @ chunk)) of
        (ls, rest) \<Rightarrow> (ls, p\<lparr>pa_buffer := rest\<rparr>))"

definition IsFinal :: "string \<Rightarrow> bool" where
  "IsFinal line \<longleftrightarrow> line = ''OK'' \<or> line = ''ERROR'' \<or> has_prefix line ''+CME ERROR'' \<or>
     has_prefix line ''+CMS ERROR''"

definition isUnsolicited :: "string \<Rightarrow> bool" where
  "isUnsolicited line0 =
     (let line = trim_space line0
      in line = ''RING'' \<or> str_contains line ''NO CARRIER'' \<or> str_contains line ''BUSY'' \<or>
         str_contains line ''NO ANSWER'')"

section \<open>The port\<close>

datatype io_error = Deadline | Canceled | PortError

text \<open>What one turn of a read loop meets: the context done at its head, or what \<^verbatim>\<open>readWithContext\<close>
  returned.\<close>

datatype port_read = CtxDone io_error | Read string "io_error option"

record port =
  po_reads :: "port_read list"
  po_writes :: "bool list"
  po_written :: "string list"

datatype at_error =
    WriteFailed
  | CtxError io_error
  | ReadFailed
  | CommandFailed string
  | InvalidSubmission
  | SubmissionResultUnknown

text \<open>A write takes its outcome from the script; behind its end writes succeed.\<close>

definition port_write :: "string \<Rightarrow> port \<Rightarrow> bool \<times> port" where
  "port_write s p =
     (case po_writes p of
        [] \<Rightarrow> (True, p\<lparr>po_written := po_written p @ [s]\<rparr>)
      | ok # rest \<Rightarrow> (ok, p\<lparr>po_writes := rest, po_written := po_written p @ (if ok then [s] else [])\<rparr>))"

section \<open>The read loop\<close>

text \<open>
  The lines of one read, up to and including a final one; the lines behind a final line are dropped
  with the local parser. The result: finished by which error, the response, the unsolicited lines.
\<close>

type_synonym line_state = "string list \<times> string list"

fun take_lines ::
  "(string \<Rightarrow> bool) \<Rightarrow> string list \<Rightarrow> line_state \<Rightarrow> at_error option option \<times> line_state" where
  "take_lines skip [] st = (None, st)"
| "take_lines skip (l # ls) (response, unsolicited) =
     (if skip l then take_lines skip ls (response, unsolicited)
      else if isUnsolicited l then take_lines skip ls (response, unsolicited @ [l])
      else if IsFinal l then
        (Some (if l \<noteq> ''OK'' then Some (CommandFailed l) else None), response @ [l], unsolicited)
      else take_lines skip ls (response @ [l], unsolicited))"

definition read_error :: "io_error \<Rightarrow> at_error" where
  "read_error e = (if e = Deadline then CtxError Deadline else ReadFailed)"

text \<open>
  \<^verbatim>\<open>exchangeLocked\<close> and \<^verbatim>\<open>readUntil\<close> share this loop: \<open>prompt\<close> makes a chunk with a \<open>>\<close> end it, \<open>skip\<close>
  is the test for the echo. The result is the error, the response and the unsolicited lines, and the
  rest of the script.
\<close>

fun read_loop ::
  "bool \<Rightarrow> (string \<Rightarrow> bool) \<Rightarrow> Parser \<Rightarrow> line_state \<Rightarrow> port_read list \<Rightarrow>
   (at_error option \<times> line_state \<times> port_read list) option" where
  "read_loop prompt skip parser st [] = None"
| "read_loop prompt skip parser (response, unsolicited) (CtxDone e # script) =
     Some (Some (CtxError e), ([], unsolicited), script)"
| "read_loop prompt skip parser st (Read chunk err # script) =
     (if prompt \<and> CHR ''>'' \<in> set chunk then Some (None, st, script)
      else
        (case (if chunk = [] then ([], parser) else Feed chunk parser) of
           (ls, parser') \<Rightarrow>
             (case take_lines skip ls st of
                (Some e, st') \<Rightarrow> Some (e, st', script)
              | (None, st') \<Rightarrow>
                  (case err of
                     Some e \<Rightarrow> Some (Some (read_error e), ([], snd st'), script)
                   | None \<Rightarrow> read_loop prompt skip parser' st' script))))"

definition new_parser :: Parser where
  "new_parser = \<lparr>pa_buffer = []\<rparr>"

section \<open>Exchanges\<close>

text \<open>The response, its error, and the unsolicited lines for the line handler.\<close>

type_synonym exchange_result = "string list \<times> at_error option \<times> string list"

definition exchangeLocked :: "string \<Rightarrow> port \<Rightarrow> (exchange_result \<times> port) option" where
  "exchangeLocked command p =
     (case port_write (command @ [carriage_return]) p of
        (False, p1) \<Rightarrow> Some (([], Some WriteFailed, []), p1)
      | (True, p1) \<Rightarrow>
          (case read_loop False (\<lambda>l. equal_fold l command) new_parser ([], []) (po_reads p1) of
             None \<Rightarrow> None
           | Some (err, (response, unsolicited), script) \<Rightarrow>
               Some ((response, err, unsolicited), p1\<lparr>po_reads := script\<rparr>)))"

definition readUntil :: "bool \<Rightarrow> port \<Rightarrow> (exchange_result \<times> port) option" where
  "readUntil prompt p =
     (case read_loop prompt (\<lambda>l. False) new_parser ([], []) (po_reads p) of
        None \<Rightarrow> None
      | Some (err, (response, unsolicited), script) \<Rightarrow>
          Some ((response, err, unsolicited), p\<lparr>po_reads := script\<rparr>))"

text \<open>\<open>acquired\<close> is the outcome of \<^verbatim>\<open>acquireIO\<close>.\<close>

definition Exchange :: "io_error option \<Rightarrow> string \<Rightarrow> port \<Rightarrow> (exchange_result \<times> port) option" where
  "Exchange acquired command p =
     (case acquired of
        Some e \<Rightarrow> Some (([], Some (CtxError e), []), p)
      | None \<Rightarrow> exchangeLocked command p)"

text \<open>The errors behind the write of the message text: anything but the modem's own verdict is unknown.\<close>

definition submission_error :: "at_error option \<Rightarrow> at_error option" where
  "submission_error err =
     (case err of
        None \<Rightarrow> None
      | Some (CommandFailed l) \<Rightarrow> Some (CommandFailed l)
      | Some _ \<Rightarrow> Some SubmissionResultUnknown)"

definition submit_command :: "bool \<Rightarrow> string" where
  "submit_command dryRun = (if dryRun then ''AT+CMGW'' else ''AT+CMGS'')"

text \<open>The common sequence of \<^verbatim>\<open>SendPDU\<close> and \<^verbatim>\<open>SendTextSMS\<close>: command, prompt, message text, verdict.\<close>

definition submit_sequence :: "string \<Rightarrow> string \<Rightarrow> port \<Rightarrow> (exchange_result \<times> port) option" where
  "submit_sequence command text p =
     (case port_write command p of
        (False, p1) \<Rightarrow> Some (([], Some WriteFailed, []), p1)
      | (True, p1) \<Rightarrow>
          (case readUntil True p1 of
             None \<Rightarrow> None
           | Some ((_, Some e, unsolicited), p2) \<Rightarrow> Some (([], Some e, unsolicited), p2)
           | Some ((_, None, unsolicited), p2) \<Rightarrow>
               (case port_write (text @ [char_of (26 :: nat)]) p2 of
                  (False, p3) \<Rightarrow> Some (([], Some WriteFailed, unsolicited), p3)
                | (True, p3) \<Rightarrow>
                    (case readUntil False p3 of
                       None \<Rightarrow> None
                     | Some ((response, err, trailing), p4) \<Rightarrow>
                         Some ((response, submission_error err, unsolicited @ trailing), p4)))))"

definition SendPDU ::
  "bool \<Rightarrow> io_error option \<Rightarrow> int \<Rightarrow> string \<Rightarrow> port \<Rightarrow> (exchange_result \<times> port) option" where
  "SendPDU dryRun acquired tpduLength pdu p =
     (case acquired of
        Some e \<Rightarrow> Some (([], Some (CtxError e), []), p)
      | None \<Rightarrow>
          if tpduLength < 1 \<or> trim_space pdu = [] then Some (([], Some InvalidSubmission, []), p)
          else submit_sequence
                 (submit_command dryRun @ ''='' @ itoa tpduLength @ [carriage_return]) (trim_space pdu) p)"

definition SendTextSMS ::
  "bool \<Rightarrow> io_error option \<Rightarrow> string \<Rightarrow> string \<Rightarrow> port \<Rightarrow> (exchange_result \<times> port) option" where
  "SendTextSMS dryRun acquired destination body p =
     (case acquired of
        Some e \<Rightarrow> Some (([], Some (CtxError e), []), p)
      | None \<Rightarrow>
          if trim_space destination = [] \<or> trim_space body = [] then Some (([], Some InvalidSubmission, []), p)
          else submit_sequence
                 (submit_command dryRun @ ''='' @ [CHR 0x22] @ destination @ [CHR 0x22, carriage_return]) body p)"

text \<open>The idle reader: one poll of \<^verbatim>\<open>Run\<close> feeds the client's own parser.\<close>

definition poll_turn :: "string option \<Rightarrow> Parser \<Rightarrow> string list \<times> Parser" where
  "poll_turn available parser =
     (case available of
        None \<Rightarrow> ([], parser)
      | Some chunk \<Rightarrow> if chunk = [] then ([], parser) else Feed chunk parser)"

section \<open>The parser does not depend on the cuts\<close>

lemma split_char_nonempty [simp]: "split_char c s \<noteq> []"
  by (induction s) (auto split: list.splits)

lemma split_char_append:
  "split_char c (s @ t) = butlast (split_char c s) @ split_char c (last (split_char c s) @ t)"
proof (induction s)
  case (Cons x s)
  show ?case
  proof (cases "x = c")
    case False
    obtain f fs where s: "split_char c s = f # fs"
      using split_char_nonempty [of c s] by (cases "split_char c s") auto
    show ?thesis
    proof (cases fs)
      case Nil
      with s Cons have "split_char c (s @ t) = split_char c (f @ t)" by simp
      with s Nil False show ?thesis by (simp split: list.splits)
    qed (use s Cons False in \<open>auto split: list.splits\<close>)
  qed (use Cons in simp)
qed simp

lemma cut_lines_append:
  "ys \<noteq> [] \<Longrightarrow> cut_lines (xs @ ys) =
     (filter (\<lambda>l. l \<noteq> []) (map clean_line xs) @ fst (cut_lines ys), snd (cut_lines ys))"
proof (induction xs)
  case (Cons x xs)
  then obtain z zs where "xs @ ys = z # zs" by (cases "xs @ ys") auto
  with Cons show ?case by (simp split: prod.splits)
qed simp

lemma cut_lines_butlast:
  "rs \<noteq> [] \<Longrightarrow> cut_lines rs = (filter (\<lambda>l. l \<noteq> []) (map clean_line (butlast rs)), last rs)"
  using cut_lines_append [of "[last rs]" "butlast rs"] by simp

lemma Feed_eq:
  "Feed chunk p =
     (filter (\<lambda>l. l \<noteq> []) (map clean_line (butlast (split_char newline (pa_buffer p @ chunk)))),
      p\<lparr>pa_buffer := last (split_char newline (pa_buffer p @ chunk))\<rparr>)"
  by (simp add: Feed_def cut_lines_butlast)

lemma Feed_append:
  "Feed (xs @ ys) p =
     (fst (Feed xs p) @ fst (Feed ys (snd (Feed xs p))), snd (Feed ys (snd (Feed xs p))))"
  unfolding Feed_eq append.assoc [symmetric] split_char_append [of newline "pa_buffer p @ xs" ys]
  by (simp add: butlast_append)

text \<open>Feeding chunks one after the other.\<close>

fun feed_all :: "string list \<Rightarrow> Parser \<Rightarrow> string list \<times> Parser" where
  "feed_all [] p = ([], p)"
| "feed_all (c # cs) p =
     (case Feed c p of (ls, p1) \<Rightarrow> (case feed_all cs p1 of (ls', p2) \<Rightarrow> (ls @ ls', p2)))"

lemma last_split_char_free: "c \<notin> set (last (split_char c s))"
  by (induction s) (auto split: list.splits)

text \<open>C22: however the serial bytes are cut into reads, the parser emits the same lines and keeps the
  same unfinished rest as for one read of all of them.\<close>

theorem feed_all_concat:
  assumes "newline \<notin> set (pa_buffer p)"
  shows "feed_all cs p = Feed (concat cs) p"
  using assms
proof (induction cs arbitrary: p)
  case Nil
  then show ?case by (simp add: Feed_eq split_char_free)
next
  case (Cons c cs)
  have "newline \<notin> set (pa_buffer (snd (Feed c p)))"
    by (simp add: Feed_eq last_split_char_free)
  from Cons.IH [OF this] show ?case
    using Feed_append [of c "concat cs" p] by (simp add: case_prod_unfold)
qed

theorem feed_all_concat_witness:
  "feed_all [''O'', ''K'' @ [carriage_return, newline], ''RI''] new_parser =
     Feed (''OK'' @ [carriage_return, newline] @ ''RI'') new_parser"
  using feed_all_concat [of new_parser "[''O'', ''K'' @ [carriage_return, newline], ''RI'']"]
  by (simp add: new_parser_def)

section \<open>Outcomes of an exchange\<close>

definition plain_line :: "(string \<Rightarrow> bool) \<Rightarrow> string \<Rightarrow> bool" where
  "plain_line skip l \<longleftrightarrow> \<not> skip l \<and> \<not> isUnsolicited l \<and> \<not> IsFinal l"

text \<open>What the loop has collected: ordinary lines, then perhaps the final one; unsolicited lines apart.\<close>

definition collected :: "(string \<Rightarrow> bool) \<Rightarrow> at_error option option \<Rightarrow> line_state \<Rightarrow> bool" where
  "collected skip verdict st =
     (list_all isUnsolicited (snd st) \<and>
      (case verdict of
         None \<Rightarrow> list_all (plain_line skip) (fst st)
       | Some None \<Rightarrow> \<exists>ls. fst st = ls @ [''OK''] \<and> list_all (plain_line skip) ls
       | Some (Some e) \<Rightarrow> \<exists>ls l. fst st = ls @ [l] \<and> list_all (plain_line skip) ls \<and> IsFinal l \<and>
           l \<noteq> ''OK'' \<and> e = CommandFailed l))"

lemma take_lines_collected:
  "collected skip None st \<Longrightarrow> take_lines skip ls st = (verdict, st') \<Longrightarrow> collected skip verdict st'"
proof (induction skip ls st arbitrary: verdict st' rule: take_lines.induct)
  case (2 skip l ls response unsolicited)
  then show ?case by (auto simp: collected_def plain_line_def split: if_splits)
qed (auto simp: collected_def)

lemma read_loop_collected:
  assumes "read_loop False skip parser st script = Some (err, st', rest)" and "collected skip None st"
  shows "collected skip (Some err) st' \<or> (fst st' = [] \<and> err \<noteq> None \<and> list_all isUnsolicited (snd st') \<and>
     (\<forall>l. err \<noteq> Some (CommandFailed l)))"
  using assms
proof (induction script arbitrary: parser st)
  case (Cons r script)
  obtain resp uns where st: "st = (resp, uns)" by (cases st)
  show ?case
  proof (cases r)
    case (CtxDone e)
    with Cons.prems st show ?thesis by (auto simp: collected_def)
  next
    case (Read chunk e)
    obtain ls parser' where feed: "(if chunk = [] then ([], parser) else Feed chunk parser) = (ls, parser')"
      by fastforce
    obtain verdict st1 where tl: "take_lines skip ls st = (verdict, st1)"
      by (cases "take_lines skip ls st") auto
    note col = take_lines_collected [OF Cons.prems(2) tl]
    show ?thesis
    proof (cases verdict)
      case None
      then show ?thesis
        using Cons.prems(1) Cons.IH [of parser' st1] col Read feed tl
        by (cases e) (auto simp: collected_def read_error_def simp del: take_lines.simps split: if_splits)
    next
      case (Some v)
      then show ?thesis
        using Cons.prems(1) col Read feed tl by (auto simp del: take_lines.simps)
    qed
  qed
qed simp

text \<open>C24: a command exchange that succeeds ends with \<open>OK\<close>; before it come only lines that are neither the
  echo, nor final, nor unsolicited; and all it hands on as unsolicited are unsolicited lines.\<close>

theorem exchange_success:
  assumes "exchangeLocked command p = Some ((response, None, unsolicited), p')"
  shows "(\<exists>ls. response = ls @ [''OK''] \<and>
       list_all (\<lambda>l. \<not> equal_fold l command \<and> \<not> isUnsolicited l \<and> \<not> IsFinal l) ls) \<and>
     list_all isUnsolicited unsolicited"
proof -
  obtain p1 where "port_write (command @ [carriage_return]) p = (True, p1)"
    using assms by (auto simp: exchangeLocked_def split: prod.splits bool.splits option.splits)
  with assms have "\<exists>script. read_loop False (\<lambda>l. equal_fold l command) new_parser ([], []) (po_reads p1) =
      Some (None, (response, unsolicited), script)"
    by (auto simp: exchangeLocked_def split: option.splits)
  then have "collected (\<lambda>l. equal_fold l command) (Some None) (response, unsolicited)"
    using read_loop_collected by (fastforce simp: collected_def)
  then show ?thesis unfolding collected_def plain_line_def [abs_def] by auto
qed

text \<open>C23: an exchange always returns once the context is done or a read fails: no script that holds such
  an event keeps it waiting.\<close>

theorem exchange_returns:
  assumes "\<exists>r \<in> set (po_reads p). case r of CtxDone e \<Rightarrow> True | Read chunk err \<Rightarrow> err \<noteq> None"
  shows "exchangeLocked command p \<noteq> None \<and> readUntil prompt p \<noteq> None"
proof -
  have loop: "read_loop prompt skip parser st script \<noteq> None"
    if "\<exists>r \<in> set script. case r of CtxDone e \<Rightarrow> True | Read chunk err \<Rightarrow> err \<noteq> None"
    for prompt skip parser st script
    using that
  proof (induction script arbitrary: parser st)
    case (Cons r script)
    obtain resp uns where st: "st = (resp, uns)" by (cases st)
    show ?case
    proof (cases r)
      case (CtxDone e)
      with st show ?thesis by simp
    next
      case (Read chunk e)
      obtain ls parser' where feed: "(if chunk = [] then ([], parser) else Feed chunk parser) = (ls, parser')"
        by fastforce
      obtain verdict st1 where tl: "take_lines skip ls st = (verdict, st1)"
        by (cases "take_lines skip ls st") auto
      have "e = None \<Longrightarrow> read_loop prompt skip parser' st1 script \<noteq> None"
        using Cons Read by auto
      with feed tl Read show ?thesis by (cases verdict; cases e) (simp_all del: take_lines.simps)
    qed
  qed simp
  obtain ok p1 where w: "port_write (command @ [carriage_return]) p = (ok, p1)" by fastforce
  then have "po_reads p1 = po_reads p" by (auto simp: port_write_def split: list.splits)
  then obtain err response unsolicited rest where
    "read_loop False (\<lambda>l. equal_fold l command) new_parser ([], []) (po_reads p1) =
      Some (err, (response, unsolicited), rest)"
    using loop [of "po_reads p1" False "\<lambda>l. equal_fold l command" new_parser "([], [])"] assms by fastforce
  then have "exchangeLocked command p \<noteq> None" by (simp add: exchangeLocked_def w split: bool.split)
  moreover obtain err' response' unsolicited' rest' where
    "read_loop prompt (\<lambda>l. False) new_parser ([], []) (po_reads p) =
      Some (err', (response', unsolicited'), rest')"
    using loop [OF assms, of prompt "\<lambda>l. False" new_parser "([], [])"] by fastforce
  ultimately show ?thesis by (simp add: readUntil_def)
qed

section \<open>Submissions\<close>

lemma readUntil_writes: "readUntil prompt p = Some (r, p') \<Longrightarrow> po_written p' = po_written p"
  by (auto simp: readUntil_def split: option.splits)

lemma port_write_written:
  "port_write s p = (ok, p') \<Longrightarrow> po_written p' = po_written p @ (if ok then [s] else [])"
  by (auto simp: port_write_def split: list.splits)

lemma take_lines_error: "take_lines skip ls st = (Some (Some e), st') \<Longrightarrow> \<exists>l. e = CommandFailed l"
  by (induction skip ls st rule: take_lines.induct) (auto split: if_splits)

lemma read_loop_error:
  "read_loop prompt skip parser st script = Some (Some e, st', rest) \<Longrightarrow> e \<noteq> SubmissionResultUnknown"
proof (induction script arbitrary: parser st)
  case (Cons r script)
  obtain resp uns where st: "st = (resp, uns)" by (cases st)
  show ?case
  proof (cases r)
    case (Read chunk err)
    obtain ls parser' where feed: "(if chunk = [] then ([], parser) else Feed chunk parser) = (ls, parser')"
      by fastforce
    obtain verdict st1 where tl: "take_lines skip ls st = (verdict, st1)"
      by (cases "take_lines skip ls st") auto
    show ?thesis
      using Cons.prems Cons.IH [of parser' st1] Read feed tl take_lines_error [of skip ls st _ st1]
      by (cases verdict; cases err) (auto simp: read_error_def simp del: take_lines.simps split: if_splits)
  qed (use Cons.prems st in auto)
qed simp

lemma readUntil_error: "readUntil prompt p = Some ((response, Some e, uns), p') \<Longrightarrow> e \<noteq> SubmissionResultUnknown"
  using read_loop_error by (fastforce simp: readUntil_def split: option.splits)

text \<open>What a submission has written when it returns, by its outcome.\<close>

lemma submit_sequence_cases:
  assumes "submit_sequence command text p = Some ((response, err, unsolicited), p')"
  obtains (early) n e where "n < 2" "po_written p' = po_written p @ take n [command]" "err = Some e"
      "e \<noteq> SubmissionResultUnknown"
  | (submitted) "po_written p' = po_written p @ [command, text @ [char_of (26 :: nat)]]"
      "err = None \<or> err = Some SubmissionResultUnknown \<or> (\<exists>l. err = Some (CommandFailed l))"
proof -
  obtain ok p1 where w1: "port_write command p = (ok, p1)" by fastforce
  note written1 = port_write_written [OF w1]
  show thesis
  proof (cases ok)
    case False
    with assms w1 written1 show thesis by (intro early [of 0]) (auto simp: submit_sequence_def)
  next
    case True
    then obtain resp1 err1 uns1 p2 where r1: "readUntil True p1 = Some ((resp1, err1, uns1), p2)"
      using assms w1 by (fastforce simp: submit_sequence_def split: option.splits)
    note written2 = readUntil_writes [OF r1]
    show thesis
    proof (cases err1)
      case (Some e)
      with True assms w1 r1 written1 written2 readUntil_error [of True p1 resp1 e] show thesis
        by (intro early [of 1 e]) (auto simp: submit_sequence_def)
    next
      case None
      obtain ok2 p3 where w2: "port_write (text @ [char_of (26 :: nat)]) p2 = (ok2, p3)" by fastforce
      note written3 = port_write_written [OF w2]
      show thesis
      proof (cases ok2)
        case False
        with None True assms w1 r1 w2 written1 written2 written3 show thesis
          by (intro early [of 1 WriteFailed]) (auto simp: submit_sequence_def)
      next
        case ok2: True
        with None True assms w1 r1 w2 obtain resp2 err2 uns2 where
          r2: "readUntil False p3 = Some ((resp2, err2, uns2), p')" and "err = submission_error err2"
          by (auto simp: submit_sequence_def split: option.splits)
        with ok2 True written1 written2 written3 readUntil_writes [OF r2] show thesis
          by (intro submitted) (auto simp: submission_error_def split: option.splits at_error.splits)
      qed
    qed
  qed
qed

text \<open>A dry run never asks the modem to send: whatever the modem answers, the only command
  \<^verbatim>\<open>SendPDU\<close> and \<^verbatim>\<open>SendTextSMS\<close> write is the store command, followed by the message text.\<close>

theorem dry_run_only_stores:
  assumes "SendPDU True acquired n pdu p = Some (r, p') \<or> SendTextSMS True acquired dest body p = Some (r, p')"
  shows "\<exists>command msg. has_prefix command ''AT+CMGW='' \<and> msg \<in> {trim_space pdu, body} \<and>
     (\<exists>k \<le> 2. po_written p' = po_written p @ take k [command, msg @ [char_of (26 :: nat)]])"
proof -
  have seq: "\<exists>k \<le> 2. po_written p' = po_written p @ take k [command, msg @ [char_of (26 :: nat)]]"
    if "submit_sequence command msg p = Some (r, p')" for command msg
  proof -
    obtain response err unsolicited where "r = (response, err, unsolicited)" by (cases r)
    with that have "submit_sequence command msg p = Some ((response, err, unsolicited), p')" by simp
    then show ?thesis
    proof (cases rule: submit_sequence_cases)
      case (early n e)
      then have "take n [command] = take n [command, msg @ [char_of (26 :: nat)]]"
        by (cases n) auto
      with early show ?thesis by (intro exI [of _ n]) auto
    next
      case submitted
      then show ?thesis by (intro exI [of _ 2]) simp
    qed
  qed
  let ?goal = "\<lambda>q. \<exists>command msg. has_prefix command ''AT+CMGW='' \<and> msg \<in> {trim_space pdu, body} \<and>
     (\<exists>k \<le> 2. po_written q = po_written p @ take k [command, msg @ [char_of (26 :: nat)]])"
  have goal: "?goal p'" if "submit_sequence (''AT+CMGW='' @ rest) msg p = Some (r, p')"
      "msg \<in> {trim_space pdu, body}" for rest msg
  proof (rule exI [of _ "''AT+CMGW='' @ rest"], rule exI [of _ msg], intro conjI)
    show "\<exists>k \<le> 2. po_written p' = po_written p @ take k [''AT+CMGW='' @ rest, msg @ [char_of (26 :: nat)]]"
      by (rule seq [OF that(1)])
  qed (use that(2) in \<open>simp_all add: has_prefix_def\<close>)
  have none: "?goal p"
    by (rule exI [of _ "''AT+CMGW=''"], rule exI [of _ body], intro conjI exI [of _ 0])
      (simp_all add: has_prefix_def)
  from assms show ?thesis
  proof
    assume "SendPDU True acquired n pdu p = Some (r, p')"
    then have "p' = p \<or> submit_sequence (''AT+CMGW='' @ itoa n @ [carriage_return]) (trim_space pdu) p = Some (r, p')"
      by (auto simp: SendPDU_def submit_command_def split: option.splits if_splits)
    with none goal show ?thesis by blast
  next
    assume "SendTextSMS True acquired dest body p = Some (r, p')"
    then have "p' = p \<or>
        submit_sequence (''AT+CMGW='' @ [CHR 0x22] @ dest @ [CHR 0x22, carriage_return]) body p = Some (r, p')"
      by (auto simp: SendTextSMS_def submit_command_def split: option.splits if_splits)
    with none goal show ?thesis by blast
  qed
qed

text \<open>C25: \<^verbatim>\<open>ErrSubmissionResultUnknown\<close> is exact: \<^verbatim>\<open>SendPDU\<close> reports it only after the whole PDU has been
  handed to the modem, and once it has, the only other failure it reports is the modem's own error line.\<close>

theorem submission_unknown_iff_submitted:
  assumes "SendPDU dryRun None n pdu p = Some ((response, Some e, unsolicited), p')"
  defines "command \<equiv> submit_command dryRun @ ''='' @ itoa n @ [carriage_return]"
  shows "(e = SubmissionResultUnknown \<longrightarrow>
       po_written p' = po_written p @ [command, trim_space pdu @ [char_of (26 :: nat)]]) \<and>
     (po_written p' = po_written p @ [command, trim_space pdu @ [char_of (26 :: nat)]] \<longrightarrow>
       e = SubmissionResultUnknown \<or> (\<exists>l. e = CommandFailed l))"
proof -
  from assms(1) consider "p' = p" "e = InvalidSubmission" |
    "submit_sequence command (trim_space pdu) p = Some ((response, Some e, unsolicited), p')"
    by (auto simp: SendPDU_def command_def split: if_splits)
  then show ?thesis
  proof cases
    case 2
    then show ?thesis by (cases rule: submit_sequence_cases) (auto simp: take_Cons' split: if_splits)
  qed simp
qed

section \<open>A lost unsolicited line\<close>

text \<open>Whatever the modem sends behind \<open>OK\<close> in the same read is lost: neither the response nor the line
  handler gets it. An \<open>ended\<close> report can vanish this way.\<close>

theorem lines_behind_OK_are_lost:
  assumes "\<not> equal_fold ''OK'' command"
  shows "exchangeLocked command \<lparr>po_reads = [Read (''OK'' @ [carriage_return, newline] @ rest) None],
       po_writes = [], po_written = []\<rparr> =
     Some (([''OK''], None, []), \<lparr>po_reads = [], po_writes = [], po_written = [command @ [carriage_return]]\<rparr>)"
proof -
  have first: "split_char newline (''OK'' @ [carriage_return, newline] @ rest) =
      (''OK'' @ [carriage_return]) # split_char newline rest"
  proof -
    have "CHR ''O'' \<noteq> newline" "CHR ''K'' \<noteq> newline" "carriage_return \<noteq> newline" by code_simp+
    then show ?thesis by simp
  qed
  have "clean_line (''OK'' @ [carriage_return]) = ''OK''"
    by (simp add: clean_line_def trim_suffix_def has_suffix_def has_prefix_def graphic_char_def)
  then have "\<exists>ls parser. Feed (''OK'' @ [carriage_return, newline] @ rest) new_parser = (''OK'' # ls, parser)"
    by (simp only: Feed_eq new_parser_def Parser.simps append_Nil first butlast.simps split_char_nonempty) simp
  then obtain ls parser where feed: "Feed (''OK'' @ [carriage_return, newline] @ rest) new_parser = (''OK'' # ls, parser)"
    by blast
  have "\<not> isUnsolicited ''OK''"
    by (simp add: isUnsolicited_def str_contains_def has_prefix_def graphic_char_def)
  with feed assms show ?thesis
    by (simp add: exchangeLocked_def port_write_def IsFinal_def)
qed

theorem lines_behind_OK_are_lost_witness:
  "exchangeLocked ''ATD10086;'' \<lparr>po_reads = [Read (''OK'' @ [carriage_return, newline] @ ''NO CARRIER'' @
       [carriage_return, newline]) None], po_writes = [], po_written = []\<rparr> =
   Some (([''OK''], None, []), \<lparr>po_reads = [], po_writes = [], po_written = [''ATD10086;'' @ [carriage_return]]\<rparr>)"
  by (rule lines_behind_OK_are_lost) (simp add: equal_fold_def to_lower_def to_lower_char_def)

section \<open>Witnesses\<close>

definition ok_port :: port where
  "ok_port = \<lparr>po_reads = [Read (''+CSQ:20'' @ [carriage_return, newline] @ ''OK'' @ [carriage_return, newline]) None,
     Read [] (Some Deadline)], po_writes = [], po_written = []\<rparr>"

lemma Feed_two_lines:
  assumes "list_all graphic_char a" and "list_all graphic_char b" and "a \<noteq> []" and "b \<noteq> []"
  shows "Feed (a @ [carriage_return, newline] @ b @ [carriage_return, newline]) new_parser = ([a, b], new_parser)"
proof -
  have "\<not> graphic_char newline" "carriage_return \<noteq> newline" by code_simp+
  then have free: "newline \<notin> set (l @ [carriage_return])" if "list_all graphic_char l" for l
    using that by (auto simp: list_all_iff)
  have cut: "split_char newline ((l @ [carriage_return]) @ newline # t) = (l @ [carriage_return]) # split_char newline t"
    if "list_all graphic_char l" for l t
  proof -
    have "split_char newline ((l @ [carriage_return]) @ newline # t) =
        split_char newline (l @ [carriage_return] @ newline # t)" by simp
    also have "\<dots> = (l @ [carriage_return]) # split_char newline t"
      using split_char_sep [OF free [OF that], of t] by simp
    finally show ?thesis .
  qed
  have "clean_line (l @ [carriage_return]) = l" if "list_all graphic_char l" for l
    using that by (simp add: clean_line_def trim_suffix_def has_suffix_def has_prefix_def)
  with assms cut [of a "b @ [carriage_return, newline]"] cut [of b "[]"] show ?thesis
    by (simp add: Feed_eq new_parser_def)
qed

lemma ok_port_exchange:
  "exchangeLocked ''AT+CSQ'' ok_port =
     Some (([''+CSQ:20'', ''OK''], None, []),
       \<lparr>po_reads = [Read [] (Some Deadline)], po_writes = [], po_written = [''AT+CSQ'' @ [carriage_return]]\<rparr>)"
proof -
  have "Feed (''+CSQ:20'' @ [carriage_return, newline] @ ''OK'' @ [carriage_return, newline]) new_parser =
      ([''+CSQ:20'', ''OK''], new_parser)"
    by (rule Feed_two_lines) (simp_all add: graphic_char_def)
  moreover have "\<not> isUnsolicited ''+CSQ:20'' \<and> \<not> isUnsolicited ''OK''"
    by (simp add: isUnsolicited_def str_contains_def has_prefix_def graphic_char_def)
  ultimately show ?thesis
    by (simp add: exchangeLocked_def port_write_def ok_port_def IsFinal_def has_prefix_def equal_fold_def
        to_lower_def to_lower_char_def)
qed

theorem exchange_success_witness:
  "(\<exists>ls. [''+CSQ:20'', ''OK''] = ls @ [''OK''] \<and>
       list_all (\<lambda>l. \<not> equal_fold l ''AT+CSQ'' \<and> \<not> isUnsolicited l \<and> \<not> IsFinal l) ls) \<and>
     list_all isUnsolicited []"
  by (rule exchange_success [OF ok_port_exchange])

theorem exchange_returns_witness:
  "exchangeLocked ''AT'' ok_port \<noteq> None \<and> readUntil True ok_port \<noteq> None"
  by (rule exchange_returns) (simp add: ok_port_def)

definition prompt_port :: port where
  "prompt_port = \<lparr>po_reads = [Read ''> '' None, Read [] (Some Deadline)], po_writes = [], po_written = []\<rparr>"

lemma prompt_port_submission:
  "SendPDU dryRun None 3 ''00010203'' prompt_port =
     Some (([], Some SubmissionResultUnknown, []),
       \<lparr>po_reads = [], po_writes = [],
        po_written = [submit_command dryRun @ ''=3'' @ [carriage_return], ''00010203'' @ [char_of (26 :: nat)]]\<rparr>)"
proof -
  have "trim_space ''00010203'' = ''00010203''" "itoa 3 = ''3''" by code_simp+
  then show ?thesis
    by (simp add: SendPDU_def submit_sequence_def port_write_def readUntil_def prompt_port_def read_error_def
        submission_error_def)
qed

theorem dry_run_only_stores_witness:
  "\<exists>command msg. has_prefix command ''AT+CMGW='' \<and> msg \<in> {trim_space ''00010203'', []} \<and>
     (\<exists>k \<le> 2. [''AT+CMGW=3'' @ [carriage_return], ''00010203'' @ [char_of (26 :: nat)]] =
        [] @ take k [command, msg @ [char_of (26 :: nat)]])"
  using dry_run_only_stores [OF disjI1, OF prompt_port_submission [of True], of "[]"]
  by (simp add: prompt_port_def submit_command_def)

theorem submission_unknown_iff_submitted_witness:
  "po_written (snd (the (SendPDU False None 3 ''00010203'' prompt_port))) =
     po_written prompt_port @ [submit_command False @ ''='' @ itoa 3 @ [carriage_return],
       trim_space ''00010203'' @ [char_of (26 :: nat)]]"
  unfolding prompt_port_submission option.sel snd_conv
  using submission_unknown_iff_submitted [OF prompt_port_submission [of False]] by blast

end
