(* ===== verification/Event_Streams.thy ===== *)
theory Event_Streams
  imports Stream_Buffers
begin

text \<open>
  The two event streams: the gateway's bus (\<^verbatim>\<open>gateway/internal/eventbus/bus.go\<close>) with its
  subscribers' channels, and the module agent's journal (\<^verbatim>\<open>module-agent/internal/events/journal.go\<close>)
  with its bounded history. Payloads are a type parameter. \<^verbatim>\<open>Since\<close> is shown to return exactly what a
  client has missed, or to report the gap.
\<close>

section \<open>Channels\<close>

text \<open>A buffered Go channel used with \<^verbatim>\<open>select/default\<close>: what does not fit is dropped.\<close>

definition chan_send :: "nat \<Rightarrow> 'a \<Rightarrow> 'a list \<Rightarrow> 'a list" where
  "chan_send capacity x ch = (if length ch < capacity then ch @ [x] else ch)"

interpretation chan: lossy_channel "chan_send capacity" "\<lambda>ch. ch" capacity for capacity
  by unfold_locales (simp add: chan_send_def)

section \<open>The event bus\<close>

record 'd bus_event =
  be_ID :: string
  be_Seq :: int
  be_Type :: string
  be_CreatedAt :: timestamp
  be_Data :: 'd

record 'd Bus =
  bu_subscribers :: "(nat \<times> 'd bus_event list) list"
  bu_nextID :: nat

definition NewBus :: "'d Bus" where
  "NewBus = \<lparr>bu_subscribers = [], bu_nextID = 0\<rparr>"

text \<open>\<open>eventID\<close> is what \<^verbatim>\<open>id.New\<close> returned, \<^term>\<open>None\<close> for its error.\<close>

definition Publish ::
  "string option \<Rightarrow> timestamp \<Rightarrow> int \<Rightarrow> string \<Rightarrow> 'd \<Rightarrow> 'd Bus \<Rightarrow> 'd Bus" where
  "Publish eventID now seq eventType data b =
     (case eventID of
        None \<Rightarrow> b
      | Some i \<Rightarrow>
          let event = \<lparr>be_ID = i, be_Seq = seq, be_Type = eventType, be_CreatedAt = now, be_Data = data\<rparr>
          in b\<lparr>bu_subscribers := map (\<lambda>(k, ch). (k, chan_send 32 event ch)) (bu_subscribers b)\<rparr>)"

definition Subscribe :: "'d Bus \<Rightarrow> nat \<times> 'd Bus" where
  "Subscribe b =
     (let key = bu_nextID b + 1
      in (key, b\<lparr>bu_nextID := key, bu_subscribers := map_put key [] (bu_subscribers b)\<rparr>))"

text \<open>\<^verbatim>\<open>cancel\<close>, which runs at most once per subscription, and a receive by the subscriber.\<close>

definition cancel :: "nat \<Rightarrow> 'd Bus \<Rightarrow> 'd Bus" where
  "cancel key b = b\<lparr>bu_subscribers := map_del key (bu_subscribers b)\<rparr>"

definition bus_ok :: "'d Bus \<Rightarrow> bool" where
  "bus_ok b \<longleftrightarrow> distinct (map fst (bu_subscribers b)) \<and>
     (\<forall>(k, ch) \<in> set (bu_subscribers b). k \<le> bu_nextID b \<and> length ch \<le> 32)"

lemma bus_ok_New [wf_intros]: "bus_ok NewBus"
  by (simp add: bus_ok_def NewBus_def)

lemma map_of_map_values: "map_of (map (\<lambda>(k, v). (k, f v)) xs) key = map_option f (map_of xs key)"
  by (induction xs) auto

lemma bus_ok_Publish [wf_intros]: "bus_ok b \<Longrightarrow> bus_ok (Publish i now seq ty d b)"
  by (auto simp: bus_ok_def Publish_def Let_def chan_send_def comp_def case_prod_unfold split: option.splits)

lemma bus_ok_Subscribe [wf_intros]: "bus_ok b \<Longrightarrow> bus_ok (snd (Subscribe b))"
  by (auto simp: bus_ok_def Subscribe_def Let_def set_map_put)

lemma bus_ok_cancel [wf_intros]: "bus_ok b \<Longrightarrow> bus_ok (cancel key b)"
  by (auto simp: bus_ok_def cancel_def set_map_del)

definition publish_all :: "(string \<times> timestamp \<times> int \<times> string \<times> 'd) list \<Rightarrow> 'd Bus \<Rightarrow> 'd Bus" where
  "publish_all es b = fold (\<lambda>(i, now, seq, ty, d). Publish (Some i) now seq ty d) es b"

definition event_of :: "string \<times> timestamp \<times> int \<times> string \<times> 'd \<Rightarrow> 'd bus_event" where
  "event_of e = (case e of (i, now, seq, ty, d) \<Rightarrow>
     \<lparr>be_ID = i, be_Seq = seq, be_Type = ty, be_CreatedAt = now, be_Data = d\<rparr>)"

text \<open>A subscriber that reads nothing keeps the oldest 32 events in publication order and misses the
  later ones; nobody else is affected, and publishing never blocks.\<close>

theorem subscriber_gets_prefix:
  assumes "bus_ok b" and "map_of (bu_subscribers b) key = Some ch"
  shows "map_of (bu_subscribers (publish_all es b)) key = Some (take 32 (ch @ map event_of es))"
proof -
  have "map_of (bu_subscribers (publish_all es b)) key = Some (fold (chan_send 32) (map event_of es) ch)"
    using assms(2)
  proof (induction es arbitrary: b ch)
    case (Cons e es)
    obtain i now seq ty d where e: "e = (i, now, seq, ty, d)" by (cases e)
    have "map_of (bu_subscribers (Publish (Some i) now seq ty d b)) key = Some (chan_send 32 (event_of e) ch)"
      using Cons.prems by (simp add: Publish_def Let_def map_of_map_values event_of_def e)
    from Cons.IH [OF this] show ?case by (simp add: publish_all_def e)
  qed (simp add: publish_all_def)
  moreover have "length ch \<le> 32"
    using assms by (auto simp: bus_ok_def dest!: map_of_SomeD)
  ultimately show ?thesis using chan.fold_offer [of ch 32 "map event_of es"] by simp
qed

theorem subscriber_gets_prefix_witness:
  "map_of (bu_subscribers (publish_all (replicate 40 (''e'', 1, 2, ''call'', ()))
       (snd (Subscribe NewBus)))) 1 = Some (replicate 32 (event_of (''e'', 1, 2, ''call'', ())))"
proof -
  have "bus_ok (snd (Subscribe NewBus))" by (intro wf_intros)
  from subscriber_gets_prefix [OF this, of 1 "[]" "replicate 40 (''e'', 1, 2, ''call'', ())"]
  show ?thesis by (simp add: Subscribe_def NewBus_def map_put_def)
qed

section \<open>The journal\<close>

record 'd journal_event =
  je_Seq :: nat
  je_Type :: string
  je_Time :: int
  je_Payload :: 'd

record 'd Journal =
  jo_seq :: nat
  jo_entries :: "'d journal_event list"
  jo_limit :: nat
  jo_listeners :: "(nat \<times> 'd journal_event list) list"

definition journal_limit :: "int \<Rightarrow> nat" where
  "journal_limit limit = (if limit < 1 then 128 else nat limit)"

definition NewJournal :: "int \<Rightarrow> 'd Journal" where
  "NewJournal limit =
     \<lparr>jo_seq = 0, jo_entries = [], jo_limit = journal_limit limit, jo_listeners = []\<rparr>"

definition Append :: "string \<Rightarrow> 'd \<Rightarrow> int \<Rightarrow> 'd Journal \<Rightarrow> 'd journal_event \<times> 'd Journal" where
  "Append kind payload unix j =
     (let seq = jo_seq j + 1;
          event = \<lparr>je_Seq = seq, je_Type = kind, je_Time = unix, je_Payload = payload\<rparr>;
          entries = jo_entries j @ [event]
      in (event,
          j\<lparr>jo_seq := seq,
            jo_entries := (if jo_limit j < length entries then drop (length entries - jo_limit j) entries
                           else entries),
            jo_listeners := map (\<lambda>(k, ch). (k, chan_send 16 event ch)) (jo_listeners j)\<rparr>))"

text \<open>\<^verbatim>\<open>Since\<close>: the second component is \<^term>\<open>False\<close> when events the client misses are gone.\<close>

definition Since :: "int \<Rightarrow> 'd Journal \<Rightarrow> 'd journal_event list \<times> bool" where
  "Since seq j =
     (case jo_entries j of
        [] \<Rightarrow> ([], True)
      | e # es \<Rightarrow>
          if seq < int (je_Seq e) - 1 then ([], False)
          else (filter (\<lambda>e. seq < int (je_Seq e)) (jo_entries j), True))"

definition journal_Subscribe :: "nat \<Rightarrow> 'd Journal \<Rightarrow> 'd Journal" where
  "journal_Subscribe channel j = j\<lparr>jo_listeners := map_put channel [] (jo_listeners j)\<rparr>"

definition journal_unsubscribe :: "nat \<Rightarrow> 'd Journal \<Rightarrow> 'd Journal" where
  "journal_unsubscribe channel j = j\<lparr>jo_listeners := map_del channel (jo_listeners j)\<rparr>"

text \<open>The journal numbers its entries consecutively, the newest with the current sequence number.\<close>

definition journal_ok :: "'d Journal \<Rightarrow> bool" where
  "journal_ok j \<longleftrightarrow> 0 < jo_limit j \<and> length (jo_entries j) \<le> jo_limit j \<and>
     map je_Seq (jo_entries j) = [jo_seq j + 1 - length (jo_entries j)..<jo_seq j + 1] \<and>
     length (jo_entries j) \<le> jo_seq j"

lemma journal_ok_New [wf_intros]: "journal_ok (NewJournal limit)"
  by (simp add: journal_ok_def NewJournal_def journal_limit_def)

lemma journal_entries_Append:
  "jo_entries (snd (Append kind payload unix j)) =
     last_n (jo_limit j) (jo_entries j @
       [\<lparr>je_Seq = jo_seq j + 1, je_Type = kind, je_Time = unix, je_Payload = payload\<rparr>])"
  by (simp add: Append_def Let_def last_n_def)

lemma journal_ok_Append [wf_intros]:
  assumes "journal_ok j"
  shows "journal_ok (snd (Append kind payload unix j))"
proof -
  let ?n = "length (jo_entries j)" and ?j' = "snd (Append kind payload unix j)"
  have seqs: "map je_Seq (jo_entries ?j') = last_n (jo_limit j) (map je_Seq (jo_entries j) @ [jo_seq j + 1])"
    unfolding journal_entries_Append last_n_map [symmetric] by simp
  have "?n \<le> jo_seq j" and old: "map je_Seq (jo_entries j) = [jo_seq j + 1 - ?n..<jo_seq j + 1]"
    using assms by (simp_all add: journal_ok_def)
  then have "map je_Seq (jo_entries j) @ [jo_seq j + 1] = [jo_seq j + 1 - ?n..<jo_seq j + 2]"
    by simp
  then have "map je_Seq (jo_entries ?j') = [jo_seq j + 2 - min (jo_limit j) (?n + 1)..<jo_seq j + 2]"
    using seqs \<open>?n \<le> jo_seq j\<close> by (simp add: last_n_upt del: upt_Suc)
  moreover have "length (jo_entries ?j') = min (jo_limit j) (?n + 1)"
    unfolding journal_entries_Append by simp
  moreover have "jo_seq ?j' = jo_seq j + 1" "jo_limit ?j' = jo_limit j" by (simp_all add: Append_def Let_def)
  ultimately show ?thesis using assms \<open>?n \<le> jo_seq j\<close> unfolding journal_ok_def by (simp del: upt_Suc)
qed

interpretation journal_buffer: dropping_buffer
  "\<lambda>(kind, payload, unix) j. snd (Append kind payload unix j)"
  "\<lambda>j. map (\<lambda>e. (je_Type e, je_Payload e, je_Time e)) (jo_entries j)" jo_limit "\<lambda>_. True" journal_ok
  by unfold_locales
    (auto simp: journal_entries_Append last_n_def drop_map journal_ok_Append, auto simp: journal_ok_def Append_def Let_def)

definition append_all :: "(string \<times> 'd \<times> int) list \<Rightarrow> 'd Journal \<Rightarrow> 'd Journal" where
  "append_all es j = foldl (\<lambda>j (kind, payload, unix). snd (Append kind payload unix j)) j es"

text \<open>The whole history of a journal that was fed \<open>es\<close>.\<close>

definition journal_entry :: "nat \<times> string \<times> 'd \<times> int \<Rightarrow> 'd journal_event" where
  "journal_entry e = (case e of (n, kind, payload, unix) \<Rightarrow>
     \<lparr>je_Seq = n, je_Type = kind, je_Time = unix, je_Payload = payload\<rparr>)"

lemma je_Seq_entry [simp]: "je_Seq (journal_entry e) = fst e"
  by (simp add: journal_entry_def case_prod_unfold)

definition history :: "(string \<times> 'd \<times> int) list \<Rightarrow> 'd journal_event list" where
  "history es = map journal_entry (enumerate 1 es)"

lemma length_history [simp]: "length (history es) = length es"
  by (simp add: history_def)

lemma Append_simps [simp]:
  "jo_seq (snd (Append kind payload unix j)) = jo_seq j + 1"
  "jo_limit (snd (Append kind payload unix j)) = jo_limit j"
  by (simp_all add: Append_def Let_def)

lemma append_all_entries:
  "jo_entries (append_all es (NewJournal limit)) = last_n (journal_limit limit) (history es) \<and>
   jo_seq (append_all es (NewJournal limit)) = length es \<and>
   jo_limit (append_all es (NewJournal limit)) = journal_limit limit"
proof (induction es rule: rev_induct)
  case Nil
  show ?case by (simp add: append_all_def NewJournal_def history_def last_n_def journal_limit_def)
next
  case (snoc e es)
  obtain kind payload unix where e: "e = (kind, payload, unix)" by (cases e)
  let ?j = "append_all es (NewJournal limit)"
  have step: "append_all (es @ [e]) (NewJournal limit) = snd (Append kind payload unix ?j)"
    by (simp add: append_all_def e)
  have "history (es @ [e]) = history es @
      [\<lparr>je_Seq = length es + 1, je_Type = kind, je_Time = unix, je_Payload = payload\<rparr>]"
    by (simp add: history_def enumerate_append_eq e journal_entry_def)
  then have "jo_entries (snd (Append kind payload unix ?j)) = last_n (journal_limit limit) (history (es @ [e]))"
    unfolding journal_entries_Append using snoc by (simp only: last_n_absorb)
  with snoc show ?case unfolding step by simp
qed

lemma filter_entries:
  "1 \<le> m \<Longrightarrow> filter (\<lambda>e. seq < int (je_Seq e)) (map journal_entry (enumerate m es)) =
     drop (nat seq + 1 - m) (map journal_entry (enumerate m es))"
proof (induction es arbitrary: m)
  case (Cons e es)
  have IH: "filter (\<lambda>e. seq < int (je_Seq e)) (map journal_entry (enumerate (Suc m) es)) =
      drop (nat seq + 1 - Suc m) (map journal_entry (enumerate (Suc m) es))"
    by (rule Cons.IH) simp
  show ?case
  proof (cases "seq < int m")
    case True
    then have "nat seq + 1 - Suc m = 0" "nat seq + 1 - m = 0" using Cons.prems by linarith+
    with True IH show ?thesis by simp
  next
    case False
    then have "nat seq + 1 - m = Suc (nat seq + 1 - Suc m)" by linarith
    with False IH show ?thesis by simp
  qed
qed simp

lemma drop_enumerate: "drop k (enumerate m es) = enumerate (m + k) (drop k es)"
  by (induction es arbitrary: k m) (auto simp: drop_Cons' split: nat_diff_split)

lemma filter_history:
  "filter (\<lambda>e. seq < int (je_Seq e)) (drop k (history es)) = drop (max k (nat seq)) (history es)"
proof -
  have "filter (\<lambda>e. seq < int (je_Seq e)) (drop k (history es)) = drop (nat seq - k) (drop k (history es))"
    using filter_entries [of "Suc k" seq "drop k es"]
    by (simp add: history_def drop_map drop_enumerate)
  also have "\<dots> = drop (max k (nat seq)) (history es)" by (simp add: max_def)
  finally show ?thesis .
qed

text \<open>A client that has seen everything up to \<open>seq\<close> gets exactly the events after it, in order, or is
  told that some are gone; the latter exactly if more than the journal's limit came after \<open>seq\<close>.\<close>

theorem Since_exact:
  assumes "0 < limit" and "0 \<le> seq"
  shows "Since seq (append_all es (NewJournal limit)) =
     (if int (length es) - seq \<le> limit then (drop (nat seq) (history es), True) else ([], False))"
proof (cases "es = []")
  case True
  then show ?thesis using assms by (simp add: Since_def append_all_def NewJournal_def history_def)
next
  case False
  let ?k = "length es - nat limit"
  have ent: "jo_entries (append_all es (NewJournal limit)) = drop ?k (history es)"
    using append_all_entries [of es limit] assms(1) by (simp add: last_n_def journal_limit_def)
  have k: "?k < length es" using False assms(1) by simp
  obtain e rest where er: "drop ?k (history es) = e # rest"
    using k by (cases "drop ?k (history es)") auto
  then have "e = history es ! ?k"
    using k by (metis length_history nth_via_drop)
  moreover have "je_Seq (history es ! ?k) = ?k + 1"
    using k by (simp add: history_def nth_enumerate_eq)
  ultimately have seq: "int (je_Seq e) - 1 = int ?k" by simp
  have "Since seq (append_all es (NewJournal limit)) =
      (if seq < int ?k then ([], False) else (drop (max ?k (nat seq)) (history es), True))"
    unfolding Since_def ent er [symmetric] filter_history by (simp add: er seq)
  also have "seq < int ?k \<longleftrightarrow> \<not> int (length es) - seq \<le> limit"
    using assms by linarith
  also have "(if \<not> int (length es) - seq \<le> limit then ([], False) else (drop (max ?k (nat seq)) (history es), True)) =
      (if int (length es) - seq \<le> limit then (drop (nat seq) (history es), True) else ([], False))"
    using assms by (auto simp: max_def)
  finally show ?thesis .
qed

theorem Since_exact_witness:
  "Since 1 (append_all [(''a'', (), 5), (''b'', (), 6), (''c'', (), 7)] (NewJournal 2)) =
     (drop 1 (history [(''a'', (), 5), (''b'', (), 6), (''c'', (), 7)]), True)"
  using Since_exact [of 2 1 "[(''a'', (), 5), (''b'', (), 6), (''c'', (), 7)]"] by simp

text \<open>A journal that restarted cannot tell: a client ahead of it is told it has missed nothing.\<close>

lemma Since_after_restart:
  "int (length es) \<le> seq \<Longrightarrow> 0 < limit \<Longrightarrow> Since seq (append_all es (NewJournal limit)) = ([], True)"
  using Since_exact [of limit seq es] by simp

end
