(* ===== verification/At_Adapter.thy ===== *)
theory At_Adapter
  imports At_Protocol Event_Streams Sms_Pdu
begin

text \<open>
  The AT command adapter, \<^verbatim>\<open>gateway/internal/modem/at/adapter.go\<close>, with the capability probe of
  \<^verbatim>\<open>modem/qdc507/capabilities.go\<close> and the types of \<^verbatim>\<open>modem/domain.go\<close>. What the AT client answers to
  each command of an operation is a parameter \<open>ex\<close>; fresh ids are parameters as well.
\<close>

section \<open>Data\<close>

record AudioCapabilities =
  au_Backend :: string
  au_SampleRate :: nat
  au_Channels :: nat

record Capabilities =
  cp_Vendor :: string
  cp_Model :: string
  cp_Tier :: string
  cp_SMS :: bool
  cp_Voice :: bool
  cp_DTMF :: bool
  cp_Audio :: "AudioCapabilities option"
  cp_RequiresBootstrap :: bool
  cp_FirmwareFingerprint :: string

definition no_capabilities :: Capabilities where
  "no_capabilities = \<lparr>cp_Vendor = [], cp_Model = [], cp_Tier = [], cp_SMS = False, cp_Voice = False,
     cp_DTMF = False, cp_Audio = None, cp_RequiresBootstrap = False, cp_FirmwareFingerprint = []\<rparr>"

record LineStatus =
  ls_SIM :: string
  ls_Registration :: string
  ls_RSSI :: int
  ls_Bars :: int
  ls_CapabilityTier :: string
  ls_Voice :: string
  ls_SMS :: string
  ls_ActiveCallID :: "string option"

record SMSPayload =
  sp_Body :: rune_text
  sp_Encoding :: string
  sp_PDU :: string
  sp_PartNo :: nat
  sp_Total :: nat

record RawSMS =
  rs_Storage :: string
  rs_Index :: int
  rs_Sender :: string
  rs_ServiceTimeUnix :: int
  rs_RawPDU :: "byte list"

record ModemEvent =
  me_Kind :: string
  me_CallID :: string
  me_Peer :: string
  me_Raw :: string

datatype modem_error =
    ErrActiveCall | CallMismatch | AtFailure at_error | IdFailure | InvalidDigit | PduRequired
  | InvalidPduLength | InvalidTpduLength | SMSSubmissionUnknown | ClientUnavailable | NotReady
  | ErrNoActiveCall | ImsUnreported | ImsInvalid | VolteUnreported | VolteInvalid

type_synonym exchange = "string \<Rightarrow> (at_error, string list) result"

record Adapter =
  ad_active :: string
  ad_caps :: Capabilities
  ad_events :: "ModemEvent list"
  ad_closed :: bool

definition NewAdapter :: Adapter where
  "NewAdapter = \<lparr>ad_active = [], ad_caps = no_capabilities, ad_events = [], ad_closed = False\<rparr>"

definition CapabilitySMSOnly :: string where "CapabilitySMSOnly = ''sms_only''"

definition CapabilityVoiceControlOnly :: string where "CapabilityVoiceControlOnly = ''voice_control_only''"

definition CapabilityFullVoice :: string where "CapabilityFullVoice = ''full_voice''"

section \<open>Reading responses\<close>

definition response_payload :: "string list \<Rightarrow> string" where
  "response_payload ls =
     (case find (\<lambda>l. l \<noteq> [] \<and> l \<noteq> ''OK'' \<and> \<not> IsFinal l \<and> \<not> has_prefix l ''AT'') (map trim_space ls) of
        Some l \<Rightarrow> l | None \<Rightarrow> [])"

definition firstPayload :: "(at_error, string list) result \<Rightarrow> (at_error, string) result" where
  "firstPayload r = (case r of Inl e \<Rightarrow> Inl e | Inr ls \<Rightarrow> Inr (response_payload ls))"

definition normalizeSIM :: "string \<Rightarrow> string" where
  "normalizeSIM v0 =
     (let v = to_lower v0
      in if str_contains v ''ready'' then ''ready''
         else if str_contains v ''pin'' \<or> str_contains v ''puk'' then ''locked''
         else if str_contains v ''not ready'' then ''absent''
         else ''unknown'')"

definition normalizeRegistration :: "string \<Rightarrow> string" where
  "normalizeRegistration v0 =
     (let v1 = trim_space v0;
          v = (case last_index_char v1 (CHR '','') of
                 Some i \<Rightarrow> trim_space (drop (i + 1) v1) | None \<Rightarrow> v1)
      in if v = ''1'' \<or> v = ''5'' then ''registered''
         else if v = ''2'' then ''searching''
         else if v = ''3'' then ''denied''
         else ''unknown'')"

definition parseRSSI :: "string \<Rightarrow> int" where
  "parseRSSI v0 =
     (let v1 = trim_space v0;
          v2 = (case str_index v1 '':'' of Some i \<Rightarrow> trim_space (drop (i + 1) v1) | None \<Rightarrow> v1);
          v3 = (case str_index v2 '','' of Some i \<Rightarrow> take i v2 | None \<Rightarrow> v2)
      in case atoi (trim_space v3) of
           None \<Rightarrow> 0
         | Some rssi \<Rightarrow> if rssi = 99 then 0 else -113 + rssi * 2)"

definition signalBars :: "int \<Rightarrow> int" where
  "signalBars rssi =
     (if -75 \<le> rssi then 4 else if -90 \<le> rssi then 3 else if -105 \<le> rssi then 2
      else if -113 < rssi then 1 else 0)"

section \<open>Capabilities\<close>

definition IsQDC507 :: "string \<Rightarrow> string \<Rightarrow> bool" where
  "IsQDC507 vendor model =
     (let joined = to_lower (trim_space vendor @ '' '' @ trim_space model)
      in str_contains joined ''qdc507'' \<or> str_contains joined ''baiwang'')"

definition querySupported :: "exchange \<Rightarrow> string \<Rightarrow> string \<Rightarrow> bool" where
  "querySupported ex command marker =
     (case ex command of
        Inl e \<Rightarrow> False
      | Inr ls \<Rightarrow> list_ex (\<lambda>l. has_prefix (to_upper (trim_space l)) (to_upper marker)) ls)"

definition ims_command :: string where
  "ims_command = ''AT+QCFG='' @ [CHR 0x22] @ ''ims'' @ [CHR 0x22]"

definition quoted_marker :: "string \<Rightarrow> string" where
  "quoted_marker name = ''+qcfg: '' @ [CHR 0x22] @ name @ [CHR 0x22]"

definition queryIMS :: "exchange \<Rightarrow> (modem_error, bool) result" where
  "queryIMS ex =
     (case ex ims_command of
        Inl e \<Rightarrow> Inl (AtFailure e)
      | Inr ls \<Rightarrow>
          (case find (\<lambda>l. has_prefix (to_lower l) (quoted_marker ''ims'')) (map trim_space ls) of
             None \<Rightarrow> Inl ImsUnreported
           | Some l \<Rightarrow>
               let fs = split_char (CHR '','') l
               in if length fs < 3 then Inl ImsInvalid
                  else Inr (trim_space (fs ! 1) = ''1'' \<and> trim_space (fs ! 2) = ''1'')))"

definition volte_command :: string where
  "volte_command = ''AT+QCFG='' @ [CHR 0x22] @ ''volte_disable'' @ [CHR 0x22]"

definition queryVoLTEDisabled :: "exchange \<Rightarrow> (modem_error, bool) result" where
  "queryVoLTEDisabled ex =
     (case ex volte_command of
        Inl e \<Rightarrow> Inl (AtFailure e)
      | Inr ls \<Rightarrow>
          (case find (\<lambda>l. has_prefix (to_lower l) (quoted_marker ''volte/disable'') \<or>
                         has_prefix (to_lower l) (quoted_marker ''volte_disable'')) (map trim_space ls) of
             None \<Rightarrow> Inl VolteUnreported
           | Some l \<Rightarrow>
               let fs = split_char (CHR '','') l
               in if length fs \<noteq> 2 then Inl VolteInvalid
                  else (case atoi (trim_space (fs ! 1)) of
                          None \<Rightarrow> Inl VolteInvalid
                        | Some v \<Rightarrow> if v \<noteq> 0 \<and> v \<noteq> 1 then Inl VolteInvalid else Inr (v = 1))))"

text \<open>\<^verbatim>\<open>ProbeCapabilities\<close>; its caller ignores the capabilities that come with an error.\<close>

definition ProbeCapabilities :: "exchange \<Rightarrow> string \<Rightarrow> string \<Rightarrow> (modem_error, Capabilities) result" where
  "ProbeCapabilities ex vendor model =
     (let base = no_capabilities\<lparr>cp_Vendor := vendor, cp_Model := model, cp_SMS := True,
                   cp_Tier := CapabilitySMSOnly\<rparr>
      in if \<not> IsQDC507 vendor model then Inr base
         else (case queryIMS ex of
                 Inl e \<Rightarrow> Inl e
               | Inr ims \<Rightarrow>
                   (case queryVoLTEDisabled ex of
                      Inl e \<Rightarrow> Inl e
                    | Inr volteDisabled \<Rightarrow>
                        let dtmfOK = querySupported ex ''AT+VTS=?'' ''+VTS:'';
                            pcmRouteOK = querySupported ex ''AT+QPCMV=?'' ''+QPCMV:'';
                            voice = (if ims \<and> \<not> volteDisabled \<and> pcmRouteOK
                              then base\<lparr>cp_Voice := True, cp_RequiresBootstrap := True,
                                        cp_Tier := CapabilityVoiceControlOnly,
                                        cp_Audio := Some \<lparr>au_Backend = ''uac-qdc507'',
                                          au_SampleRate = 8000, au_Channels = 1\<rparr>\<rparr>
                              else base)
                        in Inr (voice\<lparr>cp_DTMF := dtmfOK\<rparr>))))"

definition adapter_Probe :: "exchange \<Rightarrow> Adapter \<Rightarrow> (modem_error, Capabilities) result \<times> Adapter" where
  "adapter_Probe ex a =
     (case firstPayload (ex ''AT+CGMI'') of
        Inl e \<Rightarrow> (Inl (AtFailure e), a)
      | Inr manufacturer \<Rightarrow>
          let model = (case firstPayload (ex ''AT+CGMM'') of Inl e \<Rightarrow> [] | Inr m \<Rightarrow> m);
              revision = (case firstPayload (ex ''AT+CGMR'') of Inl e \<Rightarrow> [] | Inr r \<Rightarrow> r);
              base = no_capabilities\<lparr>cp_Vendor := manufacturer, cp_Model := model,
                       cp_Tier := CapabilitySMSOnly, cp_SMS := True,
                       cp_FirmwareFingerprint :=
                         trim_space (manufacturer @ '' '' @ model @ '' '' @ revision)\<rparr>;
              caps = (case ProbeCapabilities ex manufacturer model of
                        Inl e \<Rightarrow> base
                      | Inr v \<Rightarrow> base\<lparr>cp_Voice := cp_Voice v, cp_DTMF := cp_DTMF v, cp_Audio := cp_Audio v,
                                  cp_RequiresBootstrap := cp_RequiresBootstrap v, cp_Tier := cp_Tier v\<rparr>)
          in (Inr caps, a\<lparr>ad_caps := caps\<rparr>))"

section \<open>Status and readiness\<close>

definition adapter_Status :: "exchange \<Rightarrow> Adapter \<Rightarrow> (modem_error, LineStatus) result" where
  "adapter_Status ex a =
     (case ex ''AT+CPIN?'' of Inl e \<Rightarrow> Inl (AtFailure e) | Inr simLines \<Rightarrow>
     (case ex ''AT+CEREG?'' of Inl e \<Rightarrow> Inl (AtFailure e) | Inr registrationLines \<Rightarrow>
     (case ex ''AT+CSQ'' of Inl e \<Rightarrow> Inl (AtFailure e) | Inr signalLines \<Rightarrow>
        let tier = (if cp_Tier (ad_caps a) = [] then CapabilitySMSOnly else cp_Tier (ad_caps a));
            rssi = parseRSSI (response_payload signalLines)
        in Inr \<lparr>ls_SIM = normalizeSIM (response_payload simLines),
                ls_Registration = normalizeRegistration (response_payload registrationLines),
                ls_RSSI = rssi, ls_Bars = signalBars rssi, ls_CapabilityTier = tier,
                ls_Voice = (if cp_Voice (ad_caps a) then ''control_only'' else ''unavailable''),
                ls_SMS = ''ready'',
                ls_ActiveCallID = (if ad_active a \<noteq> [] then Some (ad_active a) else None)\<rparr>)))"

text \<open>
  The polling loops. A turn of \<^verbatim>\<open>WaitReady\<close> finds the context done, or probes with \<open>AT\<close> and then
  sleeps, where the context may end; a turn of \<^verbatim>\<open>WaitActive\<close> likewise. An exhausted list of turns is
  a loop still waiting.
\<close>

datatype poll = Expired | Poll "(at_error, string list) result" bool

fun WaitReady :: "poll list \<Rightarrow> (modem_error, unit) result option" where
  "WaitReady [] = None"
| "WaitReady (Expired # ts) = Some (Inl NotReady)"
| "WaitReady (Poll r ends # ts) =
     (case r of
        Inr _ \<Rightarrow> Some (Inr ())
      | Inl _ \<Rightarrow> if ends then Some (Inl NotReady) else WaitReady ts)"

definition clcc_active :: "string \<Rightarrow> bool" where
  "clcc_active line =
     (has_prefix line ''+CLCC:'' \<and>
      (let fs = split_char (CHR '','') (trim_prefix line ''+CLCC:'')
       in 3 \<le> length fs \<and> trim_space (fs ! 1) = ''0'' \<and> trim_space (fs ! 2) = ''0''))"

fun WaitActive :: "poll list \<Rightarrow> bool option" where
  "WaitActive [] = None"
| "WaitActive (Expired # ts) = Some False"
| "WaitActive (Poll r ends # ts) =
     (if (case r of Inl _ \<Rightarrow> False | Inr ls \<Rightarrow> list_ex clcc_active ls) then Some True
      else if ends then Some False else WaitActive ts)"

section \<open>Calls\<close>

definition validateActive :: "string \<Rightarrow> Adapter \<Rightarrow> bool" where
  "validateActive callID a = (\<not> (ad_active a = [] \<or> (callID \<noteq> [] \<and> ad_active a \<noteq> callID)))"

definition emit :: "ModemEvent \<Rightarrow> Adapter \<Rightarrow> Adapter" where
  "emit event a = (if ad_closed a then a else a\<lparr>ad_events := chan_send 32 event (ad_events a)\<rparr>)"

definition finishActive :: "string \<Rightarrow> string \<Rightarrow> Adapter \<Rightarrow> Adapter" where
  "finishActive callID reason a =
     emit \<lparr>me_Kind = ''ended'', me_CallID = callID, me_Peer = [], me_Raw = reason\<rparr>
       (if ad_active a = callID then a\<lparr>ad_active := []\<rparr> else a)"

text \<open>
  An exchange may dispatch unsolicited lines to \<^verbatim>\<open>HandleURC\<close> before it returns; \<open>between\<close> is what they
  did to the adapter (\<^term>\<open>\<lambda>a. a\<close> when nothing arrived). \<open>fresh\<close> is the new id.
\<close>

definition adapter_Dial ::
  "exchange \<Rightarrow> string option \<Rightarrow> (Adapter \<Rightarrow> Adapter) \<Rightarrow> string \<Rightarrow> Adapter \<Rightarrow>
   (modem_error, string) result \<times> Adapter" where
  "adapter_Dial ex fresh between peer a =
     (if ad_active a \<noteq> [] then (Inl ErrActiveCall, a)
      else
        (case ex (''ATD'' @ trim_space peer @ '';'') of
           Inl e \<Rightarrow> (Inl (AtFailure e), between a)
         | Inr _ \<Rightarrow>
             (case fresh of
                None \<Rightarrow> (Inl IdFailure, between a)
              | Some callID \<Rightarrow> (Inr callID, (between a)\<lparr>ad_active := callID\<rparr>))))"

definition adapter_Answer ::
  "exchange \<Rightarrow> (Adapter \<Rightarrow> Adapter) \<Rightarrow> string \<Rightarrow> Adapter \<Rightarrow> (modem_error, unit) result \<times> Adapter" where
  "adapter_Answer ex between callID a =
     (if \<not> validateActive callID a then (Inl CallMismatch, a)
      else (case ex ''ATA'' of Inl e \<Rightarrow> (Inl (AtFailure e), between a) | Inr _ \<Rightarrow> (Inr (), between a)))"

definition adapter_Hangup ::
  "exchange \<Rightarrow> (Adapter \<Rightarrow> Adapter) \<Rightarrow> string \<Rightarrow> Adapter \<Rightarrow> (modem_error, unit) result \<times> Adapter" where
  "adapter_Hangup ex between callID a =
     (if \<not> validateActive callID a then (Inl CallMismatch, a)
      else (case ex ''ATH'' of
              Inl e \<Rightarrow> (Inl (AtFailure e), between a)
            | Inr _ \<Rightarrow> (Inr (), finishActive callID ''local_hangup'' (between a))))"

definition adapter_SendDTMF ::
  "exchange \<Rightarrow> (Adapter \<Rightarrow> Adapter) \<Rightarrow> string \<Rightarrow> char \<Rightarrow> Adapter \<Rightarrow>
   (modem_error, unit) result \<times> Adapter" where
  "adapter_SendDTMF ex between callID digit a =
     (if \<not> validateActive callID a then (Inl CallMismatch, a)
      else if digit \<notin> set ''0123456789*#ABCD'' then (Inl InvalidDigit, a)
      else (case ex (''AT+VTS='' @ [CHR 0x22, digit, CHR 0x22]) of
              Inl e \<Rightarrow> (Inl (AtFailure e), between a) | Inr _ \<Rightarrow> (Inr (), between a)))"

text \<open>\<^verbatim>\<open>HandleURC\<close>; \<open>uuid\<close> is the id of a new incoming call. A closed channel swallows the event.\<close>

definition HandleURC :: "string \<Rightarrow> string \<Rightarrow> Adapter \<Rightarrow> Adapter" where
  "HandleURC uuid line0 a =
     (let line = trim_space line0; callID = ad_active a
      in if line = ''RING'' then
           let callID' = (if callID = [] then uuid else callID)
           in emit \<lparr>me_Kind = ''incoming'', me_CallID = callID', me_Peer = [], me_Raw = []\<rparr>
                (a\<lparr>ad_active := callID'\<rparr>)
         else if str_contains line ''NO CARRIER'' \<or> str_contains line ''BUSY'' \<or> str_contains line ''NO ANSWER'' then
           emit \<lparr>me_Kind = ''ended'', me_CallID = callID, me_Peer = [], me_Raw = line\<rparr>
             (if callID \<noteq> [] then a\<lparr>ad_active := []\<rparr> else a)
         else a)"

definition adapter_Close :: "Adapter \<Rightarrow> Adapter" where
  "adapter_Close a = a\<lparr>ad_closed := True\<rparr>"

section \<open>Messages\<close>

text \<open>\<^verbatim>\<open>strconv.ParseInt(s, 16, 8)\<close> on two characters: a sign is allowed, the range is that of \<^verbatim>\<open>int8\<close>.\<close>

definition parse_hex8 :: "string \<Rightarrow> int option" where
  "parse_hex8 s =
     (case s of
        [a, b] \<Rightarrow>
          if a = CHR ''-'' then map_option (\<lambda>v. - int v) (hex_value b)
          else if a = CHR ''+'' then map_option int (hex_value b)
          else (case (hex_value a, hex_value b) of
                  (Some h, Some l) \<Rightarrow> if 16 * h + l < 128 then Some (int (16 * h + l)) else None
                | _ \<Rightarrow> None)
      | _ \<Rightarrow> None)"

text \<open>How the engine hands a segment to the modem.\<close>

definition encoding_name :: "sms_encoding \<Rightarrow> string" where
  "encoding_name e = (case e of EncodingGSM7 \<Rightarrow> ''gsm7'' | EncodingUCS2 \<Rightarrow> ''ucs2'')"

definition segment_payload :: "SubmitSegment \<Rightarrow> SMSPayload" where
  "segment_payload seg = \<lparr>sp_Body = seg_body seg, sp_Encoding = encoding_name (seg_encoding seg),
     sp_PDU = seg_pdu seg, sp_PartNo = seg_partNo seg, sp_Total = seg_total seg\<rparr>"

text \<open>The outcome of \<^verbatim>\<open>SendTextSMS\<close> and \<^verbatim>\<open>SendPDU\<close> are parameters.\<close>

definition submission_failure :: "at_error \<Rightarrow> modem_error" where
  "submission_failure e = (if e = SubmissionResultUnknown then SMSSubmissionUnknown else AtFailure e)"

definition sms_result :: "string option \<Rightarrow> (at_error, unit) result \<Rightarrow> (modem_error, string) result" where
  "sms_result fresh r =
     (case r of
        Inl e \<Rightarrow> Inl (submission_failure e)
      | Inr _ \<Rightarrow> (case fresh of None \<Rightarrow> Inl IdFailure | Some i \<Rightarrow> Inr i))"

definition tpdu_length :: "string \<Rightarrow> int" where
  "tpdu_length pdu =
     int (length (trim_space pdu) div 2) - 1 -
     (case parse_hex8 (take 2 pdu) of Some v \<Rightarrow> v | None \<Rightarrow> 0)"

definition adapter_SendSMS ::
  "exchange \<Rightarrow> (string \<Rightarrow> rune_text \<Rightarrow> (at_error, unit) result) \<Rightarrow> (int \<Rightarrow> string \<Rightarrow> (at_error, unit) result) \<Rightarrow>
   string option \<Rightarrow> string \<Rightarrow> SMSPayload \<Rightarrow> (modem_error, string) result" where
  "adapter_SendSMS ex send_text send_pdu fresh destination0 m =
     (let destination = trim_space destination0
      in if length destination \<le> 6 \<and> sp_Body m \<noteq> [] then
           (case ex ''AT+CMGF=1'' of Inl e \<Rightarrow> Inl (AtFailure e) | Inr _ \<Rightarrow>
           (case ex (''AT+CSCS='' @ [CHR 0x22] @ ''GSM'' @ [CHR 0x22]) of Inl e \<Rightarrow> Inl (AtFailure e) | Inr _ \<Rightarrow>
              sms_result fresh (send_text destination (sp_Body m))))
         else if sp_PDU m = [] then Inl PduRequired
         else
           (case ex ''AT+CMGF=0'' of Inl e \<Rightarrow> Inl (AtFailure e) | Inr _ \<Rightarrow>
              if length (trim_space (sp_PDU m)) div 2 < 2 then Inl InvalidPduLength
              else if tpdu_length (sp_PDU m) < 1 then Inl InvalidTpduLength
              else sms_result fresh (send_pdu (tpdu_length (sp_PDU m)) (sp_PDU m))))"

text \<open>The loop of \<^verbatim>\<open>ListSMS\<close>: the messages so far, the header waiting for its PDU, the last index.\<close>

type_synonym list_state = "RawSMS list \<times> int option \<times> string"

definition list_line :: "list_state \<Rightarrow> string \<Rightarrow> list_state" where
  "list_line st line =
     (case st of (found, current, lastIndex) \<Rightarrow>
        if has_prefix line ''+CMGL:'' then
          (case atoi (trim_space (hd (split_char (CHR '','') (trim_space (trim_prefix line ''+CMGL:''))))) of
             None \<Rightarrow> (found, current, lastIndex)
           | Some index \<Rightarrow> (found, Some index, itoa index))
        else
          (case current of
             None \<Rightarrow> (found, None, lastIndex)
           | Some index \<Rightarrow>
               if \<not> IsFinal line \<and> \<not> has_prefix line ''+'' then
                 (case hex_decode (trim_space line) of
                    None \<Rightarrow> (found, None, lastIndex)
                  | Some pdu \<Rightarrow>
                      (found @ [\<lparr>rs_Storage = ''SM'', rs_Index = index, rs_Sender = [], rs_ServiceTimeUnix = 0,
                         rs_RawPDU = pdu\<rparr>], None, lastIndex))
               else (found, current, lastIndex)))"

definition storage_command :: string where
  "storage_command = ''AT+CPMS='' @ [CHR 0x22] @ ''MT'' @ [CHR 0x22]"

definition adapter_ListSMS ::
  "exchange \<Rightarrow> string \<Rightarrow> (modem_error, RawSMS list) result \<times> string" where
  "adapter_ListSMS ex cursor =
     (case ex storage_command of Inl e \<Rightarrow> (Inl (AtFailure e), cursor) | Inr _ \<Rightarrow>
     (case ex ''AT+CMGF=0'' of Inl e \<Rightarrow> (Inl (AtFailure e), cursor) | Inr _ \<Rightarrow>
     (case ex ''AT+CMGL=4'' of Inl e \<Rightarrow> (Inl (AtFailure e), cursor) | Inr ls \<Rightarrow>
        (case foldl list_line ([], None, trim_space cursor) ls of
           (found, _, lastIndex) \<Rightarrow> (Inr found, lastIndex)))))"

definition adapter_DeleteSMS :: "exchange \<Rightarrow> string \<Rightarrow> (modem_error, unit) result" where
  "adapter_DeleteSMS ex storageIndex =
     (case ex storage_command of Inl e \<Rightarrow> Inl (AtFailure e) | Inr _ \<Rightarrow>
     (case ex (''AT+CMGD='' @ trim_space storageIndex) of Inl e \<Rightarrow> Inl (AtFailure e) | Inr _ \<Rightarrow> Inr ()))"

section \<open>Substrings\<close>

lemma has_prefix_iff: "has_prefix s p \<longleftrightarrow> (\<exists>t. s = p @ t)"
  by (auto simp: has_prefix_def) (metis append_take_drop_id)

lemma str_index_Some: "str_index s p = Some i \<Longrightarrow> i \<le> length s \<and> has_prefix (drop i s) p"
  by (induction s p arbitrary: i rule: str_index.induct) (auto split: if_splits simp: has_prefix_iff)

lemma str_index_append: "str_index (xs @ p @ ys) p \<noteq> None"
proof (induction xs)
  case Nil
  have "has_prefix (p @ ys) p" by (simp add: has_prefix_def)
  then show ?case by (cases "p @ ys") simp_all
qed auto

lemma str_contains_iff: "str_contains s p \<longleftrightarrow> (\<exists>xs ys. s = xs @ p @ ys)"
proof
  assume "str_contains s p"
  then obtain i where "str_index s p = Some i" by (auto simp: str_contains_def)
  then have "has_prefix (drop i s) p" using str_index_Some by blast
  then obtain t where "drop i s = p @ t" by (auto simp: has_prefix_iff)
  then have "s = take i s @ p @ t" by (metis append_take_drop_id)
  then show "\<exists>xs ys. s = xs @ p @ ys" by blast
qed (use str_index_append in \<open>auto simp: str_contains_def\<close>)

lemma str_contains_suffix: "str_contains s (p @ q) \<Longrightarrow> str_contains s q"
  unfolding str_contains_iff by (metis append.assoc)

text \<open>A SIM is never reported absent: the test for \<open>ready\<close> comes first and \<open>NOT READY\<close> passes it.\<close>

theorem SIM_never_absent:
  "normalizeSIM v \<noteq> ''absent'' \<and> (str_contains (to_lower v) ''not ready'' \<longrightarrow> normalizeSIM v = ''ready'')"
  using str_contains_suffix [of "to_lower v" "''not ''" "''ready''"] by (auto simp: normalizeSIM_def Let_def)

theorem SIM_never_absent_witness:
  "normalizeSIM ''+CPIN: NOT READY'' = ''ready''"
proof -
  have "str_contains (to_lower ''+CPIN: NOT READY'') ''not ready''" by code_simp
  then show ?thesis using SIM_never_absent [of "''+CPIN: NOT READY''"] by simp
qed

section \<open>Signal\<close>

lemma trim_space_lead [simp]:
  assumes "list_all graphic_char s"
  shows "trim_space (CHR '' '' # s) = s"
proof -
  let ?t = "CHR '' '' # s"
  have only: "list_all (\<lambda>p. p = [] \<or> hd p \<noteq> CHR '' '' \<or> p = [CHR '' '']) space_strings"
    and mem: "[CHR '' ''] \<in> set space_strings" by code_simp+
  have "find (\<lambda>p. p \<noteq> [] \<and> has_prefix ?t p) space_strings = Some [CHR '' '']"
  proof (cases "find (\<lambda>p. p \<noteq> [] \<and> has_prefix ?t p) space_strings")
    case None
    with mem show ?thesis by (auto simp: find_None_iff has_prefix_def)
  next
    case (Some p)
    then have p: "p \<in> set space_strings" "p \<noteq> []" "has_prefix ?t p" by (auto simp: find_Some_iff)
    from p(3) obtain u where "?t = p @ u" unfolding has_prefix_iff by blast
    with p(2) have "hd p = CHR '' ''" by (cases p) simp_all
    with only p Some show ?thesis by (auto simp: list_all_iff)
  qed
  then have "strip_any space_strings (CHR '' '' # s) = strip_any space_strings s"
    by (subst strip_any.simps) simp
  with assms trim_space_graphic [OF assms] show ?thesis
    by (simp add: trim_space_def)
qed

lemma str_index_char: "c \<notin> set s \<Longrightarrow> str_index (s @ c # t) [c] = Some (length s)"
  by (induction s) (auto simp: has_prefix_def)

lemma str_index_char_None: "c \<notin> set s \<Longrightarrow> str_index s [c] = None"
  by (induction s) (auto simp: has_prefix_def)

lemma digits_not_in: "\<not> is_digit c \<Longrightarrow> c \<notin> set (nat_to_string n)"
  using nat_to_string_digits [of n] by (auto simp: list_all_iff)

lemma graphic_digits: "list_all graphic_char (nat_to_string n)"
  using nat_to_string_digits [of n] by (simp add: digits_graphic)

lemma atoi_nat_to_string: "n < 2 ^ 63 \<Longrightarrow> atoi (nat_to_string n) = Some (int n)"
  using atoi_itoa [of "int n"] by (simp add: itoa_def in_int64_def)

text \<open>The signal strength the modem reports as \<open>n\<close> is read as \<open>-113 + 2 n\<close> dBm, but \<open>99\<close>, which means
  unknown, is read as \<open>0\<close> and shown with four bars.\<close>

theorem signal_of_CSQ:
  assumes "n < 100" and "list_all graphic_char rest"
  shows "parseRSSI (''+CSQ: '' @ nat_to_string n @ '','' @ rest) = (if n = 99 then 0 else -113 + 2 * int n) \<and>
     (n = 99 \<longrightarrow> signalBars (parseRSSI (''+CSQ: '' @ nat_to_string n @ '','' @ rest)) = 4)"
proof -
  let ?t = "nat_to_string n @ '','' @ rest"
  have graphic: "list_all graphic_char ?t"
    using graphic_digits [of n] assms(2) by (simp add: graphic_char_def)
  have trim: "trim_space (''+CSQ: '' @ ?t) = ''+CSQ: '' @ ?t"
  proof (rule trim_space_ends)
    have "last (''+CSQ: '' @ ?t) \<in> set ?t" by simp
    with graphic show "graphic_char (last (''+CSQ: '' @ ?t))" unfolding list_all_iff by blast
  qed (simp_all add: graphic_char_def)
  have colon: "str_index (''+CSQ: '' @ ?t) '':'' = Some 4"
    using str_index_char [of "CHR '':''" "''+CSQ''" "CHR '' '' # ?t"] by simp
  have cut: "drop (4 + 1) (''+CSQ: '' @ ?t) = CHR '' '' # ?t" by simp
  have comma: "str_index ?t '','' = Some (length (nat_to_string n))"
    using str_index_char [of "CHR '',''" "nat_to_string n" rest] digits_not_in [of "CHR '',''" n]
    by (simp add: is_digit_def)
  have number: "atoi (nat_to_string n) = Some (int n)" using assms(1) by (intro atoi_nat_to_string) simp
  have "parseRSSI (''+CSQ: '' @ ?t) = (if n = 99 then 0 else -113 + 2 * int n)"
    unfolding parseRSSI_def Let_def trim colon option.case cut trim_space_lead [OF graphic] comma
    using graphic_digits [of n] number by simp
  moreover have "signalBars 0 = 4" by (simp add: signalBars_def)
  ultimately show ?thesis by (auto simp del: append.simps)
qed

theorem signal_of_CSQ_witness:
  "parseRSSI (''+CSQ: '' @ nat_to_string 99 @ '','' @ ''99'') = 0 \<and>
   signalBars (parseRSSI (''+CSQ: '' @ nat_to_string 99 @ '','' @ ''99'')) = 4"
  using signal_of_CSQ [of 99 "''99''"] by (auto simp: graphic_char_def simp del: append.simps)

section \<open>Listing messages\<close>

text \<open>What the modem prints for stored messages: a header and the PDU.\<close>

definition cmgl_lines :: "nat \<times> byte list \<Rightarrow> string list" where
  "cmgl_lines m = [''+CMGL: '' @ nat_to_string (fst m) @ '',0,,20'', hex_encode_upper (snd m)]"

definition listed :: "nat \<times> byte list \<Rightarrow> RawSMS" where
  "listed m = \<lparr>rs_Storage = ''SM'', rs_Index = int (fst m), rs_Sender = [], rs_ServiceTimeUnix = 0,
     rs_RawPDU = snd m\<rparr>"

lemma list_line_header:
  assumes "i < 2 ^ 63"
  shows "list_line (found, current, lastIndex) (''+CMGL: '' @ nat_to_string i @ '',0,,20'') =
     (found, Some (int i), itoa (int i))"
proof -
  let ?t = "nat_to_string i @ '',0,,20''"
  have graphic: "list_all graphic_char ?t"
    using graphic_digits [of i] by (simp add: graphic_char_def)
  have "has_prefix (''+CMGL: '' @ ?t) ''+CMGL:''" by (simp add: has_prefix_def)
  moreover have "trim_prefix (''+CMGL: '' @ ?t) ''+CMGL:'' = CHR '' '' # ?t"
    by (simp add: trim_prefix_def has_prefix_def)
  moreover have "split_char (CHR '','') ?t = nat_to_string i # split_char (CHR '','') ''0,,20''"
    using digits_not_in [of "CHR '',''" i] split_char_append [of "CHR '',''" "nat_to_string i" "'',0,,20''"]
      split_char_sep [of "CHR '',''" "nat_to_string i" "''0,,20''"]
    by (simp add: is_digit_def)
  ultimately show ?thesis
    using graphic graphic_digits [of i] atoi_nat_to_string [OF assms] trim_space_lead [OF graphic]
    unfolding list_line_def prod.case by (simp del: append.simps)
qed

lemma list_line_pdu:
  "list_line (found, Some i, lastIndex) (hex_encode_upper pdu) =
     (found @ [\<lparr>rs_Storage = ''SM'', rs_Index = i, rs_Sender = [], rs_ServiceTimeUnix = 0, rs_RawPDU = pdu\<rparr>], None, lastIndex)"
proof -
  have plus: "hex_decode (CHR ''+'' # t) = None" for t
    by (cases t) (simp_all add: hex_value_def)
  have "hex_decode ''OK'' = None" "hex_decode ''ERROR'' = None" by (simp_all add: hex_value_def)
  moreover obtain line where line: "hex_encode_upper pdu = line" and dec: "hex_decode line = Some pdu"
    by simp
  moreover have "\<not> has_prefix line (CHR ''+'' # t)" for t
    using plus dec by (auto simp: has_prefix_iff)
  ultimately have "\<not> IsFinal line" "\<not> has_prefix line ''+''" "\<not> has_prefix line ''+CMGL:''"
    by (auto simp: IsFinal_def)
  moreover have "trim_space line = line" using line by (metis trim_space_hex)
  ultimately show ?thesis by (simp add: list_line_def line dec)
qed

text \<open>A listing of stored messages is read back completely and in order, and the cursor becomes the last
  index.\<close>

theorem ListSMS_complete:
  assumes "\<forall>m \<in> set ms. fst m < 2 ^ 63"
    and "ex storage_command = Inr ok1" and "ex ''AT+CMGF=0'' = Inr ok2"
    and "ex ''AT+CMGL=4'' = Inr (concat (map cmgl_lines ms) @ [''OK''])"
  shows "adapter_ListSMS ex cursor =
     (Inr (map listed ms), if ms = [] then trim_space cursor else nat_to_string (fst (last ms)))"
proof -
  have "foldl list_line (found, None, lastIndex) (concat (map cmgl_lines ms)) =
      (found @ map listed ms, None, if ms = [] then lastIndex else nat_to_string (fst (last ms)))"
    for found lastIndex
    using assms(1)
  proof (induction ms arbitrary: found lastIndex)
    case (Cons m ms)
    then show ?case
      by (simp add: cmgl_lines_def list_line_header list_line_pdu listed_def itoa_def del: append.simps)
  qed simp
  with assms(2,3,4) show ?thesis
    by (simp add: adapter_ListSMS_def list_line_def has_prefix_def)
qed

theorem ListSMS_complete_witness:
  "adapter_ListSMS (\<lambda>c. Inr (if c = ''AT+CMGL=4'' then concat (map cmgl_lines [(7, [1, 2])]) @ [''OK'']
       else [''OK''])) [] = (Inr [listed (7, [1, 2])], nat_to_string 7)"
  using ListSMS_complete [of "[(7, [1, 2])]" "\<lambda>c. Inr (if c = ''AT+CMGL=4''
     then concat (map cmgl_lines [(7, [1, 2])]) @ [''OK''] else [''OK''])" "[''OK'']" "[''OK'']" "[]"]
  by (simp add: storage_command_def)

section \<open>Submitting encoded messages\<close>

lemma tpdu_length_hex:
  "0 < length rest \<Longrightarrow> tpdu_length (hex_encode_upper (0 # rest)) = int (length rest)"
proof -
  have "(char_of (48 :: nat)) = CHR ''0''" by code_simp
  then have "take 2 (hex_encode_upper (0 # rest)) = ''00''"
    by (simp add: hex_encode_upper_def hex_byte_def upper_hex_digit_def)
  moreover have "parse_hex8 ''00'' = Some 0" by (simp add: parse_hex8_def hex_value_def)
  ultimately show ?thesis by (simp add: tpdu_length_def)
qed

lemma encodeSubmit_bytes:
  assumes "encodeSubmit dest body enc udh = Inr pdu"
  obtains rest where "pdu = hex_encode_upper (0 # rest)" and "3 \<le> length rest"
  using assms by (auto simp: encodeSubmit_def Let_def split: sum.splits prod.splits)

lemma encode_parts_pdus:
  "encode_parts dest enc ref n i parts = Inr segs \<Longrightarrow> seg \<in> set segs \<Longrightarrow>
     \<exists>p udh. encodeSubmit dest p enc udh = Inr (seg_pdu seg)"
proof (induction parts arbitrary: i segs)
  case (Cons part parts)
  then show ?case by (fastforce split: sum.splits)
qed simp

text \<open>Each segment of an encoded message is submitted to the modem as it is, announced with exactly the
  number of octets that follow the service centre octet.\<close>

theorem SendSMS_announces_length:
  assumes "EncodeSubmitSegments dest body ref = Inr segs" and "seg \<in> set segs"
    and "6 < length (trim_space dest)" and "ex ''AT+CMGF=0'' = Inr ok"
  shows "\<exists>octets. seg_pdu seg = hex_encode_upper octets \<and>
     adapter_SendSMS ex send_text send_pdu fresh dest (segment_payload seg) =
       sms_result fresh (send_pdu (int (length octets) - 1) (seg_pdu seg))"
proof -
  obtain p udh where "encodeSubmit dest p (body_encoding body) udh = Inr (seg_pdu seg)"
    using assms(1,2) encode_parts_pdus by (fastforce simp: EncodeSubmitSegments_def Let_def split: if_splits)
  then obtain rest where rest: "seg_pdu seg = hex_encode_upper (0 # rest)" "3 \<le> length rest"
    by (rule encodeSubmit_bytes)
  moreover from rest have "tpdu_length (hex_encode_upper (0 # rest)) = int (length rest)"
    by (intro tpdu_length_hex) linarith
  moreover have "rest \<noteq> []" using rest(2) by auto
  moreover have "hex_encode_upper (0 # rest) \<noteq> []" by (simp add: hex_encode_upper_def hex_byte_def)
  ultimately show ?thesis
    using assms(3,4) by (intro exI [of _ "0 # rest"]) (simp add: adapter_SendSMS_def segment_payload_def Let_def)
qed

lemma encode_one_segment:
  assumes "trim_space dest \<noteq> []" and "encodeAddress dest = Inr address"
  shows "\<exists>segs. EncodeSubmitSegments dest [104] 1 = Inr segs \<and> segs \<noteq> []"
proof -
  have "body_length enc [104] \<le> single_limit enc" for enc
    by (cases enc) (simp_all add: body_length_def single_limit_def gsm7Extension_def utf16_encode_def
        utf16_encode_rune_def)
  then show ?thesis
    using assms by (simp add: EncodeSubmitSegments_def Let_def splitBody_def encodeSubmit_def split: prod.splits)
qed

theorem SendSMS_announces_length_witness:
  "\<exists>segs seg octets. EncodeSubmitSegments ''13800138000'' [104] 1 = Inr segs \<and> seg \<in> set segs \<and>
     seg_pdu seg = hex_encode_upper octets \<and>
     adapter_SendSMS (\<lambda>c. Inr [''OK'']) (\<lambda>d b. Inr ()) (\<lambda>n pdu. Inr ()) (Some ''sms_1'') ''13800138000''
       (segment_payload seg) = Inr ''sms_1''"
proof -
  have t: "trim_space ''13800138000'' = ''13800138000''" by (simp add: graphic_char_def)
  obtain segs where segs: "EncodeSubmitSegments ''13800138000'' [104] 1 = Inr segs" "segs \<noteq> []"
    using encode_one_segment [of "''13800138000''"] t
    by (auto simp: encodeAddress_def has_prefix_def is_digit_def)
  then obtain seg where "seg \<in> set segs" by (cases segs) auto
  with SendSMS_announces_length [OF segs(1) this, of "\<lambda>c. Inr [''OK'']" "[''OK'']" "\<lambda>d b. Inr ()"
      "\<lambda>n pdu. Inr ()" "Some ''sms_1''"] t segs
  show ?thesis by (auto simp: sms_result_def)
qed

end
