(* ===== verification/Call_Adapter.thy ===== *)
theory Call_Adapter
  imports At_Adapter
begin

text \<open>
  The adapter between the one logical call of the API and the modem's opaque call ids,
  \<^verbatim>\<open>gateway/internal/modem/call_adapter.go\<close>, over the part of \<^verbatim>\<open>modem.ModemControl\<close> it relies on. That
  part is a locale; the AT adapter interprets it. The adapter's operations take the modem's as
  parameters, as the code takes the interface.
\<close>

section \<open>The adapter\<close>

record ActiveCallAdapter =
  ac_active :: string
  ac_logical :: string
  ac_lastPhysical :: string
  ac_lastLogical :: string
  ac_events :: "ModemEvent list"

definition NewActiveCallAdapter :: ActiveCallAdapter where
  "NewActiveCallAdapter = \<lparr>ac_active = [], ac_logical = [], ac_lastPhysical = [], ac_lastLogical = [],
     ac_events = []\<rparr>"

definition SetLogicalCallID :: "string \<Rightarrow> ActiveCallAdapter \<Rightarrow> ActiveCallAdapter" where
  "SetLogicalCallID callID a = a\<lparr>ac_logical := callID\<rparr>"

definition call_Dial ::
  "('s \<Rightarrow> (modem_error, string) result \<times> 's) \<Rightarrow> ActiveCallAdapter \<times> 's \<Rightarrow>
   (modem_error, unit) result \<times> ActiveCallAdapter \<times> 's" where
  "call_Dial dial st =
     (case st of (a, s) \<Rightarrow>
        (case dial s of
           (Inl e, s') \<Rightarrow> (Inl e, a, s')
         | (Inr callID, s') \<Rightarrow>
             (Inr (), a\<lparr>ac_active := callID, ac_lastPhysical := [], ac_lastLogical := []\<rparr>, s')))"

definition withActive ::
  "(string \<Rightarrow> 's \<Rightarrow> (modem_error, unit) result \<times> 's) \<Rightarrow> ActiveCallAdapter \<times> 's \<Rightarrow>
   (modem_error, unit) result \<times> 's" where
  "withActive action st =
     (case st of (a, s) \<Rightarrow>
        if ac_active a = [] then (Inl ErrNoActiveCall, s) else action (ac_active a) s)"

definition call_Answer ::
  "(string \<Rightarrow> 's \<Rightarrow> (modem_error, unit) result \<times> 's) \<Rightarrow> ActiveCallAdapter \<times> 's \<Rightarrow>
   (modem_error, unit) result \<times> ActiveCallAdapter \<times> 's" where
  "call_Answer answer st = (case withActive answer st of (r, s') \<Rightarrow> (r, fst st, s'))"

definition call_DTMF ::
  "(string \<Rightarrow> 's \<Rightarrow> (modem_error, unit) result \<times> 's) \<Rightarrow> ActiveCallAdapter \<times> 's \<Rightarrow>
   (modem_error, unit) result \<times> ActiveCallAdapter \<times> 's" where
  "call_DTMF dtmf st = (case withActive dtmf st of (r, s') \<Rightarrow> (r, fst st, s'))"

definition call_Hangup ::
  "(string \<Rightarrow> 's \<Rightarrow> (modem_error, unit) result \<times> 's) \<Rightarrow> ActiveCallAdapter \<times> 's \<Rightarrow>
   (modem_error, unit) result \<times> ActiveCallAdapter \<times> 's" where
  "call_Hangup hangup st =
     (case withActive hangup st of
        (Inl e, s') \<Rightarrow> (Inl e, fst st, s')
      | (Inr _, s') \<Rightarrow>
          (Inr (), (fst st)\<lparr>ac_lastPhysical := ac_active (fst st), ac_lastLogical := ac_logical (fst st),
                     ac_active := [], ac_logical := []\<rparr>, s'))"

text \<open>One event of the modem through \<^verbatim>\<open>forwardEvents\<close>: the event as passed on, and the state.\<close>

definition translate_event :: "ModemEvent \<Rightarrow> ActiveCallAdapter \<Rightarrow> ModemEvent" where
  "translate_event event a =
     (let physicalID = me_CallID event;
          logicalID = (if physicalID = ac_lastPhysical a \<and> ac_lastLogical a \<noteq> []
                       then ac_lastLogical a else ac_logical a);
          active = (if me_Kind event = ''incoming'' \<and> physicalID \<noteq> [] \<and> ac_active a = []
                    then physicalID else ac_active a)
      in if physicalID \<noteq> [] \<and> (physicalID = active \<or> physicalID = ac_lastPhysical a) \<and> logicalID \<noteq> []
         then event\<lparr>me_CallID := logicalID\<rparr> else event)"

definition forward_event :: "ModemEvent \<Rightarrow> ActiveCallAdapter \<Rightarrow> ActiveCallAdapter" where
  "forward_event event a =
     (let physicalID = me_CallID event;
          a1 = (if me_Kind event = ''incoming'' \<and> physicalID \<noteq> [] \<and> ac_active a = []
                then a\<lparr>ac_active := physicalID\<rparr> else a);
          a2 = (if me_Kind event = ''ended'' \<and> (physicalID = ac_active a1 \<or> physicalID = ac_lastPhysical a1)
                then (if ac_lastPhysical a1 = []
                      then a1\<lparr>ac_lastPhysical := physicalID, ac_lastLogical := ac_logical a1\<rparr> else a1)
                     \<lparr>ac_active := [], ac_logical := []\<rparr>
                else a1)
      in a2\<lparr>ac_events := chan_send 32 (translate_event event a) (ac_events a2)\<rparr>)"

section \<open>The interface to the modem\<close>

text \<open>What the adapter needs of \<^verbatim>\<open>ModemControl\<close>: \<open>line\<close> is the modem's active call; \<open>'e\<close> is what the outside
  world does during the operation.\<close>

locale modem_control =
  fixes dial :: "'e \<Rightarrow> string \<Rightarrow> 's \<Rightarrow> (modem_error, string) result \<times> 's"
    and hangup :: "'e \<Rightarrow> string \<Rightarrow> 's \<Rightarrow> (modem_error, unit) result \<times> 's"
    and line :: "'s \<Rightarrow> string"
  assumes dial_busy: "line s \<noteq> [] \<Longrightarrow> dial e peer s = (Inl ErrActiveCall, s)"
    and dial_ok: "dial e peer s = (Inr i, s') \<Longrightarrow> line s' = i"
    and hangup_mismatch: "line s = [] \<or> (i \<noteq> [] \<and> line s \<noteq> i) \<Longrightarrow> hangup e i s = (Inl CallMismatch, s)"
    and hangup_ok: "hangup e i s = (Inr u, s') \<Longrightarrow> i \<noteq> [] \<Longrightarrow> line s = i \<and> line s' \<noteq> i"
begin

lemma dial_in_step:
  "call_Dial (dial e peer) (a, s) = (Inr u, a', s') \<Longrightarrow> line s = [] \<and> ac_active a' = line s'"
  using dial_busy [of s e peer] dial_ok [of e peer s _ s']
  by (cases "line s = []") (auto simp: call_Dial_def split: prod.splits sum.splits)

lemma hangup_in_step:
  "call_Hangup (hangup e) (a, s) = (Inr u, a', s') \<Longrightarrow>
     ac_active a \<noteq> [] \<and> line s = ac_active a \<and> ac_active a' = [] \<and> ac_logical a' = [] \<and>
     ac_lastPhysical a' = ac_active a \<and> ac_lastLogical a' = ac_logical a \<and> line s' \<noteq> ac_active a"
  using hangup_ok [of e "ac_active a" s _ s']
  by (auto simp: call_Hangup_def withActive_def split: prod.splits sum.splits if_splits)

text \<open>When the adapter has lost the call and the modem has not, the line is wedged: no hangup reaches the
  modem and every dial is refused.\<close>

lemma wedged:
  assumes "ac_active a = []" and "line s \<noteq> []"
  shows "call_Hangup (hangup e) (a, s) = (Inl ErrNoActiveCall, a, s)"
    and "call_Dial (dial e peer) (a, s) = (Inl ErrActiveCall, a, s)"
  using assms by (simp_all add: call_Hangup_def withActive_def call_Dial_def dial_busy)

end

section \<open>The AT adapter provides it\<close>

type_synonym at_world = "exchange \<times> string option \<times> (Adapter \<Rightarrow> Adapter)"

definition at_dial :: "at_world \<Rightarrow> string \<Rightarrow> Adapter \<Rightarrow> (modem_error, string) result \<times> Adapter" where
  "at_dial e peer s = (case e of (ex, fresh, between) \<Rightarrow> adapter_Dial ex fresh between peer s)"

definition at_hangup :: "at_world \<Rightarrow> string \<Rightarrow> Adapter \<Rightarrow> (modem_error, unit) result \<times> Adapter" where
  "at_hangup e i s = (case e of (ex, fresh, between) \<Rightarrow> adapter_Hangup ex between i s)"

lemma emit_active [simp]: "ad_active (emit ev a) = ad_active a"
  by (simp add: emit_def)

interpretation at_modem: modem_control at_dial at_hangup ad_active
proof
  fix s s' :: Adapter and e peer i u
  show "ad_active s \<noteq> [] \<Longrightarrow> at_dial e peer s = (Inl ErrActiveCall, s)"
    by (simp add: at_dial_def adapter_Dial_def split: prod.split)
  show "at_dial e peer s = (Inr i, s') \<Longrightarrow> ad_active s' = i"
    by (auto simp: at_dial_def adapter_Dial_def split: prod.splits sum.splits option.splits if_splits)
  show "ad_active s = [] \<or> (i \<noteq> [] \<and> ad_active s \<noteq> i) \<Longrightarrow> at_hangup e i s = (Inl CallMismatch, s)"
    by (auto simp: at_hangup_def adapter_Hangup_def validateActive_def split: prod.split)
  show "at_hangup e i s = (Inr u, s') \<Longrightarrow> i \<noteq> [] \<Longrightarrow> ad_active s = i \<and> ad_active s' \<noteq> i"
    by (auto simp: at_hangup_def adapter_Hangup_def validateActive_def finishActive_def
        split: prod.splits sum.splits if_splits)
qed

text \<open>After a dial that succeeds the call adapter and the AT adapter name the same call. A hangup that succeeds was of the call both
  named; after it the call adapter has none and the AT adapter no longer that one (it may have a new one, when a RING arrived
  during the exchange), and a late \<open>ended\<close> report is passed on under the logical id.\<close>

theorem call_adapter_in_step:
  "(call_Dial (at_dial e peer) (a, s) = (Inr u, a', s') \<longrightarrow> ad_active s = [] \<and> ac_active a' = ad_active s') \<and>
   (call_Hangup (at_hangup e) (a, s) = (Inr u, a', s') \<longrightarrow>
      ad_active s = ac_active a \<and> ac_active a' = [] \<and> ad_active s' \<noteq> ac_active a \<and>
      (ac_logical a \<noteq> [] \<longrightarrow>
         me_CallID (translate_event \<lparr>me_Kind = ''ended'', me_CallID = ac_active a, me_Peer = [], me_Raw = r\<rparr> a')
         = ac_logical a))"
proof (intro conjI impI)
  assume "call_Dial (at_dial e peer) (a, s) = (Inr u, a', s')"
  from at_modem.dial_in_step [OF this] show "ad_active s = []" "ac_active a' = ad_active s'" by simp_all
next
  assume "call_Hangup (at_hangup e) (a, s) = (Inr u, a', s')"
  note h = at_modem.hangup_in_step [OF this]
  then show "ad_active s = ac_active a" "ac_active a' = []" "ad_active s' \<noteq> ac_active a" by simp_all
  assume "ac_logical a \<noteq> []"
  with h show "me_CallID (translate_event \<lparr>me_Kind = ''ended'', me_CallID = ac_active a, me_Peer = [], me_Raw = r\<rparr> a')
         = ac_logical a"
    by (simp add: translate_event_def Let_def)
qed

theorem call_adapter_in_step_witness:
  "ac_active (fst (snd (call_Dial (at_dial (\<lambda>c. Inr [''OK''], Some ''call_1'', \<lambda>a. a) ''10086'')
     (NewActiveCallAdapter, NewAdapter)))) = ''call_1''"
  using call_adapter_in_step [of "(\<lambda>c. Inr [''OK''], Some ''call_1'', \<lambda>a. a)" "''10086''"
      NewActiveCallAdapter NewAdapter "()"]
  by (simp add: call_Dial_def at_dial_def adapter_Dial_def NewAdapter_def)

text \<open>A \<open>NO CARRIER\<close> that arrives while \<open>ATD\<close> is pending is reported with an empty call id. When the
  adapter handles that report after the dial has returned, it forgets the new call but the modem
  adapter does not: no hangup reaches the modem any more, and every dial is refused.\<close>

theorem stale_end_wedges_line:
  assumes "call_Dial (at_dial (ex, Some i, HandleURC uuid ''NO CARRIER'') peer) (a, s) = (Inr u, a', s')"
    and "i \<noteq> []" and "ad_events s = []" and "\<not> ad_closed s"
  shows "\<exists>event. ad_events s' = [event] \<and>
     (let a'' = forward_event event a'
      in call_Hangup (at_hangup e2) (a'', s') = (Inl ErrNoActiveCall, a'', s') \<and>
         call_Dial (at_dial e2 peer2) (a'', s') = (Inl ErrActiveCall, a'', s'))"
proof -
  let ?event = "\<lparr>me_Kind = ''ended'', me_CallID = [], me_Peer = [], me_Raw = ''NO CARRIER''\<rparr>"
  have t: "trim_space ''NO CARRIER'' = ''NO CARRIER''" by (rule trim_space_ends) (simp_all add: graphic_char_def)
  have idle: "ad_active s = []" using at_modem.dial_in_step [OF assms(1)] by simp
  then have urc: "HandleURC uuid ''NO CARRIER'' s = s\<lparr>ad_events := [?event]\<rparr>"
    using assms(3,4) by (simp add: HandleURC_def t str_contains_def has_prefix_def emit_def chan_send_def)
  have s': "ad_events s' = [?event]" "ad_active s' = i" "ac_lastPhysical a' = []"
    using assms(1) idle
    by (auto simp: call_Dial_def at_dial_def adapter_Dial_def urc split: sum.splits)
  then have "ac_active (forward_event ?event a') = []"
    by (simp add: forward_event_def Let_def)
  with s' assms(2) at_modem.wedged [of "forward_event ?event a'" s'] show ?thesis
    by (simp add: Let_def)
qed

theorem stale_end_wedges_line_witness:
  "\<exists>a' s' event. call_Dial (at_dial (\<lambda>c. Inr [''OK''], Some ''call_1'', HandleURC ''u'' ''NO CARRIER'') ''10086'')
      (NewActiveCallAdapter, NewAdapter) = (Inr (), a', s') \<and> ad_events s' = [event] \<and>
     call_Hangup (at_hangup (\<lambda>c. Inr [''OK''], None, \<lambda>a. a)) (forward_event event a', s') =
       (Inl ErrNoActiveCall, forward_event event a', s')"
proof -
  obtain a' s' where d: "call_Dial (at_dial (\<lambda>c. Inr [''OK''], Some ''call_1'', HandleURC ''u'' ''NO CARRIER'') ''10086'')
      (NewActiveCallAdapter, NewAdapter) = (Inr (), a', s')"
    by (simp add: call_Dial_def at_dial_def adapter_Dial_def NewAdapter_def)
  from stale_end_wedges_line [OF d, of "(\<lambda>c. Inr [''OK''], None, \<lambda>a. a)" "[]"] d show ?thesis
    by (auto simp: NewAdapter_def Let_def)
qed

end
