(* ===== verification/Gateway_Db.thy ===== *)
theory Gateway_Db
  imports Gateway_Prelude "HOL-Library.List_Lexorder" "HOL-Library.Char_ord"
    "HOL-Library.Product_Lexorder"
begin

text \<open>
  The gateway's store, \<^verbatim>\<open>gateway/internal/db/db.go\<close> with the tables of \<^verbatim>\<open>schema.sql\<close>. A table is the
  list of its rows, a statement a function on the tables, and an operation of the Go code a program
  over driver calls: every call of the driver takes the next entry of a fault list and fails without
  effect when that entry is set, so an operation is run under every pattern of driver failures. A
  constraint of the schema that a statement would break makes it fail. Wall clock times are
  parameters; \<^verbatim>\<open>created_at\<close> columns no query reads are left out. The order of rows that tie in an
  \<^verbatim>\<open>ORDER BY\<close>, which SQL leaves open, is a fixed one. SQLite itself (files, locking, pragmas) and the
  schema upgrade of \<^verbatim>\<open>Migrate\<close> are not modelled.
\<close>

section \<open>Rows\<close>

record Device =
  dv_ID :: string
  dv_Name :: string
  dv_PublicKey :: "byte list"
  dv_PushToken :: "string option"
  dv_VoIPToken :: "string option"
  dv_PushEnvironment :: "string option"
  dv_PushLocale :: "string option"
  dv_RevokedAt :: "timestamp option"

record DeviceToken =
  tk_Hash :: "byte list"
  tk_DeviceID :: string
  tk_Kind :: string
  tk_CreatedAt :: timestamp
  tk_ExpiresAt :: timestamp
  tk_RevokedAt :: "timestamp option"

record IdempotencyRecord =
  ir_StatusCode :: nat
  ir_Body :: string
  ir_Pending :: bool

record PushTarget =
  pt_DeviceID :: string
  pt_APNSToken :: string
  pt_VoIPToken :: string
  pt_Environment :: string
  pt_Locale :: string

text \<open>A hash column of a message is SQL \<^verbatim>\<open>NULL\<close> exactly when the field is empty (\<^verbatim>\<open>nullString\<close>).\<close>

record Message =
  ms_ID :: string
  ms_ThreadKey :: string
  ms_Direction :: string
  ms_Peer :: string
  ms_Body :: rune_text
  ms_Encoding :: string
  ms_Status :: string
  ms_ServiceTime :: "timestamp option"
  ms_CreatedAt :: timestamp
  ms_ModemStorage :: string
  ms_ModemIndex :: "int option"
  ms_PDUHash :: string
  ms_SyncSeq :: nat

record CallRecord =
  cl_ID :: string
  cl_Direction :: string
  cl_Peer :: string
  cl_State :: string
  cl_StartedAt :: timestamp
  cl_ConnectedAt :: "timestamp option"
  cl_EndedAt :: "timestamp option"
  cl_EndReason :: string
  cl_RecordingID :: string
  cl_RecordingState :: string
  cl_RecordingDurationMs :: "int option"
  cl_SyncSeq :: nat

record CallRow =
  cw_Call :: CallRecord
  cw_DeletedAt :: "timestamp option"

record Recording =
  rc_ID :: string
  rc_CallID :: string
  rc_State :: string
  rc_TriggerMode :: string
  rc_StartedAt :: "timestamp option"
  rc_StoppedAt :: "timestamp option"
  rc_DurationMs :: "int option"
  rc_FilePath :: string
  rc_Container :: string
  rc_Codec :: string
  rc_SampleRate :: nat
  rc_Channels :: nat
  rc_Bitrate :: nat
  rc_SizeBytes :: "int option"
  rc_SHA256 :: string
  rc_WaveformPath :: string
  rc_FailureCode :: string
  rc_FailureDetail :: string
  rc_RetentionExpiresAt :: "timestamp option"
  rc_CreatedByDeviceID :: string
  rc_CreatedAt :: timestamp
  rc_UpdatedAt :: timestamp
  rc_SyncSeq :: nat

record RecordingSettings =
  st_Enabled :: bool
  st_AutoMode :: string
  st_RetentionDays :: int
  st_MinimumFreeBytes :: int
  st_UpdatedAt :: timestamp

record SMSSegment =
  ss_ID :: string
  ss_MessageID :: "string option"
  ss_Sender :: string
  ss_ConcatRef :: byte
  ss_PartNo :: nat
  ss_TotalParts :: nat
  ss_RawPDU :: "byte list"
  ss_PDUHash :: string
  ss_ReceivedAt :: timestamp

record Change =
  ch_Seq :: nat
  ch_EntityType :: string
  ch_EntityID :: string
  ch_Operation :: string

record Thread =
  th_Key :: string
  th_Peer :: string
  th_UnreadCount :: nat
  th_LastMessage :: Message

text \<open>The tables. A call row carries its \<^verbatim>\<open>deleted_at\<close>; \<open>db_lastSeq\<close> is the \<^verbatim>\<open>AUTOINCREMENT\<close> counter.\<close>

type_synonym idempotency_key = "string \<times> string \<times> string"

record Tables =
  db_devices :: "Device list"
  db_tokens :: "DeviceToken list"
  db_idempotency :: "(idempotency_key \<times> nat \<times> string) list"
  db_messages :: "Message list"
  db_segments :: "SMSSegment list"
  db_calls :: "CallRow list"
  db_recordings :: "Recording list"
  db_settings :: "RecordingSettings option"
  db_syncLog :: "Change list"
  db_lastSeq :: nat
  db_audit :: "(string \<times> string \<times> string \<times> string) list"

definition empty_tables :: Tables where
  "empty_tables = \<lparr>db_devices = [], db_tokens = [], db_idempotency = [], db_messages = [],
     db_segments = [], db_calls = [], db_recordings = [], db_settings = None, db_syncLog = [],
     db_lastSeq = 0, db_audit = []\<rparr>"

section \<open>Driver calls and transactions\<close>

datatype db_error = DriverFailure | NoRows | ConstraintFailed | TokenRevoked | BadArgument

type_synonym db_state = "Tables \<times> bool list"
type_synonym 'a stmt = "Tables \<Rightarrow> (db_error, 'a) result \<times> Tables"
type_synonym 'a db_op = "db_state \<Rightarrow> (db_error, 'a) result \<times> db_state"

definition driver :: "'a stmt \<Rightarrow> 'a db_op" where
  "driver f s =
     (case s of (t, faults) \<Rightarrow>
        if faults \<noteq> [] \<and> hd faults then (Inl DriverFailure, t, tl faults)
        else (case f t of (r, t') \<Rightarrow> (r, t', tl faults)))"

definition query :: "(Tables \<Rightarrow> 'a) \<Rightarrow> 'a db_op" where
  "query f = driver (\<lambda>t. (Inr (f t), t))"

definition give :: "'a \<Rightarrow> 'a db_op" where
  "give a s = (Inr a, s)"

definition fail :: "db_error \<Rightarrow> 'a db_op" where
  "fail e s = (Inl e, s)"

definition then_do :: "'a db_op \<Rightarrow> ('a \<Rightarrow> 'b db_op) \<Rightarrow> 'b db_op" where
  "then_do m k s = (case m s of (Inl e, s') \<Rightarrow> (Inl e, s') | (Inr a, s') \<Rightarrow> k a s')"

text \<open>\<^verbatim>\<open>BeginTx\<close>, the body, \<^verbatim>\<open>Commit\<close>; the deferred \<^verbatim>\<open>Rollback\<close> restores the tables on any failure.\<close>

definition transaction :: "'a db_op \<Rightarrow> 'a db_op" where
  "transaction body s =
     (case then_do (driver (\<lambda>t. (Inr (), t)))
             (\<lambda>_. then_do body (\<lambda>a. driver (\<lambda>t. (Inr a, t)))) s of
        (Inl e, _, faults) \<Rightarrow> (Inl e, fst s, faults)
      | (Inr a, s') \<Rightarrow> (Inr a, s'))"

text \<open>\<^verbatim>\<open>UPDATE\<close> on the rows that satisfy \<open>P\<close>; \<^verbatim>\<open>RowsAffected() == 0\<close> reported as \<^verbatim>\<open>sql.ErrNoRows\<close>.\<close>

definition update_rows :: "('r \<Rightarrow> bool) \<Rightarrow> ('r \<Rightarrow> 'r) \<Rightarrow> 'r list \<Rightarrow> 'r list" where
  "update_rows P f rows = map (\<lambda>r. if P r then f r else r) rows"

definition require_rows :: "bool \<Rightarrow> unit db_op" where
  "require_rows found = (if found then give () else fail NoRows)"


definition log_change :: "string \<Rightarrow> string \<Rightarrow> string \<Rightarrow> Tables \<Rightarrow> Tables" where
  "log_change entityType entityID operation t =
     t\<lparr>db_lastSeq := Suc (db_lastSeq t), db_syncLog := db_syncLog t @
         [\<lparr>ch_Seq = Suc (db_lastSeq t), ch_EntityType = entityType, ch_EntityID = entityID,
           ch_Operation = operation\<rparr>]\<rparr>"

definition appendSyncLog :: "string \<Rightarrow> string \<Rightarrow> string \<Rightarrow> nat db_op" where
  "appendSyncLog entityType entityID operation =
     driver (\<lambda>t. (Inr (Suc (db_lastSeq t)), log_change entityType entityID operation t))"

section \<open>Devices and tokens\<close>

definition insert_device :: "Device \<Rightarrow> unit stmt" where
  "insert_device d t =
     (if list_ex (\<lambda>r. dv_ID r = dv_ID d) (db_devices t) then (Inl ConstraintFailed, t)
      else (Inr (), t\<lparr>db_devices := db_devices t @ [d]\<rparr>))"

definition CreateDevice :: "string \<Rightarrow> string \<Rightarrow> byte list \<Rightarrow> unit db_op" where
  "CreateDevice deviceID name publicKey = driver (insert_device
     \<lparr>dv_ID = deviceID, dv_Name = name, dv_PublicKey = publicKey, dv_PushToken = None,
      dv_VoIPToken = None, dv_PushEnvironment = None, dv_PushLocale = None, dv_RevokedAt = None\<rparr>)"

definition insert_token :: "DeviceToken \<Rightarrow> unit stmt" where
  "insert_token k t =
     (if list_ex (\<lambda>r. tk_Hash r = tk_Hash k) (db_tokens t) \<or>
         \<not> list_ex (\<lambda>d. dv_ID d = tk_DeviceID k) (db_devices t) \<or>
         tk_Kind k \<notin> {''access'', ''refresh''} then (Inl ConstraintFailed, t)
      else (Inr (), t\<lparr>db_tokens := db_tokens t @ [k]\<rparr>))"

definition StoreToken ::
  "byte list \<Rightarrow> string \<Rightarrow> string \<Rightarrow> timestamp \<Rightarrow> timestamp \<Rightarrow> unit db_op" where
  "StoreToken tokenHash deviceID kind createdAt expiresAt = driver (insert_token
     \<lparr>tk_Hash = tokenHash, tk_DeviceID = deviceID, tk_Kind = kind, tk_CreatedAt = createdAt,
      tk_ExpiresAt = expiresAt, tk_RevokedAt = None\<rparr>)"

text \<open>The join of \<^verbatim>\<open>LookupToken\<close>: the token's row and its device's.\<close>

definition token_row ::
  "byte list \<Rightarrow> string \<Rightarrow> timestamp \<Rightarrow> Tables \<Rightarrow> (DeviceToken \<times> Device) option" where
  "token_row tokenHash kind now t =
     (case find (\<lambda>k. tk_Hash k = tokenHash \<and> tk_Kind k = kind \<and> now < tk_ExpiresAt k) (db_tokens t) of
        None \<Rightarrow> None
      | Some k \<Rightarrow> (case find (\<lambda>d. dv_ID d = tk_DeviceID k) (db_devices t) of
                    None \<Rightarrow> None | Some d \<Rightarrow> Some (k, d)))"

definition LookupToken :: "byte list \<Rightarrow> string \<Rightarrow> timestamp \<Rightarrow> string db_op" where
  "LookupToken tokenHash kind now =
     then_do (query (token_row tokenHash kind now)) (\<lambda>row.
       case row of
         None \<Rightarrow> fail NoRows
       | Some (k, d) \<Rightarrow>
           if tk_RevokedAt k \<noteq> None \<or> dv_RevokedAt d \<noteq> None then fail TokenRevoked
           else give (tk_DeviceID k))"

definition RevokeToken :: "timestamp \<Rightarrow> byte list \<Rightarrow> string \<Rightarrow> unit db_op" where
  "RevokeToken now tokenHash kind =
     (let P = (\<lambda>k. tk_Hash k = tokenHash \<and> tk_Kind k = kind \<and> tk_RevokedAt k = None)
      in then_do (driver (\<lambda>t. (Inr (list_ex P (db_tokens t)),
              t\<lparr>db_tokens := update_rows P (\<lambda>k. k\<lparr>tk_RevokedAt := Some now\<rparr>) (db_tokens t)\<rparr>)))
           require_rows)"

definition RevokeDevice :: "timestamp \<Rightarrow> string \<Rightarrow> unit db_op" where
  "RevokeDevice now deviceID = transaction
     (let P = (\<lambda>d. dv_ID d = deviceID \<and> dv_RevokedAt d = None)
      in then_do (driver (\<lambda>t. (Inr (list_ex P (db_devices t)),
              t\<lparr>db_devices := update_rows P (\<lambda>d. d\<lparr>dv_RevokedAt := Some now\<rparr>) (db_devices t)\<rparr>)))
           (\<lambda>found. then_do (require_rows found)
           (\<lambda>_. driver (\<lambda>t. (Inr (), t\<lparr>db_tokens :=
              update_rows (\<lambda>k. tk_DeviceID k = deviceID) (\<lambda>k. k\<lparr>tk_RevokedAt := Some now\<rparr>)
                (db_tokens t)\<rparr>)))))"

definition AppendAudit :: "string \<Rightarrow> string \<Rightarrow> string \<Rightarrow> string \<Rightarrow> unit db_op" where
  "AppendAudit deviceID action target result_text =
     driver (\<lambda>t. (Inr (), t\<lparr>db_audit := db_audit t @ [(deviceID, action, target, result_text)]\<rparr>))"

definition RegisterPush :: "string \<Rightarrow> string \<Rightarrow> string \<Rightarrow> string \<Rightarrow> string \<Rightarrow> unit db_op" where
  "RegisterPush deviceID apnsToken voipToken environment locale_name =
     (let P = (\<lambda>d. dv_ID d = deviceID \<and> dv_RevokedAt d = None)
      in then_do (driver (\<lambda>t. (Inr (list_ex P (db_devices t)),
              t\<lparr>db_devices := update_rows P
                 (\<lambda>d. d\<lparr>dv_PushToken := Some apnsToken, dv_VoIPToken := Some voipToken,
                         dv_PushEnvironment := Some environment, dv_PushLocale := Some locale_name\<rparr>)
                 (db_devices t)\<rparr>)))
           require_rows)"

definition push_target :: "Device \<Rightarrow> PushTarget" where
  "push_target d = \<lparr>pt_DeviceID = dv_ID d, pt_APNSToken = the (dv_PushToken d),
     pt_VoIPToken = the (dv_VoIPToken d),
     pt_Environment = (case dv_PushEnvironment d of None \<Rightarrow> [] | Some e \<Rightarrow> e),
     pt_Locale = (case dv_PushLocale d of None \<Rightarrow> [] | Some l \<Rightarrow> l)\<rparr>"

definition ListPushTargets :: "PushTarget list db_op" where
  "ListPushTargets = query (\<lambda>t. map push_target (filter
     (\<lambda>d. dv_RevokedAt d = None \<and> dv_PushToken d \<noteq> None \<and> dv_VoIPToken d \<noteq> None) (db_devices t)))"

section \<open>Idempotency records\<close>

definition insert_claim :: "idempotency_key \<Rightarrow> bool stmt" where
  "insert_claim key t =
     (if list_ex (\<lambda>(k, _). k = key) (db_idempotency t) then (Inr False, t)
      else (Inr True, t\<lparr>db_idempotency := db_idempotency t @ [(key, 102, [])]\<rparr>))"

definition ClaimIdempotency ::
  "string \<Rightarrow> string \<Rightarrow> string \<Rightarrow> (bool \<times> IdempotencyRecord) db_op" where
  "ClaimIdempotency deviceID operation requestKey = transaction
     (then_do (driver (insert_claim (deviceID, operation, requestKey))) (\<lambda>changed.
        if changed then give (True, \<lparr>ir_StatusCode = 102, ir_Body = [], ir_Pending = True\<rparr>)
        else then_do (query (\<lambda>t. map_of (db_idempotency t) (deviceID, operation, requestKey))) (\<lambda>row.
          case row of
            None \<Rightarrow> fail NoRows
          | Some (code, body) \<Rightarrow>
              give (False, \<lparr>ir_StatusCode = code, ir_Body = body, ir_Pending = (code = 102)\<rparr>))))"

definition CompleteIdempotency ::
  "string \<Rightarrow> string \<Rightarrow> string \<Rightarrow> nat \<Rightarrow> string \<Rightarrow> unit db_op" where
  "CompleteIdempotency deviceID operation requestKey statusCode body =
     (let P = (\<lambda>(k, _). k = (deviceID, operation, requestKey))
      in then_do (driver (\<lambda>t. (Inr (list_ex P (db_idempotency t)),
              t\<lparr>db_idempotency := update_rows P (\<lambda>(k, _). (k, statusCode, body)) (db_idempotency t)\<rparr>)))
           require_rows)"

section \<open>Calls\<close>

text \<open>The \<^verbatim>\<open>ON CONFLICT\<close> update keeps the recording columns the new row leaves empty.\<close>

definition merge_call :: "CallRecord \<Rightarrow> CallRecord \<Rightarrow> CallRecord" where
  "merge_call new old = new\<lparr>
     cl_RecordingID := (if cl_RecordingID new = [] then cl_RecordingID old else cl_RecordingID new),
     cl_RecordingState := (if cl_RecordingState new = [] then cl_RecordingState old
                           else cl_RecordingState new),
     cl_RecordingDurationMs := (if cl_RecordingDurationMs new = None then cl_RecordingDurationMs old
                                else cl_RecordingDurationMs new)\<rparr>"

abbreviation call_row :: "string \<Rightarrow> CallRow \<Rightarrow> bool" where
  "call_row i r \<equiv> cl_ID (cw_Call r) = i"

definition upsert_call :: "CallRecord \<Rightarrow> unit stmt" where
  "upsert_call c t =
     (if cl_Direction c \<notin> {''inbound'', ''outbound''} then (Inl ConstraintFailed, t)
      else if list_ex (call_row (cl_ID c)) (db_calls t)
      then (Inr (), t\<lparr>db_calls := update_rows (call_row (cl_ID c))
              (\<lambda>r. r\<lparr>cw_Call := merge_call c (cw_Call r)\<rparr>) (db_calls t)\<rparr>)
      else (Inr (), t\<lparr>db_calls := db_calls t @ [\<lparr>cw_Call = c, cw_DeletedAt = None\<rparr>]\<rparr>))"

definition SaveCall :: "CallRecord \<Rightarrow> nat db_op" where
  "SaveCall call = transaction
     (then_do (appendSyncLog ''call'' (cl_ID call) ''upsert'') (\<lambda>seq.
      then_do (driver (upsert_call (call\<lparr>cl_SyncSeq := seq\<rparr>))) (\<lambda>_. give seq)))"

definition GetCall :: "string \<Rightarrow> CallRecord db_op" where
  "GetCall callID =
     then_do (query (\<lambda>t. find (call_row callID) (db_calls t))) (\<lambda>row.
       case row of None \<Rightarrow> fail NoRows | Some r \<Rightarrow> give (cw_Call r))"

definition ListCalls :: "int \<Rightarrow> CallRecord list db_op" where
  "ListCalls limit =
     (if limit < 1 \<or> 500 < limit then fail BadArgument
      else query (\<lambda>t. take (nat limit) (rev (sort_key cl_StartedAt
             (map cw_Call (filter (\<lambda>r. cw_DeletedAt r = None) (db_calls t)))))))"

definition db_DeleteCall :: "timestamp \<Rightarrow> string \<Rightarrow> nat db_op" where
  "db_DeleteCall now callID = transaction
     (let P = (\<lambda>r. call_row callID r \<and> cw_DeletedAt r = None)
      in then_do (driver (\<lambda>t. (Inr (list_ex P (db_calls t)),
              t\<lparr>db_calls := update_rows P (\<lambda>r. r\<lparr>cw_DeletedAt := Some now\<rparr>) (db_calls t)\<rparr>)))
           (\<lambda>found. then_do (require_rows found)
           (\<lambda>_. then_do (appendSyncLog ''call'' callID ''delete'')
           (\<lambda>seq. driver (\<lambda>t. (Inr seq, t\<lparr>db_calls := update_rows (call_row callID)
              (\<lambda>r. r\<lparr>cw_Call := (cw_Call r)\<lparr>cl_SyncSeq := seq\<rparr>\<rparr>) (db_calls t)\<rparr>))))))"

definition UpdateCallRecording :: "string \<Rightarrow> string \<Rightarrow> string \<Rightarrow> int option \<Rightarrow> unit db_op" where
  "UpdateCallRecording callID recordingID state durationMs = transaction
     (then_do (appendSyncLog ''call'' callID ''upsert'') (\<lambda>seq.
         then_do (driver (\<lambda>t. (Inr (list_ex (call_row callID) (db_calls t)),
              t\<lparr>db_calls := update_rows (call_row callID)
                 (\<lambda>r. r\<lparr>cw_Call := (cw_Call r)\<lparr>cl_RecordingID := recordingID, cl_RecordingState := state,
                    cl_RecordingDurationMs := durationMs, cl_SyncSeq := seq\<rparr>\<rparr>) (db_calls t)\<rparr>)))
           require_rows))"

section \<open>Recordings\<close>

definition EnsureRecordingSettings :: "timestamp \<Rightarrow> RecordingSettings \<Rightarrow> unit db_op" where
  "EnsureRecordingSettings now settings = driver (\<lambda>t.
     (Inr (), if db_settings t = None
        then t\<lparr>db_settings := Some (settings\<lparr>st_UpdatedAt :=
                 if st_UpdatedAt settings = 0 then now else st_UpdatedAt settings\<rparr>)\<rparr>
        else t))"

definition GetRecordingSettings :: "RecordingSettings db_op" where
  "GetRecordingSettings = then_do (query db_settings) (\<lambda>row.
     case row of None \<Rightarrow> fail NoRows | Some settings \<Rightarrow> give settings)"

definition SaveRecordingSettings :: "timestamp \<Rightarrow> RecordingSettings \<Rightarrow> unit db_op" where
  "SaveRecordingSettings now settings = driver (\<lambda>t.
     (Inr (), t\<lparr>db_settings := Some (settings\<lparr>st_UpdatedAt :=
        if st_UpdatedAt settings = 0 then now else st_UpdatedAt settings\<rparr>)\<rparr>))"

text \<open>The partial unique index \<^verbatim>\<open>idx_recordings_active_call\<close>.\<close>

definition recording_in_flight :: "Recording \<Rightarrow> bool" where
  "recording_in_flight r = (rc_State r \<in> {''starting'', ''recording'', ''finalizing''})"

definition clashes :: "Recording \<Rightarrow> Recording \<Rightarrow> bool" where
  "clashes r other = (recording_in_flight r \<and> recording_in_flight other \<and>
     rc_CallID other = rc_CallID r \<and> rc_ID other \<noteq> rc_ID r)"

definition upsert_recording :: "Recording \<Rightarrow> unit stmt" where
  "upsert_recording r t =
     (case find (\<lambda>old. rc_ID old = rc_ID r) (db_recordings t) of
        Some old \<Rightarrow>
          let new = r\<lparr>rc_CallID := rc_CallID old, rc_CreatedAt := rc_CreatedAt old\<rparr>
          in if list_ex (clashes new) (db_recordings t) then (Inl ConstraintFailed, t)
             else (Inr (), t\<lparr>db_recordings :=
                    update_rows (\<lambda>old. rc_ID old = rc_ID r) (\<lambda>_. new) (db_recordings t)\<rparr>)
      | None \<Rightarrow>
          if list_ex (clashes r) (db_recordings t) \<or>
             \<not> list_ex (call_row (rc_CallID r)) (db_calls t) then (Inl ConstraintFailed, t)
          else (Inr (), t\<lparr>db_recordings := db_recordings t @ [r]\<rparr>))"

definition SaveRecording :: "timestamp \<Rightarrow> Recording \<Rightarrow> nat db_op" where
  "SaveRecording clock recording = transaction
     (then_do (appendSyncLog ''recording'' (rc_ID recording) ''upsert'') (\<lambda>seq.
        let now = (if rc_UpdatedAt recording = 0 then clock else rc_UpdatedAt recording);
            created = (if rc_CreatedAt recording = 0 then now else rc_CreatedAt recording)
        in then_do (driver (upsert_recording (recording\<lparr>rc_CreatedAt := created, rc_UpdatedAt := now,
                              rc_SyncSeq := seq\<rparr>)))
             (\<lambda>_. give seq)))"

definition GetRecording :: "string \<Rightarrow> Recording db_op" where
  "GetRecording recordingID =
     then_do (query (\<lambda>t. find (\<lambda>r. rc_ID r = recordingID) (db_recordings t))) (\<lambda>row.
       case row of None \<Rightarrow> fail NoRows | Some r \<Rightarrow> give r)"

definition GetRecordingByCall :: "string \<Rightarrow> Recording db_op" where
  "GetRecordingByCall callID =
     then_do (query (\<lambda>t. rev (sort_key rc_CreatedAt
         (filter (\<lambda>r. rc_CallID r = callID \<and> rc_State r \<noteq> ''deleted'') (db_recordings t))))) (\<lambda>rows.
       case rows of [] \<Rightarrow> fail NoRows | r # _ \<Rightarrow> give r)"

text \<open>SQL's \<^verbatim>\<open>LIKE\<close>: \<open>%\<close> matches any run, \<open>_\<close> one character, letters in either case.\<close>

fun sql_like :: "string \<Rightarrow> string \<Rightarrow> bool" where
  "sql_like [] s = (s = [])"
| "sql_like (p # ps) [] = (p = CHR ''%'' \<and> sql_like ps [])"
| "sql_like (p # ps) (c # s) =
     (if p = CHR ''%'' then sql_like ps (c # s) \<or> sql_like (p # ps) s
      else (p = CHR ''_'' \<or> to_lower_char p = to_lower_char c) \<and> sql_like ps s)"

definition listed_recording ::
  "int \<Rightarrow> string \<Rightarrow> string \<Rightarrow> timestamp option \<Rightarrow> timestamp option \<Rightarrow> Tables \<Rightarrow> Recording \<Rightarrow> bool" where
  "listed_recording after direction search since till t r =
     (rc_State r \<noteq> ''deleted'' \<and> after < int (rc_SyncSeq r) \<and>
      (direction = [] \<or>
       list_ex (\<lambda>c. call_row (rc_CallID r) c \<and> cl_Direction (cw_Call c) = direction) (db_calls t)) \<and>
      (search = [] \<or>
       list_ex (\<lambda>c. call_row (rc_CallID r) c \<and> sql_like (''%'' @ search @ ''%'') (cl_Peer (cw_Call c)))
         (db_calls t)) \<and>
      (case since of None \<Rightarrow> True | Some ts \<Rightarrow> ts \<le> rc_CreatedAt r) \<and>
      (case till of None \<Rightarrow> True | Some ts \<Rightarrow> rc_CreatedAt r \<le> ts))"

definition ListRecordings ::
  "int \<Rightarrow> int \<Rightarrow> string \<Rightarrow> string \<Rightarrow> timestamp option \<Rightarrow> timestamp option \<Rightarrow> Recording list db_op" where
  "ListRecordings after limit direction search since till =
     (if limit < 1 \<or> 500 < limit then fail BadArgument
      else if direction \<notin> {[], ''inbound'', ''outbound''} then fail BadArgument
      else query (\<lambda>t. take (nat limit) (rev (sort_key rc_CreatedAt
             (filter (listed_recording after direction search since till t) (db_recordings t))))))"

section \<open>Messages\<close>

definition ListMessages :: "int \<Rightarrow> int \<Rightarrow> Message list db_op" where
  "ListMessages after limit =
     (if limit < 1 \<or> 500 < limit then fail BadArgument
      else query (\<lambda>t. take (nat limit) (sort_key ms_CreatedAt
             (filter (\<lambda>m. after < int (ms_SyncSeq m)) (db_messages t)))))"

text \<open>The order of a thread, and the condition of a cursor \<open>(createdAt, id)\<close>.\<close>

definition thread_key :: "Message \<Rightarrow> int \<times> string" where
  "thread_key m = (int (ms_CreatedAt m), ms_ID m)"

definition before_cursor :: "int option \<Rightarrow> string \<Rightarrow> Message \<Rightarrow> bool" where
  "before_cursor beforeCreatedAt beforeID m =
     (case beforeCreatedAt of
        None \<Rightarrow> True
      | Some c \<Rightarrow> int (ms_CreatedAt m) < c \<or> (int (ms_CreatedAt m) = c \<and> ms_ID m < beforeID))"

definition ListThreadMessages ::
  "string \<Rightarrow> int option \<Rightarrow> string \<Rightarrow> int \<Rightarrow> Message list db_op" where
  "ListThreadMessages threadKey beforeCreatedAt beforeID limit =
     (if trim_space threadKey = [] then fail BadArgument
      else if limit < 1 \<or> 501 < limit then fail BadArgument
      else query (\<lambda>t. rev (take (nat limit) (rev (sort_key thread_key
             (filter (\<lambda>m. ms_ThreadKey m = threadKey \<and> before_cursor beforeCreatedAt beforeID m)
                (db_messages t)))))))"

text \<open>The loop of \<^verbatim>\<open>ListThreads\<close>: the first row of a thread is its newest message.\<close>

definition thread_unread :: "Message \<Rightarrow> bool" where
  "thread_unread m = (ms_Direction m = ''inbound'' \<and> ms_Status m \<noteq> ''read'')"

definition listed_message :: "Message \<Rightarrow> Message" where
  "listed_message m = m\<lparr>ms_ServiceTime := None, ms_ModemStorage := [], ms_ModemIndex := None,
     ms_PDUHash := [], ms_SyncSeq := 0\<rparr>"

definition thread_row :: "Thread list \<Rightarrow> Message \<Rightarrow> Thread list" where
  "thread_row threads m =
     update_rows (\<lambda>th. th_Key th = ms_ThreadKey m \<and> thread_unread m)
       (\<lambda>th. th\<lparr>th_UnreadCount := Suc (th_UnreadCount th)\<rparr>)
       (if list_ex (\<lambda>th. th_Key th = ms_ThreadKey m) threads then threads
        else threads @ [\<lparr>th_Key = ms_ThreadKey m, th_Peer = ms_Peer m, th_UnreadCount = 0,
                         th_LastMessage = listed_message m\<rparr>])"

definition ListThreads :: "Thread list db_op" where
  "ListThreads = query (\<lambda>t. foldl thread_row []
     (sort_key (\<lambda>m. (ms_ThreadKey m, - int (ms_CreatedAt m))) (db_messages t)))"

definition MarkMessageRead :: "string \<Rightarrow> unit db_op" where
  "MarkMessageRead messageID = transaction
     (let P = (\<lambda>m. ms_ID m = messageID)
      in then_do (driver (\<lambda>t. (Inr (list_ex P (db_messages t)),
              t\<lparr>db_messages := update_rows P (\<lambda>m. m\<lparr>ms_Status := ''read'', ms_SyncSeq := 0\<rparr>)
                 (db_messages t)\<rparr>)))
           (\<lambda>found. then_do (require_rows found)
           (\<lambda>_. then_do (appendSyncLog ''message'' messageID ''upsert'')
           (\<lambda>seq. driver (\<lambda>t. (Inr (), t\<lparr>db_messages :=
              update_rows P (\<lambda>m. m\<lparr>ms_SyncSeq := seq\<rparr>) (db_messages t)\<rparr>))))))"

definition DeleteMessage :: "string \<Rightarrow> unit db_op" where
  "DeleteMessage messageID = transaction
     (then_do (driver (\<lambda>t. (Inr (list_ex (\<lambda>m. ms_ID m = messageID) (db_messages t)),
              t\<lparr>db_messages := filter (\<lambda>m. ms_ID m \<noteq> messageID) (db_messages t)\<rparr>)))
           (\<lambda>found. then_do (require_rows found)
           (\<lambda>_. then_do (appendSyncLog ''message'' messageID ''delete'') (\<lambda>_. give ()))))"

definition insert_message :: "Message \<Rightarrow> unit stmt" where
  "insert_message m t =
     (if ms_Direction m \<notin> {''inbound'', ''outbound''} \<or>
         list_ex (\<lambda>r. ms_ID r = ms_ID m \<or> (ms_PDUHash m \<noteq> [] \<and> ms_PDUHash r = ms_PDUHash m))
           (db_messages t)
      then (Inl ConstraintFailed, t)
      else (Inr (), t\<lparr>db_messages := db_messages t @ [m]\<rparr>))"

definition InsertMessage :: "Message \<Rightarrow> nat db_op" where
  "InsertMessage message = transaction
     (then_do (appendSyncLog ''message'' (ms_ID message) ''upsert'') (\<lambda>seq.
      then_do (driver (insert_message (message\<lparr>ms_SyncSeq := seq\<rparr>))) (\<lambda>_. give seq)))"

definition UpdateMessageStatus :: "string \<Rightarrow> string \<Rightarrow> nat db_op" where
  "UpdateMessageStatus messageID status =
     (if trim_space messageID = [] \<or> trim_space status = [] then fail BadArgument
      else transaction
        (let P = (\<lambda>m. ms_ID m = messageID)
         in then_do (appendSyncLog ''message'' messageID ''upsert'') (\<lambda>seq.
            then_do (driver (\<lambda>t. (Inr (list_ex P (db_messages t)),
                 t\<lparr>db_messages := update_rows P (\<lambda>m. m\<lparr>ms_Status := status, ms_SyncSeq := seq\<rparr>)
                    (db_messages t)\<rparr>)))
              (\<lambda>found. then_do (require_rows found) (\<lambda>_. give seq)))))"

definition MessageExistsByPDUHash :: "string \<Rightarrow> bool db_op" where
  "MessageExistsByPDUHash pduHash = query (\<lambda>t.
     list_ex (\<lambda>m. ms_PDUHash m \<noteq> [] \<and> ms_PDUHash m = pduHash) (db_messages t))"

section \<open>SMS segments\<close>

definition insert_segment :: "SMSSegment \<Rightarrow> unit stmt" where
  "insert_segment g t =
     (if list_ex (\<lambda>r. ss_ID r = ss_ID g \<or> ss_PDUHash r = ss_PDUHash g) (db_segments t)
      then (Inl ConstraintFailed, t)
      else (Inr (), t\<lparr>db_segments := db_segments t @ [g]\<rparr>))"

definition InsertSMSSegment :: "SMSSegment \<Rightarrow> unit db_op" where
  "InsertSMSSegment segment = driver (insert_segment segment)"

definition ListPendingSMSSegments :: "string \<Rightarrow> byte \<Rightarrow> nat \<Rightarrow> SMSSegment list db_op" where
  "ListPendingSMSSegments sender concatRef totalParts = query (\<lambda>t. sort_key ss_PartNo
     (filter (\<lambda>g. ss_MessageID g = None \<and> ss_Sender g = sender \<and> ss_ConcatRef g = concatRef \<and>
        ss_TotalParts g = totalParts) (db_segments t)))"

definition LinkSMSSegment :: "string \<Rightarrow> string \<Rightarrow> unit db_op" where
  "LinkSMSSegment pduHash messageID = driver (\<lambda>t. (Inr (), t\<lparr>db_segments :=
     update_rows (\<lambda>g. ss_PDUHash g = pduHash \<and> ss_MessageID g = None)
       (\<lambda>g. g\<lparr>ss_MessageID := Some messageID\<rparr>) (db_segments t)\<rparr>))"

definition PrunePendingSMSSegments :: "timestamp \<Rightarrow> unit db_op" where
  "PrunePendingSMSSegments before = driver (\<lambda>t. (Inr (), t\<lparr>db_segments :=
     filter (\<lambda>g. \<not> (ss_MessageID g = None \<and> ss_ReceivedAt g < before)) (db_segments t)\<rparr>))"

definition SMSSegmentExistsByPDUHash :: "string \<Rightarrow> bool db_op" where
  "SMSSegmentExistsByPDUHash pduHash =
     query (\<lambda>t. list_ex (\<lambda>g. ss_PDUHash g = pduHash) (db_segments t))"

section \<open>Synchronisation\<close>

definition AppendChange :: "string \<Rightarrow> string \<Rightarrow> string \<Rightarrow> nat db_op" where
  "AppendChange entityType entityID operation = appendSyncLog entityType entityID operation"

definition Sync :: "int \<Rightarrow> int \<Rightarrow> Change list db_op" where
  "Sync after limit =
     (if limit < 1 \<or> 500 < limit then fail BadArgument
      else query (\<lambda>t. take (nat limit)
             (sort_key ch_Seq (filter (\<lambda>c. after < int (ch_Seq c)) (db_syncLog t)))))"

end
