(* ===== verification/Db_Invariants.thy ===== *)
theory Db_Invariants
  imports Gateway_Db
begin

text \<open>
  What the store of \<^verbatim>\<open>gateway/internal/db/db.go\<close> promises under every interleaving of its operations and
  every pattern of driver failures: operations are all or nothing, keys stay unique, references stay
  valid, and the synchronisation log tells a client exactly which messages there are.
\<close>

section \<open>Rules for programs over driver calls\<close>

text \<open>\<open>wp m Q t\<close>: a successful run of \<open>m\<close> from \<open>t\<close> ends with \<open>Q\<close>. \<open>preserves I m\<close>: every run keeps \<open>I\<close>.
  \<open>atomic m\<close>: a failed run leaves the tables as they were.\<close>

definition wp :: "'a db_op \<Rightarrow> ('a \<Rightarrow> Tables \<Rightarrow> bool) \<Rightarrow> Tables \<Rightarrow> bool" where
  "wp m Q t \<longleftrightarrow> (\<forall>faults a t' faults'. m (t, faults) = (Inr a, t', faults') \<longrightarrow> Q a t')"

definition preserves :: "(Tables \<Rightarrow> bool) \<Rightarrow> 'a db_op \<Rightarrow> bool" where
  "preserves I m \<longleftrightarrow> (\<forall>t faults r t' faults'. I t \<longrightarrow> m (t, faults) = (r, t', faults') \<longrightarrow> I t')"

definition atomic :: "'a db_op \<Rightarrow> bool" where
  "atomic m \<longleftrightarrow> (\<forall>t faults e t' faults'. m (t, faults) = (Inl e, t', faults') \<longrightarrow> t' = t)"

lemma wpI: "(\<And>faults a t' faults'. m (t, faults) = (Inr a, t', faults') \<Longrightarrow> Q a t') \<Longrightarrow> wp m Q t"
  unfolding wp_def by blast

lemma wpD: "wp m Q t \<Longrightarrow> m (t, faults) = (Inr a, t', faults') \<Longrightarrow> Q a t'"
  unfolding wp_def by blast

lemma preservesI:
  "(\<And>t faults r t' faults'. I t \<Longrightarrow> m (t, faults) = (r, t', faults') \<Longrightarrow> I t') \<Longrightarrow> preserves I m"
  unfolding preserves_def by blast

lemma preservesD: "preserves I m \<Longrightarrow> m (t, faults) = (r, t', faults') \<Longrightarrow> I t \<Longrightarrow> I t'"
  unfolding preserves_def by blast

lemma atomicI: "(\<And>t faults e t' faults'. m (t, faults) = (Inl e, t', faults') \<Longrightarrow> t' = t) \<Longrightarrow> atomic m"
  unfolding atomic_def by blast

lemma atomicD: "atomic m \<Longrightarrow> m (t, faults) = (Inl e, t', faults') \<Longrightarrow> t' = t"
  unfolding atomic_def by blast

named_theorems op_rules \<open>rules that decompose a program over driver calls\<close>

lemma driver_Inr:
  "driver f (t, faults) = (Inr a, t', faults') \<Longrightarrow> f t = (Inr a, t')"
  by (auto simp: driver_def split: if_splits prod.splits)

lemma driver_cases:
  "driver f (t, faults) = (r, t', faults') \<Longrightarrow> (t' = t \<and> r = Inl DriverFailure) \<or> f t = (r, t')"
  by (auto simp: driver_def split: if_splits prod.splits)

lemma wp_driver [op_rules]: "(\<And>a t'. f t = (Inr a, t') \<Longrightarrow> Q a t') \<Longrightarrow> wp (driver f) Q t"
  by (auto intro!: wpI dest!: driver_Inr)

lemma preserves_driver [op_rules]:
  "(\<And>t r t'. I t \<Longrightarrow> f t = (r, t') \<Longrightarrow> I t') \<Longrightarrow> preserves I (driver f)"
  by (rule preservesI) (metis driver_cases)

lemma atomic_driver [op_rules]: "(\<And>t e t'. f t = (Inl e, t') \<Longrightarrow> t' = t) \<Longrightarrow> atomic (driver f)"
  by (rule atomicI) (metis driver_cases)

lemma wp_query [op_rules]: "Q (f t) t \<Longrightarrow> wp (query f) Q t"
  by (auto simp: query_def intro!: wp_driver)

lemma preserves_query [op_rules]: "preserves I (query f)"
  by (auto simp: query_def intro!: preserves_driver)

lemma atomic_query [op_rules]: "atomic (query f)"
  by (auto simp: query_def intro!: atomic_driver)

lemma wp_log [op_rules]:
  "Q (Suc (db_lastSeq t)) (log_change ty i opn t) \<Longrightarrow> wp (appendSyncLog ty i opn) Q t"
  by (auto simp: appendSyncLog_def intro!: wp_driver)

lemma wp_give [op_rules]: "Q a t \<Longrightarrow> wp (give a) Q t"
  by (auto simp: give_def intro!: wpI)

lemma wp_fail [op_rules]: "wp (fail e) Q t"
  by (auto simp: fail_def intro!: wpI)

lemma wp_require [op_rules]: "(b \<Longrightarrow> Q () t) \<Longrightarrow> wp (require_rows b) Q t"
  by (auto simp: require_rows_def give_def fail_def intro!: wpI split: if_splits)

lemma preserves_give [op_rules]: "preserves I (give a)"
  by (auto simp: give_def intro!: preservesI)

lemma preserves_fail [op_rules]: "preserves I (fail e)"
  by (auto simp: fail_def intro!: preservesI)

lemma atomic_fail [op_rules]: "atomic (fail e)"
  by (auto simp: fail_def intro!: atomicI)

lemma preserves_require [op_rules]: "preserves I (require_rows b)"
  by (simp add: require_rows_def preserves_give preserves_fail)

lemma then_do_Inr:
  assumes "then_do m k (t, faults) = (Inr b, s')"
  obtains a t1 faults1 where "m (t, faults) = (Inr a, t1, faults1)" and "k a (t1, faults1) = (Inr b, s')"
  using assms by (auto simp: then_do_def split: prod.splits sum.splits)

lemma wp_then [op_rules]: "wp m (\<lambda>a. wp (k a) Q) t \<Longrightarrow> wp (then_do m k) Q t"
  by (rule wpI) (metis then_do_Inr wpD)

lemma preserves_then [op_rules]:
  "preserves I m \<Longrightarrow> (\<And>a. preserves I (k a)) \<Longrightarrow> preserves I (then_do m k)"
  by (rule preservesI) (auto simp: then_do_def split: prod.splits sum.splits dest: preservesD)

lemma wp_if [op_rules]:
  "(b \<Longrightarrow> wp m Q t) \<Longrightarrow> (\<not> b \<Longrightarrow> wp m' Q t) \<Longrightarrow> wp (if b then m else m') Q t"
  by simp

lemma wp_option [op_rules]:
  "(x = None \<Longrightarrow> wp m Q t) \<Longrightarrow> (\<And>a. x = Some a \<Longrightarrow> wp (k a) Q t) \<Longrightarrow>
     wp (case x of None \<Rightarrow> m | Some a \<Rightarrow> k a) Q t"
  by (cases x) simp_all

lemma wp_prod [op_rules]:
  "(\<And>a b. x = (a, b) \<Longrightarrow> wp (k a b) Q t) \<Longrightarrow> wp (case x of (a, b) \<Rightarrow> k a b) Q t"
  by (cases x) simp

lemma preserves_if [op_rules]: "preserves I m \<Longrightarrow> preserves I m' \<Longrightarrow> preserves I (if b then m else m')"
  by simp

lemma atomic_if [op_rules]: "atomic m \<Longrightarrow> atomic m' \<Longrightarrow> atomic (if b then m else m')"
  by simp

text \<open>An update that reports missing rows has changed nothing when it does.\<close>

lemma atomic_update [op_rules]:
  assumes "\<And>t. \<not> found t \<Longrightarrow> g t = t"
  shows "atomic (then_do (driver (\<lambda>t. (Inr (found t), g t))) require_rows)"
  using assms
  by (intro atomicI) (auto simp: then_do_def driver_def require_rows_def give_def fail_def
      split: if_splits prod.splits sum.splits)

text \<open>A transaction needs only its successful runs to keep an invariant, and is always atomic.\<close>

lemma transaction_Inr:
  "transaction body (t, faults) = (Inr a, t', faults') \<Longrightarrow>
     \<exists>faults1 faults2. body (t, faults1) = (Inr a, t', faults2)"
  by (auto simp: transaction_def split: prod.splits sum.splits elim!: then_do_Inr dest!: driver_Inr)

lemma transaction_Inl: "transaction body (t, faults) = (Inl e, t', faults') \<Longrightarrow> t' = t"
  by (auto simp: transaction_def split: prod.splits sum.splits)

lemma atomic_transaction [op_rules]: "atomic (transaction body)"
  by (auto intro!: atomicI dest: transaction_Inl)

lemma preserves_transaction [op_rules]:
  "(\<And>t. I t \<Longrightarrow> wp body (\<lambda>_. I) t) \<Longrightarrow> preserves I (transaction body)"
proof (rule preservesI)
  fix t faults r t' faults'
  assume wp: "\<And>t. I t \<Longrightarrow> wp body (\<lambda>_. I) t" and I: "I t"
    and run: "transaction body (t, faults) = (r, t', faults')"
  show "I t'"
  proof (cases r)
    case (Inl e)
    with run I show ?thesis by (auto dest: transaction_Inl)
  next
    case (Inr a)
    with run obtain f1 f2 where "body (t, f1) = (Inr a, t', f2)" by (auto dest: transaction_Inr)
    with wpD [OF wp [OF I]] show ?thesis by blast
  qed
qed

lemma wp_transaction [op_rules]: "wp body Q t \<Longrightarrow> wp (transaction body) Q t"
  by (rule wpI) (metis transaction_Inr wpD)

section \<open>Rows\<close>

lemma set_update_rows:
  "r \<in> set (update_rows P f rows) \<longleftrightarrow> (\<exists>r0 \<in> set rows. r = (if P r0 then f r0 else r0))"
  by (auto simp: update_rows_def)

lemma set_update_rowsE:
  assumes "r \<in> set (update_rows P f rows)"
  obtains r0 where "r0 \<in> set rows" and "P r0" and "r = f r0" | "r \<in> set rows" and "\<not> P r"
  using assms by (auto simp: update_rows_def split: if_splits)

lemma map_update_rows: "(\<And>r. P r \<Longrightarrow> k (f r) = k r) \<Longrightarrow> map k (update_rows P f rows) = map k rows"
  by (auto simp: update_rows_def)

lemma update_rows_none: "\<not> list_ex P rows \<Longrightarrow> update_rows P f rows = rows"
  by (induction rows) (auto simp: update_rows_def)

lemma list_ex_iff_Bex: "list_ex P rows \<longleftrightarrow> (\<exists>r \<in> set rows. P r)"
  by (simp add: list_ex_iff)

text \<open>The last entry of the synchronisation log on an entity.\<close>

definition last_change :: "string \<Rightarrow> string \<Rightarrow> Tables \<Rightarrow> Change option" where
  "last_change ty i t = find (\<lambda>c. ch_EntityType c = ty \<and> ch_EntityID c = i) (rev (db_syncLog t))"

lemma last_change_log [simp]:
  "last_change ty i (log_change ty' i' opn t) =
     (if ty' = ty \<and> i' = i then Some \<lparr>ch_Seq = Suc (db_lastSeq t), ch_EntityType = ty, ch_EntityID = i,
        ch_Operation = opn\<rparr> else last_change ty i t)"
  by (auto simp: last_change_def log_change_def)

lemma last_change_frame [simp]:
  "last_change ty i (t\<lparr>db_devices := ds\<rparr>) = last_change ty i t"
  "last_change ty i (t\<lparr>db_tokens := ks\<rparr>) = last_change ty i t"
  "last_change ty i (t\<lparr>db_idempotency := is\<rparr>) = last_change ty i t"
  "last_change ty i (t\<lparr>db_messages := ms\<rparr>) = last_change ty i t"
  "last_change ty i (t\<lparr>db_segments := ss\<rparr>) = last_change ty i t"
  "last_change ty i (t\<lparr>db_calls := cs\<rparr>) = last_change ty i t"
  "last_change ty i (t\<lparr>db_recordings := rs\<rparr>) = last_change ty i t"
  "last_change ty i (t\<lparr>db_settings := st\<rparr>) = last_change ty i t"
  "last_change ty i (t\<lparr>db_audit := au\<rparr>) = last_change ty i t"
  by (simp_all add: last_change_def)

lemma log_change_frame [simp]:
  "db_devices (log_change ty i opn t) = db_devices t" "db_tokens (log_change ty i opn t) = db_tokens t"
  "db_idempotency (log_change ty i opn t) = db_idempotency t"
  "db_messages (log_change ty i opn t) = db_messages t"
  "db_segments (log_change ty i opn t) = db_segments t" "db_calls (log_change ty i opn t) = db_calls t"
  "db_recordings (log_change ty i opn t) = db_recordings t"
  "db_settings (log_change ty i opn t) = db_settings t" "db_audit (log_change ty i opn t) = db_audit t"
  "db_lastSeq (log_change ty i opn t) = Suc (db_lastSeq t)"
  "db_syncLog (log_change ty i opn t) = db_syncLog t @ [\<lparr>ch_Seq = Suc (db_lastSeq t),
     ch_EntityType = ty, ch_EntityID = i, ch_Operation = opn\<rparr>]"
  by (simp_all add: log_change_def)

section \<open>The steps of the store\<close>

text \<open>One operation that may change the tables, run under some driver failures; the flag says whether it
  succeeded. \<^verbatim>\<open>AppendChange\<close> is left out: nothing in the gateway calls it.\<close>

definition ran :: "'a db_op \<Rightarrow> Tables \<Rightarrow> bool \<Rightarrow> Tables \<Rightarrow> bool" where
  "ran m t ok t' \<longleftrightarrow> (\<exists>faults r faults'. m (t, faults) = (r, t', faults') \<and> ok = (\<not> isl r))"

inductive db_step :: "Tables \<Rightarrow> bool \<Rightarrow> Tables \<Rightarrow> bool" where
  CreateDevice: "ran (CreateDevice d n k) t ok t' \<Longrightarrow> db_step t ok t'"
| StoreToken: "ran (StoreToken h d k c e) t ok t' \<Longrightarrow> db_step t ok t'"
| RevokeToken: "ran (RevokeToken now h k) t ok t' \<Longrightarrow> db_step t ok t'"
| RevokeDevice: "ran (RevokeDevice now d) t ok t' \<Longrightarrow> db_step t ok t'"
| AppendAudit: "ran (AppendAudit d a g r) t ok t' \<Longrightarrow> db_step t ok t'"
| RegisterPush: "ran (RegisterPush d a v e l) t ok t' \<Longrightarrow> db_step t ok t'"
| ClaimIdempotency: "ran (ClaimIdempotency d p q) t ok t' \<Longrightarrow> db_step t ok t'"
| CompleteIdempotency: "ran (CompleteIdempotency d p q code body) t ok t' \<Longrightarrow> db_step t ok t'"
| SaveCall: "ran (SaveCall call) t ok t' \<Longrightarrow> db_step t ok t'"
| DeleteCall: "ran (db_DeleteCall now i) t ok t' \<Longrightarrow> db_step t ok t'"
| UpdateCallRecording: "ran (UpdateCallRecording i r s dur) t ok t' \<Longrightarrow> db_step t ok t'"
| EnsureRecordingSettings: "ran (EnsureRecordingSettings now st) t ok t' \<Longrightarrow> db_step t ok t'"
| SaveRecordingSettings: "ran (SaveRecordingSettings now st) t ok t' \<Longrightarrow> db_step t ok t'"
| SaveRecording: "ran (SaveRecording now rec) t ok t' \<Longrightarrow> db_step t ok t'"
| MarkMessageRead: "ran (MarkMessageRead i) t ok t' \<Longrightarrow> db_step t ok t'"
| DeleteMessage: "ran (DeleteMessage i) t ok t' \<Longrightarrow> db_step t ok t'"
| InsertMessage: "ran (InsertMessage m) t ok t' \<Longrightarrow> db_step t ok t'"
| UpdateMessageStatus: "ran (UpdateMessageStatus i s) t ok t' \<Longrightarrow> db_step t ok t'"
| InsertSMSSegment: "ran (InsertSMSSegment g) t ok t' \<Longrightarrow> db_step t ok t'"
| LinkSMSSegment: "ran (LinkSMSSegment h i) t ok t' \<Longrightarrow> db_step t ok t'"
| PrunePendingSMSSegments: "ran (PrunePendingSMSSegments b) t ok t' \<Longrightarrow> db_step t ok t'"

inductive db_reachable :: "Tables \<Rightarrow> bool" where
  start: "db_reachable empty_tables"
| step: "db_reachable t \<Longrightarrow> db_step t ok t' \<Longrightarrow> db_reachable t'"

lemma ran_preserves: "ran m t ok t' \<Longrightarrow> preserves I m \<Longrightarrow> I t \<Longrightarrow> I t'"
  by (auto simp: ran_def dest: preservesD)

lemma ran_atomic: "ran m t False t' \<Longrightarrow> atomic m \<Longrightarrow> t' = t"
  by (auto simp: ran_def isl_def dest: atomicD)

lemmas device_op_defs = CreateDevice_def StoreToken_def RevokeToken_def RevokeDevice_def
  AppendAudit_def RegisterPush_def insert_device_def insert_token_def Let_def

lemmas claim_op_defs = ClaimIdempotency_def CompleteIdempotency_def insert_claim_def Let_def

lemmas call_op_defs = SaveCall_def db_DeleteCall_def UpdateCallRecording_def upsert_call_def Let_def

lemmas recording_op_defs = EnsureRecordingSettings_def SaveRecordingSettings_def SaveRecording_def
  upsert_recording_def Let_def

lemmas message_op_defs = MarkMessageRead_def DeleteMessage_def InsertMessage_def
  UpdateMessageStatus_def insert_message_def Let_def

lemmas segment_op_defs = InsertSMSSegment_def LinkSMSSegment_def PrunePendingSMSSegments_def
  insert_segment_def

lemmas db_op_defs = device_op_defs claim_op_defs call_op_defs recording_op_defs message_op_defs
  segment_op_defs

lemma atomic_ops:
  "atomic (CreateDevice d n k)" "atomic (StoreToken h d k' c e)" "atomic (RevokeToken now h k')"
  "atomic (RevokeDevice now d)" "atomic (AppendAudit d a g r)" "atomic (RegisterPush d a v e' l)"
  "atomic (ClaimIdempotency d p q)" "atomic (CompleteIdempotency d p q code body)"
  "atomic (SaveCall call)" "atomic (db_DeleteCall now i)" "atomic (UpdateCallRecording i r s dur)"
  "atomic (EnsureRecordingSettings now st)" "atomic (SaveRecordingSettings now st)"
  "atomic (SaveRecording now rec)" "atomic (MarkMessageRead i)" "atomic (DeleteMessage i)"
  "atomic (InsertMessage m)" "atomic (UpdateMessageStatus i s)" "atomic (InsertSMSSegment sg)"
  "atomic (LinkSMSSegment h' i)" "atomic (PrunePendingSMSSegments b)"
  unfolding db_op_defs
  by (rule op_rules | force simp: update_rows_none split: if_splits)+

text \<open>Every operation of the store is all or nothing: when it reports an error, whatever the driver did,
  the tables are as they were.\<close>

theorem failed_operation_changes_nothing:
  assumes "db_step t False t'"
  shows "t' = t"
  using assms by (cases rule: db_step.cases) (erule ran_atomic, rule atomic_ops)+

section \<open>The synchronisation log\<close>

text \<open>The sequence numbers are the positions in the log: a rolled back entry leaves no gap.\<close>

definition log_ok :: "Tables \<Rightarrow> bool" where
  "log_ok t \<longleftrightarrow> map ch_Seq (db_syncLog t) = [1..<Suc (db_lastSeq t)]"

lemma log_ok_frame [simp]:
  "log_ok (t\<lparr>db_devices := ds\<rparr>) = log_ok t" "log_ok (t\<lparr>db_tokens := ks\<rparr>) = log_ok t"
  "log_ok (t\<lparr>db_idempotency := is\<rparr>) = log_ok t" "log_ok (t\<lparr>db_messages := ms\<rparr>) = log_ok t"
  "log_ok (t\<lparr>db_segments := ss\<rparr>) = log_ok t" "log_ok (t\<lparr>db_calls := cs\<rparr>) = log_ok t"
  "log_ok (t\<lparr>db_recordings := rs\<rparr>) = log_ok t" "log_ok (t\<lparr>db_settings := st\<rparr>) = log_ok t"
  "log_ok (t\<lparr>db_audit := au\<rparr>) = log_ok t"
  by (simp_all add: log_ok_def)

lemma log_ok_log [simp]: "log_ok t \<Longrightarrow> log_ok (log_change ty i opn t)"
  by (simp add: log_ok_def)

lemma log_ok_step:
  assumes "db_step t ok t'" and "log_ok t"
  shows "log_ok t'"
  using assms(1)
  by (cases rule: db_step.cases, unfold db_op_defs)
    (erule ran_preserves [where I = log_ok] | rule op_rules assms(2) | force split: if_splits option.splits)+

section \<open>Messages\<close>

definition message_ids :: "Tables \<Rightarrow> string set" where
  "message_ids t = ms_ID ` set (db_messages t)"

text \<open>Ids and hashes are unique, every message carries the sequence number of the last change of it, which
  is an upsert, and no other id has an upsert as its last change.\<close>

definition messages_ok :: "Tables \<Rightarrow> bool" where
  "messages_ok t \<longleftrightarrow> distinct (map ms_ID (db_messages t)) \<and>
     distinct (filter (\<lambda>h. h \<noteq> []) (map ms_PDUHash (db_messages t))) \<and>
     (\<forall>m \<in> set (db_messages t). \<exists>c. last_change ''message'' (ms_ID m) t = Some c \<and>
        ch_Seq c = ms_SyncSeq m \<and> ch_Operation c = ''upsert'') \<and>
     (\<forall>i c. i \<notin> message_ids t \<longrightarrow> last_change ''message'' i t = Some c \<longrightarrow> ch_Operation c \<noteq> ''upsert'')"

lemma messages_ok_frame [simp]:
  "messages_ok (t\<lparr>db_devices := ds\<rparr>) = messages_ok t" "messages_ok (t\<lparr>db_tokens := ks\<rparr>) = messages_ok t"
  "messages_ok (t\<lparr>db_idempotency := is\<rparr>) = messages_ok t"
  "messages_ok (t\<lparr>db_segments := ss\<rparr>) = messages_ok t" "messages_ok (t\<lparr>db_calls := cs\<rparr>) = messages_ok t"
  "messages_ok (t\<lparr>db_recordings := rs\<rparr>) = messages_ok t"
  "messages_ok (t\<lparr>db_settings := st\<rparr>) = messages_ok t" "messages_ok (t\<lparr>db_audit := au\<rparr>) = messages_ok t"
  "ty \<noteq> ''message'' \<Longrightarrow> messages_ok (log_change ty i opn t) = messages_ok t"
  by (simp_all add: messages_ok_def message_ids_def)

lemma messages_ok_insert:
  assumes "messages_ok t" and "i = ms_ID m" and "ms_SyncSeq m = Suc (db_lastSeq t)"
    and "\<forall>r \<in> set (db_messages t). \<not> (ms_ID r = ms_ID m \<or> (ms_PDUHash m \<noteq> [] \<and> ms_PDUHash r = ms_PDUHash m))"
  shows "messages_ok ((log_change ''message'' i ''upsert'' t)\<lparr>db_messages := db_messages t @ [m]\<rparr>)"
  using assms by (force simp: messages_ok_def message_ids_def)

lemma messages_ok_update:
  assumes "messages_ok t" and "i \<in> message_ids t" and "map ms_ID ms = map ms_ID (db_messages t)"
    and "map ms_PDUHash ms = map ms_PDUHash (db_messages t)"
    and "\<forall>m \<in> set ms. if ms_ID m = i then ms_SyncSeq m = Suc (db_lastSeq t) else m \<in> set (db_messages t)"
  shows "messages_ok ((log_change ''message'' i ''upsert'' t)\<lparr>db_messages := ms\<rparr>)"
proof -
  have ids: "ms_ID ` set ms = message_ids t"
    using assms(3) unfolding message_ids_def by (metis list.set_map)
  then have "j \<notin> ms_ID ` set ms \<Longrightarrow> j \<noteq> i" for j using assms(2) by blast
  then show ?thesis
    using assms ids by (auto simp: messages_ok_def message_ids_def split: if_splits)
qed

lemma messages_ok_delete:
  assumes "messages_ok t"
  shows "messages_ok (log_change ''message'' i ''delete'' (t\<lparr>db_messages := filter (\<lambda>m. ms_ID m \<noteq> i) (db_messages t)\<rparr>))"
proof -
  have "filter (\<lambda>h. h \<noteq> []) (map ms_PDUHash (filter P ms)) =
      map ms_PDUHash (filter (\<lambda>m. P m \<and> ms_PDUHash m \<noteq> []) ms)" for P ms
    by (simp add: filter_map o_def conj_commute)
  moreover have "distinct (map ms_PDUHash (filter (\<lambda>m. ms_PDUHash m \<noteq> []) ms)) \<Longrightarrow>
      distinct (map ms_PDUHash (filter (\<lambda>m. P m \<and> ms_PDUHash m \<noteq> []) ms))" for P ms
    by (induction ms) (auto split: if_splits)
  ultimately show ?thesis
    using assms by (auto simp: messages_ok_def message_ids_def distinct_map_filter filter_map o_def)
qed

lemma log_change_messages [simp]:
  "log_change ty i opn (t\<lparr>db_messages := ms\<rparr>) = (log_change ty i opn t)\<lparr>db_messages := ms\<rparr>"
  by (simp add: log_change_def)

lemma messages_ok_ops:
  "preserves messages_ok (MarkMessageRead i)" "preserves messages_ok (DeleteMessage i)"
  "preserves messages_ok (InsertMessage m)" "preserves messages_ok (UpdateMessageStatus i s)"
proof -
  show "preserves messages_ok (MarkMessageRead i)"
    unfolding MarkMessageRead_def Let_def
    by (intro op_rules)
      (auto simp: map_update_rows set_update_rows list_ex_iff message_ids_def intro!: messages_ok_update)
  show "preserves messages_ok (DeleteMessage i)"
    unfolding DeleteMessage_def
    by (intro op_rules) (auto dest: messages_ok_delete [of _ i])
  show "preserves messages_ok (InsertMessage m)"
    unfolding InsertMessage_def insert_message_def
    by (intro op_rules) (auto simp: list_ex_iff intro!: messages_ok_insert split: if_splits)
  show "preserves messages_ok (UpdateMessageStatus i s)"
    unfolding UpdateMessageStatus_def Let_def
    by (intro op_rules)
      (auto simp: map_update_rows set_update_rows list_ex_iff message_ids_def intro!: messages_ok_update)
qed

lemma messages_ok_step:
  assumes "db_step t ok t'" and "messages_ok t"
  shows "messages_ok t'"
  using assms(1)
  by (cases rule: db_step.cases, unfold device_op_defs claim_op_defs call_op_defs recording_op_defs segment_op_defs)
    (erule ran_preserves [where I = messages_ok] | rule messages_ok_ops op_rules assms(2)
     | force split: if_splits option.splits)+

section \<open>What a client learns\<close>

text \<open>A client keeps the ids of one kind of entity: an upsert adds the id, any other change removes it.\<close>

definition replay_change :: "string \<Rightarrow> string set \<Rightarrow> Change \<Rightarrow> string set" where
  "replay_change ty ids c =
     (if ch_EntityType c = ty
      then if ch_Operation c = ''upsert'' then insert (ch_EntityID c) ids else ids - {ch_EntityID c}
      else ids)"

definition replay :: "string \<Rightarrow> Change list \<Rightarrow> string set" where
  "replay ty cs = foldl (replay_change ty) {} cs"

text \<open>The loop of a client over \<^verbatim>\<open>GET /sync\<close>: it goes on while a page is full (\<^verbatim>\<open>hasMore\<close>).\<close>

fun sync_pages :: "nat \<Rightarrow> int \<Rightarrow> int \<Rightarrow> Tables \<Rightarrow> Change list" where
  "sync_pages 0 limit after t = []"
| "sync_pages (Suc n) limit after t =
     (case fst (Sync after limit (t, [])) of
        Inl _ \<Rightarrow> []
      | Inr cs \<Rightarrow> if int (length cs) = limit then cs @ sync_pages n limit (int (ch_Seq (last cs))) t
                 else cs)"

lemma replay_last_change: "i \<in> replay ty (db_syncLog t) \<longleftrightarrow>
   (\<exists>c. last_change ty i t = Some c \<and> ch_Operation c = ''upsert'')"
proof -
  have "i \<in> replay ty cs \<longleftrightarrow>
      (\<exists>c. find (\<lambda>c. ch_EntityType c = ty \<and> ch_EntityID c = i) (rev cs) = Some c \<and> ch_Operation c = ''upsert'')" for cs
    by (induction cs rule: rev_induct) (auto simp: replay_def replay_change_def)
  then show ?thesis by (simp add: last_change_def)
qed

lemma filter_consecutive:
  fixes f :: "'a \<Rightarrow> nat"
  assumes "map f xs = [a..<b]"
  shows "filter (\<lambda>x. k < f x) xs = drop (Suc k - a) xs"
  using assms
proof (induction xs arbitrary: a)
  case (Cons x xs)
  from Cons.prems have "[a..<b] = f x # map f xs" by simp
  then have "f x = a" and "map f xs = [Suc a..<b]" by (auto simp: upt_eq_Cons_conv)
  with Cons.IH [of "Suc a"] show ?case
    by (cases "k < a") (auto simp: Suc_diff_le not_less)
qed simp

lemma Sync_page:
  assumes "log_ok t" and "1 \<le> limit" and "limit \<le> 500"
  shows "Sync (int k) limit (t, []) = (Inr (take (nat limit) (drop k (db_syncLog t))), t, [])"
proof -
  have "filter (\<lambda>c. int k < int (ch_Seq c)) (db_syncLog t) = drop k (db_syncLog t)"
    using filter_consecutive [of ch_Seq "db_syncLog t" 1 "Suc (db_lastSeq t)" k] assms(1) by (simp add: log_ok_def)
  moreover have "sorted (map ch_Seq (db_syncLog t))"
    using assms(1) by (simp add: log_ok_def del: upt_Suc)
  then have "sorted (map ch_Seq (drop k (db_syncLog t)))"
    by (simp add: drop_map [symmetric] sorted_wrt_drop)
  ultimately show ?thesis
    using assms(2,3) by (simp add: Sync_def query_def driver_def sort_key_id_if_sorted)
qed

lemma log_seq_nth:
  assumes "log_ok t" and "j < length (db_syncLog t)"
  shows "ch_Seq (db_syncLog t ! j) = Suc j"
proof -
  from assms(1) have "length (db_syncLog t) = db_lastSeq t"
    unfolding log_ok_def by (metis length_map length_upt diff_Suc_1)
  moreover from assms have "ch_Seq (db_syncLog t ! j) = [1..<Suc (db_lastSeq t)] ! j"
    unfolding log_ok_def by (metis nth_map)
  ultimately show ?thesis using assms(2) by (simp del: upt_Suc)
qed

lemma sync_pages_drop:
  assumes "log_ok t" and "1 \<le> limit" and "limit \<le> 500"
  shows "length (db_syncLog t) < n + k \<Longrightarrow> sync_pages n limit (int k) t = drop k (db_syncLog t)"
proof (induction n arbitrary: k)
  case (Suc n)
  let ?page = "take (nat limit) (drop k (db_syncLog t))"
  show ?case
  proof (cases "int (length ?page) = limit")
    case False
    then have "length (drop k (db_syncLog t)) \<le> nat limit" using assms(2) by auto
    with False Sync_page [OF assms, of k] show ?thesis by simp
  next
    case True
    then have len: "k + nat limit \<le> length (db_syncLog t)" using assms(2) by auto
    moreover have "ch_Seq (last ?page) = k + nat limit"
    proof -
      have ne: "nat limit \<noteq> 0" using assms(2) by simp
      then have "last ?page = db_syncLog t ! (k + nat limit - 1)"
        using len by (subst last_conv_nth) (auto simp: min_absorb2)
      moreover have "ch_Seq (db_syncLog t ! (k + nat limit - 1)) = k + nat limit"
        using log_seq_nth [OF assms(1), of "k + nat limit - 1"] len ne by simp
      ultimately show ?thesis using len ne by simp
    qed
    moreover have "sync_pages n limit (int (k + nat limit)) t = drop (k + nat limit) (db_syncLog t)"
      using Suc.prems assms(2) by (intro Suc.IH) linarith
    moreover have "?page @ drop (k + nat limit) (db_syncLog t) = drop k (db_syncLog t)"
      by (metis append_take_drop_id drop_drop add.commute)
    ultimately show ?thesis using True Sync_page [OF assms, of k] by simp
  qed
qed simp

lemma reachable_log_ok: "db_reachable t \<Longrightarrow> log_ok t"
proof (induction rule: db_reachable.induct)
  case start
  show ?case by (simp add: log_ok_def empty_tables_def)
qed (rule log_ok_step)

lemma reachable_messages_ok: "db_reachable t \<Longrightarrow> messages_ok t"
proof (induction rule: db_reachable.induct)
  case start
  show ?case by (simp add: messages_ok_def message_ids_def empty_tables_def last_change_def)
qed (rule messages_ok_step)

lemma messages_replayed:
  assumes "messages_ok t"
  shows "replay ''message'' (db_syncLog t) = message_ids t"
proof -
  have rows: "\<forall>m \<in> set (db_messages t). \<exists>c. last_change ''message'' (ms_ID m) t = Some c \<and>
      ch_Seq c = ms_SyncSeq m \<and> ch_Operation c = ''upsert''"
    and others: "\<forall>i c. i \<notin> message_ids t \<longrightarrow> last_change ''message'' i t = Some c \<longrightarrow> ch_Operation c \<noteq> ''upsert''"
    using assms unfolding messages_ok_def by blast+
  have "(\<exists>c. last_change ''message'' i t = Some c \<and> ch_Operation c = ''upsert'') \<longleftrightarrow> i \<in> message_ids t" for i
  proof
    show "\<exists>c. last_change ''message'' i t = Some c \<and> ch_Operation c = ''upsert'' \<Longrightarrow> i \<in> message_ids t"
      using others by blast
    assume "i \<in> message_ids t"
    then obtain m where "m \<in> set (db_messages t)" "i = ms_ID m" by (auto simp: message_ids_def)
    with rows show "\<exists>c. last_change ''message'' i t = Some c \<and> ch_Operation c = ''upsert''" by blast
  qed
  then show ?thesis unfolding set_eq_iff replay_last_change by blast
qed

text \<open>C11: the synchronisation log tells a client which messages there are: after any operations and any
  driver failures, a client that pages through the log from the start, with any page size, ends with
  exactly the ids in the table of messages.\<close>

theorem sync_learns_the_messages:
  assumes "db_reachable t" and "1 \<le> limit" and "limit \<le> 500" and "length (db_syncLog t) < n"
  shows "sync_pages n limit 0 t = db_syncLog t \<and>
     replay ''message'' (sync_pages n limit 0 t) = message_ids t"
proof -
  have "sync_pages n limit 0 t = db_syncLog t"
    using sync_pages_drop [OF reachable_log_ok [OF assms(1)] assms(2,3), of n 0] assms(4) by simp
  then show ?thesis using messages_replayed [OF reachable_messages_ok [OF assms(1)]] by simp
qed

section \<open>Calls\<close>

definition call_ids :: "Tables \<Rightarrow> string set" where
  "call_ids t = (\<lambda>r. cl_ID (cw_Call r)) ` set (db_calls t)"

definition visible_calls :: "Tables \<Rightarrow> string set" where
  "visible_calls t = (\<lambda>r. cl_ID (cw_Call r)) ` {r \<in> set (db_calls t). cw_DeletedAt r = None}"

definition calls_ok :: "Tables \<Rightarrow> bool" where
  "calls_ok t \<longleftrightarrow> distinct (map (\<lambda>r. cl_ID (cw_Call r)) (db_calls t)) \<and>
     (\<forall>r \<in> set (db_calls t). \<exists>c. last_change ''call'' (cl_ID (cw_Call r)) t = Some c \<and>
        ch_Seq c = cl_SyncSeq (cw_Call r) \<and> (cw_DeletedAt r = None \<longrightarrow> ch_Operation c = ''upsert'')) \<and>
     (\<forall>i. i \<notin> call_ids t \<longrightarrow> last_change ''call'' i t = None)"

lemma calls_ok_frame [simp]:
  "calls_ok (t\<lparr>db_devices := ds\<rparr>) = calls_ok t" "calls_ok (t\<lparr>db_tokens := ks\<rparr>) = calls_ok t"
  "calls_ok (t\<lparr>db_idempotency := is\<rparr>) = calls_ok t" "calls_ok (t\<lparr>db_messages := ms\<rparr>) = calls_ok t"
  "calls_ok (t\<lparr>db_segments := ss\<rparr>) = calls_ok t"
  "calls_ok (t\<lparr>db_recordings := rs\<rparr>) = calls_ok t"
  "calls_ok (t\<lparr>db_settings := st\<rparr>) = calls_ok t" "calls_ok (t\<lparr>db_audit := au\<rparr>) = calls_ok t"
  "ty \<noteq> ''call'' \<Longrightarrow> calls_ok (log_change ty i opn t) = calls_ok t"
  by (simp_all add: calls_ok_def call_ids_def)

lemma log_change_calls [simp]:
  "log_change ty i opn (t\<lparr>db_calls := cs\<rparr>) = (log_change ty i opn t)\<lparr>db_calls := cs\<rparr>"
  by (simp add: log_change_def)

lemma calls_ok_change:
  assumes "calls_ok t" and "distinct (map (\<lambda>r. cl_ID (cw_Call r)) cs)"
    and "(\<lambda>r. cl_ID (cw_Call r)) ` set cs = insert i (call_ids t)"
    and "\<forall>r \<in> set cs. if call_row i r
           then cl_SyncSeq (cw_Call r) = Suc (db_lastSeq t) \<and> (cw_DeletedAt r = None \<longrightarrow> opn = ''upsert'')
           else r \<in> set (db_calls t)"
  shows "calls_ok ((log_change ''call'' i opn t)\<lparr>db_calls := cs\<rparr>)"
  unfolding calls_ok_def
proof (intro conjI ballI allI impI)
  let ?t = "(log_change ''call'' i opn t)\<lparr>db_calls := cs\<rparr>"
  have old: "\<exists>c. last_change ''call'' (cl_ID (cw_Call r)) t = Some c \<and> ch_Seq c = cl_SyncSeq (cw_Call r) \<and>
      (cw_DeletedAt r = None \<longrightarrow> ch_Operation c = ''upsert'')" if "r \<in> set (db_calls t)" for r
    using assms(1) that unfolding calls_ok_def by blast
  show "distinct (map (\<lambda>r. cl_ID (cw_Call r)) (db_calls ?t))" using assms(2) by simp
  show "\<exists>c. last_change ''call'' (cl_ID (cw_Call r)) ?t = Some c \<and> ch_Seq c = cl_SyncSeq (cw_Call r) \<and>
      (cw_DeletedAt r = None \<longrightarrow> ch_Operation c = ''upsert'')" if r: "r \<in> set (db_calls ?t)" for r
  proof (cases "call_row i r")
    case True
    with assms(4) r show ?thesis by simp
  next
    case False
    with assms(4) r have "r \<in> set (db_calls t)" by simp
    from old [OF this] False show ?thesis by simp
  qed
  show "last_change ''call'' j ?t = None" if "j \<notin> call_ids ?t" for j
  proof -
    have "call_ids ?t = insert i (call_ids t)" using assms(3) by (simp add: call_ids_def)
    with that have "j \<notin> call_ids t" and "\<not> i = j" by auto
    moreover from this(1) assms(1) have "last_change ''call'' j t = None" unfolding calls_ok_def by blast
    ultimately show ?thesis by simp
  qed
qed

text \<open>An update of the rows of one id that keeps the ids.\<close>

lemma calls_ok_update:
  assumes "calls_ok t" and "i \<in> call_ids t"
    and "map (\<lambda>r. cl_ID (cw_Call r)) cs = map (\<lambda>r. cl_ID (cw_Call r)) (db_calls t)"
    and "\<And>r. r \<in> set cs \<Longrightarrow> call_row i r \<Longrightarrow>
           cl_SyncSeq (cw_Call r) = Suc (db_lastSeq t) \<and> (cw_DeletedAt r = None \<longrightarrow> opn = ''upsert'')"
    and "\<And>r. r \<in> set cs \<Longrightarrow> \<not> call_row i r \<Longrightarrow> r \<in> set (db_calls t)"
  shows "calls_ok ((log_change ''call'' i opn t)\<lparr>db_calls := cs\<rparr>)"
proof (rule calls_ok_change)
  from assms(1,3) show "distinct (map (\<lambda>r. cl_ID (cw_Call r)) cs)" by (simp add: calls_ok_def)
  from assms(3) have "(\<lambda>r. cl_ID (cw_Call r)) ` set cs = call_ids t"
    unfolding call_ids_def by (metis list.set_map)
  with assms(2) show "(\<lambda>r. cl_ID (cw_Call r)) ` set cs = insert i (call_ids t)" by blast
qed (use assms in auto)

lemma calls_ok_new:
  assumes "calls_ok t" and "\<forall>r \<in> set (db_calls t). \<not> call_row (cl_ID c) r"
    and "cl_SyncSeq c = Suc (db_lastSeq t)"
  shows "calls_ok ((log_change ''call'' (cl_ID c) ''upsert'' t)\<lparr>db_calls := db_calls t @ [\<lparr>cw_Call = c, cw_DeletedAt = None\<rparr>]\<rparr>)"
proof (rule calls_ok_change)
  have "distinct (map (\<lambda>r. cl_ID (cw_Call r)) (db_calls t))" using assms(1) unfolding calls_ok_def by blast
  with assms(2) show "distinct (map (\<lambda>r. cl_ID (cw_Call r)) (db_calls t @ [\<lparr>cw_Call = c, cw_DeletedAt = None\<rparr>]))"
    by auto
qed (use assms in \<open>auto simp: call_ids_def\<close>)

lemma call_ids_iff: "i \<in> call_ids t \<longleftrightarrow> list_ex (call_row i) (db_calls t)"
  by (auto simp: call_ids_def list_ex_iff)

lemma list_ex_conjD: "list_ex (\<lambda>r. P r \<and> Q r) rows \<Longrightarrow> list_ex P rows"
  by (auto simp: list_ex_iff)

lemma merge_call_simps [simp]:
  "cl_ID (merge_call new old) = cl_ID new" "cl_SyncSeq (merge_call new old) = cl_SyncSeq new"
  by (simp_all add: merge_call_def)

lemma calls_ok_upsert:
  assumes "calls_ok t" and "cl_SyncSeq c = Suc (db_lastSeq t)"
    and "upsert_call c (log_change ''call'' (cl_ID c) ''upsert'' t) = (r, t')" and "r = Inr a"
  shows "calls_ok t'"
proof (cases "list_ex (call_row (cl_ID c)) (db_calls t)")
  case True
  let ?cs = "update_rows (call_row (cl_ID c)) (\<lambda>r. r\<lparr>cw_Call := merge_call c (cw_Call r)\<rparr>) (db_calls t)"
  have "calls_ok ((log_change ''call'' (cl_ID c) ''upsert'' t)\<lparr>db_calls := ?cs\<rparr>)"
    using assms(1,2) True
    by (intro calls_ok_update) (auto simp: map_update_rows call_ids_iff elim!: set_update_rowsE)
  with True assms(3,4) show ?thesis by (simp add: upsert_call_def split: if_splits)
next
  case False
  with calls_ok_new [of t c] assms show ?thesis
    by (auto simp: upsert_call_def list_ex_iff split: if_splits)
qed

lemma calls_ok_SaveCall: "preserves calls_ok (SaveCall call)"
  unfolding SaveCall_def
proof (intro op_rules)
  fix t a t'
  assume "calls_ok t"
    and "upsert_call (call\<lparr>cl_SyncSeq := Suc (db_lastSeq t)\<rparr>) (log_change ''call'' (cl_ID call) ''upsert'' t) = (Inr a, t')"
  then show "calls_ok t'"
    using calls_ok_upsert [of t "call\<lparr>cl_SyncSeq := Suc (db_lastSeq t)\<rparr>"] by simp
qed

lemma calls_ok_UpdateCallRecording: "preserves calls_ok (UpdateCallRecording i r s dur)"
  unfolding UpdateCallRecording_def
proof (intro op_rules, clarsimp, rule calls_ok_update)
  fix t :: Tables and x
  let ?cs = "update_rows (call_row i) (\<lambda>row. row\<lparr>cw_Call := (cw_Call row)\<lparr>cl_RecordingID := r,
      cl_RecordingState := s, cl_RecordingDurationMs := dur, cl_SyncSeq := Suc (db_lastSeq t)\<rparr>\<rparr>) (db_calls t)"
  assume "list_ex (call_row i) (db_calls t)"
  then show "i \<in> call_ids t" by (simp add: call_ids_iff)
  show "x \<in> set ?cs \<Longrightarrow> call_row i x \<Longrightarrow> cl_SyncSeq (cw_Call x) = Suc (db_lastSeq t) \<and>
      (cw_DeletedAt x = None \<longrightarrow> ''upsert'' = ''upsert'')"
    by (erule set_update_rowsE) simp_all
  show "x \<in> set ?cs \<Longrightarrow> \<not> call_row i x \<Longrightarrow> x \<in> set (db_calls t)"
    by (erule set_update_rowsE) simp_all
qed (simp_all add: map_update_rows)

lemma calls_ok_DeleteCall: "preserves calls_ok (db_DeleteCall now i)"
  unfolding db_DeleteCall_def Let_def
proof (intro op_rules, clarsimp, rule calls_ok_update)
  fix t :: Tables and x
  let ?P = "\<lambda>r. call_row i r \<and> cw_DeletedAt r = None"
  let ?cs = "update_rows (call_row i) (\<lambda>r. r\<lparr>cw_Call := (cw_Call r)\<lparr>cl_SyncSeq := Suc (db_lastSeq t)\<rparr>\<rparr>)
      (update_rows ?P (\<lambda>r. r\<lparr>cw_DeletedAt := Some now\<rparr>) (db_calls t))"
  assume "list_ex ?P (db_calls t)"
  then show "i \<in> call_ids t" by (auto simp: call_ids_iff list_ex_iff)
  show "x \<in> set ?cs \<Longrightarrow> call_row i x \<Longrightarrow> cl_SyncSeq (cw_Call x) = Suc (db_lastSeq t) \<and>
      (cw_DeletedAt x = None \<longrightarrow> ''delete'' = ''upsert'')"
    by (erule set_update_rowsE, erule set_update_rowsE) simp_all
  show "x \<in> set ?cs \<Longrightarrow> \<not> call_row i x \<Longrightarrow> x \<in> set (db_calls t)"
    by (erule set_update_rowsE, simp, erule set_update_rowsE) simp_all
qed (simp_all add: map_update_rows)

lemma calls_ok_step:
  assumes "db_step t ok t'" and "calls_ok t"
  shows "calls_ok t'"
  using assms(1)
  by (cases rule: db_step.cases, unfold device_op_defs claim_op_defs recording_op_defs message_op_defs segment_op_defs)
    (erule ran_preserves [where I = calls_ok]
     | rule calls_ok_SaveCall calls_ok_UpdateCallRecording calls_ok_DeleteCall op_rules assms(2)
     | force split: if_splits option.splits)+

lemma reachable_calls_ok: "db_reachable t \<Longrightarrow> calls_ok t"
proof (induction rule: db_reachable.induct)
  case start
  show ?case by (simp add: calls_ok_def call_ids_def empty_tables_def last_change_def)
qed (rule calls_ok_step)

text \<open>C12: the log never hides a call: after any operations, every call of the recents list counts as present for
  a client that has replayed the log, and the log has no entry on calls the store does not know.\<close>

theorem sync_never_hides_a_call:
  assumes "db_reachable t"
  shows "visible_calls t \<subseteq> replay ''call'' (db_syncLog t) \<and> replay ''call'' (db_syncLog t) \<subseteq> call_ids t"
proof (intro conjI subsetI)
  note ok = reachable_calls_ok [OF assms, unfolded calls_ok_def]
  fix i
  show "i \<in> replay ''call'' (db_syncLog t)" if "i \<in> visible_calls t"
  proof -
    from that obtain r where "r \<in> set (db_calls t)" "cw_DeletedAt r = None" "i = cl_ID (cw_Call r)"
      by (auto simp: visible_calls_def)
    with ok show ?thesis unfolding replay_last_change by blast
  qed
  show "i \<in> call_ids t" if "i \<in> replay ''call'' (db_syncLog t)"
    using that ok unfolding replay_last_change by (metis option.distinct(1))
qed

lemma not_visible_iff:
  "i \<notin> visible_calls t \<longleftrightarrow> (\<forall>r \<in> set (db_calls t). call_row i r \<longrightarrow> cw_DeletedAt r \<noteq> None)"
  by (auto simp: visible_calls_def)

text \<open>The converse fails: when a recording of a call is updated after the call was deleted from the
  recents list, the log ends with an upsert of that call, so a client that replays it has the deleted
  call again.\<close>

theorem late_recording_revives_call:
  assumes "UpdateCallRecording i r s dur (t, faults) = (Inr (), t', faults')" and "i \<notin> visible_calls t"
  shows "i \<notin> visible_calls t' \<and> i \<in> replay ''call'' (db_syncLog t')"
proof -
  let ?cs = "update_rows (call_row i) (\<lambda>row. row\<lparr>cw_Call := (cw_Call row)\<lparr>cl_RecordingID := r,
    cl_RecordingState := s, cl_RecordingDurationMs := dur, cl_SyncSeq := Suc (db_lastSeq t)\<rparr>\<rparr>) (db_calls t)"
  have old: "cw_DeletedAt x \<noteq> None" if "x \<in> set (db_calls t)" "call_row i x" for x
    using assms(2) that by (simp add: not_visible_iff)
  have "cw_DeletedAt x \<noteq> None" if "x \<in> set ?cs" "call_row i x" for x
    using that by (elim set_update_rowsE) (use old in simp_all)
  then have hidden: "i \<notin> visible_calls ((log_change ''call'' i ''upsert'' t)\<lparr>db_calls := ?cs\<rparr>)"
    by (simp add: not_visible_iff)
  have "wp (UpdateCallRecording i r s dur) (\<lambda>_ t'. i \<notin> visible_calls t' \<and>
      last_change ''call'' i t' = Some \<lparr>ch_Seq = Suc (db_lastSeq t), ch_EntityType = ''call'',
        ch_EntityID = i, ch_Operation = ''upsert''\<rparr>) t"
    unfolding UpdateCallRecording_def by (intro op_rules) (use hidden in auto)
  from wpD [OF this assms(1)] show ?thesis unfolding replay_last_change by simp
qed

definition deleted_call :: Tables where
  "deleted_call = (let c = \<lparr>cl_ID = ''c1'', cl_Direction = ''inbound'', cl_Peer = ''10086'', cl_State = ''ended'',
       cl_StartedAt = 1, cl_ConnectedAt = Some 2, cl_EndedAt = Some 3, cl_EndReason = [], cl_RecordingID = [],
       cl_RecordingState = [], cl_RecordingDurationMs = None, cl_SyncSeq = 0\<rparr>;
     t = fst (snd (SaveCall c (empty_tables, [])))
   in fst (snd (db_DeleteCall 4 ''c1'' (t, []))))"

lemma deleted_call_reachable: "db_reachable deleted_call"
  unfolding deleted_call_def Let_def
  by (rule db_reachable.step [OF db_reachable.step [OF db_reachable.start db_step.SaveCall] db_step.DeleteCall])
    (auto simp: ran_def prod_eq_iff)

theorem sync_never_hides_a_call_witness:
  "visible_calls deleted_call = {} \<and> replay ''call'' (db_syncLog deleted_call) \<subseteq> {''c1''}"
proof -
  have "call_ids deleted_call = {''c1''}" and "visible_calls deleted_call = {}" by code_simp+
  with sync_never_hides_a_call [OF deleted_call_reachable] show ?thesis by simp
qed

theorem late_recording_revives_call_witness:
  "\<exists>t' faults'. UpdateCallRecording ''c1'' ''rec_1'' ''ready'' (Some 1) (deleted_call, []) = (Inr (), t', faults') \<and>
     ''c1'' \<notin> visible_calls t' \<and> ''c1'' \<in> replay ''call'' (db_syncLog t')"
proof -
  have "fst (UpdateCallRecording ''c1'' ''rec_1'' ''ready'' (Some 1) (deleted_call, [])) = Inr ()" by code_simp
  then obtain t' f where u: "UpdateCallRecording ''c1'' ''rec_1'' ''ready'' (Some 1) (deleted_call, []) = (Inr (), t', f)"
    by (cases "UpdateCallRecording ''c1'' ''rec_1'' ''ready'' (Some 1) (deleted_call, [])") auto
  moreover have "''c1'' \<notin> visible_calls deleted_call" by code_simp
  ultimately show ?thesis using late_recording_revives_call [OF u] by blast
qed

theorem sync_learns_the_messages_witness:
  "sync_pages 3 1 0 deleted_call = db_syncLog deleted_call \<and>
   replay ''message'' (sync_pages 3 1 0 deleted_call) = {}"
proof -
  have "length (db_syncLog deleted_call) < 3" "message_ids deleted_call = {}" by code_simp+
  with sync_learns_the_messages [OF deleted_call_reachable, of 1 3] show ?thesis by (metis one_le_numeral order_refl)
qed

theorem failed_operation_changes_nothing_witness:
  "fst (snd (UpdateCallRecording ''c2'' ''rec_1'' ''ready'' (Some 1) (deleted_call, []))) = deleted_call"
proof (rule failed_operation_changes_nothing)
  have "fst (UpdateCallRecording ''c2'' ''rec_1'' ''ready'' (Some 1) (deleted_call, [])) = Inl NoRows" by code_simp
  then show "db_step deleted_call False (fst (snd (UpdateCallRecording ''c2'' ''rec_1'' ''ready'' (Some 1) (deleted_call, []))))"
    by (intro db_step.UpdateCallRecording) (auto simp: ran_def prod_eq_iff isl_def)
qed

end
