(* ===== verification/Db_Access.thy ===== *)
theory Db_Access
  imports Db_Invariants
begin

text \<open>
  More of what the store of \<^verbatim>\<open>gateway/internal/db/db.go\<close> keeps: recordings belong to known calls and at
  most one recording of a call is in flight, a revoked device stays revoked, a claimed request key
  stays claimed. The steps of the store between two operations are \<open>db_steps\<close>.
\<close>

definition db_steps :: "Tables \<Rightarrow> Tables \<Rightarrow> bool" where
  "db_steps = rtranclp (\<lambda>t t'. \<exists>ok. db_step t ok t')"

lemma db_steps_refl [simp]: "db_steps t t"
  by (simp add: db_steps_def)

lemma db_steps_preserve:
  assumes "db_steps t t'" and "I t" and "\<And>t ok t'. db_step t ok t' \<Longrightarrow> I t \<Longrightarrow> I t'"
  shows "I t'"
  using assms(1) unfolding db_steps_def by (induction rule: rtranclp_induct) (use assms(2,3) in blast)+

section \<open>Recordings\<close>

definition recordings_ok :: "Tables \<Rightarrow> bool" where
  "recordings_ok t \<longleftrightarrow> distinct (map rc_ID (db_recordings t)) \<and>
     (\<forall>r \<in> set (db_recordings t). rc_CallID r \<in> call_ids t) \<and>
     (\<forall>r \<in> set (db_recordings t). \<forall>r' \<in> set (db_recordings t). \<not> clashes r r')"

lemma recordings_ok_frame [simp]:
  "recordings_ok (t\<lparr>db_devices := ds\<rparr>) = recordings_ok t" "recordings_ok (t\<lparr>db_tokens := ks\<rparr>) = recordings_ok t"
  "recordings_ok (t\<lparr>db_idempotency := is\<rparr>) = recordings_ok t"
  "recordings_ok (t\<lparr>db_messages := ms\<rparr>) = recordings_ok t"
  "recordings_ok (t\<lparr>db_segments := ss\<rparr>) = recordings_ok t"
  "recordings_ok (t\<lparr>db_settings := st\<rparr>) = recordings_ok t" "recordings_ok (t\<lparr>db_audit := au\<rparr>) = recordings_ok t"
  "recordings_ok (log_change ty i opn t) = recordings_ok t"
  by (simp_all add: recordings_ok_def call_ids_def)

lemma recordings_ok_calls:
  assumes "recordings_ok t" and "(\<lambda>r. cl_ID (cw_Call r)) ` set (db_calls t) \<subseteq> (\<lambda>r. cl_ID (cw_Call r)) ` set cs"
  shows "recordings_ok (t\<lparr>db_calls := cs\<rparr>)"
  using assms unfolding recordings_ok_def call_ids_def by simp blast

lemma update_keeps_ids:
  "(\<And>r. P r \<Longrightarrow> k (f r) = k r) \<Longrightarrow> k ` set (update_rows P f rows) = k ` set rows"
  by (metis map_update_rows list.set_map)

lemma recordings_ok_call_ops:
  "preserves recordings_ok (SaveCall call)" "preserves recordings_ok (db_DeleteCall now i)"
  "preserves recordings_ok (UpdateCallRecording i r s dur)"
  unfolding SaveCall_def upsert_call_def db_DeleteCall_def UpdateCallRecording_def Let_def
  by (rule op_rules | force simp: update_keeps_ids intro!: recordings_ok_calls split: if_splits)+

lemma clashes_cong:
  "clashes r r' \<Longrightarrow> clashes r' r"
  by (auto simp: clashes_def)

lemma recordings_ok_put:
  assumes ok: "recordings_ok t" and ids: "distinct (map rc_ID rs)"
    and call: "rc_CallID new \<in> call_ids t" and free: "\<forall>r \<in> set (db_recordings t). \<not> clashes new r"
    and rows: "set rs \<subseteq> insert new (set (db_recordings t))"
  shows "recordings_ok (t\<lparr>db_recordings := rs\<rparr>)"
proof -
  have self: "\<not> clashes new new" by (simp add: clashes_def)
  have "\<not> clashes r r'" if "r \<in> set rs" "r' \<in> set rs" for r r'
    using that rows free self clashes_cong [of r new] ok unfolding recordings_ok_def by blast
  moreover have "rc_CallID r \<in> call_ids t" if "r \<in> set rs" for r
    using that rows call ok unfolding recordings_ok_def by blast
  ultimately show ?thesis using ids by (simp add: recordings_ok_def call_ids_def)
qed

lemma recordings_ok_upsert:
  assumes "recordings_ok t" and "upsert_recording r t = (Inr u, t')"
  shows "recordings_ok t'"
proof (cases "find (\<lambda>old. rc_ID old = rc_ID r) (db_recordings t)")
  case None
  then have "rc_ID r \<notin> rc_ID ` set (db_recordings t)" by (auto simp: find_None_iff)
  moreover have "distinct (map rc_ID (db_recordings t))" using assms(1) by (simp add: recordings_ok_def)
  ultimately have "distinct (map rc_ID (db_recordings t @ [r]))" by auto
  then have "recordings_ok (t\<lparr>db_recordings := db_recordings t @ [r]\<rparr>)"
    if "rc_CallID r \<in> call_ids t" and "\<forall>x \<in> set (db_recordings t). \<not> clashes r x"
    using that by (intro recordings_ok_put [OF assms(1)]) auto
  with assms(2) None show ?thesis
    by (simp add: upsert_recording_def list_ex_iff call_ids_iff split: if_splits)
next
  case (Some old)
  then have old: "old \<in> set (db_recordings t)" "rc_ID old = rc_ID r" by (auto simp: find_Some_iff)
  let ?new = "r\<lparr>rc_CallID := rc_CallID old, rc_CreatedAt := rc_CreatedAt old\<rparr>"
  let ?rs = "update_rows (\<lambda>old. rc_ID old = rc_ID r) (\<lambda>_. ?new) (db_recordings t)"
  have "recordings_ok (t\<lparr>db_recordings := ?rs\<rparr>)" if "\<forall>x \<in> set (db_recordings t). \<not> clashes ?new x"
  proof (rule recordings_ok_put [of t _ ?new])
    show "distinct (map rc_ID ?rs)" using assms(1) by (simp add: map_update_rows recordings_ok_def)
    show "rc_CallID ?new \<in> call_ids t" using assms(1) old(1) by (simp add: recordings_ok_def)
    show "set ?rs \<subseteq> insert ?new (set (db_recordings t))" by (auto elim: set_update_rowsE)
  qed (use assms(1) that in simp_all)
  with assms(2) Some show ?thesis by (auto simp: upsert_recording_def Let_def list_ex_iff split: if_splits)
qed

lemma recordings_ok_SaveRecording: "preserves recordings_ok (SaveRecording now rec)"
  unfolding SaveRecording_def Let_def
  by (intro op_rules) (erule recordings_ok_upsert [rotated], simp)

lemma recordings_ok_step:
  assumes "db_step t ok t'" and "recordings_ok t"
  shows "recordings_ok t'"
  using assms(1)
  by (cases rule: db_step.cases, unfold device_op_defs claim_op_defs message_op_defs segment_op_defs
      EnsureRecordingSettings_def SaveRecordingSettings_def)
    (erule ran_preserves [where I = recordings_ok]
     | rule recordings_ok_call_ops recordings_ok_SaveRecording op_rules assms(2)
     | force split: if_splits option.splits)+

text \<open>C32: at most one recording of a call is being started, recorded or finalized, and every recording belongs
  to a call of the store, after any operations and any driver failures.\<close>

theorem one_recording_in_flight:
  assumes "db_reachable t" and "r \<in> set (db_recordings t)" and "r' \<in> set (db_recordings t)"
    and "rc_CallID r = rc_CallID r'" and "recording_in_flight r" and "recording_in_flight r'"
  shows "r = r' \<and> rc_CallID r \<in> call_ids t"
proof -
  have "recordings_ok t" using assms(1)
  proof (induction rule: db_reachable.induct)
    case start
    show ?case by (simp add: recordings_ok_def empty_tables_def)
  qed (rule recordings_ok_step)
  then have d: "distinct (map rc_ID (db_recordings t))" and "\<not> clashes r r'" and "rc_CallID r \<in> call_ids t"
    using assms(2,3) unfolding recordings_ok_def by blast+
  with assms(4,5,6) have "rc_ID r = rc_ID r'" by (auto simp: clashes_def)
  with d assms(2,3) \<open>rc_CallID r \<in> call_ids t\<close> show ?thesis by (auto simp: distinct_map inj_on_def)
qed

definition recorded_call :: Tables where
  "recorded_call = (let c = \<lparr>cl_ID = ''c1'', cl_Direction = ''inbound'', cl_Peer = ''10086'', cl_State = ''active'',
       cl_StartedAt = 1, cl_ConnectedAt = Some 2, cl_EndedAt = None, cl_EndReason = [], cl_RecordingID = [],
       cl_RecordingState = [], cl_RecordingDurationMs = None, cl_SyncSeq = 0\<rparr>;
     r = \<lparr>rc_ID = ''r1'', rc_CallID = ''c1'', rc_State = ''starting'', rc_TriggerMode = ''manual'',
       rc_StartedAt = Some 3, rc_StoppedAt = None, rc_DurationMs = None, rc_FilePath = [], rc_Container = [],
       rc_Codec = [], rc_SampleRate = 8000, rc_Channels = 1, rc_Bitrate = 0, rc_SizeBytes = None, rc_SHA256 = [],
       rc_WaveformPath = [], rc_FailureCode = [], rc_FailureDetail = [], rc_RetentionExpiresAt = None,
       rc_CreatedByDeviceID = [], rc_CreatedAt = 3, rc_UpdatedAt = 3, rc_SyncSeq = 0\<rparr>;
     t = fst (snd (SaveCall c (empty_tables, [])))
   in fst (snd (SaveRecording 3 r (t, []))))"

lemma recorded_call_reachable: "db_reachable recorded_call"
  unfolding recorded_call_def Let_def
  by (rule db_reachable.step [OF db_reachable.step [OF db_reachable.start db_step.SaveCall] db_step.SaveRecording])
    (auto simp: ran_def prod_eq_iff)

theorem one_recording_in_flight_witness:
  "rc_CallID (hd (db_recordings recorded_call)) \<in> call_ids recorded_call"
proof -
  let ?r = "hd (db_recordings recorded_call)"
  have "db_recordings recorded_call \<noteq> []" and "recording_in_flight ?r" by code_simp+
  then show ?thesis using one_recording_in_flight [OF recorded_call_reachable, of ?r ?r] by simp
qed

section \<open>Tokens and devices\<close>

text \<open>Once a device is revoked, and once a token of one kind is revoked, no step undoes it: a device id and a token
  hash are never taken a second time.\<close>

definition device_revoked :: "string \<Rightarrow> Tables \<Rightarrow> bool" where
  "device_revoked d t \<longleftrightarrow> list_ex (\<lambda>r. dv_ID r = d) (db_devices t) \<and>
     list_all (\<lambda>r. dv_ID r = d \<longrightarrow> dv_RevokedAt r \<noteq> None) (db_devices t)"

definition token_spent :: "byte list \<Rightarrow> Tables \<Rightarrow> bool" where
  "token_spent h t \<longleftrightarrow> list_ex (\<lambda>r. tk_Hash r = h) (db_tokens t) \<and>
     list_all (\<lambda>r. tk_Hash r = h \<longrightarrow> tk_RevokedAt r \<noteq> None) (db_tokens t)"

definition key_claimed :: "idempotency_key \<Rightarrow> Tables \<Rightarrow> bool" where
  "key_claimed key t \<longleftrightarrow> key \<in> fst ` set (db_idempotency t)"

lemma device_revoked_frame [simp]:
  "device_revoked d (t\<lparr>db_tokens := ks\<rparr>) = device_revoked d t"
  "device_revoked d (t\<lparr>db_idempotency := is\<rparr>) = device_revoked d t"
  "device_revoked d (t\<lparr>db_messages := ms\<rparr>) = device_revoked d t"
  "device_revoked d (t\<lparr>db_segments := ss\<rparr>) = device_revoked d t"
  "device_revoked d (t\<lparr>db_calls := cs\<rparr>) = device_revoked d t"
  "device_revoked d (t\<lparr>db_recordings := rs\<rparr>) = device_revoked d t"
  "device_revoked d (t\<lparr>db_settings := st\<rparr>) = device_revoked d t"
  "device_revoked d (t\<lparr>db_audit := au\<rparr>) = device_revoked d t"
  "device_revoked d (log_change ty i opn t) = device_revoked d t"
  by (simp_all add: device_revoked_def)

lemma token_spent_frame [simp]:
  "token_spent h (t\<lparr>db_devices := ds\<rparr>) = token_spent h t"
  "token_spent h (t\<lparr>db_idempotency := is\<rparr>) = token_spent h t"
  "token_spent h (t\<lparr>db_messages := ms\<rparr>) = token_spent h t"
  "token_spent h (t\<lparr>db_segments := ss\<rparr>) = token_spent h t"
  "token_spent h (t\<lparr>db_calls := cs\<rparr>) = token_spent h t"
  "token_spent h (t\<lparr>db_recordings := rs\<rparr>) = token_spent h t"
  "token_spent h (t\<lparr>db_settings := st\<rparr>) = token_spent h t"
  "token_spent h (t\<lparr>db_audit := au\<rparr>) = token_spent h t"
  "token_spent h (log_change ty i opn t) = token_spent h t"
  by (simp_all add: token_spent_def)

lemma key_claimed_frame [simp]:
  "key_claimed k (t\<lparr>db_devices := ds\<rparr>) = key_claimed k t" "key_claimed k (t\<lparr>db_tokens := ks\<rparr>) = key_claimed k t"
  "key_claimed k (t\<lparr>db_messages := ms\<rparr>) = key_claimed k t"
  "key_claimed k (t\<lparr>db_segments := ss\<rparr>) = key_claimed k t" "key_claimed k (t\<lparr>db_calls := cs\<rparr>) = key_claimed k t"
  "key_claimed k (t\<lparr>db_recordings := rs\<rparr>) = key_claimed k t"
  "key_claimed k (t\<lparr>db_settings := st\<rparr>) = key_claimed k t" "key_claimed k (t\<lparr>db_audit := au\<rparr>) = key_claimed k t"
  "key_claimed k (log_change ty i opn t) = key_claimed k t"
  by (simp_all add: key_claimed_def)

lemma list_ex_update:
  "(\<And>r. P r \<Longrightarrow> Q (f r) = Q r) \<Longrightarrow> list_ex Q (update_rows P f rows) = list_ex Q rows"
  by (induction rows) (auto simp: update_rows_def)

lemma list_all_update:
  "list_all Q rows \<Longrightarrow> (\<And>r. P r \<Longrightarrow> Q r \<Longrightarrow> Q (f r)) \<Longrightarrow> list_all Q (update_rows P f rows)"
  by (induction rows) (auto simp: update_rows_def)

lemma device_revoked_insert [simp]:
  "device_revoked d t \<Longrightarrow> insert_device r t = (u, t') \<Longrightarrow> device_revoked d t'"
  by (auto simp: device_revoked_def insert_device_def list_ex_iff split: if_splits)

lemma device_revoked_step:
  assumes "db_step t ok t'" and "device_revoked d t"
  shows "device_revoked d t'"
  using assms(1)
  by (cases rule: db_step.cases, unfold claim_op_defs call_op_defs recording_op_defs message_op_defs
      segment_op_defs CreateDevice_def StoreToken_def RevokeToken_def RevokeDevice_def AppendAudit_def
      RegisterPush_def insert_token_def)
    (erule ran_preserves [where I = "device_revoked d"] | rule op_rules assms(2) | erule (1) device_revoked_insert
     | force simp: device_revoked_def list_ex_update intro!: list_all_update split: if_splits option.splits)+

lemma token_spent_insert [simp]:
  "token_spent h t \<Longrightarrow> insert_token r t = (u, t') \<Longrightarrow> token_spent h t'"
  by (auto simp: token_spent_def insert_token_def list_ex_iff split: if_splits)

lemma token_spent_step:
  assumes "db_step t ok t'" and "token_spent h t"
  shows "token_spent h t'"
  using assms(1)
  by (cases rule: db_step.cases, unfold claim_op_defs call_op_defs recording_op_defs message_op_defs
      segment_op_defs CreateDevice_def StoreToken_def RevokeToken_def RevokeDevice_def AppendAudit_def
      RegisterPush_def insert_device_def)
    (erule ran_preserves [where I = "token_spent h"] | rule op_rules assms(2) | erule (1) token_spent_insert
     | force simp: token_spent_def list_ex_update intro!: list_all_update split: if_splits option.splits)+

lemma key_claimed_ops:
  "preserves (key_claimed k) (ClaimIdempotency d p q)"
  "preserves (key_claimed k) (CompleteIdempotency d p q code body)"
proof -
  show "preserves (key_claimed k) (ClaimIdempotency d p q)"
    unfolding ClaimIdempotency_def insert_claim_def
    by (intro op_rules) (auto simp: key_claimed_def split: if_splits)
  show "preserves (key_claimed k) (CompleteIdempotency d p q code body)"
    unfolding CompleteIdempotency_def Let_def
    by (intro op_rules) (auto simp: key_claimed_def update_keeps_ids case_prod_unfold)
qed

lemma key_claimed_step:
  assumes "db_step t ok t'" and "key_claimed k t"
  shows "key_claimed k t'"
  using assms(1)
  by (cases rule: db_step.cases, unfold device_op_defs call_op_defs recording_op_defs message_op_defs
      segment_op_defs)
    (erule ran_preserves [where I = "key_claimed k"] | rule key_claimed_ops op_rules assms(2)
     | force split: if_splits option.splits)+

lemma query_result: "query g (t, faults) = (Inr a, t', faults') \<Longrightarrow> a = g t \<and> t' = t"
  by (auto simp: query_def dest: driver_Inr)

text \<open>What a successful lookup says of the token and its device.\<close>

lemma LookupToken_result:
  assumes "LookupToken h kind now (t, faults) = (Inr d, t', faults')"
  shows "t' = t \<and> (\<exists>k \<in> set (db_tokens t). tk_Hash k = h \<and> tk_Kind k = kind \<and> now < tk_ExpiresAt k \<and>
     tk_RevokedAt k = None \<and> tk_DeviceID k = d) \<and> \<not> token_spent h t \<and> \<not> device_revoked d t"
proof -
  let ?Q = "\<lambda>d t'. t' = t \<and> (\<exists>k r. token_row h kind now t = Some (k, r) \<and> tk_RevokedAt k = None \<and>
      dv_RevokedAt r = None \<and> d = tk_DeviceID k)"
  have "wp (LookupToken h kind now) ?Q t"
    unfolding LookupToken_def by (intro op_rules) auto
  from wpD [OF this assms] obtain k r where t: "t' = t" and row: "token_row h kind now t = Some (k, r)"
    and live: "tk_RevokedAt k = None" "dv_RevokedAt r = None" "d = tk_DeviceID k" by blast
  from row have k: "k \<in> set (db_tokens t)" "tk_Hash k = h" "tk_Kind k = kind" "now < tk_ExpiresAt k"
    and r: "r \<in> set (db_devices t)" "dv_ID r = d"
    using live(3) by (auto simp: token_row_def find_Some_iff split: option.splits)
  have "\<not> token_spent h t" using k live by (auto simp: token_spent_def list_all_iff)
  moreover have "\<not> device_revoked d t" using r live by (auto simp: device_revoked_def list_all_iff)
  ultimately show ?thesis using t k live by blast
qed

lemma RevokeToken_result:
  assumes "RevokeToken now h kind (t, faults) = (Inr u, t', faults')"
    and "distinct (map tk_Hash (db_tokens t))"
  shows "\<not> token_spent h t \<and> token_spent h t'"
proof -
  let ?P = "\<lambda>k. tk_Hash k = h \<and> tk_Kind k = kind \<and> tk_RevokedAt k = None"
  let ?Q = "\<lambda>_ t'. list_ex ?P (db_tokens t) \<and>
     t' = t\<lparr>db_tokens := update_rows ?P (\<lambda>k. k\<lparr>tk_RevokedAt := Some now\<rparr>) (db_tokens t)\<rparr>"
  have "wp (RevokeToken now h kind) ?Q t"
    unfolding RevokeToken_def Let_def by (intro op_rules) auto
  from wpD [OF this assms(1)] have ex: "list_ex ?P (db_tokens t)"
    and t': "t' = t\<lparr>db_tokens := update_rows ?P (\<lambda>k. k\<lparr>tk_RevokedAt := Some now\<rparr>) (db_tokens t)\<rparr>" by blast+
  from ex obtain k where k: "k \<in> set (db_tokens t)" "?P k" by (auto simp: list_ex_iff)
  have same: "k' = k" if "k' \<in> set (db_tokens t)" "tk_Hash k' = h" for k'
    using that k assms(2) by (auto simp: distinct_map inj_on_def)
  have "tk_RevokedAt k' \<noteq> None" if "k' \<in> set (db_tokens t')" "tk_Hash k' = h" for k'
  proof -
    from that(1) have "k' \<in> set (update_rows ?P (\<lambda>k. k\<lparr>tk_RevokedAt := Some now\<rparr>) (db_tokens t))"
      unfolding t' by simp
    then show ?thesis
    proof (cases rule: set_update_rowsE)
      case 2
      with same [of k'] that(2) k show ?thesis by simp
    qed simp
  qed
  moreover have "list_ex (\<lambda>r. tk_Hash r = h) (db_tokens t)" using k by (auto simp: list_ex_iff)
  then have "list_ex (\<lambda>r. tk_Hash r = h) (db_tokens t')" unfolding t' by (simp add: list_ex_update)
  ultimately show ?thesis using k by (auto simp: token_spent_def list_all_iff)
qed

lemma RevokeDevice_result:
  assumes "RevokeDevice now d (t, faults) = (Inr u, t', faults')"
    and "distinct (map dv_ID (db_devices t))"
  shows "device_revoked d t'"
proof -
  let ?P = "\<lambda>r. dv_ID r = d \<and> dv_RevokedAt r = None"
  let ?Q = "\<lambda>_ t'. list_ex ?P (db_devices t) \<and>
     db_devices t' = update_rows ?P (\<lambda>r. r\<lparr>dv_RevokedAt := Some now\<rparr>) (db_devices t)"
  have "wp (RevokeDevice now d) ?Q t"
    unfolding RevokeDevice_def Let_def by (intro op_rules) auto
  from wpD [OF this assms(1)] have ex: "list_ex ?P (db_devices t)"
    and t': "db_devices t' = update_rows ?P (\<lambda>r. r\<lparr>dv_RevokedAt := Some now\<rparr>) (db_devices t)" by blast+
  from ex have "list_ex (\<lambda>r. dv_ID r = d) (db_devices t)" by (auto simp: list_ex_iff)
  then have "list_ex (\<lambda>r. dv_ID r = d) (db_devices t')" unfolding t' by (simp add: list_ex_update)
  moreover have "dv_RevokedAt r \<noteq> None" if "r \<in> set (db_devices t')" "dv_ID r = d" for r
    using that unfolding t' by (elim set_update_rowsE) auto
  ultimately show ?thesis by (simp add: device_revoked_def list_all_iff)
qed

section \<open>Keys of devices and tokens\<close>

definition access_ok :: "Tables \<Rightarrow> bool" where
  "access_ok t \<longleftrightarrow> distinct (map dv_ID (db_devices t)) \<and> distinct (map tk_Hash (db_tokens t))"

lemma access_ok_frame [simp]:
  "access_ok (t\<lparr>db_idempotency := is\<rparr>) = access_ok t" "access_ok (t\<lparr>db_messages := ms\<rparr>) = access_ok t"
  "access_ok (t\<lparr>db_segments := ss\<rparr>) = access_ok t" "access_ok (t\<lparr>db_calls := cs\<rparr>) = access_ok t"
  "access_ok (t\<lparr>db_recordings := rs\<rparr>) = access_ok t" "access_ok (t\<lparr>db_settings := st\<rparr>) = access_ok t"
  "access_ok (t\<lparr>db_audit := au\<rparr>) = access_ok t" "access_ok (log_change ty i opn t) = access_ok t"
  by (simp_all add: access_ok_def)

lemma access_ok_insert:
  "access_ok t \<Longrightarrow> insert_device r t = (u, t') \<Longrightarrow> access_ok t'"
  "access_ok t \<Longrightarrow> insert_token k t = (u, t') \<Longrightarrow> access_ok t'"
  by (fastforce simp: access_ok_def insert_device_def insert_token_def list_ex_iff split: if_splits)+

lemma access_ok_step:
  assumes "db_step t ok t'" and "access_ok t"
  shows "access_ok t'"
  using assms(1)
  by (cases rule: db_step.cases, unfold claim_op_defs call_op_defs recording_op_defs message_op_defs
      segment_op_defs CreateDevice_def StoreToken_def RevokeToken_def RevokeDevice_def AppendAudit_def
      RegisterPush_def)
    (erule ran_preserves [where I = access_ok] | rule op_rules assms(2) | erule (1) access_ok_insert
     | force simp: access_ok_def map_update_rows split: if_splits option.splits)+

lemma reachable_access_ok: "db_reachable t \<Longrightarrow> access_ok t"
proof (induction rule: db_reachable.induct)
  case start
  show ?case by (simp add: access_ok_def empty_tables_def)
qed (rule access_ok_step)

lemma db_steps_reachable: "db_reachable t \<Longrightarrow> db_steps t t' \<Longrightarrow> db_reachable t'"
  by (rule db_steps_preserve [of t t' db_reachable]) (auto intro: db_reachable.step)

end
