(* ===== verification/Net_Address.thy ===== *)
theory Net_Address
  imports At_Protocol Sms_Codec
begin

text \<open>
  The address checks of pairing, \<^verbatim>\<open>gateway/internal/auth/auth.go\<close>: \<^verbatim>\<open>isLocalAddress\<close>, \<^verbatim>\<open>isLoopbackAddress\<close>,
  \<^verbatim>\<open>isTailnetAddress\<close> and \<^verbatim>\<open>parseAddress\<close>, with what they use of Go's \<^verbatim>\<open>net\<close> package
  (\<^verbatim>\<open>SplitHostPort\<close>, \<^verbatim>\<open>ParseIP\<close>, the tests of \<^verbatim>\<open>net.IP\<close>). An address is its 16 octets, an IPv4 address
  in the mapped form, as \<^verbatim>\<open>ParseIP\<close> returns it.
\<close>

section \<open>Hosts and ports\<close>

text \<open>\<^verbatim>\<open>net.SplitHostPort\<close>: the host, or \<^term>\<open>None\<close> for its errors.\<close>

definition split_host :: "string \<Rightarrow> string option" where
  "split_host value =
     (case last_index_char value (CHR '':'') of
        None \<Rightarrow> None
      | Some i \<Rightarrow>
          if take 1 value = ''['' then
            (case str_index value '']'' of
               None \<Rightarrow> None
             | Some end_pos \<Rightarrow>
                 if end_pos + 1 = i \<and> CHR ''['' \<notin> set (drop 1 value) \<and> CHR '']'' \<notin> set (drop (end_pos + 1) value)
                 then Some (drop 1 (take end_pos value)) else None)
          else if CHR '':'' \<in> set (take i value) \<or> CHR ''['' \<in> set value \<or> CHR '']'' \<in> set value then None
          else Some (take i value))"

section \<open>Addresses\<close>

definition parse_octet :: "string \<Rightarrow> byte option" where
  "parse_octet s =
     (if s = [] \<or> 3 < length s \<or> \<not> list_all is_digit s \<or> (1 < length s \<and> hd s = CHR ''0'') \<or> 255 < digits_val s
      then None else Some (word_of_nat (digits_val s)))"

definition parse_ipv4 :: "string \<Rightarrow> byte list option" where
  "parse_ipv4 s =
     (case map parse_octet (split_char (CHR ''.'') s) of
        [Some a, Some b, Some c, Some d] \<Rightarrow> Some [a, b, c, d]
      | _ \<Rightarrow> None)"

text \<open>One step of \<^verbatim>\<open>ParseAddr\<close>'s loop over the groups of an IPv6 address: the octets so far, the position of
  the ellipsis, the rest of the text.\<close>

definition is_hex :: "char \<Rightarrow> bool" where
  "is_hex c = (hex_value c \<noteq> None)"

definition hex_group :: "string \<Rightarrow> nat" where
  "hex_group s = foldl (\<lambda>n c. 16 * n + (case hex_value c of Some v \<Rightarrow> v | None \<Rightarrow> 0)) 0 s"

function ipv6_groups :: "byte list \<Rightarrow> nat option \<Rightarrow> string \<Rightarrow> (byte list \<times> nat option) option" where
  "ipv6_groups octets ellipsis s =
     (if 16 \<le> length octets then (if s = [] then Some (octets, ellipsis) else None)
      else
        let ds = takeWhile is_hex s; rest = dropWhile is_hex s
        in if ds = [] \<or> 4 < length ds then None
           else if take 1 rest = ''.'' then
             (if (ellipsis = None \<and> length octets \<noteq> 12) \<or> 12 < length octets then None
              else map_option (\<lambda>v4. (octets @ v4, ellipsis)) (parse_ipv4 s))
           else
             let octets' = octets @ [word_of_nat (hex_group ds div 256), word_of_nat (hex_group ds mod 256)]
             in case rest of
                  [] \<Rightarrow> Some (octets', ellipsis)
                | c # [] \<Rightarrow> None
                | c # d # t \<Rightarrow>
                    if c \<noteq> CHR '':'' then None
                    else if d = CHR '':'' then
                      (if ellipsis \<noteq> None then None
                       else if t = [] then Some (octets', Some (length octets'))
                       else ipv6_groups octets' (Some (length octets')) t)
                    else ipv6_groups octets' ellipsis (d # t))"
  by pat_completeness auto
termination
  by (relation "measure (\<lambda>(octets, ellipsis, s). 16 - length octets)") (auto simp: Let_def)

declare ipv6_groups.simps [simp del]

definition ipv6_expand :: "byte list \<times> nat option \<Rightarrow> byte list option" where
  "ipv6_expand r =
     (case r of (octets, ellipsis) \<Rightarrow>
        if length octets < 16 then
          map_option (\<lambda>e. take e octets @ replicate (16 - length octets) 0 @ drop e octets) ellipsis
        else if ellipsis \<noteq> None then None else Some octets)"

definition parse_ipv6 :: "string \<Rightarrow> byte list option" where
  "parse_ipv6 s =
     (if s = ''::'' then Some (replicate 16 0)
      else Option.bind (if has_prefix s ''::'' then ipv6_groups [] (Some 0) (drop 2 s) else ipv6_groups [] None s)
             ipv6_expand)"

definition v4_prefix :: "byte list" where
  "v4_prefix = replicate 10 0 @ [0xFF, 0xFF]"

text \<open>\<^verbatim>\<open>net.ParseIP\<close>: the first dot or colon decides the family; a zone is refused.\<close>

definition ParseIP :: "string \<Rightarrow> byte list option" where
  "ParseIP s =
     (case find (\<lambda>c. c \<in> {CHR ''.'', CHR '':'', CHR ''%''}) s of
        Some c \<Rightarrow> if c = CHR ''.'' then map_option (\<lambda>v4. v4_prefix @ v4) (parse_ipv4 s)
                  else if c = CHR '':'' \<and> CHR ''%'' \<notin> set s then parse_ipv6 s else None
      | None \<Rightarrow> None)"

definition to4 :: "byte list \<Rightarrow> byte list option" where
  "to4 ip = (if take 12 ip = v4_prefix then Some (drop 12 ip) else None)"

definition IsLoopback :: "byte list \<Rightarrow> bool" where
  "IsLoopback ip = (case to4 ip of Some v4 \<Rightarrow> v4 ! 0 = 127 | None \<Rightarrow> ip = replicate 15 0 @ [1])"

definition IsPrivate :: "byte list \<Rightarrow> bool" where
  "IsPrivate ip =
     (case to4 ip of
        Some v4 \<Rightarrow> v4 ! 0 = 10 \<or> (v4 ! 0 = 172 \<and> v4 ! 1 AND 0xF0 = 16) \<or> (v4 ! 0 = 192 \<and> v4 ! 1 = 168)
      | None \<Rightarrow> ip ! 0 AND 0xFE = 0xFC)"

definition IsLinkLocalUnicast :: "byte list \<Rightarrow> bool" where
  "IsLinkLocalUnicast ip =
     (case to4 ip of
        Some v4 \<Rightarrow> v4 ! 0 = 169 \<and> v4 ! 1 = 254
      | None \<Rightarrow> ip ! 0 = 0xFE \<and> ip ! 1 AND 0xC0 = 0x80)"

section \<open>The checks\<close>

definition parseAddress :: "string \<Rightarrow> byte list option" where
  "parseAddress value = ParseIP (case split_host value of Some host \<Rightarrow> host | None \<Rightarrow> value)"

definition isLocalAddress :: "string \<Rightarrow> bool" where
  "isLocalAddress value =
     (case parseAddress value of
        None \<Rightarrow> False
      | Some ip \<Rightarrow> IsLoopback ip \<or> IsPrivate ip \<or> IsLinkLocalUnicast ip)"

definition isLoopbackAddress :: "string \<Rightarrow> bool" where
  "isLoopbackAddress value = (case parseAddress value of None \<Rightarrow> False | Some ip \<Rightarrow> IsLoopback ip)"

definition tailnet_v4 :: "byte list \<Rightarrow> bool" where
  "tailnet_v4 ip = (case to4 ip of Some v4 \<Rightarrow> v4 ! 0 = 100 \<and> v4 ! 1 AND 0xC0 = 64 | None \<Rightarrow> False)"

definition isTailnetAddress :: "string \<Rightarrow> bool" where
  "isTailnetAddress value =
     (case parseAddress value of None \<Rightarrow> False | Some ip \<Rightarrow> tailnet_v4 ip \<or> IsPrivate ip)"

section \<open>IPv4 addresses\<close>

definition dotted :: "nat \<Rightarrow> nat \<Rightarrow> nat \<Rightarrow> nat \<Rightarrow> string" where
  "dotted a b c d = nat_to_string a @ ''.'' @ nat_to_string b @ ''.'' @ nat_to_string c @ ''.'' @ nat_to_string d"

lemma nat_to_string_one: "n < 10 \<Longrightarrow> nat_to_string n = [char_of (48 + n)]"
  by (subst nat_to_string.simps) simp

lemma nat_to_string_more: "\<not> n < 10 \<Longrightarrow> nat_to_string n = nat_to_string (n div 10) @ [char_of (48 + n mod 10)]"
  by (subst nat_to_string.simps) simp

lemma nonzero_digit: "0 < (n :: nat) \<Longrightarrow> n < 10 \<Longrightarrow> (char_of (48 + n) :: char) \<noteq> CHR ''0''"
proof
  assume n: "0 < n" "n < 10" and eq: "(char_of (48 + n) :: char) = CHR ''0''"
  have "(of_char (char_of (48 + n) :: char) :: nat) = 48 + n" using n by simp
  moreover have "(of_char (CHR ''0'') :: nat) = 48" by simp
  ultimately show False using eq n by simp
qed

lemma nat_to_string_short:
  assumes "n < 256"
  shows "length (nat_to_string n) \<le> 3 \<and> (1 < length (nat_to_string n) \<longrightarrow> hd (nat_to_string n) \<noteq> CHR ''0'')"
proof (cases "n < 10")
  case False
  note more = nat_to_string_more [OF False]
  show ?thesis
  proof (cases "n div 10 < 10")
    case True
    moreover have "0 < n div 10" using False by (simp add: div_greater_zero_iff)
    ultimately show ?thesis unfolding more nat_to_string_one [OF True] by (simp add: nonzero_digit)
  next
    case f2: False
    have "0 < n div 10 div 10" using f2 by (simp add: div_greater_zero_iff del: div_mult2_eq)
    moreover have t: "n div 10 div 10 < 10" using assms by (simp add: div_less_iff_less_mult)
    ultimately show ?thesis
      unfolding more nat_to_string_more [OF f2] nat_to_string_one [OF t] by (simp add: nonzero_digit del: div_mult2_eq)
  qed
qed (simp add: nat_to_string_one)

lemma parse_octet_nat: "n < 256 \<Longrightarrow> parse_octet (nat_to_string n) = Some (word_of_nat n)"
  using nat_to_string_short [of n] nat_to_string_digits [of n] by (simp add: parse_octet_def)

lemma digits_free: "\<not> is_digit c \<Longrightarrow> c \<notin> set (nat_to_string n)"
  using nat_to_string_digits [of n] by (auto simp: list_all_iff)

lemma parse_ipv4_dotted:
  assumes "a < 256" "b < 256" "c < 256" "d < 256"
  shows "parse_ipv4 (dotted a b c d) = Some [word_of_nat a, word_of_nat b, word_of_nat c, word_of_nat d]"
proof -
  have free: "CHR ''.'' \<notin> set (nat_to_string n)" for n by (rule digits_free) (simp add: is_digit_def)
  have "split_char (CHR ''.'') (dotted a b c d) = map nat_to_string [a, b, c, d]"
    unfolding dotted_def by (simp add: split_char_sep split_char_free free)
  then show ?thesis by (simp add: parse_ipv4_def parse_octet_nat assms)
qed

lemma ParseIP_dotted:
  assumes "a < 256" "b < 256" "c < 256" "d < 256"
  shows "ParseIP (dotted a b c d) = Some (v4_prefix @ [word_of_nat a, word_of_nat b, word_of_nat c, word_of_nat d])"
proof -
  have "find (\<lambda>c. c \<in> {CHR ''.'', CHR '':'', CHR ''%''}) (u @ CHR ''.'' # t) = Some (CHR ''.'')"
    if "list_all is_digit u" for u t
    using that by (induction u) (auto simp: is_digit_def)
  then have "find (\<lambda>c. c \<in> {CHR ''.'', CHR '':'', CHR ''%''}) (dotted a b c d) = Some (CHR ''.'')"
    using nat_to_string_digits [of a] unfolding dotted_def by simp
  then show ?thesis by (simp add: ParseIP_def parse_ipv4_dotted assms)
qed

lemma last_index_char_append:
  "c \<notin> set t \<Longrightarrow> last_index_char (s @ c # t) c = Some (length s)"
proof (induction s)
  case Nil
  then have "last_index_char t c = None" by (induction t) auto
  then show ?case by simp
qed simp

lemma dotted_chars: "x \<in> set (dotted a b c d) \<Longrightarrow> is_digit x \<or> x = CHR ''.''"
  using nat_to_string_digits unfolding dotted_def list_all_iff by auto

lemma parseAddress_dotted:
  assumes "a < 256" "b < 256" "c < 256" "d < 256" and "list_all is_digit port"
  shows "parseAddress (dotted a b c d @ '':'' @ port) = Some (v4_prefix @ [word_of_nat a, word_of_nat b, word_of_nat c, word_of_nat d])"
proof -
  let ?h = "dotted a b c d"
  have chars: "x \<in> set ?h \<union> set port \<Longrightarrow> is_digit x \<or> x = CHR ''.''" for x
    using dotted_chars [of x a b c d] assms(5) by (auto simp: list_all_iff)
  then have no: "CHR '':'' \<notin> set ?h" "CHR '':'' \<notin> set port" "CHR ''['' \<notin> set (?h @ '':'' @ port)"
    "CHR '']'' \<notin> set (?h @ '':'' @ port)"
    using chars [of "CHR '':''"] chars [of "CHR ''[''"] chars [of "CHR '']''"] by (auto simp: is_digit_def)
  obtain x t where h: "?h = x # t" "x \<noteq> CHR ''[''"
  proof -
    obtain x u where x: "nat_to_string a = x # u" "is_digit x" using nat_to_string_head [of a] by blast
    then have "x \<noteq> CHR ''[''" by (auto simp: is_digit_def)
    with x(1) show ?thesis using that unfolding dotted_def by simp
  qed
  have "split_host (?h @ '':'' @ port) = Some ?h"
    using no last_index_char_append [of "CHR '':''" port ?h] h by (simp add: split_host_def)
  then show ?thesis by (simp add: parseAddress_def ParseIP_dotted assms(1-4))
qed

lemma byte_eq_iff: "n < 256 \<Longrightarrow> m < 256 \<Longrightarrow> (word_of_nat n :: byte) = word_of_nat m \<longleftrightarrow> n = m"
  by (simp add: word_of_nat_eq_iff take_bit_eq_mod)

lemma octet_masks:
  assumes "n < 256"
  shows "(word_of_nat n :: byte) AND 0xF0 = 16 \<longleftrightarrow> 16 \<le> n \<and> n \<le> 31"
    and "(word_of_nat n :: byte) AND 0xC0 = 64 \<longleftrightarrow> 64 \<le> n \<and> n \<le> 127"
proof -
  have "list_all (\<lambda>n. ((word_of_nat n :: byte) AND 0xF0 = 16 \<longleftrightarrow> 16 \<le> n \<and> n \<le> 31) \<and>
      ((word_of_nat n :: byte) AND 0xC0 = 64 \<longleftrightarrow> 64 \<le> n \<and> n \<le> 127)) [0..<256]" by code_simp
  moreover have "n \<in> set [0..<256]" using assms by simp
  ultimately show "(word_of_nat n :: byte) AND 0xF0 = 16 \<longleftrightarrow> 16 \<le> n \<and> n \<le> 31"
    and "(word_of_nat n :: byte) AND 0xC0 = 64 \<longleftrightarrow> 64 \<le> n \<and> n \<le> 127"
    unfolding list_all_iff by blast+
qed

definition private_v4 :: "nat \<Rightarrow> nat \<Rightarrow> bool" where
  "private_v4 a b = (a = 10 \<or> (a = 172 \<and> 16 \<le> b \<and> b \<le> 31) \<or> (a = 192 \<and> b = 168))"

lemma v4_address_checks:
  assumes "a < 256" "b < 256" "c < 256" "d < 256" and "list_all is_digit port"
  shows "isLocalAddress (dotted a b c d @ '':'' @ port) = (a = 127 \<or> private_v4 a b \<or> (a = 169 \<and> b = 254)) \<and>
    isLoopbackAddress (dotted a b c d @ '':'' @ port) = (a = 127) \<and>
    isTailnetAddress (dotted a b c d @ '':'' @ port) = ((a = 100 \<and> 64 \<le> b \<and> b \<le> 127) \<or> private_v4 a b)"
proof -
  have eq: "(word_of_nat n :: byte) = numeral k \<longleftrightarrow> n = numeral k" if "n < 256" "numeral k < (256 :: nat)" for n k
    using byte_eq_iff [OF that] by simp
  show ?thesis
    unfolding isLocalAddress_def isLoopbackAddress_def isTailnetAddress_def parseAddress_dotted [OF assms]
    using assms(1,2)
    by (simp add: IsLoopback_def IsPrivate_def IsLinkLocalUnicast_def tailnet_v4_def to4_def v4_prefix_def
        private_v4_def eq octet_masks)
qed

text \<open>Which IPv4 peers may start a pairing: on the local network those of the loopback, private and link
  local ranges; on the tailnet listener those of the loopback range for the proxy, of \<open>100.64/10\<close> and
  the private ranges. No public address passes either check.\<close>

theorem pairing_peers_v4:
  assumes "a < 256" "b < 256" "c < 256" "d < 256" and "list_all is_digit port"
  shows "isLocalAddress (dotted a b c d @ '':'' @ port) = (a = 127 \<or> private_v4 a b \<or> (a = 169 \<and> b = 254)) \<and>
    isLoopbackAddress (dotted a b c d @ '':'' @ port) = (a = 127) \<and>
    isTailnetAddress (dotted a b c d @ '':'' @ port) = ((a = 100 \<and> 64 \<le> b \<and> b \<le> 127) \<or> private_v4 a b)"
  by (rule v4_address_checks [OF assms])

theorem pairing_peers_v4_witness:
  "isLocalAddress ''192.168.1.20:51000'' \<and> \<not> isTailnetAddress ''8.8.8.8:443'' \<and> \<not> isLocalAddress ''8.8.8.8:443''"
proof -
  have n: "nat_to_string 192 = ''192''" "nat_to_string 168 = ''168''" "nat_to_string (Suc 0) = ''1''"
    "nat_to_string 20 = ''20''" "nat_to_string 8 = ''8''" by code_simp+
  have "list_all is_digit ''51000''" "list_all is_digit ''443''" by code_simp+
  then show ?thesis
    using pairing_peers_v4 [of 192 168 1 20 "''51000''"] pairing_peers_v4 [of 8 8 8 8 "''443''"]
    by (simp add: dotted_def n private_v4_def)
qed

end
