(* ===== verification/Auth_Service.thy ===== *)
theory Auth_Service
  imports Db_Access Net_Address
begin

text \<open>
  Pairing and tokens, \<^verbatim>\<open>gateway/internal/auth/auth.go\<close>, over the \<^verbatim>\<open>TokenStore\<close> interface. The store is a
  record of operations, as the code's interface value is; what the service relies on is the locale
  \<open>token_store\<close>, which the database interprets. Random values are parameters (\<^term>\<open>None\<close> when the system's
  source fails), as are the two primitives of Go's \<^verbatim>\<open>crypto\<close> packages: \<open>sha\<close> for \<^verbatim>\<open>sha256.Sum256\<close> and \<open>verify\<close>
  for \<^verbatim>\<open>ed25519.Verify\<close>. Times are milliseconds.
\<close>

section \<open>The service\<close>

definition PairingLifetime :: timestamp where "PairingLifetime = 5 * 60000"

definition AccessLifetime :: timestamp where "AccessLifetime = 15 * 60000"

definition RefreshLifetime :: timestamp where "RefreshLifetime = 30 * 24 * 3600000"

definition AccessToken :: string where "AccessToken = ''access''"

definition RefreshToken :: string where "RefreshToken = ''refresh''"

datatype 'e auth_error = PairingLocalOnly | RandomFailure | ErrPairingExpired | ErrInvalidProof
  | ErrInvalidToken | ErrDeviceRevoked | StoreFailure 'e

record ('e, 's) TokenStore =
  sto_CreateDevice :: "string \<Rightarrow> string \<Rightarrow> byte list \<Rightarrow> 's \<Rightarrow> ('e, unit) result \<times> 's"
  sto_StoreToken :: "byte list \<Rightarrow> string \<Rightarrow> string \<Rightarrow> timestamp \<Rightarrow> timestamp \<Rightarrow> 's \<Rightarrow> ('e, unit) result \<times> 's"
  sto_LookupToken :: "byte list \<Rightarrow> string \<Rightarrow> timestamp \<Rightarrow> 's \<Rightarrow> ('e, string) result \<times> 's"
  sto_RevokeToken :: "byte list \<Rightarrow> string \<Rightarrow> 's \<Rightarrow> ('e, unit) result \<times> 's"
  sto_RevokeDevice :: "string \<Rightarrow> 's \<Rightarrow> ('e, unit) result \<times> 's"

record pairing =
  pr_ID :: string
  pr_Secret :: string
  pr_ExpiresAt :: timestamp

record AuthService =
  as_GatewayID :: string
  as_pairings :: "(string \<times> pairing) list"

record PairingStart =
  ps_GatewayID :: string
  ps_PairingID :: string
  ps_OneTimeSecret :: string
  ps_ExpiresAt :: timestamp
  ps_Fingerprint :: string

definition NewService :: "string \<Rightarrow> AuthService" where
  "NewService gatewayID = \<lparr>as_GatewayID = gatewayID, as_pairings = []\<rparr>"

definition startPairing ::
  "string option \<Rightarrow> string option \<Rightarrow> timestamp \<Rightarrow> string \<Rightarrow> AuthService \<Rightarrow>
   ('e auth_error, PairingStart) result \<times> AuthService" where
  "startPairing fresh_id fresh_secret now fingerprint a =
     (case fresh_id of None \<Rightarrow> (Inl RandomFailure, a) | Some pairingID \<Rightarrow>
     (case fresh_secret of None \<Rightarrow> (Inl RandomFailure, a) | Some secret \<Rightarrow>
        let expiresAt = now + PairingLifetime
        in (Inr \<lparr>ps_GatewayID = as_GatewayID a, ps_PairingID = pairingID, ps_OneTimeSecret = secret,
                 ps_ExpiresAt = expiresAt div 1000, ps_Fingerprint = fingerprint\<rparr>,
            a\<lparr>as_pairings := map_put pairingID
                 \<lparr>pr_ID = pairingID, pr_Secret = secret, pr_ExpiresAt = expiresAt\<rparr> (as_pairings a)\<rparr>)))"

definition StartPairing ::
  "string option \<Rightarrow> string option \<Rightarrow> timestamp \<Rightarrow> string \<Rightarrow> string \<Rightarrow> AuthService \<Rightarrow>
   ('e auth_error, PairingStart) result \<times> AuthService" where
  "StartPairing fresh_id fresh_secret now remoteAddr fingerprint a =
     (if \<not> isLocalAddress remoteAddr then (Inl PairingLocalOnly, a)
      else startPairing fresh_id fresh_secret now fingerprint a)"

definition StartPairingFromTailnet ::
  "string option \<Rightarrow> string option \<Rightarrow> timestamp \<Rightarrow> string \<Rightarrow> string \<Rightarrow> AuthService \<Rightarrow>
   ('e auth_error, PairingStart) result \<times> AuthService" where
  "StartPairingFromTailnet fresh_id fresh_secret now remoteAddr fingerprint a =
     (if \<not> isLoopbackAddress remoteAddr \<and> \<not> isTailnetAddress remoteAddr then (Inl PairingLocalOnly, a)
      else startPairing fresh_id fresh_secret now fingerprint a)"

definition issueTokens ::
  "('e, 's) TokenStore \<Rightarrow> (string \<Rightarrow> byte list) \<Rightarrow> string option \<Rightarrow> string option \<Rightarrow> timestamp \<Rightarrow> string \<Rightarrow> 's \<Rightarrow>
   ('e auth_error, string \<times> string) result \<times> 's" where
  "issueTokens st sha fresh_access fresh_refresh now deviceID s =
     (case fresh_access of None \<Rightarrow> (Inl RandomFailure, s) | Some access_token \<Rightarrow>
     (case fresh_refresh of None \<Rightarrow> (Inl RandomFailure, s) | Some refresh_token \<Rightarrow>
     (case sto_StoreToken st (sha access_token) deviceID AccessToken now (now + AccessLifetime) s of
        (Inl e, s1) \<Rightarrow> (Inl (StoreFailure e), s1)
      | (Inr _, s1) \<Rightarrow>
         (case sto_StoreToken st (sha refresh_token) deviceID RefreshToken now (now + RefreshLifetime) s1 of
            (Inl e, s2) \<Rightarrow> (Inl (StoreFailure e), s2)
          | (Inr _, s2) \<Rightarrow> (Inr (access_token, refresh_token), s2)))))"

text \<open>What the device signs.\<close>

definition pairing_message :: "string \<Rightarrow> string \<Rightarrow> string \<Rightarrow> string \<Rightarrow> string" where
  "pairing_message pairingID secret gatewayID deviceName =
     join_char newline [pairingID, secret, gatewayID, deviceName]"

text \<open>\<^verbatim>\<open>Complete\<close>: \<open>now\<close> at the expiry check, \<open>now2\<close> when the tokens are issued.\<close>

definition pairing_Complete ::
  "('e, 's) TokenStore \<Rightarrow> (string \<Rightarrow> byte list) \<Rightarrow> (byte list \<Rightarrow> string \<Rightarrow> byte list \<Rightarrow> bool) \<Rightarrow>
   string option \<times> string option \<times> string option \<Rightarrow> timestamp \<Rightarrow> timestamp \<Rightarrow>
   string \<Rightarrow> string \<Rightarrow> byte list \<Rightarrow> byte list \<Rightarrow> AuthService \<times> 's \<Rightarrow>
   ('e auth_error, string \<times> string \<times> string) result \<times> AuthService \<times> 's" where
  "pairing_Complete st sha verify fresh now now2 pairingID deviceName publicKey proof_bytes w =
     (case w of (a, s) \<Rightarrow>
        let found = map_of (as_pairings a) pairingID;
            a' = a\<lparr>as_pairings := map_del pairingID (as_pairings a)\<rparr>
        in case found of
             None \<Rightarrow> (Inl ErrPairingExpired, a', s)
           | Some p \<Rightarrow>
               if \<not> now < pr_ExpiresAt p then (Inl ErrPairingExpired, a', s)
               else if \<not> verify publicKey (pairing_message pairingID (pr_Secret p) (as_GatewayID a) deviceName) proof_bytes
               then (Inl ErrInvalidProof, a', s)
               else
                 (case fresh of (fresh_device, fresh_access, fresh_refresh) \<Rightarrow>
                    (case fresh_device of None \<Rightarrow> (Inl RandomFailure, a', s) | Some deviceID \<Rightarrow>
                    (case sto_CreateDevice st deviceID deviceName publicKey s of
                       (Inl e, s1) \<Rightarrow> (Inl (StoreFailure e), a', s1)
                     | (Inr _, s1) \<Rightarrow>
                        (case issueTokens st sha fresh_access fresh_refresh now2 deviceID s1 of
                           (Inl e, s2) \<Rightarrow> (Inl e, a', s2)
                         | (Inr (access_token, refresh_token), s2) \<Rightarrow>
                             (Inr (deviceID, access_token, refresh_token), a', s2))))))"

text \<open>\<^verbatim>\<open>Authorize\<close>: \<open>revoked\<close> is \<^verbatim>\<open>errors.Is(err, ErrDeviceRevoked)\<close> on the errors of the store.\<close>

definition Authorize ::
  "('e, 's) TokenStore \<Rightarrow> (string \<Rightarrow> byte list) \<Rightarrow> ('e \<Rightarrow> bool) \<Rightarrow> timestamp \<Rightarrow> string \<Rightarrow> 's \<Rightarrow>
   ('e auth_error, string) result \<times> 's" where
  "Authorize st sha revoked now token s =
     (if token = [] then (Inl ErrInvalidToken, s)
      else (case sto_LookupToken st (sha token) AccessToken now s of
              (Inl e, s') \<Rightarrow> (Inl (if revoked e then ErrDeviceRevoked else ErrInvalidToken), s')
            | (Inr deviceID, s') \<Rightarrow> (Inr deviceID, s')))"

definition Refresh ::
  "('e, 's) TokenStore \<Rightarrow> (string \<Rightarrow> byte list) \<Rightarrow> string option \<times> string option \<Rightarrow> timestamp \<Rightarrow> timestamp \<Rightarrow>
   string \<Rightarrow> 's \<Rightarrow> ('e auth_error, string \<times> string) result \<times> 's" where
  "Refresh st sha fresh now now2 token s =
     (case sto_LookupToken st (sha token) RefreshToken now s of
        (Inl e, s1) \<Rightarrow> (Inl ErrInvalidToken, s1)
      | (Inr deviceID, s1) \<Rightarrow>
         (case sto_RevokeToken st (sha token) RefreshToken s1 of
            (Inl e, s2) \<Rightarrow> (Inl (StoreFailure e), s2)
          | (Inr _, s2) \<Rightarrow> issueTokens st sha (fst fresh) (snd fresh) now2 deviceID s2))"

definition auth_Revoke :: "('e, 's) TokenStore \<Rightarrow> string \<Rightarrow> 's \<Rightarrow> ('e, unit) result \<times> 's" where
  "auth_Revoke st deviceID s = sto_RevokeDevice st deviceID s"

section \<open>Pairings are used once\<close>

text \<open>C16: whatever a completion answers, it consumes its pairing: a second one with the same pairing id is
  refused as expired and does not reach the store. A completion that succeeds had an unexpired pairing
  and a proof that verifies over that pairing's secret.\<close>

theorem pairing_used_once:
  assumes "pairing_Complete st sha verify fresh now now2 i name key pf (a, s) = (r, a', s')"
  shows "pairing_Complete st sha verify fresh2 now3 now4 i name2 key2 pf2 (a', s'') = (Inl ErrPairingExpired, a', s'') \<and>
    (\<forall>res. r = Inr res \<longrightarrow> (\<exists>p. map_of (as_pairings a) i = Some p \<and> now < pr_ExpiresAt p \<and>
       verify key (pairing_message i (pr_Secret p) (as_GatewayID a) name) pf))"
proof (intro conjI allI impI)
  have a': "a' = a\<lparr>as_pairings := map_del i (as_pairings a)\<rparr>"
    using assms by (auto simp: pairing_Complete_def Let_def split: option.splits if_splits prod.splits sum.splits)
  have "map_del i (map_del i m) = map_del i m" for m :: "(string \<times> pairing) list"
    by (simp add: map_del_def)
  then show "pairing_Complete st sha verify fresh2 now3 now4 i name2 key2 pf2 (a', s'') = (Inl ErrPairingExpired, a', s'')"
    by (simp add: a' pairing_Complete_def)
  show "\<exists>p. map_of (as_pairings a) i = Some p \<and> now < pr_ExpiresAt p \<and>
       verify key (pairing_message i (pr_Secret p) (as_GatewayID a) name) pf" if "r = Inr res" for res
    using assms that by (auto simp: pairing_Complete_def Let_def split: option.splits if_splits)
qed

lemma cut_at_first: "x @ c # y = x' @ c # y' \<Longrightarrow> c \<notin> set x \<Longrightarrow> c \<notin> set x' \<Longrightarrow> x = x' \<and> y = y'"
proof (induction x arbitrary: x')
  case Nil
  then show ?case by (cases x') auto
next
  case (Cons z x)
  then show ?case by (cases x') auto
qed

text \<open>The signed text fixes the pairing it is for: ids, secrets and gateway ids have no line breaks (they are
  hexadecimal or base64 text), so a proof for one pairing, gateway or device name is a proof for no other.\<close>

theorem pairing_message_injective:
  assumes "pairing_message i s g n = pairing_message i' s' g' n'"
    and "newline \<notin> set i" "newline \<notin> set i'" "newline \<notin> set s" "newline \<notin> set s'" "newline \<notin> set g" "newline \<notin> set g'"
  shows "i = i' \<and> s = s' \<and> g = g' \<and> n = n'"
proof -
  have "i @ newline # s @ newline # g @ newline # n = i' @ newline # s' @ newline # g' @ newline # n'"
    using assms(1) by (simp add: pairing_message_def)
  from cut_at_first [OF this assms(2,3)] have "i = i'"
    and "s @ newline # g @ newline # n = s' @ newline # g' @ newline # n'" by simp_all
  moreover from cut_at_first [OF this(2) assms(4,5)] have "s = s'"
    and "g @ newline # n = g' @ newline # n'" by simp_all
  moreover from cut_at_first [OF this(2) assms(6,7)] have "g = g'" and "n = n'" by simp_all
  ultimately show ?thesis by simp
qed

section \<open>What the service needs of its store\<close>

text \<open>\<open>later\<close> is anything the store may go through, by this service or by others; a \<open>spent\<close> token and a
  \<open>banned\<close> device stay so, and a lookup never returns one.\<close>

locale token_store =
  fixes st :: "('e, 's) TokenStore"
    and wf :: "'s \<Rightarrow> bool" and later :: "'s \<Rightarrow> 's \<Rightarrow> bool"
    and spent :: "byte list \<Rightarrow> 's \<Rightarrow> bool" and banned :: "string \<Rightarrow> 's \<Rightarrow> bool"
  assumes later_refl: "later s s"
    and later_trans: "later s s' \<Longrightarrow> later s' s'' \<Longrightarrow> later s s''"
    and later_wf: "wf s \<Longrightarrow> later s s' \<Longrightarrow> wf s'"
    and later_spent: "spent h s \<Longrightarrow> later s s' \<Longrightarrow> spent h s'"
    and later_banned: "banned d s \<Longrightarrow> later s s' \<Longrightarrow> banned d s'"
    and lookup_later: "sto_LookupToken st h k now s = (r, s') \<Longrightarrow> later s s'"
    and store_later: "sto_StoreToken st h d k c e s = (r', s') \<Longrightarrow> later s s'"
    and revoke_later: "sto_RevokeToken st h k s = (r', s') \<Longrightarrow> later s s'"
    and lookup_usable: "sto_LookupToken st h k now s = (Inr d, s') \<Longrightarrow> \<not> spent h s \<and> \<not> banned d s"
    and revoke_spends: "wf s \<Longrightarrow> sto_RevokeToken st h k s = (Inr u, s') \<Longrightarrow> \<not> spent h s \<and> spent h s'"
    and revoke_bans: "wf s \<Longrightarrow> sto_RevokeDevice st d s = (Inr u, s') \<Longrightarrow> banned d s'"
begin

lemma issue_later: "issueTokens st sha fa fr now d s = (r, s') \<Longrightarrow> later s s'"
  by (auto simp: issueTokens_def split: option.splits prod.splits sum.splits
      intro: later_refl dest!: store_later elim!: later_trans)

lemma authorize_banned:
  "Authorize st sha revoked now token s = (Inr d, s') \<Longrightarrow> \<not> banned d s"
  by (auto simp: Authorize_def split: if_splits prod.splits sum.splits dest: lookup_usable)

lemma refresh_spends:
  assumes "wf s" and "Refresh st sha fresh now now2 token s = (Inr u, s')"
  shows "\<not> spent (sha token) s \<and> spent (sha token) s'"
proof -
  from assms(2) obtain d s1 u2 s2 where l: "sto_LookupToken st (sha token) RefreshToken now s = (Inr d, s1)"
    and r: "sto_RevokeToken st (sha token) RefreshToken s1 = (Inr u2, s2)"
    and i: "issueTokens st sha (fst fresh) (snd fresh) now2 d s2 = (Inr u, s')"
    by (auto simp: Refresh_def split: prod.splits sum.splits)
  from l have "wf s1" using assms(1) lookup_later later_wf by blast
  from revoke_spends [OF this r] have "spent (sha token) s2" by simp
  with i have "spent (sha token) s'" using issue_later later_spent by blast
  with lookup_usable [OF l] show ?thesis by simp
qed

lemma refresh_once:
  assumes "wf s" and "Refresh st sha fresh now now2 token s = (Inr u, s1)" and "later s1 s2"
  shows "fst (Refresh st sha fresh' now' now2' token s2) = Inl ErrInvalidToken"
proof -
  have "spent (sha token) s2" using refresh_spends [OF assms(1,2)] assms(3) later_spent by blast
  then obtain e s3 where "sto_LookupToken st (sha token) RefreshToken now' s2 = (Inl e, s3)"
    using lookup_usable by (metis obj_sumE surj_pair)
  then show ?thesis by (simp add: Refresh_def)
qed

lemma revoked_stays_out:
  assumes "wf s" and "auth_Revoke st d s = (Inr u, s1)" and "later s1 s2"
    and "Authorize st sha revoked now token s2 = (Inr d', s3)"
  shows "d' \<noteq> d"
proof -
  have "banned d s2" using assms(1,2,3) revoke_bans later_banned unfolding auth_Revoke_def by blast
  with authorize_banned [OF assms(4)] show ?thesis by blast
qed

end

section \<open>The database provides it\<close>

text \<open>\<open>clock\<close> is the store's own time stamp of a revocation.\<close>

definition db_token_store :: "timestamp \<Rightarrow> (db_error, db_state) TokenStore" where
  "db_token_store clock = \<lparr>sto_CreateDevice = CreateDevice, sto_StoreToken = StoreToken,
     sto_LookupToken = LookupToken, sto_RevokeToken = RevokeToken clock, sto_RevokeDevice = RevokeDevice clock\<rparr>"

definition db_later :: "db_state \<Rightarrow> db_state \<Rightarrow> bool" where
  "db_later s s' = db_steps (fst s) (fst s')"

definition db_wf :: "db_state \<Rightarrow> bool" where
  "db_wf s = db_reachable (fst s)"

lemma step_later: "db_step (fst s) ok (fst s') \<Longrightarrow> db_later s s'"
  unfolding db_later_def db_steps_def by blast

lemma ran_fst: "m s = (r, s') \<Longrightarrow> ran m (fst s) (\<not> isl r) (fst s')"
  unfolding ran_def by (metis prod.collapse)

interpretation db_tokens: token_store "db_token_store clock" db_wf db_later
  "\<lambda>h s. token_spent h (fst s)" "\<lambda>d s. device_revoked d (fst s)" for clock
proof
  fix s s' s'' :: db_state and h k d now c e u and r :: "(db_error, string) result" and r' :: "(db_error, unit) result"
  show "db_later s s" by (simp add: db_later_def)
  show "db_later s s' \<Longrightarrow> db_later s' s'' \<Longrightarrow> db_later s s''"
    unfolding db_later_def db_steps_def by (rule rtranclp_trans)
  show "db_wf s \<Longrightarrow> db_later s s' \<Longrightarrow> db_wf s'"
    unfolding db_later_def db_wf_def by (rule db_steps_reachable)
  show "token_spent h (fst s) \<Longrightarrow> db_later s s' \<Longrightarrow> token_spent h (fst s')"
    unfolding db_later_def by (rule db_steps_preserve [where I = "token_spent h"]) (auto intro: token_spent_step)
  show "device_revoked d (fst s) \<Longrightarrow> db_later s s' \<Longrightarrow> device_revoked d (fst s')"
    unfolding db_later_def by (rule db_steps_preserve [where I = "device_revoked d"]) (auto intro: device_revoked_step)
  show "sto_LookupToken (db_token_store clock) h k now s = (r, s') \<Longrightarrow> db_later s s'"
    by (cases s; cases s') (auto simp: db_token_store_def LookupToken_def then_do_def query_def driver_def
        fail_def give_def db_later_def split: if_splits sum.splits prod.splits option.splits)
  show "sto_StoreToken (db_token_store clock) h d k c e s = (r', s') \<Longrightarrow> db_later s s'"
    unfolding db_token_store_def by simp (drule ran_fst, rule step_later, erule db_step.StoreToken)
  show "sto_RevokeToken (db_token_store clock) h k s = (r', s') \<Longrightarrow> db_later s s'"
    unfolding db_token_store_def by simp (drule ran_fst, rule step_later, erule db_step.RevokeToken)
  show "sto_LookupToken (db_token_store clock) h k now s = (Inr d, s') \<Longrightarrow>
      \<not> token_spent h (fst s) \<and> \<not> device_revoked d (fst s)"
    unfolding db_token_store_def by (cases s; cases s') (auto dest: LookupToken_result)
  show "db_wf s \<Longrightarrow> sto_RevokeToken (db_token_store clock) h k s = (Inr u, s') \<Longrightarrow>
      \<not> token_spent h (fst s) \<and> token_spent h (fst s')"
    unfolding db_token_store_def db_wf_def
    by (cases s; cases s') (auto dest!: RevokeToken_result reachable_access_ok simp: access_ok_def)
  show "db_wf s \<Longrightarrow> sto_RevokeDevice (db_token_store clock) d s = (Inr u, s') \<Longrightarrow> device_revoked d (fst s')"
    unfolding db_token_store_def db_wf_def
    by (cases s; cases s') (auto dest!: RevokeDevice_result reachable_access_ok simp: access_ok_def)
qed

section \<open>Properties over the database\<close>

text \<open>C14: once the revocation of a device has succeeded, no request of any token authorizes as that device, whatever
  the store goes through in between.\<close>

theorem revoked_device_stays_out:
  assumes "db_reachable t" and "auth_Revoke (db_token_store clock) d (t, faults) = (Inr u, t1, faults1)"
    and "db_steps t1 t2"
    and "Authorize (db_token_store clock2) sha revoked now token (t2, faults2) = (Inr d', s)"
  shows "d' \<noteq> d"
proof -
  have "device_revoked d t2"
    using db_tokens.revoke_bans [of "(t, faults)" clock d u "(t1, faults1)"] assms(1-3)
      db_tokens.later_banned [of d "(t1, faults1)" "(t2, faults2)"]
    by (simp add: db_wf_def auth_Revoke_def db_later_def)
  with db_tokens.authorize_banned [OF assms(4)] show ?thesis by auto
qed

text \<open>C15: a refresh token is exchanged at most once: after a refresh that succeeded, every later refresh with the
  same token is refused.\<close>

theorem refresh_token_used_once:
  assumes "db_reachable t" and "Refresh (db_token_store clock) sha fresh now now2 token (t, faults) = (Inr u, t1, faults1)"
    and "db_steps t1 t2"
  shows "fst (Refresh (db_token_store clock) sha fresh' now' now2' token (t2, faults2)) = Inl ErrInvalidToken"
  using db_tokens.refresh_once [OF _ assms(2), of "(t2, faults2)"] assms(1,3)
  by (simp add: db_wf_def db_later_def)

text \<open>A request is authorized only by an unexpired, unrevoked access token of that device.\<close>

theorem authorized_by_live_token:
  assumes "Authorize (db_token_store clock) sha revoked now token (t, faults) = (Inr d, s)"
  shows "token \<noteq> [] \<and> (\<exists>k \<in> set (db_tokens t). tk_Hash k = sha token \<and> tk_Kind k = AccessToken \<and>
     tk_DeviceID k = d \<and> now < tk_ExpiresAt k \<and> tk_RevokedAt k = None) \<and> \<not> device_revoked d t"
proof -
  from assms obtain t' f' where ne: "token \<noteq> []"
    and l: "LookupToken (sha token) AccessToken now (t, faults) = (Inr d, t', f')"
    by (auto simp: Authorize_def db_token_store_def split: if_splits prod.splits sum.splits)
  with LookupToken_result [OF l] show ?thesis by blast
qed

lemma StoreToken_result:
  assumes "StoreToken h d k c e (t, faults) = (Inr u, t', faults')"
  shows "t' = t\<lparr>db_tokens := db_tokens t @ [\<lparr>tk_Hash = h, tk_DeviceID = d, tk_Kind = k, tk_CreatedAt = c,
     tk_ExpiresAt = e, tk_RevokedAt = None\<rparr>]\<rparr> \<and> (\<forall>r \<in> set (db_tokens t). tk_Hash r \<noteq> h) \<and>
     (\<exists>r \<in> set (db_devices t). dv_ID r = d)"
  using assms unfolding StoreToken_def
  by (auto dest!: driver_Inr simp: insert_token_def list_ex_iff split: if_splits)

lemma find_append_new:
  "\<forall>x \<in> set xs. \<not> P x \<Longrightarrow> P y \<Longrightarrow> find P (xs @ y # ys) = Some y"
  by (induction xs) auto

text \<open>Tokens that were issued work: the access token authorizes as its device until it expires, as long as the
  device is not revoked and the driver does not fail.\<close>

theorem issued_tokens_authorize:
  assumes "issueTokens (db_token_store clock) sha fa fr now d (t, faults) = (Inr (access_token, refresh_token), t', faults')"
    and "\<forall>r \<in> set (db_devices t). dv_ID r = d \<longrightarrow> dv_RevokedAt r = None"
    and "now' < now + AccessLifetime" and "access_token \<noteq> []"
  shows "Authorize (db_token_store clock) sha revoked now' access_token (t', []) = (Inr d, t', [])"
proof -
  from assms(1) obtain u1 t1 f1 u2 where
      s1: "StoreToken (sha access_token) d AccessToken now (now + AccessLifetime) (t, faults) = (Inr u1, t1, f1)"
    and s2: "StoreToken (sha refresh_token) d RefreshToken now (now + RefreshLifetime) (t1, f1) = (Inr u2, t', faults')"
    by (auto simp: issueTokens_def db_token_store_def split: option.splits prod.splits sum.splits)
  note r1 = StoreToken_result [OF s1] and r2 = StoreToken_result [OF s2]
  let ?k = "\<lparr>tk_Hash = sha access_token, tk_DeviceID = d, tk_Kind = AccessToken, tk_CreatedAt = now,
      tk_ExpiresAt = now + AccessLifetime, tk_RevokedAt = None\<rparr>"
  obtain k2 where tokens: "db_tokens t' = db_tokens t @ ?k # [k2]" and devices: "db_devices t' = db_devices t"
    using r1 r2 by simp
  have key: "find (\<lambda>k. tk_Hash k = sha access_token \<and> tk_Kind k = AccessToken \<and> now' < tk_ExpiresAt k) (db_tokens t') = Some ?k"
    unfolding tokens using r1 assms(3) by (intro find_append_new) auto
  obtain r where dev: "find (\<lambda>r. dv_ID r = d) (db_devices t') = Some r" "dv_RevokedAt r = None"
  proof -
    obtain x where "x \<in> set (db_devices t)" "dv_ID x = d" using r1 by blast
    then have "find (\<lambda>r. dv_ID r = d) (db_devices t) \<noteq> None" by (auto simp: find_None_iff)
    then obtain r where r: "find (\<lambda>r. dv_ID r = d) (db_devices t) = Some r" by blast
    then have "dv_ID r = d" "r \<in> set (db_devices t)" by (auto simp: find_Some_iff)
    with r assms(2) devices show ?thesis using that by simp
  qed
  have "token_row (sha access_token) AccessToken now' t' = Some (?k, r)"
    using key dev(1) by (simp add: token_row_def)
  then have "LookupToken (sha access_token) AccessToken now' (t', []) = (Inr d, t', [])"
    using dev(2) by (simp add: LookupToken_def then_do_def query_def driver_def give_def)
  with assms(4) show ?thesis by (simp add: Authorize_def db_token_store_def)
qed

section \<open>A paired device\<close>

definition sample_service :: AuthService where
  "sample_service = \<lparr>as_GatewayID = ''gw'', as_pairings =
     [(''pair_1'', \<lparr>pr_ID = ''pair_1'', pr_Secret = ''s'', pr_ExpiresAt = 10\<rparr>)]\<rparr>"

definition sample_sha :: "string \<Rightarrow> byte list" where
  "sample_sha s = map (\<lambda>c. word_of_nat (of_char c)) s"

definition sample_pair :: "(db_error auth_error, string \<times> string \<times> string) result \<times> AuthService \<times> db_state" where
  "sample_pair = pairing_Complete (db_token_store 9) sample_sha (\<lambda>_ _ _. True) (Some ''dev_1'', Some ''a'', Some ''r'')
     5 6 ''pair_1'' ''phone'' [1, 2] [3] (sample_service, empty_tables, [])"

lemmas store_eval = db_token_store_def issueTokens_def CreateDevice_def StoreToken_def LookupToken_def
  RevokeToken_def RevokeDevice_def insert_device_def insert_token_def token_row_def driver_def query_def
  then_do_def transaction_def require_rows_def update_rows_def give_def fail_def empty_tables_def
  sample_sha_def AccessToken_def RefreshToken_def AccessLifetime_def RefreshLifetime_def Let_def

theorem pairing_used_once_witness:
  "fst sample_pair = Inr (''dev_1'', ''a'', ''r'') \<and>
   pairing_Complete (db_token_store 9) sample_sha (\<lambda>_ _ _. True) (Some ''dev_2'', Some ''b'', Some ''c'') 6 7
     ''pair_1'' ''phone'' [1, 2] [3] (snd sample_pair) = (Inl ErrPairingExpired, snd sample_pair)"
proof
  have "pairing_Complete (db_token_store 9) sample_sha (\<lambda>_ _ _. True) (Some ''dev_1'', Some ''a'', Some ''r'')
      5 6 ''pair_1'' ''phone'' [1, 2] [3] (sample_service, empty_tables, []) =
      (fst sample_pair, fst (snd sample_pair), snd (snd sample_pair))"
    by (simp add: sample_pair_def)
  from pairing_used_once [OF this, of "(Some ''dev_2'', Some ''b'', Some ''c'')" 6 7 "''phone''" "[1, 2]" "[3]" "snd (snd sample_pair)"]
  show "pairing_Complete (db_token_store 9) sample_sha (\<lambda>_ _ _. True) (Some ''dev_2'', Some ''b'', Some ''c'') 6 7
     ''pair_1'' ''phone'' [1, 2] [3] (snd sample_pair) = (Inl ErrPairingExpired, snd sample_pair)"
    by (simp only: prod.collapse)
  show "fst sample_pair = Inr (''dev_1'', ''a'', ''r'')"
    by (simp add: sample_pair_def pairing_Complete_def sample_service_def store_eval)
qed

definition device_tables :: Tables where
  "device_tables = fst (snd (CreateDevice ''dev_1'' ''phone'' [1, 2] (empty_tables, [])))"

definition sample_issue :: "(db_error auth_error, string \<times> string) result \<times> db_state" where
  "sample_issue = issueTokens (db_token_store 9) sample_sha (Some ''a'') (Some ''r'') 6 ''dev_1'' (device_tables, [])"

definition sample_tables :: Tables where
  "sample_tables = fst (snd sample_issue)"

lemma sample_tables_reachable: "db_reachable sample_tables"
proof -
  have "ran (CreateDevice ''dev_1'' ''phone'' [1, 2]) empty_tables True device_tables"
    unfolding ran_def device_tables_def by (intro exI [of _ "[]"]) (auto simp: prod_eq_iff CreateDevice_def
      insert_device_def driver_def empty_tables_def)
  then have "db_reachable device_tables"
    using db_reachable.start db_reachable.step db_step.CreateDevice by blast
  moreover have "db_later (device_tables, []) (snd sample_issue)"
    using db_tokens.issue_later [of 9 sample_sha "Some ''a''" "Some ''r''" 6 "''dev_1''" "(device_tables, [])"]
    by (cases sample_issue) (simp add: sample_issue_def)
  ultimately show ?thesis unfolding sample_tables_def db_later_def using db_steps_reachable by simp
qed

lemma sample_tables_eq:
  "sample_issue = (Inr (''a'', ''r''), sample_tables, [])"
  "db_devices sample_tables = [\<lparr>dv_ID = ''dev_1'', dv_Name = ''phone'', dv_PublicKey = [1, 2], dv_PushToken = None,
     dv_VoIPToken = None, dv_PushEnvironment = None, dv_PushLocale = None, dv_RevokedAt = None\<rparr>]"
  "db_tokens sample_tables =
     [\<lparr>tk_Hash = sample_sha ''a'', tk_DeviceID = ''dev_1'', tk_Kind = ''access'', tk_CreatedAt = 6, tk_ExpiresAt = 900006,
        tk_RevokedAt = None\<rparr>,
      \<lparr>tk_Hash = sample_sha ''r'', tk_DeviceID = ''dev_1'', tk_Kind = ''refresh'', tk_CreatedAt = 6, tk_ExpiresAt = 2592000006,
        tk_RevokedAt = None\<rparr>]"
  by (simp_all add: sample_tables_def sample_issue_def device_tables_def store_eval)

lemma fst_pairI: "fst p = x \<Longrightarrow> p = (x, fst (snd p), snd (snd p))"
  by (cases p) auto

theorem issued_tokens_authorize_witness:
  "Authorize (db_token_store 9) sample_sha (\<lambda>_. False) 7 ''a'' (sample_tables, []) = (Inr ''dev_1'', sample_tables, [])"
proof (rule issued_tokens_authorize)
  show "issueTokens (db_token_store 9) sample_sha (Some ''a'') (Some ''r'') 6 ''dev_1'' (device_tables, []) =
      (Inr (''a'', ''r''), sample_tables, [])"
    using sample_tables_eq(1) by (simp add: sample_issue_def)
  show "\<forall>r \<in> set (db_devices device_tables). dv_ID r = ''dev_1'' \<longrightarrow> dv_RevokedAt r = None"
    by (simp add: device_tables_def store_eval)
qed (simp_all add: AccessLifetime_def)

theorem authorized_by_live_token_witness:
  "\<exists>k \<in> set (db_tokens sample_tables). tk_Hash k = sample_sha ''a'' \<and> tk_DeviceID k = ''dev_1''"
proof -
  have "fst (Authorize (db_token_store 9) sample_sha (\<lambda>_. False) 7 ''a'' (sample_tables, [])) = Inr ''dev_1''"
    by (simp add: Authorize_def sample_tables_eq store_eval)
  from authorized_by_live_token [OF fst_pairI [OF this]] show ?thesis by blast
qed

theorem revoked_device_stays_out_witness:
  "fst (Authorize (db_token_store 9) sample_sha (\<lambda>_. False) 7 ''a''
     (fst (snd (auth_Revoke (db_token_store 9) ''dev_1'' (sample_tables, []))), [])) \<noteq> Inr ''dev_1''"
proof
  let ?r = "auth_Revoke (db_token_store 9) ''dev_1'' (sample_tables, [])"
  assume a: "fst (Authorize (db_token_store 9) sample_sha (\<lambda>_. False) 7 ''a'' (fst (snd ?r), [])) = Inr ''dev_1''"
  have "fst ?r = Inr ()" by (simp add: auth_Revoke_def sample_tables_eq store_eval)
  from revoked_device_stays_out [OF sample_tables_reachable fst_pairI [OF this] db_steps_refl fst_pairI [OF a]]
  show False by simp
qed

theorem refresh_token_used_once_witness:
  "fst (Refresh (db_token_store 9) sample_sha (Some ''a3'', Some ''r3'') 9 9 ''r''
     (fst (snd (Refresh (db_token_store 9) sample_sha (Some ''a2'', Some ''r2'') 8 8 ''r'' (sample_tables, []))), [])) =
   Inl ErrInvalidToken"
proof -
  let ?r = "Refresh (db_token_store 9) sample_sha (Some ''a2'', Some ''r2'') 8 8 ''r'' (sample_tables, [])"
  have "fst ?r = Inr (''a2'', ''r2'')" by (simp add: Refresh_def sample_tables_eq store_eval)
  from refresh_token_used_once [OF sample_tables_reachable fst_pairI [OF this] db_steps_refl] show ?thesis .
qed

theorem pairing_message_injective_witness:
  "pairing_message ''p'' ''s'' ''g'' ''n'' \<noteq> pairing_message ''p'' ''s'' ''h'' ''n''"
proof -
  have "newline \<notin> {CHR ''p'', CHR ''s'', CHR ''g'', CHR ''h''}" by code_simp
  then show ?thesis
    using pairing_message_injective [of "''p''" "''s''" "''g''" "''n''" "''p''" "''s''" "''h''" "''n''"] by auto
qed

end
