(* ===== verification/Sms_Engine.thy ===== *)
theory Sms_Engine
  imports Sms_Multipart At_Adapter Db_Access
begin

text \<open>
  The message engine, \<^verbatim>\<open>gateway/internal/sms/engine.go\<close>: taking in the modem's stored messages, sending,
  and the inbox poll, over the store and the multipart assembler. The digest of a PDU, fresh ids and the
  modem are parameters. The body of a Go panic inside \<^verbatim>\<open>DecodePDU\<close> is the outcome \<^term>\<open>Panic\<close>, which no
  caller recovers from.
\<close>

section \<open>State\<close>

datatype engine_error = EngineDb db_error | EnginePdu pdu_error | EnginePart multipart_error
  | EngineId | SubmitFailed modem_error

record Engine =
  en_db :: db_state
  en_assembler :: MultipartAssembler

abbreviation tables :: "Engine \<Rightarrow> Tables" where
  "tables e \<equiv> fst (en_db e)"

definition with_db :: "'a db_op \<Rightarrow> Engine \<Rightarrow> (db_error, 'a) result \<times> Engine" where
  "with_db op e = (case op (en_db e) of (r, d) \<Rightarrow> (r, e\<lparr>en_db := d\<rparr>))"

section \<open>Taking in a message\<close>

definition stored_segment :: "SMSSegment \<Rightarrow> DecodedMessage \<Rightarrow> Segment" where
  "stored_segment g d = \<lparr>sg_sender = dm_sender d, sg_destination = [], sg_concatRef = dm_concatRef d,
     sg_partNo = dm_partNo d, sg_totalParts = dm_totalParts d, sg_body = dm_body d,
     sg_encoding = dm_encoding d, sg_rawPDU = ss_RawPDU g, sg_receivedAt = ss_ReceivedAt g\<rparr>"

text \<open>The loop over the pending segments of the store.\<close>

fun add_stored ::
  "timestamp \<Rightarrow> SMSSegment list \<Rightarrow> MultipartAssembler \<Rightarrow>
   (engine_error, LogicalMessage option) outcome \<times> MultipartAssembler" where
  "add_stored now [] a = (Return None, a)"
| "add_stored now (g # gs) a =
     (case DecodePDU (hex_lower (ss_RawPDU g)) of
        Panic \<Rightarrow> (Panic, a)
      | Error _ \<Rightarrow> add_stored now gs a
      | Return d \<Rightarrow>
          (case Add now (stored_segment g d) a of
             (Inl err, a') \<Rightarrow> (Error (EnginePart err), a')
           | (Inr (Some m), a') \<Rightarrow> (Return (Some m), a')
           | (Inr None, a') \<Rightarrow> add_stored now gs a'))"

fun link_all :: "string list \<Rightarrow> string \<Rightarrow> unit db_op" where
  "link_all [] messageID = give ()"
| "link_all (h # hs) messageID = then_do (LinkSMSSegment h messageID) (\<lambda>_. link_all hs messageID)"

definition inbound_message ::
  "string \<Rightarrow> timestamp \<Rightarrow> RawSMS \<Rightarrow> string \<Rightarrow> string \<Rightarrow> rune_text \<Rightarrow> sms_encoding \<Rightarrow> Message" where
  "inbound_message messageID receivedAt raw hash sender body encoding =
     \<lparr>ms_ID = messageID, ms_ThreadKey = sender, ms_Direction = ''inbound'', ms_Peer = sender, ms_Body = body,
      ms_Encoding = encoding_name encoding, ms_Status = ''sent'', ms_ServiceTime = None,
      ms_CreatedAt = receivedAt, ms_ModemStorage = rs_Storage raw, ms_ModemIndex = Some (rs_Index raw),
      ms_PDUHash = hash, ms_SyncSeq = 0\<rparr>"

text \<open>The last part of \<^verbatim>\<open>Ingest\<close>: the message is stored and its segments are linked to it.\<close>

definition store_message ::
  "string option \<Rightarrow> (string \<Rightarrow> Message) \<Rightarrow> string list \<Rightarrow> Engine \<Rightarrow>
   (engine_error, Message option) outcome \<times> Engine" where
  "store_message fresh mk hashes e =
     (case fresh of None \<Rightarrow> (Error EngineId, e) | Some messageID \<Rightarrow>
     (case with_db (InsertMessage (mk messageID)) e of
        (Inl err, e1) \<Rightarrow> (Error (EngineDb err), e1)
      | (Inr seq, e1) \<Rightarrow>
         (case with_db (link_all hashes messageID) e1 of
            (Inl err, e2) \<Rightarrow> (Error (EngineDb err), e2)
          | (Inr _, e2) \<Rightarrow> (Return (Some ((mk messageID)\<lparr>ms_SyncSeq := seq\<rparr>)), e2))))"

text \<open>The middle part: a message of several parts is looked for among the pending segments.\<close>

definition complete_message ::
  "(byte list \<Rightarrow> string) \<Rightarrow> string option \<Rightarrow> timestamp \<Rightarrow> RawSMS \<Rightarrow> DecodedMessage \<Rightarrow> Engine \<Rightarrow>
   (engine_error, Message option) outcome \<times> Engine" where
  "complete_message sha fresh now raw d e =
     (let hash = sha (rs_RawPDU raw)
      in if 1 < dm_totalParts d then
           (case with_db (ListPendingSMSSegments (dm_sender d) (dm_concatRef d) (dm_totalParts d)) e of
              (Inl err, e1) \<Rightarrow> (Error (EngineDb err), e1)
            | (Inr stored, e1) \<Rightarrow>
                (case add_stored now stored (en_assembler e1) of
                   (Panic, a) \<Rightarrow> (Panic, e1\<lparr>en_assembler := a\<rparr>)
                 | (Error err, a) \<Rightarrow> (Error err, e1\<lparr>en_assembler := a\<rparr>)
                 | (Return None, a) \<Rightarrow> (Return None, e1\<lparr>en_assembler := a\<rparr>)
                 | (Return (Some m), a) \<Rightarrow>
                     store_message fresh
                       (\<lambda>i. inbound_message i now raw hash (dm_sender d) (lm_body m) (lm_encoding m))
                       (map (\<lambda>s. sha (sg_rawPDU s)) (lm_segments m)) (e1\<lparr>en_assembler := a\<rparr>)))
         else store_message fresh
                (\<lambda>i. inbound_message i now raw hash (dm_sender d) (dm_body d) (dm_encoding d)) [hash] e)"

text \<open>\<open>ids\<close> are the fresh segment id and message id; \<open>now\<close> is the engine's clock.\<close>

definition Ingest ::
  "(byte list \<Rightarrow> string) \<Rightarrow> string option \<times> string option \<Rightarrow> timestamp \<Rightarrow> RawSMS \<Rightarrow> Engine \<Rightarrow>
   (engine_error, Message option) outcome \<times> Engine" where
  "Ingest sha ids now raw e =
     (let hash = sha (rs_RawPDU raw)
      in case with_db (SMSSegmentExistsByPDUHash hash) e of
           (Inl err, e1) \<Rightarrow> (Error (EngineDb err), e1)
         | (Inr exists, e1) \<Rightarrow>
             if exists then (Return None, e1)
             else
               (case DecodePDU (hex_lower (rs_RawPDU raw)) of
                  Panic \<Rightarrow> (Panic, e1)
                | Error err \<Rightarrow> (Error (EnginePdu err), e1)
                | Return d \<Rightarrow>
                    (case fst ids of None \<Rightarrow> (Error EngineId, e1) | Some segmentID \<Rightarrow>
                    (case with_db (InsertSMSSegment
                              \<lparr>ss_ID = segmentID, ss_MessageID = None, ss_Sender = dm_sender d,
                               ss_ConcatRef = dm_concatRef d, ss_PartNo = dm_partNo d,
                               ss_TotalParts = dm_totalParts d, ss_RawPDU = rs_RawPDU raw,
                               ss_PDUHash = hash, ss_ReceivedAt = now\<rparr>) e1 of
                       (Inl err, e2) \<Rightarrow> (Error (EngineDb err), e2)
                     | (Inr _, e2) \<Rightarrow> complete_message sha (snd ids) now raw d e2))))"

section \<open>Sending\<close>

text \<open>One status update of \<^verbatim>\<open>Send\<close>: the message as it is returned, and the store's error.\<close>

definition record_status :: "string \<Rightarrow> Message \<Rightarrow> Engine \<Rightarrow> (db_error, Message) result \<times> Message \<times> Engine" where
  "record_status status m e =
     (let m' = m\<lparr>ms_Status := status\<rparr>
      in case with_db (UpdateMessageStatus (ms_ID m) status) e of
           (Inl err, e') \<Rightarrow> (Inl err, m', e')
         | (Inr seq, e') \<Rightarrow> (Inr (m'\<lparr>ms_SyncSeq := seq\<rparr>), m', e'))"

text \<open>The loop over the segments and the final update. \<open>send\<close> is the modem's \<^verbatim>\<open>SendSMS\<close> on its own state.\<close>

fun submit_parts ::
  "(string \<Rightarrow> SMSPayload \<Rightarrow> 'm \<Rightarrow> (modem_error, string) result \<times> 'm) \<Rightarrow> string \<Rightarrow> SubmitSegment list \<Rightarrow>
   Message \<Rightarrow> Engine \<times> 'm \<Rightarrow> (Message \<times> engine_error option) \<times> Engine \<times> 'm" where
  "submit_parts send dest [] m (e, s) =
     (case record_status ''sent'' m e of
        (Inl err, m', e') \<Rightarrow> ((m', Some (EngineDb err)), e', s)
      | (Inr m'', _, e') \<Rightarrow> ((m'', None), e', s))"
| "submit_parts send dest (seg # segs) m (e, s) =
     (case send dest (segment_payload seg) s of
        (Inl failure, s') \<Rightarrow>
          let unknown = (failure = SMSSubmissionUnknown)
          in (case record_status (if unknown then ''submitted'' else ''failed'') m e of
                (Inl err, m', e') \<Rightarrow> ((m', Some (EngineDb err)), e', s')
              | (Inr m'', _, e') \<Rightarrow> ((m'', if unknown then None else Some (SubmitFailed failure)), e', s'))
      | (Inr _, s') \<Rightarrow>
          (case record_status ''submitted'' m e of
             (Inl err, m', e') \<Rightarrow> ((m', Some (EngineDb err)), e', s')
           | (Inr m'', _, e') \<Rightarrow> submit_parts send dest segs m'' (e', s')))"

definition outbound_message :: "string \<Rightarrow> timestamp \<Rightarrow> string \<Rightarrow> rune_text \<Rightarrow> sms_encoding \<Rightarrow> Message" where
  "outbound_message messageID now dest body encoding =
     \<lparr>ms_ID = messageID, ms_ThreadKey = dest, ms_Direction = ''outbound'', ms_Peer = dest, ms_Body = body,
      ms_Encoding = encoding_name encoding, ms_Status = ''queued'', ms_ServiceTime = None, ms_CreatedAt = now,
      ms_ModemStorage = [], ms_ModemIndex = None, ms_PDUHash = [], ms_SyncSeq = 0\<rparr>"

text \<open>\<open>concatRef\<close> is the low byte of the clock; the modem is there (a \<^verbatim>\<open>nil\<close> modem is refused at once).\<close>

definition Send ::
  "(string \<Rightarrow> SMSPayload \<Rightarrow> 'm \<Rightarrow> (modem_error, string) result \<times> 'm) \<Rightarrow> byte \<Rightarrow> string option \<Rightarrow> timestamp \<Rightarrow>
   string \<Rightarrow> rune_text \<Rightarrow> Engine \<times> 'm \<Rightarrow> (Message option \<times> engine_error option) \<times> Engine \<times> 'm" where
  "Send send concatRef fresh now dest body w =
     (case EncodeSubmitSegments dest body concatRef of
        Inl err \<Rightarrow> ((None, Some (EnginePdu err)), w)
      | Inr segments \<Rightarrow>
          (case fresh of None \<Rightarrow> ((None, Some EngineId), w) | Some messageID \<Rightarrow>
             let m = outbound_message messageID now dest body (seg_encoding (hd segments))
             in (case with_db (InsertMessage m) (fst w) of
                   (Inl err, e) \<Rightarrow> ((None, Some (EngineDb err)), e, snd w)
                 | (Inr seq, e) \<Rightarrow>
                     (case submit_parts send dest segments (m\<lparr>ms_SyncSeq := seq\<rparr>) (e, snd w) of
                        ((m', err), w') \<Rightarrow> ((Some m', err), w')))))"

section \<open>The inbox\<close>

text \<open>One polled message: the raw message, the fresh ids and the clock of its ingestion. The result lists what was
  handed to \<^verbatim>\<open>onMessage\<close> and which storage indexes were deleted; \<^term>\<open>None\<close> is a crash.\<close>

type_synonym polled = "RawSMS \<times> (string option \<times> string option) \<times> timestamp"

fun poll_messages ::
  "(byte list \<Rightarrow> string) \<Rightarrow> polled list \<Rightarrow> Engine \<Rightarrow> (Message list \<times> int list \<times> Engine) option" where
  "poll_messages sha [] e = Some ([], [], e)"
| "poll_messages sha ((raw, ids, now) # rest) e =
     (case Ingest sha ids now raw e of
        (Panic, _) \<Rightarrow> None
      | (Error _, e') \<Rightarrow> poll_messages sha rest e'
      | (Return m, e') \<Rightarrow>
          map_option (\<lambda>(ms, deleted, e''). ((case m of None \<Rightarrow> ms | Some x \<Rightarrow> x # ms),
              (if 0 < rs_Index raw then rs_Index raw # deleted else deleted), e''))
            (poll_messages sha rest e'))"

text \<open>A poll; \<open>inbox\<close> is the answer of \<^verbatim>\<open>ListSMS\<close> with the next cursor.\<close>

definition engine_poll ::
  "(byte list \<Rightarrow> string) \<Rightarrow> timestamp \<Rightarrow> (modem_error, polled list \<times> string) result \<Rightarrow> string \<Rightarrow> Engine \<Rightarrow>
   (Message list \<times> int list \<times> string \<times> Engine) option" where
  "engine_poll sha now inbox cursor e =
     (let e1 = e\<lparr>en_assembler := snd (Prune now (en_assembler e))\<rparr>;
          e2 = snd (with_db (PrunePendingSMSSegments (now - MultipartRetention)) e1)
      in case inbox of
           Inl _ \<Rightarrow> Some ([], [], cursor, e2)
         | Inr (messages, next_cursor) \<Rightarrow>
             map_option (\<lambda>(ms, deleted, e'). (ms, deleted, next_cursor, e')) (poll_messages sha messages e2))"

section \<open>Stored digests\<close>

definition stored_hashes :: "Tables \<Rightarrow> string set" where
  "stored_hashes t = ss_PDUHash ` set (db_segments t)"

lemma stored_hashes_frame [simp]:
  "stored_hashes (t\<lparr>db_messages := ms\<rparr>) = stored_hashes t"
  "stored_hashes (log_change ty i opn t) = stored_hashes t"
  by (simp_all add: stored_hashes_def)

text \<open>No operation of the engine but the pruning of a poll drops a digest.\<close>

lemma keeps_hash:
  "preserves (\<lambda>t. h \<in> stored_hashes t) (SMSSegmentExistsByPDUHash h')"
  "preserves (\<lambda>t. h \<in> stored_hashes t) (InsertSMSSegment g)"
  "preserves (\<lambda>t. h \<in> stored_hashes t) (ListPendingSMSSegments s c n)"
  "preserves (\<lambda>t. h \<in> stored_hashes t) (LinkSMSSegment h' i)"
  "preserves (\<lambda>t. h \<in> stored_hashes t) (InsertMessage m)"
proof -
  show "preserves (\<lambda>t. h \<in> stored_hashes t) (SMSSegmentExistsByPDUHash h')"
    "preserves (\<lambda>t. h \<in> stored_hashes t) (ListPendingSMSSegments s c n)"
    by (simp_all add: SMSSegmentExistsByPDUHash_def ListPendingSMSSegments_def preserves_query)
  show "preserves (\<lambda>t. h \<in> stored_hashes t) (InsertSMSSegment g)"
    unfolding InsertSMSSegment_def insert_segment_def
    by (intro op_rules) (auto simp: stored_hashes_def split: if_splits)
  show "preserves (\<lambda>t. h \<in> stored_hashes t) (LinkSMSSegment h' i)"
    unfolding LinkSMSSegment_def by (intro op_rules) (auto simp: stored_hashes_def update_keeps_ids)
  show "preserves (\<lambda>t. h \<in> stored_hashes t) (InsertMessage m)"
    unfolding InsertMessage_def insert_message_def by (intro op_rules) (auto split: if_splits)
qed

lemma keeps_hash_link_all: "preserves (\<lambda>t. h \<in> stored_hashes t) (link_all hs i)"
  by (induction hs) (simp_all add: preserves_give preserves_then keeps_hash)

lemma with_db_preserves:
  assumes "with_db op e = (r, e')" and "preserves I op" and "I (tables e)"
  shows "I (tables e')"
proof -
  obtain t faults where e: "en_db e = (t, faults)" by fastforce
  obtain r' t' faults' where run: "op (t, faults) = (r', t', faults')" by (metis surj_pair)
  with assms(1) e have "en_db e' = (t', faults')" by (auto simp: with_db_def)
  moreover have "I t'" using preservesD [OF assms(2) run] assms(3) e by simp
  ultimately show ?thesis by simp
qed

lemma with_db_Inr:
  assumes "with_db op e = (Inr a, e')" and "wp op Q (tables e)"
  shows "Q a (tables e')"
  using assms by (cases "en_db e") (auto simp: with_db_def split: prod.splits dest: wpD)

lemma store_message_keeps:
  "store_message fresh mk hs e = (r, e') \<Longrightarrow> h \<in> stored_hashes (tables e) \<Longrightarrow> h \<in> stored_hashes (tables e')"
  unfolding store_message_def
  by (auto split: option.splits prod.splits sum.splits
      dest: with_db_preserves [OF _ keeps_hash(5)] with_db_preserves [OF _ keeps_hash_link_all])

lemma complete_message_keeps:
  "complete_message sha fresh now raw d e = (r, e') \<Longrightarrow> h \<in> stored_hashes (tables e) \<Longrightarrow>
     h \<in> stored_hashes (tables e')"
  unfolding complete_message_def Let_def
  by (auto split: if_splits option.splits prod.splits sum.splits outcome.splits
      dest: with_db_preserves [OF _ keeps_hash(3)] dest!: store_message_keeps [where h = h])

lemma exists_result:
  "with_db (SMSSegmentExistsByPDUHash h) e = (Inr b, e') \<Longrightarrow> tables e' = tables e \<and> b = (h \<in> stored_hashes (tables e))"
  by (cases "en_db e") (auto simp: with_db_def SMSSegmentExistsByPDUHash_def stored_hashes_def list_ex_iff
      split: prod.splits dest!: query_result)

lemma insert_result:
  "with_db (InsertSMSSegment g) e = (Inr u, e') \<Longrightarrow> ss_PDUHash g \<in> stored_hashes (tables e')"
  by (cases "en_db e") (auto simp: with_db_def InsertSMSSegment_def insert_segment_def stored_hashes_def
      split: prod.splits if_splits dest!: driver_Inr)

lemma Ingest_keeps:
  assumes "Ingest sha ids now raw e = (r, e')" and "h \<in> stored_hashes (tables e)"
  shows "h \<in> stored_hashes (tables e')"
  using assms unfolding Ingest_def Let_def
  by (auto split: if_splits option.splits prod.splits sum.splits outcome.splits
      dest: with_db_preserves [OF _ keeps_hash(1)] with_db_preserves [OF _ keeps_hash(2)] complete_message_keeps)

lemma Ingest_stores:
  assumes "Ingest sha ids now raw e = (Return m, e')"
  shows "sha (rs_RawPDU raw) \<in> stored_hashes (tables e')"
  using assms unfolding Ingest_def Let_def
  by (auto split: if_splits option.splits prod.splits sum.splits outcome.splits
      dest!: exists_result insert_result dest: complete_message_keeps)

lemma poll_messages_keeps:
  "poll_messages sha ps e = Some (ms, deleted, e') \<Longrightarrow> h \<in> stored_hashes (tables e) \<Longrightarrow> h \<in> stored_hashes (tables e')"
  by (induction ps arbitrary: e ms deleted)
    (fastforce split: prod.splits outcome.splits dest: Ingest_keeps)+

text \<open>C19: the inbox poll deletes a message from the modem only when the digest of its PDU is in the table of
  segments, whatever fails in between, so a crash before the deletion does not take the message in twice.\<close>

theorem poll_deletes_only_stored:
  assumes "poll_messages sha ps e = Some (ms, deleted, e')" and "index \<in> set deleted"
  shows "\<exists>p \<in> set ps. rs_Index (fst p) = index \<and> sha (rs_RawPDU (fst p)) \<in> stored_hashes (tables e')"
  using assms
proof (induction ps arbitrary: e ms deleted)
  case (Cons p ps)
  obtain raw ids now where p: "p = (raw, ids, now)" by (cases p)
  obtain r e1 where i: "Ingest sha ids now raw e = (r, e1)" by fastforce
  show ?case
  proof (cases r)
    case (Return m)
    from Cons.prems(1) i Return p obtain ms2 d2 where rest: "poll_messages sha ps e1 = Some (ms2, d2, e')"
      and d: "deleted = (if 0 < rs_Index raw then rs_Index raw # d2 else d2)" by auto
    have "sha (rs_RawPDU raw) \<in> stored_hashes (tables e')"
      using poll_messages_keeps [OF rest] Ingest_stores [OF i [unfolded Return]] by blast
    moreover have "index = rs_Index raw \<or> index \<in> set d2" using Cons.prems(2) d by (auto split: if_splits)
    ultimately show ?thesis using Cons.IH [OF rest] p by force
  qed (use Cons i p in auto)
qed simp

text \<open>The PDU of a short message that a modem holds in slot 4.\<close>

definition one_part :: RawSMS where
  "one_part = \<lparr>rs_Storage = ''SM'', rs_Index = 4, rs_Sender = [], rs_ServiceTimeUnix = 0,
     rs_RawPDU = [0, 1, 0, 2, 0x81, 0x21, 0, 8, 2, 0, 0x41]\<rparr>"

definition plain_digest :: "byte list \<Rightarrow> string" where
  "plain_digest = hex_lower"

definition idle_engine :: "bool list \<Rightarrow> Engine" where
  "idle_engine faults = \<lparr>en_db = (empty_tables, faults), en_assembler = NewMultipartAssembler\<rparr>"

lemma lower_hex_digit:
  assumes "n < 16"
  shows "hex_value (to_lower_char (upper_hex_digit n)) = Some n" "graphic_char (to_lower_char (upper_hex_digit n))"
  using assms by (simp_all add: hex_value_def graphic_char_def upper_hex_digit_def to_lower_char_def)

lemma hex_decode_lower: "hex_decode (hex_lower data) = Some data"
proof (induction data)
  case (Cons b data)
  have "word_of_nat (16 * (unat b div 16) + unat b mod 16) = b"
    by (simp only: mult_div_mod_eq of_nat_unat ucast_id)
  with Cons show ?case
    by (simp add: hex_lower_def to_lower_def hex_encode_upper_def hex_byte_def unat_byte_div lower_hex_digit)
qed (simp add: hex_lower_def to_lower_def hex_encode_upper_def)

lemma graphic_hex_lower: "list_all graphic_char (hex_lower data)"
  by (auto simp: hex_lower_def to_lower_def hex_encode_upper_def hex_byte_def list_all_iff unat_byte_div
      lower_hex_digit)

text \<open>What the engine decodes is the raw PDU: its way through hexadecimal text changes nothing.\<close>

lemma DecodePDU_raw: "DecodePDU (hex_lower data) = decode_bytes data"
  by (simp add: DecodePDU_def hex_decode_lower trim_space_graphic [OF graphic_hex_lower])

lemma one_part_decoded:
  "DecodePDU (hex_lower (rs_RawPDU one_part)) = Return (empty_message\<lparr>dm_sender := ''12'',
     dm_encoding := EncodingUCS2, dm_body := [0x41]\<rparr>)"
proof -
  have "char_of (49 :: nat) = CHR ''1''" "char_of (50 :: nat) = CHR ''2''" by code_simp+
  then show ?thesis
    unfolding DecodePDU_raw
    by (simp add: decode_bytes_def one_part_def decodeAddress_def decode_octet_def decode_after_address_def
      decode_user_data_def empty_message_def utf16_decode_single bytes_unit_def is_high_surrogate_def
      is_low_surrogate_def Let_def)
qed

text \<open>A message whose insertion fails after its segment was stored is lost: the next round takes the digest for
  a message already seen, reports no error, and the poll deletes the message from the modem.\<close>

theorem failed_insert_loses_message:
  assumes "Ingest sha ids now raw e = (Error err, e1)" and "sha (rs_RawPDU raw) \<in> stored_hashes (tables e1)"
    and "snd (en_db e1) = []" and "0 < rs_Index raw"
  shows "poll_messages sha [(raw, ids', now')] e1 = Some ([], [rs_Index raw], e1)"
proof -
  obtain t where e1: "en_db e1 = (t, [])" using assms(3) by (cases "en_db e1") auto
  have "with_db (SMSSegmentExistsByPDUHash (sha (rs_RawPDU raw))) e1 = (Inr True, e1)"
    using assms(2) e1 by (auto simp: with_db_def SMSSegmentExistsByPDUHash_def query_def driver_def
        stored_hashes_def list_ex_iff)
  with assms(4) show ?thesis by (simp add: Ingest_def)
qed

text \<open>A run on an empty store whose third driver call, the start of the message's transaction, fails.\<close>

lemma one_part_failed:
  "Ingest (\<lambda>_. ''h'') (Some ''seg_1'', Some ''msg_1'') 7 one_part (idle_engine [False, False, True]) =
     (Error (EngineDb DriverFailure), (idle_engine [])\<lparr>en_db := (empty_tables\<lparr>db_segments :=
        [\<lparr>ss_ID = ''seg_1'', ss_MessageID = None, ss_Sender = ''12'', ss_ConcatRef = 0, ss_PartNo = 0, ss_TotalParts = 0,
          ss_RawPDU = rs_RawPDU one_part, ss_PDUHash = ''h'', ss_ReceivedAt = 7\<rparr>]\<rparr>, [])\<rparr>)"
  unfolding Ingest_def Let_def one_part_decoded
  by (simp add: with_db_def SMSSegmentExistsByPDUHash_def query_def driver_def InsertSMSSegment_def
      insert_segment_def complete_message_def store_message_def InsertMessage_def transaction_def then_do_def
      idle_engine_def empty_tables_def empty_message_def Let_def)

theorem failed_insert_loses_message_witness:
  "poll_messages (\<lambda>_. ''h'') [(one_part, (None, None), 8)]
     (snd (Ingest (\<lambda>_. ''h'') (Some ''seg_1'', Some ''msg_1'') 7 one_part (idle_engine [False, False, True]))) =
   Some ([], [4], snd (Ingest (\<lambda>_. ''h'') (Some ''seg_1'', Some ''msg_1'') 7 one_part
     (idle_engine [False, False, True])))"
  using failed_insert_loses_message [OF one_part_failed, of "(None, None)" 8]
  by (simp add: one_part_failed stored_hashes_def, simp add: one_part_def)

lemma one_part_taken:
  "\<exists>e'. poll_messages (\<lambda>_. ''h'') [(one_part, (Some ''seg_1'', Some ''msg_1''), 7)] (idle_engine []) =
     Some ([inbound_message ''msg_1'' 7 one_part ''h'' ''12'' [0x41] EncodingUCS2\<lparr>ms_SyncSeq := 1\<rparr>], [4], e')"
proof -
  have r: "rs_Index one_part = 4" by (simp add: one_part_def)
  show ?thesis
    unfolding poll_messages.simps Ingest_def Let_def one_part_decoded r
    by (simp add: with_db_def SMSSegmentExistsByPDUHash_def query_def driver_def InsertSMSSegment_def
      insert_segment_def complete_message_def store_message_def InsertMessage_def transaction_def then_do_def
      idle_engine_def empty_tables_def empty_message_def appendSyncLog_def log_change_def insert_message_def
      inbound_message_def LinkSMSSegment_def give_def update_rows_def Let_def)
qed

theorem poll_deletes_only_stored_witness:
  "(case poll_messages (\<lambda>_. ''h'') [(one_part, (Some ''seg_1'', Some ''msg_1''), 7)] (idle_engine []) of
      Some (ms, deleted, e') \<Rightarrow> 4 \<in> set deleted \<and> ''h'' \<in> stored_hashes (tables e') | None \<Rightarrow> False)"
proof -
  from one_part_taken obtain ms e' where run:
    "poll_messages (\<lambda>_. ''h'') [(one_part, (Some ''seg_1'', Some ''msg_1''), 7)] (idle_engine []) = Some (ms, [4], e')"
    by blast
  from poll_deletes_only_stored [OF this, of 4] run show ?thesis by simp
qed

section \<open>What a caller of Send learns\<close>

definition row_has :: "Message \<Rightarrow> Tables \<Rightarrow> bool" where
  "row_has m t = list_ex (\<lambda>r. ms_ID r = ms_ID m \<and> ms_Status r = ms_Status m \<and> ms_SyncSeq r = ms_SyncSeq m)
     (db_messages t)"

lemma list_ex_update_rows:
  "list_ex P rows \<Longrightarrow> (\<And>r. P r \<Longrightarrow> Q (f r)) \<Longrightarrow> list_ex Q (update_rows P f rows)"
  by (induction rows) (auto simp: update_rows_def)

lemma wp_UpdateMessageStatus:
  "wp (UpdateMessageStatus i status)
     (\<lambda>seq t. list_ex (\<lambda>r. ms_ID r = i \<and> ms_Status r = status \<and> ms_SyncSeq r = seq) (db_messages t)) t"
  unfolding UpdateMessageStatus_def Let_def
  by (intro op_rules) (auto elim!: list_ex_update_rows)

lemma record_status_result:
  assumes "record_status status m e = (Inr m', m1, e')"
  shows "ms_ID m' = ms_ID m \<and> ms_Status m' = status \<and> row_has m' (tables e')"
proof -
  from assms obtain seq where u: "with_db (UpdateMessageStatus (ms_ID m) status) e = (Inr seq, e')"
    and m': "m' = m\<lparr>ms_Status := status, ms_SyncSeq := seq\<rparr>"
    by (auto simp: record_status_def Let_def split: prod.splits sum.splits)
  from with_db_Inr [OF u wp_UpdateMessageStatus] m' show ?thesis by (simp add: row_has_def)
qed

text \<open>The first part of a message that the modem does not confirm, with the modem's answer, and what \<^verbatim>\<open>Send\<close> has to
  report for it: sent when every part was confirmed, submitted without an error when the outcome of a part is unknown,
  failed with the modem's error otherwise.\<close>

fun first_refusal ::
  "(string \<Rightarrow> SMSPayload \<Rightarrow> 'm \<Rightarrow> (modem_error, string) result \<times> 'm) \<Rightarrow> string \<Rightarrow> SubmitSegment list \<Rightarrow> 'm \<Rightarrow>
   modem_error option" where
  "first_refusal send dest [] s = None"
| "first_refusal send dest (seg # segs) s =
     (case send dest (segment_payload seg) s of
        (Inl failure, _) \<Rightarrow> Some failure
      | (Inr _, s') \<Rightarrow> first_refusal send dest segs s')"

definition send_outcome :: "modem_error option \<Rightarrow> string \<times> engine_error option" where
  "send_outcome refusal = (case refusal of
      None \<Rightarrow> (''sent'', None)
    | Some failure \<Rightarrow>
        if failure = SMSSubmissionUnknown then (''submitted'', None) else (''failed'', Some (SubmitFailed failure)))"

lemma submit_parts_outcome:
  "submit_parts send dest segs m (e, s) = ((m', err), e', s') \<Longrightarrow> \<forall>x. err \<noteq> Some (EngineDb x) \<Longrightarrow>
     ms_ID m' = ms_ID m \<and> row_has m' (tables e') \<and> (ms_Status m', err) = send_outcome (first_refusal send dest segs s)"
proof (induction segs arbitrary: m e s)
  case Nil
  then show ?case
    by (auto simp: send_outcome_def split: prod.splits sum.splits dest!: record_status_result)
next
  case (Cons seg segs)
  obtain r s1 where sent: "send dest (segment_payload seg) s = (r, s1)" by fastforce
  show ?case
  proof (cases r)
    case (Inl failure)
    with Cons.prems sent show ?thesis
      by (auto simp: send_outcome_def Let_def split: prod.splits sum.splits if_splits dest!: record_status_result)
  next
    case (Inr u)
    with Cons.prems sent obtain m1 m2 e1 where r: "record_status ''submitted'' m e = (Inr m1, m2, e1)"
      and rest: "submit_parts send dest segs m1 (e1, s1) = ((m', err), e', s')"
      by (auto split: prod.splits sum.splits)
    from Cons.IH [OF rest Cons.prems(2)] record_status_result [OF r] sent Inr show ?thesis by simp
  qed
qed

text \<open>C20: when \<^verbatim>\<open>Send\<close> returns a message and no store error, the row of the message has the returned status and
  sequence number, and the status is what the modem's answers to the parts say: sent without an error when it confirmed every part,
  submitted without an error when the first part it did not confirm was submitted with an unknown outcome, and failed with
  the modem's error when it refused that part.\<close>

theorem send_reports_stored_status:
  assumes "Send send concatRef fresh now dest body (e, s) = ((Some m, err), e', s')"
    and "\<forall>x. err \<noteq> Some (EngineDb x)"
  shows "fresh = Some (ms_ID m) \<and> row_has m (tables e') \<and>
    (\<exists>segments. EncodeSubmitSegments dest body concatRef = Inr segments \<and>
       (ms_Status m, err) = send_outcome (first_refusal send dest segments s))"
  using assms unfolding Send_def Let_def
  by (auto simp: outbound_message_def split: prod.splits sum.splits option.splits dest!: submit_parts_outcome)

text \<open>A modem that records what it is given.\<close>

definition recording_modem ::
  "(SMSPayload \<Rightarrow> (modem_error, string) result) \<Rightarrow> string \<Rightarrow> SMSPayload \<Rightarrow> SMSPayload list \<Rightarrow>
   (modem_error, string) result \<times> SMSPayload list" where
  "recording_modem answer dest p log = (answer p, log @ [p])"

lemma submit_parts_order:
  assumes send: "\<And>d p l. send d p l = (answer p, l @ [p])"
  shows "submit_parts send dest segs m (e, log) = ((m', err), e', log') \<Longrightarrow>
     \<exists>k \<le> length segs. log' = log @ map segment_payload (take k segs) \<and>
       (ms_Status m' = ''sent'' \<longrightarrow> k = length segs) \<and>
       (\<forall>seg \<in> set (take (k - 1) segs). \<not> isl (answer (segment_payload seg)))"
proof (induction segs arbitrary: m e log)
  case Nil
  then show ?case by (auto split: prod.splits sum.splits)
next
  case (Cons seg segs)
  have sent: "send dest (segment_payload seg) log = (answer (segment_payload seg), log @ [segment_payload seg])"
    by (rule send)
  show ?case
  proof (cases "answer (segment_payload seg)")
    case (Inl failure)
    with Cons.prems have "log' = log @ [segment_payload seg]" and "ms_Status m' \<noteq> ''sent''"
      by (auto simp: sent record_status_def Let_def split: prod.splits sum.splits if_splits)
    then show ?thesis by (intro exI [of _ 1]) simp
  next
    case (Inr u)
    show ?thesis
    proof (cases "record_status ''submitted'' m e")
      case (fields r m1 e1)
      show ?thesis
      proof (cases r)
        case (Inl x)
        with Cons.prems Inr fields have "log' = log @ [segment_payload seg]" and "ms_Status m' \<noteq> ''sent''"
          by (auto simp: sent record_status_def Let_def split: prod.splits sum.splits)
        then show ?thesis by (intro exI [of _ 1]) simp
      next
        case (Inr m2)
        with Cons.prems \<open>answer (segment_payload seg) = Inr u\<close> fields
        have "submit_parts send dest segs m2 (e1, log @ [segment_payload seg]) =
            ((m', err), e', log')"
          by (simp add: sent)
        from Cons.IH [OF this] obtain k where k: "k \<le> length segs"
          "log' = (log @ [segment_payload seg]) @ map segment_payload (take k segs)"
          "ms_Status m' = ''sent'' \<longrightarrow> k = length segs"
          "\<forall>x \<in> set (take (k - 1) segs). \<not> isl (answer (segment_payload x))" by blast
        then show ?thesis using \<open>answer (segment_payload seg) = Inr u\<close>
          by (intro exI [of _ "Suc k"]) (cases k; auto)
      qed
    qed
  qed
qed


text \<open>The parts of a message go to the modem in order and none after the first failure; a message reported as
  sent had every part submitted, each of them once.\<close>

theorem send_submits_in_order:
  assumes "Send (recording_modem answer) concatRef fresh now dest body (e, []) = ((Some m, err), e', submitted)"
  shows "\<exists>segments k. EncodeSubmitSegments dest body concatRef = Inr segments \<and> k \<le> length segments \<and>
     submitted = map segment_payload (take k segments) \<and> (ms_Status m = ''sent'' \<longrightarrow> k = length segments) \<and>
     list_all (\<lambda>seg. \<not> isl (answer (segment_payload seg))) (take (k - 1) segments)"
proof -
  from assms obtain segments messageID seq e1 where enc: "EncodeSubmitSegments dest body concatRef = Inr segments"
    and run: "submit_parts (recording_modem answer) dest segments
       (outbound_message messageID now dest body (seg_encoding (hd segments))\<lparr>ms_SyncSeq := seq\<rparr>) (e1, []) =
       ((m, err), e', submitted)"
    unfolding Send_def Let_def by (auto split: prod.splits sum.splits option.splits)
  from submit_parts_order [of "recording_modem answer" answer, OF recording_modem_def run]
  show ?thesis using enc by (auto simp: list_all_iff)
qed

text \<open>A message of one Chinese character, refused by the modem.\<close>

lemma short_body: "\<exists>pdu. EncodeSubmitSegments ''12'' [0x4e00] 7 = Inr [\<lparr>seg_pdu = pdu,
  seg_encoding = body_encoding [0x4e00], seg_partNo = 1, seg_total = 1, seg_body = [0x4e00]\<rparr>]"
proof -
  have len: "body_length enc [0x4e00] \<le> single_limit enc" for enc
    by (cases enc) (simp_all add: body_length_def single_limit_def utf16_encode_def utf16_encode_rune_def)
  have d: "dialable ''12''" by (simp add: dialable_def has_prefix_def is_digit_def)
  obtain pdu where pdu: "encodeSubmit ''12'' [0x4e00] (body_encoding [0x4e00]) [] = Inr pdu"
    using encodeAddress_dialable [OF d]
    by (cases "user_data (body_encoding [0x4e00]) [] [0x4e00]") (auto simp: encodeSubmit_def)
  show ?thesis
    unfolding EncodeSubmitSegments_def Let_def splitBody_def if_P [OF len] trim_space_dialable [OF d]
    by (simp add: concat_udh_def pdu)
qed

definition refusing_modem :: "SMSPayload \<Rightarrow> (modem_error, string) result" where
  "refusing_modem p = Inl ClientUnavailable"

lemma refused_send:
  "\<exists>m e' log. Send (recording_modem refusing_modem) 7 (Some ''msg_1'') 5 ''12'' [0x4e00] (idle_engine [], []) =
     ((Some m, Some (SubmitFailed ClientUnavailable)), e', log) \<and> length log = 1"
proof -
  from short_body obtain pdu where enc: "EncodeSubmitSegments ''12'' [0x4e00] 7 = Inr [\<lparr>seg_pdu = pdu,
    seg_encoding = body_encoding [0x4e00], seg_partNo = 1, seg_total = 1, seg_body = [0x4e00]\<rparr>]" by blast
  show ?thesis
    by (simp add: Send_def enc with_db_def driver_def InsertMessage_def transaction_def then_do_def idle_engine_def
      empty_tables_def appendSyncLog_def log_change_def insert_message_def outbound_message_def give_def
      recording_modem_def refusing_modem_def record_status_def UpdateMessageStatus_def update_rows_def
      require_rows_def graphic_char_def Let_def)
qed

theorem send_reports_stored_status_witness:
  "\<exists>m e'. fst (Send (recording_modem refusing_modem) 7 (Some ''msg_1'') 5 ''12'' [0x4e00] (idle_engine [], [])) =
       (Some m, Some (SubmitFailed ClientUnavailable)) \<and> row_has m (tables e') \<and> ms_Status m = ''failed''"
proof -
  from refused_send obtain m e' log where run:
    "Send (recording_modem refusing_modem) 7 (Some ''msg_1'') 5 ''12'' [0x4e00] (idle_engine [], []) =
     ((Some m, Some (SubmitFailed ClientUnavailable)), e', log)" by blast
  from send_reports_stored_status [OF this] run show ?thesis by (auto simp: send_outcome_def split: option.splits if_splits)
qed

theorem send_submits_in_order_witness:
  "\<exists>segments. EncodeSubmitSegments ''12'' [0x4e00] 7 = Inr segments \<and>
     snd (snd (Send (recording_modem refusing_modem) 7 (Some ''msg_1'') 5 ''12'' [0x4e00] (idle_engine [], []))) =
       map segment_payload segments"
proof -
  from refused_send obtain m e' log where run:
    "Send (recording_modem refusing_modem) 7 (Some ''msg_1'') 5 ''12'' [0x4e00] (idle_engine [], []) =
     ((Some m, Some (SubmitFailed ClientUnavailable)), e', log)" and one: "length log = 1" by blast
  from send_submits_in_order [OF run] one short_body run show ?thesis by auto
qed

end
