(* ===== verification/Json_Text.thy ===== *)
theory Json_Text
  imports Gateway_Prelude
begin

text \<open>
  The part of Go's \<^verbatim>\<open>encoding/json\<close> the gateway answers with: \<^verbatim>\<open>json.Marshal\<close> on objects whose fields are given in
  the order it writes them. Strings are their UTF-8 bytes; the texts of the gateway are valid UTF-8 without the two
  line separators the encoder would escape.
\<close>

datatype json = JNull | JBool bool | JInt int | JString string | JArray "json list"
  | JObject "(string \<times> json) list"

definition hex_digit_lower :: "nat \<Rightarrow> char" where
  "hex_digit_lower n = char_of (if n < 10 then 48 + n else 87 + n)"

definition json_char :: "char \<Rightarrow> string" where
  "json_char c = (let n = of_char c :: nat in
     if n = 34 \<or> n = 92 then [char_of (92::nat), c]
     else if n = 8 then [char_of (92::nat), CHR ''b'']
     else if n = 9 then [char_of (92::nat), CHR ''t'']
     else if n = 10 then [char_of (92::nat), CHR ''n'']
     else if n = 12 then [char_of (92::nat), CHR ''f'']
     else if n = 13 then [char_of (92::nat), CHR ''r'']
     else if n < 32 \<or> n \<in> {38, 60, 62}
     then [char_of (92::nat), CHR ''u'', CHR ''0'', CHR ''0'', hex_digit_lower (n div 16), hex_digit_lower (n mod 16)]
     else [c])"

definition json_string :: "string \<Rightarrow> string" where
  "json_string s = CHR 0x22 # concat (map json_char s) @ [CHR 0x22]"

definition comma_join :: "string list \<Rightarrow> string" where
  "comma_join fs = join_char (CHR '','') fs"

fun json_marshal :: "json \<Rightarrow> string" where
  "json_marshal JNull = ''null''"
| "json_marshal (JBool b) = (if b then ''true'' else ''false'')"
| "json_marshal (JInt i) = itoa i"
| "json_marshal (JString s) = json_string s"
| "json_marshal (JArray vs) = ''['' @ comma_join (map json_marshal vs) @ '']''"
| "json_marshal (JObject fs) =
     ''{'' @ comma_join (map (\<lambda>f. json_string (fst f) @ '':'' @ json_marshal (snd f)) fs) @ ''}''"

text \<open>A rune of a text as UTF-8.\<close>

definition utf8_rune :: "rune \<Rightarrow> string" where
  "utf8_rune r =
     (if r < 0x80 then [char_of r]
      else if r < 0x800 then [char_of (0xc0 + r div 64), char_of (0x80 + r mod 64)]
      else if r < 0x10000
      then [char_of (0xe0 + r div 4096), char_of (0x80 + r div 64 mod 64), char_of (0x80 + r mod 64)]
      else [char_of (0xf0 + r div 262144), char_of (0x80 + r div 4096 mod 64),
            char_of (0x80 + r div 64 mod 64), char_of (0x80 + r mod 64)])"

definition utf8_text :: "rune_text \<Rightarrow> string" where
  "utf8_text rs = concat (map utf8_rune rs)"

text \<open>A field written only when it is not empty (\<^verbatim>\<open>omitempty\<close>).\<close>

definition optional_string :: "string \<Rightarrow> string \<Rightarrow> (string \<times> json) list" where
  "optional_string name v = (if v = [] then [] else [(name, JString v)])"

definition optional_int :: "string \<Rightarrow> int option \<Rightarrow> (string \<times> json) list" where
  "optional_int name v = (case v of None \<Rightarrow> [] | Some i \<Rightarrow> [(name, JInt i)])"

definition nullable_int :: "int option \<Rightarrow> json" where
  "nullable_int v = (case v of None \<Rightarrow> JNull | Some i \<Rightarrow> JInt i)"

section \<open>Base 64\<close>

text \<open>\<^verbatim>\<open>base64.StdEncoding\<close>.\<close>

definition base64_char :: "nat \<Rightarrow> char" where
  "base64_char n =
     (if n < 26 then char_of (65 + n) else if n < 52 then char_of (71 + n) else if n < 62 then char_of (n - 4)
      else if n = 62 then CHR ''+'' else CHR ''/'')"

fun base64_encode :: "byte list \<Rightarrow> string" where
  "base64_encode [] = []"
| "base64_encode [a] =
     [base64_char (unat a div 4), base64_char (unat a mod 4 * 16), CHR ''='', CHR ''='']"
| "base64_encode [a, b] =
     [base64_char (unat a div 4), base64_char (unat a mod 4 * 16 + unat b div 16),
      base64_char (unat b mod 16 * 4), CHR ''='']"
| "base64_encode (a # b # c # rest) =
     [base64_char (unat a div 4), base64_char (unat a mod 4 * 16 + unat b div 16),
      base64_char (unat b mod 16 * 4 + unat c div 64), base64_char (unat c mod 64)] @ base64_encode rest"

end
