(* ===== verification/Recording_Manager.thy ===== *)
theory Recording_Manager
  imports Json_Text Db_Access Voice_Codec
begin

text \<open>
  Call recordings, \<^verbatim>\<open>gateway/internal/recording/manager.go\<close>: the manager with its open sessions, the work
  directories on disk, and the rows in the store. A call of the operating system takes the next entry of a fault list,
  as a driver call does; the encoder, the digest, fresh ids and clock readings are parameters. What the code starts as
  a goroutine (\<^verbatim>\<open>finalize\<close>) is returned as a task and runs as a step of its own. Every operation is one step, so
  two of them never interleave.
\<close>

section \<open>State\<close>

definition RecSampleRate :: nat where "RecSampleRate = 16000"

definition RecChannels :: nat where "RecChannels = 1"

definition RecBitrate :: nat where "RecBitrate = 32000"

definition WaveformSamples :: nat where "WaveformSamples = 320"

definition DefaultMinFree :: int where "DefaultMinFree = 500 * 1024 * 1024"

datatype rec_error = RecNotActive | LowStorage | RecordingDisabled | AutomaticRecordingDisabled
  | RecDb db_error | OsFailure | StillFinalizing | CallIdRequired | NegativeSettings | ContextDone
  | RootRequired | NegativeRetention | NotExist | OutsideRoot

record CallMeta =
  cm_ID :: string
  cm_Direction :: string
  cm_Peer :: string
  cm_StartedAt :: timestamp

record Session =
  se_recording :: Recording
  se_workDir :: string
  se_cellularSamples :: nat
  se_clientSamples :: nat

record Manager =
  mg_root :: string
  mg_retentionDays :: int
  mg_minimumFree :: int
  mg_sessions :: "(string \<times> Session) list"
  mg_events :: "(string \<times> Recording) list"

text \<open>Files by path; \<open>dk_work\<close> lists the entries of the work directory with their modification clocks.\<close>

record Disk =
  dk_files :: "(string \<times> byte list) list"
  dk_work :: "(string \<times> timestamp) list"
  dk_free :: int
  dk_faults :: "bool list"

record RecWorld =
  rw_db :: db_state
  rw_manager :: Manager
  rw_disk :: Disk

section \<open>Calls of the store and of the operating system\<close>

definition rec_db :: "'a db_op \<Rightarrow> RecWorld \<Rightarrow> (db_error, 'a) result \<times> RecWorld" where
  "rec_db op w = (case op (rw_db w) of (r, d) \<Rightarrow> (r, w\<lparr>rw_db := d\<rparr>))"

text \<open>The effect of a call that succeeds; the flag says whether it did.\<close>

definition os_call :: "(Disk \<Rightarrow> Disk) \<Rightarrow> RecWorld \<Rightarrow> bool \<times> RecWorld" where
  "os_call f w =
     (let d = rw_disk w; rest = d\<lparr>dk_faults := tl (dk_faults d)\<rparr>
      in if dk_faults d \<noteq> [] \<and> hd (dk_faults d) then (False, w\<lparr>rw_disk := rest\<rparr>)
         else (True, w\<lparr>rw_disk := f rest\<rparr>))"

definition write_file :: "string \<Rightarrow> byte list \<Rightarrow> Disk \<Rightarrow> Disk" where
  "write_file path content d = d\<lparr>dk_files := map_put path content (dk_files d)\<rparr>"

definition file_at :: "string \<Rightarrow> RecWorld \<Rightarrow> byte list option" where
  "file_at path w = map_of (dk_files (rw_disk w)) path"

text \<open>\<^verbatim>\<open>os.Remove\<close> of a file, and of a work directory, which only goes when it is empty.\<close>

definition remove_file :: "string \<Rightarrow> Disk \<Rightarrow> Disk" where
  "remove_file path d = d\<lparr>dk_files := map_del path (dk_files d)\<rparr>"

definition remove_work :: "string \<Rightarrow> string \<Rightarrow> Disk \<Rightarrow> Disk" where
  "remove_work workDir i d =
     (if list_ex (\<lambda>(p, _). has_prefix p (workDir @ ''/'')) (dk_files d) then d
      else d\<lparr>dk_work := map_del i (dk_work d)\<rparr>)"

text \<open>\<^verbatim>\<open>os.RemoveAll\<close> on a work directory.\<close>

definition remove_tree :: "string \<Rightarrow> string \<Rightarrow> Disk \<Rightarrow> Disk" where
  "remove_tree workDir i d = d\<lparr>dk_files := filter (\<lambda>(p, _). \<not> has_prefix p (workDir @ ''/'')) (dk_files d),
     dk_work := map_del i (dk_work d)\<rparr>"

definition quietly :: "(Disk \<Rightarrow> Disk) \<Rightarrow> RecWorld \<Rightarrow> RecWorld" where
  "quietly f w = snd (os_call f w)"

text \<open>\<^verbatim>\<open>filepath.Join\<close> on clean parts, and the paths of a recording.\<close>

definition path_join :: "string \<Rightarrow> string \<Rightarrow> string" where
  "path_join dir name = (if dir = ''/'' then dir @ name else dir @ ''/'' @ name)"

definition work_dir :: "string \<Rightarrow> string \<Rightarrow> string" where
  "work_dir root i = path_join (path_join root ''work'') i"

definition cellular_part :: "string \<Rightarrow> string" where
  "cellular_part workDir = path_join workDir ''cellular.pcm.part''"

definition client_part :: "string \<Rightarrow> string" where
  "client_part workDir = path_join workDir ''client.pcm.part''"

definition publish_rec :: "string \<Rightarrow> Recording \<Rightarrow> RecWorld \<Rightarrow> RecWorld" where
  "publish_rec kind r w = w\<lparr>rw_manager := (rw_manager w)\<lparr>mg_events := mg_events (rw_manager w) @ [(kind, r)]\<rparr>\<rparr>"

section \<open>Settings\<close>

text \<open>\<open>root\<close> is what \<^verbatim>\<open>filepath.Abs\<close> made of the configured one.\<close>

definition NewManager ::
  "timestamp \<Rightarrow> string \<Rightarrow> int \<Rightarrow> db_state \<times> Disk \<Rightarrow> (rec_error, RecWorld) result" where
  "NewManager now root retentionDays st =
     (if trim_space root = [] then Inl RootRequired
      else if retentionDays < 0 then Inl NegativeRetention
      else
        let m = \<lparr>mg_root = root, mg_retentionDays = retentionDays, mg_minimumFree = DefaultMinFree,
                 mg_sessions = [], mg_events = []\<rparr>;
            w0 = \<lparr>rw_db = fst st, rw_manager = m, rw_disk = snd st\<rparr>
        in (case os_call (\<lambda>d. d) w0 of
              (False, _) \<Rightarrow> Inl OsFailure
            | (True, w1) \<Rightarrow>
                (case rec_db GetRecordingSettings w1 of
                   (Inr settings, w2) \<Rightarrow>
                     Inr (w2\<lparr>rw_manager := m\<lparr>mg_retentionDays := st_RetentionDays settings,
                                               mg_minimumFree := st_MinimumFreeBytes settings\<rparr>\<rparr>)
                 | (Inl NoRows, w2) \<Rightarrow>
                     (case rec_db (EnsureRecordingSettings now
                             \<lparr>st_Enabled = True, st_AutoMode = ''off'', st_RetentionDays = retentionDays,
                              st_MinimumFreeBytes = DefaultMinFree, st_UpdatedAt = 0\<rparr>) w2 of
                        (Inl e, _) \<Rightarrow> Inl (RecDb e)
                      | (Inr _, w3) \<Rightarrow> Inr w3)
                 | (Inl e, _) \<Rightarrow> Inl (RecDb e))))"

definition SetMinimumFreeBytes :: "int \<Rightarrow> Manager \<Rightarrow> Manager" where
  "SetMinimumFreeBytes v m = m\<lparr>mg_minimumFree := max 0 v\<rparr>"

definition Settings :: "RecWorld \<Rightarrow> (db_error, RecordingSettings) result \<times> RecWorld" where
  "Settings w =
     (case rec_db GetRecordingSettings w of
        (Inr settings, w1) \<Rightarrow> (Inr settings, w1)
      | (Inl e, w1) \<Rightarrow>
          if e \<noteq> NoRows then (Inl e, w1)
          else (Inr \<lparr>st_Enabled = True, st_AutoMode = ''off'', st_RetentionDays = mg_retentionDays (rw_manager w1),
                     st_MinimumFreeBytes = mg_minimumFree (rw_manager w1), st_UpdatedAt = 0\<rparr>, w1))"

definition UpdateSettings :: "timestamp \<Rightarrow> RecordingSettings \<Rightarrow> RecWorld \<Rightarrow> (rec_error, unit) result \<times> RecWorld" where
  "UpdateSettings now settings w =
     (if st_RetentionDays settings < 0 \<or> st_MinimumFreeBytes settings < 0 then (Inl NegativeSettings, w)
      else
        let mode = (if st_AutoMode settings = [] then ''off'' else st_AutoMode settings)
        in if mode \<noteq> ''off'' then (Inl AutomaticRecordingDisabled, w)
           else (case rec_db (SaveRecordingSettings now
                         (settings\<lparr>st_AutoMode := mode, st_UpdatedAt := now\<rparr>)) w of
                   (Inl e, w1) \<Rightarrow> (Inl (RecDb e), w1)
                 | (Inr _, w1) \<Rightarrow> (Inr (), w1\<lparr>rw_manager := (rw_manager w1)
                     \<lparr>mg_retentionDays := st_RetentionDays settings,
                      mg_minimumFree := st_MinimumFreeBytes settings\<rparr>\<rparr>)))"

section \<open>Starting\<close>

definition retentionDeadline :: "timestamp \<Rightarrow> int \<Rightarrow> timestamp option" where
  "retentionDeadline created days = (if days \<le> 0 then None else Some (created + nat days * 86400000))"

definition durationMillis :: "nat \<Rightarrow> nat \<Rightarrow> int option" where
  "durationMillis cellular client =
     (let samples = max cellular client
      in if samples = 0 then None else Some (int (samples * 1000 div RecSampleRate)))"

text \<open>A row saved, with its sequence number and, if that is required, its summary on the call's row.\<close>

definition save_recording :: "timestamp \<Rightarrow> Recording \<Rightarrow> RecWorld \<Rightarrow> (db_error, Recording) result \<times> RecWorld" where
  "save_recording now r w =
     (case rec_db (SaveRecording now r) w of
        (Inl e, w1) \<Rightarrow> (Inl e, w1)
      | (Inr seq, w1) \<Rightarrow> (Inr (r\<lparr>rc_SyncSeq := seq\<rparr>), w1))"

definition link_quietly :: "Recording \<Rightarrow> RecWorld \<Rightarrow> RecWorld" where
  "link_quietly r w = snd (rec_db (UpdateCallRecording (rc_CallID r) (rc_ID r) (rc_State r) (rc_DurationMs r)) w)"

definition save_and_link :: "timestamp \<Rightarrow> Recording \<Rightarrow> RecWorld \<Rightarrow> (db_error, Recording) result \<times> RecWorld" where
  "save_and_link now r w =
     (case save_recording now r w of
        (Inl e, w1) \<Rightarrow> (Inl e, w1)
      | (Inr r', w1) \<Rightarrow>
          (case rec_db (UpdateCallRecording (rc_CallID r') (rc_ID r') (rc_State r') None) w1 of
             (Inl e, w2) \<Rightarrow> (Inl e, w2)
           | (Inr _, w2) \<Rightarrow> (Inr r', w2)))"

definition starting_recording ::
  "string \<Rightarrow> timestamp \<Rightarrow> timestamp \<Rightarrow> int \<Rightarrow> CallMeta \<Rightarrow> string \<Rightarrow> string \<Rightarrow> string \<Rightarrow> Recording" where
  "starting_recording i created started retentionDays meta mode deviceID finalPath =
     \<lparr>rc_ID = i, rc_CallID = cm_ID meta, rc_State = ''starting'', rc_TriggerMode = mode, rc_StartedAt = Some started,
      rc_StoppedAt = None, rc_DurationMs = None, rc_FilePath = finalPath, rc_Container = ''m4a'',
      rc_Codec = ''aac-lc'', rc_SampleRate = RecSampleRate, rc_Channels = RecChannels, rc_Bitrate = RecBitrate,
      rc_SizeBytes = None, rc_SHA256 = [], rc_WaveformPath = [], rc_FailureCode = [], rc_FailureDetail = [],
      rc_RetentionExpiresAt = retentionDeadline created retentionDays, rc_CreatedByDeviceID = deviceID,
      rc_CreatedAt = created, rc_UpdatedAt = created, rc_SyncSeq = 0\<rparr>"

text \<open>The content of \<^verbatim>\<open>meta.json\<close>.\<close>

definition meta_json :: "Recording \<Rightarrow> byte list" where
  "meta_json r = map (\<lambda>c. word_of_nat (of_char c)) (json_marshal (JObject
     [(''callId'', JString (rc_CallID r)), (''createdAt'', JInt (int (rc_CreatedAt r))),
      (''id'', JString (rc_ID r)), (''state'', JString (rc_State r))]))"

text \<open>The end of \<^verbatim>\<open>Start\<close>: the session is entered and announced.\<close>

definition open_session :: "string \<Rightarrow> string \<Rightarrow> Recording \<Rightarrow> RecWorld \<Rightarrow> RecWorld" where
  "open_session callID workDir r w =
     (let w1 = quietly (write_file (path_join workDir ''meta.json'') (meta_json r)) w
      in publish_rec ''recording.started'' r
           (w1\<lparr>rw_manager := (rw_manager w1)\<lparr>mg_sessions := map_put callID
              \<lparr>se_recording = r, se_workDir = workDir, se_cellularSamples = 0, se_clientSamples = 0\<rparr>
              (mg_sessions (rw_manager w1))\<rparr>\<rparr>))"

text \<open>The second half of \<^verbatim>\<open>Start\<close>, from the new id on; \<open>month_dir\<close> is the year and month part of the path.\<close>

definition new_segment ::
  "(timestamp \<Rightarrow> string) \<Rightarrow> string \<Rightarrow> timestamp \<times> timestamp \<Rightarrow> CallMeta \<Rightarrow> string \<Rightarrow> string \<Rightarrow> RecWorld \<Rightarrow>
   (rec_error, Recording) result \<times> RecWorld" where
  "new_segment month_dir fresh clocks meta mode deviceID w =
     (let created = fst clocks;
          started = (if cm_StartedAt meta = 0 then created else cm_StartedAt meta);
          root = mg_root (rw_manager w);
          finalPath = path_join (path_join root (month_dir started)) (fresh @ ''.m4a'');
          workDir = work_dir root fresh
      in case os_call (\<lambda>d. d\<lparr>dk_work := map_put fresh created (dk_work d)\<rparr>) w of
           (False, w1) \<Rightarrow> (Inl OsFailure, w1)
         | (True, w1) \<Rightarrow>
       (case os_call (write_file (cellular_part workDir) []) w1 of
          (False, w2) \<Rightarrow> (Inl OsFailure, w2)
        | (True, w2) \<Rightarrow>
       (case os_call (write_file (client_part workDir) []) w2 of
          (False, w3) \<Rightarrow> (Inl OsFailure, w3)
        | (True, w3) \<Rightarrow>
       (case save_and_link created (starting_recording fresh created started (mg_retentionDays (rw_manager w))
                meta mode deviceID finalPath) w3 of
          (Inl e, w4) \<Rightarrow> (Inl (RecDb e), w4)
        | (Inr r1, w4) \<Rightarrow>
       (case save_and_link (snd clocks) (r1\<lparr>rc_State := ''recording'', rc_UpdatedAt := snd clocks\<rparr>)
                (publish_rec ''recording.starting'' r1 w4) of
          (Inl e, w5) \<Rightarrow> (Inl (RecDb e), w5)
        | (Inr r2, w5) \<Rightarrow>
            (Inr r2, open_session (cm_ID meta) workDir r2 w5))))))"

definition availableSpace :: "RecWorld \<Rightarrow> int option \<times> RecWorld" where
  "availableSpace w = (case os_call (\<lambda>d. d) w of (ok, w1) \<Rightarrow>
     ((if ok then Some (dk_free (rw_disk w1)) else None), w1))"

definition rec_Start ::
  "(timestamp \<Rightarrow> string) \<Rightarrow> string \<Rightarrow> timestamp \<times> timestamp \<Rightarrow> bool \<Rightarrow> CallMeta \<Rightarrow> string \<Rightarrow> string \<Rightarrow> RecWorld \<Rightarrow>
   (rec_error, Recording) result \<times> RecWorld" where
  "rec_Start month_dir fresh clocks cancelled meta mode0 deviceID w =
     (if cancelled then (Inl ContextDone, w)
      else if cm_ID meta = [] then (Inl CallIdRequired, w)
      else
        let mode = (if mode0 = [] then ''manual'' else mode0)
        in (case map_of (mg_sessions (rw_manager w)) (cm_ID meta) of
              Some current \<Rightarrow> (Inr (se_recording current), w)
            | None \<Rightarrow>
        (case Settings w of
           (Inl e, w1) \<Rightarrow> (Inl (RecDb e), w1)
         | (Inr settings, w1) \<Rightarrow>
             if \<not> st_Enabled settings then (Inl RecordingDisabled, w1)
             else if mode \<noteq> ''manual'' \<and> st_AutoMode settings = ''off'' then (Inl AutomaticRecordingDisabled, w1)
             else
        (case availableSpace w1 of
           (None, w2) \<Rightarrow> (Inl OsFailure, w2)
         | (Some free, w2) \<Rightarrow>
             if free < mg_minimumFree (rw_manager w) then (Inl LowStorage, w2)
             else
        (case rec_db (GetRecordingByCall (cm_ID meta)) w2 of
           (Inr existing, w3) \<Rightarrow>
             if rc_State existing = ''recording'' \<or> rc_State existing = ''starting'' then (Inr existing, w3)
             else if rc_State existing = ''finalizing'' then (Inl StillFinalizing, w3)
             else new_segment month_dir fresh clocks meta mode deviceID w3
         | (Inl e, w3) \<Rightarrow>
             if e \<noteq> NoRows then (Inl (RecDb e), w3)
             else new_segment month_dir fresh clocks meta mode deviceID w3)))))"

section \<open>Audio\<close>

fun upsample8To16 :: "sample list \<Rightarrow> sample list" where
  "upsample8To16 [] = []"
| "upsample8To16 (s # ss) = s # s # upsample8To16 ss"

definition frame_bytes :: "sample list \<Rightarrow> byte list" where
  "frame_bytes pcm = concat (map sample_bytes (upsample8To16 pcm))"

text \<open>One frame of one side; the tracks of an open session are open files, so a write appends.\<close>

definition rec_write :: "bool \<Rightarrow> string \<Rightarrow> sample list \<Rightarrow> RecWorld \<Rightarrow> (rec_error, unit) result \<times> RecWorld" where
  "rec_write cellular callID pcm w =
     (case map_of (mg_sessions (rw_manager w)) callID of
        None \<Rightarrow> (Inl RecNotActive, w)
      | Some current \<Rightarrow>
          if pcm = [] then (Inr (), w)
          else
            let path = (if cellular then cellular_part else client_part) (se_workDir current);
                n = length (upsample8To16 pcm)
            in (case os_call (\<lambda>d. write_file path
                       (case map_of (dk_files d) path of None \<Rightarrow> frame_bytes pcm | Some old \<Rightarrow> old @ frame_bytes pcm) d) w of
                  (False, w1) \<Rightarrow> (Inl OsFailure, w1)
                | (True, w1) \<Rightarrow> (Inr (), w1\<lparr>rw_manager := (rw_manager w1)\<lparr>mg_sessions := map_put callID
                     (if cellular then current\<lparr>se_cellularSamples := se_cellularSamples current + n\<rparr>
                      else current\<lparr>se_clientSamples := se_clientSamples current + n\<rparr>)
                     (mg_sessions (rw_manager w1))\<rparr>\<rparr>)))"

definition WriteCellularFrame where "WriteCellularFrame = rec_write True"

definition WriteClientFrame where "WriteClientFrame = rec_write False"

text \<open>\<^verbatim>\<open>trackPeaks\<close>: the file is read whole; a peak is the absolute value of a sample in units of \<open>1/32768\<close>. An odd
  last byte is ignored.\<close>

definition sample_at :: "byte list \<Rightarrow> nat \<Rightarrow> sample" where
  "sample_at content i = bytes_sample (content ! (2 * i)) (content ! (2 * i + 1))"

definition peak_bucket :: "nat \<Rightarrow> nat \<Rightarrow> nat" where
  "peak_bucket n index =
     (let bucket = index * WaveformSamples div n
      in if WaveformSamples \<le> bucket then WaveformSamples - 1 else bucket)"

definition loudest_step :: "byte list \<Rightarrow> nat \<Rightarrow> nat list \<Rightarrow> nat \<Rightarrow> nat list" where
  "loudest_step content n peaks index =
     (let v = nat \<bar>sint (sample_at content index)\<bar>; bucket = peak_bucket n index
      in if peaks ! bucket < v then peaks[bucket := v] else peaks)"

definition trackPeaks :: "byte list \<Rightarrow> nat list" where
  "trackPeaks content =
     (let n = length content div 2
      in foldl (loudest_step content n) (replicate WaveformSamples 0) [0..<n])"

definition waveform_peaks :: "byte list \<Rightarrow> byte list \<Rightarrow> nat list" where
  "waveform_peaks cellular client = map2 (\<lambda>a b. if b < a then a else b) (trackPeaks cellular) (trackPeaks client)"

section \<open>Stopping\<close>

text \<open>The arguments of the goroutine \<^verbatim>\<open>finalize\<close>.\<close>

type_synonym finalize_task = "Recording \<times> string"

definition rec_Stop :: "timestamp \<Rightarrow> string \<Rightarrow> RecWorld \<Rightarrow> (rec_error, finalize_task) result \<times> RecWorld" where
  "rec_Stop now callID w =
     (let w1 = w\<lparr>rw_manager := (rw_manager w)\<lparr>mg_sessions := map_del callID (mg_sessions (rw_manager w))\<rparr>\<rparr>
      in case map_of (mg_sessions (rw_manager w)) callID of
           None \<Rightarrow> (Inl RecNotActive, w1)
         | Some current \<Rightarrow>
             let recording = (se_recording current)\<lparr>rc_State := ''finalizing'', rc_StoppedAt := Some now,
                   rc_UpdatedAt := now,
                   rc_DurationMs := durationMillis (se_cellularSamples current) (se_clientSamples current)\<rparr>
             in (case save_recording now recording w1 of
                   (Inl e, w2) \<Rightarrow> (Inl (RecDb e), w2)
                 | (Inr r, w2) \<Rightarrow>
                     (Inr (r, se_workDir current), publish_rec ''recording.finalizing'' r (link_quietly r w2))))"

definition rec_fail :: "timestamp \<Rightarrow> Recording \<Rightarrow> string \<Rightarrow> string \<Rightarrow> RecWorld \<Rightarrow> RecWorld" where
  "rec_fail now recording code detail w =
     (let r0 = recording\<lparr>rc_State := ''failed'', rc_FailureCode := code, rc_FailureDetail := detail, rc_UpdatedAt := now\<rparr>
      in case save_recording now r0 w of
           (Inl _, w1) \<Rightarrow> publish_rec ''recording.failed'' r0 (link_quietly r0 w1)
         | (Inr r, w1) \<Rightarrow> publish_rec ''recording.failed'' r (link_quietly r w1))"

text \<open>The encoder's output from the two tracks (\<^term>\<open>None\<close> when it fails) and the digest of a file are parameters, and so
  are the texts of the errors of the system (\<open>detail\<close>, by failure code) and the JSON of the peaks.\<close>

record Tools =
  tl_encode :: "byte list option \<Rightarrow> byte list option \<Rightarrow> byte list option"
  tl_sha :: "byte list \<Rightarrow> string"
  tl_peaks :: "nat list \<Rightarrow> byte list"
  tl_detail :: "string \<Rightarrow> string"

text \<open>\<^verbatim>\<open>writeWaveform\<close>: the two tracks are opened, the file is written beside its place and moved there.\<close>

definition writeWaveform :: "Tools \<Rightarrow> string \<Rightarrow> string \<Rightarrow> string \<Rightarrow> RecWorld \<Rightarrow> bool \<times> RecWorld" where
  "writeWaveform tools path cellular client w =
     (case os_call (\<lambda>d. d) w of
        (False, w1) \<Rightarrow> (False, w1)
      | (True, w1) \<Rightarrow>
     (case (file_at cellular w1, file_at client w1) of
        (Some a, Some b) \<Rightarrow>
          (case os_call (write_file (path @ ''.part'') (tl_peaks tools (waveform_peaks a b))) w1 of
             (False, w2) \<Rightarrow> (False, w2)
           | (True, w2) \<Rightarrow>
               os_call (\<lambda>d. remove_file (path @ ''.part'') (write_file path (tl_peaks tools (waveform_peaks a b)) d)) w2)
      | _ \<Rightarrow> (False, w1)))"

definition finish_ready ::
  "Tools \<Rightarrow> timestamp \<Rightarrow> Recording \<Rightarrow> string \<Rightarrow> string \<Rightarrow> byte list \<Rightarrow> RecWorld \<Rightarrow> RecWorld" where
  "finish_ready tools now recording workDir waveformPath content w =
     (let r0 = recording\<lparr>rc_State := ''ready'', rc_WaveformPath := waveformPath,
                rc_SizeBytes := Some (int (length content)), rc_SHA256 := tl_sha tools content, rc_UpdatedAt := now\<rparr>
      in case save_recording now r0 w of
           (Inl _, w1) \<Rightarrow> rec_fail now r0 ''database_error'' (tl_detail tools ''database_error'') w1
         | (Inr r, w1) \<Rightarrow>
             publish_rec ''recording.ready'' r
               (quietly (remove_work workDir (rc_ID r))
               (quietly (remove_file (path_join workDir ''meta.json''))
               (quietly (remove_file (client_part workDir))
               (quietly (remove_file (cellular_part workDir)) (link_quietly r w1))))))"

definition finalize :: "Tools \<Rightarrow> timestamp \<Rightarrow> finalize_task \<Rightarrow> RecWorld \<Rightarrow> RecWorld" where
  "finalize tools now task w =
     (case task of (recording, workDir) \<Rightarrow>
        let cellularPath = cellular_part workDir; clientPath = client_part workDir;
            temporary = rc_FilePath recording @ ''.part.m4a'';
            waveformPath = rc_FilePath recording @ ''.waveform.json'';
            broken = (\<lambda>code. rec_fail now recording code (tl_detail tools code))
        in (case os_call (\<lambda>d. d) w of
              (False, w1) \<Rightarrow> broken ''storage_error'' w1
            | (True, w1) \<Rightarrow>
        (let w2 = quietly (remove_file temporary) w1
         in case tl_encode tools (file_at cellularPath w2) (file_at clientPath w2) of
              None \<Rightarrow> broken ''encoder_failed'' (quietly (remove_file temporary) w2)
            | Some encoded \<Rightarrow>
        (case os_call (write_file temporary encoded) w2 of
           (False, w3) \<Rightarrow> broken ''encoder_failed'' (quietly (remove_file temporary) w3)
         | (True, w3) \<Rightarrow>
        (case writeWaveform tools waveformPath cellularPath clientPath w3 of
           (False, w4) \<Rightarrow> broken ''waveform_failed'' (quietly (remove_file temporary) w4)
         | (True, w4) \<Rightarrow>
        (case os_call (\<lambda>d. remove_file temporary (write_file (rc_FilePath recording) encoded d)) w4 of
           (False, w5) \<Rightarrow> broken ''storage_error'' (quietly (remove_file waveformPath) w5)
         | (True, w5) \<Rightarrow>
        (case os_call (\<lambda>d. d) w5 of
           (False, w6) \<Rightarrow> broken ''storage_error'' w6
         | (True, w6) \<Rightarrow>
        (case os_call (\<lambda>d. d) w6 of
           (False, w7) \<Rightarrow> broken ''storage_error'' w7
         | (True, w7) \<Rightarrow> finish_ready tools now recording workDir waveformPath encoded w7))))))))"

section \<open>Looking up and deleting\<close>

definition rec_Delete :: "timestamp \<Rightarrow> string \<Rightarrow> RecWorld \<Rightarrow> (db_error, unit) result \<times> RecWorld" where
  "rec_Delete now i w =
     (case rec_db (GetRecording i) w of
        (Inl e, w1) \<Rightarrow> (Inl e, w1)
      | (Inr recording, w1) \<Rightarrow>
          if rc_State recording = ''deleted'' then (Inr (), w1)
          else
            (case save_recording now (recording\<lparr>rc_State := ''deleted'', rc_UpdatedAt := now\<rparr>) w1 of
               (Inl e, w2) \<Rightarrow> (Inl e, w2)
             | (Inr r, w2) \<Rightarrow>
                 let w3 = link_quietly r w2;
                     w4 = (if rc_FilePath r \<noteq> [] then quietly (remove_file (rc_FilePath r)) w3 else w3);
                     w5 = (if rc_WaveformPath r \<noteq> [] then quietly (remove_file (rc_WaveformPath r)) w4 else w4);
                     w6 = quietly (remove_work (work_dir (mg_root (rw_manager w)) i) i) w5
                 in (Inr (), publish_rec ''recording.deleted'' r w6)))"

definition rec_AudioPath :: "(string \<Rightarrow> string option) \<Rightarrow> string \<Rightarrow> RecWorld \<Rightarrow> (rec_error, string) result \<times> RecWorld" where
  "rec_AudioPath safePath i w =
     (case rec_db (GetRecording i) w of
        (Inl e, w1) \<Rightarrow> (Inl (RecDb e), w1)
      | (Inr r, w1) \<Rightarrow>
          if rc_State r \<noteq> ''ready'' \<or> rc_FilePath r = [] then (Inl NotExist, w1)
          else ((case safePath (rc_FilePath r) of None \<Rightarrow> Inl OutsideRoot | Some p \<Rightarrow> Inr p), w1))"

definition rec_WaveformPath :: "(string \<Rightarrow> string option) \<Rightarrow> string \<Rightarrow> RecWorld \<Rightarrow> (rec_error, string) result \<times> RecWorld" where
  "rec_WaveformPath safePath i w =
     (case rec_db (GetRecording i) w of
        (Inl e, w1) \<Rightarrow> (Inl (RecDb e), w1)
      | (Inr r, w1) \<Rightarrow>
          if rc_State r \<noteq> ''ready'' \<or> rc_WaveformPath r = [] then (Inl NotExist, w1)
          else ((case safePath (rc_WaveformPath r) of None \<Rightarrow> Inl OutsideRoot | Some p \<Rightarrow> Inr p), w1))"

section \<open>Retention and recovery\<close>

fun delete_expired_rows :: "timestamp \<Rightarrow> Recording list \<Rightarrow> RecWorld \<Rightarrow> RecWorld" where
  "delete_expired_rows now [] w = w"
| "delete_expired_rows now (r # rs) w =
     delete_expired_rows now rs
       (case rc_RetentionExpiresAt r of
          Some t \<Rightarrow> if t < now then snd (rec_Delete now (rc_ID r) w) else w
        | None \<Rightarrow> w)"

definition deleteExpired :: "timestamp \<Rightarrow> RecWorld \<Rightarrow> RecWorld" where
  "deleteExpired now w =
     (case rec_db (ListRecordings 0 500 [] [] None None) w of
        (Inl _, w1) \<Rightarrow> w1
      | (Inr rs, w1) \<Rightarrow> delete_expired_rows now rs w1)"

text \<open>\<^verbatim>\<open>fileSize\<close> with its error ignored.\<close>

definition size_or_zero :: "string \<Rightarrow> RecWorld \<Rightarrow> nat" where
  "size_or_zero path w = (case file_at path w of None \<Rightarrow> 0 | Some c \<Rightarrow> length c)"

fun recover_entries ::
  "(db_error \<Rightarrow> string) \<Rightarrow> timestamp \<Rightarrow> string \<Rightarrow> (string \<times> timestamp) list \<Rightarrow> RecWorld \<Rightarrow>
   (db_error option \<times> finalize_task list) \<times> RecWorld" where
  "recover_entries detail now root [] w = ((None, []), w)"
| "recover_entries detail now root ((i, modified) # entries) w =
     (case rec_db (GetRecording i) w of
        (Inl e, w1) \<Rightarrow>
          if e = NoRows then
            recover_entries detail now root entries
              (if modified + 86400000 < now then quietly (remove_tree (work_dir root i) i) w1 else w1)
          else ((Some e, []), w1)
      | (Inr recording, w1) \<Rightarrow>
          (case rec_db (GetCall (rc_CallID recording)) w1 of
             (Inl e, w2) \<Rightarrow> recover_entries detail now root entries (rec_fail now recording ''orphaned_call'' (detail e) w2)
           | (Inr c, w2) \<Rightarrow>
               if cl_EndedAt c = None
               then recover_entries detail now root entries (rec_fail now recording ''gateway_restarted''
                      ''recording media session was interrupted by Gateway restart'' w2)
               else
                 let workDir = work_dir root i;
                     r = recording\<lparr>rc_DurationMs := durationMillis (size_or_zero (cellular_part workDir) w2 div 2)
                                                       (size_or_zero (client_part workDir) w2 div 2),
                           rc_StoppedAt := (case rc_StoppedAt recording of None \<Rightarrow> cl_EndedAt c | Some t \<Rightarrow> Some t)\<rparr>
                 in (case recover_entries detail now root entries w2 of
                       ((err, tasks), w3) \<Rightarrow> ((err, (r, workDir) # tasks), w3))))"

definition rec_Recover :: "(db_error \<Rightarrow> string) \<Rightarrow> timestamp \<Rightarrow> RecWorld \<Rightarrow> (rec_error option \<times> finalize_task list) \<times> RecWorld" where
  "rec_Recover detail now w =
     (case os_call (\<lambda>d. d) w of
        (False, w1) \<Rightarrow> ((Some OsFailure, []), w1)
      | (True, w1) \<Rightarrow>
          (case recover_entries detail now (mg_root (rw_manager w1)) (dk_work (rw_disk w1)) w1 of
             ((err, tasks), w2) \<Rightarrow> ((map_option RecDb err, tasks), w2)))"

section \<open>What is on disk\<close>

lemma nth_sample_bytes:
  "i < length ss \<Longrightarrow> sample_at (concat (map sample_bytes ss)) i = ss ! i"
proof (induction ss arbitrary: i)
  case (Cons s ss)
  show ?case
  proof (cases i)
    case 0
    then show ?thesis by (simp add: sample_at_def sample_bytes_def bytes_sample_bytes)
  next
    case (Suc j)
    with Cons show ?thesis by (simp add: sample_at_def sample_bytes_def)
  qed
qed simp

lemma length_upsample [simp]: "length (upsample8To16 ss) = 2 * length ss"
  by (induction ss) simp_all

lemma length_sample_bytes [simp]: "length (concat (map sample_bytes ss)) = 2 * length ss"
  by (induction ss) (simp_all add: sample_bytes_def)

text \<open>The frames of a call, told apart by side, and what a track should hold after them.\<close>

fun write_all :: "string \<Rightarrow> (bool \<times> sample list) list \<Rightarrow> RecWorld \<Rightarrow> RecWorld option" where
  "write_all callID [] w = Some w"
| "write_all callID ((side, pcm) # frames) w =
     (case rec_write side callID pcm w of (Inl _, _) \<Rightarrow> None | (Inr _, w1) \<Rightarrow> write_all callID frames w1)"

definition side_samples :: "bool \<Rightarrow> (bool \<times> sample list) list \<Rightarrow> sample list" where
  "side_samples side frames = concat (map snd (filter (\<lambda>f. fst f = side) frames))"

definition side_path :: "bool \<Rightarrow> Session \<Rightarrow> string" where
  "side_path side se = (if side then cellular_part else client_part) (se_workDir se)"

definition side_count :: "bool \<Rightarrow> Session \<Rightarrow> nat" where
  "side_count side se = (if side then se_cellularSamples else se_clientSamples) se"

lemma parts_differ [simp]: "cellular_part d \<noteq> client_part d" "client_part d \<noteq> cellular_part d"
  by (simp_all add: cellular_part_def client_part_def path_join_def)

lemma side_paths_differ: "side \<noteq> side' \<Longrightarrow> side_path side se \<noteq> side_path side' se"
  by (cases side; cases side') (simp_all add: side_path_def)

definition track_ok :: "string \<Rightarrow> Session \<Rightarrow> RecWorld \<Rightarrow> (bool \<Rightarrow> sample list) \<Rightarrow> bool" where
  "track_ok callID se w heard \<longleftrightarrow> map_of (mg_sessions (rw_manager w)) callID = Some se \<and>
     (\<forall>side. file_at (side_path side se) w = Some (frame_bytes (heard side)) \<and> side_count side se = 2 * length (heard side))"

lemma upsample_append [simp]: "upsample8To16 (a @ b) = upsample8To16 a @ upsample8To16 b"
  by (induction a rule: upsample8To16.induct) simp_all

lemma frame_bytes_append [simp]: "frame_bytes (a @ b) = frame_bytes a @ frame_bytes b"
  by (simp add: frame_bytes_def)

lemma frame_bytes_Nil [simp]: "frame_bytes [] = []"
  by (simp add: frame_bytes_def)

lemma rec_write_track:
  assumes "rec_write side callID pcm w = (Inr u, w')" and "track_ok callID se w heard"
  shows "\<exists>se'. track_ok callID se' w' (heard(side := heard side @ pcm)) \<and> se_workDir se' = se_workDir se \<and>
    se_recording se' = se_recording se"
proof (cases "pcm = []")
  case True
  with assms show ?thesis by (auto simp: rec_write_def track_ok_def)
next
  case False
  let ?se = "if side then se\<lparr>se_cellularSamples := se_cellularSamples se + 2 * length pcm\<rparr>
             else se\<lparr>se_clientSamples := se_clientSamples se + 2 * length pcm\<rparr>"
  have content: "map_of (dk_files (rw_disk w)) (side_path side se) = Some (frame_bytes (heard side))"
    using assms(2) by (simp add: track_ok_def file_at_def)
  have m: "map_of (mg_sessions (rw_manager w)) callID = Some se" using assms(2) by (simp add: track_ok_def)
  have w': "w' = w\<lparr>rw_disk := write_file (side_path side se) (frame_bytes (heard side) @ frame_bytes pcm)
        ((rw_disk w)\<lparr>dk_faults := tl (dk_faults (rw_disk w))\<rparr>),
      rw_manager := (rw_manager w)\<lparr>mg_sessions := map_put callID ?se (mg_sessions (rw_manager w))\<rparr>\<rparr>"
    using assms(1) False content m
    by (cases side) (auto simp: rec_write_def os_call_def Let_def side_path_def split: if_splits prod.splits)
  have paths: "side_path s ?se = side_path s se" for s by (cases side) (simp_all add: side_path_def)
  have "track_ok callID ?se w' (heard(side := heard side @ pcm))"
    unfolding track_ok_def
  proof (intro conjI allI)
    show "map_of (mg_sessions (rw_manager w')) callID = Some ?se" by (simp add: w')
    show "file_at (side_path s ?se) w' = Some (frame_bytes ((heard(side := heard side @ pcm)) s))" for s
      using assms(2) side_paths_differ [of s side se]
      by (auto simp: w' paths file_at_def write_file_def track_ok_def)
    show "side_count s ?se = 2 * length ((heard(side := heard side @ pcm)) s)" for s
    proof -
      have "side_count s se = 2 * length (heard s)" using assms(2) unfolding track_ok_def by blast
      then show ?thesis by (cases s; cases side) (simp_all add: side_count_def)
    qed
  qed
  then show ?thesis by (intro exI [of _ ?se]) (simp split: if_splits)
qed

lemma write_all_track:
  "write_all callID frames w = Some w' \<Longrightarrow> track_ok callID se w heard \<Longrightarrow>
     \<exists>se'. track_ok callID se' w' (\<lambda>side. heard side @ side_samples side frames) \<and> se_workDir se' = se_workDir se \<and>
       se_recording se' = se_recording se"
proof (induction frames arbitrary: w se heard)
  case Nil
  then show ?case by (auto simp: side_samples_def)
next
  case (Cons f frames)
  obtain side pcm where f: "f = (side, pcm)" by (cases f)
  from Cons.prems(1) f obtain u w1 where w1: "rec_write side callID pcm w = (Inr u, w1)"
    and rest: "write_all callID frames w1 = Some w'" by (auto split: prod.splits sum.splits)
  from rec_write_track [OF w1 Cons.prems(2)] obtain se1 where
    se1: "track_ok callID se1 w1 (heard(side := heard side @ pcm))"
    "se_workDir se1 = se_workDir se" "se_recording se1 = se_recording se" by blast
  from Cons.IH [OF rest se1(1)] obtain se2 where
    se2: "track_ok callID se2 w' (\<lambda>s. (heard(side := heard side @ pcm)) s @ side_samples s frames)"
    "se_workDir se2 = se_workDir se" "se_recording se2 = se_recording se" using se1(2,3) by auto
  moreover have "(\<lambda>s. (heard(side := heard side @ pcm)) s @ side_samples s frames) =
      (\<lambda>s. heard s @ side_samples s (f # frames))"
    by (auto simp: f side_samples_def fun_eq_iff)
  ultimately show ?case by auto
qed


lemma rec_db_frame: "rec_db op w = (r, w') \<Longrightarrow> rw_manager w' = rw_manager w \<and> rw_disk w' = rw_disk w"
  by (auto simp: rec_db_def split: prod.splits)

lemma save_recording_frame:
  "save_recording now r w = (x, w') \<Longrightarrow> rw_manager w' = rw_manager w \<and> rw_disk w' = rw_disk w"
  by (auto simp: save_recording_def split: prod.splits sum.splits dest: rec_db_frame)

lemma save_and_link_frame:
  "save_and_link now r w = (x, w') \<Longrightarrow> rw_manager w' = rw_manager w \<and> rw_disk w' = rw_disk w"
  by (auto simp: save_and_link_def split: prod.splits sum.splits dest!: rec_db_frame save_recording_frame)

lemma save_and_link_row:
  "save_and_link now r w = (Inr r', w') \<Longrightarrow> \<exists>seq. r' = r\<lparr>rc_SyncSeq := seq\<rparr>"
  by (auto simp: save_and_link_def save_recording_def split: prod.splits sum.splits)

lemma os_call_True:
  "os_call f w = (True, w') \<Longrightarrow>
     w' = w\<lparr>rw_disk := f ((rw_disk w)\<lparr>dk_faults := tl (dk_faults (rw_disk w))\<rparr>)\<rparr>"
  by (auto simp: os_call_def Let_def split: if_splits)

lemma quietly_cases:
  "\<exists>d. quietly f w = w\<lparr>rw_disk := d\<rparr> \<and> (d = f ((rw_disk w)\<lparr>dk_faults := tl (dk_faults (rw_disk w))\<rparr>) \<or>
     d = (rw_disk w)\<lparr>dk_faults := tl (dk_faults (rw_disk w))\<rparr>)"
  by (auto simp: quietly_def os_call_def Let_def)

lemma new_segment_track:
  assumes "new_segment month_dir fresh clocks meta mode deviceID w = (Inr r, w')"
  shows "\<exists>se. track_ok (cm_ID meta) se w' (\<lambda>_. []) \<and> se_recording se = r"
proof -
  let ?d = "work_dir (mg_root (rw_manager w)) fresh"
  from assms obtain w1 w2 w3 w5 where
    w1: "os_call (\<lambda>d. d\<lparr>dk_work := map_put fresh (fst clocks) (dk_work d)\<rparr>) w = (True, w1)"
    and w2: "os_call (write_file (cellular_part ?d) []) w1 = (True, w2)"
    and w3: "os_call (write_file (client_part ?d) []) w2 = (True, w3)"
    and w5: "rw_disk w5 = rw_disk w3"
    and w': "w' = open_session (cm_ID meta) ?d r w5"
    unfolding new_segment_def Let_def
    by (auto split: prod.splits sum.splits bool.splits dest!: save_and_link_frame simp: publish_rec_def)
  have disk: "dk_files (rw_disk w5) = map_put (client_part ?d) [] (map_put (cellular_part ?d) [] (dk_files (rw_disk w)))"
    using w5 os_call_True [OF w1] os_call_True [OF w2] os_call_True [OF w3] by (simp add: write_file_def)
  obtain d where d: "quietly (write_file (path_join ?d ''meta.json'') (meta_json r)) w5 = w5\<lparr>rw_disk := d\<rparr>"
    "dk_files d = dk_files (rw_disk w5) \<or> dk_files d = map_put (path_join ?d ''meta.json'') (meta_json r) (dk_files (rw_disk w5))"
    using quietly_cases [of "write_file (path_join ?d ''meta.json'') (meta_json r)" w5] by (auto simp: write_file_def)
  have "cellular_part ?d \<noteq> path_join ?d ''meta.json''" "client_part ?d \<noteq> path_join ?d ''meta.json''"
    by (simp_all add: cellular_part_def client_part_def path_join_def)
  then have "map_of (dk_files d) (cellular_part ?d) = Some [] \<and> map_of (dk_files d) (client_part ?d) = Some []"
    using d(2) by (elim disjE) (simp_all add: disk)
  then show ?thesis
    by (intro exI [of _ "\<lparr>se_recording = r, se_workDir = ?d, se_cellularSamples = 0, se_clientSamples = 0\<rparr>"])
      (simp add: track_ok_def side_path_def side_count_def file_at_def w' publish_rec_def open_session_def d(1))
qed

text \<open>Sums over the samples of a bucket.\<close>

lemma peak_bucket_bound: "peak_bucket n i < WaveformSamples"
  by (simp add: peak_bucket_def Let_def WaveformSamples_def)

definition loudness :: "byte list \<Rightarrow> nat \<Rightarrow> nat" where
  "loudness content i = nat \<bar>sint (sample_at content i)\<bar>"

lemma peak_fold:
  assumes "length peaks = WaveformSamples"
    and "peaks' = foldl (loudest_step content n) peaks is"
  shows "length peaks' = WaveformSamples \<and>
    (\<forall>b < WaveformSamples. peaks ! b \<le> peaks' ! b \<and> (\<forall>i \<in> set is. peak_bucket n i = b \<longrightarrow> loudness content i \<le> peaks' ! b) \<and>
       (peaks' ! b = peaks ! b \<or> (\<exists>i \<in> set is. peak_bucket n i = b \<and> peaks' ! b = loudness content i)))"
  using assms
proof (induction "is" arbitrary: peaks)
  case (Cons i js)
  let ?p = "loudest_step content n peaks i"
  have len: "length ?p = WaveformSamples" using Cons.prems(1) by (simp add: loudest_step_def Let_def)
  have step: "?p ! b = (if peak_bucket n i = b then max (peaks ! b) (loudness content i) else peaks ! b)"
    if "b < WaveformSamples" for b
    using that Cons.prems(1) peak_bucket_bound [of n i]
    by (auto simp: loudest_step_def loudness_def Let_def max_def)
  note ih = Cons.IH [OF len]
  have "peaks' = foldl (loudest_step content n) ?p js" using Cons.prems(2) by simp
  note ih = ih [OF this]
  show ?case
  proof (intro conjI allI impI)
    show "length peaks' = WaveformSamples" using ih by blast
    fix b assume b: "b < WaveformSamples"
    from ih b have ih: "?p ! b \<le> peaks' ! b" "\<forall>i \<in> set js. peak_bucket n i = b \<longrightarrow> loudness content i \<le> peaks' ! b"
      "peaks' ! b = ?p ! b \<or> (\<exists>i \<in> set js. peak_bucket n i = b \<and> peaks' ! b = loudness content i)" by blast+
    show "peaks ! b \<le> peaks' ! b" using ih(1) step [OF b] by (simp split: if_splits)
    show "\<forall>i \<in> set (i # js). peak_bucket n i = b \<longrightarrow> loudness content i \<le> peaks' ! b"
      using ih(1,2) step [OF b] by auto
    show "peaks' ! b = peaks ! b \<or> (\<exists>i \<in> set (i # js). peak_bucket n i = b \<and> peaks' ! b = loudness content i)"
      using ih(3) step [OF b] by (auto simp: max_def split: if_splits)
  qed
qed simp


text \<open>The bytes of a track at double rate: every sample twice, low byte first.\<close>

definition track_bytes :: "sample list \<Rightarrow> byte list" where
  "track_bytes pcm = concat (map (\<lambda>s. [ucast s, ucast (drop_bit 8 s), ucast s, ucast (drop_bit 8 s)]) pcm)"

lemma frame_bytes_track: "frame_bytes pcm = track_bytes pcm"
  by (induction pcm) (simp_all add: frame_bytes_def track_bytes_def sample_bytes_def)

lemma durationMillis_longer:
  "durationMillis (2 * n) (2 * m) = (if n = 0 \<and> m = 0 then None else Some (int (2 * max n m * 1000 div 16000)))"
  by (simp add: durationMillis_def Let_def RecSampleRate_def max_def)

text \<open>C18: what the two sides of a call say after a successful start ends up in their tracks on disk, in the order in which
  each side said it and however the frames of the two sides alternate: every sample twice, two bytes each, low byte first, which
  is the audio at 16000 samples a second. The duration that Stop reports is that of the longer side in milliseconds, and there is
  none when nobody said anything.\<close>

theorem recorded_audio_complete:
  assumes "new_segment month_dir fresh clocks meta mode deviceID w0 = (Inr r, w1)"
    and "write_all (cm_ID meta) frames w1 = Some w2"
    and "rec_Stop now (cm_ID meta) w2 = (Inr (r', workDir), w3)"
  shows "file_at (cellular_part workDir) w3 = Some (track_bytes (side_samples True frames)) \<and>
    file_at (client_part workDir) w3 = Some (track_bytes (side_samples False frames)) \<and>
    rc_ID r' = rc_ID r \<and>
    rc_DurationMs r' =
      (let n = length (side_samples True frames); m = length (side_samples False frames)
       in if n = 0 \<and> m = 0 then None else Some (int (2 * max n m * 1000 div 16000)))"
proof -
  from new_segment_track [OF assms(1)] obtain se where se: "track_ok (cm_ID meta) se w1 (\<lambda>_. [])" "se_recording se = r"
    by blast
  from write_all_track [OF assms(2) se(1)] se(2) obtain se2 where
    t: "track_ok (cm_ID meta) se2 w2 (\<lambda>side. side_samples side frames)" and r: "se_recording se2 = r" by auto
  have m: "map_of (mg_sessions (rw_manager w2)) (cm_ID meta) = Some se2" using t by (simp add: track_ok_def)
  have side: "file_at (side_path s se2) w2 = Some (frame_bytes (side_samples s frames))"
    "side_count s se2 = 2 * length (side_samples s frames)" for s
    using t unfolding track_ok_def by blast+
  from assms(3) m have wd: "workDir = se_workDir se2" and disk: "rw_disk w3 = rw_disk w2"
    and r': "rc_ID r' = rc_ID r \<and> rc_DurationMs r' = durationMillis (se_cellularSamples se2) (se_clientSamples se2)"
    by (auto simp: rec_Stop_def Let_def publish_rec_def link_quietly_def save_recording_def rec_db_def r
        split: prod.splits sum.splits)
  show ?thesis
    using side [of True] side [of False] r'
    by (simp add: side_path_def side_count_def file_at_def wd disk frame_bytes_track durationMillis_longer Let_def)
qed

lemma fold_max_eq:
  "\<forall>x \<in> set xs. x \<le> v \<Longrightarrow> m \<le> v \<Longrightarrow> m = v \<or> v \<in> set xs \<Longrightarrow> fold max xs m = (v :: nat)"
  by (induction xs arbitrary: m) (auto simp: max_def)

text \<open>The waveform of a track has one value for each of its buckets: the loudest sample that falls into it.\<close>

theorem trackPeaks_loudest:
  assumes "b < WaveformSamples"
  shows "length (trackPeaks content) = WaveformSamples \<and>
    (let n = length content div 2; heard = map (loudness content) (filter (\<lambda>i. peak_bucket n i = b) [0..<n])
     in trackPeaks content ! b = fold max heard 0)"
proof -
  let ?n = "length content div 2"
  let ?is = "filter (\<lambda>i. peak_bucket ?n i = b) [0..<?n]"
  have zero: "length (replicate WaveformSamples (0 :: nat)) = WaveformSamples" by simp
  have p: "trackPeaks content = foldl (loudest_step content ?n) (replicate WaveformSamples 0) [0..<?n]"
    by (simp add: trackPeaks_def Let_def)
  have start: "replicate WaveformSamples (0 :: nat) ! b = 0" using assms by simp
  from peak_fold [OF zero p] assms have len: "length (trackPeaks content) = WaveformSamples"
    and u: "\<forall>i \<in> set [0..<?n]. peak_bucket ?n i = b \<longrightarrow> loudness content i \<le> trackPeaks content ! b"
    and r: "trackPeaks content ! b = replicate WaveformSamples 0 ! b \<or>
      (\<exists>i \<in> set [0..<?n]. peak_bucket ?n i = b \<and> trackPeaks content ! b = loudness content i)"
    by blast+
  have upper: "\<forall>i \<in> set ?is. loudness content i \<le> trackPeaks content ! b" using u by simp
  have reached: "trackPeaks content ! b = 0 \<or> (\<exists>i \<in> set ?is. trackPeaks content ! b = loudness content i)"
    using r
  proof
    assume "\<exists>i \<in> set [0..<?n]. peak_bucket ?n i = b \<and> trackPeaks content ! b = loudness content i"
    then obtain i where "i \<in> set ?is" "trackPeaks content ! b = loudness content i" by auto
    then show ?thesis by blast
  qed (simp only: start simp_thms)
  have "fold max (map (loudness content) ?is) 0 = trackPeaks content ! b"
    by (rule fold_max_eq) (use upper reached in auto)
  then show ?thesis using len by (simp add: Let_def)
qed

theorem trackPeaks_loudest_witness: "trackPeaks [0, 0x80] ! 0 = 32768"
  using trackPeaks_loudest [of 0 "[0, 0x80]"]
  by (simp add: WaveformSamples_def peak_bucket_def loudness_def sample_at_def bytes_sample_def Let_def)

section \<open>Examples of runs\<close>

text \<open>A store with one call on it, and a manager without sessions.\<close>

definition sample_call :: "timestamp option \<Rightarrow> CallRecord" where
  "sample_call ended = \<lparr>cl_ID = ''c'', cl_Direction = ''inbound'', cl_Peer = ''1'', cl_State = ''active'', cl_StartedAt = 1,
     cl_ConnectedAt = Some 2, cl_EndedAt = ended, cl_EndReason = [], cl_RecordingID = [], cl_RecordingState = [],
     cl_RecordingDurationMs = None, cl_SyncSeq = 0\<rparr>"

definition sample_world :: "bool list \<Rightarrow> RecWorld" where
  "sample_world faults = \<lparr>rw_db = (empty_tables\<lparr>db_calls := [\<lparr>cw_Call = sample_call None, cw_DeletedAt = None\<rparr>]\<rparr>, faults),
     rw_manager = \<lparr>mg_root = ''/r'', mg_retentionDays = 0, mg_minimumFree = 0, mg_sessions = [], mg_events = []\<rparr>,
     rw_disk = \<lparr>dk_files = [], dk_work = [], dk_free = 1, dk_faults = []\<rparr>\<rparr>"

definition sample_meta :: CallMeta where
  "sample_meta = \<lparr>cm_ID = ''c'', cm_Direction = ''inbound'', cm_Peer = ''1'', cm_StartedAt = 1\<rparr>"

lemmas store_run = rec_db_def SaveRecording_def UpdateCallRecording_def transaction_def then_do_def driver_def
  appendSyncLog_def log_change_def upsert_recording_def require_rows_def give_def fail_def update_rows_def query_def
  GetRecording_def GetCall_def GetRecordingByCall_def

lemmas recording_run = save_and_link_def save_recording_def os_call_def write_file_def publish_rec_def
  quietly_def link_quietly_def starting_recording_def retentionDeadline_def open_session_def
  sample_world_def sample_call_def sample_meta_def empty_tables_def recording_in_flight_def clashes_def

definition sample_frames :: "(bool \<times> sample list) list" where
  "sample_frames = [(True, replicate 8 1), (False, replicate 8 3), (True, replicate 8 2)]"

lemma sample_audio:
  "\<exists>r w1 w2 r' workDir w3.
     new_segment (\<lambda>_. ''m'') ''i'' (3, 4) sample_meta ''manual'' ''d'' (sample_world []) = (Inr r, w1) \<and>
     write_all ''c'' sample_frames w1 = Some w2 \<and> rec_Stop 9 ''c'' w2 = (Inr (r', workDir), w3)"
  by (simp add: new_segment_def recording_run store_run Let_def rec_write_def rec_Stop_def map_put_def
      work_dir_def path_join_def cellular_part_def client_part_def sample_frames_def)

theorem recorded_audio_complete_witness:
  "\<exists>w w3 r' workDir. rec_Stop 9 ''c'' w = (Inr (r', workDir), w3) \<and>
     file_at (cellular_part workDir) w3 = Some (track_bytes (replicate 8 1 @ replicate 8 2)) \<and>
     file_at (client_part workDir) w3 = Some (track_bytes (replicate 8 3)) \<and> rc_DurationMs r' = Some 2"
proof -
  from sample_audio obtain r w1 w2 r' workDir w3 where
    start: "new_segment (\<lambda>_. ''m'') ''i'' (3, 4) sample_meta ''manual'' ''d'' (sample_world []) = (Inr r, w1)"
    and frames: "write_all ''c'' sample_frames w1 = Some w2"
    and stop: "rec_Stop 9 ''c'' w2 = (Inr (r', workDir), w3)" by blast
  have c: "cm_ID sample_meta = ''c''" by (simp add: sample_meta_def)
  have "side_samples True sample_frames = replicate 8 1 @ replicate 8 2" "side_samples False sample_frames = replicate 8 3"
    by (simp_all add: side_samples_def sample_frames_def)
  note sides = this
  from recorded_audio_complete [OF start, unfolded c, OF frames stop, unfolded sides] stop
  show ?thesis by (auto simp: Let_def)
qed

section \<open>Defects\<close>

text \<open>A recording row left in the state starting or recording without a session, which a start that fails halfway
  leaves behind, blocks the call: every later start reports that row as a success, opens no session, and neither audio
  nor a stop is accepted.\<close>

theorem orphan_row_blocks_recording:
  assumes "map_of (mg_sessions (rw_manager w)) (cm_ID meta) = None" and "cm_ID meta \<noteq> []"
    and "rec_Start month_dir fresh clocks False meta ''manual'' deviceID w = (Inr r, w')"
    and "rec_db (GetRecordingByCall (cm_ID meta)) (snd (availableSpace (snd (Settings w)))) = (Inr r0, w0)"
    and "rc_State r0 \<in> {''starting'', ''recording''}"
  shows "r = r0 \<and> rw_manager w' = rw_manager w \<and>
    fst (rec_write side (cm_ID meta) pcm w') = Inl RecNotActive \<and> fst (rec_Stop now (cm_ID meta) w') = Inl RecNotActive"
proof -
  obtain x w1 where st: "Settings w = (x, w1)" by fastforce
  obtain y w2 where sp: "availableSpace w1 = (y, w2)" by fastforce
  have w1: "rw_manager w1 = rw_manager w" using st
    by (auto simp: Settings_def split: prod.splits sum.splits if_splits dest: rec_db_frame)
  have w2: "rw_manager w2 = rw_manager w1" using sp
    by (auto simp: availableSpace_def os_call_def Let_def split: prod.splits if_splits)
  have w0: "rw_manager w0 = rw_manager w2" using assms(4) st sp by (auto dest: rec_db_frame)
  from assms st sp have "w' = w0" and "r = r0"
    by (auto simp: rec_Start_def Let_def split: sum.splits option.splits if_splits)
  with w0 w1 w2 assms(1) show ?thesis by (simp add: rec_write_def rec_Stop_def Let_def)
qed

lemma sample_orphan:
  "\<exists>w1. rec_Start (\<lambda>_. ''m'') ''i'' (3, 4) False sample_meta ''manual'' ''d''
        (sample_world [False, False, False, False, False, False, True]) = (Inl (RecDb DriverFailure), w1) \<and>
     mg_sessions (rw_manager w1) = [] \<and>
     (\<exists>r w2. rec_Start (\<lambda>_. ''m'') ''j'' (5, 6) False sample_meta ''manual'' ''d'' w1 = (Inr r, w2) \<and>
        rec_db (GetRecordingByCall ''c'') (snd (availableSpace (snd (Settings w1)))) = (Inr r, w2) \<and>
        rc_State r = ''starting'')"
  by (simp add: rec_Start_def Settings_def GetRecordingSettings_def availableSpace_def new_segment_def recording_run
      store_run Let_def)

theorem orphan_row_blocks_recording_witness:
  "\<exists>w1 w2 r. rec_Start (\<lambda>_. ''m'') ''i'' (3, 4) False sample_meta ''manual'' ''d''
        (sample_world [False, False, False, False, False, False, True]) = (Inl (RecDb DriverFailure), w1) \<and>
     rec_Start (\<lambda>_. ''m'') ''j'' (5, 6) False sample_meta ''manual'' ''d'' w1 = (Inr r, w2) \<and>
     fst (rec_write True ''c'' [7] w2) = Inl RecNotActive \<and> fst (rec_Stop 9 ''c'' w2) = Inl RecNotActive"
proof -
  from sample_orphan obtain w1 r w2 where failed: "rec_Start (\<lambda>_. ''m'') ''i'' (3, 4) False sample_meta ''manual'' ''d''
        (sample_world [False, False, False, False, False, False, True]) = (Inl (RecDb DriverFailure), w1)"
    and none: "mg_sessions (rw_manager w1) = []"
    and again: "rec_Start (\<lambda>_. ''m'') ''j'' (5, 6) False sample_meta ''manual'' ''d'' w1 = (Inr r, w2)"
    and row: "rec_db (GetRecordingByCall ''c'') (snd (availableSpace (snd (Settings w1)))) = (Inr r, w2)"
    and st: "rc_State r = ''starting''" by blast
  have c: "cm_ID sample_meta = ''c''" by (simp add: sample_meta_def)
  have "map_of (mg_sessions (rw_manager w1)) (cm_ID sample_meta) = None" and "cm_ID sample_meta \<noteq> []"
    by (simp_all add: none c)
  from orphan_row_blocks_recording [OF this again row [folded c]] st failed again c show ?thesis by auto
qed

lemma upsert_recording_row:
  "upsert_recording r t = (Inr u, t') \<Longrightarrow>
     \<exists>x \<in> set (db_recordings t'). x = r\<lparr>rc_CallID := rc_CallID x, rc_CreatedAt := rc_CreatedAt x\<rparr>"
proof (cases "find (\<lambda>old. rc_ID old = rc_ID r) (db_recordings t)")
  case None
  assume "upsert_recording r t = (Inr u, t')"
  with None have "r \<in> set (db_recordings t')" by (auto simp: upsert_recording_def split: if_splits)
  then show ?thesis by (intro bexI [of _ r]) simp_all
next
  case (Some old)
  assume up: "upsert_recording r t = (Inr u, t')"
  let ?new = "r\<lparr>rc_CallID := rc_CallID old, rc_CreatedAt := rc_CreatedAt old\<rparr>"
  from Some have "old \<in> set (db_recordings t)" "rc_ID old = rc_ID r" by (auto simp: find_Some_iff)
  moreover from up Some have "db_recordings t' = update_rows (\<lambda>old. rc_ID old = rc_ID r) (\<lambda>_. ?new) (db_recordings t)"
    by (auto simp: upsert_recording_def Let_def split: if_splits)
  ultimately have "?new \<in> set (db_recordings t')" by (auto simp: set_update_rows)
  then show ?thesis by (intro bexI [of _ ?new]) simp_all
qed

text \<open>A row that was saved is in the table, and the call's summary leaves the recordings alone.\<close>

definition row_saved :: "Recording \<Rightarrow> Tables \<Rightarrow> bool" where
  "row_saved r t \<longleftrightarrow> (\<exists>x \<in> set (db_recordings t). rc_ID x = rc_ID r \<and> rc_State x = rc_State r \<and>
     rc_SHA256 x = rc_SHA256 r \<and> rc_FilePath x = rc_FilePath r \<and> rc_SizeBytes x = rc_SizeBytes r)"

lemma wp_SaveRecording: "wp (SaveRecording now r) (\<lambda>seq. row_saved r) t"
  unfolding SaveRecording_def Let_def
proof (intro op_rules)
  fix a t'
  assume "upsert_recording (r\<lparr>rc_CreatedAt := if rc_CreatedAt r = 0 then if rc_UpdatedAt r = 0 then now else rc_UpdatedAt r
      else rc_CreatedAt r, rc_UpdatedAt := if rc_UpdatedAt r = 0 then now else rc_UpdatedAt r,
      rc_SyncSeq := Suc (db_lastSeq t)\<rparr>) (log_change ''recording'' (rc_ID r) ''upsert'' t) = (Inr a, t')"
  from upsert_recording_row [OF this] obtain x where x: "x \<in> set (db_recordings t')" and
    "\<exists>c u s k d. x = r\<lparr>rc_CreatedAt := c, rc_UpdatedAt := u, rc_SyncSeq := s, rc_CallID := k, rc_CreatedAt := d\<rparr>"
    by blast
  then show "row_saved r t'" unfolding row_saved_def by (intro bexI [OF _ x]) auto
qed

lemma save_recording_saves:
  assumes "save_recording now r w = (Inr r', w')"
  shows "row_saved r' (fst (rw_db w')) \<and> (\<exists>seq. r' = r\<lparr>rc_SyncSeq := seq\<rparr>)"
proof -
  obtain t faults where db: "rw_db w = (t, faults)" by fastforce
  from assms db obtain seq t' faults' where s: "SaveRecording now r (t, faults) = (Inr seq, t', faults')"
    and "r' = r\<lparr>rc_SyncSeq := seq\<rparr>" "rw_db w' = (t', faults')"
    by (auto simp: save_recording_def rec_db_def split: prod.splits sum.splits)
  with wpD [OF wp_SaveRecording s] show ?thesis by (auto simp: row_saved_def)
qed

lemma recordings_kept: "preserves (\<lambda>t. P (db_recordings t)) (UpdateCallRecording i r st d)"
  unfolding UpdateCallRecording_def by (intro op_rules) (auto split: if_splits)

lemma link_quietly_keeps:
  "db_recordings (fst (rw_db (link_quietly r w))) = db_recordings (fst (rw_db w)) \<and>
   rw_disk (link_quietly r w) = rw_disk w \<and> rw_manager (link_quietly r w) = rw_manager w"
proof -
  obtain t faults where db: "rw_db w = (t, faults)" by fastforce
  obtain x t' faults' where u:
    "UpdateCallRecording (rc_CallID r) (rc_ID r) (rc_State r) (rc_DurationMs r) (t, faults) = (x, t', faults')"
    by (metis surj_pair)
  from preservesD [OF recordings_kept [of "\<lambda>rs. rs = db_recordings t"] u] show ?thesis
    by (simp add: link_quietly_def rec_db_def db u)
qed

lemma publish_keeps [simp]:
  "rw_db (publish_rec kind r w) = rw_db w" "rw_disk (publish_rec kind r w) = rw_disk w"
  "mg_events (rw_manager (publish_rec kind r w)) = mg_events (rw_manager w) @ [(kind, r)]"
  by (simp_all add: publish_rec_def)

lemma quietly_keeps [simp]: "rw_db (quietly f w) = rw_db w" "rw_manager (quietly f w) = rw_manager w"
  by (simp_all add: quietly_def os_call_def Let_def)

lemma row_saved_link [simp]:
  "row_saved x (fst (rw_db (link_quietly r w))) = row_saved x (fst (rw_db w))"
  by (simp add: row_saved_def link_quietly_keeps)

lemma rec_Stop_result:
  assumes "rec_Stop now callID w = (Inr (r, workDir), w')"
  shows "row_saved r (fst (rw_db w')) \<and> rc_State r = ''finalizing''"
  using assms
  by (auto simp: rec_Stop_def Let_def split: option.splits prod.splits sum.splits dest!: save_recording_saves)

lemma GetRecording_result:
  "rec_db (GetRecording i) w = (Inr r, w') \<Longrightarrow> r \<in> set (db_recordings (fst (rw_db w'))) \<and> rc_ID r = i"
  by (cases "rw_db w") (auto simp: rec_db_def GetRecording_def query_def give_def fail_def find_Some_iff
      elim!: then_do_Inr dest!: driver_Inr split: option.splits prod.splits sum.splits)

lemma rec_Delete_result:
  assumes "rec_Delete now i w = (Inr u, w')"
  shows "\<exists>x \<in> set (db_recordings (fst (rw_db w'))). rc_ID x = i \<and> rc_State x = ''deleted''"
proof -
  from assms obtain r w1 where g: "rec_db (GetRecording i) w = (Inr r, w1)"
    by (auto simp: rec_Delete_def split: prod.splits sum.splits)
  note found = GetRecording_result [OF g]
  show ?thesis
  proof (cases "rc_State r = ''deleted''")
    case True
    with assms g found show ?thesis by (auto simp: rec_Delete_def)
  next
    case False
    with assms g obtain r' w2 where s: "save_recording now (r\<lparr>rc_State := ''deleted'', rc_UpdatedAt := now\<rparr>) w1 = (Inr r', w2)"
      and w': "rw_db w' = rw_db (link_quietly r' w2)"
      by (auto simp: rec_Delete_def Let_def split: prod.splits sum.splits if_splits)
    from save_recording_saves [OF s] have "row_saved r' (fst (rw_db w'))" and "rc_ID r' = rc_ID r" "rc_State r' = ''deleted''"
      by (auto simp: w')
    with found show ?thesis by (auto simp: row_saved_def)
  qed
qed

text \<open>A recording that is deleted while its call is still being recorded comes back: its row says deleted, and the
  Stop at the end of the call saves it again as finalizing.\<close>

theorem stop_revives_deleted:
  assumes "rec_Delete now i w = (Inr u, w1)" and "rec_Stop now2 callID w1 = (Inr (r, workDir), w2)" and "rc_ID r = i"
  shows "(\<exists>x \<in> set (db_recordings (fst (rw_db w1))). rc_ID x = i \<and> rc_State x = ''deleted'') \<and>
    (\<exists>x \<in> set (db_recordings (fst (rw_db w2))). rc_ID x = i \<and> rc_State x = ''finalizing'')"
  using rec_Delete_result [OF assms(1)] rec_Stop_result [OF assms(2)] assms(3) by (auto simp: row_saved_def)

lemma sample_delete_stop:
  "\<exists>r w1 w2 r' workDir w3.
     new_segment (\<lambda>_. ''m'') ''i'' (3, 4) sample_meta ''manual'' ''d'' (sample_world []) = (Inr r, w1) \<and>
     rec_Delete 6 ''i'' w1 = (Inr (), w2) \<and> rec_Stop 9 ''c'' w2 = (Inr (r', workDir), w3) \<and> rc_ID r' = ''i''"
  by (simp add: new_segment_def recording_run store_run Let_def rec_Delete_def rec_Stop_def map_put_def map_del_def
      work_dir_def path_join_def cellular_part_def client_part_def remove_file_def remove_work_def has_prefix_def)

theorem stop_revives_deleted_witness:
  "\<exists>w1 w2 w3 r' workDir. rec_Delete 6 ''i'' w1 = (Inr (), w2) \<and> rec_Stop 9 ''c'' w2 = (Inr (r', workDir), w3) \<and>
     (\<exists>x \<in> set (db_recordings (fst (rw_db w3))). rc_ID x = ''i'' \<and> rc_State x = ''finalizing'')"
proof -
  from sample_delete_stop obtain w1 w2 r' workDir w3 where d: "rec_Delete 6 ''i'' w1 = (Inr (), w2)"
    and s: "rec_Stop 9 ''c'' w2 = (Inr (r', workDir), w3)" and i: "rc_ID r' = ''i''" by blast
  from stop_revives_deleted [OF d s i] d s show ?thesis by blast
qed

section \<open>Finished recordings\<close>

lemma rec_fail_event:
  "\<exists>x. mg_events (rw_manager (rec_fail now r code detail w)) = mg_events (rw_manager w) @ [(''recording.failed'', x)]"
  by (auto simp: rec_fail_def Let_def link_quietly_keeps split: prod.splits sum.splits dest!: save_recording_frame)

lemma os_call_frame: "os_call f w = (b, w') \<Longrightarrow> rw_manager w' = rw_manager w \<and> rw_db w' = rw_db w"
  by (auto simp: os_call_def Let_def split: if_splits)

definition paths_apart :: "Recording \<Rightarrow> string \<Rightarrow> bool" where
  "paths_apart r workDir \<longleftrightarrow>
     list_all (\<lambda>suffix. rc_FilePath r @ suffix \<notin>
         {cellular_part workDir, client_part workDir, path_join workDir ''meta.json''})
       [[], ''.part.m4a'', ''.waveform.json'', ''.waveform.json.part'']"

lemma writeWaveform_manager:
  "writeWaveform tools path a b w = (ok, w') \<Longrightarrow> rw_manager w' = rw_manager w"
  unfolding writeWaveform_def
  by (auto split: prod.splits bool.splits option.splits dest!: os_call_frame)

lemma file_at_quiet_remove [simp]: "p \<noteq> q \<Longrightarrow> file_at p (quietly (remove_file q) w) = file_at p w"
  by (auto simp: quietly_def os_call_def Let_def file_at_def remove_file_def)

lemma finalize_cases:
  assumes "paths_apart r workDir"
  obtains (failed) x where "mg_events (rw_manager (finalize tools now (r, workDir) w)) =
      mg_events (rw_manager w) @ [(''recording.failed'', x)]"
  | (ready) content w7 where "finalize tools now (r, workDir) w =
      finish_ready tools now r workDir (rc_FilePath r @ ''.waveform.json'') content w7"
    and "tl_encode tools (file_at (cellular_part workDir) w) (file_at (client_part workDir) w) = Some content"
    and "file_at (rc_FilePath r) w7 = Some content" and "rw_manager w7 = rw_manager w"
proof -
  let ?c = "cellular_part workDir" and ?k = "client_part workDir"
  let ?t = "rc_FilePath r @ ''.part.m4a''" and ?v = "rc_FilePath r @ ''.waveform.json''"
  note fin = finalize_def Let_def
  obtain b1 w1 where w1: "os_call (\<lambda>d. d) w = (b1, w1)" by fastforce
  have m1: "rw_manager w1 = rw_manager w" using os_call_frame [OF w1] by simp
  have f1: "file_at p w1 = file_at p w" for p using w1 by (auto simp: os_call_def Let_def file_at_def split: if_splits)
  define w2 where "w2 = quietly (remove_file ?t) w1"
  have f2: "file_at ?c w2 = file_at ?c w" "file_at ?k w2 = file_at ?k w"
    using assms by (auto simp: paths_apart_def w2_def f1 dest: not_sym)
  have m2: "rw_manager w2 = rw_manager w" by (simp add: w2_def m1)
  have fail: thesis if "finalize tools now (r, workDir) w = rec_fail now r code detail w'" "rw_manager w' = rw_manager w"
    for code detail w'
    using rec_fail_event [of now r code detail w'] that by (auto intro: failed)
  show thesis
  proof (cases b1)
    case False
    with w1 show thesis by (intro fail [OF _ m1]) (simp add: fin)
  next
    case b1: True
    show thesis
    proof (cases "tl_encode tools (file_at ?c w2) (file_at ?k w2)")
      case None
      with w1 b1 show thesis by (intro fail [of _ _ "quietly (remove_file ?t) w2"]) (simp_all add: fin w2_def [symmetric] m2)
    next
      case (Some content)
      obtain b3 w3 where w3: "os_call (write_file ?t content) w2 = (b3, w3)" by fastforce
      have m3: "rw_manager w3 = rw_manager w" using os_call_frame [OF w3] m2 by simp
      obtain b4 w4 where w4: "writeWaveform tools ?v ?c ?k w3 = (b4, w4)" by fastforce
      have m4: "rw_manager w4 = rw_manager w" using writeWaveform_manager [OF w4] m3 by simp
      obtain b5 w5 where w5: "os_call (\<lambda>d. remove_file ?t (write_file (rc_FilePath r) content d)) w4 = (b5, w5)" by fastforce
      have m5: "rw_manager w5 = rw_manager w" using os_call_frame [OF w5] m4 by simp
      obtain b6 w6 where w6: "os_call (\<lambda>d. d) w5 = (b6, w6)" by fastforce
      have m6: "rw_manager w6 = rw_manager w" using os_call_frame [OF w6] m5 by simp
      obtain b7 w7 where w7: "os_call (\<lambda>d. d) w6 = (b7, w7)" by fastforce
      have m7: "rw_manager w7 = rw_manager w" using os_call_frame [OF w7] m6 by simp
      note run = fin w2_def [symmetric] w1 b1 Some w3 w4 w5 w6 w7
      show thesis
      proof (cases b3)
        case False
        then show thesis by (intro fail [of _ _ "quietly (remove_file ?t) w3"]) (simp_all add: run m3)
      next
        case b3: True
        show thesis
        proof (cases b4)
          case False
          with b3 show thesis by (intro fail [of _ _ "quietly (remove_file ?t) w4"]) (simp_all add: run m4)
        next
          case b4: True
          show thesis
          proof (cases b5)
            case False
            with b3 b4 show thesis by (intro fail [of _ _ "quietly (remove_file ?v) w5"]) (simp_all add: run m5)
          next
            case b5: True
            show thesis
            proof (cases "b6 \<and> b7")
              case False
              with b3 b4 b5 show thesis
                by (cases b6) (auto intro: fail [OF _ m7] fail [OF _ m6] simp: run)
            next
              case True
              have "file_at (rc_FilePath r) w5 = Some content"
                using os_call_True [OF w5 [unfolded eqTrueI [OF b5]]]
                by (simp add: file_at_def write_file_def remove_file_def)
              moreover have "file_at p w7 = file_at p w5" for p
                using w6 w7 by (auto simp: os_call_def Let_def file_at_def split: if_splits)
              ultimately show thesis
                using True b3 b4 b5 Some f2 m7 by (intro ready [of content w7]) (simp_all add: run)
            qed
          qed
        qed
      qed
    qed
  qed
qed

lemma finish_ready_result:
  assumes "mg_events (rw_manager (finish_ready tools now r workDir v content w)) =
      mg_events (rw_manager w) @ [(''recording.ready'', r')]"
    and "rc_FilePath r \<notin> {cellular_part workDir, client_part workDir, path_join workDir ''meta.json''}"
  shows "file_at (rc_FilePath r) (finish_ready tools now r workDir v content w) = file_at (rc_FilePath r) w \<and>
    rc_FilePath r' = rc_FilePath r \<and> rc_SizeBytes r' = Some (int (length content)) \<and> rc_SHA256 r' = tl_sha tools content \<and>
    rc_State r' = ''ready'' \<and> rc_ID r' = rc_ID r \<and> row_saved r' (fst (rw_db (finish_ready tools now r workDir v content w)))"
proof -
  let ?r0 = "r\<lparr>rc_State := ''ready'', rc_WaveformPath := v, rc_SizeBytes := Some (int (length content)),
      rc_SHA256 := tl_sha tools content, rc_UpdatedAt := now\<rparr>"
  obtain x w1 where s: "save_recording now ?r0 w = (x, w1)" by fastforce
  note fr = save_recording_frame [OF s]
  show ?thesis
  proof (cases x)
    case (Inl e)
    obtain y where "mg_events (rw_manager (finish_ready tools now r workDir v content w)) =
        mg_events (rw_manager w) @ [(''recording.failed'', y)]"
      using rec_fail_event [of now ?r0 "''database_error''" "tl_detail tools ''database_error''" w1] fr Inl s
      by (auto simp: finish_ready_def Let_def)
    with assms(1) show ?thesis by simp
  next
    case (Inr r1)
    have quiet: "file_at p (quietly (remove_work d i) w') = file_at p w'" for p d i w'
      by (simp add: quietly_def os_call_def Let_def file_at_def remove_work_def)
    have file_at_publish: "file_at p (publish_rec k y w') = file_at p w'" for p k y w'
      by (simp add: file_at_def)
    have link: "file_at p (link_quietly y w1) = file_at p w" for p y
      using fr by (simp add: file_at_def link_quietly_keeps)
    from save_recording_saves [OF s [unfolded Inr]] Inr s fr assms show ?thesis
      by (auto simp: finish_ready_def Let_def link_quietly_keeps quiet link file_at_publish)
  qed
qed

text \<open>C17: a recording is announced as ready only when its file is in place: the file at its path is what the encoder
  made of the two tracks, the announced size and digest are those of that file, and the row in the store says so.\<close>

theorem ready_recording_has_file:
  assumes "mg_events (rw_manager (finalize tools now (r, workDir) w)) = mg_events (rw_manager w) @ [(''recording.ready'', r')]"
    and "paths_apart r workDir"
  shows "\<exists>content. tl_encode tools (file_at (cellular_part workDir) w) (file_at (client_part workDir) w) = Some content \<and>
    file_at (rc_FilePath r') (finalize tools now (r, workDir) w) = Some content \<and> rc_FilePath r' = rc_FilePath r \<and>
    rc_SizeBytes r' = Some (int (length content)) \<and> rc_SHA256 r' = tl_sha tools content \<and> rc_State r' = ''ready'' \<and> rc_ID r' = rc_ID r \<and>
    row_saved r' (fst (rw_db (finalize tools now (r, workDir) w)))"
  using assms(2)
proof (cases rule: finalize_cases [where tools = tools and now = now and w = w])
  case (failed x)
  with assms(1) show ?thesis by simp
next
  case (ready content w7)
  have "mg_events (rw_manager (finish_ready tools now r workDir (rc_FilePath r @ ''.waveform.json'') content w7)) =
      mg_events (rw_manager w7) @ [(''recording.ready'', r')]"
    using assms(1) ready by simp
  from finish_ready_result [OF this] assms(2) ready show ?thesis by (auto simp: paths_apart_def)
qed

text \<open>A deleted recording whose work directory could not be removed, which is every recording that failed to encode,
  comes back after a restart: Recover hands it to the encoder again, and a run that succeeds makes its row ready.\<close>

theorem recover_resurrects_deleted:
  assumes "dk_work (rw_disk w) = [(i, modified)]" and "rec_Recover detail now w = ((None, [(r, workDir)]), w1)"
    and "rc_State r = ''deleted''"
    and "mg_events (rw_manager (finalize tools now2 (r, workDir) w1)) = mg_events (rw_manager w1) @ [(''recording.ready'', r')]"
    and "paths_apart r workDir"
  shows "(\<exists>x \<in> set (db_recordings (fst (rw_db w1))). rc_ID x = i \<and> rc_State x = ''deleted'') \<and>
    (\<exists>x \<in> set (db_recordings (fst (rw_db (finalize tools now2 (r, workDir) w1)))).
      rc_ID x = i \<and> rc_State x = ''ready'' \<and> rc_FilePath x = rc_FilePath r)"
proof -
  obtain b w0 where w0: "os_call (\<lambda>d. d) w = (b, w0)" by fastforce
  have b: "b" using assms(2) w0 by (cases b) (simp_all add: rec_Recover_def)
  have work: "dk_work (rw_disk w0) = [(i, modified)]"
    using os_call_True [OF w0 [unfolded eqTrueI [OF b]]] assms(1) by simp
  obtain x w2 where g: "rec_db (GetRecording i) w0 = (x, w2)" by fastforce
  from assms(2) w0 b work g obtain r0 where r0: "x = Inr r0"
    by (cases x) (auto simp: rec_Recover_def split: if_splits)
  obtain y w3 where c: "rec_db (GetCall (rc_CallID r0)) w2 = (y, w3)" by fastforce
  from assms(2) w0 b work g r0 c have "rc_ID r = rc_ID r0" "rc_State r = rc_State r0" "w1 = w3"
    by (auto simp: rec_Recover_def Let_def split: sum.splits if_splits)
  moreover have "db_recordings (fst (rw_db w3)) = db_recordings (fst (rw_db w2))"
  proof -
    have q: "preserves (\<lambda>t. db_recordings t = rs) (GetCall i)" for rs i
      unfolding GetCall_def by (intro op_rules) (auto split: option.splits intro!: op_rules)
    obtain t f where "rw_db w2 = (t, f)" by fastforce
    moreover obtain z t' f' where "GetCall (rc_CallID r0) (t, f) = (z, t', f')" by (metis surj_pair)
    ultimately show ?thesis using preservesD [OF q [of "db_recordings t"]] c by (auto simp: rec_db_def)
  qed
  ultimately have "(\<exists>x \<in> set (db_recordings (fst (rw_db w1))). rc_ID x = i \<and> rc_State x = ''deleted'')" and "rc_ID r = i"
    using GetRecording_result [OF g [unfolded r0]] assms(3) by auto
  with ready_recording_has_file [OF assms(4,5)] show ?thesis by (auto simp: row_saved_def)
qed

definition sample_tools :: Tools where
  "sample_tools = \<lparr>tl_encode = (\<lambda>a b. Some [1, 2, 3]), tl_sha = (\<lambda>_. ''h''), tl_peaks = (\<lambda>_. []), tl_detail = (\<lambda>_. [])\<rparr>"

text \<open>The world after a failed encoding and a deletion: the row is deleted, the tracks are still there.\<close>

definition deleted_row :: Recording where
  "deleted_row = (starting_recording ''i'' 3 1 0 sample_meta ''manual'' ''d'' ''/r/m/i.m4a'')\<lparr>rc_State := ''deleted''\<rparr>"

definition leftover_world :: RecWorld where
  "leftover_world = (sample_world [])\<lparr>rw_db := (empty_tables\<lparr>db_calls := [\<lparr>cw_Call = sample_call (Some 9), cw_DeletedAt = None\<rparr>],
       db_recordings := [deleted_row]\<rparr>, []),
     rw_disk := \<lparr>dk_files = [(''/r/work/i/cellular.pcm.part'', [1, 0]), (''/r/work/i/client.pcm.part'', [])],
       dk_work = [(''i'', 3)], dk_free = 1, dk_faults = []\<rparr>\<rparr>"

definition recovered_row :: Recording where
  "recovered_row = deleted_row\<lparr>rc_DurationMs := Some 0, rc_StoppedAt := Some 9\<rparr>"

lemma leftover_recovered:
  "rec_Recover (\<lambda>_. []) 20 leftover_world = ((None, [(recovered_row, ''/r/work/i'')]), leftover_world)"
  by (simp add: rec_Recover_def recovered_row_def leftover_world_def deleted_row_def recording_run store_run Let_def
      work_dir_def path_join_def cellular_part_def client_part_def file_at_def size_or_zero_def durationMillis_def
      RecSampleRate_def)

lemma leftover_finalized:
  "\<exists>r'. mg_events (rw_manager (finalize sample_tools 21 (recovered_row, ''/r/work/i'') leftover_world)) =
       mg_events (rw_manager leftover_world) @ [(''recording.ready'', r')]"
  by (simp add: finalize_def finish_ready_def recovered_row_def leftover_world_def deleted_row_def sample_tools_def
      writeWaveform_def os_call_def write_file_def remove_file_def quietly_def file_at_def Let_def
      sample_world_def path_join_def cellular_part_def client_part_def link_quietly_keeps save_recording_def rec_db_def
      SaveRecording_def transaction_def then_do_def driver_def appendSyncLog_def log_change_def upsert_recording_def
      give_def update_rows_def starting_recording_def recording_in_flight_def clashes_def empty_tables_def)

lemma recovered_apart: "paths_apart recovered_row ''/r/work/i''"
  by (simp add: paths_apart_def recovered_row_def deleted_row_def starting_recording_def cellular_part_def
      client_part_def path_join_def)

theorem recover_resurrects_deleted_witness:
  "\<exists>r w1. rec_Recover (\<lambda>_. []) 20 leftover_world = ((None, [(r, ''/r/work/i'')]), w1) \<and>
     (\<exists>x \<in> set (db_recordings (fst (rw_db (finalize sample_tools 21 (r, ''/r/work/i'') w1)))).
        rc_ID x = ''i'' \<and> rc_State x = ''ready'')"
proof -
  from leftover_finalized obtain r' where
    ev: "mg_events (rw_manager (finalize sample_tools 21 (recovered_row, ''/r/work/i'') leftover_world)) =
       mg_events (rw_manager leftover_world) @ [(''recording.ready'', r')]" by blast
  have work: "dk_work (rw_disk leftover_world) = [(''i'', 3)]" by (simp add: leftover_world_def)
  have "rc_State recovered_row = ''deleted''" by (simp add: recovered_row_def deleted_row_def)
  from recover_resurrects_deleted [OF work leftover_recovered this ev recovered_apart] leftover_recovered
  show ?thesis by blast
qed

theorem ready_recording_has_file_witness:
  "file_at ''/r/m/i.m4a'' (finalize sample_tools 21 (recovered_row, ''/r/work/i'') leftover_world) = Some [1, 2, 3]"
proof -
  from leftover_finalized obtain r' where
    ev: "mg_events (rw_manager (finalize sample_tools 21 (recovered_row, ''/r/work/i'') leftover_world)) =
       mg_events (rw_manager leftover_world) @ [(''recording.ready'', r')]" by blast
  have "rc_FilePath recovered_row = ''/r/m/i.m4a''"
    by (simp add: recovered_row_def deleted_row_def starting_recording_def)
  with ready_recording_has_file [OF ev recovered_apart] show ?thesis
    by (metis (no_types, lifting) Tools.select_convs(1) option.inject sample_tools_def)
qed

section \<open>Retention\<close>

lemma upsert_keeps_others:
  assumes "upsert_recording r t = (u, t')" and "x \<in> set (db_recordings t)" and "rc_ID x \<noteq> rc_ID r"
  shows "x \<in> set (db_recordings t')"
  using assms by (auto simp: upsert_recording_def Let_def set_update_rows split: option.splits if_splits)

lemma save_keeps_others:
  assumes "rc_ID x \<noteq> rc_ID r"
  shows "preserves (\<lambda>t. x \<in> set (db_recordings t)) (SaveRecording now r)"
  unfolding SaveRecording_def Let_def
  by (intro op_rules) (erule upsert_keeps_others; simp add: assms)

lemma rec_db_keeps:
  assumes "rec_db op w = (r, w')" and "preserves I op" and "I (fst (rw_db w))"
  shows "I (fst (rw_db w'))"
proof -
  obtain t f where db: "rw_db w = (t, f)" by fastforce
  moreover obtain y t' f' where run: "op (t, f) = (y, t', f')" by (metis surj_pair)
  ultimately show ?thesis using preservesD [OF assms(2) run] assms(1,3) by (auto simp: rec_db_def)
qed

lemma GetRecording_keeps: "preserves I (GetRecording i)"
  unfolding GetRecording_def by (intro op_rules) (auto split: option.splits intro!: op_rules)

lemma rec_Delete_keeps:
  assumes "rec_Delete now i w = (u, w')" and "x \<in> set (db_recordings (fst (rw_db w)))" and "rc_ID x \<noteq> i"
  shows "x \<in> set (db_recordings (fst (rw_db w')))"
proof -
  obtain g w1 where g: "rec_db (GetRecording i) w = (g, w1)" by fastforce
  have x1: "x \<in> set (db_recordings (fst (rw_db w1)))"
    using rec_db_keeps [OF g GetRecording_keeps, of "\<lambda>t. x \<in> set (db_recordings t)"] assms(2) by simp
  show ?thesis
  proof (cases "\<exists>r. g = Inr r \<and> rc_State r \<noteq> ''deleted''")
    case False
    with assms(1) g x1 show ?thesis by (auto simp: rec_Delete_def split: sum.splits if_splits)
  next
    case True
    then obtain r where r: "g = Inr r" "rc_State r \<noteq> ''deleted''" by blast
    let ?r = "r\<lparr>rc_State := ''deleted'', rc_UpdatedAt := now\<rparr>"
    obtain s w2 where s: "save_recording now ?r w1 = (s, w2)" by fastforce
    have "rc_ID x \<noteq> rc_ID ?r" using GetRecording_result [OF g [unfolded r(1)]] assms(3) by simp
    then have x2: "x \<in> set (db_recordings (fst (rw_db w2)))"
      using s x1 rec_db_keeps [OF _ save_keeps_others, of now ?r w1 _ _ x]
      by (auto simp: save_recording_def split: prod.splits sum.splits)
    from assms(1) g r s have "db_recordings (fst (rw_db w')) = db_recordings (fst (rw_db w2))"
      by (auto simp: rec_Delete_def Let_def link_quietly_keeps split: sum.splits)
    with x2 show ?thesis by simp
  qed
qed

lemma delete_expired_rows_keeps:
  assumes "x \<in> set (db_recordings (fst (rw_db w)))"
    and "\<forall>r \<in> set rs. \<forall>t. rc_RetentionExpiresAt r = Some t \<longrightarrow> t < now \<longrightarrow> rc_ID r \<noteq> rc_ID x"
  shows "x \<in> set (db_recordings (fst (rw_db (delete_expired_rows now rs w))))"
  using assms
proof (induction rs arbitrary: w)
  case (Cons r rs)
  let ?w = "case rc_RetentionExpiresAt r of Some t \<Rightarrow> if t < now then snd (rec_Delete now (rc_ID r) w) else w | None \<Rightarrow> w"
  have "x \<in> set (db_recordings (fst (rw_db ?w)))"
  proof (cases "\<exists>t. rc_RetentionExpiresAt r = Some t \<and> t < now")
    case True
    then have "rc_ID x \<noteq> rc_ID r" using Cons.prems(2) by auto
    with True rec_Delete_keeps [of now "rc_ID r" w _ _ x] Cons.prems(1) show ?thesis
      by (cases "rec_Delete now (rc_ID r) w") auto
  qed (use Cons.prems(1) in \<open>auto split: option.splits\<close>)
  from Cons.IH [OF this] Cons.prems(2) show ?case by simp
qed simp

text \<open>The daily retention job leaves every recording alone, in every field, whose time has not come or that has no
  expiry, whatever it deletes and whatever fails on the way.\<close>

theorem retention_deletes_only_expired:
  assumes "recordings_ok (fst (rw_db w))" and "x \<in> set (db_recordings (fst (rw_db w)))"
    and "case rc_RetentionExpiresAt x of None \<Rightarrow> True | Some t \<Rightarrow> now \<le> t"
  shows "x \<in> set (db_recordings (fst (rw_db (deleteExpired now w))))"
proof -
  obtain l w1 where l: "rec_db (ListRecordings 0 500 [] [] None None) w = (l, w1)" by fastforce
  have q: "preserves I (ListRecordings 0 500 [] [] None None)" for I
    by (simp add: ListRecordings_def preserves_query)
  have x1: "x \<in> set (db_recordings (fst (rw_db w1)))"
    using rec_db_keeps [OF l q, of "\<lambda>t. x \<in> set (db_recordings t)"] assms(2) by simp
  show ?thesis
  proof (cases l)
    case (Inl e)
    with l x1 show ?thesis by (simp add: deleteExpired_def)
  next
    case (Inr rs)
    have rows: "r \<in> set (db_recordings (fst (rw_db w)))" if "r \<in> set rs" for r
      using that l Inr by (cases "rw_db w") (auto simp: rec_db_def ListRecordings_def split: prod.splits
          dest!: query_result set_take_subset [THEN subsetD])
    have "r = x" if "r \<in> set rs" "rc_ID r = rc_ID x" for r
      using assms(1,2) rows [OF that(1)] that(2) by (auto simp: recordings_ok_def distinct_map inj_on_def)
    then have "\<forall>r \<in> set rs. \<forall>t. rc_RetentionExpiresAt r = Some t \<longrightarrow> t < now \<longrightarrow> rc_ID r \<noteq> rc_ID x"
      using assms(3) by fastforce
    from delete_expired_rows_keeps [OF x1 this] Inr l show ?thesis by (simp add: deleteExpired_def)
  qed
qed

text \<open>Two recordings of an ended call, one of them past its time.\<close>

definition aged_world :: RecWorld where
  "aged_world = leftover_world\<lparr>rw_db := (empty_tables\<lparr>db_calls := [\<lparr>cw_Call = sample_call (Some 9), cw_DeletedAt = None\<rparr>],
     db_recordings := [deleted_row\<lparr>rc_ID := ''j'', rc_State := ''ready'', rc_RetentionExpiresAt := Some 5\<rparr>,
                       deleted_row\<lparr>rc_State := ''ready'', rc_RetentionExpiresAt := Some 30\<rparr>]\<rparr>, [])\<rparr>"

theorem retention_deletes_only_expired_witness:
  "deleted_row\<lparr>rc_State := ''ready'', rc_RetentionExpiresAt := Some 30\<rparr> \<in>
     set (db_recordings (fst (rw_db (deleteExpired 20 aged_world))))"
proof (rule retention_deletes_only_expired)
  show "recordings_ok (fst (rw_db aged_world))"
    by (simp add: recordings_ok_def aged_world_def deleted_row_def starting_recording_def call_ids_def clashes_def
        recording_in_flight_def sample_call_def sample_meta_def empty_tables_def)
qed (simp_all add: aged_world_def)

end
