(* ===== verification/Api_Base.thy ===== *)
theory Api_Base
  imports Auth_Service Recording_Manager Sms_Engine Call_State
begin

text \<open>
  What the handlers of \<^verbatim>\<open>gateway/internal/api/server.go\<close> share: requests and answers, the gateway's state as the
  handlers see it, authorization, the claim of a request key and the replay of its answer, and the JSON shapes. A
  handler is a function on the state; a check with an early return takes the rest of the handler as an argument. The
  request body is what Go's JSON decoder made of it, \<^term>\<open>None\<close> for its error. Error texts are a parameter.
\<close>

section \<open>Requests and answers\<close>

record Request =
  rq_Method :: string
  rq_Path :: string
  rq_Query :: "(string \<times> string) list"
  rq_Authorization :: string
  rq_IdempotencyKey :: string
  rq_RemoteAddr :: string
  rq_Origin :: string
  rq_Host :: string

record Response =
  rp_Status :: nat
  rp_Body :: string
  rp_HasMore :: "bool option"

definition query_value :: "Request \<Rightarrow> string \<Rightarrow> string" where
  "query_value r name = (case map_of (rq_Query r) name of None \<Rightarrow> [] | Some v \<Rightarrow> v)"

text \<open>\<^verbatim>\<open>json.Encoder\<close> ends the text with a line break, \<^verbatim>\<open>writeRawJSON\<close> writes stored bytes as they are.\<close>

definition writeJSON :: "nat \<Rightarrow> json \<Rightarrow> Response" where
  "writeJSON status v = \<lparr>rp_Status = status, rp_Body = json_marshal v @ [newline], rp_HasMore = None\<rparr>"

definition writeRawJSON :: "nat \<Rightarrow> string \<Rightarrow> Response" where
  "writeRawJSON status body = \<lparr>rp_Status = status, rp_Body = body, rp_HasMore = None\<rparr>"

definition error_json :: "string \<Rightarrow> string \<Rightarrow> json" where
  "error_json code message = JObject [(''code'', JString code), (''message'', JString message)]"

definition writeError :: "nat \<Rightarrow> string \<Rightarrow> string \<Rightarrow> Response" where
  "writeError status code message = writeJSON status (error_json code message)"

abbreviation no_content :: Response where
  "no_content \<equiv> writeRawJSON 204 []"

section \<open>The gateway\<close>

datatype api_error = FromDb db_error | FromCall call_error | FromModem modem_error | FromSms engine_error
  | FromRec rec_error | FromAuth "db_error auth_error"

text \<open>The fixed part of \<^verbatim>\<open>Server\<close>: names, which services there are, the digest and the texts of errors.\<close>

record Server =
  sv_GatewayID :: string
  sv_Name :: string
  sv_Version :: string
  sv_Fingerprint :: string
  sv_NetworkMode :: string
  sv_NetworkTransport :: string
  sv_TailnetHostname :: string
  sv_Auth :: bool
  sv_Database :: bool
  sv_Events :: bool
  sv_Voice :: bool
  sv_SMS :: bool
  sv_Recordings :: bool
  sv_sha :: "string \<Rightarrow> byte list"
  sv_text :: "api_error \<Rightarrow> string"

text \<open>The changing part. \<open>sv_Voice\<close> says that call controller and modem are both there; \<open>'m\<close> is the modem's own state.
  \<open>wo_events\<close> collects what was handed to the event bus, \<open>wo_media\<close> the calls
  with a media session and whether it is bound to relays, \<open>wo_tasks\<close> the recordings whose encoding was started.\<close>

record 'm World =
  wo_rec :: RecWorld
  wo_auth :: AuthService
  wo_calls :: Controller
  wo_line :: LineStatus
  wo_events :: "(nat \<times> string \<times> json) list"
  wo_media :: "(string \<times> bool) list"
  wo_tasks :: "finalize_task list"
  wo_lastSMSSend :: "(string \<times> timestamp) list"
  wo_assembler :: MultipartAssembler
  wo_modem :: 'm

abbreviation wo_db :: "'m World \<Rightarrow> db_state" where
  "wo_db w \<equiv> rw_db (wo_rec w)"

abbreviation wo_tables :: "'m World \<Rightarrow> Tables" where
  "wo_tables w \<equiv> fst (wo_db w)"

definition set_db :: "db_state \<Rightarrow> 'm World \<Rightarrow> 'm World" where
  "set_db d w = w\<lparr>wo_rec := (wo_rec w)\<lparr>rw_db := d\<rparr>\<rparr>"

definition store :: "(db_state \<Rightarrow> 'r \<times> db_state) \<Rightarrow> 'm World \<Rightarrow> 'r \<times> 'm World" where
  "store op w = (case op (wo_db w) of (r, d) \<Rightarrow> (r, set_db d w))"

definition recorder :: "(RecWorld \<Rightarrow> 'r \<times> RecWorld) \<Rightarrow> 'm World \<Rightarrow> 'r \<times> 'm World" where
  "recorder op w = (case op (wo_rec w) of (r, x) \<Rightarrow> (r, w\<lparr>wo_rec := x\<rparr>))"

definition controller :: "(Controller \<Rightarrow> 'r \<times> Controller) \<Rightarrow> 'm World \<Rightarrow> 'r \<times> 'm World" where
  "controller op w = (case op (wo_calls w) of (r, c) \<Rightarrow> (r, w\<lparr>wo_calls := c\<rparr>))"

definition modem :: "('m \<Rightarrow> 'r \<times> 'm) \<Rightarrow> 'm World \<Rightarrow> 'r \<times> 'm World" where
  "modem op w = (case op (wo_modem w) of (r, x) \<Rightarrow> (r, w\<lparr>wo_modem := x\<rparr>))"

type_synonym 'm handler = "'m World \<Rightarrow> Response \<times> 'm World"

definition answer_with :: "Response \<Rightarrow> 'm handler" where
  "answer_with resp w = (resp, w)"

definition publish_event :: "Server \<Rightarrow> nat \<Rightarrow> string \<Rightarrow> json \<Rightarrow> 'm World \<Rightarrow> 'm World" where
  "publish_event sv seq kind v w = (if sv_Events sv then w\<lparr>wo_events := wo_events w @ [(seq, kind, v)]\<rparr> else w)"

definition audit :: "Server \<Rightarrow> string \<Rightarrow> string \<Rightarrow> string \<Rightarrow> string \<Rightarrow> 'm World \<Rightarrow> 'm World" where
  "audit sv deviceID action target outcome w =
     (if sv_Database sv then snd (store (AppendAudit deviceID action target outcome) w) else w)"

section \<open>Authorization and request keys\<close>

definition authorize :: "Server \<Rightarrow> timestamp \<Rightarrow> Request \<Rightarrow> 'm World \<Rightarrow> (Response, string) result \<times> 'm World" where
  "authorize sv now r w =
     (if \<not> sv_Auth sv then (Inr [], w)
      else
        let header = trim_space (rq_Authorization r)
        in if \<not> has_prefix header ''Bearer ''
           then (Inl (writeError 401 ''CB-AUTH-001'' ''missing bearer token''), w)
           else (case store (Authorize (db_token_store now) (sv_sha sv) (\<lambda>_. False) now
                         (trim_space (trim_prefix header ''Bearer ''))) w of
                   (Inl _, w1) \<Rightarrow> (Inl (writeError 401 ''CB-AUTH-001'' ''invalid token''), w1)
                 | (Inr deviceID, w1) \<Rightarrow> (Inr deviceID, w1)))"

definition authorized :: "Server \<Rightarrow> timestamp \<Rightarrow> Request \<Rightarrow> (string \<Rightarrow> 'm handler) \<Rightarrow> 'm handler" where
  "authorized sv now r k w =
     (case authorize sv now r w of (Inl resp, w1) \<Rightarrow> (resp, w1) | (Inr deviceID, w1) \<Rightarrow> k deviceID w1)"

definition idempotencyKey :: "Request \<Rightarrow> (Response, string) result" where
  "idempotencyKey r =
     (let key = trim_space (rq_IdempotencyKey r)
      in if key = [] \<or> 200 < length key
         then Inl (writeError 400 ''CB-API-002'' ''Idempotency-Key is required'') else Inr key)"

definition keyed :: "Request \<Rightarrow> (string \<Rightarrow> 'm handler) \<Rightarrow> 'm handler" where
  "keyed r k = (case idempotencyKey r of Inl resp \<Rightarrow> answer_with resp | Inr requestID \<Rightarrow> k requestID)"

definition claimIdempotency ::
  "Server \<Rightarrow> string \<Rightarrow> string \<Rightarrow> string \<Rightarrow> 'm World \<Rightarrow> (db_error, bool \<times> IdempotencyRecord) result \<times> 'm World" where
  "claimIdempotency sv deviceID operation requestKey w =
     (if \<not> sv_Database sv then (Inr (True, \<lparr>ir_StatusCode = 0, ir_Body = [], ir_Pending = False\<rparr>), w)
      else store (ClaimIdempotency deviceID operation requestKey) w)"

definition replayIdempotency :: "IdempotencyRecord \<Rightarrow> Response" where
  "replayIdempotency rec =
     (if ir_Pending rec
      then writeError 409 ''CB-API-003'' ''request with this Idempotency-Key is still in progress''
      else writeRawJSON (ir_StatusCode rec) (ir_Body rec))"

text \<open>The claim with its two early returns: a failure of the store, and an answer given before.\<close>

definition claimed_with ::
  "(db_error \<Rightarrow> 'm handler) \<Rightarrow> Server \<Rightarrow> string \<Rightarrow> string \<Rightarrow> string \<Rightarrow> 'm handler \<Rightarrow> 'm handler" where
  "claimed_with on_error sv deviceID operation requestID k w =
     (case claimIdempotency sv deviceID operation requestID w of
        (Inl e, w1) \<Rightarrow> on_error e w1
      | (Inr (fresh, existing), w1) \<Rightarrow> if fresh then k w1 else (replayIdempotency existing, w1))"

definition claimed :: "Server \<Rightarrow> string \<Rightarrow> string \<Rightarrow> string \<Rightarrow> string \<Rightarrow> 'm handler \<Rightarrow> 'm handler" where
  "claimed sv code = claimed_with (\<lambda>e. answer_with (writeError 500 code (sv_text sv (FromDb e)))) sv"

text \<open>\<^verbatim>\<open>CompleteIdempotency\<close>, its error ignored or answered.\<close>

definition complete_quietly :: "Server \<Rightarrow> string \<Rightarrow> string \<Rightarrow> string \<Rightarrow> nat \<Rightarrow> string \<Rightarrow> 'm World \<Rightarrow> 'm World" where
  "complete_quietly sv deviceID operation requestID status body w =
     (if sv_Database sv then snd (store (CompleteIdempotency deviceID operation requestID status body) w) else w)"

definition completed ::
  "Server \<Rightarrow> string \<Rightarrow> string \<Rightarrow> string \<Rightarrow> string \<Rightarrow> nat \<Rightarrow> string \<Rightarrow> ('m World \<Rightarrow> 'm World) \<Rightarrow> 'm handler" where
  "completed sv code deviceID operation requestID status body after_that w =
     (if \<not> sv_Database sv then (writeRawJSON status body, after_that w)
      else (case store (CompleteIdempotency deviceID operation requestID status body) w of
              (Inl e, w1) \<Rightarrow> (writeError 500 code (sv_text sv (FromDb e)), w1)
            | (Inr _, w1) \<Rightarrow> (writeRawJSON status body, after_that w1)))"

definition writeIdempotentError ::
  "Server \<Rightarrow> string \<Rightarrow> string \<Rightarrow> string \<Rightarrow> nat \<Rightarrow> string \<Rightarrow> string \<Rightarrow> 'm handler" where
  "writeIdempotentError sv deviceID operation requestID status code message w =
     (let body = json_marshal (error_json code message)
      in (writeRawJSON status body, complete_quietly sv deviceID operation requestID status body w))"

fun callErrorStatus :: "api_error \<Rightarrow> nat \<times> string" where
  "callErrorStatus (FromCall ErrLineBusy) = (409, ''CB-CALL-009'')"
| "callErrorStatus (FromCall ErrCallNotFound) = (404, ''CB-CALL-006'')"
| "callErrorStatus (FromCall ErrInvalidDTMF) = (409, ''CB-CALL-010'')"
| "callErrorStatus (FromCall ErrInvalidState) = (409, ''CB-CALL-010'')"
| "callErrorStatus (FromCall ErrDuplicateEvent) = (409, ''CB-CALL-010'')"
| "callErrorStatus _ = (502, ''CB-CALL-003'')"

definition writeIdempotentCallError ::
  "Server \<Rightarrow> string \<Rightarrow> string \<Rightarrow> string \<Rightarrow> api_error \<Rightarrow> 'm handler" where
  "writeIdempotentCallError sv deviceID operation requestID e =
     (case callErrorStatus e of (status, code) \<Rightarrow>
        writeIdempotentError sv deviceID operation requestID status code (sv_text sv e))"

section \<open>Parameters of a request\<close>

definition pagination :: "Request \<Rightarrow> (string, int \<times> int) result" where
  "pagination r =
     (let a = query_value r ''after''; l = query_value r ''limit'';
          after = (if a = [] then Some 0 else case atoi a of Some v \<Rightarrow> if v < 0 then None else Some v | None \<Rightarrow> None);
          limit = (if l = [] then Some 100
                   else case atoi l of Some v \<Rightarrow> if v < 1 \<or> 500 < v then None else Some v | None \<Rightarrow> None)
      in case after of
           None \<Rightarrow> Inl ''after must be a non-negative integer''
         | Some x \<Rightarrow> (case limit of None \<Rightarrow> Inl ''limit must be between 1 and 500'' | Some y \<Rightarrow> Inr (x, y)))"

definition threadMessageCursor :: "Request \<Rightarrow> (string, int option \<times> string) result" where
  "threadMessageCursor r =
     (let v = trim_space (query_value r ''before''); beforeID = trim_space (query_value r ''beforeId'')
      in if v = [] then
           (if beforeID \<noteq> [] then Inl ''before is required when beforeId is provided'' else Inr (None, []))
         else (case atoi v of
                 Some before \<Rightarrow> if before < 0 then Inl ''before must be a non-negative integer''
                                else Inr (Some before, beforeID)
               | None \<Rightarrow> Inl ''before must be a non-negative integer''))"

text \<open>\<^verbatim>\<open>strings.Split(strings.TrimSuffix(strings.TrimPrefix(path, prefix), "/"), "/")\<close>.\<close>

definition path_parts :: "string \<Rightarrow> Request \<Rightarrow> string list" where
  "path_parts prefix_path r = split_char (CHR ''/'') (trim_suffix (trim_prefix (rq_Path r) prefix_path) ''/'')"

section \<open>JSON shapes\<close>

definition routeMetadata :: "Server \<Rightarrow> string \<times> string" where
  "routeMetadata sv = (sv_GatewayID sv, sv_GatewayID sv @ '':line'')"

definition ms_json :: "timestamp \<Rightarrow> json" where
  "ms_json t = JInt (int t)"

definition messageResponseFromDB :: "Server \<Rightarrow> Message \<Rightarrow> json" where
  "messageResponseFromDB sv m = JObject
     [(''id'', JString (ms_ID m)), (''gatewayID'', JString (fst (routeMetadata sv))),
      (''lineID'', JString (snd (routeMetadata sv))), (''threadKey'', JString (ms_ThreadKey m)),
      (''direction'', JString (ms_Direction m)), (''peer'', JString (ms_Peer m)),
      (''body'', JString (utf8_text (ms_Body m))), (''encoding'', JString (ms_Encoding m)),
      (''status'', JString (ms_Status m)), (''createdAt'', ms_json (ms_CreatedAt m))]"

definition thread_json :: "Server \<Rightarrow> Thread \<Rightarrow> json" where
  "thread_json sv t = JObject
     [(''key'', JString (th_Key t)), (''peer'', JString (th_Peer t)), (''unreadCount'', JInt (int (th_UnreadCount t))),
      (''lastMessage'', messageResponseFromDB sv (th_LastMessage t))]"

fun direction_name :: "Direction \<Rightarrow> string" where
  "direction_name NoDirection = []"
| "direction_name Inbound = ''inbound''"
| "direction_name Outbound = ''outbound''"

fun state_name :: "State \<Rightarrow> string" where
  "state_name NoState = []"
| "state_name Idle = ''idle''"
| "state_name IncomingRinging = ''incoming_ringing''"
| "state_name OutgoingDialing = ''outgoing_dialing''"
| "state_name Connecting = ''connecting''"
| "state_name Active = ''active''"
| "state_name Ending = ''ending''"
| "state_name Recovering = ''recovering''"

definition call_json :: "Server \<Rightarrow> CallRecord \<Rightarrow> json" where
  "call_json sv c = JObject
     ([(''id'', JString (cl_ID c)), (''gatewayID'', JString (fst (routeMetadata sv))),
       (''lineID'', JString (snd (routeMetadata sv))), (''direction'', JString (cl_Direction c)),
       (''peer'', JString (cl_Peer c)), (''state'', JString (cl_State c)), (''startedAt'', ms_json (cl_StartedAt c)),
       (''connectedAt'', nullable_int (map_option int (cl_ConnectedAt c))),
       (''endedAt'', nullable_int (map_option int (cl_EndedAt c)))] @
      optional_string ''endReason'' (cl_EndReason c) @ optional_string ''recordingId'' (cl_RecordingID c) @
      optional_string ''recordingState'' (cl_RecordingState c) @
      optional_int ''recordingDurationMs'' (cl_RecordingDurationMs c))"

text \<open>The row of a call of the controller, and its JSON.\<close>

definition call_record :: "Call \<Rightarrow> CallRecord" where
  "call_record c = \<lparr>cl_ID = ca_ID c, cl_Direction = direction_name (ca_Direction c), cl_Peer = ca_Peer c,
     cl_State = state_name (ca_State c), cl_StartedAt = ca_StartedAt c, cl_ConnectedAt = ca_ConnectedAt c,
     cl_EndedAt = ca_EndedAt c, cl_EndReason = ca_EndReason c, cl_RecordingID = [], cl_RecordingState = [],
     cl_RecordingDurationMs = None, cl_SyncSeq = 0\<rparr>"

definition callResponseFromDomain :: "Server \<Rightarrow> Call \<Rightarrow> json" where
  "callResponseFromDomain sv c = call_json sv (call_record c)"

section \<open>A request key is used once\<close>

text \<open>\<open>claims_kept\<close>: whatever was claimed stays claimed; \<open>untouched\<close>: the same world but for driver calls.\<close>

definition claims_kept :: "'m World \<Rightarrow> 'm World \<Rightarrow> bool" where
  "claims_kept w w' \<longleftrightarrow> (\<forall>key. key_claimed key (wo_tables w) \<longrightarrow> key_claimed key (wo_tables w'))"

definition untouched :: "'m World \<Rightarrow> 'm World \<Rightarrow> bool" where
  "untouched w w' \<longleftrightarrow> (\<exists>faults. w' = set_db (wo_tables w, faults) w)"

named_theorems kept_intros \<open>steps of a handler that keep every claim\<close>

lemma claims_kept_refl [kept_intros]: "claims_kept w w"
  by (simp add: claims_kept_def)

lemma claims_kept_trans: "claims_kept w w1 \<Longrightarrow> claims_kept w1 w2 \<Longrightarrow> claims_kept w w2"
  by (simp add: claims_kept_def)

lemma claims_kept_cong: "wo_tables w1 = wo_tables w2 \<Longrightarrow> claims_kept w w1 = claims_kept w w2"
  by (simp add: claims_kept_def)

lemma set_db_db [simp]: "wo_db (set_db d w) = d"
  by (simp add: set_db_def)

lemma store_kept:
  assumes "store op w = (r, w')" and "\<And>key. preserves (key_claimed key) op"
  shows "claims_kept w w'"
proof -
  obtain t f where db: "wo_db w = (t, f)" by fastforce
  obtain x t' f' where run: "op (t, f) = (x, t', f')" by (metis surj_pair)
  have "wo_tables w' = t'" using assms(1) by (auto simp: store_def db run)
  with preservesD [OF assms(2) run] show ?thesis by (auto simp: claims_kept_def db)
qed

lemma store_untouched:
  assumes "store op w = (r, w')" and "\<And>t f x t' f'. op (t, f) = (x, t', f') \<Longrightarrow> t' = t"
  shows "untouched w w'"
proof -
  obtain t f where db: "wo_db w = (t, f)" by fastforce
  obtain x t' f' where run: "op (t, f) = (x, t', f')" by (metis surj_pair)
  have "w' = set_db (t', f') w" using assms(1) by (auto simp: store_def db run)
  with assms(2) [OF run] show ?thesis by (auto simp: untouched_def db)
qed

lemma untouched_kept: "untouched w w' \<Longrightarrow> claims_kept w w'"
  by (auto simp: untouched_def claims_kept_def)

lemmas key_claimed_preserved = key_claimed_ops

lemma frame_keeps_claims:
  "preserves (key_claimed k) (SaveCall c)" "preserves (key_claimed k) (db_DeleteCall now i)"
  "preserves (key_claimed k) (AppendAudit a b c' d)" "preserves (key_claimed k) (MarkMessageRead i)"
  "preserves (key_claimed k) (DeleteMessage i)" "preserves (key_claimed k) (InsertMessage m)"
  "preserves (key_claimed k) (UpdateMessageStatus i s)" "preserves (key_claimed k) (SaveRecording now rec)"
  "preserves (key_claimed k) (UpdateCallRecording i r st dur)" "preserves (key_claimed k) (RegisterPush a b c' d e)"
  "preserves (key_claimed k) (GetCall i)"
  unfolding SaveCall_def upsert_call_def db_DeleteCall_def AppendAudit_def message_op_defs SaveRecording_def
    upsert_recording_def UpdateCallRecording_def RegisterPush_def GetCall_def Let_def
  by (rule op_rules | force split: if_splits option.splits intro!: op_rules)+

lemma quiet_kept [kept_intros]:
  "claims_kept w (audit sv a b c d w)" "claims_kept w (complete_quietly sv a b c st body w)"
  unfolding audit_def complete_quietly_def
  by (auto intro!: kept_intros intro: store_kept [OF prod.collapse [symmetric]] key_claimed_ops frame_keeps_claims)

lemma publish_event_kept [kept_intros]: "claims_kept w (publish_event sv seq kind v w)"
  by (simp add: publish_event_def claims_kept_def)

lemma writeIdempotentError_kept: "writeIdempotentError sv a b c st code msg w = (r, w') \<Longrightarrow> claims_kept w w'"
  by (auto simp: writeIdempotentError_def Let_def intro: kept_intros)

lemma writeIdempotentCallError_kept: "writeIdempotentCallError sv a b c e w = (r, w') \<Longrightarrow> claims_kept w w'"
  by (auto simp: writeIdempotentCallError_def split: prod.splits intro: writeIdempotentError_kept)

lemma completed_kept:
  assumes "completed sv code a b c st body f w = (r, w')" and "\<And>x. claims_kept x (f x)"
  shows "claims_kept w w'"
  using assms(1) claims_kept_trans [OF store_kept [OF _ key_claimed_ops(2)] assms(2)] assms(2)
  by (auto simp: completed_def split: if_splits prod.splits sum.splits intro: store_kept key_claimed_ops)

lemma claim_outcome:
  assumes "ClaimIdempotency d p q (t, f) = (x, t', f')"
  shows "(case x of Inl e \<Rightarrow> t' = t
     | Inr (fresh, rec) \<Rightarrow>
         if fresh then \<not> key_claimed (d, p, q) t \<and> key_claimed (d, p, q) t'
         else t' = t \<and> key_claimed (d, p, q) t \<and> (\<exists>code body. map_of (db_idempotency t) (d, p, q) = Some (code, body) \<and>
            rec = \<lparr>ir_StatusCode = code, ir_Body = body, ir_Pending = (code = 102)\<rparr>))"
proof (cases x)
  case (Inl e)
  with assms show ?thesis unfolding ClaimIdempotency_def by (auto dest: transaction_Inl)
next
  case (Inr v)
  obtain fresh rec where v: "v = (fresh, rec)" by fastforce
  from transaction_Inr [OF assms [unfolded ClaimIdempotency_def Inr]] obtain f1 f2 where
    run: "then_do (driver (insert_claim (d, p, q))) (\<lambda>changed.
        if changed then give (True, \<lparr>ir_StatusCode = 102, ir_Body = [], ir_Pending = True\<rparr>)
        else then_do (query (\<lambda>t. map_of (db_idempotency t) (d, p, q))) (\<lambda>row.
          case row of None \<Rightarrow> fail NoRows
          | Some (code, body) \<Rightarrow> give (False, \<lparr>ir_StatusCode = code, ir_Body = body, ir_Pending = (code = 102)\<rparr>)))
        (t, f1) = (Inr v, t', f2)" by blast
  then show ?thesis
    by (auto simp: Inr v insert_claim_def key_claimed_def list_ex_iff give_def fail_def image_iff case_prod_unfold
        elim!: then_do_Inr dest!: driver_Inr query_result split: if_splits option.splits) (force dest: bspec)+
qed

locale claimed_operation =
  fixes sv :: Server and code deviceID operation requestID :: string and run :: "'m handler"
  assumes run_keeps: "run w = (resp, w') \<Longrightarrow> claims_kept w w'"
    and has_store: "sv_Database sv"
begin

text \<open>A request that did anything has claimed its key.\<close>

lemma effect_claims:
  assumes "claimed sv code deviceID operation requestID run w = (resp, w1)"
  shows "untouched w w1 \<or> key_claimed (deviceID, operation, requestID) (wo_tables w1)"
proof -
  obtain t f where db: "wo_db w = (t, f)" by fastforce
  obtain x t' f' where run: "ClaimIdempotency deviceID operation requestID (t, f) = (x, t', f')" by (metis surj_pair)
  have st: "store (ClaimIdempotency deviceID operation requestID) w = (x, set_db (t', f') w)"
    by (simp add: store_def db run)
  note claim = claim_outcome [OF run]
  show ?thesis
  proof (cases "\<exists>rec. x = Inr (True, rec)")
    case True
    then have "key_claimed (deviceID, operation, requestID) (wo_tables (set_db (t', f') w))" using claim by auto
    moreover have "claims_kept (set_db (t', f') w) w1"
      using assms True st has_store by (intro run_keeps [of _ resp]) (auto simp: claimed_def claimed_with_def claimIdempotency_def)
    ultimately show ?thesis by (auto simp: claims_kept_def)
  next
    case False
    then have "t' = t" using claim by (auto split: sum.splits prod.splits if_splits)
    moreover have "w1 = set_db (t', f') w"
      using assms False st has_store
      by (auto simp: claimed_def claimed_with_def claimIdempotency_def answer_with_def split: sum.splits if_splits)
    ultimately show ?thesis by (auto simp: untouched_def db)
  qed
qed

end

text \<open>A key that is claimed answers every further request without any effect, whatever the request asks for.\<close>

lemma claimed_spent:
  assumes "sv_Database sv" and "key_claimed (deviceID, operation, requestID) (wo_tables w)"
  shows "untouched w (snd (claimed sv code deviceID operation requestID run w))"
proof -
  obtain t f where db: "wo_db w = (t, f)" by fastforce
  obtain x t' f' where run: "ClaimIdempotency deviceID operation requestID (t, f) = (x, t', f')" by (metis surj_pair)
  have st: "store (ClaimIdempotency deviceID operation requestID) w = (x, set_db (t', f') w)"
    by (simp add: store_def db run)
  have "t' = t" and "\<nexists>rec. x = Inr (True, rec)"
    using claim_outcome [OF run] assms(2) by (auto simp: db split: sum.splits prod.splits if_splits)
  with st assms(1) show ?thesis
    by (auto simp: claimed_def claimed_with_def claimIdempotency_def answer_with_def untouched_def db
        split: sum.splits prod.splits)
qed

end
