(* ===== verification/Api_Messages.thy ===== *)
theory Api_Messages
  imports Api_Base
begin

text \<open>
  The handlers of \<^verbatim>\<open>gateway/internal/api/server.go\<close> that concern the gateway itself, pairing and tokens, the
  synchronisation log, messages, threads and push registrations. The order of checks, claims, effects and answers is
  that of the code; logging is left out.
\<close>

section \<open>The gateway, pairing and tokens\<close>

definition NewLine :: LineStatus where
  "NewLine = \<lparr>ls_SIM = ''unknown'', ls_Registration = ''unknown'', ls_RSSI = 0, ls_Bars = 0, ls_CapabilityTier = ''unknown'',
     ls_Voice = ''unavailable'', ls_SMS = ''unavailable'', ls_ActiveCallID = None\<rparr>"

definition SetLineStatus :: "LineStatus \<Rightarrow> 'm World \<Rightarrow> 'm World" where
  "SetLineStatus status w = w\<lparr>wo_line := status\<rparr>"

definition health :: "Server \<Rightarrow> 'm handler" where
  "health sv w =
     (let status = (if ls_SMS (wo_line w) = ''unavailable'' \<and> ls_Voice (wo_line w) = ''unavailable''
                    then ''degraded'' else ''ok'')
      in (writeJSON 200 (JObject [(''status'', JString status), (''version'', JString (sv_Version sv))]), w))"

definition line_json :: "LineStatus \<Rightarrow> json" where
  "line_json l = JObject
     [(''sim'', JString (ls_SIM l)), (''registration'', JString (ls_Registration l)),
      (''signal'', JObject [(''rssi'', JInt (ls_RSSI l)), (''bars'', JInt (ls_Bars l))]),
      (''capabilityTier'', JString (ls_CapabilityTier l)), (''voice'', JString (ls_Voice l)),
      (''sms'', JString (ls_SMS l)),
      (''activeCallId'', case ls_ActiveCallID l of None \<Rightarrow> JNull | Some i \<Rightarrow> JString i)]"

definition line_handler :: "Server \<Rightarrow> timestamp \<Rightarrow> Request \<Rightarrow> 'm handler" where
  "line_handler sv now r = authorized sv now r (\<lambda>_ w. (writeJSON 200 (line_json (wo_line w)), w))"

text \<open>The capabilities are what \<^verbatim>\<open>SetCapabilities\<close> stored, as JSON.\<close>

definition gateway_handler :: "Server \<Rightarrow> json \<Rightarrow> timestamp \<Rightarrow> Request \<Rightarrow> 'm handler" where
  "gateway_handler sv capabilities now r = authorized sv now r (\<lambda>_ w.
     let transport = (if sv_NetworkTransport sv = [] then sv_NetworkMode sv else sv_NetworkTransport sv)
     in (writeJSON 200 (JObject
          [(''capabilities'', capabilities), (''id'', JString (sv_GatewayID sv)),
           (''lineID'', JString (snd (routeMetadata sv))), (''name'', JString (sv_Name sv)),
           (''transport'', JString transport)]), w))"

definition identity :: "Server \<Rightarrow> Response" where
  "identity sv =
     (let mode = (if sv_NetworkMode sv = [] then ''tailnet'' else sv_NetworkMode sv);
          transport = (if sv_NetworkTransport sv \<noteq> [] then sv_NetworkTransport sv
                       else if mode = ''pocket'' then ''pocketWiFi'' else ''tailnet'')
      in writeJSON 200 (JObject
           [(''apiVersion'', JString ''v1''), (''fingerprint'', JString (sv_Fingerprint sv)),
            (''gatewayId'', JString (sv_GatewayID sv)), (''gatewayName'', JString (sv_Name sv)),
            (''mode'', JString mode), (''publicKey'', JString (sv_Fingerprint sv)), (''transport'', JString transport)]))"

definition pairingStart :: "Server \<Rightarrow> string option \<times> string option \<Rightarrow> timestamp \<Rightarrow> Request \<Rightarrow> 'm handler" where
  "pairingStart sv fresh now r w =
     (if \<not> sv_Auth sv then (writeError 503 ''CB-PAIR-000'' ''pairing service unavailable'', w)
      else
        let start = (if sv_NetworkMode sv = ''tailnet'' then StartPairingFromTailnet else StartPairing)
        in (case start (fst fresh) (snd fresh) now (rq_RemoteAddr r) (sv_Fingerprint sv) (wo_auth w) of
              (Inl e, a) \<Rightarrow> (writeError 403 ''CB-PAIR-001'' (sv_text sv (FromAuth e)), w\<lparr>wo_auth := a\<rparr>)
            | (Inr started, a) \<Rightarrow>
                let host = trim_space (sv_TailnetHostname sv);
                    tailnet = (sv_NetworkMode sv = ''tailnet'' \<and> host \<noteq> [])
                in (writeJSON 200 (JObject
                      ((if tailnet then [(''baseURL'', JString (''https://'' @ host))] else []) @
                       [(''expiresAt'', JInt (int (ps_ExpiresAt started))), (''fingerprint'', JString (ps_Fingerprint started)),
                        (''gatewayId'', JString (ps_GatewayID started))] @
                       (if tailnet then [(''mode'', JString ''tailnet'')] else []) @
                       [(''oneTimeSecret'', JString (ps_OneTimeSecret started)),
                        (''pairingId'', JString (ps_PairingID started))])), w\<lparr>wo_auth := a\<rparr>)))"

text \<open>The decoded body: pairing id, device name, and the two base64 fields as \<^verbatim>\<open>decodeBase64\<close> reads them.\<close>

definition pairingComplete ::
  "Server \<Rightarrow> (byte list \<Rightarrow> string \<Rightarrow> byte list \<Rightarrow> bool) \<Rightarrow> string option \<times> string option \<times> string option \<Rightarrow>
   timestamp \<Rightarrow> timestamp \<Rightarrow> (string \<times> string \<times> byte list option \<times> byte list option) option \<Rightarrow> 'm handler" where
  "pairingComplete sv verify fresh now now2 decoded w =
     (if \<not> sv_Auth sv then (writeError 503 ''CB-PAIR-000'' ''pairing service unavailable'', w)
      else (case decoded of
              None \<Rightarrow> (writeError 400 ''CB-PAIR-002'' ''invalid JSON body'', w)
            | Some (pairingID, deviceName, key, sig) \<Rightarrow>
                (case key of
                   None \<Rightarrow> (writeError 400 ''CB-PAIR-003'' ''invalid device public key'', w)
                 | Some publicKey \<Rightarrow>
                     if length publicKey \<noteq> 32 then (writeError 400 ''CB-PAIR-003'' ''invalid device public key'', w)
                     else (case sig of
                             None \<Rightarrow> (writeError 400 ''CB-PAIR-004'' ''invalid pairing proof'', w)
                           | Some signature \<Rightarrow>
                               (case pairing_Complete (db_token_store now) (sv_sha sv) verify fresh now now2 pairingID
                                       deviceName publicKey signature (wo_auth w, wo_db w) of
                                  (Inl e, a, d) \<Rightarrow>
                                    (writeError 401 ''CB-PAIR-005'' (sv_text sv (FromAuth e)), set_db d (w\<lparr>wo_auth := a\<rparr>))
                                | (Inr (deviceID, access, refresh), a, d) \<Rightarrow>
                                    (writeJSON 200 (JObject [(''accessToken'', JString access),
                                       (''deviceId'', JString deviceID), (''refreshToken'', JString refresh)]),
                                     set_db d (w\<lparr>wo_auth := a\<rparr>)))))))"

definition refresh :: "Server \<Rightarrow> string option \<times> string option \<Rightarrow> timestamp \<Rightarrow> timestamp \<Rightarrow> string option \<Rightarrow> 'm handler" where
  "refresh sv fresh now now2 decoded w =
     (if \<not> sv_Auth sv then (writeError 503 ''CB-AUTH-000'' ''authentication service unavailable'', w)
      else (case decoded of
              None \<Rightarrow> (writeError 400 ''CB-AUTH-002'' ''refreshToken is required'', w)
            | Some token \<Rightarrow>
                if trim_space token = [] then (writeError 400 ''CB-AUTH-002'' ''refreshToken is required'', w)
                else (case store (Refresh (db_token_store now) (sv_sha sv) fresh now now2 token) w of
                        (Inl _, w1) \<Rightarrow> (writeError 401 ''CB-AUTH-003'' ''invalid refresh token'', w1)
                      | (Inr (access, refresh_token), w1) \<Rightarrow>
                          (writeJSON 200 (JObject [(''accessToken'', JString access),
                             (''refreshToken'', JString refresh_token)]), w1))))"

section \<open>Synchronisation\<close>

definition change_json :: "Change \<Rightarrow> json" where
  "change_json c = JObject [(''seq'', JInt (int (ch_Seq c))), (''type'', JString (ch_EntityType c)),
     (''id'', JString (ch_EntityID c)), (''op'', JString (ch_Operation c))]"

definition sync_json :: "int \<Rightarrow> int \<Rightarrow> Change list \<Rightarrow> json" where
  "sync_json after limit changes = JObject
     [(''changes'', JArray (map change_json changes)), (''from'', JInt after),
      (''hasMore'', JBool (int (length changes) = limit)),
      (''to'', JInt (if changes = [] then after else int (ch_Seq (last changes))))]"

definition sync :: "Server \<Rightarrow> timestamp \<Rightarrow> Request \<Rightarrow> 'm handler" where
  "sync sv now r = authorized sv now r (\<lambda>_ w.
     if \<not> sv_Database sv then (writeError 503 ''CB-SYNC-000'' ''database unavailable'', w)
     else (case pagination r of
             Inl message \<Rightarrow> (writeError 400 ''CB-SYNC-002'' message, w)
           | Inr (after, limit) \<Rightarrow>
               (case store (Sync after limit) w of
                  (Inl e, w1) \<Rightarrow> (writeError 500 ''CB-SYNC-003'' (sv_text sv (FromDb e)), w1)
                | (Inr changes, w1) \<Rightarrow> (writeJSON 200 (sync_json after limit changes), w1))))"

section \<open>Messages\<close>

definition messages_json :: "Server \<Rightarrow> Message list \<Rightarrow> json" where
  "messages_json sv ms = JArray (map (messageResponseFromDB sv) ms)"

text \<open>One page of a thread: a row more than asked for tells whether there is more.\<close>

definition thread_page :: "int \<Rightarrow> Message list \<Rightarrow> bool \<times> Message list" where
  "thread_page limit rows =
     (let hasMore = (limit < int (length rows))
      in (hasMore, if hasMore then drop (length rows - nat limit) rows else rows))"

definition listMessages :: "Server \<Rightarrow> timestamp \<Rightarrow> Request \<Rightarrow> 'm handler" where
  "listMessages sv now r = authorized sv now r (\<lambda>_ w.
     if \<not> sv_Database sv then (writeError 503 ''CB-SMS-000'' ''database unavailable'', w)
     else (case pagination r of
             Inl message \<Rightarrow> (writeError 400 ''CB-SMS-003'' message, w)
           | Inr (after, limit) \<Rightarrow>
               let threadKey = trim_space (query_value r ''threadKey'')
               in if threadKey \<noteq> [] then
                    (case threadMessageCursor r of
                       Inl message \<Rightarrow> (writeError 400 ''CB-SMS-005'' message, w)
                     | Inr (beforeCreatedAt, beforeID) \<Rightarrow>
                         (case store (ListThreadMessages threadKey beforeCreatedAt beforeID (limit + 1)) w of
                            (Inl e, w1) \<Rightarrow> (writeError 500 ''CB-SMS-006'' (sv_text sv (FromDb e)), w1)
                          | (Inr rows, w1) \<Rightarrow>
                              (case thread_page limit rows of (hasMore, ms) \<Rightarrow>
                                 ((writeJSON 200 (messages_json sv ms))\<lparr>rp_HasMore := Some hasMore\<rparr>, w1))))
                  else
                    (case store (ListMessages after limit) w of
                       (Inl e, w1) \<Rightarrow> (writeError 500 ''CB-SMS-004'' (sv_text sv (FromDb e)), w1)
                     | (Inr ms, w1) \<Rightarrow> (writeJSON 200 (messages_json sv ms), w1))))"

text \<open>One second between two messages of a device.\<close>

definition allowSMSSend :: "timestamp \<Rightarrow> string \<Rightarrow> 'm World \<Rightarrow> bool \<times> 'm World" where
  "allowSMSSend now deviceID w =
     (if (case map_of (wo_lastSMSSend w) deviceID of Some previous \<Rightarrow> int now - int previous < 1000 | None \<Rightarrow> False)
      then (False, w)
      else (True, w\<lparr>wo_lastSMSSend := map_put deviceID now (wo_lastSMSSend w)\<rparr>))"

text \<open>The engine works on the gateway's store and modem.\<close>

definition engine_send ::
  "(string \<Rightarrow> SMSPayload \<Rightarrow> 'm \<Rightarrow> (modem_error, string) result \<times> 'm) \<Rightarrow> byte \<Rightarrow> string option \<Rightarrow> timestamp \<Rightarrow>
   string \<Rightarrow> rune_text \<Rightarrow> 'm World \<Rightarrow> (Message option \<times> engine_error option) \<times> 'm World" where
  "engine_send send concatRef fresh now dest body w =
     (case Send send concatRef fresh now dest body
             (\<lparr>en_db = wo_db w, en_assembler = wo_assembler w\<rparr>, wo_modem w) of
        (res, e, m) \<Rightarrow> (res, (set_db (en_db e) w)\<lparr>wo_assembler := en_assembler e, wo_modem := m\<rparr>))"

text \<open>\<^verbatim>\<open>HandleMessage\<close> without the push notifications.\<close>

definition HandleMessage :: "Server \<Rightarrow> Message option \<Rightarrow> 'm World \<Rightarrow> 'm World" where
  "HandleMessage sv m w =
     (case m of None \<Rightarrow> w
      | Some x \<Rightarrow> publish_event sv (ms_SyncSeq x) ''message.created'' (messageResponseFromDB sv x) w)"

definition send_operation :: string where
  "send_operation = ''sms.send''"

text \<open>What follows the claim; \<^verbatim>\<open>Send\<close> never returns neither a message nor an error (status 0). \<open>now\<close> is the clock of the rate limit, \<open>now2\<close> the engine's.\<close>

definition send_claimed ::
  "Server \<Rightarrow> (string \<Rightarrow> SMSPayload \<Rightarrow> 'm \<Rightarrow> (modem_error, string) result \<times> 'm) \<Rightarrow> byte \<Rightarrow> string option \<Rightarrow>
   timestamp \<Rightarrow> timestamp \<Rightarrow> string \<Rightarrow> string \<Rightarrow> string \<Rightarrow> rune_text \<Rightarrow> 'm handler" where
  "send_claimed sv send concatRef fresh now now2 deviceID requestID dest body w =
     (case allowSMSSend now deviceID w of
        (False, w1) \<Rightarrow> writeIdempotentError sv deviceID send_operation requestID 429 ''CB-SMS-008''
                         ''SMS send rate limit exceeded'' w1
      | (True, w1) \<Rightarrow>
          (case engine_send send concatRef fresh now2 dest body w1 of
             ((Some message, Some e), w2) \<Rightarrow>
               let v = messageResponseFromDB sv message;
                   w3 = audit sv deviceID send_operation (ms_ID message) ''failed'' w2
               in (writeJSON 502 v, complete_quietly sv deviceID send_operation requestID 502 (json_marshal v) w3)
           | ((None, Some e), w2) \<Rightarrow>
               let w3 = audit sv deviceID send_operation (''request:'' @ requestID) ''failed'' w2;
                   text_body = json_marshal (error_json ''CB-SMS-002'' (sv_text sv (FromSms e)))
               in (writeRawJSON 502 text_body,
                   complete_quietly sv deviceID send_operation requestID 502 text_body w3)
           | ((m, None), w2) \<Rightarrow>
               (case m of
                  None \<Rightarrow> (writeRawJSON 0 [], w2)
                | Some message \<Rightarrow>
                    completed sv ''CB-SMS-004'' deviceID send_operation requestID 201
                      (json_marshal (messageResponseFromDB sv message))
                      (\<lambda>w3. HandleMessage sv (Some message)
                              (audit sv deviceID send_operation (ms_ID message) ''accepted'' w3)) w2)))"

definition sendMessage ::
  "Server \<Rightarrow> (string \<Rightarrow> SMSPayload \<Rightarrow> 'm \<Rightarrow> (modem_error, string) result \<times> 'm) \<Rightarrow> byte \<Rightarrow> string option \<Rightarrow>
   timestamp \<Rightarrow> timestamp \<Rightarrow> (string \<times> rune_text) option \<Rightarrow> Request \<Rightarrow> 'm handler" where
  "sendMessage sv send concatRef fresh now now2 decoded r =
     authorized sv now r (\<lambda>deviceID. keyed r (\<lambda>requestID w.
       if \<not> sv_SMS sv then (writeError 503 ''CB-SMS-000'' ''SMS modem is unavailable'', w)
       else if \<not> sv_Database sv then (writeError 503 ''CB-SMS-000'' ''database unavailable'', w)
       else (case decoded of
               None \<Rightarrow> (writeError 400 ''CB-SMS-003'' ''invalid JSON body'', w)
             | Some (to0, body0) \<Rightarrow>
                 let dest = trim_space to0; body = trim_runes body0
                 in if dest = [] \<or> 32 < length dest \<or> body = [] \<or> 10000 < length body
                    then (writeError 400 ''CB-SMS-003'' ''to or body is invalid'', w)
                    else claimed sv ''CB-SMS-004'' deviceID send_operation requestID
                           (send_claimed sv send concatRef fresh now now2 deviceID requestID dest body) w)))"

definition messages :: "Server \<Rightarrow> (Request \<Rightarrow> 'm handler) \<Rightarrow> timestamp \<Rightarrow> Request \<Rightarrow> 'm handler" where
  "messages sv post now r w =
     (if rq_Method r = ''POST'' then post r w
      else if rq_Method r \<noteq> ''GET'' then (writeError 405 ''CB-API-001'' ''method not allowed'', w)
      else listMessages sv now r w)"

definition threads :: "Server \<Rightarrow> timestamp \<Rightarrow> Request \<Rightarrow> 'm handler" where
  "threads sv now r = authorized sv now r (\<lambda>_ w.
     if \<not> sv_Database sv then (writeError 503 ''CB-SMS-000'' ''database unavailable'', w)
     else (case store ListThreads w of
             (Inl e, w1) \<Rightarrow> (writeError 500 ''CB-SMS-005'' (sv_text sv (FromDb e)), w1)
           | (Inr ts, w1) \<Rightarrow> (writeJSON 200 (JArray (map (thread_json sv) ts)), w1)))"

section \<open>Marking and deleting messages\<close>

definition message_missing :: string where
  "message_missing = ''{\"code\":\"CB-SMS-006\",\"message\":\"message not found\"}''"

text \<open>The common end of the two actions: the effect, the record of the answer, the audit entry. A failure other than a
  missing row is recorded for one of them only.\<close>

definition message_effect ::
  "Server \<Rightarrow> bool \<Rightarrow> string \<Rightarrow> unit db_op \<Rightarrow> string \<Rightarrow> string \<Rightarrow> string \<Rightarrow> 'm handler" where
  "message_effect sv record_failure operation effect deviceID requestID messageID w =
     (case store effect w of
        (Inl e, w1) \<Rightarrow>
          if e = NoRows then
            (writeError 404 ''CB-SMS-006'' ''message not found'',
             complete_quietly sv deviceID operation requestID 404 message_missing w1)
          else if record_failure then
            writeIdempotentError sv deviceID operation requestID 500 ''CB-SMS-007'' (sv_text sv (FromDb e)) w1
          else (writeError 500 ''CB-SMS-007'' (sv_text sv (FromDb e)), w1)
      | (Inr _, w1) \<Rightarrow>
          completed sv ''CB-SMS-007'' deviceID operation requestID 204 []
            (\<lambda>w2. audit sv deviceID operation messageID ''accepted'' w2) w1)"

definition messageAction :: "Server \<Rightarrow> timestamp \<Rightarrow> Request \<Rightarrow> 'm handler" where
  "messageAction sv now r = authorized sv now r (\<lambda>deviceID w.
     if \<not> sv_Database sv then (writeError 503 ''CB-SMS-000'' ''database unavailable'', w)
     else
       let parts = path_parts ''/api/v1/messages/'' r
       in if length parts = 2 \<and> parts ! 1 = ''read'' \<and> rq_Method r = ''POST'' then
            keyed r (\<lambda>requestID.
              claimed_with (\<lambda>e. writeIdempotentError sv deviceID ''message.read'' requestID 500 ''CB-SMS-007''
                  (sv_text sv (FromDb e))) sv deviceID ''message.read'' requestID
                (message_effect sv True ''message.read'' (MarkMessageRead (hd parts)) deviceID requestID (hd parts))) w
          else if length parts = 1 \<and> rq_Method r = ''DELETE'' then
            keyed r (\<lambda>requestID.
              claimed sv ''CB-SMS-007'' deviceID ''message.delete'' requestID
                (message_effect sv False ''message.delete'' (DeleteMessage (hd parts)) deviceID requestID (hd parts))) w
          else (writeError 404 ''CB-SMS-006'' ''message action not found'', w))"

section \<open>Push registrations\<close>

text \<open>The decoded body: the two tokens, the environment and the locale.\<close>

definition deviceAction ::
  "Server \<Rightarrow> timestamp \<Rightarrow> (string \<times> string \<times> string \<times> string) option \<Rightarrow> Request \<Rightarrow> 'm handler" where
  "deviceAction sv now decoded r w0 =
     (if rq_Method r \<noteq> ''PUT'' then (writeError 405 ''CB-API-001'' ''method not allowed'', w0)
      else authorized sv now r (\<lambda>deviceID w.
        let parts = path_parts ''/api/v1/devices/'' r
        in if length parts \<noteq> 2 \<or> parts ! 1 \<noteq> ''push'' \<or> hd parts \<noteq> deviceID
           then (writeError 403 ''CB-AUTH-003'' ''device cannot update this device'', w)
           else keyed r (\<lambda>requestID w.
             if \<not> sv_Database sv then (writeError 503 ''CB-PUSH-000'' ''database unavailable'', w)
             else (case decoded of
                     None \<Rightarrow> (writeError 400 ''CB-PUSH-001'' ''invalid JSON body'', w)
                   | Some (apns, voip, environment, locale_name) \<Rightarrow>
                       if apns = [] \<or> voip = [] \<or> environment \<notin> {''sandbox'', ''production''} \<or> locale_name = []
                       then (writeError 400 ''CB-PUSH-002'' ''invalid push registration'', w)
                       else claimed sv ''CB-PUSH-003'' deviceID ''push.register'' requestID (\<lambda>w1.
                         case store (RegisterPush deviceID apns voip environment locale_name) w1 of
                           (Inl e, w2) \<Rightarrow>
                             if e = NoRows then writeIdempotentError sv deviceID ''push.register'' requestID 404
                                                  ''CB-PUSH-004'' ''device not found'' w2
                             else writeIdempotentError sv deviceID ''push.register'' requestID 500
                                    ''CB-PUSH-003'' (sv_text sv (FromDb e)) w2
                         | (Inr _, w2) \<Rightarrow>
                             completed sv ''CB-PUSH-003'' deviceID ''push.register'' requestID 204 []
                               (\<lambda>w3. audit sv deviceID ''push.register'' deviceID ''accepted'' w3) w2) w)) w) w0)"

end
