(* ===== verification/Api_Calls.thy ===== *)
theory Api_Calls
  imports Api_Messages Call_Adapter
begin

text \<open>
  The handlers of \<^verbatim>\<open>gateway/internal/api/server.go\<close> that concern calls: dialling, the actions on a call, the events
  of the modem, the call list. They run the call controller and the modem in the order of the code; \<open>meanwhile\<close> is what
  other handlers and the modem reader do while a command waits for the modem, so a handler is not one step. WebRTC
  sessions are only known by the calls that have one; push notifications are left out.
\<close>

section \<open>Persisting a call\<close>

text \<open>\<^verbatim>\<open>CallModem\<close> with the optional \<^verbatim>\<open>SetLogicalCallID\<close>.\<close>

record 'm CallModem =
  cm_bind :: "string \<Rightarrow> 'm \<Rightarrow> 'm"
  cm_Dial :: "string \<Rightarrow> 'm \<Rightarrow> (modem_error, unit) result \<times> 'm"
  cm_Answer :: "'m \<Rightarrow> (modem_error, unit) result \<times> 'm"
  cm_Hangup :: "'m \<Rightarrow> (modem_error, unit) result \<times> 'm"
  cm_DTMF :: "rune \<Rightarrow> 'm \<Rightarrow> (modem_error, unit) result \<times> 'm"

definition stop_recording :: "Server \<Rightarrow> timestamp \<Rightarrow> Call \<Rightarrow> 'm World \<Rightarrow> 'm World" where
  "stop_recording sv now current w =
     (case recorder (rec_Stop now (ca_ID current)) w of
        (Inl e, w1) \<Rightarrow> if e = RecNotActive then w1 else audit sv ''system'' ''recording.stop'' (ca_ID current) ''failed'' w1
      | (Inr task, w1) \<Rightarrow> w1\<lparr>wo_tasks := wo_tasks w1 @ [task]\<rparr>)"

definition set_active :: "string option \<Rightarrow> 'm World \<Rightarrow> 'm World" where
  "set_active callID w = w\<lparr>wo_line := (wo_line w)\<lparr>ls_ActiveCallID := callID\<rparr>\<rparr>"

definition persistCall :: "Server \<Rightarrow> timestamp \<Rightarrow> Call \<Rightarrow> Event \<Rightarrow> 'm World \<Rightarrow> (db_error, nat) result \<times> 'm World" where
  "persistCall sv now current event w =
     (let w1 = set_active (if ca_EndedAt current \<noteq> None then None else Some (ca_ID current)) w
      in if \<not> sv_Database sv then (Inr 0, w1)
         else (case store (SaveCall (call_record current)) w1 of
                 (Inl e, w2) \<Rightarrow> (Inl e, w2)
               | (Inr seq, w2) \<Rightarrow>
                   let w3 = (if ca_EndedAt current \<noteq> None \<and> sv_Recordings sv then stop_recording sv now current w2 else w2)
                   in (Inr seq, publish_event sv seq (ev_Kind event) (callResponseFromDomain sv current) w3)))"

definition closeWebRTC :: "string \<Rightarrow> 'm World \<Rightarrow> 'm World" where
  "closeWebRTC callID w = w\<lparr>wo_media := map_del callID (wo_media w)\<rparr>"

section \<open>Dialling\<close>

definition finish_call :: "timestamp \<Rightarrow> string \<Rightarrow> 'm World \<Rightarrow> (Call \<times> Event) option \<times> 'm World" where
  "finish_call now callID w =
     (case controller (Finish now callID) w of
        ((ended, event, None), w1) \<Rightarrow> (Some (ended, event), w1)
      | ((_, _, Some _), w1) \<Rightarrow> (None, w1))"

text \<open>The modem refused the number: the logical call is hung up, finished and persisted.\<close>

definition dial_refused ::
  "Server \<Rightarrow> 'm CallModem \<Rightarrow> timestamp \<Rightarrow> string \<Rightarrow> Call \<Rightarrow> Event \<Rightarrow> modem_error \<Rightarrow> 'm World \<Rightarrow> 'm World" where
  "dial_refused sv cm now requestID current event e w =
     (let w1 = (if e = ErrActiveCall then snd (modem (cm_Hangup cm) w) else w);
          w2 = snd (controller (Hangup (''modem-failure:'' @ requestID) (ca_ID current) ''modem_dial_failed'') w1)
      in case finish_call now (ca_ID current) w2 of
           (Some (ended, _), w3) \<Rightarrow> snd (persistCall sv now ended event w3)
         | (None, w3) \<Rightarrow> snd (persistCall sv now current event w3))"

text \<open>The state update after the command failed: \<open>current\<close> is what \<^verbatim>\<open>MarkCellularReady\<close> returned.\<close>

definition ready_refused :: "Server \<Rightarrow> 'm CallModem \<Rightarrow> timestamp \<Rightarrow> Call \<Rightarrow> 'm World \<Rightarrow> 'm World" where
  "ready_refused sv cm now current w =
     (case finish_call now (ca_ID current) (snd (modem (cm_Hangup cm) w)) of
        (Some (ended, finishEvent), w1) \<Rightarrow> snd (persistCall sv now ended finishEvent w1)
      | (None, w1) \<Rightarrow> w1)"

definition dial_operation :: string where
  "dial_operation = ''call.dial''"

definition dial_claimed ::
  "Server \<Rightarrow> 'm CallModem \<Rightarrow> ('m World \<Rightarrow> 'm World) \<Rightarrow> timestamp \<times> timestamp \<Rightarrow> string \<Rightarrow> string \<Rightarrow> string \<Rightarrow> string \<Rightarrow>
   'm handler" where
  "dial_claimed sv cm meanwhile clocks deviceID requestID peer callID w =
     (case controller (Dial (fst clocks) requestID callID peer) w of
        ((current, event, Some e), w1) \<Rightarrow> writeIdempotentCallError sv deviceID dial_operation requestID (FromCall e) w1
      | ((current, event, None), w1) \<Rightarrow>
          let w2 = w1\<lparr>wo_modem := cm_bind cm (ca_ID current) (wo_modem w1)\<rparr>
          in (case modem (cm_Dial cm peer) w2 of
                (Inl e, w3) \<Rightarrow>
                  writeIdempotentCallError sv deviceID dial_operation requestID (FromModem e)
                    (dial_refused sv cm (snd clocks) requestID current event e (meanwhile w3))
              | (Inr _, w3) \<Rightarrow>
                  (case controller (MarkCellularReady (snd clocks) (ca_ID current)) (meanwhile w3) of
                     ((current2, event2, Some e), w4) \<Rightarrow>
                       writeIdempotentCallError sv deviceID dial_operation requestID (FromCall e)
                         (ready_refused sv cm (snd clocks) current2 w4)
                   | ((current2, event2, None), w4) \<Rightarrow>
                       (case persistCall sv (snd clocks) current2 event2 w4 of
                          (Inl e, w5) \<Rightarrow> writeIdempotentError sv deviceID dial_operation requestID 500 ''CB-CALL-004''
                                           (sv_text sv (FromDb e)) w5
                        | (Inr _, w5) \<Rightarrow>
                            completed sv ''CB-CALL-004'' deviceID dial_operation requestID 201
                              (json_marshal (callResponseFromDomain sv current2))
                              (\<lambda>w6. audit sv deviceID dial_operation (ca_ID current2) ''accepted'' w6) w5))))"

text \<open>The decoded body: number and client call id.\<close>

definition dial ::
  "Server \<Rightarrow> 'm CallModem \<Rightarrow> ('m World \<Rightarrow> 'm World) \<Rightarrow> timestamp \<Rightarrow> timestamp \<times> timestamp \<Rightarrow>
   (string \<times> string) option \<Rightarrow> Request \<Rightarrow> 'm handler" where
  "dial sv cm meanwhile now clocks decoded r = authorized sv now r (\<lambda>deviceID. keyed r (\<lambda>requestID w.
     if \<not> sv_Voice sv then (writeError 503 ''CB-CALL-000'' ''voice modem is unavailable'', w)
     else (case decoded of
             None \<Rightarrow> (writeError 400 ''CB-CALL-001'' ''invalid JSON body'', w)
           | Some (to0, call0) \<Rightarrow>
               let peer = trim_space to0; callID = trim_space call0
               in if peer = [] \<or> 32 < length peer \<or> callID = []
                  then (writeError 400 ''CB-CALL-002'' ''to and clientCallId are required'', w)
                  else if IsEmergencyNumber peer
                  then (writeError 403 ''CB-CALL-011'' ''emergency numbers must be dialed with the system phone'', w)
                  else claimed sv ''CB-CALL-004'' deviceID dial_operation requestID
                         (dial_claimed sv cm meanwhile clocks deviceID requestID peer callID) w)))"

section \<open>Actions on a call\<close>

text \<open>The outcome of the \<^verbatim>\<open>switch\<close> of \<^verbatim>\<open>callAction\<close> and the updates behind it: its error, whether the modem did its part,
  what is to be persisted.\<close>

type_synonym 'm effect = "(api_error option \<times> bool \<times> (Call \<times> Event) option) \<times> 'm World"

definition answer_effect ::
  "'m CallModem \<Rightarrow> ('m World \<Rightarrow> 'm World) \<Rightarrow> timestamp \<Rightarrow> string \<Rightarrow> string \<Rightarrow> 'm World \<Rightarrow> 'm effect" where
  "answer_effect cm meanwhile now requestID callID w =
     (case controller (Answer requestID callID) w of
        ((_, _, Some e), w1) \<Rightarrow> ((Some (FromCall e), False, None), w1)
      | ((_, _, None), w1) \<Rightarrow>
          (case modem (cm_Answer cm) w1 of
             (Inl e, w2) \<Rightarrow> ((Some (FromModem e), False, None), meanwhile w2)
           | (Inr _, w2) \<Rightarrow>
               (case controller (MarkCellularReady now callID) (meanwhile w2) of
                  ((_, _, Some e), w3) \<Rightarrow> ((Some (FromCall e), True, None), w3)
                | ((current, event, None), w3) \<Rightarrow> ((None, True, Some (current, event)), w3))))"

definition hangup_effect ::
  "'m CallModem \<Rightarrow> ('m World \<Rightarrow> 'm World) \<Rightarrow> timestamp \<Rightarrow> string \<Rightarrow> string \<Rightarrow> string \<Rightarrow> 'm World \<Rightarrow> 'm effect" where
  "hangup_effect cm meanwhile now action requestID callID w =
     (case controller (Hangup requestID callID action) w of
        ((_, _, Some e), w1) \<Rightarrow> ((Some (FromCall e), False, None), w1)
      | ((_, _, None), w1) \<Rightarrow>
          (case modem (cm_Hangup cm) w1 of
             (res, w2) \<Rightarrow>
               if res \<noteq> Inr () \<and> res \<noteq> Inl ErrNoActiveCall
               then ((Some (FromModem (projl res)), False, None), meanwhile w2)
               else (case controller (Finish now callID) (meanwhile w2) of
                       ((ended, finishEvent, None), w3) \<Rightarrow> ((None, True, Some (ended, finishEvent)), w3)
                     | ((_, _, Some e), w3) \<Rightarrow>
                         if e = ErrCallNotFound then ((None, True, None), w3)
                         else ((Some (FromCall e), True, None), w3))))"

definition dtmf_effect ::
  "'m CallModem \<Rightarrow> ('m World \<Rightarrow> 'm World) \<Rightarrow> rune \<Rightarrow> string \<Rightarrow> 'm World \<Rightarrow> 'm effect" where
  "dtmf_effect cm meanwhile digit callID w =
     (case DTMF callID digit (wo_calls w) of
        Some e \<Rightarrow> ((Some (FromCall e), False, None), w)
      | None \<Rightarrow>
          (case modem (cm_DTMF cm digit) w of
             (Inl e, w1) \<Rightarrow> ((Some (FromModem e), False, None), meanwhile w1)
           | (Inr _, w1) \<Rightarrow> ((None, False, None), meanwhile w1)))"

text \<open>What follows the claim. The record of the answer has status 204 and no body.\<close>

definition action_claimed ::
  "Server \<Rightarrow> 'm CallModem \<Rightarrow> ('m World \<Rightarrow> 'm World) \<Rightarrow> timestamp \<Rightarrow> string \<Rightarrow> string \<Rightarrow> string \<Rightarrow> rune \<Rightarrow> string \<Rightarrow>
   'm handler" where
  "action_claimed sv cm meanwhile now action deviceID requestID digit callID w =
     (let operation = ''call.'' @ action
      in case (if action = ''answer'' then answer_effect cm meanwhile now requestID callID w
               else if action = ''dtmf'' then dtmf_effect cm meanwhile digit callID w
               else hangup_effect cm meanwhile now action requestID callID w) of
           ((Some e, modemOK, _), w1) \<Rightarrow>
             let w2 = (if \<not> modemOK \<and> action \<noteq> ''dtmf'' then snd (controller (Rollback requestID callID) w1) else w1)
             in writeIdempotentCallError sv deviceID operation requestID e (audit sv deviceID operation callID ''failed'' w2)
         | ((None, _, changed), w1) \<Rightarrow>
             (case (case changed of None \<Rightarrow> (Inr 0, w1) | Some (current, event) \<Rightarrow> persistCall sv now current event w1) of
                (Inl e, w2) \<Rightarrow> writeIdempotentError sv deviceID operation requestID 500 ''CB-CALL-004''
                                 (sv_text sv (FromDb e)) w2
              | (Inr _, w2) \<Rightarrow>
                  completed sv ''CB-CALL-004'' deviceID operation requestID 204 []
                    (\<lambda>w3. audit sv deviceID operation callID ''accepted'' w3)
                    (if action = ''hangup'' \<or> action = ''reject'' then closeWebRTC callID w2 else w2)))"

text \<open>The part of \<^verbatim>\<open>callAction\<close> behind the authorization and its dispatch to other handlers. The decoded body is the
  digit field of a DTMF request.\<close>

definition control_call ::
  "Server \<Rightarrow> 'm CallModem \<Rightarrow> ('m World \<Rightarrow> 'm World) \<Rightarrow> timestamp \<Rightarrow> rune_text option \<Rightarrow> Request \<Rightarrow> string \<Rightarrow> string list \<Rightarrow>
   'm handler" where
  "control_call sv cm meanwhile now decoded r deviceID parts =
     (if length parts \<noteq> 2 \<or> rq_Method r \<noteq> ''POST'' then answer_with (writeError 404 ''CB-CALL-006'' ''call action not found'')
      else keyed r (\<lambda>requestID w.
        let callID = hd parts; action = parts ! 1
        in if action \<notin> {''answer'', ''reject'', ''hangup'', ''dtmf''}
           then (writeError 404 ''CB-CALL-006'' ''call action not found'', w)
           else if \<not> sv_Voice sv then (writeError 503 ''CB-CALL-000'' ''voice modem is unavailable'', w)
           else if action = ''dtmf'' \<and> decoded = None then (writeError 400 ''CB-CALL-007'' ''invalid JSON body'', w)
           else
             let digit = (case decoded of None \<Rightarrow> [] | Some d \<Rightarrow> trim_runes d)
             in if action = ''dtmf'' \<and> length digit \<noteq> 1
                then (writeError 400 ''CB-CALL-008'' ''digit must contain exactly one DTMF character'', w)
                else claimed sv ''CB-CALL-004'' deviceID (''call.'' @ action) requestID
                       (action_claimed sv cm meanwhile now action deviceID requestID (if digit = [] then 0 else hd digit) callID) w))"

section \<open>Reading and deleting calls\<close>

definition listCalls :: "Server \<Rightarrow> timestamp \<Rightarrow> Request \<Rightarrow> 'm handler" where
  "listCalls sv now r = authorized sv now r (\<lambda>_ w.
     if \<not> sv_Database sv then (writeError 503 ''CB-CALL-000'' ''call database unavailable'', w)
     else (case pagination r of
             Inl message \<Rightarrow> (writeError 400 ''CB-CALL-005'' message, w)
           | Inr (_, limit) \<Rightarrow>
               (case store (ListCalls limit) w of
                  (Inl e, w1) \<Rightarrow> (writeError 500 ''CB-CALL-004'' (sv_text sv (FromDb e)), w1)
                | (Inr cs, w1) \<Rightarrow> (writeJSON 200 (JArray (map (call_json sv) cs)), w1))))"

definition getCall :: "Server \<Rightarrow> string \<Rightarrow> 'm handler" where
  "getCall sv callID w =
     (if trim_space callID = [] then (writeError 404 ''CB-CALL-006'' ''call not found'', w)
      else if \<not> sv_Database sv then (writeError 503 ''CB-CALL-000'' ''call database unavailable'', w)
      else (case store (GetCall callID) w of
              (Inl e, w1) \<Rightarrow>
                ((if e = NoRows then writeError 404 ''CB-CALL-006'' ''call not found''
                  else writeError 500 ''CB-CALL-004'' (sv_text sv (FromDb e))), w1)
            | (Inr c, w1) \<Rightarrow> (writeJSON 200 (call_json sv c), w1)))"

definition stored_error :: "string \<Rightarrow> string \<Rightarrow> string" where
  "stored_error code message = json_marshal (error_json code message)"

text \<open>An answer that is recorded as an error text but written by the encoder.\<close>

definition record_error ::
  "Server \<Rightarrow> string \<Rightarrow> string \<Rightarrow> string \<Rightarrow> nat \<Rightarrow> string \<Rightarrow> string \<Rightarrow> 'm handler" where
  "record_error sv deviceID operation requestID status code message w =
     (writeError status code message, complete_quietly sv deviceID operation requestID status (stored_error code message) w)"

definition deleteCall :: "Server \<Rightarrow> timestamp \<Rightarrow> Request \<Rightarrow> string \<Rightarrow> string \<Rightarrow> 'm handler" where
  "deleteCall sv now r callID deviceID w0 =
     (if \<not> sv_Database sv then (writeError 503 ''CB-CALL-000'' ''call database unavailable'', w0)
      else keyed r (\<lambda>requestID. claimed sv ''CB-CALL-004'' deviceID ''call.delete'' requestID (\<lambda>w.
        let missing = record_error sv deviceID ''call.delete'' requestID 404 ''CB-CALL-006'' ''call not found''
        in case store (GetCall callID) w of
             (Inl e, w1) \<Rightarrow> if e = NoRows then missing w1
                            else (writeError 500 ''CB-CALL-004'' (sv_text sv (FromDb e)), w1)
           | (Inr c, w1) \<Rightarrow>
               if cl_EndedAt c = None
               then record_error sv deviceID ''call.delete'' requestID 409 ''CB-CALL-010'' ''active call cannot be deleted'' w1
               else (case store (db_DeleteCall now callID) w1 of
                       (Inl e, w2) \<Rightarrow> if e = NoRows then missing w2
                                      else (writeError 500 ''CB-CALL-004'' (sv_text sv (FromDb e)), w2)
                     | (Inr seq, w2) \<Rightarrow>
                         completed sv ''CB-CALL-004'' deviceID ''call.delete'' requestID 204 []
                           (\<lambda>w3. publish_event sv seq ''call.deleted'' (JObject [(''id'', JString callID)])
                                   (audit sv deviceID ''call.delete'' callID ''accepted'' w3)) w2))) w0)"

section \<open>Events of the modem\<close>

definition HandleModemEvent :: "Server \<Rightarrow> timestamp \<Rightarrow> ModemEvent \<Rightarrow> 'm World \<Rightarrow> 'm World" where
  "HandleModemEvent sv now event w =
     (if me_Kind event = ''incoming'' then
        (case controller (Incoming now (me_CallID event) (me_Peer event)) w of
           ((current, stateEvent, None), w1) \<Rightarrow> snd (persistCall sv now current stateEvent w1)
         | ((_, _, Some _), w1) \<Rightarrow> w1)
      else if me_Kind event = ''ended'' then
        (case controller (RemoteEnded (me_CallID event) (me_Raw event)) w of
           ((current, stateEvent, Some _), w1) \<Rightarrow> w1
         | ((current, stateEvent, None), w1) \<Rightarrow>
             let w2 = snd (persistCall sv now current stateEvent w1)
             in (case finish_call now (ca_ID current) w2 of
                   (None, w3) \<Rightarrow> w3
                 | (Some (ended, finishEvent), w3) \<Rightarrow>
                     closeWebRTC (ca_ID ended) (snd (persistCall sv now ended finishEvent w3))))
      else w)"

section \<open>The state of the media connection\<close>

text \<open>The callback that \<^verbatim>\<open>webRTCOffer\<close> registers; the state is the name of pion's \<^verbatim>\<open>PeerConnectionState\<close>.\<close>

definition persist_if_ok :: "Server \<Rightarrow> timestamp \<Rightarrow> call_result \<times> 'm World \<Rightarrow> 'm World" where
  "persist_if_ok sv now x =
     (case x of
        ((current, event, None), w) \<Rightarrow> snd (persistCall sv now current event w)
      | ((_, _, Some _), w) \<Rightarrow> w)"

definition on_media_state :: "Server \<Rightarrow> timestamp \<Rightarrow> string \<Rightarrow> string \<Rightarrow> 'm World \<Rightarrow> 'm World" where
  "on_media_state sv now callID state w =
     (if state = ''disconnected'' \<or> state = ''failed''
      then closeWebRTC callID (persist_if_ok sv now (controller (MarkRecovering callID (''media_'' @ to_lower state)) w))
      else if state \<noteq> ''connected'' then w
      else persist_if_ok sv now (controller (MarkMediaReady now callID) w))"

text \<open>What happens while a command waits for the modem.\<close>

datatype interference = ModemSays ModemEvent | MediaState string string

fun interfere :: "Server \<Rightarrow> timestamp \<Rightarrow> interference \<Rightarrow> 'm World \<Rightarrow> 'm World" where
  "interfere sv now (ModemSays event) w = HandleModemEvent sv now event w"
| "interfere sv now (MediaState callID state) w = on_media_state sv now callID state w"

definition meantime :: "Server \<Rightarrow> timestamp \<Rightarrow> interference list \<Rightarrow> 'm World \<Rightarrow> 'm World" where
  "meantime sv now steps w = fold (interfere sv now) steps w"

section \<open>Request keys of calls\<close>

lemma controller_tables: "controller f w = (x, w') \<Longrightarrow> claims_kept w w'"
  by (auto simp: controller_def claims_kept_def split: prod.splits)

lemma modem_tables: "modem f w = (x, w') \<Longrightarrow> claims_kept w w'"
  by (auto simp: modem_def claims_kept_def split: prod.splits)

lemma recorder_tables:
  "recorder f w = (x, w') \<Longrightarrow> (\<And>key r y r'. key_claimed key (fst (rw_db r)) \<Longrightarrow> f r = (y, r') \<Longrightarrow> key_claimed key (fst (rw_db r'))) \<Longrightarrow>
     claims_kept w w'"
  by (auto simp: recorder_def claims_kept_def split: prod.splits)

lemma rec_Stop_claims:
  assumes "rec_Stop now i r = (y, r')" and "key_claimed key (fst (rw_db r))"
  shows "key_claimed key (fst (rw_db r'))"
proof -
  have save: "key_claimed key (fst (rw_db b))" if "save_recording n x a = (z, b)" "key_claimed key (fst (rw_db a))" for n x a z b
    using that rec_db_keeps [OF _ frame_keeps_claims(8)]
    by (auto simp: save_recording_def split: prod.splits sum.splits)
  have link: "key_claimed key (fst (rw_db (link_quietly x a)))" if "key_claimed key (fst (rw_db a))" for x a
    using that rec_db_keeps [OF prod.collapse [symmetric] frame_keeps_claims(9)] by (simp add: link_quietly_def)
  show ?thesis using assms by (auto simp: rec_Stop_def Let_def link dest: save split: option.splits prod.splits sum.splits)
qed

lemma stop_recording_kept: "claims_kept w (stop_recording sv now c w)"
proof -
  obtain x w1 where r: "recorder (rec_Stop now (ca_ID c)) w = (x, w1)" by fastforce
  have k: "claims_kept w w1" using r by (rule recorder_tables) (rule rec_Stop_claims)
  have "wo_tables (w1\<lparr>wo_tasks := ts\<rparr>) = wo_tables w1" for ts by simp
  then show ?thesis
    using k claims_kept_trans [OF k quiet_kept(1)] r
    by (auto simp: stop_recording_def claims_kept_def split: sum.splits)
qed

lemma persistCall_kept: "persistCall sv now c e w = (r, w') \<Longrightarrow> claims_kept w w'"
proof -
  assume run: "persistCall sv now c e w = (r, w')"
  let ?w1 = "set_active (if ca_EndedAt c \<noteq> None then None else Some (ca_ID c)) w"
  obtain x w2 where s: "store (SaveCall (call_record c)) ?w1 = (x, w2)" by fastforce
  have "claims_kept w ?w1" by (simp add: claims_kept_def set_active_def)
  moreover have k: "claims_kept ?w1 w2" using s by (rule store_kept) (rule frame_keeps_claims)
  ultimately show ?thesis
    using run s claims_kept_trans [OF k claims_kept_trans [OF stop_recording_kept publish_event_kept]]
      claims_kept_trans [OF k publish_event_kept]
    by (auto simp: persistCall_def Let_def split: if_splits sum.splits intro: claims_kept_trans)
qed

lemma persist_kept [kept_intros]: "claims_kept w (snd (persistCall sv now c e w))"
  by (rule persistCall_kept [OF prod.collapse [symmetric]])

lemma controller_kept [kept_intros]: "claims_kept w (snd (controller f w))"
  by (rule controller_tables [OF prod.collapse [symmetric]])

lemma modem_kept [kept_intros]: "claims_kept w (snd (modem f w))"
  by (rule modem_tables [OF prod.collapse [symmetric]])

lemma close_kept [kept_intros]: "claims_kept w (closeWebRTC i w)"
  by (simp add: closeWebRTC_def claims_kept_def)

lemma finish_kept: "finish_call now i w = (x, w') \<Longrightarrow> claims_kept w w'"
  by (auto simp: finish_call_def split: prod.splits option.splits dest: controller_tables)

lemma dial_refused_kept: "claims_kept w (dial_refused sv cm now req c ev e w)"
proof -
  let ?w1 = "if e = ErrActiveCall then snd (modem (cm_Hangup cm) w) else w"
  let ?w2 = "snd (controller (Hangup (''modem-failure:'' @ req) (ca_ID c) ''modem_dial_failed'') ?w1)"
  have "claims_kept w ?w1" by (simp add: kept_intros)
  then have k: "claims_kept w ?w2" by (rule claims_kept_trans) (rule controller_kept)
  obtain x w3 where f: "finish_call now (ca_ID c) ?w2 = (x, w3)" by fastforce
  have "claims_kept w w3" using k finish_kept [OF f] by (rule claims_kept_trans)
  then show ?thesis
    using f by (auto simp: dial_refused_def Let_def split: option.splits intro: claims_kept_trans persist_kept)
qed

lemma ready_refused_kept: "claims_kept w (ready_refused sv cm now c w)"
proof -
  obtain x w1 where f: "finish_call now (ca_ID c) (snd (modem (cm_Hangup cm) w)) = (x, w1)" by fastforce
  have "claims_kept w w1" using modem_kept finish_kept [OF f] by (rule claims_kept_trans)
  then show ?thesis
    using f by (auto simp: ready_refused_def split: option.splits intro: claims_kept_trans persist_kept)
qed

lemma event_kept: "claims_kept w (HandleModemEvent sv now ev w)"
  unfolding HandleModemEvent_def Let_def
  by (auto split: prod.splits option.splits dest!: controller_tables finish_kept
      intro: claims_kept_refl claims_kept_trans [OF _ persist_kept] claims_kept_trans [OF _ close_kept]
        claims_kept_trans [OF claims_kept_trans [OF _ persist_kept]])

lemma persist_if_ok_kept: "claims_kept w (persist_if_ok sv now (controller f w))"
  unfolding persist_if_ok_def
  by (auto split: prod.splits option.splits dest!: controller_tables intro: claims_kept_trans [OF _ persist_kept])

lemma meantime_kept: "claims_kept w (meantime sv now steps w)"
  unfolding meantime_def
proof (induction steps arbitrary: w)
  case (Cons x steps)
  have "claims_kept w (interfere sv now x w)"
    by (cases x) (auto simp: on_media_state_def event_kept kept_intros
        intro: persist_if_ok_kept claims_kept_trans [OF persist_if_ok_kept close_kept])
  then show ?case using Cons.IH by (auto intro: claims_kept_trans)
qed (simp add: claims_kept_refl)

lemma dial_claimed_kept:
  assumes "dial_claimed sv cm (meantime sv now steps) clocks d req peer i w = (resp, w')"
  shows "claims_kept w w'"
proof -
  let ?m = "meantime sv now steps"
  obtain c ev x w1 where w1: "controller (Dial (fst clocks) req i peer) w = ((c, ev, x), w1)" by (metis surj_pair)
  have k1: "claims_kept w w1" by (rule controller_tables [OF w1])
  show ?thesis
  proof (cases x)
    case (Some e)
    with assms w1 show ?thesis
      by (auto simp: dial_claimed_def intro: claims_kept_trans [OF k1] dest: writeIdempotentCallError_kept)
  next
    case None
    let ?w2 = "w1\<lparr>wo_modem := cm_bind cm (ca_ID c) (wo_modem w1)\<rparr>"
    obtain y w3 where w3: "modem (cm_Dial cm peer) ?w2 = (y, w3)" by fastforce
    have "claims_kept w ?w2" using k1 by (simp add: claims_kept_def)
    then have k3: "claims_kept w (?m w3)"
      using claims_kept_trans modem_tables [OF w3] meantime_kept by blast
    show ?thesis
    proof (cases y)
      case (Inl e)
      with assms w1 None w3 have "writeIdempotentCallError sv d dial_operation req (FromModem e)
          (dial_refused sv cm (snd clocks) req c ev e (?m w3)) = (resp, w')"
        by (simp add: dial_claimed_def)
      from writeIdempotentCallError_kept [OF this] show ?thesis
        by (rule claims_kept_trans [OF claims_kept_trans [OF k3 dial_refused_kept]])
    next
      case (Inr u)
      obtain c2 ev2 z w4 where w4: "controller (MarkCellularReady (snd clocks) (ca_ID c)) (?m w3) = ((c2, ev2, z), w4)"
        by (metis surj_pair)
      have k4: "claims_kept w w4" using k3 controller_tables [OF w4] by (rule claims_kept_trans)
      show ?thesis
      proof (cases z)
        case (Some e)
        with assms w1 None w3 Inr w4 have "writeIdempotentCallError sv d dial_operation req (FromCall e)
            (ready_refused sv cm (snd clocks) c2 w4) = (resp, w')"
          by (simp add: dial_claimed_def)
        from writeIdempotentCallError_kept [OF this] show ?thesis
          by (rule claims_kept_trans [OF claims_kept_trans [OF k4 ready_refused_kept]])
      next
        case z: None
        obtain q w5 where w5: "persistCall sv (snd clocks) c2 ev2 w4 = (q, w5)" by fastforce
        have k5: "claims_kept w w5" using k4 persistCall_kept [OF w5] by (rule claims_kept_trans)
        from assms w1 None w3 Inr w4 z w5 show ?thesis
          by (auto simp: dial_claimed_def split: sum.splits intro: claims_kept_trans [OF k5] kept_intros
              dest: writeIdempotentError_kept completed_kept)
      qed
    qed
  qed
qed

lemma action_claimed_kept:
  assumes "action_claimed sv cm (meantime sv now steps) now2 action d req digit i w = (resp, w')"
  shows "claims_kept w w'"
proof -
  let ?m = "meantime sv now steps"
  have modem_then: "claims_kept x (?m y)" if "modem f x = (r, y)" for f x r y
    using modem_tables [OF that] meantime_kept by (rule claims_kept_trans)
  have a: "claims_kept w (snd (answer_effect cm ?m now2 req i w))"
    unfolding answer_effect_def
    by (auto split: prod.splits option.splits sum.splits dest!: controller_tables modem_then intro: claims_kept_trans)
  have h: "claims_kept w (snd (hangup_effect cm ?m now2 action req i w))"
    unfolding hangup_effect_def
    by (auto split: prod.splits option.splits dest!: controller_tables modem_then intro: claims_kept_trans)
  have t: "claims_kept w (snd (dtmf_effect cm ?m digit i w))"
    unfolding dtmf_effect_def
    by (auto split: prod.splits option.splits sum.splits dest!: modem_then intro: claims_kept_refl)
  obtain err ok ch w1 where e: "(if action = ''answer'' then answer_effect cm ?m now2 req i w
      else if action = ''dtmf'' then dtmf_effect cm ?m digit i w else hangup_effect cm ?m now2 action req i w) =
      ((err, ok, ch), w1)" by (metis surj_pair)
  have k1: "claims_kept w w1" using a h t e by (metis snd_conv)
  show ?thesis
  proof (cases err)
    case (Some x)
    let ?w2 = "if \<not> ok \<and> action \<noteq> ''dtmf'' then snd (controller (Rollback req i) w1) else w1"
    have "claims_kept w1 ?w2" by (simp add: kept_intros)
    with k1 have "claims_kept w (audit sv d (''call.'' @ action) i ''failed'' ?w2)"
      by (blast intro: claims_kept_trans quiet_kept)
    with assms e Some show ?thesis
      by (auto simp: action_claimed_def Let_def intro: claims_kept_trans dest: writeIdempotentCallError_kept)
  next
    case None
    obtain r w2 where p: "(case ch of None \<Rightarrow> (Inr 0, w1) | Some (c, ev) \<Rightarrow> persistCall sv now2 c ev w1) = (r, w2)" by fastforce
    then have k2: "claims_kept w w2"
      using k1 by (auto split: option.splits intro: claims_kept_trans dest: persistCall_kept)
    have k3: "claims_kept w (if b then closeWebRTC i w2 else w2)" for b
      using k2 by (auto intro: claims_kept_trans close_kept)
    from assms e None p show ?thesis
      by (auto simp: action_claimed_def Let_def split: sum.splits intro: claims_kept_trans [OF k2] claims_kept_trans [OF k3]
          kept_intros dest!: writeIdempotentError_kept completed_kept)
  qed
qed

text \<open>Both operations of the call API, on a gateway with a store, in the interface of a claimed operation.\<close>

abbreviation with_store :: "Server \<Rightarrow> Server" where
  "with_store sv \<equiv> sv\<lparr>sv_Database := True\<rparr>"

interpretation dialling: claimed_operation "with_store sv" "''CB-CALL-004''" deviceID dial_operation requestID
  "dial_claimed (with_store sv) cm (meantime (with_store sv) now steps) clocks deviceID requestID peer callID"
  for sv cm now steps clocks deviceID requestID peer callID
  by unfold_locales (simp_all add: dial_claimed_kept)

interpretation acting: claimed_operation "with_store sv" "''CB-CALL-004''" deviceID "''call.'' @ action" requestID
  "action_claimed (with_store sv) cm (meantime (with_store sv) now steps) now2 action deviceID requestID digit callID"
  for sv cm now steps now2 action deviceID requestID digit callID
  by unfold_locales (simp_all add: action_claimed_kept)

text \<open>A dial request behind its authorization and key is its checks and the claimed operation.\<close>

lemma dial_cases:
  assumes "authorize sv now r w = (Inr deviceID, w1)" and "idempotencyKey r = Inr requestID"
  obtains resp where "dial sv cm m now clocks decoded r w = (resp, w1)"
  | peer callID where "dial sv cm m now clocks decoded r w =
      claimed sv ''CB-CALL-004'' deviceID dial_operation requestID
        (dial_claimed sv cm m clocks deviceID requestID peer callID) w1"
proof (cases "\<exists>to0 call0. decoded = Some (to0, call0) \<and> sv_Voice sv \<and> trim_space to0 \<noteq> [] \<and>
    length (trim_space to0) \<le> 32 \<and> trim_space call0 \<noteq> [] \<and> \<not> IsEmergencyNumber (trim_space to0)")
  case True
  then obtain to0 call0 where "decoded = Some (to0, call0)" "sv_Voice sv" "trim_space to0 \<noteq> []"
    "length (trim_space to0) \<le> 32" "trim_space call0 \<noteq> []" "\<not> IsEmergencyNumber (trim_space to0)" by blast
  with assms that(2) [of "trim_space to0" "trim_space call0"] show thesis
    by (simp add: dial_def authorized_def keyed_def Let_def)
next
  case False
  with assms have "\<exists>resp. dial sv cm m now clocks decoded r w = (resp, w1)"
    by (cases decoded) (auto simp: dial_def authorized_def keyed_def Let_def)
  with that(1) show thesis by blast
qed

lemma untouched_refl: "untouched w w"
proof -
  have "wo_rec w\<lparr>rw_db := wo_db w\<rparr> = wo_rec w" by (cases "wo_rec w") simp
  then have "w = set_db (wo_tables w, snd (wo_db w)) w" by (cases w) (simp add: set_db_def)
  then show ?thesis unfolding untouched_def by blast
qed

lemma authorize_untouched: "authorize sv now r w = (x, w1) \<Longrightarrow> untouched w w1"
proof -
  assume a: "authorize sv now r w = (x, w1)"
  let ?op = "Authorize (db_token_store now) (sv_sha sv) (\<lambda>_. False) now
    (trim_space (trim_prefix (trim_space (rq_Authorization r)) ''Bearer ''))"
  obtain y w2 where s: "store ?op w = (y, w2)" by fastforce
  have "t' = t" if "?op (t, f) = (z, t', f')" for t f z t' f'
  proof -
    have q: "preserves (\<lambda>x. x = t) (LookupToken h k n)" for h k n
      unfolding LookupToken_def by (intro op_rules) (auto split: option.splits intro!: op_rules)
    show ?thesis using that preservesD [OF q]
      by (auto simp: Authorize_def db_token_store_def split: if_splits prod.splits sum.splits)
  qed
  then have "untouched w w2" by (rule store_untouched [OF s])
  with a s untouched_refl [of w] show ?thesis by (auto simp: authorize_def Let_def split: if_splits sum.splits)
qed

lemma untouched_trans: "untouched w w1 \<Longrightarrow> untouched w1 w2 \<Longrightarrow> untouched w w2"
  by (auto simp: untouched_def set_db_def)

lemma untouched_tables: "untouched w w' \<Longrightarrow> wo_tables w' = wo_tables w"
  by (auto simp: untouched_def)

text \<open>C2: a dial request is carried out at most once: if a request with this key did anything at all to the gateway, then
  every later request of the same device with the same key, whatever number it asks for and whatever the store went
  through in between, leaves tables, call controller and modem as they are.\<close>

theorem dial_once_per_key:
  fixes sv and w w1 w2 w3 :: "'m World"
  defines "gw \<equiv> with_store sv"
  assumes first: "dial gw cm (meantime gw now1 steps1) now1 clocks1 decoded1 r1 w = (resp1, w1)"
    and device1: "authorize gw now1 r1 w = (Inr deviceID, u1)" and key1: "idempotencyKey r1 = Inr requestID"
    and effect: "\<not> untouched w w1"
    and later: "db_steps (wo_tables w1) (wo_tables w2)"
    and second: "dial gw cm (meantime gw now2 steps2) now2 clocks2 decoded2 r2 w2 = (resp2, w3)"
    and device2: "authorize gw now2 r2 w2 = (Inr deviceID, u2)" and key2: "idempotencyKey r2 = Inr requestID"
  shows "untouched w2 w3"
proof -
  have claimed: "key_claimed (deviceID, dial_operation, requestID) (wo_tables w1)"
  proof (cases rule: dial_cases [OF device1 key1, of cm "meantime gw now1 steps1" clocks1 decoded1])
    case (1 resp)
    with first effect authorize_untouched [OF device1] show ?thesis by simp
  next
    case (2 peer callID)
    with first dialling.effect_claims [of sv deviceID requestID cm now1 steps1 clocks1 peer callID u1 resp1 w1]
    have "untouched u1 w1 \<or> ?thesis" by (simp add: gw_def)
    with effect untouched_trans [OF authorize_untouched [OF device1]] show ?thesis by blast
  qed
  with later have "key_claimed (deviceID, dial_operation, requestID) (wo_tables w2)"
    by (rule db_steps_preserve) (rule key_claimed_step)
  with untouched_tables [OF authorize_untouched [OF device2]]
  have spent: "key_claimed (deviceID, dial_operation, requestID) (wo_tables u2)" by simp
  have "untouched u2 w3"
  proof (cases rule: dial_cases [OF device2 key2, of cm "meantime gw now2 steps2" clocks2 decoded2])
    case (1 resp)
    with second untouched_refl [of u2] show ?thesis by simp
  next
    case (2 peer callID)
    have "sv_Database gw" by (simp add: gw_def)
    from claimed_spent [OF this spent] 2 second show ?thesis by (metis snd_conv)
  qed
  with authorize_untouched [OF device2] show ?thesis by (rule untouched_trans)
qed

section \<open>An example gateway\<close>

text \<open>A gateway without authentication whose modem keeps the list of what it was told.\<close>

definition sample_server :: Server where
  "sample_server = \<lparr>sv_GatewayID = ''g'', sv_Name = ''n'', sv_Version = ''1'', sv_Fingerprint = ''f'', sv_NetworkMode = [],
     sv_NetworkTransport = [], sv_TailnetHostname = [], sv_Auth = False, sv_Database = True, sv_Events = True,
     sv_Voice = True, sv_SMS = True, sv_Recordings = False, sv_sha = (\<lambda>_. []), sv_text = (\<lambda>_. ''error'')\<rparr>"

definition sample_gateway :: "string list World" where
  "sample_gateway = \<lparr>wo_rec = \<lparr>rw_db = (empty_tables, []), rw_manager = rw_manager (sample_world []),
       rw_disk = rw_disk (sample_world [])\<rparr>, wo_auth = NewService ''g'', wo_calls = NewController, wo_line = NewLine,
     wo_events = [], wo_media = [], wo_tasks = [], wo_lastSMSSend = [], wo_assembler = NewMultipartAssembler,
     wo_modem = []\<rparr>"

definition sample_modem :: "string list CallModem" where
  "sample_modem = \<lparr>cm_bind = (\<lambda>_ m. m), cm_Dial = (\<lambda>peer m. (Inr (), m @ [peer])), cm_Answer = (\<lambda>m. (Inr (), m @ [''answer''])),
     cm_Hangup = (\<lambda>m. (Inr (), m @ [''hangup''])), cm_DTMF = (\<lambda>_ m. (Inr (), m))\<rparr>"

definition sample_request :: "string \<Rightarrow> string \<Rightarrow> string \<Rightarrow> Request" where
  "sample_request verb path key = \<lparr>rq_Method = verb, rq_Path = path, rq_Query = [], rq_Authorization = [],
     rq_IdempotencyKey = key, rq_RemoteAddr = [], rq_Origin = [], rq_Host = []\<rparr>"

lemma sample_accepts [simp]:
  "authorize (with_store sample_server) now r w = (Inr [], w)"
  "idempotencyKey (sample_request verb path ''k'') = Inr ''k''"
  by (simp_all add: authorize_def sample_server_def idempotencyKey_def sample_request_def graphic_char_def Let_def)

lemma sample_text [simp]: "trim_space ''5'' = ''5''" "trim_space ''c'' = ''c''" "\<not> IsEmergencyNumber ''5''"
  by (simp_all add: graphic_char_def IsEmergencyNumber_def emergencyNumbers_def is_digit_def has_prefix_def Let_def)

lemmas gateway_run = set_active_def NewLine_def controller_def modem_def store_def set_db_def persistCall_def publish_event_def
  completed_def audit_def AppendAudit_def claimed_def claimed_with_def claimIdempotency_def ClaimIdempotency_def
  insert_claim_def CompleteIdempotency_def SaveCall_def upsert_call_def transaction_def then_do_def driver_def
  appendSyncLog_def log_change_def require_rows_def give_def update_rows_def sample_gateway_def sample_modem_def
  sample_server_def empty_tables_def call_record_def NewController_def

lemma sample_dial:
  "\<exists>resp w1. dial (with_store sample_server) sample_modem (meantime (with_store sample_server) 1 []) 1 (1, 2)
       (Some (''5'', ''c'')) (sample_request ''POST'' ''/'' ''k'') sample_gateway = (resp, w1) \<and> wo_modem w1 = [''5'']"
  unfolding dial_def authorized_def keyed_def sample_accepts
  by (simp add: dial_claimed_def dial_operation_def Dial_def MarkCellularReady_def mutate_def cellular_change_def
      connect_if_def zero_call_def meantime_def gateway_run Let_def)

theorem dial_once_per_key_witness:
  "\<exists>resp w1. dial (with_store sample_server) sample_modem (meantime (with_store sample_server) 1 []) 1 (1, 2)
       (Some (''5'', ''c'')) (sample_request ''POST'' ''/'' ''k'') sample_gateway = (resp, w1) \<and> wo_modem w1 = [''5''] \<and>
     untouched w1 (snd (dial (with_store sample_server) sample_modem (meantime (with_store sample_server) 3 []) 3 (3, 4)
       (Some (''6'', ''d'')) (sample_request ''POST'' ''/'' ''k'') w1))"
proof -
  from sample_dial obtain resp w1 where run: "dial (with_store sample_server) sample_modem
      (meantime (with_store sample_server) 1 []) 1 (1, 2) (Some (''5'', ''c'')) (sample_request ''POST'' ''/'' ''k'')
      sample_gateway = (resp, w1)" and modem: "wo_modem w1 = [''5'']" by blast
  have "\<not> untouched sample_gateway w1"
    using modem by (auto simp: untouched_def set_db_def sample_gateway_def)
  from dial_once_per_key [OF run sample_accepts this db_steps_refl prod.collapse [symmetric] sample_accepts] run modem
  show ?thesis by blast
qed

end
