(* ===== verification/Api_Recordings.thy ===== *)
theory Api_Recordings
  imports Api_Calls
begin

text \<open>
  The handlers of \<^verbatim>\<open>gateway/internal/api/server.go\<close> that concern recordings: starting and stopping the recording of a
  call, the list, one recording and its two files, the settings. The peaks of a stored waveform file are what the
  parameter \<open>read_peaks\<close> makes of its bytes; \<^verbatim>\<open>http.ServeContent\<close> is the plain answer with the whole file.
\<close>

section \<open>The JSON of a recording\<close>

definition optional_time :: "string \<Rightarrow> timestamp option \<Rightarrow> (string \<times> json) list" where
  "optional_time name t = optional_int name (map_option int t)"

definition optional_nat :: "string \<Rightarrow> nat \<Rightarrow> (string \<times> json) list" where
  "optional_nat name n = (if n = 0 then [] else [(name, JInt (int n))])"

definition recordingResponseFromDB :: "Server \<Rightarrow> (byte list \<Rightarrow> json list option) \<Rightarrow> 'm World \<Rightarrow> Recording \<Rightarrow> json" where
  "recordingResponseFromDB sv read_peaks w r =
     (let peaks = (if rc_WaveformPath r = [] then []
                   else case file_at (rc_WaveformPath r) (wo_rec w) of
                          None \<Rightarrow> []
                        | Some content \<Rightarrow> (case read_peaks content of None \<Rightarrow> [] | Some ps \<Rightarrow> ps))
      in JObject
        ([(''id'', JString (rc_ID r)), (''gatewayID'', JString (fst (routeMetadata sv))),
          (''lineID'', JString (snd (routeMetadata sv))), (''callId'', JString (rc_CallID r)),
          (''state'', JString (rc_State r)), (''triggerMode'', JString (rc_TriggerMode r))] @
         optional_time ''startedAt'' (rc_StartedAt r) @ optional_time ''stoppedAt'' (rc_StoppedAt r) @
         optional_int ''durationMs'' (rc_DurationMs r) @ optional_string ''container'' (rc_Container r) @
         optional_string ''codec'' (rc_Codec r) @ optional_nat ''sampleRate'' (rc_SampleRate r) @
         optional_nat ''channels'' (rc_Channels r) @ optional_nat ''bitrate'' (rc_Bitrate r) @
         optional_int ''sizeBytes'' (rc_SizeBytes r) @ optional_string ''sha256'' (rc_SHA256 r) @
         optional_string ''waveformVersion'' (if rc_WaveformPath r = [] then [] else ''v1'') @
         optional_string ''failureCode'' (rc_FailureCode r) @ optional_string ''failureDetail'' (rc_FailureDetail r) @
         optional_time ''retentionExpiresAt'' (rc_RetentionExpiresAt r) @
         (if peaks = [] then [] else [(''waveformPeaks'', JArray peaks)])))"

section \<open>Starting and stopping\<close>

text \<open>The parameters of a start: month directory, fresh id, two clocks, and whether the request was cancelled.\<close>

type_synonym start_args = "(timestamp \<Rightarrow> string) \<times> string \<times> (timestamp \<times> timestamp) \<times> bool"

definition start_failure :: "rec_error \<Rightarrow> nat \<times> string" where
  "start_failure e =
     (if e = LowStorage then (507, ''CB-REC-005'') else if e = RecordingDisabled then (409, ''CB-REC-015'')
      else (502, ''CB-REC-004''))"

definition recording_answer ::
  "Server \<Rightarrow> (byte list \<Rightarrow> json list option) \<Rightarrow> string \<Rightarrow> string \<Rightarrow> string \<Rightarrow> nat \<Rightarrow> Recording \<Rightarrow> 'm handler" where
  "recording_answer sv read_peaks deviceID operation requestID status r w =
     completed sv ''CB-REC-001'' deviceID operation requestID status
       (json_marshal (recordingResponseFromDB sv read_peaks w r))
       (\<lambda>w1. audit sv deviceID operation (rc_ID r) ''accepted'' w1) w"

definition start_recording ::
  "Server \<Rightarrow> start_args \<Rightarrow> (byte list \<Rightarrow> json list option) \<Rightarrow> string \<Rightarrow> string \<Rightarrow> string \<Rightarrow> CallRecord \<Rightarrow> 'm handler" where
  "start_recording sv args read_peaks deviceID operation requestID current w =
     (case args of (month_dir, fresh, clocks, cancelled) \<Rightarrow>
        if cl_State current \<noteq> ''active''
        then writeIdempotentError sv deviceID operation requestID 409 ''CB-REC-003'' ''recording requires an active call'' w
        else (case recorder (rec_Start month_dir fresh clocks cancelled
                 \<lparr>cm_ID = cl_ID current, cm_Direction = cl_Direction current, cm_Peer = cl_Peer current,
                  cm_StartedAt = cl_StartedAt current\<rparr> ''manual'' deviceID) w of
                (Inl e, w1) \<Rightarrow>
                  writeIdempotentError sv deviceID operation requestID (fst (start_failure e)) (snd (start_failure e))
                    (sv_text sv (FromRec e)) w1
              | (Inr stored, w1) \<Rightarrow> recording_answer sv read_peaks deviceID operation requestID 201 stored w1))"

definition stop_manually ::
  "Server \<Rightarrow> timestamp \<Rightarrow> (byte list \<Rightarrow> json list option) \<Rightarrow> string \<Rightarrow> string \<Rightarrow> string \<Rightarrow> string \<Rightarrow> 'm handler" where
  "stop_manually sv now read_peaks deviceID operation requestID callID w =
     (case recorder (rec_Stop now callID) w of
        (res, w1) \<Rightarrow>
          if res \<noteq> Inl RecNotActive \<and> isl res
          then writeIdempotentError sv deviceID operation requestID 502 ''CB-REC-006'' (sv_text sv (FromRec (projl res))) w1
          else
            let w2 = (case res of Inr task \<Rightarrow> w1\<lparr>wo_tasks := wo_tasks w1 @ [task]\<rparr> | Inl _ \<Rightarrow> w1)
            in (case store (GetRecordingByCall callID) w2 of
                  (Inl _, w3) \<Rightarrow>
                    writeIdempotentError sv deviceID operation requestID 404 ''CB-REC-007'' ''recording not found'' w3
                | (Inr stored, w3) \<Rightarrow> recording_answer sv read_peaks deviceID operation requestID 202 stored w3))"

definition callRecordingAction ::
  "Server \<Rightarrow> start_args \<Rightarrow> timestamp \<Rightarrow> (byte list \<Rightarrow> json list option) \<Rightarrow> timestamp \<Rightarrow> Request \<Rightarrow> string \<Rightarrow> string \<Rightarrow>
   'm handler" where
  "callRecordingAction sv args now2 read_peaks now r callID action = authorized sv now r (\<lambda>deviceID w.
     if \<not> sv_Recordings sv \<or> \<not> sv_Database sv then (writeError 503 ''CB-REC-000'' ''recording service unavailable'', w)
     else
       let operation = ''recording.'' @ action
       in keyed r (\<lambda>requestID. claimed sv ''CB-REC-001'' deviceID operation requestID (\<lambda>w1.
            case store (GetCall callID) w1 of
              (Inl e, w2) \<Rightarrow>
                let (status, code) = (if e = NoRows then (404, ''CB-CALL-006'') else (500, ''CB-REC-002''))
                in writeIdempotentError sv deviceID operation requestID status code ''call not found'' w2
            | (Inr current, w2) \<Rightarrow>
                if action = ''start''
                then start_recording sv args read_peaks deviceID operation requestID current w2
                else stop_manually sv now2 read_peaks deviceID operation requestID callID w2)) w)"

section \<open>Listing\<close>

text \<open>A bound of the listing: absent, milliseconds since the epoch, or the error; a clock before 1970 is \<open>0\<close> here.\<close>

definition time_filter :: "Request \<Rightarrow> string \<Rightarrow> (string, timestamp option) result" where
  "time_filter r name =
     (let value = trim_space (query_value r name)
      in if value = [] then Inr None
         else (case atoi value of None \<Rightarrow> Inl (name @ '' must be Unix milliseconds'') | Some ms \<Rightarrow> Inr (Some (nat ms))))"

definition recordingTimeFilters :: "Request \<Rightarrow> (string, timestamp option \<times> timestamp option) result" where
  "recordingTimeFilters r =
     (case time_filter r ''from'' of
        Inl e \<Rightarrow> Inl e
      | Inr since \<Rightarrow> (case time_filter r ''to'' of Inl e \<Rightarrow> Inl e | Inr till \<Rightarrow> Inr (since, till)))"

definition recordings ::
  "Server \<Rightarrow> (byte list \<Rightarrow> json list option) \<Rightarrow> timestamp \<Rightarrow> Request \<Rightarrow> 'm handler" where
  "recordings sv read_peaks now r w0 =
     (if rq_Method r \<noteq> ''GET'' then (writeError 405 ''CB-API-001'' ''method not allowed'', w0)
      else authorized sv now r (\<lambda>_ w.
        if \<not> sv_Recordings sv then (writeError 503 ''CB-REC-000'' ''recording service unavailable'', w)
        else (case pagination r of
                Inl message \<Rightarrow> (writeError 400 ''CB-REC-001'' message, w)
              | Inr (after, limit) \<Rightarrow>
                  (case recordingTimeFilters r of
                     Inl message \<Rightarrow> (writeError 400 ''CB-REC-001'' message, w)
                   | Inr (since, till) \<Rightarrow>
                       (case store (ListRecordings after limit (query_value r ''direction'')
                               (trim_space (query_value r ''query'')) since till) w of
                          (Inl e, w1) \<Rightarrow> (writeError 400 ''CB-REC-001'' (sv_text sv (FromDb e)), w1)
                        | (Inr items, w1) \<Rightarrow>
                            (writeJSON 200 (JArray (map (recordingResponseFromDB sv read_peaks w1) items)), w1))))) w0)"

section \<open>One recording\<close>

definition text_of_bytes :: "byte list \<Rightarrow> string" where
  "text_of_bytes bs = map (\<lambda>b. char_of (unat b)) bs"

definition serveRecordingAsset :: "Server \<Rightarrow> (string \<Rightarrow> string option) \<Rightarrow> string \<Rightarrow> string \<Rightarrow> 'm handler" where
  "serveRecordingAsset sv safePath recordingID asset w =
     (let op = (if asset = ''audio'' then rec_AudioPath safePath recordingID else rec_WaveformPath safePath recordingID)
      in (case recorder op w of
            (Inl e, w1) \<Rightarrow>
              if e = RecDb NoRows \<or> e = NotExist then (writeError 404 ''CB-REC-007'' ''recording asset not found'', w1)
              else (writeError 500 ''CB-REC-001'' (sv_text sv (FromRec e)), w1)
          | (Inr path, w1) \<Rightarrow>
              (case file_at path (wo_rec w1) of
                 None \<Rightarrow> (writeError 404 ''CB-REC-007'' ''recording asset not found'', w1)
               | Some content \<Rightarrow> (writeRawJSON 200 (text_of_bytes content), w1))))"

definition recordingAction ::
  "Server \<Rightarrow> (string \<Rightarrow> string option) \<Rightarrow> timestamp \<Rightarrow> (byte list \<Rightarrow> json list option) \<Rightarrow> timestamp \<Rightarrow> Request \<Rightarrow>
   'm handler" where
  "recordingAction sv safePath now2 read_peaks now r = authorized sv now r (\<lambda>deviceID w.
     if \<not> sv_Recordings sv \<or> \<not> sv_Database sv then (writeError 503 ''CB-REC-000'' ''recording service unavailable'', w)
     else
       let parts = path_parts ''/api/v1/recordings/'' r
       in if length parts = 2 \<and> rq_Method r = ''GET'' \<and> (parts ! 1 = ''audio'' \<or> parts ! 1 = ''waveform'')
          then serveRecordingAsset sv safePath (hd parts) (parts ! 1) w
          else if length parts \<noteq> 1 then (writeError 404 ''CB-REC-007'' ''recording not found'', w)
          else
            let recordingID = hd parts
            in if rq_Method r = ''GET'' then
                 (case store (GetRecording recordingID) w of
                    (Inl e, w1) \<Rightarrow>
                      ((if e = NoRows then writeError 404 ''CB-REC-007'' ''recording not found''
                        else writeError 500 ''CB-REC-001'' (sv_text sv (FromDb e))), w1)
                  | (Inr stored, w1) \<Rightarrow> (writeJSON 200 (recordingResponseFromDB sv read_peaks w1 stored), w1))
               else if rq_Method r \<noteq> ''DELETE'' then (writeError 405 ''CB-API-001'' ''method not allowed'', w)
               else keyed r (\<lambda>requestID. claimed sv ''CB-REC-001'' deviceID ''recording.delete'' requestID (\<lambda>w1.
                 case recorder (rec_Delete now2 recordingID) w1 of
                   (Inl e, w2) \<Rightarrow>
                     let (status, code) = (if e = NoRows then (404, ''CB-REC-007'') else (502, ''CB-REC-008''))
                     in writeIdempotentError sv deviceID ''recording.delete'' requestID status code
                          (sv_text sv (FromDb e)) w2
                 | (Inr _, w2) \<Rightarrow>
                     completed sv ''CB-REC-001'' deviceID ''recording.delete'' requestID 204 []
                       (\<lambda>w3. audit sv deviceID ''recording.delete'' recordingID ''accepted'' w3) w2)) w)"

section \<open>Settings\<close>

text \<open>The body of an update: every field may be absent.\<close>

record SettingsRequest =
  sr_Enabled :: "bool option"
  sr_AutoMode :: "string option"
  sr_RetentionDays :: "int option"
  sr_MinimumFreeBytes :: "int option"

definition apply_settings :: "SettingsRequest \<Rightarrow> RecordingSettings \<Rightarrow> RecordingSettings" where
  "apply_settings q s = s\<lparr>
     st_Enabled := (case sr_Enabled q of None \<Rightarrow> st_Enabled s | Some v \<Rightarrow> v),
     st_AutoMode := (case sr_AutoMode q of None \<Rightarrow> st_AutoMode s | Some v \<Rightarrow> trim_space v),
     st_RetentionDays := (case sr_RetentionDays q of None \<Rightarrow> st_RetentionDays s | Some v \<Rightarrow> v),
     st_MinimumFreeBytes := (case sr_MinimumFreeBytes q of None \<Rightarrow> st_MinimumFreeBytes s | Some v \<Rightarrow> v)\<rparr>"

text \<open>\<^verbatim>\<open>filepath.Walk\<close> over the regular files below the root; a failing call of the operating system ends it.\<close>

definition UsedBytes :: "RecWorld \<Rightarrow> (rec_error, int) result \<times> RecWorld" where
  "UsedBytes w =
     (let root = mg_root (rw_manager w)
      in case os_call (\<lambda>d. d) w of
           (False, w1) \<Rightarrow> (Inl OsFailure, w1)
         | (True, w1) \<Rightarrow>
             (Inr (\<Sum>(path, content) \<leftarrow> filter (\<lambda>(path, _). has_prefix path (path_join root [])) (dk_files (rw_disk w)).
                int (length content)), w1))"

definition settings_json :: "RecordingSettings \<Rightarrow> int \<Rightarrow> json" where
  "settings_json s usedBytes = JObject
     [(''enabled'', JBool (st_Enabled s)), (''autoMode'', JString (st_AutoMode s)),
      (''retentionDays'', JInt (st_RetentionDays s)), (''minimumFreeBytes'', JInt (st_MinimumFreeBytes s)),
      (''usedBytes'', JInt usedBytes)]"

definition answer_settings :: "Server \<Rightarrow> RecordingSettings \<Rightarrow> 'm handler" where
  "answer_settings sv settings w =
     (case recorder UsedBytes w of
        (Inl e, w1) \<Rightarrow> (writeError 500 ''CB-REC-011'' (sv_text sv (FromRec e)), w1)
      | (Inr usedBytes, w1) \<Rightarrow> (writeJSON 200 (settings_json settings usedBytes), w1))"

definition recordingSettings ::
  "Server \<Rightarrow> timestamp \<Rightarrow> SettingsRequest option \<Rightarrow> timestamp \<Rightarrow> Request \<Rightarrow> 'm handler" where
  "recordingSettings sv now2 decoded now r w0 =
     (if rq_Method r \<noteq> ''GET'' \<and> rq_Method r \<noteq> ''PUT'' then (writeError 405 ''CB-API-001'' ''method not allowed'', w0)
      else authorized sv now r (\<lambda>deviceID w.
        if \<not> sv_Recordings sv then (writeError 503 ''CB-REC-000'' ''recording service unavailable'', w)
        else (case recorder Settings w of
                (Inl e, w1) \<Rightarrow> (writeError 500 ''CB-REC-011'' (sv_text sv (FromDb e)), w1)
              | (Inr settings, w1) \<Rightarrow>
                  if rq_Method r \<noteq> ''PUT'' then answer_settings sv settings w1
                  else (case decoded of
                          None \<Rightarrow> (writeError 400 ''CB-REC-012'' ''invalid recording settings JSON'', w1)
                        | Some q \<Rightarrow>
                            let changed = apply_settings q settings
                            in (case recorder (UpdateSettings now2 changed) w1 of
                                  (Inl e, w2) \<Rightarrow>
                                    ((if e = AutomaticRecordingDisabled
                                      then writeError 409 ''CB-REC-013'' (sv_text sv (FromRec e))
                                      else writeError 400 ''CB-REC-014'' (sv_text sv (FromRec e))), w2)
                                | (Inr _, w2) \<Rightarrow>
                                    answer_settings sv changed
                                      (audit sv deviceID ''recording.settings.update'' ''recording'' ''accepted'' w2))))) w0)"

end
