(* ===== verification/Media_Session.thy ===== *)
theory Media_Session
  imports Gateway_Prelude
begin

text \<open>
  \<^verbatim>\<open>gateway/internal/webrtc/engine.go\<close>: the session a call's audio travels through. The peer connection is pion's and a
  parameter: what it makes of a description, of a candidate search, of a packet. What is here is which relays a
  session may use, the RTP header of every frame sent, and which received packets reach the voice bridge.
\<close>

section \<open>Transports\<close>

definition TransportTailnet :: string where "TransportTailnet = ''tailnet''"

definition TransportRemote :: string where "TransportRemote = ''remote''"

definition TransportPocket :: string where "TransportPocket = ''pocket''"

datatype ICETransportPolicy = PolicyAll | PolicyRelay

definition session_policy :: "string \<Rightarrow> ICETransportPolicy" where
  "session_policy transport =
     (if transport = TransportRemote \<or> transport = TransportTailnet then PolicyRelay else PolicyAll)"

definition answer_mode :: "string \<Rightarrow> string" where
  "answer_mode transport =
     (if transport = TransportRemote \<or> transport = TransportTailnet then ''relay'' else ''all'')"

section \<open>Sessions\<close>

record IceServer =
  ic_URLs :: "string list"
  ic_Username :: string
  ic_Credential :: string

text \<open>What the code asks of pion for one peer connection; an error is its text.\<close>

record Pion =
  pi_NewPeerConnection :: "ICETransportPolicy \<Rightarrow> IceServer list \<Rightarrow> (string, unit) result"
  pi_AddTrack :: "(string, unit) result"
  pi_SetRemoteDescription :: "string \<Rightarrow> (string, unit) result"
  pi_CreateAnswer :: "(string, string) result"
  pi_SetLocalDescription :: "string \<Rightarrow> (string, unit) result"
  pi_gathered :: bool
  pi_LocalDescription :: "string option"

record MediaSession =
  md_policy :: ICETransportPolicy
  md_servers :: "IceServer list"
  md_ssrc :: "32 word"
  md_sequence :: "16 word"
  md_timestamp :: "32 word"

definition NewSession :: "Pion \<Rightarrow> byte list option \<Rightarrow> string \<Rightarrow> IceServer list \<Rightarrow> (string, MediaSession) result" where
  "NewSession pion random transport turnServers =
     (let policy = session_policy transport
      in case pi_NewPeerConnection pion policy turnServers of
           Inl e \<Rightarrow> Inl (''create PeerConnection: '' @ e)
         | Inr _ \<Rightarrow>
             (case pi_AddTrack pion of
                Inl e \<Rightarrow> Inl (''add PCMU track: '' @ e)
              | Inr _ \<Rightarrow>
                  (case random of
                     None \<Rightarrow> Inl ''generate audio SSRC''
                   | Some bs \<Rightarrow>
                       Inr \<lparr>md_policy = policy, md_servers = turnServers,
                         md_ssrc = word_of_nat (unat (bs ! 0) * 16777216 + unat (bs ! 1) * 65536 + unat (bs ! 2) * 256 + unat (bs ! 3)),
                         md_sequence = 0, md_timestamp = 0\<rparr>)))"

section \<open>Frames\<close>

record Packet =
  pk_PayloadType :: nat
  pk_SequenceNumber :: "16 word"
  pk_Timestamp :: "32 word"
  pk_SSRC :: "32 word"
  pk_Payload :: "byte list"

definition WritePCMU :: "byte list \<Rightarrow> MediaSession \<Rightarrow> Packet option \<times> MediaSession" where
  "WritePCMU frame s =
     (if length frame \<noteq> 160 then (None, s)
      else (Some \<lparr>pk_PayloadType = 0, pk_SequenceNumber = md_sequence s, pk_Timestamp = md_timestamp s,
              pk_SSRC = md_ssrc s, pk_Payload = frame\<rparr>,
            s\<lparr>md_sequence := md_sequence s + 1, md_timestamp := md_timestamp s + 160\<rparr>))"

fun write_frames :: "byte list list \<Rightarrow> MediaSession \<Rightarrow> Packet list \<times> MediaSession" where
  "write_frames [] s = ([], s)"
| "write_frames (f # fs) s =
     (case WritePCMU f s of (p, s1) \<Rightarrow> (case write_frames fs s1 of (ps, s2) \<Rightarrow>
        ((case p of None \<Rightarrow> ps | Some q \<Rightarrow> q # ps), s2)))"

text \<open>The frames of one remote track that are handed to the bridge, in order.\<close>

definition readRemoteTrack :: "Packet list \<Rightarrow> byte list list" where
  "readRemoteTrack packets = map pk_Payload (filter (\<lambda>p. pk_PayloadType p = 0 \<and> pk_Payload p \<noteq> []) packets)"

section \<open>Answers\<close>

record SDPAnswer =
  aw_SDP :: string
  aw_Type :: string
  aw_ICEMode :: string

definition CreateAnswer :: "Pion \<Rightarrow> string \<Rightarrow> string \<Rightarrow> (string, SDPAnswer) result" where
  "CreateAnswer pion offerSDP transport =
     (if offerSDP = [] then Inl ''empty WebRTC offer''
      else (case pi_SetRemoteDescription pion offerSDP of
              Inl e \<Rightarrow> Inl (''set remote description: '' @ e)
            | Inr _ \<Rightarrow>
                (case pi_CreateAnswer pion of
                   Inl e \<Rightarrow> Inl (''create WebRTC answer: '' @ e)
                 | Inr answer \<Rightarrow>
                     (case pi_SetLocalDescription pion answer of
                        Inl e \<Rightarrow> Inl (''set local description: '' @ e)
                      | Inr _ \<Rightarrow>
                          if \<not> pi_gathered pion then Inl ''context canceled''
                          else (case pi_LocalDescription pion of
                                  None \<Rightarrow> Inl ''missing local description''
                                | Some sdp \<Rightarrow> Inr \<lparr>aw_SDP = sdp, aw_Type = ''answer'', aw_ICEMode = answer_mode transport\<rparr>)))))"

section \<open>The stream of packets\<close>

lemma write_frames_packets:
  "fst (write_frames fs s) =
     map (\<lambda>(i, f). \<lparr>pk_PayloadType = 0, pk_SequenceNumber = md_sequence s + of_nat i,
            pk_Timestamp = md_timestamp s + 160 * of_nat i, pk_SSRC = md_ssrc s, pk_Payload = f\<rparr>)
       (enumerate 0 (filter (\<lambda>f. length f = 160) fs))"
proof (induction fs arbitrary: s)
  case (Cons f fs)
  have shift: "enumerate (Suc 0) xs = map (\<lambda>(i, x). (Suc i, x)) (enumerate 0 xs)" for xs :: "byte list list"
    by (rule nth_equalityI) (simp_all add: nth_enumerate_eq)
  show ?case
    using Cons.IH
    by (simp add: WritePCMU_def shift case_prod_beta comp_def distrib_left add.assoc)
qed simp

lemma sequence_numbers_distinct: "inj_on (\<lambda>i. q + of_nat i :: 16 word) {..<65536::nat}"
proof (rule inj_onI)
  fix x y :: nat assume "x \<in> {..<65536}" "y \<in> {..<65536}" and eq: "q + of_nat x = (q + of_nat y :: 16 word)"
  from eq have "(of_nat x :: 16 word) = of_nat y" by simp
  then have "take_bit 16 x = take_bit 16 y" by (simp add: word_of_nat_eq_iff)
  with \<open>x \<in> {..<65536}\<close> \<open>y \<in> {..<65536}\<close> show "x = y" by (simp add: take_bit_nat_def)
qed

lemma map_enumerate: "map (\<lambda>(i, x). g i) (enumerate 0 xs) = map g [0..<length xs]"
  by (rule nth_equalityI) (simp_all add: nth_enumerate_eq)

text \<open>C34: what one side sends, the other side hears: a session's packets carry the frames of 160 bytes in their order,
  numbered from the session's sequence number on, 160 samples apart, and a receiver that gets them all hands over
  exactly these frames. The numbers wrap as RTP has them, so any 65536 packets in a row have different numbers.\<close>

theorem session_carries_frames:
  defines "good fs \<equiv> filter (\<lambda>f. length f = 160) fs"
  shows "readRemoteTrack (fst (write_frames fs s)) = good fs \<and>
    map pk_SequenceNumber (fst (write_frames fs s)) = map (\<lambda>i. md_sequence s + of_nat i) [0..<length (good fs)] \<and>
    map pk_Timestamp (fst (write_frames fs s)) = map (\<lambda>i. md_timestamp s + 160 * of_nat i) [0..<length (good fs)] \<and>
    distinct (take 65536 (map pk_SequenceNumber (fst (write_frames fs s))))"
proof -
  let ?ps = "fst (write_frames fs s)"
  have packets: "?ps = map (\<lambda>(i, f). \<lparr>pk_PayloadType = 0, pk_SequenceNumber = md_sequence s + of_nat i,
      pk_Timestamp = md_timestamp s + 160 * of_nat i, pk_SSRC = md_ssrc s, pk_Payload = f\<rparr>) (enumerate 0 (good fs))"
    by (simp add: write_frames_packets good_def)
  have seqs: "map pk_SequenceNumber ?ps = map (\<lambda>i. md_sequence s + of_nat i) [0..<length (good fs)]"
    unfolding packets by (simp add: comp_def case_prod_beta flip: map_enumerate)
  have stamps: "map pk_Timestamp ?ps = map (\<lambda>i. md_timestamp s + 160 * of_nat i) [0..<length (good fs)]"
    unfolding packets by (simp add: comp_def case_prod_beta flip: map_enumerate)
  have payload: "map pk_Payload ?ps = good fs"
    unfolding packets by (simp add: comp_def case_prod_beta)
  have "filter (\<lambda>p. pk_PayloadType p = 0 \<and> pk_Payload p \<noteq> []) ?ps = ?ps"
  proof (rule filter_True, rule ballI)
    fix p assume "p \<in> set ?ps"
    then have "pk_PayloadType p = 0" by (auto simp: packets)
    moreover have "pk_Payload p \<in> set (good fs)" using \<open>p \<in> set ?ps\<close> by (simp flip: payload)
    ultimately show "pk_PayloadType p = 0 \<and> pk_Payload p \<noteq> []" by (auto simp: good_def)
  qed
  with payload have heard: "readRemoteTrack ?ps = good fs" by (simp add: readRemoteTrack_def)
  have "inj_on (\<lambda>i. md_sequence s + of_nat i) (set (take 65536 [0..<length (good fs)]))"
    by (rule inj_on_subset [OF sequence_numbers_distinct]) (auto simp: take_upt in_set_conv_nth)
  then have "distinct (take 65536 (map pk_SequenceNumber ?ps))"
    by (simp add: seqs take_map distinct_map)
  with heard seqs stamps show ?thesis by simp
qed

end
