(* ===== verification/Api_Media.thy ===== *)
theory Api_Media
  imports Api_Recordings Media_Session
begin

text \<open>
  The handlers of \<^verbatim>\<open>gateway/internal/api/server.go\<close> that concern the audio of a call: the private TURN server and its
  credentials, the description handed to a client, the offer of a session, and what of a description is written to the
  log. HMAC-SHA1, the name service and the text of a date are parameters, the peer connection is \<open>Pion\<close>.
\<close>

section \<open>The private TURN server\<close>

text \<open>Durations are milliseconds.\<close>

record PrivateTURNConfig =
  pt_Enabled :: bool
  pt_Host :: string
  pt_Port :: int
  pt_CredentialTTL :: int
  pt_Secret :: "byte list"

record Network =
  nw_hmac_sha1 :: "byte list \<Rightarrow> string \<Rightarrow> byte list"
  nw_LookupIP :: "string \<Rightarrow> byte list list option"
  nw_rfc3339 :: "timestamp \<Rightarrow> string"

definition turn_ready :: "Server \<Rightarrow> PrivateTURNConfig \<Rightarrow> bool" where
  "turn_ready sv cfg \<longleftrightarrow>
     sv_NetworkMode sv = ''tailnet'' \<and> pt_Enabled cfg \<and> trim_space (pt_Host cfg) \<noteq> [] \<and> pt_Secret cfg \<noteq> []"

definition turn_urls :: "string \<Rightarrow> int \<Rightarrow> string list" where
  "turn_urls host port =
     [''turn:'' @ host @ '':'' @ itoa port @ ''?transport=udp'', ''turn:'' @ host @ '':'' @ itoa port @ ''?transport=tcp'']"

definition ipv4_text :: "byte list \<Rightarrow> string" where
  "ipv4_text ip = dotted (unat (ip ! 0)) (unat (ip ! 1)) (unat (ip ! 2)) (unat (ip ! 3))"

definition resolved_urls :: "string \<Rightarrow> int \<Rightarrow> byte list list \<Rightarrow> string list" where
  "resolved_urls host port addresses = concat (map (\<lambda>ip.
     case to4 ip of None \<Rightarrow> [] | Some v4 \<Rightarrow> if ipv4_text v4 = host then [] else turn_urls (ipv4_text v4) port) addresses)"

definition privateTURNServer ::
  "Server \<Rightarrow> PrivateTURNConfig \<Rightarrow> Network \<Rightarrow> timestamp \<Rightarrow> string \<Rightarrow> (IceServer \<times> timestamp) option" where
  "privateTURNServer sv cfg net now subject =
     (if \<not> turn_ready sv cfg then None
      else
        let ttl = (if pt_CredentialTTL cfg \<le> 0 then 600000 else pt_CredentialTTL cfg);
            port = (if pt_Port cfg \<le> 0 then 3478 else pt_Port cfg);
            expiresAt = nat (int now + ttl);
            username = itoa (int (expiresAt div 1000)) @ '':'' @ trim_space subject;
            host = trim_space (pt_Host cfg)
        in Some (\<lparr>ic_URLs = turn_urls host port @
                     (case nw_LookupIP net host of None \<Rightarrow> [] | Some ips \<Rightarrow> resolved_urls host port ips),
                   ic_Username = username,
                   ic_Credential = base64_encode (nw_hmac_sha1 net (pt_Secret cfg) username)\<rparr>, expiresAt))"

definition ice_json :: "Network \<Rightarrow> IceServer \<Rightarrow> timestamp \<Rightarrow> json" where
  "ice_json net server expiresAt = JObject
     [(''expiresAt'', JString (nw_rfc3339 net expiresAt)),
      (''iceServers'', JArray [JObject [(''urls'', JArray (map JString (ic_URLs server))),
         (''username'', JString (ic_Username server)), (''credential'', JString (ic_Credential server))]]),
      (''policy'', JString ''tailnet-turn'')]"

definition turn_missing :: Response where
  "turn_missing = writeError 503 ''CB-WEBRTC-008'' ''private tailnet TURN is not configured''"

definition callICE ::
  "Server \<Rightarrow> PrivateTURNConfig \<Rightarrow> Network \<Rightarrow> timestamp \<Rightarrow> string \<Rightarrow> string \<Rightarrow> 'm handler" where
  "callICE sv cfg net now callID deviceID w =
     (if trim_space callID = [] \<or> \<not> sv_Database sv then (writeError 404 ''CB-CALL-006'' ''call not found'', w)
      else (case store (GetCall callID) w of
              (Inl e, w1) \<Rightarrow>
                ((if e = NoRows then writeError 404 ''CB-CALL-006'' ''call not found''
                  else writeError 500 ''CB-WEBRTC-000'' (sv_text sv (FromDb e))), w1)
            | (Inr _, w1) \<Rightarrow>
                ((case privateTURNServer sv cfg net now deviceID of
                    None \<Rightarrow> turn_missing
                  | Some (server, expiresAt) \<Rightarrow> writeJSON 200 (ice_json net server expiresAt)), w1)))"

section \<open>What is logged of a description\<close>

definition kept_prefixes :: "string list" where
  "kept_prefixes = [''m='', ''a=group:'', ''a=mid:'', ''a=send'', ''a=recv'', ''a=inactive'', ''a=rtcp-mux'', ''a=rtpmap:'',
     ''a=fmtp:'', ''a=setup:'', ''a=ice-options:'', ''a=end-of-candidates'']"

definition secret_prefixes :: "string list" where
  "secret_prefixes = [''a=candidate:'', ''a=ice-ufrag:'', ''a=ice-pwd:'', ''a=fingerprint:'']"

definition structure_line :: "string \<Rightarrow> string list" where
  "structure_line rawLine =
     (let line = trim_space rawLine
      in if list_ex (has_prefix line) kept_prefixes then [line]
         else if list_ex (has_prefix line) secret_prefixes
         then [hd (split_char (CHR '':'') line) @ '':<redacted>''] else [])"

definition sdpStructure :: "string \<Rightarrow> string" where
  "sdpStructure sdp = join_char (CHR ''|'') (concat (map structure_line (split_char newline sdp)))"

section \<open>The offer of a session\<close>

text \<open>The services behind it: pion, the random source, what starts the voice bridge, the relays of a pocket network.\<close>

record Media =
  mx_WebRTC :: bool
  mx_VoiceAudio :: bool
  mx_pion :: Pion
  mx_random :: "byte list option"
  mx_bridge :: "string \<Rightarrow> (string, unit) result"
  mx_turn_servers :: "IceServer list"

definition offer_operation :: string where
  "offer_operation = ''webrtc.offer''"

definition answer_json :: "SDPAnswer \<Rightarrow> json" where
  "answer_json a = JObject [(''sdp'', JString (aw_SDP a)), (''type'', JString (aw_Type a)), (''iceMode'', JString (aw_ICEMode a))]"

definition answer_offer :: "Server \<Rightarrow> Media \<Rightarrow> string \<Rightarrow> string \<Rightarrow> string \<Rightarrow> string \<Rightarrow> 'm handler" where
  "answer_offer sv mx deviceID requestID sdp transport w =
     (case CreateAnswer (mx_pion mx) sdp transport of
        Inl e \<Rightarrow> writeIdempotentError sv deviceID offer_operation requestID 502 ''CB-WEBRTC-005'' e w
      | Inr answer \<Rightarrow>
          completed sv ''CB-WEBRTC-006'' deviceID offer_operation requestID 200 (json_marshal (answer_json answer))
            (\<lambda>w1. w1) w)"

text \<open>What follows the claim: a session of the call there is already is used again.\<close>

definition offer_claimed ::
  "Server \<Rightarrow> PrivateTURNConfig \<Rightarrow> Network \<Rightarrow> Media \<Rightarrow> timestamp \<Rightarrow> string \<Rightarrow> string \<Rightarrow> string \<Rightarrow> string \<Rightarrow> string \<Rightarrow>
   'm handler" where
  "offer_claimed sv cfg net mx now deviceID requestID callID sdp transport w =
     (case map_of (wo_media w) callID of
        Some _ \<Rightarrow> answer_offer sv mx deviceID requestID sdp transport w
      | None \<Rightarrow>
          (case (if transport \<noteq> TransportTailnet then Some (mx_turn_servers mx)
                 else (case privateTURNServer sv cfg net now ''gateway'' of
                         None \<Rightarrow> None | Some (server, _) \<Rightarrow> Some [server])) of
             None \<Rightarrow> (turn_missing, w)
           | Some servers \<Rightarrow>
               (case NewSession (mx_pion mx) (mx_random mx) transport servers of
                  Inl e \<Rightarrow> writeIdempotentError sv deviceID offer_operation requestID 502 ''CB-WEBRTC-004'' e w
                | Inr session \<Rightarrow>
                    (case mx_bridge mx callID of
                       Inl e \<Rightarrow> writeIdempotentError sv deviceID offer_operation requestID 502 ''CB-WEBRTC-007'' e w
                     | Inr _ \<Rightarrow>
                         answer_offer sv mx deviceID requestID sdp transport
                           (w\<lparr>wo_media := map_put callID (md_policy session = PolicyRelay) (wo_media w)\<rparr>)))))"

text \<open>The decoded body: the description, its type, the transport.\<close>

definition webRTCOffer ::
  "Server \<Rightarrow> PrivateTURNConfig \<Rightarrow> Network \<Rightarrow> Media \<Rightarrow> timestamp \<Rightarrow> (string \<times> string \<times> string) option \<Rightarrow> timestamp \<Rightarrow>
   Request \<Rightarrow> string \<Rightarrow> 'm handler" where
  "webRTCOffer sv cfg net mx now2 decoded now r callID =
     authorized sv now r (\<lambda>deviceID. keyed r (\<lambda>requestID w.
       if \<not> sv_Database sv then (writeError 503 ''CB-WEBRTC-000'' ''call database unavailable'', w)
       else (case store (GetCall callID) w of
               (Inl e, w1) \<Rightarrow>
                 ((if e = NoRows then writeError 404 ''CB-CALL-006'' ''call not found''
                   else writeError 500 ''CB-WEBRTC-000'' (sv_text sv (FromDb e))), w1)
             | (Inr _, w1) \<Rightarrow>
                 if \<not> mx_WebRTC mx then (writeError 503 ''CB-WEBRTC-000'' ''WebRTC service unavailable'', w1)
                 else if \<not> mx_VoiceAudio mx
                 then (writeError 503 ''CB-VOICE-001'' ''voice audio backend is unavailable'', w1)
                 else (case decoded of
                         None \<Rightarrow> (writeError 400 ''CB-WEBRTC-001'' ''invalid JSON body'', w1)
                       | Some (sdp, kind, transport0) \<Rightarrow>
                           if kind \<noteq> ''offer'' \<or> trim_space sdp = []
                           then (writeError 400 ''CB-WEBRTC-002'' ''an SDP offer is required'', w1)
                           else
                             let transport = to_lower (trim_space transport0)
                             in if transport \<noteq> TransportTailnet \<and> transport \<noteq> TransportPocket
                                then (writeError 400 ''CB-WEBRTC-003'' ''transport must be tailnet or pocket'', w1)
                                else claimed sv ''CB-WEBRTC-006'' deviceID offer_operation requestID
                                       (offer_claimed sv cfg net mx now2 deviceID requestID callID sdp transport) w1))))"

end
