(* ===== verification/Api_Router.thy ===== *)
theory Api_Router
  imports Api_Media
begin

text \<open>
  The routes of \<^verbatim>\<open>gateway/internal/api/server.go\<close>: which handler answers which path and method, and the upgrade to the
  event stream. \<^verbatim>\<open>http.ServeMux\<close> first redirects a path that is not clean; the paths here are clean.
\<close>

section \<open>Everything a handler is given from outside\<close>

record 'm Outside =
  sx_now :: timestamp
  sx_now1 :: timestamp
  sx_now2 :: timestamp
  sx_pairing_ids :: "string option \<times> string option"
  sx_device_tokens :: "string option \<times> string option \<times> string option"
  sx_refresh_tokens :: "string option \<times> string option"
  sx_message_id :: "string option"
  sx_concatRef :: byte
  sx_verify :: "byte list \<Rightarrow> string \<Rightarrow> byte list \<Rightarrow> bool"
  sx_pairing_body :: "(string \<times> string \<times> byte list option \<times> byte list option) option"
  sx_refresh_body :: "string option"
  sx_message_body :: "(string \<times> rune_text) option"
  sx_dial_body :: "(string \<times> string) option"
  sx_digit_body :: "rune_text option"
  sx_push_body :: "(string \<times> string \<times> string \<times> string) option"
  sx_settings_body :: "SettingsRequest option"
  sx_offer_body :: "(string \<times> string \<times> string) option"
  sx_send :: "string \<Rightarrow> SMSPayload \<Rightarrow> 'm \<Rightarrow> (modem_error, string) result \<times> 'm"
  sx_modem :: "'m CallModem"
  sx_meanwhile :: "'m World \<Rightarrow> 'm World"
  sx_start :: start_args
  sx_read_peaks :: "byte list \<Rightarrow> json list option"
  sx_safePath :: "string \<Rightarrow> string option"
  sx_turn :: PrivateTURNConfig
  sx_net :: Network
  sx_media :: Media
  sx_capabilities :: json
  sx_upgrades :: bool
  sx_origin_host :: "string \<Rightarrow> string option"

section \<open>Calls\<close>

definition calls :: "Server \<Rightarrow> 'm Outside \<Rightarrow> Request \<Rightarrow> 'm handler" where
  "calls sv x r w =
     (if rq_Method r = ''GET'' then listCalls sv (sx_now x) r w
      else if rq_Method r = ''POST''
      then dial sv (sx_modem x) (sx_meanwhile x) (sx_now x) (sx_now1 x, sx_now2 x) (sx_dial_body x) r w
      else (writeError 405 ''CB-API-001'' ''method not allowed'', w))"

definition callAction :: "Server \<Rightarrow> 'm Outside \<Rightarrow> Request \<Rightarrow> 'm handler" where
  "callAction sv x r = authorized sv (sx_now x) r (\<lambda>deviceID.
     let parts = path_parts ''/api/v1/calls/'' r
     in if length parts = 1 \<and> rq_Method r = ''GET'' then getCall sv (hd parts)
        else if length parts = 1 \<and> rq_Method r = ''DELETE'' then deleteCall sv (sx_now2 x) r (hd parts) deviceID
        else if length parts = 2 \<and> parts ! 1 = ''ice'' \<and> rq_Method r = ''GET''
        then callICE sv (sx_turn x) (sx_net x) (sx_now2 x) (hd parts) deviceID
        else if length parts = 3 \<and> parts ! 1 = ''webrtc'' \<and> parts ! 2 = ''offer'' \<and> rq_Method r = ''POST''
        then webRTCOffer sv (sx_turn x) (sx_net x) (sx_media x) (sx_now2 x) (sx_offer_body x) (sx_now x) r (hd parts)
        else if length parts = 3 \<and> parts ! 1 = ''recording'' \<and> (parts ! 2 = ''start'' \<or> parts ! 2 = ''stop'') \<and>
          rq_Method r = ''POST''
        then callRecordingAction sv (sx_start x) (sx_now2 x) (sx_read_peaks x) (sx_now x) r (hd parts) (parts ! 2)
        else control_call sv (sx_modem x) (sx_meanwhile x) (sx_now2 x) (sx_digit_body x) r deviceID parts)"

section \<open>The event stream\<close>

text \<open>\<^verbatim>\<open>CheckOrigin\<close>: the host of the origin is that of the request; \<open>origin_host\<close> is \<^verbatim>\<open>url.Parse\<close> and its host.\<close>

definition check_origin :: "(string \<Rightarrow> string option) \<Rightarrow> Request \<Rightarrow> bool" where
  "check_origin origin_host r =
     (let origin = trim_space (rq_Origin r)
      in origin = [] \<or> (case origin_host origin of None \<Rightarrow> False | Some host \<Rightarrow> host \<noteq> [] \<and> equal_fold host (rq_Host r)))"

text \<open>The upgrade of the websocket library refuses a foreign origin with status 403 and a malformed request with 400;
  an accepted stream is answered with status 101 and then carries the subscription.\<close>

definition events_handler :: "Server \<Rightarrow> 'm Outside \<Rightarrow> Request \<Rightarrow> 'm handler" where
  "events_handler sv x r w0 =
     (if rq_Method r \<noteq> ''GET'' then (writeError 405 ''CB-API-001'' ''method not allowed'', w0)
      else authorized sv (sx_now x) r (\<lambda>_ w.
        if \<not> sv_Events sv then (writeError 503 ''CB-EVENT-000'' ''event stream unavailable'', w)
        else if \<not> sx_upgrades x then (writeRawJSON 400 [], w)
        else if \<not> check_origin (sx_origin_host x) r then (writeRawJSON 403 [], w)
        else (writeRawJSON 101 [], w)) w0)"

section \<open>Routes\<close>

definition with_method :: "string \<Rightarrow> (Request \<Rightarrow> 'm handler) \<Rightarrow> Request \<Rightarrow> 'm handler" where
  "with_method expected handler r w =
     (if rq_Method r \<noteq> expected then (writeError 405 ''CB-API-001'' ''method not allowed'', w) else handler r w)"

datatype Endpoint = EHealth | EIdentity | EGateway | ELine | EPairingStart | EPairingComplete | ERefresh | ESync
  | EMessages | EMessageAction | EThreads | ECalls | ECallAction | ERecordingSettings | ERecordings | ERecordingAction
  | EDeviceAction | EEvents

definition exact_routes :: "(string \<times> Endpoint) list" where
  "exact_routes =
     [(''/api/v1/health'', EHealth), (''/api/v1/identity'', EIdentity), (''/api/v1/gateway'', EGateway),
      (''/api/v1/line'', ELine), (''/api/v1/pairing/start'', EPairingStart),
      (''/api/v1/pairing/complete'', EPairingComplete), (''/api/v1/auth/refresh'', ERefresh), (''/api/v1/sync'', ESync),
      (''/api/v1/messages'', EMessages), (''/api/v1/threads'', EThreads), (''/api/v1/calls'', ECalls),
      (''/api/v1/settings/recording'', ERecordingSettings), (''/api/v1/recordings'', ERecordings),
      (''/api/v1/events'', EEvents)]"

definition subtree_routes :: "(string \<times> Endpoint) list" where
  "subtree_routes =
     [(''/api/v1/messages/'', EMessageAction), (''/api/v1/calls/'', ECallAction),
      (''/api/v1/recordings/'', ERecordingAction), (''/api/v1/devices/'', EDeviceAction)]"

definition route :: "string \<Rightarrow> Endpoint option" where
  "route path = (case map_of exact_routes path of
     Some e \<Rightarrow> Some e
   | None \<Rightarrow> map_option snd (find (\<lambda>(p, _). has_prefix path p) subtree_routes))"

fun endpoint :: "Server \<Rightarrow> 'm Outside \<Rightarrow> Endpoint \<Rightarrow> Request \<Rightarrow> 'm handler" where
  "endpoint sv x EHealth = with_method ''GET'' (\<lambda>_. health sv)"
| "endpoint sv x EIdentity = with_method ''GET'' (\<lambda>_ w. (identity sv, w))"
| "endpoint sv x EGateway = with_method ''GET'' (gateway_handler sv (sx_capabilities x) (sx_now x))"
| "endpoint sv x ELine = with_method ''GET'' (line_handler sv (sx_now x))"
| "endpoint sv x EPairingStart = with_method ''POST'' (pairingStart sv (sx_pairing_ids x) (sx_now x))"
| "endpoint sv x EPairingComplete = with_method ''POST'' (\<lambda>_.
     pairingComplete sv (sx_verify x) (sx_device_tokens x) (sx_now x) (sx_now2 x) (sx_pairing_body x))"
| "endpoint sv x ERefresh = with_method ''POST'' (\<lambda>_. refresh sv (sx_refresh_tokens x) (sx_now x) (sx_now2 x) (sx_refresh_body x))"
| "endpoint sv x ESync = with_method ''GET'' (sync sv (sx_now x))"
| "endpoint sv x EMessages = messages sv
     (sendMessage sv (sx_send x) (sx_concatRef x) (sx_message_id x) (sx_now x) (sx_now2 x) (sx_message_body x)) (sx_now x)"
| "endpoint sv x EMessageAction = messageAction sv (sx_now x)"
| "endpoint sv x EThreads = with_method ''GET'' (threads sv (sx_now x))"
| "endpoint sv x ECalls = calls sv x"
| "endpoint sv x ECallAction = callAction sv x"
| "endpoint sv x ERecordingSettings = recordingSettings sv (sx_now2 x) (sx_settings_body x) (sx_now x)"
| "endpoint sv x ERecordings = recordings sv (sx_read_peaks x) (sx_now x)"
| "endpoint sv x ERecordingAction = recordingAction sv (sx_safePath x) (sx_now2 x) (sx_read_peaks x) (sx_now x)"
| "endpoint sv x EDeviceAction = deviceAction sv (sx_now x) (sx_push_body x)"
| "endpoint sv x EEvents = events_handler sv x"

definition serve :: "Server \<Rightarrow> 'm Outside \<Rightarrow> Request \<Rightarrow> 'm handler" where
  "serve sv x r w = (case route (rq_Path r) of
     None \<Rightarrow> (writeRawJSON 404 (''404 page not found'' @ [newline]), w)
   | Some e \<Rightarrow> endpoint sv x e r w)"

section \<open>Nothing happens without a token\<close>

text \<open>The endpoints that ask for no token: the two that identify the gateway, and the three a client gets its token from.\<close>

definition public_endpoint :: "Endpoint \<Rightarrow> bool" where
  "public_endpoint e \<longleftrightarrow> e \<in> {EHealth, EIdentity, EPairingStart, EPairingComplete, ERefresh}"

lemma authorized_refused:
  assumes "authorize sv now r w = (Inl resp, w1)"
  shows "authorized sv now r k w = (resp, w1)"
  using assms by (simp add: authorized_def)

lemma writeError_status [simp]: "rp_Status (writeError st code msg) = st"
  by (simp add: writeError_def writeJSON_def)

lemma writeRawJSON_status [simp]: "rp_Status (writeRawJSON st body) = st"
  by (simp add: writeRawJSON_def)

lemma refused_is_401: "authorize sv now r w = (Inl resp, w1) \<Longrightarrow> rp_Status resp = 401"
  by (auto simp: authorize_def Let_def split: if_splits prod.splits sum.splits)

lemma endpoint_refused:
  assumes "\<not> public_endpoint e" and "authorize sv (sx_now x) r w = (Inl resp, w1)"
  shows "endpoint sv x e r w = (resp, w1) \<or>
    (rp_Status (fst (endpoint sv x e r w)) = 405 \<and> snd (endpoint sv x e r w) = w)"
  using assms authorized_refused [OF assms(2)]
  by (cases e) (simp_all add: public_endpoint_def with_method_def gateway_handler_def line_handler_def sync_def messages_def
      sendMessage_def listMessages_def messageAction_def threads_def calls_def listCalls_def dial_def callAction_def
      recordingSettings_def recordings_def recordingAction_def deviceAction_def events_handler_def Let_def)

text \<open>C1: a request whose token is not accepted changes nothing and is answered with a refusal, whatever path and method it
  names, except on the five public endpoints.\<close>

theorem no_effect_without_token:
  assumes "authorize sv (sx_now x) r w = (Inl refusal, w1)" and "\<And>e. route (rq_Path r) = Some e \<Longrightarrow> \<not> public_endpoint e"
    and "serve sv x r w = (resp, w2)"
  shows "untouched w w2 \<and> rp_Status resp \<in> {401, 404, 405}"
proof (cases "route (rq_Path r)")
  case None
  with assms(3) show ?thesis by (auto simp: serve_def untouched_refl)
next
  case (Some e)
  with assms(3) have run: "endpoint sv x e r w = (resp, w2)" by (simp add: serve_def)
  from endpoint_refused [OF assms(2) [OF Some] assms(1)] run
  consider "resp = refusal" "w2 = w1" | "rp_Status resp = 405" "w2 = w" by auto
  then show ?thesis
    using authorize_untouched [OF assms(1)] refused_is_401 [OF assms(1)] untouched_refl [of w] by cases auto
qed

text \<open>A request without a token to delete a call.\<close>

definition guarded_server :: Server where
  "guarded_server = sample_server\<lparr>sv_Auth := True\<rparr>"

theorem no_effect_without_token_witness:
  "\<forall>(x :: 'm Outside) w. untouched w (snd (serve guarded_server x (sample_request ''DELETE'' ''/api/v1/calls/c'' ''k'') w))"
proof (intro allI)
  fix x :: "'m Outside" and w :: "'m World"
  let ?r = "sample_request ''DELETE'' ''/api/v1/calls/c'' ''k''"
  have "authorize guarded_server (sx_now x) ?r w = (Inl (writeError 401 ''CB-AUTH-001'' ''missing bearer token''), w)"
    by (simp add: authorize_def guarded_server_def sample_server_def sample_request_def has_prefix_def Let_def)
  moreover have "route (rq_Path ?r) = Some ECallAction"
    by (simp add: route_def exact_routes_def subtree_routes_def sample_request_def has_prefix_def)
  ultimately show "untouched w (snd (serve guarded_server x ?r w))"
    using no_effect_without_token [OF _ _ prod.collapse [symmetric], of guarded_server x ?r w] by (simp add: public_endpoint_def)
qed

end
