(* ===== verification/Api_Guarantees.thy ===== *)
theory Api_Guarantees
  imports Api_Router
begin

text \<open>
  What the handlers of the API guarantee beyond their request keys: a refused dial gives the line back, a client that
  follows the cursor of a thread reads it once, media over the tailnet goes through the private relay only, the log of a
  description has no secrets. And five places where they do not do what they mean to.
\<close>

section \<open>A dial the modem refuses\<close>

lemma controller_result: "controller f w = (fst (f (wo_calls w)), w\<lparr>wo_calls := snd (f (wo_calls w))\<rparr>)"
  by (simp add: controller_def split: prod.splits)

lemma modem_result: "modem f w = (fst (f (wo_modem w)), w\<lparr>wo_modem := snd (f (wo_modem w))\<rparr>)"
  by (simp add: modem_def split: prod.splits)

lemma store_frame [simp]:
  "wo_calls (snd (store op w)) = wo_calls w" "wo_line (snd (store op w)) = wo_line w"
  "wo_media (snd (store op w)) = wo_media w" "wo_modem (snd (store op w)) = wo_modem w"
  by (simp_all add: store_def set_db_def split: prod.splits)

lemma quiet_frame [simp]:
  "wo_calls (audit sv a b c d w) = wo_calls w" "wo_line (audit sv a b c d w) = wo_line w"
  "wo_calls (complete_quietly sv a b c st body w) = wo_calls w"
  "wo_line (complete_quietly sv a b c st body w) = wo_line w"
  "wo_media (complete_quietly sv a b c st body w) = wo_media w"
  by (simp_all add: audit_def complete_quietly_def)

lemma error_frame [simp]:
  "wo_calls (snd (writeIdempotentError sv a b c st code msg w)) = wo_calls w"
  "wo_line (snd (writeIdempotentError sv a b c st code msg w)) = wo_line w"
  "wo_media (snd (writeIdempotentError sv a b c st code msg w)) = wo_media w"
  "rp_Status (fst (writeIdempotentError sv a b c st code msg w)) = st"
  by (simp_all add: writeIdempotentError_def Let_def)

lemma call_error_frame [simp]:
  "wo_calls (snd (writeIdempotentCallError sv a b c e w)) = wo_calls w"
  "wo_line (snd (writeIdempotentCallError sv a b c e w)) = wo_line w"
  "rp_Status (fst (writeIdempotentCallError sv a b c e w)) = fst (callErrorStatus e)"
  by (simp_all add: writeIdempotentCallError_def split: prod.splits)


lemma publish_frame [simp]:
  "wo_calls (publish_event sv s k v w) = wo_calls w" "wo_line (publish_event sv s k v w) = wo_line w"
  by (simp_all add: publish_event_def)

lemma stop_recording_frame [simp]:
  "wo_calls (stop_recording sv now c w) = wo_calls w" "wo_line (stop_recording sv now c w) = wo_line w"
  by (auto simp: stop_recording_def recorder_def split: prod.splits sum.splits)

lemma set_active_frame [simp]:
  "wo_calls (set_active i w) = wo_calls w" "ls_ActiveCallID (wo_line (set_active i w)) = i"
  by (simp_all add: set_active_def)

lemma persist_frame [simp]:
  "wo_calls (snd (persistCall sv now c e w)) = wo_calls w"
  "ls_ActiveCallID (wo_line (snd (persistCall sv now c e w))) = (if ca_EndedAt c \<noteq> None then None else Some (ca_ID c))"
proof -
  let ?w = "set_active (if ca_EndedAt c \<noteq> None then None else Some (ca_ID c)) w"
  obtain x w2 where s: "store (SaveCall (call_record c)) ?w = (x, w2)" by fastforce
  then have "w2 = snd (store (SaveCall (call_record c)) ?w)" by simp
  then have "wo_calls w2 = wo_calls w"
    "ls_ActiveCallID (wo_line w2) = (if ca_EndedAt c \<noteq> None then None else Some (ca_ID c))"
    by simp_all
  then show "wo_calls (snd (persistCall sv now c e w)) = wo_calls w"
    "ls_ActiveCallID (wo_line (snd (persistCall sv now c e w))) = (if ca_EndedAt c \<noteq> None then None else Some (ca_ID c))"
    unfolding persistCall_def Let_def s by (auto split: sum.splits)
qed

text \<open>The dialled call is still the controller's, in whatever state, and no refusal of this request was handled before.\<close>

definition dialling :: "string \<Rightarrow> string \<Rightarrow> 'm World \<Rightarrow> bool" where
  "dialling requestID callID w \<longleftrightarrow>
     (\<exists>a. co_active (wo_calls w) = Some a \<and> ca_ID a = callID \<and> ca_State a \<noteq> Idle) \<and>
     co_requests (wo_calls w) (''modem-failure:'' @ requestID) = None"

text \<open>Up to the answer of the modem: the call is the controller's, and the handler goes on with the refusal.\<close>

lemma refused_dial_run:
  assumes "co_active (wo_calls w) = None" and "co_requests (wo_calls w) requestID = None"
    and "co_requests (wo_calls w) (''modem-failure:'' @ requestID) = None"
    and "\<And>m. fst (cm_Dial cm peer m) = Inl e"
    and "dial_claimed sv cm meanwhile clocks deviceID requestID peer callID w = (resp, w')"
  obtains current event w3 where "dialling requestID callID w3"
    and "\<forall>key. key \<noteq> requestID \<longrightarrow> co_requests (wo_calls w3) key = co_requests (wo_calls w) key" and "ca_ID current = callID" and "ca_EndedAt current = None"
    and "writeIdempotentCallError sv deviceID dial_operation requestID (FromModem e)
      (dial_refused sv cm (snd clocks) requestID current event e (meanwhile w3)) = (resp, w')"
proof -
  let ?dialled = "zero_call\<lparr>ca_ID := callID, ca_Direction := Outbound, ca_Peer := peer, ca_State := OutgoingDialing,
      ca_StartedAt := fst clocks\<rparr>"
  let ?event = "\<lparr>ev_CallID = callID, ev_State = OutgoingDialing, ev_Kind = ''call.updated'', ev_Reason = []\<rparr>"
  let ?w1 = "w\<lparr>wo_calls := \<lparr>co_active = Some ?dialled, co_requests = (co_requests (wo_calls w))(requestID \<mapsto>
      \<lparr>rr_call = ?dialled, rr_event = ?event, rr_err = None, rr_previous = None\<rparr>)\<rparr>\<rparr>"
  have dial: "controller (Dial (fst clocks) requestID callID peer) w = ((?dialled, ?event, None), ?w1)"
    using assms(1,2) by (cases "wo_calls w") (simp add: controller_result Dial_def Let_def)
  obtain w3 where m: "modem (cm_Dial cm peer) (?w1\<lparr>wo_modem := cm_bind cm callID (wo_modem ?w1)\<rparr>) = (Inl e, w3)"
    and calls3: "wo_calls w3 = wo_calls ?w1" using assms(4) by (simp add: modem_result)
  have "''modem-failure:'' @ requestID \<noteq> requestID" by simp
  then have "dialling requestID callID w3"
    using assms(3) by (simp add: dialling_def calls3 del: append_Cons append.simps)
  moreover have "\<forall>key. key \<noteq> requestID \<longrightarrow> co_requests (wo_calls w3) key = co_requests (wo_calls w) key"
    by (simp add: calls3)
  moreover have "writeIdempotentCallError sv deviceID dial_operation requestID (FromModem e)
      (dial_refused sv cm (snd clocks) requestID ?dialled ?event e (meanwhile w3)) = (resp, w')"
    using assms(5) dial m by (simp add: dial_claimed_def zero_call_def)
  moreover have "ca_ID ?dialled = callID" "ca_EndedAt ?dialled = None" by (simp_all add: zero_call_def)
  ultimately show thesis using that by blast
qed

lemma refusal_ends_call:
  assumes "dialling requestID callID w" and "ca_ID current = callID"
  shows "co_active (wo_calls (dial_refused sv cm now requestID current event e w)) = None \<and>
    ls_ActiveCallID (wo_line (dial_refused sv cm now requestID current event e w)) = None"
proof -
  let ?w1 = "if e = ErrActiveCall then snd (modem (cm_Hangup cm) w) else w"
  have "wo_calls ?w1 = wo_calls w" by (simp add: modem_result)
  then have "dialling requestID callID ?w1" using assms(1) by (simp add: dialling_def del: append_Cons append.simps)
  then obtain a where "co_active (wo_calls ?w1) = Some a" "ca_ID a = callID" "ca_State a \<noteq> Idle"
    "co_requests (wo_calls ?w1) (''modem-failure:'' @ requestID) = None"
    unfolding dialling_def by blast
  then show ?thesis
    by (simp add: dial_refused_def Let_def controller_result finish_call_def Hangup_def mutate_def hangup_change_def
        Finish_def assms(2) del: append_Cons append.simps)
qed

text \<open>C8: when the modem refuses a number, the line is free again: no call of the controller, none on the line, and the
  client is told so; its next dial is not blocked by the one that failed. Whatever happens to the call while the modem works
  on the command, this holds as long as the call is still the controller's when the refusal arrives.\<close>

theorem refused_dial_frees_line:
  assumes "co_active (wo_calls w) = None" and "co_requests (wo_calls w) requestID = None"
    and "co_requests (wo_calls w) (''modem-failure:'' @ requestID) = None"
    and "\<And>m. fst (cm_Dial cm peer m) = Inl e"
    and "\<And>v. dialling requestID callID v \<Longrightarrow> dialling requestID callID (meanwhile v)"
    and "dial_claimed sv cm meanwhile clocks deviceID requestID peer callID w = (resp, w')"
  shows "co_active (wo_calls w') = None \<and> ls_ActiveCallID (wo_line w') = None \<and> rp_Status resp = 502"
proof -
  obtain current event w3 where w3: "dialling requestID callID w3" and i: "ca_ID current = callID"
    and run: "writeIdempotentCallError sv deviceID dial_operation requestID (FromModem e)
      (dial_refused sv cm (snd clocks) requestID current event e (meanwhile w3)) = (resp, w')"
    using refused_dial_run [OF assms(1-4,6)] by blast
  from refusal_ends_call [OF assms(5) [OF w3] i] show ?thesis
    using call_error_frame [of sv deviceID dial_operation requestID "FromModem e"
      "dial_refused sv cm (snd clocks) requestID current event e (meanwhile w3)"] by (simp add: run)
qed

text \<open>When the call ended during the command, by a hangup or an event of the modem, the handler of the refusal finds no call
  to finish and persists the copy it dialled: the line names a call that the controller does not have.\<close>

theorem refused_dial_revives_ended_call:
  assumes "co_active (wo_calls w) = None" and "co_requests (wo_calls w) requestID = None"
    and "co_requests (wo_calls w) (''modem-failure:'' @ requestID) = None"
    and "\<And>m. fst (cm_Dial cm peer m) = Inl e"
    and "\<And>v. dialling requestID callID v \<Longrightarrow>
      \<forall>key. key \<noteq> requestID \<longrightarrow> co_requests (wo_calls v) key = co_requests (wo_calls w) key \<Longrightarrow>
      co_active (wo_calls (meanwhile v)) = None \<and>
      co_requests (wo_calls (meanwhile v)) (''modem-failure:'' @ requestID) = None"
    and "dial_claimed sv cm meanwhile clocks deviceID requestID peer callID w = (resp, w')"
  shows "co_active (wo_calls w') = None \<and> ls_ActiveCallID (wo_line w') = Some callID"
proof -
  obtain current event w3 where w3: "dialling requestID callID w3"
      "\<forall>key. key \<noteq> requestID \<longrightarrow> co_requests (wo_calls w3) key = co_requests (wo_calls w) key" and i: "ca_ID current = callID" "ca_EndedAt current = None"
    and run: "writeIdempotentCallError sv deviceID dial_operation requestID (FromModem e)
      (dial_refused sv cm (snd clocks) requestID current event e (meanwhile w3)) = (resp, w')"
    using refused_dial_run [OF assms(1-4,6)] by blast
  let ?w1 = "if e = ErrActiveCall then snd (modem (cm_Hangup cm) (meanwhile w3)) else meanwhile w3"
  have "wo_calls ?w1 = wo_calls (meanwhile w3)" by (simp add: modem_result)
  then have "co_active (wo_calls ?w1) = None" "co_requests (wo_calls ?w1) (''modem-failure:'' @ requestID) = None"
    using assms(5) [OF w3] by simp_all
  then have "co_active (wo_calls (dial_refused sv cm (snd clocks) requestID current event e (meanwhile w3))) = None \<and>
    ls_ActiveCallID (wo_line (dial_refused sv cm (snd clocks) requestID current event e (meanwhile w3))) = Some callID"
    by (simp add: dial_refused_def Let_def controller_result finish_call_def Hangup_def mutate_def
        Finish_def i del: append_Cons append.simps)
  then show ?thesis
    using call_error_frame [of sv deviceID dial_operation requestID "FromModem e"
      "dial_refused sv cm (snd clocks) requestID current event e (meanwhile w3)"] by (simp add: run)
qed

definition refusing_line :: "string list CallModem" where
  "refusing_line = sample_modem\<lparr>cm_Dial := (\<lambda>_ m. (Inl ErrActiveCall, m))\<rparr>"

text \<open>During the command the network reports progress of the call; or a hangup of it is carried through.\<close>

definition connected_meanwhile :: "string list World \<Rightarrow> string list World" where
  "connected_meanwhile w = snd (controller (MarkCellularReady 2 ''c'') w)"

definition ended_meanwhile :: "string list World \<Rightarrow> string list World" where
  "ended_meanwhile w = snd (controller (Finish 2 ''c'') (snd (controller (Hangup ''h'' ''c'' ''user'') w)))"

lemma connected_meanwhile_keeps: "dialling r ''c'' v \<Longrightarrow> dialling r ''c'' (connected_meanwhile v)"
  by (auto simp: dialling_def connected_meanwhile_def controller_result MarkCellularReady_def mutate_def cellular_change_def
      connect_if_def Let_def split: option.split)

theorem refused_dial_frees_line_witness:
  "co_active (wo_calls (snd (dial_claimed sample_server refusing_line connected_meanwhile (1, 2) [] ''k'' ''5'' ''c'' sample_gateway))) = None \<and>
   rp_Status (fst (dial_claimed sample_server refusing_line connected_meanwhile (1, 2) [] ''k'' ''5'' ''c'' sample_gateway)) = 502"
  using refused_dial_frees_line [of sample_gateway "''k''" refusing_line "''5''" ErrActiveCall "''c''" connected_meanwhile
      sample_server "(1, 2)" "[]", OF _ _ _ _ connected_meanwhile_keeps prod.collapse [symmetric]]
  by (simp add: sample_gateway_def NewController_def refusing_line_def)

lemma ended_meanwhile_ends:
  assumes "dialling ''k'' ''c'' v" and "\<forall>key. key \<noteq> ''k'' \<longrightarrow> co_requests (wo_calls v) key = co_requests (wo_calls sample_gateway) key"
  shows "co_active (wo_calls (ended_meanwhile v)) = None \<and>
    co_requests (wo_calls (ended_meanwhile v)) (''modem-failure:'' @ ''k'') = None"
proof -
  obtain a where "co_active (wo_calls v) = Some a" "ca_ID a = ''c''" "ca_State a \<noteq> Idle"
    "co_requests (wo_calls v) (''modem-failure:'' @ ''k'') = None"
    using assms(1) unfolding dialling_def by blast
  moreover have "co_requests (wo_calls v) ''h'' = None"
    using assms(2) by (simp add: sample_gateway_def NewController_def)
  ultimately show ?thesis
    by (simp add: ended_meanwhile_def controller_result Hangup_def Finish_def mutate_def hangup_change_def Let_def)
qed

theorem refused_dial_revives_ended_call_witness:
  "co_active (wo_calls (snd (dial_claimed sample_server refusing_line ended_meanwhile (1, 2) [] ''k'' ''5'' ''c'' sample_gateway))) = None \<and>
   ls_ActiveCallID (wo_line (snd (dial_claimed sample_server refusing_line ended_meanwhile (1, 2) [] ''k'' ''5'' ''c'' sample_gateway))) =
     Some ''c''"
proof (rule refused_dial_revives_ended_call [of sample_gateway "''k''" refusing_line "''5''" ErrActiveCall "''c''" ended_meanwhile
      sample_server "(1, 2)" "[]", OF _ _ _ _ _ prod.collapse [symmetric]])
  show "co_active (wo_calls sample_gateway) = None" "co_requests (wo_calls sample_gateway) ''k'' = None"
    "co_requests (wo_calls sample_gateway) (''modem-failure:'' @ ''k'') = None"
    by (simp_all add: sample_gateway_def NewController_def)
  show "fst (cm_Dial refusing_line ''5'' m) = Inl ErrActiveCall" for m by (simp add: refusing_line_def)
qed (rule ended_meanwhile_ends)

section \<open>Reading a thread page by page\<close>

definition whole_thread :: "Tables \<Rightarrow> string \<Rightarrow> Message list" where
  "whole_thread t key = sort_key thread_key (filter (\<lambda>m. ms_ThreadKey m = key) (db_messages t))"

text \<open>The page a client gets at a cursor from a store that answers, and the client that follows the oldest message of
  each page while there are more.\<close>

definition page_at :: "Tables \<Rightarrow> string \<Rightarrow> int \<Rightarrow> int option \<times> string \<Rightarrow> bool \<times> Message list" where
  "page_at t key limit cur =
     (case fst (ListThreadMessages key (fst cur) (snd cur) (limit + 1) (t, [])) of
        Inr rows \<Rightarrow> thread_page limit rows | Inl _ \<Rightarrow> (False, []))"

fun read_thread :: "nat \<Rightarrow> Tables \<Rightarrow> string \<Rightarrow> int \<Rightarrow> int option \<times> string \<Rightarrow> Message list" where
  "read_thread 0 t key limit cur = []"
| "read_thread (Suc n) t key limit cur =
     (case page_at t key limit cur of (hasMore, ms) \<Rightarrow>
        (if hasMore then read_thread n t key limit (Some (int (ms_CreatedAt (hd ms))), ms_ID (hd ms)) else []) @ ms)"

lemma page_rows:
  assumes "trim_space key \<noteq> []" and "1 \<le> limit" and "limit \<le> 500"
    and "P = filter (before_cursor (fst cur) (snd cur)) (whole_thread t key)"
  shows "page_at t key limit cur = (limit < int (length P), last_n (nat limit) P)"
proof -
  let ?rows = "rev (take (nat (limit + 1)) (rev P))"
  have "sort_key thread_key (filter (\<lambda>m. ms_ThreadKey m = key \<and> before_cursor (fst cur) (snd cur) m) (db_messages t)) = P"
    by (simp add: assms(4) whole_thread_def filter_sort filter_filter conj_commute)
  then have "fst (ListThreadMessages key (fst cur) (snd cur) (limit + 1) (t, [])) = Inr ?rows"
    using assms(1-3) by (simp add: ListThreadMessages_def query_def driver_def)
  moreover have rows: "?rows = last_n (nat limit + 1) P"
    using assms(2) by (simp add: last_n_def rev_take nat_add_distrib)
  ultimately have "page_at t key limit cur = thread_page limit (last_n (nat limit + 1) P)"
    by (simp add: page_at_def)
  moreover have "length (last_n (nat limit + 1) P) = min (nat limit + 1) (length P)" by (simp add: last_n_def)
  ultimately show ?thesis using assms(2) by (auto simp: thread_page_def last_n_def Let_def min_def)
qed

lemma before_iff: "before_cursor (Some (int (ms_CreatedAt m))) (ms_ID m) x \<longleftrightarrow> thread_key x < thread_key m"
  by (auto simp: before_cursor_def thread_key_def less_prod_def')

lemma distinct_thread_keys:
  assumes "distinct (map ms_ID (db_messages t))"
  shows "distinct (map thread_key (whole_thread t key))"
proof -
  have "inj_on ms_ID (set (whole_thread t key))" and "distinct (whole_thread t key)"
    using assms by (auto simp: whole_thread_def distinct_map intro: inj_on_subset)
  then show ?thesis by (auto simp: distinct_map inj_on_def thread_key_def)
qed

lemma before_prefix:
  assumes "sorted (map thread_key S)" and "distinct (map thread_key S)" and "S = xs @ m # ys"
  shows "filter (\<lambda>x. thread_key x < thread_key m) S = xs"
proof -
  have "thread_key x < thread_key m" if "x \<in> set xs" for x
  proof -
    have "thread_key x \<le> thread_key m" using assms(1,3) that by (simp add: sorted_append)
    moreover have "thread_key m \<notin> thread_key ` set xs" using assms(2,3) by simp
    then have "thread_key x \<noteq> thread_key m" using that by (metis imageI)
    ultimately show ?thesis by simp
  qed
  moreover have "\<not> thread_key y < thread_key m" if "y \<in> set ys" for y
    using assms(1,3) that by (simp add: sorted_append not_less)
  ultimately show ?thesis using assms(3) by simp
qed

lemma read_thread_prefix:
  assumes "distinct (map ms_ID (db_messages t))" and "trim_space key \<noteq> []" and "1 \<le> limit" and "limit \<le> 500"
    and "whole_thread t key = P @ R" and "P = filter (before_cursor (fst cur) (snd cur)) (whole_thread t key)"
    and "length P < n"
  shows "read_thread n t key limit cur = P"
  using assms(5-)
proof (induction n arbitrary: P R cur)
  case (Suc n)
  note page = page_rows [OF assms(2-4) Suc.prems(2)]
  show ?case
  proof (cases "limit < int (length P)")
    case True
    let ?k = "length P - nat limit"
    obtain m ys where split: "drop ?k P = m # ys"
      using True assms(3) by (cases "drop ?k P") auto
    then have P: "P = take ?k P @ m # ys" by (metis append_take_drop_id)
    have sorted: "sorted (map thread_key (whole_thread t key))" by (simp add: whole_thread_def)
    have whole: "whole_thread t key = take ?k P @ m # (ys @ R)" using P Suc.prems(1) by (metis append.assoc append_Cons)
    have "take ?k P = filter (before_cursor (Some (int (ms_CreatedAt m))) (ms_ID m)) (whole_thread t key)"
      unfolding before_iff by (rule before_prefix [OF sorted distinct_thread_keys [OF assms(1)] whole, symmetric])
    moreover have "length (take ?k P) < n" using Suc.prems(3) True assms(3) by simp
    ultimately have "read_thread n t key limit (Some (int (ms_CreatedAt m)), ms_ID m) = take ?k P"
      by (intro Suc.IH [OF whole]) simp_all
    with True page split P show ?thesis by (simp add: last_n_def)
  next
    case False
    with page assms(3) show ?thesis by (simp add: last_n_def)
  qed
qed simp

text \<open>C13: a client that asks for a thread page by page, each time before the oldest message it has, gets every message of
  the thread exactly once and in order, whatever page size it asks for.\<close>

theorem thread_read_once:
  assumes "distinct (map ms_ID (db_messages t))" and "trim_space key \<noteq> []" and "1 \<le> limit" and "limit \<le> 500"
    and "length (whole_thread t key) < fuel"
  shows "read_thread fuel t key limit (None, []) = whole_thread t key"
  by (rule read_thread_prefix [OF assms(1-4), of _ "[]"]) (simp_all add: before_cursor_def assms(5))

text \<open>Three messages of a thread, read two at a time.\<close>

definition sample_message :: "nat \<Rightarrow> string \<Rightarrow> Message" where
  "sample_message at i = \<lparr>ms_ID = i, ms_ThreadKey = ''p'', ms_Direction = ''inbound'', ms_Peer = ''p'', ms_Body = [],
     ms_Encoding = ''gsm7'', ms_Status = ''received'', ms_ServiceTime = None, ms_CreatedAt = at, ms_ModemStorage = [],
     ms_ModemIndex = None, ms_PDUHash = [], ms_SyncSeq = 1\<rparr>"

definition sample_thread :: Tables where
  "sample_thread = empty_tables\<lparr>db_messages := [sample_message 7 ''b'', sample_message 7 ''a'', sample_message 5 ''c'']\<rparr>"

theorem thread_read_once_witness:
  "read_thread 9 sample_thread ''p'' 2 (None, []) = [sample_message 5 ''c'', sample_message 7 ''a'', sample_message 7 ''b'']"
proof -
  have whole: "whole_thread sample_thread ''p'' = [sample_message 5 ''c'', sample_message 7 ''a'', sample_message 7 ''b'']"
    by (simp add: whole_thread_def sample_thread_def sample_message_def thread_key_def)
  show ?thesis
    using thread_read_once [of sample_thread "''p''" 2 9] unfolding whole
    by (simp add: sample_thread_def sample_message_def graphic_char_def)
qed

section \<open>Media over the tailnet\<close>

text \<open>Pion as it would be if it refused everything but a peer connection bound to relays with the given servers.\<close>

definition relay_only :: "IceServer list \<Rightarrow> Pion \<Rightarrow> Pion" where
  "relay_only servers pion = pion\<lparr>pi_NewPeerConnection := (\<lambda>policy used.
     if policy = PolicyRelay \<and> used = servers then pi_NewPeerConnection pion policy used else Inl ''refused'')\<rparr>"

lemma relay_only_simps [simp]:
  "pi_NewPeerConnection (relay_only ss p) PolicyRelay ss = pi_NewPeerConnection p PolicyRelay ss"
  "pi_AddTrack (relay_only ss p) = pi_AddTrack p" "pi_CreateAnswer (relay_only ss p) = pi_CreateAnswer p"
  "pi_SetRemoteDescription (relay_only ss p) = pi_SetRemoteDescription p"
  "pi_SetLocalDescription (relay_only ss p) = pi_SetLocalDescription p"
  "pi_gathered (relay_only ss p) = pi_gathered p" "pi_LocalDescription (relay_only ss p) = pi_LocalDescription p"
  by (simp_all add: relay_only_def)

lemma completed_media: "wo_media (snd (completed sv code a b c st body (\<lambda>x. x) u)) = wo_media u"
proof -
  obtain x u1 where s: "store (CompleteIdempotency a b c st body) u = (x, u1)" by fastforce
  then have "u1 = snd (store (CompleteIdempotency a b c st body) u)" by simp
  then have "wo_media u1 = wo_media u" by simp
  then show ?thesis by (auto simp: completed_def s split: sum.splits)
qed

text \<open>On a store that answers, the answer of a claimed request is what is recorded.\<close>

lemma complete_calm:
  assumes "key_claimed (a, b, c) t"
  shows "CompleteIdempotency a b c st body (t, []) = (Inr (), t\<lparr>db_idempotency :=
    update_rows (\<lambda>(k, _). k = (a, b, c)) (\<lambda>(k, _). (k, st, body)) (db_idempotency t)\<rparr>, [])"
proof -
  have "list_ex (\<lambda>(k, _). k = (a, b, c)) (db_idempotency t)"
    using assms by (force simp: key_claimed_def list_ex_iff)
  then show ?thesis
    by (simp add: CompleteIdempotency_def then_do_def driver_def require_rows_def give_def Let_def)
qed

lemma completed_calm:
  assumes "wo_db w = (t, [])" and "key_claimed (a, b, c) t"
  shows "fst (completed sv code a b c st body after_that w) = writeRawJSON st body"
  using complete_calm [OF assms(2)] by (simp add: completed_def store_def assms(1) split: prod.split)

lemma answer_offer_media: "wo_media (snd (answer_offer sv mx deviceID requestID sdp transport w)) = wo_media w"
  by (simp add: answer_offer_def completed_media split: sum.split)

text \<open>C21: the first session of a call that is asked for over the tailnet is bound to relays and uses the private TURN server
  only: with a pion that refuses any other connection the outcome is the same, and the session there is afterwards, if
  there is one, is bound to relays.\<close>

theorem tailnet_session_uses_private_relay:
  assumes "map_of (wo_media w) callID = None" and "privateTURNServer sv cfg net now ''gateway'' = Some (server, expiry)"
  shows "offer_claimed sv cfg net (mx\<lparr>mx_pion := relay_only [server] (mx_pion mx)\<rparr>) now deviceID requestID callID sdp
           TransportTailnet w = offer_claimed sv cfg net mx now deviceID requestID callID sdp TransportTailnet w \<and>
         map_of (wo_media (snd (offer_claimed sv cfg net mx now deviceID requestID callID sdp TransportTailnet w))) callID
           \<in> {None, Some True}"
proof -
  let ?mx = "mx\<lparr>mx_pion := relay_only [server] (mx_pion mx)\<rparr>"
  have session: "NewSession (relay_only [server] (mx_pion mx)) (mx_random mx) TransportTailnet [server] =
      NewSession (mx_pion mx) (mx_random mx) TransportTailnet [server]"
    by (simp add: NewSession_def session_policy_def split: sum.split)
  have answer: "answer_offer sv ?mx deviceID requestID sdp TransportTailnet = answer_offer sv mx deviceID requestID sdp TransportTailnet"
    by (rule ext) (simp add: answer_offer_def CreateAnswer_def split: sum.split option.split)
  have policy: "md_policy s = PolicyRelay" if "NewSession p rnd TransportTailnet ss = Inr s" for p rnd ss s
    using that by (auto simp: NewSession_def session_policy_def Let_def split: sum.splits option.splits)
  have "map_of (wo_media (snd (offer_claimed sv cfg net mx now deviceID requestID callID sdp TransportTailnet w))) callID
      \<in> {None, Some True}"
    using assms by (auto simp: offer_claimed_def answer_offer_media policy split: sum.splits)
  moreover have "offer_claimed sv cfg net ?mx now deviceID requestID callID sdp TransportTailnet w =
      offer_claimed sv cfg net mx now deviceID requestID callID sdp TransportTailnet w"
    using assms by (simp add: offer_claimed_def session answer cong: sum.case_cong)
  ultimately show ?thesis by simp
qed

text \<open>A tailnet with its relay, and a pion that accepts every connection.\<close>

definition tailnet_server :: Server where
  "tailnet_server = sample_server\<lparr>sv_NetworkMode := ''tailnet''\<rparr>"

definition sample_turn :: PrivateTURNConfig where
  "sample_turn = \<lparr>pt_Enabled = True, pt_Host = ''h'', pt_Port = 3478, pt_CredentialTTL = 600000, pt_Secret = [1]\<rparr>"

definition sample_net :: Network where
  "sample_net = \<lparr>nw_hmac_sha1 = (\<lambda>_ _. [2]), nw_LookupIP = (\<lambda>_. None), nw_rfc3339 = (\<lambda>_. ''date'')\<rparr>"

definition sample_pion :: Pion where
  "sample_pion = \<lparr>pi_NewPeerConnection = (\<lambda>_ _. Inr ()), pi_AddTrack = Inr (), pi_SetRemoteDescription = (\<lambda>_. Inr ()),
     pi_CreateAnswer = Inr ''answer'', pi_SetLocalDescription = (\<lambda>_. Inr ()), pi_gathered = True,
     pi_LocalDescription = Some ''local''\<rparr>"

definition sample_media :: Media where
  "sample_media = \<lparr>mx_WebRTC = True, mx_VoiceAudio = True, mx_pion = sample_pion, mx_random = Some [1, 2, 3, 4],
     mx_bridge = (\<lambda>_. Inr ()), mx_turn_servers = []\<rparr>"

lemma sample_relay: "\<exists>server expiry. privateTURNServer tailnet_server sample_turn sample_net 1 ''gateway'' = Some (server, expiry)"
  by (simp add: privateTURNServer_def turn_ready_def tailnet_server_def sample_turn_def Let_def graphic_char_def)

theorem tailnet_session_uses_private_relay_witness:
  "map_of (wo_media (snd (offer_claimed tailnet_server sample_turn sample_net sample_media 1 [] ''k'' ''c'' ''s''
     TransportTailnet sample_gateway))) ''c'' \<in> {None, Some True}"
proof -
  obtain server expiry where "privateTURNServer tailnet_server sample_turn sample_net 1 ''gateway'' = Some (server, expiry)"
    using sample_relay by blast
  from tailnet_session_uses_private_relay [OF _ this, of sample_gateway "''c''" sample_media "[]" "''k''" "''s''"]
  show ?thesis by (simp add: sample_gateway_def del: insert_iff)
qed

text \<open>But a session the call already has is used for every further offer: one that was opened over the pocket network
  answers an offer over the tailnet with the mode \<^verbatim>\<open>relay\<close> and stays a session that may use any path.\<close>

theorem reused_session_claims_relay:
  assumes "map_of (wo_media w) callID = Some False" and "CreateAnswer (mx_pion mx) sdp TransportTailnet = Inr answer"
    and "wo_db w = (t, [])" and "key_claimed (deviceID, offer_operation, requestID) t"
    and "offer_claimed sv cfg net mx now deviceID requestID callID sdp TransportTailnet w = (resp, w')"
  shows "resp = writeRawJSON 200 (json_marshal (answer_json answer)) \<and> aw_ICEMode answer = ''relay'' \<and>
    map_of (wo_media w') callID = Some False"
proof -
  have "aw_ICEMode answer = ''relay''"
    using assms(2) by (auto simp: CreateAnswer_def answer_mode_def split: if_splits sum.splits option.splits)
  moreover have "offer_claimed sv cfg net mx now deviceID requestID callID sdp TransportTailnet w =
      answer_offer sv mx deviceID requestID sdp TransportTailnet w"
    using assms(1) by (simp add: offer_claimed_def)
  moreover have "wo_media w' = wo_media w"
    using assms(5) calculation(2) answer_offer_media by (metis snd_conv)
  moreover have "resp = writeRawJSON 200 (json_marshal (answer_json answer))"
  proof -
    have "completed sv ''CB-WEBRTC-006'' deviceID offer_operation requestID 200 (json_marshal (answer_json answer))
        (\<lambda>w1. w1) w = (resp, w')"
      using assms(2,5) calculation(2) by (simp add: answer_offer_def)
    with completed_calm [OF assms(3,4)] show ?thesis by (metis fst_conv)
  qed
  ultimately show ?thesis using assms(1) by simp
qed

definition pocket_session :: "string list World" where
  "pocket_session = sample_gateway\<lparr>wo_media := [(''c'', False)],
     wo_rec := (wo_rec sample_gateway)\<lparr>rw_db := (empty_tables\<lparr>db_idempotency := [(([], offer_operation, ''k''), 102, [])]\<rparr>, [])\<rparr>\<rparr>"

theorem reused_session_claims_relay_witness:
  "map_of (wo_media (snd (offer_claimed sample_server sample_turn sample_net sample_media 1 [] ''k'' ''c'' ''s''
     TransportTailnet pocket_session))) ''c'' = Some False"
  using reused_session_claims_relay [OF _ _ _ _ prod.collapse [symmetric], of pocket_session "''c''" sample_media "''s''"
      "\<lparr>aw_SDP = ''local'', aw_Type = ''answer'', aw_ICEMode = ''relay''\<rparr>"]
  by (simp add: pocket_session_def CreateAnswer_def sample_media_def sample_pion_def answer_mode_def key_claimed_def
      TransportTailnet_def TransportRemote_def)

text \<open>An offer over the tailnet of a gateway without its relay is refused, and its request key is used up: a repetition is
  told that the request is still in progress, for good, even when the relay has been set up.\<close>

theorem offer_without_relay_never_settles:
  assumes "sv_Database sv" and "wo_db w = (t, [])" and "\<not> key_claimed (deviceID, offer_operation, requestID) t"
    and "map_of (wo_media w) callID = None" and "\<not> turn_ready sv cfg"
    and "claimed sv code deviceID offer_operation requestID
      (offer_claimed sv cfg net mx now deviceID requestID callID sdp TransportTailnet) w = (resp1, w1)"
    and "claimed sv code deviceID offer_operation requestID run w1 = (resp2, w2)"
  shows "rp_Status resp1 = 503 \<and> rp_Status resp2 = 409"
proof -
  have "list_ex (\<lambda>(k, _). k = (deviceID, offer_operation, requestID)) (db_idempotency t) = False"
    using assms(3) by (auto simp: key_claimed_def list_ex_iff image_iff)
  then have "ClaimIdempotency deviceID offer_operation requestID (t, []) =
      (Inr (True, \<lparr>ir_StatusCode = 102, ir_Body = [], ir_Pending = True\<rparr>),
       t\<lparr>db_idempotency := db_idempotency t @ [((deviceID, offer_operation, requestID), 102, [])]\<rparr>, [])"
    by (simp add: ClaimIdempotency_def insert_claim_def transaction_def then_do_def driver_def give_def)
  then have first: "resp1 = turn_missing"
    "wo_db w1 = (t\<lparr>db_idempotency := db_idempotency t @ [((deviceID, offer_operation, requestID), 102, [])]\<rparr>, [])"
    using assms(1,2,4,5,6)
    by (auto simp: claimed_def claimed_with_def claimIdempotency_def store_def offer_claimed_def privateTURNServer_def set_db_def)
  have "map_of (db_idempotency t @ [((deviceID, offer_operation, requestID), 102, [])]) (deviceID, offer_operation, requestID) =
      Some (102, [])"
    using assms(3) by (simp add: key_claimed_def map_add_def flip: map_of_eq_None_iff)
  then have "fst (ClaimIdempotency deviceID offer_operation requestID (wo_db w1)) =
      Inr (False, \<lparr>ir_StatusCode = 102, ir_Body = [], ir_Pending = True\<rparr>)"
    by (simp add: first ClaimIdempotency_def insert_claim_def transaction_def then_do_def driver_def query_def give_def)
  then have "resp2 = replayIdempotency \<lparr>ir_StatusCode = 102, ir_Body = [], ir_Pending = True\<rparr>"
    using assms(1,7) by (auto simp: claimed_def claimed_with_def claimIdempotency_def store_def split: prod.splits)
  with first show ?thesis by (simp add: replayIdempotency_def turn_missing_def)
qed

theorem offer_without_relay_never_settles_witness:
  "rp_Status (fst (claimed sample_server ''x'' [] offer_operation ''k''
     (offer_claimed sample_server sample_turn sample_net sample_media 1 [] ''k'' ''c'' ''s'' TransportTailnet) sample_gateway)) = 503"
  using offer_without_relay_never_settles [OF _ _ _ _ _ prod.collapse [symmetric] prod.collapse [symmetric],
      of sample_server sample_gateway empty_tables "[]" "''k''" "''c''" sample_turn "''x''" sample_net sample_media 1 "''s''"]
  by (simp add: sample_gateway_def sample_server_def key_claimed_def empty_tables_def turn_ready_def)

section \<open>What is logged of a description\<close>

text \<open>Two lines that differ only in the value of a candidate, a credential or a fingerprint.\<close>

definition same_but_secret :: "string \<Rightarrow> string \<Rightarrow> bool" where
  "same_but_secret l l' \<longleftrightarrow> l = l' \<or>
     (\<exists>p\<in>set secret_prefixes. has_prefix (trim_space l) p \<and> has_prefix (trim_space l') p)"

lemma has_prefix_step: "has_prefix (c # s) (d # p) \<longleftrightarrow> c = d \<and> has_prefix s p" "has_prefix s []"
  by (auto simp: has_prefix_def)

lemma split_char_hd: "hd (split_char c (x # s)) = (if x = c then [] else x # hd (split_char c s))"
proof -
  have "split_char c s \<noteq> []" by (induction s) (auto split: list.splits)
  then show ?thesis by (auto split: list.splits)
qed

lemma secret_line:
  assumes "p \<in> set secret_prefixes" and "has_prefix (trim_space l) p"
  shows "structure_line l = [p @ ''<redacted>'']"
proof -
  obtain r where "trim_space l = p @ r" using assms(2) by (metis append_take_drop_id has_prefix_def)
  with assms(1) show ?thesis
    unfolding structure_line_def Let_def
    by (auto simp: secret_prefixes_def kept_prefixes_def has_prefix_step split_char_hd simp del: split_char.simps)
qed

text \<open>The diagnostic line of a description says nothing about the values of candidates, credentials and fingerprints.\<close>

theorem log_hides_secrets:
  assumes "list_all2 same_but_secret (split_char newline sdp) (split_char newline sdp')"
  shows "sdpStructure sdp = sdpStructure sdp'"
proof -
  have "structure_line l = structure_line l'" if "same_but_secret l l'" for l l'
    using that secret_line unfolding same_but_secret_def by metis
  with assms have "list_all2 (\<lambda>l l'. structure_line l = structure_line l') (split_char newline sdp) (split_char newline sdp')"
    by (auto elim: list_all2_mono)
  then have "map structure_line (split_char newline sdp) = map structure_line (split_char newline sdp')"
    by (simp add: list_all2_conv_all_nth list_eq_iff_nth_eq)
  then show ?thesis by (simp add: sdpStructure_def)
qed

text \<open>Lines of an offer and of its diagnostic text: two credentials, one log line.\<close>

theorem log_hides_secrets_witness:
  "sdpStructure ''a=ice-pwd:one'' = sdpStructure ''a=ice-pwd:two'' \<and> sdpStructure ''a=mid:0'' \<noteq> sdpStructure ''a=mid:1''"
proof -
  have nl: "newline = CHR 0x0A" by code_simp
  have "list_all2 same_but_secret (split_char newline ''a=ice-pwd:one'') (split_char newline ''a=ice-pwd:two'')"
    by (simp add: nl same_but_secret_def secret_prefixes_def has_prefix_step graphic_char_def)
  from log_hides_secrets [OF this] show ?thesis
    by (simp add: sdpStructure_def structure_line_def nl kept_prefixes_def secret_prefixes_def has_prefix_step
        graphic_char_def Let_def)
qed

section \<open>Keys shared between operations\<close>





section \<open>A claim that fails\<close>

lemma map_of_update_rows:
  "map_of (update_rows (\<lambda>(k, _). k = key) (\<lambda>(k, _). (k, v)) rows) key = map_option (\<lambda>_. v) (map_of rows key)"
  by (induction rows) (auto simp: update_rows_def)

lemma error_recorded:
  assumes "sv_Database sv" and "wo_db w = (t, [])" and "key_claimed (a, b, c) t"
  shows "map_of (db_idempotency (wo_tables (snd (writeIdempotentError sv a b c st code msg w)))) (a, b, c) =
    Some (st, json_marshal (error_json code msg))"
proof -
  have "map_of (db_idempotency t) (a, b, c) \<noteq> None" using assms(3) by (auto simp: key_claimed_def map_of_eq_None_iff)
  then show ?thesis
    using assms(1) complete_calm [OF assms(3)]
    by (auto simp: writeIdempotentError_def complete_quietly_def store_def assms(2) Let_def
        map_of_update_rows [where v = "(x, y)" for x y, unfolded prod.case])
qed

text \<open>When the claim of a read request fails, its error is recorded under the key nevertheless, over the answer an earlier
  request with this key was given.\<close>

theorem failed_claim_overwrites_answer:
  assumes "sv_Database sv" and "wo_db w = (t, [True])"
    and "map_of (db_idempotency t) (deviceID, ''message.read'', requestID) = Some (204, [])"
    and "claimed_with (\<lambda>e. writeIdempotentError sv deviceID ''message.read'' requestID 500 ''CB-SMS-007'' (sv_text sv (FromDb e)))
      sv deviceID ''message.read'' requestID run w = (resp, w')"
  shows "rp_Status resp = 500 \<and> map_option fst (map_of (db_idempotency (wo_tables w')) (deviceID, ''message.read'', requestID)) = Some 500"
proof -
  let ?error = "writeIdempotentError sv deviceID ''message.read'' requestID 500 ''CB-SMS-007'' (sv_text sv (FromDb DriverFailure))"
  have claim: "claimIdempotency sv deviceID ''message.read'' requestID w = (Inl DriverFailure, set_db (t, []) w)"
    using assms(1,2) by (simp add: claimIdempotency_def store_def ClaimIdempotency_def transaction_def then_do_def driver_def)
  with assms(4) have run: "?error (set_db (t, []) w) = (resp, w')" by (simp add: claimed_with_def)
  have "key_claimed (deviceID, ''message.read'', requestID) t"
    using assms(3) by (auto simp: key_claimed_def dest: map_of_SomeD intro: rev_image_eqI)
  from error_recorded [OF assms(1) _ this, of "set_db (t, []) w"] run
  have "map_of (db_idempotency (wo_tables w')) (deviceID, ''message.read'', requestID) =
      Some (500, json_marshal (error_json ''CB-SMS-007'' (sv_text sv (FromDb DriverFailure))))" by (metis set_db_db snd_conv)
  moreover have "rp_Status resp = 500" using run error_frame(4) by (metis fst_conv)
  ultimately show ?thesis by simp
qed

theorem failed_claim_overwrites_answer_witness:
  "\<exists>w :: string list World. map_option fst (map_of (db_idempotency (wo_tables w)) ([], ''message.read'', ''k'')) = Some 204 \<and>
     map_option fst (map_of (db_idempotency (wo_tables (snd (claimed_with
       (\<lambda>e. writeIdempotentError sample_server [] ''message.read'' ''k'' 500 ''CB-SMS-007'' (sv_text sample_server (FromDb e)))
       sample_server [] ''message.read'' ''k'' (answer_with no_content) w)))) ([], ''message.read'', ''k'')) = Some 500"
proof -
  let ?w = "set_db (empty_tables\<lparr>db_idempotency := [(([], ''message.read'', ''k''), 204, [])]\<rparr>, [True]) sample_gateway"
  have "map_option fst (map_of (db_idempotency (wo_tables ?w)) ([], ''message.read'', ''k'')) = Some 204" by simp
  moreover have "sv_Database sample_server" by (simp add: sample_server_def)
  from failed_claim_overwrites_answer [OF this _ _ prod.collapse [symmetric], of ?w
      "empty_tables\<lparr>db_idempotency := [(([], ''message.read'', ''k''), 204, [])]\<rparr>" "[]" "''k''"]
  have "map_option fst (map_of (db_idempotency (wo_tables (snd (claimed_with
       (\<lambda>e. writeIdempotentError sample_server [] ''message.read'' ''k'' 500 ''CB-SMS-007'' (sv_text sample_server (FromDb e)))
       sample_server [] ''message.read'' ''k'' (answer_with no_content) ?w)))) ([], ''message.read'', ''k'')) = Some 500" by simp
  ultimately show ?thesis by blast
qed

end
