(* ===== verification/Api_Replay.thy ===== *)
theory Api_Replay
  imports Api_Guarantees
begin

text \<open>
  The other half of the request keys: on a store that answers, the answer of a dial or of an action on a call is
  recorded, and a later request with the same key gets the same bytes as long as that record stands.
\<close>

section \<open>Stores that answer\<close>

definition calm :: "'m World \<Rightarrow> bool" where
  "calm w \<longleftrightarrow> snd (wo_db w) = []"

definition calm_op :: "(db_state \<Rightarrow> 'r \<times> db_state) \<Rightarrow> bool" where
  "calm_op op \<longleftrightarrow> (\<forall>t r t' f. op (t, []) = (r, t', f) \<longrightarrow> f = [])"

lemma calm_opD: "calm_op op \<Longrightarrow> op (t, []) = (r, t', f) \<Longrightarrow> f = []"
  by (simp add: calm_op_def)

named_theorems calm_rules \<open>operations that leave a store that answers as one\<close>

lemma calm_driver [calm_rules]: "calm_op (driver f)"
  by (auto simp: calm_op_def driver_def split: prod.splits)

lemma calm_query [calm_rules]: "calm_op (query f)"
  unfolding query_def by (rule calm_driver)

lemma calm_give [calm_rules]: "calm_op (give a)" "calm_op (fail e)"
  by (simp_all add: calm_op_def give_def fail_def)

lemma calm_then [calm_rules]: "calm_op a \<Longrightarrow> (\<And>x. calm_op (b x)) \<Longrightarrow> calm_op (then_do a b)"
proof -
  assume a: "calm_op a" and b: "\<And>x. calm_op (b x)"
  have "f = []" if run: "then_do a b (t, []) = (r, t', f)" for t r t' f
  proof -
    obtain x t1 f1 where s: "a (t, []) = (x, t1, f1)" by (metis surj_pair)
    have "f1 = []" by (rule calm_opD [OF a s])
    with run s show ?thesis using calm_opD [OF b] by (cases x) (auto simp: then_do_def)
  qed
  then show ?thesis by (simp add: calm_op_def)
qed

lemma calm_transaction [calm_rules]:
  assumes "calm_op body"
  shows "calm_op (transaction body)"
proof -
  have "calm_op (then_do (driver (\<lambda>t. (Inr (), t))) (\<lambda>_. then_do body (\<lambda>a. driver (\<lambda>t. (Inr a, t)))))"
    by (intro calm_rules assms)
  note inner = calm_opD [OF this]
  have "f = []" if "transaction body (t, []) = (r, t', f)" for t r t' f
    using that by (auto simp: transaction_def split: prod.splits sum.splits dest: inner)
  then show ?thesis by (simp add: calm_op_def)
qed

lemma calm_ops [calm_rules]:
  "calm_op (SaveCall c)" "calm_op (AppendAudit a b c' d)" "calm_op (ClaimIdempotency a b c')"
  "calm_op (CompleteIdempotency a b c' st body)" "calm_op (SaveRecording now rec)"
  "calm_op (UpdateCallRecording i r state dur)"
  unfolding SaveCall_def AppendAudit_def ClaimIdempotency_def CompleteIdempotency_def SaveRecording_def
    UpdateCallRecording_def appendSyncLog_def require_rows_def Let_def
  by (intro calm_rules | simp split: option.split if_split add: calm_rules)+

section \<open>Steps of a handler\<close>

text \<open>Such a step keeps the claims, and a store that answers.\<close>

definition steady :: "'m World \<Rightarrow> 'm World \<Rightarrow> bool" where
  "steady w w' \<longleftrightarrow> claims_kept w w' \<and> (calm w \<longrightarrow> calm w')"

lemma steady_trans: "steady w w1 \<Longrightarrow> steady w1 w2 \<Longrightarrow> steady w w2"
  by (auto simp: steady_def intro: claims_kept_trans)

lemma steady_refl: "steady w w"
  by (simp add: steady_def claims_kept_refl)

lemma store_calm: "calm_op op \<Longrightarrow> calm w \<Longrightarrow> store op w = (r, w') \<Longrightarrow> calm w'"
  by (cases "wo_db w") (auto simp: calm_def store_def split: prod.splits dest: calm_opD)

lemma audit_steady: "steady w (audit sv a b c d w)"
proof -
  have "calm w \<Longrightarrow> calm (audit sv a b c d w)"
    using store_calm [OF calm_ops(2) _ prod.collapse [symmetric]] by (auto simp: audit_def)
  then show ?thesis by (simp add: steady_def quiet_kept)
qed

lemma controller_steady: "controller f w = (x, w') \<Longrightarrow> steady w w'"
  using controller_tables [of f w x w'] by (auto simp: steady_def calm_def controller_def split: prod.splits)

lemma modem_steady: "modem f w = (x, w') \<Longrightarrow> steady w w'"
  using modem_tables [of f w x w'] by (auto simp: steady_def calm_def modem_def split: prod.splits)

lemma rec_db_calm: "calm_op op \<Longrightarrow> rec_db op r = (x, r') \<Longrightarrow> snd (rw_db r) = [] \<Longrightarrow> snd (rw_db r') = []"
  by (cases "rw_db r") (auto simp: rec_db_def split: prod.splits dest: calm_opD)

lemma rec_Stop_calm:
  assumes "rec_Stop now i r = (y, r')" and "snd (rw_db r) = []"
  shows "snd (rw_db r') = []"
proof -
  have save: "snd (rw_db b) = []" if "save_recording n x a = (z, b)" "snd (rw_db a) = []" for n x a z b
    using that rec_db_calm [OF calm_ops(5)] by (auto simp: save_recording_def split: prod.splits sum.splits)
  have link: "snd (rw_db (link_quietly x a)) = []" if "snd (rw_db a) = []" for x a
    using that rec_db_calm [OF calm_ops(6) prod.collapse [symmetric]] by (simp add: link_quietly_def)
  show ?thesis using assms
    by (auto simp: rec_Stop_def Let_def publish_rec_def link dest: save split: option.splits prod.splits sum.splits)
qed

lemma stop_recording_steady: "steady w (stop_recording sv now c w)"
proof -
  obtain x r where s: "rec_Stop now (ca_ID c) (wo_rec w) = (x, r)" by fastforce
  have rest: "calm (w\<lparr>wo_rec := r, wo_tasks := ts\<rparr>)" "calm (w\<lparr>wo_rec := r\<rparr>)" if "calm w" for ts
    using rec_Stop_calm [OF s] that by (simp_all add: calm_def)
  have "calm (audit sv a b d e (w\<lparr>wo_rec := r\<rparr>))" if "calm w" for a b d e
    using audit_steady [of "w\<lparr>wo_rec := r\<rparr>" sv a b d e] rest(2) that by (simp add: steady_def)
  then have "calm w \<Longrightarrow> calm (stop_recording sv now c w)"
    using rest by (auto simp: stop_recording_def recorder_def s split: sum.splits)
  then show ?thesis by (simp add: steady_def stop_recording_kept)
qed

lemma publish_steady: "steady w (publish_event sv s k v w)"
  by (simp add: steady_def publish_event_kept) (simp add: calm_def publish_event_def)

lemma persistCall_steady: "persistCall sv now c e w = (r, w') \<Longrightarrow> steady w w'"
proof -
  assume run: "persistCall sv now c e w = (r, w')"
  let ?w1 = "set_active (if ca_EndedAt c \<noteq> None then None else Some (ca_ID c)) w"
  obtain x w2 where s: "store (SaveCall (call_record c)) ?w1 = (x, w2)" by fastforce
  have first: "calm w \<Longrightarrow> calm ?w1" by (simp add: calm_def set_active_def)
  have second: "calm ?w1 \<Longrightarrow> calm w2" by (rule store_calm [OF calm_ops(1) _ s])
  have third: "calm w2 \<Longrightarrow> calm (publish_event sv n k v (stop_recording sv now c w2))"
    "calm w2 \<Longrightarrow> calm (publish_event sv n k v w2)" for n k v
    using stop_recording_steady [of w2 sv now c] publish_steady unfolding steady_def by blast+
  have "calm w \<Longrightarrow> calm w'"
    using run first second third unfolding persistCall_def Let_def s by (auto split: if_splits sum.splits)
  with persistCall_kept [OF run] show ?thesis by (simp add: steady_def)
qed

lemma persist_steady: "steady w (snd (persistCall sv now c e w))"
  by (rule persistCall_steady [OF prod.collapse [symmetric]])

lemma close_steady: "steady w (closeWebRTC i w)"
  by (simp add: steady_def close_kept) (simp add: calm_def closeWebRTC_def)

lemma finish_steady: "finish_call now i w = (x, w') \<Longrightarrow> steady w w'"
  by (auto simp: finish_call_def split: prod.splits option.splits dest: controller_steady)

lemma event_steady: "steady w (HandleModemEvent sv now ev w)"
  unfolding HandleModemEvent_def Let_def
  by (auto split: prod.splits option.splits dest!: controller_steady finish_steady
      intro: steady_refl steady_trans [OF _ persist_steady] steady_trans [OF _ close_steady]
        steady_trans [OF steady_trans [OF _ persist_steady]])

lemma persist_if_ok_steady: "steady w (persist_if_ok sv now (controller f w))"
  unfolding persist_if_ok_def
  by (auto split: prod.splits option.splits dest!: controller_steady intro: steady_trans [OF _ persist_steady])

lemma meantime_steady: "steady w (meantime sv now steps w)"
  unfolding meantime_def
proof (induction steps arbitrary: w)
  case (Cons x steps)
  have "steady w (interfere sv now x w)"
    by (cases x) (auto simp: on_media_state_def event_steady steady_refl
        intro: persist_if_ok_steady steady_trans [OF persist_if_ok_steady close_steady])
  then show ?case using Cons.IH by (auto intro: steady_trans)
qed (simp add: steady_refl)

section \<open>Operations that record their answer\<close>

definition recorded :: "idempotency_key \<Rightarrow> Response \<Rightarrow> 'm World \<Rightarrow> bool" where
  "recorded key resp w \<longleftrightarrow> rp_HasMore resp = None \<and>
     map_of (db_idempotency (wo_tables w)) key = Some (rp_Status resp, rp_Body resp)"

text \<open>How an operation ends in a world: with a recorded error, or with a recorded answer and an audit entry.\<close>

definition settles :: "Server \<Rightarrow> idempotency_key \<Rightarrow> 'm World \<Rightarrow> Response \<Rightarrow> 'm World \<Rightarrow> bool" where
  "settles sv key w resp w' \<longleftrightarrow> (case key of (deviceID, operation, requestID) \<Rightarrow>
     (\<exists>st code msg. st \<noteq> 102 \<and> writeIdempotentError sv deviceID operation requestID st code msg w = (resp, w')) \<or>
     (\<exists>code st body target. st \<noteq> 102 \<and> completed sv code deviceID operation requestID st body
        (audit sv deviceID operation target ''accepted'') w = (resp, w')))"

lemma audit_answers: "db_idempotency (wo_tables (audit sv a b c d w)) = db_idempotency (wo_tables w)"
  by (cases "wo_db w") (auto simp: audit_def store_def AppendAudit_def driver_def set_db_def split: prod.splits)

lemma settles_error:
  "st \<noteq> 102 \<Longrightarrow> writeIdempotentError sv d p q st code msg w = (resp, w') \<Longrightarrow> settles sv (d, p, q) w resp w'"
  unfolding settles_def prod.case by blast

lemma settles_call_error: "writeIdempotentCallError sv d p q e w = (resp, w') \<Longrightarrow> settles sv (d, p, q) w resp w'"
proof -
  assume run: "writeIdempotentCallError sv d p q e w = (resp, w')"
  have "fst (callErrorStatus e) \<noteq> 102" by (cases e rule: callErrorStatus.cases) simp_all
  with run show ?thesis
    by (auto simp: writeIdempotentCallError_def split: prod.splits intro: settles_error)
qed

lemma settles_answer:
  "st \<noteq> 102 \<Longrightarrow> completed sv code d p q st body (audit sv d p target ''accepted'') w = (resp, w') \<Longrightarrow>
     settles sv (d, p, q) w resp w'"
  unfolding settles_def prod.case by blast

lemma settled_is_recorded:
  assumes "settles sv (d, p, q) w resp w'" and "sv_Database sv" and "calm w" and "key_claimed (d, p, q) (wo_tables w)"
  shows "calm w' \<and> recorded (d, p, q) resp w' \<and> rp_Status resp \<noteq> 102"
proof -
  obtain t where db: "wo_db w = (t, [])" using assms(3) by (cases "wo_db w") (simp add: calm_def)
  have claimed: "key_claimed (d, p, q) t" using assms(4) by (simp add: db)
  then have some: "map_of (db_idempotency t) (d, p, q) \<noteq> None" by (auto simp: key_claimed_def map_of_eq_None_iff)
  let ?t = "\<lambda>st body. t\<lparr>db_idempotency :=
    update_rows (\<lambda>(k, _). k = (d, p, q)) (\<lambda>(k, _). (k, st, body)) (db_idempotency t)\<rparr>"
  have entry: "map_of (db_idempotency (?t st body)) (d, p, q) = Some (st, body)" for st body
    using some by (auto simp: map_of_update_rows [where v = "(x, y)" for x y, unfolded prod.case])
  have store: "store (CompleteIdempotency d p q st body) w = (Inr (), set_db (?t st body, []) w)" for st body
    using complete_calm [OF claimed] by (simp add: store_def db)
  from assms(1) consider
    (error) st code msg where "st \<noteq> 102" "writeIdempotentError sv d p q st code msg w = (resp, w')"
  | (answer) code st body target where "st \<noteq> 102"
      "completed sv code d p q st body (audit sv d p target ''accepted'') w = (resp, w')"
    unfolding settles_def prod.case by blast
  then show ?thesis
  proof cases
    case error
    with assms(2) entry show ?thesis
      by (auto simp: writeIdempotentError_def complete_quietly_def store recorded_def calm_def writeRawJSON_def Let_def)
  next
    case answer
    then have w': "w' = audit sv d p target ''accepted'' (set_db (?t st body, []) w)"
      and resp: "resp = writeRawJSON st body"
      using assms(2) by (simp_all add: completed_def store)
    have "calm w'" using audit_steady [of "set_db (?t st body, []) w"] by (simp add: w' steady_def calm_def)
    with entry answer(1) show ?thesis by (simp add: recorded_def w' audit_answers resp writeRawJSON_def)
  qed
qed

lemma replay_recorded:
  assumes "sv_Database sv" and "calm w" and "recorded (d, p, q) resp w" and "rp_Status resp \<noteq> 102"
  shows "fst (claimed sv code d p q run w) = resp"
proof -
  obtain t where db: "wo_db w = (t, [])" using assms(2) by (cases "wo_db w") (simp add: calm_def)
  have entry: "map_of (db_idempotency t) (d, p, q) = Some (rp_Status resp, rp_Body resp)"
    using assms(3) by (simp add: recorded_def db)
  then have "list_ex (\<lambda>(k, _). k = (d, p, q)) (db_idempotency t)" by (force simp: list_ex_iff dest: map_of_SomeD)
  then have "ClaimIdempotency d p q (t, []) = (Inr (False, \<lparr>ir_StatusCode = rp_Status resp, ir_Body = rp_Body resp,
      ir_Pending = False\<rparr>), t, [])"
    using entry assms(4) by (simp add: ClaimIdempotency_def insert_claim_def transaction_def then_do_def driver_def query_def give_def)
  then show ?thesis
    using assms(1,3) by (simp add: claimed_def claimed_with_def claimIdempotency_def store_def db replayIdempotency_def
        writeRawJSON_def recorded_def)
qed

locale recorded_operation = claimed_operation sv code deviceID operation requestID run
  for sv :: Server and code deviceID operation requestID :: string and run :: "'m handler" +
  assumes run_settles: "run w = (resp, w') \<Longrightarrow> \<exists>x. steady w x \<and> settles sv (deviceID, operation, requestID) x resp w'"
begin

lemma answer_recorded:
  assumes "calm w" and "\<not> key_claimed (deviceID, operation, requestID) (wo_tables w)"
    and "claimed sv code deviceID operation requestID run w = (resp, w')"
  shows "calm w' \<and> recorded (deviceID, operation, requestID) resp w' \<and> rp_Status resp \<noteq> 102"
proof -
  obtain t where db: "wo_db w = (t, [])" using assms(1) by (cases "wo_db w") (simp add: calm_def)
  let ?t = "t\<lparr>db_idempotency := db_idempotency t @ [((deviceID, operation, requestID), 102, [])]\<rparr>"
  have "\<not> list_ex (\<lambda>(k, _). k = (deviceID, operation, requestID)) (db_idempotency t)"
    using assms(2) by (auto simp: db key_claimed_def list_ex_iff image_iff)
  then have "ClaimIdempotency deviceID operation requestID (t, []) =
      (Inr (True, \<lparr>ir_StatusCode = 102, ir_Body = [], ir_Pending = True\<rparr>), ?t, [])"
    by (simp add: ClaimIdempotency_def insert_claim_def transaction_def then_do_def driver_def give_def)
  then have run: "run (set_db (?t, []) w) = (resp, w')"
    using assms(3) has_store by (simp add: claimed_def claimed_with_def claimIdempotency_def store_def db)
  from run_settles [OF this] obtain x where x: "steady (set_db (?t, []) w) x"
    and end_of: "settles sv (deviceID, operation, requestID) x resp w'" by blast
  have "calm (set_db (?t, []) w)" "key_claimed (deviceID, operation, requestID) (wo_tables (set_db (?t, []) w))"
    by (simp_all add: calm_def key_claimed_def)
  with x have "calm x" "key_claimed (deviceID, operation, requestID) (wo_tables x)"
    by (auto simp: steady_def claims_kept_def)
  then show ?thesis by (rule settled_is_recorded [OF end_of has_store])
qed

lemma answer_replayed:
  assumes "calm w" and "\<not> key_claimed (deviceID, operation, requestID) (wo_tables w)"
    and "claimed sv code deviceID operation requestID run w = (resp, w1)"
    and "calm w2" and "map_of (db_idempotency (wo_tables w2)) (deviceID, operation, requestID) =
      map_of (db_idempotency (wo_tables w1)) (deviceID, operation, requestID)"
  shows "fst (claimed sv code' deviceID operation requestID other w2) = resp"
  using answer_recorded [OF assms(1-3)] assms(4,5) replay_recorded [OF has_store assms(4)]
  by (simp add: recorded_def)

end

section \<open>Dialling and acting record their answers\<close>

lemma steady_settles:
  "steady w x \<Longrightarrow> settles sv key x resp w' \<Longrightarrow> \<exists>x. steady w x \<and> settles sv key x resp w'"
  by blast




lemma action_settles:
  assumes "action_claimed sv cm (meantime sv now steps) now2 action d req digit i w = (resp, w')"
  shows "\<exists>x. steady w x \<and> settles sv (d, ''call.'' @ action, req) x resp w'"
proof -
  let ?m = "meantime sv now steps"
  have modem_then: "steady x (?m y)" if "modem f x = (r, y)" for f x r y
    using modem_steady [OF that] meantime_steady by (rule steady_trans)
  have a: "steady w (snd (answer_effect cm ?m now2 req i w))"
    unfolding answer_effect_def
    by (auto split: prod.splits option.splits sum.splits dest!: controller_steady modem_then intro: steady_trans)
  have h: "steady w (snd (hangup_effect cm ?m now2 action req i w))"
    unfolding hangup_effect_def
    by (auto split: prod.splits option.splits dest!: controller_steady modem_then intro: steady_trans)
  have t: "steady w (snd (dtmf_effect cm ?m digit i w))"
    unfolding dtmf_effect_def
    by (auto split: prod.splits option.splits sum.splits dest!: modem_then intro: steady_refl)
  obtain err ok ch w1 where e: "(if action = ''answer'' then answer_effect cm ?m now2 req i w
      else if action = ''dtmf'' then dtmf_effect cm ?m digit i w else hangup_effect cm ?m now2 action req i w) =
      ((err, ok, ch), w1)" by (metis surj_pair)
  have k1: "steady w w1" using a h t e by (metis snd_conv)
  show ?thesis
  proof (cases err)
    case (Some x)
    let ?w2 = "if \<not> ok \<and> action \<noteq> ''dtmf'' then snd (controller (Rollback req i) w1) else w1"
    let ?w3 = "audit sv d (''call.'' @ action) i ''failed'' ?w2"
    have "steady w1 ?w2" by (simp add: steady_refl controller_steady [OF prod.collapse [symmetric]])
    then have "steady w ?w3" using steady_trans [OF steady_trans [OF k1] audit_steady] by blast
    moreover have "writeIdempotentCallError sv d (''call.'' @ action) req x ?w3 = (resp, w')"
      using assms e Some by (simp add: action_claimed_def Let_def)
    from steady_settles [OF calculation settles_call_error [OF this]] show ?thesis .
  next
    case None
    obtain r w2 where p: "(case ch of None \<Rightarrow> (Inr 0, w1) | Some (c, ev) \<Rightarrow> persistCall sv now2 c ev w1) = (r, w2)" by fastforce
    then have k2: "steady w w2"
      using k1 by (auto split: option.splits intro: steady_trans dest: persistCall_steady)
    let ?w3 = "if action = ''hangup'' \<or> action = ''reject'' then closeWebRTC i w2 else w2"
    have k3: "steady w ?w3" using k2 by (auto intro: steady_trans close_steady)
    show ?thesis
    proof (cases r)
      case (Inl x)
      with assms e None p have "writeIdempotentError sv d (''call.'' @ action) req 500 ''CB-CALL-004'' (sv_text sv (FromDb x)) w2 =
          (resp, w')" by (simp add: action_claimed_def Let_def)
      from steady_settles [OF k2 settles_error [OF _ this]] show ?thesis by simp
    next
      case (Inr n)
      with assms e None p have "completed sv ''CB-CALL-004'' d (''call.'' @ action) req 204 []
          (audit sv d (''call.'' @ action) i ''accepted'') ?w3 = (resp, w')" by (simp add: action_claimed_def Let_def)
      from steady_settles [OF k3 settles_answer [OF _ this]] show ?thesis by simp
    qed
  qed
qed


interpretation action_recorded: recorded_operation "with_store sv" "''CB-CALL-004''" deviceID "''call.'' @ action" requestID
  "action_claimed (with_store sv) cm (meantime (with_store sv) now steps) now2 action deviceID requestID digit callID"
  for sv cm now steps now2 action deviceID requestID digit callID
  by unfold_locales (rule action_settles)





section \<open>Sending once\<close>

lemma record_status_claims:
  assumes "record_status st m e = (r, m', e')" and "key_claimed k (tables e)"
  shows "key_claimed k (tables e')"
  using assms with_db_preserves [OF _ frame_keeps_claims(7)]
  by (auto simp: record_status_def Let_def split: prod.splits sum.splits)

lemma submit_parts_claims:
  "submit_parts send dest segs m (e, s) = (r, e', s') \<Longrightarrow> key_claimed k (tables e) \<Longrightarrow> key_claimed k (tables e')"
proof (induction segs arbitrary: m e s)
  case Nil
  then show ?case by (auto split: prod.splits sum.splits dest: record_status_claims)
next
  case (Cons seg segs)
  show ?case
  proof (cases "send dest (segment_payload seg) s")
    case (Pair x s1)
    show ?thesis
    proof (cases x)
      case (Inl failure)
      with Cons.prems Pair show ?thesis
        by (auto simp: Let_def split: prod.splits sum.splits dest: record_status_claims)
    next
      case (Inr u)
      obtain y m1 e1 where r: "record_status ''submitted'' m e = (y, m1, e1)" by (metis surj_pair)
      have k: "key_claimed k (tables e1)" by (rule record_status_claims [OF r Cons.prems(2)])
      show ?thesis
      proof (cases y)
        case (Inl err)
        with Cons.prems(1) Pair Inr r k show ?thesis by simp
      next
        case y: (Inr m2)
        with Cons.prems(1) Pair Inr r have "submit_parts send dest segs m2 (e1, s1) = (r, e', s')"
          by simp
        then show ?thesis using k by (rule Cons.IH)
      qed
    qed
  qed
qed

lemma engine_send_kept: "engine_send send cref fresh now dest body w = (x, w') \<Longrightarrow> claims_kept w w'"
proof -
  assume run: "engine_send send cref fresh now dest body w = (x, w')"
  let ?e = "\<lparr>en_db = wo_db w, en_assembler = wo_assembler w\<rparr>"
  obtain y e m where s: "Send send cref fresh now dest body (?e, wo_modem w) = (y, e, m)" by (metis surj_pair)
  have "key_claimed k (tables e)" if "key_claimed k (tables ?e)" for k
  proof -
    have stored: "key_claimed k (tables e')" if "with_db (InsertMessage m0) ?e = (r, e')" for m0 r e'
      using with_db_preserves [OF that frame_keeps_claims(6)] \<open>key_claimed k (tables ?e)\<close> by simp
    show ?thesis
      using s that by (auto simp: Send_def Let_def split: sum.splits option.splits prod.splits
          dest: stored intro: submit_parts_claims [OF _ stored])
  qed
  with run s show ?thesis by (auto simp: engine_send_def claims_kept_def set_db_def)
qed

lemma send_claimed_kept:
  assumes "send_claimed sv send cref fresh now now2 d q dest body w = (resp, w')"
  shows "claims_kept w w'"
proof -
  obtain ok w1 where a: "allowSMSSend now d w = (ok, w1)" by fastforce
  have k1: "claims_kept w w1" using a by (auto simp: allowSMSSend_def claims_kept_def split: if_splits)
  obtain m err w2 where s: "engine_send send cref fresh now2 dest body w1 = ((m, err), w2)" by (metis surj_pair)
  have k2: "claims_kept w w2" by (rule claims_kept_trans [OF k1 engine_send_kept [OF s]])
  have answer: "claims_kept x (HandleMessage sv (Some y) (audit sv d send_operation i ''accepted'' x))" for x y i
    unfolding HandleMessage_def option.case by (rule claims_kept_trans [OF quiet_kept(1) publish_event_kept])
  show ?thesis
    using assms a s k2
    by (auto simp: send_claimed_def Let_def split: bool.splits option.splits
        intro: k2 claims_kept_trans [OF claims_kept_trans [OF k2 quiet_kept(1)] quiet_kept(2)]
        dest!: claims_kept_trans [OF k1 writeIdempotentError_kept] claims_kept_trans [OF k2 completed_kept [OF _ answer]])
qed

interpretation sending: claimed_operation "with_store sv" "''CB-SMS-004''" deviceID send_operation requestID
  "send_claimed (with_store sv) send cref fresh now now2 deviceID requestID dest body"
  for sv send cref fresh now now2 deviceID requestID dest body
  by unfold_locales (simp_all add: send_claimed_kept)

lemma send_cases:
  assumes "authorize sv now r w = (Inr deviceID, w1)" and "idempotencyKey r = Inr requestID"
  obtains resp where "sendMessage sv send cref fresh now now2 decoded r w = (resp, w1)"
  | dest body where "sendMessage sv send cref fresh now now2 decoded r w =
      claimed sv ''CB-SMS-004'' deviceID send_operation requestID
        (send_claimed sv send cref fresh now now2 deviceID requestID dest body) w1"
proof (cases "sv_SMS sv \<and> sv_Database sv \<and> (\<exists>to0 body0. decoded = Some (to0, body0) \<and> trim_space to0 \<noteq> [] \<and>
    length (trim_space to0) \<le> 32 \<and> trim_runes body0 \<noteq> [] \<and> length (trim_runes body0) \<le> 10000)")
  case True
  then obtain to0 body0 where "decoded = Some (to0, body0)" "sv_SMS sv" "sv_Database sv" "trim_space to0 \<noteq> []"
    "length (trim_space to0) \<le> 32" "trim_runes body0 \<noteq> []" "length (trim_runes body0) \<le> 10000" by blast
  with assms that(2) [of "trim_space to0" "trim_runes body0"] show thesis
    by (simp add: sendMessage_def authorized_def keyed_def Let_def)
next
  case False
  with assms have "\<exists>resp. sendMessage sv send cref fresh now now2 decoded r w = (resp, w1)"
    by (cases decoded) (auto simp: sendMessage_def authorized_def keyed_def Let_def)
  with that(1) show thesis by blast
qed

text \<open>C3: a message is sent at most once: if a request to send did anything at all, then every later request of the same device
  with the same key, whatever it asks to send and whatever the store went through in between, leaves tables and modem as
  they are, so nothing more is handed to the network.\<close>

theorem send_once_per_key:
  fixes sv and w w1 w2 w3 :: "'m World"
  defines "gw \<equiv> with_store sv"
  assumes first: "sendMessage gw send cref1 fresh1 now1 clock1 decoded1 r1 w = (resp1, w1)"
    and device1: "authorize gw now1 r1 w = (Inr deviceID, u1)" and key1: "idempotencyKey r1 = Inr requestID"
    and effect: "\<not> untouched w w1"
    and later: "db_steps (wo_tables w1) (wo_tables w2)"
    and second: "sendMessage gw send cref2 fresh2 now2 clock2 decoded2 r2 w2 = (resp2, w3)"
    and device2: "authorize gw now2 r2 w2 = (Inr deviceID, u2)" and key2: "idempotencyKey r2 = Inr requestID"
  shows "untouched w2 w3"
proof -
  have claimed: "key_claimed (deviceID, send_operation, requestID) (wo_tables w1)"
  proof (cases rule: send_cases [OF device1 key1, of send cref1 fresh1 clock1 decoded1])
    case (1 resp)
    with first effect authorize_untouched [OF device1] show ?thesis by simp
  next
    case (2 dest body)
    with first sending.effect_claims [of sv deviceID requestID send cref1 fresh1 now1 clock1 dest body u1 resp1 w1]
    have "untouched u1 w1 \<or> ?thesis" by (simp add: gw_def)
    with effect untouched_trans [OF authorize_untouched [OF device1]] show ?thesis by blast
  qed
  with later have "key_claimed (deviceID, send_operation, requestID) (wo_tables w2)"
    by (rule db_steps_preserve) (rule key_claimed_step)
  with untouched_tables [OF authorize_untouched [OF device2]]
  have spent: "key_claimed (deviceID, send_operation, requestID) (wo_tables u2)" by simp
  have "untouched u2 w3"
  proof (cases rule: send_cases [OF device2 key2, of send cref2 fresh2 clock2 decoded2])
    case (1 resp)
    with second untouched_refl [of u2] show ?thesis by simp
  next
    case (2 dest body)
    have "sv_Database gw" by (simp add: gw_def)
    from claimed_spent [OF this spent] 2 second show ?thesis by (metis snd_conv)
  qed
  with authorize_untouched [OF device2] show ?thesis by (rule untouched_trans)
qed

lemma sample_send:
  "sendMessage (with_store sample_server) send cref fresh 1 2 (Some (''5'', [104])) (sample_request ''POST'' ''/'' ''k'') sample_gateway =
   send_claimed (with_store sample_server) send cref fresh 1 2 [] ''k'' ''5'' [104]
     (set_db (empty_tables\<lparr>db_idempotency := [(([], send_operation, ''k''), 102, [])]\<rparr>, []) sample_gateway)"
proof -
  have body: "trim_runes [104] = [104]" by (simp add: trim_runes_def space_rune_def)
  have "ClaimIdempotency [] send_operation ''k'' (empty_tables, []) =
      (Inr (True, \<lparr>ir_StatusCode = 102, ir_Body = [], ir_Pending = True\<rparr>),
       empty_tables\<lparr>db_idempotency := [(([], send_operation, ''k''), 102, [])]\<rparr>, [])"
    by (simp add: ClaimIdempotency_def insert_claim_def transaction_def then_do_def driver_def give_def empty_tables_def)
  moreover have "wo_db sample_gateway = (empty_tables, [])" by (simp add: sample_gateway_def)
  ultimately have claim: "claimIdempotency (with_store sample_server) [] send_operation ''k'' sample_gateway =
      (Inr (True, \<lparr>ir_StatusCode = 102, ir_Body = [], ir_Pending = True\<rparr>),
       set_db (empty_tables\<lparr>db_idempotency := [(([], send_operation, ''k''), 102, [])]\<rparr>, []) sample_gateway)"
    by (simp add: claimIdempotency_def store_def)
  have "sv_SMS sample_server" by (simp add: sample_server_def)
  with claim body show ?thesis
    by (simp add: sendMessage_def authorized_def keyed_def claimed_def claimed_with_def)
qed

theorem send_once_per_key_witness:
  "\<exists>resp w1. sendMessage (with_store sample_server) (\<lambda>dest p m. (Inr ''1'', m @ [dest])) 7 (Some ''m'') 1 2 (Some (''5'', [104]))
       (sample_request ''POST'' ''/'' ''k'') sample_gateway = (resp, w1) \<and> \<not> untouched sample_gateway w1 \<and>
     untouched w1 (snd (sendMessage (with_store sample_server) (\<lambda>dest p m. (Inr ''1'', m @ [dest])) 8 (Some ''n'') 3 4
       (Some (''6'', [105])) (sample_request ''POST'' ''/'' ''k'') w1))"
proof -
  let ?send = "\<lambda>dest p m. (Inr ''1'', m @ [dest])"
  obtain resp w1 where run: "sendMessage (with_store sample_server) ?send 7 (Some ''m'') 1 2 (Some (''5'', [104]))
      (sample_request ''POST'' ''/'' ''k'') sample_gateway = (resp, w1)" by fastforce
  from send_claimed_kept [OF run [unfolded sample_send]] have "key_claimed ([], send_operation, ''k'') (wo_tables w1)"
    by (simp add: claims_kept_def key_claimed_def)
  moreover have "\<not> key_claimed ([], send_operation, ''k'') (wo_tables sample_gateway)"
    by (simp add: sample_gateway_def key_claimed_def empty_tables_def)
  ultimately have effect: "\<not> untouched sample_gateway w1" using untouched_tables by metis
  from send_once_per_key [OF run sample_accepts effect db_steps_refl prod.collapse [symmetric] sample_accepts] run effect
  show ?thesis by blast
qed

end
