(* ===== verification/Agent_Sms.thy ===== *)
theory Agent_Sms
  imports Sms_Roundtrip
begin

text \<open>
  The SMS-SUBMIT encoder of the module agent, \<^verbatim>\<open>module-agent/internal/control/sms_pdu.go\<close>: one UCS-2 segment, written
  apart from the gateway's encoder and shown to build the same PDU.
\<close>

section \<open>The encoder\<close>

text \<open>\<^verbatim>\<open>phoneNumberPattern\<close>, \<open>^[0-9]{3,20}$\<close>.\<close>

definition phone_number :: "string \<Rightarrow> bool" where
  "phone_number s \<longleftrightarrow> list_all is_digit s \<and> 3 \<le> length s \<and> length s \<le> 20"

datatype agent_sms_error = BadTarget | EmptyBody | BodyTooLong | InvalidNumber | InvalidSemiOctet

definition hexDigit :: "char \<Rightarrow> (agent_sms_error, byte) result" where
  "hexDigit c = (if is_digit c then Inr (word_of_nat (digit_val c)) else if c = CHR ''F'' then Inr 0x0f else Inl InvalidSemiOctet)"

fun semi_octets :: "string \<Rightarrow> (agent_sms_error, byte list) result" where
  "semi_octets (c # d # s) =
     (case hexDigit d of Inl e \<Rightarrow> Inl e | Inr high \<Rightarrow>
     (case hexDigit c of Inl e \<Rightarrow> Inl e | Inr low \<Rightarrow>
     (case semi_octets s of Inl e \<Rightarrow> Inl e | Inr octets \<Rightarrow> Inr ((push_bit 4 high OR low) # octets))))"
| "semi_octets _ = Inr []"

definition encodeSemiOctets :: "string \<Rightarrow> (agent_sms_error, byte list) result" where
  "encodeSemiOctets number =
     (if \<not> phone_number number then Inl InvalidNumber
      else semi_octets (if length number mod 2 \<noteq> 0 then number @ ''F'' else number))"

definition buildGSMSMSSubmitPDU :: "string \<Rightarrow> rune_text \<Rightarrow> (agent_sms_error, string) result" where
  "buildGSMSMSSubmitPDU number0 body =
     (let number1 = trim_space number0;
          international = has_prefix number1 ''+'';
          number = (if international then tl number1 else number1);
          units = utf16_encode body
      in if \<not> phone_number number then Inl BadTarget
         else if trim_runes body = [] then Inl EmptyBody
         else if 70 < length units then Inl BodyTooLong
         else (case encodeSemiOctets number of
                 Inl e \<Rightarrow> Inl e
               | Inr address \<Rightarrow>
                   Inr (hex_encode_upper ([0x00, 0x01, 0x00, word_of_nat (length number), (if international then 0x91 else 0x81)] @
                          address @ [0x00, 0x08, word_of_nat (length units * 2)] @ concat (map unit_bytes units)))))"

section \<open>The same PDU as the gateway's\<close>

lemma hexDigit_digit [simp]: "is_digit c \<Longrightarrow> hexDigit c = Inr (word_of_nat (digit_val c))"
  by (simp add: hexDigit_def)

lemma hexDigit_F [simp]: "hexDigit (CHR ''F'') = Inr 0x0f"
  by (simp add: hexDigit_def is_digit_def)

lemma semi_octets_even:
  "list_all is_digit s \<Longrightarrow> even (length s) \<Longrightarrow> semi_octets s = Inr (address_octets s)"
  by (induction s rule: semi_octets.induct) (auto simp: or.commute)

lemma semi_octets_odd:
  "list_all is_digit s \<Longrightarrow> odd (length s) \<Longrightarrow> semi_octets (s @ ''F'') = Inr (address_octets s)"
proof (induction s rule: address_octets.induct)
  case (2 c)
  then show ?case by (simp add: or.commute)
next
  case (3 c d s)
  then show ?case by (auto simp: or.commute)
qed simp

lemma encodeSemiOctets_address: "phone_number s \<Longrightarrow> encodeSemiOctets s = Inr (address_octets s)"
  using semi_octets_even semi_octets_odd by (auto simp: encodeSemiOctets_def phone_number_def odd_iff_mod_2_eq_one)

lemma concat_unit_bytes_length: "length (concat (map unit_bytes us)) = 2 * length us"
  by (induction us) (simp_all add: unit_bytes_def)

lemma agent_encodes_as_gateway:
  assumes "buildGSMSMSSubmitPDU number body = Inr pdu"
  shows "encodeSubmit number body EncodingUCS2 [] = Inr pdu"
proof -
  let ?v = "trim_space number"
  let ?w = "if has_prefix ?v ''+'' then tl ?v else ?v"
  from assms have phone: "phone_number ?w"
    by (simp add: buildGSMSMSSubmitPDU_def Let_def split: if_splits)
  then have "?w \<noteq> []" "list_all is_digit ?w" by (auto simp: phone_number_def)
  then have address: "encodeAddress number =
      Inr ([word_of_nat (length ?w), if has_prefix ?v ''+'' then 0x91 else 0x81] @ address_octets ?w)"
    by (simp add: encodeAddress_def Let_def)
  show ?thesis
    using assms encodeSemiOctets_address [OF phone] phone address
    by (simp add: buildGSMSMSSubmitPDU_def encodeSubmit_def user_data_def concat_unit_bytes_length mult.commute Let_def
        split: if_splits)
qed

text \<open>C36: the agent's encoder and the gateway's build the same PDU: whatever the agent accepts, the gateway encodes as one
  UCS-2 segment to the very same hexadecimal text, for national and international numbers of any accepted length.\<close>

theorem agent_pdu_is_gateway_pdu:
  assumes "buildGSMSMSSubmitPDU number body = Inr pdu"
  shows "encodeSubmit number body EncodingUCS2 [] = Inr pdu"
  using assms by (rule agent_encodes_as_gateway)


text \<open>A greeting of two characters to an international number.\<close>

definition greeting :: rune_text where
  "greeting = [20320, 22909]"

lemma greeting_pdu: "\<exists>pdu. buildGSMSMSSubmitPDU ''+12345'' greeting = Inr pdu"
proof -
  have "phone_number ''12345''" by (simp add: phone_number_def is_digit_def)
  moreover from encodeSemiOctets_address [OF this] obtain address where "encodeSemiOctets ''12345'' = Inr address" by blast
  moreover have "length (utf16_encode greeting) = 2" "trim_runes greeting = greeting"
    by (simp_all add: greeting_def utf16_encode_def utf16_encode_rune_def trim_runes_def space_rune_def)
  moreover have "trim_space ''+12345'' = ''+12345''" by (simp add: graphic_char_def)
  ultimately show ?thesis by (simp add: buildGSMSMSSubmitPDU_def has_prefix_def greeting_def Let_def)
qed

theorem agent_pdu_is_gateway_pdu_witness:
  "\<exists>pdu. buildGSMSMSSubmitPDU ''+12345'' greeting = Inr pdu \<and> encodeSubmit ''+12345'' greeting EncodingUCS2 [] = Inr pdu"
  using greeting_pdu agent_pdu_is_gateway_pdu by blast

text \<open>So the gateway's decoder reads an agent's PDU as what it was built from.\<close>

theorem agent_pdu_decodes:
  assumes "buildGSMSMSSubmitPDU number body = Inr pdu" and "trim_space number = number" and "list_all scalar_value body"
  shows "DecodePDU pdu = Return (empty_message\<lparr>dm_sender := number, dm_encoding := EncodingUCS2, dm_body := body\<rparr>)"
proof -
  have "dialable number" "length (utf16_encode body) \<le> 70"
  proof -
    have "phone_number (if has_prefix number ''+'' then tl number else number)" "length (utf16_encode body) \<le> 70"
      using assms(1,2) by (auto simp: buildGSMSMSSubmitPDU_def Let_def split: if_splits)
    then show "dialable number" "length (utf16_encode body) \<le> 70"
      by (auto simp: dialable_def phone_number_def Let_def simp del: length_tl)
  qed
  with decode_encodeSubmit [of number EncodingUCS2 body "[]"] assms(3) obtain pdu' where
    "encodeSubmit number body EncodingUCS2 [] = Inr pdu'"
    "DecodePDU pdu' = Return ((header_fields [] (empty_message\<lparr>dm_sender := number\<rparr>))\<lparr>dm_encoding := EncodingUCS2, dm_body := body\<rparr>)"
    by (auto simp: encodable_def good_udh_def body_length_def single_limit_def)
  with agent_encodes_as_gateway [OF assms(1)] show ?thesis by (simp add: header_fields_def)
qed

theorem agent_pdu_decodes_witness:
  "\<exists>pdu. buildGSMSMSSubmitPDU ''+12345'' greeting = Inr pdu \<and>
     DecodePDU pdu = Return (empty_message\<lparr>dm_sender := ''+12345'', dm_encoding := EncodingUCS2, dm_body := greeting\<rparr>)"
proof -
  obtain pdu where build: "buildGSMSMSSubmitPDU ''+12345'' greeting = Inr pdu" using greeting_pdu by blast
  have "trim_space ''+12345'' = ''+12345''" "list_all scalar_value greeting"
    by (simp_all add: graphic_char_def greeting_def scalar_value_def)
  from agent_pdu_decodes [OF build this] build show ?thesis by blast
qed

end
