(* ===== verification/Agent_Control.thy ===== *)
theory Agent_Control
  imports Agent_Sms
begin

text \<open>
  The module agent's control adapter, \<^verbatim>\<open>module-agent/internal/control/control.go\<close>. The vendor console is a process:
  what it has printed so far is read in snapshots, given as lists, the last when the wait ends. What is here is how its
  output is read, the call session, and the two ways an SMS goes out: the console, and a serial port behind it.
\<close>

section \<open>Reading the console\<close>

datatype control_error = CtlUnsupported | CtlUnavailable | CtlText string

record Line =
  ln_LineID :: string
  ln_SIM :: string
  ln_Registration :: string
  ln_Signal :: int
  ln_Voice :: bool
  ln_SMS :: bool
  ln_DTMF :: bool

definition letters_or_underscore :: "char \<Rightarrow> bool" where
  "letters_or_underscore c \<longleftrightarrow> (let n = of_char (to_upper_char c) :: nat in (65 \<le> n \<and> n \<le> 90) \<or> n = 95)"

text \<open>\<^verbatim>\<open>callStatePattern\<close>: a whole line, in either case; its group.\<close>

definition call_state_line :: "string \<Rightarrow> string option" where
  "call_state_line l =
     (let rest = drop 11 l
      in if to_lower (take 11 l) = ''call state '' \<and> rest \<noteq> [] \<and> list_all letters_or_underscore rest then Some rest else None)"

definition parseCallState :: "string \<Rightarrow> string option" where
  "parseCallState output =
     (case List.map_filter call_state_line (split_char newline output) of
        [] \<Rightarrow> None
      | matches \<Rightarrow>
          let state = to_upper (last matches)
          in if state \<in> {''ORIGINATION'', ''CC_IN_PROGRESS'', ''ALERTING''} then Some ''connecting''
             else if state = ''CONVERSATION'' then Some ''active''
             else if state \<in> {''DISCONNECTING'', ''END''} then Some ''ended'' else None)"

text \<open>\<^verbatim>\<open>signalPattern\<close>: the first of the two words that is followed, behind anything but digits and signs, by a number.\<close>

definition number_behind :: "string \<Rightarrow> string option" where
  "number_behind s =
     (let t = dropWhile (\<lambda>c. \<not> is_digit c \<and> c \<noteq> CHR ''-'') s;
          (sign, u) = (case t of c # r \<Rightarrow> if c = CHR ''-'' then ([c], r) else ([], t) | [] \<Rightarrow> ([], []));
          digits = takeWhile is_digit u
      in if digits = [] then None else Some (sign @ digits))"

fun signal_match :: "string \<Rightarrow> string option" where
  "signal_match [] = None"
| "signal_match (c # s) =
     (case (if has_prefix (to_lower (c # s)) ''rssi'' then number_behind (drop 4 (c # s))
            else if has_prefix (to_lower (c # s)) ''signal'' then number_behind (drop 6 (c # s)) else None) of
        Some v \<Rightarrow> Some v
      | None \<Rightarrow> signal_match s)"

definition parseSignal :: "string \<Rightarrow> int" where
  "parseSignal output =
     (case signal_match output of
        None \<Rightarrow> 0
      | Some digits \<Rightarrow>
          (case atoi digits of
             None \<Rightarrow> 0
           | Some v \<Rightarrow> if v < 0 then 0 else if 5 < v then 5 else v))"

text \<open>\<^verbatim>\<open>imsiPattern\<close>: a whole line.\<close>

definition imsi_line :: "string \<Rightarrow> bool" where
  "imsi_line l \<longleftrightarrow> has_prefix l ''IMSI is '' \<and> list_all is_digit (drop 8 l) \<and> 6 \<le> length (drop 8 l) \<and> length (drop 8 l) \<le> 20"

definition registration_of :: "string \<Rightarrow> string" where
  "registration_of output =
     (let r1 = (if str_contains output ''Registered with a network'' then ''registered'' else ''unknown'');
          r2 = (if str_contains output ''Registration denied'' then ''denied'' else r1)
      in if str_contains output ''Packet switch domain attach state'' \<and> str_contains output ''Attached'' \<and> r2 = ''unknown''
         then ''registered'' else r2)"

definition status_line :: "string \<Rightarrow> Line" where
  "status_line output =
     \<lparr>ln_LineID = ''module:qdc507'',
      ln_SIM = (if list_ex imsi_line (split_char newline output) then ''ready'' else ''unknown''),
      ln_Registration = registration_of output, ln_Signal = parseSignal output,
      ln_Voice = False, ln_SMS = False, ln_DTMF = False\<rparr>"

text \<open>The lines \<^verbatim>\<open>feedSimpleRIL\<close> types into the console; \<open>waits\<close> says which of its pauses end before the deadline.\<close>

fun feed_lines :: "bool list \<Rightarrow> string list \<Rightarrow> string list" where
  "feed_lines waits [] = []"
| "feed_lines waits (l # ls) =
     (let line = trim_space l
      in if line = [] then feed_lines waits ls
         else line # (if line = ''quit'' \<or> waits = [] \<or> \<not> hd waits then [] else feed_lines (tl waits) ls))"

definition feedSimpleRIL :: "bool list \<Rightarrow> string \<Rightarrow> string list" where
  "feedSimpleRIL waits input =
     (if waits = [] \<or> \<not> hd waits then [] else feed_lines (tl waits) (split_char newline input))"

section \<open>The call session\<close>

text \<open>The session of a call is the list of the lines typed into its console.\<close>

record SimpleRILAdapter =
  ri_Path :: string
  ri_EnableVerifiedCall :: bool
  ri_EnableVerifiedSMS :: bool
  ri_active :: "string list option"

record AgentCall =
  ac_ID :: string
  ac_LineID :: string
  ac_Peer :: string
  ac_Direction :: string
  ac_State :: string

definition callIDForPeer :: "string \<Rightarrow> string" where
  "callIDForPeer peer = ''module:qdc507:'' @ peer"

definition waitForCallState :: "string list \<Rightarrow> string option" where
  "waitForCallState snapshots = (case List.map_filter parseCallState snapshots of [] \<Rightarrow> None | s # _ \<Rightarrow> Some s)"

definition waitForEndedState :: "string list \<Rightarrow> bool" where
  "waitForEndedState snapshots = list_ex (\<lambda>out. parseCallState out = Some ''ended'') snapshots"

text \<open>\<open>output\<close> is what \<^verbatim>\<open>runConsole\<close> made of the status queries.\<close>

definition ril_Status :: "(string, string) result \<Rightarrow> SimpleRILAdapter \<Rightarrow> (control_error, Line) result" where
  "ril_Status output a =
     (if ri_Path a = [] then Inl CtlUnavailable
      else if ri_active a \<noteq> None then Inl CtlUnavailable
      else (case output of Inl e \<Rightarrow> Inl (CtlText e) | Inr text \<Rightarrow> Inr (status_line text)))"

text \<open>\<open>started\<close> is the error of starting the console and typing the command, \<open>snapshots\<close> its output while the wait lasts.\<close>

definition ril_Dial ::
  "string option \<Rightarrow> string list \<Rightarrow> string \<Rightarrow> SimpleRILAdapter \<Rightarrow> (control_error, AgentCall) result \<times> SimpleRILAdapter" where
  "ril_Dial started snapshots peer0 a =
     (if \<not> ri_EnableVerifiedCall a then (Inl CtlUnsupported, a)
      else
        let peer = trim_space peer0
        in if \<not> phone_number peer then (Inl (CtlText ''dial target must contain 3 to 20 digits''), a)
           else if ri_Path a = [] then (Inl CtlUnavailable, a)
           else if ri_active a \<noteq> None then (Inl (CtlText ''a module call is already active''), a)
           else (case started of
                   Some e \<Rightarrow> (Inl (CtlText e), a)
                 | None \<Rightarrow>
                     (case waitForCallState snapshots of
                        None \<Rightarrow> (Inl (CtlText ''dial returned no verified radio call state''), a)
                      | Some state \<Rightarrow>
                          (Inr \<lparr>ac_ID = callIDForPeer peer, ac_LineID = ''module:qdc507'', ac_Peer = peer,
                             ac_Direction = ''outbound'', ac_State = state\<rparr>,
                           if state = ''ended'' then a else a\<lparr>ri_active := Some [''dial '' @ peer]\<rparr>))))"

definition ril_Hangup ::
  "string option \<Rightarrow> string list \<Rightarrow> SimpleRILAdapter \<Rightarrow> control_error option \<times> SimpleRILAdapter" where
  "ril_Hangup typed snapshots a =
     (if \<not> ri_EnableVerifiedCall a then (Some CtlUnsupported, a)
      else if ri_Path a = [] then (Some CtlUnavailable, a)
      else (case ri_active a of
              None \<Rightarrow> (Some CtlUnavailable, a)
            | Some _ \<Rightarrow>
                ((case typed of
                    Some e \<Rightarrow> Some (CtlText e)
                  | None \<Rightarrow> if waitForEndedState snapshots then None
                            else Some (CtlText ''hangup returned no verified radio END state'')),
                 a\<lparr>ri_active := None\<rparr>)))"

section \<open>The result of an SMS on the console\<close>

definition underscores_to_spaces :: "string \<Rightarrow> string" where
  "underscores_to_spaces s = map (\<lambda>c. if c = CHR ''_'' then CHR '' '' else c) s"

text \<open>The value a line gives to a label: the field behind the label's words, if it is a number.\<close>

definition labelled_value :: "string list \<Rightarrow> string \<Rightarrow> int option" where
  "labelled_value label line =
     (let fs = Gateway_Prelude.fields (underscores_to_spaces line)
      in if length fs \<le> length label then None
         else if \<not> list_all2 equal_fold (take (length label) fs) label then None
         else atoi (fs ! length label))"

definition parseSMSInteger :: "string \<Rightarrow> string \<Rightarrow> int option" where
  "parseSMSInteger output label =
     (case List.map_filter (labelled_value (Gateway_Prelude.fields (underscores_to_spaces label))) (split_char newline output) of
        [] \<Rightarrow> None | v # _ \<Rightarrow> Some v)"

record smsTerminalResult =
  tr_code :: int
  tr_details :: "(string \<times> int option) list"

definition result_labels :: "string list" where
  "result_labels = [''MESSAGE ID'', ''CAUSE CODE VALID'', ''CAUSE CODE'', ''ERROR CLASS VALID'', ''ERROR CLASS'']"

definition parseSMSTerminalResult :: "string \<Rightarrow> smsTerminalResult option" where
  "parseSMSTerminalResult output =
     (case parseSMSInteger output ''RESULT CODE'' of
        None \<Rightarrow> None
      | Some code \<Rightarrow> Some \<lparr>tr_code = code, tr_details = map (\<lambda>l. (l, parseSMSInteger output l)) result_labels\<rparr>)"

fun join_text :: "string \<Rightarrow> string list \<Rightarrow> string" where
  "join_text sep [] = []"
| "join_text sep [s] = s"
| "join_text sep (s # t # ss) = s @ sep @ join_text sep (t # ss)"

definition result_summary :: "smsTerminalResult \<Rightarrow> string" where
  "result_summary r = join_text ''; '' ((''RESULT CODE '' @ itoa (tr_code r)) #
     List.map_filter (\<lambda>(l, v). map_option (\<lambda>i. l @ '' '' @ itoa i) v) (tr_details r))"

text \<open>What one snapshot decides: acceptance, rejection with its text, or nothing yet.\<close>

definition sms_verdict :: "string \<Rightarrow> (string, unit) result option" where
  "sms_verdict v =
     (case parseSMSTerminalResult v of
        Some r \<Rightarrow> Some (if tr_code r = 0 then Inr () else Inl (''SMS rejected by QMI: '' @ result_summary r))
      | None \<Rightarrow>
          if str_contains v ''SUCCESS (UNCONDITIONAL)'' then Some (Inr ())
          else if str_contains v ''ERROR ('' then Some (Inl ''SMS rejected by QMI'') else None)"

text \<open>\<open>ended\<close> is the text of the error with which the wait ends, of the context or of the timer.\<close>

definition waitForSMSResult :: "string \<Rightarrow> string list \<Rightarrow> (string, unit) result" where
  "waitForSMSResult ended snapshots =
     (case List.map_filter sms_verdict snapshots of [] \<Rightarrow> Inl ended | r # _ \<Rightarrow> r)"

section \<open>A serial port behind the console\<close>

text \<open>What happens on an open port: a chunk arrives, 400 ms pass without one, or a read fails. The flag says that the
  deadline of the running command has passed by then; no more events: the context has ended.\<close>

datatype port_event = Arrive string | Quiet | Failed

type_synonym port_stream = "(port_event \<times> bool) list"

definition final_marker :: "string \<Rightarrow> bool" where
  "final_marker s \<longleftrightarrow> str_contains s ''OK'' \<or> str_contains s ''ERROR'' \<or> str_contains s ''>''"

definition collected_enough :: "string \<Rightarrow> string \<Rightarrow> bool" where
  "collected_enough expect s \<longleftrightarrow> (expect \<noteq> [] \<and> str_contains s expect) \<or>
     (final_marker s \<and> (if expect = ''>'' then str_contains s ''>'' else str_contains s ''OK'')) \<or> str_contains s ''ERROR''"

text \<open>The loop of \<^verbatim>\<open>sendCollect\<close>. Every pass starts a goroutine that reads; one whose pass gave up after 400 ms stays blocked
  in its read. \<open>k\<close> counts these: the descriptor's lock serves readers in the order they came, so they get what
  arrives first, and nobody looks at it. The result is the collected text, the readers left behind and the rest.\<close>

fun collect :: "string \<Rightarrow> port_stream \<Rightarrow> nat \<Rightarrow> string \<Rightarrow> string \<times> nat \<times> port_stream" where
  "collect expect [] k acc = (acc, Suc k, [])"
| "collect expect ((Arrive chunk, late) # es) k acc =
     (if 0 < k then collect expect es (k - 1) acc
      else
        let acc' = acc @ chunk
        in if collected_enough expect acc' \<or> late then (acc', 0, es) else collect expect es 0 acc')"
| "collect expect ((Quiet, late) # es) k acc =
     (if (acc \<noteq> [] \<and> final_marker acc) \<or> late then (acc, Suc k, es) else collect expect es (Suc k) acc)"
| "collect expect ((Failed, late) # es) k acc =
     (if 0 < k then collect expect es (k - 1) acc else if late then (acc, 0, es) else collect expect es 0 acc)"

definition escape_key :: string where "escape_key = [char_of (27 :: nat)]"

definition submit_key :: string where "submit_key = [char_of (26 :: nat)]"

text \<open>The steps of \<^verbatim>\<open>tryATPort\<close> on an open port whose writes succeed: what it returns and what it wrote.\<close>

definition tryATPort :: "string \<Rightarrow> nat \<Rightarrow> string \<Rightarrow> port_stream \<Rightarrow> string option \<times> string list" where
  "tryATPort port pduLen pdu stream =
     (case collect [] stream 0 [] of (_, k0, s0) \<Rightarrow>
      case collect ''OK'' s0 k0 [] of (out1, k1, s1) \<Rightarrow>
        let at = ''AT'' @ [carriage_return]; sent1 = [escape_key, at]
        in if \<not> str_contains out1 ''OK'' then (Some (''AT not ready on '' @ port), sent1)
           else (case collect ''OK'' s1 k1 [] of (out2, k2, s2) \<Rightarrow>
             let sent2 = sent1 @ [''AT+CMGF=0'' @ [carriage_return]]
             in if \<not> str_contains out2 ''OK'' then (Some (''CMGF failed on '' @ port), sent2)
                else (case collect ''>'' s2 k2 [] of (out3, k3, s3) \<Rightarrow>
                  let sent3 = sent2 @ [''AT+CMGS='' @ nat_to_string pduLen @ [carriage_return]]
                  in if \<not> str_contains out3 ''>'' then (Some (''no > prompt on '' @ port), sent3 @ [escape_key])
                     else (case collect ''OK'' s3 k3 [] of (out4, k4, s4) \<Rightarrow>
                       let sent4 = sent3 @ [pdu @ submit_key]
                       in if str_contains out4 ''+CMGS:'' \<and> str_contains out4 ''OK'' then (None, sent4)
                          else if str_contains out4 ''+CMS ERROR'' then (Some (''CMS ERROR on '' @ port), sent4 @ [escape_key])
                          else if str_contains out4 ''OK'' then (None, sent4)
                          else (Some (''AT SMS no final OK on '' @ port), sent4 @ [escape_key])))))"

definition atPortCandidates :: "string list" where
  "atPortCandidates = [''/dev/at_usb0'', ''/dev/ttyUSB2'', ''/dev/ttyUSB1'', ''/dev/ttyUSB0'', ''/dev/ttyUSB3'', ''/dev/at_mhi0'',
     ''/dev/ttyACM0'']"

text \<open>The ports in order: \<open>streams\<close> gives the events of a port, \<^term>\<open>None\<close> for one that is not there or does not open.\<close>

fun try_ports ::
  "nat \<Rightarrow> string \<Rightarrow> (string \<Rightarrow> port_stream option) \<Rightarrow> string option \<Rightarrow> string list \<Rightarrow> string option \<times> (string \<times> string) list" where
  "try_ports pduLen pdu streams failure [] =
     ((case failure of None \<Rightarrow> Some ''no AT port available for SMS fallback''
       | Some e \<Rightarrow> Some (''AT fallback failed on all ports: '' @ e)), [])"
| "try_ports pduLen pdu streams failure (port # ports) =
     (case streams port of
        None \<Rightarrow> try_ports pduLen pdu streams failure ports
      | Some stream \<Rightarrow>
          (case tryATPort port pduLen pdu stream of (r, sent) \<Rightarrow>
             let log = map (Pair port) sent
             in case r of
                  None \<Rightarrow> (None, log)
                | Some e \<Rightarrow> (case try_ports pduLen pdu streams (Some e) ports of (r', log') \<Rightarrow> (r', log @ log'))))"

text \<open>The forwarders on the host: \<open>answers\<close> is what each made of the request, \<^term>\<open>None\<close> when there was no usable answer.\<close>

definition sendSMSViaHostForwarder :: "bool option list \<Rightarrow> bool" where
  "sendSMSViaHostForwarder answers \<longleftrightarrow> Some True \<in> set answers"

definition sendSMSViaAT ::
  "string \<Rightarrow> bool option list \<Rightarrow> (string \<Rightarrow> port_stream option) \<Rightarrow> string option \<times> (string \<times> string) list" where
  "sendSMSViaAT pdu answers streams =
     (if length pdu div 2 \<le> 1 then (Some ''invalid PDU length for AT'', [])
      else if sendSMSViaHostForwarder answers then (None, [])
      else try_ports (length pdu div 2 - 1) pdu streams None atPortCandidates)"

text \<open>\<open>started\<close> is the error of starting the console, \<open>ended\<close> that of the wait, \<open>snapshots\<close> the console's output.\<close>

definition ril_SendSMS ::
  "string option \<Rightarrow> string \<Rightarrow> string list \<Rightarrow> bool option list \<Rightarrow> (string \<Rightarrow> port_stream option) \<Rightarrow> (agent_sms_error \<Rightarrow> string) \<Rightarrow>
   string \<Rightarrow> rune_text \<Rightarrow> SimpleRILAdapter \<Rightarrow> control_error option" where
  "ril_SendSMS started ended snapshots answers streams error_text dest body a =
     (if \<not> ri_EnableVerifiedSMS a then Some CtlUnsupported
      else if ri_Path a = [] then Some CtlUnavailable
      else (case buildGSMSMSSubmitPDU dest body of
              Inl e \<Rightarrow> Some (CtlText (error_text e))
            | Inr pdu \<Rightarrow>
                (case started of
                   Some e \<Rightarrow> Some (CtlText e)
                 | None \<Rightarrow>
                     (case waitForSMSResult ended snapshots of
                        Inr _ \<Rightarrow> None
                      | Inl e \<Rightarrow>
                          if \<not> str_contains e ''RESULT CODE 1'' \<and> \<not> str_contains e ''SMS rejected'' \<and>
                             \<not> str_contains e ''RESULT CODE'' then Some (CtlText e)
                          else (case fst (sendSMSViaAT pdu answers streams) of
                                  None \<Rightarrow> None
                                | Some f \<Rightarrow> Some (CtlText (e @ ''; AT fallback also failed: '' @ f)))))))"

section \<open>Call states and the status of the line\<close>

text \<open>The last state line the console printed decides, whatever stands around it.\<close>

lemma parseCallState_states: "parseCallState out = Some st \<Longrightarrow> st \<in> {''connecting'', ''active'', ''ended''}"
  by (auto simp: parseCallState_def Let_def split: list.splits if_splits)

lemma waitForCallState_states: "waitForCallState outs = Some st \<Longrightarrow> st \<in> {''connecting'', ''active'', ''ended''}"
  by (induction outs) (auto simp: waitForCallState_def List.map_filter_def dest: parseCallState_states split: if_splits option.splits)

lemma signal_range: "0 \<le> parseSignal out \<and> parseSignal out \<le> 5"
  by (simp add: parseSignal_def split: option.split)

text \<open>A line the agent reports is never more than the console said: no call, SMS or DTMF capability, a signal of 0 to 5,
  a ready SIM only behind an IMSI line, and a registration only behind the text that says so.\<close>

theorem agent_line_is_conservative:
  assumes "ril_Status output a = Inr line"
  shows "\<exists>out. output = Inr out \<and> \<not> ln_Voice line \<and> \<not> ln_SMS line \<and> \<not> ln_DTMF line \<and> ln_Signal line \<in> {0..5} \<and>
     (ln_SIM line = ''ready'' \<longleftrightarrow> (\<exists>l \<in> set (split_char newline out). imsi_line l)) \<and>
     (ln_Registration line = ''registered'' \<longrightarrow>
        str_contains out ''Registered with a network'' \<or> str_contains out ''Attached'') \<and>
     (ln_Registration line = ''denied'' \<longleftrightarrow> str_contains out ''Registration denied'')"
proof -
  from assms obtain out where out: "output = Inr out" "line = status_line out"
    by (auto simp: ril_Status_def split: if_splits sum.splits)
  then show ?thesis
    using signal_range [of out]
    by (intro exI [of _ out]) (simp add: status_line_def registration_of_def Let_def list_ex_iff)
qed

theorem agent_line_is_conservative_witness:
  "\<exists>line. ril_Status (Inr ''IMSI is 460001'') \<lparr>ri_Path = ''q'', ri_EnableVerifiedCall = True, ri_EnableVerifiedSMS = True, ri_active = None\<rparr> =
       Inr line \<and> ln_Signal line \<in> {0..5}"
proof -
  let ?a = "\<lparr>ri_Path = ''q'', ri_EnableVerifiedCall = True, ri_EnableVerifiedSMS = True, ri_active = None\<rparr>"
  have "ril_Status (Inr ''IMSI is 460001'') ?a = Inr (status_line ''IMSI is 460001'')" by (simp add: ril_Status_def)
  with agent_line_is_conservative [OF this] show ?thesis by blast
qed

section \<open>Histories of calls\<close>

text \<open>The operations of one adapter, with what the console does in each of them.\<close>

datatype ril_op =
  DialOp "string option" "string list" string
| HangupOp "string option" "string list"

datatype ril_answer = Dialled "(control_error, AgentCall) result" | HungUp "control_error option"

fun ril_step :: "ril_op \<Rightarrow> SimpleRILAdapter \<Rightarrow> ril_answer \<times> SimpleRILAdapter" where
  "ril_step (DialOp started outs peer) a = (case ril_Dial started outs peer a of (r, a') \<Rightarrow> (Dialled r, a'))"
| "ril_step (HangupOp typed outs) a = (case ril_Hangup typed outs a of (r, a') \<Rightarrow> (HungUp r, a'))"

fun ril_run :: "ril_op list \<Rightarrow> SimpleRILAdapter \<Rightarrow> ril_answer list \<times> SimpleRILAdapter" where
  "ril_run [] a = ([], a)"
| "ril_run (x # xs) a = (case ril_step x a of (r, a') \<Rightarrow> case ril_run xs a' of (rs, a'') \<Rightarrow> (r # rs, a''))"

text \<open>An answer that leaves a call up, and one of a hangup that found a call.\<close>

fun opens :: "ril_answer \<Rightarrow> bool" where
  "opens (Dialled (Inr c)) = (ac_State c \<noteq> ''ended'')"
| "opens _ = False"

fun closes :: "ril_answer \<Rightarrow> bool" where
  "closes (HungUp None) = True"
| "closes (HungUp (Some (CtlText _))) = True"
| "closes _ = False"

text \<open>Calls one after the other: an open one has to be closed before the next, and only an open one is.\<close>

fun one_at_a_time :: "bool \<Rightarrow> ril_answer list \<Rightarrow> bool" where
  "one_at_a_time up [] = True"
| "one_at_a_time up (r # rs) =
     ((opens r \<longrightarrow> \<not> up) \<and> (closes r \<longrightarrow> up) \<and> one_at_a_time (if opens r then True else if closes r then False else up) rs)"

definition call_up :: "SimpleRILAdapter \<Rightarrow> bool" where
  "call_up a \<longleftrightarrow> ri_active a \<noteq> None"

lemma ril_step_call:
  assumes "ril_step x a = (r, a')"
  shows "(opens r \<longrightarrow> \<not> call_up a) \<and> (closes r \<longrightarrow> call_up a) \<and>
     call_up a' = (if opens r then True else if closes r then False else call_up a)"
proof (cases x)
  case (DialOp started outs peer)
  with assms show ?thesis
    by (auto simp: ril_Dial_def Let_def call_up_def split: if_splits option.splits)
next
  case (HangupOp typed outs)
  with assms show ?thesis
    by (auto simp: ril_Hangup_def call_up_def split: if_splits option.splits)
qed

lemma ril_run_one_at_a_time: "one_at_a_time (call_up a) (fst (ril_run xs a))"
proof (induction xs arbitrary: a)
  case (Cons x xs)
  obtain r a' where step: "ril_step x a = (r, a')" by fastforce
  with ril_step_call [OF step] Cons [of a'] show ?case by (simp split: prod.split) (metis fst_conv)
qed simp

lemma ril_run_append: "ril_run (xs @ ys) a = (case ril_run xs a of (rs, a') \<Rightarrow> case ril_run ys a' of (rs', a'') \<Rightarrow> (rs @ rs', a''))"
  by (induction xs arbitrary: a) (simp_all split: prod.splits)

text \<open>However dials and hangups follow each other and whatever the console prints, calls never overlap: between two dials
  that leave a call up there is a hangup that found it, and every hangup that finds a call finds one that was dialled.\<close>

theorem agent_calls_never_overlap:
  "one_at_a_time False (fst (ril_run xs \<lparr>ri_Path = p, ri_EnableVerifiedCall = c, ri_EnableVerifiedSMS = m, ri_active = None\<rparr>))"
proof -
  let ?a = "\<lparr>ri_Path = p, ri_EnableVerifiedCall = c, ri_EnableVerifiedSMS = m, ri_active = None\<rparr>"
  have "call_up ?a = False" by (simp add: call_up_def)
  with ril_run_one_at_a_time [of ?a xs] show ?thesis by metis
qed

text \<open>A hangup that sees no END fails and still forgets the call: the next one finds none, and a new dial is
  accepted as if the line were free.\<close>

theorem unconfirmed_hangup_forgets_call:
  assumes "ri_EnableVerifiedCall a" and "ri_Path a \<noteq> []" and "ri_active a \<noteq> None" and "\<not> waitForEndedState outs"
  shows "ril_run [HangupOp None outs, HangupOp typed outs'] a =
     ([HungUp (Some (CtlText ''hangup returned no verified radio END state'')), HungUp (Some CtlUnavailable)], a\<lparr>ri_active := None\<rparr>)"
  using assms by (auto simp: ril_Hangup_def)

theorem unconfirmed_hangup_forgets_call_witness:
  "ril_run [HangupOp None [], HangupOp None []]
       \<lparr>ri_Path = ''q'', ri_EnableVerifiedCall = True, ri_EnableVerifiedSMS = False, ri_active = Some [''dial 10086'']\<rparr> =
     ([HungUp (Some (CtlText ''hangup returned no verified radio END state'')), HungUp (Some CtlUnavailable)],
      \<lparr>ri_Path = ''q'', ri_EnableVerifiedCall = True, ri_EnableVerifiedSMS = False, ri_active = None\<rparr>)"
  using unconfirmed_hangup_forgets_call
    [of "\<lparr>ri_Path = ''q'', ri_EnableVerifiedCall = True, ri_EnableVerifiedSMS = False, ri_active = Some [''dial 10086'']\<rparr>" "[]" None "[]"]
  by (simp add: waitForEndedState_def)

section \<open>Readers left behind on a port\<close>

definition silent :: "port_stream \<Rightarrow> bool" where
  "silent es \<longleftrightarrow> list_all (\<lambda>e. fst e = Quiet) es"

lemma collect_silent: "silent es \<Longrightarrow> \<exists>k' es'. collect expect es k [] = ([], k', es') \<and> silent es'"
proof (induction es arbitrary: k)
  case (Cons e es)
  then obtain late where "e = (Quiet, late)" "silent es" by (cases e) (auto simp: silent_def)
  with Cons.IH [of "Suc k"] show ?case by auto
qed (simp add: silent_def)

lemma str_contains_Nil [simp]: "str_contains [] p \<longleftrightarrow> p = []"
  by (simp add: str_contains_def)

text \<open>On a port that has nothing to say while it is drained, the reader of the drain stays behind and takes the next chunk:
  a modem that answers the first command in one piece counts as not ready.\<close>

theorem drained_port_not_ready:
  assumes "silent es"
  shows "tryATPort port n pdu ((Quiet, True) # (Arrive reply, late) # es) =
     (Some (''AT not ready on '' @ port), [escape_key, ''AT'' @ [carriage_return]])"
proof -
  obtain k' es' where "collect ''OK'' es 0 [] = ([], k', es')" using collect_silent [OF assms] by blast
  then show ?thesis by (simp add: tryATPort_def Let_def)
qed

theorem drained_port_not_ready_witness:
  "fst (tryATPort ''/dev/ttyUSB2'' 15 ''00'' [(Quiet, True), (Arrive ''OK'', False), (Quiet, False), (Quiet, True)]) =
     Some ''AT not ready on /dev/ttyUSB2''"
  using drained_port_not_ready [of "[(Quiet, False), (Quiet, True)]" "''/dev/ttyUSB2''" 15 "''00''" "''OK''" False]
  by (simp add: silent_def)

text \<open>A port that echoes the first command as a chunk of its own, up to the prompt for the PDU.\<close>

definition up_to_prompt :: "string \<Rightarrow> port_stream \<Rightarrow> port_stream" where
  "up_to_prompt echo es =
     [(Quiet, True), (Arrive echo, False), (Arrive ''OK'', False), (Arrive ''OK'', False), (Arrive ''> '', False)] @ es"

definition submission_writes :: "nat \<Rightarrow> string \<Rightarrow> string list" where
  "submission_writes n pdu = [escape_key, ''AT'' @ [carriage_return], ''AT+CMGF=0'' @ [carriage_return],
     ''AT+CMGS='' @ nat_to_string n @ [carriage_return], pdu @ submit_key]"

lemma contains_literals [simp]:
  "str_contains ''OK'' ''OK''" "str_contains ''> '' ''>''" "\<not> str_contains ''> '' ''OK''"
  by (simp_all add: str_contains_def has_prefix_def)

lemma tryATPort_at_prompt:
  "tryATPort port n pdu (up_to_prompt echo es) =
     (case collect ''OK'' es 0 [] of (out, k, s) \<Rightarrow>
        if str_contains out ''+CMGS:'' \<and> str_contains out ''OK'' then (None, submission_writes n pdu)
        else if str_contains out ''+CMS ERROR'' then (Some (''CMS ERROR on '' @ port), submission_writes n pdu @ [escape_key])
        else if str_contains out ''OK'' then (None, submission_writes n pdu)
        else (Some (''AT SMS no final OK on '' @ port), submission_writes n pdu @ [escape_key]))"
  by (simp add: tryATPort_def up_to_prompt_def submission_writes_def collected_enough_def Let_def split: prod.split)

lemma slow_answer_is_lost:
  assumes "silent es"
  shows "tryATPort port n pdu (up_to_prompt echo ((Quiet, False) # (Arrive reply, late) # es)) =
     (Some (''AT SMS no final OK on '' @ port), submission_writes n pdu @ [escape_key])"
proof -
  obtain k' es' where "collect ''OK'' es 0 [] = ([], k', es')" using collect_silent [OF assms] by blast
  then show ?thesis by (simp add: tryATPort_at_prompt)
qed

lemma submission_key:
  "[] \<noteq> pdu @ submit_key" "escape_key \<noteq> pdu @ submit_key" "x @ [carriage_return] \<noteq> pdu @ submit_key"
proof -
  have "last (pdu @ submit_key) = char_of (26 :: nat)" by (simp add: submit_key_def)
  moreover have "char_of (27 :: nat) \<noteq> (char_of (26 :: nat) :: char)" "char_of (13 :: nat) \<noteq> (char_of (26 :: nat) :: char)"
    by code_simp+
  ultimately show "escape_key \<noteq> pdu @ submit_key" "x @ [carriage_return] \<noteq> pdu @ submit_key"
    by (metis escape_key_def last.simps, metis carriage_return_def last_snoc)
qed (simp add: submit_key_def)

text \<open>The PDUs a port was given.\<close>

definition submitted :: "string \<Rightarrow> (string \<times> string) list \<Rightarrow> (string \<times> string) list" where
  "submitted pdu log = filter (\<lambda>e. snd e = pdu @ submit_key) log"

lemma submitted_writes:
  "submitted pdu (map (Pair port) (submission_writes n pdu)) = [(port, pdu @ submit_key)]"
  "submitted pdu (map (Pair port) (submission_writes n pdu @ [escape_key])) = [(port, pdu @ submit_key)]"
  "submitted pdu (l @ l') = submitted pdu l @ submitted pdu l'"
  using submission_key [of pdu] submission_key(3) [of "''AT''" pdu] submission_key(3) [of "''AT+CMGF=0''" pdu]
    submission_key(3) [of "''AT+CMGS='' @ nat_to_string n" pdu]
  by (simp_all add: submission_writes_def submitted_def)

text \<open>An answer to a submission that comes in one piece after the pause of 400 ms goes to the reader the pause left behind. When
  nothing else arrives on that port, the message, already submitted, is submitted a second time on the next port, and the send
  succeeds with the answer of that one.\<close>

theorem slow_answer_submits_twice:
  assumes "silent es" and "str_contains reply2 ''OK''" and "\<not> str_contains reply2 ''+CMS ERROR''"
    and "streams p = Some (up_to_prompt echo ((Quiet, False) # (Arrive reply, late) # es))"
    and "streams q = Some (up_to_prompt echo2 ((Arrive reply2, late2) # es2))"
  shows "\<exists>log. try_ports n pdu streams None (p # q # ports) = (None, log) \<and>
     submitted pdu log = [(p, pdu @ submit_key), (q, pdu @ submit_key)]"
proof -
  have "tryATPort q n pdu (up_to_prompt echo2 ((Arrive reply2, late2) # es2)) = (None, submission_writes n pdu)"
    using assms(2,3) by (simp add: tryATPort_at_prompt collected_enough_def)
  then have "try_ports n pdu streams None (p # q # ports) =
      (None, map (Pair p) (submission_writes n pdu @ [escape_key]) @ map (Pair q) (submission_writes n pdu))"
    using assms(4,5) slow_answer_is_lost [OF assms(1)] by (simp del: append_assoc map_append)
  then show ?thesis by (simp add: submitted_writes del: append_assoc map_append)
qed

theorem slow_answer_submits_twice_witness:
  "\<exists>log. try_ports 1 ''0001''
       [''/dev/ttyUSB2'' \<mapsto> up_to_prompt ''AT'' [(Quiet, False), (Arrive ''+CMGS: 7 OK'', False), (Quiet, True)],
        ''/dev/ttyUSB1'' \<mapsto> up_to_prompt ''AT'' [(Arrive ''OK'', False)]] None [''/dev/ttyUSB2'', ''/dev/ttyUSB1''] = (None, log) \<and>
     submitted ''0001'' log =
       [(''/dev/ttyUSB2'', ''0001'' @ submit_key), (''/dev/ttyUSB1'', ''0001'' @ submit_key)]"
  by (rule slow_answer_submits_twice [where es = "[(Quiet, True)]" and echo = "''AT''" and reply = "''+CMGS: 7 OK''" and late = False
        and ?reply2.0 = "''OK''" and ?echo2.0 = "''AT''" and ?late2.0 = False and ?es2.0 = "[]"])
    (simp_all add: silent_def str_contains_def has_prefix_def)

end
