(* ===== verification/Agent_Stream.thy ===== *)
theory Agent_Stream
  imports Event_Streams Json_Text "HOL-Library.Word"
begin

text \<open>
  The event stream of the module agent, \<^verbatim>\<open>module-agent/cmd/cellbridge-agent/main.go\<close>: the frames of its websocket, with a
  reader after RFC 6455, and what a client of \<^verbatim>\<open>eventsHandler\<close> is sent.
\<close>

section \<open>Frames\<close>

text \<open>\<^verbatim>\<open>webSocketConnection.writeJSON\<close> on the marshalled bytes: \<^term>\<open>None\<close> when they are too many.\<close>

definition frame_header :: "nat \<Rightarrow> byte list" where
  "frame_header n =
     (if n < 126 then [0x81, word_of_nat n]
      else if n \<le> 65535 then [0x81, 126, word_of_nat (n div 256), word_of_nat n]
      else [0x81, 127, 0, 0, 0, 0, word_of_nat (n div 16777216), word_of_nat (n div 65536), word_of_nat (n div 256), word_of_nat n])"

definition write_frame :: "byte list \<Rightarrow> byte list option" where
  "write_frame payload = (if 64 * 1024 < length payload then None else Some (frame_header (length payload) @ payload))"

text \<open>A client's reader of one unmasked text frame.\<close>

definition take_payload :: "nat \<Rightarrow> byte list \<Rightarrow> (byte list \<times> byte list) option" where
  "take_payload n bs = (if length bs < n then None else Some (take n bs, drop n bs))"

fun big_endian :: "byte list \<Rightarrow> nat" where
  "big_endian [] = 0"
| "big_endian (b # bs) = unat b * 256 ^ length bs + big_endian bs"

definition read_frame :: "byte list \<Rightarrow> (byte list \<times> byte list) option" where
  "read_frame bs =
     (case bs of
        first # n # r \<Rightarrow>
          if first \<noteq> 0x81 then None
          else if n < 126 then take_payload (unat n) r
          else if n = 126 then Option.bind (take_payload 2 r) (\<lambda>(l, r'). take_payload (big_endian l) r')
          else if n = 127 then Option.bind (take_payload 8 r) (\<lambda>(l, r'). take_payload (big_endian l) r')
          else None
      | _ \<Rightarrow> None)"

fun read_frames :: "nat \<Rightarrow> byte list \<Rightarrow> byte list list option" where
  "read_frames 0 bs = (if bs = [] then Some [] else None)"
| "read_frames (Suc n) bs =
     (case read_frame bs of None \<Rightarrow> None | Some (p, r) \<Rightarrow> map_option (Cons p) (read_frames n r))"

lemma unat_byte_of_nat: "unat (word_of_nat n :: byte) = n mod 256"
  by (simp add: unat_of_nat take_bit_eq_mod)

lemma take_payload_append: "n = length p \<Longrightarrow> take_payload n (p @ r) = Some (p, r)"
  by (simp add: take_payload_def)

lemma read_write_frame:
  assumes "write_frame payload = Some bs"
  shows "read_frame (bs @ r) = Some (payload, r)"
proof -
  let ?n = "length payload"
  from assms have n: "?n \<le> 65536" and bs: "bs = frame_header ?n @ payload"
    by (simp_all add: write_frame_def split: if_splits)
  consider "?n < 126" | "126 \<le> ?n" "?n \<le> 65535" | "?n = 65536" using n by linarith
  then show ?thesis
  proof cases
    case 1
    then have "(word_of_nat ?n :: byte) < 126" by (simp add: word_less_nat_alt unat_byte_of_nat)
    with 1 show ?thesis by (simp add: bs frame_header_def read_frame_def unat_byte_of_nat take_payload_append)
  next
    case 2
    have "big_endian [word_of_nat (?n div 256), word_of_nat ?n] = (?n div 256) mod 256 * 256 + ?n mod 256"
      by (simp add: unat_byte_of_nat)
    also have "\<dots> = ?n" using 2 by (simp add: div_mult_mod_eq)
    finally have len: "big_endian [word_of_nat (?n div 256), word_of_nat ?n] = ?n" .
    have head: "take_payload 2 (word_of_nat (?n div 256) # word_of_nat ?n # payload @ r) =
        Some ([word_of_nat (?n div 256), word_of_nat ?n], payload @ r)"
      by (simp add: take_payload_def)
    from 2 show ?thesis
      by (simp add: bs frame_header_def read_frame_def head len take_payload_append del: big_endian.simps)
  next
    case 3
    have len: "big_endian [0, 0, 0, 0, 0, 1, 0, 0] = 65536" by simp
    have head: "take_payload 8 (0 # 0 # 0 # 0 # 0 # 1 # 0 # 0 # payload @ r) = Some ([0, 0, 0, 0, 0, 1, 0, 0], payload @ r)"
      by (simp add: take_payload_def)
    have "(256 :: byte) = 0" "(65536 :: byte) = 0" by simp_all
    then have "frame_header 65536 = [0x81, 127, 0, 0, 0, 0, 0, 1, 0, 0]" by (simp add: frame_header_def)
    with 3 show ?thesis
      by (simp add: bs read_frame_def head len take_payload_append del: big_endian.simps)
  qed
qed

text \<open>C28: whatever events are written, a client that reads frames gets exactly their texts, each in a frame of its own and in
  order, at every length up to the limit of 64 KiB and through all three forms of the length field.\<close>

theorem frames_read_back:
  assumes "map write_frame payloads = map Some frames"
  shows "read_frames (length payloads) (concat frames) = Some payloads"
  using assms
proof (induction payloads arbitrary: frames)
  case (Cons p ps)
  then obtain f fs where "frames = f # fs" "write_frame p = Some f" "map write_frame ps = map Some fs"
    by (cases frames) auto
  with Cons.IH [of fs] show ?case by (simp add: read_write_frame)
qed simp

lemma write_frame_Some: "length p \<le> 65536 \<Longrightarrow> write_frame p = Some (frame_header (length p) @ p)"
  by (simp add: write_frame_def)

theorem frames_read_back_witness:
  "\<exists>fs. map write_frame [replicate 126 8, replicate 65536 9] = map Some fs \<and>
     read_frames 2 (concat fs) = Some [replicate 126 8, replicate 65536 9]"
proof -
  obtain p q :: "byte list" where pq: "p = replicate 126 8" "q = replicate 65536 9" by blast
  then have "length p \<le> 65536" "length q \<le> 65536" by (simp_all only: length_replicate)
  then have "map write_frame [p, q] = map Some [frame_header (length p) @ p, frame_header (length q) @ q]"
    by (simp add: write_frame_Some)
  moreover have "length [p, q] = 2" by simp
  ultimately show ?thesis using frames_read_back [of "[p, q]"] unfolding pq by metis
qed

section \<open>What a client is sent\<close>

text \<open>The handler reads the journal, writes what is missing, and only then subscribes: \<open>during\<close> are the events appended
  in between, \<open>after\<close> those that follow, of which the channel holds 16 while nobody receives.\<close>

definition event_stream ::
  "int \<Rightarrow> (string \<times> 'd \<times> int) list \<Rightarrow> (string \<times> 'd \<times> int) list \<Rightarrow> nat \<Rightarrow> 'd Journal \<Rightarrow> 'd journal_event list option \<times> 'd Journal" where
  "event_stream lastSeq during after channel j =
     (case Since lastSeq j of
        (_, False) \<Rightarrow> (None, j)
      | (missing, True) \<Rightarrow>
          let j1 = journal_Subscribe channel (append_all during j);
              j2 = append_all after j1
          in (Some (missing @ (case map_of (jo_listeners j2) channel of None \<Rightarrow> [] | Some ch \<Rightarrow> ch)), j2))"

definition numbered :: "nat \<Rightarrow> (string \<times> 'd \<times> int) list \<Rightarrow> 'd journal_event list" where
  "numbered seq es = map journal_entry (enumerate (seq + 1) es)"

lemma jo_seq_append_all [simp]: "jo_seq (append_all es j) = jo_seq j + length es"
proof (induction es arbitrary: j)
  case (Cons e es)
  then show ?case by (cases e) (simp add: append_all_def)
qed (simp add: append_all_def)

lemma append_all_append: "append_all (es @ fs) j = append_all fs (append_all es j)"
  by (simp add: append_all_def)

lemma listener_append_all:
  assumes "map_of (jo_listeners j) key = Some ch" and "length ch + length es \<le> 16"
  shows "map_of (jo_listeners (append_all es j)) key = Some (ch @ numbered (jo_seq j) es)"
  using assms
proof (induction es arbitrary: j ch)
  case (Cons e es)
  obtain kind payload unix where e: "e = (kind, payload, unix)" by (cases e) auto
  let ?j = "snd (Append kind payload unix j)"
  have "map_of (jo_listeners ?j) key = Some (ch @ [journal_entry (jo_seq j + 1, e)])"
    using Cons.prems by (simp add: Append_def map_of_map_values chan_send_def journal_entry_def e Let_def)
  from Cons.IH [OF this] Cons.prems(2) show ?case by (simp add: append_all_def numbered_def e)
qed (simp add: append_all_def numbered_def)

lemma append_all_entries_cong:
  assumes "jo_entries k = jo_entries j" and "jo_seq k = jo_seq j" and "jo_limit k = jo_limit j"
  shows "jo_entries (append_all es k) = jo_entries (append_all es j)"
  using assms
proof (induction es arbitrary: k j)
  case (Cons e es)
  obtain kind payload unix where e: "e = (kind, payload, unix)" by (cases e) auto
  from Cons.prems have "jo_entries (snd (Append kind payload unix k)) = jo_entries (snd (Append kind payload unix j))"
    by (simp only: journal_entries_Append)
  then have "jo_entries (append_all es (snd (Append kind payload unix k))) = jo_entries (append_all es (snd (Append kind payload unix j)))"
    by (rule Cons.IH) (simp_all only: Append_simps Cons.prems)
  then show ?case by (simp only: append_all_def e foldl.simps case_prod_conv)
qed (simp add: append_all_def)

lemma append_all_Subscribe:
  "jo_entries (append_all es (journal_Subscribe channel j)) = jo_entries (append_all es j)"
  by (rule append_all_entries_cong) (simp_all add: journal_Subscribe_def)

lemma Since_entries: "jo_entries j = jo_entries k \<Longrightarrow> Since seq j = Since seq k"
  by (simp only: Since_def)

lemma history_last: "es \<noteq> [] \<Longrightarrow> je_Seq (last (history es)) = length es"
proof -
  assume "es \<noteq> []"
  then have ne: "history es \<noteq> []" and "length es - 1 < length es" by (simp_all flip: length_greater_0_conv)
  from last_conv_nth [OF ne] this(2) show ?thesis by (simp add: history_def nth_enumerate_eq)
qed

text \<open>An agent that has appended \<open>es\<close> sends a client at \<open>seq\<close> what that one missed and what is appended once it is
  subscribed, but not what is appended in between; and the client, which has then seen the newest number, is never sent
  it on a later connection either.\<close>

theorem event_stream_gap:
  assumes "0 < limit" and "0 \<le> seq" and "int (length es) - seq \<le> limit" and "length after \<le> 16" and "after \<noteq> []"
    and "int (length after) \<le> limit"
  shows "\<exists>j. event_stream seq during after channel (append_all es (NewJournal limit)) =
       (Some (drop (nat seq) (history es) @ drop (length es + length during) (history (es @ during @ after))), j) \<and>
     je_Seq (last (history (es @ during @ after))) = length es + length during + length after \<and>
     Since (int (length es + length during + length after)) j = ([], True)"
proof -
  let ?j0 = "append_all es (NewJournal limit :: 'a Journal)"
  let ?j1 = "journal_Subscribe channel (append_all during ?j0)"
  let ?j2 = "append_all after ?j1"
  have since: "Since seq ?j0 = (drop (nat seq) (history es), True)"
    using Since_exact [OF assms(1,2), of es] assms(3) by simp
  have "jo_seq ?j1 = length es + length during" by (simp add: journal_Subscribe_def NewJournal_def)
  moreover have "map_of (jo_listeners ?j1) channel = Some []" by (simp add: journal_Subscribe_def)
  ultimately have channel: "map_of (jo_listeners ?j2) channel = Some (numbered (length es + length during) after)"
    using listener_append_all [of ?j1 channel "[]" after] assms(4) by simp
  have suffix: "drop (length es + length during) (history (es @ during @ after)) = numbered (length es + length during) after"
    by (simp add: history_def numbered_def drop_map drop_enumerate)
  have "Since (int (length (es @ during @ after))) (append_all (es @ during @ after) (NewJournal limit)) =
      ([] :: 'a journal_event list, True)"
    using Since_exact [of limit "int (length (es @ during @ after))" "es @ during @ after"] assms(1) by simp
  then have later: "Since (int (length es + length during + length after)) ?j2 = ([], True)"
    using Since_entries [OF append_all_Subscribe [of after channel "append_all during ?j0"]]
    by (simp add: append_all_append add.assoc)
  have "je_Seq (last (history (es @ during @ after))) = length es + length during + length after"
    using history_last [of "es @ during @ after"] assms(5) by simp
  moreover have "event_stream seq during after channel ?j0 =
      (Some (drop (nat seq) (history es) @ drop (length es + length during) (history (es @ during @ after))), ?j2)"
    unfolding event_stream_def since prod.case bool.case Let_def channel option.case suffix ..
  ultimately show ?thesis using later by blast
qed

theorem event_stream_gap_witness:
  "\<exists>j. event_stream 0 [(''line.status'', ''lost'', 2)] [(''line.status'', ''seen'', 3)] 0
       (append_all [(''line.status'', ''old'', 1)] (NewJournal 256)) =
     (Some (drop 0 (history [(''line.status'', ''old'', 1)]) @
        drop 2 (history [(''line.status'', ''old'', 1), (''line.status'', ''lost'', 2), (''line.status'', ''seen'', 3)])), j)"
  using event_stream_gap [of 256 0 "[(''line.status'', ''old'', 1)]" "[(''line.status'', ''seen'', 3)]"
      "[(''line.status'', ''lost'', 2)]" 0] by (auto simp: numeral_2_eq_2)

end
