(* ===== verification/Agent_Server.thy ===== *)
theory Agent_Server
  imports Agent_Control Agent_Stream Net_Address
begin

text \<open>
  The module agent, \<^verbatim>\<open>module-agent/cmd/cellbridge-agent/main.go\<close>: its configuration, its state with the refresh of the line, the
  handlers and the routes. The environment is a map from names to values, an unset name has the empty text. A request body
  is what the JSON decoder made of it, \<^term>\<open>None\<close> for its errors and for one of more than 64 KiB. What the console, the
  forwarders and the serial ports do meanwhile is given with the request.
\<close>

section \<open>Configuration\<close>

record agent_config =
  ag_BindAddr :: string
  ag_Port :: nat
  ag_ServiceIP :: "byte list"
  ag_ServiceName :: string
  ag_DeviceID :: string
  ag_Token :: string
  ag_RILPath :: string
  ag_EnableVerifiedCall :: bool
  ag_EnableVerifiedSMS :: bool
  ag_AllowLoopback :: bool

definition split_port :: "string \<Rightarrow> string" where
  "split_port value = (case last_index_char value (CHR '':'') of None \<Rightarrow> [] | Some i \<Rightarrow> drop (Suc i) value)"

definition parse_port :: "string \<Rightarrow> nat option" where
  "parse_port s = (case parse_unsigned s of None \<Rightarrow> None | Some n \<Rightarrow> if n < 65536 then Some n else None)"

definition blank_chars :: string where
  "blank_chars = [CHR '' '', char_of (9 :: nat), carriage_return, newline]"

definition bind_required :: string where
  "bind_required = ''CB_AGENT_BIND_ADDR is required; wildcard bind is forbidden''"

text \<open>The checks of \<^verbatim>\<open>loadConfig\<close> behind those of the address and the port.\<close>

definition checked_config :: "(string \<Rightarrow> string) \<Rightarrow> string \<Rightarrow> string \<Rightarrow> byte list \<Rightarrow> nat \<Rightarrow> (string, agent_config) result" where
  "checked_config env bind host address port =
     (let hostIP = to4 address;
          ip = (case ParseIP (trim_space (env ''CB_AGENT_SERVICE_IP'')) of None \<Rightarrow> hostIP | Some a \<Rightarrow> to4 a);
          allowLoopback = (env ''CB_AGENT_ALLOW_LOOPBACK'' = ''1'');
          deviceID = trim_space (env ''CB_AGENT_DEVICE_ID'');
          name = trim_space (env ''CB_AGENT_SERVICE_NAME'')
      in case (if ip = hostIP then hostIP else None) of
           None \<Rightarrow> Inl ''CB_AGENT_SERVICE_IP must be an IPv4 ECM address''
         | Some v4 \<Rightarrow>
             if host = ''0.0.0.0'' \<or> host = ''::'' then Inl ''wildcard listener is forbidden; bind to the ECM address''
             else if IsLoopback address \<and> \<not> allowLoopback
             then Inl ''loopback listener is only allowed for an explicit local smoke test''
             else if deviceID = [] then Inl ''CB_AGENT_DEVICE_ID is required''
             else if list_ex (\<lambda>c. c \<in> set blank_chars) deviceID
             then Inl ''CB_AGENT_DEVICE_ID must be opaque and whitespace-free''
             else Inr \<lparr>ag_BindAddr = bind, ag_Port = port, ag_ServiceIP = v4,
                    ag_ServiceName = (if name = [] then ''CellBridge QDC507'' else name), ag_DeviceID = deviceID,
                    ag_Token = trim_space (env ''CB_AGENT_TOKEN''), ag_RILPath = trim_space (env ''CB_AGENT_RIL_PATH''),
                    ag_EnableVerifiedCall = (env ''CB_AGENT_ENABLE_VERIFIED_CALL'' = ''1''),
                    ag_EnableVerifiedSMS = (env ''CB_AGENT_ENABLE_VERIFIED_SMS'' = ''1''),
                    ag_AllowLoopback = allowLoopback\<rparr>)"

definition loadConfig :: "(string \<Rightarrow> string) \<Rightarrow> (string, agent_config) result" where
  "loadConfig env =
     (let bind = trim_space (env ''CB_AGENT_BIND_ADDR'')
      in if bind = [] then Inl bind_required
         else (case Option.bind (split_host bind) (\<lambda>host. map_option (Pair host) (ParseIP host)) of
           None \<Rightarrow> Inl ''CB_AGENT_BIND_ADDR must be an explicit IP:port''
         | Some (host, address) \<Rightarrow>
             (case parse_port (split_port bind) of
                None \<Rightarrow> Inl ''CB_AGENT_BIND_ADDR must contain a valid non-zero port''
              | Some port \<Rightarrow>
                  if port = 0 then Inl ''CB_AGENT_BIND_ADDR must contain a valid non-zero port''
                  else checked_config env bind host address port)))"

section \<open>State\<close>

record Health =
  he_State :: string
  he_Control :: string
  he_SMS :: string
  he_Call :: string
  he_VoiceRuntime :: string
  he_Media :: string

record agent =
  an_config :: agent_config
  an_backend :: SimpleRILAdapter
  an_journal :: "Line Journal"
  an_health :: Health
  an_line :: Line

definition agent_version :: string where
  "agent_version = ''0.1.0-h2-slice''"

definition capability :: "bool \<Rightarrow> agent_config \<Rightarrow> string" where
  "capability enabled c = (if enabled \<and> ag_RILPath c \<noteq> [] then ''ready'' else ''blocked'')"

definition newAgent :: "agent_config \<Rightarrow> agent" where
  "newAgent c =
     \<lparr>an_config = c,
      an_backend = \<lparr>ri_Path = ag_RILPath c, ri_EnableVerifiedCall = ag_EnableVerifiedCall c,
        ri_EnableVerifiedSMS = ag_EnableVerifiedSMS c, ri_active = None\<rparr>,
      an_journal = NewJournal 256,
      an_health = \<lparr>he_State = (if ag_Token c \<noteq> [] then ''degraded'' else ''pairing_required''), he_Control = ''qmi'',
        he_SMS = capability (ag_EnableVerifiedSMS c) c, he_Call = capability (ag_EnableVerifiedCall c) c,
        he_VoiceRuntime = ''unknown'', he_Media = ''unknown''\<rparr>,
      an_line = \<lparr>ln_LineID = ''module:'' @ ag_DeviceID c, ln_SIM = ''unknown'', ln_Registration = ''unknown'', ln_Signal = 0,
        ln_Voice = False, ln_SMS = False, ln_DTMF = False\<rparr>\<rparr>"

definition agent_refresh :: "(string, string) result \<Rightarrow> int \<Rightarrow> agent \<Rightarrow> agent" where
  "agent_refresh output unix a =
     (let a1 = (case ril_Status output (an_backend a) of
            Inl _ \<Rightarrow> a\<lparr>an_health := (an_health a)\<lparr>he_Control := ''unavailable'', he_State := ''degraded''\<rparr>\<rparr>
          | Inr line0 \<Rightarrow>
              let line = line0\<lparr>ln_LineID := ln_LineID (an_line a)\<rparr>;
                  h = (an_health a)\<lparr>he_Control := ''qmi''\<rparr>
              in a\<lparr>an_line := line,
                   an_health := (if ag_Token (an_config a) = [] then h\<lparr>he_State := ''pairing_required''\<rparr>
                     else if ln_SIM line = ''ready'' \<and> ln_Registration line = ''registered'' then h\<lparr>he_State := ''degraded''\<rparr>
                     else h)\<rparr>)
      in a1\<lparr>an_journal := snd (Append ''line.status'' (an_line a1) unix (an_journal a1))\<rparr>)"

section \<open>Requests and answers\<close>

record AgentRequest =
  gr_Method :: string
  gr_Path :: string
  gr_Authorization :: string
  gr_Upgrade :: string
  gr_LastSeq :: string
  gr_Key :: string
  gr_Message :: "(string \<times> rune_text) option"
  gr_DialTarget :: "string option"
  gr_Digit :: "string option"

text \<open>What the module does during a request.\<close>

record Module =
  mo_started :: "string option"
  mo_ended :: string
  mo_snapshots :: "string list"
  mo_answers :: "bool option list"
  mo_streams :: "string \<Rightarrow> port_stream option"
  mo_error_text :: "agent_sms_error \<Rightarrow> string"

type_synonym agent_answer = "nat \<times> string"

definition agent_writeJSON :: "nat \<Rightarrow> json \<Rightarrow> agent_answer" where
  "agent_writeJSON status v = (status, json_marshal v @ [newline])"

definition agent_writeError :: "nat \<Rightarrow> string \<Rightarrow> agent_answer" where
  "agent_writeError status message = agent_writeJSON status (JObject [(''error'', JString message)])"

definition agent_authorized :: "agent_config \<Rightarrow> AgentRequest \<Rightarrow> bool" where
  "agent_authorized c r \<longleftrightarrow> ag_Token c \<noteq> [] \<and> has_prefix (gr_Authorization r) ''Bearer '' \<and>
     drop 7 (gr_Authorization r) = ag_Token c"

definition operationError :: "control_error \<Rightarrow> agent_answer" where
  "operationError e = (case e of
     CtlUnsupported \<Rightarrow> agent_writeError 501 ''typed module operation is not verified yet''
   | CtlUnavailable \<Rightarrow> agent_writeError 503 ''module control plane unavailable''
   | CtlText t \<Rightarrow> agent_writeError 502 t)"

definition identity_json :: "agent_config \<Rightarrow> json" where
  "identity_json c = JObject [(''deviceId'', JString (ag_DeviceID c)), (''deviceFamily'', JString ''qdc507''),
     (''agentVersion'', JString agent_version), (''protocolVersion'', JInt 1)]"

definition health_json :: "Health \<Rightarrow> json" where
  "health_json h = JObject [(''state'', JString (he_State h)), (''control'', JString (he_Control h)),
     (''sms'', JString (he_SMS h)), (''call'', JString (he_Call h)), (''voiceRuntime'', JString (he_VoiceRuntime h)),
     (''media'', JString (he_Media h))]"

definition agent_line_json :: "Line \<Rightarrow> json" where
  "agent_line_json l = JObject [(''lineId'', JString (ln_LineID l)), (''sim'', JString (ln_SIM l)),
     (''registration'', JString (ln_Registration l)), (''signal'', JInt (ln_Signal l)), (''voice'', JBool (ln_Voice l)),
     (''sms'', JBool (ln_SMS l)), (''dtmf'', JBool (ln_DTMF l))]"

definition agent_call_json :: "AgentCall \<Rightarrow> json" where
  "agent_call_json c = JObject [(''id'', JString (ac_ID c)), (''lineId'', JString (ac_LineID c)), (''peer'', JString (ac_Peer c)),
     (''direction'', JString (ac_Direction c)), (''state'', JString (ac_State c))]"

section \<open>Handlers\<close>

type_synonym agent_handler = "agent \<Rightarrow> agent_answer \<times> agent"

definition messagesHandler :: "Module \<Rightarrow> AgentRequest \<Rightarrow> agent_handler" where
  "messagesHandler mo r a =
     (if gr_Method r \<noteq> ''POST'' then (agent_writeError 405 ''method not allowed'', a)
      else if \<not> agent_authorized (an_config a) r then (agent_writeError 401 ''pairing required'', a)
      else (case gr_Message r of
              None \<Rightarrow> (agent_writeError 400 ''to and body are required'', a)
            | Some (to, body) \<Rightarrow>
                if trim_space to = [] \<or> trim_runes body = [] then (agent_writeError 400 ''to and body are required'', a)
                else (case ril_SendSMS (mo_started mo) (mo_ended mo) (mo_snapshots mo) (mo_answers mo) (mo_streams mo)
                        (mo_error_text mo) to body (an_backend a) of
                        Some e \<Rightarrow> (operationError e, a)
                      | None \<Rightarrow> (agent_writeJSON 202 (JObject [(''status'', JString ''accepted'')]), a))))"

definition messagesSyncHandler :: "AgentRequest \<Rightarrow> agent_handler" where
  "messagesSyncHandler r a =
     (if \<not> agent_authorized (an_config a) r then (agent_writeError 401 ''pairing required'', a)
      else (agent_writeError 501 ''typed message sync is not verified yet'', a))"

definition callsHandler :: "Module \<Rightarrow> AgentRequest \<Rightarrow> agent_handler" where
  "callsHandler mo r a =
     (if gr_Method r \<noteq> ''POST'' then (agent_writeError 405 ''method not allowed'', a)
      else if \<not> agent_authorized (an_config a) r then (agent_writeError 401 ''pairing required'', a)
      else (case gr_DialTarget r of
              None \<Rightarrow> (agent_writeError 400 ''to is required'', a)
            | Some to \<Rightarrow>
                if trim_space to = [] then (agent_writeError 400 ''to is required'', a)
                else (case ril_Dial (mo_started mo) (mo_snapshots mo) to (an_backend a) of (result, backend) \<Rightarrow>
                        ((case result of Inl e \<Rightarrow> operationError e | Inr call \<Rightarrow> agent_writeJSON 202 (agent_call_json call)),
                         a\<lparr>an_backend := backend\<rparr>))))"

definition trim_slashes :: "string \<Rightarrow> string" where
  "trim_slashes s = rev (dropWhile (\<lambda>c. c = CHR ''/'') (rev (dropWhile (\<lambda>c. c = CHR ''/'') s)))"

definition agent_callAction :: "Module \<Rightarrow> AgentRequest \<Rightarrow> agent_handler" where
  "agent_callAction mo r a =
     (if \<not> agent_authorized (an_config a) r then (agent_writeError 401 ''pairing required'', a)
      else
        let parts = split_char (CHR ''/'') (trim_slashes (trim_prefix (gr_Path r) ''/v1/calls/''));
            finish = (\<lambda>e b. (case e of None \<Rightarrow> (204, []) | Some e \<Rightarrow> operationError e, a\<lparr>an_backend := b\<rparr>))
        in if length parts \<noteq> 2 then (agent_writeError 404 ''call action not found'', a)
           else if gr_Method r \<noteq> ''POST'' then (agent_writeError 405 ''method not allowed'', a)
           else if parts ! 1 = ''answer'' then finish (Some CtlUnsupported) (an_backend a)
           else if parts ! 1 = ''hangup''
           then (case ril_Hangup (mo_started mo) (mo_snapshots mo) (an_backend a) of (e, b) \<Rightarrow> finish e b)
           else if parts ! 1 = ''dtmf''
           then (case gr_Digit r of
                   None \<Rightarrow> (agent_writeError 400 ''invalid DTMF'', a)
                 | Some digit \<Rightarrow>
                     if length digit \<noteq> 1 \<or> \<not> str_contains ''0123456789*#'' digit then (agent_writeError 400 ''invalid DTMF'', a)
                     else finish (Some CtlUnsupported) (an_backend a))
           else (agent_writeError 404 ''call action not found'', a))"

text \<open>\<^verbatim>\<open>strconv.ParseInt\<close> with its error dropped: a text out of range gives the nearest bound, any other bad one 0.\<close>

definition parse_int_value :: "string \<Rightarrow> int" where
  "parse_int_value s =
     (let (neg, ds) = (case s of
            c # t \<Rightarrow> if c = CHR ''-'' then (True, t) else if c = CHR ''+'' then (False, t) else (False, s)
          | [] \<Rightarrow> (False, s))
      in case parse_unsigned ds of
           None \<Rightarrow> 0
         | Some n \<Rightarrow> if neg then max (- (2 ^ 63)) (- int n) else min (2 ^ 63 - 1) (int n))"

definition handshake :: "(string \<Rightarrow> byte list) \<Rightarrow> string \<Rightarrow> string" where
  "handshake sha1 key =
     (let crlf = [carriage_return, newline]
      in ''HTTP/1.1 101 Switching Protocols'' @ crlf @ ''Upgrade: websocket'' @ crlf @ ''Connection: Upgrade'' @ crlf @
         ''Sec-WebSocket-Accept: '' @ base64_encode (sha1 (key @ ''258EAFA5-E914-47DA-95CA-C5AB0DC85B11'')) @ crlf @ crlf)"

text \<open>Up to the upgrade; an accepted client is then sent \<^term>\<open>event_stream\<close>.\<close>

definition agent_eventsHandler :: "(string \<Rightarrow> byte list) \<Rightarrow> AgentRequest \<Rightarrow> agent_handler" where
  "agent_eventsHandler sha1 r a =
     (if \<not> agent_authorized (an_config a) r then (agent_writeError 401 ''pairing required'', a)
      else if to_lower (gr_Upgrade r) \<noteq> ''websocket'' then (agent_writeError 426 ''websocket required'', a)
      else if \<not> snd (Since (parse_int_value (gr_LastSeq r)) (an_journal a))
      then (agent_writeError 409 ''event cursor is too old'', a)
      else
        let key = trim_space (gr_Key r)
        in if key = [] then ((400, ''missing websocket key'' @ [newline]), a)
           else ((101, handshake sha1 key), a))"

section \<open>Routes\<close>

definition agent_get :: "(agent \<Rightarrow> json) \<Rightarrow> AgentRequest \<Rightarrow> agent_handler" where
  "agent_get value r a =
     (if gr_Method r \<noteq> ''GET'' then (agent_writeError 405 ''method not allowed'', a) else (agent_writeJSON 200 (value a), a))"

definition agent_serve :: "(string \<Rightarrow> byte list) \<Rightarrow> Module \<Rightarrow> AgentRequest \<Rightarrow> agent_handler" where
  "agent_serve sha1 mo r =
     (let path = gr_Path r
      in if path = ''/v1/identity'' then agent_get (\<lambda>a. identity_json (an_config a)) r
         else if path = ''/v1/health'' then agent_get (\<lambda>a. health_json (an_health a)) r
         else if path = ''/v1/line'' then agent_get (\<lambda>a. agent_line_json (an_line a)) r
         else if path = ''/v1/messages'' then messagesHandler mo r
         else if path = ''/v1/messages/sync'' then messagesSyncHandler r
         else if path = ''/v1/calls'' then callsHandler mo r
         else if path = ''/v1/events'' then agent_eventsHandler sha1 r
         else if has_prefix path ''/v1/calls/'' then agent_callAction mo r
         else (\<lambda>a. ((404, ''404 page not found'' @ [newline]), a)))"

section \<open>Where the agent listens\<close>

lemma checked_config_Inr:
  assumes "checked_config env bind host address port = Inr c"
  shows "ag_BindAddr c = bind \<and> ag_Port c = port \<and> to4 address = Some (ag_ServiceIP c) \<and>
     (IsLoopback address \<longrightarrow> ag_AllowLoopback c) \<and> ag_DeviceID c \<noteq> [] \<and> set (ag_DeviceID c) \<inter> set blank_chars = {} \<and>
     ag_ServiceName c \<noteq> []"
proof -
  from assms obtain v4 where v4: "to4 address = Some v4"
    by (auto simp: checked_config_def Let_def split: if_splits option.splits)
  with assms show ?thesis
    by (auto simp: checked_config_def Let_def list_ex_iff split: if_split_asm)
qed

text \<open>An accepted configuration names an IPv4 address with a port, the one the service is advertised under, a loopback address
  only when asked for, and a device name without blanks.\<close>

theorem config_names_its_address:
  assumes "loadConfig env = Inr c"
  shows "\<exists>host address. split_host (ag_BindAddr c) = Some host \<and> ParseIP host = Some address \<and>
     to4 address = Some (ag_ServiceIP c) \<and> (IsLoopback address \<longrightarrow> ag_AllowLoopback c) \<and>
     parse_unsigned (split_port (ag_BindAddr c)) = Some (ag_Port c) \<and> 0 < ag_Port c \<and> ag_Port c < 65536 \<and>
     ag_DeviceID c \<noteq> [] \<and> set (ag_DeviceID c) \<inter> set blank_chars = {} \<and> ag_ServiceName c \<noteq> []"
proof -
  let ?bind = "trim_space (env ''CB_AGENT_BIND_ADDR'')"
  from assms obtain host address port where
    host: "split_host ?bind = Some host" "ParseIP host = Some address" and
    port: "parse_port (split_port ?bind) = Some port" "0 < port" and
    rest: "checked_config env ?bind host address port = Inr c"
    by (auto simp: loadConfig_def Let_def bind_eq_Some_conv split: if_split_asm option.split_asm)
  from port have "parse_unsigned (split_port ?bind) = Some port" "port < 65536"
    by (auto simp: parse_port_def split: option.splits if_splits)
  with host port(2) checked_config_Inr [OF rest] show ?thesis by (intro exI [of _ host] exI [of _ address]) simp
qed

definition agent_env :: "string \<Rightarrow> string \<Rightarrow> string" where
  "agent_env bind name = (if name = ''CB_AGENT_BIND_ADDR'' then bind else if name = ''CB_AGENT_DEVICE_ID'' then ''d'' else [])"

lemmas address_run = split_host_def split_port_def ParseIP_def parse_ipv4_def parse_ipv6_def parse_octet_def ipv6_groups.simps
  ipv6_expand_def is_hex_def hex_value_def hex_group_def to4_def v4_prefix_def IsLoopback_def parse_port_def parse_unsigned_def
  digits_val_def digit_val_def is_digit_def has_prefix_def graphic_char_def

lemma device_not_blank: "list_ex (\<lambda>c. c \<in> set blank_chars) ''d'' = False"
  by code_simp

lemma sample_bind: "loadConfig (agent_env ''1.2.3.4:80'') =
  Inr \<lparr>ag_BindAddr = ''1.2.3.4:80'', ag_Port = 80, ag_ServiceIP = [1, 2, 3, 4], ag_ServiceName = ''CellBridge QDC507'',
    ag_DeviceID = ''d'', ag_Token = [], ag_RILPath = [], ag_EnableVerifiedCall = False, ag_EnableVerifiedSMS = False,
    ag_AllowLoopback = False\<rparr>"
  using device_not_blank by (simp add: loadConfig_def checked_config_def agent_env_def address_run Let_def)

theorem config_names_its_address_witness:
  "\<exists>c. loadConfig (agent_env ''1.2.3.4:80'') = Inr c \<and> 0 < ag_Port c \<and> ag_Port c < 65536 \<and> ag_DeviceID c \<noteq> []"
  using sample_bind config_names_its_address [OF sample_bind] by blast

text \<open>The guard against a wildcard compares the text of the host: the wildcard written as a mapped IPv6 address passes it, and
  is then advertised as the address of the service.\<close>

theorem mapped_wildcard_accepted:
  "\<exists>c. loadConfig (agent_env ''[::ffff:0.0.0.0]:80'') = Inr c \<and> ag_BindAddr c = ''[::ffff:0.0.0.0]:80'' \<and>
     ag_ServiceIP c = [0, 0, 0, 0]"
  using device_not_blank by (simp add: loadConfig_def checked_config_def agent_env_def address_run Let_def)

section \<open>Every reachable state\<close>

text \<open>The agent's histories: refreshes and requests, in any order, whatever the module does.\<close>

inductive agent_reach :: "agent_config \<Rightarrow> agent \<Rightarrow> bool" for c where
  start: "agent_reach c (newAgent c)"
| refreshed: "agent_reach c a \<Longrightarrow> agent_reach c (agent_refresh output unix a)"
| requested: "agent_reach c a \<Longrightarrow> agent_reach c (snd (agent_serve sha1 mo r a))"

definition agent_ok :: "agent_config \<Rightarrow> agent \<Rightarrow> bool" where
  "agent_ok c a \<longleftrightarrow> an_config a = c \<and> journal_ok (an_journal a) \<and>
     he_State (an_health a) \<in> {''pairing_required'', ''degraded''} \<and> he_Control (an_health a) \<in> {''qmi'', ''unavailable''} \<and>
     he_SMS (an_health a) = capability (ag_EnableVerifiedSMS c) c \<and> he_Call (an_health a) = capability (ag_EnableVerifiedCall c) c \<and>
     ln_LineID (an_line a) = ''module:'' @ ag_DeviceID c \<and> \<not> ln_Voice (an_line a) \<and> \<not> ln_SMS (an_line a) \<and> \<not> ln_DTMF (an_line a) \<and>
     ri_Path (an_backend a) = ag_RILPath c \<and> ri_EnableVerifiedCall (an_backend a) = ag_EnableVerifiedCall c \<and>
     ri_EnableVerifiedSMS (an_backend a) = ag_EnableVerifiedSMS c"

text \<open>What a request can change is the call of the adapter, and that only with the token.\<close>

definition same_but_call :: "agent \<Rightarrow> agent \<Rightarrow> bool" where
  "same_but_call a b \<longleftrightarrow> (\<exists>x. b = a\<lparr>an_backend := (an_backend a)\<lparr>ri_active := x\<rparr>\<rparr>)"

lemma same_but_call_refl [simp]: "same_but_call a a"
  unfolding same_but_call_def by (intro exI [of _ "ri_active (an_backend a)"]) simp

lemma same_but_call_update [simp]: "same_but_call a (a\<lparr>an_backend := (an_backend a)\<lparr>ri_active := x\<rparr>\<rparr>)"
  unfolding same_but_call_def by blast

lemma ri_active_self [simp]: "\<exists>x. b = b\<lparr>ri_active := x\<rparr>"
  by (intro exI [of _ "ri_active b"]) simp

lemma ril_Dial_active: "\<exists>x. snd (ril_Dial st outs peer b) = b\<lparr>ri_active := x\<rparr>"
  by (auto simp: ril_Dial_def Let_def split: option.split)

lemma ril_Hangup_active: "\<exists>x. snd (ril_Hangup ty outs b) = b\<lparr>ri_active := x\<rparr>"
  by (auto simp: ril_Hangup_def split: option.split)

lemma callsHandler_same: "same_but_call a (snd (callsHandler mo r a))"
proof -
  have "same_but_call a (a\<lparr>an_backend := snd (ril_Dial st outs peer (an_backend a))\<rparr>)" for st outs peer
    using ril_Dial_active [of st outs peer "an_backend a"] by auto
  then show ?thesis by (simp add: callsHandler_def case_prod_unfold split: option.split)
qed

lemma agent_callAction_same: "same_but_call a (snd (agent_callAction mo r a))"
proof -
  have "same_but_call a (a\<lparr>an_backend := snd (ril_Hangup ty outs (an_backend a))\<rparr>)" for ty outs
    using ril_Hangup_active [of ty outs "an_backend a"] by auto
  then show ?thesis by (simp add: agent_callAction_def Let_def case_prod_unfold split: option.split)
qed

lemma agent_serve_same: "same_but_call a (snd (agent_serve sha1 mo r a))"
  by (simp add: agent_serve_def Let_def callsHandler_same agent_callAction_same)
    (simp add: agent_get_def messagesHandler_def messagesSyncHandler_def agent_eventsHandler_def Let_def split: option.split)

lemma agent_ok_same: "agent_ok c a \<Longrightarrow> same_but_call a b \<Longrightarrow> agent_ok c b"
  by (auto simp: agent_ok_def same_but_call_def)

lemma agent_ok_refresh:
  assumes "agent_ok c a"
  shows "agent_ok c (agent_refresh output unix a)"
proof (cases "ril_Status output (an_backend a)")
  case (Inl e)
  then show ?thesis using assms by (simp add: agent_refresh_def agent_ok_def journal_ok_Append)
next
  case (Inr line)
  then have "\<not> ln_Voice line \<and> \<not> ln_SMS line \<and> \<not> ln_DTMF line"
    by (auto simp: ril_Status_def status_line_def split: if_splits sum.splits)
  then show ?thesis using assms Inr by (simp add: agent_refresh_def agent_ok_def journal_ok_Append Let_def)
qed

lemma capability_ready: "capability enabled c = ''ready'' \<longleftrightarrow> enabled \<and> ag_RILPath c \<noteq> []"
  by (simp add: capability_def)

lemma agent_reach_ok: "agent_reach c a \<Longrightarrow> agent_ok c a"
proof (induction rule: agent_reach.induct)
  case start
  show ?case by (simp add: agent_ok_def newAgent_def journal_ok_New)
next
  case (refreshed a out unix)
  then show ?case by (simp add: agent_ok_refresh)
next
  case (requested a sha1 mo r)
  then show ?case using agent_ok_same agent_serve_same by blast
qed

text \<open>C27: whatever an agent goes through, it never claims more than it was configured for: its health is one of the two cautious
  states, messages and calls are each announced as ready exactly when the operator enabled them and named a console, its adapter
  works with these settings, its line has the configured name and no verified capability, and its journal stays a window of
  consecutive events.\<close>

theorem agent_never_overclaims:
  assumes "agent_reach c a"
  shows "(he_SMS (an_health a) = ''ready'' \<longleftrightarrow> ag_EnableVerifiedSMS c \<and> ag_RILPath c \<noteq> []) \<and>
     (he_Call (an_health a) = ''ready'' \<longleftrightarrow> ag_EnableVerifiedCall c \<and> ag_RILPath c \<noteq> []) \<and>
     he_State (an_health a) \<in> {''pairing_required'', ''degraded''} \<and> he_Control (an_health a) \<in> {''qmi'', ''unavailable''} \<and>
     ri_Path (an_backend a) = ag_RILPath c \<and> ri_EnableVerifiedCall (an_backend a) = ag_EnableVerifiedCall c \<and>
     ri_EnableVerifiedSMS (an_backend a) = ag_EnableVerifiedSMS c \<and>
     ln_LineID (an_line a) = ''module:'' @ ag_DeviceID c \<and> \<not> ln_Voice (an_line a) \<and> \<not> ln_SMS (an_line a) \<and> \<not> ln_DTMF (an_line a) \<and>
     journal_ok (an_journal a)"
  using agent_reach_ok [OF assms] capability_ready by (simp add: agent_ok_def)

theorem agent_never_overclaims_witness:
  "\<forall>c. (he_SMS (an_health (agent_refresh (Inl ''timeout'') 5 (newAgent (c\<lparr>ag_EnableVerifiedSMS := True, ag_RILPath := []\<rparr>)))) \<noteq> ''ready'') \<and>
     he_Control (an_health (agent_refresh (Inl ''timeout'') 5 (newAgent c))) = ''unavailable''"
proof (intro allI conjI)
  fix c
  show "he_SMS (an_health (agent_refresh (Inl ''timeout'') 5 (newAgent (c\<lparr>ag_EnableVerifiedSMS := True, ag_RILPath := []\<rparr>)))) \<noteq> ''ready''"
    using agent_never_overclaims [OF agent_reach.refreshed [OF agent_reach.start]] by simp
  show "he_Control (an_health (agent_refresh (Inl ''timeout'') 5 (newAgent c))) = ''unavailable''"
    by (simp add: agent_refresh_def newAgent_def ril_Status_def)
qed

lemma refused_requests:
  "\<not> agent_authorized (an_config a) r \<Longrightarrow> gr_Path r \<notin> {''/v1/identity'', ''/v1/health'', ''/v1/line''} \<Longrightarrow>
     snd (agent_serve sha1 mo r a) = a \<and> fst (fst (agent_serve sha1 mo r a)) \<in> {401, 404, 405}"
  by (simp add: agent_serve_def Let_def messagesHandler_def messagesSyncHandler_def callsHandler_def agent_callAction_def
      agent_eventsHandler_def agent_writeError_def agent_writeJSON_def)

text \<open>C26: without the token a request reaches neither the console nor a port: outside the three documents the agent publishes
  it is refused and changes nothing, and an agent without a token refuses every such request.\<close>

theorem agent_no_effect_without_token:
  assumes "ag_Token (an_config a) = [] \<or> gr_Authorization r \<noteq> ''Bearer '' @ ag_Token (an_config a)"
    and "gr_Path r \<notin> {''/v1/identity'', ''/v1/health'', ''/v1/line''}"
  shows "snd (agent_serve sha1 mo r a) = a \<and> fst (fst (agent_serve sha1 mo r a)) \<in> {401, 404, 405}"
proof -
  have "\<not> agent_authorized (an_config a) r"
  proof
    assume "agent_authorized (an_config a) r"
    then have "take 7 (gr_Authorization r) = ''Bearer ''" "drop 7 (gr_Authorization r) = ag_Token (an_config a)"
      "ag_Token (an_config a) \<noteq> []"
      by (simp_all add: agent_authorized_def has_prefix_def eval_nat_numeral)
    with assms(1) show False by (metis append_take_drop_id)
  qed
  with assms(2) refused_requests show ?thesis by blast
qed

theorem agent_no_effect_without_token_witness:
  "\<forall>sha1 mo c. snd (agent_serve sha1 mo \<lparr>gr_Method = ''POST'', gr_Path = ''/v1/calls'', gr_Authorization = ''Bearer x'', gr_Upgrade = [],
       gr_LastSeq = [], gr_Key = [], gr_Message = None, gr_DialTarget = Some ''10086'', gr_Digit = None\<rparr>
     (newAgent (c\<lparr>ag_Token := []\<rparr>))) = newAgent (c\<lparr>ag_Token := []\<rparr>)"
  by (intro allI, rule conjunct1 [OF agent_no_effect_without_token]) (simp_all add: newAgent_def)

end
