(* ===== verification/Agent_Mdns.thy ===== *)
theory Agent_Mdns
  imports Gateway_Prelude
begin

text \<open>
  The agent's multicast DNS advertisement, \<^verbatim>\<open>module-agent/internal/mdns/mdns.go\<close>, and a reader of DNS messages (RFC 1035
  without name compression, which the agent does not use) that its packets are read back with.
\<close>

section \<open>Names and records\<close>

record Advertiser =
  ad_Name :: string
  ad_Host :: string
  ad_IP :: "byte list"
  ad_Port :: "16 word"
  ad_DeviceID :: string
  ad_AgentVersion :: string

definition text_bytes :: "string \<Rightarrow> byte list" where
  "text_bytes s = map (\<lambda>c. word_of_nat (of_char c)) s"

definition put_uint16 :: "16 word \<Rightarrow> byte list" where
  "put_uint16 w = [ucast (drop_bit 8 w), ucast w]"

definition put_uint32 :: "32 word \<Rightarrow> byte list" where
  "put_uint32 w = [ucast (drop_bit 24 w), ucast (drop_bit 16 w), ucast (drop_bit 8 w), ucast w]"

definition encode_label :: "string \<Rightarrow> byte list" where
  "encode_label label0 = (let label = take 63 label0 in word_of_nat (length label) # text_bytes label)"

definition encodeName :: "string \<Rightarrow> byte list" where
  "encodeName name = concat (map encode_label (split_char (CHR ''.'') (trim_suffix name ''.''))) @ [0]"

definition rr :: "string \<Rightarrow> 32 word \<Rightarrow> 32 word \<Rightarrow> byte list \<Rightarrow> byte list" where
  "rr name kind ttl data =
     encodeName name @ put_uint16 (ucast kind) @ put_uint16 1 @ put_uint32 ttl @ put_uint16 (word_of_nat (length data)) @ data"

definition srv :: "16 word \<Rightarrow> 16 word \<Rightarrow> 16 word \<Rightarrow> string \<Rightarrow> byte list" where
  "srv priority weight port target = put_uint16 priority @ put_uint16 weight @ put_uint16 port @ encodeName target"

definition txtRecord :: "string list \<Rightarrow> byte list" where
  "txtRecord records = concat (map (\<lambda>r. let t = take 255 r in word_of_nat (length t) # text_bytes t) records)"

definition serviceType :: string where
  "serviceType = ''_cellbridge-module._tcp.local.''"

definition service_name :: "Advertiser \<Rightarrow> string" where
  "service_name a = trim_suffix (ad_Name a) ''.'' @ ''._cellbridge-module._tcp.local.''"

definition host_name :: "Advertiser \<Rightarrow> string" where
  "host_name a = trim_suffix (ad_Host a) ''.'' @ ''.local.''"

definition txt_of :: "Advertiser \<Rightarrow> string list" where
  "txt_of a = [''version=1'', ''device_family=qdc507'', ''agent_version='' @ ad_AgentVersion a, ''device_id='' @ ad_DeviceID a]"

definition packet_header :: "byte list" where
  "packet_header = put_uint16 0 @ put_uint16 0x8400 @ put_uint16 0 @ put_uint16 4 @ put_uint16 4 @ put_uint16 0"

definition mdns_packet :: "Advertiser \<Rightarrow> byte list" where
  "mdns_packet a =
     packet_header @ rr serviceType 12 120 (encodeName (service_name a)) @
       rr (service_name a) 33 120 (srv 0 0 (ad_Port a) (host_name a)) @
       rr (service_name a) 16 120 (txtRecord (txt_of a)) @
       rr (host_name a) 1 120 (ad_IP a)"

text \<open>\<^verbatim>\<open>Run\<close>: the datagrams sent, one at the start and one per tick until a send fails (the list says which do not) or the
  stop; \<^term>\<open>None\<close> for a refused configuration.\<close>

fun sent_packets :: "'p \<Rightarrow> bool list \<Rightarrow> 'p list" where
  "sent_packets p [] = []"
| "sent_packets p (ok # oks) = (if ok then p # sent_packets p oks else [])"

definition mdns_Run :: "Advertiser \<Rightarrow> bool list \<Rightarrow> byte list list option" where
  "mdns_Run a sends =
     (if ad_Name a = [] \<or> ad_Host a = [] \<or> length (ad_IP a) \<noteq> 4 \<or> ad_Port a = 0 then None
      else Some (sent_packets (mdns_packet a) sends))"

section \<open>A reader of DNS messages\<close>

text \<open>A name is the list of its labels; \<^term>\<open>None\<close> when the bytes end too early.\<close>

function read_name :: "byte list \<Rightarrow> (byte list list \<times> byte list) option" where
  "read_name [] = None"
| "read_name (n # bs) =
     (if n = 0 then Some ([], bs)
      else if length bs < unat n then None
      else (case read_name (drop (unat n) bs) of None \<Rightarrow> None | Some (ls, r) \<Rightarrow> Some (take (unat n) bs # ls, r)))"
  by pat_completeness auto
termination by (relation "measure length") auto

definition get_uint16 :: "byte \<Rightarrow> byte \<Rightarrow> 16 word" where
  "get_uint16 a b = (push_bit 8 (ucast a)) OR ucast b"

text \<open>A record: its name, its type and its data.\<close>

fun read_rr :: "byte list \<Rightarrow> ((byte list list \<times> 16 word \<times> byte list) \<times> byte list) option" where
  "read_rr bs =
     (case read_name bs of
        Some (ls, k1 # k2 # c1 # c2 # t1 # t2 # t3 # t4 # n1 # n2 # r) \<Rightarrow>
          let n = unat (get_uint16 n1 n2)
          in if length r < n then None else Some ((ls, get_uint16 k1 k2, take n r), drop n r)
      | _ \<Rightarrow> None)"

declare read_rr.simps [simp del]

fun read_rrs :: "nat \<Rightarrow> byte list \<Rightarrow> ((byte list list \<times> 16 word \<times> byte list) list \<times> byte list) option" where
  "read_rrs 0 bs = Some ([], bs)"
| "read_rrs (Suc n) bs =
     (case read_rr bs of
        None \<Rightarrow> None
      | Some (x, r) \<Rightarrow> (case read_rrs n r of None \<Rightarrow> None | Some (xs, r') \<Rightarrow> Some (x # xs, r')))"

text \<open>A response without questions: as many answers, authorities and additional records as its header announces.\<close>

definition read_message :: "byte list \<Rightarrow> (byte list list \<times> 16 word \<times> byte list) list option" where
  "read_message bs =
     (case bs of
        i1 # i2 # f1 # f2 # q1 # q2 # a1 # a2 # n1 # n2 # x1 # x2 # r \<Rightarrow>
          if get_uint16 q1 q2 \<noteq> 0 then None
          else map_option fst (read_rrs (unat (get_uint16 a1 a2) + unat (get_uint16 n1 n2) + unat (get_uint16 x1 x2)) r)
      | _ \<Rightarrow> None)"

section \<open>What is written is read back\<close>

lemma length_text_bytes [simp]: "length (text_bytes s) = length s"
  by (simp add: text_bytes_def)

lemma get_put_uint16: "put_uint16 w = [a, b] \<Longrightarrow> get_uint16 a b = w"
  by (auto simp: put_uint16_def get_uint16_def intro!: bit_eqI)
    (auto simp: bit_simps)

text \<open>The names the agent can write: no label of them is empty.\<close>

definition labels_of :: "string \<Rightarrow> string list" where
  "labels_of name = split_char (CHR ''.'') (trim_suffix name ''.'')"

definition good_name :: "string \<Rightarrow> bool" where
  "good_name name \<longleftrightarrow> list_all (\<lambda>l. l \<noteq> []) (labels_of name)"

definition wire_labels :: "string \<Rightarrow> byte list list" where
  "wire_labels name = map (\<lambda>l. text_bytes (take 63 l)) (labels_of name)"

lemma read_labels:
  "list_all (\<lambda>l. l \<noteq> []) ls \<Longrightarrow>
     read_name (concat (map encode_label ls) @ 0 # r) = Some (map (\<lambda>l. text_bytes (take 63 l)) ls, r)"
proof (induction ls)
  case (Cons l ls)
  define n where "n = min (length l) 63"
  have n: "0 < n" "n \<le> 63" using Cons.prems by (simp_all add: n_def)
  then have "unat (word_of_nat n :: byte) = n" "(word_of_nat n :: byte) \<noteq> 0"
    by (auto simp: unat_of_nat take_bit_nat_eq_self word_of_nat_eq_0_iff dest: dvd_imp_le)
  moreover have "text_bytes (take 63 l) \<noteq> []" using Cons.prems by (simp add: text_bytes_def)
  ultimately show ?case
    using Cons by (simp add: encode_label_def Let_def n_def [symmetric])
qed simp

lemma read_encodeName: "good_name name \<Longrightarrow> read_name (encodeName name @ r) = Some (wire_labels name, r)"
  by (simp add: encodeName_def good_name_def wire_labels_def labels_of_def read_labels)

lemma read_record:
  assumes "good_name name" and "length data < 65536"
  shows "read_rr (rr name kind ttl data @ r) = Some ((wire_labels name, ucast kind, data), r)"
proof -
  obtain k1 k2 where k: "put_uint16 (ucast kind) = [k1, k2]" by (simp add: put_uint16_def)
  obtain n1 n2 where n: "put_uint16 (word_of_nat (length data)) = [n1, n2]" by (simp add: put_uint16_def)
  from assms(2) have "unat (word_of_nat (length data) :: 16 word) = length data"
    by (simp add: unat_of_nat take_bit_nat_eq_self)
  with assms(1) get_put_uint16 [OF k] get_put_uint16 [OF n] show ?thesis
    by (simp add: read_rr.simps rr_def read_encodeName k n put_uint16_def [of 1] put_uint32_def Let_def)
qed

text \<open>The four records of an advertisement, as a reader should see them.\<close>

definition advertised :: "Advertiser \<Rightarrow> (byte list list \<times> 16 word \<times> byte list) list" where
  "advertised a =
     [(wire_labels serviceType, 12, encodeName (service_name a)),
      (wire_labels (service_name a), 33, srv 0 0 (ad_Port a) (host_name a)),
      (wire_labels (service_name a), 16, txtRecord (txt_of a)),
      (wire_labels (host_name a), 1, ad_IP a)]"

definition good_advertiser :: "Advertiser \<Rightarrow> bool" where
  "good_advertiser a \<longleftrightarrow> good_name (service_name a) \<and> good_name (host_name a) \<and> length (ad_IP a) = 4 \<and>
     length (encodeName (service_name a)) < 65536 \<and> length (encodeName (host_name a)) < 65530"

lemma length_txtRecord: "length (txtRecord rs) \<le> 256 * length rs"
  by (induction rs) (auto simp: txtRecord_def Let_def)

lemma packet_records:
  assumes "good_advertiser a"
  shows "read_rrs 4 (drop 12 (mdns_packet a) @ r) = Some (advertised a, r)"
proof -
  have "good_name serviceType"
    by (simp add: good_name_def labels_of_def serviceType_def trim_suffix_def has_suffix_def has_prefix_def)
  moreover have "length (srv 0 0 (ad_Port a) (host_name a)) < 65536" "length (txtRecord (txt_of a)) < 65536"
    using assms length_txtRecord [of "txt_of a"] by (simp_all add: srv_def put_uint16_def good_advertiser_def txt_of_def)
  moreover have "length packet_header = 12"
    by (simp add: packet_header_def put_uint16_def)
  ultimately have "read_rrs (Suc (Suc (Suc (Suc 0)))) (drop 12 (mdns_packet a) @ r) = Some (advertised a, r)"
    using assms by (simp add: mdns_packet_def advertised_def read_record good_advertiser_def del: drop_append)
  moreover have "(4 :: nat) = Suc (Suc (Suc (Suc 0)))" by simp
  ultimately show ?thesis by metis
qed

lemma read_rrs_add:
  "read_rrs (m + n) bs = (case read_rrs m bs of None \<Rightarrow> None | Some (xs, r) \<Rightarrow>
     (case read_rrs n r of None \<Rightarrow> None | Some (ys, r') \<Rightarrow> Some (xs @ ys, r')))"
  by (induction m arbitrary: bs) (auto split: option.split prod.split)

text \<open>The four records are there and are followed by nothing, but the header announces four authority records behind
  the four answers: a reader of the whole message finds it cut short, whatever is advertised.\<close>

theorem advertisement_announces_missing_records:
  assumes "good_advertiser a"
  shows "read_rrs 4 (drop 12 (mdns_packet a)) = Some (advertised a, []) \<and> read_message (mdns_packet a) = None"
proof -
  have records: "read_rrs 4 (drop 12 (mdns_packet a)) = Some (advertised a, [])"
    using packet_records [OF assms, of "[]"] by simp
  have "read_rrs 4 [] = None" by (simp add: eval_nat_numeral read_rr.simps)
  then have "read_rrs (4 + 4) (drop 12 (mdns_packet a)) = None"
    by (subst read_rrs_add) (simp only: records option.case prod.case)
  moreover have "mdns_packet a = 0 # 0 # 0x84 # 0 # 0 # 0 # 0 # 4 # 0 # 4 # 0 # 0 # drop 12 (mdns_packet a)"
    by (simp add: mdns_packet_def packet_header_def put_uint16_def)
  moreover have "read_message (0 # 0 # 0x84 # 0 # 0 # 0 # 0 # 4 # 0 # 4 # 0 # 0 # r) = map_option fst (read_rrs (4 + 4) r)" for r
    by (simp add: read_message_def get_uint16_def)
  ultimately have "read_message (mdns_packet a) = None" by (metis option.map_disc_iff)
  with records show ?thesis by blast
qed

definition sample_advertiser :: Advertiser where
  "sample_advertiser = \<lparr>ad_Name = ''q'', ad_Host = ''m'', ad_IP = [192, 168, 225, 1], ad_Port = 8787, ad_DeviceID = ''d'', ad_AgentVersion = ''1''\<rparr>"

theorem advertisement_announces_missing_records_witness:
  "good_advertiser sample_advertiser \<and> read_message (mdns_packet sample_advertiser) = None"
proof -
  have "good_advertiser sample_advertiser"
    by (simp add: good_advertiser_def sample_advertiser_def good_name_def labels_of_def service_name_def host_name_def
        encodeName_def encode_label_def trim_suffix_def has_suffix_def has_prefix_def)
  with advertisement_announces_missing_records [OF this] show ?thesis by blast
qed

end
