(* ===== verification/Sip_Text.thy ===== *)
theory Sip_Text
  imports Gateway_Prelude
begin

text \<open>
  The texts of the SIP server, \<^verbatim>\<open>gateway/internal/sip/server.go\<close>: headers, addresses and session descriptions read from a
  message, and the response written to it. A message is its bytes; \<^verbatim>\<open>strings.ToLower\<close> is that of ASCII, the names the
  server looks for being ASCII.
\<close>

section \<open>Splitting\<close>

lemma str_index_length: "str_index s p = Some i \<Longrightarrow> i + length p \<le> length s"
proof (induction s arbitrary: i)
  case (Cons c s)
  show ?case
  proof (cases "has_prefix (c # s) p")
    case True
    then have "length p \<le> length (c # s)" by (metis has_prefix_def length_take min.cobounded1)
    with Cons.prems True show ?thesis by simp
  next
    case False
    with Cons show ?thesis by auto
  qed
qed (auto split: if_splits)

text \<open>\<^verbatim>\<open>strings.Split\<close> at a text that is not empty.\<close>

function split_str :: "string \<Rightarrow> string \<Rightarrow> string list" where
  "split_str sep s =
     (case str_index s sep of
        None \<Rightarrow> [s]
      | Some i \<Rightarrow> if sep = [] then [s] else take i s # split_str sep (drop (i + length sep) s))"
  by pat_completeness auto
termination
proof (relation "measure (\<lambda>(sep, s). length s)")
  fix sep s :: string and i
  assume "str_index s sep = Some i" "sep \<noteq> []"
  then have "i + length sep \<le> length s" "0 < length sep" by (auto dest: str_index_length)
  then have "length (drop (i + length sep) s) < length s" unfolding length_drop by linarith
  then show "((sep, drop (i + length sep) s), sep, s) \<in> measure (\<lambda>(sep, s). length s)" by simp
qed simp

declare split_str.simps [simp del]

definition crlf :: string where
  "crlf = [carriage_return, newline]"

lemma str_index_here: "p \<noteq> [] \<Longrightarrow> str_index (p @ s) p = Some 0"
  by (cases p) (simp_all add: has_prefix_def)

text \<open>A line that holds neither the separator nor the start of one is split off.\<close>

lemma crlf_Cons: "crlf @ s = carriage_return # newline # s"
  by (simp add: crlf_def)

lemma has_prefix_crlf: "has_prefix s crlf \<longleftrightarrow> (\<exists>t. s = crlf @ t)"
  by (metis append_eq_conv_conj append_take_drop_id has_prefix_def)

lemma str_index_line:
  assumes "str_index l crlf = None" and "l = [] \<or> last l \<noteq> carriage_return"
  shows "str_index (l @ crlf @ s) crlf = Some (length l)"
  using assms
proof (induction l)
  case Nil
  show ?case using str_index_here [of crlf s] by (simp add: crlf_def)
next
  case (Cons c l)
  have no: "\<not> has_prefix (c # l) crlf" "str_index l crlf = None" using Cons.prems(1) by (auto split: if_splits)
  have "\<not> has_prefix (c # l @ crlf @ s) crlf"
  proof
    assume "has_prefix (c # l @ crlf @ s) crlf"
    then have "c = carriage_return" "take 1 (l @ crlf @ s) = [newline]"
      by (simp_all add: has_prefix_def crlf_def)
    moreover have "l \<noteq> []" using Cons.prems(2) calculation(1) by auto
    ultimately have "hd l = newline" by (cases l) auto
    with \<open>c = carriage_return\<close> \<open>l \<noteq> []\<close> no(1) show False by (cases l) (auto simp: has_prefix_def crlf_def)
  qed
  moreover have "l = [] \<or> last l \<noteq> carriage_return" using Cons.prems(2) by auto
  ultimately show ?case using Cons.IH no(2) by simp
qed

lemma split_line:
  assumes "str_index l crlf = None" and "l = [] \<or> last l \<noteq> carriage_return"
  shows "split_str crlf (l @ crlf @ s) = l # split_str crlf s"
  using str_index_line [OF assms, of s] by (subst split_str.simps) (simp add: crlf_def)

lemma has_prefix_prefix: "has_prefix s p \<longleftrightarrow> prefix p s"
  by (metis append_eq_conv_conj has_prefix_def prefix_def)

lemma str_index_None: "str_index s p = None \<longleftrightarrow> \<not> sublist p s"
  by (induction s) (simp_all add: has_prefix_prefix sublist_Cons_right)

lemma str_contains_sublist: "str_contains s p \<longleftrightarrow> sublist p s"
  by (simp add: str_contains_def str_index_None)

lemma str_index_least: "str_index s p = Some i \<Longrightarrow> p \<noteq> [] \<Longrightarrow> \<not> sublist p (take i s)"
proof (induction s arbitrary: i)
  case (Cons c s)
  show ?case
  proof (cases "prefix p (c # s)")
    case True
    with Cons.prems show ?thesis by (simp add: has_prefix_prefix)
  next
    case False
    with Cons.prems obtain j where j: "i = Suc j" "str_index s p = Some j" by (auto simp: has_prefix_prefix)
    have "\<not> prefix p (c # take j s)" using False take_is_prefix [of j s] by (metis Cons_prefix_Cons prefix_order.trans)
    with j Cons.IH Cons.prems(2) show ?thesis by (simp add: sublist_Cons_right)
  qed
qed auto

lemma split_str_no_sep: "sep \<noteq> [] \<Longrightarrow> l \<in> set (split_str sep s) \<Longrightarrow> \<not> sublist sep l"
proof (induction sep s rule: split_str.induct)
  case (1 sep s)
  show ?case
  proof (cases "str_index s sep")
    case None
    with "1.prems" show ?thesis by (simp add: split_str.simps [of sep s] str_index_None)
  next
    case (Some i)
    with "1.prems" consider "l = take i s" | "l \<in> set (split_str sep (drop (i + length sep) s))"
      by (auto simp: split_str.simps [of sep s])
    then show ?thesis using "1.IH" [OF Some] str_index_least [OF Some] "1.prems"(1) by cases blast+
  qed
qed

section \<open>Headers and addresses\<close>

definition sip_parseHeader :: "string \<Rightarrow> string \<Rightarrow> string" where
  "sip_parseHeader msg name =
     (case find (\<lambda>l. has_prefix (to_lower l) (to_lower name @ '':'')) (split_str crlf msg) of
        None \<Rightarrow> []
      | Some l \<Rightarrow> trim_space (drop (Suc (length name)) l))"

text \<open>\<^verbatim>\<open>strings.Fields(s)[0]\<close> panics on a text of white space only.\<close>

definition extractSIPUser :: "string \<Rightarrow> (unit, string) outcome" where
  "extractSIPUser hdr =
     (case str_index hdr ''sip:'' of
        None \<Rightarrow> Return []
      | Some i \<Rightarrow>
          let s = drop (i + 4) hdr
          in case str_index s ''@'' of
               Some j \<Rightarrow> Return (take j s)
             | None \<Rightarrow>
                 (case str_index s ''>'' of
                    Some j \<Rightarrow> Return (take j s)
                  | None \<Rightarrow> (case Gateway_Prelude.fields s of [] \<Rightarrow> Panic | f # _ \<Rightarrow> Return f)))"

text \<open>\<^verbatim>\<open>fmt.Sscanf\<close> with \<^verbatim>\<open>%d\<close>: the number a text starts with, behind blanks and a sign.\<close>

definition scan_int :: "string \<Rightarrow> int option" where
  "scan_int s =
     (let t = dropWhile (\<lambda>c. c = CHR '' '' \<or> c = char_of (9 :: nat)) s;
          (sign, u) = (case t of c # r \<Rightarrow> if c = CHR ''-'' \<or> c = CHR ''+'' then ([c], r) else ([], t) | [] \<Rightarrow> ([], []))
      in atoi (sign @ takeWhile is_digit u))"

definition extractSDP :: "string \<Rightarrow> string" where
  "extractSDP msg = (case split_str (crlf @ crlf) msg of _ # body # _ \<Rightarrow> body | _ \<Rightarrow> [])"

definition sdp_step :: "string \<times> int \<Rightarrow> string \<Rightarrow> string \<times> int" where
  "sdp_step acc line0 =
     (case acc of (ip, port) \<Rightarrow>
        let line = trim_space line0
        in ((if has_prefix line ''c=IN IP4 '' then trim_space (drop 9 line) else ip),
            (if has_prefix line ''m=audio '' then (case scan_int (drop 8 line) of None \<Rightarrow> port | Some p \<Rightarrow> p) else port)))"

definition parseSDPRTP :: "string \<Rightarrow> string \<times> int" where
  "parseSDPRTP sdp = foldl sdp_step ([], 0) (split_char newline sdp)"

text \<open>The part of a contact that is looked up; \<open>resolve\<close> is \<^verbatim>\<open>net.ResolveUDPAddr\<close>.\<close>

definition contactAddr :: "(string \<Rightarrow> (string \<times> nat) option) \<Rightarrow> string \<Rightarrow> (string \<times> nat) option" where
  "contactAddr resolve contact =
     (case str_index contact ''sip:'' of
        None \<Rightarrow> None
      | Some i \<Rightarrow> resolve (takeWhile (\<lambda>c. c \<noteq> CHR ''>'' \<and> c \<noteq> CHR '';'') (drop (i + 4) contact)))"

section \<open>What the server writes\<close>

definition quoted :: "string \<Rightarrow> string" where
  "quoted s = CHR 0x22 # s @ [CHR 0x22]"

definition WWWAuthHeader :: "string \<Rightarrow> string \<Rightarrow> string" where
  "WWWAuthHeader realm nonce =
     ''Digest realm='' @ quoted realm @ '', nonce='' @ quoted nonce @ '', algorithm=MD5, qop='' @ quoted ''auth''"

definition call_sdp :: "string \<Rightarrow> nat \<Rightarrow> string" where
  "call_sdp nas port =
     ''v=0'' @ crlf @ ''o=cellbridge 0 0 IN IP4 '' @ nas @ crlf @ ''s=CellBridge'' @ crlf @ ''c=IN IP4 '' @ nas @ crlf @
     ''t=0 0'' @ crlf @ ''m=audio '' @ nat_to_string port @ '' RTP/AVP 0'' @ crlf @ ''a=rtpmap:0 PCMU/8000'' @ crlf"

definition contact_header :: "string \<Rightarrow> string" where
  "contact_header nas = ''Contact: <sip:cellbridge@'' @ nas @ ''>'' @ crlf"

definition session_headers :: "string \<Rightarrow> string" where
  "session_headers nas =
     contact_header nas @ ''Allow: INVITE, ACK, BYE, CANCEL, OPTIONS'' @ crlf @ ''Content-Type: application/sdp'' @ crlf"

text \<open>\<^verbatim>\<open>sendResponse\<close>: the text of the datagram; \<open>uuid\<close> is the fresh identifier of the tag.\<close>

definition sip_response :: "string \<Rightarrow> string \<Rightarrow> nat \<Rightarrow> string \<Rightarrow> string \<Rightarrow> string \<Rightarrow> string" where
  "sip_response uuid req code reason extraHeaders body =
     (let callID = sip_parseHeader req ''Call-ID''; sender = sip_parseHeader req ''From''; to = sip_parseHeader req ''To'';
          via = sip_parseHeader req ''Via''; cseq = sip_parseHeader req ''CSeq'';
          tag = (if str_contains to ''tag='' then [] else '';tag='' @ take 8 uuid)
      in ''SIP/2.0 '' @ nat_to_string code @ '' '' @ reason @ crlf @ ''Via: '' @ via @ crlf @ ''From: '' @ sender @ crlf @
         ''To: '' @ to @ tag @ crlf @ ''Call-ID: '' @ callID @ crlf @ ''CSeq: '' @ cseq @ crlf @ extraHeaders @
         ''Content-Length: '' @ nat_to_string (length body) @ crlf @ crlf @ body)"

definition sip_invite :: "string \<Rightarrow> string \<Rightarrow> string \<Rightarrow> string \<Rightarrow> string \<Rightarrow> string" where
  "sip_invite nas user peer callID sdp =
     ''INVITE sip:'' @ user @ ''@'' @ nas @ '' SIP/2.0'' @ crlf @
     ''Via: SIP/2.0/UDP '' @ nas @ '':5060;branch=z9hG4bK'' @ take 8 callID @ '';rport'' @ crlf @
     ''From: <sip:'' @ peer @ ''@'' @ nas @ ''>;tag=cb'' @ take 8 callID @ crlf @
     ''To: <sip:'' @ user @ ''@'' @ nas @ ''>'' @ crlf @ ''Call-ID: '' @ callID @ crlf @ ''CSeq: 1 INVITE'' @ crlf @
     ''Contact: <sip:cellbridge@'' @ nas @ ''>'' @ crlf @ ''Content-Type: application/sdp'' @ crlf @
     ''Content-Length: '' @ nat_to_string (length sdp) @ crlf @ crlf @ sdp"

section \<open>A response answers its request\<close>

lemma strip_any_none:
  "\<not> (\<exists>p \<in> set ps. p \<noteq> [] \<and> prefix p (strip_any ps s))"
proof (induction ps s rule: strip_any.induct)
  case (1 ps s)
  show ?case
  proof (cases "find (\<lambda>p. p \<noteq> [] \<and> has_prefix s p) ps")
    case None
    then have "strip_any ps s = s" by (simp add: strip_any.simps [of ps s])
    with None show ?thesis by (auto simp: find_None_iff has_prefix_prefix)
  next
    case (Some p)
    with 1 show ?thesis by (simp add: strip_any.simps [of ps s])
  qed
qed

lemma strip_any_suffix: "suffix (strip_any ps s) s"
proof (induction ps s rule: strip_any.induct)
  case (1 ps s)
  show ?case
  proof (cases "find (\<lambda>p. p \<noteq> [] \<and> has_prefix s p) ps")
    case None
    then show ?thesis by (simp add: strip_any.simps [of ps s])
  next
    case (Some p)
    with 1 have "suffix (strip_any ps (drop (length p) s)) (drop (length p) s)" by blast
    then have "suffix (strip_any ps (drop (length p) s)) s" by (rule suffix_order.trans [OF _ suffix_drop])
    with Some show ?thesis by (simp add: strip_any.simps [of ps s])
  qed
qed

lemma strip_any_fix: "\<not> (\<exists>p \<in> set ps. p \<noteq> [] \<and> prefix p s) \<Longrightarrow> strip_any ps s = s"
  by (rule strip_any_id) (auto simp: has_prefix_prefix)

text \<open>A trimmed text is stripped at both ends.\<close>

lemma trim_space_ends_free:
  shows "\<not> (\<exists>p \<in> set space_strings. p \<noteq> [] \<and> prefix p (trim_space s))"
    and "\<not> (\<exists>p \<in> set space_strings. p \<noteq> [] \<and> suffix p (trim_space s))"
proof -
  let ?l = "strip_any space_strings s" and ?t = "trim_space s"
  have "prefix ?t ?l"
    using strip_any_suffix [of "map rev space_strings" "rev ?l"]
    by (simp add: trim_space_def suffix_to_prefix)
  with strip_any_none [of space_strings s] show "\<not> (\<exists>p \<in> set space_strings. p \<noteq> [] \<and> prefix p ?t)"
    by (meson prefix_order.trans)
  show "\<not> (\<exists>p \<in> set space_strings. p \<noteq> [] \<and> suffix p ?t)"
    using strip_any_none [of "map rev space_strings" "rev ?l"] by (auto simp: trim_space_def suffix_to_prefix)
qed

lemma trim_space_idem: "trim_space (trim_space s) = trim_space s"
proof -
  have "strip_any space_strings (trim_space s) = trim_space s"
    by (rule strip_any_fix [OF trim_space_ends_free(1)])
  moreover have "strip_any (map rev space_strings) (rev (trim_space s)) = rev (trim_space s)"
    using trim_space_ends_free(2) [of s] by (intro strip_any_fix) (auto simp: suffix_to_prefix)
  ultimately show ?thesis by (metis rev_rev_ident trim_space_def)
qed

lemma trim_space_sublist: "sublist (trim_space s) s"
proof -
  have "suffix (rev (trim_space s)) (rev (strip_any space_strings s))"
    by (simp add: trim_space_def strip_any_suffix)
  then have "prefix (trim_space s) (strip_any space_strings s)" by (simp add: suffix_to_prefix)
  then show ?thesis by (meson prefix_imp_sublist strip_any_suffix sublist_order.order_trans suffix_imp_sublist)
qed

text \<open>A text that stays within its line wherever it is put.\<close>

definition clean :: "string \<Rightarrow> bool" where
  "clean l \<longleftrightarrow> \<not> sublist crlf l \<and> (l = [] \<or> last l \<noteq> carriage_return)"

lemma clean_append:
  assumes "clean a" and "clean b"
  shows "clean (a @ b)"
proof -
  have "\<not> sublist crlf (a @ b)"
  proof
    assume "sublist crlf (a @ b)"
    with assms obtain u v where uv: "crlf = u @ v" "suffix u a" "prefix v b"
      by (auto simp: clean_def sublist_append)
    show False
    proof (cases u)
      case Nil
      with uv assms(2) show False by (auto simp: clean_def prefix_imp_sublist)
    next
      case (Cons c w)
      show False
      proof (cases w)
        case Nil
        with Cons uv have "last a = carriage_return" "a \<noteq> []" by (auto simp: crlf_def suffix_def)
        with assms(1) show False by (simp add: clean_def)
      next
        case (Cons d x)
        with \<open>u = c # w\<close> uv have "u = crlf" by (simp add: crlf_def)
        with uv assms(1) show False by (auto simp: clean_def suffix_imp_sublist)
      qed
    qed
  qed
  with assms show ?thesis by (cases "b = []") (simp_all add: clean_def)
qed

lemma clean_literal: "carriage_return \<notin> set l \<Longrightarrow> clean l"
  unfolding clean_def crlf_def by (metis last_in_set list.set_intros(1) set_mono_sublist subsetD)

lemma split_clean: "clean l \<Longrightarrow> split_str crlf (l @ crlf @ s) = l # split_str crlf s"
  by (simp add: clean_def split_line str_index_None)

lemma carriage_return_space: "[carriage_return] \<in> set space_strings"
  by (simp add: space_strings_def space_encodings_def carriage_return_def)

lemma parseHeader_sublist:
  "sip_parseHeader msg name = [] \<or> (\<exists>l \<in> set (split_str crlf msg). sublist (sip_parseHeader msg name) l)"
proof (cases "find (\<lambda>l. has_prefix (to_lower l) (to_lower name @ '':'')) (split_str crlf msg)")
  case None
  then show ?thesis by (simp add: sip_parseHeader_def)
next
  case (Some l)
  then have "l \<in> set (split_str crlf msg)" by (auto simp: find_Some_iff)
  moreover have "sublist (trim_space (drop (Suc (length name)) l)) l"
    by (meson sublist_drop sublist_order.order_trans trim_space_sublist)
  ultimately show ?thesis using Some by (auto simp: sip_parseHeader_def)
qed

lemma parseHeader_trimmed: "trim_space (sip_parseHeader msg name) = sip_parseHeader msg name"
  by (simp add: sip_parseHeader_def trim_space_idem split: option.split)

lemma parseHeader_clean: "clean (sip_parseHeader msg name)"
proof -
  let ?v = "sip_parseHeader msg name"
  have "\<not> sublist crlf ?v"
  proof
    assume in_v: "sublist crlf ?v"
    have ne: "crlf \<noteq> []" by (simp add: crlf_def)
    with in_v have "?v \<noteq> []" by auto
    then obtain l where l: "l \<in> set (split_str crlf msg)" "sublist ?v l" using parseHeader_sublist by blast
    from split_str_no_sep [OF ne l(1)] have "\<not> sublist crlf l" .
    with in_v l(2) show False by (meson sublist_order.order_trans)
  qed
  moreover have "?v = [] \<or> last ?v \<noteq> carriage_return"
  proof (rule ccontr)
    assume "\<not> ?thesis"
    then have "suffix [carriage_return] ?v" by (metis append_butlast_last_id suffix_def)
    then have "suffix [carriage_return] (trim_space ?v)" by (simp add: parseHeader_trimmed)
    with trim_space_ends_free(2) [of ?v] carriage_return_space show False by blast
  qed
  ultimately show ?thesis by (simp add: clean_def)
qed

lemma trim_space_blank: "trim_space (CHR '' '' # s) = trim_space s"
proof -
  let ?t = "CHR '' '' # s"
  have only: "list_all (\<lambda>p. p \<noteq> [] \<and> hd p = CHR '' '' \<longrightarrow> p = [CHR '' '']) space_strings" by code_simp
  have mem: "[CHR '' ''] \<in> set space_strings" by code_simp
  have "find (\<lambda>p. p \<noteq> [] \<and> has_prefix ?t p) space_strings = Some [CHR '' '']"
  proof (cases "find (\<lambda>p. p \<noteq> [] \<and> has_prefix ?t p) space_strings")
    case None
    with mem show ?thesis by (auto simp: find_None_iff has_prefix_def)
  next
    case (Some p)
    then have p: "p \<in> set space_strings" "p \<noteq> []" "has_prefix ?t p" by (auto simp: find_Some_iff)
    from p(3) obtain u where "?t = p @ u" unfolding has_prefix_prefix prefix_def by blast
    with p(2) have "hd p = CHR '' ''" by (cases p) simp_all
    with only p Some show ?thesis by (auto simp: list_all_iff)
  qed
  then have "strip_any space_strings ?t = strip_any space_strings s"
    by (subst strip_any.simps) simp
  then show ?thesis by (simp add: trim_space_def)
qed

text \<open>A line of a message and the field it is.\<close>

lemma parseHeader_first:
  "split_str crlf msg = l # ls \<Longrightarrow>
     sip_parseHeader msg name =
       (if has_prefix (to_lower l) (to_lower name @ '':'') then trim_space (drop (Suc (length name)) l)
        else (case find (\<lambda>l. has_prefix (to_lower l) (to_lower name @ '':'')) ls of
          None \<Rightarrow> [] | Some l \<Rightarrow> trim_space (drop (Suc (length name)) l)))"
  by (simp add: sip_parseHeader_def)

definition response_lines :: "string \<Rightarrow> string \<Rightarrow> nat \<Rightarrow> string \<Rightarrow> string list" where
  "response_lines uuid req code reason =
     [''SIP/2.0 '' @ nat_to_string code @ '' '' @ reason, ''Via: '' @ sip_parseHeader req ''Via'',
      ''From: '' @ sip_parseHeader req ''From'',
      ''To: '' @ sip_parseHeader req ''To'' @ (if str_contains (sip_parseHeader req ''To'') ''tag='' then [] else '';tag='' @ take 8 uuid),
      ''Call-ID: '' @ sip_parseHeader req ''Call-ID'', ''CSeq: '' @ sip_parseHeader req ''CSeq'']"

lemma nat_to_string_no_cr: "carriage_return \<notin> set (nat_to_string n)"
proof -
  have "\<not> is_digit carriage_return" by (simp add: is_digit_def carriage_return_def)
  with nat_to_string_digits [of n] show ?thesis by (auto simp: list_all_iff)
qed

lemma carriage_return_literal: "carriage_return = CHR 0x0D"
  by code_simp

lemma clean_Cons: "c \<noteq> CHR 0x0D \<Longrightarrow> clean s \<Longrightarrow> clean (c # s)"
  using clean_append [OF clean_literal [of "[c]"], of s] by (simp add: carriage_return_literal)

lemma response_lines_clean:
  assumes "clean reason" and "carriage_return \<notin> set uuid"
  shows "\<forall>l \<in> set (response_lines uuid req code reason). clean l"
proof -
  have "carriage_return \<notin> set (take 8 uuid)" using assms(2) by (meson in_set_takeD)
  then have "clean (take 8 uuid)" by (rule clean_literal)
  moreover have "clean (nat_to_string code)" by (rule clean_literal [OF nat_to_string_no_cr])
  ultimately show ?thesis
    using assms(1)
    by (auto simp: response_lines_def carriage_return_literal intro!: clean_append clean_Cons parseHeader_clean)
qed

lemma split_lines:
  "\<forall>l \<in> set ls. clean l \<Longrightarrow> split_str crlf (concat (map (\<lambda>l. l @ crlf) ls) @ s) = ls @ split_str crlf s"
  by (induction ls) (simp_all add: split_clean)

lemma sip_response_split:
  assumes "clean reason" and "carriage_return \<notin> set uuid"
  shows "\<exists>rest. split_str crlf (sip_response uuid req code reason hdrs body) = response_lines uuid req code reason @ rest"
proof -
  have "sip_response uuid req code reason hdrs body =
      concat (map (\<lambda>l. l @ crlf) (response_lines uuid req code reason)) @
        hdrs @ ''Content-Length: '' @ nat_to_string (length body) @ crlf @ crlf @ body"
    by (simp add: sip_response_def response_lines_def Let_def)
  then show ?thesis using split_lines [OF response_lines_clean [OF assms]] by metis
qed

lemma to_lower_append [simp]: "to_lower (a @ b) = to_lower a @ to_lower b"
  by (simp add: to_lower_def)

lemma parseHeader_field:
  assumes "split_str crlf msg = ls @ l # rest" and "list_all (\<lambda>l. \<not> has_prefix (to_lower l) (to_lower name @ '':'')) ls"
    and "l = name @ '': '' @ v" and "trim_space v = v"
  shows "sip_parseHeader msg name = v"
proof -
  have "find (\<lambda>l. has_prefix (to_lower l) (to_lower name @ '':'')) (ls @ l # rest) = Some l"
    using assms(2,3) by (induction ls) (simp_all add: has_prefix_def to_lower_def to_lower_char_def)
  with assms show ?thesis by (simp add: sip_parseHeader_def trim_space_blank)
qed

text \<open>C31: whatever the request, a response carries back its Via, From, Call-ID and CSeq as they were read, so that its sender
  matches it with the request: reading the response gives the fields of the request.\<close>

theorem response_answers_request:
  assumes "clean reason" and "carriage_return \<notin> set uuid" and "name \<in> {''Via'', ''From'', ''Call-ID'', ''CSeq''}"
  shows "sip_parseHeader (sip_response uuid req code reason hdrs body) name = sip_parseHeader req name"
proof -
  let ?L = "response_lines uuid req code reason"
  note field = response_lines_def has_prefix_def to_lower_def to_lower_char_def
  obtain rest where lines: "split_str crlf (sip_response uuid req code reason hdrs body) = response_lines uuid req code reason @ rest"
    using sip_response_split [OF assms(1,2)] by blast
  have found: "sip_parseHeader (sip_response uuid req code reason hdrs body) name = sip_parseHeader req name"
    if "response_lines uuid req code reason = ls @ (name @ '': '' @ sip_parseHeader req name) # ls'"
      "list_all (\<lambda>l. \<not> has_prefix (to_lower l) (to_lower name @ '':'')) ls" for ls ls'
    using lines that parseHeader_field [OF _ that(2) refl parseHeader_trimmed] by simp
  from assms(3) consider "name = ''Via''" | "name = ''From''" | "name = ''Call-ID''" | "name = ''CSeq''" by blast
  then show ?thesis
  proof cases
    case 1
    with found [of "take 1 ?L" "drop 2 ?L"] show ?thesis by (simp add: field)
  next
    case 2
    with found [of "take 2 ?L" "drop 3 ?L"] show ?thesis by (simp add: field)
  next
    case 3
    with found [of "take 4 ?L" "drop 5 ?L"] show ?thesis by (simp add: field)
  next
    case 4
    with found [of "take 5 ?L" "drop 6 ?L"] show ?thesis by (simp add: field)
  qed
qed

theorem response_answers_request_witness:
  "sip_parseHeader (sip_response ''12345678'' (''BYE sip:x'' @ crlf @ ''Call-ID: c7'' @ crlf @ crlf) 200 ''OK'' [] []) ''Call-ID'' =
     sip_parseHeader (''BYE sip:x'' @ crlf @ ''Call-ID: c7'' @ crlf @ crlf) ''Call-ID''"
  by (rule response_answers_request) (simp_all add: clean_literal carriage_return_literal)

end
