(* ===== verification/Sip_Session.thy ===== *)
theory Sip_Session
  imports Sip_Text Media_Session Voice_Bridge Call_Adapter
begin

text \<open>
  The parts the SIP server is made of, \<^verbatim>\<open>gateway/internal/sip\<close>: accounts (\<^verbatim>\<open>auth.go\<close>), registrations
  (\<^verbatim>\<open>registrar.go\<close>), the RTP session of a call (\<^verbatim>\<open>media.go\<close>) and the call itself (\<^verbatim>\<open>session.go\<close>). A call acts on
  the call adapter and the modem behind it, the pair \<open>line\<close>; the modem's operations are parameters.
\<close>

section \<open>Accounts\<close>

record SipAuth =
  sa_users :: "(string \<times> string) list"
  sa_realm :: string
  sa_nonce :: string

definition AddUser :: "string \<Rightarrow> string \<Rightarrow> SipAuth \<Rightarrow> SipAuth" where
  "AddUser username password a = a\<lparr>sa_users := map_put username password (sa_users a)\<rparr>"

definition auth_Check :: "string \<Rightarrow> string \<Rightarrow> SipAuth \<Rightarrow> bool" where
  "auth_Check username password a \<longleftrightarrow> map_of (sa_users a) username = Some password"

definition NeedsAuth :: "string \<Rightarrow> bool" where
  "NeedsAuth msg \<longleftrightarrow> \<not> str_contains (to_lower msg) ''authorization:''"

section \<open>Registrations\<close>

record Registration =
  rn_Username :: string
  rn_Contact :: string
  rn_Expires :: int
  rn_Transport :: string
  rn_LastSeen :: int

type_synonym registrations = "(string \<times> Registration) list"

text \<open>Times are milliseconds, an expiry is seconds.\<close>

definition sip_Register :: "int \<Rightarrow> string \<Rightarrow> string \<Rightarrow> string \<Rightarrow> int \<Rightarrow> registrations \<Rightarrow> registrations" where
  "sip_Register now username contact transport expiresSec regs =
     (if expiresSec = 0 then map_del username regs
      else map_put username \<lparr>rn_Username = username, rn_Contact = contact, rn_Expires = now + expiresSec * 1000,
             rn_Transport = transport, rn_LastSeen = now\<rparr> regs)"

definition registrar_Get :: "int \<Rightarrow> string \<Rightarrow> registrations \<Rightarrow> Registration option \<times> registrations" where
  "registrar_Get now username regs =
     (case map_of regs username of
        None \<Rightarrow> (None, regs)
      | Some reg \<Rightarrow> if rn_Expires reg < now then (None, map_del username regs) else (Some reg, regs))"

definition registrar_All :: "int \<Rightarrow> registrations \<Rightarrow> Registration list" where
  "registrar_All now regs = filter (\<lambda>reg. now < rn_Expires reg) (map snd regs)"

text \<open>A registration is found from the moment it is made until it expires, and by its own name only.\<close>

lemma registered_until_expiry:
  assumes "e \<noteq> 0"
  shows "fst (registrar_Get t u (sip_Register now u contact transport e regs)) \<noteq> None \<longleftrightarrow> t \<le> now + e * 1000"
    and "v \<noteq> u \<Longrightarrow> fst (registrar_Get t v (sip_Register now u contact transport e regs)) = fst (registrar_Get t v regs)"
  using assms by (auto simp: registrar_Get_def sip_Register_def split: option.splits)

lemma unregistered:
  "fst (registrar_Get t u (sip_Register now u contact transport 0 regs)) = None"
  by (simp add: registrar_Get_def sip_Register_def)

section \<open>RTP\<close>

record SipMedia =
  sm_port :: nat
  sm_remote :: "(string \<times> int) option"
  sm_closed :: bool
  sm_seq :: "16 word"
  sm_ts :: "32 word"
  sm_rx :: nat
  sm_tx :: nat

definition NewMediaSession :: "nat \<Rightarrow> SipMedia" where
  "NewMediaSession port =
     \<lparr>sm_port = port, sm_remote = None, sm_closed = False, sm_seq = 0, sm_ts = 0, sm_rx = 0, sm_tx = 0\<rparr>"

text \<open>The address is an IP address and a number; \<^verbatim>\<open>ResolveUDPAddr\<close> refuses a number that is no port.\<close>

definition SetRemote :: "string \<Rightarrow> int \<Rightarrow> SipMedia \<Rightarrow> SipMedia" where
  "SetRemote ip port m = (if 0 \<le> port \<and> port < 65536 then m\<lparr>sm_remote := Some (ip, port)\<rparr> else m)"

definition sip_WritePCMU :: "bool \<Rightarrow> byte list \<Rightarrow> SipMedia \<Rightarrow> Packet option \<times> SipMedia" where
  "sip_WritePCMU written frame m =
     (let m1 = m\<lparr>sm_seq := sm_seq m + 1, sm_ts := sm_ts m + of_nat (length frame)\<rparr>
      in if sm_remote m = None then (None, m1)
         else (Some \<lparr>pk_PayloadType = 0, pk_SequenceNumber = sm_seq m1, pk_Timestamp = sm_ts m1, pk_SSRC = 0x12345678,
                 pk_Payload = frame\<rparr>,
               if written then m1\<lparr>sm_tx := sm_tx m1 + 1\<rparr> else m1))"

fun sip_write_all :: "byte list list \<Rightarrow> SipMedia \<Rightarrow> Packet list \<times> SipMedia" where
  "sip_write_all [] m = ([], m)"
| "sip_write_all (f # fs) m =
     (case sip_WritePCMU True f m of (p, m1) \<Rightarrow> (case sip_write_all fs m1 of (ps, m2) \<Rightarrow>
        ((case p of None \<Rightarrow> ps | Some q \<Rightarrow> q # ps), m2)))"

text \<open>\<^verbatim>\<open>OnPCMUFrame\<close>: one datagram, \<^term>\<open>None\<close> for one that is no RTP packet; the payload handed to the bridge.\<close>

definition receive_frame :: "Packet option \<Rightarrow> SipMedia \<Rightarrow> byte list option \<times> SipMedia" where
  "receive_frame packet m =
     (case packet of
        None \<Rightarrow> (None, m)
      | Some p \<Rightarrow> if length (pk_Payload p) \<noteq> 160 then (None, m) else (Some (pk_Payload p), m\<lparr>sm_rx := sm_rx m + 1\<rparr>))"

definition media_Close :: "SipMedia \<Rightarrow> SipMedia" where
  "media_Close m = m\<lparr>sm_closed := True\<rparr>"

text \<open>The packets of a call: numbered from 1 on without a gap, 160 samples apart, whatever was written before the remote
  end was known having taken its numbers too.\<close>

lemma sip_frames_numbered:
  "sm_remote m \<noteq> None \<Longrightarrow> list_all (\<lambda>f. length f = 160) fs \<Longrightarrow>
     fst (sip_write_all fs m) =
       map (\<lambda>(i, f). \<lparr>pk_PayloadType = 0, pk_SequenceNumber = sm_seq m + of_nat (Suc i),
              pk_Timestamp = sm_ts m + 160 * of_nat (Suc i), pk_SSRC = 0x12345678, pk_Payload = f\<rparr>) (enumerate 0 fs)"
proof (induction fs arbitrary: m)
  case (Cons f fs)
  have shift: "enumerate (Suc 0) xs = map (\<lambda>(i, x). (Suc i, x)) (enumerate 0 xs)" for xs :: "byte list list"
    by (rule nth_equalityI) (simp_all add: nth_enumerate_eq)
  let ?m = "snd (sip_WritePCMU True f m)"
  have "sm_remote ?m \<noteq> None" "sm_seq ?m = sm_seq m + 1" "sm_ts ?m = sm_ts m + 160"
    using Cons.prems by (auto simp: sip_WritePCMU_def Let_def)
  with Cons show ?case
    by (auto simp: sip_WritePCMU_def Let_def shift case_prod_beta comp_def distrib_left add.assoc)
qed simp

section \<open>A call\<close>

record SIPCallSession =
  sc_ID :: string
  sc_Peer :: string
  sc_Direction :: string
  sc_media :: SipMedia
  sc_bridge :: Bridge
  sc_cancelled :: bool
  sc_state :: string

definition NewSIPCallSession :: "string \<Rightarrow> string \<Rightarrow> string \<Rightarrow> SipMedia \<Rightarrow> SIPCallSession" where
  "NewSIPCallSession callID peer dir media =
     \<lparr>sc_ID = callID, sc_Peer = peer, sc_Direction = dir, sc_media = media, sc_bridge = NewBridge, sc_cancelled = False,
      sc_state = ''init''\<rparr>"

type_synonym 's line = "ActiveCallAdapter \<times> 's"

text \<open>\<^verbatim>\<open>Dial\<close>: \<open>ready\<close> and \<open>route\<close> are the errors of waiting for the modem and of recycling the voice route, an audio
  backend without routes giving none.\<close>

definition session_Dial ::
  "string option \<Rightarrow> string option \<Rightarrow> (string \<Rightarrow> 's \<Rightarrow> (modem_error, string) result \<times> 's) \<Rightarrow> SIPCallSession \<Rightarrow> 's line \<Rightarrow>
   bool \<times> SIPCallSession \<times> 's line" where
  "session_Dial ready route dial s0 line =
     (let s = s0\<lparr>sc_state := ''dialing''\<rparr>
      in if sc_Direction s \<noteq> ''outbound'' then (True, s, line)
         else if ready \<noteq> None then (False, s, line)
         else if route \<noteq> None then (False, s, line)
         else (case call_Dial (dial (sc_Peer s)) line of
                 (Inl e, line') \<Rightarrow> (False, s, line')
               | (Inr _, line') \<Rightarrow> (True, s, line')))"

text \<open>\<^verbatim>\<open>AwaitBridge\<close>: \<open>waited\<close> is what \<^verbatim>\<open>WaitActive\<close> returned, \<^term>\<open>None\<close> for an error before the deadline, and \<open>audio\<close>
  what the voice backend's \<^verbatim>\<open>Start\<close> did.\<close>

definition AwaitBridge ::
  "bool option \<Rightarrow> bool \<Rightarrow> (voice_error, unit) result \<Rightarrow> SIPCallSession \<Rightarrow> bool \<times> SIPCallSession" where
  "AwaitBridge waited has_audio audio s =
     (if waited \<noteq> Some True then (False, s)
      else (case bridge_Start has_audio True audio (sc_ID s) (sc_bridge s) of
              (Inl e, b) \<Rightarrow> (False, s\<lparr>sc_bridge := b\<rparr>)
            | (Inr _, b) \<Rightarrow> (True, s\<lparr>sc_bridge := b, sc_state := ''active''\<rparr>)))"

definition session_Hangup ::
  "(string \<Rightarrow> 's \<Rightarrow> (modem_error, unit) result \<times> 's) \<Rightarrow> SIPCallSession \<Rightarrow> 's line \<Rightarrow> SIPCallSession \<times> 's line" where
  "session_Hangup hangup s line =
     (s\<lparr>sc_cancelled := True, sc_bridge := snd (bridge_Stop (sc_bridge s)), sc_media := media_Close (sc_media s),
        sc_state := ''ended''\<rparr>,
      if sc_Direction s = ''outbound'' \<or> sc_Direction s = ''inbound'' then snd (call_Hangup hangup line) else line)"

lemma session_Hangup_simps [simp]:
  "sc_state (fst (session_Hangup hangup s line)) = ''ended''"
  "sc_ID (fst (session_Hangup hangup s line)) = sc_ID s"
  "sc_Direction (fst (session_Hangup hangup s line)) = sc_Direction s"
  by (simp_all add: session_Hangup_def)

end
