(* ===== verification/Sip_Server.thy ===== *)
theory Sip_Server
  imports Sip_Session Json_Text
begin

text \<open>
  The SIP server, \<^verbatim>\<open>gateway/internal/sip/server.go\<close> and \<^verbatim>\<open>yakpush.go\<close>. Every datagram is handled in a goroutine of its own,
  so an INVITE is three steps other messages can come between: what happens up to the dial, the dial, and the wait for
  the answer. Sessions are shared between the table and the goroutines that wait for them: the table and the steps hold
  positions in the store of all sessions. A step that panics ends the process.
\<close>

section \<open>State\<close>

type_synonym udp_address = "string \<times> nat"

record 's SipServer =
  ss_registrar :: registrations
  ss_auth :: SipAuth
  ss_store :: "SIPCallSession list"
  ss_sessions :: "(string \<times> nat) list"
  ss_line :: "'s line"
  ss_outbox :: "(udp_address \<times> string) list"
  ss_sms :: "(string \<times> string) list"
  ss_pushes :: "string list"

text \<open>What a step is given: the clock, the gateway's address, fresh identifiers (numbered by the datagrams sent before), a
  media port or none, the SMS engine if attached with its verdict, the push token, the name service.\<close>

record Surround =
  su_now :: int
  su_nas :: string
  su_uuid :: "nat \<Rightarrow> string"
  su_port :: "nat option"
  su_sms :: "(string \<Rightarrow> string \<Rightarrow> bool) option"
  su_token :: string
  su_resolve :: "string \<Rightarrow> udp_address option"

definition sip_send :: "udp_address \<Rightarrow> string \<Rightarrow> 's SipServer \<Rightarrow> 's SipServer" where
  "sip_send remote text srv = srv\<lparr>ss_outbox := ss_outbox srv @ [(remote, text)]\<rparr>"

definition sendResponse ::
  "Surround \<Rightarrow> udp_address \<Rightarrow> string \<Rightarrow> nat \<Rightarrow> string \<Rightarrow> string \<Rightarrow> string \<Rightarrow> 's SipServer \<Rightarrow> 's SipServer" where
  "sendResponse e remote req code reason hdrs body srv =
     sip_send remote (sip_response (su_uuid e (length (ss_outbox srv))) req code reason hdrs body) srv"

definition nas_ip :: "Surround \<Rightarrow> string" where
  "nas_ip e = (if su_nas e = [] then ''127.0.0.1'' else su_nas e)"

section \<open>Registration and messages\<close>

definition handleRegister :: "Surround \<Rightarrow> string \<Rightarrow> udp_address \<Rightarrow> 's SipServer \<Rightarrow> (unit, 's SipServer) outcome" where
  "handleRegister e msg remote srv =
     (let contact = sip_parseHeader msg ''Contact''; expiresStr = sip_parseHeader msg ''Expires''
      in case extractSIPUser (sip_parseHeader msg ''To'') of
           Return to_user \<Rightarrow>
             (case (if to_user = [] then extractSIPUser (sip_parseHeader msg ''From'') else Return to_user) of
                Return username \<Rightarrow>
                  if NeedsAuth msg
                  then Return (sendResponse e remote msg 401 ''Unauthorized''
                    (''WWW-Authenticate: '' @ WWWAuthHeader (sa_realm (ss_auth srv)) (sa_nonce (ss_auth srv)) @ crlf) [] srv)
                  else
                    let given = (if expiresStr = [] then 3600 else case scan_int expiresStr of None \<Rightarrow> 3600 | Some n \<Rightarrow> n);
                        expires = (if str_contains contact ''expires=0'' then 0 else given)
                    in Return (sendResponse e remote msg 200 ''OK''
                         (''Contact: '' @ contact @ crlf @ ''Expires: '' @ itoa expires @ crlf) []
                         (srv\<lparr>ss_registrar := sip_Register (su_now e) username contact ''UDP'' expires (ss_registrar srv)\<rparr>))
              | Error u \<Rightarrow> Error u
              | Panic \<Rightarrow> Panic)
         | Error u \<Rightarrow> Error u
         | Panic \<Rightarrow> Panic)"

definition message_destination :: "string \<Rightarrow> string" where
  "message_destination requestURI =
     (let d = (case str_index requestURI ''@'' of
            Some i \<Rightarrow> if 0 < i then trim_prefix (take i requestURI) ''sip:'' else requestURI
          | None \<Rightarrow> requestURI)
      in dropWhile (\<lambda>c. c = CHR ''+'' \<or> c = CHR '' '') d)"

definition message_body :: "string \<Rightarrow> string" where
  "message_body msg = (case str_index msg (crlf @ crlf) of None \<Rightarrow> [] | Some i \<Rightarrow> trim_space (drop (i + 4) msg))"

definition handleMessageRequest :: "Surround \<Rightarrow> string \<Rightarrow> udp_address \<Rightarrow> 's SipServer \<Rightarrow> (unit, 's SipServer) outcome" where
  "handleMessageRequest e msg remote srv =
     (case su_sms e of
        None \<Rightarrow> Return (sendResponse e remote msg 500 ''Server Error'' [] [] srv)
      | Some send \<Rightarrow>
          (case Gateway_Prelude.fields msg of
             _ # requestURI # _ \<Rightarrow>
               let destination = message_destination requestURI; body = message_body msg
               in if destination = [] \<or> body = [] then Return (sendResponse e remote msg 400 ''Bad Request'' [] [] srv)
                  else if \<not> send destination body then Return (sendResponse e remote msg 500 ''Server Error'' [] [] srv)
                  else Return (sendResponse e remote msg 200 ''OK'' [] [] (srv\<lparr>ss_sms := ss_sms srv @ [(destination, body)]\<rparr>))
           | _ \<Rightarrow> Panic))"

section \<open>Calls\<close>

definition hangup_at ::
  "(string \<Rightarrow> 's \<Rightarrow> (modem_error, unit) result \<times> 's) \<Rightarrow> nat \<Rightarrow> 's SipServer \<Rightarrow> 's SipServer" where
  "hangup_at hangup p srv =
     (case session_Hangup hangup (ss_store srv ! p) (ss_line srv) of (s, line) \<Rightarrow>
        srv\<lparr>ss_store := (ss_store srv)[p := s], ss_line := line\<rparr>)"

definition delete_session :: "string \<Rightarrow> 's SipServer \<Rightarrow> 's SipServer" where
  "delete_session callID srv = srv\<lparr>ss_sessions := map_del callID (ss_sessions srv)\<rparr>"

text \<open>The order in which \<^verbatim>\<open>sync.Map\<close> yields the sessions is that of the list, any.\<close>

definition reap_one ::
  "(string \<Rightarrow> 's \<Rightarrow> (modem_error, unit) result \<times> 's) \<Rightarrow> string \<Rightarrow> 's SipServer \<Rightarrow> 's SipServer" where
  "reap_one hangup callID srv =
     (case map_of (ss_sessions srv) callID of
        None \<Rightarrow> srv
      | Some p \<Rightarrow> delete_session callID (hangup_at hangup p srv))"

definition reapStaleSessions ::
  "(string \<Rightarrow> 's \<Rightarrow> (modem_error, unit) result \<times> 's) \<Rightarrow> 's SipServer \<Rightarrow> 's SipServer" where
  "reapStaleSessions hangup srv = fold (reap_one hangup) (map fst (ss_sessions srv)) srv"

definition invite_id :: "Surround \<Rightarrow> string \<Rightarrow> 's SipServer \<Rightarrow> string" where
  "invite_id e msg srv =
     (let callID = sip_parseHeader msg ''Call-ID'' in if callID = [] then su_uuid e (length (ss_outbox srv)) else callID)"

definition invite_repeated :: "Surround \<Rightarrow> string \<Rightarrow> udp_address \<Rightarrow> nat \<Rightarrow> 's SipServer \<Rightarrow> 's SipServer" where
  "invite_repeated e msg remote p srv =
     (let existing = ss_store srv ! p; m = sc_media existing
      in if 0 < sm_rx m \<or> 0 < sm_tx m \<or> sc_state existing = ''active''
         then sendResponse e remote msg 200 ''OK'' (session_headers (nas_ip e)) (call_sdp (nas_ip e) (sm_port m)) srv
         else sendResponse e remote msg 180 ''Ringing'' (contact_header (nas_ip e)) [] srv)"

text \<open>A new call up to its dial: the position of its session.\<close>

definition invite_new ::
  "Surround \<Rightarrow> (string \<Rightarrow> 's \<Rightarrow> (modem_error, unit) result \<times> 's) \<Rightarrow> string \<Rightarrow> udp_address \<Rightarrow> string \<Rightarrow> string \<Rightarrow> 's SipServer \<Rightarrow>
   nat option \<times> 's SipServer" where
  "invite_new e hangup msg remote callID peer srv =
     (case su_port e of
        None \<Rightarrow> (None, sendResponse e remote msg 500 ''Server Error'' [] [] srv)
      | Some port \<Rightarrow>
          let rtpPort = snd (parseSDPRTP (extractSDP msg));
              media = (if rtpPort \<noteq> 0 then SetRemote (fst remote) rtpPort (NewMediaSession port) else NewMediaSession port);
              srv1 = reapStaleSessions hangup (sendResponse e remote msg 100 ''Trying'' [] [] srv);
              srv2 = srv1\<lparr>ss_store := ss_store srv1 @ [NewSIPCallSession callID peer ''outbound'' media]\<rparr>
          in (Some (length (ss_store srv1)),
              sendResponse e remote msg 180 ''Ringing'' (contact_header (nas_ip e)) [] srv2))"

definition handleInvite ::
  "Surround \<Rightarrow> (string \<Rightarrow> 's \<Rightarrow> (modem_error, unit) result \<times> 's) \<Rightarrow> string \<Rightarrow> udp_address \<Rightarrow> 's SipServer \<Rightarrow>
   (unit, nat option \<times> 's SipServer) outcome" where
  "handleInvite e hangup msg remote srv =
     (case extractSIPUser (sip_parseHeader msg ''To'') of
        Return to_user \<Rightarrow>
          (case extractSIPUser (sip_parseHeader msg ''From'') of
             Return username \<Rightarrow>
               (case registrar_Get (su_now e) username (ss_registrar srv) of
                  (None, regs) \<Rightarrow> Return (None, sendResponse e remote msg 403 ''Forbidden'' [] [] (srv\<lparr>ss_registrar := regs\<rparr>))
                | (Some _, regs) \<Rightarrow>
                    let callID = invite_id e msg srv; peer = (if to_user = [] then ''unknown'' else to_user)
                    in (case map_of (ss_sessions srv) callID of
                          Some p \<Rightarrow> Return (None, invite_repeated e msg remote p srv)
                        | None \<Rightarrow> Return (invite_new e hangup msg remote callID peer srv)))
           | Error u \<Rightarrow> Error u
           | Panic \<Rightarrow> Panic)
      | Error u \<Rightarrow> Error u
      | Panic \<Rightarrow> Panic)"

text \<open>The dial of a call, and whether its goroutine then waits for the answer.\<close>

definition invite_dial ::
  "Surround \<Rightarrow> string option \<Rightarrow> string option \<Rightarrow> (string \<Rightarrow> 's \<Rightarrow> (modem_error, string) result \<times> 's) \<Rightarrow>
   string \<Rightarrow> udp_address \<Rightarrow> nat \<Rightarrow> 's SipServer \<Rightarrow> bool \<times> 's SipServer" where
  "invite_dial e ready route dial msg remote p srv =
     (case session_Dial ready route dial (ss_store srv ! p) (ss_line srv) of (ok, s, line) \<Rightarrow>
        let callID = sc_ID s;
            srv1 = srv\<lparr>ss_line := line, ss_store := (ss_store srv)[p := s]\<rparr>
        in if ok then (True, srv1\<lparr>ss_sessions := map_put callID p (ss_sessions srv1)\<rparr>)
           else
             let srv2 = delete_session callID (sendResponse e remote msg 500 ''Server Error'' [] [] srv1)
             in (False, srv2\<lparr>ss_store := (ss_store srv2)[p := s\<lparr>sc_media := media_Close (sc_media s)\<rparr>]\<rparr>))"

definition invite_await ::
  "Surround \<Rightarrow> bool option \<Rightarrow> bool \<Rightarrow> (voice_error, unit) result \<Rightarrow> (string \<Rightarrow> 's \<Rightarrow> (modem_error, unit) result \<times> 's) \<Rightarrow>
   string \<Rightarrow> udp_address \<Rightarrow> nat \<Rightarrow> 's SipServer \<Rightarrow> 's SipServer" where
  "invite_await e waited has_audio audio hangup msg remote p srv =
     (case AwaitBridge waited has_audio audio (ss_store srv ! p) of (ok, s) \<Rightarrow>
        let srv1 = srv\<lparr>ss_store := (ss_store srv)[p := s]\<rparr>
        in if \<not> ok then delete_session (sc_ID s) (hangup_at hangup p srv1)
           else sendResponse e remote msg 200 ''OK'' (session_headers (nas_ip e)) (call_sdp (nas_ip e) (sm_port (sc_media s))) srv1)"

definition handleAckBye ::
  "Surround \<Rightarrow> (string \<Rightarrow> 's \<Rightarrow> (modem_error, unit) result \<times> 's) \<Rightarrow> string \<Rightarrow> udp_address \<Rightarrow> 's SipServer \<Rightarrow> 's SipServer" where
  "handleAckBye e hangup msg remote srv =
     (let callID = sip_parseHeader msg ''Call-ID''
      in if callID = [] then sendResponse e remote msg 200 ''OK'' [] [] srv
         else sendResponse e remote msg 200 ''OK'' [] [] (reap_one hangup callID srv))"

section \<open>Messages and events\<close>

definition handleMessage ::
  "Surround \<Rightarrow> (string \<Rightarrow> 's \<Rightarrow> (modem_error, unit) result \<times> 's) \<Rightarrow> string \<Rightarrow> udp_address \<Rightarrow> 's SipServer \<Rightarrow>
   (unit, nat option \<times> 's SipServer) outcome" where
  "handleMessage e hangup msg remote srv =
     (let first = hd (split_str crlf msg);
          finish = (\<lambda>r. case r of Return srv' \<Rightarrow> Return (None, srv') | Error u \<Rightarrow> Error u | Panic \<Rightarrow> Panic)
      in if has_prefix first ''REGISTER'' then finish (handleRegister e msg remote srv)
         else if has_prefix first ''INVITE'' then handleInvite e hangup msg remote srv
         else if has_prefix first ''ACK'' then Return (None, srv)
         else if has_prefix first ''BYE'' \<or> has_prefix first ''CANCEL'' then Return (None, handleAckBye e hangup msg remote srv)
         else if has_prefix first ''OPTIONS'' then Return (None, sendResponse e remote msg 200 ''OK'' [] [] srv)
         else if has_prefix first ''MESSAGE'' then finish (handleMessageRequest e msg remote srv)
         else Return (None, srv))"

definition push_payload :: "string \<Rightarrow> string \<Rightarrow> string \<Rightarrow> string \<Rightarrow> json" where
  "push_payload token callerURI pushType messageBody = JObject
     ([(''caller_name'', JString (trim_prefix callerURI ''sip:'')), (''caller_uri'', JString callerURI)] @
      optional_string ''message_body'' messageBody @ [(''token'', JString token), (''type'', JString pushType)])"

definition sendYakPush :: "Surround \<Rightarrow> string \<Rightarrow> string \<Rightarrow> string \<Rightarrow> 's SipServer \<Rightarrow> 's SipServer" where
  "sendYakPush e callerURI pushType messageBody srv =
     (if su_token e = [] then srv
      else srv\<lparr>ss_pushes := ss_pushes srv @ [json_marshal (push_payload (su_token e) callerURI pushType messageBody)]\<rparr>)"

definition ringClients :: "Surround \<Rightarrow> string \<Rightarrow> 's SipServer \<Rightarrow> 's SipServer" where
  "ringClients e peer0 srv =
     (let peer = (if peer0 = [] then ''unknown'' else peer0);
          callID = ''in-'' @ take 12 (su_uuid e (length (ss_outbox srv)))
      in case su_port e of
           None \<Rightarrow> srv
         | Some port \<Rightarrow>
             let srv1 = srv\<lparr>ss_store := ss_store srv @ [NewSIPCallSession callID peer ''inbound'' (NewMediaSession port)],
                            ss_sessions := map_put callID (length (ss_store srv)) (ss_sessions srv)\<rparr>;
                 ring = (\<lambda>reg srv. case contactAddr (su_resolve e) (rn_Contact reg) of
                    None \<Rightarrow> srv
                  | Some remote \<Rightarrow> sip_send remote (sip_invite (nas_ip e) (rn_Username reg) peer callID (call_sdp (nas_ip e) port)) srv)
             in sendYakPush e (''sip:'' @ peer @ ''@'' @ nas_ip e) ''voip'' [] (fold ring (registrar_All (su_now e) (ss_registrar srv1)) srv1))"

text \<open>One event of the modem; only an incoming call rings.\<close>

definition inbound_event :: "Surround \<Rightarrow> ModemEvent \<Rightarrow> 's SipServer \<Rightarrow> 's SipServer" where
  "inbound_event e event srv = (if me_Kind event \<noteq> ''incoming'' then srv else ringClients e (me_Peer event) srv)"

definition sip_Stop :: "(string \<Rightarrow> 's \<Rightarrow> (modem_error, unit) result \<times> 's) \<Rightarrow> 's SipServer \<Rightarrow> 's SipServer" where
  "sip_Stop hangup srv = fold (hangup_at hangup) (map snd (ss_sessions srv)) srv"

section \<open>Datagrams that end the process\<close>

lemma split_first_clean: "clean l \<Longrightarrow> split_str crlf (l @ crlf @ s) = l # split_str crlf s"
  by (rule split_clean)

lemma extractSIPUser_blank: "extractSIPUser ''sip:'' = Panic"
  by (simp add: extractSIPUser_def has_prefix_def Gateway_Prelude.fields.simps)

text \<open>Two datagrams that end the process in every state of the server and whoever sends them: a REGISTER whose To header is
  just the scheme, and, where the SMS engine is attached, the bare word MESSAGE.\<close>

theorem sip_datagram_ends_process:
  "handleMessage e hangup (''REGISTER sip:g SIP/2.0'' @ crlf @ ''To: sip:'') remote srv = Panic \<and>
   (su_sms e \<noteq> None \<longrightarrow> handleMessage e hangup ''MESSAGE'' remote srv = Panic)"
proof
  let ?msg = "''REGISTER sip:g SIP/2.0'' @ crlf @ ''To: sip:''"
  have no_crlf: "split_str crlf s = [s]" if "carriage_return \<notin> set s" for s
    using clean_literal [OF that] by (subst split_str.simps) (simp add: clean_def str_index_None [symmetric])
  have lines: "split_str crlf ?msg = [''REGISTER sip:g SIP/2.0'', ''To: sip:'']"
    by (subst split_clean) (simp_all add: clean_literal no_crlf carriage_return_literal)
  have "sip_parseHeader ?msg ''To'' = trim_space ''sip:''"
    unfolding sip_parseHeader_def lines
    by (simp add: has_prefix_def to_lower_def to_lower_char_def trim_space_blank)
  also have "\<dots> = ''sip:''" by (simp add: graphic_char_def)
  finally have "sip_parseHeader ?msg ''To'' = ''sip:''" .
  moreover have "hd (split_str crlf ?msg) = ''REGISTER sip:g SIP/2.0''" unfolding lines by simp
  ultimately show "handleMessage e hangup ?msg remote srv = Panic"
    by (simp add: handleMessage_def handleRegister_def extractSIPUser_blank has_prefix_def Let_def)
  have "split_str crlf ''MESSAGE'' = [''MESSAGE'']" by (rule no_crlf) (simp add: carriage_return_literal)
  then show "su_sms e \<noteq> None \<longrightarrow> handleMessage e hangup ''MESSAGE'' remote srv = Panic"
    by (auto simp: handleMessage_def handleMessageRequest_def has_prefix_def Gateway_Prelude.fields.simps is_ascii_space_def)
qed

theorem sip_datagram_ends_process_witness:
  "\<forall>(hangup :: string \<Rightarrow> 's \<Rightarrow> (modem_error, unit) result \<times> 's) (remote :: udp_address) (srv :: 's SipServer). handleMessage \<lparr>su_now = 0, su_nas = [], su_uuid = (\<lambda>n. []), su_port = None, su_sms = Some (\<lambda>to body. True), su_token = [],
     su_resolve = (\<lambda>s. None)\<rparr> hangup ''MESSAGE'' remote srv = Panic"
proof (intro allI)
  fix hangup :: "string \<Rightarrow> 's \<Rightarrow> (modem_error, unit) result \<times> 's" and remote :: "udp_address" and srv :: "'s SipServer"
  show "handleMessage \<lparr>su_now = 0, su_nas = [], su_uuid = (\<lambda>n. []), su_port = None, su_sms = Some (\<lambda>to body. True), su_token = [],
     su_resolve = (\<lambda>s. None)\<rparr> hangup ''MESSAGE'' remote srv = Panic"
    by (rule sip_datagram_ends_process [THEN conjunct2, THEN mp]) simp
qed

section \<open>Nobody is asked for a password\<close>

text \<open>A REGISTER that carries an Authorization header of any content, names a user in its To header, has no Expires header and no
  \<^verbatim>\<open>expires=0\<close> in its Contact is accepted and takes over that name for an hour, whether there is such an account or not and
  whatever its password.\<close>

theorem sip_asks_no_password:
  assumes "has_prefix (hd (split_str crlf msg)) ''REGISTER''" and "str_contains (to_lower msg) ''authorization:''"
    and "extractSIPUser (sip_parseHeader msg ''To'') = Return user" and "user \<noteq> []"
    and "sip_parseHeader msg ''Expires'' = []" and "\<not> str_contains (sip_parseHeader msg ''Contact'') ''expires=0''"
  shows "\<exists>srv'. handleMessage e hangup msg remote (srv\<lparr>ss_auth := accounts\<rparr>) = Return (None, srv') \<and>
     map_of (ss_registrar srv') user = Some \<lparr>rn_Username = user, rn_Contact = sip_parseHeader msg ''Contact'',
       rn_Expires = su_now e + 3600000, rn_Transport = ''UDP'', rn_LastSeen = su_now e\<rparr> \<and>
     fst (registrar_Get (su_now e + 3600000) user (ss_registrar srv')) \<noteq> None"
  using assms
  by (simp add: handleMessage_def handleRegister_def NeedsAuth_def sendResponse_def sip_send_def sip_Register_def
      registrar_Get_def Let_def)

text \<open>A client nobody knows, with an empty authorization.\<close>

definition eve_lines :: "string list" where
  "eve_lines = [''REGISTER sip:g SIP/2.0'', ''To: <sip:eve@g>'', ''Authorization:'', ''Contact: <sip:eve@10.0.0.9>'']"

definition eve_register :: string where
  "eve_register = concat (map (\<lambda>l. l @ crlf) eve_lines)"

lemma eve_split: "split_str crlf eve_register = eve_lines @ [[]]"
proof -
  have "split_str crlf [] = [[]]" by (subst split_str.simps) (simp add: crlf_def)
  moreover have "\<forall>l \<in> set eve_lines. clean l" by (auto simp: eve_lines_def carriage_return_literal intro!: clean_literal)
  ultimately show ?thesis using split_lines [of eve_lines "[]"] by (simp add: eve_register_def)
qed

lemma eve_headers:
  "sip_parseHeader eve_register ''To'' = ''<sip:eve@g>''" "sip_parseHeader eve_register ''Expires'' = []"
  "sip_parseHeader eve_register ''Contact'' = ''<sip:eve@10.0.0.9>''"
  unfolding sip_parseHeader_def eve_split
  by (simp_all add: eve_lines_def has_prefix_def to_lower_def to_lower_char_def trim_space_blank graphic_char_def)

lemma eve_authorization: "str_contains (to_lower eve_register) ''authorization:''"
proof -
  have "sublist ''authorization:'' (to_lower (''REGISTER sip:g SIP/2.0'' @ crlf @ ''To: <sip:eve@g>'' @ crlf) @ ''authorization:'' @
      to_lower (crlf @ ''Contact: <sip:eve@10.0.0.9>'' @ crlf))"
    by (meson sublist_append sublist_order.order_refl)
  also have "\<dots> = to_lower eve_register"
    by code_simp
  finally show ?thesis by (simp only: str_contains_sublist)
qed

theorem sip_asks_no_password_witness:
  "\<forall>(e :: Surround) (hangup :: string \<Rightarrow> 's \<Rightarrow> (modem_error, unit) result \<times> 's) (remote :: udp_address) (srv :: 's SipServer). \<exists>srv' :: 's SipServer. handleMessage e hangup eve_register remote (srv\<lparr>ss_auth := \<lparr>sa_users = [], sa_realm = ''r'', sa_nonce = ''n''\<rparr>\<rparr>) =
       Return (None, srv') \<and>
     fst (registrar_Get (su_now e + 3600000) ''eve'' (ss_registrar srv')) \<noteq> None"
proof (intro allI)
  fix e :: "Surround" and hangup :: "string \<Rightarrow> 's \<Rightarrow> (modem_error, unit) result \<times> 's" and remote :: "udp_address" and srv :: "'s SipServer"
  show "\<exists>srv' :: 's SipServer. handleMessage e hangup eve_register remote (srv\<lparr>ss_auth := \<lparr>sa_users = [], sa_realm = ''r'', sa_nonce = ''n''\<rparr>\<rparr>) =
       Return (None, srv') \<and>
     fst (registrar_Get (su_now e + 3600000) ''eve'' (ss_registrar srv')) \<noteq> None"
  proof -
    have "hd (split_str crlf eve_register) = ''REGISTER sip:g SIP/2.0''" unfolding eve_split by (simp add: eve_lines_def)
    then have "has_prefix (hd (split_str crlf eve_register)) ''REGISTER''" by (simp add: has_prefix_def)
    moreover have "extractSIPUser (sip_parseHeader eve_register ''To'') = Return ''eve''"
      by (simp add: eve_headers extractSIPUser_def has_prefix_def)
    moreover have "\<not> str_contains (sip_parseHeader eve_register ''Contact'') ''expires=0''"
      by (simp add: eve_headers str_contains_def has_prefix_def)
    ultimately show ?thesis
      using sip_asks_no_password [of eve_register "''eve''" e hangup remote "\<lparr>sa_users = [], sa_realm = ''r'', sa_nonce = ''n''\<rparr>" srv]
        eve_headers(2) eve_authorization by blast
  qed
qed

section \<open>One call at a time\<close>

lemma map_of_map_del_none: "map_of m k = None \<Longrightarrow> map_del k m = m"
  by (force simp: map_del_def map_of_eq_None_iff intro: filter_True)

text \<open>Reaping ends every call of the table, and keeps the store otherwise.\<close>

definition table_ok :: "'s SipServer \<Rightarrow> bool" where
  "table_ok srv \<longleftrightarrow> distinct (map fst (ss_sessions srv)) \<and>
     (\<forall>k p. map_of (ss_sessions srv) k = Some p \<longrightarrow> p < length (ss_store srv) \<and> sc_ID (ss_store srv ! p) = k)"

lemma hangup_at_simps [simp]:
  "ss_sessions (hangup_at hangup p srv) = ss_sessions srv"
  "length (ss_store (hangup_at hangup p srv)) = length (ss_store srv)"
  "p < length (ss_store srv) \<Longrightarrow> ss_store (hangup_at hangup p srv) ! q =
     (if q = p then fst (session_Hangup hangup (ss_store srv ! p) (ss_line srv)) else ss_store srv ! q)"
  by (simp_all add: hangup_at_def split: prod.split)

lemma reap_one_sessions: "ss_sessions (reap_one hangup k srv) = map_del k (ss_sessions srv)"
  by (simp add: reap_one_def delete_session_def map_of_map_del_none split: option.split)

lemma reap_one_store:
  "length (ss_store (reap_one hangup k srv)) = length (ss_store srv)"
  by (simp add: reap_one_def delete_session_def split: option.split)

lemma reap_one_ok: "table_ok srv \<Longrightarrow> table_ok (reap_one hangup k srv)"
  by (auto simp: table_ok_def reap_one_def delete_session_def simp del: map_of_eq_Some_iff split: option.splits if_splits)

lemma reap_one_ends:
  "table_ok srv \<Longrightarrow> map_of (ss_sessions srv) k = Some p \<Longrightarrow> sc_state (ss_store (reap_one hangup k srv) ! p) = ''ended''"
  by (simp add: table_ok_def reap_one_def delete_session_def)

lemma reap_one_keeps:
  "table_ok srv \<Longrightarrow> sc_state (ss_store srv ! q) = ''ended'' \<Longrightarrow> sc_state (ss_store (reap_one hangup k srv) ! q) = ''ended''"
  by (auto simp: table_ok_def reap_one_def delete_session_def split: option.split)

lemma reap_fold:
  "table_ok srv \<Longrightarrow> table_ok (fold (reap_one hangup) ks srv) \<and>
     ss_sessions (fold (reap_one hangup) ks srv) = filter (\<lambda>(k, p). k \<notin> set ks) (ss_sessions srv) \<and>
     length (ss_store (fold (reap_one hangup) ks srv)) = length (ss_store srv) \<and>
     (\<forall>q. sc_state (ss_store srv ! q) = ''ended'' \<longrightarrow> sc_state (ss_store (fold (reap_one hangup) ks srv) ! q) = ''ended'') \<and>
     (\<forall>k \<in> set ks. \<forall>p. map_of (ss_sessions srv) k = Some p \<longrightarrow> sc_state (ss_store (fold (reap_one hangup) ks srv) ! p) = ''ended'')"
proof (induction ks arbitrary: srv)
  case (Cons k ks)
  let ?s = "reap_one hangup k srv" and ?r = "fold (reap_one hangup) ks (reap_one hangup k srv)"
  note IH = Cons.IH [OF reap_one_ok [OF Cons.prems, of hangup k]]
  have "sc_state (ss_store ?r ! p) = ''ended''" if "k' \<in> set (k # ks)" "map_of (ss_sessions srv) k' = Some p" for k' p
  proof (cases "k' = k")
    case True
    with that reap_one_ends [OF Cons.prems, of k p hangup] IH show ?thesis by blast
  next
    case False
    with that have "k' \<in> set ks" "map_of (ss_sessions ?s) k' = Some p" by (simp_all add: reap_one_sessions)
    with IH show ?thesis by blast
  qed
  moreover have "ss_sessions ?r = filter (\<lambda>(k', p). k' \<notin> set (k # ks)) (ss_sessions srv)"
    using IH by (auto simp: reap_one_sessions map_del_def case_prod_beta intro: filter_cong)
  moreover have "sc_state (ss_store srv ! q) = ''ended'' \<Longrightarrow> sc_state (ss_store ?r ! q) = ''ended''" for q
    using IH reap_one_keeps [OF Cons.prems, of q hangup k] by blast
  ultimately show ?case using IH by (simp only: fold_simps(2) comp_apply reap_one_store) blast
qed simp

lemma reapStaleSessions_effect:
  assumes "table_ok srv"
  shows "ss_sessions (reapStaleSessions hangup srv) = []"
    and "length (ss_store (reapStaleSessions hangup srv)) = length (ss_store srv)"
    and "map_of (ss_sessions srv) k = Some p \<Longrightarrow> sc_state (ss_store (reapStaleSessions hangup srv) ! p) = ''ended''"
proof -
  let ?ks = "map fst (ss_sessions srv)"
  note reap = reap_fold [OF assms, of hangup ?ks]
  show "ss_sessions (reapStaleSessions hangup srv) = []"
    using reap by (force simp: reapStaleSessions_def filter_empty_conv)
  show "length (ss_store (reapStaleSessions hangup srv)) = length (ss_store srv)"
    using reap by (simp add: reapStaleSessions_def)
  assume k: "map_of (ss_sessions srv) k = Some p"
  then have "(k, p) \<in> set (ss_sessions srv)" by (rule map_of_SomeD)
  then have "k \<in> set ?ks" by force
  with k reap show "sc_state (ss_store (reapStaleSessions hangup srv) ! p) = ''ended''"
    unfolding reapStaleSessions_def by blast
qed

text \<open>What ending the calls of the table does to the modem: one hangup for each of them.\<close>

lemma hangup_at_line:
  "sc_Direction (ss_store srv ! p) \<in> {''outbound'', ''inbound''} \<Longrightarrow>
     ss_line (hangup_at hangup p srv) = snd (call_Hangup hangup (ss_line srv))"
  by (auto simp: hangup_at_def session_Hangup_def Let_def split: prod.split)

lemma reap_fold_line:
  "table_ok srv \<Longrightarrow> distinct ks \<Longrightarrow>
   \<forall>k \<in> set ks. \<exists>p. map_of (ss_sessions srv) k = Some p \<and> sc_Direction (ss_store srv ! p) \<in> {''outbound'', ''inbound''} \<Longrightarrow>
     ss_line (fold (reap_one hangup) ks srv) = ((\<lambda>l. snd (call_Hangup hangup l)) ^^ length ks) (ss_line srv)"
proof (induction ks arbitrary: srv)
  case (Cons k ks)
  let ?s = "reap_one hangup k srv"
  obtain p where p: "map_of (ss_sessions srv) k = Some p" and dir: "sc_Direction (ss_store srv ! p) \<in> {''outbound'', ''inbound''}"
    using Cons.prems(3) by auto
  have line: "ss_line ?s = snd (call_Hangup hangup (ss_line srv))"
    using hangup_at_line [OF dir] p by (simp add: reap_one_def delete_session_def)
  have "\<exists>q. map_of (ss_sessions ?s) k' = Some q \<and> sc_Direction (ss_store ?s ! q) \<in> {''outbound'', ''inbound''}"
    if k': "k' \<in> set ks" for k'
  proof -
    have "k' \<noteq> k" using k' Cons.prems(2) by auto
    moreover obtain q where "map_of (ss_sessions srv) k' = Some q" "sc_Direction (ss_store srv ! q) \<in> {''outbound'', ''inbound''}"
      using Cons.prems(3) k' by auto
    moreover have "sc_Direction (ss_store ?s ! q) = sc_Direction (ss_store srv ! q)" for q
    proof -
      have "p < length (ss_store srv)" using Cons.prems(1) p by (auto simp: table_ok_def)
      then show ?thesis by (cases "q = p") (simp_all add: reap_one_def delete_session_def p)
    qed
    ultimately show ?thesis by (simp add: reap_one_sessions)
  qed
  with Cons.IH [OF reap_one_ok [OF Cons.prems(1)]] Cons.prems(2) line show ?case
    by (simp add: funpow_swap1 [of "\<lambda>l. snd (call_Hangup hangup l)"])
qed simp

lemma reapStaleSessions_line:
  assumes "table_ok srv" and "\<forall>(k, q) \<in> set (ss_sessions srv). sc_Direction (ss_store srv ! q) \<in> {''outbound'', ''inbound''}"
  shows "ss_line (reapStaleSessions hangup srv) = ((\<lambda>l. snd (call_Hangup hangup l)) ^^ length (ss_sessions srv)) (ss_line srv)"
proof -
  have "distinct (map fst (ss_sessions srv))" using assms(1) by (simp add: table_ok_def)
  moreover have "\<forall>k \<in> set (map fst (ss_sessions srv)). \<exists>p. map_of (ss_sessions srv) k = Some p \<and>
      sc_Direction (ss_store srv ! p) \<in> {''outbound'', ''inbound''}"
  proof
    fix k assume "k \<in> set (map fst (ss_sessions srv))"
    then obtain p where p: "(k, p) \<in> set (ss_sessions srv)" by auto
    with assms(1) have "map_of (ss_sessions srv) k = Some p" by (simp add: table_ok_def map_of_is_SomeI)
    with p assms(2) show "\<exists>p. map_of (ss_sessions srv) k = Some p \<and> sc_Direction (ss_store srv ! p) \<in> {''outbound'', ''inbound''}"
      by auto
  qed
  ultimately show ?thesis using reap_fold_line [OF assms(1)] unfolding reapStaleSessions_def by simp
qed

lemma reapStaleSessions_none: "ss_sessions srv = [] \<Longrightarrow> reapStaleSessions hangup srv = srv"
  by (simp add: reapStaleSessions_def)

lemma sendResponse_simps [simp]:
  "ss_sessions (sendResponse e remote msg code reason hdrs body srv) = ss_sessions srv"
  "ss_store (sendResponse e remote msg code reason hdrs body srv) = ss_store srv"
  "ss_line (sendResponse e remote msg code reason hdrs body srv) = ss_line srv"
  "ss_registrar (sendResponse e remote msg code reason hdrs body srv) = ss_registrar srv"
  "table_ok (sendResponse e remote msg code reason hdrs body srv) = table_ok srv"
  by (simp_all add: sendResponse_def sip_send_def table_ok_def)

lemma handleInvite_new:
  assumes "handleInvite e hangup msg remote srv = Return (Some p, srv')"
  shows "\<exists>peer media out. srv' = (reapStaleSessions hangup (sendResponse e remote msg 100 ''Trying'' [] [] srv))
       \<lparr>ss_store := ss_store (reapStaleSessions hangup (sendResponse e remote msg 100 ''Trying'' [] [] srv)) @
          [NewSIPCallSession (invite_id e msg srv) peer ''outbound'' media], ss_outbox := out\<rparr> \<and>
     p = length (ss_store (reapStaleSessions hangup (sendResponse e remote msg 100 ''Trying'' [] [] srv)))"
  using assms
  by (auto simp: handleInvite_def invite_new_def invite_repeated_def Let_def sendResponse_def [of _ _ _ 180] sip_send_def
      split: outcome.splits option.splits prod.splits if_splits)

text \<open>C37: when an INVITE starts a new call the session table is empty and every call that was in it has been ended: its session
  says so, and the modem was told to hang up once for each of them, whatever it answered. A client that vanished does not keep
  the line.\<close>

theorem new_invite_ends_old_calls:
  assumes "table_ok srv" and "handleInvite e hangup msg remote srv = Return (Some p, srv')"
    and "\<forall>(k, q) \<in> set (ss_sessions srv). sc_Direction (ss_store srv ! q) \<in> {''outbound'', ''inbound''}"
  shows "ss_sessions srv' = [] \<and> sc_ID (ss_store srv' ! p) = invite_id e msg srv \<and> sc_state (ss_store srv' ! p) = ''init'' \<and>
     (\<forall>(k, q) \<in> set (ss_sessions srv). sc_state (ss_store srv' ! q) = ''ended'') \<and>
     ss_line srv' = ((\<lambda>l. snd (call_Hangup hangup l)) ^^ length (ss_sessions srv)) (ss_line srv)"
proof -
  let ?s = "sendResponse e remote msg 100 ''Trying'' [] [] srv"
  let ?r = "reapStaleSessions hangup ?s"
  obtain peer media out where srv': "srv' = ?r\<lparr>ss_store := ss_store ?r @ [NewSIPCallSession (invite_id e msg srv) peer ''outbound'' media],
      ss_outbox := out\<rparr>" "p = length (ss_store ?r)"
    using handleInvite_new [OF assms(2)] by blast
  have ok: "table_ok ?s" using assms(1) by simp
  have "sc_state (ss_store srv' ! q) = ''ended''" if "(k, q) \<in> set (ss_sessions srv)" for k q
  proof -
    have "map_of (ss_sessions srv) k = Some q" using that assms(1) by (simp add: table_ok_def map_of_is_SomeI)
    then have "map_of (ss_sessions ?s) k = Some q" by simp
    moreover from this assms(1) have "q < length (ss_store ?r)"
      using reapStaleSessions_effect(2) [OF ok] by (simp add: table_ok_def)
    ultimately show ?thesis using reapStaleSessions_effect(3) [OF ok] srv' by (simp add: nth_append)
  qed
  moreover have "ss_line srv' = ((\<lambda>l. snd (call_Hangup hangup l)) ^^ length (ss_sessions srv)) (ss_line srv)"
    using reapStaleSessions_line [OF ok] assms(3) srv' by simp
  ultimately show ?thesis using srv' reapStaleSessions_effect(1) [OF ok] by (auto simp: NewSIPCallSession_def)
qed

text \<open>An INVITE of a registered client to a server with a call that was left behind.\<close>

definition invite_lines :: "string \<Rightarrow> string list" where
  "invite_lines callID = [''INVITE sip:10086@g SIP/2.0'', ''To: <sip:10086@g>'', ''From: <sip:alice@g>'', ''Call-ID: '' @ callID]"

definition sample_invite :: "string \<Rightarrow> string" where
  "sample_invite callID = concat (map (\<lambda>l. l @ crlf) (invite_lines callID))"

definition sample_surround :: Surround where
  "sample_surround = \<lparr>su_now = 0, su_nas = ''10.0.0.1'', su_uuid = (\<lambda>n. ''12345678''), su_port = Some 4000, su_sms = None,
     su_token = [], su_resolve = (\<lambda>s. None)\<rparr>"

definition sample_sip :: "'s line \<Rightarrow> (string \<times> nat) list \<Rightarrow> SIPCallSession list \<Rightarrow> 's SipServer" where
  "sample_sip line sessions store =
     \<lparr>ss_registrar = sip_Register 0 ''alice'' [] ''UDP'' 60 [], ss_auth = \<lparr>sa_users = [], sa_realm = [], sa_nonce = []\<rparr>,
      ss_store = store, ss_sessions = sessions, ss_line = line, ss_outbox = [], ss_sms = [], ss_pushes = []\<rparr>"

lemma sample_invite_split:
  assumes "carriage_return \<notin> set callID"
  shows "split_str crlf (sample_invite callID) = invite_lines callID @ [[]]"
proof -
  have "split_str crlf [] = [[]]" by (subst split_str.simps) (simp add: crlf_def)
  moreover have "\<forall>l \<in> set (invite_lines callID). clean l"
    using assms by (auto simp: invite_lines_def carriage_return_literal intro!: clean_literal)
  ultimately show ?thesis using split_lines [of "invite_lines callID" "[]"] by (simp add: sample_invite_def)
qed

lemma sample_invite_headers:
  assumes "carriage_return \<notin> set callID"
  shows "sip_parseHeader (sample_invite callID) ''To'' = ''<sip:10086@g>''"
    and "sip_parseHeader (sample_invite callID) ''From'' = ''<sip:alice@g>''"
    and "sip_parseHeader (sample_invite callID) ''Call-ID'' = trim_space callID"
  unfolding sip_parseHeader_def sample_invite_split [OF assms]
  by (simp_all add: invite_lines_def has_prefix_def to_lower_def to_lower_char_def trim_space_blank graphic_char_def)

lemma sample_invite_starts:
  assumes "list_all graphic_char callID" and "map_of (ss_sessions srv) callID = None" and "callID \<noteq> []"
    and "ss_registrar srv = sip_Register 0 ''alice'' [] ''UDP'' 60 []"
  shows "\<exists>p srv'. handleInvite sample_surround hangup (sample_invite callID) remote srv = Return (Some p, srv')"
proof -
  have "\<not> graphic_char carriage_return" by (simp add: graphic_char_def carriage_return_def)
  with assms(1) have "carriage_return \<notin> set callID" by (auto simp: list_all_iff)
  note headers = sample_invite_headers [OF this]
  have "extractSIPUser ''<sip:10086@g>'' = Return ''10086''" "extractSIPUser ''<sip:alice@g>'' = Return ''alice''"
    by (simp_all add: extractSIPUser_def has_prefix_def)
  then show ?thesis
    using assms headers
    by (simp add: handleInvite_def sample_surround_def registrar_Get_def sip_Register_def invite_id_def invite_new_def Let_def)
qed

lemma sample_sip_simps [simp]:
  "ss_sessions (sample_sip line sessions store) = sessions" "ss_store (sample_sip line sessions store) = store"
  "ss_line (sample_sip line sessions store) = line"
  "ss_registrar (sample_sip line sessions store) = sip_Register 0 ''alice'' [] ''UDP'' 60 []"
  by (simp_all add: sample_sip_def)

theorem new_invite_ends_old_calls_witness:
  "\<forall>(hangup :: string \<Rightarrow> 's \<Rightarrow> (modem_error, unit) result \<times> 's) (remote :: udp_address) (line :: ActiveCallAdapter \<times> 's) (m :: SipMedia). \<exists>p srv'. handleInvite sample_surround hangup (sample_invite ''c2'') remote
       (sample_sip line [(''old'', 0)] [NewSIPCallSession ''old'' ''10010'' ''outbound'' m]) = Return (Some p, srv') \<and>
     ss_sessions srv' = [] \<and> sc_state (ss_store srv' ! 0) = ''ended'' \<and> ss_line srv' = snd (call_Hangup hangup line)"
proof (intro allI)
  fix hangup :: "string \<Rightarrow> 's \<Rightarrow> (modem_error, unit) result \<times> 's" and remote :: "udp_address" and line :: "ActiveCallAdapter \<times> 's" and m :: "SipMedia"
  show "\<exists>p srv'. handleInvite sample_surround hangup (sample_invite ''c2'') remote
       (sample_sip line [(''old'', 0)] [NewSIPCallSession ''old'' ''10010'' ''outbound'' m]) = Return (Some p, srv') \<and>
     ss_sessions srv' = [] \<and> sc_state (ss_store srv' ! 0) = ''ended'' \<and> ss_line srv' = snd (call_Hangup hangup line)"
  proof -
    let ?srv = "sample_sip line [(''old'', 0)] [NewSIPCallSession ''old'' ''10010'' ''outbound'' m]"
    obtain p srv' where run: "handleInvite sample_surround hangup (sample_invite ''c2'') remote ?srv = Return (Some p, srv')"
      using sample_invite_starts [of "''c2''" ?srv hangup remote] by (auto simp: graphic_char_def)
    have "table_ok ?srv" by (simp add: table_ok_def sample_sip_def NewSIPCallSession_def)
    moreover have "\<forall>(k, q) \<in> set (ss_sessions ?srv). sc_Direction (ss_store ?srv ! q) \<in> {''outbound'', ''inbound''}"
      by (simp add: NewSIPCallSession_def)
    ultimately show ?thesis using new_invite_ends_old_calls [OF _ run] run by (auto simp: sample_sip_def)
  qed
qed

section \<open>What can come between the steps\<close>

lemma invite_dial_ok:
  assumes "invite_dial e None None dial msg remote p srv = (True, srv')" and "p < length (ss_store srv)"
    and "sc_Direction (ss_store srv ! p) = ''outbound''"
  shows "\<exists>line. call_Dial (dial (sc_Peer (ss_store srv ! p))) (ss_line srv) = (Inr (), line) \<and>
     srv' = srv\<lparr>ss_line := line, ss_store := (ss_store srv)[p := (ss_store srv ! p)\<lparr>sc_state := ''dialing''\<rparr>],
       ss_sessions := map_put (sc_ID (ss_store srv ! p)) p (ss_sessions srv)\<rparr>"
  using assms
  by (auto simp: invite_dial_def session_Dial_def Let_def delete_session_def split: prod.splits sum.splits)

text \<open>C39: an INVITE that is sent again before the dial has returned is not recognised, as the comment on the handler says it
  would be: it starts a call of its own, whose dial the busy modem refuses, and that refusal removes the call that
  was dialled from the table. The call stays up, and no BYE reaches it any more.\<close>

theorem repeated_invite_loses_call:
  assumes "table_ok srv" and "sip_parseHeader msg ''Call-ID'' = callID" and "callID \<noteq> []"
    and first: "handleInvite e1 hangup msg remote srv = Return (Some p, srv1)"
    and again: "handleInvite e2 hangup msg remote srv1 = Return (Some q, srv2)"
    and dialled: "invite_dial e3 None None (at_dial w) msg remote p srv2 = (True, srv3)"
    and up: "ad_active (snd (ss_line srv3)) \<noteq> []"
  shows "map_of (ss_sessions srv3) callID = Some p \<and>
     (\<exists>srv4. invite_dial e4 None None (at_dial w') msg remote q srv3 = (False, srv4) \<and>
        map_of (ss_sessions srv4) callID = None \<and> ss_line srv4 = ss_line srv3 \<and>
        (sip_parseHeader bye ''Call-ID'' = callID \<longrightarrow> ss_line (handleAckBye e5 hangup bye remote srv4) = ss_line srv3))"
proof -
  let ?s1 = "reapStaleSessions hangup (sendResponse e1 remote msg 100 ''Trying'' [] [] srv)"
  have id: "invite_id e msg s = callID" for e and s :: "Adapter SipServer" using assms(2,3) by (simp add: invite_id_def)
  obtain peer1 media1 out1 where srv1: "srv1 = ?s1\<lparr>ss_store := ss_store ?s1 @ [NewSIPCallSession callID peer1 ''outbound'' media1],
      ss_outbox := out1\<rparr>" and p: "p = length (ss_store ?s1)"
    using handleInvite_new [OF first] by (auto simp: id)
  have empty: "ss_sessions srv1 = []"
    using reapStaleSessions_effect(1) [of "sendResponse e1 remote msg 100 ''Trying'' [] [] srv" hangup] assms(1)
    by (simp add: srv1)
  let ?s2 = "reapStaleSessions hangup (sendResponse e2 remote msg 100 ''Trying'' [] [] srv1)"
  have s2: "?s2 = sendResponse e2 remote msg 100 ''Trying'' [] [] srv1"
    by (rule reapStaleSessions_none) (simp add: empty)
  obtain peer2 media2 out2 where srv2: "srv2 = (sendResponse e2 remote msg 100 ''Trying'' [] [] srv1)
      \<lparr>ss_store := ss_store srv1 @ [NewSIPCallSession callID peer2 ''outbound'' media2], ss_outbox := out2\<rparr>"
    and q: "q = length (ss_store srv1)"
    using handleInvite_new [OF again] unfolding s2 by (auto simp: id)
  have pq: "p < length (ss_store srv1)" by (simp add: srv1 p)
  have at_p: "ss_store srv2 ! p = NewSIPCallSession callID peer1 ''outbound'' media1"
    using pq by (simp add: srv2 nth_append) (simp add: srv1 p)
  have "p < length (ss_store srv2)" using pq by (simp add: srv2)
  moreover have "sc_Direction (ss_store srv2 ! p) = ''outbound''" "sc_ID (ss_store srv2 ! p) = callID"
    by (simp_all add: at_p NewSIPCallSession_def)
  ultimately obtain line where srv3: "srv3 = srv2\<lparr>ss_line := line, ss_store := (ss_store srv2)[p := (ss_store srv2 ! p)\<lparr>sc_state := ''dialing''\<rparr>],
       ss_sessions := map_put callID p (ss_sessions srv2)\<rparr>"
    using invite_dial_ok [OF dialled] by auto
  have sessions3: "map_of (ss_sessions srv3) callID = Some p" by (simp add: srv3)
  have at_q: "ss_store srv3 ! q = NewSIPCallSession callID peer2 ''outbound'' media2"
    using pq by (simp add: srv3 srv2 q nth_append)
  obtain srv4 where srv4: "invite_dial e4 None None (at_dial w') msg remote q srv3 = (False, srv4)"
      "map_of (ss_sessions srv4) callID = None" "ss_line srv4 = ss_line srv3"
    using at_modem.dial_busy [OF up]
    by (cases "ss_line srv3")
      (simp add: invite_dial_def session_Dial_def at_q NewSIPCallSession_def call_Dial_def delete_session_def Let_def)
  moreover have "ss_line (handleAckBye e5 hangup bye remote srv4) = ss_line srv3" if "sip_parseHeader bye ''Call-ID'' = callID"
    using that srv4 assms(3) by (simp add: handleAckBye_def reap_one_def)
  ultimately show ?thesis using sessions3 by blast
qed

text \<open>A modem that accepts a dial and a hangup.\<close>

definition willing_modem :: at_world where
  "willing_modem = (\<lambda>c. Inr [''OK''], Some ''call_1'', \<lambda>a. a)"

lemma willing_dial:
  assumes "sc_Direction (ss_store srv ! p) = ''outbound''" and "ss_line srv = (a, s)" and "ad_active s = []"
  shows "\<exists>srv'. invite_dial e None None (at_dial willing_modem) msg remote p srv = (True, srv') \<and>
     ss_line srv' = (a\<lparr>ac_active := ''call_1'', ac_lastPhysical := [], ac_lastLogical := []\<rparr>, s\<lparr>ad_active := ''call_1''\<rparr>)"
  using assms
  by (simp add: invite_dial_def session_Dial_def call_Dial_def at_dial_def adapter_Dial_def willing_modem_def Let_def)

lemma handleInvite_new_store:
  assumes "handleInvite e hangup msg remote srv = Return (Some p, srv')" and "ss_sessions srv = []"
  shows "sc_Direction (ss_store srv' ! p) = ''outbound''" and "ss_line srv' = ss_line srv" and "ss_sessions srv' = []"
    and "p = length (ss_store srv)" and "length (ss_store srv') = Suc p" and "ss_registrar srv' = ss_registrar srv"
    and "sc_ID (ss_store srv' ! p) = invite_id e msg srv" and "q < p \<Longrightarrow> ss_store srv' ! q = ss_store srv ! q"
  using handleInvite_new [OF assms(1)] assms(2)
  by (auto simp: reapStaleSessions_none NewSIPCallSession_def nth_append)

theorem repeated_invite_loses_call_witness:
  "\<forall>(hangup :: string \<Rightarrow> Adapter \<Rightarrow> (modem_error, unit) result \<times> Adapter) (remote :: udp_address). \<exists>p q srv1 srv2 srv3 srv4 :: Adapter SipServer.
     handleInvite sample_surround hangup (sample_invite ''c1'') remote (sample_sip (NewActiveCallAdapter, NewAdapter) [] []) =
       Return (Some p, srv1) \<and>
     handleInvite sample_surround hangup (sample_invite ''c1'') remote srv1 = Return (Some q, srv2) \<and>
     invite_dial sample_surround None None (at_dial willing_modem) (sample_invite ''c1'') remote p srv2 = (True, srv3) \<and>
     invite_dial sample_surround None None (at_dial willing_modem) (sample_invite ''c1'') remote q srv3 = (False, srv4) \<and>
     map_of (ss_sessions srv4) ''c1'' = None \<and> ad_active (snd (ss_line srv4)) = ''call_1''"
proof (intro allI)
  fix hangup :: "string \<Rightarrow> Adapter \<Rightarrow> (modem_error, unit) result \<times> Adapter" and remote :: "udp_address"
  show "\<exists>p q srv1 srv2 srv3 srv4 :: Adapter SipServer.
     handleInvite sample_surround hangup (sample_invite ''c1'') remote (sample_sip (NewActiveCallAdapter, NewAdapter) [] []) =
       Return (Some p, srv1) \<and>
     handleInvite sample_surround hangup (sample_invite ''c1'') remote srv1 = Return (Some q, srv2) \<and>
     invite_dial sample_surround None None (at_dial willing_modem) (sample_invite ''c1'') remote p srv2 = (True, srv3) \<and>
     invite_dial sample_surround None None (at_dial willing_modem) (sample_invite ''c1'') remote q srv3 = (False, srv4) \<and>
     map_of (ss_sessions srv4) ''c1'' = None \<and> ad_active (snd (ss_line srv4)) = ''call_1''"
  proof -
    let ?srv = "sample_sip (NewActiveCallAdapter, NewAdapter) [] []" and ?msg = "sample_invite ''c1''"
    have c1: "carriage_return \<notin> set ''c1''" by (simp add: carriage_return_literal)
    have id: "sip_parseHeader ?msg ''Call-ID'' = ''c1''" using sample_invite_headers(3) [OF c1] by (simp add: graphic_char_def)
    have ok: "table_ok ?srv" by (simp add: table_ok_def sample_sip_def)
    obtain p srv1 where first: "handleInvite sample_surround hangup ?msg remote ?srv = Return (Some p, srv1)"
      using sample_invite_starts [of "''c1''" ?srv hangup remote] by (auto simp: graphic_char_def)
    note new1 = handleInvite_new_store [OF first, simplified]
    obtain q srv2 where again: "handleInvite sample_surround hangup ?msg remote srv1 = Return (Some q, srv2)"
      using sample_invite_starts [of "''c1''" srv1 hangup remote] new1(3,6) by (auto simp: graphic_char_def)
    note new2 = handleInvite_new_store [OF again new1(3)]
    have "sc_Direction (ss_store srv2 ! p) = ''outbound''" using new1 new2 by simp
    moreover have "ss_line srv2 = (NewActiveCallAdapter, NewAdapter)" using new1 new2 by simp
    moreover have "ad_active NewAdapter = []" by (simp add: NewAdapter_def)
    ultimately obtain srv3 where dialled: "invite_dial sample_surround None None (at_dial willing_modem) ?msg remote p srv2 = (True, srv3)"
        and line3: "snd (ss_line srv3) = NewAdapter\<lparr>ad_active := ''call_1''\<rparr>"
      using willing_dial [of srv2 p NewActiveCallAdapter NewAdapter] by (metis snd_conv)
    then have "ad_active (snd (ss_line srv3)) \<noteq> []" by simp
    from repeated_invite_loses_call [OF ok id _ first again dialled this, of sample_surround willing_modem] obtain srv4 where
      "invite_dial sample_surround None None (at_dial willing_modem) ?msg remote q srv3 = (False, srv4)"
      "map_of (ss_sessions srv4) ''c1'' = None" and same: "ss_line srv4 = ss_line srv3"
      by blast
    moreover have "ad_active (snd (ss_line srv4)) = ''call_1''" unfolding same line3 by simp
    ultimately show ?thesis using first again dialled by blast
  qed
qed

lemma reap_keeps_identity:
  "table_ok srv \<Longrightarrow> length (ss_store (fold (reap_one hangup) ks srv)) = length (ss_store srv) \<and>
     (\<forall>i < length (ss_store srv). sc_ID (ss_store (fold (reap_one hangup) ks srv) ! i) = sc_ID (ss_store srv ! i) \<and>
        sc_Direction (ss_store (fold (reap_one hangup) ks srv) ! i) = sc_Direction (ss_store srv ! i))"
proof (induction ks arbitrary: srv)
  case (Cons k ks)
  have "\<forall>i < length (ss_store srv). sc_ID (ss_store (reap_one hangup k srv) ! i) = sc_ID (ss_store srv ! i) \<and>
      sc_Direction (ss_store (reap_one hangup k srv) ! i) = sc_Direction (ss_store srv ! i)"
    using Cons.prems by (auto simp: reap_one_def delete_session_def table_ok_def simp del: map_of_eq_Some_iff split: option.split)
  with Cons.IH [OF reap_one_ok [OF Cons.prems], of hangup k] show ?case by (simp add: reap_one_store)
qed simp

lemma bye_then_invite:
  assumes "table_ok srv" and "map_of (ss_sessions srv) a = Some p" and "sc_Direction (ss_store srv ! p) = ''outbound''"
    and "sip_parseHeader bye ''Call-ID'' = a" and "a \<noteq> []"
    and "handleInvite e2 hangup msg remote (handleAckBye e1 hangup bye remote srv) = Return (Some q, srv2)"
  shows "ss_sessions srv2 = [] \<and> p < q \<and> length (ss_store srv2) = Suc q \<and>
     sc_ID (ss_store srv2 ! p) = a \<and> sc_Direction (ss_store srv2 ! p) = ''outbound'' \<and>
     sc_ID (ss_store srv2 ! q) = invite_id e2 msg (handleAckBye e1 hangup bye remote srv) \<and>
     sc_Direction (ss_store srv2 ! q) = ''outbound''"
proof -
  let ?srv1 = "handleAckBye e1 hangup bye remote srv"
  let ?s = "sendResponse e2 remote msg 100 ''Trying'' [] [] ?srv1"
  have p: "p < length (ss_store srv)" "sc_ID (ss_store srv ! p) = a"
    using assms(1,2) by (simp_all add: table_ok_def del: map_of_eq_Some_iff)
  have ok: "table_ok ?s" using assms(1,5) assms(4) by (simp add: handleAckBye_def reap_one_ok)
  have one: "length (ss_store ?srv1) = length (ss_store srv)" "sc_ID (ss_store ?srv1 ! p) = a" "sc_Direction (ss_store ?srv1 ! p) = ''outbound''"
    using reap_keeps_identity [OF assms(1), of hangup "[a]"] p assms(3,4,5) by (simp_all add: handleAckBye_def)
  let ?r = "reapStaleSessions hangup ?s"
  have r: "length (ss_store ?r) = length (ss_store srv)" "sc_ID (ss_store ?r ! p) = a" "sc_Direction (ss_store ?r ! p) = ''outbound''"
    using reap_keeps_identity [OF ok] one p(1) by (simp_all add: reapStaleSessions_def)
  obtain peer media out where srv2: "srv2 = ?r\<lparr>ss_store := ss_store ?r @ [NewSIPCallSession (invite_id e2 msg ?srv1) peer ''outbound'' media],
      ss_outbox := out\<rparr>" "q = length (ss_store ?r)"
    using handleInvite_new [OF assms(6)] by blast
  then show ?thesis
    using r p(1) reapStaleSessions_effect(1) [OF ok] by (simp add: nth_append NewSIPCallSession_def)
qed

text \<open>C40: the goroutine of a call that was hung up goes on waiting for its answer. When it gives up, its hangup reaches
  whatever call is up by then: the next one, which stays in the table as if nothing had happened.\<close>

theorem late_failure_hangs_up_next_call:
  assumes "table_ok srv" and "map_of (ss_sessions srv) a = Some p" and "sc_Direction (ss_store srv ! p) = ''outbound''"
    and "sip_parseHeader bye ''Call-ID'' = a" and "a \<noteq> []" and "invite_id e2 msg (handleAckBye e1 hangup bye remote srv) \<noteq> a"
    and invite: "handleInvite e2 hangup msg remote (handleAckBye e1 hangup bye remote srv) = Return (Some q, srv2)"
    and dialled: "invite_dial e3 None None (at_dial w) msg remote q srv2 = (True, srv3)"
    and line: "ss_line srv3 = (c, s)" "ac_active c \<noteq> []" "at_hangup w2 (ac_active c) s = (Inr u, s')"
    and late: "waited \<noteq> Some True"
  shows "\<exists>srv4. invite_await e4 waited has_audio audio (at_hangup w2) old remote p srv3 = srv4 \<and>
     ac_active (fst (ss_line srv4)) = [] \<and>
     map_of (ss_sessions srv4) (invite_id e2 msg (handleAckBye e1 hangup bye remote srv)) = Some q \<and>
     sc_state (ss_store srv4 ! q) = ''dialing''"
proof -
  let ?b = "invite_id e2 msg (handleAckBye e1 hangup bye remote srv)"
  define srv4 where "srv4 = invite_await e4 waited has_audio audio (at_hangup w2) old remote p srv3"
  note start = bye_then_invite [OF assms(1-5) invite]
  then obtain line3 where srv3: "srv3 = srv2\<lparr>ss_line := line3,
      ss_store := (ss_store srv2)[q := (ss_store srv2 ! q)\<lparr>sc_state := ''dialing''\<rparr>], ss_sessions := map_put ?b q (ss_sessions srv2)\<rparr>"
    using invite_dial_ok [OF dialled] by auto
  have at_p: "sc_ID (ss_store srv3 ! p) = a" "sc_Direction (ss_store srv3 ! p) = ''outbound''" "p < length (ss_store srv3)" "p \<noteq> q"
    using start by (simp_all add: srv3)
  have at_q: "sc_state (ss_store srv3 ! q) = ''dialing''" using start by (simp add: srv3)
  have "call_Hangup (at_hangup w2) (c, s) = (Inr (), c\<lparr>ac_lastPhysical := ac_active c, ac_lastLogical := ac_logical c,
      ac_active := [], ac_logical := []\<rparr>, s')"
    using line by (simp add: call_Hangup_def withActive_def)
  then have "ss_line srv4 = (c\<lparr>ac_lastPhysical := ac_active c, ac_lastLogical := ac_logical c, ac_active := [], ac_logical := []\<rparr>, s')"
    using late line(1) at_p
    by (simp add: srv4_def invite_await_def AwaitBridge_def hangup_at_def session_Hangup_def delete_session_def split: prod.split)
  moreover have "map_of (ss_sessions srv4) ?b = Some q" "ss_store srv4 ! q = ss_store srv3 ! q"
    using late at_p assms(6)
    by (simp_all add: srv4_def invite_await_def AwaitBridge_def hangup_at_def delete_session_def srv3 split: prod.split)
  ultimately show ?thesis using at_q srv4_def by simp
qed

definition sample_bye :: string where
  "sample_bye = ''BYE sip:x'' @ crlf @ ''Call-ID: c1''"

lemma sample_bye_id: "sip_parseHeader sample_bye ''Call-ID'' = ''c1''"
proof -
  have "clean ''Call-ID: c1''" by (rule clean_literal) (simp add: carriage_return_literal)
  then have "split_str crlf ''Call-ID: c1'' = [''Call-ID: c1'']" by (subst split_str.simps) (simp add: clean_def str_index_None [symmetric])
  then have "split_str crlf sample_bye = [''BYE sip:x'', ''Call-ID: c1'']"
    unfolding sample_bye_def by (subst split_clean) (simp_all add: clean_literal carriage_return_literal)
  then show ?thesis
    by (simp add: sip_parseHeader_def has_prefix_def to_lower_def to_lower_char_def trim_space_blank graphic_char_def)
qed

theorem late_failure_hangs_up_next_call_witness:
  "\<forall>(remote :: udp_address) (m :: SipMedia). \<exists>(srv3 :: Adapter SipServer) srv4. ac_active (fst (ss_line srv3)) = ''call_1'' \<and>
     invite_await sample_surround (Some False) True (Inr ()) (at_hangup willing_modem) (sample_invite ''c1'') remote 0 srv3 = srv4 \<and>
     ac_active (fst (ss_line srv4)) = []"
proof (intro allI)
  fix remote :: "udp_address" and m :: "SipMedia"
  show "\<exists>(srv3 :: Adapter SipServer) srv4. ac_active (fst (ss_line srv3)) = ''call_1'' \<and>
     invite_await sample_surround (Some False) True (Inr ()) (at_hangup willing_modem) (sample_invite ''c1'') remote 0 srv3 = srv4 \<and>
     ac_active (fst (ss_line srv4)) = []"
  proof -
    let ?srv = "sample_sip (NewActiveCallAdapter, NewAdapter) [(''c1'', 0)] [NewSIPCallSession ''c1'' ''10086'' ''outbound'' m]"
    let ?h = "at_hangup willing_modem" and ?msg = "sample_invite ''c2''"
    let ?srv1 = "handleAckBye sample_surround ?h sample_bye remote ?srv"
    have ok: "table_ok ?srv" by (simp add: table_ok_def NewSIPCallSession_def)
    have c2: "carriage_return \<notin> set ''c2''" by (simp add: carriage_return_literal)
    have id: "invite_id sample_surround ?msg ?srv1 = ''c2''"
      using sample_invite_headers(3) [OF c2] by (simp add: invite_id_def graphic_char_def)
    have idle: "call_Hangup ?h (NewActiveCallAdapter, NewAdapter) = (Inl ErrNoActiveCall, NewActiveCallAdapter, NewAdapter)"
      by (simp add: call_Hangup_def withActive_def NewActiveCallAdapter_def)
    have one: "ss_sessions ?srv1 = []" "ss_registrar ?srv1 = ss_registrar ?srv" "ss_line ?srv1 = (NewActiveCallAdapter, NewAdapter)"
      by (simp_all add: handleAckBye_def sample_bye_id reap_one_def delete_session_def hangup_at_def session_Hangup_def map_del_def
          NewSIPCallSession_def idle Let_def)
    obtain q srv2 where invite: "handleInvite sample_surround ?h ?msg remote ?srv1 = Return (Some q, srv2)"
      using sample_invite_starts [of "''c2''" ?srv1 ?h remote] one(1,2) by (auto simp: graphic_char_def)
    note new = handleInvite_new_store [OF invite one(1)]
    have free: "ad_active NewAdapter = []" by (simp add: NewAdapter_def)
    have line2: "ss_line srv2 = (NewActiveCallAdapter, NewAdapter)" using new(2) one(3) by simp
    obtain srv3 where
      dialled: "invite_dial sample_surround None None (at_dial willing_modem) ?msg remote q srv2 = (True, srv3)" and
      line: "ss_line srv3 = (NewActiveCallAdapter\<lparr>ac_active := ''call_1'', ac_lastPhysical := [], ac_lastLogical := []\<rparr>,
        NewAdapter\<lparr>ad_active := ''call_1''\<rparr>)"
      using willing_dial [OF new(1) line2 free] by blast
    obtain s' where hung: "at_hangup willing_modem ''call_1'' (NewAdapter\<lparr>ad_active := ''call_1''\<rparr>) = (Inr (), s')"
      by (simp add: at_hangup_def adapter_Hangup_def willing_modem_def validateActive_def)
    have "\<exists>srv4. invite_await sample_surround (Some False) True (Inr ()) (at_hangup willing_modem) (sample_invite ''c1'') remote 0 srv3 = srv4 \<and>
       ac_active (fst (ss_line srv4)) = [] \<and> map_of (ss_sessions srv4) (invite_id sample_surround ?msg ?srv1) = Some q \<and>
       sc_state (ss_store srv4 ! q) = ''dialing''"
      by (rule late_failure_hangs_up_next_call [OF ok _ _ sample_bye_id _ _ invite dialled line])
        (use hung id in \<open>simp_all add: NewSIPCallSession_def\<close>)
    moreover have "ac_active (fst (ss_line srv3)) = ''call_1''" unfolding line by simp
    ultimately show ?thesis by blast
  qed
qed

end
