(* ===== verification/Modem_Discovery.thy ===== *)
theory Modem_Discovery
  imports At_Adapter "HOL-Library.List_Lexorder" "HOL-Library.Char_ord" "HOL-Library.Multiset"
begin

text \<open>
  Finding a modem, \<^verbatim>\<open>gateway/internal/modem/discovery/discovery.go\<close>: the serial devices, and the probe of one of them.
  The file system's \<^verbatim>\<open>Glob\<close>, SHA-256 in hexadecimal and the texts of errors are parameters. Go runs through a map in any
  order: the orders in which the probe asks its queries are given.
\<close>

section \<open>Devices\<close>

record Candidate =
  cd_Path :: string
  cd_Source :: string
  cd_USBVID :: string
  cd_USBPID :: string

definition hex_char :: "char \<Rightarrow> bool" where
  "hex_char c \<longleftrightarrow> is_digit c \<or> to_lower_char c \<in> set ''abcdef''"

text \<open>\<^verbatim>\<open>vidPIDPattern\<close>: two groups of four digits between separators, the leftmost.\<close>

definition vid_pid_here :: "string \<Rightarrow> (string \<times> string) option" where
  "vid_pid_here s =
     (let vid = take 4 s; pid = take 4 (drop 5 s)
      in if 9 \<le> length s \<and> list_all hex_char vid \<and> s ! 4 \<in> {CHR ''_'', CHR '':''} \<and> list_all hex_char pid \<and>
           (length s = 9 \<or> s ! 9 \<in> {CHR ''-'', CHR ''_'', CHR '':''})
         then Some (vid, pid) else None)"

fun vid_pid_behind :: "string \<Rightarrow> (string \<times> string) option" where
  "vid_pid_behind [] = None"
| "vid_pid_behind (c # s) =
     (case (if c \<in> {CHR ''_'', CHR '':''} then vid_pid_here s else None) of
        Some m \<Rightarrow> Some m | None \<Rightarrow> vid_pid_behind s)"

definition vid_pid :: "string \<Rightarrow> (string \<times> string) option" where
  "vid_pid s = (case vid_pid_here s of Some m \<Rightarrow> Some m | None \<Rightarrow> vid_pid_behind s)"

definition base_name :: "string \<Rightarrow> string" where
  "base_name path = (case last_index_char path (CHR ''/'') of None \<Rightarrow> path | Some i \<Rightarrow> drop (Suc i) path)"

definition by_id_candidate :: "string \<Rightarrow> Candidate" where
  "by_id_candidate path =
     (case vid_pid (base_name path) of
        None \<Rightarrow> \<lparr>cd_Path = path, cd_Source = ''serial-by-id'', cd_USBVID = [], cd_USBPID = []\<rparr>
      | Some (vid, pid) \<Rightarrow> \<lparr>cd_Path = path, cd_Source = ''serial-by-id'', cd_USBVID = to_lower vid, cd_USBPID = to_lower pid\<rparr>)"

definition tty_candidate :: "string \<Rightarrow> Candidate" where
  "tty_candidate path = \<lparr>cd_Path = path, cd_Source = ''generic-tty'', cd_USBVID = [], cd_USBPID = []\<rparr>"

definition tty_patterns :: "string list" where
  "tty_patterns = [''ttyUSB*'', ''ttyACM*'', ''cu.usbserial*'', ''cu.usbmodem*'']"

text \<open>The names of the patterns in turn, unless one of them fails.\<close>

fun glob_all :: "(string \<Rightarrow> string list option) \<Rightarrow> string list \<Rightarrow> string list option" where
  "glob_all glob [] = Some []"
| "glob_all glob (p # ps) =
     (case glob p of None \<Rightarrow> None | Some paths \<Rightarrow> map_option (append paths) (glob_all glob ps))"

definition Enumerate :: "(string \<Rightarrow> string list option) \<Rightarrow> string \<Rightarrow> Candidate list option" where
  "Enumerate glob devRoot =
     (case glob (devRoot @ ''/serial/by-id/*'') of
        None \<Rightarrow> None
      | Some (p # ps) \<Rightarrow> Some (sort_key cd_Path (map by_id_candidate (p # ps)))
      | Some [] \<Rightarrow>
          map_option (\<lambda>paths. sort_key cd_Path (map tty_candidate paths))
            (glob_all glob (map (\<lambda>p. devRoot @ ''/'' @ p) tty_patterns)))"

section \<open>Reading the answers\<close>

record Identity =
  id_Manufacturer :: string
  id_Model :: string
  id_Revision :: string

definition parseIdentity :: "string list \<Rightarrow> Identity" where
  "parseIdentity ls =
     (let nonEmpty = filter (\<lambda>l. l \<noteq> [] \<and> l \<noteq> ''ATI'' \<and> \<not> IsFinal l \<and> \<not> has_prefix l ''+'') (map trim_space ls)
      in \<lparr>id_Manufacturer = [], id_Model = (case nonEmpty of m # _ \<Rightarrow> m | [] \<Rightarrow> []),
          id_Revision = (case nonEmpty of _ # r # _ \<Rightarrow> r | _ \<Rightarrow> [])\<rparr>)"

definition probe_payload :: "string list \<Rightarrow> string" where
  "probe_payload ls =
     (case find (\<lambda>l. l \<noteq> [] \<and> l \<noteq> ''OK'' \<and> \<not> IsFinal l) (map trim_space ls) of Some l \<Rightarrow> l | None \<Rightarrow> [])"

definition parseCSQ :: "string \<Rightarrow> int" where
  "parseCSQ line =
     (case str_index line '':'' of
        None \<Rightarrow> 0
      | Some i \<Rightarrow>
          (case atoi (trim_space (hd (split_char (CHR '','') (trim_space (drop (i + 1) line))))) of
             None \<Rightarrow> 0
           | Some v \<Rightarrow> if v = 99 then 0 else -113 + v * 2))"

definition firstValue :: "string \<Rightarrow> string" where
  "firstValue line = (case str_index line '':'' of Some i \<Rightarrow> trim_space (drop (i + 1) line) | None \<Rightarrow> trim_space line)"

definition parseSIM :: "string \<Rightarrow> string" where
  "parseSIM line =
     (let v = to_lower (firstValue line)
      in if v = ''ready'' then ''ready''
         else if str_contains v ''sim pin'' \<or> str_contains v ''sim puk'' then ''locked''
         else if v = ''not ready'' then ''absent'' else ''unknown'')"

definition parseRegistration :: "string \<Rightarrow> string" where
  "parseRegistration line =
     (let status = trim_space (last (split_char (CHR '','') (firstValue line)))
      in if status = ''1'' \<or> status = ''5'' then ''registered''
         else if status = ''2'' then ''searching''
         else if status = ''3'' then ''denied'' else ''unknown'')"

definition vendorFor :: "string \<Rightarrow> string \<Rightarrow> string" where
  "vendorFor manufacturer model =
     (let joined = to_lower (manufacturer @ '' '' @ model)
      in if str_contains joined ''quectel'' \<or> str_contains joined ''qdc507'' \<or> str_contains joined ''dji''
         then ''quectel-compatible'' else manufacturer)"

section \<open>The probe\<close>

record Report =
  re_Candidate :: Candidate
  re_Identity :: Identity
  re_SIM :: string
  re_Registration :: string
  re_Signal :: int
  re_Capabilities :: Capabilities
  re_Warnings :: "string list"
  re_Error :: string

definition warn :: "string \<Rightarrow> string \<Rightarrow> Report \<Rightarrow> Report" where
  "warn command e r = r\<lparr>re_Warnings := re_Warnings r @ [command @ '': '' @ e]\<rparr>"

definition identity_query :: "(at_error \<Rightarrow> string) \<Rightarrow> exchange \<Rightarrow> string \<Rightarrow> Report \<Rightarrow> Report" where
  "identity_query show_error ex command r =
     (case ex command of
        Inl e \<Rightarrow> warn command (show_error e) r
      | Inr ls \<Rightarrow>
          let v = probe_payload ls
          in if v = [] then r
             else if command = ''AT+CGMI'' then r\<lparr>re_Identity := (re_Identity r)\<lparr>id_Manufacturer := v\<rparr>\<rparr>
             else if command = ''AT+CGMM'' then r\<lparr>re_Identity := (re_Identity r)\<lparr>id_Model := v\<rparr>\<rparr>
             else r\<lparr>re_Identity := (re_Identity r)\<lparr>id_Revision := v\<rparr>\<rparr>)"

definition status_query :: "(at_error \<Rightarrow> string) \<Rightarrow> exchange \<Rightarrow> string \<Rightarrow> Report \<Rightarrow> Report" where
  "status_query show_error ex command r =
     (case ex command of
        Inl e \<Rightarrow> warn command (show_error e) r
      | Inr ls \<Rightarrow>
          let v = probe_payload ls
          in if command = ''AT+CPIN?'' then r\<lparr>re_SIM := parseSIM v\<rparr>
             else if command = ''AT+CEREG?'' then r\<lparr>re_Registration := parseRegistration v\<rparr>
             else r\<lparr>re_Signal := parseCSQ v\<rparr>)"

definition voice_query :: "(modem_error \<Rightarrow> string) \<Rightarrow> exchange \<Rightarrow> Report \<Rightarrow> Report" where
  "voice_query show_modem ex r =
     (let caps = re_Capabilities r; model = id_Model (re_Identity r)
      in if \<not> IsQDC507 (cp_Vendor caps) model then r
         else (case ProbeCapabilities ex (cp_Vendor caps) model of
                 Inl e \<Rightarrow> warn ''QDC507 voice capability probe'' (show_modem e) r
               | Inr v \<Rightarrow> r\<lparr>re_Capabilities := caps\<lparr>cp_Voice := cp_Voice v, cp_DTMF := cp_DTMF v, cp_Audio := cp_Audio v,
                          cp_RequiresBootstrap := cp_RequiresBootstrap v, cp_Tier := cp_Tier v\<rparr>\<rparr>))"

definition discovery_Probe ::
  "(at_error \<Rightarrow> string) \<Rightarrow> (modem_error \<Rightarrow> string) \<Rightarrow> (string \<Rightarrow> string) \<Rightarrow> string list \<Rightarrow> string list \<Rightarrow> exchange \<Rightarrow> Candidate \<Rightarrow> Report" where
  "discovery_Probe show_error show_modem sha_hex order1 order2 ex candidate =
     (let r0 = \<lparr>re_Candidate = candidate, re_Identity = \<lparr>id_Manufacturer = [], id_Model = [], id_Revision = []\<rparr>, re_SIM = [],
            re_Registration = [], re_Signal = 0, re_Capabilities = no_capabilities, re_Warnings = [], re_Error = []\<rparr>
      in case ex ''ATI'' of
           Inl e \<Rightarrow> r0\<lparr>re_Error := show_error e\<rparr>
         | Inr ati \<Rightarrow>
             let r1 = fold (identity_query show_error ex) order1 (r0\<lparr>re_Identity := parseIdentity ati\<rparr>);
                 i = re_Identity r1;
                 r2 = r1\<lparr>re_Capabilities := (re_Capabilities r1)\<lparr>cp_Model := id_Model i,
                        cp_Vendor := vendorFor (id_Manufacturer i) (id_Model i), cp_SMS := True\<rparr>\<rparr>;
                 r3 = voice_query show_modem ex (fold (status_query show_error ex) order2 r2);
                 nul = [char_of (0 :: nat)]
             in r3\<lparr>re_Capabilities := (re_Capabilities r3)\<lparr>cp_FirmwareFingerprint :=
                  ''sha256:'' @ sha_hex (id_Manufacturer i @ nul @ id_Model i @ nul @ id_Revision i)\<rparr>\<rparr>)"

section \<open>The order of the queries\<close>

text \<open>What the queries of one map leave behind, whatever their order.\<close>

definition failing :: "(at_error \<Rightarrow> string) \<Rightarrow> exchange \<Rightarrow> string list \<Rightarrow> string list" where
  "failing show_error ex order = List.map_filter (\<lambda>c. case ex c of Inl e \<Rightarrow> Some (c @ '': '' @ show_error e) | Inr _ \<Rightarrow> None) order"

definition answered :: "exchange \<Rightarrow> string list \<Rightarrow> string \<Rightarrow> string option" where
  "answered ex order command =
     (if command \<in> set order then (case ex command of Inl e \<Rightarrow> None | Inr ls \<Rightarrow> Some (probe_payload ls)) else None)"

definition value_or :: "string \<Rightarrow> string option \<Rightarrow> string" where
  "value_or old v = (case v of None \<Rightarrow> old | Some [] \<Rightarrow> old | Some x \<Rightarrow> x)"

lemma identity_fold:
  assumes "set order \<subseteq> {''AT+CGMI'', ''AT+CGMM'', ''AT+CGMR''}" and "distinct order"
  shows "fold (identity_query show_error ex) order r =
     r\<lparr>re_Identity := \<lparr>id_Manufacturer = value_or (id_Manufacturer (re_Identity r)) (answered ex order ''AT+CGMI''),
         id_Model = value_or (id_Model (re_Identity r)) (answered ex order ''AT+CGMM''),
         id_Revision = value_or (id_Revision (re_Identity r)) (answered ex order ''AT+CGMR'')\<rparr>,
       re_Warnings := re_Warnings r @ failing show_error ex order\<rparr>"
  using assms
proof (induction order arbitrary: r)
  case (Cons c order)
  then consider "c = ''AT+CGMI''" | "c = ''AT+CGMM''" | "c = ''AT+CGMR''" by auto
  then show ?case
    using Cons
    by cases (auto simp: identity_query_def answered_def value_or_def failing_def warn_def Let_def List.map_filter_simps
        split: sum.split list.split)
qed (simp add: answered_def value_or_def failing_def List.map_filter_simps)

lemma status_fold:
  assumes "set order \<subseteq> {''AT+CPIN?'', ''AT+CEREG?'', ''AT+CSQ''}" and "distinct order"
  shows "fold (status_query show_error ex) order r =
     r\<lparr>re_SIM := (case answered ex order ''AT+CPIN?'' of None \<Rightarrow> re_SIM r | Some v \<Rightarrow> parseSIM v),
       re_Registration := (case answered ex order ''AT+CEREG?'' of None \<Rightarrow> re_Registration r | Some v \<Rightarrow> parseRegistration v),
       re_Signal := (case answered ex order ''AT+CSQ'' of None \<Rightarrow> re_Signal r | Some v \<Rightarrow> parseCSQ v),
       re_Warnings := re_Warnings r @ failing show_error ex order\<rparr>"
  using assms
proof (induction order arbitrary: r)
  case (Cons c order)
  then consider "c = ''AT+CPIN?''" | "c = ''AT+CEREG?''" | "c = ''AT+CSQ''" by auto
  then show ?case
    using Cons
    by cases (auto simp: status_query_def answered_def failing_def warn_def Let_def List.map_filter_simps split: sum.split)
qed (simp add: answered_def failing_def List.map_filter_simps)

lemma answered_set: "set order = set order' \<Longrightarrow> answered ex order = answered ex order'"
  by (rule ext) (simp add: answered_def)

lemma failing_mset: "mset order = mset order' \<Longrightarrow> mset (failing show_error ex order) = mset (failing show_error ex order')"
  by (simp add: failing_def List.map_filter_def)

text \<open>Two reports that differ in the order of their warnings only.\<close>

definition same_report :: "Report \<Rightarrow> Report \<Rightarrow> bool" where
  "same_report r r' \<longleftrightarrow> r = r'\<lparr>re_Warnings := re_Warnings r\<rparr> \<and> mset (re_Warnings r) = mset (re_Warnings r')"

lemma same_reportE:
  assumes "same_report r r'"
  obtains w where "r = r'\<lparr>re_Warnings := w\<rparr>" "mset w = mset (re_Warnings r')"
  using assms by (metis same_report_def)

lemma identity_any_order:
  assumes "mset order = mset order'" and "set order \<subseteq> {''AT+CGMI'', ''AT+CGMM'', ''AT+CGMR''}" and "distinct order"
  shows "same_report (fold (identity_query show_error ex) order r) (fold (identity_query show_error ex) order' r)"
proof -
  have "set order' = set order" "distinct order'" using assms mset_eq_setD mset_eq_imp_distinct_iff by blast+
  with assms failing_mset [OF assms(1)] answered_set [of order' order] show ?thesis
    by (simp add: identity_fold same_report_def)
qed

lemma status_any_order:
  assumes "mset order = mset order'" and "set order \<subseteq> {''AT+CPIN?'', ''AT+CEREG?'', ''AT+CSQ''}" and "distinct order"
    and "same_report r r'"
  shows "same_report (fold (status_query show_error ex) order r) (fold (status_query show_error ex) order' r')"
proof -
  have order': "set order' = set order" "distinct order'" using assms(1,3) mset_eq_setD mset_eq_imp_distinct_iff by blast+
  obtain w where w: "r = r'\<lparr>re_Warnings := w\<rparr>" "mset w = mset (re_Warnings r')"
    using assms(4) by (rule same_reportE)
  from order' assms(2,3) failing_mset [OF assms(1)] answered_set [OF order'(1)] w(2) show ?thesis
    unfolding w(1) by (simp add: status_fold same_report_def cong: option.case_cong)
qed

lemma voice_any_order:
  assumes "same_report r r'"
  shows "same_report (voice_query sm ex r) (voice_query sm ex r')"
proof -
  obtain w where w: "r = r'\<lparr>re_Warnings := w\<rparr>" "mset w = mset (re_Warnings r')"
    using assms by (rule same_reportE)
  from w(2) show ?thesis
    unfolding w(1) by (auto simp: voice_query_def warn_def same_report_def Let_def split: sum.split)
qed

text \<open>Go visits the queries of a map in any order; what the probe reports does not depend on it, the order of its warnings
  apart.\<close>

theorem probe_order_irrelevant:
  assumes "mset order1 = mset [''AT+CGMI'', ''AT+CGMM'', ''AT+CGMR'']" and "mset order2 = mset [''AT+CPIN?'', ''AT+CEREG?'', ''AT+CSQ'']"
  shows "same_report (discovery_Probe show_error show_modem sha_hex order1 order2 ex candidate)
     (discovery_Probe show_error show_modem sha_hex [''AT+CGMI'', ''AT+CGMM'', ''AT+CGMR'']
        [''AT+CPIN?'', ''AT+CEREG?'', ''AT+CSQ''] ex candidate)"
proof (cases "ex ''ATI''")
  case (Inl e)
  then show ?thesis by (simp add: discovery_Probe_def same_report_def)
next
  case (Inr ati)
  let ?o1 = "[''AT+CGMI'', ''AT+CGMM'', ''AT+CGMR'']" and ?o2 = "[''AT+CPIN?'', ''AT+CEREG?'', ''AT+CSQ'']"
  have o1: "set order1 \<subseteq> set ?o1" "distinct order1" and o2: "set order2 \<subseteq> set ?o2" "distinct order2"
    using mset_eq_setD [OF assms(1)] mset_eq_setD [OF assms(2)] mset_eq_imp_distinct_iff [OF assms(1)]
      mset_eq_imp_distinct_iff [OF assms(2)] by auto
  define r1 where "r1 order = fold (identity_query show_error ex) order \<lparr>re_Candidate = candidate, re_Identity = parseIdentity ati,
      re_SIM = [], re_Registration = [], re_Signal = 0, re_Capabilities = no_capabilities, re_Warnings = [], re_Error = []\<rparr>" for order
  define r2 where "r2 r = r\<lparr>re_Capabilities := (re_Capabilities r)\<lparr>cp_Model := id_Model (re_Identity r),
      cp_Vendor := vendorFor (id_Manufacturer (re_Identity r)) (id_Model (re_Identity r)), cp_SMS := True\<rparr>\<rparr>" for r :: Report
  define r3 where "r3 r order = voice_query show_modem ex (fold (status_query show_error ex) order (r2 r))" for r order
  have first: "same_report (r1 order1) (r1 ?o1)"
    unfolding r1_def using o1 by (intro identity_any_order assms) simp_all
  then obtain w where w: "r1 order1 = (r1 ?o1)\<lparr>re_Warnings := w\<rparr>" "mset w = mset (re_Warnings (r1 ?o1))" by (rule same_reportE)
  then have same: "re_Identity (r1 order1) = re_Identity (r1 ?o1)" by simp
  have "same_report (r2 (r1 order1)) (r2 (r1 ?o1))"
    unfolding w(1) r2_def using w(2) by (simp add: same_report_def)
  then have third: "same_report (r3 (r1 order1) order2) (r3 (r1 ?o1) ?o2)"
    unfolding r3_def using o2 by (intro voice_any_order status_any_order assms) simp_all
  have finish: "same_report r r' \<Longrightarrow> same_report (r\<lparr>re_Capabilities := (re_Capabilities r)\<lparr>cp_FirmwareFingerprint := x\<rparr>\<rparr>)
      (r'\<lparr>re_Capabilities := (re_Capabilities r')\<lparr>cp_FirmwareFingerprint := x\<rparr>\<rparr>)" for r r' :: Report and x
    by (erule same_reportE) (simp add: same_report_def)
  from finish [OF third] same Inr show ?thesis
    by (simp add: discovery_Probe_def r1_def r2_def r3_def Let_def)
qed

theorem probe_order_irrelevant_witness:
  "\<forall>show_error show_modem sha_hex p s. same_report (discovery_Probe show_error show_modem sha_hex [''AT+CGMR'', ''AT+CGMI'', ''AT+CGMM'']
       [''AT+CSQ'', ''AT+CEREG?'', ''AT+CPIN?''] (\<lambda>c. Inr [c]) \<lparr>cd_Path = p, cd_Source = s, cd_USBVID = [], cd_USBPID = []\<rparr>)
     (discovery_Probe show_error show_modem sha_hex [''AT+CGMI'', ''AT+CGMM'', ''AT+CGMR''] [''AT+CPIN?'', ''AT+CEREG?'', ''AT+CSQ'']
       (\<lambda>c. Inr [c]) \<lparr>cd_Path = p, cd_Source = s, cd_USBVID = [], cd_USBPID = []\<rparr>)"
  by (intro allI, rule probe_order_irrelevant) simp_all

section \<open>Two readers of the same answers\<close>

lemma split_char_at: "split_char c (s @ c # t) = split_char c s @ split_char c t"
proof (induction s)
  case (Cons x s)
  have "split_char c s \<noteq> []" by (cases s) (auto split: list.split)
  with Cons show ?case by (auto split: list.split)
qed simp

lemma split_char_last: "c \<notin> set t \<Longrightarrow> last (split_char c (s @ c # t)) = t"
proof -
  assume "c \<notin> set t"
  then have "split_char c t = [t]" by (induction t) auto
  then show ?thesis by (simp add: split_char_at)
qed

text \<open>The probe and the status of the adapter read the same answers apart: a SIM that is not ready is absent to the one and
  ready to the other, and both take the last field of a registration for its state, which in the extended form is the
  access technology: on LTE a registered modem is unknown, on HSDPA searching.\<close>

theorem readers_disagree:
  assumes "list_all graphic_char cell"
  shows "parseSIM ''+CPIN: NOT READY'' = ''absent'' \<and> normalizeSIM ''+CPIN: NOT READY'' = ''ready'' \<and>
     parseRegistration (''+CEREG: 2,1,'' @ cell @ '',7'') = ''unknown'' \<and>
     parseRegistration (''+CEREG: 2,1,'' @ cell @ '',2'') = ''searching''"
proof (intro conjI)
  have tail: "parseRegistration (''+CEREG: 2,1,'' @ cell @ '','' @ [d]) =
      (if d = CHR ''1'' \<or> d = CHR ''5'' then ''registered'' else if d = CHR ''2'' then ''searching''
       else if d = CHR ''3'' then ''denied'' else ''unknown'')" if "graphic_char d" "d \<noteq> CHR '',''" for d
  proof -
    have "list_all graphic_char (''2,1,'' @ cell @ '','' @ [d])" using assms that(1) by (simp add: graphic_char_def)
    then have "firstValue (''+CEREG: 2,1,'' @ cell @ '','' @ [d]) = ''2,1,'' @ cell @ '','' @ [d]"
      using trim_space_lead [of "''2,1,'' @ cell @ '','' @ [d]"] by (simp add: firstValue_def has_prefix_def)
    moreover have "last (split_char (CHR '','') (''2,1,'' @ cell @ '','' @ [d])) = [d]"
      using split_char_last [of "CHR '',''" "[d]" "''2,1,'' @ cell"] that(2) by simp
    ultimately show ?thesis
      using that(1) by (simp add: parseRegistration_def Let_def)
  qed
  show "parseRegistration (''+CEREG: 2,1,'' @ cell @ '',7'') = ''unknown''" using tail [of "CHR ''7''"] by (simp add: graphic_char_def)
  show "parseRegistration (''+CEREG: 2,1,'' @ cell @ '',2'') = ''searching''" using tail [of "CHR ''2''"] by (simp add: graphic_char_def)
  show "parseSIM ''+CPIN: NOT READY'' = ''absent''" "normalizeSIM ''+CPIN: NOT READY'' = ''ready''" by code_simp+
qed

theorem readers_disagree_witness:
  "parseRegistration ''+CEREG: 2,1,1A2B,7'' = ''unknown'' \<and> normalizeSIM ''+CPIN: NOT READY'' = ''ready''"
  using readers_disagree [of "''1A2B''"] by (simp add: graphic_char_def)

end
