(* ===== verification/Gateway_Config.thy ===== *)
theory Gateway_Config
  imports Net_Address Json_Text
begin

text \<open>
  The gateway's configuration, \<^verbatim>\<open>gateway/internal/config/config.go\<close>, with the two clients that are set up from it: the
  advertisement of a pocket gateway (\<^verbatim>\<open>internal/discovery/advertiser.go\<close>) and the push broker
  (\<^verbatim>\<open>internal/push/sender.go\<close>). Reading YAML, registering with the zeroconf library and the HTTP client are parameters.
\<close>

section \<open>The configuration\<close>

record Config =
  cf_Network_Mode :: string
  cf_Network_Transport :: string
  cf_Network_TailnetHostname :: string
  cf_Network_PublicFallback :: bool
  cf_Server_Listen :: string
  cf_Server_PublicBaseURL :: string
  cf_Data_Dir :: string
  cf_Modem_Adapter :: string
  cf_Modem_TTY :: string
  cf_Modem_Baud :: int
  cf_Modem_AllowUSBIdentityChanges :: bool
  cf_Voice_Enabled :: bool
  cf_Voice_Backend :: string
  cf_Voice_Codec :: string
  cf_Voice_SampleRate :: int
  cf_Voice_RXPath :: string
  cf_Voice_TXPath :: string
  cf_Voice_RuntimeDir :: string
  cf_Voice_Bootstrap :: bool
  cf_WebRTC_RemoteICEPolicy :: string
  cf_WebRTC_LocalICEPolicy :: string
  cf_WebRTC_MediaNetworkPolicy :: string
  cf_WebRTC_TurnCredentialTTL :: string
  cf_TURN_Enabled :: bool
  cf_TURN_Host :: string
  cf_TURN_Port :: int
  cf_TURN_BindIP :: string
  cf_Push_Mode :: string
  cf_Push_BrokerURL :: string
  cf_Recording_Enabled :: bool
  cf_Recording_RetentionDays :: int
  cf_Recording_MinimumFreeBytes :: int
  cf_Recording_AutoMode :: string
  cf_Security_PairingLocalOnly :: bool
  cf_Security_AdminLocalOnly :: bool
  cf_Security_RedactLogs :: bool
  cf_SIP_Enabled :: bool
  cf_SIP_Listen :: string
  cf_SIP_Realm :: string
  cf_SIP_PushToken :: string
  cf_SIP_Users :: "(string \<times> string) list"

definition Default_Config :: Config where
  "Default_Config =
     \<lparr>cf_Network_Mode = ''tailnet'', cf_Network_Transport = ''tailnet'', cf_Network_TailnetHostname = [],
      cf_Network_PublicFallback = False, cf_Server_Listen = ''127.0.0.1:8787'', cf_Server_PublicBaseURL = [],
      cf_Data_Dir = ''/var/lib/cellbridge'', cf_Modem_Adapter = ''auto'', cf_Modem_TTY = ''auto'', cf_Modem_Baud = 9600,
      cf_Modem_AllowUSBIdentityChanges = False, cf_Voice_Enabled = True, cf_Voice_Backend = ''auto'', cf_Voice_Codec = ''pcmu'',
      cf_Voice_SampleRate = 8000, cf_Voice_RXPath = [], cf_Voice_TXPath = [], cf_Voice_RuntimeDir = [],
      cf_Voice_Bootstrap = False, cf_WebRTC_RemoteICEPolicy = ''relay'', cf_WebRTC_LocalICEPolicy = ''all'',
      cf_WebRTC_MediaNetworkPolicy = ''tailnet-turn'', cf_WebRTC_TurnCredentialTTL = ''10m'', cf_TURN_Enabled = False,
      cf_TURN_Host = [], cf_TURN_Port = 3478, cf_TURN_BindIP = [], cf_Push_Mode = ''broker'', cf_Push_BrokerURL = [],
      cf_Recording_Enabled = True, cf_Recording_RetentionDays = 90, cf_Recording_MinimumFreeBytes = 500 * 1024 * 1024,
      cf_Recording_AutoMode = ''off'', cf_Security_PairingLocalOnly = True, cf_Security_AdminLocalOnly = True,
      cf_Security_RedactLogs = True, cf_SIP_Enabled = False, cf_SIP_Listen = ''127.0.0.1:5060'', cf_SIP_Realm = ''cellbridge'',
      cf_SIP_PushToken = [], cf_SIP_Users = []\<rparr>"

definition config_isLoopbackAddress :: "string \<Rightarrow> bool" where
  "config_isLoopbackAddress address =
     (case Option.bind (split_host address) ParseIP of None \<Rightarrow> False | Some ip \<Rightarrow> IsLoopback ip)"

text \<open>The checks of \<^verbatim>\<open>Validate\<close> in their order, each with the error it gives; the first that fails decides.\<close>

definition network_checks :: "Config \<Rightarrow> (bool \<times> string) list" where
  "network_checks c =
     (let mode = cf_Network_Mode c; transport = cf_Network_Transport c; hostname = trim_space (cf_Network_TailnetHostname c)
      in [(cf_Server_Listen c = [] \<or> cf_Data_Dir c = [], ''server.listen and data.dir are required''),
          (mode \<noteq> ''tailnet'' \<and> mode \<noteq> ''pocket'', ''network.mode must be tailnet or pocket''),
          (mode = ''tailnet'' \<and> transport \<noteq> [] \<and> transport \<noteq> ''tailnet'', ''tailnet mode requires network.transport=tailnet''),
          (mode = ''pocket'' \<and> transport \<noteq> [] \<and> transport \<noteq> ''pocketUSB'' \<and> transport \<noteq> ''pocketWiFi'',
           ''pocket mode transport must be pocketUSB or pocketWiFi''),
          (cf_Network_PublicFallback c, ''network.public_fallback must remain false''),
          (mode = ''tailnet'' \<and> \<not> config_isLoopbackAddress (cf_Server_Listen c), ''tailnet mode requires server.listen to bind loopback''),
          (mode = ''tailnet'' \<and> trim_space (cf_Server_PublicBaseURL c) \<noteq> [], ''tailnet mode must not configure server.public_base_url''),
          (mode = ''tailnet'' \<and> hostname \<noteq> [] \<and> (str_contains hostname ''://'' \<or> \<not> has_suffix (to_lower hostname) ''.ts.net''),
           ''network.tailnet_hostname must be an HTTPS *.ts.net hostname'')])"

definition device_checks :: "Config \<Rightarrow> (bool \<times> string) list" where
  "device_checks c =
     (let backend = cf_Voice_Backend c; no_paths = (cf_Voice_RXPath c = [] \<or> cf_Voice_TXPath c = [])
      in [(cf_Modem_Baud c \<noteq> 9600 \<and> cf_Modem_Baud c \<noteq> 115200, ''modem.baud must be 9600 or 115200''),
          (cf_Voice_Enabled c \<and> (cf_Voice_Codec c \<noteq> ''pcmu'' \<or> cf_Voice_SampleRate c \<noteq> 8000), ''V1 voice requires pcmu at 8000 Hz''),
          (backend \<notin> {''auto'', ''raw-pcm'', ''alsa'', ''qdc507''}, ''voice.backend must be auto, raw-pcm, alsa, or qdc507''),
          (cf_Voice_Enabled c \<and> (backend = ''raw-pcm'' \<or> backend = ''alsa'') \<and> no_paths,
           backend @ '' voice backend requires voice.rx_path and voice.tx_path''),
          (cf_Voice_Enabled c \<and> backend = ''qdc507'' \<and> (no_paths \<or> cf_Voice_RuntimeDir c = []),
           ''qdc507 voice backend requires voice.rx_path, voice.tx_path, and voice.runtime_dir''),
          (cf_Recording_RetentionDays c < 0, ''recording.retention_days cannot be negative''),
          (cf_Recording_MinimumFreeBytes c < 0, ''recording.minimum_free_bytes cannot be negative''),
          (cf_Recording_AutoMode c \<notin> {''off'', ''all'', ''incoming'', ''outgoing''},
           ''recording.auto_mode must be off, all, incoming, or outgoing'')])"

definition media_checks :: "Config \<Rightarrow> (bool \<times> string) list" where
  "media_checks c =
     [(cf_WebRTC_RemoteICEPolicy c \<noteq> ''relay'', ''remote_ice_policy must be relay''),
      (cf_WebRTC_LocalICEPolicy c \<noteq> ''all'' \<and> cf_WebRTC_LocalICEPolicy c \<noteq> ''relay'', ''local_ice_policy must be all or relay''),
      (cf_WebRTC_MediaNetworkPolicy c \<noteq> ''tailnet-turn'' \<and> cf_WebRTC_MediaNetworkPolicy c \<noteq> ''tailnet-direct'',
       ''media_network_policy must be tailnet-turn or tailnet-direct''),
      (cf_TURN_Enabled c \<and> (trim_space (cf_TURN_Host c) = [] \<or> cf_TURN_Port c < 1 \<or> 65535 < cf_TURN_Port c),
       ''enabled private TURN requires webrtc.private_turn.host and a valid port''),
      (cf_TURN_Enabled c \<and> cf_Network_Mode c = ''tailnet'' \<and> str_contains (cf_TURN_Host c) ''://'',
       ''private TURN host must not include a scheme''),
      (\<not> cf_Security_PairingLocalOnly c, ''pairing_local_only cannot be disabled in V1'')]"

definition config_checks :: "Config \<Rightarrow> (bool \<times> string) list" where
  "config_checks c = network_checks c @ device_checks c @ media_checks c"

definition Validate :: "Config \<Rightarrow> string option" where
  "Validate c = map_option snd (find fst (config_checks c))"

text \<open>\<^verbatim>\<open>Load\<close>: \<open>file\<close> is what reading gave, \<open>unmarshal\<close> what YAML makes of it over the defaults.\<close>

definition Load_Config ::
  "(string, string) result \<Rightarrow> (string \<Rightarrow> Config \<Rightarrow> (string, Config) result) \<Rightarrow> (string, Config) result" where
  "Load_Config file unmarshal =
     (case file of
        Inl e \<Rightarrow> Inl (''read config: '' @ e)
      | Inr data \<Rightarrow>
          (case unmarshal data Default_Config of
             Inl e \<Rightarrow> Inl (''parse config: '' @ e)
           | Inr c \<Rightarrow> (case Validate c of Some e \<Rightarrow> Inl e | None \<Rightarrow> Inr c)))"

lemma Validate_None: "Validate c = None \<longleftrightarrow> list_all (\<lambda>x. \<not> fst x) (config_checks c)"
  by (auto simp: Validate_def find_None_iff list_all_iff)

lemma config_isLoopbackAddress_iff:
  "config_isLoopbackAddress address \<longleftrightarrow> (\<exists>host ip. split_host address = Some host \<and> ParseIP host = Some ip \<and> IsLoopback ip)"
  by (auto simp: config_isLoopbackAddress_def split: option.splits bind_splits)

lemma Load_Config_valid: "Load_Config file unmarshal = Inr c \<Longrightarrow> Validate c = None"
  by (auto simp: Load_Config_def split: sum.splits option.splits)

text \<open>Whatever the file says, a gateway on the tailnet that starts listens on a loopback address and has no public URL, pairs
  only locally, relays remote media, and has a usable TURN server whenever one is enabled.\<close>

theorem loaded_config_stays_private:
  assumes "Load_Config file unmarshal = Inr c"
  shows "\<not> cf_Network_PublicFallback c \<and> cf_Security_PairingLocalOnly c \<and> cf_WebRTC_RemoteICEPolicy c = ''relay'' \<and>
     (cf_Network_Mode c = ''tailnet'' \<longrightarrow>
        (\<exists>host ip. split_host (cf_Server_Listen c) = Some host \<and> ParseIP host = Some ip \<and> IsLoopback ip) \<and>
        trim_space (cf_Server_PublicBaseURL c) = []) \<and>
     (cf_TURN_Enabled c \<longrightarrow> trim_space (cf_TURN_Host c) \<noteq> [] \<and> cf_TURN_Port c \<in> {1..65535}) \<and>
     0 \<le> cf_Recording_RetentionDays c \<and> 0 \<le> cf_Recording_MinimumFreeBytes c"
proof -
  have "list_all (\<lambda>x. \<not> fst x) (network_checks c)" and device: "list_all (\<lambda>x. \<not> fst x) (device_checks c)"
    and media: "list_all (\<lambda>x. \<not> fst x) (media_checks c)"
    using Load_Config_valid [OF assms] by (simp_all add: Validate_None config_checks_def)
  then have "\<not> cf_Network_PublicFallback c"
    "cf_Network_Mode c = ''tailnet'' \<longrightarrow> config_isLoopbackAddress (cf_Server_Listen c) \<and> trim_space (cf_Server_PublicBaseURL c) = []"
    by (simp_all add: network_checks_def Let_def)
  moreover have "cf_Security_PairingLocalOnly c" "cf_WebRTC_RemoteICEPolicy c = ''relay''"
    "cf_TURN_Enabled c \<longrightarrow> trim_space (cf_TURN_Host c) \<noteq> [] \<and> cf_TURN_Port c \<in> {1..65535}"
    using media by (simp_all add: media_checks_def not_less)
  moreover have "0 \<le> cf_Recording_RetentionDays c" "0 \<le> cf_Recording_MinimumFreeBytes c"
    using device by (simp_all add: device_checks_def Let_def)
  ultimately show ?thesis by (simp add: config_isLoopbackAddress_iff)
qed

lemma default_listens_locally: "config_isLoopbackAddress ''127.0.0.1:8787''"
  by (simp add: config_isLoopbackAddress_def split_host_def ParseIP_def parse_ipv4_def parse_octet_def IsLoopback_def to4_def
      v4_prefix_def digits_val_def digit_val_def is_digit_def)

lemma Default_valid: "Validate Default_Config = None"
  using default_listens_locally
  by (simp add: Validate_None config_checks_def network_checks_def device_checks_def media_checks_def Default_Config_def Let_def)

theorem loaded_config_stays_private_witness:
  "Load_Config (Inr []) (\<lambda>d c. Inr c) = Inr Default_Config \<and> cf_Security_PairingLocalOnly Default_Config \<and>
     (\<exists>host ip. split_host ''127.0.0.1:8787'' = Some host \<and> ParseIP host = Some ip \<and> IsLoopback ip)"
proof -
  have load: "Load_Config (Inr []) (\<lambda>d c. Inr c) = Inr Default_Config" by (simp add: Load_Config_def Default_valid)
  from loaded_config_stays_private [OF load] load show ?thesis by (simp add: Default_Config_def)
qed

section \<open>The advertisement of a pocket gateway\<close>

definition pocket_port :: "string \<Rightarrow> string option" where
  "pocket_port listenAddress =
     (case (split_host listenAddress, last_index_char listenAddress (CHR '':'')) of
        (Some _, Some i) \<Rightarrow> Some (drop (Suc i) listenAddress) | _ \<Rightarrow> None)"

definition scan_port :: "string \<Rightarrow> int option" where
  "scan_port s =
     (let t = dropWhile (\<lambda>c. c = CHR '' '' \<or> c = char_of (9 :: nat)) s;
          (sign, u) = (case t of c # r \<Rightarrow> if c = CHR ''-'' \<or> c = CHR ''+'' then ([c], r) else ([], t) | [] \<Rightarrow> ([], []))
      in atoi (sign @ takeWhile is_digit u))"

text \<open>The instance, the port and the text records that are registered.\<close>

definition RegisterPocket :: "string \<Rightarrow> string \<Rightarrow> string \<Rightarrow> string \<Rightarrow> (string, string \<times> int \<times> string list) result" where
  "RegisterPocket instance0 gatewayID0 transport0 listenAddress =
     (let inst = (if trim_space instance0 = [] then ''CellBridge PocketBridge'' else trim_space instance0);
          gatewayID = trim_space gatewayID0; transport = trim_space transport0
      in if gatewayID = [] then Inl ''gateway id is required''
         else if transport \<noteq> ''pocketUSB'' \<and> transport \<noteq> ''pocketWiFi'' then Inl ''pocket transport must be pocketUSB or pocketWiFi''
         else (case pocket_port listenAddress of
                 None \<Rightarrow> Inl ''parse listen address''
               | Some portText \<Rightarrow>
                   (case scan_port portText of
                      None \<Rightarrow> Inl (''invalid listen port '' @ portText)
                    | Some port \<Rightarrow>
                        if port < 1 \<or> 65535 < port then Inl (''invalid listen port '' @ portText)
                        else Inr (inst, port, [''version=1'', ''api_version=v1'', ''gateway_id='' @ gatewayID, ''mode=pocket'',
                               ''transport='' @ transport]))))"

section \<open>The push broker\<close>

record BrokerTarget =
  tg_DeviceID :: string
  tg_APNSToken :: string
  tg_VoIPToken :: string
  tg_Environment :: string
  tg_Locale :: string

definition NewBroker_URL :: "string \<Rightarrow> string" where
  "NewBroker_URL baseURL = rev (dropWhile (\<lambda>c. c = CHR ''/'') (rev (trim_space baseURL)))"

definition push_request :: "BrokerTarget \<Rightarrow> string \<Rightarrow> json \<Rightarrow> json" where
  "push_request t token payload = JObject [(''deviceId'', JString (tg_DeviceID t)), (''token'', JString token),
     (''environment'', JString (tg_Environment t)), (''locale'', JString (tg_Locale t)), (''payload'', payload)]"

text \<open>\<^verbatim>\<open>post\<close>: what is sent to which URL, and the error; \<open>transport\<close> is the HTTP client, the status or its error.\<close>

definition broker_post ::
  "string \<Rightarrow> (string \<Rightarrow> string \<Rightarrow> (string, int) result) \<Rightarrow> string \<Rightarrow> BrokerTarget \<Rightarrow> json \<Rightarrow> string option \<times> (string \<times> string) option" where
  "broker_post base transport path t payload =
     (if base = [] then (Some ''push broker is not configured'', None)
      else if tg_DeviceID t = [] \<or> tg_Environment t = [] then (Some ''push target is invalid'', None)
      else
        let token = (if has_suffix path ''/voip'' then tg_VoIPToken t else tg_APNSToken t)
        in if token = [] then (Some ''push target token is missing'', None)
           else
             let body = json_marshal (push_request t token payload)
             in (case transport (base @ path) body of
                   Inl e \<Rightarrow> (Some (''send push request: '' @ e), Some (base @ path, body))
                 | Inr status \<Rightarrow>
                     (if status < 200 \<or> 300 \<le> status then Some (''push broker returned HTTP '' @ itoa status) else None,
                      Some (base @ path, body))))"

definition voip_json :: "string \<Rightarrow> string \<Rightarrow> string \<Rightarrow> string \<Rightarrow> int \<Rightarrow> json" where
  "voip_json callUUID callID handle gatewayID issued = JObject [(''callUUID'', JString callUUID), (''callId'', JString callID),
     (''handle'', JString handle), (''gatewayId'', JString gatewayID), (''issuedAt'', JInt issued)]"

definition message_json :: "string \<Rightarrow> string \<Rightarrow> int \<Rightarrow> json" where
  "message_json messageID gatewayID issued = JObject [(''messageId'', JString messageID), (''gatewayId'', JString gatewayID),
     (''issuedAt'', JInt issued)]"

definition SendVoIP where
  "SendVoIP base transport t payload = broker_post base transport ''/v1/push/voip'' t payload"

definition SendMessage where
  "SendMessage base transport t payload = broker_post base transport ''/v1/push/message'' t payload"

text \<open>A call goes to the VoIP token and a message to the other one, and never to a target without the right token; success
  is a status of 2xx for a request that was sent.\<close>

lemma push_uses_the_right_token:
  "SendVoIP base transport t payload = (r, Some (url, body)) \<Longrightarrow>
     url = base @ ''/v1/push/voip'' \<and> tg_VoIPToken t \<noteq> [] \<and> body = json_marshal (push_request t (tg_VoIPToken t) payload)"
  "SendMessage base transport t payload = (r, Some (url, body)) \<Longrightarrow>
     url = base @ ''/v1/push/message'' \<and> tg_APNSToken t \<noteq> [] \<and> body = json_marshal (push_request t (tg_APNSToken t) payload)"
  "broker_post base transport path t payload = (None, sent) \<Longrightarrow> sent \<noteq> None"
  by (auto simp: SendVoIP_def SendMessage_def broker_post_def has_suffix_def has_prefix_def Let_def split: if_splits sum.splits)

end
