(* ===== verification/Alsa_Audio.thy ===== *)
theory Alsa_Audio
  imports Voice_Codec
begin

text \<open>
  The ALSA backend of the voice bridge, \<^verbatim>\<open>gateway/internal/voice/alsa.go\<close>: two child processes, \<^verbatim>\<open>arecord\<close> and
  \<^verbatim>\<open>aplay\<close>, whose pipes carry the samples. The children that run are part of the state, so that one nobody refers to
  any more can be seen. What the operating system answers (pipes, starts, reads, writes, the clock) are parameters.
\<close>

section \<open>The adapter and its children\<close>

datatype child = Arecord nat | Aplay nat

record ALSAAudio =
  al_captureDevice :: string
  al_playbackDevice :: string
  al_call :: string
  al_capture :: "child option"
  al_playback :: "child option"
  al_primeStop :: bool
  al_lastWrite :: int
  al_closed :: bool
  al_running :: "child list"

definition OpenALSA :: "string \<Rightarrow> string \<Rightarrow> ALSAAudio option" where
  "OpenALSA capture0 playback0 =
     (let capture = trim_space capture0; playback = trim_space playback0
      in if capture = [] \<or> playback = [] then None
         else Some \<lparr>al_captureDevice = capture, al_playbackDevice = playback, al_call = [], al_capture = None,
                al_playback = None, al_primeStop = False, al_lastWrite = 0, al_closed = False, al_running = []\<rparr>)"

definition alsa_Probe :: "bool \<Rightarrow> (string \<Rightarrow> bool) \<Rightarrow> string option" where
  "alsa_Probe cancelled look_path =
     (if cancelled then Some ''context canceled''
      else if \<not> look_path ''arecord'' then Some ''arecord is unavailable''
      else if \<not> look_path ''aplay'' then Some ''aplay is unavailable'' else None)"

text \<open>A reaped child is killed and waited for.\<close>

definition reap :: "child option \<Rightarrow> ALSAAudio \<Rightarrow> ALSAAudio" where
  "reap c a = (case c of None \<Rightarrow> a | Some p \<Rightarrow> a\<lparr>al_running := filter (\<lambda>q. q \<noteq> p) (al_running a)\<rparr>)"

definition releaseCall :: "string \<Rightarrow> ALSAAudio \<Rightarrow> ALSAAudio" where
  "releaseCall callID a = (if al_call a = callID then a\<lparr>al_call := []\<rparr> else a)"

section \<open>Starting\<close>

text \<open>The first critical section of \<^verbatim>\<open>Start\<close>: the call is taken, and the pair that was there is handed out.\<close>

datatype taken = StartCancelled | StartBusy string | StartedBefore | StartTaken "child option \<times> child option"

definition start_take :: "bool \<Rightarrow> string \<Rightarrow> ALSAAudio \<Rightarrow> taken \<times> ALSAAudio" where
  "start_take cancelled callID a =
     (if cancelled then (StartCancelled, a)
      else if al_call a \<noteq> [] \<and> al_call a \<noteq> callID then (StartBusy (al_call a), a)
      else if al_call a = callID then (StartedBefore, a)
      else (StartTaken (al_capture a, al_playback a), a\<lparr>al_call := callID, al_capture := None, al_playback := None\<rparr>))"

definition reap_pair :: "child option \<times> child option \<Rightarrow> ALSAAudio \<Rightarrow> ALSAAudio" where
  "reap_pair pair a = reap (snd pair) (reap (fst pair) a)"

text \<open>How far the new pair gets; \<open>n\<close> names its processes.\<close>

datatype spawned = NoCapturePipe | NoPlaybackPipe | NoCapture | NoPlayback | PairStarted

definition start_pair :: "spawned \<Rightarrow> nat \<Rightarrow> string \<Rightarrow> ALSAAudio \<Rightarrow> string option \<times> ALSAAudio" where
  "start_pair outcome n callID a =
     (case outcome of
        NoCapturePipe \<Rightarrow> (Some ''create ALSA capture pipe'', releaseCall callID a)
      | NoPlaybackPipe \<Rightarrow> (Some ''create ALSA playback pipe'', releaseCall callID a)
      | NoCapture \<Rightarrow> (Some ''start ALSA capture'', releaseCall callID (reap None a))
      | NoPlayback \<Rightarrow>
          (Some ''start ALSA playback'', releaseCall callID (a\<lparr>al_running := Arecord n # al_running a\<rparr>))
      | PairStarted \<Rightarrow>
          (None, a\<lparr>al_running := Aplay n # Arecord n # al_running a, al_capture := Some (Arecord n),
                   al_playback := Some (Aplay n), al_primeStop := True\<rparr>))"

text \<open>\<^verbatim>\<open>Start\<close> when nothing comes between its sections.\<close>

definition alsa_Start :: "bool \<Rightarrow> spawned \<Rightarrow> nat \<Rightarrow> string \<Rightarrow> ALSAAudio \<Rightarrow> string option \<times> ALSAAudio" where
  "alsa_Start cancelled outcome n callID a =
     (case start_take cancelled callID a of
        (StartCancelled, a1) \<Rightarrow> (Some ''context canceled'', a1)
      | (StartBusy current, a1) \<Rightarrow> (Some (''ALSA audio is already active for call '' @ current), a1)
      | (StartedBefore, a1) \<Rightarrow> (None, a1)
      | (StartTaken pair, a1) \<Rightarrow> start_pair outcome n callID (reap_pair pair a1))"

definition alsa_Stop :: "ALSAAudio \<Rightarrow> ALSAAudio" where
  "alsa_Stop a =
     reap_pair (al_capture a, al_playback a)
       (a\<lparr>al_call := [], al_capture := None, al_playback := None, al_primeStop := False\<rparr>)"

definition alsa_Close :: "ALSAAudio \<Rightarrow> ALSAAudio" where
  "alsa_Close a = (if al_closed a then a else (alsa_Stop a)\<lparr>al_closed := True\<rparr>)"

section \<open>Samples\<close>

text \<open>\<open>received\<close>: the bytes \<^verbatim>\<open>io.ReadFull\<close> put into the buffer. The pipes exist exactly when the pair is installed.\<close>

definition alsa_ReadPCM :: "byte list \<Rightarrow> sample list \<Rightarrow> ALSAAudio \<Rightarrow> (nat \<times> sample list) option" where
  "alsa_ReadPCM received samples a =
     (if al_call a = [] \<or> al_capture a = None then None else Some (raw_ReadPCM received samples))"

text \<open>\<open>count\<close>: how many bytes the pipe took.\<close>

definition alsa_WritePCM :: "int \<Rightarrow> nat \<Rightarrow> sample list \<Rightarrow> ALSAAudio \<Rightarrow> (nat \<times> byte list) option \<times> ALSAAudio" where
  "alsa_WritePCM now count samples a =
     (if al_call a = [] \<or> al_playback a = None then (None, a)
      else (Some (count div 2, concat (map sample_bytes samples)), a\<lparr>al_lastWrite := now\<rparr>))"

text \<open>A tick of the loop that keeps the playback running with silence: whether the loop goes on, and what it writes.\<close>

definition prime_tick :: "int \<Rightarrow> string \<Rightarrow> ALSAAudio \<Rightarrow> bool \<times> byte list" where
  "prime_tick now callID a =
     (if al_call a \<noteq> callID then (False, [])
      else if now - al_lastWrite a < 15 then (True, [])
      else if al_playback a = None then (False, [])
      else (True, concat (map sample_bytes (replicate (SampleRate div 50) 0))))"

section \<open>One operation after the other\<close>

datatype alsa_op = StartOp bool spawned nat string | StopOp | CloseOp

fun alsa_step :: "alsa_op \<Rightarrow> ALSAAudio \<Rightarrow> ALSAAudio" where
  "alsa_step (StartOp cancelled outcome n callID) a = snd (alsa_Start cancelled outcome n callID a)"
| "alsa_step StopOp a = alsa_Stop a"
| "alsa_step CloseOp a = alsa_Close a"

text \<open>Exactly the installed pair runs, and there is one exactly while a call is active.\<close>

definition alsa_ok :: "ALSAAudio \<Rightarrow> bool" where
  "alsa_ok a \<longleftrightarrow>
     (al_call a = [] \<and> al_capture a = None \<and> al_playback a = None \<and> al_running a = []) \<or>
     (\<exists>n. al_call a \<noteq> [] \<and> al_capture a = Some (Arecord n) \<and> al_playback a = Some (Aplay n) \<and>
        al_running a = [Aplay n, Arecord n])"

fun playback_starts :: "alsa_op \<Rightarrow> bool" where
  "playback_starts (StartOp cancelled outcome n callID) = (outcome \<noteq> NoPlayback \<and> callID \<noteq> [])"
| "playback_starts _ = True"

lemma alsa_Stop_ok: "alsa_ok a \<Longrightarrow> alsa_ok (alsa_Stop a) \<and> al_running (alsa_Stop a) = []"
  by (auto simp: alsa_ok_def alsa_Stop_def reap_pair_def reap_def)

lemma alsa_ok_closed [simp]: "alsa_ok (a\<lparr>al_closed := b\<rparr>) = alsa_ok a"
  by (simp add: alsa_ok_def)

lemma alsa_step_ok: "alsa_ok a \<Longrightarrow> playback_starts c \<Longrightarrow> alsa_ok (alsa_step c a)"
proof (cases c)
  case (StartOp cancelled outcome n callID)
  assume "alsa_ok a" "playback_starts c"
  with StartOp show ?thesis
    by (cases outcome)
      (auto simp: alsa_ok_def alsa_Start_def start_take_def start_pair_def reap_pair_def reap_def releaseCall_def)
qed (simp_all add: alsa_Stop_ok alsa_Close_def)

text \<open>As long as operations follow one another and no playback fails to start, exactly the processes of the active call's
  pair run, and none without a call.\<close>

theorem alsa_runs_one_pair:
  assumes "OpenALSA capture playback = Some a" and "list_all playback_starts ops"
  shows "alsa_ok (fold alsa_step ops a)"
proof -
  have "alsa_ok a" using assms(1) by (auto simp: OpenALSA_def alsa_ok_def Let_def split: if_splits)
  with assms(2) show ?thesis by (induction ops arbitrary: a) (auto intro: alsa_step_ok)
qed

theorem alsa_runs_one_pair_witness:
  "\<exists>a. OpenALSA ''hw:1'' ''hw:1'' = Some a \<and>
     alsa_ok (fold alsa_step [StartOp False PairStarted 1 ''c1'', StopOp, StartOp False NoCapture 2 ''c2'', StartOp False PairStarted 3 ''c3''] a)"
proof -
  obtain a where a: "OpenALSA ''hw:1'' ''hw:1'' = Some a"
    by (simp add: OpenALSA_def Let_def graphic_char_def)
  from alsa_runs_one_pair [OF a, of "[StartOp False PairStarted 1 ''c1'', StopOp, StartOp False NoCapture 2 ''c2'',
      StartOp False PairStarted 3 ''c3'']"] a show ?thesis by simp
qed

section \<open>Children left behind\<close>

text \<open>When \<^verbatim>\<open>aplay\<close> does not start, the \<^verbatim>\<open>arecord\<close> that was started before it is neither killed nor remembered: it still
  runs after every later operation that starts no process of its name.\<close>

lemma reap_keeps: "c \<in> set (al_running a) \<Longrightarrow> p \<noteq> Some c \<Longrightarrow> c \<in> set (al_running (reap p a))"
  by (auto simp: reap_def split: option.split)

lemma forgotten_step:
  assumes "Arecord n \<in> set (al_running a)" and "al_capture a \<noteq> Some (Arecord n)" and "al_playback a \<noteq> Some (Arecord n)"
    and "\<forall>cancelled outcome m callID. op = StartOp cancelled outcome m callID \<longrightarrow> m \<noteq> n"
  shows "Arecord n \<in> set (al_running (alsa_step op a)) \<and> al_capture (alsa_step op a) \<noteq> Some (Arecord n) \<and>
    al_playback (alsa_step op a) \<noteq> Some (Arecord n)"
proof (cases op)
  case (StartOp cancelled outcome m callID)
  with assms show ?thesis
    by (cases outcome) (auto simp: alsa_Start_def start_take_def start_pair_def reap_pair_def releaseCall_def reap_def split: option.splits)
qed (use assms in \<open>auto simp: alsa_Stop_def alsa_Close_def reap_pair_def reap_def split: option.splits\<close>)

fun starts_named :: "nat \<Rightarrow> alsa_op \<Rightarrow> bool" where
  "starts_named n (StartOp cancelled outcome m callID) = (m = n)"
| "starts_named n _ = False"

theorem failed_playback_leaves_recorder:
  assumes "alsa_ok a" and "al_call a = []" and "callID \<noteq> []" and "alsa_Start False NoPlayback n callID a = (e, a')"
    and "list_all (\<lambda>op. \<not> starts_named n op) ops"
  shows "e \<noteq> None \<and> al_call a' = [] \<and> Arecord n \<in> set (al_running (fold alsa_step ops a'))"
proof -
  have a': "e = Some ''start ALSA playback''" "al_call a' = []" "Arecord n \<in> set (al_running a')"
      "al_capture a' \<noteq> Some (Arecord n)" "al_playback a' \<noteq> Some (Arecord n)"
    using assms(1-4)
    by (auto simp: alsa_ok_def alsa_Start_def start_take_def start_pair_def reap_pair_def reap_def releaseCall_def)
  from a'(3-5) assms(5) have "Arecord n \<in> set (al_running (fold alsa_step ops a'))"
  proof (induction ops arbitrary: a')
    case (Cons op ops)
    have "\<forall>cancelled outcome m callID. op = StartOp cancelled outcome m callID \<longrightarrow> m \<noteq> n" using Cons.prems by auto
    from forgotten_step [OF Cons.prems(1-3) this] Cons show ?case by simp
  qed simp
  with a' show ?thesis by simp
qed

theorem failed_playback_leaves_recorder_witness:
  "\<exists>a a'. OpenALSA ''hw:1'' ''hw:1'' = Some a \<and> alsa_Start False NoPlayback 1 ''c1'' a = (Some ''start ALSA playback'', a') \<and>
     Arecord 1 \<in> set (al_running (alsa_Close (alsa_Stop a')))"
proof -
  obtain a where a: "OpenALSA ''hw:1'' ''hw:1'' = Some a" "alsa_ok a" "al_call a = []"
    by (simp add: OpenALSA_def Let_def graphic_char_def alsa_ok_def)
  obtain a' where run: "alsa_Start False NoPlayback 1 ''c1'' a = (Some ''start ALSA playback'', a')"
    using a(3) by (simp add: alsa_Start_def start_take_def start_pair_def)
  from failed_playback_leaves_recorder [OF a(2,3) _ run, of "[StopOp, CloseOp]"] a(1) run show ?thesis by simp
qed

section \<open>Operations that overlap\<close>

text \<open>The lock is released while children are killed and started. A start that was overtaken by a stop and another start
  installs its pair over the other one, whose children then run without anything that refers to them; the call of the
  adapter is the second one.\<close>

theorem overtaken_start_leaks_pair:
  assumes "OpenALSA capture playback = Some a" and "c \<noteq> []" and "d \<noteq> []" and "n \<noteq> m"
    and "start_take False c a = (StartTaken pair, a1)" and "alsa_Start False PairStarted m d (alsa_Stop (reap_pair pair a1)) = (None, a2)"
    and "start_pair PairStarted n c a2 = (e, a3)"
  shows "al_call a3 = d \<and> al_capture a3 = Some (Arecord n) \<and> Arecord m \<in> set (al_running (alsa_Stop a3)) \<and>
     Aplay m \<in> set (al_running (alsa_Stop a3))"
proof -
  have a: "al_call a = []" "al_capture a = None" "al_playback a = None" "al_running a = []"
    using assms(1) by (auto simp: OpenALSA_def Let_def split: if_splits)
  have none [simp]: "reap_pair (None, None) x = x" for x by (simp add: reap_pair_def reap_def)
  have "pair = (None, None)" and a1: "a1 = a\<lparr>al_call := c, al_capture := None, al_playback := None\<rparr>"
    using assms(2,5) a by (auto simp: start_take_def split: if_splits)
  then have a2: "al_call a2 = d" "al_running a2 = [Aplay m, Arecord m]"
    using assms(3,6) a by (auto simp: alsa_Start_def start_take_def start_pair_def alsa_Stop_def split: if_splits)
  have a3: "al_call a3 = d" "al_capture a3 = Some (Arecord n)" "al_playback a3 = Some (Aplay n)"
      "al_running a3 = [Aplay n, Arecord n, Aplay m, Arecord m]"
    using assms(7) a2 by (auto simp: start_pair_def)
  then show ?thesis using assms(4) by (simp add: alsa_Stop_def reap_pair_def reap_def)
qed

theorem overtaken_start_leaks_pair_witness:
  "\<exists>a pair a1 a2 a3. OpenALSA ''hw:1'' ''hw:1'' = Some a \<and> start_take False ''c1'' a = (StartTaken pair, a1) \<and>
     alsa_Start False PairStarted 2 ''c2'' (alsa_Stop (reap_pair pair a1)) = (None, a2) \<and>
     start_pair PairStarted 1 ''c1'' a2 = (None, a3) \<and> Arecord 2 \<in> set (al_running (alsa_Stop a3))"
proof -
  obtain a where a: "OpenALSA ''hw:1'' ''hw:1'' = Some a" "al_call a = []" "al_capture a = None" "al_playback a = None"
    by (simp add: OpenALSA_def Let_def graphic_char_def)
  obtain pair a1 where taken: "start_take False ''c1'' a = (StartTaken pair, a1)" using a(2) by (simp add: start_take_def)
  obtain a2 where second: "alsa_Start False PairStarted 2 ''c2'' (alsa_Stop (reap_pair pair a1)) = (None, a2)"
    using taken a by (auto simp: alsa_Start_def start_take_def start_pair_def alsa_Stop_def reap_pair_def reap_def)
  obtain a3 where first: "start_pair PairStarted 1 ''c1'' a2 = (None, a3)" by (simp add: start_pair_def)
  from overtaken_start_leaks_pair [OF a(1) _ _ _ taken second first] have "Arecord 2 \<in> set (al_running (alsa_Stop a3))" by simp
  with a(1) taken second first show ?thesis by blast
qed

end
