(* ===== verification/Host_Commands.thy ===== *)
theory Host_Commands
  imports Json_Text
begin

text \<open>
  What the programs share that drive a module by commands: a chain of fallible steps over a state, the path names of the
  host (\<^verbatim>\<open>path/filepath\<close>), and texts for a shell.
\<close>

section \<open>Chains of fallible steps\<close>

definition and_then ::
  "('e, 'a) result \<times> 's \<Rightarrow> ('a \<Rightarrow> 's \<Rightarrow> ('e, 'b) result \<times> 's) \<Rightarrow> ('e, 'b) result \<times> 's" where
  "and_then r f = (case r of (Inl e, s) \<Rightarrow> (Inl e, s) | (Inr a, s) \<Rightarrow> f a s)"

lemma and_then_simps [simp]:
  "and_then (Inl e, s) f = (Inl e, s)"
  "and_then (Inr a, s) f = f a s"
  by (simp_all add: and_then_def)

lemma and_then_Inr: "and_then r f = (Inr b, s') \<longleftrightarrow> (\<exists>a s. r = (Inr a, s) \<and> f a s = (Inr b, s'))"
  by (auto simp: and_then_def split: prod.splits sum.splits)

text \<open>A condition on results and states passes through a chain.\<close>

lemma and_then_all:
  assumes "\<And>e. fst r = Inl e \<Longrightarrow> P (Inl e) (snd r)" and "\<And>a. fst r = Inr a \<Longrightarrow> P (fst (f a (snd r))) (snd (f a (snd r)))"
  shows "P (fst (and_then r f)) (snd (and_then r f))"
  using assms by (cases r; cases "fst r") auto

section \<open>Path names\<close>

text \<open>\<^verbatim>\<open>filepath.Clean\<close>: the parts between slashes, without the empty ones and dots, and with two dots taken back.\<close>

fun clean_parts :: "bool \<Rightarrow> string list \<Rightarrow> string list \<Rightarrow> string list" where
  "clean_parts rooted acc [] = rev acc"
| "clean_parts rooted acc (p # ps) =
     (if p = [] \<or> p = ''.'' then clean_parts rooted acc ps
      else if p \<noteq> ''..'' then clean_parts rooted (p # acc) ps
      else (case acc of
              [] \<Rightarrow> clean_parts rooted (if rooted then [] else [p]) ps
            | q # qs \<Rightarrow> clean_parts rooted (if q = ''..'' then p # acc else qs) ps))"

definition path_clean :: "string \<Rightarrow> string" where
  "path_clean s =
     (let rooted = has_prefix s ''/''; parts = clean_parts rooted [] (split_char (CHR ''/'') s)
      in if rooted then CHR ''/'' # join_char (CHR ''/'') parts
         else if parts = [] then ''.'' else join_char (CHR ''/'') parts)"

definition path_absolute :: "string \<Rightarrow> bool" where
  "path_absolute s = has_prefix s ''/''"

definition path_below :: "string list \<Rightarrow> string" where
  "path_below parts =
     (let ps = filter (\<lambda>p. p \<noteq> []) parts in if ps = [] then [] else path_clean (join_char (CHR ''/'') ps))"

definition path_base :: "string \<Rightarrow> string" where
  "path_base s =
     (let t = rev (dropWhile (\<lambda>c. c = CHR ''/'') (rev s))
      in if s = [] then ''.'' else if t = [] then ''/''
         else rev (takeWhile (\<lambda>c. c \<noteq> CHR ''/'') (rev t)))"

section \<open>Texts for a shell\<close>

text \<open>A tilde stands for an apostrophe and an at sign for a backslash in the scripts below, which contain neither.\<close>

definition script :: "string \<Rightarrow> string" where
  "script s = map (\<lambda>c. if c = CHR ''~'' then CHR 0x27 else if c = CHR ''@'' then CHR 0x5C else c) s"

definition string_bytes :: "string \<Rightarrow> byte list" where
  "string_bytes s = map (\<lambda>c. word_of_nat (of_char c)) s"

definition bytes_string :: "byte list \<Rightarrow> string" where
  "bytes_string bs = map (\<lambda>b. char_of (unat b)) bs"

lemma bytes_string_bytes [simp]: "bytes_string (string_bytes s) = s"
proof -
  have "unat (word_of_nat (of_char c) :: byte) = of_char c" for c :: char
    using nat_of_char_less_256 [of c] by (simp add: unat_of_nat take_bit_eq_mod)
  then show ?thesis by (simp add: bytes_string_def string_bytes_def comp_def map_idI)
qed

lemma length_string_bytes [simp]: "length (string_bytes s) = length s"
  by (simp add: string_bytes_def)

text \<open>\<^verbatim>\<open>shellQuote\<close>: the text between apostrophes, an apostrophe in it written as the end of one quotation, an escaped
  apostrophe and the start of the next.\<close>

definition shellQuote :: "string \<Rightarrow> string" where
  "shellQuote s =
     [CHR 0x27] @ concat (map (\<lambda>c. if c = CHR 0x27 then [CHR 0x27, CHR 0x5C, CHR 0x27, CHR 0x27] else [c]) s) @ [CHR 0x27]"

text \<open>How a shell reads a word of quotations and escapes: inside apostrophes every character stands for itself, outside a
  backslash makes the next one stand for itself; anything else ends the word.\<close>

fun shell_word :: "bool \<Rightarrow> string \<Rightarrow> string \<times> string" where
  "shell_word quoted [] = ([], [])"
| "shell_word True (c # s) =
     (if c = CHR 0x27 then shell_word False s else (case shell_word True s of (w, rest) \<Rightarrow> (c # w, rest)))"
| "shell_word False [c] = (if c = CHR 0x27 then ([], []) else ([], [c]))"
| "shell_word False (c # d # s) =
     (if c = CHR 0x27 then shell_word True (d # s)
      else if c = CHR 0x5C then (case shell_word False s of (w, rest) \<Rightarrow> (d # w, rest))
      else ([], c # d # s))"

lemma shell_word_open: "shell_word False (CHR 0x27 # s) = shell_word True s"
  by (cases s) simp_all

lemma shell_word_quoted:
  assumes "rest = [] \<or> hd rest \<notin> {CHR 0x27, CHR 0x5C}"
  shows "shell_word True (concat (map (\<lambda>c. if c = CHR 0x27 then [CHR 0x27, CHR 0x5C, CHR 0x27, CHR 0x27] else [c]) s) @
    CHR 0x27 # rest) = (s, rest)"
proof (induction s)
  case Nil
  show ?case using assms by (cases rest; cases "tl rest") (auto simp: shell_word.simps)
next
  case (Cons c s)
  then show ?case by (cases "c = CHR 0x27") (simp_all add: shell_word_open)
qed

text \<open>A quoted text is one word to the shell, and that word is the text, whatever it contains.\<close>

lemma shellQuote_word:
  assumes "rest = [] \<or> hd rest \<notin> {CHR 0x27, CHR 0x5C}"
  shows "shell_word False (shellQuote s @ rest) = (s, rest)"
  using shell_word_quoted [OF assms, of s] by (simp add: shellQuote_def shell_word_open)

end
