(* ===== verification/Qdc507_Audio.thy ===== *)
theory Qdc507_Audio
  imports Host_Commands "HOL-Library.Sublist"
begin

text \<open>
  The voice runtime on the QDC507 module, \<^verbatim>\<open>gateway/internal/voice/qdc507/audio.go\<close>. Everything outside the adapter answers
  by the history of what was done so far: the commands given to \<^verbatim>\<open>adb\<close>, the waits, and the calls of the host's audio.
\<close>

section \<open>The surroundings\<close>

datatype device_step = Ran "string list" | Paused nat | HostProbe | HostStart string | HostStop | HostClose

type_synonym history = "device_step list"

record FileInfo =
  fi_dir :: bool
  fi_regular :: bool
  fi_symlink :: bool
  fi_perm :: "32 word"

text \<open>\<open>hw_cancelled\<close> tells whether the context has ended, \<open>hw_interrupted\<close> whether the wait just made was ended by it;
  a \<^term>\<open>Some\<close> of a command or of the host's audio is the text of its error.\<close>

record Surroundings =
  hw_run :: "history \<Rightarrow> string list \<Rightarrow> string \<times> string option"
  hw_host :: "history \<Rightarrow> device_step \<Rightarrow> string option"
  hw_cancelled :: "history \<Rightarrow> bool"
  hw_interrupted :: "history \<Rightarrow> bool"
  hw_now :: "history \<Rightarrow> int"
  hw_link :: "history \<Rightarrow> string \<Rightarrow> string option"
  hw_lstat :: "history \<Rightarrow> string \<Rightarrow> FileInfo option"
  hw_file :: "history \<Rightarrow> string \<Rightarrow> byte list option"
  hw_sha256 :: "byte list \<Rightarrow> string"

datatype audio_error =
    AudioText string
  | AudioCancelled
  | AudioBusy string
  | AudioDevice string "string option" string

record AudioConfig =
  qc_TTY :: string
  qc_RuntimeDir :: string
  qc_ADBPath :: string
  qc_Bootstrap :: bool

record Audio =
  au_cfg :: AudioConfig
  au_adb :: string
  au_call :: string
  au_prepared :: bool
  au_lastRotate :: "int option"
  au_closed :: bool

definition run_command :: "Surroundings \<Rightarrow> string list \<Rightarrow> history \<Rightarrow> (string \<times> string option) \<times> history" where
  "run_command E args h = (hw_run E h args, h @ [Ran args])"

definition host_call :: "Surroundings \<Rightarrow> device_step \<Rightarrow> history \<Rightarrow> string option \<times> history" where
  "host_call E c h = (hw_host E h c, h @ [c])"

definition pause :: "Surroundings \<Rightarrow> nat \<Rightarrow> history \<Rightarrow> bool \<times> history" where
  "pause E ms h = (hw_interrupted E (h @ [Paused ms]), h @ [Paused ms])"

section \<open>One command\<close>

definition adbServerSocket :: string where
  "adbServerSocket = ''tcp:localhost:5038''"

definition isADBServerInvocation :: "string list \<Rightarrow> bool" where
  "isADBServerInvocation args =
     (case args of [] \<Rightarrow> False
      | a # _ \<Rightarrow> a \<in> set [''devices'', ''shell'', ''push'', ''pull'', ''-t'', ''kill-server'', ''start-server'', ''wait-for-device''])"

text \<open>The processes \<^verbatim>\<open>commandRunner.Run\<close> starts for one command, in order; the last one is the command.\<close>

definition runner_processes :: "string \<Rightarrow> string list \<Rightarrow> string list list" where
  "runner_processes path args =
     (if isADBServerInvocation args
      then [[''pkill'', ''-f'', ''[a]db.*tcp:localhost:5037''], [''pkill'', ''-f'', ''[a]db.*nodaemon.*5037''],
            [path, ''start-server''], [path, ''-L'', adbServerSocket] @ args]
      else [path # args])"

definition Open :: "bool \<Rightarrow> AudioConfig \<Rightarrow> (audio_error, Audio) result" where
  "Open host cfg =
     (if \<not> host then Inl (AudioText ''QDC507 voice backend requires a host audio adapter'')
      else if trim_space (qc_TTY cfg) = [] then Inl (AudioText ''QDC507 voice backend requires the configured modem TTY'')
      else if trim_space (qc_RuntimeDir cfg) = []
      then Inl (AudioText ''QDC507 voice backend requires an external runtime directory'')
      else Inr \<lparr>au_cfg = cfg, au_adb = (let p = trim_space (qc_ADBPath cfg) in if p = [] then ''adb'' else p),
             au_call = [], au_prepared = False, au_lastRotate = None, au_closed = False\<rparr>)"

definition OpenWithRunner :: "bool \<Rightarrow> AudioConfig \<Rightarrow> bool \<Rightarrow> (audio_error, Audio) result" where
  "OpenWithRunner host cfg runner =
     (case Open host cfg of
        Inl e \<Rightarrow> Inl e
      | Inr audio \<Rightarrow>
          if \<not> runner then Inl (AudioText ''QDC507 voice backend requires an ADB command runner'') else Inr audio)"

definition adb :: "Surroundings \<Rightarrow> string \<Rightarrow> string list \<Rightarrow> history \<Rightarrow> (string \<times> string option) \<times> history" where
  "adb E transport args h = run_command E ([''-t'', transport] @ args) h"

section \<open>The transport of the module\<close>

text \<open>A line of \<^verbatim>\<open>adb devices -l\<close>: what stands behind the word \<^verbatim>\<open>device\<close>.\<close>

definition listing_step :: "string \<Rightarrow> bool \<times> string \<Rightarrow> string \<Rightarrow> bool \<times> string" where
  "listing_step usbPath st field =
     (case st of (matched, transport) \<Rightarrow>
        if has_prefix field ''usb:'' \<and> trim_prefix field ''usb:'' = usbPath then (True, transport)
        else if has_prefix field ''transport_id:'' then (matched, trim_prefix field ''transport_id:'')
        else (matched, transport))"

definition listing_line :: "string \<Rightarrow> string \<Rightarrow> string option" where
  "listing_line usbPath line =
     (case dropWhile (\<lambda>f. f \<noteq> ''device'') (Gateway_Prelude.fields line) of
        [] \<Rightarrow> None
      | _ # attributes \<Rightarrow>
          (case foldl (listing_step usbPath) (False, []) attributes of
             (matched, transport) \<Rightarrow> if matched \<and> transport \<noteq> [] then Some transport else None))"

fun select_lines :: "string \<Rightarrow> string \<Rightarrow> string list \<Rightarrow> (audio_error, string) result" where
  "select_lines usbPath result [] =
     (if result = [] then Inl (AudioText (''no ready ADB device matches USB path '' @ usbPath)) else Inr result)"
| "select_lines usbPath result (line # ls) =
     (case listing_line usbPath line of
        None \<Rightarrow> select_lines usbPath result ls
      | Some transport \<Rightarrow>
          if result \<noteq> [] then Inl (AudioText (''multiple ready ADB devices match USB path '' @ usbPath))
          else select_lines usbPath transport ls)"

definition SelectTransportID :: "string \<Rightarrow> string \<Rightarrow> (audio_error, string) result" where
  "SelectTransportID devices usbPath0 =
     (let usbPath = trim_space usbPath0
      in if usbPath = [] then Inl (AudioText ''empty QDC507 USB path'')
         else select_lines usbPath [] (split_char newline devices))"

definition usb_component :: "string \<Rightarrow> bool" where
  "usb_component c \<longleftrightarrow> str_contains c ''-'' \<and> str_contains c '':'' \<and> is_digit (hd c)"

definition usb_parent :: "string \<Rightarrow> string" where
  "usb_parent sysfsPath =
     (case find usb_component (split_char (CHR ''/'') sysfsPath) of
        None \<Rightarrow> [] | Some c \<Rightarrow> takeWhile (\<lambda>x. x \<noteq> CHR '':'') c)"

definition list_devices :: "string list" where
  "list_devices = [''devices'', ''-l'']"

text \<open>The attempts to find the module among the devices; \<open>e\<close> is the error of the last one.\<close>

primrec find_transport ::
  "Surroundings \<Rightarrow> string \<Rightarrow> nat \<Rightarrow> audio_error \<Rightarrow> history \<Rightarrow> (audio_error, string) result \<times> history" where
  "find_transport E usbPath 0 e h = (Inl e, h)"
| "find_transport E usbPath (Suc n) e h =
     (case run_command E list_devices h of
        ((devices, Some lerr), h1) \<Rightarrow>
          (Inl (AudioDevice (''list ADB devices for USB path '' @ usbPath) (Some lerr) devices), h1)
      | ((devices, None), h1) \<Rightarrow>
          (case SelectTransportID devices usbPath of
             Inr transport \<Rightarrow> (Inr transport, h1)
           | Inl e1 \<Rightarrow>
               if hw_cancelled E h1 then (Inl e1, h1)
               else (case pause E 750 h1 of
                       (True, h2) \<Rightarrow> (Inl AudioCancelled, h2)
                     | (False, h2) \<Rightarrow> find_transport E usbPath n e1 h2)))"

definition tty_usb_path :: "Surroundings \<Rightarrow> AudioConfig \<Rightarrow> history \<Rightarrow> (audio_error, string) result" where
  "tty_usb_path E cfg h =
     (case hw_link E h (qc_TTY cfg) of
        None \<Rightarrow> Inl (AudioText ''resolve QDC507 TTY'')
      | Some resolved \<Rightarrow>
          (case hw_link E h (path_below [''/sys/class/tty'', path_base resolved, ''device'']) of
             None \<Rightarrow> Inl (AudioText ''resolve QDC507 USB topology'')
           | Some sysfsPath \<Rightarrow>
               if usb_parent sysfsPath = [] then Inl (AudioText (''QDC507 USB parent not found in '' @ sysfsPath))
               else Inr (usb_parent sysfsPath)))"

definition transportID :: "Surroundings \<Rightarrow> AudioConfig \<Rightarrow> history \<Rightarrow> (audio_error, string) result \<times> history" where
  "transportID E cfg h =
     and_then (tty_usb_path E cfg h, h) (\<lambda>usbPath. find_transport E usbPath 8 (AudioText []))"

section \<open>The trusted runtime\<close>

definition remoteRuntimeDir :: string where "remoteRuntimeDir = ''/run/maccellular-call''"
definition remoteBridge :: string where "remoteBridge = remoteRuntimeDir @ ''/mavo-pcm-bridge.armv7''"
definition remoteAPRModule :: string where "remoteAPRModule = remoteRuntimeDir @ ''/qdc507_aprv3.ko''"
definition remoteVoiceModule :: string where "remoteVoiceModule = remoteRuntimeDir @ ''/qdc507_voice.ko''"
definition remoteRoutePIDFile :: string where "remoteRoutePIDFile = ''/run/celldock-voice-route.pid''"
definition remoteRouteLogFile :: string where "remoteRouteLogFile = ''/run/celldock-voice-route.log''"
definition expectedKernel :: string where "expectedKernel = ''3.18.44''"
definition expectedCardName :: string where "expectedCardName = ''mdm9607-tomtom-i2s-snd-card''"

record runtimeArtifact =
  ra_name :: string
  ra_mode :: string
  ra_hash :: string

definition trustedRuntimeArtifacts :: "runtimeArtifact list" where
  "trustedRuntimeArtifacts =
     [\<lparr>ra_name = ''mavo-pcm-bridge.armv7'', ra_mode = ''755'',
        ra_hash = ''88d47c15e61d1428a59c821fed804c2e6490e82859a085062f21966b58d167fc''\<rparr>,
      \<lparr>ra_name = ''qdc507_aprv3.ko'', ra_mode = ''644'',
        ra_hash = ''3d82d3dec4f1e323201bba87156df9d41438e08314097353f2607f9117211d4a''\<rparr>,
      \<lparr>ra_name = ''qdc507_voice.ko'', ra_mode = ''644'',
        ra_hash = ''ed3821682d5309969a01c764192c83feff9669c61ef237c69475cd1619cf296c''\<rparr>]"

definition writable_by_others :: "FileInfo \<Rightarrow> bool" where
  "writable_by_others info \<longleftrightarrow> fi_perm info AND 0x12 \<noteq> 0"

definition verify_artifact :: "Surroundings \<Rightarrow> history \<Rightarrow> string \<Rightarrow> runtimeArtifact \<Rightarrow> string option" where
  "verify_artifact E h directory a =
     (let path = path_below [directory, ra_name a]
      in case hw_lstat E h path of
           None \<Rightarrow> Some (''QDC507 runtime artifact '' @ ra_name a @ '' is unavailable'')
         | Some info \<Rightarrow>
             if \<not> fi_regular info \<or> fi_symlink info \<or> writable_by_others info
             then Some (''QDC507 runtime artifact '' @ ra_name a @ '' is not a private regular file'')
             else (case hw_file E h path of
                     None \<Rightarrow> Some (''read QDC507 runtime artifact '' @ ra_name a)
                   | Some content \<Rightarrow>
                       if hw_sha256 E content \<noteq> ra_hash a
                       then Some (''QDC507 runtime artifact '' @ ra_name a @ '' failed fixed SHA-256 verification'')
                       else None))"

fun verify_artifacts :: "Surroundings \<Rightarrow> history \<Rightarrow> string \<Rightarrow> runtimeArtifact list \<Rightarrow> string option" where
  "verify_artifacts E h directory [] = None"
| "verify_artifacts E h directory (a # as) =
     (case verify_artifact E h directory a of Some e \<Rightarrow> Some e | None \<Rightarrow> verify_artifacts E h directory as)"

definition verifyRuntimeDirectory :: "Surroundings \<Rightarrow> string \<Rightarrow> history \<Rightarrow> string option" where
  "verifyRuntimeDirectory E directory0 h =
     (let directory = path_clean (trim_space directory0)
      in if directory = ''.'' \<or> directory = [] \<or> \<not> path_absolute directory
         then Some ''QDC507 runtime directory must be an absolute path''
         else (case hw_lstat E h directory of
                 None \<Rightarrow> Some ''QDC507 runtime directory is unavailable''
               | Some info \<Rightarrow>
                   if \<not> fi_dir info \<or> fi_symlink info \<or> writable_by_others info
                   then Some ''QDC507 runtime directory must be a private real directory''
                   else verify_artifacts E h directory trustedRuntimeArtifacts))"

definition runtime_verified :: "Surroundings \<Rightarrow> AudioConfig \<Rightarrow> history \<Rightarrow> (audio_error, unit) result \<times> history" where
  "runtime_verified E cfg h =
     (case verifyRuntimeDirectory E (qc_RuntimeDir cfg) h of Some e \<Rightarrow> (Inl (AudioText e), h) | None \<Rightarrow> (Inr (), h))"

section \<open>Steps on the module\<close>

text \<open>A command that must not fail, and one that must also print a fixed word.\<close>

definition adb_do ::
  "Surroundings \<Rightarrow> string \<Rightarrow> string \<Rightarrow> string list \<Rightarrow> history \<Rightarrow> (audio_error, string) result \<times> history" where
  "adb_do E transport what args h =
     (case adb E transport args h of
        ((_, Some e), h1) \<Rightarrow> (Inl (AudioDevice what (Some e) []), h1)
      | ((out, None), h1) \<Rightarrow> (Inr out, h1))"

definition adb_expect ::
  "Surroundings \<Rightarrow> string \<Rightarrow> string \<Rightarrow> (string \<Rightarrow> bool) \<Rightarrow> string \<Rightarrow> history \<Rightarrow> (audio_error, unit) result \<times> history" where
  "adb_expect E transport what good command h =
     (case adb E transport [''shell'', command] h of
        ((out, e), h1) \<Rightarrow>
          if e \<noteq> None \<or> \<not> good out then (Inl (AudioDevice what e out), h1) else (Inr (), h1))"

definition prints :: "string \<Rightarrow> string \<Rightarrow> bool" where
  "prints word out \<longleftrightarrow> trim_space out = word"

definition verifyTarget :: "Surroundings \<Rightarrow> string \<Rightarrow> history \<Rightarrow> (audio_error, unit) result \<times> history" where
  "verifyTarget E transport h =
     and_then (adb_expect E transport ''QDC507 ADB root unavailable'' (prints ''0'') ''id -u'' h)
       (\<lambda>_. adb_expect E transport (''QDC507 kernel mismatch: want '' @ expectedKernel) (prints expectedKernel) ''uname -r'')"

fun push_artifacts ::
  "Surroundings \<Rightarrow> AudioConfig \<Rightarrow> string \<Rightarrow> runtimeArtifact list \<Rightarrow> history \<Rightarrow> (audio_error, unit) result \<times> history" where
  "push_artifacts E cfg transport [] h = (Inr (), h)"
| "push_artifacts E cfg transport (a # as) h =
     and_then (adb_do E transport (''push QDC507 runtime '' @ ra_name a)
         [''push'', path_below [qc_RuntimeDir cfg, ra_name a], remoteRuntimeDir @ ''/'' @ ra_name a] h) (\<lambda>_ h1.
     and_then (adb_do E transport (''protect QDC507 runtime '' @ ra_name a)
         [''shell'', ''chmod '' @ ra_mode a @ '' '' @ remoteRuntimeDir @ ''/'' @ ra_name a] h1) (\<lambda>_ h2.
     push_artifacts E cfg transport as h2))"

definition pcm_ready :: string where
  "pcm_ready = ''test -e /dev/snd/pcmC0D4p && test -e /dev/snd/pcmC0D4c && test -e /dev/snd/pcmC0D5p && '' @
     ''test -e /dev/snd/pcmC0D6c && echo ready''"

text \<open>The attempts to see the PCM devices; \<open>prev\<close> is the answer to the one before.\<close>

primrec await_pcm ::
  "Surroundings \<Rightarrow> string \<Rightarrow> nat \<Rightarrow> string \<times> string option \<Rightarrow> history \<Rightarrow> (audio_error, unit) result \<times> history" where
  "await_pcm E transport 0 prev h =
     (Inl (AudioDevice ''QDC507 VoLTE PCM devices unavailable'' (snd prev) (fst prev)), h)"
| "await_pcm E transport (Suc n) prev h =
     (case adb E transport [''shell'', pcm_ready] h of
        ((out, e), h1) \<Rightarrow>
          if e = None \<and> prints ''ready'' out then (Inr (), h1)
          else (case pause E 1000 h1 of
                  (True, h2) \<Rightarrow> (Inl AudioCancelled, h2)
                | (False, h2) \<Rightarrow> await_pcm E transport n (out, e) h2))"

definition calibration_script :: string where
  \<open>calibration_script = script (
    ''owned=0; if test -s /run/celldock-alsaucm.pid; then read pid expected_start < /run/celldock-alsaucm.pid || '' @
    ''true; current_start=$(cut -d ~ ~ -f 22 /proc/$pid/stat 2>/dev/null); argv0=$(tr ~@000~ ~@n~ < '' @
    ''/proc/$pid/cmdline 2>/dev/null | sed -n ~1p~); test "$current_start" = "$expected_start" && test "$argv0" = '' @
    ''/usr/bin/alsaucm_test && owned=1 || true; fi; if test "$owned" -eq 0; then rm -f /run/alsaucm_test '' @
    ''/run/celldock-alsaucm.pid /run/celldock-alsaucm.log; nohup /usr/bin/alsaucm_test </dev/null >> '' @
    ''/run/celldock-alsaucm.log 2>&1 & pid=$!; starttime=$(cut -d ~ ~ -f 22 /proc/$pid/stat 2>/dev/null); printf ~%s '' @
    ''%s@n~ "$pid" "$starttime" > /run/celldock-alsaucm.pid; n=0; while test "$n" -lt 50 && test ! -p '' @
    ''/run/alsaucm_test; do kill -0 "$pid" 2>/dev/null || exit 72; sleep 0.1; n=$((n+1)); done; test -p '' @
    ''/run/alsaucm_test || exit 73; fi; if ! grep -q ~ACDB -> Sent VocProc Cal!~ /run/celldock-alsaucm.log '' @
    ''2>/dev/null; then printf ~open snd_soc_msm_9x07_Tomtom_I2S@n~ > /run/alsaucm_test; printf ~set _verb VoLTE@n~ '' @
    ''> /run/alsaucm_test; printf ~set _enadev Auxpcm Rx@n~ > /run/alsaucm_test; printf ~set _enadev Auxpcm Tx@n~ > '' @
    ''/run/alsaucm_test; n=0; while test "$n" -lt 100; do grep -q ~ACDB -> Sent VocProc Cal!~ '' @
    ''/run/celldock-alsaucm.log 2>/dev/null && break; sleep 0.1; n=$((n+1)); done; fi; grep -q ~ACDB -> Sent VocProc '' @
    ''Cal!~ /run/celldock-alsaucm.log'')\<close>

definition ensureCalibration :: "Surroundings \<Rightarrow> string \<Rightarrow> history \<Rightarrow> (audio_error, unit) result \<times> history" where
  "ensureCalibration E transport h =
     adb_expect E transport ''QDC507 VoLTE calibration unavailable'' (\<lambda>_. True) calibration_script h"

definition writeModuleScript ::
  "Surroundings \<Rightarrow> AudioConfig \<Rightarrow> string \<Rightarrow> string \<Rightarrow> history \<Rightarrow> (audio_error, unit) result \<times> history" where
  "writeModuleScript E cfg path content h =
     and_then (transportID E cfg h) (\<lambda>transport h1.
     and_then (adb_do E transport ''stage QDC507 route launcher''
         [''shell'', ''echo '' @ base64_encode (string_bytes content) @ '' | base64 -d > '' @ path] h1) (\<lambda>_ h2.
     (Inr (), snd (adb E transport [''shell'', ''chmod 700 '' @ path] h2))))"

section \<open>The route of the voice\<close>

definition stop_script :: string where
  \<open>stop_script = script (
    ''if test -s '' @ remoteRoutePIDFile @ ''; then read pid expected_start < '' @ remoteRoutePIDFile @ '' || exit 70; '' @
    ''current_start=$(cut -d ~ ~ -f 22 /proc/$pid/stat 2>/dev/null); argv0=$(tr ~@000~ ~@n~ < /proc/$pid/cmdline '' @
    ''2>/dev/null | sed -n ~1p~); arg1=$(tr ~@000~ ~@n~ < /proc/$pid/cmdline 2>/dev/null | sed -n ~2p~); '' @
    ''if test "$current_start" = "$expected_start" && test "$argv0" = "'' @ remoteBridge @
    ''" && test "$arg1" = --voice-route-session; then kill -TERM $pid 2>/dev/null || true; n=0; '' @
    ''while kill -0 $pid 2>/dev/null && test $n -lt 50; do sleep 0.1; n=$((n+1)); done; '' @
    ''kill -0 $pid 2>/dev/null && exit 71 || true; fi; fi; rm -f '' @ remoteRoutePIDFile)\<close>

definition routeAliveScript :: string where
  \<open>routeAliveScript = script (
    ''ps | grep -q mavo-pcm-bridge && test "$(cat /sys/class/android_usb/f_audio/audio_enable 2>/dev/null)" = 1 && '' @
    ''grep -q ~^state: RUNNING~ /proc/asound/card0/pcm4p/sub0/status && '' @
    ''grep -q ~^state: RUNNING~ /proc/asound/card0/pcm4c/sub0/status && echo alive'')\<close>

definition routeReadyScript :: string where
  \<open>routeReadyScript = script (
    ''test -s '' @ remoteRoutePIDFile @ '' && read pid expected_start < '' @ remoteRoutePIDFile @
    '' && test "$(cut -d ~ ~ -f 22 /proc/$pid/stat 2>/dev/null)" = "$expected_start" && '' @
    ''test "$(tr ~@000~ ~@n~ < /proc/$pid/cmdline 2>/dev/null | sed -n ~1p~)" = "'' @ remoteBridge @
    ''" && tr ~@000~ ~@n~ < /proc/$pid/cmdline 2>/dev/null | grep -q ~^--voice-route-session$~ && '' @
    ''grep -q ~VoLTE route session active on hw:0,4~ '' @ remoteRouteLogFile @
    '' && test "$(cat /sys/class/android_usb/f_audio/audio_enable 2>/dev/null)" = 1 && '' @
    ''grep -q ~^state: RUNNING~ /proc/asound/card0/pcm4p/sub0/status && '' @
    ''grep -q ~^state: RUNNING~ /proc/asound/card0/pcm4c/sub0/status && echo ready'')\<close>

definition launcher_script :: string where
  \<open>launcher_script =
    ''#!/system/bin/sh'' @ [newline] @
    ''rm -f '' @ remoteRoutePIDFile @ '' '' @ remoteRouteLogFile @ [newline] @
    ''nohup '' @ remoteBridge @ '' --voice-route-session --verbose </dev/null >> '' @ remoteRouteLogFile @ '' 2>&1 &'' @ [newline] @
    ''pid=$!'' @ [newline] @
    script ''starttime=$(cut -d ~ ~ -f 22 /proc/$pid/stat 2>/dev/null)'' @ [newline] @
    script ''printf ~%s %s@n~ "$pid" "$starttime" > '' @ remoteRoutePIDFile @ [newline]\<close>

definition launcher_path :: string where
  "launcher_path = ''/data/celldock-route-launch.sh''"

definition launch_route :: string where
  "launch_route = ''sh '' @ launcher_path"

definition routeAlive :: "Surroundings \<Rightarrow> AudioConfig \<Rightarrow> history \<Rightarrow> (audio_error, bool) result \<times> history" where
  "routeAlive E cfg h =
     and_then (transportID E cfg h) (\<lambda>transport h1.
     and_then (adb_do E transport [] [''shell'', routeAliveScript] h1) (\<lambda>out h2. (Inr (prints ''alive'' out), h2)))"

definition stopRemoteRoute :: "Surroundings \<Rightarrow> AudioConfig \<Rightarrow> history \<Rightarrow> (audio_error, unit) result \<times> history" where
  "stopRemoteRoute E cfg h =
     and_then (transportID E cfg h) (\<lambda>transport.
       adb_expect E transport ''stop QDC507 D4/UAC route'' (\<lambda>_. True) stop_script)"

primrec kill_sessions :: "Surroundings \<Rightarrow> AudioConfig \<Rightarrow> string \<Rightarrow> nat \<Rightarrow> history \<Rightarrow> history" where
  "kill_sessions E cfg transport 0 h = h"
| "kill_sessions E cfg transport (Suc n) h =
     (let h1 = snd (adb E transport [''shell'', ''killall -9 mavo-pcm-bridge.armv7 2>/dev/null; sleep 0.5''] h);
          h2 = snd (stopRemoteRoute E cfg h1)
      in case adb E transport [''shell'', ''pgrep -f [m]avo-pcm-bridge.armv7 | wc -l''] h2 of
           ((out, e), h3) \<Rightarrow> if e = None \<and> prints ''0'' out then h3 else kill_sessions E cfg transport n h3)"

text \<open>The attempts to see the route running; the answer is the time at which it was seen.\<close>

primrec await_route :: "Surroundings \<Rightarrow> string \<Rightarrow> nat \<Rightarrow> history \<Rightarrow> (audio_error, int) result \<times> history" where
  "await_route E transport 0 h =
     (case adb E transport [''shell'', ''tail -n 40 '' @ remoteRouteLogFile @ '' 2>/dev/null''] h of
        ((log, _), h1) \<Rightarrow> (Inl (AudioText (''QDC507 D4/UAC route did not enter RUNNING: '' @ log)), h1))"
| "await_route E transport (Suc n) h =
     (if hw_cancelled E h then (Inl AudioCancelled, h)
      else (case adb E transport [''shell'', routeReadyScript] h of
              ((out, _), h1) \<Rightarrow>
                if prints ''ready'' out then (Inr (hw_now E h1), h1)
                else await_route E transport n (h1 @ [Paused 150])))"

definition startRemoteRoute :: "Surroundings \<Rightarrow> AudioConfig \<Rightarrow> history \<Rightarrow> (audio_error, int) result \<times> history" where
  "startRemoteRoute E cfg h =
     and_then (transportID E cfg h) (\<lambda>transport h1.
     let h2 = snd (stopRemoteRoute E cfg (kill_sessions E cfg transport 3 h1))
     in and_then (writeModuleScript E cfg launcher_path launcher_script h2) (\<lambda>_ h3.
        and_then (adb_do E transport ''start QDC507 D4/UAC route'' [''shell'', launch_route] h3) (\<lambda>_ h4.
        await_route E transport 40 h4)))"

section \<open>The adapter\<close>

definition prepareRuntime :: "Surroundings \<Rightarrow> AudioConfig \<Rightarrow> history \<Rightarrow> (audio_error, unit) result \<times> history" where
  "prepareRuntime E cfg h =
     and_then (runtime_verified E cfg h) (\<lambda>_ h1.
     and_then (transportID E cfg h1) (\<lambda>transport h2.
     and_then (verifyTarget E transport h2) (\<lambda>_ h3.
     and_then (adb_do E transport ''create QDC507 runtime directory'' [''shell'', ''mkdir -p '' @ remoteRuntimeDir] h3) (\<lambda>_ h4.
     and_then (push_artifacts E cfg transport trustedRuntimeArtifacts h4) (\<lambda>_ h5.
     and_then (adb_do E transport ''load QDC507 APR module''
         [''shell'', ''test -d /sys/module/qdc507_aprv3 || insmod '' @ remoteAPRModule] h5) (\<lambda>_ h6.
     and_then (adb_do E transport ''load QDC507 voice module''
         [''shell'', ''test -d /sys/module/qdc507_voice || insmod '' @ remoteVoiceModule] h6) (\<lambda>_ h7.
     and_then (await_pcm E transport 5 ([], None) h7) (\<lambda>_ h8.
     and_then (adb_expect E transport ''QDC507 ALSA card is unavailable'' (\<lambda>card. str_contains card expectedCardName)
         ''cat /proc/asound/cards'' h8) (\<lambda>_ h9.
     and_then (ensureCalibration E transport h9) (\<lambda>_.
     adb_expect E transport ''QDC507 voice endpoints unavailable'' (prints ''ready'')
       ''test -c /dev/ttyGS0 && test -p /run/voc_svr && echo ready''))))))))))"

text \<open>The route is started anew; a success is remembered with its time.\<close>

definition rotate ::
  "Surroundings \<Rightarrow> Audio \<Rightarrow> history \<Rightarrow> (audio_error, unit) result \<times> Audio \<times> history" where
  "rotate E a h =
     (case startRemoteRoute E (au_cfg a) h of
        (Inl e, h1) \<Rightarrow> (Inl e, a, h1)
      | (Inr now, h1) \<Rightarrow> (Inr (), a\<lparr>au_lastRotate := Some now\<rparr>, h1))"

definition recent :: "int \<Rightarrow> Audio \<Rightarrow> bool" where
  "recent now a = (case au_lastRotate a of None \<Rightarrow> False | Some t \<Rightarrow> now - t < 30000)"

definition ensureRuntime ::
  "Surroundings \<Rightarrow> Audio \<Rightarrow> history \<Rightarrow> (audio_error, unit) result \<times> Audio \<times> history" where
  "ensureRuntime E a h =
     (if \<not> qc_Bootstrap (au_cfg a) then (Inl (AudioText ''QDC507 voice bootstrap is disabled''), a, h)
      else if au_prepared a
      then (if recent (hw_now E h) a then (Inr (), a, h) else rotate E (a\<lparr>au_prepared := False\<rparr>) h)
      else (case prepareRuntime E (au_cfg a) h of
              (Inl e, h1) \<Rightarrow> (Inl e, a, h1)
            | (Inr _, h1) \<Rightarrow> rotate E (a\<lparr>au_prepared := True\<rparr>) h1))"

definition PrepareRoute ::
  "Surroundings \<Rightarrow> Audio \<Rightarrow> history \<Rightarrow> (audio_error, unit) result \<times> Audio \<times> history" where
  "PrepareRoute E a h = ensureRuntime E a h"

definition audio_Start ::
  "Surroundings \<Rightarrow> string \<Rightarrow> Audio \<Rightarrow> history \<Rightarrow> (audio_error, unit) result \<times> Audio \<times> history" where
  "audio_Start E callID a h =
     (if hw_cancelled E h then (Inl AudioCancelled, a, h)
      else if au_call a \<noteq> [] \<and> au_call a \<noteq> callID then (Inl (AudioBusy (au_call a)), a, h)
      else (case ensureRuntime E a h of
              (Inl e, a1, h1) \<Rightarrow> (Inl e, a1, h1)
            | (Inr _, a1, h1) \<Rightarrow>
                (case host_call E (HostStart callID) h1 of
                   (Some e, h2) \<Rightarrow> (Inl (AudioText e), a1\<lparr>au_call := callID\<rparr>, h2)
                 | (None, h2) \<Rightarrow> (Inr (), a1\<lparr>au_call := callID\<rparr>, h2))))"

definition audio_Stop :: "Surroundings \<Rightarrow> Audio \<Rightarrow> history \<Rightarrow> string option \<times> Audio \<times> history" where
  "audio_Stop E a h =
     (let a1 = a\<lparr>au_call := []\<rparr>
      in if au_call a = [] then (None, a1, h)
         else (case host_call E HostStop h of (e, h1) \<Rightarrow> (e, a1, h1)))"

definition audio_Close :: "Surroundings \<Rightarrow> Audio \<Rightarrow> history \<Rightarrow> string option \<times> Audio \<times> history" where
  "audio_Close E a h =
     (if au_closed a then (None, a, h)
      else (case audio_Stop E a h of
              (e, a1, h1) \<Rightarrow>
                (case host_call E HostClose h1 of
                   (ce, h2) \<Rightarrow> ((if e = None then ce else e), a1\<lparr>au_closed := True\<rparr>, h2))))"

definition audio_Probe :: "Surroundings \<Rightarrow> Audio \<Rightarrow> history \<Rightarrow> (audio_error, unit) result \<times> history" where
  "audio_Probe E a h =
     (if hw_cancelled E h then (Inl AudioCancelled, h)
      else (case host_call E HostProbe h of
              (Some e, h1) \<Rightarrow> (Inl (AudioText (''probe host UAC audio: '' @ e)), h1)
            | (None, h1) \<Rightarrow>
                if \<not> qc_Bootstrap (au_cfg a)
                then (Inl (AudioText (''QDC507 voice bootstrap is disabled; complete controlled module validation '' @
                       ''before enabling it'')), h1)
                else and_then (runtime_verified E (au_cfg a) h1) (\<lambda>_ h2.
                     and_then (transportID E (au_cfg a) h2) (\<lambda>transport. verifyTarget E transport))))"

section \<open>The one module among the devices\<close>

lemma select_lines_Inr:
  "select_lines usbPath result ls = Inr t \<longleftrightarrow>
     (if result = [] then List.map_filter (listing_line usbPath) ls = [t]
      else result = t \<and> List.map_filter (listing_line usbPath) ls = [])"
proof (induction ls arbitrary: result)
  case (Cons line ls)
  have "transport \<noteq> []" if "listing_line usbPath line = Some transport" for transport
    using that by (auto simp: listing_line_def split: list.splits prod.splits if_splits)
  with Cons show ?case by (auto simp: map_filter_simps split: option.splits)
qed (auto simp: map_filter_simps)

text \<open>A transport is selected exactly when one line of the listing, and no other, is a ready device at the given USB
  path with a transport of its own: with none or several the module is not addressed at all.\<close>

theorem SelectTransportID_unique:
  "SelectTransportID devices usbPath = Inr t \<longleftrightarrow>
     trim_space usbPath \<noteq> [] \<and> List.map_filter (listing_line (trim_space usbPath)) (split_char newline devices) = [t]"
  by (simp add: SelectTransportID_def select_lines_Inr Let_def)

section \<open>What is done to the module\<close>

text \<open>\<open>adds P h h'\<close>: \<open>h'\<close> continues \<open>h\<close> by steps each of which is allowed by \<open>P\<close> after what was done before it.\<close>

inductive adds :: "(history \<Rightarrow> device_step \<Rightarrow> bool) \<Rightarrow> history \<Rightarrow> history \<Rightarrow> bool"
  for P :: "history \<Rightarrow> device_step \<Rightarrow> bool" where
  adds_none: "adds P h h"
| adds_step: "adds P h h1 \<Longrightarrow> P h1 c \<Longrightarrow> adds P h (h1 @ [c])"

lemma adds_trans [trans]: "adds P h h1 \<Longrightarrow> adds P h1 h2 \<Longrightarrow> adds P h h2"
  by (rotate_tac 1, induction rule: adds.induct) (auto intro: adds.intros)

lemma adds_one: "P h c \<Longrightarrow> adds P h (h @ [c])"
  using adds_step [OF adds_none] .

lemma adds_prefix: "adds P h h' \<Longrightarrow> prefix h h'"
  by (induction rule: adds.induct) auto

text \<open>The transport \<open>t\<close> was the answer of an earlier listing for the USB device that owns the configured modem port.\<close>

definition selected :: "Surroundings \<Rightarrow> AudioConfig \<Rightarrow> history \<Rightarrow> string \<Rightarrow> bool" where
  "selected E cfg h t \<longleftrightarrow>
     (\<exists>h0 h1 usbPath. prefix h0 h1 \<and> prefix (h1 @ [Ran list_devices]) h \<and> tty_usb_path E cfg h0 = Inr usbPath \<and>
        SelectTransportID (fst (hw_run E h1 list_devices)) usbPath = Inr t)"

text \<open>The runtime directory has passed its verification earlier.\<close>

definition verified_before :: "Surroundings \<Rightarrow> AudioConfig \<Rightarrow> history \<Rightarrow> bool" where
  "verified_before E cfg h \<longleftrightarrow> (\<exists>h0. prefix h0 h \<and> verifyRuntimeDirectory E (qc_RuntimeDir cfg) h0 = None)"

definition permitted :: "Surroundings \<Rightarrow> AudioConfig \<Rightarrow> history \<Rightarrow> device_step \<Rightarrow> bool" where
  "permitted E cfg h c \<longleftrightarrow>
     (\<forall>args. c = Ran args \<longrightarrow> args = list_devices \<or>
        (\<exists>t verb rest. args = [''-t'', t, verb] @ rest \<and> selected E cfg h t \<and>
           (verb = ''shell'' \<or>
            verb = ''push'' \<and> verified_before E cfg h \<and>
              (\<exists>a \<in> set trustedRuntimeArtifacts.
                 rest = [path_below [qc_RuntimeDir cfg, ra_name a], remoteRuntimeDir @ ''/'' @ ra_name a]))))"

abbreviation safely :: "Surroundings \<Rightarrow> AudioConfig \<Rightarrow> history \<Rightarrow> history \<Rightarrow> bool" where
  "safely E cfg \<equiv> adds (permitted E cfg)"

lemma selected_later: "selected E cfg h t \<Longrightarrow> prefix h h' \<Longrightarrow> selected E cfg h' t"
  unfolding selected_def by (meson prefix_order.trans)

lemma verified_later: "verified_before E cfg h \<Longrightarrow> prefix h h' \<Longrightarrow> verified_before E cfg h'"
  unfolding verified_before_def by (meson prefix_order.trans)

lemma safely_list: "safely E cfg h (h @ [Ran list_devices])"
  by (rule adds_one) (simp add: permitted_def)

lemma safely_pause: "safely E cfg h (h @ [Paused ms])"
  by (rule adds_one) (simp add: permitted_def)

lemma safely_shell: "selected E cfg h t \<Longrightarrow> safely E cfg h (h @ [Ran [''-t'', t, ''shell'', command]])"
  by (rule adds_one) (simp add: permitted_def)

lemma find_transport_safely:
  assumes "tty_usb_path E cfg h0 = Inr usbPath" and "prefix h0 h"
  shows "safely E cfg h (snd (find_transport E usbPath n e h)) \<and>
     (\<forall>t. fst (find_transport E usbPath n e h) = Inr t \<longrightarrow> selected E cfg (snd (find_transport E usbPath n e h)) t)"
  using assms(2)
proof (induction n arbitrary: e h)
  case 0
  show ?case by (simp add: adds_none)
next
  case (Suc n)
  let ?h1 = "h @ [Ran list_devices]"
  let ?h2 = "?h1 @ [Paused 750]"
  obtain devices lerr where run: "hw_run E h list_devices = (devices, lerr)" by (cases "hw_run E h list_devices")
  have one: "safely E cfg h ?h1" by (rule safely_list)
  have two: "safely E cfg h ?h2" using adds_trans [OF one safely_pause] .
  have found: "selected E cfg ?h1 t" if "SelectTransportID devices usbPath = Inr t" for t
    unfolding selected_def using assms(1) Suc.prems run that by (metis fst_conv prefix_order.refl)
  have rest: "safely E cfg h (snd (find_transport E usbPath n e1 ?h2)) \<and>
     (\<forall>t. fst (find_transport E usbPath n e1 ?h2) = Inr t \<longrightarrow> selected E cfg (snd (find_transport E usbPath n e1 ?h2)) t)" for e1
    using Suc.IH [of ?h2 e1] adds_trans [OF two] Suc.prems by simp
  show ?case
    using one two found rest
    by (auto simp: run_command_def pause_def run split: option.split sum.split bool.split)
qed

lemma transportID_safely:
  "safely E cfg h (snd (transportID E cfg h))"
  "fst (transportID E cfg h) = Inr t \<Longrightarrow> selected E cfg (snd (transportID E cfg h)) t"
  using find_transport_safely [of E cfg h _ h 8 "AudioText []"]
  by (cases "tty_usb_path E cfg h"; simp add: transportID_def adds_none)+

text \<open>An operation on the selected transport that does only what is permitted; \<open>v\<close>: it may push, which takes a verified
  runtime directory.\<close>

definition module_op :: "Surroundings \<Rightarrow> AudioConfig \<Rightarrow> bool \<Rightarrow> string \<Rightarrow> (history \<Rightarrow> 'a \<times> history) \<Rightarrow> bool" where
  "module_op E cfg v t f \<longleftrightarrow>
     (\<forall>h. selected E cfg h t \<and> (v \<longrightarrow> verified_before E cfg h) \<longrightarrow> safely E cfg h (snd (f h)))"

lemma module_opD:
  "module_op E cfg v t f \<Longrightarrow> selected E cfg h t \<Longrightarrow> (v \<longrightarrow> verified_before E cfg h) \<Longrightarrow> safely E cfg h (snd (f h))"
  by (simp add: module_op_def)

lemma module_op_then:
  assumes "module_op E cfg v t f" and "\<And>a. module_op E cfg v t (g a)"
  shows "module_op E cfg v t (\<lambda>h. and_then (f h) g)"
  unfolding module_op_def
proof (intro allI impI, elim conjE)
  fix h assume h: "selected E cfg h t" "v \<longrightarrow> verified_before E cfg h"
  have f: "safely E cfg h (snd (f h))" using module_opD [OF assms(1) h] .
  have g: "safely E cfg (snd (f h)) (snd (g a (snd (f h))))" for a
    using module_opD [OF assms(2), of "snd (f h)"] h selected_later verified_later adds_prefix [OF f] by blast
  show "safely E cfg h (snd (and_then (f h) g))"
    using f adds_trans [OF f g] by (cases "f h"; cases "fst (f h)") auto
qed

lemma module_op_weaken: "module_op E cfg False t f \<Longrightarrow> module_op E cfg v t f"
  by (simp add: module_op_def)

lemma module_op_shell: "module_op E cfg v t (adb E t [''shell'', command])"
  by (simp add: module_op_def adb_def run_command_def safely_shell)

lemma module_op_do: "module_op E cfg v t (adb_do E t what [''shell'', command])"
  using module_op_shell [of E cfg v t command]
  by (auto simp: module_op_def adb_do_def split: prod.splits option.splits)

lemma module_op_expect: "module_op E cfg v t (adb_expect E t what good command)"
  using module_op_shell [of E cfg v t command]
  by (auto simp: module_op_def adb_expect_def split: prod.splits)

lemma module_op_push:
  assumes "a \<in> set trustedRuntimeArtifacts"
  shows "module_op E cfg True t (adb_do E t what
    [''push'', path_below [qc_RuntimeDir cfg, ra_name a], remoteRuntimeDir @ ''/'' @ ra_name a])"
  using assms
  by (auto simp: module_op_def adb_do_def adb_def run_command_def permitted_def intro!: adds_one split: prod.splits option.splits)

lemma module_op_artifacts:
  "set as \<subseteq> set trustedRuntimeArtifacts \<Longrightarrow> module_op E cfg True t (push_artifacts E cfg t as)"
proof (induction as)
  case (Cons a as)
  then have "module_op E cfg True t (\<lambda>h. push_artifacts E cfg t (a # as) h)"
    unfolding push_artifacts.simps by (intro module_op_then module_op_push module_op_do) auto
  then show ?case by simp
qed (simp add: module_op_def adds_none)

lemma module_op_await_pcm: "module_op E cfg v t (await_pcm E t n prev)"
proof (induction n arbitrary: prev)
  case (Suc n)
  show ?case
    unfolding module_op_def
  proof (intro allI impI, elim conjE)
    fix h assume h: "selected E cfg h t" "v \<longrightarrow> verified_before E cfg h"
    let ?h1 = "h @ [Ran [''-t'', t, ''shell'', pcm_ready]]"
    let ?h2 = "?h1 @ [Paused 1000]"
    have one: "safely E cfg h ?h1" using safely_shell [OF h(1)] .
    have two: "safely E cfg h ?h2" using adds_trans [OF one safely_pause] .
    have rest: "safely E cfg h (snd (await_pcm E t n prev ?h2))" for prev
      using adds_trans [OF two module_opD [OF Suc.IH]] selected_later verified_later adds_prefix [OF two] h by blast
    show "safely E cfg h (snd (await_pcm E t (Suc n) prev h))"
      using one two rest by (auto simp: adb_def run_command_def pause_def split: prod.split bool.split)
  qed
qed (simp add: module_op_def adds_none)

lemma module_op_await_route: "module_op E cfg v t (await_route E t n)"
proof (induction n)
  case 0
  show ?case by (simp add: module_op_def adb_def run_command_def safely_shell split: prod.split)
next
  case (Suc n)
  show ?case
    unfolding module_op_def
  proof (intro allI impI, elim conjE)
    fix h assume h: "selected E cfg h t" "v \<longrightarrow> verified_before E cfg h"
    let ?h1 = "h @ [Ran [''-t'', t, ''shell'', routeReadyScript]]"
    let ?h2 = "?h1 @ [Paused 150]"
    have one: "safely E cfg h ?h1" using safely_shell [OF h(1)] .
    have two: "safely E cfg h ?h2" using adds_trans [OF one safely_pause] .
    have rest: "safely E cfg h (snd (await_route E t n ?h2))"
      using adds_trans [OF two module_opD [OF Suc.IH]] selected_later verified_later adds_prefix [OF two] h by blast
    show "safely E cfg h (snd (await_route E t (Suc n) h))"
      using one rest by (auto simp: adb_def run_command_def adds_none split: prod.split)
  qed
qed

text \<open>An operation that selects the transport itself.\<close>

lemma transport_then_safely:
  assumes "\<And>t. module_op E cfg v t (g t)" and "v \<longrightarrow> verified_before E cfg h"
  shows "safely E cfg h (snd (and_then (transportID E cfg h) g))"
proof -
  have f: "safely E cfg h (snd (transportID E cfg h))" by (rule transportID_safely)
  have "safely E cfg (snd (transportID E cfg h)) (snd (g t (snd (transportID E cfg h))))"
    if "fst (transportID E cfg h) = Inr t" for t
    using module_opD [OF assms(1) transportID_safely(2) [OF that]] assms(2) verified_later adds_prefix [OF f] by blast
  then show ?thesis
    using f adds_trans [OF f] by (cases "transportID E cfg h"; cases "fst (transportID E cfg h)") auto
qed

lemma stopRemoteRoute_safely: "safely E cfg h (snd (stopRemoteRoute E cfg h))"
  unfolding stopRemoteRoute_def by (rule transport_then_safely [where v = False]) (simp_all add: module_op_expect)

lemma writeModuleScript_safely: "safely E cfg h (snd (writeModuleScript E cfg path content h))"
  unfolding writeModuleScript_def
proof (rule transport_then_safely [where v = False])
  fix t
  have "module_op E cfg False t (\<lambda>h2. (Inr () :: (audio_error, unit) result, snd (adb E t [''shell'', ''chmod 700 '' @ path] h2)))"
    using module_op_shell [of E cfg False t "''chmod 700 '' @ path"] by (simp add: module_op_def)
  then show "module_op E cfg False t (\<lambda>h1. and_then (adb_do E t ''stage QDC507 route launcher''
      [''shell'', ''echo '' @ base64_encode (string_bytes content) @ '' | base64 -d > '' @ path] h1)
      (\<lambda>_ h2. (Inr (), snd (adb E t [''shell'', ''chmod 700 '' @ path] h2))))"
    by (intro module_op_then module_op_do)
qed simp

lemma kill_sessions_safely: "selected E cfg h t \<Longrightarrow> safely E cfg h (kill_sessions E cfg t n h)"
proof (induction n arbitrary: h)
  case 0
  show ?case by (simp add: adds_none)
next
  case (Suc n)
  let ?h1 = "snd (adb E t [''shell'', ''killall -9 mavo-pcm-bridge.armv7 2>/dev/null; sleep 0.5''] h)"
  let ?h2 = "snd (stopRemoteRoute E cfg ?h1)"
  let ?h3 = "?h2 @ [Ran [''-t'', t, ''shell'', ''pgrep -f [m]avo-pcm-bridge.armv7 | wc -l'']]"
  have two: "safely E cfg h ?h2"
    by (rule adds_trans [OF module_opD [OF module_op_shell [where v = False] Suc.prems] stopRemoteRoute_safely]) simp
  have three: "safely E cfg h ?h3"
    by (rule adds_trans [OF two safely_shell [OF selected_later [OF Suc.prems adds_prefix [OF two]]]])
  have "safely E cfg h (kill_sessions E cfg t n ?h3)"
    by (rule adds_trans [OF three Suc.IH [OF selected_later [OF Suc.prems adds_prefix [OF three]]]])
  with three show ?case by (simp add: Let_def adb_def run_command_def split: prod.split)
qed

lemma startRemoteRoute_safely: "safely E cfg h (snd (startRemoteRoute E cfg h))"
  unfolding startRemoteRoute_def Let_def
proof (rule transport_then_safely [where v = False])
  fix t
  show "module_op E cfg False t (\<lambda>h1. and_then (writeModuleScript E cfg launcher_path launcher_script
      (snd (stopRemoteRoute E cfg (kill_sessions E cfg t 3 h1)))) (\<lambda>_ h3.
      and_then (adb_do E t ''start QDC507 D4/UAC route'' [''shell'', launch_route] h3) (\<lambda>_ h4. await_route E t 40 h4)))"
  proof (intro module_op_then module_op_do module_op_await_route)
    show "module_op E cfg False t (\<lambda>h1. writeModuleScript E cfg launcher_path launcher_script
        (snd (stopRemoteRoute E cfg (kill_sessions E cfg t 3 h1))))"
      unfolding module_op_def
      using adds_trans [OF adds_trans [OF kill_sessions_safely stopRemoteRoute_safely] writeModuleScript_safely] by blast
  qed
qed simp

lemma prepared_op:
  "module_op E cfg True t (\<lambda>h2.
     and_then (verifyTarget E t h2) (\<lambda>_ h3.
     and_then (adb_do E t ''create QDC507 runtime directory'' [''shell'', ''mkdir -p '' @ remoteRuntimeDir] h3) (\<lambda>_ h4.
     and_then (push_artifacts E cfg t trustedRuntimeArtifacts h4) (\<lambda>_ h5.
     and_then (adb_do E t ''load QDC507 APR module''
         [''shell'', ''test -d /sys/module/qdc507_aprv3 || insmod '' @ remoteAPRModule] h5) (\<lambda>_ h6.
     and_then (adb_do E t ''load QDC507 voice module''
         [''shell'', ''test -d /sys/module/qdc507_voice || insmod '' @ remoteVoiceModule] h6) (\<lambda>_ h7.
     and_then (await_pcm E t 5 ([], None) h7) (\<lambda>_ h8.
     and_then (adb_expect E t ''QDC507 ALSA card is unavailable'' (\<lambda>card. str_contains card expectedCardName)
         ''cat /proc/asound/cards'' h8) (\<lambda>_ h9.
     and_then (ensureCalibration E t h9) (\<lambda>_.
     adb_expect E t ''QDC507 voice endpoints unavailable'' (prints ''ready'')
       ''test -c /dev/ttyGS0 && test -p /run/voc_svr && echo ready'')))))))))"
  unfolding verifyTarget_def ensureCalibration_def
  by (intro module_op_then module_op_do module_op_expect module_op_artifacts module_op_await_pcm order_refl)

lemma prepareRuntime_safely: "safely E cfg h (snd (prepareRuntime E cfg h))"
proof (cases "verifyRuntimeDirectory E (qc_RuntimeDir cfg) h")
  case None
  then have "verified_before E cfg h" unfolding verified_before_def by auto
  then show ?thesis
    using transport_then_safely [OF prepared_op, of E cfg h] None by (simp add: prepareRuntime_def runtime_verified_def)
qed (simp add: prepareRuntime_def runtime_verified_def adds_none)

lemma rotate_safely: "safely E (au_cfg a) h (snd (snd (rotate E a h)))"
  using startRemoteRoute_safely [of E "au_cfg a" h] by (auto simp: rotate_def split: prod.split sum.split)

lemma ensureRuntime_safely: "safely E (au_cfg a) h (snd (snd (ensureRuntime E a h)))"
proof -
  have "safely E (au_cfg a) h1 (snd (snd (rotate E (a\<lparr>au_prepared := True\<rparr>) h1)))" for h1
    using rotate_safely [of E "a\<lparr>au_prepared := True\<rparr>"] by simp
  moreover have "safely E (au_cfg a) h (snd (snd (rotate E (a\<lparr>au_prepared := False\<rparr>) h)))"
    using rotate_safely [of E "a\<lparr>au_prepared := False\<rparr>"] by simp
  ultimately show ?thesis
    using prepareRuntime_safely [of E "au_cfg a" h] adds_trans
    by (auto simp: ensureRuntime_def adds_none split: prod.split sum.split)
qed

text \<open>Starting the audio of a call sends the module nothing but: listings of the devices, shell commands on a transport that
  an earlier listing gave for the modem's own USB port, and trusted files of a runtime directory that was verified before.
  No other device is addressed and nothing else is copied, however the starting ends.\<close>

theorem module_commands_permitted:
  "safely E (au_cfg a) h (snd (snd (audio_Start E callID a h)))"
proof -
  have "safely E (au_cfg a) h1 (h1 @ [HostStart callID])" for h1
    by (rule adds_one) (simp add: permitted_def)
  from adds_trans [OF ensureRuntime_safely this] show ?thesis
    using ensureRuntime_safely [of E a h]
    by (auto simp: audio_Start_def host_call_def adds_none split: prod.split sum.split option.split)
      (metis snd_conv)+
qed

section \<open>How often the route is started\<close>

definition is_launch :: "device_step \<Rightarrow> bool" where
  "is_launch c = (case c of Ran [_, _, _, command] \<Rightarrow> command = launch_route | _ \<Rightarrow> False)"

definition launches :: "history \<Rightarrow> nat" where
  "launches h = length (filter is_launch h)"

lemma launches_mono: "prefix h h' \<Longrightarrow> launches h \<le> launches h'"
  by (auto simp: prefix_def launches_def)

lemma await_route_Inr:
  "await_route E t n h = (Inr now, h') \<Longrightarrow> now = hw_now E h' \<and> prefix h h'"
proof (induction n arbitrary: h)
  case (Suc n)
  then show ?case
    by (fastforce simp: adb_def run_command_def prefix_def split: prod.splits if_splits)
qed (simp split: prod.splits)

lemma startRemoteRoute_Inr:
  assumes "startRemoteRoute E cfg h = (Inr now, h')"
  shows "launches h < launches h'" and "now = hw_now E h'"
proof -
  let ?launch = "\<lambda>t. Ran [''-t'', t, ''shell'', launch_route]"
  obtain t h1 h3 h4 where
    t: "transportID E cfg h = (Inr t, h1)" and
    written: "writeModuleScript E cfg launcher_path launcher_script
      (snd (stopRemoteRoute E cfg (kill_sessions E cfg t 3 h1))) = (Inr (), h3)" and
    launched: "\<exists>out. adb_do E t ''start QDC507 D4/UAC route'' [''shell'', launch_route] h3 = (Inr out, h4)" and
    seen: "await_route E t 40 h4 = (Inr now, h')"
    using assms unfolding startRemoteRoute_def by (auto simp: and_then_Inr Let_def)
  have h4: "h4 = h3 @ [?launch t]"
    using launched by (auto simp: adb_do_def adb_def run_command_def split: prod.splits option.splits)
  have "selected E cfg h1 t" using transportID_safely(2) [of E cfg h t] t by simp
  then have "safely E cfg h1 h3"
    using adds_trans [OF adds_trans [OF kill_sessions_safely [of E cfg h1 t 3] stopRemoteRoute_safely]
      writeModuleScript_safely [of E cfg _ launcher_path launcher_script]] written by simp
  moreover have "safely E cfg h h1" using transportID_safely(1) [of E cfg h] t by simp
  ultimately have "launches h \<le> launches h3" using adds_trans adds_prefix launches_mono by blast
  also have "launches h3 < launches h4" unfolding h4 by (simp add: launches_def is_launch_def)
  also have "launches h4 \<le> launches h'" using await_route_Inr [OF seen] launches_mono by blast
  finally show "launches h < launches h'" .
  show "now = hw_now E h'" using await_route_Inr [OF seen] by simp
qed

lemma rotate_Inr:
  assumes "rotate E a h = (Inr (), a', h')"
  shows "launches h < launches h'" and "a' = a\<lparr>au_lastRotate := Some (hw_now E h')\<rparr>"
  using assms startRemoteRoute_Inr [of E "au_cfg a" h] by (auto simp: rotate_def split: prod.splits sum.splits)

text \<open>The first call: when the runtime was not prepared, the route that \<^verbatim>\<open>PrepareRoute\<close> has just started is trusted by the
  start of the audio that follows.\<close>

lemma first_call_starts_route_once:
  assumes "\<not> au_prepared a" and "PrepareRoute E a h = (Inr (), a1, h1)"
  shows "ensureRuntime E a1 h1 = (Inr (), a1, h1)"
proof -
  obtain h0 where boot: "qc_Bootstrap (au_cfg a)" and rot: "rotate E (a\<lparr>au_prepared := True\<rparr>) h0 = (Inr (), a1, h1)"
    using assms by (auto simp: PrepareRoute_def ensureRuntime_def split: if_splits prod.splits sum.splits)
  show ?thesis using rotate_Inr(2) [OF rot] boot by (simp add: ensureRuntime_def recent_def)
qed

text \<open>Every second call: when the runtime was prepared before and its route is older than half a minute, \<^verbatim>\<open>PrepareRoute\<close>
  starts the route and leaves the runtime marked as unprepared. The start of the audio of the same call, at whatever time
  it comes, then prepares the whole runtime again and starts the route a second time, although the route is fresh.\<close>

theorem second_call_starts_route_twice:
  assumes "au_prepared a" and "\<not> recent (hw_now E h) a" and "PrepareRoute E a h = (Inr (), a1, h1)"
    and "audio_Start E callID a1 h2 = (Inr (), a2, h3)"
  shows "\<not> au_prepared a1 \<and> recent (hw_now E h1) a1 \<and> launches h < launches h1 \<and> launches h2 < launches h3"
proof -
  have boot: "qc_Bootstrap (au_cfg a)" and rot: "rotate E (a\<lparr>au_prepared := False\<rparr>) h = (Inr (), a1, h1)"
    using assms(1-3) by (auto simp: PrepareRoute_def ensureRuntime_def split: if_splits)
  from rotate_Inr [OF rot] have once: "launches h < launches h1" and stale: "\<not> au_prepared a1"
    and fresh: "recent (hw_now E h1) a1" by (simp_all add: recent_def)
  obtain h4 where ensured: "\<exists>a4. ensureRuntime E a1 h2 = (Inr (), a4, h4)" and h3: "h3 = h4 @ [HostStart callID]"
    using assms(4) by (auto simp: audio_Start_def host_call_def split: if_splits prod.splits sum.splits option.splits)
  obtain h0 a4 where prep: "prepareRuntime E (au_cfg a1) h2 = (Inr (), h0)"
      and again: "rotate E (a1\<lparr>au_prepared := True\<rparr>) h0 = (Inr (), a4, h4)"
    using ensured stale by (auto simp: ensureRuntime_def split: if_splits prod.splits sum.splits)
  have "launches h2 \<le> launches h0"
    using launches_mono [OF adds_prefix [OF prepareRuntime_safely [of E "au_cfg a1" h2]]] prep by simp
  also have "launches h0 < launches h4" using rotate_Inr(1) [OF again] .
  also have "launches h4 \<le> launches h3" unfolding h3 by (rule launches_mono) simp
  finally show ?thesis using once stale fresh by simp
qed

section \<open>A start that fails\<close>

text \<open>When the host's audio does not start, the adapter keeps the call: a start of any other call is refused without a
  single step until the audio is stopped.\<close>

theorem failed_start_keeps_call:
  assumes "audio_Start E c a h = (Inl e, a1, h1)" and "ensureRuntime E a h = (Inr (), a', h')"
    and "\<not> hw_cancelled E h" and "au_call a \<in> {[], c}" and "c \<noteq> []" and "d \<noteq> c" and "\<not> hw_cancelled E h2"
  shows "au_call a1 = c \<and> audio_Start E d a1 h2 = (Inl (AudioBusy c), a1, h2)"
  using assms by (auto simp: audio_Start_def host_call_def split: option.splits if_splits)

section \<open>A willing module\<close>

definition sample_answer :: "string \<Rightarrow> string" where
  "sample_answer command =
     (if take 2 command = ''id'' \<or> take 2 command = ''pg'' then ''0''
      else if take 2 command = ''un'' then expectedKernel
      else if take 2 command = ''ca'' then expectedCardName else ''ready'')"

definition sample_sha :: "byte list \<Rightarrow> string" where
  "sample_sha content =
     (case find (\<lambda>a. path_below [''/r'', ra_name a] = bytes_string content) trustedRuntimeArtifacts of
        Some a \<Rightarrow> ra_hash a | None \<Rightarrow> [])"

definition willing_module :: "string option \<Rightarrow> Surroundings" where
  "willing_module host_error =
     \<lparr>hw_run = (\<lambda>h args. (if args = list_devices then ''m device usb:1-1 transport_id:3'' else sample_answer (last args), None)),
      hw_host = (\<lambda>h c. host_error), hw_cancelled = (\<lambda>h. False), hw_interrupted = (\<lambda>h. False), hw_now = (\<lambda>h. 0),
      hw_link = (\<lambda>h p. Some ''/1-1:1.0/tty''),
      hw_lstat = (\<lambda>h p. Some \<lparr>fi_dir = p = ''/r'', fi_regular = p \<noteq> ''/r'', fi_symlink = False, fi_perm = 0x1ED\<rparr>),
      hw_file = (\<lambda>h p. Some (string_bytes p)), hw_sha256 = sample_sha\<rparr>"

definition sample_audio :: "bool \<Rightarrow> Audio" where
  "sample_audio prepared =
     \<lparr>au_cfg = \<lparr>qc_TTY = ''/dev/ttyUSB2'', qc_RuntimeDir = ''/r'', qc_ADBPath = [], qc_Bootstrap = True\<rparr>, au_adb = ''adb'',
      au_call = [], au_prepared = prepared, au_lastRotate = None, au_closed = False\<rparr>"

lemma willing_transport:
  "transportID (willing_module e) cfg h = (Inr ''3'', h @ [Ran list_devices])"
proof -
  have "usb_parent ''/1-1:1.0/tty'' = ''1-1''" by code_simp
  moreover have "SelectTransportID ''m device usb:1-1 transport_id:3'' ''1-1'' = Inr ''3''" by code_simp
  ultimately show ?thesis
    by (simp add: transportID_def tty_usb_path_def willing_module_def run_command_def eval_nat_numeral)
qed

lemma willing_adb:
  "adb (willing_module e) t args h = ((if [''-t'', t] @ args = list_devices then ''m device usb:1-1 transport_id:3''
     else sample_answer (last ([''-t'', t] @ args)), None), h @ [Ran ([''-t'', t] @ args)])"
  by (simp add: adb_def run_command_def willing_module_def)

lemma willing_shell: "adb (willing_module e) t [''shell'', command] h = ((sample_answer command, None), h @ [Ran [''-t'', t, ''shell'', command]])"
  by (simp add: willing_adb list_devices_def)

lemma willing_verified: "verifyRuntimeDirectory (willing_module e) ''/r'' h = None"
proof -
  have r: "path_clean (trim_space ''/r'') = ''/r''" "path_absolute ''/r''" by code_simp+
  have sha: "list_all (\<lambda>a. sample_sha (string_bytes (path_below [''/r'', ra_name a])) = ra_hash a \<and> path_below [''/r'', ra_name a] \<noteq> ''/r'')
      trustedRuntimeArtifacts" by code_simp
  have "verify_artifacts (willing_module e) h ''/r'' as = None"
    if "list_all (\<lambda>a. sample_sha (string_bytes (path_below [''/r'', ra_name a])) = ra_hash a \<and> path_below [''/r'', ra_name a] \<noteq> ''/r'') as" for as
    using that by (induction as) (simp_all add: verify_artifact_def willing_module_def writable_by_others_def Let_def)
  with sha r show ?thesis by (simp add: verifyRuntimeDirectory_def willing_module_def writable_by_others_def)
qed

lemma sample_answers:
  "sample_answer ''id -u'' = ''0''" "sample_answer ''uname -r'' = expectedKernel"
  "sample_answer ''cat /proc/asound/cards'' = expectedCardName" "sample_answer pcm_ready = ''ready''"
  "sample_answer (''test'' @ s) = ''ready''" "sample_answer routeReadyScript = ''ready''"
  "sample_answer (CHR ''t'' # CHR ''e'' # s) = ''ready''"
  by (simp_all add: sample_answer_def pcm_ready_def routeReadyScript_def script_def)

lemma sample_prints:
  "prints ''0'' ''0''" "prints expectedKernel expectedKernel" "prints ''ready'' ''ready''"
  "str_contains expectedCardName expectedCardName"
  by (simp_all add: prints_def graphic_char_def expectedKernel_def expectedCardName_def str_contains_def has_prefix_def)

lemma willing_route: "\<exists>h'. startRemoteRoute (willing_module e) cfg h = (Inr 0, h')"
proof -
  let ?E = "willing_module e"
  have written: "\<exists>h'. writeModuleScript ?E cfg path content h = (Inr (), h')" for path content h
    by (simp add: writeModuleScript_def willing_transport adb_do_def willing_shell)
  have seen: "\<exists>h'. await_route ?E t (Suc n) h = (Inr 0, h')" for t n h
    using sample_answers(6) sample_prints(3) by (simp add: willing_shell) (simp add: willing_module_def)
  obtain h2 where "writeModuleScript ?E cfg launcher_path launcher_script
      (snd (stopRemoteRoute ?E cfg (kill_sessions ?E cfg ''3'' 3 (h @ [Ran list_devices])))) = (Inr (), h2)"
    using written by blast
  moreover obtain h3 where "adb_do ?E ''3'' ''start QDC507 D4/UAC route'' [''shell'', launch_route] h2 = (Inr (sample_answer launch_route), h3)"
    by (simp add: adb_do_def willing_shell)
  moreover obtain h4 where "await_route ?E ''3'' 40 h3 = (Inr 0, h4)"
    using seen [of "''3''" 39 h3] by (auto simp: eval_nat_numeral simp del: await_route.simps)
  ultimately show ?thesis
    by (simp add: startRemoteRoute_def willing_transport Let_def del: await_route.simps kill_sessions.simps)
qed

lemma willing_expect:
  "good (sample_answer command) \<Longrightarrow>
     adb_expect (willing_module e) t what good command h = (Inr (), h @ [Ran [''-t'', t, ''shell'', command]])"
  by (simp add: adb_expect_def willing_shell)

lemma willing_do:
  "adb_do (willing_module e) t what [''shell'', command] h = (Inr (sample_answer command), h @ [Ran [''-t'', t, ''shell'', command]])"
  by (simp add: adb_do_def willing_shell)

lemma willing_prepared: "\<exists>h'. prepareRuntime (willing_module e) (au_cfg (sample_audio p)) h = (Inr (), h')"
proof -
  let ?E = "willing_module e" and ?cfg = "au_cfg (sample_audio p)"
  have dir: "qc_RuntimeDir ?cfg = ''/r''" by (simp add: sample_audio_def)
  have push: "\<exists>out h'. adb_do ?E t what [''push'', l, r] h = (Inr out, h')" for t what l r h
    by (simp add: adb_do_def willing_adb)
  have pushed: "\<exists>h'. push_artifacts ?E ?cfg t as h = (Inr (), h')" for t as h
  proof (induction as arbitrary: h)
    case (Cons a as)
    show ?case
      using push [of t "''push QDC507 runtime '' @ ra_name a"] Cons.IH
      by (auto simp: willing_do) (metis and_then_simps(2))
  qed simp
  obtain h2 where arts: "push_artifacts ?E ?cfg ''3'' trustedRuntimeArtifacts
      (h @ [Ran list_devices] @ [Ran [''-t'', ''3'', ''shell'', ''id -u'']] @ [Ran [''-t'', ''3'', ''shell'', ''uname -r'']] @
        [Ran [''-t'', ''3'', ''shell'', ''mkdir -p '' @ remoteRuntimeDir]]) = (Inr (), h2)"
    using pushed by blast
  have pcm: "await_pcm ?E t (Suc n) prev h = (Inr (), h @ [Ran [''-t'', t, ''shell'', pcm_ready]])" for t n prev h
    using sample_answers(4) sample_prints(3) by (simp add: willing_shell)
  have five: "await_pcm ?E t 5 prev h = (Inr (), h @ [Ran [''-t'', t, ''shell'', pcm_ready]])" for t prev h
    using pcm [of t 4 prev h] by (simp add: eval_nat_numeral del: await_pcm.simps)
  show ?thesis
    using arts willing_verified [of e h]
    by (simp add: prepareRuntime_def runtime_verified_def dir willing_transport verifyTarget_def willing_expect willing_do
        sample_answers sample_prints five ensureCalibration_def del: await_pcm.simps)
qed

theorem second_call_starts_route_twice_witness:
  "\<exists>a1 h1 a2 h3. PrepareRoute (willing_module None) (sample_audio True) [] = (Inr (), a1, h1) \<and>
     audio_Start (willing_module None) ''c2'' a1 h1 = (Inr (), a2, h3) \<and> launches [] < launches h1 \<and> launches h1 < launches h3"
proof -
  let ?E = "willing_module None" and ?a = "sample_audio True"
  have a: "au_prepared ?a" "\<not> recent (hw_now ?E []) ?a" "qc_Bootstrap (au_cfg ?a)" by (simp_all add: sample_audio_def recent_def)
  obtain h1 where "startRemoteRoute ?E (au_cfg ?a) [] = (Inr 0, h1)" using willing_route by blast
  then have first: "PrepareRoute ?E ?a [] = (Inr (), ?a\<lparr>au_prepared := False, au_lastRotate := Some 0\<rparr>, h1)"
    using a by (simp add: PrepareRoute_def ensureRuntime_def rotate_def)
  obtain h2 where prep: "prepareRuntime ?E (au_cfg ?a) h1 = (Inr (), h2)" using willing_prepared by blast
  obtain h3 where route: "startRemoteRoute ?E (au_cfg ?a) h2 = (Inr 0, h3)" using willing_route by blast
  have live: "\<not> hw_cancelled ?E h" "hw_host ?E h c = None" for h c by (simp_all add: willing_module_def)
  have call: "au_call ?a = []" by (simp add: sample_audio_def)
  obtain a2 where "ensureRuntime ?E (?a\<lparr>au_prepared := False, au_lastRotate := Some 0\<rparr>) h1 = (Inr (), a2, h3)"
    using a(3) prep route by (simp add: ensureRuntime_def rotate_def)
  then have second: "audio_Start ?E ''c2'' (?a\<lparr>au_prepared := False, au_lastRotate := Some 0\<rparr>) h1 =
      (Inr (), a2\<lparr>au_call := ''c2''\<rparr>, h3 @ [HostStart ''c2''])"
    using live call by (simp add: audio_Start_def host_call_def)
  from second_call_starts_route_twice [OF a(1,2) first second] first second show ?thesis by blast
qed

theorem failed_start_keeps_call_witness:
  "\<exists>e a1 h1. audio_Start (willing_module (Some ''no capture'')) ''c1'' (sample_audio False) [] = (Inl e, a1, h1) \<and>
     au_call a1 = ''c1'' \<and> audio_Start (willing_module (Some ''no capture'')) ''c2'' a1 h1 = (Inl (AudioBusy ''c1''), a1, h1)"
proof -
  let ?E = "willing_module (Some ''no capture'')" and ?a = "sample_audio False"
  have a: "\<not> au_prepared ?a" "qc_Bootstrap (au_cfg ?a)" "au_call ?a = []" by (simp_all add: sample_audio_def)
  have live: "\<not> hw_cancelled ?E h" for h by (simp add: willing_module_def)
  obtain h1 where prep: "prepareRuntime ?E (au_cfg ?a) [] = (Inr (), h1)" using willing_prepared by blast
  obtain h2 where route: "startRemoteRoute ?E (au_cfg ?a) h1 = (Inr 0, h2)" using willing_route by blast
  obtain a' where ensured: "ensureRuntime ?E ?a [] = (Inr (), a', h2)"
    using a prep route by (simp add: ensureRuntime_def rotate_def)
  have "hw_host ?E h c = Some ''no capture''" for h c by (simp add: willing_module_def)
  then have failed: "audio_Start ?E ''c1'' ?a [] =
      (Inl (AudioText ''no capture''), a'\<lparr>au_call := ''c1''\<rparr>, h2 @ [HostStart ''c1''])"
    using ensured a(3) live by (simp add: audio_Start_def host_call_def)
  from failed_start_keeps_call [OF failed ensured live _ _ _ live, of "''c2''"] a(3) failed show ?thesis by fastforce
qed

end
