(* ===== verification/Voice_Backends.thy ===== *)
theory Voice_Backends
  imports Alsa_Audio Qdc507_Audio
begin

text \<open>
  The contract of \<^verbatim>\<open>modem.VoiceAudio\<close> that the bridge relies on, as a locale, and the three backends that provide it:
  raw PCM devices, ALSA, and the QDC507 module over a host backend.
\<close>

locale voice_audio =
  fixes start :: "'e \<Rightarrow> string \<Rightarrow> 's \<Rightarrow> bool \<times> 's"
    and stop :: "'e \<Rightarrow> 's \<Rightarrow> 's"
    and owner :: "'s \<Rightarrow> string"
  assumes busy: "owner s \<noteq> [] \<Longrightarrow> owner s \<noteq> c \<Longrightarrow> start e c s = (False, s)"
    and started: "start e c s = (True, s') \<Longrightarrow> owner s' = c"
    and stopped: "owner (stop e s) = []"
begin

lemma others_refused:
  "owner s \<noteq> [] \<Longrightarrow> list_all (\<lambda>(e, c). c \<noteq> owner s) requests \<Longrightarrow> fold (\<lambda>(e, c) s. snd (start e c s)) requests s = s"
  by (induction requests) (auto simp: busy)

lemma owner_kept:
  assumes "start e c s = (True, s1)" and "c \<noteq> []" and "list_all (\<lambda>(e, d). d \<noteq> c) requests"
  shows "fold (\<lambda>(e, d) s. snd (start e d s)) requests s1 = s1 \<and> owner s1 = c \<and> owner (stop e' s1) = []"
  using others_refused [of s1 requests] started [OF assms(1)] assms(2,3) stopped by simp

end

definition raw_backend :: "bool \<Rightarrow> string \<Rightarrow> RawPCMAudio \<Rightarrow> bool \<times> RawPCMAudio" where
  "raw_backend cancelled c a = (case raw_Start c cancelled a of (r, a') \<Rightarrow> (r = Inr (), a'))"

definition alsa_backend :: "bool \<times> spawned \<times> nat \<Rightarrow> string \<Rightarrow> ALSAAudio \<Rightarrow> bool \<times> ALSAAudio" where
  "alsa_backend e c a = (case e of (cancelled, outcome, n) \<Rightarrow> case alsa_Start cancelled outcome n c a of (r, a') \<Rightarrow> (r = None, a'))"

definition module_backend :: "Surroundings \<Rightarrow> string \<Rightarrow> Audio \<times> history \<Rightarrow> bool \<times> Audio \<times> history" where
  "module_backend E c s = (case audio_Start E c (fst s) (snd s) of (r, a, h) \<Rightarrow> (r = Inr (), a, h))"

interpretation raw_audio: voice_audio raw_backend "\<lambda>e. raw_Stop" raw_call
  by unfold_locales (auto simp: raw_backend_def raw_Start_def raw_Stop_def split: if_splits)

lemma reap_call [simp]: "al_call (reap p a) = al_call a"
  by (simp add: reap_def split: option.split)

lemma start_pair_call: "start_pair outcome n c a = (None, a') \<Longrightarrow> al_call a' = al_call a"
  by (auto simp: start_pair_def split: spawned.splits)

lemma alsa_Start_call: "alsa_Start cancelled outcome n c a = (None, a') \<Longrightarrow> al_call a' = c"
  by (auto simp: alsa_Start_def start_take_def reap_pair_def dest!: start_pair_call split: if_splits)

interpretation alsa_audio: voice_audio alsa_backend "\<lambda>e. alsa_Stop" al_call
proof
  show "al_call s \<noteq> [] \<Longrightarrow> al_call s \<noteq> c \<Longrightarrow> alsa_backend e c s = (False, s)" for s c e
    by (auto simp: alsa_backend_def alsa_Start_def start_take_def split: prod.split)
  show "alsa_backend e c s = (True, s') \<Longrightarrow> al_call s' = c" for e c s s'
    by (auto simp: alsa_backend_def dest: alsa_Start_call split: prod.splits)
  show "al_call (alsa_Stop s) = []" for s
    by (simp add: alsa_Stop_def reap_pair_def)
qed

interpretation module_audio: voice_audio module_backend "\<lambda>E s. snd (audio_Stop E (fst s) (snd s))" "\<lambda>s. au_call (fst s)"
proof
  show "au_call (fst s) \<noteq> [] \<Longrightarrow> au_call (fst s) \<noteq> c \<Longrightarrow> module_backend E c s = (False, s)" for s c E
    by (simp add: module_backend_def audio_Start_def)
  show "module_backend E c s = (True, s') \<Longrightarrow> au_call (fst s') = c" for E c s s'
    by (auto simp: module_backend_def audio_Start_def split: prod.splits sum.splits option.splits if_splits)
  show "au_call (fst (snd (audio_Stop E (fst s) (snd s)))) = []" for E s
    by (simp add: audio_Stop_def Let_def split: prod.split)
qed

text \<open>A backend that was started for a call, whichever it is, refuses every start for another call without changing,
  until it is stopped.\<close>

theorem backends_serve_one_call:
  assumes "c \<noteq> []" and "list_all (\<lambda>(e, d). d \<noteq> c) raws" and "list_all (\<lambda>(e, d). d \<noteq> c) alsas"
    and "list_all (\<lambda>(e, d). d \<noteq> c) modules"
    and "raw_backend e1 c r = (True, r1)" and "alsa_backend e2 c a = (True, a1)" and "module_backend E c m = (True, m1)"
  shows "fold (\<lambda>(e, d) s. snd (raw_backend e d s)) raws r1 = r1 \<and>
     fold (\<lambda>(e, d) s. snd (alsa_backend e d s)) alsas a1 = a1 \<and>
     fold (\<lambda>(e, d) s. snd (module_backend e d s)) modules m1 = m1"
  using raw_audio.owner_kept [OF assms(5,1,2)] alsa_audio.owner_kept [OF assms(6,1,3)]
    module_audio.owner_kept [OF assms(7,1,4)] by blast

lemma willing_module_starts: "\<exists>m1. module_backend (willing_module None) ''c1'' (sample_audio False, []) = (True, m1)"
proof -
  let ?E = "willing_module None" and ?a = "sample_audio False"
  have a: "\<not> au_prepared ?a" "qc_Bootstrap (au_cfg ?a)" "au_call ?a = []" by (simp_all add: sample_audio_def)
  have live: "\<not> hw_cancelled ?E h" "hw_host ?E h c = None" for h c by (simp_all add: willing_module_def)
  obtain h1 where prep: "prepareRuntime ?E (au_cfg ?a) [] = (Inr (), h1)" using willing_prepared by blast
  obtain h2 where route: "startRemoteRoute ?E (au_cfg ?a) h1 = (Inr 0, h2)" using willing_route by blast
  obtain a' where "ensureRuntime ?E ?a [] = (Inr (), a', h2)" using a prep route by (simp add: ensureRuntime_def rotate_def)
  then show ?thesis using a(3) live by (simp add: module_backend_def audio_Start_def host_call_def)
qed

theorem backends_serve_one_call_witness:
  "\<exists>r1 a a1 m1. raw_backend False ''c1'' \<lparr>raw_call = [], raw_closed = False\<rparr> = (True, r1) \<and> OpenALSA ''hw:1'' ''hw:1'' = Some a \<and>
     alsa_backend (False, PairStarted, 1) ''c1'' a = (True, a1) \<and>
     module_backend (willing_module None) ''c1'' (sample_audio False, []) = (True, m1) \<and>
     snd (raw_backend False ''c2'' r1) = r1 \<and> snd (alsa_backend (False, PairStarted, 2) ''c2'' a1) = a1 \<and>
     snd (module_backend (willing_module None) ''c2'' m1) = m1"
proof -
  obtain r1 where r: "raw_backend False ''c1'' \<lparr>raw_call = [], raw_closed = False\<rparr> = (True, r1)"
    by (simp add: raw_backend_def raw_Start_def)
  obtain a where a: "OpenALSA ''hw:1'' ''hw:1'' = Some a" "al_call a = []"
    by (simp add: OpenALSA_def Let_def graphic_char_def)
  obtain a1 where a1: "alsa_backend (False, PairStarted, 1) ''c1'' a = (True, a1)"
    using a(2) by (simp add: alsa_backend_def alsa_Start_def start_take_def start_pair_def)
  obtain m1 where m: "module_backend (willing_module None) ''c1'' (sample_audio False, []) = (True, m1)"
    using willing_module_starts by blast
  from backends_serve_one_call [OF _ _ _ _ r a1 m, of "[(False, ''c2'')]" "[((False, PairStarted, 2), ''c2'')]" "[(willing_module None, ''c2'')]"]
  have "snd (raw_backend False ''c2'' r1) = r1 \<and> snd (alsa_backend (False, PairStarted, 2) ''c2'' a1) = a1 \<and>
     snd (module_backend (willing_module None) ''c2'' m1) = m1" by simp
  with r a(1) a1 m show ?thesis by blast
qed

end
