(* ===== verification/Adb_Wire.thy ===== *)
theory Adb_Wire
  imports Host_Commands
begin

unbundle bit_operations_syntax

text \<open>
  The ADB protocol over USB of the provisioning tools, \<^verbatim>\<open>tools/module-provisioner/qdc507-adb-readonly/main.go\<close> and
  \<^verbatim>\<open>qdc507-agent-stage/main.go\<close> (which has the same packets, shell and services). A run is given by what the transfers
  of libusb return one after the other and by when a deadline has passed; every transfer that was made is logged.
\<close>

section \<open>Numbers on the wire\<close>

definition le32 :: "32 word \<Rightarrow> byte list" where
  "le32 w = [ucast w, ucast (drop_bit 8 w), ucast (drop_bit 16 w), ucast (drop_bit 24 w)]"

fun read_le32 :: "byte list \<Rightarrow> 32 word" where
  "read_le32 (a # b # c # d # rest) =
     ucast a OR push_bit 8 (ucast b) OR push_bit 16 (ucast c) OR push_bit 24 (ucast d)"
| "read_le32 _ = 0"

lemma read_le32_le32 [simp]: "read_le32 (le32 w @ rest) = w"
proof -
  have "read_le32 (le32 w) = w"
  proof (rule bit_word_eqI)
    fix n assume "n < LENGTH(32)"
    then have "n < 8 \<or> (8 \<le> n \<and> n < 16) \<or> (16 \<le> n \<and> n < 24) \<or> (24 \<le> n \<and> n < 32)" by auto
    then show "bit (read_le32 (le32 w)) n = bit w n"
      by (elim disjE) (auto simp: le32_def bit_simps)
  qed
  then show ?thesis by (simp add: le32_def)
qed

lemma length_le32 [simp]: "length (le32 w) = 4"
  by (simp add: le32_def)

definition hex8 :: "32 word \<Rightarrow> string" where
  "hex8 w = map (\<lambda>i. hex_digit_lower (unat (drop_bit (4 * (7 - i)) w AND 0xF))) [0..<8]"

text \<open>\<^verbatim>\<open>%q\<close> for text whose bytes beyond ASCII are printable.\<close>

definition quote_char :: "char \<Rightarrow> string" where
  "quote_char c =
     (let n = (of_char c :: nat); esc = (\<lambda>x. [CHR 0x5C, x])
      in if c = CHR 0x22 \<or> c = CHR 0x5C then esc c
         else if n = 7 then esc (CHR ''a'') else if n = 8 then esc (CHR ''b'') else if n = 9 then esc (CHR ''t'')
         else if n = 10 then esc (CHR ''n'') else if n = 11 then esc (CHR ''v'') else if n = 12 then esc (CHR ''f'')
         else if n = 13 then esc (CHR ''r'')
         else if n < 32 \<or> n = 127
         then esc (CHR ''x'') @ [hex_digit_lower (n div 16), hex_digit_lower (n mod 16)]
         else [c])"

definition go_quote :: "string \<Rightarrow> string" where
  "go_quote s = [CHR 0x22] @ concat (map quote_char s) @ [CHR 0x22]"

section \<open>Transfers\<close>

datatype usb_read = UsbTimeout | UsbError string | UsbBytes "byte list"

datatype usb_write = WriteError string | WriteShort nat

text \<open>\<open>us_reads\<close> and \<open>us_writes\<close> are what the coming transfers return (\<^term>\<open>None\<close>, or the end of the list: written
  completely; no more reads: they time out), \<open>us_clock\<close> whether the deadline has passed when it is looked at (the end of
  the list: it has not).\<close>

record usbADB =
  us_reads :: "usb_read list"
  us_writes :: "usb_write option list"
  us_clock :: "bool list"
  us_log :: "byte list list"

definition packetLimit :: nat where "packetLimit = 1024 * 1024"
definition headSize :: nat where "headSize = 24"
definition adbMaxData :: nat where "adbMaxData = 4096"

definition bulkWrite :: "byte list \<Rightarrow> usbADB \<Rightarrow> string option \<times> usbADB" where
  "bulkWrite payload s =
     (let s1 = s\<lparr>us_writes := tl (us_writes s), us_log := us_log s @ [payload]\<rparr>
      in case (case us_writes s of [] \<Rightarrow> None | w # _ \<Rightarrow> w) of
           None \<Rightarrow> (None, s1)
         | Some (WriteError name) \<Rightarrow> (Some (''ADB bulk write: '' @ name), s1)
         | Some (WriteShort n) \<Rightarrow>
             if n \<noteq> length payload
             then (Some (''ADB bulk write short transfer: '' @ nat_to_string n @ ''/'' @ nat_to_string (length payload) @ '' bytes''), s1)
             else (None, s1))"

definition bulkRead :: "nat \<Rightarrow> usbADB \<Rightarrow> (string, byte list) result \<times> usbADB" where
  "bulkRead want s =
     (if want = 0 \<or> packetLimit < want then (Inl ''invalid ADB read size'', s)
      else case us_reads s of
             [] \<Rightarrow> (Inl ''ADB USB transfer timed out'', s)
           | r # rest \<Rightarrow>
               ((case r of
                   UsbTimeout \<Rightarrow> Inl ''ADB USB transfer timed out''
                 | UsbError name \<Rightarrow> Inl (''ADB bulk read: '' @ name)
                 | UsbBytes bs \<Rightarrow> Inr (take want bs)), s\<lparr>us_reads := rest\<rparr>))"

definition expired :: "usbADB \<Rightarrow> bool \<times> usbADB" where
  "expired s = (case us_clock s of [] \<Rightarrow> (False, s) | b # rest \<Rightarrow> (b, s\<lparr>us_clock := rest\<rparr>))"

section \<open>Packets\<close>

record packet =
  pk_Command :: "32 word"
  pk_Arg0 :: "32 word"
  pk_Arg1 :: "32 word"
  pk_Payload :: "byte list"

definition adbCNXN :: "32 word" where "adbCNXN = 0x4e584e43"
definition adbAUTH :: "32 word" where "adbAUTH = 0x48545541"
definition adbOPEN :: "32 word" where "adbOPEN = 0x4e45504f"
definition adbOKAY :: "32 word" where "adbOKAY = 0x59414b4f"
definition adbCLSE :: "32 word" where "adbCLSE = 0x45534c43"
definition adbWRTE :: "32 word" where "adbWRTE = 0x45545257"

definition checksum :: "byte list \<Rightarrow> 32 word" where
  "checksum payload = foldl (\<lambda>total v. total + ucast v) 0 payload"

definition adb_header :: "packet \<Rightarrow> byte list" where
  "adb_header p =
     le32 (pk_Command p) @ le32 (pk_Arg0 p) @ le32 (pk_Arg1 p) @ le32 (word_of_nat (length (pk_Payload p))) @
     le32 (checksum (pk_Payload p)) @ le32 (pk_Command p XOR 0xffffffff)"

definition writePacket :: "packet \<Rightarrow> usbADB \<Rightarrow> string option \<times> usbADB" where
  "writePacket p s =
     (if packetLimit < length (pk_Payload p) then (Some ''ADB payload exceeds safety limit'', s)
      else (case bulkWrite (adb_header p) s of
              (Some e, s1) \<Rightarrow> (Some e, s1)
            | (None, s1) \<Rightarrow> if 0 < length (pk_Payload p) then bulkWrite (pk_Payload p) s1 else (None, s1)))"

definition readPacket :: "usbADB \<Rightarrow> (string, packet) result \<times> usbADB" where
  "readPacket s =
     and_then (bulkRead headSize s) (\<lambda>header s1.
       if length header \<noteq> headSize
       then (Inl (''short ADB header: '' @ nat_to_string (length header) @ ''/'' @ nat_to_string headSize @ '' bytes''), s1)
       else
         let message = \<lparr>pk_Command = read_le32 header, pk_Arg0 = read_le32 (drop 4 header),
               pk_Arg1 = read_le32 (drop 8 header), pk_Payload = []\<rparr>;
             len = unat (read_le32 (drop 12 header))
         in if packetLimit < len then (Inl (''ADB payload length '' @ nat_to_string len @ '' exceeds safety limit''), s1)
            else if pk_Command message XOR 0xffffffff \<noteq> read_le32 (drop 20 header) then (Inl ''ADB command magic mismatch'', s1)
            else if len = 0 then (Inr message, s1)
            else and_then (bulkRead len s1) (\<lambda>payload s2.
              if checksum payload \<noteq> read_le32 (drop 16 header) then (Inl ''ADB payload checksum mismatch'', s2)
              else (Inr (message\<lparr>pk_Payload := payload\<rparr>), s2)))"

text \<open>Only writing is logged.\<close>

lemma expired_log: "expired s = (b, s') \<Longrightarrow> us_log s' = us_log s"
  by (auto simp: expired_def split: list.splits)

lemma bulkRead_log: "bulkRead n s = (r, s') \<Longrightarrow> us_log s' = us_log s"
  by (auto simp: bulkRead_def split: list.splits if_splits)

lemma bulkWrite_log: "bulkWrite payload s = (r, s') \<Longrightarrow> us_log s' = us_log s @ [payload]"
  by (auto simp: bulkWrite_def Let_def split: option.splits usb_write.splits if_splits)

lemma readPacket_log:
  assumes "readPacket s = (r, s')"
  shows "us_log s' = us_log s"
proof -
  obtain header s1 where head: "bulkRead headSize s = (header, s1)" by (cases "bulkRead headSize s")
  have "us_log s' = us_log s1"
  proof (cases header)
    case (Inr bs)
    with assms head show ?thesis
      by (auto simp: readPacket_def and_then_def Let_def split: if_splits prod.splits sum.splits dest: bulkRead_log)
  qed (use assms head in \<open>simp add: readPacket_def\<close>)
  with bulkRead_log [OF head] show ?thesis by simp
qed

text \<open>The transfers in which the other side sends a packet.\<close>

definition packet_reads :: "packet \<Rightarrow> usb_read list" where
  "packet_reads p = UsbBytes (adb_header p) # (if pk_Payload p = [] then [] else [UsbBytes (pk_Payload p)])"

lemma length_adb_header [simp]: "length (adb_header p) = 24"
  by (simp add: adb_header_def)

lemma header_fields:
  "read_le32 (adb_header p) = pk_Command p"
  "read_le32 (drop 4 (adb_header p)) = pk_Arg0 p"
  "read_le32 (drop 8 (adb_header p)) = pk_Arg1 p"
  "read_le32 (drop 12 (adb_header p)) = word_of_nat (length (pk_Payload p))"
  "read_le32 (drop 16 (adb_header p)) = checksum (pk_Payload p)"
  "read_le32 (drop 20 (adb_header p)) = pk_Command p XOR 0xffffffff"
proof -
  show "read_le32 (adb_header p) = pk_Command p" by (simp add: adb_header_def)
  show "read_le32 (drop 4 (adb_header p)) = pk_Arg0 p" by (simp add: adb_header_def)
  show "read_le32 (drop 8 (adb_header p)) = pk_Arg1 p" by (simp add: adb_header_def)
  show "read_le32 (drop 12 (adb_header p)) = word_of_nat (length (pk_Payload p))" by (simp add: adb_header_def)
  show "read_le32 (drop 16 (adb_header p)) = checksum (pk_Payload p)" by (simp add: adb_header_def)
  show "read_le32 (drop 20 (adb_header p)) = pk_Command p XOR 0xffffffff"
    using read_le32_le32 [of "pk_Command p XOR 0xffffffff" "[]"] by (simp add: adb_header_def)
qed

text \<open>A packet that was sent in one or two transfers is read as what it is.\<close>

lemma readPacket_packet:
  assumes "length (pk_Payload p) \<le> packetLimit"
  shows "readPacket (s\<lparr>us_reads := packet_reads p @ rest\<rparr>) = (Inr p, s\<lparr>us_reads := rest\<rparr>)"
proof -
  have len: "unat (word_of_nat (length (pk_Payload p)) :: 32 word) = length (pk_Payload p)"
    using assms by (simp add: packetLimit_def unat_of_nat take_bit_eq_mod)
  show ?thesis
    using assms
    by (cases "pk_Payload p = []")
      (simp_all add: readPacket_def bulkRead_def packet_reads_def headSize_def header_fields len Let_def packetLimit_def)
qed

theorem packet_roundtrip:
  assumes "writePacket p s = (None, s')" and "us_writes s = []"
  shows "us_log s' = us_log s @ adb_header p # (if pk_Payload p = [] then [] else [pk_Payload p]) \<and>
     readPacket (t\<lparr>us_reads := map UsbBytes (drop (length (us_log s)) (us_log s')) @ rest\<rparr>) = (Inr p, t\<lparr>us_reads := rest\<rparr>)"
proof -
  have small: "length (pk_Payload p) \<le> packetLimit" and
    logged: "us_log s' = us_log s @ adb_header p # (if pk_Payload p = [] then [] else [pk_Payload p])"
    using assms by (auto simp: writePacket_def bulkWrite_def Let_def split: if_splits)
  have "map UsbBytes (drop (length (us_log s)) (us_log s')) = packet_reads p"
    by (simp add: logged packet_reads_def)
  with logged readPacket_packet [OF small] show ?thesis by simp
qed

theorem packet_roundtrip_witness:
  "\<exists>s'. writePacket \<lparr>pk_Command = adbWRTE, pk_Arg0 = 1, pk_Arg1 = 2, pk_Payload = [7, 8]\<rparr>
       \<lparr>us_reads = [], us_writes = [], us_clock = [], us_log = []\<rparr> = (None, s') \<and>
     fst (readPacket (s'\<lparr>us_reads := map UsbBytes (us_log s')\<rparr>)) = Inr \<lparr>pk_Command = adbWRTE, pk_Arg0 = 1, pk_Arg1 = 2, pk_Payload = [7, 8]\<rparr>"
proof -
  let ?p = "\<lparr>pk_Command = adbWRTE, pk_Arg0 = 1, pk_Arg1 = 2, pk_Payload = [7, 8]\<rparr>"
  let ?s = "\<lparr>us_reads = [], us_writes = [], us_clock = [], us_log = []\<rparr>"
  obtain s' where "writePacket ?p ?s = (None, s')"
    by (simp add: writePacket_def bulkWrite_def packetLimit_def)
  moreover from conjunct2 [OF packet_roundtrip [OF this, where t = s' and rest = "[]"]] have "fst (readPacket (s'\<lparr>us_reads := map UsbBytes (us_log s')\<rparr>)) = Inr ?p"
    by simp
  ultimately show ?thesis by blast
qed

text \<open>The checksum is the only check of a payload: its length is not compared with the announced one. A transfer that is cut
  where only zero bytes follow is taken for the whole payload.\<close>

lemma checksum_append: "checksum (xs @ ys) = checksum xs + checksum ys"
proof -
  have shift: "foldl (\<lambda>total v. total + ucast v) a ys = a + checksum ys" for a :: "32 word" and ys :: "byte list"
    by (induction ys rule: rev_induct) (simp_all add: checksum_def)
  show ?thesis using shift [of "checksum xs"] by (simp add: checksum_def)
qed

theorem short_payload_accepted:
  assumes "pk_Payload p = sent @ replicate n 0" and "sent \<noteq> []" and "length (pk_Payload p) \<le> packetLimit"
  shows "readPacket (s\<lparr>us_reads := UsbBytes (adb_header p) # UsbBytes sent # rest\<rparr>) = (Inr (p\<lparr>pk_Payload := sent\<rparr>), s\<lparr>us_reads := rest\<rparr>)"
proof -
  have "checksum (replicate n 0) = 0"
    by (induction n) (simp_all add: checksum_def)
  then have sum: "checksum (pk_Payload p) = checksum sent" by (simp add: assms(1) checksum_append)
  have len: "unat (word_of_nat (length (pk_Payload p)) :: 32 word) = length (pk_Payload p)"
    using assms(3) by (simp add: packetLimit_def unat_of_nat take_bit_eq_mod)
  have "length sent \<le> length (pk_Payload p)" "0 < length (pk_Payload p)" using assms(1,2) by simp_all
  then show ?thesis
    using assms(3)
    by (simp add: readPacket_def bulkRead_def headSize_def header_fields len sum Let_def packetLimit_def)
qed

theorem short_payload_accepted_witness:
  "fst (readPacket \<lparr>us_reads = [UsbBytes (adb_header \<lparr>pk_Command = adbWRTE, pk_Arg0 = 1, pk_Arg1 = 2, pk_Payload = [7, 0, 0]\<rparr>),
       UsbBytes [7]], us_writes = [], us_clock = [], us_log = []\<rparr>) =
     Inr \<lparr>pk_Command = adbWRTE, pk_Arg0 = 1, pk_Arg1 = 2, pk_Payload = [7]\<rparr>"
  using short_payload_accepted [where p = "\<lparr>pk_Command = adbWRTE, pk_Arg0 = 1, pk_Arg1 = 2, pk_Payload = [7, 0, 0]\<rparr>"
      and sent = "[7]" and n = 2 and s = "\<lparr>us_reads = [], us_writes = [], us_clock = [], us_log = []\<rparr>" and rest = "[]"]
  by (simp add: packetLimit_def numeral_2_eq_2)

end
