(* ===== verification/Adb_Services.thy ===== *)
theory Adb_Services
  imports Adb_Wire
begin

text \<open>
  The services of the ADB connection of \<^verbatim>\<open>qdc507-adb-readonly/main.go\<close>: the handshake, a shell command, and reading
  one file through the sync service. However the module cuts the stream, the file is pulled whole.
\<close>

section \<open>Reading gets shorter\<close>

lemma expired_reads: "expired s = (b, s') \<Longrightarrow> us_reads s' = us_reads s"
  by (auto simp: expired_def split: list.splits)

lemma bulkWrite_reads: "bulkWrite payload s = (r, s') \<Longrightarrow> us_reads s' = us_reads s"
  by (auto simp: bulkWrite_def Let_def split: option.splits usb_write.splits if_splits)

lemma writePacket_reads: "writePacket p s = (r, s') \<Longrightarrow> us_reads s' = us_reads s"
  by (fastforce simp: writePacket_def split: prod.splits option.splits if_splits dest: bulkWrite_reads)

lemma bulkRead_le: "bulkRead n s = (r, s') \<Longrightarrow> length (us_reads s') \<le> length (us_reads s)"
  by (auto simp: bulkRead_def split: list.splits if_splits)

lemma bulkRead_less: "bulkRead n s = (Inr bs, s') \<Longrightarrow> length (us_reads s') < length (us_reads s)"
  by (auto simp: bulkRead_def split: list.splits if_splits usb_read.splits)

lemma readPacket_less:
  assumes "readPacket s = (Inr p, s')"
  shows "length (us_reads s') < length (us_reads s)"
proof -
  obtain header s1 where header: "bulkRead headSize s = (Inr header, s1)"
      and rest: "s' = s1 \<or> (\<exists>n payload. bulkRead n s1 = (Inr payload, s'))"
    using assms by (auto simp: readPacket_def and_then_Inr Let_def split: if_splits)
  from rest bulkRead_le have "length (us_reads s') \<le> length (us_reads s1)" by blast
  with bulkRead_less [OF header] show ?thesis by simp
qed

lemmas shrinking = expired_reads [OF sym] writePacket_reads [OF sym] readPacket_less [OF sym]

section \<open>Handshake and shell\<close>

definition text_packet :: "32 word \<Rightarrow> 32 word \<Rightarrow> 32 word \<Rightarrow> string \<Rightarrow> packet" where
  "text_packet command arg0 arg1 content =
     \<lparr>pk_Command = command, pk_Arg0 = arg0, pk_Arg1 = arg1, pk_Payload = string_bytes content\<rparr>"

definition nul :: char where "nul = CHR 0x00"

definition errADBAuthRequired :: string where
  "errADBAuthRequired = ''ADB device requested AUTH; no key or authorization was attempted''"

definition adb_handshake :: "usbADB \<Rightarrow> string option \<times> usbADB" where
  "adb_handshake s =
     (case writePacket (text_packet adbCNXN 0x01000000 (word_of_nat adbMaxData) (''host::'' @ [nul])) s of
        (Some e, s1) \<Rightarrow> (Some e, s1)
      | (None, s1) \<Rightarrow>
          (case readPacket s1 of
             (Inl e, s2) \<Rightarrow> (Some (''read CNXN response: '' @ e), s2)
           | (Inr p, s2) \<Rightarrow>
               ((if pk_Command p = adbCNXN then None
                 else if pk_Command p = adbAUTH then Some errADBAuthRequired
                 else Some (''unexpected ADB handshake command 0x'' @ hex8 (pk_Command p))), s2)))"

function shell_loop :: "string \<Rightarrow> 32 word \<Rightarrow> string \<Rightarrow> usbADB \<Rightarrow> (string \<times> string option) \<times> usbADB" where
  "shell_loop command remoteID out s =
     (case expired s of
        (True, s0) \<Rightarrow> ((out, Some (''shell '' @ go_quote command @ '' timed out'')), s0)
      | (False, s0) \<Rightarrow>
          (case readPacket s0 of
             (Inl e, s1) \<Rightarrow> ((out, Some (''read shell '' @ go_quote command @ '': '' @ e)), s1)
           | (Inr p, s1) \<Rightarrow>
               if pk_Command p = adbOKAY then shell_loop command (pk_Arg0 p) out s1
               else if pk_Command p = adbWRTE
               then let remote = (if remoteID = 0 then pk_Arg0 p else remoteID); out1 = out @ bytes_string (pk_Payload p)
                    in (case writePacket (text_packet adbOKAY 1 remote []) s1 of
                          (Some e, s2) \<Rightarrow> ((out1, Some (''ack shell '' @ go_quote command @ '': '' @ e)), s2)
                        | (None, s2) \<Rightarrow> shell_loop command remote out1 s2)
               else if pk_Command p = adbCLSE
               then ((out, None), snd (writePacket (text_packet adbCLSE 1 (pk_Arg0 p) []) s1))
               else ((out, Some (''unexpected shell command 0x'' @ hex8 (pk_Command p))), s1)))"
  by pat_completeness auto
termination
  by (relation "measure (\<lambda>(command, remoteID, out, s). length (us_reads s))")
    (auto dest!: shrinking)

declare shell_loop.simps [simp del]

definition shell :: "string \<Rightarrow> usbADB \<Rightarrow> (string \<times> string option) \<times> usbADB" where
  "shell command s =
     (case writePacket (text_packet adbOPEN 1 0 (''shell:'' @ command @ [nul])) s of
        (Some e, s1) \<Rightarrow> (([], Some (''open shell '' @ go_quote command @ '': '' @ e)), s1)
      | (None, s1) \<Rightarrow> shell_loop command 0 [] s1)"

section \<open>Opening and closing a service\<close>

definition openService :: "32 word \<Rightarrow> string \<Rightarrow> usbADB \<Rightarrow> (string, 32 word) result \<times> usbADB" where
  "openService localID service s =
     (case writePacket (text_packet adbOPEN localID 0 (service @ [nul])) s of
        (Some e, s1) \<Rightarrow> (Inl (''open ADB '' @ service @ '': '' @ e), s1)
      | (None, s1) \<Rightarrow>
          (case expired s1 of
             (True, s2) \<Rightarrow> (Inl (''ADB '' @ service @ '' open timed out''), s2)
           | (False, s2) \<Rightarrow>
               (case readPacket s2 of
                  (Inl e, s3) \<Rightarrow> (Inl (''read ADB '' @ service @ '' open: '' @ e), s3)
                | (Inr p, s3) \<Rightarrow>
                    ((if pk_Command p = adbOKAY then Inr (pk_Arg0 p)
                      else if pk_Command p = adbCLSE then Inl (''ADB '' @ service @ '' service closed during open'')
                      else Inl (''unexpected ADB '' @ service @ '' open packet 0x'' @ hex8 (pk_Command p))), s3))))"

function close_loop :: "32 word \<Rightarrow> 32 word \<Rightarrow> usbADB \<Rightarrow> string option \<times> usbADB" where
  "close_loop localID remoteID s =
     (case expired s of
        (True, s0) \<Rightarrow> (Some ''ADB service close timed out'', s0)
      | (False, s0) \<Rightarrow>
          (case readPacket s0 of
             (Inl e, s1) \<Rightarrow> (Some e, s1)
           | (Inr p, s1) \<Rightarrow>
               if pk_Command p = adbCLSE then (None, s1)
               else if pk_Command p = adbOKAY then close_loop localID remoteID s1
               else if pk_Command p = adbWRTE
               then (case writePacket (text_packet adbOKAY localID remoteID []) s1 of
                       (Some e, s2) \<Rightarrow> (Some e, s2)
                     | (None, s2) \<Rightarrow> close_loop localID remoteID s2)
               else (Some (''unexpected ADB close packet 0x'' @ hex8 (pk_Command p)), s1)))"
  by pat_completeness auto
termination
  by (relation "measure (\<lambda>(localID, remoteID, s). length (us_reads s))")
    (auto dest!: shrinking)

declare close_loop.simps [simp del]

definition closeService :: "32 word \<Rightarrow> 32 word \<Rightarrow> usbADB \<Rightarrow> string option \<times> usbADB" where
  "closeService localID remoteID s =
     (case writePacket (text_packet adbCLSE localID remoteID []) s of
        (Some e, s1) \<Rightarrow> (Some e, s1)
      | (None, s1) \<Rightarrow> close_loop localID remoteID s1)"

section \<open>Reading a file\<close>

definition syncRECV :: "32 word" where "syncRECV = 0x56434552"
definition syncDATA :: "32 word" where "syncDATA = 0x41544144"
definition syncDONE :: "32 word" where "syncDONE = 0x454e4f44"
definition syncFAIL :: "32 word" where "syncFAIL = 0x4c494146"

text \<open>What the local file system answers: whether the destination exists (\<^term>\<open>None\<close>: the test failed), and whether the
  temporary file can be made, written, closed and renamed.\<close>

record LocalFiles =
  lf_exists :: "bool option"
  lf_temp :: bool
  lf_write :: "byte list \<Rightarrow> byte list \<Rightarrow> bool"
  lf_close :: bool
  lf_rename :: bool

datatype sync_state = SyncMore | SyncDone | SyncFailed string

datatype sync_next = NeedMore | BadLength "32 word" nat | Record "32 word" "byte list" "byte list"

definition next_record :: "byte list \<Rightarrow> sync_next" where
  "next_record buf =
     (if length buf < 8 then NeedMore
      else let kind = read_le32 buf; len = unat (read_le32 (drop 4 buf))
           in if packetLimit < len then BadLength kind len
              else if length buf < 8 + len then NeedMore
              else Record kind (take len (drop 8 buf)) (drop (8 + len) buf))"

lemma next_record_shorter: "next_record buf = Record kind data rest \<Longrightarrow> length rest < length buf"
  by (auto simp: next_record_def Let_def split: if_splits)

text \<open>The complete records of the buffer; \<open>content\<close> is what was written to the temporary file.\<close>

function drain_records :: "LocalFiles \<Rightarrow> byte list \<Rightarrow> byte list \<Rightarrow> sync_state \<times> byte list \<times> byte list" where
  "drain_records lf content buf =
     (case next_record buf of
        NeedMore \<Rightarrow> (SyncMore, content, buf)
      | BadLength kind len \<Rightarrow>
          (SyncFailed (''invalid ADB sync record length kind=0x'' @ hex8 kind @ '' length='' @ nat_to_string len @
             '' buffered='' @ nat_to_string (length buf)), content, buf)
      | Record kind data rest \<Rightarrow>
          if kind = syncDATA
          then (if 16 * 1024 * 1024 < length content + length data
                then (SyncFailed ''ADB pull exceeds 16 MiB safety limit'', content, rest)
                else if \<not> lf_write lf content data then (SyncFailed ''write pulled data'', content, rest)
                else drain_records lf (content @ data) rest)
          else if kind = syncDONE
          then (if data \<noteq> [] then (SyncFailed ''ADB sync DONE record has payload'', content, rest)
                else (SyncDone, content, rest))
          else if kind = syncFAIL
          then (SyncFailed (''module rejected ADB pull: '' @ bytes_string data), content, rest)
          else (SyncFailed (''unknown ADB sync record 0x'' @ hex8 kind), content, rest))"
  by pat_completeness auto
termination
  by (relation "measure (\<lambda>(lf, content, buf). length buf)") (auto dest: next_record_shorter)

declare drain_records.simps [simp del]

function pull_loop ::
  "LocalFiles \<Rightarrow> 32 word \<Rightarrow> byte list \<Rightarrow> byte list \<Rightarrow> usbADB \<Rightarrow> (string, byte list) result \<times> 32 word \<times> usbADB" where
  "pull_loop lf remoteID content buf s =
     (case readPacket s of
        (Inl e, s1) \<Rightarrow> (Inl (''read ADB sync response: '' @ e), remoteID, s1)
      | (Inr p, s1) \<Rightarrow>
          if pk_Command p = adbOKAY then pull_loop lf (pk_Arg0 p) content buf s1
          else if pk_Command p = adbWRTE
          then (case writePacket (text_packet adbOKAY 2 remoteID []) s1 of
                  (Some e, s2) \<Rightarrow> (Inl (''ack ADB sync response: '' @ e), remoteID, s2)
                | (None, s2) \<Rightarrow>
                    (case drain_records lf content (buf @ pk_Payload p) of
                       (SyncMore, content1, buf1) \<Rightarrow> pull_loop lf remoteID content1 buf1 s2
                     | (SyncFailed e, _, _) \<Rightarrow> (Inl e, remoteID, s2)
                     | (SyncDone, content1, _) \<Rightarrow>
                         if \<not> lf_close lf then (Inl ''close pulled data'', remoteID, s2)
                         else if \<not> lf_rename lf then (Inl ''publish pulled file'', remoteID, s2)
                         else (Inr content1, remoteID, snd (closeService 2 remoteID s2))))
          else if pk_Command p = adbCLSE then (Inl ''module closed ADB sync before DONE'', remoteID, s1)
          else (Inl (''unexpected ADB sync packet 0x'' @ hex8 (pk_Command p)), remoteID, s1))"
  by pat_completeness auto
termination
  by (relation "measure (\<lambda>(lf, remoteID, content, buf, s). length (us_reads s))")
    (auto dest!: shrinking)

declare pull_loop.simps [simp del]

definition sync_record :: "32 word \<Rightarrow> byte list \<Rightarrow> byte list" where
  "sync_record kind data = le32 kind @ le32 (word_of_nat (length data)) @ data"

text \<open>The answer of a pull is the content it published under the local name. The deferred close is sent on every way out.\<close>

definition pull :: "LocalFiles \<Rightarrow> string \<Rightarrow> string \<Rightarrow> usbADB \<Rightarrow> (string, byte list) result \<times> usbADB" where
  "pull lf remotePath localPath s =
     (if \<not> has_prefix remotePath ''/'' \<or> nul \<in> set remotePath
      then (Inl ''ADB pull path must be an absolute module path without NUL'', s)
      else if localPath = [] then (Inl ''ADB pull output path is required'', s)
      else if lf_exists lf = Some True then (Inl (''refusing to overwrite existing local file '' @ localPath), s)
      else if lf_exists lf = None then (Inl ''check local pull output'', s)
      else and_then (openService 2 ''sync:'' s) (\<lambda>remoteID s1.
        case (case writePacket \<lparr>pk_Command = adbWRTE, pk_Arg0 = 2, pk_Arg1 = remoteID,
                     pk_Payload = sync_record syncRECV (string_bytes remotePath)\<rparr> s1 of
                (Some e, s2) \<Rightarrow> (Inl (''send ADB RECV: '' @ e), remoteID, s2)
              | (None, s2) \<Rightarrow>
                  if \<not> lf_temp lf then (Inl ''create local pull temporary'', remoteID, s2)
                  else pull_loop lf remoteID [] [] s2) of
          (r, remote, s3) \<Rightarrow> (r, snd (writePacket (text_packet adbCLSE 2 remote []) s3))))"

section \<open>However the stream is cut\<close>

lemma read_le32_append: "4 \<le> length xs \<Longrightarrow> read_le32 (xs @ ys) = read_le32 xs"
  by (cases xs rule: read_le32.cases) auto

lemma next_record_append:
  "next_record buf = Record kind data rest \<Longrightarrow> next_record (buf @ extra) = Record kind data (rest @ extra)"
  "next_record buf = BadLength kind len \<Longrightarrow> next_record (buf @ extra) = BadLength kind len"
  by (auto simp: next_record_def Let_def read_le32_append split: if_splits)

lemma drain_append:
  "drain_records lf content buf = (SyncMore, content1, buf1) \<Longrightarrow>
     drain_records lf content (buf @ extra) = drain_records lf content1 (buf1 @ extra)"
proof (induction lf content buf rule: drain_records.induct)
  case (1 lf content buf)
  show ?case
  proof (cases "next_record buf")
    case (Record kind data rest)
    with 1(2) have go: "kind = syncDATA" "\<not> 16 * 1024 * 1024 < length content + length data" "lf_write lf content data"
        and onward: "drain_records lf (content @ data) rest = (SyncMore, content1, buf1)"
      by (subst (asm) drain_records.simps, auto split: if_splits)+
    from 1(1) [OF Record go(1,2) _ onward] go(3)
    have "drain_records lf (content @ data) (rest @ extra) = drain_records lf content1 (buf1 @ extra)" by simp
    moreover have "drain_records lf content (buf @ extra) = drain_records lf (content @ data) (rest @ extra)"
      using next_record_append(1) [OF Record] go by (subst drain_records.simps) simp
    ultimately show ?thesis by simp
  qed (use 1(2) in \<open>subst (asm) drain_records.simps, simp\<close>)+
qed

lemma drain_append_end:
  "drain_records lf content buf = (st, content1, buf1) \<Longrightarrow> st \<noteq> SyncMore \<Longrightarrow>
     \<exists>st'. drain_records lf content (buf @ extra) = (st', content1, buf1 @ extra) \<and> (st' = SyncDone \<longleftrightarrow> st = SyncDone)"
proof (induction lf content buf rule: drain_records.induct)
  case (1 lf content buf)
  show ?case
  proof (cases "next_record buf")
    case NeedMore
    then have "drain_records lf content buf = (SyncMore, content, buf)" by (subst drain_records.simps) simp
    with 1(2,3) show ?thesis by simp
  next
    case (BadLength kind len)
    from next_record_append(2) [OF this] BadLength 1(2) show ?thesis
      by (subst (asm) drain_records.simps, subst drain_records.simps) auto
  next
    case (Record kind data rest)
    note longer = next_record_append(1) [OF Record, of extra]
    show ?thesis
    proof (cases "kind = syncDATA \<and> \<not> 16 * 1024 * 1024 < length content + length data \<and> lf_write lf content data")
      case True
      with 1(2) Record have onward: "drain_records lf (content @ data) rest = (st, content1, buf1)"
        by (subst (asm) drain_records.simps) simp
      have "drain_records lf content (buf @ extra) = drain_records lf (content @ data) (rest @ extra)"
        using longer True by (subst drain_records.simps) simp
      with 1(1) [OF Record _ _ _ onward 1(3)] True show ?thesis by simp
    next
      case False
      with 1(2) Record longer show ?thesis
        by (subst (asm) drain_records.simps, subst drain_records.simps) (auto split: if_splits)
    qed
  qed
qed

lemma sync_record_fields:
  "read_le32 (sync_record kind data @ rest) = kind"
  "read_le32 (drop 4 (sync_record kind data @ rest)) = word_of_nat (length data)"
  "drop 8 (sync_record kind data @ rest) = data @ rest"
  by (simp_all add: sync_record_def)

lemma length_sync_record [simp]: "length (sync_record kind data) = 8 + length data"
  by (simp add: sync_record_def)

lemma small_length: "n \<le> packetLimit \<Longrightarrow> unat (word_of_nat n :: 32 word) = n"
  by (simp add: packetLimit_def unat_of_nat take_bit_eq_mod)

lemma next_record_sync_record:
  "length data \<le> packetLimit \<Longrightarrow> next_record (sync_record kind data @ rest) = Record kind data rest"
  unfolding next_record_def Let_def sync_record_fields
  by (simp add: small_length sync_record_def)

lemma drain_stream:
  assumes "list_all (\<lambda>d. length d \<le> packetLimit) datas" and "length content + length (concat datas) \<le> 16 * 1024 * 1024"
    and "\<forall>c d. lf_write lf c d"
  shows "drain_records lf content (concat (map (sync_record syncDATA) datas) @ sync_record syncDONE [] @ extra) =
    (SyncDone, content @ concat datas, extra)"
  using assms(1,2)
proof (induction datas arbitrary: content)
  case Nil
  have "syncDONE \<noteq> syncDATA" by (simp add: syncDONE_def syncDATA_def)
  then show ?case
    using next_record_sync_record [of "[]" syncDONE extra] by (subst drain_records.simps) simp
next
  case (Cons d datas)
  let ?tail = "concat (map (sync_record syncDATA) datas) @ sync_record syncDONE [] @ extra"
  have "next_record (sync_record syncDATA d @ ?tail) = Record syncDATA d ?tail"
    using Cons.prems(1) by (simp add: next_record_sync_record)
  then have "drain_records lf content (sync_record syncDATA d @ ?tail) = drain_records lf (content @ d) ?tail"
    using Cons.prems(2) assms(3) by (subst drain_records.simps) simp
  also have "\<dots> = (SyncDone, content @ concat (d # datas), extra)"
    using Cons.IH [of "content @ d"] Cons.prems by simp
  finally show ?case by simp
qed

text \<open>The packets of the stream: acknowledgements, and writes that carry some of its bytes.\<close>

definition stream_packet :: "packet \<Rightarrow> bool" where
  "stream_packet p \<longleftrightarrow> pk_Command p \<in> {adbOKAY, adbWRTE} \<and> length (pk_Payload p) \<le> packetLimit"

definition carried :: "packet list \<Rightarrow> byte list" where
  "carried ps = concat (map pk_Payload (filter (\<lambda>p. pk_Command p = adbWRTE) ps))"

lemma carried_simps [simp]:
  "carried [] = []"
  "carried (p # ps) = (if pk_Command p = adbWRTE then pk_Payload p @ carried ps else carried ps)"
  by (simp_all add: carried_def)

definition clear_line :: "usbADB \<Rightarrow> bool" where
  "clear_line s \<longleftrightarrow> us_writes s = [] \<and> us_clock s = []"

lemma writePacket_clear:
  assumes "clear_line s" and "length (pk_Payload p) \<le> packetLimit"
  shows "\<exists>s'. writePacket p s = (None, s') \<and> clear_line s' \<and> us_reads s' = us_reads s"
  using assms by (simp add: clear_line_def writePacket_def bulkWrite_def Let_def)

lemma readPacket_next:
  assumes "us_reads s = packet_reads p @ rest" and "length (pk_Payload p) \<le> packetLimit"
  shows "readPacket s = (Inr p, s\<lparr>us_reads := rest\<rparr>)"
  using readPacket_packet [OF assms(2), where s = s and rest = rest] assms(1) [symmetric] by simp

lemma text_packet_small: "length content \<le> packetLimit \<Longrightarrow> length (pk_Payload (text_packet c a b content)) \<le> packetLimit"
  by (simp add: text_packet_def)

lemma pull_loop_stream:
  assumes "list_all stream_packet ps" and "us_reads s = concat (map packet_reads ps) @ rest" and "clear_line s"
    and "drain_records lf content buf = (SyncMore, content, buf)"
    and "drain_records lf content (buf @ carried ps) = (SyncDone, whole, left)" and "lf_close lf" and "lf_rename lf"
  shows "fst (pull_loop lf remoteID content buf s) = Inr whole"
  using assms(1-5)
proof (induction ps arbitrary: s content buf remoteID)
  case Nil
  then show ?case by simp
next
  case (Cons p ps)
  let ?s1 = "s\<lparr>us_reads := concat (map packet_reads ps) @ rest\<rparr>"
  have read: "readPacket s = (Inr p, ?s1)"
    by (rule readPacket_next) (use Cons.prems in \<open>simp_all add: stream_packet_def\<close>)
  have clear: "clear_line ?s1" using Cons.prems(3) by (simp add: clear_line_def)
  show ?case
  proof (cases "pk_Command p = adbWRTE")
    case False
    with Cons.prems(1) have "pk_Command p = adbOKAY" by (simp add: stream_packet_def)
    moreover have "fst (pull_loop lf (pk_Arg0 p) content buf ?s1) = Inr whole"
      using Cons.IH [of ?s1 content buf] Cons.prems clear False by simp
    ultimately show ?thesis using read by (subst pull_loop.simps) simp
  next
    case True
    have other: "adbWRTE \<noteq> adbOKAY" by (simp add: adbWRTE_def adbOKAY_def)
    obtain s2 where ack: "writePacket (text_packet adbOKAY 2 remoteID []) ?s1 = (None, s2)" "clear_line s2"
        "us_reads s2 = concat (map packet_reads ps) @ rest"
      using writePacket_clear [OF clear text_packet_small [of "[]"]] by fastforce
    obtain st content1 buf1 where drained: "drain_records lf content (buf @ pk_Payload p) = (st, content1, buf1)"
      by (cases "drain_records lf content (buf @ pk_Payload p)")
    have all: "drain_records lf content ((buf @ pk_Payload p) @ carried ps) = (SyncDone, whole, left)"
      using Cons.prems(5) True by simp
    show ?thesis
    proof (cases "st = SyncMore")
      case True
      have "drain_records lf content1 buf1 = (SyncMore, content1, buf1)"
        using drain_append [of lf content "buf @ pk_Payload p" content1 buf1 "[]"] drained True by simp
      moreover have "drain_records lf content1 (buf1 @ carried ps) = (SyncDone, whole, left)"
        using drain_append [of lf content "buf @ pk_Payload p" content1 buf1 "carried ps"] drained True all by simp
      ultimately have "fst (pull_loop lf remoteID content1 buf1 s2) = Inr whole"
        using Cons.IH [of s2 content1 buf1] Cons.prems(1) ack by simp
      then show ?thesis
        using read ack(1) drained \<open>pk_Command p = adbWRTE\<close> True other by (subst pull_loop.simps) simp
    next
      case False
      then have "st = SyncDone" "content1 = whole"
        using drain_append_end [OF drained False, of "carried ps"] all by auto
      then show ?thesis
        using read ack(1) drained \<open>pk_Command p = adbWRTE\<close> other assms(6,7) by (subst pull_loop.simps) simp
    qed
  qed
qed

text \<open>C35: a file is pulled whole however the module cuts the sync stream into packets and wherever it acknowledges: when no transfer
  fails or is late, the local files can be written, and the stream carries the records of a file of at most sixteen megabytes,
  the content published under the local name is the file.\<close>

theorem pull_any_cut:
  assumes "has_prefix remotePath ''/''" and "nul \<notin> set remotePath" and "length remotePath \<le> 4096" and "localPath \<noteq> []"
    and "lf_exists lf = Some False" and "lf_temp lf" and "\<forall>c d. lf_write lf c d" and "lf_close lf" and "lf_rename lf"
    and "list_all (\<lambda>d. length d \<le> packetLimit) datas" and "length (concat datas) \<le> 16 * 1024 * 1024"
    and "list_all stream_packet ps"
    and "carried ps = concat (map (sync_record syncDATA) datas) @ sync_record syncDONE []"
    and "us_reads s = packet_reads (text_packet adbOKAY r 2 []) @ concat (map packet_reads ps) @ rest" and "clear_line s"
  shows "fst (pull lf remotePath localPath s) = Inr (concat datas)"
proof -
  obtain s1 where opened: "writePacket (text_packet adbOPEN 2 0 (''sync:'' @ [nul])) s = (None, s1)" "clear_line s1"
      "us_reads s1 = us_reads s"
    using writePacket_clear [OF assms(15) text_packet_small [of "''sync:'' @ [nul]"]] by (fastforce simp: packetLimit_def)
  let ?s2 = "s1\<lparr>us_reads := concat (map packet_reads ps) @ rest\<rparr>"
  have small: "length (pk_Payload (text_packet adbOKAY r 2 [])) \<le> packetLimit" by (simp add: text_packet_def)
  have "readPacket s1 = (Inr (text_packet adbOKAY r 2 []), ?s2)"
    using readPacket_next [OF _ small, of s1] opened(3) assms(14) by simp
  moreover have "expired s1 = (False, s1)" using opened(2) by (simp add: expired_def clear_line_def)
  ultimately have service: "openService 2 ''sync:'' s = (Inr r, ?s2)"
    using opened(1) by (simp add: openService_def text_packet_def)
  let ?request = "\<lparr>pk_Command = adbWRTE, pk_Arg0 = 2, pk_Arg1 = r, pk_Payload = sync_record syncRECV (string_bytes remotePath)\<rparr>"
  have "clear_line ?s2" using opened(2) by (simp add: clear_line_def)
  then obtain s3 where sent: "writePacket ?request ?s2 = (None, s3)" "clear_line s3" "us_reads s3 = us_reads ?s2"
    using writePacket_clear [of ?s2 ?request] assms(3) by (fastforce simp: packetLimit_def)
  have "drain_records lf [] (carried ps) = (SyncDone, concat datas, [])"
    using drain_stream [OF assms(10) _ assms(7), of "[]" "[]"] assms(11,13) by simp
  moreover have "drain_records lf [] [] = (SyncMore, [], [])"
    by (subst drain_records.simps) (simp add: next_record_def)
  ultimately have "fst (pull_loop lf r [] [] s3) = Inr (concat datas)"
    using pull_loop_stream [OF assms(12) _ sent(2) _ _ assms(8,9), of rest "[]" "[]"] sent(3) by simp
  then show ?thesis
    using assms(1,2,4-6) service sent(1) by (cases "pull_loop lf r [] [] s3") (simp add: pull_def)
qed

theorem pull_any_cut_witness:
  "\<exists>a b. sync_record syncDATA [1, 2, 3] @ sync_record syncDONE [] = a @ b \<and> length a = 9 \<and>
     fst (pull \<lparr>lf_exists = Some False, lf_temp = True, lf_write = (\<lambda>c d. True), lf_close = True, lf_rename = True\<rparr> ''/etc/x'' ''x''
       \<lparr>us_reads = concat (map packet_reads [text_packet adbOKAY 7 2 [], \<lparr>pk_Command = adbWRTE, pk_Arg0 = 7, pk_Arg1 = 2, pk_Payload = a\<rparr>,
            text_packet adbOKAY 7 2 [], \<lparr>pk_Command = adbWRTE, pk_Arg0 = 7, pk_Arg1 = 2, pk_Payload = b\<rparr>]),
        us_writes = [], us_clock = [], us_log = []\<rparr>) = Inr [1, 2, 3]"
proof (intro exI conjI)
  let ?all = "sync_record syncDATA [1, 2, 3] @ sync_record syncDONE []"
  let ?a = "take 9 ?all" and ?b = "drop 9 ?all"
  let ?ps = "[\<lparr>pk_Command = adbWRTE, pk_Arg0 = 7, pk_Arg1 = 2, pk_Payload = ?a\<rparr>, text_packet adbOKAY 7 2 [],
      \<lparr>pk_Command = adbWRTE, pk_Arg0 = 7, pk_Arg1 = 2, pk_Payload = ?b\<rparr>]"
  show "?all = ?a @ ?b" by (rule append_take_drop_id [symmetric])
  show "length ?a = 9" by simp
  have differ: "adbOKAY \<noteq> adbWRTE" by (simp add: adbOKAY_def adbWRTE_def)
  have "list_all stream_packet ?ps"
    by (simp add: stream_packet_def text_packet_def packetLimit_def)
  moreover have "carried ?ps = concat (map (sync_record syncDATA) [[1, 2, 3]]) @ sync_record syncDONE []"
    using differ by (simp add: text_packet_def del: take_append drop_append)
  ultimately show "fst (pull \<lparr>lf_exists = Some False, lf_temp = True, lf_write = (\<lambda>c d. True), lf_close = True, lf_rename = True\<rparr> ''/etc/x'' ''x''
       \<lparr>us_reads = concat (map packet_reads [text_packet adbOKAY 7 2 [], \<lparr>pk_Command = adbWRTE, pk_Arg0 = 7, pk_Arg1 = 2, pk_Payload = ?a\<rparr>,
            text_packet adbOKAY 7 2 [], \<lparr>pk_Command = adbWRTE, pk_Arg0 = 7, pk_Arg1 = 2, pk_Payload = ?b\<rparr>]),
        us_writes = [], us_clock = [], us_log = []\<rparr>) = Inr [1, 2, 3]"
    using pull_any_cut [of "''/etc/x''" "''x''" "\<lparr>lf_exists = Some False, lf_temp = True, lf_write = (\<lambda>c d. True), lf_close = True, lf_rename = True\<rparr>"
        "[[1, 2, 3]]" ?ps _ 7 "[]"]
    by (simp add: has_prefix_def nul_def packetLimit_def clear_line_def del: take_append drop_append)
qed

section \<open>What is written\<close>

text \<open>From one state to another nothing was written but headers of the five commands and payloads of a set.\<close>

definition adb_headers :: "byte list set" where
  "adb_headers = {adb_header p |p. pk_Command p \<in> {adbCNXN, adbOPEN, adbOKAY, adbCLSE, adbWRTE}}"

definition writes :: "byte list set \<Rightarrow> usbADB \<Rightarrow> usbADB \<Rightarrow> bool" where
  "writes A s s' \<longleftrightarrow> (\<exists>log. us_log s' = us_log s @ log \<and> set log \<subseteq> adb_headers \<union> A)"

lemma writes_trans: "writes A s s1 \<Longrightarrow> writes A s1 s2 \<Longrightarrow> writes A s s2"
  unfolding writes_def by fastforce

lemma writes_mono: "writes A s s' \<Longrightarrow> A \<subseteq> B \<Longrightarrow> writes B s s'"
  unfolding writes_def by blast

lemma writes_same_log: "us_log s' = us_log s \<Longrightarrow> writes A s s'"
  by (simp add: writes_def)

lemmas read_writes = writes_same_log [OF expired_log] writes_same_log [OF readPacket_log]

lemma writePacket_writes:
  assumes "writePacket p s = (r, s')" and "pk_Command p \<in> {adbCNXN, adbOPEN, adbOKAY, adbCLSE, adbWRTE}"
    and "pk_Payload p = [] \<or> pk_Payload p \<in> A"
  shows "writes A s s'"
proof -
  obtain log where "us_log s' = us_log s @ log" "log \<in> {[], [adb_header p]} \<or> pk_Payload p \<noteq> [] \<and> log = [adb_header p, pk_Payload p]"
    using assms(1) by (auto simp: writePacket_def split: if_splits prod.splits option.splits dest!: bulkWrite_log)
  moreover have "adb_header p \<in> adb_headers" using assms(2) by (auto simp: adb_headers_def)
  ultimately show ?thesis using assms(3) by (auto simp: writes_def)
qed

lemma text_packet_writes:
  assumes "writePacket (text_packet c a b content) s = (r, s')" and "c \<in> {adbCNXN, adbOPEN, adbOKAY, adbCLSE, adbWRTE}"
    and "content = [] \<or> string_bytes content \<in> A"
  shows "writes A s s'"
  by (rule writePacket_writes [OF assms(1)]) (use assms in \<open>auto simp: text_packet_def string_bytes_def\<close>)

lemma ack_writes:
  "writePacket (text_packet adbOKAY a b []) s = (r, s') \<Longrightarrow> writes A s s'"
  "writePacket (text_packet adbCLSE a b []) s = (r, s') \<Longrightarrow> writes A s s'"
  by (auto intro: text_packet_writes)

lemma turn_writes:
  assumes "expired s = (b, s0)" and "readPacket s0 = (q, s1)"
  shows "writes A s s1" and "q = Inr p \<Longrightarrow> length (us_reads s1) < length (us_reads s)"
  using writes_same_log [of s1 s] expired_log [OF assms(1)] readPacket_log [OF assms(2)] readPacket_less [of s0 p s1]
    expired_reads [OF assms(1)] assms(2) by simp_all

lemma turn_ack_writes:
  assumes "expired s = (b, s0)" and "readPacket s0 = (Inr p, s1)" and "writePacket (text_packet adbOKAY x y []) s1 = (e, s2)"
  shows "writes A s s2" and "length (us_reads s2) < length (us_reads s)"
  using writes_trans [OF turn_writes(1) [OF assms(1,2)] ack_writes(1) [OF assms(3)]]
    turn_writes(2) [OF assms(1,2) refl] writePacket_reads [OF assms(3)] by simp_all

lemma shell_loop_writes: "shell_loop command remoteID out s = (r, s') \<Longrightarrow> writes A s s'"
proof (induction "length (us_reads s)" arbitrary: s remoteID out rule: less_induct)
  case less
  have again: "writes A s s'" if "writes A s s2" "length (us_reads s2) < length (us_reads s)"
      "shell_loop command remote out2 s2 = (r, s')" for s2 remote out2
    using writes_trans [OF that(1) less.hyps [OF that(2,3)]] .
  obtain b s0 where clock: "expired s = (b, s0)" by (cases "expired s")
  obtain q s1 where read: "readPacket s0 = (q, s1)" by (cases "readPacket s0")
  note one = read_writes(1) [OF clock] turn_writes(1) [OF clock read]
  have less1: "length (us_reads s1) < length (us_reads s)" if "q = Inr p" for p using turn_writes(2) [OF clock read that] .
  have ack: "writes A s s2 \<and> (\<forall>p. q = Inr p \<longrightarrow> length (us_reads s2) < length (us_reads s))"
    if "writePacket (text_packet adbOKAY x y []) s1 = (e, s2)" for x y e s2
    using writes_trans [OF one(2) ack_writes(1) [OF that]] less1 writePacket_reads [OF that] by simp
  have bye: "writes A s (snd (writePacket (text_packet adbCLSE 1 x []) s1))" for x
    using writes_trans [OF one(2) ack_writes(2)] by (metis prod.collapse)
  have acked: "writes A s s'" if "writePacket (text_packet adbOKAY 1 x []) s1 = (None, s2)" "q = Inr p"
      "shell_loop command remote out2 s2 = (r, s')" for x p remote out2 s2
    using again ack [OF that(1)] that(2,3) by blast
  show ?case
    using less.prems clock read one less1 ack bye
    by (subst (asm) shell_loop.simps)
      (auto simp: Let_def split: prod.splits bool.splits sum.splits option.splits if_splits intro: again acked)
qed

lemma close_loop_writes: "close_loop localID remoteID s = (r, s') \<Longrightarrow> writes A s s'"
proof (induction "length (us_reads s)" arbitrary: s rule: less_induct)
  case less
  have again: "writes A s s'" if "writes A s s2" "length (us_reads s2) < length (us_reads s)"
      "close_loop localID remoteID s2 = (r, s')" for s2
    using writes_trans [OF that(1) less.hyps [OF that(2,3)]] .
  obtain b s0 where clock: "expired s = (b, s0)" by (cases "expired s")
  obtain q s1 where read: "readPacket s0 = (q, s1)" by (cases "readPacket s0")
  note one = read_writes(1) [OF clock] turn_writes(1) [OF clock read]
  have less1: "length (us_reads s1) < length (us_reads s)" if "q = Inr p" for p using turn_writes(2) [OF clock read that] .
  have ack: "writes A s s2 \<and> (\<forall>p. q = Inr p \<longrightarrow> length (us_reads s2) < length (us_reads s))"
    if "writePacket (text_packet adbOKAY x y []) s1 = (e, s2)" for x y e s2
    using writes_trans [OF one(2) ack_writes(1) [OF that]] less1 writePacket_reads [OF that] by simp
  have acked: "writes A s s'" if "writePacket (text_packet adbOKAY localID remoteID []) s1 = (None, s2)" "q = Inr p"
      "close_loop localID remoteID s2 = (r, s')" for p s2
    using again ack [OF that(1)] that(2,3) by blast
  show ?case
    using less.prems clock read one less1 ack
    by (subst (asm) close_loop.simps)
      (auto split: prod.splits bool.splits sum.splits option.splits if_splits intro: again acked)
qed

lemma closeService_writes: "closeService localID remoteID s = (r, s') \<Longrightarrow> writes A s s'"
  unfolding closeService_def
  by (auto split: prod.splits option.splits dest: ack_writes intro: writes_trans [OF ack_writes(2) close_loop_writes])

lemma opened_writes:
  "writePacket (text_packet adbOPEN a b content) s = (r, s') \<Longrightarrow> writes {string_bytes content} s s'"
  by (auto intro: text_packet_writes)

lemma shell_writes: "shell command s = (r, s') \<Longrightarrow> writes {string_bytes (''shell:'' @ command @ [nul])} s s'"
proof -
  assume run: "shell command s = (r, s')"
  obtain e s1 where sent: "writePacket (text_packet adbOPEN 1 0 (''shell:'' @ command @ [nul])) s = (e, s1)" by fastforce
  note first = opened_writes [OF sent]
  show ?thesis
    using run sent first writes_trans [OF first shell_loop_writes] by (auto simp: shell_def split: option.splits)
qed

lemma openService_writes: "openService localID service s = (r, s') \<Longrightarrow> writes {string_bytes (service @ [nul])} s s'"
proof -
  assume run: "openService localID service s = (r, s')"
  obtain e s1 where sent: "writePacket (text_packet adbOPEN localID 0 (service @ [nul])) s = (e, s1)" by fastforce
  obtain b s2 where clock: "expired s1 = (b, s2)" by (cases "expired s1")
  obtain q s3 where read: "readPacket s2 = (q, s3)" by (cases "readPacket s2")
  note first = opened_writes [OF sent]
  show ?thesis
    using run sent clock read first writes_trans [OF first read_writes(1) [OF clock]] writes_trans [OF first turn_writes(1) [OF clock read]]
    by (auto simp: openService_def split: option.splits bool.splits sum.splits)
qed

lemma handshake_writes: "adb_handshake s = (r, s') \<Longrightarrow> writes {string_bytes (''host::'' @ [nul])} s s'"
proof -
  assume run: "adb_handshake s = (r, s')"
  obtain e s1 where sent: "writePacket (text_packet adbCNXN 0x01000000 (word_of_nat adbMaxData) (''host::'' @ [nul])) s = (e, s1)"
    by fastforce
  obtain q s2 where read: "readPacket s1 = (q, s2)" by (cases "readPacket s1")
  have first: "writes {string_bytes (''host::'' @ [nul])} s s1" by (rule text_packet_writes [OF sent]) simp_all
  show ?thesis
    using run sent read first writes_trans [OF first read_writes(2) [OF read]]
    by (auto simp: adb_handshake_def split: option.splits sum.splits)
qed

lemma pull_loop_writes: "pull_loop lf remoteID content buf s = (r, remote, s') \<Longrightarrow> writes A s s'"
proof (induction "length (us_reads s)" arbitrary: s remoteID content buf rule: less_induct)
  case less
  have again: "writes A s s'" if "writes A s s2" "length (us_reads s2) < length (us_reads s)"
      "pull_loop lf remoteID2 content2 buf2 s2 = (r, remote, s')" for s2 remoteID2 content2 buf2
    using writes_trans [OF that(1) less.hyps [OF that(2,3)]] .
  obtain q s1 where read: "readPacket s = (q, s1)" by (cases "readPacket s")
  have first: "writes A s s1" and less1: "\<And>p. q = Inr p \<Longrightarrow> length (us_reads s1) < length (us_reads s)"
    using read_writes(2) [OF read] readPacket_less read by auto
  have ack: "writes A s s2 \<and> (\<forall>p. q = Inr p \<longrightarrow> length (us_reads s2) < length (us_reads s))"
    if "writePacket (text_packet adbOKAY 2 remoteID []) s1 = (e, s2)" for e s2
    using writes_trans [OF first ack_writes(1) [OF that]] less1 writePacket_reads [OF that] by simp
  have bye: "writes A s (snd (closeService 2 remoteID s2))" if "writes A s s2" for s2
    using writes_trans [OF that closeService_writes] by (metis prod.collapse)
  show ?case
    using less.prems read first less1 ack bye
    by (subst (asm) pull_loop.simps)
      (auto split: prod.splits sum.splits option.splits if_splits sync_state.splits intro: again)
qed

definition pull_request :: "string \<Rightarrow> byte list" where
  "pull_request remotePath = sync_record syncRECV (string_bytes remotePath)"

lemma pull_writes:
  assumes "pull lf remotePath localPath s = (r, s')"
  shows "writes {string_bytes (''sync:'' @ [nul]), pull_request remotePath} s s'"
proof (cases "\<exists>remoteID s1. openService 2 ''sync:'' s = (Inr remoteID, s1)")
  case False
  then obtain e s1 where "openService 2 ''sync:'' s = (Inl e, s1)"
    by (cases "openService 2 ''sync:'' s"; cases "fst (openService 2 ''sync:'' s)") auto
  then show ?thesis
    using assms writes_mono [OF openService_writes] by (auto simp: pull_def writes_same_log split: if_splits)
next
  case True
  then obtain remoteID s1 where opened: "openService 2 ''sync:'' s = (Inr remoteID, s1)" by blast
  let ?A = "{string_bytes (''sync:'' @ [nul]), pull_request remotePath}"
  have first: "writes ?A s s1" using writes_mono [OF openService_writes [OF opened]] by simp
  obtain e s2 where sent: "writePacket \<lparr>pk_Command = adbWRTE, pk_Arg0 = 2, pk_Arg1 = remoteID,
      pk_Payload = sync_record syncRECV (string_bytes remotePath)\<rparr> s1 = (e, s2)" by fastforce
  have "writes ?A s1 s2" by (rule writePacket_writes [OF sent]) (simp_all add: pull_request_def)
  with first have second: "writes ?A s s2" by (rule writes_trans)
  have bye: "writes ?A s (snd (writePacket (text_packet adbCLSE 2 x []) s3))" if "writes ?A s s3" for x s3
    using writes_trans [OF that ack_writes(2)] by (metis prod.collapse)
  show ?thesis
  proof (cases "pull_loop lf remoteID [] [] s2")
    case (fields answer remote s3)
    have "writes ?A s s3" by (rule writes_trans [OF second pull_loop_writes [OF fields]])
    then show ?thesis
      using assms opened sent second fields bye
      by (auto simp: pull_def writes_same_log split: if_splits option.splits)
  qed
qed

end
