(* ===== verification/Agent_Push.thy ===== *)
theory Agent_Push
  imports Adb_Services
begin

text \<open>
  The writing side of \<^verbatim>\<open>tools/module-provisioner/qdc507-agent-stage/main.go\<close>: its shell and services, and the push of one
  file through the sync service. A push that succeeds has sent the file, and in transfers of at most 4096 bytes.
\<close>

section \<open>Shell and services\<close>

text \<open>The tool has its own copies, which differ in the texts of the errors and in the acknowledgement of a closing service.\<close>

function stage_shell_loop :: "32 word \<Rightarrow> string \<Rightarrow> usbADB \<Rightarrow> (string \<times> string option) \<times> usbADB" where
  "stage_shell_loop remoteID out s =
     (case expired s of
        (True, s0) \<Rightarrow> ((out, Some ''shell timed out''), s0)
      | (False, s0) \<Rightarrow>
          (case readPacket s0 of
             (Inl e, s1) \<Rightarrow> ((out, Some (''read shell: '' @ e)), s1)
           | (Inr p, s1) \<Rightarrow>
               if pk_Command p = adbOKAY then stage_shell_loop (pk_Arg0 p) out s1
               else if pk_Command p = adbWRTE
               then let remote = (if remoteID = 0 then pk_Arg0 p else remoteID); out1 = out @ bytes_string (pk_Payload p)
                    in (case writePacket (text_packet adbOKAY 1 remote []) s1 of
                          (Some e, s2) \<Rightarrow> ((out1, Some e), s2)
                        | (None, s2) \<Rightarrow> stage_shell_loop remote out1 s2)
               else if pk_Command p = adbCLSE
               then ((out, None), snd (writePacket (text_packet adbCLSE 1 (pk_Arg0 p) []) s1))
               else ((out, Some (''unexpected shell packet 0x'' @ hex8 (pk_Command p))), s1)))"
  by pat_completeness auto
termination
  by (relation "measure (\<lambda>(remoteID, out, s). length (us_reads s))") (auto dest!: shrinking)

declare stage_shell_loop.simps [simp del]

definition stage_shell :: "string \<Rightarrow> usbADB \<Rightarrow> (string \<times> string option) \<times> usbADB" where
  "stage_shell command s =
     (case writePacket (text_packet adbOPEN 1 0 (''shell:'' @ command @ [nul])) s of
        (Some e, s1) \<Rightarrow> (([], Some (''open shell: '' @ e)), s1)
      | (None, s1) \<Rightarrow> stage_shell_loop 0 [] s1)"

definition stage_openService :: "32 word \<Rightarrow> string \<Rightarrow> usbADB \<Rightarrow> (string, 32 word) result \<times> usbADB" where
  "stage_openService localID service s =
     (case writePacket (text_packet adbOPEN localID 0 (service @ [nul])) s of
        (Some e, s1) \<Rightarrow> (Inl (''open ADB '' @ service @ '': '' @ e), s1)
      | (None, s1) \<Rightarrow>
          (case expired s1 of
             (True, s2) \<Rightarrow> (Inl (''ADB '' @ service @ '' open timed out''), s2)
           | (False, s2) \<Rightarrow>
               (case readPacket s2 of
                  (Inl e, s3) \<Rightarrow> (Inl e, s3)
                | (Inr p, s3) \<Rightarrow>
                    ((if pk_Command p = adbOKAY then Inr (pk_Arg0 p)
                      else if pk_Command p = adbCLSE then Inl (''ADB '' @ service @ '' service closed during open'')
                      else Inl (''unexpected ADB '' @ service @ '' open packet 0x'' @ hex8 (pk_Command p))), s3))))"

function stage_close_loop :: "32 word \<Rightarrow> usbADB \<Rightarrow> string option \<times> usbADB" where
  "stage_close_loop localID s =
     (case expired s of
        (True, s0) \<Rightarrow> (Some ''ADB service close timed out'', s0)
      | (False, s0) \<Rightarrow>
          (case readPacket s0 of
             (Inl e, s1) \<Rightarrow> (Some e, s1)
           | (Inr p, s1) \<Rightarrow>
               if pk_Command p = adbCLSE then (None, s1)
               else if pk_Command p = adbOKAY then stage_close_loop localID s1
               else if pk_Command p = adbWRTE
               then (case writePacket (text_packet adbOKAY localID (pk_Arg0 p) []) s1 of
                       (Some e, s2) \<Rightarrow> (Some e, s2)
                     | (None, s2) \<Rightarrow> stage_close_loop localID s2)
               else (Some (''unexpected ADB close packet 0x'' @ hex8 (pk_Command p)), s1)))"
  by pat_completeness auto
termination
  by (relation "measure (\<lambda>(localID, s). length (us_reads s))") (auto dest!: shrinking)

declare stage_close_loop.simps [simp del]

definition stage_closeService :: "32 word \<Rightarrow> 32 word \<Rightarrow> usbADB \<Rightarrow> string option \<times> usbADB" where
  "stage_closeService localID remoteID s =
     (case writePacket (text_packet adbCLSE localID remoteID []) s of
        (Some e, s1) \<Rightarrow> (Some e, s1)
      | (None, s1) \<Rightarrow> stage_close_loop localID s1)"

section \<open>Writing a file\<close>

definition syncSEND :: "32 word" where "syncSEND = 0x444e4553"
definition syncOKAY :: "32 word" where "syncOKAY = 0x59414b4f"
definition maxAgentSize :: nat where "maxAgentSize = 16 * 1024 * 1024"
definition stageDir :: string where "stageDir = ''/data/cellbridge-agent-h2-test''"

function ack_loop :: "32 word \<Rightarrow> usbADB \<Rightarrow> string option \<times> usbADB" where
  "ack_loop localID s =
     (case expired s of
        (True, s0) \<Rightarrow> (Some ''ADB sync acknowledgement timed out'', s0)
      | (False, s0) \<Rightarrow>
          (case readPacket s0 of
             (Inl e, s1) \<Rightarrow> (Some e, s1)
           | (Inr p, s1) \<Rightarrow>
               if pk_Command p = adbOKAY then (None, s1)
               else if pk_Command p = adbWRTE
               then (case writePacket (text_packet adbOKAY localID (pk_Arg0 p) []) s1 of
                       (Some e, s2) \<Rightarrow> (Some e, s2)
                     | (None, s2) \<Rightarrow> ack_loop localID s2)
               else if pk_Command p = adbCLSE then (Some ''ADB sync service closed while sending'', s1)
               else (Some (''unexpected ADB sync acknowledgement 0x'' @ hex8 (pk_Command p)), s1)))"
  by pat_completeness auto
termination
  by (relation "measure (\<lambda>(localID, s). length (us_reads s))") (auto dest!: shrinking)

declare ack_loop.simps [simp del]

definition sendSyncRecord :: "32 word \<Rightarrow> 32 word \<Rightarrow> 32 word \<Rightarrow> byte list \<Rightarrow> usbADB \<Rightarrow> string option \<times> usbADB" where
  "sendSyncRecord localID remoteID kind data s =
     (case writePacket \<lparr>pk_Command = adbWRTE, pk_Arg0 = localID, pk_Arg1 = remoteID, pk_Payload = sync_record kind data\<rparr> s of
        (Some e, s1) \<Rightarrow> (Some e, s1)
      | (None, s1) \<Rightarrow> ack_loop localID s1)"

definition chunk :: nat where "chunk = adbMaxData - 8"

function send_data :: "32 word \<Rightarrow> 32 word \<Rightarrow> nat \<Rightarrow> byte list \<Rightarrow> usbADB \<Rightarrow> string option \<times> usbADB" where
  "send_data localID remoteID offset data s =
     (if data = [] then (None, s)
      else (case sendSyncRecord localID remoteID syncDATA (take chunk data) s of
              (Some e, s1) \<Rightarrow> (Some (''send ADB DATA at '' @ nat_to_string offset @ '': '' @ e), s1)
            | (None, s1) \<Rightarrow> send_data localID remoteID (offset + length (take chunk data)) (drop chunk data) s1))"
  by pat_completeness auto
termination
  by (relation "measure (\<lambda>(localID, remoteID, offset, data, s). length data)") (auto simp: chunk_def adbMaxData_def)

declare send_data.simps [simp del]

text \<open>The answer in the buffer, when its record is complete.\<close>

definition sync_answer :: "byte list \<Rightarrow> string option option" where
  "sync_answer buf =
     (case next_record buf of
        Record kind data rest \<Rightarrow>
          Some (if kind = syncOKAY then None
                else if kind = syncFAIL then Some (''module rejected ADB push: '' @ bytes_string data)
                else Some (''unexpected ADB sync result 0x'' @ hex8 kind))
      | _ \<Rightarrow> None)"

function result_loop :: "32 word \<Rightarrow> byte list \<Rightarrow> usbADB \<Rightarrow> string option \<times> usbADB" where
  "result_loop localID buf s =
     (case expired s of
        (True, s0) \<Rightarrow> (Some ''ADB sync result timed out'', s0)
      | (False, s0) \<Rightarrow>
          (case readPacket s0 of
             (Inl e, s1) \<Rightarrow> (Some (''read ADB sync result: '' @ e), s1)
           | (Inr p, s1) \<Rightarrow>
               if pk_Command p = adbOKAY then result_loop localID buf s1
               else if pk_Command p = adbCLSE then (Some ''ADB sync service closed before result'', s1)
               else if pk_Command p \<noteq> adbWRTE then (Some (''unexpected ADB sync result packet 0x'' @ hex8 (pk_Command p)), s1)
               else (case writePacket (text_packet adbOKAY localID (pk_Arg0 p) []) s1 of
                       (Some e, s2) \<Rightarrow> (Some e, s2)
                     | (None, s2) \<Rightarrow>
                         (case sync_answer (buf @ pk_Payload p) of
                            Some answer \<Rightarrow> (answer, s2)
                          | None \<Rightarrow> result_loop localID (buf @ pk_Payload p) s2))))"
  by pat_completeness auto
termination
  by (relation "measure (\<lambda>(localID, buf, s). length (us_reads s))") (auto dest!: shrinking)

declare result_loop.simps [simp del]

definition readSyncResult :: "32 word \<Rightarrow> usbADB \<Rightarrow> string option \<times> usbADB" where
  "readSyncResult localID s = result_loop localID [] s"

text \<open>\<open>now\<close>: the Unix time at the end of the data.\<close>

definition done_record :: "32 word \<Rightarrow> byte list" where
  "done_record now = sync_record syncDONE (le32 now)"

definition push_file :: "32 word \<Rightarrow> 32 word \<Rightarrow> byte list \<Rightarrow> string \<Rightarrow> usbADB \<Rightarrow> string option \<times> usbADB" where
  "push_file now remoteID data remotePath s =
     (case sendSyncRecord 2 remoteID syncSEND (string_bytes (remotePath @ '',0700'')) s of
        (Some e, s1) \<Rightarrow> (Some (''send ADB SEND: '' @ e), s1)
      | (None, s1) \<Rightarrow>
          (case send_data 2 remoteID 0 data s1 of
             (Some e, s2) \<Rightarrow> (Some e, s2)
           | (None, s2) \<Rightarrow>
               (case sendSyncRecord 2 remoteID syncDONE (le32 now) s2 of
                  (Some e, s3) \<Rightarrow> (Some (''send ADB DONE: '' @ e), s3)
                | (None, s3) \<Rightarrow>
                    (case readSyncResult 2 s3 of
                       (Some e, s4) \<Rightarrow> (Some e, s4)
                     | (None, s4) \<Rightarrow> stage_closeService 2 remoteID s4))))"

definition push :: "32 word \<Rightarrow> byte list \<Rightarrow> string \<Rightarrow> usbADB \<Rightarrow> string option \<times> usbADB" where
  "push now data remotePath s =
     (if \<not> has_prefix remotePath (stageDir @ ''/'') \<or> nul \<in> set remotePath
      then (Some ''push path is outside the fixed transient stage directory'', s)
      else if data = [] \<or> maxAgentSize < length data then (Some ''Agent binary has an invalid size'', s)
      else (case stage_openService 2 ''sync:'' s of
              (Inl e, s1) \<Rightarrow> (Some e, s1)
            | (Inr remoteID, s1) \<Rightarrow>
                (case push_file now remoteID data remotePath s1 of
                   (r, s2) \<Rightarrow> (r, snd (writePacket (text_packet adbCLSE 2 remoteID []) s2)))))"

section \<open>What a push sends\<close>

text \<open>The file that the transfers of a log carry in records of data.\<close>

definition pushed_data :: "byte list list \<Rightarrow> byte list" where
  "pushed_data log = concat (map (drop 8) (filter (\<lambda>b. take 4 b = le32 syncDATA) log))"

definition sends :: "usbADB \<Rightarrow> byte list \<Rightarrow> usbADB \<Rightarrow> bool" where
  "sends s data s' \<longleftrightarrow>
     (\<exists>log. us_log s' = us_log s @ log \<and> list_all (\<lambda>b. length b \<le> adbMaxData) log \<and> pushed_data log = data)"

lemma sends_trans: "sends s d s1 \<Longrightarrow> sends s1 e s2 \<Longrightarrow> sends s (d @ e) s2"
  unfolding sends_def by (fastforce simp: pushed_data_def)

lemma sends_then: "sends s [] s1 \<Longrightarrow> sends s1 e s2 \<Longrightarrow> sends s e s2"
  using sends_trans [of s "[]"] by simp

lemma sends_same_log: "us_log s' = us_log s \<Longrightarrow> sends s [] s'"
  by (simp add: sends_def pushed_data_def)

lemma expired_sends: "expired s = (b, s') \<Longrightarrow> sends s [] s'"
  by (rule sends_same_log) (rule expired_log)

lemma readPacket_sends: "readPacket s = (r, s') \<Longrightarrow> sends s [] s'"
  by (rule sends_same_log) (rule readPacket_log)

lemma le32_inj: "le32 v = le32 w \<longleftrightarrow> v = w"
  by (metis append_Nil2 read_le32_le32)

lemma header_not_data: "pk_Command p \<noteq> syncDATA \<Longrightarrow> take 4 (adb_header p) \<noteq> le32 syncDATA"
  by (simp add: adb_header_def le32_inj)

lemma writePacket_sends:
  assumes "writePacket p s = (r, s')" and "pk_Command p \<noteq> syncDATA" and "length (pk_Payload p) \<le> adbMaxData"
  shows "take 4 (pk_Payload p) \<noteq> le32 syncDATA \<Longrightarrow> sends s [] s'"
    and "r = None \<Longrightarrow> pk_Payload p = sync_record syncDATA d \<Longrightarrow> sends s d s'"
proof -
  obtain log where log: "us_log s' = us_log s @ log" "log \<in> {[], [adb_header p], [adb_header p, pk_Payload p]}"
      "r = None \<Longrightarrow> pk_Payload p \<noteq> [] \<Longrightarrow> log = [adb_header p, pk_Payload p]"
    using assms(1)
    by (auto simp: writePacket_def split: if_splits prod.splits option.splits dest!: bulkWrite_log)
  then have bounded: "list_all (\<lambda>b. length b \<le> adbMaxData) log"
    using assms(3) by (auto simp: adbMaxData_def)
  { assume "take 4 (pk_Payload p) \<noteq> le32 syncDATA"
    with log(2) header_not_data [OF assms(2)] have "pushed_data log = []" by (auto simp: pushed_data_def)
    with log(1) bounded show "sends s [] s'" by (auto simp: sends_def) }
  { assume "r = None" and payload: "pk_Payload p = sync_record syncDATA d"
    then have "log = [adb_header p, sync_record syncDATA d]" using log(3) by (simp add: sync_record_def le32_def)
    then have "pushed_data log = d"
      using header_not_data [OF assms(2)] by (simp add: pushed_data_def sync_record_def)
    with log(1) bounded show "sends s d s'" by (auto simp: sends_def) }
qed

lemma commands_not_data:
  "adbOKAY \<noteq> syncDATA" "adbWRTE \<noteq> syncDATA" "adbCLSE \<noteq> syncDATA" "adbOPEN \<noteq> syncDATA"
  by (simp_all add: adbOKAY_def adbWRTE_def adbCLSE_def adbOPEN_def syncDATA_def)

lemma text_packet_sends:
  assumes "writePacket (text_packet command a b content) s = (r, s')" and "command \<noteq> syncDATA" and "length content < 4"
  shows "sends s [] s'"
proof (rule writePacket_sends(1) [OF assms(1)])
  have "length (take 4 (pk_Payload (text_packet command a b content))) < 4" using assms(3) by (simp add: text_packet_def)
  then show "take 4 (pk_Payload (text_packet command a b content)) \<noteq> le32 syncDATA"
    by (metis length_le32 less_irrefl)
qed (use assms in \<open>simp_all add: text_packet_def adbMaxData_def\<close>)

text \<open>One turn of a loop: the look at the clock, the packet, and its acknowledgement.\<close>

lemma turn_read:
  assumes "expired s = (False, s0)" and "readPacket s0 = (q, s1)"
  shows "sends s [] s1" and "q = Inr p \<Longrightarrow> length (us_reads s1) < length (us_reads s)"
  using sends_then [OF expired_sends [OF assms(1)] readPacket_sends [OF assms(2)]]
    readPacket_less [of s0 p s1] expired_reads [OF assms(1)] assms(2) by simp_all

lemma turn_ack:
  assumes "expired s = (False, s0)" and "readPacket s0 = (Inr p, s1)" and "writePacket (text_packet adbOKAY a b []) s1 = (e, s2)"
  shows "sends s [] s2" and "length (us_reads s2) < length (us_reads s)"
  using sends_then [OF turn_read(1) [OF assms(1,2)] text_packet_sends [OF assms(3)]] commands_not_data
    turn_read(2) [OF assms(1,2) refl] writePacket_reads [OF assms(3)] by simp_all

lemma ack_loop_sends: "ack_loop localID s = (r, s') \<Longrightarrow> sends s [] s'"
proof (induction "length (us_reads s)" arbitrary: s rule: less_induct)
  case less
  have again: "sends s [] s'" if "sends s [] s2" "length (us_reads s2) < length (us_reads s)" "ack_loop localID s2 = (r, s')" for s2
    using sends_then [OF that(1) less.hyps [OF that(2,3)]] .
  show ?case
    using less.prems
    by (subst (asm) ack_loop.simps)
      (auto split: prod.splits bool.splits sum.splits option.splits if_splits dest: expired_sends turn_read(1) turn_ack(1) intro: again turn_ack)
qed

lemma stage_close_loop_sends: "stage_close_loop localID s = (r, s') \<Longrightarrow> sends s [] s'"
proof (induction "length (us_reads s)" arbitrary: s rule: less_induct)
  case less
  have again: "sends s [] s'" if "sends s [] s2" "length (us_reads s2) < length (us_reads s)"
      "stage_close_loop localID s2 = (r, s')" for s2
    using sends_then [OF that(1) less.hyps [OF that(2,3)]] .
  show ?case
    using less.prems
    by (subst (asm) stage_close_loop.simps)
      (auto split: prod.splits bool.splits sum.splits option.splits if_splits dest: expired_sends turn_read(1) turn_ack(1)
        intro: again turn_read turn_ack)
qed

lemma result_loop_sends: "result_loop localID buf s = (r, s') \<Longrightarrow> sends s [] s'"
proof (induction "length (us_reads s)" arbitrary: s buf rule: less_induct)
  case less
  have again: "sends s [] s'" if "sends s [] s2" "length (us_reads s2) < length (us_reads s)"
      "result_loop localID buf2 s2 = (r, s')" for s2 buf2
    using sends_then [OF that(1) less.hyps [OF that(2,3)]] .
  show ?case
    using less.prems
    by (subst (asm) result_loop.simps)
      (auto split: prod.splits bool.splits sum.splits option.splits if_splits dest: expired_sends turn_read(1) turn_ack(1)
        intro: again turn_read turn_ack)
qed

lemma stage_closeService_sends: "stage_closeService localID remoteID s = (r, s') \<Longrightarrow> sends s [] s'"
  unfolding stage_closeService_def
  using sends_then [OF text_packet_sends stage_close_loop_sends] text_packet_sends commands_not_data(3)
  by (fastforce split: prod.splits option.splits)

lemma stage_openService_sends: "stage_openService localID ''sync:'' s = (r, s') \<Longrightarrow> sends s [] s'"
proof -
  assume open_: "stage_openService localID ''sync:'' s = (r, s')"
  obtain e s1 where sent: "writePacket (text_packet adbOPEN localID 0 (''sync:'' @ [nul])) s = (e, s1)"
    by (cases "writePacket (text_packet adbOPEN localID 0 (''sync:'' @ [nul])) s")
  have first: "sends s [] s1"
  proof (rule writePacket_sends(1) [OF sent])
    show "take 4 (pk_Payload (text_packet adbOPEN localID 0 (''sync:'' @ [nul]))) \<noteq> le32 syncDATA"
      by (simp add: text_packet_def string_bytes_def le32_def syncDATA_def)
  qed (simp_all add: text_packet_def commands_not_data adbMaxData_def)
  show ?thesis
    using open_ sent first sends_then [OF first expired_sends] sends_then [OF first turn_read(1)]
    by (fastforce simp: stage_openService_def split: prod.splits option.splits bool.splits sum.splits)
qed

lemma sendSyncRecord_sends:
  assumes "sendSyncRecord localID remoteID kind data s = (r, s')" and "length data \<le> adbMaxData - 8"
  shows "kind \<noteq> syncDATA \<Longrightarrow> sends s [] s'" and "kind = syncDATA \<Longrightarrow> r = None \<Longrightarrow> sends s data s'"
proof -
  let ?p = "\<lparr>pk_Command = adbWRTE, pk_Arg0 = localID, pk_Arg1 = remoteID, pk_Payload = sync_record kind data\<rparr>"
  obtain e s1 where sent: "writePacket ?p s = (e, s1)" by (cases "writePacket ?p s")
  have small: "pk_Command ?p \<noteq> syncDATA" "length (pk_Payload ?p) \<le> adbMaxData"
    using assms(2) commands_not_data by (simp_all add: adbMaxData_def)
  note one = writePacket_sends [OF sent small]
  have ack: "sends s1 [] s'" if "e = None"
    using assms(1) sent that ack_loop_sends by (simp add: sendSyncRecord_def)
  have stop: "r = e" "s' = s1" if "e \<noteq> None"
    using assms(1) sent that by (auto simp: sendSyncRecord_def)
  show "sends s [] s'" if "kind \<noteq> syncDATA"
    using one(1) sends_then ack stop that by (cases e) (auto simp: sync_record_def le32_inj)
  show "sends s data s'" if "kind = syncDATA" "r = None"
    using one(2) [of data] sends_trans [of s data s1 "[]" s'] ack stop that by (cases e) auto
qed

lemma send_data_sends: "send_data localID remoteID offset data s = (None, s') \<Longrightarrow> sends s data s'"
proof (induction localID remoteID offset data s rule: send_data.induct)
  case (1 localID remoteID offset data s)
  show ?case
  proof (cases "data = []")
    case True
    with 1(2) show ?thesis by (subst (asm) send_data.simps) (simp add: sends_same_log)
  next
    case False
    with 1(2) obtain s1 where first: "sendSyncRecord localID remoteID syncDATA (take chunk data) s = (None, s1)"
        and onward: "send_data localID remoteID (offset + length (take chunk data)) (drop chunk data) s1 = (None, s')"
      by (subst (asm) send_data.simps) (auto split: prod.splits option.splits)
    have "sends s (take chunk data) s1"
      using sendSyncRecord_sends(2) [OF first] by (simp add: chunk_def)
    from sends_trans [OF this 1(1) [OF False first [symmetric] refl onward]] show ?thesis by simp
  qed
qed

lemma push_sends:
  assumes "push now data remotePath s = (None, s')" and "length remotePath \<le> 1000"
  shows "sends s data s'"
proof -
  obtain remoteID s1 s2 where opened: "stage_openService 2 ''sync:'' s = (Inr remoteID, s1)"
      and pushed: "push_file now remoteID data remotePath s1 = (None, s2)"
      and closed: "s' = snd (writePacket (text_packet adbCLSE 2 remoteID []) s2)"
    using assms(1) by (auto simp: push_def split: if_splits prod.splits sum.splits)
  obtain t1 t2 t3 t4 where parts: "sendSyncRecord 2 remoteID syncSEND (string_bytes (remotePath @ '',0700'')) s1 = (None, t1)"
      "send_data 2 remoteID 0 data t1 = (None, t2)" "sendSyncRecord 2 remoteID syncDONE (le32 now) t2 = (None, t3)"
      "readSyncResult 2 t3 = (None, t4)" "stage_closeService 2 remoteID t4 = (None, s2)"
    using pushed by (auto simp: push_file_def split: prod.splits option.splits)
  have kinds: "syncSEND \<noteq> syncDATA" "syncDONE \<noteq> syncDATA" by (simp_all add: syncSEND_def syncDONE_def syncDATA_def)
  have "sends s1 [] t1" using sendSyncRecord_sends(1) [OF parts(1) _ kinds(1)] assms(2) by (simp add: adbMaxData_def)
  then have "sends s [] t1" using sends_then stage_openService_sends [OF opened] by blast
  then have "sends s data t2" using sends_then send_data_sends [OF parts(2)] by blast
  moreover have "sends t2 [] t3" using sendSyncRecord_sends(1) [OF parts(3) _ kinds(2)] by (simp add: adbMaxData_def)
  moreover have "sends t3 [] t4" using parts(4) result_loop_sends by (simp add: readSyncResult_def)
  moreover have "sends t4 [] s2" using stage_closeService_sends [OF parts(5)] .
  moreover have "sends s2 [] s'"
    unfolding closed
    using text_packet_sends [where command = adbCLSE and a = 2 and b = remoteID and content = "[]" and s = s2] commands_not_data(3)
    by (cases "writePacket (text_packet adbCLSE 2 remoteID []) s2") simp
  ultimately have "sends s (data @ [] @ [] @ [] @ []) s'" using sends_trans by blast
  then show ?thesis by simp
qed

text \<open>A push that succeeds has sent the file and nothing else as data, in transfers none of which is longer than the 4096
  bytes that the handshake announces.\<close>

theorem push_sends_the_file:
  assumes "push now data remotePath s = (None, s')" and "length remotePath \<le> 1000"
  shows "\<exists>log. us_log s' = us_log s @ log \<and> list_all (\<lambda>b. length b \<le> adbMaxData) log \<and> pushed_data log = data"
  using push_sends [OF assms] by (simp add: sends_def)

lemma ack_loop_okay:
  assumes "us_reads s = packet_reads (text_packet adbOKAY a b []) @ rest" and "clear_line s"
  shows "ack_loop localID s = (None, s\<lparr>us_reads := rest\<rparr>)"
proof -
  have "readPacket s = (Inr (text_packet adbOKAY a b []), s\<lparr>us_reads := rest\<rparr>)"
    by (rule readPacket_next [OF assms(1)]) (simp add: text_packet_def)
  moreover have "expired s = (False, s)" using assms(2) by (simp add: expired_def clear_line_def)
  ultimately show ?thesis by (subst ack_loop.simps) (simp add: text_packet_def)
qed

lemma record_acknowledged:
  assumes "us_reads s = packet_reads (text_packet adbOKAY a b []) @ rest" and "clear_line s" and "length data \<le> adbMaxData"
  shows "\<exists>s'. sendSyncRecord localID remoteID kind data s = (None, s') \<and> clear_line s' \<and> us_reads s' = rest"
proof -
  let ?p = "\<lparr>pk_Command = adbWRTE, pk_Arg0 = localID, pk_Arg1 = remoteID, pk_Payload = sync_record kind data\<rparr>"
  obtain s1 where sent: "writePacket ?p s = (None, s1)" "clear_line s1" "us_reads s1 = us_reads s"
    using writePacket_clear [OF assms(2), of ?p] assms(3) by (auto simp: packetLimit_def adbMaxData_def)
  have "ack_loop localID s1 = (None, s1\<lparr>us_reads := rest\<rparr>)"
    using ack_loop_okay [of s1 a b rest] sent assms(1) by simp
  with sent show ?thesis by (simp add: sendSyncRecord_def clear_line_def)
qed

text \<open>The packets of a module that takes a small file: four acknowledgements, the answer, the end of the stream.\<close>

definition accepting_module :: "packet list" where
  "accepting_module =
     [text_packet adbOKAY 7 2 [], text_packet adbOKAY 7 2 [], text_packet adbOKAY 7 2 [], text_packet adbOKAY 7 2 [],
      \<lparr>pk_Command = adbWRTE, pk_Arg0 = 7, pk_Arg1 = 2, pk_Payload = sync_record syncOKAY []\<rparr>, text_packet adbCLSE 7 2 []]"

lemma small_push_accepted:
  assumes "clear_line s" and "us_reads s = concat (map packet_reads accepting_module) @ rest"
    and "data \<noteq> []" and "length data \<le> chunk" and "has_prefix remotePath (stageDir @ ''/'')" and "nul \<notin> set remotePath"
    and "length remotePath \<le> 1000"
  shows "\<exists>s'. push now data remotePath s = (None, s') \<and> clear_line s' \<and> us_reads s' = rest"
proof -
  let ?ok = "packet_reads (text_packet adbOKAY 7 2 [])" and ?bye = "packet_reads (text_packet adbCLSE 7 2 [])"
  let ?yes = "\<lparr>pk_Command = adbWRTE, pk_Arg0 = 7, pk_Arg1 = 2, pk_Payload = sync_record syncOKAY []\<rparr>"
  have reads: "us_reads s = ?ok @ ?ok @ ?ok @ ?ok @ packet_reads ?yes @ ?bye @ rest" using assms(2) by (simp add: accepting_module_def)
  have small: "length (pk_Payload (text_packet c a b [])) \<le> packetLimit" for c a b by (simp add: text_packet_def)
  have live: "expired t = (False, t)" if "clear_line t" for t using that by (simp add: expired_def clear_line_def)
  have differ: "adbCLSE \<noteq> adbOKAY" "adbWRTE \<noteq> adbOKAY" "adbWRTE \<noteq> adbCLSE" by (simp_all add: adbCLSE_def adbOKAY_def adbWRTE_def)
  have fits: "length (string_bytes (remotePath @ '',0700'')) \<le> adbMaxData" "length data \<le> adbMaxData" "length (le32 now) \<le> adbMaxData"
    using assms(4,7) by (simp_all add: adbMaxData_def chunk_def)
  obtain s0 where s0: "writePacket (text_packet adbOPEN 2 0 (''sync:'' @ [nul])) s = (None, s0)" "clear_line s0" "us_reads s0 = us_reads s"
    using writePacket_clear [OF assms(1) text_packet_small [of "''sync:'' @ [nul]"]] by (fastforce simp: packetLimit_def)
  let ?s1 = "s0\<lparr>us_reads := ?ok @ ?ok @ ?ok @ packet_reads ?yes @ ?bye @ rest\<rparr>"
  have "readPacket s0 = (Inr (text_packet adbOKAY 7 2 []), ?s1)"
    by (rule readPacket_next [OF _ small]) (use s0(3) reads in simp)
  then have opened: "stage_openService 2 ''sync:'' s = (Inr 7, ?s1)"
    using s0(1) live [OF s0(2)] by (simp add: stage_openService_def text_packet_def)
  have c1: "clear_line ?s1" using s0(2) by (simp add: clear_line_def)
  obtain s2 where s2: "sendSyncRecord 2 7 syncSEND (string_bytes (remotePath @ '',0700'')) ?s1 = (None, s2)" "clear_line s2"
      "us_reads s2 = ?ok @ ?ok @ packet_reads ?yes @ ?bye @ rest"
    using record_acknowledged [where s = ?s1 and a = 7 and b = 2 and rest = "?ok @ ?ok @ packet_reads ?yes @ ?bye @ rest"
        and data = "string_bytes (remotePath @ '',0700'')" and kind = syncSEND and localID = 2 and remoteID = 7] c1 fits(1) by simp blast
  obtain s3 where s3: "sendSyncRecord 2 7 syncDATA data s2 = (None, s3)" "clear_line s3" "us_reads s3 = ?ok @ packet_reads ?yes @ ?bye @ rest"
    using record_acknowledged [where s = s2 and a = 7 and b = 2 and rest = "?ok @ packet_reads ?yes @ ?bye @ rest"
        and data = data and kind = syncDATA and localID = 2 and remoteID = 7] s2(2,3) fits(2) by simp blast
  have "take chunk data = data" "drop chunk data = []" using assms(4) by simp_all
  then have data: "send_data 2 7 0 data s2 = (None, s3)"
    using s3(1) assms(3) by (subst send_data.simps) (simp add: send_data.simps [of _ _ _ "[]"])
  obtain s4 where s4: "sendSyncRecord 2 7 syncDONE (le32 now) s3 = (None, s4)" "clear_line s4" "us_reads s4 = packet_reads ?yes @ ?bye @ rest"
    using record_acknowledged [where s = s3 and a = 7 and b = 2 and rest = "packet_reads ?yes @ ?bye @ rest"
        and data = "le32 now" and kind = syncDONE and localID = 2 and remoteID = 7] s3(2,3) fits(3) by simp blast
  let ?s5 = "s4\<lparr>us_reads := ?bye @ rest\<rparr>"
  have r5: "readPacket s4 = (Inr ?yes, ?s5)" by (rule readPacket_next) (use s4(3) in \<open>simp_all add: packetLimit_def\<close>)
  obtain s6 where s6: "writePacket (text_packet adbOKAY 2 7 []) ?s5 = (None, s6)" "clear_line s6" "us_reads s6 = ?bye @ rest"
    using writePacket_clear [of ?s5 "text_packet adbOKAY 2 7 []"] s4(2) by (auto simp: clear_line_def text_packet_def)
  have "sync_answer (sync_record syncOKAY []) = Some None"
    using next_record_sync_record [of "[]" syncOKAY "[]"] by (simp add: sync_answer_def)
  then have result: "readSyncResult 2 s4 = (None, s6)"
    using r5 s6(1) live [OF s4(2)] differ by (simp add: readSyncResult_def result_loop.simps [of _ _ s4])
  obtain s7 where s7: "writePacket (text_packet adbCLSE 2 7 []) s6 = (None, s7)" "clear_line s7" "us_reads s7 = ?bye @ rest"
    using writePacket_clear [OF s6(2) small] s6(3) by fastforce
  let ?s8 = "s7\<lparr>us_reads := rest\<rparr>"
  have "readPacket s7 = (Inr (text_packet adbCLSE 7 2 []), ?s8)"
    by (rule readPacket_next [OF _ small]) (use s7(3) in simp)
  then have "stage_closeService 2 7 s6 = (None, ?s8)"
    using s7(1) live [OF s7(2)] by (simp add: stage_closeService_def stage_close_loop.simps [of _ s7] text_packet_def)
  then have "push_file now 7 data remotePath ?s1 = (None, ?s8)"
    using s2(1) data s4(1) result by (simp add: push_file_def)
  then have "push now data remotePath s = (None, snd (writePacket (text_packet adbCLSE 2 7 []) ?s8))"
    using opened assms(3-6) by (simp add: push_def maxAgentSize_def chunk_def adbMaxData_def)
  moreover have "clear_line ?s8" using s7(2) by (simp add: clear_line_def)
  ultimately show ?thesis using writePacket_clear [of ?s8, OF _ small [of adbCLSE 2 7]] by fastforce
qed

theorem push_sends_the_file_witness:
  "\<exists>s' log. push 0 [1, 2, 3] (stageDir @ ''/x'')
       \<lparr>us_reads = concat (map packet_reads accepting_module), us_writes = [], us_clock = [], us_log = []\<rparr> = (None, s') \<and>
     us_log s' = log \<and> pushed_data log = [1, 2, 3]"
proof -
  let ?s = "\<lparr>us_reads = concat (map packet_reads accepting_module), us_writes = [], us_clock = [], us_log = []\<rparr>"
  have "has_prefix (stageDir @ ''/x'') (stageDir @ ''/'')" "nul \<notin> set (stageDir @ ''/x'')"
    by (simp_all add: has_prefix_def stageDir_def nul_def)
  then obtain s' where "push 0 [1, 2, 3] (stageDir @ ''/x'') ?s = (None, s')"
    using small_push_accepted [of ?s "[]" "[1, 2, 3]" "stageDir @ ''/x''" 0]
    by (auto simp: clear_line_def chunk_def adbMaxData_def stageDir_def)
  with push_sends_the_file [OF this] show ?thesis by (fastforce simp: stageDir_def)
qed

text \<open>The two tools do not agree on the record that ends a file: the one that \<^verbatim>\<open>push\<close> sends carries the time as its
  content, and the reader of \<^verbatim>\<open>pull\<close> refuses exactly such a record.\<close>

theorem pushed_end_is_refused_by_pull:
  "drain_records lf content (done_record now @ rest) = (SyncFailed ''ADB sync DONE record has payload'', content, rest)"
proof -
  have "next_record (done_record now @ rest) = Record syncDONE (le32 now) rest"
    unfolding done_record_def by (rule next_record_sync_record) (simp add: packetLimit_def)
  moreover have "syncDONE \<noteq> syncDATA" "le32 now \<noteq> []" by (simp_all add: syncDONE_def syncDATA_def le32_def)
  ultimately show ?thesis by (subst drain_records.simps) simp
qed

end
