(* ===== verification/Adb_Commands.thy ===== *)
theory Adb_Commands
  imports Host_Commands
begin

text \<open>
  The commands that the probes of \<^verbatim>\<open>tools/module-provisioner/qdc507-adb-readonly/main.go\<close> run on the module, with the names
  under which their output is reported. In a script a tilde stands for an apostrophe and an at sign for a backslash.
\<close>

definition readCommands :: "(string \<times> string) list" where
  \<open>readCommands = map (\<lambda>(n, c). (n, script c))
   [(''id'',
      ''id''),
    (''uname'',
      ''uname -a''),
    (''proc_cmdline'',
      ''cat /proc/cmdline''),
    (''mounts'',
      ''mount''),
    (''disk_free'',
      ''df -k''),
    (''processes'',
      ''ps''),
    (''control_process_fds'',
      ''for name in qti qmuxd netmgrd atfwd_daemon quectel_daemon; do for p in $(pidof "$name" '' @
      ''2>/dev/null); do echo "[$name pid=$p]"; ls -l /proc/$p/fd; done; done''),
    (''dev'',
      ''ls -l /dev''),
    (''dev_smd'',
      ''ls -l /dev/smd*''),
    (''dev_tty'',
      ''ls -l /dev/tty*''),
    (''dev_diag'',
      ''ls -l /dev/diag*''),
    (''dev_qmi'',
      ''ls -l /dev/qmi*''),
    (''dev_cdc'',
      ''ls -l /dev/cdc*''),
    (''internal_at_tools'',
      ''ls -l /dev/at_usb0 /dev/at_usb1 2>&1; command -v timeout 2>&1; command -v busybox 2>&1; command -v '' @
      ''toybox 2>&1; command -v stty 2>&1''),
    (''internal_at_timeout_help'',
      ''/bin/timeout --help 2>&1 | head -40''),
    (''native_build_tools'',
      ''for f in /usr/bin/cc /usr/bin/gcc /usr/bin/clang /usr/bin/make /usr/bin/ld /usr/bin/objcopy '' @
      ''/usr/bin/strip; do if [ -e "$f" ]; then ls -l "$f"; fi; done; find /usr /opt /data -maxdepth 4 '' @
      ''-type f @( -name ~cc~ -o -name ~gcc~ -o -name ~clang~ -o -name ~ld~ @) -perm -111 2>/dev/null | '' @
      ''sort | head -80''),
    (''sys_class'',
      ''ls -l /sys/class''),
    (''proc_devices'',
      ''cat /proc/devices''),
    (''proc_misc'',
      ''cat /proc/misc''),
    (''process_candidates'',
      ''ps | grep -E ~rild|qmuxd|netmgrd|qmi|ims|voice|at|modem~ | grep -v grep''),
    (''unix_sockets'',
      ''cat /proc/net/unix''),
    (''netstat'',
      ''command -v ss >/dev/null && ss -lntup || command -v netstat >/dev/null && netstat -lntup || true'')]\<close>

definition qmiReadCommands :: "(string \<times> string) list" where
  \<open>qmiReadCommands = map (\<lambda>(n, c). (n, script c))
   [(''control_cmdlines'',
      ''for p in 422 538 582 589 598 689; do if [ -r /proc/$p/cmdline ]; then printf ~[pid=%s] ~ $p; tr '' @
      ''~@000~ ~ ~ < /proc/$p/cmdline; echo; fi; done''),
    (''control_binaries'',
      ''ls -l /bin /sbin /usr/bin /usr/sbin 2>/dev/null | grep -E '' @
      ''~qmi|ril|radio|at|modem|voice|sms|quectel|netmgr|qmux|diag~ || true''),
    (''control_strings'',
      ''if command -v strings >/dev/null 2>&1; then for f in /usr/bin/qmuxd /usr/bin/netmgrd '' @
      ''/usr/bin/atfwd_daemon /usr/bin/quectel_daemon; do echo [$f]; strings $f 2>/dev/null | grep -E '' @
      ''~socket|/dev/|qmi|QMI|ril|RIL|voice|sms|urc|netmgr~ | head -80; done; fi''),
    (''qti_strings'',
      ''if command -v strings >/dev/null 2>&1; then strings /usr/bin/qti 2>/dev/null | grep -E '' @
      ''~socket|/dev/|qmi|QMI|ril|RIL|voice|sms|urc|rmnet~ | head -180; fi''),
    (''qmi_config'',
      ''for f in /etc/data/qmi_config.xml /data/qmi_ip_cfg.xml /var/qmux_connect_socket; do echo [$f]; ls '' @
      ''-l $f 2>&1; if [ -f $f ]; then sed -n ~1,220p~ $f; fi; done''),
    (''qmi_config_matches'',
      ''grep -n -E ~mdm|msm|8909|9607|smdcntl|rmnet|QMI_PORT|QMI_CONN~ /etc/data/qmi_config.xml | tail -180''),
    (''qmi_artifacts'',
      ''find /etc /data /usr -maxdepth 4 -iname ~*qmi*~ -o -iname ~*ril*~ 2>/dev/null | sort | head -240''),
    (''qmi_runtime_fds'',
      ''( sleep 20 | /usr/bin/qmi_simple_ril_test >/dev/null 2>&1 ) & probe_job=$!; sleep 5; for probe_pid '' @
      ''in $(pidof qmi_simple_ril_test 2>/dev/null); do echo [qmi_simple_ril_test pid=$probe_pid]; ls -l '' @
      ''/proc/$probe_pid/fd 2>&1; echo ==== maps; cat /proc/$probe_pid/maps 2>&1 | grep -E '' @
      ''~libqmi|qmi_simple~ || true; done; echo ==== unix_during_qmi; cat /proc/net/unix; kill $probe_job '' @
      ''2>/dev/null || true; for probe_pid in $(pidof qmi_simple_ril_test 2>/dev/null); do kill $probe_pid '' @
      ''2>/dev/null || true; done; wait $probe_job 2>/dev/null || true''),
    (''qmi_test_strings'',
      ''if command -v strings >/dev/null 2>&1; then strings /usr/bin/qmi_simple_ril_test 2>/dev/null | grep '' @
      ''-E ~usage|Usage|help|socket|qmi|QMI|UIM|NAS|WMS|VOICE|SMS|call|dial|AT~ | head -180; fi''),
    (''qmi_test_commands'',
      ''if command -v strings >/dev/null 2>&1; then strings /usr/bin/qmi_simple_ril_test 2>/dev/null | grep '' @
      ''-E ~^[A-Za-z][A-Za-z0-9_ -]{1,48}$~ | grep -E '' @
      ''~(^help$|^dial$|^call_|^sms|^send|^get_|^set_|^hang|^answer|^reject|^dtmf|^uim|^nas|^wms|^voice|^dms'' @
      ''|^qmi)~ | sort -u | head -240; fi''),
    (''qmi_test_help'',
      ''{ sleep 5; printf ~?@n~; sleep 3; printf ~help@n~; sleep 3; printf ~quit@n~; } | /bin/timeout -t 20 '' @
      ''-s KILL /usr/bin/qmi_simple_ril_test 2>&1''),
    (''qmi_safe_argument_probe'',
      ''{ sleep 5; printf ~dial@n~; sleep 2; printf ~mo_sms_gsm@n~; sleep 2; printf ~quit@n~; } 2>&1 | '' @
      ''/bin/timeout -t 18 -s KILL /usr/bin/qmi_simple_ril_test 2>&1''),
    (''qmi_test_usage_context'',
      ''if command -v strings >/dev/null 2>&1; then n=$(strings /usr/bin/qmi_simple_ril_test 2>/dev/null | '' @
      ''grep -n ~^get_imsi$~ | head -1 | cut -d: -f1); if [ -n "$n" ]; then start=$((n-35)); [ $start -lt 1 '' @
      ''] && start=1; end=$((n+180)); strings /usr/bin/qmi_simple_ril_test 2>/dev/null | sed -n '' @
      ''"${start},${end}p"; fi; fi''),
    (''qmi_readonly_console'',
      ''{ sleep 5; echo ~[CMD modem status]~ >&2; printf ~modem status@n~; sleep 2; echo ~[CMD get_dev_id]~ '' @
      ''>&2; printf ~get_dev_id@n~; sleep 2; echo ~[CMD get_imsi 0 1]~ >&2; printf ~get_imsi 0 1@n~; sleep '' @
      ''2; echo ~[CMD get_imsi 1 0]~ >&2; printf ~get_imsi 1 0@n~; sleep 2; echo ~[CMD get_imsi 1 1]~ >&2; '' @
      ''printf ~get_imsi 1 1@n~; sleep 2; echo ~[CMD card 0 0]~ >&2; printf ~card 0 0@n~; sleep 2; echo '' @
      ''~[CMD card 0 1]~ >&2; printf ~card 0 1@n~; sleep 2; echo ~[CMD card 1]~ >&2; printf ~card 1@n~; '' @
      ''sleep 2; echo ~[CMD nw_cdma_info]~ >&2; printf ~nw_cdma_info@n~; sleep 2; echo ~[CMD call_state]~ '' @
      ''>&2; printf ~call_state@n~; sleep 2; echo ~[CMD qmi_svc_versions]~ >&2; printf '' @
      ''~qmi_svc_versions@n~; sleep 1; echo ~[CMD quit]~ >&2; printf ~quit@n~; } 2>&1 | /bin/timeout -t 35 '' @
      ''-s KILL /usr/bin/qmi_simple_ril_test 2>&1''),
    (''qmi_readonly_parser_forms'',
      ''{ sleep 5; echo ~[CMD modem status]~ >&2; printf ~modem status@n~; sleep 2; echo ~[CMD '' @
      ''[modem]status]~ >&2; printf ~[modem]status@n~; sleep 2; echo ~[CMD [modem] status]~ >&2; printf '' @
      ''~[modem] status@n~; sleep 2; echo ~[CMD [modem status]]~ >&2; printf ~[modem status]@n~; sleep 2; '' @
      ''echo ~[CMD modem]~ >&2; printf ~modem@n~; sleep 1; printf ~quit@n~; } 2>&1 | /bin/timeout -t 20 '' @
      ''/usr/bin/qmi_simple_ril_test 2>&1 | head -500''),
    (''qmi_readonly_argument_forms'',
      ''{ sleep 5; echo ~[CMD get_imsi 0 1]~ >&2; printf ~get_imsi 0 1@n~; sleep 2; echo ~[CMD [get_imsi] 0 '' @
      ''1]~ >&2; printf ~[get_imsi] 0 1@n~; sleep 2; echo ~[CMD [get_imsi]0 1]~ >&2; printf ~[get_imsi]0 '' @
      ''1@n~; sleep 2; echo ~[CMD get_imsi [0] [1]]~ >&2; printf ~get_imsi [0] [1]@n~; sleep 1; printf '' @
      ''~quit@n~; } 2>&1 | /bin/timeout -t 22 /usr/bin/qmi_simple_ril_test 2>&1 | head -600''),
    (''qmi_test_argument_strings'',
      ''if command -v strings >/dev/null 2>&1; then strings /usr/bin/qmi_simple_ril_test 2>/dev/null | grep '' @
      ''-i -E ~usage|argument|invalid|card|imsi|status|nw_|call_state|service version~ | head -260; fi''),
    (''qmi_raw_ctl_probe'',
      ''if [ ! -c /dev/smdcntl0 ]; then echo MISSING; else /bin/timeout -t 5 /bin/sh -c ~echo BEFORE; exec '' @
      ''3<>/dev/smdcntl0 || exit 1; echo OPENED; printf ~@001@013@000@000@000@000@000@041@000@000@000@000~ '' @
      ''>&3; echo SENT; /bin/timeout -t 3 /bin/dd if=/dev/smdcntl0 bs=1 count=1024 <&3 2>/dev/null | '' @
      ''/bin/od -An -tx1~; fi''),
    (''qmi_logs'',
      ''ls -l /data/logs 2>&1; grep -R -i -E ~qmi|voice|modem|atfwd|rmnet~ /data/logs 2>/dev/null | tail '' @
      ''-200''),
    (''qmi_runtime_logs'',
      ''echo ==== dmesg; dmesg 2>&1 | tail -240; echo ==== logread; if command -v logread >/dev/null 2>&1; '' @
      ''then logread 2>&1 | tail -240; else echo LOGREAD_UNAVAILABLE; fi''),
    (''modem_startup'',
      ''for f in /etc/init.d/qmi_shutdown_modemd /etc/init.d/modem-shutdown '' @
      ''/etc/rc2.d/S45qmi_shutdown_modemd /etc/rc3.d/S45qmi_shutdown_modemd '' @
      ''/etc/rc4.d/S45qmi_shutdown_modemd /etc/rc5.d/S45qmi_shutdown_modemd; do echo [$f]; sed -n ~1,220p~ '' @
      ''$f 2>&1; done''),
    (''control_device_owners'',
      ''for p in /proc/[0-9]*; do for f in $p/fd/*; do target=$(readlink $f 2>/dev/null); case $target in '' @
      ''*/dev/smdcntl*|*/dev/rmnet_ctrl*|*/dev/diag) echo $p $f $target;; esac; done; done''),
    (''net_interfaces'',
      ''cat /proc/net/dev; echo ROUTE; cat /proc/net/route; echo SOCKETS; ls -l /tmp /run /data 2>/dev/null '' @
      ''| head -120''),
    (''control_socket_paths'',
      ''for path in /var /var/tmp /tmp /run /data; do echo [$path]; find $path -maxdepth 2 -type s -o -type '' @
      ''p 2>/dev/null | sort; done''),
    (''vendor_at_bridge_state'',
      ''echo ==== processes; ps | grep -E ~atfwd|quectel-uart-ddp|uart_ddp|ipth_dme~ | grep -v grep || '' @
      ''true; echo ==== runtime; for p in /tmp/.urc_sock /tmp/atfwd_socket_server /tmp/atfwd_socket_client '' @
      ''/tmp/atfwd_daemon_rdy /tmp/quec_uart_ddp_rdy /data/ipth_dme_urc /data/ipth_dme_cmd '' @
      ''/data/quec/conf/dynamic_console; do ls -la $p 2>&1; done; echo ==== unix; cat /proc/net/unix | grep '' @
      ''-E ~urc|atfwd|ipth|quec~ || true; echo ==== uart_conf; for p in /data/quec_dbg_uart_conf/baudrate '' @
      ''/data/quec_dbg_uart_conf/databits /data/quec_dbg_uart_conf/stopbits /data/quec_dbg_uart_conf/parity '' @
      ''/data/quec_dbg_uart_conf/flowctrl /data/quec_dbg_uart_conf/debuginf; do echo [$p]; if [ -f $p ]; '' @
      ''then sed -n ~1,4p~ $p; else ls -l $p 2>&1; fi; done'')]\<close>

definition m1ReadCommands :: "(string \<times> string) list" where
  \<open>m1ReadCommands = map (\<lambda>(n, c). (n, script c))
   [(''m1_mounts'',
      ''mount; echo PROC_MOUNTS; cat /proc/mounts; echo DF; df -k /data /usrdata /cache /tmp 2>&1''),
    (''m1_persistent_paths'',
      ''for p in /data /usrdata /cache /etc /etc/init.d /etc/rcS.d /etc/rc2.d /etc/rc3.d /etc/rc4.d '' @
      ''/etc/rc5.d /system/bin /usr/bin; do ls -ld $p 2>&1; done''),
    (''m1_init_entries'',
      ''for p in /etc/inittab /etc/rcS /etc/rc.local /etc/init.d /etc/rcS.d /etc/rc2.d /etc/rc3.d '' @
      ''/etc/rc4.d /etc/rc5.d; do echo [$p]; ls -la $p 2>&1 | head -160; done''),
    (''m1_executable_paths'',
      ''for p in /data /usrdata /cache /tmp; do if [ -d $p ]; then printf ~[%s] ~ $p; ls -ld $p; mountpoint '' @
      ''-q $p 2>/dev/null && echo MOUNTPOINT || true; fi; done''),
    (''m1_boot_script_sources'',
      ''for p in /etc/inittab /etc/init.d/data-init /etc/init.d/rc /etc/init.d/rcS '' @
      ''/etc/init.d/read-only-rootfs-hook.sh /etc/init.d/usb; do echo ==== $p; sed -n ~1,260p~ $p 2>&1; done''),
    (''m1_data_inventory'',
      ''for p in /data /usrdata; do echo ==== $p; find $p -maxdepth 3 -mindepth 1 -type d -o -type f -o '' @
      ''-type l 2>/dev/null | sort | head -320; done''),
    (''m1_startup_references'',
      ''grep -R -n -E ~rcS|init.d|daemon|watchdog|usbnet|cellbridge|qti|quectel~ /etc/init* /etc/rc* '' @
      ''/etc/default /data 2>/dev/null | head -260'')]\<close>

definition m2ReadCommands :: "(string \<times> string) list" where
  \<open>m2ReadCommands = map (\<lambda>(n, c). (n, script c))
   [(''m2_vendor_start_scripts'',
      ''for p in /etc/init.d/start_ql_manager_server_le /etc/init.d/start_qti_le '' @
      ''/etc/init.d/start_atfwd_daemon /etc/init.d/quectel_daemon /etc/init.d/netmgrd /etc/init.d/qmuxd '' @
      ''/etc/init.d/rc; do echo ==== $p; sed -n ~1,260p~ $p 2>&1; done''),
    (''m2_startup_data_refs'',
      ''grep -R -n -E ~/data|/usrdata|crond|cron|respawn|service|watchdog|start-stop-daemon~ /etc/inittab '' @
      ''/etc/init.d /etc/rc*.d /etc/default 2>/dev/null | head -400''),
    (''m2_cron_state'',
      ''for p in /var/spool/cron /var/spool/cron/crontabs /etc/crontab /etc/cron.d /etc/cron.daily; do echo '' @
      ''==== $p; ls -la $p 2>&1; done; crontab -l 2>&1 || true''),
    (''m2_data_executables'',
      ''find /data /usrdata -maxdepth 4 -type f -perm -111 2>/dev/null | sort | head -240''),
    (''m2_manager_strings'',
      ''if command -v strings >/dev/null 2>&1; then strings /usr/bin/ql_manager_server 2>/dev/null | grep '' @
      ''-i -E ~data|script|service|start|watch|exec|command|config~ | head -240; fi'')]\<close>

definition qmiReadOnlyConsole :: string where
  \<open>qmiReadOnlyConsole = script (
      ''{ sleep 5; printf ~?@n~; sleep 2; printf ~help@n~; sleep 2; printf ~modem status@n~; sleep 2; '' @
      ''printf ~get_dev_id@n~; sleep 2; printf ~get_imsi 0 gw@n~; sleep 2; printf ~get_imsi 0 1x@n~; sleep '' @
      ''2; printf ~card gw@n~; sleep 2; printf ~card 1x@n~; sleep 2; printf ~nw_cdma_info@n~; sleep 2; '' @
      ''printf ~call_state@n~; sleep 2; printf ~qmi_svc_versions@n~; sleep 1; printf ~quit@n~; } 2>&1 | '' @
      ''/bin/timeout -t 35 /usr/bin/qmi_simple_ril_test 2>&1'')\<close>

end
