(* ===== verification/Adb_Tool.thy ===== *)
theory Adb_Tool
  imports Adb_Services Adb_Commands
begin

text \<open>
  The tool \<^verbatim>\<open>tools/module-provisioner/qdc507-adb-readonly/main.go\<close>: which mode its flags select, how it finds the ADB
  interface, and what each mode does with the module. What libusb answers when a device is opened is a \<open>usb_bus\<close>. The
  time of the evidence and the fixed ids of the device are left out of it.
\<close>

section \<open>The modes\<close>

record flags =
  fl_output :: string
  fl_internalAT :: bool
  fl_qmi :: bool
  fl_qmilite :: bool
  fl_m1 :: bool
  fl_m2 :: bool
  fl_stage :: string
  fl_token :: string
  fl_pull :: string
  fl_pullOutput :: string
  fl_reset :: bool
  fl_dial :: string
  fl_hangup :: bool
  fl_sms :: string
  fl_confirm :: bool
  fl_shell :: string

datatype mode = Refused string | ShellMode string | DialMode string | SmsMode string | HangupMode |
  StageMode string string | ResetMode | ProbeMode

definition phoneNumberPattern :: "string \<Rightarrow> bool" where
  "phoneNumberPattern s \<longleftrightarrow> 3 \<le> length s \<and> length s \<le> 20 \<and> list_all (\<lambda>c. c \<in> set ''0123456789'') s"

definition smsPDUPattern :: "string \<Rightarrow> bool" where
  "smsPDUPattern s \<longleftrightarrow> s \<noteq> [] \<and> even (length s) \<and> list_all (\<lambda>c. c \<in> set ''0123456789ABCDEFabcdef'') s"

definition other_mode :: "flags \<Rightarrow> bool" where
  "other_mode fl \<longleftrightarrow> fl_internalAT fl \<or> fl_qmi fl \<or> fl_qmilite fl \<or> fl_m1 fl \<or> fl_m2 fl \<or> fl_stage fl \<noteq> [] \<or>
     fl_pull fl \<noteq> [] \<or> fl_reset fl"

definition select_mode :: "flags \<Rightarrow> mode" where
  "select_mode fl =
     (if trim_space (fl_output fl) = [] then Refused ''--output is required''
      else if trim_space (fl_shell fl) \<noteq> [] then
        (if other_mode fl \<or> trim_space (fl_dial fl) \<noteq> [] \<or> trim_space (fl_sms fl) \<noteq> [] \<or> fl_hangup fl
         then Refused ''--shell cannot be combined with another probe or HIL''
         else ShellMode (trim_space (fl_shell fl)))
      else if (fl_pull fl = []) \<noteq> (fl_pullOutput fl = []) then Refused ''--pull and --pull-output must be supplied together''
      else if trim_space (fl_dial fl) \<noteq> [] then
        (if \<not> fl_confirm fl then Refused ''--hil-dial requires --confirm-business-hil''
         else if \<not> phoneNumberPattern (trim_space (fl_dial fl))
         then Refused ''--hil-dial accepts digits only, between 3 and 20 digits''
         else if other_mode fl
         then Refused ''--hil-dial cannot be combined with another probe, --pull, --reset-usb, or persistence stage''
         else DialMode (trim_space (fl_dial fl)))
      else if trim_space (fl_sms fl) \<noteq> [] then
        (if \<not> fl_confirm fl then Refused ''--hil-sms-pdu requires --confirm-business-hil''
         else if \<not> smsPDUPattern (trim_space (fl_sms fl)) then Refused ''--hil-sms-pdu accepts an even-length hexadecimal PDU''
         else if other_mode fl
         then Refused ''--hil-sms-pdu cannot be combined with another probe, --pull, --reset-usb, or persistence stage''
         else SmsMode (trim_space (fl_sms fl)))
      else if fl_hangup fl then
        (if \<not> fl_confirm fl then Refused ''--hil-hangup requires --confirm-business-hil''
         else if other_mode fl
         then Refused ''--hil-hangup cannot be combined with another probe, --pull, --reset-usb, or persistence stage''
         else HangupMode)
      else if fl_qmilite fl \<and> (fl_qmi fl \<or> fl_m1 fl \<or> fl_internalAT fl \<or> fl_pull fl \<noteq> [] \<or> fl_reset fl)
      then Refused ''--probe-qmi-lite cannot be combined with another probe, --pull, or --reset-usb''
      else if fl_m1 fl \<and> (fl_qmi fl \<or> fl_qmilite fl \<or> fl_internalAT fl \<or> fl_pull fl \<noteq> [] \<or> fl_reset fl)
      then Refused ''--probe-m1 cannot be combined with another probe, --pull, or --reset-usb''
      else if fl_m2 fl \<and> (fl_qmi fl \<or> fl_qmilite fl \<or> fl_m1 fl \<or> fl_internalAT fl \<or> fl_pull fl \<noteq> [] \<or> fl_reset fl)
      then Refused ''--probe-m2 cannot be combined with another probe, --pull, or --reset-usb''
      else if fl_stage fl \<noteq> [] then
        (if fl_internalAT fl \<or> fl_qmi fl \<or> fl_qmilite fl \<or> fl_m1 fl \<or> fl_pull fl \<noteq> [] \<or> fl_reset fl
         then Refused ''--persistence-stage cannot be combined with another probe, --pull, or --reset-usb''
         else StageMode (fl_stage fl) (fl_token fl))
      else if fl_reset fl then
        (if fl_pull fl \<noteq> [] \<or> fl_internalAT fl \<or> fl_qmi fl then Refused ''--reset-usb cannot be combined with probes or --pull''
         else ResetMode)
      else ProbeMode)"

section \<open>Finding the interface\<close>

record usb_endpoint =
  ep_Attributes :: byte
  ep_Address :: byte

record alt_setting =
  as_Number :: nat
  as_Class :: byte
  as_SubClass :: byte
  as_Protocol :: byte
  as_Endpoints :: "usb_endpoint list"

record adb_device =
  ad_iface :: nat
  ad_in :: byte
  ad_out :: byte

text \<open>What libusb answers: the start of the library (\<^term>\<open>None\<close> when it works, else the name of the error), whether the
  device can be opened and looked up, its configuration as interfaces with their settings, and the claim of an
  interface.\<close>

record usb_bus =
  ub_init :: "string option"
  ub_open :: bool
  ub_device :: bool
  ub_config :: "(string, alt_setting list list) result"
  ub_claim :: "nat \<Rightarrow> string option"
  ub_reset :: "string option"

text \<open>The last bulk endpoint of each direction, zero when there is none.\<close>

definition bulk_endpoints :: "usb_endpoint list \<Rightarrow> byte \<times> byte" where
  "bulk_endpoints eps =
     foldl (\<lambda>(i, out) e.
        if ep_Attributes e AND 3 \<noteq> 2 then (i, out)
        else if ep_Address e AND 0x80 \<noteq> 0 then (ep_Address e, out) else (i, ep_Address e)) (0, 0) eps"

definition adb_setting :: "alt_setting \<Rightarrow> bool" where
  "adb_setting a \<longleftrightarrow> as_Class a = 0xff \<and> as_SubClass a = 0x42 \<and> as_Protocol a = 0x01 \<and>
     fst (bulk_endpoints (as_Endpoints a)) \<noteq> 0 \<and> snd (bulk_endpoints (as_Endpoints a)) \<noteq> 0"

definition hex_nat :: "nat \<Rightarrow> string" where
  "hex_nat n = [hex_digit_lower (n div 16), hex_digit_lower (n mod 16)]"

definition openADBDevice :: "usb_bus \<Rightarrow> (string, adb_device) result" where
  "openADBDevice bus =
     (if \<not> ub_open bus then Inl ''QDC507 USB device 2c7c:0125 was not found by libusb''
      else if \<not> ub_device bus then Inl ''libusb returned no device for QDC507''
      else case ub_config bus of
             Inl e \<Rightarrow> Inl (''get active configuration: '' @ e)
           | Inr interfaces \<Rightarrow>
               (case List.find adb_setting (concat interfaces) of
                  None \<Rightarrow> Inl ''QDC507 has no ff/42/01 bulk ADB interface''
                | Some a \<Rightarrow>
                    (case ub_claim bus (as_Number a) of
                       Some e \<Rightarrow> Inl (''claim ADB interface '' @ nat_to_string (as_Number a) @ '': '' @ e)
                     | None \<Rightarrow> Inr \<lparr>ad_iface = as_Number a, ad_in = fst (bulk_endpoints (as_Endpoints a)),
                                   ad_out = snd (bulk_endpoints (as_Endpoints a))\<rparr>)))"

definition statusForOpenError :: "string \<Rightarrow> string" where
  "statusForOpenError e =
     (if str_contains e ''no ff/42/01'' then ''BLOCKED_NO_ADB_INTERFACE''
      else if str_contains e ''not found'' then ''BLOCKED_QDC507_NOT_FOUND''
      else ''BLOCKED_ADB_OPEN'')"

text \<open>The interface that is opened is the first one of the ADB class that has bulk endpoints both ways, and the two
  endpoints of the tool are bulk endpoints of it, one of each direction.\<close>

lemma bulk_endpoints_snoc:
  "bulk_endpoints (eps @ [e]) = (case bulk_endpoints eps of (i, out) \<Rightarrow>
     if ep_Attributes e AND 3 \<noteq> 2 then (i, out)
     else if ep_Address e AND 0x80 \<noteq> 0 then (ep_Address e, out) else (i, ep_Address e))"
  by (simp add: bulk_endpoints_def split: prod.splits)

lemma bulk_endpoints_from:
  "(let (i, out) = bulk_endpoints eps in
     (i = 0 \<or> (\<exists>e\<in>set eps. ep_Address e = i \<and> ep_Attributes e AND 3 = 2 \<and> i AND 0x80 \<noteq> 0)) \<and>
     (out = 0 \<or> (\<exists>e\<in>set eps. ep_Address e = out \<and> ep_Attributes e AND 3 = 2 \<and> out AND 0x80 = 0)))"
proof (induction eps rule: rev_induct)
  case Nil
  then show ?case by (simp add: bulk_endpoints_def)
next
  case (snoc e eps)
  then show ?case by (auto simp: bulk_endpoints_snoc Let_def split: prod.splits)
qed

theorem opened_interface_is_adb:
  assumes "openADBDevice bus = Inr d" and "ub_config bus = Inr interfaces"
  shows "\<exists>a\<in>set (concat interfaces). as_Number a = ad_iface d \<and> (as_Class a, as_SubClass a, as_Protocol a) = (0xff, 0x42, 0x01) \<and>
     (\<exists>e\<in>set (as_Endpoints a). ep_Address e = ad_in d \<and> ep_Attributes e AND 3 = 2 \<and> ad_in d AND 0x80 \<noteq> 0) \<and>
     (\<exists>e\<in>set (as_Endpoints a). ep_Address e = ad_out d \<and> ep_Attributes e AND 3 = 2 \<and> ad_out d AND 0x80 = 0)"
proof -
  obtain a where a: "List.find adb_setting (concat interfaces) = Some a" "ad_iface d = as_Number a"
      "(ad_in d, ad_out d) = bulk_endpoints (as_Endpoints a)"
    using assms by (auto simp: openADBDevice_def split: if_splits option.splits)
  have member: "a \<in> set (concat interfaces)" "adb_setting a"
    using a(1) by (metis find_Some_iff nth_mem)+
  have "ad_in d \<noteq> 0" "ad_out d \<noteq> 0"
    using member(2) a(3) [symmetric] by (simp_all add: adb_setting_def)
  then show ?thesis
    using bulk_endpoints_from [of "as_Endpoints a"] member a(2) a(3) [symmetric] by (intro bexI [of _ a]) (auto simp: adb_setting_def)
qed


section \<open>What a run reports\<close>

definition adb_public :: "adb_device \<Rightarrow> nat \<times> string \<times> string" where
  "adb_public d = (ad_iface d, ''0x'' @ hex_nat (unat (ad_in d)), ''0x'' @ hex_nat (unat (ad_out d)))"

record shellResult =
  sr_Name :: string
  sr_Command :: string
  sr_ReturnCode :: int
  sr_Stdout :: string
  sr_Error :: string

record evidence =
  ev_Schema :: string
  ev_ReadOnly :: bool
  ev_Status :: string
  ev_Interface :: "(nat \<times> string \<times> string) option"
  ev_Handshake :: string
  ev_Identity :: string
  ev_IsRoot :: bool
  ev_Commands :: "shellResult list"
  ev_PulledFile :: string
  ev_Token :: string
  ev_Error :: string

definition new_evidence :: "string \<Rightarrow> bool \<Rightarrow> evidence" where
  "new_evidence schema readOnly =
     \<lparr>ev_Schema = schema, ev_ReadOnly = readOnly, ev_Status = ''UNKNOWN'', ev_Interface = None, ev_Handshake = [],
      ev_Identity = [], ev_IsRoot = False, ev_Commands = [], ev_PulledFile = [], ev_Token = [], ev_Error = []\<rparr>"

definition blocked :: "string \<Rightarrow> string \<Rightarrow> evidence \<Rightarrow> evidence" where
  "blocked status e r = r\<lparr>ev_Status := status, ev_Error := e\<rparr>"

definition trim_output :: "string \<Rightarrow> string" where
  "trim_output s =
     (let t = filter (\<lambda>c. c \<noteq> nul) s
      in if 16384 < length t then take 16384 t @ [char_of (10::nat)] @ ''...[truncated]'' else t)"

text \<open>The start every mode shares: the library, the interface, the handshake. \<open>auth\<close> is the status for a module that asks
  for a key.\<close>

definition connected ::
  "usb_bus \<Rightarrow> string \<Rightarrow> (evidence \<Rightarrow> usbADB \<Rightarrow> evidence \<times> usbADB) \<Rightarrow> evidence \<Rightarrow> usbADB \<Rightarrow> evidence \<times> usbADB" where
  "connected bus auth body r s =
     (case ub_init bus of
        Some e \<Rightarrow> (blocked ''BLOCKED_LIBUSB_INIT'' e r, s)
      | None \<Rightarrow>
          (case openADBDevice bus of
             Inl e \<Rightarrow> (blocked (statusForOpenError e) e r, s)
           | Inr d \<Rightarrow>
               (let r1 = r\<lparr>ev_Interface := Some (adb_public d)\<rparr>
                in case adb_handshake s of
                     (Some e, s1) \<Rightarrow> (blocked (if e = errADBAuthRequired then auth else ''BLOCKED_ADB_HANDSHAKE'') e r1, s1)
                   | (None, s1) \<Rightarrow> body (r1\<lparr>ev_Handshake := ''CNXN''\<rparr>) s1)))"

definition identified ::
  "(string \<Rightarrow> string) \<Rightarrow> (evidence \<Rightarrow> usbADB \<Rightarrow> evidence \<times> usbADB) \<Rightarrow> evidence \<Rightarrow> usbADB \<Rightarrow> evidence \<times> usbADB" where
  "identified shorten body r s =
     (case shell ''id'' s of
        ((out, Some e), s1) \<Rightarrow> (blocked ''BLOCKED_ADB_SHELL'' e r, s1)
      | ((out, None), s1) \<Rightarrow> body (r\<lparr>ev_Identity := shorten out, ev_IsRoot := str_contains out ''uid=0''\<rparr>) s1)"

definition as_root ::
  "string \<Rightarrow> (evidence \<Rightarrow> usbADB \<Rightarrow> evidence \<times> usbADB) \<Rightarrow> evidence \<Rightarrow> usbADB \<Rightarrow> evidence \<times> usbADB" where
  "as_root refusal body r s =
     (if ev_IsRoot r then body r s else (blocked ''BLOCKED_NON_ROOT_SHELL'' refusal r, s))"

text \<open>A command with its entry in the evidence; the exit status of the command is not looked at.\<close>

definition shell_entry :: "string \<Rightarrow> string \<Rightarrow> usbADB \<Rightarrow> (shellResult \<times> string \<times> string option) \<times> usbADB" where
  "shell_entry name command s =
     (case shell command s of ((out, e), s1) \<Rightarrow>
        ((\<lparr>sr_Name = name, sr_Command = command, sr_ReturnCode = (if e = None then 0 else -1), sr_Stdout = trim_output out,
           sr_Error = (case e of None \<Rightarrow> [] | Some t \<Rightarrow> t)\<rparr>, out, e), s1))"

fun run_commands :: "(string \<times> string) list \<Rightarrow> evidence \<Rightarrow> usbADB \<Rightarrow> evidence \<times> usbADB" where
  "run_commands [] r s = (r, s)"
| "run_commands ((name, command) # rest) r s =
     (case shell_entry name command s of ((entry, _), s1) \<Rightarrow>
        run_commands rest (r\<lparr>ev_Commands := ev_Commands r @ [entry]\<rparr>) s1)"

section \<open>The modes at work\<close>

definition resetUSBSession :: "usb_bus \<Rightarrow> evidence" where
  "resetUSBSession bus =
     (let r = new_evidence ''cellbridge.v8.qdc507-adb-readonly.v1'' True
      in case ub_init bus of
           Some e \<Rightarrow> blocked ''BLOCKED_LIBUSB_INIT'' e r
         | None \<Rightarrow>
             if \<not> ub_open bus
             then blocked ''BLOCKED_QDC507_NOT_FOUND'' ''QDC507 USB device 2c7c:0125 was not found by libusb'' r
             else case ub_reset bus of
                    Some e \<Rightarrow> blocked ''BLOCKED_USB_RESET'' e r
                  | None \<Rightarrow> r\<lparr>ev_Status := ''USB_RESET_REQUESTED''\<rparr>)"

definition runShell :: "usb_bus \<Rightarrow> string \<Rightarrow> usbADB \<Rightarrow> evidence \<times> usbADB" where
  "runShell bus command s =
     connected bus ''BLOCKED_ADB_HANDSHAKE''
       (identified trim_space (\<lambda>r s.
          case shell command s of
            ((out, Some e), s1) \<Rightarrow> (blocked ''SHELL_FAILED'' e r, s1)
          | ((out, None), s1) \<Rightarrow>
              (r\<lparr>ev_Status := ''SHELL_CAPTURED'',
                 ev_Commands := [\<lparr>sr_Name = ''shell'', sr_Command = command, sr_ReturnCode = 0,
                   sr_Stdout = trim_space out, sr_Error = []\<rparr>]\<rparr>, s1)))
       (new_evidence ''cellbridge.v8.qdc507-shell.v1'' True) s"

definition runBusinessCommandHIL :: "usb_bus \<Rightarrow> string \<Rightarrow> string \<Rightarrow> string \<Rightarrow> usbADB \<Rightarrow> evidence \<times> usbADB" where
  "runBusinessCommandHIL bus schema name command s =
     connected bus ''BLOCKED_ADB_HANDSHAKE''
       (identified trim_output
         (as_root ''business HIL requires the already-authorized root shell; no privilege escalation was attempted'' (\<lambda>r s.
            case shell_entry name command s of ((entry, out, e), s1) \<Rightarrow>
              ((case e of Some t \<Rightarrow> blocked ''BLOCKED_BUSINESS_HIL'' t r | None \<Rightarrow> r\<lparr>ev_Status := ''BUSINESS_HIL_CAPTURED''\<rparr>)
                 \<lparr>ev_Commands := [entry]\<rparr>, s1))))
       (new_evidence schema False) s"

definition dialHILCommand :: "string \<Rightarrow> string" where
  "dialHILCommand number =
     script ''{ sleep 5; printf ~dial '' @ number @ script (''@n~; sleep 25; printf ~call_state@n~; sleep 3; printf ~call_end@n~; '' @
       ''sleep 3; printf ~call_state@n~; sleep 1; printf ~quit@n~; } 2>&1 | '' @
       ''/bin/timeout -t 45 -s KILL /usr/bin/qmi_simple_ril_test 2>&1'')"

definition runDialHIL :: "usb_bus \<Rightarrow> string \<Rightarrow> usbADB \<Rightarrow> evidence \<times> usbADB" where
  "runDialHIL bus number =
     runBusinessCommandHIL bus ''cellbridge.v8.qdc507-business-hil.v1'' ''dial_state_hangup'' (dialHILCommand number)"

definition runHangupHIL :: "usb_bus \<Rightarrow> usbADB \<Rightarrow> evidence \<times> usbADB" where
  "runHangupHIL bus =
     runBusinessCommandHIL bus ''cellbridge.v8.qdc507-business-hil.v1'' ''hangup_state''
       (script (''{ sleep 5; printf ~call_end@n~; sleep 3; printf ~call_state@n~; sleep 1; printf ~quit@n~; } 2>&1 | '' @
          ''/bin/timeout -t 20 -s KILL /usr/bin/qmi_simple_ril_test 2>&1''))"

definition runSMSHIL :: "usb_bus \<Rightarrow> string \<Rightarrow> usbADB \<Rightarrow> evidence \<times> usbADB" where
  "runSMSHIL bus pdu =
     runBusinessCommandHIL bus ''cellbridge.v8.qdc507-sms-hil.v1'' ''sms_submit_pdu''
       (script ''{ sleep 5; printf ~mo_sms_gsm '' @ pdu @ script (''@n~; sleep 12; printf ~quit@n~; } 2>&1 | '' @
          ''/bin/timeout -t 25 -s KILL /usr/bin/qmi_simple_ril_test 2>&1''))"

definition internalATProbeCommand :: "string \<Rightarrow> string \<Rightarrow> string" where
  "internalATProbeCommand device query =
     (let inner = ''exec 3<>'' @ device @ '' || exit 1; echo OPENED; '' @ script ''printf ~%s@r~ '' @ shellQuote query @
            '' >&3; echo SENT; /bin/cat <&3''
      in ''if [ ! -c '' @ device @ script '' ]; then echo ~MISSING~; else /bin/timeout -t 2 /bin/sh -c '' @ shellQuote inner @ ''; fi'')"

definition internal_at_commands :: "(string \<times> string) list" where
  "internal_at_commands =
     concat (map (\<lambda>device.
       map (\<lambda>query. (''internal_at_'' @ device @ ''_'' @ concat (map (\<lambda>c. if c = CHR ''+'' then ''plus'' else [c]) query),
           internalATProbeCommand (''/dev/'' @ device) query))
         [''AT'', ''ATI'', ''AT+CPIN?'', ''AT+COPS?'', ''AT+CSQ'', ''AT+CLCC''])
       [''at_usb0'', ''at_usb1''])"

text \<open>Everything a probe runs, in order.\<close>

definition probe_commands :: "flags \<Rightarrow> (string \<times> string) list" where
  "probe_commands fl =
     readCommands @ (if fl_qmi fl then qmiReadCommands else []) @
     (if fl_qmilite fl then [(''qmi_readonly_console_lite'', qmiReadOnlyConsole)] else []) @
     (if fl_m1 fl then m1ReadCommands else []) @ (if fl_m2 fl then m2ReadCommands else []) @
     (if fl_internalAT fl then internal_at_commands else [])"

definition probe :: "usb_bus \<Rightarrow> LocalFiles \<Rightarrow> flags \<Rightarrow> usbADB \<Rightarrow> evidence \<times> usbADB" where
  "probe bus lf fl s =
     connected bus ''BLOCKED_ADB_AUTH_REQUIRED'' (\<lambda>r s.
       let body = identified trim_output
             (as_root ''v8 M0 requires a verified root shell; no privilege escalation was attempted'' (\<lambda>r s.
                case run_commands (probe_commands fl) r s of (r1, s1) \<Rightarrow> (r1\<lparr>ev_Status := ''H1_M0_READ_ONLY_CAPTURED''\<rparr>, s1)))
       in if fl_pull fl \<noteq> []
          then (case pull lf (fl_pull fl) (fl_pullOutput fl) s of
                  (Inl e, s1) \<Rightarrow> (blocked ''BLOCKED_ADB_READ'' e r, s1)
                | (Inr _, s1) \<Rightarrow> body (r\<lparr>ev_PulledFile := fl_pullOutput fl\<rparr>) s1)
          else body r s)
       (new_evidence ''cellbridge.v8.qdc507-adb-readonly.v1'' True) s"

section \<open>The persistence stages\<close>

definition persistenceStageDir :: string where "persistenceStageDir = ''/data/.cellbridge-persist-probe''"
definition persistenceStageMarker :: string where "persistenceStageMarker = persistenceStageDir @ ''/marker''"
definition persistenceStageBinary :: string where "persistenceStageBinary = persistenceStageDir @ ''/busybox''"

definition stage_command :: "string \<Rightarrow> string \<Rightarrow> string" where
  \<open>stage_command stage token =
     (if stage = ''create'' then
        ''umask 077; mkdir -p '' @ persistenceStageDir @ script '' && printf ~%s@n~ '' @ shellQuote token @ '' > '' @
        persistenceStageMarker @ '' && cp /bin/busybox '' @ persistenceStageBinary @ '' && chmod 700 '' @ persistenceStageBinary @
        '' && '' @ persistenceStageBinary @ '' true; rc=$?; echo EXEC_RC=$rc; sync''
      else if stage = ''verify'' \<or> stage = ''verify-reboot'' then
        ''marker=$(cat '' @ persistenceStageMarker @ script '' 2>/dev/null) || exit 11; printf ~MARKER=%s@n~ "$marker"; [ "$marker" = '' @
        shellQuote token @ '' ] || exit 12; '' @ persistenceStageBinary @ script ''; rc=$?; echo EXEC_RC=$rc; mount | grep ~ /data ~''
      else
        ''rm -f '' @ persistenceStageMarker @ '' '' @ persistenceStageBinary @ ''; rmdir '' @ persistenceStageDir @
        '' 2>/dev/null || true; if [ -e '' @ persistenceStageMarker @ '' ] || [ -e '' @ persistenceStageBinary @
        '' ]; then echo CLEANUP_REMAINING=1; else echo CLEANUP_REMAINING=0; fi'')\<close>

text \<open>An error of the command that restarts the module is forgiven when its text has one of three words.\<close>

definition reboot_forgiven :: "string \<Rightarrow> bool" where
  "reboot_forgiven e \<longleftrightarrow> str_contains (to_lower e) ''timeout'' \<or> str_contains (to_lower e) ''no device'' \<or>
     str_contains (to_lower e) ''transfer''"

definition requestModuleReboot :: "evidence \<Rightarrow> usbADB \<Rightarrow> string option \<times> evidence \<times> usbADB" where
  "requestModuleReboot r s =
     (case shell_entry ''persistence_reboot'' ''sync; reboot'' s of ((entry, out, e), s1) \<Rightarrow>
        ((case e of Some t \<Rightarrow> if reboot_forgiven t then None else Some t | None \<Rightarrow> None),
         r\<lparr>ev_Commands := ev_Commands r @ [entry]\<rparr>, s1))"

text \<open>What follows the command of a stage.\<close>

definition after_stage :: "string \<Rightarrow> string \<Rightarrow> string \<Rightarrow> evidence \<Rightarrow> usbADB \<Rightarrow> evidence \<times> usbADB" where
  "after_stage stage token out r s =
     (if stage = ''create'' then
        (if \<not> str_contains out ''EXEC_RC=0''
         then (blocked ''BLOCKED_PERSISTENCE_EXEC'' ''persistence probe binary did not execute successfully'' r, s)
         else (case requestModuleReboot (r\<lparr>ev_Error := ''persistence token returned in probeToken'',
                        ev_Status := ''M1_PERSISTENCE_PROBE_CREATED''\<rparr>) s of
                 (Some e, r1, s1) \<Rightarrow> (blocked ''BLOCKED_MODULE_REBOOT'' e r1, s1)
               | (None, r1, s1) \<Rightarrow>
                   (blocked ''M1_PERSISTENCE_PROBE_REBOOT_REQUESTED'' ''persistence token returned in probeToken'' r1, s1)))
      else if stage = ''verify'' \<or> stage = ''verify-reboot'' then
        (if \<not> str_contains out (''MARKER='' @ token) \<or> \<not> str_contains out ''EXEC_RC=0''
         then (blocked ''BLOCKED_PERSISTENCE_VERIFY'' ''marker or executable did not survive the reboot'' r, s)
         else if stage = ''verify'' then (r\<lparr>ev_Status := ''M1_PERSISTENCE_VERIFIED''\<rparr>, s)
         else (case requestModuleReboot (r\<lparr>ev_Status := ''M1_PERSISTENCE_VERIFIED''\<rparr>) s of
                 (Some e, r1, s1) \<Rightarrow> (blocked ''BLOCKED_MODULE_REBOOT'' e r1, s1)
               | (None, r1, s1) \<Rightarrow> (r1\<lparr>ev_Status := ''M1_PERSISTENCE_VERIFIED_REBOOT_REQUESTED''\<rparr>, s1)))
      else if \<not> str_contains out ''CLEANUP_REMAINING=0''
      then (blocked ''BLOCKED_PERSISTENCE_CLEANUP'' ''probe files were not fully removed'' r, s)
      else (r\<lparr>ev_Status := ''M1_PERSISTENCE_CLEANED''\<rparr>, s))"

text \<open>\<open>fresh\<close>: the token of a new probe, \<^term>\<open>Inl\<close> when there are no random bytes.\<close>

definition runPersistenceStage ::
  "usb_bus \<Rightarrow> (string, string) result \<Rightarrow> string \<Rightarrow> string \<Rightarrow> usbADB \<Rightarrow> evidence \<times> usbADB" where
  "runPersistenceStage bus fresh stage given s =
     (let r = (new_evidence ''cellbridge.v8.qdc507-adb-persistence.v1'' False)\<lparr>ev_PulledFile := persistenceStageDir\<rparr>
      in if stage \<notin> {''create'', ''verify'', ''verify-reboot'', ''cleanup''}
         then (blocked ''BLOCKED_INVALID_PERSISTENCE_STAGE'' ''stage must be create, verify, verify-reboot, or cleanup'' r, s)
         else case (if stage = ''create'' then fresh else Inr given) of
                Inl e \<Rightarrow> (blocked ''BLOCKED_TOKEN_GENERATION'' (''generate persistence token: '' @ e) r, s)
              | Inr token \<Rightarrow>
                  if stage \<noteq> ''create'' \<and> stage \<noteq> ''cleanup'' \<and> trim_space token = []
                  then (blocked ''BLOCKED_PERSISTENCE_TOKEN_REQUIRED'' ''--persistence-token is required for verify stages'' r, s)
                  else connected bus ''BLOCKED_ADB_HANDSHAKE''
                    (identified trim_output
                      (as_root ''M1 persistence probe requires the already verified root shell'' (\<lambda>r s.
                         case shell_entry (''persistence_'' @ stage) (stage_command stage token) s of ((entry, out, e), s1) \<Rightarrow>
                           after_stage stage token out (r\<lparr>ev_Commands := ev_Commands r @ [entry]\<rparr>) s1)))
                    (if stage = ''create'' then r\<lparr>ev_Token := token\<rparr> else r) s)"

section \<open>A run of the tool\<close>

text \<open>\<^term>\<open>Inl\<close>: the text of a refusal, before anything is opened. Otherwise the evidence that is written.\<close>

definition run_mode ::
  "usb_bus \<Rightarrow> LocalFiles \<Rightarrow> (string, string) result \<Rightarrow> flags \<Rightarrow> usbADB \<Rightarrow> (string, evidence) result \<times> usbADB" where
  "run_mode bus lf fresh fl s =
     (case select_mode fl of
        Refused e \<Rightarrow> (Inl e, s)
      | ShellMode command \<Rightarrow> apfst Inr (runShell bus command s)
      | DialMode number \<Rightarrow> apfst Inr (runDialHIL bus number s)
      | SmsMode pdu \<Rightarrow> apfst Inr (runSMSHIL bus pdu s)
      | HangupMode \<Rightarrow> apfst Inr (runHangupHIL bus s)
      | StageMode stage token \<Rightarrow> apfst Inr (runPersistenceStage bus fresh stage token s)
      | ResetMode \<Rightarrow> (Inr (resetUSBSession bus), s)
      | ProbeMode \<Rightarrow> apfst Inr (probe bus lf fl s))"

text \<open>The exit status: two for a refusal, and when the status of the evidence is not the one of the mode.\<close>

definition exit_status :: "mode \<Rightarrow> (string, evidence) result \<Rightarrow> nat" where
  "exit_status m answer =
     (case answer of
        Inl _ \<Rightarrow> 2
      | Inr r \<Rightarrow>
          (if (case m of
                 ShellMode _ \<Rightarrow> ev_Status r = ''SHELL_CAPTURED''
               | StageMode _ _ \<Rightarrow> ev_Status r \<noteq> ''UNKNOWN'' \<and> \<not> has_prefix (ev_Status r) ''BLOCKED_''
               | ResetMode \<Rightarrow> ev_Status r = ''USB_RESET_REQUESTED''
               | ProbeMode \<Rightarrow> ev_Status r = ''H1_M0_READ_ONLY_CAPTURED''
               | _ \<Rightarrow> ev_Status r = ''BUSINESS_HIL_CAPTURED'') then 0 else 2))"

section \<open>What a run without confirmation writes\<close>

lemma connected_writes:
  assumes "connected bus auth body r s = (r', s')" and "string_bytes (''host::'' @ [nul]) \<in> A"
    and "\<And>r s r' s'. body r s = (r', s') \<Longrightarrow> writes A s s'"
  shows "writes A s s'"
proof -
  obtain e s1 where shaken: "adb_handshake s = (e, s1)" by (cases "adb_handshake s")
  have "writes A s s1" using writes_mono [OF handshake_writes [OF shaken]] assms(2) by simp
  then show ?thesis
    using assms(1) shaken writes_trans [OF _ assms(3)]
    by (auto simp: connected_def Let_def writes_same_log split: option.splits sum.splits)
qed

definition shell_request :: "string \<Rightarrow> byte list" where
  "shell_request command = string_bytes (''shell:'' @ command @ [nul])"

lemma shell_request_writes: "shell command s = (r, s') \<Longrightarrow> shell_request command \<in> A \<Longrightarrow> writes A s s'"
  using writes_mono [OF shell_writes] by (simp add: shell_request_def)

lemma identified_writes:
  assumes "identified shorten body r s = (r', s')" and "shell_request ''id'' \<in> A"
    and "\<And>r s r' s'. body r s = (r', s') \<Longrightarrow> writes A s s'"
  shows "writes A s s'"
proof -
  obtain q s1 where id: "shell ''id'' s = (q, s1)" by (cases "shell ''id'' s")
  have "writes A s s1" using shell_request_writes [OF id assms(2)] .
  then show ?thesis
    using assms(1) id writes_trans [OF _ assms(3)] by (auto simp: identified_def split: prod.splits option.splits)
qed

lemma as_root_writes:
  assumes "as_root refusal body r s = (r', s')" and "\<And>r s r' s'. body r s = (r', s') \<Longrightarrow> writes A s s'"
  shows "writes A s s'"
  using assms by (auto simp: as_root_def writes_same_log split: if_splits)

lemma shell_entry_writes: "shell_entry name command s = (q, s') \<Longrightarrow> shell_request command \<in> A \<Longrightarrow> writes A s s'"
  using shell_request_writes by (auto simp: shell_entry_def split: prod.splits)

lemma run_commands_writes:
  "run_commands cs r s = (r', s') \<Longrightarrow> shell_request ` set (map snd cs) \<subseteq> A \<Longrightarrow> writes A s s'"
proof (induction cs r s rule: run_commands.induct)
  case (2 name command rest r s)
  obtain entry q s1 where first: "shell_entry name command s = ((entry, q), s1)" by (metis prod.collapse)
  have "writes A s s1" using shell_entry_writes [OF first] 2(3) by simp
  moreover have "writes A s1 s'" using 2(1) [OF first [symmetric] refl] 2(2,3) first by simp
  ultimately show ?case by (rule writes_trans)
qed (simp add: writes_same_log)

text \<open>What a probe may send besides headers.\<close>

definition probe_payloads :: "flags \<Rightarrow> byte list set" where
  "probe_payloads fl =
     {string_bytes (''host::'' @ [nul]), string_bytes (''sync:'' @ [nul]), pull_request (fl_pull fl)} \<union>
     shell_request ` ({''id''} \<union> set (map snd (probe_commands fl)))"

lemma probe_writes: "probe bus lf fl s = (r, s') \<Longrightarrow> writes (probe_payloads fl) s s'"
proof -
  assume run: "probe bus lf fl s = (r, s')"
  let ?A = "probe_payloads fl"
  have commands: "writes ?A s s'" if "(case run_commands (probe_commands fl) r s of (r1, s1) \<Rightarrow>
      (r1\<lparr>ev_Status := status\<rparr>, s1)) = (r', s')" for r s r' s' status
    using that run_commands_writes [of "probe_commands fl" r s _ _ ?A]
    by (auto simp: probe_payloads_def split: prod.splits)
  note body = identified_writes [OF _ _ as_root_writes [OF _ commands]]
  have id: "shell_request ''id'' \<in> ?A" by (simp add: probe_payloads_def)
  have pulled: "writes ?A s s'" if "pull lf (fl_pull fl) (fl_pullOutput fl) s = (q, s')" for q s s'
    using writes_mono [OF pull_writes [OF that]] by (simp add: probe_payloads_def)
  show ?thesis
    using run unfolding probe_def
    by (rule connected_writes)
      (auto simp: probe_payloads_def [symmetric] Let_def split: if_splits prod.splits sum.splits dest: pulled
        intro: body [OF _ id] writes_trans [OF pulled body [OF _ id]], simp add: probe_payloads_def)
qed

text \<open>Without \<^verbatim>\<open>--confirm-business-hil\<close>, \<^verbatim>\<open>--shell\<close> and \<^verbatim>\<open>--persistence-stage\<close> a run writes to the module, beside packet
  headers, only the handshake, the request for the file to read, and the listed commands of the probes that were asked for.\<close>

theorem unconfirmed_run_only_probes:
  assumes "run_mode bus lf fresh fl s = (answer, s')" and "\<not> fl_confirm fl" and "trim_space (fl_shell fl) = []"
    and "fl_stage fl = []"
  shows "\<exists>log. us_log s' = us_log s @ log \<and> set log \<subseteq> adb_headers \<union> probe_payloads fl"
proof -
  have "select_mode fl \<in> {ResetMode, ProbeMode} \<or> (\<exists>e. select_mode fl = Refused e)"
    using assms(2-4) by (simp add: select_mode_def)
  then have "s' = s \<or> (\<exists>r. probe bus lf fl s = (r, s'))"
    using assms(1) by (auto simp: run_mode_def apfst_def map_prod_def split: prod.splits)
  then have "writes (probe_payloads fl) s s'" using probe_writes writes_same_log by blast
  then show ?thesis by (simp add: writes_def)
qed

definition no_flags :: flags where
  "no_flags = \<lparr>fl_output = ''x'', fl_internalAT = False, fl_qmi = False, fl_qmilite = False, fl_m1 = False, fl_m2 = False,
     fl_stage = [], fl_token = [], fl_pull = [], fl_pullOutput = [], fl_reset = False, fl_dial = [], fl_hangup = False,
     fl_sms = [], fl_confirm = False, fl_shell = []\<rparr>"

text \<open>A module whose ADB interface has the endpoints 0x81 and 0x01.\<close>

definition plain_bus :: usb_bus where
  "plain_bus = \<lparr>ub_init = None, ub_open = True, ub_device = True,
     ub_config = Inr [[\<lparr>as_Number = 1, as_Class = 0xff, as_SubClass = 0x42, as_Protocol = 1,
       as_Endpoints = [\<lparr>ep_Attributes = 2, ep_Address = 0x81\<rparr>, \<lparr>ep_Attributes = 2, ep_Address = 1\<rparr>]\<rparr>]],
     ub_claim = (\<lambda>_. None), ub_reset = None\<rparr>"

lemma plain_bus_opens: "openADBDevice plain_bus = Inr \<lparr>ad_iface = 1, ad_in = 0x81, ad_out = 1\<rparr>"
  by (simp add: openADBDevice_def plain_bus_def adb_setting_def bulk_endpoints_def)

theorem opened_interface_is_adb_witness: "\<exists>a :: alt_setting. as_Number a = 1 \<and> as_Class a = 0xff \<and> openADBDevice plain_bus \<noteq> Inl []"
proof -
  obtain interfaces where "ub_config plain_bus = Inr interfaces" by (simp add: plain_bus_def)
  from opened_interface_is_adb [OF plain_bus_opens this] obtain a :: alt_setting where "as_Number a = 1" "as_Class a = 0xff" by auto
  then show ?thesis by (auto simp: plain_bus_opens)
qed

definition no_files :: LocalFiles where
  "no_files = \<lparr>lf_exists = Some False, lf_temp = True, lf_write = (\<lambda>c d. True), lf_close = True, lf_rename = True\<rparr>"

theorem unconfirmed_run_only_probes_witness:
  "\<exists>answer s' log. run_mode plain_bus no_files (Inl ''none'') (no_flags\<lparr>fl_m1 := True\<rparr>)
       \<lparr>us_reads = packet_reads (text_packet adbCNXN 0 0 []), us_writes = [], us_clock = [], us_log = []\<rparr> = (answer, s') \<and>
     us_log s' = log \<and> set log \<subseteq> adb_headers \<union> probe_payloads (no_flags\<lparr>fl_m1 := True\<rparr>)"
proof -
  let ?fl = "no_flags\<lparr>fl_m1 := True\<rparr>"
  let ?s = "\<lparr>us_reads = packet_reads (text_packet adbCNXN 0 0 []), us_writes = [], us_clock = [], us_log = []\<rparr>"
  obtain answer s' where run: "run_mode plain_bus no_files (Inl ''none'') ?fl ?s = (answer, s')" by fastforce
  have "\<not> fl_confirm ?fl" "trim_space (fl_shell ?fl) = []" "fl_stage ?fl = []" by (simp_all add: no_flags_def)
  from unconfirmed_run_only_probes [OF run this] run show ?thesis by fastforce
qed

section \<open>What the flags let pass\<close>

text \<open>A call or a message is only placed with \<^verbatim>\<open>--confirm-business-hil\<close>, and only digits reach the command of the shell.\<close>

theorem business_needs_confirmation:
  "case select_mode fl of
     DialMode number \<Rightarrow> fl_confirm fl \<and> phoneNumberPattern number \<and> \<not> other_mode fl
   | SmsMode pdu \<Rightarrow> fl_confirm fl \<and> smsPDUPattern pdu \<and> \<not> other_mode fl
   | HangupMode \<Rightarrow> fl_confirm fl \<and> \<not> other_mode fl
   | _ \<Rightarrow> True"
  by (simp add: select_mode_def)

text \<open>A persistence stage, which writes to the module, is not refused together with the probe of the second stage, though it
  is with every other probe: the probe is dropped silently.\<close>

theorem stage_with_m2_is_run:
  "select_mode (no_flags\<lparr>fl_m2 := True, fl_stage := stage, fl_token := token\<rparr>) =
     (if stage = [] then ProbeMode else StageMode stage token)"
  by (simp add: select_mode_def no_flags_def graphic_char_def)

text \<open>A module that is gone is what the comment of \<^verbatim>\<open>requestModuleReboot\<close> counts as a restart that was requested. The
  name that libusb gives to that error has no blank in it, so it is reported as a restart that failed.\<close>

lemma bulkRead_error:
  "us_reads s = UsbError name # rest \<Longrightarrow> bulkRead headSize s = (Inl (''ADB bulk read: '' @ name), s\<lparr>us_reads := rest\<rparr>)"
  by (simp add: bulkRead_def headSize_def packetLimit_def)

theorem vanished_module_counts_as_failure:
  assumes "clear_line s" and "us_reads s = UsbError ''LIBUSB_ERROR_NO_DEVICE'' # rest"
  shows "fst (requestModuleReboot r s) =
     Some (''read shell '' @ go_quote ''sync; reboot'' @ '': ADB bulk read: LIBUSB_ERROR_NO_DEVICE'')"
proof -
  let ?open = "text_packet adbOPEN 1 0 (''shell:sync; reboot'' @ [nul])"
  obtain s1 where sent: "writePacket ?open s = (None, s1)" "clear_line s1" "us_reads s1 = us_reads s"
    using writePacket_clear [OF assms(1) text_packet_small [of "''shell:sync; reboot'' @ [nul]"]] by (fastforce simp: packetLimit_def)
  have "readPacket s1 = (Inl ''ADB bulk read: LIBUSB_ERROR_NO_DEVICE'', s1\<lparr>us_reads := rest\<rparr>)"
    using bulkRead_error [of s1] sent(3) assms(2) by (simp add: readPacket_def)
  moreover have "expired s1 = (False, s1)" using sent(2) by (simp add: expired_def clear_line_def)
  ultimately have run: "shell ''sync; reboot'' s =
      (([], Some (''read shell '' @ go_quote ''sync; reboot'' @ '': ADB bulk read: LIBUSB_ERROR_NO_DEVICE'')), s1\<lparr>us_reads := rest\<rparr>)"
    using sent(1) by (simp add: shell_def shell_loop.simps [of _ _ _ s1])
  have "\<not> reboot_forgiven (''read shell '' @ go_quote ''sync; reboot'' @ '': ADB bulk read: LIBUSB_ERROR_NO_DEVICE'')"
    by code_simp
  then show ?thesis by (simp only: requestModuleReboot_def shell_entry_def run prod.case option.case if_False fst_conv)
qed

theorem vanished_module_counts_as_failure_witness:
  "fst (requestModuleReboot (new_evidence ''x'' False)
     \<lparr>us_reads = [UsbError ''LIBUSB_ERROR_NO_DEVICE''], us_writes = [], us_clock = [], us_log = []\<rparr>) \<noteq> None"
  using vanished_module_counts_as_failure [of "\<lparr>us_reads = [UsbError ''LIBUSB_ERROR_NO_DEVICE''], us_writes = [], us_clock = [], us_log = []\<rparr>"]
  by (simp add: clear_line_def)

end
