(* ===== verification/Agent_Stage.thy ===== *)
theory Agent_Stage
  imports Agent_Push Adb_Tool
begin

text \<open>
  The tool \<^verbatim>\<open>tools/module-provisioner/qdc507-agent-stage/main.go\<close>, which puts an agent into a fixed directory of the module
  and starts it, removes it again, reads its state, or captures one request of the vendor console. SHA-256 in hexadecimal
  is a parameter, and so are the local file and the random bytes of the credentials.
\<close>

section \<open>What a run reports\<close>

record stage_evidence =
  se_ReadOnly :: bool
  se_Status :: string
  se_Stage :: string
  se_LocalBinary :: string
  se_LocalSHA256 :: string
  se_RemotePath :: string
  se_DeviceID :: string
  se_AgentToken :: string
  se_ADBInterface :: string
  se_Commands :: "shellResult list"
  se_Error :: string

definition stage_blocked :: "string \<Rightarrow> string \<Rightarrow> stage_evidence \<Rightarrow> stage_evidence" where
  "stage_blocked status e r = r\<lparr>se_Status := status, se_Error := e\<rparr>"

definition stageBinary :: string where "stageBinary = stageDir @ ''/cellbridge-agent''"
definition stagePID :: string where "stagePID = stageDir @ ''/agent.pid''"
definition stageLog :: string where "stageLog = stageDir @ ''/agent.log''"
definition agentAddr :: string where "agentAddr = ''192.168.225.1:8788''"
definition agentService :: string where "agentService = ''192.168.225.1''"
definition agentRIL :: string where "agentRIL = ''/usr/bin/qmi_simple_ril_test''"

text \<open>Unlike the other tool, this one looks for \<^verbatim>\<open>not found\<close> first.\<close>

definition stage_open_status :: "string \<Rightarrow> string" where
  "stage_open_status e =
     (if str_contains e ''not found'' then ''BLOCKED_QDC507_NOT_FOUND''
      else if str_contains e ''no ff/42/01'' then ''BLOCKED_NO_ADB_INTERFACE''
      else ''BLOCKED_ADB_OPEN'')"

definition stage_connect :: "usb_bus \<Rightarrow> (string, adb_device) result" where
  "stage_connect bus =
     (case ub_init bus of Some e \<Rightarrow> Inl (''libusb init: '' @ e) | None \<Rightarrow> openADBDevice bus)"

definition returnCode :: "string option \<Rightarrow> int" where
  "returnCode e = (if e = None then 0 else -1)"

definition errorText :: "string option \<Rightarrow> string" where
  "errorText e = (case e of None \<Rightarrow> [] | Some t \<Rightarrow> t)"

text \<open>A connection with its handshake; \<open>noted\<close> is whether the interface goes into the evidence.\<close>

definition stage_connected ::
  "usb_bus \<Rightarrow> bool \<Rightarrow> (stage_evidence \<Rightarrow> usbADB \<Rightarrow> stage_evidence \<times> usbADB) \<Rightarrow> stage_evidence \<Rightarrow> usbADB \<Rightarrow> stage_evidence \<times> usbADB" where
  "stage_connected bus noted body r s =
     (case stage_connect bus of
        Inl e \<Rightarrow> (stage_blocked (stage_open_status e) e r, s)
      | Inr d \<Rightarrow>
          (let r1 = (if noted
                 then r\<lparr>se_ADBInterface := ''interface='' @ nat_to_string (ad_iface d) @ '' bulk-in=0x'' @ hex_nat (unat (ad_in d)) @
                   '' bulk-out=0x'' @ hex_nat (unat (ad_out d))\<rparr>
                 else r)
           in case adb_handshake s of
                (Some e, s1) \<Rightarrow> (stage_blocked ''BLOCKED_ADB_HANDSHAKE'' e r1, s1)
              | (None, s1) \<Rightarrow> body r1 s1))"

text \<open>A command with its entry, under a name and the text that is shown for it; the rest sees the output and the error.\<close>

definition stage_step ::
  "string \<Rightarrow> string \<Rightarrow> string \<Rightarrow> (string \<Rightarrow> string option \<Rightarrow> stage_evidence \<Rightarrow> usbADB \<Rightarrow> stage_evidence \<times> usbADB) \<Rightarrow>
     stage_evidence \<Rightarrow> usbADB \<Rightarrow> stage_evidence \<times> usbADB" where
  "stage_step name shown command body r s =
     (case stage_shell command s of ((out, e), s1) \<Rightarrow>
        body out e (r\<lparr>se_Commands := se_Commands r @
          [\<lparr>sr_Name = name, sr_Command = shown, sr_ReturnCode = returnCode e, sr_Stdout = trim_output out, sr_Error = errorText e\<rparr>]\<rparr>) s1)"

section \<open>The local file\<close>

text \<open>What the host says of it: whether it is regular and its size, and its content.\<close>

record local_binary =
  lb_stat :: "(string, bool \<times> nat) result"
  lb_read :: "(string, byte list) result"

definition checked_binary ::
  "string \<Rightarrow> local_binary \<Rightarrow> (byte list \<Rightarrow> stage_evidence \<Rightarrow> usbADB \<Rightarrow> stage_evidence \<times> usbADB) \<Rightarrow> stage_evidence \<Rightarrow> usbADB \<Rightarrow>
     stage_evidence \<times> usbADB" where
  "checked_binary refusal lb body r s =
     (case lb_stat lb of
        Inl e \<Rightarrow> (stage_blocked ''BLOCKED_LOCAL_BINARY'' e r, s)
      | Inr (regular, len) \<Rightarrow>
          if \<not> regular \<or> len = 0 \<or> maxAgentSize < len then (stage_blocked ''BLOCKED_LOCAL_BINARY'' refusal r, s)
          else (case lb_read lb of
                  Inl e \<Rightarrow> (stage_blocked ''BLOCKED_LOCAL_BINARY'' e r, s)
                | Inr data \<Rightarrow> body data r s))"

text \<open>The credentials of a stage, from sixteen random bytes in hexadecimal: device id and token.\<close>

definition newCredentials :: "string \<Rightarrow> string \<times> string" where
  "newCredentials hexValue = (''qdc507-h2-'' @ take 16 hexValue, ''cb-h2-'' @ hexValue)"

section \<open>The commands\<close>

definition preflight_command :: string where
  "preflight_command =
     ''if [ -e '' @ shellQuote stageDir @ '' ]; then echo STAGE_DIR_EXISTS=1; else echo STAGE_DIR_EXISTS=0; fi''"

definition mkdir_command :: string where
  "mkdir_command = ''mkdir -m 700 '' @ shellQuote stageDir"

definition startCommand :: "string \<Rightarrow> string \<Rightarrow> string" where
  \<open>startCommand token deviceID =
     ''nohup env CB_AGENT_BIND_ADDR='' @ shellQuote agentAddr @ '' CB_AGENT_SERVICE_IP='' @ shellQuote agentService @
     '' CB_AGENT_SERVICE_NAME='' @ shellQuote ''CellBridge QDC507'' @ '' CB_AGENT_DEVICE_ID='' @ shellQuote deviceID @
     '' CB_AGENT_TOKEN='' @ shellQuote token @ '' CB_AGENT_RIL_PATH='' @ shellQuote agentRIL @
     '' CB_AGENT_ENABLE_VERIFIED_CALL=1 CB_AGENT_ENABLE_VERIFIED_SMS=1 '' @ shellQuote stageBinary @ '' >'' @ shellQuote stageLog @
     '' 2>&1 </dev/null & echo $! >'' @ shellQuote stagePID @ ''; sleep 1; pid=$(cat '' @ shellQuote stagePID @
     script '' 2>/dev/null); case "$pid" in ~~|*[!0-9]*) echo AGENT_PID_INVALID;; *) kill -0 "$pid" 2>/dev/null && echo AGENT_RUNNING=1 || echo AGENT_RUNNING=0;; esac''\<close>

definition cleanup_command :: string where
  \<open>cleanup_command =
     ''pid=$(cat '' @ stagePID @
     script '' 2>/dev/null); case "$pid" in ~~|*[!0-9]*) ;; *) kill "$pid" 2>/dev/null || true; sleep 1 ;; esac; for probe_pid in $(pidof qmi_simple_ril_test 2>/dev/null); do kill "$probe_pid" 2>/dev/null || true; done; sleep 1; rm -f '' @
     stageBinary @ '' '' @ stagePID @ '' '' @ stageLog @ ''; rmdir '' @ stageDir @ '' 2>/dev/null || true; if [ -e '' @ stageBinary @
     '' ] || [ -e '' @ stagePID @ '' ] || [ -e '' @ stageLog @
     '' ]; then echo CLEANUP_REMAINING=1; else echo CLEANUP_REMAINING=0; fi''\<close>

definition status_command :: string where
  "status_command =
     ''echo ==== files; ls -la '' @ stageDir @ ''; echo ==== tools; command -v start-stop-daemon; command -v nohup; command -v setsid; command -v pidof; echo ==== pid; pid=$(cat '' @
     stagePID @ '' 2>/dev/null); echo PID=$pid; echo ==== ps; ps; echo ==== log; tail -c 12000 '' @ stageLog @ '' 2>&1''"

definition capture_command :: string where
  "capture_command =
     script ''{ sleep 5; printf ~mo_sms_gsm 0001000B81815511118865F50008044F60597D@n~; sleep 8; printf ~quit@n~; } | /bin/timeout -t 25 env LD_PRELOAD='' @
     shellQuote stageBinary @ '' /usr/bin/qmi_simple_ril_test >'' @ shellQuote stageLog @
     '' 2>&1; rc=$?; echo CAPTURE_RC=$rc; echo ==== CAPTURE_LOG; tail -c 30000 '' @ shellQuote stageLog @ '' 2>&1; rm -f '' @
     shellQuote stageBinary @ '' '' @ shellQuote stagePID @ '' '' @ shellQuote stageLog @ ''; rmdir '' @ shellQuote stageDir @
     '' 2>/dev/null || true; if [ -e '' @ shellQuote stageBinary @ '' ] || [ -e '' @ shellQuote stagePID @ '' ] || [ -e '' @
     shellQuote stageLog @ '' ]; then echo CAPTURE_CLEANUP_REMAINING=1; else echo CAPTURE_CLEANUP_REMAINING=0; fi''"

section \<open>The stages\<close>

text \<open>Root, an absent directory, its creation and the push: the part that \<^verbatim>\<open>start\<close> and \<^verbatim>\<open>qmi-capture\<close> have in common, with
  the names and texts of each.\<close>

record stage_texts =
  st_root :: string
  st_check :: string
  st_checkShown :: string
  st_checkCommand :: string
  st_mkdir :: string
  st_pushFailed :: string

definition staged ::
  "stage_texts \<Rightarrow> 32 word \<Rightarrow> byte list \<Rightarrow> (stage_evidence \<Rightarrow> usbADB \<Rightarrow> stage_evidence \<times> usbADB) \<Rightarrow> stage_evidence \<Rightarrow> usbADB \<Rightarrow>
     stage_evidence \<times> usbADB" where
  "staged tx now data body =
     stage_step ''id'' ''id'' ''id'' (\<lambda>identity e r s.
       if e \<noteq> None \<or> \<not> str_contains identity ''uid=0'' then (stage_blocked ''BLOCKED_NON_ROOT_SHELL'' (st_root tx) r, s)
       else stage_step (st_check tx) (st_checkShown tx) (st_checkCommand tx) (\<lambda>check e r s.
         if e \<noteq> None \<or> str_contains check ''STAGE_DIR_EXISTS=1''
         then (stage_blocked ''BLOCKED_STAGE_DIR_EXISTS'' ''fixed transient stage directory is not empty; run cleanup first'' r, s)
         else stage_step (st_mkdir tx) mkdir_command mkdir_command (\<lambda>_ e r s.
           case e of
             Some t \<Rightarrow> (stage_blocked ''BLOCKED_STAGE_DIRECTORY'' t r, s)
           | None \<Rightarrow>
               (case push now data stageBinary s of
                  (Some t, s1) \<Rightarrow> (stage_blocked (st_pushFailed tx) t r, s1)
                | (None, s1) \<Rightarrow> body r s1)) r s) r s)"

definition start_texts :: stage_texts where
  "start_texts = \<lparr>st_root = ''transient Agent stage requires a verified root shell'', st_check = ''stage_preflight'',
     st_checkShown = ''fixed stage directory and /data free space'', st_checkCommand = preflight_command @ ''; df -k /data'',
     st_mkdir = ''mkdir_stage'', st_pushFailed = ''BLOCKED_AGENT_PUSH''\<rparr>"

definition capture_texts :: stage_texts where
  "capture_texts = \<lparr>st_root = ''QMI capture requires a verified root shell'', st_check = ''capture_preflight'',
     st_checkShown = ''fixed transient stage directory preflight'', st_checkCommand = preflight_command,
     st_mkdir = ''mkdir_capture_stage'', st_pushFailed = ''BLOCKED_CAPTURE_SHIM_PUSH''\<rparr>"

definition startAgent ::
  "usb_bus \<Rightarrow> (byte list \<Rightarrow> string) \<Rightarrow> (string, string) result \<Rightarrow> 32 word \<Rightarrow> local_binary \<Rightarrow> stage_evidence \<Rightarrow> usbADB \<Rightarrow>
     stage_evidence \<times> usbADB" where
  "startAgent bus sha fresh now lb =
     checked_binary ''Agent must be a non-empty regular file no larger than 16777216 bytes'' lb (\<lambda>data r s.
       let r1 = r\<lparr>se_LocalSHA256 := sha data\<rparr>
       in case fresh of
            Inl e \<Rightarrow> (stage_blocked ''BLOCKED_CREDENTIAL_GENERATION'' e r1, s)
          | Inr hexValue \<Rightarrow>
              (case newCredentials hexValue of (deviceID, token) \<Rightarrow>
                 stage_connected bus True (staged start_texts now data
                   (stage_step ''start_agent'' ''fixed transient Agent start'' (startCommand token deviceID) (\<lambda>out e r s.
                      if e \<noteq> None \<or> \<not> str_contains out ''AGENT_RUNNING=1''
                      then (stage_blocked ''BLOCKED_AGENT_NOT_RUNNING''
                              ''Agent did not remain alive after launch; inspect the staged log before cleanup'' r, s)
                      else (r\<lparr>se_Status := ''H2_AGENT_STAGED''\<rparr>, s))))
                   (r1\<lparr>se_DeviceID := deviceID, se_AgentToken := token, se_RemotePath := stageBinary\<rparr>) s))"

definition cleanupAgent :: "usb_bus \<Rightarrow> stage_evidence \<Rightarrow> usbADB \<Rightarrow> stage_evidence \<times> usbADB" where
  "cleanupAgent bus =
     stage_connected bus False
       (stage_step ''cleanup_fixed_stage'' ''kill staged pid and remove fixed files'' cleanup_command (\<lambda>out e r s.
          if e \<noteq> None \<or> \<not> str_contains out ''CLEANUP_REMAINING=0''
          then (stage_blocked ''BLOCKED_STAGE_CLEANUP'' ''fixed transient stage directory was not fully cleaned'' r, s)
          else (r\<lparr>se_Status := ''H2_AGENT_STAGE_CLEANED''\<rparr>, s)))"

definition statusAgent :: "usb_bus \<Rightarrow> stage_evidence \<Rightarrow> usbADB \<Rightarrow> stage_evidence \<times> usbADB" where
  "statusAgent bus =
     stage_connected bus False
       (stage_step ''status_fixed_stage'' ''read fixed transient stage files, process list, and log'' status_command (\<lambda>_ e r s.
          case e of
            Some t \<Rightarrow> (stage_blocked ''BLOCKED_STAGE_STATUS'' t r, s)
          | None \<Rightarrow> (r\<lparr>se_Status := ''H2_AGENT_STATUS_READ''\<rparr>, s)))"

definition captureQMIRequest ::
  "usb_bus \<Rightarrow> (byte list \<Rightarrow> string) \<Rightarrow> 32 word \<Rightarrow> local_binary \<Rightarrow> stage_evidence \<Rightarrow> usbADB \<Rightarrow> stage_evidence \<times> usbADB" where
  "captureQMIRequest bus sha now lb =
     checked_binary ''capture shim must be a non-empty regular file no larger than 16777216 bytes'' lb (\<lambda>data r s.
       stage_connected bus True (staged capture_texts now data
         (stage_step ''capture_wms_raw_send_request'' ''LD_PRELOAD capture; WMS Raw Send is blocked before modem'' capture_command
           (\<lambda>out e r s.
              if e \<noteq> None \<or> \<not> str_contains out ''CAPTURE_CLEANUP_REMAINING=0''
              then (stage_blocked ''BLOCKED_CAPTURE_CLEANUP''
                      ''QMI capture did not prove cleanup of the fixed transient directory'' r, s)
              else if \<not> str_contains out ''[CELLBRIDGE_QMI_CAPTURE] modem_send=blocked''
              then (stage_blocked ''BLOCKED_QMI_REQUEST_CAPTURE''
                      ''preload shim did not intercept the expected WMS Raw Send call'' r, s)
              else (r\<lparr>se_Status := ''H2_QMI_REQUEST_CAPTURED''\<rparr>, s))))
         (r\<lparr>se_LocalSHA256 := sha data\<rparr>) s)"

text \<open>A run of the tool: a refusal of the flags, or the evidence.\<close>

definition stage_run ::
  "usb_bus \<Rightarrow> (byte list \<Rightarrow> string) \<Rightarrow> (string, string) result \<Rightarrow> 32 word \<Rightarrow> local_binary \<Rightarrow> string \<Rightarrow> string \<Rightarrow> string \<Rightarrow> usbADB \<Rightarrow>
     (string, stage_evidence) result \<times> usbADB" where
  "stage_run bus sha fresh now lb stage binaryPath out s =
     (if stage \<notin> {''start'', ''status'', ''cleanup'', ''qmi-capture''}
      then (Inl ''--stage must be start, status, cleanup, or qmi-capture'', s)
      else if trim_space out = [] then (Inl ''--output is required'', s)
      else
        (let r = \<lparr>se_ReadOnly = (stage = ''status''), se_Status = ''UNKNOWN'', se_Stage = stage, se_LocalBinary = [],
               se_LocalSHA256 = [], se_RemotePath = [], se_DeviceID = [], se_AgentToken = [], se_ADBInterface = [],
               se_Commands = [], se_Error = []\<rparr>
         in apfst Inr
              (if stage = ''start'' then startAgent bus sha fresh now lb (r\<lparr>se_LocalBinary := binaryPath\<rparr>) s
               else if stage = ''status'' then statusAgent bus r s
               else if stage = ''qmi-capture'' then captureQMIRequest bus sha now lb (r\<lparr>se_LocalBinary := binaryPath\<rparr>) s
               else cleanupAgent bus r s)))"

section \<open>What a start leaves on the wire\<close>

text \<open>No command is taken for a record of data.\<close>

lemma shell_loop_sends: "stage_shell_loop remoteID out s = (q, s') \<Longrightarrow> sends s [] s'"
proof (induction "length (us_reads s)" arbitrary: s remoteID out rule: less_induct)
  case less
  have again: "sends s [] s'" if "sends s [] s2" "length (us_reads s2) < length (us_reads s)"
      "stage_shell_loop remote out2 s2 = (q, s')" for s2 remote out2
    using sends_then [OF that(1) less.hyps [OF that(2,3)]] .
  obtain b s0 where clock: "expired s = (b, s0)" by (cases "expired s")
  obtain r s1 where read: "readPacket s0 = (r, s1)" by (cases "readPacket s0")
  have one: "sends s [] s0" "sends s [] s1"
    using expired_sends [OF clock] sends_then [OF expired_sends [OF clock] readPacket_sends [OF read]] .
  have less1: "length (us_reads s1) < length (us_reads s)" if "r = Inr p" for p
    using readPacket_less [of s0 p s1] expired_reads [OF clock] read that by simp
  have ack: "sends s [] s2 \<and> (\<forall>p. r = Inr p \<longrightarrow> length (us_reads s2) < length (us_reads s))"
    if "writePacket (text_packet adbOKAY x y []) s1 = (e, s2)" for x y e s2
    using sends_then [OF one(2) text_packet_sends [OF that commands_not_data(1)]] less1 writePacket_reads [OF that] by simp
  have acked: "sends s [] s'" if "writePacket (text_packet adbOKAY 1 x []) s1 = (None, s2)" "r = Inr p"
      "stage_shell_loop remote out2 s2 = (q, s')" for x p remote out2 s2
    using again ack [OF that(1)] that(2,3) by blast
  have bye: "sends s [] (snd (writePacket (text_packet adbCLSE 1 x []) s1))" for x
    using sends_then [OF one(2) text_packet_sends [OF _ commands_not_data(3)]] by (metis list.size(3) prod.collapse zero_less_numeral)
  show ?case
    using less.prems clock read one less1 ack bye
    by (subst (asm) stage_shell_loop.simps)
      (auto simp: Let_def split: prod.splits bool.splits sum.splits option.splits if_splits intro: again acked)
qed

lemma take_string_bytes: "take n (string_bytes s) = string_bytes (take n s)"
  by (simp add: string_bytes_def take_map)

lemma stage_shell_sends:
  assumes "stage_shell command s = (q, s')" and "length command \<le> 4000"
  shows "sends s [] s'"
proof -
  let ?open = "text_packet adbOPEN 1 0 (''shell:'' @ command @ [nul])"
  obtain e s1 where sent: "writePacket ?open s = (e, s1)" by fastforce
  have "sends s [] s1"
  proof (rule writePacket_sends(1) [OF sent])
    show "take 4 (pk_Payload ?open) \<noteq> le32 syncDATA"
      by (simp add: text_packet_def take_string_bytes) (simp add: string_bytes_def le32_def syncDATA_def)
  qed (use assms(2) in \<open>simp_all add: text_packet_def commands_not_data adbMaxData_def\<close>)
  then show ?thesis
    using assms(1) sent sends_then [OF _ shell_loop_sends] by (auto simp: stage_shell_def split: option.splits)
qed

lemma handshake_sends: "adb_handshake s = (q, s') \<Longrightarrow> sends s [] s'"
proof -
  assume run: "adb_handshake s = (q, s')"
  let ?hello = "text_packet adbCNXN 0x01000000 (word_of_nat adbMaxData) (''host::'' @ [nul])"
  obtain e s1 where sent: "writePacket ?hello s = (e, s1)" by fastforce
  obtain r s2 where read: "readPacket s1 = (r, s2)" by (cases "readPacket s1")
  have "sends s [] s1"
  proof (rule writePacket_sends(1) [OF sent])
    show "take 4 (pk_Payload ?hello) \<noteq> le32 syncDATA"
      by (simp add: text_packet_def take_string_bytes) (simp add: string_bytes_def le32_def syncDATA_def)
  qed (simp_all add: text_packet_def adbMaxData_def adbCNXN_def syncDATA_def)
  then show ?thesis
    using run sent read sends_then [OF _ readPacket_sends [OF read]]
    by (auto simp: adb_handshake_def split: option.splits sum.splits)
qed

lemma stage_step_sends:
  assumes "stage_step name shown command body r s = (r', s')" and "length command \<le> 4000"
  obtains out e r1 s1 where "body out e r1 s1 = (r', s')" and "sends s [] s1" and "se_Status r1 = se_Status r"
    and "stage_shell command s = ((out, e), s1)"
  using assms stage_shell_sends [of command s] by (auto simp: stage_step_def split: prod.splits)

lemma staged_sends:
  assumes "staged tx now data body r s = (r', s')" and "length (st_checkCommand tx) \<le> 4000"
    and "se_Status r' \<notin> {''BLOCKED_NON_ROOT_SHELL'', ''BLOCKED_STAGE_DIR_EXISTS'', ''BLOCKED_STAGE_DIRECTORY'', st_pushFailed tx}"
  obtains r1 s1 s2 where "push now data stageBinary s1 = (None, s2)" and "body r1 s2 = (r', s')" and "sends s [] s1"
    and "se_LocalSHA256 r1 = se_LocalSHA256 r"
proof -
  have short: "length ''id'' \<le> 4000" "length mkdir_command \<le> 4000"
    by (simp_all add: mkdir_command_def shellQuote_def stageDir_def)
  obtain out1 e1 s1 where one: "stage_shell ''id'' s = ((out1, e1), s1)" by (metis prod.collapse)
  obtain out2 e2 s2 where two: "stage_shell (st_checkCommand tx) s1 = ((out2, e2), s2)" by (metis prod.collapse)
  obtain out3 e3 s3 where three: "stage_shell mkdir_command s2 = ((out3, e3), s3)" by (metis prod.collapse)
  obtain e4 s4 where four: "push now data stageBinary s3 = (e4, s4)" by (cases "push now data stageBinary s3")
  have "sends s [] s3"
    using sends_then [OF stage_shell_sends [OF one short(1)] sends_then [OF stage_shell_sends [OF two assms(2)]
      stage_shell_sends [OF three short(2)]]] .
  moreover have "e4 = None" "\<exists>r1. body r1 s4 = (r', s') \<and> se_LocalSHA256 r1 = se_LocalSHA256 r"
    using assms(1,3) one two three four
    by (auto simp: staged_def stage_step_def stage_blocked_def split: if_splits option.splits)
  ultimately show thesis using four that by blast
qed

lemma length_shellQuote: "length (shellQuote s) \<le> 4 * length s + 2"
  by (induction s) (auto simp: shellQuote_def)

text \<open>A start that reports the agent as staged has sent the very file whose digest it reports, all of it and nothing else as
  data, in transfers of at most 4096 bytes.\<close>

theorem staged_agent_is_the_file:
  assumes "startAgent bus sha (Inr hexValue) now lb r s = (r', s')" and "se_Status r' = ''H2_AGENT_STAGED''"
    and "se_Status r = ''UNKNOWN''" and "length hexValue = 32"
  shows "\<exists>data log. lb_read lb = Inr data \<and> data \<noteq> [] \<and> se_LocalSHA256 r' = sha data \<and> us_log s' = us_log s @ log \<and>
     list_all (\<lambda>b. length b \<le> adbMaxData) log \<and> pushed_data log = data"
proof -
  let ?cmd = "startCommand (''cb-h2-'' @ hexValue) (''qdc507-h2-'' @ take 16 hexValue)"
  have "length ?cmd \<le> 4000"
    using length_shellQuote [of "''cb-h2-'' @ hexValue"] length_shellQuote [of "''qdc507-h2-'' @ take 16 hexValue"]
      length_shellQuote [of stagePID] length_shellQuote [of stageLog] length_shellQuote [of stageBinary]
      length_shellQuote [of agentAddr] length_shellQuote [of agentService] length_shellQuote [of agentRIL]
      length_shellQuote [of "''CellBridge QDC507''"] assms(4)
    by (simp add: startCommand_def script_def stagePID_def stageLog_def stageBinary_def stageDir_def agentAddr_def
        agentService_def agentRIL_def)
  have check: "length (st_checkCommand start_texts) \<le> 4000"
    by (simp add: start_texts_def preflight_command_def shellQuote_def stageDir_def)
  obtain data d s1 where content: "lb_read lb = Inr data" and shaken: "adb_handshake s = (None, s1)"
      and run: "staged start_texts now data
        (stage_step ''start_agent'' ''fixed transient Agent start'' ?cmd (\<lambda>out e r s.
           if e \<noteq> None \<or> \<not> str_contains out ''AGENT_RUNNING=1''
           then (stage_blocked ''BLOCKED_AGENT_NOT_RUNNING''
                   ''Agent did not remain alive after launch; inspect the staged log before cleanup'' r, s)
           else (r\<lparr>se_Status := ''H2_AGENT_STAGED''\<rparr>, s))) d s1 = (r', s')" and sum: "se_LocalSHA256 d = sha data"
    using assms(1,2)
    by (auto simp: startAgent_def checked_binary_def newCredentials_def Let_def stage_connected_def stage_blocked_def
        stage_open_status_def split: sum.splits if_splits option.splits prod.splits)
  obtain r2 s2 s3 where pushed: "push now data stageBinary s2 = (None, s3)" and final:
      "stage_step ''start_agent'' ''fixed transient Agent start'' ?cmd (\<lambda>out e r s.
           if e \<noteq> None \<or> \<not> str_contains out ''AGENT_RUNNING=1''
           then (stage_blocked ''BLOCKED_AGENT_NOT_RUNNING''
                   ''Agent did not remain alive after launch; inspect the staged log before cleanup'' r, s)
           else (r\<lparr>se_Status := ''H2_AGENT_STAGED''\<rparr>, s)) r2 s3 = (r', s')"
      and before: "sends s1 [] s2" "se_LocalSHA256 r2 = se_LocalSHA256 d"
    by (rule staged_sends [OF run check]) (use assms(2) in \<open>simp_all add: start_texts_def\<close>)
  have "sends s2 data s3" using push_sends [OF pushed] by (simp add: stageBinary_def stageDir_def)
  moreover have "sends s3 [] s'" "se_LocalSHA256 r' = se_LocalSHA256 r2"
    using final stage_shell_sends [OF _ \<open>length ?cmd \<le> 4000\<close>, of s3]
    by (auto simp: stage_step_def stage_blocked_def split: prod.splits if_splits)
  ultimately have "sends s data s'"
    using sends_then [OF handshake_sends [OF shaken] sends_then [OF before(1) sends_trans [of s2 data s3 "[]" s']]] by simp
  moreover have "data \<noteq> []" using pushed by (auto simp: push_def split: if_splits)
  ultimately show ?thesis using content sum before(2) \<open>se_LocalSHA256 r' = se_LocalSHA256 r2\<close> by (auto simp: sends_def)
qed

text \<open>A module that answers one command with a text.\<close>

definition answering_module :: "string \<Rightarrow> packet list" where
  "answering_module out = [text_packet adbWRTE 7 1 out, text_packet adbCLSE 7 1 []]"

lemma command_answered:
  assumes "clear_line s" and "us_reads s = concat (map packet_reads (answering_module out)) @ rest"
    and "length command \<le> 4000" and "length out \<le> 4000"
  shows "\<exists>s'. stage_shell command s = ((out, None), s') \<and> clear_line s' \<and> us_reads s' = rest"
proof -
  let ?bye = "packet_reads (text_packet adbCLSE 7 1 [])"
  have differ: "adbCLSE \<noteq> adbOKAY" "adbWRTE \<noteq> adbOKAY" "adbCLSE \<noteq> adbWRTE" by (simp_all add: adbCLSE_def adbOKAY_def adbWRTE_def)
  have live: "expired t = (False, t)" if "clear_line t" for t using that by (simp add: expired_def clear_line_def)
  have small: "length (pk_Payload (text_packet c a b [])) \<le> packetLimit" for c a b by (simp add: text_packet_def)
  have small_out: "length (pk_Payload (text_packet c a b out)) \<le> packetLimit" for c a b
    using assms(4) by (simp add: text_packet_def packetLimit_def)
  obtain s1 where s1: "writePacket (text_packet adbOPEN 1 0 (''shell:'' @ command @ [nul])) s = (None, s1)" "clear_line s1"
      "us_reads s1 = us_reads s"
    using writePacket_clear [OF assms(1) text_packet_small [of "''shell:'' @ command @ [nul]"]] assms(3) by (fastforce simp: packetLimit_def)
  let ?s2 = "s1\<lparr>us_reads := ?bye @ rest\<rparr>"
  have r1: "readPacket s1 = (Inr (text_packet adbWRTE 7 1 out), ?s2)"
    by (rule readPacket_next [OF _ small_out]) (use s1(3) assms(2) in \<open>simp add: answering_module_def\<close>)
  have "clear_line ?s2" using s1(2) by (simp add: clear_line_def)
  then obtain s3 where s3: "writePacket (text_packet adbOKAY 1 7 []) ?s2 = (None, s3)" "clear_line s3" "us_reads s3 = ?bye @ rest"
    using writePacket_clear [OF _ small [of adbOKAY 1 7], of ?s2] by auto
  let ?s4 = "s3\<lparr>us_reads := rest\<rparr>"
  have r3: "readPacket s3 = (Inr (text_packet adbCLSE 7 1 []), ?s4)"
    by (rule readPacket_next [OF _ small]) (use s3(3) in simp)
  have "stage_shell_loop 7 out s3 = ((out, None), snd (writePacket (text_packet adbCLSE 1 7 []) ?s4))"
    using r3 live [OF s3(2)] differ by (subst stage_shell_loop.simps) (simp add: text_packet_def)
  then have "stage_shell_loop 0 [] s1 = ((out, None), snd (writePacket (text_packet adbCLSE 1 7 []) ?s4))"
    using r1 live [OF s1(2)] s3(1) differ by (subst stage_shell_loop.simps) (simp add: text_packet_def)
  moreover have "clear_line ?s4" using s3(2) by (simp add: clear_line_def)
  ultimately show ?thesis
    using s1(1) writePacket_clear [OF _ small [of adbCLSE 1 7], of ?s4] by (fastforce simp: stage_shell_def)
qed

definition blank_evidence :: stage_evidence where
  "blank_evidence = \<lparr>se_ReadOnly = False, se_Status = ''UNKNOWN'', se_Stage = ''start'', se_LocalBinary = ''agent'',
     se_LocalSHA256 = [], se_RemotePath = [], se_DeviceID = [], se_AgentToken = [], se_ADBInterface = [], se_Commands = [],
     se_Error = []\<rparr>"

definition staging_module :: usbADB where
  "staging_module = \<lparr>us_reads = packet_reads (text_packet adbCNXN 0 0 []) @
       concat (map packet_reads (answering_module ''uid=0'')) @ concat (map packet_reads (answering_module ''STAGE_DIR_EXISTS=0'')) @
       concat (map packet_reads (answering_module [])) @ concat (map packet_reads accepting_module) @
       concat (map packet_reads (answering_module ''AGENT_RUNNING=1'')),
     us_writes = [], us_clock = [], us_log = []\<rparr>"

lemma staging_module_runs:
  obtains s1 s2 s3 s4 s5 s6 where "adb_handshake staging_module = (None, s1)" and "stage_shell ''id'' s1 = ((''uid=0'', None), s2)"
    and "stage_shell (st_checkCommand start_texts) s2 = ((''STAGE_DIR_EXISTS=0'', None), s3)"
    and "stage_shell mkdir_command s3 = (([], None), s4)" and "push 0 [1, 2, 3] stageBinary s4 = (None, s5)"
    and "\<forall>command. length command \<le> 4000 \<longrightarrow> (\<exists>s6. stage_shell command s5 = ((''AGENT_RUNNING=1'', None), s6))"
proof -
  let ?rd = "concat (map packet_reads (answering_module ''AGENT_RUNNING=1''))"
  let ?rc = "concat (map packet_reads accepting_module) @ ?rd"
  let ?rb = "concat (map packet_reads (answering_module [])) @ ?rc"
  let ?ra = "concat (map packet_reads (answering_module ''STAGE_DIR_EXISTS=0'')) @ ?rb"
  let ?rall = "concat (map packet_reads (answering_module ''uid=0'')) @ ?ra"
  have small: "length (pk_Payload (text_packet c a b [])) \<le> packetLimit" for c a b by (simp add: text_packet_def)
  have clear: "clear_line staging_module" by (simp add: clear_line_def staging_module_def)
  obtain s0 where s0: "writePacket (text_packet adbCNXN 0x01000000 (word_of_nat adbMaxData) (''host::'' @ [nul])) staging_module = (None, s0)"
      "clear_line s0" "us_reads s0 = us_reads staging_module"
    using writePacket_clear [OF clear text_packet_small [of "''host::'' @ [nul]"]] by (fastforce simp: packetLimit_def)
  have fits: "length ''id'' \<le> 4000" "length (st_checkCommand start_texts) \<le> 4000" "length mkdir_command \<le> 4000"
      "length ''uid=0'' \<le> 4000" "length ''STAGE_DIR_EXISTS=0'' \<le> 4000" "length ([] :: string) \<le> 4000"
    by (simp_all add: start_texts_def preflight_command_def mkdir_command_def shellQuote_def stageDir_def)
  have path: "has_prefix stageBinary (stageDir @ ''/'')" "nul \<notin> set stageBinary" "length stageBinary \<le> 1000"
      "[1, 2, 3] \<noteq> ([] :: byte list)" "length [1, 2, 3 :: byte] \<le> chunk"
    by (simp_all add: chunk_def adbMaxData_def stageBinary_def stageDir_def has_prefix_def nul_def)
  let ?s1 = "s0\<lparr>us_reads := ?rall\<rparr>"
  have "readPacket s0 = (Inr (text_packet adbCNXN 0 0 []), ?s1)"
    by (rule readPacket_next [OF _ small]) (use s0(3) in \<open>simp add: staging_module_def\<close>)
  then have one: "adb_handshake staging_module = (None, ?s1)" using s0(1) by (simp add: adb_handshake_def text_packet_def)
  have c1: "clear_line ?s1" "us_reads ?s1 = ?rall" using s0(2) by (simp_all add: clear_line_def)
  obtain s2 where two: "stage_shell ''id'' ?s1 = ((''uid=0'', None), s2)" "clear_line s2" "us_reads s2 = ?ra"
    using command_answered [where out = "''uid=0''" and rest = ?ra, OF c1 fits(1,4)] by blast
  obtain s3 where three: "stage_shell (st_checkCommand start_texts) s2 = ((''STAGE_DIR_EXISTS=0'', None), s3)" "clear_line s3" "us_reads s3 = ?rb"
    using command_answered [where out = "''STAGE_DIR_EXISTS=0''" and rest = ?rb, OF two(2,3) fits(2,5)] by blast
  obtain s4 where four: "stage_shell mkdir_command s3 = (([], None), s4)" "clear_line s4" "us_reads s4 = ?rc"
    using command_answered [where out = "[]" and rest = ?rc, OF three(2,3) fits(3,6)] by blast
  obtain s5 where five: "push 0 [1, 2, 3] stageBinary s4 = (None, s5)" "clear_line s5" "us_reads s5 = ?rd"
    using small_push_accepted [where rest = ?rd and now = 0, OF four(2,3) path(4,5,1,2,3)] by blast
  have "\<forall>command. length command \<le> 4000 \<longrightarrow> (\<exists>s6. stage_shell command s5 = ((''AGENT_RUNNING=1'', None), s6))"
  proof (intro allI impI)
    fix command :: string assume "length command \<le> 4000"
    moreover have "us_reads s5 = ?rd @ []" "length ''AGENT_RUNNING=1'' \<le> 4000" using five(3) by simp_all
    ultimately show "\<exists>s6. stage_shell command s5 = ((''AGENT_RUNNING=1'', None), s6)"
      using command_answered [where out = "''AGENT_RUNNING=1''" and rest = "[]", OF five(2)] by blast
  qed
  then show thesis by (rule that [OF one two(1) three(1) four(1) five(1)])
qed

theorem staged_agent_is_the_file_witness:
  "\<exists>r' s' log. startAgent plain_bus bytes_string (Inr (replicate 32 (CHR ''0''))) 0
       \<lparr>lb_stat = Inr (True, 3), lb_read = Inr [1, 2, 3]\<rparr> blank_evidence staging_module = (r', s') \<and>
     se_Status r' = ''H2_AGENT_STAGED'' \<and> us_log s' = log \<and> pushed_data log = [1, 2, 3]"
proof -
  let ?hex = "replicate 32 (CHR ''0'')" and ?lb = "\<lparr>lb_stat = Inr (True, 3), lb_read = Inr [1, 2, 3]\<rparr>"
  let ?cmd = "startCommand (''cb-h2-'' @ ?hex) (''qdc507-h2-'' @ take 16 ?hex)"
  obtain s1 s2 s3 s4 s5 where runs: "adb_handshake staging_module = (None, s1)" "stage_shell ''id'' s1 = ((''uid=0'', None), s2)"
      "stage_shell (st_checkCommand start_texts) s2 = ((''STAGE_DIR_EXISTS=0'', None), s3)"
      "stage_shell mkdir_command s3 = (([], None), s4)" "push 0 [1, 2, 3] stageBinary s4 = (None, s5)"
      "\<forall>command. length command \<le> 4000 \<longrightarrow> (\<exists>s6. stage_shell command s5 = ((''AGENT_RUNNING=1'', None), s6))"
    by (rule staging_module_runs) blast
  have "length ?cmd \<le> 4000"
    by (simp add: startCommand_def script_def stagePID_def stageLog_def stageBinary_def stageDir_def agentAddr_def
        agentService_def agentRIL_def shellQuote_def numeral_eq_Suc)
  then obtain s6 where started: "stage_shell ?cmd s5 = ((''AGENT_RUNNING=1'', None), s6)" using runs(6) by blast
  have says: "str_contains ''uid=0'' ''uid=0''" "\<not> str_contains ''STAGE_DIR_EXISTS=0'' ''STAGE_DIR_EXISTS=1''"
      "str_contains ''AGENT_RUNNING=1'' ''AGENT_RUNNING=1''"
    by code_simp+
  obtain r' s' where run: "startAgent plain_bus bytes_string (Inr ?hex) 0 ?lb blank_evidence staging_module = (r', s')" by fastforce
  then have done_: "se_Status r' = ''H2_AGENT_STAGED''"
    using runs started says plain_bus_opens
    by (auto simp: startAgent_def checked_binary_def newCredentials_def stage_connected_def stage_connect_def plain_bus_def
        staged_def stage_step_def maxAgentSize_def)
  have "us_log staging_module = []" by (simp add: staging_module_def)
  with staged_agent_is_the_file [OF run done_] run done_ show ?thesis by (fastforce simp: blank_evidence_def)
qed

end
