(* ===== verification/Stage_Writes.thy ===== *)
theory Stage_Writes
  imports Agent_Stage
begin

text \<open>
  What the tool \<^verbatim>\<open>qdc507-agent-stage\<close> can write to the module at all: its fixed commands, and one file under its fixed
  directory.
\<close>

section \<open>The services of the tool\<close>

text \<open>One turn of a loop, with the acknowledgement of a write.\<close>

lemma turn:
  assumes "expired s = (b, s0)" and "readPacket s0 = (q, s1)"
  shows "writes A s s0" "writes A s s1" "q = Inr p \<Longrightarrow> length (us_reads s1) < length (us_reads s)"
    and "writePacket (text_packet adbOKAY x y []) s1 = (e, s2) \<Longrightarrow> writes A s s2"
    and "writePacket (text_packet adbOKAY x y []) s1 = (e, s2) \<Longrightarrow> q = Inr p \<Longrightarrow> length (us_reads s2) < length (us_reads s)"
    and "writes A s (snd (writePacket (text_packet adbCLSE x y []) s1))"
proof -
  show one: "writes A s s0" "writes A s s1" using read_writes(1) [OF assms(1)] turn_writes(1) [OF assms] .
  show less1: "length (us_reads s1) < length (us_reads s)" if "q = Inr p" using turn_writes(2) [OF assms that] .
  show "writes A s s2" if "writePacket (text_packet adbOKAY x y []) s1 = (e, s2)"
    using writes_trans [OF one(2) ack_writes(1) [OF that]] .
  show "length (us_reads s2) < length (us_reads s)" if "writePacket (text_packet adbOKAY x y []) s1 = (e, s2)" "q = Inr p"
    using less1 [OF that(2)] writePacket_reads [OF that(1)] by simp
  show "writes A s (snd (writePacket (text_packet adbCLSE x y []) s1))"
    using writes_trans [OF one(2) ack_writes(2)] by (metis prod.collapse)
qed

lemma stage_shell_loop_writes: "stage_shell_loop remoteID out s = (r, s') \<Longrightarrow> writes A s s'"
proof (induction "length (us_reads s)" arbitrary: s remoteID out rule: less_induct)
  case less
  have again: "writes A s s'" if "writes A s s2" "length (us_reads s2) < length (us_reads s)"
      "stage_shell_loop remote out2 s2 = (r, s')" for s2 remote out2
    using writes_trans [OF that(1) less.hyps [OF that(2,3)]] .
  obtain b s0 where clock: "expired s = (b, s0)" by (cases "expired s")
  obtain q s1 where read: "readPacket s0 = (q, s1)" by (cases "readPacket s0")
  note t = turn [OF clock read]
  have acked: "writes A s s'" if "writePacket (text_packet adbOKAY 1 x []) s1 = (None, s2)" "q = Inr p"
      "stage_shell_loop remote out2 s2 = (r, s')" for x p remote out2 s2
    using again [OF t(4) [OF that(1)] t(5) [OF that(1,2)] that(3)] .
  show ?case
    using less.prems clock read t(1,2,3,4,6)
    by (subst (asm) stage_shell_loop.simps)
      (auto simp: Let_def split: prod.splits bool.splits sum.splits option.splits if_splits intro: again acked)
qed

lemma ack_loop_writes: "ack_loop localID s = (r, s') \<Longrightarrow> writes A s s'"
proof (induction "length (us_reads s)" arbitrary: s rule: less_induct)
  case less
  have again: "writes A s s'" if "writes A s s2" "length (us_reads s2) < length (us_reads s)" "ack_loop localID s2 = (r, s')" for s2
    using writes_trans [OF that(1) less.hyps [OF that(2,3)]] .
  obtain b s0 where clock: "expired s = (b, s0)" by (cases "expired s")
  obtain q s1 where read: "readPacket s0 = (q, s1)" by (cases "readPacket s0")
  note t = turn [OF clock read]
  have acked: "writes A s s'" if "writePacket (text_packet adbOKAY localID x []) s1 = (None, s2)" "q = Inr p"
      "ack_loop localID s2 = (r, s')" for x p s2
    using again [OF t(4) [OF that(1)] t(5) [OF that(1,2)] that(3)] .
  show ?case
    using less.prems clock read t(1,2,3,4)
    by (subst (asm) ack_loop.simps)
      (auto split: prod.splits bool.splits sum.splits option.splits if_splits intro: again acked)
qed

lemma stage_close_loop_writes: "stage_close_loop localID s = (r, s') \<Longrightarrow> writes A s s'"
proof (induction "length (us_reads s)" arbitrary: s rule: less_induct)
  case less
  have again: "writes A s s'" if "writes A s s2" "length (us_reads s2) < length (us_reads s)" "stage_close_loop localID s2 = (r, s')" for s2
    using writes_trans [OF that(1) less.hyps [OF that(2,3)]] .
  obtain b s0 where clock: "expired s = (b, s0)" by (cases "expired s")
  obtain q s1 where read: "readPacket s0 = (q, s1)" by (cases "readPacket s0")
  note t = turn [OF clock read]
  have acked: "writes A s s'" if "writePacket (text_packet adbOKAY localID x []) s1 = (None, s2)" "q = Inr p"
      "stage_close_loop localID s2 = (r, s')" for x p s2
    using again [OF t(4) [OF that(1)] t(5) [OF that(1,2)] that(3)] .
  show ?case
    using less.prems clock read t(1,2,3,4)
    by (subst (asm) stage_close_loop.simps)
      (auto split: prod.splits bool.splits sum.splits option.splits if_splits intro: again acked)
qed

lemma result_loop_writes: "result_loop localID buf s = (r, s') \<Longrightarrow> writes A s s'"
proof (induction "length (us_reads s)" arbitrary: s buf rule: less_induct)
  case less
  have again: "writes A s s'" if "writes A s s2" "length (us_reads s2) < length (us_reads s)"
      "result_loop localID buf2 s2 = (r, s')" for s2 buf2
    using writes_trans [OF that(1) less.hyps [OF that(2,3)]] .
  obtain b s0 where clock: "expired s = (b, s0)" by (cases "expired s")
  obtain q s1 where read: "readPacket s0 = (q, s1)" by (cases "readPacket s0")
  note t = turn [OF clock read]
  have acked: "writes A s s'" if "writePacket (text_packet adbOKAY localID x []) s1 = (None, s2)" "q = Inr p"
      "result_loop localID buf2 s2 = (r, s')" for x p buf2 s2
    using again [OF t(4) [OF that(1)] t(5) [OF that(1,2)] that(3)] .
  show ?case
    using less.prems clock read t(1,2,3,4)
    by (subst (asm) result_loop.simps)
      (auto split: prod.splits bool.splits sum.splits option.splits if_splits intro: again acked)
qed

lemma stage_shell_writes:
  assumes "stage_shell command s = (r, s')" and "shell_request command \<in> A"
  shows "writes A s s'"
proof -
  obtain e s1 where sent: "writePacket (text_packet adbOPEN 1 0 (''shell:'' @ command @ [nul])) s = (e, s1)" by fastforce
  have first: "writes A s s1" using writes_mono [OF opened_writes [OF sent]] assms(2) by (simp add: shell_request_def)
  show ?thesis
    using assms(1) sent first writes_trans [OF first stage_shell_loop_writes] by (auto simp: stage_shell_def split: option.splits)
qed

section \<open>The push\<close>

definition push_payloads :: "string \<Rightarrow> byte list set" where
  "push_payloads remotePath =
     {string_bytes (''sync:'' @ [nul]), sync_record syncSEND (string_bytes (remotePath @ '',0700''))} \<union>
     {sync_record syncDATA d |d. True} \<union> {done_record t |t. True}"

lemma stage_openService_writes:
  assumes "stage_openService 2 ''sync:'' s = (r, s')"
  shows "writes (push_payloads remotePath) s s'"
proof -
  obtain e s1 where sent: "writePacket (text_packet adbOPEN 2 0 (''sync:'' @ [nul])) s = (e, s1)" by fastforce
  obtain b s2 where clock: "expired s1 = (b, s2)" by (cases "expired s1")
  obtain q s3 where read: "readPacket s2 = (q, s3)" by (cases "readPacket s2")
  have first: "writes (push_payloads remotePath) s s1"
    using writes_mono [OF opened_writes [OF sent]] by (simp add: push_payloads_def)
  show ?thesis
    using assms sent clock read first writes_trans [OF first turn(1) [OF clock read]] writes_trans [OF first turn(2) [OF clock read]]
    by (auto simp: stage_openService_def split: option.splits bool.splits sum.splits)
qed

lemma stage_closeService_writes: "stage_closeService localID remoteID s = (r, s') \<Longrightarrow> writes A s s'"
  unfolding stage_closeService_def
  by (auto split: prod.splits option.splits dest: ack_writes intro: writes_trans [OF ack_writes(2) stage_close_loop_writes])

lemma sendSyncRecord_writes:
  assumes "sendSyncRecord localID remoteID kind data s = (r, s')" and "sync_record kind data \<in> A"
  shows "writes A s s'"
proof -
  obtain e s1 where sent: "writePacket \<lparr>pk_Command = adbWRTE, pk_Arg0 = localID, pk_Arg1 = remoteID,
      pk_Payload = sync_record kind data\<rparr> s = (e, s1)" by fastforce
  have first: "writes A s s1" by (rule writePacket_writes [OF sent]) (use assms(2) in simp_all)
  show ?thesis
    using assms(1) sent first writes_trans [OF first ack_loop_writes] by (auto simp: sendSyncRecord_def split: option.splits)
qed

lemma send_data_writes: "send_data localID remoteID offset data s = (r, s') \<Longrightarrow> writes (push_payloads remotePath) s s'"
proof (induction localID remoteID offset data s rule: send_data.induct)
  case (1 localID remoteID offset data s)
  obtain e s1 where first: "sendSyncRecord localID remoteID syncDATA (take chunk data) s = (e, s1)" by fastforce
  have one: "writes (push_payloads remotePath) s s1"
    by (rule sendSyncRecord_writes [OF first]) (auto simp: push_payloads_def)
  show ?case
  proof (cases "data = [] \<or> e \<noteq> None")
    case True
    with 1(2) first one show ?thesis by (subst (asm) send_data.simps) (auto simp: writes_same_log split: if_splits)
  next
    case False
    with 1(2) first have "send_data localID remoteID (offset + length (take chunk data)) (drop chunk data) s1 = (r, s')"
      by (subst (asm) send_data.simps) simp
    from 1(1) [OF _ first [symmetric] _ this] False one show ?thesis using writes_trans by auto
  qed
qed

lemma push_writes:
  assumes "push now data remotePath s = (r, s')"
  shows "writes (push_payloads remotePath) s s'"
proof -
  let ?A = "push_payloads remotePath"
  have member: "sync_record syncSEND (string_bytes (remotePath @ '',0700'')) \<in> ?A" "sync_record syncDONE (le32 now) \<in> ?A"
    by (auto simp: push_payloads_def done_record_def)
  obtain q s1 where opened: "stage_openService 2 ''sync:'' s = (q, s1)" by fastforce
  have first: "writes ?A s s1" using stage_openService_writes [OF opened] .
  have body: "writes ?A s1 s2" if "push_file now remoteID data remotePath s1 = (e, s2)" for remoteID e s2
  proof -
    obtain e1 t1 where one: "sendSyncRecord 2 remoteID syncSEND (string_bytes (remotePath @ '',0700'')) s1 = (e1, t1)" by fastforce
    obtain e2 t2 where two: "send_data 2 remoteID 0 data t1 = (e2, t2)" by fastforce
    obtain e3 t3 where three: "sendSyncRecord 2 remoteID syncDONE (le32 now) t2 = (e3, t3)" by fastforce
    obtain e4 t4 where four: "readSyncResult 2 t3 = (e4, t4)" by fastforce
    obtain e5 t5 where five: "stage_closeService 2 remoteID t4 = (e5, t5)" by fastforce
    have w1: "writes ?A s1 t1" using sendSyncRecord_writes [OF one member(1)] .
    have w2: "writes ?A s1 t2" using writes_trans [OF w1 send_data_writes [OF two]] .
    have w3: "writes ?A s1 t3" using writes_trans [OF w2 sendSyncRecord_writes [OF three member(2)]] .
    have w4: "writes ?A s1 t4" using writes_trans [OF w3 result_loop_writes] four by (simp add: readSyncResult_def)
    have w5: "writes ?A s1 t5" using writes_trans [OF w4 stage_closeService_writes [OF five]] .
    show ?thesis using that one two three four five w1 w2 w3 w4 w5 by (auto simp: push_file_def split: option.splits)
  qed
  have bye: "writes ?A s (snd (writePacket (text_packet adbCLSE 2 x []) s2))" if "writes ?A s s2" for x s2
    using writes_trans [OF that ack_writes(2)] by (metis prod.collapse)
  show ?thesis
    using assms opened first writes_trans [OF first body] bye
    by (auto simp: push_def writes_same_log split: if_splits sum.splits prod.splits)
qed

section \<open>The runs\<close>

lemma stage_step_writes:
  assumes "stage_step name shown command body r s = (r', s')" and "shell_request command \<in> A"
    and "\<And>out e r s r' s'. body out e r s = (r', s') \<Longrightarrow> writes A s s'"
  shows "writes A s s'"
proof -
  obtain q s1 where shell: "stage_shell command s = (q, s1)" by fastforce
  show ?thesis
    using assms(1) shell writes_trans [OF stage_shell_writes [OF shell assms(2)] assms(3)]
    by (auto simp: stage_step_def split: prod.splits)
qed

lemma stage_connected_writes:
  assumes "stage_connected bus noted body r s = (r', s')" and "string_bytes (''host::'' @ [nul]) \<in> A"
    and "\<And>r s r' s'. body r s = (r', s') \<Longrightarrow> writes A s s'"
  shows "writes A s s'"
proof -
  obtain e s1 where shaken: "adb_handshake s = (e, s1)" by (cases "adb_handshake s")
  have "writes A s s1" using writes_mono [OF handshake_writes [OF shaken]] assms(2) by simp
  then show ?thesis
    using assms(1) shaken writes_trans [OF _ assms(3)]
    by (auto simp: stage_connected_def Let_def writes_same_log split: option.splits sum.splits)
qed

lemma staged_writes:
  assumes "staged tx now data body r s = (r', s')"
    and "shell_request ` {''id'', st_checkCommand tx, mkdir_command} \<union> push_payloads stageBinary \<subseteq> A"
    and "\<And>r s r' s'. body r s = (r', s') \<Longrightarrow> writes A s s'"
  shows "writes A s s'"
proof -
  have pushed: "writes A s s'" if "(case push now data stageBinary s of (Some t, s1) \<Rightarrow> (stage_blocked st t r, s1)
      | (None, s1) \<Rightarrow> body r s1) = (r', s')" for st r s r' s'
  proof -
    obtain e s1 where push: "push now data stageBinary s = (e, s1)" by fastforce
    have "writes A s s1" using writes_mono [OF push_writes [OF push]] assms(2) by simp
    then show ?thesis using that push writes_trans [OF _ assms(3)] by (auto split: option.splits)
  qed
  define third where "third = (\<lambda>(_ :: string) e r s. case e of
      Some t \<Rightarrow> (stage_blocked ''BLOCKED_STAGE_DIRECTORY'' t r, s)
    | None \<Rightarrow> (case push now data stageBinary s of
          (Some t, s1) \<Rightarrow> (stage_blocked (st_pushFailed tx) t r, s1)
        | (None, s1) \<Rightarrow> body r s1))"
  define second where "second = (\<lambda>check (e :: string option) r s.
      if e \<noteq> None \<or> str_contains check ''STAGE_DIR_EXISTS=1''
      then (stage_blocked ''BLOCKED_STAGE_DIR_EXISTS'' ''fixed transient stage directory is not empty; run cleanup first'' r, s)
      else stage_step (st_mkdir tx) mkdir_command mkdir_command third r s)"
  define first where "first = (\<lambda>identity (e :: string option) r s.
      if e \<noteq> None \<or> \<not> str_contains identity ''uid=0'' then (stage_blocked ''BLOCKED_NON_ROOT_SHELL'' (st_root tx) r, s)
      else stage_step (st_check tx) (st_checkShown tx) (st_checkCommand tx) second r s)"
  have member: "shell_request ''id'' \<in> A" "shell_request (st_checkCommand tx) \<in> A" "shell_request mkdir_command \<in> A"
    using assms(2) by simp_all
  have three: "writes A s s'" if "third out e r s = (r', s')" for out e r s r' s'
    using that pushed by (auto simp: third_def writes_same_log split: option.splits)
  have two: "writes A s s'" if "second out e r s = (r', s')" for out e r s r' s'
    using that stage_step_writes [OF _ member(3) three] by (auto simp: second_def writes_same_log split: if_splits)
  have one: "writes A s s'" if "first out e r s = (r', s')" for out e r s r' s'
    using that stage_step_writes [OF _ member(2) two] by (auto simp: first_def writes_same_log split: if_splits)
  have eq: "staged tx now data body = stage_step ''id'' ''id'' ''id'' first"
    unfolding staged_def first_def second_def third_def by (rule refl)
  show ?thesis by (rule stage_step_writes [OF assms(1) [unfolded eq] member(1) one])
qed

text \<open>Everything the tool can send besides headers.\<close>

definition stage_payloads :: "byte list set" where
  "stage_payloads =
     {string_bytes (''host::'' @ [nul])} \<union> push_payloads stageBinary \<union>
     shell_request ` ({''id'', preflight_command, preflight_command @ ''; df -k /data'', mkdir_command, cleanup_command,
       status_command, capture_command} \<union> {startCommand token deviceID |token deviceID. True})"

text \<open>Whatever the stage, the files, the module and the flags: beside packet headers the tool writes to the module only its
  fixed commands, and one file under its fixed directory.\<close>

theorem stage_tool_stays_in_its_directory:
  "\<exists>log. us_log (snd (stage_run bus sha fresh now lb stage binaryPath out s)) = us_log s @ log \<and>
     set log \<subseteq> adb_headers \<union> stage_payloads"
proof -
  let ?A = stage_payloads
  have host: "string_bytes (''host::'' @ [nul]) \<in> ?A" by (simp add: stage_payloads_def)
  have requests: "shell_request cleanup_command \<in> ?A" "shell_request status_command \<in> ?A" "shell_request capture_command \<in> ?A"
      "\<And>token deviceID. shell_request (startCommand token deviceID) \<in> ?A"
    by (auto simp: stage_payloads_def)
  have start: "shell_request ` {''id'', st_checkCommand start_texts, mkdir_command} \<union> push_payloads stageBinary \<subseteq> ?A"
    and capture: "shell_request ` {''id'', st_checkCommand capture_texts, mkdir_command} \<union> push_payloads stageBinary \<subseteq> ?A"
    by (auto simp: stage_payloads_def start_texts_def capture_texts_def)
  have still: "writes ?A s s" for s by (simp add: writes_same_log)
  have started: "writes ?A s s'" if "startAgent bus sha fresh now lb r s = (r', s')" for r s r' s'
  proof -
    have final: "writes ?A s s'" if "stage_step n t (startCommand token deviceID) (\<lambda>out e r s.
         if e \<noteq> None \<or> \<not> str_contains out ''AGENT_RUNNING=1'' then (stage_blocked a b r, s)
         else (r\<lparr>se_Status := c\<rparr>, s)) r s = (r', s')" for n t token deviceID a b c r s r' s'
      using that by (rule stage_step_writes [OF _ requests(4)]) (auto simp: still split: if_splits)
    have whole: "writes ?A s s'" if "staged start_texts now data (stage_step n t (startCommand token deviceID) (\<lambda>out e r s.
         if e \<noteq> None \<or> \<not> str_contains out ''AGENT_RUNNING=1'' then (stage_blocked a b r, s)
         else (r\<lparr>se_Status := c\<rparr>, s))) r s = (r', s')" for data n t token deviceID a b c r s r' s'
      using that by (rule staged_writes [OF _ start final])
    show ?thesis
      using that stage_connected_writes [OF _ host whole]
      by (auto simp: startAgent_def checked_binary_def Let_def still split: sum.splits if_splits prod.splits)
  qed
  have captured: "writes ?A s s'" if "captureQMIRequest bus sha now lb r s = (r', s')" for r s r' s'
  proof -
    define verdict where "verdict = (\<lambda>out (e :: string option) r (s :: usbADB).
        if e \<noteq> None \<or> \<not> str_contains out ''CAPTURE_CLEANUP_REMAINING=0''
        then (stage_blocked ''BLOCKED_CAPTURE_CLEANUP'' ''QMI capture did not prove cleanup of the fixed transient directory'' r, s)
        else if \<not> str_contains out ''[CELLBRIDGE_QMI_CAPTURE] modem_send=blocked''
        then (stage_blocked ''BLOCKED_QMI_REQUEST_CAPTURE'' ''preload shim did not intercept the expected WMS Raw Send call'' r, s)
        else (r\<lparr>se_Status := ''H2_QMI_REQUEST_CAPTURED''\<rparr>, s))"
    have verdict: "writes ?A s s'" if "verdict out e r s = (r', s')" for out e r s r' s'
      using that by (auto simp: verdict_def still split: if_splits)
    have final: "writes ?A s s'" if "stage_step n t capture_command verdict r s = (r', s')" for n t r s r' s'
      using that by (rule stage_step_writes [OF _ requests(3) verdict])
    have whole: "writes ?A s s'" if "staged capture_texts now data (stage_step n t capture_command verdict) r s = (r', s')" for data n t r s r' s'
      using that by (rule staged_writes [OF _ capture final])
    show ?thesis
      using that stage_connected_writes [OF _ host whole] unfolding captureQMIRequest_def verdict_def [symmetric]
      by (auto simp: checked_binary_def still split: sum.splits if_splits prod.splits)
  qed
  have cleaned: "writes ?A s s'" if "cleanupAgent bus r s = (r', s')" for r s r' s'
    using that unfolding cleanupAgent_def
    by (rule stage_connected_writes [OF _ host]) (erule stage_step_writes [OF _ requests(1)], auto simp: still split: if_splits)
  have read: "writes ?A s s'" if "statusAgent bus r s = (r', s')" for r s r' s'
    using that unfolding statusAgent_def
    by (rule stage_connected_writes [OF _ host]) (erule stage_step_writes [OF _ requests(2)], auto simp: still split: option.splits)
  have "writes ?A s (snd (stage_run bus sha fresh now lb stage binaryPath out s))"
    using started captured cleaned read
    by (auto simp: stage_run_def Let_def still apfst_def map_prod_def split: prod.splits)
  then show ?thesis by (simp add: writes_def)
qed

end
