(* ===== verification/Usb_At.thy ===== *)
theory Usb_At
  imports Adb_Tool
begin

text \<open>
  AT commands over the bulk endpoints of the module: what \<^verbatim>\<open>tools/module-provisioner/qdc507-at-readonly.go\<close> and
  \<^verbatim>\<open>qdc507-usbcfg-profile-aware.go\<close> share word for word, and the first of the two tools, which asks a list of questions.
  A run is given by what the transfers return and by whether the deadline of a command has passed when it is looked at.
  Every command that was written is logged with its endpoint.
\<close>

section \<open>Transfers\<close>

text \<open>Reads beyond the list time out; beyond the list of looks at the clock the deadline has passed.\<close>

record usb_at =
  ua_reads :: "usb_read list"
  ua_writes :: "usb_write option list"
  ua_clock :: "bool list"
  ua_log :: "(byte \<times> string) list"

datatype usb_at_error = AtTimeout | AtFailed string

definition errUSBTimeout :: string where "errUSBTimeout = ''USB transfer timed out''"

definition usb_at_error_text :: "usb_at_error \<Rightarrow> string" where
  "usb_at_error_text e = (case e of AtTimeout \<Rightarrow> errUSBTimeout | AtFailed t \<Rightarrow> t)"

definition at_bulkWrite :: "byte \<Rightarrow> string \<Rightarrow> usb_at \<Rightarrow> string option \<times> usb_at" where
  "at_bulkWrite endpoint payload s =
     (let s1 = s\<lparr>ua_writes := tl (ua_writes s), ua_log := ua_log s @ [(endpoint, payload)]\<rparr>
      in case (case ua_writes s of [] \<Rightarrow> None | w # _ \<Rightarrow> w) of
           None \<Rightarrow> (None, s1)
         | Some (WriteError name) \<Rightarrow> (Some (''bulk write: '' @ name), s1)
         | Some (WriteShort n) \<Rightarrow>
             if n \<noteq> length payload
             then (Some (''bulk write short transfer: '' @ nat_to_string n @ ''/'' @ nat_to_string (length payload) @ '' bytes''), s1)
             else (None, s1))"

definition at_bulkRead :: "usb_at \<Rightarrow> (usb_at_error, string) result \<times> usb_at" where
  "at_bulkRead s =
     (case ua_reads s of
        [] \<Rightarrow> (Inl AtTimeout, s)
      | r # rest \<Rightarrow>
          ((case r of
              UsbTimeout \<Rightarrow> Inl AtTimeout
            | UsbError name \<Rightarrow> Inl (AtFailed (''bulk read: '' @ name))
            | UsbBytes bs \<Rightarrow> Inr (bytes_string (take 4096 bs))), s\<lparr>ua_reads := rest\<rparr>))"

definition at_expired :: "usb_at \<Rightarrow> bool \<times> usb_at" where
  "at_expired s = (case ua_clock s of [] \<Rightarrow> (True, s) | b # rest \<Rightarrow> (b, s\<lparr>ua_clock := rest\<rparr>))"

text \<open>What is left over from before is read away, at most four transfers of it.\<close>

fun drain_reads :: "nat \<Rightarrow> usb_at \<Rightarrow> usb_at_error option \<times> usb_at" where
  "drain_reads 0 s = (None, s)"
| "drain_reads (Suc n) s =
     (case at_bulkRead s of
        (Inl AtTimeout, s1) \<Rightarrow> (None, s1)
      | (Inl e, s1) \<Rightarrow> (Some e, s1)
      | (Inr _, s1) \<Rightarrow> drain_reads n s1)"

definition at_drain :: "usb_at \<Rightarrow> usb_at_error option \<times> usb_at" where
  "at_drain = drain_reads 4"

definition lf :: char where "lf = char_of (10::nat)"
definition cr :: char where "cr = char_of (13::nat)"

definition responseComplete :: "string \<Rightarrow> bool" where
  "responseComplete response =
     (let upper = to_upper response
      in str_contains upper (lf # ''OK'') \<or> str_contains upper (lf # ''ERROR'') \<or>
         has_suffix (trim_space upper) ''OK'' \<or> has_suffix (trim_space upper) ''ERROR'')"

definition looksLikeATSuccess :: "string \<Rightarrow> bool" where
  "looksLikeATSuccess response =
     (let upper = to_upper response in str_contains upper ''OK'' \<and> \<not> str_contains upper ''ERROR'')"

lemma at_bulkRead_keeps: "at_bulkRead s = (r, s') \<Longrightarrow> ua_clock s' = ua_clock s \<and> ua_log s' = ua_log s"
  by (auto simp: at_bulkRead_def split: list.splits)

lemma at_expired_less: "at_expired s = (False, s') \<Longrightarrow> length (ua_clock s') < length (ua_clock s)"
  by (auto simp: at_expired_def split: list.splits)

lemmas at_shrinks = at_bulkRead_keeps [OF sym] at_expired_less [OF sym]

function response_loop :: "string \<Rightarrow> usb_at \<Rightarrow> (string \<times> usb_at_error option) \<times> usb_at" where
  "response_loop response s =
     (case at_expired s of
        (True, s0) \<Rightarrow> (if response = [] then (([], Some AtTimeout), s0) else ((response, None), s0))
      | (False, s0) \<Rightarrow>
          (case at_bulkRead s0 of
             (Inl AtTimeout, s1) \<Rightarrow> response_loop response s1
           | (Inl e, s1) \<Rightarrow> ((response, Some e), s1)
           | (Inr data, s1) \<Rightarrow>
               if responseComplete (response @ data) then ((response @ data, None), s1)
               else response_loop (response @ data) s1))"
  by pat_completeness auto
termination
  by (relation "measure (\<lambda>(response, s). length (ua_clock s))") (auto dest!: at_shrinks)

declare response_loop.simps [simp del]

text \<open>The endpoints of an interface that has both.\<close>

record rawCandidate =
  rc_iface :: nat
  rc_class :: byte
  rc_subclass :: byte
  rc_protocol :: byte
  rc_in :: byte
  rc_out :: byte

definition sendCommand :: "rawCandidate \<Rightarrow> string \<Rightarrow> usb_at \<Rightarrow> (string \<times> usb_at_error option) \<times> usb_at" where
  "sendCommand candidate command s =
     (case at_drain s of
        (Some e, s1) \<Rightarrow> (([], Some e), s1)
      | (None, s1) \<Rightarrow>
          (case at_bulkWrite (rc_out candidate) (trim_space command @ [cr]) s1 of
             (Some e, s2) \<Rightarrow> (([], Some (AtFailed (''write '' @ command @ '': '' @ e))), s2)
           | (None, s2) \<Rightarrow> response_loop [] s2))"

section \<open>Finding the interfaces\<close>

text \<open>The claim of an interface fails with a number and a name.\<close>

record at_bus =
  ab_init :: "string option"
  ab_open :: "nat \<times> nat \<Rightarrow> bool"
  ab_device :: bool
  ab_config :: "(string, alt_setting list list) result"
  ab_claim :: "nat \<Rightarrow> (int \<times> string) option"

definition candidatePriority :: "nat \<Rightarrow> nat" where
  "candidatePriority iface = (if iface = 2 \<or> iface = 3 then 0 else 1)"

definition candidates_of :: "alt_setting list \<Rightarrow> rawCandidate list" where
  "candidates_of alts =
     concat (map (\<lambda>a. case bulk_endpoints (as_Endpoints a) of (i, out) \<Rightarrow>
       if i \<noteq> 0 \<and> out \<noteq> 0
       then [\<lparr>rc_iface = as_Number a, rc_class = as_Class a, rc_subclass = as_SubClass a, rc_protocol = as_Protocol a,
              rc_in = i, rc_out = out\<rparr>]
       else []) alts)"

definition discoverCandidates :: "at_bus \<Rightarrow> (string, rawCandidate list) result" where
  "discoverCandidates bus =
     (if \<not> ab_device bus then Inl ''libusb returned no device for the opened handle''
      else case ab_config bus of
             Inl e \<Rightarrow> Inl (''get active configuration: '' @ e)
           | Inr interfaces \<Rightarrow> Inr (sort_key (\<lambda>c. candidatePriority (rc_iface c)) (candidates_of (concat interfaces))))"

text \<open>The public form of a candidate: number, class, subclass, protocol and the endpoints.\<close>

definition hex_byte_text :: "byte \<Rightarrow> string" where
  "hex_byte_text b = ''0x'' @ hex_nat (unat b)"

definition candidate_public :: "rawCandidate \<Rightarrow> nat \<times> string list" where
  "candidate_public c =
     (rc_iface c, map hex_byte_text [rc_class c, rc_subclass c, rc_protocol c, rc_in c, rc_out c])"

record commandResult =
  cr_Command :: string
  cr_ReturnCode :: int
  cr_Response :: string
  cr_Error :: string

section \<open>The tool that asks\<close>

definition readonlyCommands :: "string list" where
  \<open>readonlyCommands =
     [''AT'', ''ATI'', ''AT+QCFG="usbnet"'', ''AT+QCFG="usbcfg"'', ''AT+CPIN?'', ''AT+COPS?'', ''AT+CSQ'', ''AT+CLCC'', ''AT+CEER'',
      ''AT+QCFG="call_control"'', ''AT+CEREG?'', ''AT+CGREG?'', ''AT+CGATT?'', ''AT+CMGF?'', ''AT+CSCA?'', ''AT+CSMS?'', ''AT+CGSMS?'',
      ''AT+CMGL=4'', ''AT+CPMS?'', ''AT+CSCS?'', ''AT+CNMI?'', ''AT+VTS=?'', ''AT+QPCMV?'', ''AT+QDAI?'', ''AT+QPCMV=?'',
      ''AT+QAUDRD=?'', ''AT+QAUDPLAY=?'', ''AT+QAUDSTOP=?'']\<close>

record at_evidence =
  ae_Status :: string
  ae_Candidates :: "(nat \<times> string list) list"
  ae_Selected :: "(nat \<times> string list) option"
  ae_Commands :: "commandResult list"
  ae_Error :: string

definition at_entry :: "string \<Rightarrow> string \<Rightarrow> usb_at_error option \<Rightarrow> commandResult" where
  "at_entry command response e =
     \<lparr>cr_Command = command, cr_ReturnCode = (if e = None then 0 else -1), cr_Response = trim_output response,
      cr_Error = (case e of None \<Rightarrow> [] | Some x \<Rightarrow> usb_at_error_text x)\<rparr>"

fun ask_commands :: "rawCandidate \<Rightarrow> string list \<Rightarrow> at_evidence \<Rightarrow> usb_at \<Rightarrow> at_evidence \<times> usb_at" where
  "ask_commands candidate [] r s = (r, s)"
| "ask_commands candidate (command # rest) r s =
     (case sendCommand candidate command s of ((response, e), s1) \<Rightarrow>
        ask_commands candidate rest (r\<lparr>ae_Commands := ae_Commands r @ [at_entry command response e]\<rparr>) s1)"

definition refused_probe :: "nat \<Rightarrow> string \<Rightarrow> usb_at_error option \<Rightarrow> commandResult" where
  "refused_probe iface response e =
     (let message = (case e of
            Some x \<Rightarrow> usb_at_error_text x
          | None \<Rightarrow> if trim_space response \<noteq> [] then ''unexpected response '' @ go_quote response else ''unexpected AT response'')
      in \<lparr>cr_Command = ''AT'', cr_ReturnCode = -1, cr_Response = trim_output response,
          cr_Error = ''interface '' @ nat_to_string iface @ '': '' @ message\<rparr>)"

fun try_candidates :: "at_bus \<Rightarrow> rawCandidate list \<Rightarrow> at_evidence \<Rightarrow> usb_at \<Rightarrow> at_evidence \<times> usb_at" where
  "try_candidates bus [] r s =
     (r\<lparr>ae_Status := ''BLOCKED_AT_UNAVAILABLE'',
        ae_Error := (if ae_Error r = [] then ''bulk vendor interfaces were found, but none accepted a read-only AT probe'' else ae_Error r)\<rparr>, s)"
| "try_candidates bus (c # rest) r s =
     (case ab_claim bus (rc_iface c) of
        Some (code, name) \<Rightarrow>
          try_candidates bus rest
            (r\<lparr>ae_Commands := ae_Commands r @
               [\<lparr>cr_Command = ''AT'', cr_ReturnCode = code, cr_Response = [],
                 cr_Error = ''interface '' @ nat_to_string (rc_iface c) @ '': '' @ name\<rparr>]\<rparr>) s
      | None \<Rightarrow>
          (case sendCommand c ''AT'' s of ((response, e), s1) \<Rightarrow>
             if e \<noteq> None \<or> \<not> looksLikeATSuccess response
             then try_candidates bus rest (r\<lparr>ae_Commands := ae_Commands r @ [refused_probe (rc_iface c) response e]\<rparr>) s1
             else
               (case ask_commands c (tl readonlyCommands)
                       (r\<lparr>ae_Selected := Some (candidate_public c), ae_Commands := ae_Commands r @ [at_entry ''AT'' response None]\<rparr>) s1 of
                  (r2, s2) \<Rightarrow> (r2\<lparr>ae_Status := ''READ_ONLY_AT_CAPTURED''\<rparr>, s2))))"

definition runReadOnly :: "at_bus \<Rightarrow> usb_at \<Rightarrow> at_evidence \<times> usb_at" where
  "runReadOnly bus s =
     (let r = \<lparr>ae_Status = ''UNKNOWN'', ae_Candidates = [], ae_Selected = None, ae_Commands = [], ae_Error = []\<rparr>;
          stop = (\<lambda>status e r. (r\<lparr>ae_Status := status, ae_Error := e\<rparr>, s))
      in case ab_init bus of
           Some e \<Rightarrow> stop ''BLOCKED_LIBUSB_INIT'' e r
         | None \<Rightarrow>
             if \<not> ab_open bus (0x2c7c, 0x0125)
             then stop ''BLOCKED_QDC507_NOT_FOUND'' ''QDC507 USB device 2c7c:0125 was not found by libusb'' r
             else case discoverCandidates bus of
                    Inl e \<Rightarrow> stop ''BLOCKED_USB_DESCRIPTOR'' e r
                  | Inr candidates \<Rightarrow>
                      (let r1 = r\<lparr>ae_Candidates := map candidate_public candidates\<rparr>
                       in if candidates = []
                          then stop ''BLOCKED_NO_BULK_VENDOR_INTERFACE'' ''no bulk IN/OUT vendor interface was found'' r1
                          else try_candidates bus candidates r1 s))"

section \<open>Only questions are asked\<close>

definition asks :: "string set \<Rightarrow> usb_at \<Rightarrow> usb_at \<Rightarrow> bool" where
  "asks A s s' \<longleftrightarrow> (\<exists>log. ua_log s' = ua_log s @ log \<and> set (map snd log) \<subseteq> A)"

lemma asks_refl [simp]: "asks A s s"
  by (simp add: asks_def)

lemma asks_trans: "asks A s s1 \<Longrightarrow> asks A s1 s2 \<Longrightarrow> asks A s s2"
  unfolding asks_def by (elim exE conjE, rename_tac l1 l2, rule_tac x = "l1 @ l2" in exI) auto

lemma asks_mono: "asks A s s' \<Longrightarrow> A \<subseteq> B \<Longrightarrow> asks B s s'"
  unfolding asks_def by blast

lemma asks_same_log: "ua_log s' = ua_log s \<Longrightarrow> asks A s s'"
  by (simp add: asks_def)

lemma at_expired_log: "at_expired s = (b, s') \<Longrightarrow> ua_log s' = ua_log s"
  by (auto simp: at_expired_def split: list.splits)

lemma drain_reads_log: "drain_reads n s = (e, s') \<Longrightarrow> ua_log s' = ua_log s"
  by (induction n s rule: drain_reads.induct)
    (auto split: prod.splits sum.splits usb_at_error.splits dest: at_bulkRead_keeps)

lemma response_loop_log: "response_loop response s = (r, s') \<Longrightarrow> ua_log s' = ua_log s"
proof (induction "length (ua_clock s)" arbitrary: s response rule: less_induct)
  case less
  obtain b s0 where clock: "at_expired s = (b, s0)" by (cases "at_expired s")
  obtain q s1 where read: "at_bulkRead s0 = (q, s1)" by (cases "at_bulkRead s0")
  have same: "ua_log s0 = ua_log s" "ua_log s1 = ua_log s" "\<not> b \<Longrightarrow> length (ua_clock s1) < length (ua_clock s)"
    using at_expired_log [OF clock] at_bulkRead_keeps [OF read] at_expired_less [of s s0] clock by auto
  have again: "ua_log s' = ua_log s" if "\<not> b" "response_loop more1 s1 = (r, s')" for more1
    using less.hyps [OF same(3) [OF that(1)] that(2)] same(2) by simp
  have "b \<and> s' = s0 \<or> \<not> b \<and> (s' = s1 \<or> (\<exists>more1. response_loop more1 s1 = (r, s')))"
    using less.prems by (subst (asm) response_loop.simps) (auto simp: clock read split: bool.splits sum.splits usb_at_error.splits if_splits)
  then show ?case using again same(1,2) by auto
qed

lemma at_bulkWrite_log: "at_bulkWrite endpoint payload s = (e, s') \<Longrightarrow> ua_log s' = ua_log s @ [(endpoint, payload)]"
  by (auto simp: at_bulkWrite_def Let_def split: option.splits usb_write.splits if_splits)

lemma sendCommand_asks:
  assumes "sendCommand c command s = (r, s')"
  shows "asks {trim_space command @ [cr]} s s'"
proof -
  obtain e s1 where drained: "at_drain s = (e, s1)" by (cases "at_drain s")
  obtain f s2 where sent: "at_bulkWrite (rc_out c) (trim_space command @ [cr]) s1 = (f, s2)" by fastforce
  have one: "ua_log s1 = ua_log s" using drain_reads_log drained by (simp add: at_drain_def)
  then have two: "ua_log s2 = ua_log s @ [(rc_out c, trim_space command @ [cr])]" using at_bulkWrite_log [OF sent] by simp
  have "e \<noteq> None \<and> s' = s1 \<or> e = None \<and> ua_log s' = ua_log s2"
    using assms drained sent response_loop_log by (auto simp: sendCommand_def split: option.splits)
  with one two show ?thesis by (auto simp: asks_def)
qed

definition at_lines :: "string list \<Rightarrow> string set" where
  "at_lines commands = (\<lambda>c. trim_space c @ [cr]) ` set commands"

lemma sendCommand_asks_in: "sendCommand c command s = (r, s') \<Longrightarrow> command \<in> set commands \<Longrightarrow> asks (at_lines commands) s s'"
  using asks_mono [OF sendCommand_asks] by (fastforce simp: at_lines_def)

lemma ask_commands_asks: "ask_commands c cs r s = (r', s') \<Longrightarrow> set cs \<subseteq> set commands \<Longrightarrow> asks (at_lines commands) s s'"
proof (induction c cs r s rule: ask_commands.induct)
  case (2 c command rest r s)
  obtain response e s1 where sent: "sendCommand c command s = ((response, e), s1)" by (metis prod.collapse)
  have "asks (at_lines commands) s s1" using sendCommand_asks_in [OF sent] 2(3) by simp
  moreover have "asks (at_lines commands) s1 s'" using 2(1) [OF sent [symmetric] refl] 2(2,3) sent by simp
  ultimately show ?case by (rule asks_trans)
qed simp

lemma try_candidates_asks: "try_candidates bus cs r s = (r', s') \<Longrightarrow> asks (at_lines readonlyCommands) s s'"
proof (induction bus cs r s rule: try_candidates.induct)
  case (2 bus c rest r s)
  obtain response e s1 where sent: "sendCommand c ''AT'' s = ((response, e), s1)" by (metis prod.collapse)
  have one: "asks (at_lines readonlyCommands) s s1"
    by (rule sendCommand_asks_in [OF sent]) (simp add: readonlyCommands_def)
  have asked: "asks (at_lines readonlyCommands) s s2" if "ask_commands c (tl readonlyCommands) q s1 = (q2, s2)" for q q2 s2
    using asks_trans [OF one ask_commands_asks [OF that]] list.set_sel(2) [of readonlyCommands] by (fastforce simp: readonlyCommands_def)
  show ?case
    using 2 sent asked asks_trans [OF one]
    by (auto split: option.splits prod.splits if_splits)
qed simp

text \<open>Whatever the module answers, the tool only writes the listed questions to it.\<close>

theorem readonly_tool_only_asks:
  "\<exists>log. ua_log (snd (runReadOnly bus s)) = ua_log s @ log \<and> set (map snd log) \<subseteq> at_lines readonlyCommands"
proof -
  have "asks (at_lines readonlyCommands) s (snd (runReadOnly bus s))"
    by (auto simp: runReadOnly_def Let_def split: option.splits sum.splits intro: try_candidates_asks [OF prod.collapse [symmetric]])
  then show ?thesis by (simp add: asks_def)
qed

end
