(* ===== verification/Usb_Profile.thy ===== *)
theory Usb_Profile
  imports Usb_At Sms_Codec
begin

text \<open>
  The tool \<^verbatim>\<open>tools/module-provisioner/qdc507-usbcfg-profile-aware.go\<close>: it reads the USB profile of the module and, when asked
  to, switches off its last feature. The two regular expressions are functions on the response, letters without regard to
  case as far as they are ASCII.
\<close>

section \<open>Numbers\<close>

text \<open>\<^verbatim>\<open>strconv.ParseUint\<close> with base 0 and 32 bits: the base from the prefix, and underscores between digits.\<close>

datatype number_error = BadSyntax | OutOfRange

fun parse_digits :: "nat \<Rightarrow> nat \<Rightarrow> string \<Rightarrow> (number_error, nat) result" where
  "parse_digits base n [] = Inr n"
| "parse_digits base n (c # s) =
     (if c = CHR ''_'' then parse_digits base n s
      else case hex_value (to_lower_char c) of
             None \<Rightarrow> Inl BadSyntax
           | Some d \<Rightarrow>
               if base \<le> d then Inl BadSyntax
               else if 2 ^ 32 \<le> n * base + d then Inl OutOfRange
               else parse_digits base (n * base + d) s)"

definition base_prefix :: "string \<Rightarrow> nat \<times> string" where
  "base_prefix s =
     (if \<not> has_prefix s ''0'' then (10, s)
      else if 3 \<le> length s \<and> to_lower_char (s ! 1) = CHR ''b'' then (2, drop 2 s)
      else if 3 \<le> length s \<and> to_lower_char (s ! 1) = CHR ''o'' then (8, drop 2 s)
      else if 3 \<le> length s \<and> to_lower_char (s ! 1) = CHR ''x'' then (16, drop 2 s)
      else (8, drop 1 s))"

text \<open>The state is what was last seen: the start, a digit, an underscore, or something else.\<close>

fun underscores_ok :: "bool \<Rightarrow> char \<Rightarrow> string \<Rightarrow> bool" where
  "underscores_ok hex i [] = (i \<noteq> CHR ''_'')"
| "underscores_ok hex i (c # s) =
     (if is_digit c \<or> hex \<and> to_lower_char c \<in> set ''abcdef'' then underscores_ok hex (CHR ''0'') s
      else if c = CHR ''_'' then i = CHR ''0'' \<and> underscores_ok hex (CHR ''_'') s
      else i \<noteq> CHR ''_'' \<and> underscores_ok hex (CHR ''!'') s)"

definition underscoreOK :: "string \<Rightarrow> bool" where
  "underscoreOK s =
     (let t = (if s \<noteq> [] \<and> (hd s = CHR ''-'' \<or> hd s = CHR ''+'') then tl s else s)
      in if 2 \<le> length t \<and> hd t = CHR ''0'' \<and> to_lower_char (t ! 1) \<in> set ''box''
         then underscores_ok (to_lower_char (t ! 1) = CHR ''x'') (CHR ''0'') (drop 2 t)
         else underscores_ok False (CHR ''^'') t)"

definition parse_uint32 :: "string \<Rightarrow> (number_error, nat) result" where
  "parse_uint32 s =
     (if s = [] then Inl BadSyntax
      else case base_prefix s of (base, digits) \<Rightarrow>
        (case parse_digits base 0 digits of
           Inl e \<Rightarrow> Inl e
         | Inr n \<Rightarrow> if CHR ''_'' \<in> set digits \<and> \<not> underscoreOK s then Inl BadSyntax else Inr n))"

definition number_error_text :: "string \<Rightarrow> string \<Rightarrow> number_error \<Rightarrow> string" where
  "number_error_text fn s e =
     ''strconv.'' @ fn @ '': parsing '' @ go_quote s @ '': '' @
     (case e of BadSyntax \<Rightarrow> ''invalid syntax'' | OutOfRange \<Rightarrow> ''value out of range'')"

section \<open>Reading the answers\<close>

definition pattern_space :: "char \<Rightarrow> bool" where
  "pattern_space c \<longleftrightarrow> (of_char c :: nat) \<in> {9, 10, 12, 13, 32}"

definition line_end :: "char \<Rightarrow> bool" where
  "line_end c \<longleftrightarrow> c = cr \<or> c = lf"

text \<open>\<open>name\<close> without regard to case at the front of a text, and what follows it.\<close>

definition fold_literal :: "string \<Rightarrow> string \<Rightarrow> string option" where
  "fold_literal name s = (if has_prefix (to_lower s) (to_lower name) then Some (drop (length name) s) else None)"

text \<open>The head of a line up to the comma and the space behind it: the space, and the rest.\<close>

definition qcfg_head :: "string \<Rightarrow> string \<Rightarrow> (string \<times> string) option" where
  "qcfg_head name s =
     (case fold_literal ''+QCFG:'' s of
        None \<Rightarrow> None
      | Some s1 \<Rightarrow>
          (case fold_literal ([CHR 0x22] @ name @ [CHR 0x22]) (dropWhile pattern_space s1) of
             None \<Rightarrow> None
           | Some s2 \<Rightarrow>
               (case fold_literal '','' (dropWhile pattern_space s2) of
                  None \<Rightarrow> None
                | Some s3 \<Rightarrow> Some (takeWhile pattern_space s3, dropWhile pattern_space s3))))"

text \<open>The rest of the line. When only space is left the pattern gives back one of it that does not end the line.\<close>

definition usbcfg_at :: "string \<Rightarrow> string option" where
  "usbcfg_at s =
     (case qcfg_head ''usbcfg'' s of
        None \<Rightarrow> None
      | Some (space, rest) \<Rightarrow>
          if rest \<noteq> [] then Some (takeWhile (\<lambda>c. \<not> line_end c) rest)
          else (case dropWhile line_end (rev space) of [] \<Rightarrow> None | c # _ \<Rightarrow> Some [c]))"

definition usbnet_at :: "string \<Rightarrow> string option" where
  "usbnet_at s =
     (case qcfg_head ''usbnet'' s of
        None \<Rightarrow> None
      | Some (space, rest) \<Rightarrow> if takeWhile is_digit rest = [] then None else Some (takeWhile is_digit rest))"

fun first_match :: "(string \<Rightarrow> string option) \<Rightarrow> string \<Rightarrow> string option" where
  "first_match f [] = f []"
| "first_match f (c # s) = (case f (c # s) of Some x \<Rightarrow> Some x | None \<Rightarrow> first_match f s)"

definition usbcfgLine :: "string \<Rightarrow> string option" where "usbcfgLine = first_match usbcfg_at"
definition usbnetLine :: "string \<Rightarrow> string option" where "usbnetLine = first_match usbnet_at"

definition parseUSBNet :: "string \<Rightarrow> (string, int) result" where
  "parseUSBNet response =
     (case usbnetLine response of
        None \<Rightarrow> Inl (''usbnet response has no parseable +QCFG line: '' @ go_quote (trim_output response))
      | Some digits \<Rightarrow>
          (case atoi digits of
             None \<Rightarrow> Inl (''parse usbnet='' @ go_quote digits @ '': '' @ number_error_text ''Atoi'' digits OutOfRange)
           | Some n \<Rightarrow> Inr n))"

section \<open>The profile\<close>

record usbcfgProfile =
  up_VID :: "16 word"
  up_PID :: "16 word"
  up_Diag :: byte
  up_NMEA :: byte
  up_AT :: byte
  up_Modem :: byte
  up_RMNet :: byte
  up_ADB :: byte
  up_UAC :: byte

definition targetUACOff :: "usbcfgProfile \<Rightarrow> usbcfgProfile" where
  "targetUACOff p = p\<lparr>up_UAC := 0\<rparr>"

definition hex4 :: "16 word \<Rightarrow> string" where
  "hex4 w = map (\<lambda>i. upper_hex_digit (unat (drop_bit (4 * (3 - i)) w AND 0xF))) [0..<4]"

definition profile_fields :: "usbcfgProfile \<Rightarrow> string list" where
  "profile_fields p =
     [''0x'' @ hex4 (up_VID p), ''0x'' @ hex4 (up_PID p)] @
     map (\<lambda>b. nat_to_string (unat b)) [up_Diag p, up_NMEA p, up_AT p, up_Modem p, up_RMNet p, up_ADB p, up_UAC p]"

definition profile_command :: "usbcfgProfile \<Rightarrow> string" where
  \<open>profile_command p = ''AT+QCFG="usbcfg",'' @ join_char (CHR '','') (profile_fields p)\<close>

fun parse_fields :: "nat \<Rightarrow> string list \<Rightarrow> (string, nat list) result" where
  "parse_fields i [] = Inr []"
| "parse_fields i (part # parts) =
     (case parse_uint32 (trim_space part) of
        Inl e \<Rightarrow> Inl (''parse usbcfg field '' @ nat_to_string i @ ''='' @ go_quote part @ '': '' @
                   number_error_text ''ParseUint'' (trim_space part) e)
      | Inr n \<Rightarrow> (case parse_fields (Suc i) parts of Inl e \<Rightarrow> Inl e | Inr ns \<Rightarrow> Inr (n # ns)))"

fun bad_feature :: "nat \<Rightarrow> nat list \<Rightarrow> string option" where
  "bad_feature i [] = None"
| "bad_feature i (n # ns) =
     (if 1 < n
      then Some (''refusing usbcfg feature field '' @ nat_to_string i @ ''='' @ nat_to_string n @ ''; expected binary 0/1'')
      else bad_feature (Suc i) ns)"

definition parseProfile :: "string \<Rightarrow> (string, usbcfgProfile) result" where
  "parseProfile response =
     (case usbcfgLine response of
        None \<Rightarrow> Inl (''usbcfg response has no parseable +QCFG line: '' @ go_quote (trim_output response))
      | Some line \<Rightarrow>
          (let parts = split_char (CHR '','') line
           in if length parts \<noteq> 9
              then Inl (''refusing unknown usbcfg shape: got '' @ nat_to_string (length parts) @ '' fields, expected 9'')
              else case parse_fields 0 parts of
                     Inl e \<Rightarrow> Inl e
                   | Inr values \<Rightarrow>
                       (case bad_feature 2 (drop 2 values) of
                          Some e \<Rightarrow> Inl e
                        | None \<Rightarrow> Inr
                            \<lparr>up_VID = word_of_nat (values ! 0), up_PID = word_of_nat (values ! 1), up_Diag = word_of_nat (values ! 2),
                             up_NMEA = word_of_nat (values ! 3), up_AT = word_of_nat (values ! 4), up_Modem = word_of_nat (values ! 5),
                             up_RMNet = word_of_nat (values ! 6), up_ADB = word_of_nat (values ! 7), up_UAC = word_of_nat (values ! 8)\<rparr>)))"

section \<open>A run\<close>

record profile_evidence =
  pe_ReadOnly :: bool
  pe_Applied :: bool
  pe_RebootSent :: bool
  pe_Detected :: "(nat \<times> nat) option"
  pe_Selected :: "(nat \<times> string list) option"
  pe_USBNet :: string
  pe_Original :: "usbcfgProfile option"
  pe_Target :: "usbcfgProfile option"
  pe_Commands :: "commandResult list"
  pe_Status :: string
  pe_Error :: string

definition pe_blocked :: "string \<Rightarrow> string \<Rightarrow> profile_evidence \<Rightarrow> profile_evidence" where
  "pe_blocked status e r = r\<lparr>pe_Status := status, pe_Error := e\<rparr>"

definition pe_entry :: "string \<Rightarrow> string \<Rightarrow> usb_at_error option \<Rightarrow> profile_evidence \<Rightarrow> profile_evidence" where
  "pe_entry command response e r = r\<lparr>pe_Commands := pe_Commands r @ [at_entry command response e]\<rparr>"

definition knownIDs :: "(nat \<times> nat) list" where
  "knownIDs = [(0x2c7c, 0x0125), (0x2ca3, 0x4006)]"

definition usbnet_question :: string where \<open>usbnet_question = ''AT+QCFG="usbnet"''\<close>
definition usbcfg_question :: string where \<open>usbcfg_question = ''AT+QCFG="usbcfg"''\<close>
definition reboot_command :: string where "reboot_command = ''AT+CFUN=1,1''"

text \<open>The restart, whose missing answer is no error, and the state when it was sent.\<close>

definition send_reboot ::
  "rawCandidate \<Rightarrow> string \<Rightarrow> profile_evidence \<Rightarrow> usb_at \<Rightarrow> profile_evidence \<times> usb_at" where
  "send_reboot c status r s =
     (case sendCommand c reboot_command s of ((response, e), s1) \<Rightarrow>
        (let r1 = pe_entry reboot_command response e r
         in case e of
              Some (AtFailed t) \<Rightarrow> (pe_blocked ''BLOCKED_REBOOT'' t r1, s1)
            | _ \<Rightarrow> (r1\<lparr>pe_RebootSent := True, pe_Status := status\<rparr>, s1)))"

text \<open>What is done with a profile that was read.\<close>

definition with_profile ::
  "bool \<Rightarrow> bool \<Rightarrow> rawCandidate \<Rightarrow> usbcfgProfile \<Rightarrow> profile_evidence \<Rightarrow> usb_at \<Rightarrow> profile_evidence \<times> usb_at" where
  "with_profile apply_it reboot c p r s =
     (let target = targetUACOff p; r1 = r\<lparr>pe_Original := Some p, pe_Target := Some target\<rparr>
      in if up_UAC p = 0
         then (if reboot then send_reboot c ''REBOOT_SENT'' r1 s else (r1\<lparr>pe_Status := ''UAC_ALREADY_OFF''\<rparr>, s))
         else if \<not> apply_it then (r1\<lparr>pe_Status := ''PROFILE_READ_ONLY''\<rparr>, s)
         else
           (case sendCommand c (profile_command target) s of ((response, e), s1) \<Rightarrow>
              (let r2 = pe_entry (profile_command target) response e r1
               in if e \<noteq> None \<or> \<not> looksLikeATSuccess response
                  then (pe_blocked ''BLOCKED_USBCFG_WRITE''
                          (''profile write did not return clean OK: '' @ (case e of None \<Rightarrow> ''<nil>'' | Some x \<Rightarrow> usb_at_error_text x)) r2, s1)
                  else if reboot then send_reboot c ''UAC_DISABLED_REBOOT_REQUIRED'' (r2\<lparr>pe_Applied := True\<rparr>) s1
                  else (r2\<lparr>pe_Applied := True, pe_Status := ''UAC_DISABLED_REENUMERATION_REQUIRED''\<rparr>, s1))))"

definition with_interface ::
  "bool \<Rightarrow> bool \<Rightarrow> rawCandidate \<Rightarrow> profile_evidence \<Rightarrow> usb_at \<Rightarrow> profile_evidence \<times> usb_at" where
  "with_interface apply_it reboot c r s =
     (case sendCommand c usbnet_question s of ((answer, e), s1) \<Rightarrow>
        (let r1 = pe_entry usbnet_question answer e r
         in case e of
              Some x \<Rightarrow> (pe_blocked ''BLOCKED_USB_NET_READ'' (usb_at_error_text x) r1, s1)
            | None \<Rightarrow>
                (case parseUSBNet answer of
                   Inl t \<Rightarrow> (pe_blocked ''BLOCKED_USB_NET_PARSE'' t r1, s1)
                 | Inr usbnet \<Rightarrow>
                     (let r2 = r1\<lparr>pe_USBNet := itoa usbnet\<rparr>
                      in if usbnet \<noteq> 1
                         then (pe_blocked ''BLOCKED_USB_NET_NOT_ECM''
                                 (''refusing profile change because usbnet='' @ itoa usbnet @ '', expected ECM usbnet=1'') r2, s1)
                         else
                           (case sendCommand c usbcfg_question s1 of ((answer2, e2), s2) \<Rightarrow>
                              (let r3 = pe_entry usbcfg_question answer2 e2 r2
                               in case e2 of
                                    Some x \<Rightarrow> (pe_blocked ''BLOCKED_USBCFG_READ'' (usb_at_error_text x) r3, s2)
                                  | None \<Rightarrow>
                                      (case parseProfile answer2 of
                                         Inl t \<Rightarrow> (pe_blocked ''BLOCKED_USBCFG_PROFILE'' t r3, s2)
                                       | Inr p \<Rightarrow> with_profile apply_it reboot c p r3 s2)))))))"

fun try_interfaces ::
  "at_bus \<Rightarrow> bool \<Rightarrow> bool \<Rightarrow> rawCandidate list \<Rightarrow> profile_evidence \<Rightarrow> usb_at \<Rightarrow> profile_evidence \<times> usb_at" where
  "try_interfaces bus apply_it reboot [] r s =
     (pe_blocked ''BLOCKED_AT_UNAVAILABLE'' ''bulk vendor interfaces were found, but none accepted AT'' r, s)"
| "try_interfaces bus apply_it reboot (c # rest) r s =
     (if ab_claim bus (rc_iface c) \<noteq> None then try_interfaces bus apply_it reboot rest r s
      else (case sendCommand c ''AT'' s of ((response, e), s1) \<Rightarrow>
        if e \<noteq> None \<or> \<not> looksLikeATSuccess response then try_interfaces bus apply_it reboot rest r s1
        else with_interface apply_it reboot c (pe_entry ''AT'' response None (r\<lparr>pe_Selected := Some (candidate_public c)\<rparr>)) s1))"

definition run_profile :: "at_bus \<Rightarrow> bool \<Rightarrow> bool \<Rightarrow> usb_at \<Rightarrow> profile_evidence \<times> usb_at" where
  "run_profile bus apply_it reboot s =
     (let r = \<lparr>pe_ReadOnly = (\<not> apply_it), pe_Applied = False, pe_RebootSent = False, pe_Detected = None, pe_Selected = None,
            pe_USBNet = [], pe_Original = None, pe_Target = None, pe_Commands = [], pe_Status = ''UNKNOWN'', pe_Error = []\<rparr>
      in case ab_init bus of
           Some e \<Rightarrow> (pe_blocked ''BLOCKED_LIBUSB_INIT'' e r, s)
         | None \<Rightarrow>
             (case List.find (ab_open bus) knownIDs of
                None \<Rightarrow> (pe_blocked ''BLOCKED_QDC507_NOT_FOUND'' ''QDC507 was not found by libusb under either known identity'' r, s)
              | Some ids \<Rightarrow>
                  (let r1 = r\<lparr>pe_Detected := Some ids\<rparr>
                   in case discoverCandidates bus of
                        Inl e \<Rightarrow> (pe_blocked ''BLOCKED_USB_DESCRIPTOR'' e r1, s)
                      | Inr candidates \<Rightarrow> try_interfaces bus apply_it reboot candidates r1 s)))"

definition profile_exit :: "profile_evidence \<Rightarrow> nat" where
  "profile_exit r =
     (if pe_Status r \<in> {''PROFILE_READ_ONLY'', ''UAC_DISABLED_REBOOT_REQUIRED'', ''UAC_DISABLED_REENUMERATION_REQUIRED'',
           ''UAC_ALREADY_OFF'', ''REBOOT_SENT''} then 0 else 2)"

section \<open>What a run can write\<close>

definition profile_lines :: "bool \<Rightarrow> bool \<Rightarrow> profile_evidence \<Rightarrow> string set" where
  "profile_lines apply_it reboot r =
     at_lines [''AT'', usbnet_question, usbcfg_question] \<union> (if reboot then at_lines [reboot_command] else {}) \<union>
     (case pe_Original r of
        None \<Rightarrow> {}
      | Some p \<Rightarrow> if apply_it \<and> up_UAC p \<noteq> 0 \<and> pe_USBNet r = ''1'' then at_lines [profile_command (targetUACOff p)] else {})"

lemma questions_in_lines: "at_lines [''AT'', usbnet_question, usbcfg_question] \<subseteq> profile_lines apply_it reboot r"
  by (auto simp: profile_lines_def)

lemma reboot_in_lines: "reboot \<Longrightarrow> at_lines [reboot_command] \<subseteq> profile_lines apply_it reboot r"
  by (auto simp: profile_lines_def)

lemma send_reboot_asks:
  assumes "send_reboot c status r s = (r', s')"
  shows "asks (at_lines [reboot_command]) s s'" and "pe_Original r' = pe_Original r" and "pe_USBNet r' = pe_USBNet r"
  using assms sendCommand_asks_in [of c reboot_command s _ s' "[reboot_command]"]
  by (auto simp: send_reboot_def pe_blocked_def pe_entry_def Let_def split: prod.splits option.splits usb_at_error.splits)

lemma with_profile_asks:
  assumes "with_profile apply_it reboot c p r s = (r', s')" and "pe_USBNet r = ''1''"
  shows "asks (profile_lines apply_it reboot r') s s'"
proof (cases "up_UAC p = 0 \<or> \<not> apply_it")
  case True
  then show ?thesis
    using assms asks_mono [OF send_reboot_asks(1), of c _ _ s r' s' "profile_lines apply_it reboot r'"]
    by (auto simp: with_profile_def Let_def profile_lines_def split: if_splits)
next
  case False
  let ?command = "profile_command (targetUACOff p)"
  obtain response e s1 where sent: "sendCommand c ?command s = ((response, e), s1)" by (metis prod.collapse)
  have one: "asks (at_lines [?command]) s s1" by (rule sendCommand_asks_in [OF sent]) simp
  define r2 where "r2 = pe_entry (profile_command (targetUACOff p)) response e
      (r\<lparr>pe_Original := Some p, pe_Target := Some (targetUACOff p)\<rparr>)\<lparr>pe_Applied := True\<rparr>"
  have keeps: "pe_Original r2 = Some p" "pe_USBNet r2 = ''1''" using assms(2) by (simp_all add: r2_def pe_entry_def)
  have "s' = s1 \<and> pe_Original r' = Some p \<and> pe_USBNet r' = ''1'' \<or>
      reboot \<and> send_reboot c ''UAC_DISABLED_REBOOT_REQUIRED'' r2 s1 = (r', s')"
  proof (cases "e \<noteq> None \<or> \<not> looksLikeATSuccess response")
    case True
    with assms False sent show ?thesis by (auto simp: with_profile_def Let_def pe_blocked_def pe_entry_def)
  next
    case ok: False
    with assms False sent keeps show ?thesis
      by (cases reboot) (auto simp: with_profile_def Let_def r2_def pe_entry_def)
  qed
  then have facts: "pe_Original r' = Some p" "pe_USBNet r' = ''1''" "s' = s1 \<or> reboot \<and> asks (at_lines [reboot_command]) s1 s'"
    using send_reboot_asks [of c "''UAC_DISABLED_REBOOT_REQUIRED''" r2 s1 r' s'] keeps by auto
  have "at_lines [?command] \<subseteq> profile_lines apply_it reboot r'" using False facts(1,2) by (simp add: profile_lines_def)
  with one have "asks (profile_lines apply_it reboot r') s s1" by (rule asks_mono)
  moreover have "s' = s1 \<or> asks (profile_lines apply_it reboot r') s1 s'"
    using facts(3) asks_mono [OF _ reboot_in_lines] by blast
  ultimately show ?thesis using asks_trans by auto
qed

lemma itoa_one: "itoa 1 = ''1''"
  by (simp add: itoa_def nat_to_string.simps char_of_def bit_simps)

lemma with_interface_asks:
  assumes "with_interface apply_it reboot c r s = (r', s')"
  shows "asks (profile_lines apply_it reboot r') s s'"
proof -
  let ?A = "at_lines [''AT'', usbnet_question, usbcfg_question]"
  obtain answer e s1 where one: "sendCommand c usbnet_question s = ((answer, e), s1)" by (metis prod.collapse)
  obtain answer2 e2 s2 where two: "sendCommand c usbcfg_question s1 = ((answer2, e2), s2)" by (metis prod.collapse)
  have a1: "asks ?A s s1" by (rule sendCommand_asks_in [OF one]) simp
  have "asks ?A s1 s2" by (rule sendCommand_asks_in [OF two]) simp
  with a1 have a2: "asks ?A s s2" by (rule asks_trans)
  have "s' = s1 \<or> s' = s2 \<or> (\<exists>p r3. pe_USBNet r3 = ''1'' \<and> with_profile apply_it reboot c p r3 s2 = (r', s'))"
    using assms one two by (auto simp: with_interface_def Let_def pe_entry_def itoa_one split: option.splits sum.splits if_splits)
  then have "s' = s1 \<or> s' = s2 \<or> asks (profile_lines apply_it reboot r') s2 s'" using with_profile_asks by blast
  moreover have "asks (profile_lines apply_it reboot r') s s1" "asks (profile_lines apply_it reboot r') s s2"
    using asks_mono [OF a1 questions_in_lines] asks_mono [OF a2 questions_in_lines] .
  ultimately show ?thesis using asks_trans by auto
qed

lemma try_interfaces_asks:
  "try_interfaces bus apply_it reboot cs r s = (r', s') \<Longrightarrow> asks (profile_lines apply_it reboot r') s s'"
proof (induction bus apply_it reboot cs r s rule: try_interfaces.induct)
  case (2 bus apply_it reboot c rest r s)
  obtain response e s1 where sent: "sendCommand c ''AT'' s = ((response, e), s1)" by (metis prod.collapse)
  have "asks (at_lines [''AT'', usbnet_question, usbcfg_question]) s s1" by (rule sendCommand_asks_in [OF sent]) simp
  then have one: "asks (profile_lines apply_it reboot r') s s1" by (rule asks_mono) (rule questions_in_lines)
  show ?case
  proof (cases "ab_claim bus (rc_iface c) \<noteq> None")
    case True
    then show ?thesis using 2 by simp
  next
    case claimed: False
    show ?thesis
    proof (cases "e \<noteq> None \<or> \<not> looksLikeATSuccess response")
      case True
      then have "asks (profile_lines apply_it reboot r') s1 s'" using 2(2) [OF _ sent [symmetric] refl] 2(3) claimed sent by simp
      with one show ?thesis by (rule asks_trans)
    next
      case False
      then have "asks (profile_lines apply_it reboot r') s1 s'" using 2(3) claimed sent with_interface_asks by simp
      with one show ?thesis by (rule asks_trans)
    qed
  qed
qed simp

text \<open>Whatever the module answers, the tool writes to it only its three questions; the restart, when it was asked for; and,
  only with \<^verbatim>\<open>--apply\<close> and a module that answered usbnet 1 and a profile whose last feature is on, that very profile with
  the last feature off.\<close>

theorem profile_tool_only_clears_uac:
  "\<exists>log. ua_log (snd (run_profile bus apply_it reboot s)) = ua_log s @ log \<and>
     set (map snd log) \<subseteq> profile_lines apply_it reboot (fst (run_profile bus apply_it reboot s))"
proof -
  have "asks (profile_lines apply_it reboot r') s s'" if "run_profile bus apply_it reboot s = (r', s')" for r' s'
    using that by (auto simp: run_profile_def Let_def split: option.splits sum.splits intro: try_interfaces_asks)
  then have "asks (profile_lines apply_it reboot (fst (run_profile bus apply_it reboot s))) s (snd (run_profile bus apply_it reboot s))"
    by simp
  then show ?thesis by (simp add: asks_def)
qed

section \<open>A profile is read back\<close>

lemma char_of_digits:
  "char_of (48 :: nat) = CHR ''0''" "char_of (49 :: nat) = CHR ''1''"
  by (simp_all add: char_of_def bit_simps)

lemma upper_hex_digit_value:
  assumes "n < 16"
  shows "hex_value (to_lower_char (upper_hex_digit n)) = Some n" and "graphic_char (upper_hex_digit n)"
    and "upper_hex_digit n \<notin> {CHR '','', CHR ''_''}" and "\<not> line_end (upper_hex_digit n)"
proof -
  have code: "of_char (upper_hex_digit n) = (if n < 10 then 48 + n else 55 + n)"
    using assms by (simp add: upper_hex_digit_def)
  then show "hex_value (to_lower_char (upper_hex_digit n)) = Some n"
    using assms by (simp add: to_lower_char_def hex_value_def Let_def)
  show "graphic_char (upper_hex_digit n)" using assms code by (simp add: graphic_char_def)
  have other: "upper_hex_digit n \<noteq> c" if "of_char c = m" "m < 48 \<or> 70 < m" for c and m :: nat
    using code assms that by (auto split: if_splits)
  have "upper_hex_digit n \<noteq> CHR '',''" by (rule other [of _ 44]) simp_all
  moreover have "upper_hex_digit n \<noteq> CHR ''_''" by (rule other [of _ 95]) simp_all
  ultimately show "upper_hex_digit n \<notin> {CHR '','', CHR ''_''}" by simp
  have "upper_hex_digit n \<noteq> cr" by (rule other [of _ 13]) (simp_all add: cr_def)
  moreover have "upper_hex_digit n \<noteq> lf" by (rule other [of _ 10]) (simp_all add: lf_def)
  ultimately show "\<not> line_end (upper_hex_digit n)" by (simp add: line_end_def)
qed

lemma nibble: "unat (drop_bit n w AND 0xF) = unat w div 2 ^ n mod 16" for w :: "16 word"
proof -
  have width: "unat w < 65536" using unsigned_less [of w] by simp
  have "(0xF :: 16 word) = mask 4" by (simp add: mask_eq_exp_minus_1)
  then have "drop_bit n w AND 0xF = take_bit 4 (drop_bit n w)" by (simp only: take_bit_eq_mask)
  also have "unat \<dots> = take_bit 4 (drop_bit n (unat w))"
    using width by (simp only: unsigned_take_bit_eq unsigned_drop_bit_eq) (simp add: take_bit_eq_mod)
  finally show ?thesis by (simp add: drop_bit_eq_div take_bit_eq_mod)
qed

lemma hex4_digits: "hex4 w = map upper_hex_digit [unat w div 4096 mod 16, unat w div 256 mod 16, unat w div 16 mod 16, unat w mod 16]"
  by (simp add: hex4_def nibble upt_rec)

lemma four_digits:
  assumes "a < 16" and "b < 16" and "c < 16" and "d < 16"
  shows "\<not> 2 ^ 32 \<le> 0 * 16 + a \<and> \<not> 2 ^ 32 \<le> (0 * 16 + a) * 16 + b \<and> \<not> 2 ^ 32 \<le> ((0 * 16 + a) * 16 + b) * 16 + c \<and>
    \<not> 2 ^ 32 \<le> (((0 * 16 + a) * 16 + b) * 16 + c) * 16 + (d :: nat)"
  using assms by simp

lemma hex4_parse: "parse_uint32 (''0x'' @ hex4 w) = Inr (unat w)"
proof -
  let ?a = "unat w div 4096 mod 16" and ?b = "unat w div 256 mod 16" and ?c = "unat w div 16 mod 16" and ?d = "unat w mod 16"
  have digit: "x < 16 \<Longrightarrow> parse_digits 16 n (upper_hex_digit x # s) =
      (if 2 ^ 32 \<le> n * 16 + x then Inl OutOfRange else parse_digits 16 (n * 16 + x) s)" for x n s
    using upper_hex_digit_value [of x] by simp
  have bound: "unat w < 65536" using unsigned_less [of w] by simp
  then have top: "unat w div 4096 < 16" by (simp add: div_less_iff_less_mult)
  have val: "((?a * 16 + ?b) * 16 + ?c) * 16 + ?d = unat w"
  proof -
    have "unat w div 4096 mod 16 = unat w div 256 div 16" "unat w div 256 = unat w div 16 div 16"
      using top by (simp_all add: div_mult2_eq [symmetric])
    then show ?thesis by (metis div_mult_mod_eq)
  qed
  have small: "?a < 16" "?b < 16" "?c < 16" "?d < 16" by simp_all
  have fits: "\<not> 2 ^ 32 \<le> 0 * 16 + ?a" "\<not> 2 ^ 32 \<le> (0 * 16 + ?a) * 16 + ?b" "\<not> 2 ^ 32 \<le> ((0 * 16 + ?a) * 16 + ?b) * 16 + ?c"
      "\<not> 2 ^ 32 \<le> (((0 * 16 + ?a) * 16 + ?b) * 16 + ?c) * 16 + ?d"
    using four_digits [OF small] by blast+
  have "parse_digits 16 0 (map upper_hex_digit [?a, ?b, ?c, ?d]) = Inr ((((0 * 16 + ?a) * 16 + ?b) * 16 + ?c) * 16 + ?d)"
    by (simp only: list.map digit [OF small(1)] digit [OF small(2)] digit [OF small(3)] digit [OF small(4)] fits if_False
        parse_digits.simps(1))
  moreover have "base_prefix (''0x'' @ hex4 w) = (16, hex4 w)"
    by (simp add: base_prefix_def has_prefix_def hex4_digits to_lower_char_def)
  moreover have "CHR ''_'' \<notin> set (hex4 w)" 
    using upper_hex_digit_value(3) [OF small(1)] upper_hex_digit_value(3) [OF small(2)] upper_hex_digit_value(3) [OF small(3)]
      upper_hex_digit_value(3) [OF small(4)] by (simp add: hex4_digits eq_commute)
  ultimately have "parse_digits 16 0 (hex4 w) = Inr (unat w)" "base_prefix (''0x'' @ hex4 w) = (16, hex4 w)"
      "CHR ''_'' \<notin> set (hex4 w)"
    using val by (simp_all only: hex4_digits add_0 mult_0 not_False_eq_True)
  then show ?thesis by (simp add: parse_uint32_def)
qed

lemma feature_parse: "unat b \<le> 1 \<Longrightarrow> parse_uint32 (nat_to_string (unat b)) = Inr (unat b)"
proof -
  assume "unat b \<le> 1"
  then have "unat b = 0 \<or> unat b = 1" by auto
  then show ?thesis
    by (elim disjE) (simp_all add: parse_uint32_def nat_to_string.simps char_of_digits base_prefix_def has_prefix_def
        to_lower_char_def hex_value_def)
qed

text \<open>A field that a line can carry: no comma, no space, no end of line.\<close>

definition plain_field :: "string \<Rightarrow> bool" where
  "plain_field f \<longleftrightarrow> f \<noteq> [] \<and> list_all (\<lambda>c. graphic_char c \<and> c \<noteq> CHR '','') f"

lemma graphic_no_space: "graphic_char c \<Longrightarrow> \<not> pattern_space c \<and> \<not> line_end c"
  by (auto simp: graphic_char_def pattern_space_def line_end_def cr_def lf_def)

lemma split_join: "fs \<noteq> [] \<Longrightarrow> list_all (\<lambda>f. c \<notin> set f) fs \<Longrightarrow> split_char c (join_char c fs) = fs"
  by (induction c fs rule: join_char.induct) (auto simp: split_char_free split_char_sep)

lemma join_chars: "list_all (\<lambda>f. list_all P f) fs \<Longrightarrow> P c \<Longrightarrow> list_all P (join_char c fs)"
  by (induction c fs rule: join_char.induct) auto

lemma join_hd: "f \<noteq> [] \<Longrightarrow> join_char c (f # fs) \<noteq> [] \<and> hd (join_char c (f # fs)) = hd f"
  by (cases fs) auto

text \<open>How a module reports a profile: the line, its end, and what follows.\<close>

definition usbcfg_report :: "string list \<Rightarrow> string \<Rightarrow> string" where
  \<open>usbcfg_report fs rest = [cr, lf] @ ''+QCFG: "usbcfg",'' @ join_char (CHR '','') fs @ [cr] @ rest\<close>

lemma comma_in_line: "\<not> line_end (CHR '','')"
  by (auto simp: line_end_def cr_def lf_def dest!: arg_cong [where f = "of_char :: char \<Rightarrow> nat"])

lemma fold_literal_first: "fold_literal ''+QCFG:'' (cr # s) = None" "fold_literal ''+QCFG:'' (lf # s) = None"
proof -
  have "to_lower_char c \<noteq> CHR ''+''" if "of_char c = (13 :: nat) \<or> of_char c = (10 :: nat)" for c
    using that by (auto simp: to_lower_char_def Let_def)
  then show "fold_literal ''+QCFG:'' (cr # s) = None" "fold_literal ''+QCFG:'' (lf # s) = None"
    by (simp_all add: fold_literal_def has_prefix_def to_lower_def to_lower_char_def [of "CHR ''+''"] cr_def lf_def)
qed

lemma qcfg_head_report:
  "qcfg_head ''usbcfg'' (''+QCFG: '' @ [CHR 0x22] @ ''usbcfg'' @ [CHR 0x22] @ '','' @ t) = Some (takeWhile pattern_space t, dropWhile pattern_space t)"
proof -
  have "fold_literal ''+QCFG:'' (''+QCFG: '' @ u) = Some (CHR '' '' # u)" for u
    by (simp add: fold_literal_def has_prefix_def to_lower_def)
  moreover have "dropWhile pattern_space (CHR '' '' # [CHR 0x22] @ u) = [CHR 0x22] @ u" for u
    by (simp add: pattern_space_def)
  moreover have "fold_literal ([CHR 0x22] @ ''usbcfg'' @ [CHR 0x22]) ([CHR 0x22] @ ''usbcfg'' @ [CHR 0x22] @ u) = Some u" for u
    by (simp add: fold_literal_def has_prefix_def to_lower_def)
  moreover have "dropWhile pattern_space (CHR '','' # t) = CHR '','' # t" by (simp add: pattern_space_def)
  moreover have "fold_literal '','' (CHR '','' # t) = Some t" by (simp add: fold_literal_def has_prefix_def to_lower_def)
  ultimately show ?thesis by (simp add: qcfg_head_def)
qed

lemma usbcfg_report_line:
  assumes "fs \<noteq> []" and "list_all plain_field fs"
  shows "usbcfgLine (usbcfg_report fs rest) = Some (join_char (CHR '','') fs)"
proof -
  let ?line = "join_char (CHR '','') fs"
  obtain f gs where fs: "fs = f # gs" using assms(1) by (cases fs) auto
  then have f: "f \<noteq> []" "graphic_char (hd f)" using assms(2) by (auto simp: plain_field_def list_all_iff)
  then have head: "?line \<noteq> []" "\<not> pattern_space (hd ?line)"
    using join_hd [OF f(1), of "CHR '',''" gs] graphic_no_space fs by auto
  have "list_all (\<lambda>f. list_all (\<lambda>c. \<not> line_end c) f) fs"
    using assms(2) graphic_no_space by (auto simp: plain_field_def list_all_iff)
  then have "list_all (\<lambda>c. \<not> line_end c) ?line" by (rule join_chars) (rule comma_in_line)
  then have cut: "takeWhile (\<lambda>c. \<not> line_end c) (?line @ cr # rest) = ?line"
    by (subst takeWhile_append2) (auto simp: list_all_iff line_end_def)
  have space: "takeWhile pattern_space (?line @ cr # rest) = []" "dropWhile pattern_space (?line @ cr # rest) = ?line @ cr # rest"
    using head by (cases ?line; simp)+
  have "usbcfg_at (''+QCFG: '' @ [CHR 0x22] @ ''usbcfg'' @ [CHR 0x22] @ '','' @ ?line @ cr # rest) = Some ?line"
    using head(1) cut qcfg_head_report space by (simp only: usbcfg_at_def option.case prod.case) simp
  moreover have "usbcfg_at (cr # s) = None" "usbcfg_at (lf # s) = None" for s
    by (simp_all add: usbcfg_at_def qcfg_head_def fold_literal_first)
  ultimately show ?thesis by (simp add: usbcfgLine_def usbcfg_report_def)
qed

lemma flag_field: "unat b \<le> 1 \<Longrightarrow> plain_field (nat_to_string (unat b))"
proof -
  assume "unat b \<le> 1"
  then have "unat b = 0 \<or> unat b = 1" by auto
  then show ?thesis by (elim disjE) (simp_all add: plain_field_def nat_to_string.simps char_of_digits graphic_char_def)
qed

lemma hex4_field: "plain_field (''0x'' @ hex4 w)"
proof -
  have small: "n mod 16 < 16" for n :: nat by simp
  then show ?thesis
    using upper_hex_digit_value(2) [OF small] upper_hex_digit_value(3) [OF small]
    by (simp add: plain_field_def hex4_digits graphic_char_def [of "CHR ''0''"] graphic_char_def [of "CHR ''x''"])
qed

lemma plain_field_trim: "plain_field f \<Longrightarrow> trim_space f = f"
  by (rule trim_space_graphic) (auto simp: plain_field_def list_all_iff)

definition binary_flags :: "usbcfgProfile \<Rightarrow> bool" where
  "binary_flags p \<longleftrightarrow> list_all (\<lambda>b. unat b \<le> 1) [up_Diag p, up_NMEA p, up_AT p, up_Modem p, up_RMNet p, up_ADB p, up_UAC p]"

lemma profile_read_back:
  assumes "binary_flags p"
  shows "parseProfile (usbcfg_report (profile_fields p) rest) = Inr p"
proof -
  let ?fs = "profile_fields p"
  have flags: "unat (up_Diag p) \<le> 1" "unat (up_NMEA p) \<le> 1" "unat (up_AT p) \<le> 1" "unat (up_Modem p) \<le> 1" "unat (up_RMNet p) \<le> 1"
      "unat (up_ADB p) \<le> 1" "unat (up_UAC p) \<le> 1"
    using assms by (simp_all add: binary_flags_def)
  have plain: "list_all plain_field ?fs" using flags hex4_field [of "up_VID p"] hex4_field [of "up_PID p"] by (simp add: profile_fields_def flag_field)
  have nonempty: "?fs \<noteq> []" by (simp add: profile_fields_def)
  have "list_all (\<lambda>f. CHR '','' \<notin> set f) ?fs" using plain by (auto simp: plain_field_def list_all_iff)
  then have parts: "split_char (CHR '','') (join_char (CHR '','') ?fs) = ?fs" by (rule split_join [OF nonempty])
  have numbers: "parse_fields 0 ?fs = Inr (map unat [up_VID p, up_PID p] @
      map unat [up_Diag p, up_NMEA p, up_AT p, up_Modem p, up_RMNet p, up_ADB p, up_UAC p])"
    using plain hex4_parse [of "up_VID p"] hex4_parse [of "up_PID p"] flags
    by (simp add: profile_fields_def plain_field_trim feature_parse)
  have "bad_feature 2 (map unat [up_Diag p, up_NMEA p, up_AT p, up_Modem p, up_RMNet p, up_ADB p, up_UAC p]) = None"
    using flags by simp
  moreover have "length ?fs = 9" by (simp add: profile_fields_def)
  ultimately show ?thesis
    using usbcfg_report_line [OF nonempty plain, of rest] parts numbers by (simp add: parseProfile_def)
qed

text \<open>A profile with flags that are zero or one, printed as the tool prints it and reported by the module, is read back.\<close>

theorem profile_roundtrip:
  assumes "binary_flags p"
  shows "parseProfile (usbcfg_report (profile_fields p) rest) = Inr p"
  by (rule profile_read_back [OF assms])

text \<open>An identity of more than sixteen bits is cut without an error, and the cut one is what would be written back.\<close>

theorem long_identity_is_cut:
  "parseProfile (usbcfg_report [''0x12C7C'', ''0x0125'', ''1'', ''1'', ''1'', ''1'', ''1'', ''1'', ''1''] rest) =
     Inr \<lparr>up_VID = 0x2C7C, up_PID = 0x0125, up_Diag = 1, up_NMEA = 1, up_AT = 1, up_Modem = 1, up_RMNet = 1, up_ADB = 1, up_UAC = 1\<rparr>"
proof -
  let ?fs = "[''0x12C7C'', ''0x0125'', ''1'', ''1'', ''1'', ''1'', ''1'', ''1'', ''1'']"
  have plain: "list_all plain_field ?fs" by (simp add: plain_field_def graphic_char_def)
  have parts: "split_char (CHR '','') (join_char (CHR '','') ?fs) = ?fs" by (rule split_join) simp_all
  have one: "parse_uint32 ''1'' = Inr 1" "parse_uint32 ''0x12C7C'' = Inr 0x12C7C" "parse_uint32 ''0x0125'' = Inr 0x125"
    by (simp_all add: parse_uint32_def base_prefix_def has_prefix_def to_lower_char_def hex_value_def)
  have "parse_fields 0 ?fs = Inr [0x12C7C, 0x125, 1, 1, 1, 1, 1, 1, 1]"
    using plain by (simp add: plain_field_trim one)
  then show ?thesis
    using usbcfg_report_line [OF _ plain, of rest] parts by (simp add: parseProfile_def)
qed

theorem profile_roundtrip_witness:
  "parseProfile (usbcfg_report (profile_fields \<lparr>up_VID = 0x2C7C, up_PID = 0x125, up_Diag = 1, up_NMEA = 1, up_AT = 1, up_Modem = 1,
       up_RMNet = 1, up_ADB = 0, up_UAC = 1\<rparr>) ''OK'') =
     Inr \<lparr>up_VID = 0x2C7C, up_PID = 0x125, up_Diag = 1, up_NMEA = 1, up_AT = 1, up_Modem = 1, up_RMNet = 1, up_ADB = 0, up_UAC = 1\<rparr>"
  by (rule profile_roundtrip) (simp add: binary_flags_def)

section \<open>A run that only reads restarts the module\<close>

lemma command_replied:
  assumes "ua_reads s = UsbTimeout # UsbBytes (string_bytes answer) # rest" and "ua_clock s = False # clock" and "ua_writes s = []"
    and "length answer \<le> 4096" and "responseComplete answer"
  shows "\<exists>s'. sendCommand c command s = ((answer, None), s') \<and> ua_reads s' = rest \<and> ua_clock s' = clock \<and> ua_writes s' = []"
proof -
  have "at_drain s = (None, s\<lparr>ua_reads := UsbBytes (string_bytes answer) # rest\<rparr>)"
    using assms(1) by (simp add: at_drain_def numeral_eq_Suc at_bulkRead_def)
  then show ?thesis
    using assms(2-5)
    by (simp add: sendCommand_def at_bulkWrite_def Let_def response_loop.simps at_expired_def at_bulkRead_def)
qed

definition reading_bus :: at_bus where
  "reading_bus = \<lparr>ab_init = None, ab_open = (\<lambda>_. True), ab_device = True,
     ab_config = Inr [[\<lparr>as_Number = 2, as_Class = 0xff, as_SubClass = 0, as_Protocol = 0,
       as_Endpoints = [\<lparr>ep_Attributes = 2, ep_Address = 0x81\<rparr>, \<lparr>ep_Attributes = 2, ep_Address = 1\<rparr>]\<rparr>]],
     ab_claim = (\<lambda>_. None)\<rparr>"

definition quiet_profile :: usbcfgProfile where
  "quiet_profile = \<lparr>up_VID = 0x2C7C, up_PID = 0x125, up_Diag = 1, up_NMEA = 1, up_AT = 1, up_Modem = 1, up_RMNet = 1, up_ADB = 1, up_UAC = 0\<rparr>"

definition ok_answer :: string where "ok_answer = lf # ''OK''"
definition usbnet_answer :: string where \<open>usbnet_answer = ''+QCFG: "usbnet",1'' @ lf # ''OK''\<close>
definition usbcfg_answer :: string where "usbcfg_answer = usbcfg_report (profile_fields quiet_profile) (lf # ''OK'')"

definition quiet_module :: usb_at where
  "quiet_module = \<lparr>ua_reads = concat (map (\<lambda>a. [UsbTimeout, UsbBytes (string_bytes a)]) [ok_answer, usbnet_answer, usbcfg_answer, ok_answer]),
     ua_writes = [], ua_clock = [False, False, False, False], ua_log = []\<rparr>"

lemma str_contains_append: "str_contains (s @ p @ t) p"
proof (induction s)
  case Nil
  have "has_prefix (p @ t) p" by (simp add: has_prefix_def)
  then show ?case by (cases "p @ t") (simp_all add: str_contains_def has_prefix_def)
next
  case (Cons c s)
  then show ?case by (auto simp: str_contains_def)
qed

lemma lf_upper: "to_upper_char lf = lf"
  by (simp add: to_upper_char_def lf_def)

lemma complete_with_ok: "responseComplete (s @ lf # ''OK'')"
proof -
  have "to_upper (s @ lf # ''OK'') = to_upper s @ (lf # ''OK'') @ []"
    by (simp add: to_upper_def lf_upper to_upper_char_def [of "CHR ''O''"] to_upper_char_def [of "CHR ''K''"])
  then show ?thesis using str_contains_append [of "to_upper s" "lf # ''OK''" "[]"] by (simp add: responseComplete_def Let_def)
qed

lemma answers_complete: "responseComplete ok_answer" "responseComplete usbnet_answer" "responseComplete usbcfg_answer"
proof -
  show "responseComplete ok_answer" using complete_with_ok [of "[]"] by (simp add: ok_answer_def)
  show "responseComplete usbnet_answer" unfolding usbnet_answer_def by (rule complete_with_ok)
  show "responseComplete usbcfg_answer"
    using complete_with_ok [of "[cr, lf] @ ''+QCFG: '' @ [CHR 0x22] @ ''usbcfg'' @ [CHR 0x22] @ '','' @ join_char (CHR '','') (profile_fields quiet_profile) @ [cr]"]
    by (simp add: usbcfg_answer_def usbcfg_report_def)
qed

lemma ok_is_success: "looksLikeATSuccess ok_answer"
  by (simp add: looksLikeATSuccess_def ok_answer_def to_upper_def lf_upper to_upper_char_def [of "CHR ''O''"]
      to_upper_char_def [of "CHR ''K''"] str_contains_def has_prefix_def)

lemma usbnet_is_one: "parseUSBNet usbnet_answer = Inr 1"
proof -
  have "usbnet_at usbnet_answer = Some ''1''"
    by (simp add: usbnet_at_def usbnet_answer_def qcfg_head_def fold_literal_def has_prefix_def to_lower_def to_lower_char_def
        pattern_space_def is_digit_def lf_def)
  moreover have "usbnet_answer = CHR ''+'' # tl usbnet_answer" by (simp add: usbnet_answer_def)
  ultimately have "usbnetLine usbnet_answer = Some ''1''" unfolding usbnetLine_def by (metis first_match.simps(2) option.case(2))
  then show ?thesis
    by (simp add: parseUSBNet_def atoi_def parse_unsigned_def is_digit_def digits_val_def digit_val_def in_int64_def)
qed

lemma answers_short: "length ok_answer \<le> 4096" "length usbnet_answer \<le> 4096" "length usbcfg_answer \<le> 4096"
  by (simp_all add: ok_answer_def usbnet_answer_def usbcfg_answer_def usbcfg_report_def profile_fields_def quiet_profile_def hex4_def
      nat_to_string.simps)

text \<open>Without \<^verbatim>\<open>--apply\<close> the evidence says that the run only reads. With \<^verbatim>\<open>--reboot\<close> it restarts a module whose feature
  is off all the same.\<close>

theorem read_only_run_restarts:
  "pe_ReadOnly (fst (run_profile reading_bus False True quiet_module)) \<and>
   pe_RebootSent (fst (run_profile reading_bus False True quiet_module))"
proof -
  define c where "c = \<lparr>rc_iface = 2, rc_class = 0xff, rc_subclass = 0, rc_protocol = 0, rc_in = 0x81, rc_out = 1\<rparr>"
  have found: "discoverCandidates reading_bus = Inr [c]"
    by (simp add: discoverCandidates_def reading_bus_def candidates_of_def bulk_endpoints_def c_def)
  have start: "ua_reads quiet_module = UsbTimeout # UsbBytes (string_bytes ok_answer) # UsbTimeout # UsbBytes (string_bytes usbnet_answer) #
      UsbTimeout # UsbBytes (string_bytes usbcfg_answer) # UsbTimeout # UsbBytes (string_bytes ok_answer) # []"
    "ua_clock quiet_module = [False, False, False, False]" "ua_writes quiet_module = []"
    by (simp_all add: quiet_module_def)
  obtain s1 where s1: "sendCommand c ''AT'' quiet_module = ((ok_answer, None), s1)" and r1: "ua_reads s1 = UsbTimeout #
      UsbBytes (string_bytes usbnet_answer) # UsbTimeout # UsbBytes (string_bytes usbcfg_answer) # UsbTimeout # UsbBytes (string_bytes ok_answer) # []"
      "ua_clock s1 = [False, False, False]" "ua_writes s1 = []"
    using command_replied [OF start answers_short(1) answers_complete(1)] by blast
  obtain s2 where s2: "sendCommand c usbnet_question s1 = ((usbnet_answer, None), s2)" and r2: "ua_reads s2 = UsbTimeout #
      UsbBytes (string_bytes usbcfg_answer) # UsbTimeout # UsbBytes (string_bytes ok_answer) # []"
      "ua_clock s2 = [False, False]" "ua_writes s2 = []"
    using command_replied [OF r1 answers_short(2) answers_complete(2)] by blast
  obtain s3 where s3: "sendCommand c usbcfg_question s2 = ((usbcfg_answer, None), s3)" and
      r3: "ua_reads s3 = UsbTimeout # UsbBytes (string_bytes ok_answer) # []" "ua_clock s3 = [False]" "ua_writes s3 = []"
    using command_replied [OF r2 answers_short(3) answers_complete(3)] by blast
  obtain s4 where s4: "sendCommand c reboot_command s3 = ((ok_answer, None), s4)"
    using command_replied [OF r3 answers_short(1) answers_complete(1)] by blast
  have profile: "parseProfile usbcfg_answer = Inr quiet_profile" "up_UAC quiet_profile = 0"
    using profile_read_back [of quiet_profile] by (simp_all add: usbcfg_answer_def quiet_profile_def binary_flags_def)
  have claimed: "ab_claim reading_bus n = None" "ab_init reading_bus = None" "List.find (ab_open reading_bus) knownIDs = Some (0x2c7c, 0x0125)" for n
    by (simp_all add: reading_bus_def knownIDs_def)
  show ?thesis
    using s1 s2 s3 s4
    by (simp add: run_profile_def Let_def found claimed ok_is_success with_interface_def usbnet_is_one profile with_profile_def
        send_reboot_def pe_entry_def)
qed

end
