(* ===== verification/Gateway_Admin.thy ===== *)
theory Gateway_Admin
  imports Gateway_Config Gateway_Db
begin

text \<open>
  The operator's tool, \<^verbatim>\<open>gateway/cmd/cellbridge-admin/main.go\<close>: the security probe, the revocation of a device, the
  test of a relay, and what of a configuration the tool lets out. The commands it runs, the relay library and the
  opening of the database are parameters. The parsing of flags is left out: the operations take their values.
\<close>

section \<open>Listening sockets\<close>

definition lines_of :: "string \<Rightarrow> string list" where
  "lines_of output = split_char newline output"

definition isLoopbackBind :: "string \<Rightarrow> bool" where
  "isLoopbackBind address =
     (case split_host address of
        None \<Rightarrow> False
      | Some host \<Rightarrow> (case ParseIP host of None \<Rightarrow> False | Some ip \<Rightarrow> IsLoopback ip))"

definition hasNonLoopbackListener :: "string \<Rightarrow> string \<Rightarrow> bool" where
  "hasNonLoopbackListener output port =
     list_ex (\<lambda>line. str_contains line ('':'' @ port) \<and>
                    \<not> (str_contains line (''127.0.0.1:'' @ port) \<or> str_contains line (''[::1]:'' @ port)))
       (lines_of output)"

definition hasNonTailnetListener :: "string \<Rightarrow> string \<Rightarrow> bool" where
  "hasNonTailnetListener output port =
     list_ex (\<lambda>line. str_contains line ('':'' @ port) \<and> \<not> (str_contains line ''100.'' \<or> str_contains line ''fd7a:''))
       (lines_of output)"

definition hasTailnetListener :: "string \<Rightarrow> string \<Rightarrow> bool" where
  "hasTailnetListener output port =
     list_ex (\<lambda>line. str_contains line ('':'' @ port) \<and> (str_contains line ''100.'' \<or> str_contains line ''fd7a:''))
       (lines_of output)"

definition funnelIsEnabled :: "string \<Rightarrow> bool" where
  "funnelIsEnabled output =
     (let lower = to_lower output
      in str_contains lower ''(funnel'' \<or> str_contains lower ''funnel on'' \<or> str_contains lower ''public'')"

section \<open>The security probe\<close>

text \<open>\<^verbatim>\<open>commandOutput\<close>: the error of a command, if it fails, and its output. \<open>run\<close> gives both, \<open>look_path\<close> finds a
  program.\<close>

type_synonym command_runner = "string \<Rightarrow> string list \<Rightarrow> string option \<times> string"

definition commandOutput :: "command_runner \<Rightarrow> string \<Rightarrow> string list \<Rightarrow> string \<times> string option" where
  "commandOutput run name args = (case run name args of (failed, output) \<Rightarrow> (output, failed))"

definition with_quotes :: "string \<Rightarrow> string" where
  "with_quotes s = map (\<lambda>c. if c = CHR ''~'' then CHR 0x22 else c) s"

definition security_checks ::
  "Config \<Rightarrow> string \<Rightarrow> string \<times> string option \<Rightarrow> string \<times> string option \<Rightarrow> string \<times> string option \<Rightarrow> (string \<times> bool) list" where
  "security_checks settings sockets serve funnel status =
     [(''Network Mode: TAILNET ONLY'', cf_Network_Mode settings = ''tailnet'' \<and> \<not> cf_Network_PublicFallback settings),
      (''Gateway Public Exposure: NONE'', \<not> hasNonLoopbackListener sockets ''8787''),
      (''ADB Public Exposure: NONE'', \<not> hasNonLoopbackListener sockets ''5037''),
      (''TURN Public Exposure: NONE'', \<not> hasNonTailnetListener sockets ''3478''),
      (''Funnel: DISABLED'', snd funnel = None \<and> \<not> funnelIsEnabled (fst funnel)),
      (''Gateway Loopback Bind: PASS'', isLoopbackBind (cf_Server_Listen settings)),
      (''Tailscale Authenticated: PASS'',
       snd status = None \<and> str_contains (fst status) (with_quotes ''~BackendState~: ~Running~'')),
      (''Serve HTTPS Tailnet-only: PASS'',
       snd serve = None \<and> str_contains (to_lower (fst serve)) ''tailnet only'' \<and> str_contains (fst serve) ''127.0.0.1:8787'')] @
     (if cf_TURN_Enabled settings then [(''Private TURN Bind: PASS'', hasTailnetListener sockets ''3478'')]
      else [(''Private TURN Bind: NOT_CONFIGURED'', True)])"

definition check_line :: "string \<times> bool \<Rightarrow> string" where
  "check_line check = (case check of (name, ok) \<Rightarrow> name @ '' ['' @ (if ok then ''PASS'' else ''FAIL'') @ '']'' @ [newline])"

text \<open>\<^verbatim>\<open>securityProbe\<close>: what it prints, and its error. \<open>loaded\<close> is the configuration as it was read.\<close>

definition securityProbe ::
  "command_runner \<Rightarrow> (string \<Rightarrow> (string, string) result) \<Rightarrow> (string, Config) result \<Rightarrow> string list \<times> string option" where
  "securityProbe run look_path loaded =
     (case loaded of
        Inl e \<Rightarrow> ([], Some e)
      | Inr settings \<Rightarrow>
          (case commandOutput run ''ss'' [''-lntup''] of
             (_, Some e) \<Rightarrow> ([], Some (''read listening sockets: '' @ e))
           | (sockets, None) \<Rightarrow>
               (case look_path ''tailscale'' of
                  Inl e \<Rightarrow> ([], Some (''tailscale is required: '' @ e))
                | Inr tailscale \<Rightarrow>
                    let serve = commandOutput run tailscale [''serve'', ''status''];
                        funnel = commandOutput run tailscale [''funnel'', ''status''];
                        status = commandOutput run tailscale [''status'', ''--json''];
                        checks = security_checks settings sockets serve funnel status
                    in (map check_line checks, if list_all snd checks then None else Some ''security probe failed''))))"

text \<open>A probe without an error has found a private configuration, and no socket outside the loopback interface for the
  gateway or for ADB.\<close>

lemma probe_None:
  assumes "snd (securityProbe run look_path loaded) = None"
  shows "\<exists>c sockets. loaded = Inr c \<and> run ''ss'' [''-lntup''] = (None, sockets) \<and>
    cf_Network_Mode c = ''tailnet'' \<and> \<not> cf_Network_PublicFallback c \<and> isLoopbackBind (cf_Server_Listen c) \<and>
    \<not> hasNonLoopbackListener sockets ''8787'' \<and> \<not> hasNonLoopbackListener sockets ''5037'' \<and>
    \<not> hasNonTailnetListener sockets ''3478''"
  using assms
  by (auto simp: securityProbe_def commandOutput_def security_checks_def Let_def split: sum.splits prod.splits option.splits if_splits)

text \<open>When the probe passes, every line of the socket list that names the port of the gateway also names it with a
  loopback address.\<close>

theorem probe_finds_public_gateway:
  assumes "snd (securityProbe run look_path loaded) = None"
    and "run ''ss'' [''-lntup''] = (None, sockets)" and "line \<in> set (lines_of sockets)" and "str_contains line '':8787''"
  shows "str_contains line ''127.0.0.1:8787'' \<or> str_contains line ''[::1]:8787''"
  using probe_None [OF assms(1)] assms(2-4) by (auto simp: hasNonLoopbackListener_def list_ex_iff)

section \<open>A relay with a public address\<close>

lemma str_contains_here: "has_prefix t p \<Longrightarrow> str_contains t p"
  by (cases t) (simp_all add: str_contains_def has_prefix_def)

lemma str_contains_behind: "str_contains t p \<Longrightarrow> str_contains (s @ t) p"
  by (induction s) (auto simp: str_contains_def)

lemma str_contains_within: "str_contains (s @ p @ t) p"
  by (intro str_contains_behind str_contains_here) (simp add: has_prefix_def)

definition relay_line :: "nat \<Rightarrow> nat \<Rightarrow> nat \<Rightarrow> nat \<Rightarrow> string" where
  "relay_line a b c d = ''udp UNCONN 0 0 '' @ dotted a b c d @ '':3478 0.0.0.0:*''"

lemma newline_free:
  "newline \<notin> set (''udp UNCONN 0 0 '' @ ''.'' @ '':3478 0.0.0.0:*'')" "\<not> is_digit newline" "newline \<noteq> CHR ''.''"
  by code_simp+

lemma relay_line_one: "lines_of (relay_line a b c d) = [relay_line a b c d]"
proof -
  have "newline \<notin> set (dotted a b c d)" using dotted_chars [of newline a b c d] newline_free(2,3) by blast
  with newline_free(1) have "newline \<notin> set (relay_line a b c d)"
    unfolding relay_line_def set_append by blast
  then show ?thesis unfolding lines_of_def by (rule split_char_free)
qed

text \<open>The check of the relay looks for the text \<^verbatim>\<open>100.\<close> anywhere in the line: a relay that listens on a public
  address with the third number 100 passes it.\<close>

theorem public_relay_passes_check:
  assumes "a < 256" "b < 256" "d < 256" "a \<notin> {10, 100, 172, 192}"
  shows "\<not> isTailnetAddress (dotted a b 100 d @ '':3478'') \<and> \<not> hasNonTailnetListener (relay_line a b 100 d) ''3478''"
proof -
  have "list_all is_digit ''3478''" by code_simp
  from v4_address_checks [OF assms(1,2) _ assms(3) this, of 100]
  have "\<not> isTailnetAddress (dotted a b 100 d @ '':3478'')" using assms(4) by (simp add: private_v4_def)
  moreover have "nat_to_string 100 = ''100''" by code_simp
  then have "relay_line a b 100 d = (''udp UNCONN 0 0 '' @ nat_to_string a @ ''.'' @ nat_to_string b @ ''.'') @ ''100.'' @
    nat_to_string d @ '':3478 0.0.0.0:*''"
    unfolding relay_line_def dotted_def by simp
  then have "str_contains (relay_line a b 100 d) ''100.''" by (simp only: str_contains_within)
  ultimately show ?thesis by (simp add: hasNonTailnetListener_def relay_line_one)
qed

theorem public_relay_passes_check_witness:
  "\<not> isTailnetAddress (dotted 203 0 100 7 @ '':3478'') \<and> \<not> hasNonTailnetListener (relay_line 203 0 100 7) ''3478''"
  by (rule public_relay_passes_check) simp_all

section \<open>Revoking a device\<close>

text \<open>\<^verbatim>\<open>revokeDevice\<close>: \<open>opened\<close> is the database as opening and upgrading it left it. With the state the text it prints.\<close>

definition revokeDevice ::
  "timestamp \<Rightarrow> string \<Rightarrow> bool \<Rightarrow> (string, db_state) result \<Rightarrow> (string, string \<times> db_state) result" where
  "revokeDevice now deviceID confirmed opened =
     (if trim_space deviceID = [] \<or> \<not> confirmed then Inl ''device-revoke requires --device-id and --confirm-revoke''
      else (case opened of
              Inl e \<Rightarrow> Inl e
            | Inr database \<Rightarrow>
                (case RevokeDevice now (trim_space deviceID) database of
                   (Inl _, _) \<Rightarrow> Inl ''revoke device''
                 | (Inr _, database') \<Rightarrow>
                     Inr (with_quotes ''{~status~:~ok~,~deviceId~:'' @ json_string (trim_space deviceID) @ with_quotes '',~revoked~:true}'',
                       database'))))"

section \<open>Testing a relay\<close>

datatype Gathered = RelayCandidate | OtherCandidate | NoMoreCandidates

text \<open>\<^verbatim>\<open>turnTest\<close>: \<open>parse\<close> reads the address of the server, \<open>agent\<close> is the error of setting the agent up, and
  \<open>gathered\<close> what it reports before the deadline.\<close>

definition turnTest ::
  "(string \<Rightarrow> (string, string) result) \<Rightarrow> (string \<Rightarrow> string \<Rightarrow> string \<Rightarrow> string option) \<Rightarrow> Gathered list \<Rightarrow>
   string \<Rightarrow> string \<Rightarrow> string \<Rightarrow> (string, string) result" where
  "turnTest parse agent gathered server username credential =
     (if server = [] \<or> username = [] \<or> credential = []
      then Inl ''turn-test requires --server, --username, and --credential''
      else (case parse server of
              Inl e \<Rightarrow> Inl (''parse TURN URI: '' @ e)
            | Inr scheme \<Rightarrow>
                if scheme \<noteq> ''turn'' \<and> scheme \<noteq> ''turns'' then Inl ''--server must use turn: or turns:''
                else (case agent server username credential of
                        Some e \<Rightarrow> Inl e
                      | None \<Rightarrow>
                          if NoMoreCandidates \<notin> set gathered then Inl ''TURN candidate gathering timed out''
                          else if RelayCandidate \<notin> set (takeWhile (\<lambda>g. g \<noteq> NoMoreCandidates) gathered)
                          then Inl ''TURN responded but no relay candidate was gathered''
                          else Inr (with_quotes ''{~status~:~ok~,~relayCandidate~:true}''))))"

section \<open>What of a configuration is let out\<close>

definition safeConfig :: "Config \<Rightarrow> json" where
  "safeConfig c = JObject
     [(''network'', JObject [(''mode'', JString (cf_Network_Mode c)), (''tailnet_hostname'', JString (cf_Network_TailnetHostname c)),
        (''public_fallback'', JBool (cf_Network_PublicFallback c))]),
      (''server'', JObject [(''listen'', JString (cf_Server_Listen c)), (''public_base_url'', JString (cf_Server_PublicBaseURL c))]),
      (''data'', JObject [(''dir'', JString (cf_Data_Dir c))]),
      (''modem'', JObject [(''adapter'', JString (cf_Modem_Adapter c)), (''tty'', JString (cf_Modem_TTY c)),
        (''baud'', JInt (cf_Modem_Baud c)), (''allow_usb_identity_changes'', JBool (cf_Modem_AllowUSBIdentityChanges c))]),
      (''voice'', JObject [(''enabled'', JBool (cf_Voice_Enabled c)), (''backend'', JString (cf_Voice_Backend c)),
        (''codec'', JString (cf_Voice_Codec c)), (''sample_rate'', JInt (cf_Voice_SampleRate c)),
        (''rx_path'', JString (cf_Voice_RXPath c)), (''tx_path'', JString (cf_Voice_TXPath c)),
        (''runtime_dir'', JString (cf_Voice_RuntimeDir c)), (''bootstrap'', JBool (cf_Voice_Bootstrap c))]),
      (''webrtc'', JObject [(''remote_ice_policy'', JString (cf_WebRTC_RemoteICEPolicy c)),
        (''local_ice_policy'', JString (cf_WebRTC_LocalICEPolicy c)),
        (''media_network_policy'', JString (cf_WebRTC_MediaNetworkPolicy c)),
        (''turn_credential_ttl'', JString (cf_WebRTC_TurnCredentialTTL c)),
        (''private_turn'', JObject [(''enabled'', JBool (cf_TURN_Enabled c)), (''host'', JString (cf_TURN_Host c)),
           (''port'', JInt (cf_TURN_Port c)), (''bind_ip'', JString (cf_TURN_BindIP c))])]),
      (''push'', JObject [(''mode'', JString (cf_Push_Mode c)), (''broker_url'', JString (cf_Push_BrokerURL c))]),
      (''recording'', JObject [(''enabled'', JBool (cf_Recording_Enabled c)), (''retention_days'', JInt (cf_Recording_RetentionDays c)),
        (''minimum_free_bytes'', JInt (cf_Recording_MinimumFreeBytes c)), (''auto_mode'', JString (cf_Recording_AutoMode c))]),
      (''security'', JObject [(''pairing_local_only'', JBool (cf_Security_PairingLocalOnly c)),
        (''admin_local_only'', JBool (cf_Security_AdminLocalOnly c)), (''redact_logs'', JBool (cf_Security_RedactLogs c))])]"

text \<open>The accounts of the SIP server and its push token are no part of it.\<close>

lemma safeConfig_no_secrets: "safeConfig (c\<lparr>cf_SIP_PushToken := t, cf_SIP_Users := us\<rparr>) = safeConfig c"
  by (simp add: safeConfig_def)

section \<open>The command line\<close>

datatype AdminCommand = SecurityProbe "string list" | DiagnosticsExport "string list" | Backup "string list"
  | Restore "string list" | DeviceRevoke "string list" | TurnTest "string list" | ShowUsage

text \<open>\<^verbatim>\<open>main\<close>: which operation the arguments, without the name of the program, choose.\<close>

definition admin_command :: "string list \<Rightarrow> AdminCommand" where
  "admin_command args =
     (case args of
        [] \<Rightarrow> ShowUsage
      | a # rest \<Rightarrow>
          if a = ''security-probe'' then SecurityProbe rest
          else if a = ''diagnostics'' \<and> rest \<noteq> [] \<and> hd rest = ''export'' then DiagnosticsExport (tl rest)
          else if a = ''backup'' then Backup rest
          else if a = ''restore'' then Restore rest
          else if a = ''device-revoke'' then DeviceRevoke rest
          else if a = ''turn-test'' then TurnTest rest
          else ShowUsage)"

definition admin_exit :: "AdminCommand \<Rightarrow> string option \<Rightarrow> nat" where
  "admin_exit command failed = (if command = ShowUsage then 2 else if failed \<noteq> None then 1 else 0)"

end
