(* ===== verification/Admin_Backup.thy ===== *)
theory Admin_Backup
  imports Gateway_Admin Host_Commands "HOL-Library.List_Lexorder" "HOL-Library.Char_ord"
begin

text \<open>
  Backups of a gateway, from \<^verbatim>\<open>gateway/cmd/cellbridge-admin/main.go\<close>: copying a tree of files, packing a directory
  into an archive, and the operations \<^verbatim>\<open>backup\<close>, \<^verbatim>\<open>restore\<close> and \<^verbatim>\<open>diagnostics\<close>. The files of the host are a map
  from cleaned paths; an archive is the list of its entries. Every call of the operating system takes the next entry of
  a fault list: it may fail, having done part of its work, or find that a file has vanished. SQLite (opening the
  database and \<^verbatim>\<open>VACUUM INTO\<close>), YAML and the names of temporary directories are parameters; permissions are left out.
\<close>

section \<open>Files\<close>

text \<open>\<open>Broken\<close> is a file of which no archive reader makes anything.\<close>

datatype file_node = Folder | Content "byte list" | Archive "(string \<times> bool \<times> file_node) list" | Broken

datatype admin_error = NotThere | OsFailed | Refused string

datatype admin_fault = Vanished | FailsAfter nat

record AdminHost =
  ah_Files :: "(string \<times> file_node) list"
  ah_Faults :: "admin_fault option list"

type_synonym 'a admin_op = "AdminHost \<Rightarrow> (admin_error, 'a) result \<times> AdminHost"

definition next_fault :: "AdminHost \<Rightarrow> admin_fault option \<times> AdminHost" where
  "next_fault h = (case ah_Faults h of [] \<Rightarrow> (None, h) | f # fs \<Rightarrow> (f, h\<lparr>ah_Faults := fs\<rparr>))"

definition fault_error :: "admin_fault \<Rightarrow> admin_error" where
  "fault_error f = (case f of Vanished \<Rightarrow> NotThere | FailsAfter _ \<Rightarrow> OsFailed)"

text \<open>A call that does all of \<open>f\<close> or nothing.\<close>

definition admin_call :: "((string \<times> file_node) list \<Rightarrow> (string \<times> file_node) list option) \<Rightarrow> unit admin_op" where
  "admin_call f h =
     (case next_fault h of
        (Some e, h') \<Rightarrow> (Inl (fault_error e), h')
      | (None, h') \<Rightarrow> (case f (ah_Files h') of None \<Rightarrow> (Inl OsFailed, h') | Some fs \<Rightarrow> (Inr (), h'\<lparr>ah_Files := fs\<rparr>)))"

text \<open>\<^verbatim>\<open>os.Stat\<close>, and the opening of a file: what is there.\<close>

definition host_stat :: "string \<Rightarrow> file_node admin_op" where
  "host_stat path h =
     (case next_fault h of
        (Some e, h') \<Rightarrow> (Inl (fault_error e), h')
      | (None, h') \<Rightarrow> (case map_of (ah_Files h') path of None \<Rightarrow> (Inl NotThere, h') | Some n \<Rightarrow> (Inr n, h')))"

definition admin_fileExists :: "string \<Rightarrow> AdminHost \<Rightarrow> bool \<times> AdminHost" where
  "admin_fileExists path h = (case host_stat path h of (r, h') \<Rightarrow> (\<not> isl r, h'))"

text \<open>\<^verbatim>\<open>filepath.Dir\<close>, and the folders that lead to a path, itself the last.\<close>

definition path_dir :: "string \<Rightarrow> string" where
  "path_dir s = (case last_index_char s (CHR ''/'') of None \<Rightarrow> ''.'' | Some i \<Rightarrow> path_clean (take (i + 1) s))"

definition folders_of :: "string \<Rightarrow> string list" where
  "folders_of path = map (\<lambda>i. take i path) (filter (\<lambda>i. i = length path \<or> path ! i = CHR ''/'') [1..<length path + 1])"

definition add_folder :: "string \<Rightarrow> (string \<times> file_node) list \<Rightarrow> (string \<times> file_node) list" where
  "add_folder p ns = (if map_of ns p = None then map_put p Folder ns else ns)"

text \<open>\<^verbatim>\<open>os.MkdirAll\<close>, the opening of a file to write with \<^verbatim>\<open>O_CREATE|O_TRUNC\<close>, and \<^verbatim>\<open>os.Rename\<close>.\<close>

definition make_folders :: "string \<Rightarrow> (string \<times> file_node) list \<Rightarrow> (string \<times> file_node) list option" where
  "make_folders path ns =
     (if list_ex (\<lambda>p. map_of ns p \<notin> {None, Some Folder}) (folders_of path) then None
      else Some (fold add_folder (folders_of path) ns))"

definition create_file :: "string \<Rightarrow> (string \<times> file_node) list \<Rightarrow> (string \<times> file_node) list option" where
  "create_file path ns =
     (if map_of ns path = Some Folder then None
      else if path_dir path \<in> {''.'', ''/''} \<or> map_of ns (path_dir path) = Some Folder
      then Some (map_put path (Content []) ns) else None)"

definition inside :: "string \<Rightarrow> string \<Rightarrow> bool" where
  "inside dir p = has_prefix p (dir @ ''/'')"

definition rename_node :: "string \<Rightarrow> string \<Rightarrow> (string \<times> file_node) list \<Rightarrow> (string \<times> file_node) list option" where
  "rename_node a b ns =
     (let moved = map (\<lambda>(p, n). if p = a \<or> inside a p then (b @ drop (length a) p, n) else (p, n))
      in case (map_of ns a, map_of ns b) of
           (None, _) \<Rightarrow> None
         | (Some _, None) \<Rightarrow> Some (moved ns)
         | (Some n, Some m) \<Rightarrow>
             if (n = Folder) = (m = Folder) \<and> \<not> (m = Folder \<and> list_ex (\<lambda>(p, _). inside b p) ns)
             then Some (moved (map_del b ns)) else None)"

definition remove_all :: "string \<Rightarrow> (string \<times> file_node) list \<Rightarrow> (string \<times> file_node) list" where
  "remove_all dir ns = filter (\<lambda>(p, _). \<not> (p = dir \<or> inside dir p)) ns"

text \<open>\<^verbatim>\<open>io.Copy\<close> of a node into an open file: a failure leaves what had been written, a folder cannot be read.\<close>

fun cut :: "nat \<Rightarrow> file_node \<Rightarrow> file_node" where
  "cut k (Content bs) = Content (take k bs)"
| "cut k Folder = Content []"
| "cut k (Archive es) = Broken"
| "cut k Broken = Broken"

definition put_node :: "string \<Rightarrow> file_node \<Rightarrow> AdminHost \<Rightarrow> AdminHost" where
  "put_node path n h = h\<lparr>ah_Files := map_put path n (ah_Files h)\<rparr>"

definition copy_data :: "file_node \<Rightarrow> string \<Rightarrow> unit admin_op" where
  "copy_data n path h =
     (case next_fault h of
        (Some (FailsAfter k), h') \<Rightarrow> (Inl OsFailed, put_node path (cut k n) h')
      | (Some Vanished, h') \<Rightarrow> (Inl OsFailed, put_node path (cut 0 n) h')
      | (None, h') \<Rightarrow> if n = Folder then (Inl OsFailed, h') else (Inr (), put_node path n h'))"

text \<open>The close of a file, or another call without an effect of its own.\<close>

definition plain_call :: "unit admin_op" where
  "plain_call = admin_call Some"

definition writeFile :: "string \<Rightarrow> byte list \<Rightarrow> unit admin_op" where
  "writeFile path bs h = and_then (admin_call (create_file path) h) (\<lambda>_. copy_data (Content bs) path)"

section \<open>Copying\<close>

definition copyFile :: "string \<Rightarrow> string \<Rightarrow> unit admin_op" where
  "copyFile source destination h =
     and_then (host_stat source h) (\<lambda>node h.
     and_then (admin_call (make_folders (path_dir destination)) h) (\<lambda>_ h.
     and_then (admin_call (create_file destination) h) (\<lambda>_ h.
     and_then (copy_data node destination h) (\<lambda>_. plain_call))))"

text \<open>\<^verbatim>\<open>filepath.Walk\<close> goes through a directory in the lexical order of the names.\<close>

definition walk_list :: "string \<Rightarrow> (string \<times> file_node) list \<Rightarrow> (string \<times> file_node) list" where
  "walk_list source ns =
     sort_key (\<lambda>(p, _). split_char (CHR ''/'') p) (filter (\<lambda>(p, _). p = source \<or> inside source p) ns)"

text \<open>\<^verbatim>\<open>filepath.Rel\<close> of a path the walk has found.\<close>

definition path_rel :: "string \<Rightarrow> string \<Rightarrow> string" where
  "path_rel source p = (if p = source then ''.'' else drop (length source + 1) p)"

fun copy_nodes :: "string \<Rightarrow> string \<Rightarrow> (string \<times> file_node) list \<Rightarrow> unit admin_op" where
  "copy_nodes source destination [] h = (Inr (), h)"
| "copy_nodes source destination ((p, n) # rest) h =
     and_then (plain_call h) (\<lambda>_ h.
       let target = path_below [destination, path_rel source p]
       in and_then (if n = Folder then admin_call (make_folders target) h else copyFile p target h)
            (\<lambda>_. copy_nodes source destination rest))"

definition copyTree :: "string \<Rightarrow> string \<Rightarrow> unit admin_op" where
  "copyTree source destination h =
     (if map_of (ah_Files h) source = None then (Inl NotThere, h)
      else copy_nodes source destination (walk_list source (ah_Files h)) h)"

section \<open>Packing a directory\<close>

text \<open>The walk of \<^verbatim>\<open>zipDirectory\<close>: its error, and the entries it has written. An entry is created before its file is
  opened.\<close>

fun zip_nodes :: "string \<Rightarrow> (string \<times> file_node) list \<Rightarrow> (string \<times> bool \<times> file_node) list \<Rightarrow> AdminHost \<Rightarrow>
    (admin_error option \<times> (string \<times> bool \<times> file_node) list) \<times> AdminHost" where
  "zip_nodes source [] es h = ((None, es), h)"
| "zip_nodes source ((p, n) # rest) es h =
     (case next_fault h of
        (Some e, h) \<Rightarrow> ((Some (fault_error e), es), h)
      | (None, h) \<Rightarrow>
          if n = Folder then zip_nodes source rest es h
          else
            let name = path_rel source p
            in (case host_stat p h of
                  (Inl e, h) \<Rightarrow> ((Some e, es @ [(name, False, Content [])]), h)
                | (Inr node, h) \<Rightarrow>
                    (case next_fault h of
                       (Some (FailsAfter k), h) \<Rightarrow> ((Some OsFailed, es @ [(name, False, cut k node)]), h)
                     | (Some Vanished, h) \<Rightarrow> ((Some OsFailed, es @ [(name, False, cut 0 node)]), h)
                     | (None, h) \<Rightarrow> zip_nodes source rest (es @ [(name, False, node)]) h)))"

text \<open>\<^verbatim>\<open>closeArchive\<close> writes the directory of the archive, without which it is not one, and runs after an error of the
  walk too.\<close>

definition closeArchive :: "string \<Rightarrow> (string \<times> bool \<times> file_node) list \<Rightarrow> unit admin_op" where
  "closeArchive output es h = and_then (plain_call h) (\<lambda>_ h. plain_call (put_node output (Archive es) h))"

definition zipDirectory :: "string \<Rightarrow> string \<Rightarrow> unit admin_op" where
  "zipDirectory source output h =
     (case admin_fileExists output h of
        (True, h) \<Rightarrow> (Inl (Refused ''refusing to overwrite existing archive''), h)
      | (False, h) \<Rightarrow>
          and_then (admin_call (make_folders (path_dir output)) h) (\<lambda>_ h.
          and_then (admin_call (\<lambda>ns. if map_of ns output \<noteq> None then None
              else map_option (map_put output Broken) (create_file output ns)) h) (\<lambda>_ h.
            (case zip_nodes source (walk_list source (ah_Files h)) [] h of
               ((failed, es), h) \<Rightarrow>
                 (case closeArchive output es h of
                    (closed, h) \<Rightarrow> (case failed of Some e \<Rightarrow> (Inl e, h) | None \<Rightarrow> (closed, h)))))))"

section \<open>A temporary directory\<close>

text \<open>\<^verbatim>\<open>os.MkdirTemp\<close> has found the unused name \<open>temporary\<close>; the directory goes when the operation ends.\<close>

definition with_temporary :: "string \<Rightarrow> 'a admin_op \<Rightarrow> 'a admin_op" where
  "with_temporary temporary body h =
     and_then (admin_call (\<lambda>ns. Some (map_put temporary Folder ns)) h) (\<lambda>_ h.
       case body h of (r, h) \<Rightarrow> (r, snd (admin_call (\<lambda>ns. Some (remove_all temporary ns)) h)))"

section \<open>Texts\<close>

text \<open>\<^verbatim>\<open>json.MarshalIndent\<close> with two spaces; the keys of a Go map come sorted and are given so.\<close>

definition json_lines :: "string \<Rightarrow> string list \<Rightarrow> string" where
  "json_lines ind vs = join_char (CHR '','') (map (\<lambda>v. newline # ind @ ''  '' @ v) vs) @ [newline] @ ind"

fun json_indent :: "string \<Rightarrow> json \<Rightarrow> string" where
  "json_indent ind (JArray vs) =
     (if vs = [] then ''[]'' else ''['' @ json_lines ind (map (json_indent (ind @ ''  '')) vs) @ '']'')"
| "json_indent ind (JObject fs) =
     (if fs = [] then ''{}''
      else ''{'' @ json_lines ind (map (\<lambda>f. json_string (fst f) @ '': '' @ json_indent (ind @ ''  '') (snd f)) fs) @ ''}'')"
| "json_indent ind v = json_marshal v"

definition admin_writeJSON :: "string \<Rightarrow> json \<Rightarrow> unit admin_op" where
  "admin_writeJSON path v = writeFile path (string_bytes (json_indent [] v @ [newline]))"

definition writeYAML :: "(json \<Rightarrow> byte list option) \<Rightarrow> string \<Rightarrow> json \<Rightarrow> unit admin_op" where
  "writeYAML yaml path v h = (case yaml v of None \<Rightarrow> (Inl (Refused ''yaml''), h) | Some data \<Rightarrow> writeFile path data h)"

section \<open>Backup\<close>

text \<open>SQLite's \<^verbatim>\<open>hex\<close>, and the query of the devices with their public keys.\<close>

definition hex_upper :: "byte list \<Rightarrow> string" where
  "hex_upper bs = to_upper (concat (map (\<lambda>b. [hex_digit_lower (unat b div 16), hex_digit_lower (unat b mod 16)]) bs))"

definition device_keys :: "Device list \<Rightarrow> json" where
  "device_keys ds = JArray (map (\<lambda>d. JObject [(''id'', JString (dv_ID d)), (''publicKeyHex'', JString (hex_upper (dv_PublicKey d)))])
     (sort_key dv_ID ds))"

definition exportDevicePublicKeys :: "Device list \<Rightarrow> string \<Rightarrow> unit admin_op" where
  "exportDevicePublicKeys ds path h = and_then (plain_call h) (\<lambda>_. admin_writeJSON path (device_keys ds))"

text \<open>The values of the flags. \<open>bo_Loaded\<close> is the configuration as it was read, if \<^verbatim>\<open>--config\<close> is given.\<close>

record BackupOptions =
  bo_DataDir :: string
  bo_Loaded :: "(string, Config) result option"
  bo_Output :: string
  bo_IncludeRecordings :: bool

text \<open>What is gathered in the temporary directory. \<open>opened\<close> is the database: its devices, and a consistent copy of it.\<close>

definition backup_config :: "(json \<Rightarrow> byte list option) \<Rightarrow> BackupOptions \<Rightarrow> string \<Rightarrow> unit admin_op" where
  "backup_config yaml opts temporary h =
     (case (case bo_Loaded opts of None \<Rightarrow> Inr Default_Config | Some r \<Rightarrow> r) of
        Inl e \<Rightarrow> (Inl (Refused e), h)
      | Inr c \<Rightarrow> writeYAML yaml (path_below [temporary, ''config-public.yaml'']) (safeConfig c) h)"

definition backup_recordings :: "BackupOptions \<Rightarrow> string \<Rightarrow> unit admin_op" where
  "backup_recordings opts temporary h =
     (if bo_IncludeRecordings opts
      then (case copyTree (path_below [bo_DataDir opts, ''recordings'']) (path_below [temporary, ''recordings'']) h of
              (Inl NotThere, h) \<Rightarrow> (Inr (), h) | r \<Rightarrow> r)
      else (Inr (), h))"

definition backup_body ::
  "(string, Device list \<times> byte list) result \<Rightarrow> (json \<Rightarrow> byte list option) \<Rightarrow> BackupOptions \<Rightarrow> string \<Rightarrow> unit admin_op" where
  "backup_body opened yaml opts temporary h =
     (case opened of
        Inl e \<Rightarrow> (Inl (Refused e), h)
      | Inr (devices, copy) \<Rightarrow>
          and_then (admin_call (\<lambda>ns. Some (map_put (path_below [temporary, ''db.sqlite'']) (Content copy) ns)) h) (\<lambda>_ h.
          and_then (exportDevicePublicKeys devices (path_below [temporary, ''device-public-keys.json'']) h) (\<lambda>_ h.
          and_then (backup_config yaml opts temporary h) (\<lambda>_ h.
          and_then (backup_recordings opts temporary h) (\<lambda>_.
            zipDirectory temporary (bo_Output opts))))))"

definition backup ::
  "(string, Device list \<times> byte list) result \<Rightarrow> (json \<Rightarrow> byte list option) \<Rightarrow> BackupOptions \<Rightarrow> string \<Rightarrow> unit admin_op" where
  "backup opened yaml opts temporary h =
     (if bo_Output opts = [] then (Inl (Refused ''backup requires --output''), h)
      else and_then (host_stat (path_below [bo_DataDir opts, ''cellbridge.sqlite'']) h) (\<lambda>_.
             with_temporary temporary (backup_body opened yaml opts temporary)))"

section \<open>Restore\<close>

definition allowedArchivePath :: "string \<Rightarrow> bool" where
  "allowedArchivePath name =
     (let clean = path_clean name
      in \<not> (clean \<noteq> name \<or> path_absolute clean \<or> clean = ''.'' \<or> has_prefix clean ''../'') \<and>
         (clean = ''db.sqlite'' \<or> clean = ''config-public.yaml'' \<or> clean = ''device-public-keys.json'' \<or>
          has_prefix clean ''recordings/''))"

text \<open>The entries of the archive go to the temporary directory one after the other.\<close>

fun extract_entries :: "string \<Rightarrow> (string \<times> bool \<times> file_node) list \<Rightarrow> unit admin_op" where
  "extract_entries temporary [] h = (Inr (), h)"
| "extract_entries temporary ((name, is_dir, data) # rest) h =
     (if \<not> allowedArchivePath name then (Inl (Refused (''backup contains unsupported path '' @ name)), h)
      else
        let destination = path_below [temporary, name]
        in if is_dir then and_then (admin_call (make_folders destination) h) (\<lambda>_. extract_entries temporary rest)
           else
             and_then (admin_call (make_folders (path_dir destination)) h) (\<lambda>_ h.
             and_then (plain_call h) (\<lambda>_ h.
             and_then (admin_call (create_file destination) h) (\<lambda>_ h.
             and_then (copy_data data destination h) (\<lambda>_. extract_entries temporary rest)))))"

text \<open>A node that is there is kept under another name.\<close>

definition preserve :: "string \<Rightarrow> string \<Rightarrow> unit admin_op" where
  "preserve path stamp h =
     (case admin_fileExists path h of
        (False, h) \<Rightarrow> (Inr (), h)
      | (True, h) \<Rightarrow> admin_call (rename_node path (path @ ''.pre-restore-'' @ stamp)) h)"

definition restore_config :: "string \<Rightarrow> string \<Rightarrow> unit admin_op" where
  "restore_config dataDir temporary h =
     (case admin_fileExists (path_below [temporary, ''config-public.yaml'']) h of
        (False, h) \<Rightarrow> (Inr (), h)
      | (True, h) \<Rightarrow> copyFile (path_below [temporary, ''config-public.yaml'']) (path_below [dataDir, ''config-public.yaml'']) h)"

definition restore_recordings :: "string \<Rightarrow> string \<Rightarrow> string \<Rightarrow> unit admin_op" where
  "restore_recordings dataDir stamp temporary h =
     (case admin_fileExists (path_below [temporary, ''recordings'']) h of
        (False, h) \<Rightarrow> (Inr (), h)
      | (True, h) \<Rightarrow>
          and_then (preserve (path_below [dataDir, ''recordings'']) stamp h) (\<lambda>_.
            copyTree (path_below [temporary, ''recordings'']) (path_below [dataDir, ''recordings''])))"

definition restore_body ::
  "(string \<times> bool \<times> file_node) list \<Rightarrow> string \<Rightarrow> string \<Rightarrow> string \<Rightarrow> unit admin_op" where
  "restore_body entries dataDir stamp temporary h =
     and_then (extract_entries temporary entries h) (\<lambda>_ h.
       case host_stat (path_below [temporary, ''db.sqlite'']) h of
         (Inl _, h) \<Rightarrow> (Inl (Refused ''backup has no db.sqlite''), h)
       | (Inr _, h) \<Rightarrow>
           and_then (admin_call (make_folders dataDir) h) (\<lambda>_ h.
           and_then (preserve (path_below [dataDir, ''cellbridge.sqlite'']) stamp h) (\<lambda>_ h.
           and_then (copyFile (path_below [temporary, ''db.sqlite'']) (path_below [dataDir, ''cellbridge.sqlite'']) h) (\<lambda>_ h.
           and_then (restore_config dataDir temporary h) (\<lambda>_.
             restore_recordings dataDir stamp temporary)))))"

text \<open>\<open>stamp\<close> is the second in which the operation runs.\<close>

definition restore :: "string \<Rightarrow> string \<Rightarrow> bool \<Rightarrow> string \<Rightarrow> string \<Rightarrow> unit admin_op" where
  "restore dataDir input confirmed stamp temporary h =
     (if input = [] \<or> \<not> confirmed then (Inl (Refused ''restore requires --input and --confirm-restore''), h)
      else (case host_stat input h of
              (Inr (Archive entries), h) \<Rightarrow> with_temporary temporary (restore_body entries dataDir stamp temporary) h
            | (_, h) \<Rightarrow> (Inl (Refused ''open backup''), h)))"

section \<open>Diagnostics\<close>

text \<open>What the tool finds out: the configuration, the candidates of the modem as JSON, the state of the database (the
  error of looking, of opening, or of the query on it) and the interfaces with their two flags; \<open>dx_Version\<close> names the
  program and its platform.\<close>

record DiagnosticInputs =
  dx_Loaded :: "(string, Config) result option"
  dx_Reports :: "(string, json) result"
  dx_Database :: "(bool, (unit, bool) result) result"
  dx_Interfaces :: "(string, (string \<times> bool \<times> bool) list) result"
  dx_Version :: json

definition admin_health :: "(bool, (unit, bool) result) result \<Rightarrow> json" where
  "admin_health database =
     (let degraded = (\<lambda>what. JObject [(''database'', JString what), (''status'', JString ''degraded'')]);
          fine = (\<lambda>what. JObject [(''database'', JString what), (''status'', JString ''ok'')])
      in case database of
           Inl missing \<Rightarrow> if missing then fine ''not_checked'' else degraded ''stat_failed''
         | Inr (Inl _) \<Rightarrow> degraded ''open_failed''
         | Inr (Inr answered) \<Rightarrow> if answered then fine ''ok'' else degraded ''query_failed'')"

definition network_json :: "(string \<times> bool \<times> bool) list \<Rightarrow> json" where
  "network_json ifs = JArray (map (\<lambda>(name, up, loopback).
     JObject [(''loopback'', JBool loopback), (''name'', JString name), (''up'', JBool up)]) (sort_key fst ifs))"

definition turn_json :: json where
  "turn_json = JObject [(''checked'', JBool False),
     (''reason'', JString ''TURN endpoint and credentials are deployment-specific; run the configured external turn-test during NAS acceptance''),
     (''status'', JString ''not_run'')]"

definition diagnostics_body :: "(json \<Rightarrow> byte list option) \<Rightarrow> DiagnosticInputs \<Rightarrow> string \<Rightarrow> string \<Rightarrow> unit admin_op" where
  "diagnostics_body yaml dx output temporary h =
     (case (case dx_Loaded dx of None \<Rightarrow> Inr Default_Config | Some r \<Rightarrow> r) of
        Inl e \<Rightarrow> (Inl (Refused (''load config: '' @ e)), h)
      | Inr c \<Rightarrow>
          (case dx_Reports dx of
             Inl e \<Rightarrow> (Inl (Refused (''enumerate modem candidates: '' @ e)), h)
           | Inr reports \<Rightarrow>
               and_then (admin_writeJSON (path_below [temporary, ''version.json'']) (dx_Version dx) h) (\<lambda>_ h.
               and_then (admin_writeJSON (path_below [temporary, ''probe.json'']) reports h) (\<lambda>_ h.
               and_then (admin_writeJSON (path_below [temporary, ''health.json'']) (admin_health (dx_Database dx)) h) (\<lambda>_ h.
                 case dx_Interfaces dx of
                   Inl e \<Rightarrow> (Inl (Refused (''list network interfaces: '' @ e)), h)
                 | Inr ifs \<Rightarrow>
                     and_then (admin_writeJSON (path_below [temporary, ''network.json'']) (network_json ifs) h) (\<lambda>_ h.
                     and_then (admin_writeJSON (path_below [temporary, ''turn-test.json'']) turn_json h) (\<lambda>_ h.
                     and_then (writeFile (path_below [temporary, ''recent-redacted.log''])
                        (string_bytes (''diagnostic export intentionally excludes raw logs and message content'' @ [newline])) h) (\<lambda>_ h.
                     and_then (writeYAML yaml (path_below [temporary, ''config-redacted.yaml'']) (safeConfig c) h) (\<lambda>_.
                       zipDirectory temporary output)))))))))"

definition diagnostics :: "(json \<Rightarrow> byte list option) \<Rightarrow> DiagnosticInputs \<Rightarrow> string \<Rightarrow> string \<Rightarrow> unit admin_op" where
  "diagnostics yaml dx output temporary h =
     (if trim_space output = [] then (Inl (Refused ''--output is required''), h)
      else with_temporary temporary (diagnostics_body yaml dx output temporary) h)"

end
