(* ===== verification/Admin_Paths.thy ===== *)
theory Admin_Paths
  imports Admin_Backup
begin

text \<open>
  Absolute paths as lists of names: what cleaning, joining and taking apart the paths of
  \<^verbatim>\<open>Admin_Backup\<close> does on them, and that an allowed name of an archive leads nowhere else.
\<close>

section \<open>Names\<close>

definition normal_name :: "string \<Rightarrow> bool" where
  "normal_name p \<longleftrightarrow> p \<notin> {[], ''.'', ''..''} \<and> CHR ''/'' \<notin> set p"

abbreviation normal :: "string list \<Rightarrow> bool" where
  "normal ps \<equiv> list_all normal_name ps"

definition abs_path :: "string list \<Rightarrow> string" where
  "abs_path ps = concat (map (\<lambda>p. CHR ''/'' # p) ps)"

lemma abs_path_simps [simp]:
  "abs_path [] = []" "abs_path (p # ps) = CHR ''/'' # p @ abs_path ps" "abs_path (ps @ qs) = abs_path ps @ abs_path qs"
  by (simp_all add: abs_path_def)

lemma join_cons: "ps \<noteq> [] \<Longrightarrow> CHR ''/'' # join_char (CHR ''/'') ps = abs_path ps"
  by (induction "CHR ''/''" ps rule: join_char.induct) simp_all

lemma split_abs_path: "normal ps \<Longrightarrow> CHR ''/'' \<notin> set u \<Longrightarrow> split_char (CHR ''/'') (u @ abs_path ps) = u # ps"
  by (induction ps arbitrary: u) (simp_all add: split_char_free split_char_sep normal_name_def)

lemma split_join_names: "normal ps \<Longrightarrow> ps \<noteq> [] \<Longrightarrow> split_char (CHR ''/'') (join_char (CHR ''/'') ps) = ps"
proof (induction "CHR ''/''" ps rule: join_char.induct)
  case (3 f g fs)
  then show ?case by (simp add: split_char_sep normal_name_def)
qed (simp_all add: split_char_free normal_name_def)

lemma join_cons_Cons: "join_char (CHR ''/'') (p # ps) = p @ abs_path ps"
  by (cases ps) (simp_all add: join_cons)

lemma split_abs_end:
  assumes "normal ps" "CHR ''/'' \<notin> set u" "CHR ''/'' \<notin> set v"
  shows "split_char (CHR ''/'') (u @ abs_path ps @ CHR ''/'' # v) = u # ps @ [v]"
  using assms by (induction ps arbitrary: u) (simp_all add: split_char_free split_char_sep normal_name_def)

lemma split_rooted: "normal ps \<Longrightarrow> split_char (CHR ''/'') (abs_path ps) = [] # ps"
  using split_abs_path [of ps "[]"] by simp

lemma abs_path_inj:
  assumes "normal ps" "normal qs"
  shows "abs_path ps = abs_path qs \<longleftrightarrow> ps = qs"
proof
  assume "abs_path ps = abs_path qs"
  then have "[] # ps = [] # qs" by (metis split_rooted assms)
  then show "ps = qs" by (rule list.inject [THEN iffD1, THEN conjunct2])
qed simp

section \<open>Cleaning and joining\<close>

lemma clean_parts_normal: "normal ps \<Longrightarrow> clean_parts rooted acc ps = rev acc @ ps"
  by (induction ps arbitrary: acc) (simp_all add: normal_name_def)

lemma path_clean_abs:
  assumes "normal ps" "ps \<noteq> []"
  shows "path_clean (abs_path ps) = abs_path ps"
proof -
  have "split_char (CHR ''/'') (abs_path ps) = [] # ps" by (rule split_rooted [OF assms(1)])
  moreover have "has_prefix (abs_path ps) ''/''" using assms(2) by (cases ps) (simp_all add: has_prefix_def)
  ultimately show ?thesis using assms by (simp add: path_clean_def clean_parts_normal join_cons)
qed

lemma not_rooted: "normal ps \<Longrightarrow> ps \<noteq> [] \<Longrightarrow> \<not> has_prefix (join_char (CHR ''/'') ps) ''/''"
  by (cases ps; cases "hd ps") (auto simp: join_cons_Cons has_prefix_def normal_name_def)

lemma path_clean_join: "normal ps \<Longrightarrow> ps \<noteq> [] \<Longrightarrow> path_clean (join_char (CHR ''/'') ps) = join_char (CHR ''/'') ps"
  using not_rooted [of ps] by (simp add: path_clean_def split_join_names clean_parts_normal)

lemma join_nonempty: "normal ps \<Longrightarrow> ps \<noteq> [] \<Longrightarrow> join_char (CHR ''/'') ps \<noteq> []"
  by (cases ps) (auto simp: join_cons_Cons normal_name_def)

lemma path_below_join:
  assumes "normal ds" "ds \<noteq> []" "normal ps" "ps \<noteq> []"
  shows "path_below [abs_path ds, join_char (CHR ''/'') ps] = abs_path (ds @ ps)"
proof -
  have "abs_path ds \<noteq> []" using assms(2) by (cases ds) simp_all
  moreover have "normal (ds @ ps)" using assms by simp
  ultimately show ?thesis
    using assms path_clean_abs [of "ds @ ps"] join_nonempty [OF assms(3,4)] by (simp add: path_below_def join_cons)
qed

lemma path_below_name: "normal ds \<Longrightarrow> ds \<noteq> [] \<Longrightarrow> normal_name p \<Longrightarrow> path_below [abs_path ds, p] = abs_path (ds @ [p])"
  using path_below_join [of ds "[p]"] by simp

lemma path_below_dot:
  assumes "normal ds" "ds \<noteq> []"
  shows "path_below [abs_path ds, ''.''] = abs_path ds"
proof -
  have "clean_parts True [] (ds @ [''.'']) = ds"
  proof -
    have "clean_parts rooted acc (ds @ [''.'']) = rev acc @ ds" for rooted acc
      using assms(1) by (induction ds arbitrary: acc) (simp_all add: normal_name_def)
    then show ?thesis by simp
  qed
  moreover have "split_char (CHR ''/'') ([] @ abs_path ds @ ''/.'') = [] # ds @ [''.'']"
    by (rule split_abs_end [OF assms(1)]) simp_all
  moreover have "has_prefix (abs_path ds @ ''/.'') ''/''" "abs_path ds \<noteq> []"
    using assms(2) by (cases ds; simp add: has_prefix_def)+
  ultimately show ?thesis using assms by (simp add: path_below_def path_clean_def join_cons)
qed

section \<open>Folders\<close>

lemma folders_of_snoc:
  assumes "normal_name p"
  shows "folders_of (abs_path (ps @ [p])) = folders_of (abs_path ps) @ [abs_path (ps @ [p])]"
proof -
  let ?a = "abs_path ps" let ?b = "abs_path (ps @ [p])" let ?n = "length ?a" let ?m = "Suc (?n + length p)"
  have p: "p \<noteq> []" "CHR ''/'' \<notin> set p" using assms by (auto simp: normal_name_def)
  have len: "length ?b = ?m" by simp
  have "[1..<?m + 1] = [1..<?n + 1] @ [?n + 1..<?m] @ [?m]"
    using upt_add_eq_append [of 1 "?n + 1" "length p"] p(1) by simp
  moreover have "filter (\<lambda>i. i = ?m \<or> ?b ! i = CHR ''/'') [1..<?n + 1] = filter (\<lambda>i. i = ?n \<or> ?a ! i = CHR ''/'') [1..<?n + 1]"
    by (intro filter_cong) (auto simp: nth_append less_Suc_eq_le)
  moreover have "filter (\<lambda>i. i = ?m \<or> ?b ! i = CHR ''/'') [?n + 1..<?m] = []"
  proof -
    have no: "?b ! i \<noteq> CHR ''/''" if "?n + 1 \<le> i" "i < ?m" for i
    proof -
      have "?b ! i = p ! (i - ?n - 1)" using that by (simp add: nth_append nth_Cons')
      moreover have "p ! (i - ?n - 1) \<in> set p" using that by (intro nth_mem) linarith
      ultimately show ?thesis using p(2) by metis
    qed
    show ?thesis unfolding filter_empty_conv using no by (auto simp del: abs_path_simps)
  qed
  ultimately have "filter (\<lambda>i. i = ?m \<or> ?b ! i = CHR ''/'') [1..<?m + 1] =
      filter (\<lambda>i. i = ?n \<or> ?a ! i = CHR ''/'') [1..<?n + 1] @ [?m]" by simp
  then show ?thesis unfolding folders_of_def len by (auto intro: map_cong)
qed

lemma folders_of_abs: "normal ps \<Longrightarrow> set (folders_of (abs_path ps)) = {abs_path qs | qs. qs \<noteq> [] \<and> prefix qs ps}"
proof (induction ps rule: rev_induct)
  case Nil
  then show ?case by (auto simp: folders_of_def)
next
  case (snoc p ps)
  then have n: "normal_name p" "normal ps" by simp_all
  have "prefix qs (ps @ [p]) \<longleftrightarrow> prefix qs ps \<or> qs = ps @ [p]" for qs by auto
  then show ?case unfolding folders_of_snoc [OF n(1)] set_append snoc.IH [OF n(2)]
    by (auto simp del: abs_path_simps prefix_snoc)
qed

lemma path_dir_abs:
  assumes "normal ps" "normal_name p"
  shows "path_dir (abs_path (ps @ [p])) = (if ps = [] then ''/'' else abs_path ps)"
proof -
  have "last_index_char (abs_path ps @ CHR ''/'' # p) (CHR ''/'') = Some (length (abs_path ps))"
    using assms(2) by (intro last_index_char_append) (simp add: normal_name_def)
  then have "path_dir (abs_path (ps @ [p])) = path_clean (abs_path ps @ ''/'')" by (simp add: path_dir_def)
  also have "\<dots> = (if ps = [] then ''/'' else abs_path ps)"
  proof (cases "ps = []")
    case True then show ?thesis by (simp add: path_clean_def has_prefix_def)
  next
    case False
    have "clean_parts rooted acc (ps @ [[]]) = rev acc @ ps" for rooted acc
      using assms(1) by (induction ps arbitrary: acc) (simp_all add: normal_name_def)
    moreover have "split_char (CHR ''/'') ([] @ abs_path ps @ ''/'') = [] # ps @ [[]]"
      by (rule split_abs_end [OF assms(1)]) simp_all
    moreover have "has_prefix (abs_path ps @ ''/'') ''/''" using False by (cases ps) (simp_all add: has_prefix_def)
    ultimately show ?thesis using False by (simp add: path_clean_def join_cons)
  qed
  finally show ?thesis .
qed

lemma inside_abs:
  assumes "normal ds" "normal qs"
  shows "inside (abs_path ds) (abs_path qs) \<longleftrightarrow> strict_prefix ds qs"
  using assms
proof (induction ds arbitrary: qs)
  case Nil
  then show ?case by (cases qs) (simp_all add: inside_def has_prefix_def)
next
  case (Cons d ds)
  show ?case
  proof (cases qs)
    case Nil then show ?thesis by (simp add: inside_def has_prefix_def)
  next
    case (Cons q qs')
    have n: "CHR ''/'' \<notin> set d" "CHR ''/'' \<notin> set q" using Cons.prems Cons by (auto simp: normal_name_def)
    have "d = q" if "inside (abs_path (d # ds)) (abs_path (q # qs'))"
    proof -
      from that have "take (length (d @ abs_path ds @ ''/'')) (q @ abs_path qs') = d @ abs_path ds @ ''/''"
        by (simp add: inside_def has_prefix_def)
      then obtain z where "q @ abs_path qs' = (d @ abs_path ds @ ''/'') @ z"
        by (metis append_take_drop_id)
      then have eq: "q @ abs_path qs' = d @ abs_path ds @ CHR ''/'' # z" by simp
      have "takeWhile (\<lambda>c. c \<noteq> CHR ''/'') (d @ abs_path ds @ CHR ''/'' # z) = d"
        using n(1) by (cases ds) (auto simp: takeWhile_append)
      moreover have "takeWhile (\<lambda>c. c \<noteq> CHR ''/'') (q @ abs_path qs') = q"
        using n(2) by (cases qs') (auto simp: takeWhile_append)
      ultimately show "d = q" using eq by simp
    qed
    moreover have "inside (abs_path (d # ds)) (abs_path (d # qs')) \<longleftrightarrow> inside (abs_path ds) (abs_path qs')"
      by (simp add: inside_def has_prefix_def)
    ultimately show ?thesis using Cons.IH [of qs'] Cons.prems Cons by auto
  qed
qed

lemma path_rel_abs:
  assumes "normal ds" "normal r"
  shows "path_rel (abs_path ds) (abs_path (ds @ r)) = (if r = [] then ''.'' else join_char (CHR ''/'') r)"
proof (cases r)
  case Nil then show ?thesis by (simp add: path_rel_def)
next
  case (Cons p ps)
  then have "abs_path (ds @ r) \<noteq> abs_path ds" by simp
  then show ?thesis using Cons by (simp add: path_rel_def join_cons_Cons)
qed

lemma path_below_rel:
  assumes "normal ds" "normal es" "es \<noteq> []" "normal r"
  shows "path_below [abs_path es, path_rel (abs_path ds) (abs_path (ds @ r))] = abs_path (es @ r)"
  using path_rel_abs [OF assms(1,4)] path_below_dot [OF assms(2,3)] path_below_join [OF assms(2,3,4)]
  by (cases "r = []") (simp_all del: abs_path_simps(3))

section \<open>Allowed names\<close>

lemma clean_parts_form:
  assumes "list_all normal_name ns" "\<forall>p \<in> set ps. CHR ''/'' \<notin> set p"
  shows "\<exists>k ms. clean_parts False (rev ns @ replicate j ''..'') ps = replicate k ''..'' @ ms \<and> normal ms"
  using assms
proof (induction ps arbitrary: ns j)
  case Nil
  then show ?case by (intro exI [of _ j] exI [of _ ns]) simp
next
  case (Cons p ps)
  consider "p = [] \<or> p = ''.''" | "p = ''..''" | "normal_name p" using Cons.prems(2) by (auto simp: normal_name_def)
  then show ?case
  proof cases
    case 1
    then show ?thesis using Cons.IH [of ns j] Cons.prems by auto
  next
    case 2
    show ?thesis
    proof (cases ns rule: rev_cases)
      case Nil
      then show ?thesis using 2 Cons.IH [of "[]" "Suc j"] Cons.prems by (cases j) simp_all
    next
      case (snoc ns' n)
      then have "n \<noteq> ''..''" using Cons.prems(1) by (simp add: normal_name_def)
      then show ?thesis using 2 snoc Cons.IH [of ns' j] Cons.prems by simp
    qed
  next
    case 3
    then show ?thesis using Cons.IH [of "ns @ [p]" j] Cons.prems by (auto simp: normal_name_def)
  qed
qed

lemma split_char_parts: "\<forall>p \<in> set (split_char c s). c \<notin> set p"
proof (induction s)
  case (Cons x s)
  then show ?case by (cases "split_char c s") auto
qed simp

text \<open>An allowed name is made of ordinary names only: nothing in it leads up or to the root.\<close>

lemma allowed_name:
  assumes "allowedArchivePath name"
  obtains ps where "normal ps" "ps \<noteq> []" "name = join_char (CHR ''/'') ps"
proof -
  let ?parts = "clean_parts False [] (split_char (CHR ''/'') name)"
  obtain k ms where parts: "?parts = replicate k ''..'' @ ms" "normal ms"
    using clean_parts_form [of "[]" "split_char (CHR ''/'') name" 0] split_char_parts by force
  have start: "has_prefix name ''db.sqlite'' \<or> has_prefix name ''config-public.yaml'' \<or>
      has_prefix name ''device-public-keys.json'' \<or> has_prefix name ''recordings/''"
    and clean: "path_clean name = name" "name \<noteq> ''.''" "\<not> path_absolute name"
    using assms by (auto simp: allowedArchivePath_def Let_def has_prefix_def)
  then have "?parts \<noteq> []" and name: "name = join_char (CHR ''/'') ?parts"
    by (auto simp: path_clean_def path_absolute_def Let_def split: if_splits)
  moreover have "k = 0"
  proof (rule ccontr)
    assume "k \<noteq> 0"
    then obtain t where "name = CHR ''.'' # t" using name parts(1) by (cases k) (auto simp: join_cons_Cons)
    then show False using start by (auto simp: has_prefix_def)
  qed
  ultimately show thesis using parts that by auto
qed

end
