(* ===== verification/Admin_Restore.thy ===== *)
theory Admin_Restore
  imports Admin_Paths
begin

text \<open>
  What a restore may touch: whatever the archive holds and whatever fails, the files outside the data directory and the
  temporary directory stay as they are.
\<close>

section \<open>Files that stay\<close>

text \<open>Every file has a cleaned path, as the host gives it.\<close>

definition clean_files :: "(string \<times> file_node) list \<Rightarrow> bool" where
  "clean_files ns \<longleftrightarrow> (\<forall>p \<in> fst ` set ns. \<exists>ps. normal ps \<and> ps \<noteq> [] \<and> p = abs_path ps)"

text \<open>A directory with what is in it, and the folders that lead to it.\<close>

definition region :: "string list \<Rightarrow> string set" where
  "region ds = {abs_path qs | qs. normal qs \<and> qs \<noteq> [] \<and> (prefix ds qs \<or> prefix qs ds)}"

definition keeps :: "string set \<Rightarrow> AdminHost \<Rightarrow> AdminHost \<Rightarrow> bool" where
  "keeps A h h' \<longleftrightarrow> (clean_files (ah_Files h) \<longrightarrow>
     clean_files (ah_Files h') \<and> (\<forall>q. q \<notin> A \<longrightarrow> map_of (ah_Files h') q = map_of (ah_Files h) q))"

lemma keeps_same: "ah_Files h' = ah_Files h \<Longrightarrow> keeps A h h'"
  by (simp add: keeps_def)

lemma keeps_trans: "keeps A h h1 \<Longrightarrow> keeps A h1 h2 \<Longrightarrow> keeps A h h2"
  by (simp add: keeps_def)

lemma keeps_mono: "keeps A h h' \<Longrightarrow> A \<subseteq> B \<Longrightarrow> keeps B h h'"
  by (auto simp: keeps_def)

lemma keeps_and_then:
  assumes "keeps A h (snd r)" and "\<And>a s. r = (Inr a, s) \<Longrightarrow> keeps A s (snd (f a s))"
  shows "keeps A h (snd (and_then r f))"
proof (cases r)
  case (Pair x s)
  then show ?thesis
  proof (cases x)
    case (Inr a)
    then show ?thesis using assms(1) assms(2) [of a s] keeps_trans Pair by auto
  qed (use assms(1) Pair in simp)
qed

lemma next_fault_files: "ah_Files (snd (next_fault h)) = ah_Files h"
  by (simp add: next_fault_def split: list.split)

lemma next_fault_keeps: "next_fault h = (f, h') \<Longrightarrow> keeps A h h'"
  using next_fault_files [of h] by (simp add: keeps_same)

lemma admin_call_keeps:
  assumes "\<And>ns ns'. clean_files ns \<Longrightarrow> f ns = Some ns' \<Longrightarrow> clean_files ns' \<and> (\<forall>q. q \<notin> A \<longrightarrow> map_of ns' q = map_of ns q)"
  shows "keeps A h (snd (admin_call f h))"
  using next_fault_files [of h] assms [of "ah_Files h"]
  by (auto simp: admin_call_def keeps_def split: prod.split option.split)

lemma plain_call_keeps: "keeps A h (snd (plain_call h))"
  unfolding plain_call_def by (rule admin_call_keeps) simp

lemma host_stat_keeps: "keeps A h (snd (host_stat path h))"
  using next_fault_files [of h] by (auto simp: host_stat_def keeps_def split: prod.split option.split)

lemma fileExists_keeps: "keeps A h (snd (admin_fileExists path h))"
  using host_stat_keeps [of A h path] by (cases "host_stat path h") (simp add: admin_fileExists_def)

lemma clean_files_put: "clean_files ns \<Longrightarrow> normal ps \<Longrightarrow> ps \<noteq> [] \<Longrightarrow> clean_files (map_put (abs_path ps) n ns)"
  by (auto simp: clean_files_def set_map_put)

lemma put_node_keeps: "normal ps \<Longrightarrow> ps \<noteq> [] \<Longrightarrow> abs_path ps \<in> A \<Longrightarrow> keeps A h (put_node (abs_path ps) n h)"
  by (auto simp: keeps_def put_node_def clean_files_put)

lemma add_folders_of: "map_of (fold add_folder ps ns) q = (if q \<in> set ps \<and> map_of ns q = None then Some Folder else map_of ns q)"
  by (induction ps arbitrary: ns) (auto simp: add_folder_def)

lemma add_folders_clean:
  assumes "clean_files ns" and "\<forall>p \<in> set qs. \<exists>ps. normal ps \<and> ps \<noteq> [] \<and> p = abs_path ps"
  shows "clean_files (fold add_folder qs ns)"
  using assms by (induction qs arbitrary: ns) (auto simp: add_folder_def intro!: clean_files_put)

lemma roads:
  assumes "normal ps" "p \<in> set (folders_of (abs_path ps))"
  obtains qs where "normal qs" "qs \<noteq> []" "prefix qs ps" "p = abs_path qs"
  using assms unfolding folders_of_abs [OF assms(1)] by (auto simp: prefix_def)

lemma make_folders_keeps:
  assumes "normal (ds @ r)"
  shows "keeps (region ds) h (snd (admin_call (make_folders (abs_path (ds @ r))) h))"
proof (rule admin_call_keeps)
  fix ns ns' assume ns: "clean_files ns" "make_folders (abs_path (ds @ r)) ns = Some ns'"
  let ?fs = "folders_of (abs_path (ds @ r))"
  have ns': "ns' = fold add_folder ?fs ns" using ns(2) by (simp add: make_folders_def split: if_splits)
  have fs: "\<exists>ps. normal ps \<and> ps \<noteq> [] \<and> p = abs_path ps \<and> (prefix ds ps \<or> prefix ps ds)" if "p \<in> set ?fs" for p
    using roads [OF assms that] prefix_same_cases by (metis prefix_append prefix_order.refl)
  then have "set ?fs \<subseteq> region ds" unfolding region_def by blast
  then show "clean_files ns' \<and> (\<forall>q. q \<notin> region ds \<longrightarrow> map_of ns' q = map_of ns q)"
    using fs unfolding ns' add_folders_of by (auto intro!: add_folders_clean [OF ns(1)])
qed

lemma in_region: "normal (ds @ r) \<Longrightarrow> ds @ r \<noteq> [] \<Longrightarrow> abs_path (ds @ r) \<in> region ds"
  unfolding region_def by (blast intro: prefixI)

lemma create_file_keeps:
  assumes "normal (ds @ r)" "ds @ r \<noteq> []"
  shows "keeps (region ds) h (snd (admin_call (create_file (abs_path (ds @ r))) h))"
proof (rule admin_call_keeps)
  fix ns ns' assume ns: "clean_files ns" "create_file (abs_path (ds @ r)) ns = Some ns'"
  then have "ns' = map_put (abs_path (ds @ r)) (Content []) ns" by (auto simp: create_file_def split: if_splits)
  then show "clean_files ns' \<and> (\<forall>q. q \<notin> region ds \<longrightarrow> map_of ns' q = map_of ns q)"
    using ns(1) assms in_region [OF assms] clean_files_put [OF ns(1) assms] by auto
qed

lemma copy_data_keeps:
  assumes "normal (ds @ r)" "ds @ r \<noteq> []"
  shows "keeps (region ds) h (snd (copy_data n (abs_path (ds @ r)) h))"
proof -
  have put: "keeps (region ds) h' (put_node (abs_path (ds @ r)) m h')" for m h'
    using assms in_region [OF assms] by (intro put_node_keeps)
  obtain f h' where f: "next_fault h = (f, h')" by fastforce
  have "keeps (region ds) h h'" using f by (rule next_fault_keeps)
  then show ?thesis
    unfolding copy_data_def f using put keeps_trans
    by (auto simp del: abs_path_simps split: option.split admin_fault.split)
qed

section \<open>Copying and extracting\<close>

lemma dir_of: "normal (ds @ r) \<Longrightarrow> r \<noteq> [] \<Longrightarrow> ds \<noteq> [] \<Longrightarrow> path_dir (abs_path (ds @ r)) = abs_path (ds @ butlast r)"
  by (cases r rule: rev_cases) (simp_all add: path_dir_abs [of "ds @ _" _, simplified])

lemma normal_butlast: "normal (ds @ r) \<Longrightarrow> normal (ds @ butlast r)"
  by (auto simp: list_all_iff dest: in_set_butlastD)

lemma copyFile_keeps:
  assumes "normal (ds @ r)" "r \<noteq> []" "ds \<noteq> []"
  shows "keeps (region ds) h (snd (copyFile source (abs_path (ds @ r)) h))"
  unfolding copyFile_def dir_of [OF assms]
  using assms
  by (intro keeps_and_then host_stat_keeps make_folders_keeps create_file_keeps copy_data_keeps plain_call_keeps normal_butlast)
    simp_all

lemma copy_nodes_keeps:
  assumes "normal (ds @ e)" "e \<noteq> []" "ds \<noteq> []" "normal ss"
    and "\<forall>(p, n) \<in> set ns. \<exists>r. normal r \<and> p = abs_path (ss @ r)"
  shows "keeps (region ds) h (snd (copy_nodes (abs_path ss) (abs_path (ds @ e)) ns h))"
  using assms(5)
proof (induction ns arbitrary: h)
  case Nil
  then show ?case by (simp add: keeps_same)
next
  case (Cons pn ns)
  obtain p n where pn: "pn = (p, n)" by fastforce
  obtain r where r: "normal r" "p = abs_path (ss @ r)" using Cons.prems pn by auto
  have target: "path_below [abs_path (ds @ e), path_rel (abs_path ss) p] = abs_path (ds @ e @ r)"
    using path_below_rel [OF assms(4,1) _ r(1)] assms(3) r(2) by (simp del: abs_path_simps)
  have er: "normal (ds @ e @ r)" "e @ r \<noteq> []" using assms(1,2) r(1) by simp_all
  show ?case
    unfolding pn copy_nodes.simps Let_def target
    using Cons.IH Cons.prems make_folders_keeps [OF er(1)] copyFile_keeps [OF er assms(3)]
    by (cases "n = Folder") (intro keeps_and_then plain_call_keeps; simp del: abs_path_simps)+
qed

lemma walk_list_below:
  assumes "clean_files ns" "normal ss" "(p, n) \<in> set (walk_list (abs_path ss) ns)"
  shows "\<exists>r. normal r \<and> p = abs_path (ss @ r)"
proof -
  from assms(3) have p: "(p, n) \<in> set ns" "p = abs_path ss \<or> inside (abs_path ss) p" by (auto simp: walk_list_def)
  then obtain ps where ps: "normal ps" "p = abs_path ps" using assms(1) by (force simp: clean_files_def)
  have "prefix ss ps" using p(2) unfolding ps(2) abs_path_inj [OF ps(1) assms(2)] inside_abs [OF assms(2) ps(1)] by auto
  then show ?thesis using ps by (auto simp: prefix_def)
qed

lemma copyTree_keeps:
  assumes "normal (ds @ e)" "e \<noteq> []" "ds \<noteq> []" "normal ss"
  shows "keeps (region ds) h (snd (copyTree (abs_path ss) (abs_path (ds @ e)) h))"
proof (cases "clean_files (ah_Files h)")
  case True
  then show ?thesis
    using walk_list_below [OF True assms(4)] copy_nodes_keeps [OF assms, of "walk_list (abs_path ss) (ah_Files h)" h]
    by (auto simp: copyTree_def keeps_same simp del: abs_path_simps)
qed (simp add: keeps_def)

lemma extract_keeps:
  assumes "normal ts" "ts \<noteq> []"
  shows "keeps (region ts) h (snd (extract_entries (abs_path ts) es h))"
proof (induction es arbitrary: h)
  case Nil
  then show ?case by (simp add: keeps_same)
next
  case (Cons e es)
  obtain name is_dir data where e: "e = (name, is_dir, data)" by (cases e) auto
  show ?case
  proof (cases "allowedArchivePath name")
    case False
    then show ?thesis by (simp add: e keeps_same)
  next
    case True
    then obtain ps where ps: "normal ps" "ps \<noteq> []" "name = join_char (CHR ''/'') ps" by (rule allowed_name)
    have below: "path_below [abs_path ts, name] = abs_path (ts @ ps)" using assms ps path_below_join by blast
    have n: "normal (ts @ ps)" using assms ps by simp
    show ?thesis
      unfolding e extract_entries.simps Let_def below dir_of [OF n ps(2) assms(2)]
      using True Cons.IH make_folders_keeps [OF n] make_folders_keeps [OF normal_butlast [OF n]]
        create_file_keeps [OF n] copy_data_keeps [OF n] plain_call_keeps assms(2)
      by (cases is_dir) (simp del: abs_path_simps, intro keeps_and_then; simp del: abs_path_simps)+
  qed
qed

section \<open>Renaming\<close>

definition moved_to :: "string \<Rightarrow> string \<Rightarrow> string \<times> file_node \<Rightarrow> string \<times> file_node" where
  "moved_to a b = (\<lambda>(p, n). if p = a \<or> inside a p then (b @ drop (length a) p, n) else (p, n))"

lemma moved_to_snd: "snd (moved_to a b (p, n)) = n"
  by (simp add: moved_to_def)

lemma moved_to_abs:
  assumes "normal as" "normal bs" "normal ps"
  shows "moved_to (abs_path as) (abs_path bs) (abs_path ps, n) =
    (if prefix as ps then (abs_path (bs @ drop (length as) ps), n) else (abs_path ps, n))"
proof -
  have "(abs_path ps = abs_path as \<or> inside (abs_path as) (abs_path ps)) = prefix as ps"
    unfolding abs_path_inj [OF assms(3,1)] inside_abs [OF assms(1,3)] by auto
  then show ?thesis by (auto simp: moved_to_def prefix_def)
qed

lemma rename_keeps:
  assumes "normal (ds @ [x])" "normal (ds @ [y])"
  shows "keeps (region ds) h (snd (admin_call (rename_node (abs_path (ds @ [x])) (abs_path (ds @ [y]))) h))"
proof (rule admin_call_keeps)
  let ?a = "abs_path (ds @ [x])" let ?b = "abs_path (ds @ [y])" let ?mv = "moved_to ?a ?b"
  fix ns ns' assume ns: "clean_files ns" "rename_node ?a ?b ns = Some ns'"
  have one: "(\<exists>qs. normal qs \<and> qs \<noteq> [] \<and> fst (?mv (p, n)) = abs_path qs) \<and>
      (?mv (p, n) = (p, n) \<or> (p \<in> region ds \<and> fst (?mv (p, n)) \<in> region ds))" if "(p, n) \<in> set ns" for p n
  proof -
    obtain ps where ps: "normal ps" "ps \<noteq> []" "p = abs_path ps" using ns(1) \<open>(p, n) \<in> set ns\<close> by (force simp: clean_files_def)
    show ?thesis
    proof (cases "prefix (ds @ [x]) ps")
      case True
      then obtain r where r: "ps = ds @ [x] @ r" by (auto simp: prefix_def)
      have n: "normal (ds @ [y] @ r)" "normal (ds @ [x] @ r)" using assms ps(1) r by simp_all
      have new: "fst (?mv (p, n)) = abs_path (ds @ [y] @ r)"
        unfolding ps(3) moved_to_abs [OF assms ps(1)] using r by (simp del: abs_path_simps)
      have "fst (?mv (p, n)) \<in> region ds" unfolding new by (rule in_region [OF n(1)]) simp
      moreover have "p \<in> region ds" unfolding ps(3) r by (rule in_region [OF n(2)]) simp
      moreover have "\<exists>qs. normal qs \<and> qs \<noteq> [] \<and> fst (?mv (p, n)) = abs_path qs"
        using new n(1) by (intro exI [of _ "ds @ [y] @ r"] conjI) simp_all
      ultimately show ?thesis by (intro conjI disjI2)
    next
      case False
      then have "?mv (p, n) = (p, n)" unfolding ps(3) moved_to_abs [OF assms ps(1)] by simp
      then show ?thesis using ps by auto
    qed
  qed
  have same: "map_of (map ?mv ms) q = map_of ms q" if "q \<notin> region ds" "set ms \<subseteq> set ns" for q ms
    using that(2)
  proof (induction ms)
    case (Cons pn ms)
    obtain p n where pn: "pn = (p, n)" by fastforce
    obtain p' where p': "?mv (p, n) = (p', n)" using moved_to_snd [of ?a ?b p n] by (cases "?mv (p, n)") simp
    from one [of p n] Cons.prems pn p' have "p' = p \<or> (p \<in> region ds \<and> p' \<in> region ds)" by auto
    then show ?case using Cons that(1) pn p' by auto
  qed simp
  have clean: "clean_files (map ?mv ms)" if "set ms \<subseteq> set ns" for ms
  proof -
    have "\<exists>qs. normal qs \<and> qs \<noteq> [] \<and> p = abs_path qs" if p: "p \<in> fst ` set (map ?mv ms)" for p
    proof -
      obtain pn where pn: "pn \<in> set ms" "p = fst (?mv pn)" using p unfolding set_map by blast
      then have "(fst pn, snd pn) \<in> set ns" using \<open>set ms \<subseteq> set ns\<close> by auto
      from one [OF this] show ?thesis using pn(2) unfolding prod.collapse by blast
    qed
    then show ?thesis unfolding clean_files_def by blast
  qed
  have "ns' = map ?mv ns \<or> ns' = map ?mv (map_del ?b ns)"
    using ns(2) by (auto simp: rename_node_def moved_to_def Let_def simp del: abs_path_simps split: option.splits if_splits)
  moreover have "set (map_del ?b ns) \<subseteq> set ns" by (auto simp: map_del_def)
  moreover have "map_of (map_del ?b ns) q = map_of ns q" if "q \<notin> region ds" for q
    using in_region [OF assms(2)] that by auto
  ultimately show "clean_files ns' \<and> (\<forall>q. q \<notin> region ds \<longrightarrow> map_of ns' q = map_of ns q)"
    using same [of _ ns] same [of _ "map_del ?b ns"] clean [of ns] clean [of "map_del ?b ns"] by auto
qed

section \<open>The operation\<close>

definition preserved_name :: "string \<Rightarrow> string \<Rightarrow> string" where
  "preserved_name x stamp = x @ ''.pre-restore-'' @ stamp"

lemma preserved_normal: "CHR ''/'' \<notin> set stamp \<Longrightarrow> normal_name x \<Longrightarrow> normal_name (preserved_name x stamp)"
  by (auto simp: normal_name_def preserved_name_def append_eq_Cons_conv)

lemma preserve_abs: "preserve (abs_path (ds @ [x])) stamp h =
    (case admin_fileExists (abs_path (ds @ [x])) h of
       (False, h) \<Rightarrow> (Inr (), h)
     | (True, h) \<Rightarrow> admin_call (rename_node (abs_path (ds @ [x])) (abs_path (ds @ [preserved_name x stamp]))) h)"
proof -
  have "abs_path (ds @ [x]) @ ''.pre-restore-'' @ stamp = abs_path (ds @ [preserved_name x stamp])"
    by (simp add: preserved_name_def)
  then show ?thesis unfolding preserve_def by (simp only:)
qed

lemma preserve_keeps:
  assumes "normal ds" "normal_name x" "CHR ''/'' \<notin> set stamp"
  shows "keeps (region ds) h (snd (preserve (abs_path (ds @ [x])) stamp h))"
proof -
  obtain b h1 where ex: "admin_fileExists (abs_path (ds @ [x])) h = (b, h1)" by fastforce
  then have "keeps (region ds) h h1" using fileExists_keeps [of "region ds" h "abs_path (ds @ [x])"] by simp
  moreover have "normal (ds @ [x])" "normal (ds @ [preserved_name x stamp])" using assms preserved_normal by simp_all
  note rename_keeps [OF this, of h1]
  ultimately show ?thesis unfolding preserve_abs ex by (cases b) (simp_all del: abs_path_simps, erule (1) keeps_trans)
qed

lemma known_names:
  "normal_name ''cellbridge.sqlite''" "normal_name ''db.sqlite''" "normal_name ''config-public.yaml''"
  "normal_name ''device-public-keys.json''" "normal_name ''recordings''"
  by (simp_all add: normal_name_def)

lemma restore_config_keeps:
  assumes "normal ds" "ds \<noteq> []"
  shows "keeps (region ds) h (snd (restore_config (abs_path ds) temporary h))"
proof -
  obtain b h1 where ex: "admin_fileExists (path_below [temporary, ''config-public.yaml'']) h = (b, h1)" by fastforce
  then have "keeps (region ds) h h1" using fileExists_keeps [of "region ds" h] by (metis snd_conv)
  moreover have n: "normal (ds @ [''config-public.yaml''])" using assms(1) known_names by simp
  note copyFile_keeps [OF n _ assms(2), of h1 "path_below [temporary, ''config-public.yaml'']"]
  ultimately show ?thesis unfolding restore_config_def ex path_below_name [OF assms known_names(3)]
    by (cases b) (simp_all del: abs_path_simps, erule (1) keeps_trans)
qed

lemma restore_recordings_keeps:
  assumes "normal ds" "ds \<noteq> []" "normal ts" "ts \<noteq> []" "CHR ''/'' \<notin> set stamp"
  shows "keeps (region ds) h (snd (restore_recordings (abs_path ds) stamp (abs_path ts) h))"
proof -
  note below = path_below_name [OF assms(1,2) known_names(5)] path_below_name [OF assms(3,4) known_names(5)]
  obtain b h1 where ex: "admin_fileExists (abs_path (ts @ [''recordings''])) h = (b, h1)" by fastforce
  then have "keeps (region ds) h h1" using fileExists_keeps [of "region ds" h] by (metis snd_conv)
  moreover have n: "normal (ds @ [''recordings''])" "normal (ts @ [''recordings''])" using assms(1,3) known_names by simp_all
  have "keeps (region ds) h1 (snd (and_then (preserve (abs_path (ds @ [''recordings''])) stamp h1)
      (\<lambda>_. copyTree (abs_path (ts @ [''recordings''])) (abs_path (ds @ [''recordings''])))))"
    by (intro keeps_and_then preserve_keeps copyTree_keeps assms known_names n) simp
  ultimately show ?thesis unfolding restore_recordings_def below ex
    by (cases b) (simp_all del: abs_path_simps, erule (1) keeps_trans)
qed

lemma remove_all_keeps:
  assumes "normal ts" "ts \<noteq> []"
  shows "keeps (region ts) h (snd (admin_call (\<lambda>ns. Some (remove_all (abs_path ts) ns)) h))"
proof (rule admin_call_keeps)
  fix ns ns' assume ns: "clean_files ns" "Some (remove_all (abs_path ts) ns) = Some ns'"
  let ?P = "\<lambda>p. \<not> (p = abs_path ts \<or> inside (abs_path ts) p)"
  have gone: "p \<in> region ts" if p: "p = abs_path ts \<or> inside (abs_path ts) p" "p \<in> fst ` set ns" for p
  proof -
    obtain ps where ps: "normal ps" "ps \<noteq> []" "p = abs_path ps" using ns(1) p(2) unfolding clean_files_def by blast
    have "prefix ts ps" using p(1) unfolding ps(3) abs_path_inj [OF ps(1) assms(1)] inside_abs [OF assms(1) ps(1)] by auto
    then show ?thesis using ps unfolding region_def by blast
  qed
  have "map_of (filter (\<lambda>(p, _). ?P p) ms) q = map_of ms q" if "q \<notin> region ts" "set ms \<subseteq> set ns" for q ms
    using that(2)
  proof (induction ms)
    case (Cons pn ms)
    have "fst pn \<in> fst ` set ns" using Cons.prems by auto
    then show ?case using Cons gone [of "fst pn"] that(1) by (cases pn) auto
  qed simp
  moreover have "ns' = filter (\<lambda>(p, _). ?P p) ns" using ns(2) unfolding remove_all_def by simp
  moreover have "clean_files (filter (\<lambda>(p, _). ?P p) ns)" using ns(1) by (auto simp: clean_files_def)
  ultimately show "clean_files ns' \<and> (\<forall>q. q \<notin> region ts \<longrightarrow> map_of ns' q = map_of ns q)" by simp
qed

lemma with_temporary_keeps:
  assumes "normal ts" "ts \<noteq> []" "region ts \<subseteq> A" "\<And>h. keeps A h (snd (body h))"
  shows "keeps A h (snd (with_temporary (abs_path ts) body h))"
proof -
  have "keeps (region ts) h (snd (admin_call (\<lambda>ns. Some (map_put (abs_path ts) Folder ns)) h))"
    using in_region [of ts "[]"] assms(1,2) clean_files_put [OF _ assms(1,2)] by (intro admin_call_keeps) auto
  moreover have "keeps A h1 (snd (case body h1 of (r, h) \<Rightarrow> (r, snd (admin_call (\<lambda>ns. Some (remove_all (abs_path ts) ns)) h))))" for h1
  proof -
    obtain r h2 where b: "body h1 = (r, h2)" by fastforce
    then have "keeps A h1 h2" using assms(4) [of h1] by simp
    then show ?thesis
      unfolding b by simp (rule keeps_trans, assumption, rule keeps_mono [OF remove_all_keeps [OF assms(1,2)] assms(3)])
  qed
  ultimately show ?thesis
    unfolding with_temporary_def using keeps_mono [OF _ assms(3)] by (intro keeps_and_then) auto
qed

lemma restore_keeps:
  assumes "normal ds" "ds \<noteq> []" "normal ts" "ts \<noteq> []" "CHR ''/'' \<notin> set stamp"
  shows "keeps (region ds \<union> region ts) h (snd (restore_body es (abs_path ds) stamp (abs_path ts) h))"
proof -
  let ?A = "region ds \<union> region ts"
  have sub: "region ds \<subseteq> ?A" "region ts \<subseteq> ?A" by simp_all
  have n: "normal (ds @ [''cellbridge.sqlite''])" "normal (ds @ [])" using assms(1) known_names by simp_all
  have folders: "keeps (region ds) h (snd (admin_call (make_folders (abs_path ds)) h))" for h
    using make_folders_keeps [OF n(2)] by simp
  have rest: "keeps ?A h (snd (and_then (admin_call (make_folders (abs_path ds)) h) (\<lambda>_ h.
           and_then (preserve (abs_path (ds @ [''cellbridge.sqlite''])) stamp h) (\<lambda>_ h.
           and_then (copyFile source (abs_path (ds @ [''cellbridge.sqlite''])) h) (\<lambda>_ h.
           and_then (restore_config (abs_path ds) (abs_path ts) h) (\<lambda>_.
             restore_recordings (abs_path ds) stamp (abs_path ts)))))))" for h source
    using assms n(1) known_names folders
    by (intro keeps_and_then keeps_mono [OF _ sub(1)] preserve_keeps copyFile_keeps restore_config_keeps restore_recordings_keeps)
      simp_all
  show ?thesis
    unfolding restore_body_def path_below_name [OF assms(1,2) known_names(1)]
  proof (rule keeps_and_then)
    show "keeps ?A h (snd (extract_entries (abs_path ts) es h))"
      by (rule keeps_mono [OF extract_keeps [OF assms(3,4)] sub(2)])
  next
    fix h1
    obtain r h2 where st: "host_stat (path_below [abs_path ts, ''db.sqlite'']) h1 = (r, h2)" by fastforce
    then have "keeps ?A h1 h2" using host_stat_keeps [of ?A h1] by (metis snd_conv)
    then show "keeps ?A h1 (snd (case host_stat (path_below [abs_path ts, ''db.sqlite'']) h1 of
         (Inl _, h) \<Rightarrow> (Inl (Refused ''backup has no db.sqlite''), h)
       | (Inr _, h) \<Rightarrow> and_then (admin_call (make_folders (abs_path ds)) h) (\<lambda>_ h.
           and_then (preserve (abs_path (ds @ [''cellbridge.sqlite''])) stamp h) (\<lambda>_ h.
           and_then (copyFile (path_below [abs_path ts, ''db.sqlite'']) (abs_path (ds @ [''cellbridge.sqlite''])) h) (\<lambda>_ h.
           and_then (restore_config (abs_path ds) (abs_path ts) h) (\<lambda>_.
             restore_recordings (abs_path ds) stamp (abs_path ts)))))))"
      unfolding st using keeps_trans [OF _ rest] by (cases r) auto
  qed
qed

text \<open>C30: whatever archive is given to a restore, whether it is confirmed or not, and whatever fails on the way, every path of the host
  that is not in the data directory or in its temporary directory, nor a folder that leads to one of them, holds afterwards what
  it held before.\<close>

theorem restore_stays_in_its_directories:
  assumes "normal ds" "ds \<noteq> []" "normal ts" "ts \<noteq> []" "CHR ''/'' \<notin> set stamp"
    and "clean_files (ah_Files h)" and "q \<notin> region ds" and "q \<notin> region ts"
  shows "map_of (ah_Files (snd (restore (abs_path ds) input confirmed stamp (abs_path ts) h))) q = map_of (ah_Files h) q"
proof -
  have "keeps (region ds \<union> region ts) h (snd (restore (abs_path ds) input confirmed stamp (abs_path ts) h))"
  proof (cases "input = [] \<or> \<not> confirmed")
    case False
    obtain r h1 where st: "host_stat input h = (r, h1)" by fastforce
    then have "keeps (region ds \<union> region ts) h h1" using host_stat_keeps [of _ h input] by (metis snd_conv)
    moreover have "keeps (region ds \<union> region ts) h1 (snd (with_temporary (abs_path ts) (restore_body es (abs_path ds) stamp (abs_path ts)) h1))" for es
      by (intro with_temporary_keeps restore_keeps assms(1-5)) simp
    ultimately show ?thesis
      using False keeps_trans unfolding restore_def st by (auto simp del: abs_path_simps split: sum.split file_node.split)
  qed (auto simp: restore_def keeps_same)
  then show ?thesis using assms(6-8) by (simp add: keeps_def)
qed

lemma region_iff: "normal qs \<Longrightarrow> normal ds \<Longrightarrow> abs_path qs \<in> region ds \<longleftrightarrow> qs \<noteq> [] \<and> (prefix ds qs \<or> prefix qs ds)"
  using abs_path_inj unfolding region_def by blast

definition slipping_host :: AdminHost where
  "slipping_host = \<lparr>ah_Files = [(''/b.zip'', Archive [(''db.sqlite'', False, Content [1]), (''../etc/passwd'', False, Content [2])]),
     (''/etc/passwd'', Content [3])], ah_Faults = []\<rparr>"

lemma slipping_paths:
  "abs_path [''etc'', ''passwd''] = ''/etc/passwd''" "abs_path [''d''] = ''/d''" "abs_path [''t''] = ''/t''" "abs_path [''b.zip''] = ''/b.zip''"
  by simp_all

lemma slipping_clean: "clean_files (ah_Files slipping_host)"
proof -
  have n: "normal [''etc'', ''passwd'']" "normal [''b.zip'']" by (simp_all add: normal_name_def)
  have "\<exists>ps. normal ps \<and> ps \<noteq> [] \<and> ''/etc/passwd'' = abs_path ps" "\<exists>ps. normal ps \<and> ps \<noteq> [] \<and> ''/b.zip'' = abs_path ps"
    using n by (intro exI [of _ "[''etc'', ''passwd'']"], simp) (use n in \<open>intro exI [of _ "[''b.zip'']"], simp\<close>)
  then show ?thesis by (simp add: clean_files_def slipping_host_def)
qed

theorem restore_stays_in_its_directories_witness:
  "map_of (ah_Files (snd (restore ''/d'' ''/b.zip'' True ''now'' ''/t'' slipping_host))) ''/etc/passwd'' = Some (Content [3])"
proof -
  have n: "normal [''d'']" "normal [''t'']" "normal [''etc'', ''passwd'']" by (simp_all add: normal_name_def)
  have "''/etc/passwd'' \<notin> region [''d'']" "''/etc/passwd'' \<notin> region [''t'']"
    using region_iff [OF n(3,1)] region_iff [OF n(3,2)] by simp_all
  from restore_stays_in_its_directories [OF n(1) _ n(2) _ _ slipping_clean this, of "''now''" "''/b.zip''" True]
  show ?thesis by (simp add: slipping_host_def)
qed

section \<open>Refused archives\<close>

lemma extract_refuses:
  assumes "(name, is_dir, data) \<in> set es" "\<not> allowedArchivePath name"
  shows "isl (fst (extract_entries temporary es h))"
  using assms(1)
proof (induction es arbitrary: h)
  case (Cons e es)
  obtain n d x where e: "e = (n, d, x)" by (cases e) auto
  show ?case
  proof (cases "allowedArchivePath n")
    case False
    then show ?thesis by (simp add: e)
  next
    case True
    then have rest: "(name, is_dir, data) \<in> set es" using Cons.prems assms(2) e by auto
    have chain: "isl (fst (and_then r f))" if "\<And>a s. isl (fst (f a s))" for r :: "(admin_error, unit) result \<times> AdminHost" and f
      using that by (auto simp: and_then_def split: prod.split sum.split)
    show ?thesis unfolding e extract_entries.simps Let_def
      using True Cons.IH [OF rest] by (cases is_dir) (auto intro!: chain)
  qed
qed simp

text \<open>An archive with a path that is not allowed is refused before anything of the gateway is touched: every file
  outside the temporary directory stays.\<close>

theorem refused_archive_changes_nothing:
  assumes "map_of (ah_Files h) input = Some (Archive es)" and "(name, is_dir, data) \<in> set es" "\<not> allowedArchivePath name"
    and "normal ts" "ts \<noteq> []" "clean_files (ah_Files h)" "q \<notin> region ts"
  shows "isl (fst (restore dataDir input confirmed stamp (abs_path ts) h)) \<and>
    map_of (ah_Files (snd (restore dataDir input confirmed stamp (abs_path ts) h))) q = map_of (ah_Files h) q"
proof -
  let ?t = "abs_path ts"
  have body: "isl (fst (restore_body es dataDir stamp ?t h1)) \<and> keeps (region ts) h1 (snd (restore_body es dataDir stamp ?t h1))" for h1
  proof -
    obtain e s where ex: "extract_entries ?t es h1 = (Inl e, s)"
      using extract_refuses [OF assms(2,3), of ?t h1] by (cases "extract_entries ?t es h1"; cases "fst (extract_entries ?t es h1)") auto
    then show ?thesis using extract_keeps [OF assms(4,5), of h1 es] by (simp add: restore_body_def)
  qed
  have whole: "isl (fst (with_temporary ?t (restore_body es dataDir stamp ?t) h1)) \<and>
      keeps (region ts) h1 (snd (with_temporary ?t (restore_body es dataDir stamp ?t) h1))" for h1
  proof
    show "keeps (region ts) h1 (snd (with_temporary ?t (restore_body es dataDir stamp ?t) h1))"
      using body by (intro with_temporary_keeps assms(4,5)) auto
    have "isl x" if "restore_body es dataDir stamp ?t s = (x, s')" for s x s' using body [of s] that by simp
    then show "isl (fst (with_temporary ?t (restore_body es dataDir stamp ?t) h1))"
      unfolding with_temporary_def and_then_def by (auto split: prod.split sum.split)
  qed
  obtain r h1 where st: "host_stat input h = (r, h1)" by fastforce
  have files: "ah_Files h1 = ah_Files h" "r = Inr (Archive es) \<or> isl r"
    using st assms(1) next_fault_files [of h] by (auto simp: host_stat_def split: prod.splits option.splits)
  have "isl (fst (restore dataDir input confirmed stamp ?t h)) \<and> keeps (region ts) h (snd (restore dataDir input confirmed stamp ?t h))"
    using files whole [of h1] keeps_trans [OF keeps_same [OF files(1)]]
    by (cases r) (auto simp: restore_def st keeps_same)
  then show ?thesis using assms(6,7) by (simp add: keeps_def)
qed

theorem refused_archive_changes_nothing_witness:
  "isl (fst (restore ''/d'' ''/b.zip'' True ''now'' ''/t'' slipping_host)) \<and>
    map_of (ah_Files (snd (restore ''/d'' ''/b.zip'' True ''now'' ''/t'' slipping_host))) ''/d'' = None"
proof -
  have n: "normal [''t'']" "normal [''d'']" by (simp_all add: normal_name_def)
  have "''/d'' \<notin> region [''t'']" using region_iff [OF n(2,1)] by simp
  moreover have "\<not> allowedArchivePath ''../etc/passwd''" by code_simp
  ultimately show ?thesis
    using refused_archive_changes_nothing [OF _ _ _ n(1) _ slipping_clean, of "''/b.zip''"
        "[(''db.sqlite'', False, Content [1]), (''../etc/passwd'', False, Content [2])]" "''../etc/passwd''" False "Content [2]" "''/d''"
        "''/d''" True "''now''"]
    by (simp add: slipping_host_def)
qed

end
