(* ===== verification/Admin_Trees.thy ===== *)
theory Admin_Trees
  imports Admin_Restore
begin

text \<open>
  What the operations of \<^verbatim>\<open>Admin_Backup\<close> leave on a host on which nothing fails: the trees of files as functions of lists
  of names, and a file or folder planted in them.
\<close>

declare abs_path_simps [simp del]

section \<open>Hosts without faults\<close>

definition fault_free :: "(string \<times> file_node) list \<Rightarrow> AdminHost" where
  "fault_free ns = \<lparr>ah_Files = ns, ah_Faults = []\<rparr>"

definition at :: "(string \<times> file_node) list \<Rightarrow> string list \<Rightarrow> file_node option" where
  "at ns ps = map_of ns (abs_path ps)"

lemma next_fault_calm: "next_fault (fault_free ns) = (None, fault_free ns)"
  by (simp add: next_fault_def fault_free_def)

lemma calm_files [simp]: "ah_Files (fault_free ns) = ns"
  by (simp add: fault_free_def)

lemma admin_call_calm: "admin_call f (fault_free ns) = (case f ns of None \<Rightarrow> (Inl OsFailed, fault_free ns) | Some ns' \<Rightarrow> (Inr (), fault_free ns'))"
  unfolding admin_call_def next_fault_calm by (simp add: fault_free_def cong: option.case_cong)

lemma plain_call_calm [simp]: "plain_call (fault_free ns) = (Inr (), fault_free ns)"
  by (simp add: plain_call_def admin_call_calm)

lemma host_stat_calm:
  "host_stat p (fault_free ns) = (case map_of ns p of None \<Rightarrow> (Inl NotThere, fault_free ns) | Some n \<Rightarrow> (Inr n, fault_free ns))"
  by (simp add: host_stat_def next_fault_calm)

lemma fileExists_calm: "admin_fileExists p (fault_free ns) = (map_of ns p \<noteq> None, fault_free ns)"
  by (simp add: admin_fileExists_def host_stat_calm split: option.split)

lemma put_node_calm [simp]: "put_node p n (fault_free ns) = fault_free (map_put p n ns)"
  by (simp add: put_node_def fault_free_def)

lemma copy_data_calm: "n \<noteq> Folder \<Longrightarrow> copy_data n p (fault_free ns) = (Inr (), fault_free (map_put p n ns))"
  by (simp add: copy_data_def next_fault_calm)

section \<open>Sound trees\<close>

definition sound :: "(string \<times> file_node) list \<Rightarrow> bool" where
  "sound ns \<longleftrightarrow> distinct (map fst ns) \<and> clean_files ns"

text \<open>What leads to a file is a folder.\<close>

definition rooted_tree :: "(string list \<Rightarrow> file_node option) \<Rightarrow> bool" where
  "rooted_tree T \<longleftrightarrow> (\<forall>ps qs. normal ps \<longrightarrow> T ps \<noteq> None \<longrightarrow> qs \<noteq> [] \<longrightarrow> strict_prefix qs ps \<longrightarrow> T qs = Some Folder)"

definition sound_files :: "(string \<times> file_node) list \<Rightarrow> bool" where
  "sound_files ns \<longleftrightarrow> sound ns \<and> rooted_tree (at ns)"

lemma at_put: "normal ps \<Longrightarrow> normal qs \<Longrightarrow> at (map_put (abs_path ps) n ns) qs = (if qs = ps then Some n else at ns qs)"
  by (auto simp: at_def abs_path_inj)

lemma sound_put: "sound ns \<Longrightarrow> normal ps \<Longrightarrow> ps \<noteq> [] \<Longrightarrow> sound (map_put (abs_path ps) n ns)"
  by (simp add: sound_def clean_files_put)

lemma sound_member: "sound ns \<Longrightarrow> (abs_path ps, n) \<in> set ns \<longleftrightarrow> at ns ps = Some n"
  by (simp add: sound_def at_def)

lemma normal_prefix: "normal ps \<Longrightarrow> prefix qs ps \<Longrightarrow> normal qs"
  by (auto simp: prefix_def)

lemma rooted_cong:
  assumes "rooted_tree T" "\<And>qs. normal qs \<Longrightarrow> T' qs = T qs"
  shows "rooted_tree T'"
  unfolding rooted_tree_def
proof (intro allI impI)
  fix ps qs assume a: "normal ps" "T' ps \<noteq> None" "qs \<noteq> []" "strict_prefix qs ps"
  then have n: "normal qs" using normal_prefix [of ps qs] by (simp add: strict_prefix_def)
  have "T ps \<noteq> None" using a(2) unfolding assms(2) [OF a(1)] .
  then have "T qs = Some Folder" using assms(1) a unfolding rooted_tree_def by blast
  then show "T' qs = Some Folder" unfolding assms(2) [OF n] .
qed

lemma at_nonempty: "sound ns \<Longrightarrow> at ns [] = None"
proof (rule ccontr)
  assume s: "sound ns" and "at ns [] \<noteq> None"
  then obtain n where "([], n) \<in> set ns" by (auto simp: at_def abs_path_simps dest: map_of_SomeD)
  then obtain ps where "ps \<noteq> []" "abs_path ps = []" using s unfolding sound_def clean_files_def by force
  then show False by (cases ps) (simp_all add: abs_path_simps)
qed

section \<open>Planting\<close>

text \<open>A node put at a path, with the folders that lead to it where they were missing.\<close>

definition planted :: "(string \<times> file_node) list \<Rightarrow> string list \<Rightarrow> file_node \<Rightarrow> (string \<times> file_node) list \<Rightarrow> bool" where
  "planted ns ps n ns' \<longleftrightarrow> sound ns' \<and>
     (\<forall>qs. normal qs \<longrightarrow> at ns' qs = (if qs = ps then Some n
        else if qs \<noteq> [] \<and> strict_prefix qs ps \<and> at ns qs = None then Some Folder else at ns qs))"

lemma distinct_add_folders: "distinct (map fst ns) \<Longrightarrow> distinct (map fst (fold add_folder ps ns))"
  by (induction ps arbitrary: ns) (simp_all add: add_folder_def)

lemma make_folders_planted:
  assumes "sound ns" "normal ps" "ps \<noteq> []" and free: "\<And>qs. qs \<noteq> [] \<Longrightarrow> prefix qs ps \<Longrightarrow> at ns qs \<in> {None, Some Folder}"
  shows "\<exists>ns'. make_folders (abs_path ps) ns = Some ns' \<and> planted ns ps Folder ns'"
proof (intro exI conjI)
  let ?fs = "folders_of (abs_path ps)" let ?ns = "fold add_folder ?fs ns"
  have road: "p \<in> set ?fs \<longleftrightarrow> (\<exists>qs. qs \<noteq> [] \<and> prefix qs ps \<and> p = abs_path qs)" for p
    unfolding folders_of_abs [OF assms(2)] by blast
  have "map_of ns p \<in> {None, Some Folder}" if p: "p \<in> set ?fs" for p
  proof -
    obtain qs where "qs \<noteq> []" "prefix qs ps" "p = abs_path qs" using p unfolding road by blast
    then show ?thesis using free [of qs] by (simp add: at_def)
  qed
  then have "\<not> list_ex (\<lambda>p. map_of ns p \<notin> {None, Some Folder}) ?fs" unfolding list_ex_iff by blast
  then show "make_folders (abs_path ps) ns = Some ?ns" by (simp only: make_folders_def if_False)
  have "\<forall>p \<in> set ?fs. \<exists>ps. normal ps \<and> ps \<noteq> [] \<and> p = abs_path ps"
  proof
    fix p assume "p \<in> set ?fs"
    then obtain qs where "qs \<noteq> []" "prefix qs ps" "p = abs_path qs" unfolding road by blast
    then show "\<exists>ps. normal ps \<and> ps \<noteq> [] \<and> p = abs_path ps" using normal_prefix [OF assms(2)] by (intro exI [of _ qs]) simp
  qed
  then have "sound ?ns" using assms(1) add_folders_clean distinct_add_folders unfolding sound_def by blast
  moreover have "at ?ns qs = (if qs = ps then Some Folder else if qs \<noteq> [] \<and> strict_prefix qs ps \<and> at ns qs = None then Some Folder else at ns qs)"
    if "normal qs" for qs
  proof -
    have "abs_path qs \<in> set ?fs \<longleftrightarrow> qs \<noteq> [] \<and> prefix qs ps"
    proof
      assume "abs_path qs \<in> set ?fs"
      then obtain rs where "rs \<noteq> []" "prefix rs ps" "abs_path qs = abs_path rs" unfolding road by blast
      then show "qs \<noteq> [] \<and> prefix qs ps" using abs_path_inj [OF that, of rs] normal_prefix [OF assms(2), of rs] by simp
    qed (unfold road, blast)
    then show ?thesis using free [of qs] assms(3) unfolding at_def add_folders_of by (auto simp: strict_prefix_def)
  qed
  ultimately show "planted ns ps Folder ?ns" unfolding planted_def by blast
qed

lemma planted_put:
  assumes "planted ns ds Folder ns1" "normal (ds @ [x])" "at ns ds \<in> {None, Some Folder}" "ds \<noteq> []"
  shows "planted ns (ds @ [x]) n (map_put (abs_path (ds @ [x])) n (map_put (abs_path (ds @ [x])) m ns1))"
proof -
  have s: "sound ns1" using assms(1) by (simp add: planted_def)
  have at1: "at ns1 qs = (if qs = ds then Some Folder else if qs \<noteq> [] \<and> strict_prefix qs ds \<and> at ns qs = None then Some Folder else at ns qs)"
    if "normal qs" for qs using assms(1) that by (simp add: planted_def)
  have ext: "strict_prefix qs (ds @ [x]) \<longleftrightarrow> qs = ds \<or> strict_prefix qs ds" for qs
    by (auto simp: strict_prefix_def)
  have "at (map_put (abs_path (ds @ [x])) n (map_put (abs_path (ds @ [x])) m ns1)) qs =
      (if qs = ds @ [x] then Some n else if qs \<noteq> [] \<and> strict_prefix qs (ds @ [x]) \<and> at ns qs = None then Some Folder else at ns qs)"
    if "normal qs" for qs
    unfolding at_put [OF assms(2) that] at1 [OF that] ext using assms(3,4) by auto
  then show ?thesis using sound_put [OF sound_put [OF s assms(2)] assms(2)] unfolding planted_def by blast
qed

text \<open>A file is written where its folders can be.\<close>

lemma write_planted:
  assumes "sound ns" "normal (ds @ [x])" "ds \<noteq> []" "n \<noteq> Folder"
    and free: "\<And>qs. qs \<noteq> [] \<Longrightarrow> prefix qs ds \<Longrightarrow> at ns qs \<in> {None, Some Folder}" and "at ns (ds @ [x]) \<noteq> Some Folder"
  shows "\<exists>ns1 ns2 ns'. admin_call (make_folders (path_dir (abs_path (ds @ [x])))) (fault_free ns) = (Inr (), fault_free ns1) \<and>
    admin_call (create_file (abs_path (ds @ [x]))) (fault_free ns1) = (Inr (), fault_free ns2) \<and>
    copy_data n (abs_path (ds @ [x])) (fault_free ns2) = (Inr (), fault_free ns') \<and> planted ns (ds @ [x]) n ns'"
proof -
  let ?p = "abs_path (ds @ [x])"
  have n: "normal ds" using assms(2) by simp
  have dir: "path_dir ?p = abs_path ds" using path_dir_abs [OF n, of x] assms(2,3) by simp
  obtain ns1 where ns1: "make_folders (abs_path ds) ns = Some ns1" "planted ns ds Folder ns1"
    using make_folders_planted [OF assms(1) n assms(3) free] by blast
  moreover have "\<not> strict_prefix (ds @ [x]) ds" by (auto simp: strict_prefix_def prefix_def)
  ultimately have "at ns1 ds = Some Folder" "at ns1 (ds @ [x]) = at ns (ds @ [x])"
    using n assms(2) by (simp_all add: planted_def)
  then have "create_file ?p ns1 = Some (map_put ?p (Content []) ns1)"
    using assms(6) by (simp add: create_file_def dir at_def)
  then show ?thesis
    using ns1 planted_put [OF ns1(2) assms(2) free assms(3)] assms(3)
    by (intro exI [of _ ns1] exI [of _ "map_put ?p (Content []) ns1"] exI [of _ "map_put ?p n (map_put ?p (Content []) ns1)"])
      (simp add: dir admin_call_calm copy_data_calm assms(4) del: abs_path_simps)
qed

lemma copyFile_planted:
  assumes "sound ns" "normal (ds @ [x])" "ds \<noteq> []" "n \<noteq> Folder" "at ns ss = Some n"
    and "\<And>qs. qs \<noteq> [] \<Longrightarrow> prefix qs ds \<Longrightarrow> at ns qs \<in> {None, Some Folder}" and "at ns (ds @ [x]) \<noteq> Some Folder"
  shows "\<exists>ns'. copyFile (abs_path ss) (abs_path (ds @ [x])) (fault_free ns) = (Inr (), fault_free ns') \<and> planted ns (ds @ [x]) n ns'"
proof -
  obtain ns1 ns2 ns' where w: "admin_call (make_folders (path_dir (abs_path (ds @ [x])))) (fault_free ns) = (Inr (), fault_free ns1)"
    "admin_call (create_file (abs_path (ds @ [x]))) (fault_free ns1) = (Inr (), fault_free ns2)"
    "copy_data n (abs_path (ds @ [x])) (fault_free ns2) = (Inr (), fault_free ns')" "planted ns (ds @ [x]) n ns'"
    using write_planted [OF assms(1-4) assms(6,7)] by blast
  have "host_stat (abs_path ss) (fault_free ns) = (Inr n, fault_free ns)" using assms(5) by (simp add: host_stat_calm at_def)
  then show ?thesis using w by (auto simp: copyFile_def simp del: abs_path_simps)
qed

section \<open>Growing towards a tree\<close>

text \<open>The files are a part of a tree and keep what they had at the start.\<close>

definition growing :: "(string list \<Rightarrow> file_node option) \<Rightarrow> (string \<times> file_node) list \<Rightarrow> (string \<times> file_node) list \<Rightarrow> bool" where
  "growing T ns0 ns \<longleftrightarrow> sound ns \<and>
     (\<forall>ps. normal ps \<longrightarrow> (at ns ps = None \<or> at ns ps = T ps) \<and> (at ns0 ps \<noteq> None \<longrightarrow> at ns ps = at ns0 ps))"

lemma growing_start: "sound ns \<Longrightarrow> (\<And>ps. normal ps \<Longrightarrow> at ns ps \<noteq> None \<Longrightarrow> at ns ps = T ps) \<Longrightarrow> growing T ns ns"
  unfolding growing_def by blast

lemma growing_planted:
  assumes g: "growing T ns0 ns" and T: "rooted_tree T" and ps: "normal ps" "T ps = Some n" and pl: "planted ns ps n ns'"
  shows "growing T ns0 ns'" and "at ns' ps = Some n" and "\<And>qs. normal qs \<Longrightarrow> at ns qs \<noteq> None \<Longrightarrow> at ns' qs = at ns qs"
    and "\<And>qs. qs \<noteq> [] \<Longrightarrow> strict_prefix qs ps \<Longrightarrow> at ns' qs = Some Folder"
proof -
  have at': "at ns' qs = (if qs = ps then Some n else if qs \<noteq> [] \<and> strict_prefix qs ps \<and> at ns qs = None then Some Folder else at ns qs)"
    if "normal qs" for qs using pl that unfolding planted_def by blast
  have old: "at ns qs = None \<or> at ns qs = T qs" if "normal qs" for qs using g that unfolding growing_def by blast
  have folder: "T qs = Some Folder" if "qs \<noteq> []" "strict_prefix qs ps" for qs
    using T ps that unfolding rooted_tree_def by blast
  show "at ns' ps = Some n" using at' [OF ps(1)] by simp
  show same: "at ns' qs = at ns qs" if "normal qs" "at ns qs \<noteq> None" for qs
    using at' [OF that(1)] old [OF that(1)] that(2) ps(2) by (cases "qs = ps") auto
  show "at ns' qs = Some Folder" if q: "qs \<noteq> []" "strict_prefix qs ps" for qs
  proof -
    have "normal qs" using normal_prefix [OF ps(1)] q(2) by (simp add: strict_prefix_def)
    then show ?thesis using at' [of qs] old [of qs] folder [OF q] q by (cases "at ns qs") (auto simp: strict_prefix_def)
  qed
  have "at ns' qs = None \<or> at ns' qs = T qs" if "normal qs" for qs
    using at' [OF that] old [OF that] folder [of qs] ps(2) by auto
  moreover have "at ns' qs = at ns0 qs" if "normal qs" "at ns0 qs \<noteq> None" for qs
  proof -
    have "at ns qs = at ns0 qs" using g that unfolding growing_def by blast
    then show ?thesis using same [OF that(1)] that(2) by simp
  qed
  moreover have "sound ns'" using pl by (simp add: planted_def)
  ultimately show "growing T ns0 ns'" unfolding growing_def by blast
qed

lemma growing_free:
  assumes "growing T ns0 ns" "rooted_tree T" "normal ps" "T ps = Some n" "strict_prefix qs ps" "qs \<noteq> []"
  shows "at ns qs \<in> {None, Some Folder}"
proof -
  have "normal qs" using normal_prefix [OF assms(3)] assms(5) by (simp add: strict_prefix_def)
  then have "at ns qs = None \<or> at ns qs = T qs" using assms(1) unfolding growing_def by blast
  moreover have "T qs = Some Folder" using assms(2-6) unfolding rooted_tree_def by blast
  ultimately show ?thesis by auto
qed

text \<open>What a step from \<open>ns\<close> to \<open>ns'\<close> towards a tree gives.\<close>

definition grown :: "(string list \<Rightarrow> file_node option) \<Rightarrow> (string \<times> file_node) list \<Rightarrow> (string \<times> file_node) list \<Rightarrow>
    (string \<times> file_node) list \<Rightarrow> bool" where
  "grown T ns0 ns ns' \<longleftrightarrow> growing T ns0 ns' \<and> (\<forall>qs. normal qs \<longrightarrow> at ns qs \<noteq> None \<longrightarrow> at ns' qs = at ns qs)"

lemma grown_trans: "grown T ns0 ns ns1 \<Longrightarrow> grown T ns0 ns1 ns2 \<Longrightarrow> grown T ns0 ns ns2"
  by (simp add: grown_def)

lemma grown_planted:
  assumes "growing T ns0 ns" "rooted_tree T" "normal ps" "T ps = Some n" "planted ns ps n ns'"
  shows "grown T ns0 ns ns' \<and> at ns' ps = Some n"
  using growing_planted [OF assms] unfolding grown_def by blast

lemma grown_folder:
  assumes "growing T ns0 ns" "rooted_tree T" "normal ps" "ps \<noteq> []" "T ps = Some Folder"
  shows "\<exists>ns'. admin_call (make_folders (abs_path ps)) (fault_free ns) = (Inr (), fault_free ns') \<and> grown T ns0 ns ns' \<and> at ns' ps = Some Folder"
proof -
  have "at ns qs \<in> {None, Some Folder}" if "qs \<noteq> []" "prefix qs ps" for qs
  proof (cases "qs = ps")
    case True
    then show ?thesis using assms(1,3,5) unfolding growing_def by force
  next
    case False
    then show ?thesis using growing_free [OF assms(1-3,5)] that by (simp add: strict_prefix_def)
  qed
  moreover have "sound ns" using assms(1) by (simp add: growing_def)
  ultimately obtain ns' where "make_folders (abs_path ps) ns = Some ns'" "planted ns ps Folder ns'"
    using make_folders_planted [OF _ assms(3,4)] by blast
  then show ?thesis using grown_planted [OF assms(1-3,5)] by (auto simp: admin_call_calm)
qed

lemma grown_file_free:
  assumes "growing T ns0 ns" "rooted_tree T" "normal (ds @ [x])" "T (ds @ [x]) = Some n" "n \<noteq> Folder"
  shows "\<And>qs. qs \<noteq> [] \<Longrightarrow> prefix qs ds \<Longrightarrow> at ns qs \<in> {None, Some Folder}" and "at ns (ds @ [x]) \<noteq> Some Folder"
proof -
  show "at ns qs \<in> {None, Some Folder}" if "qs \<noteq> []" "prefix qs ds" for qs
    using growing_free [OF assms(1-4) _ that(1)] that(2) by (auto simp: strict_prefix_def prefix_def)
  have "at ns (ds @ [x]) = None \<or> at ns (ds @ [x]) = T (ds @ [x])" using assms(1,3) unfolding growing_def by blast
  then show "at ns (ds @ [x]) \<noteq> Some Folder" using assms(4,5) by auto
qed

lemma split_last: "2 \<le> length ps \<Longrightarrow> \<exists>ds x. ps = ds @ [x] \<and> ds \<noteq> []"
  by (cases ps rule: rev_cases) auto

lemma grown_copy:
  assumes "growing T ns0 ns" "rooted_tree T" "normal ps" "2 \<le> length ps" "T ps = Some n" "n \<noteq> Folder" "at ns ss = Some n"
  shows "\<exists>ns'. copyFile (abs_path ss) (abs_path ps) (fault_free ns) = (Inr (), fault_free ns') \<and> grown T ns0 ns ns' \<and> at ns' ps = Some n"
proof -
  obtain ds x where ps: "ps = ds @ [x]" "ds \<noteq> []" using split_last [OF assms(4)] by blast
  have "sound ns" using assms(1) by (simp add: growing_def)
  from copyFile_planted [OF this, of ds x n ss] grown_file_free [OF assms(1,2), of ds x n] assms(3,5-7) ps
  obtain ns' where "copyFile (abs_path ss) (abs_path ps) (fault_free ns) = (Inr (), fault_free ns')" "planted ns ps n ns'" by auto
  then show ?thesis using grown_planted [OF assms(1-3,5)] by blast
qed

section \<open>A copied tree\<close>

lemma copy_nodes_grow:
  assumes T: "rooted_tree T" and ss: "normal ss" and es: "normal es" "2 \<le> length es"
    and "growing T ns0 ns"
    and "\<forall>(p, n) \<in> set L. \<exists>r. normal r \<and> p = abs_path (ss @ r) \<and> at ns0 (ss @ r) = Some n \<and> T (es @ r) = Some n"
  shows "\<exists>ns'. copy_nodes (abs_path ss) (abs_path es) L (fault_free ns) = (Inr (), fault_free ns') \<and> grown T ns0 ns ns' \<and>
    (\<forall>r n. normal r \<longrightarrow> (abs_path (ss @ r), n) \<in> set L \<longrightarrow> at ns' (es @ r) = Some n)"
  using assms(5,6)
proof (induction L arbitrary: ns)
  case Nil
  then show ?case by (auto simp: grown_def)
next
  case (Cons pn L)
  obtain p n where pn: "pn = (p, n)" by fastforce
  obtain r where r: "normal r" "p = abs_path (ss @ r)" "at ns0 (ss @ r) = Some n" "T (es @ r) = Some n"
    using Cons.prems(2) pn by auto
  have target: "path_below [abs_path es, path_rel (abs_path ss) p] = abs_path (es @ r)"
    unfolding r(2) using es(2) by (intro path_below_rel ss es(1) r(1)) auto
  have esr: "normal (es @ r)" "2 \<le> length (es @ r)" "es @ r \<noteq> []" using es r(1) by auto
  have now: "at ns (ss @ r) = Some n" using Cons.prems(1) r(1,3) ss unfolding growing_def by simp
  obtain ns1 where ns1: "(if n = Folder then admin_call (make_folders (abs_path (es @ r))) (fault_free ns)
      else copyFile p (abs_path (es @ r)) (fault_free ns)) = (Inr (), fault_free ns1)" "grown T ns0 ns ns1" "at ns1 (es @ r) = Some n"
    using grown_folder [OF Cons.prems(1) T esr(1,3)] grown_copy [OF Cons.prems(1) T esr(1,2) r(4) _ now] r(2,4)
    by (cases "n = Folder") auto
  have g1: "growing T ns0 ns1" using ns1(2) by (simp add: grown_def)
  have rest: "\<forall>(p, n) \<in> set L. \<exists>r. normal r \<and> p = abs_path (ss @ r) \<and> at ns0 (ss @ r) = Some n \<and> T (es @ r) = Some n"
    using Cons.prems(2) by simp
  from Cons.IH [OF g1 rest] obtain ns' where ns': "copy_nodes (abs_path ss) (abs_path es) L (fault_free ns1) = (Inr (), fault_free ns')" "grown T ns0 ns1 ns'"
    "\<forall>r n. normal r \<longrightarrow> (abs_path (ss @ r), n) \<in> set L \<longrightarrow> at ns' (es @ r) = Some n"
    by blast
  have "at ns' (es @ r') = Some n'" if "normal r'" "(abs_path (ss @ r'), n') \<in> set (pn # L)" for r' n'
  proof (cases "(abs_path (ss @ r'), n') \<in> set L")
    case False
    then have "abs_path (ss @ r') = abs_path (ss @ r)" "n' = n" using that(2) pn r(2) by auto
    then have "r' = r" "n' = n" using abs_path_inj [of "ss @ r'" "ss @ r"] that(1) r(1) ss by auto
    then show ?thesis using ns'(2) ns1(3) esr(1) unfolding grown_def by simp
  qed (use ns'(3) that(1) in blast)
  moreover have "copy_nodes (abs_path ss) (abs_path es) (pn # L) (fault_free ns) = (Inr (), fault_free ns')"
    using ns1(1) ns'(1) unfolding pn by (simp add: target Let_def)
  ultimately show ?case using grown_trans [OF ns1(2) ns'(2)] by blast
qed

lemma walk_list_set:
  assumes "sound ns" "normal ss"
  shows "(p, n) \<in> set (walk_list (abs_path ss) ns) \<longleftrightarrow> (\<exists>r. normal r \<and> p = abs_path (ss @ r) \<and> at ns (ss @ r) = Some n)"
proof
  assume p: "(p, n) \<in> set (walk_list (abs_path ss) ns)"
  then obtain r where r: "normal r" "p = abs_path (ss @ r)" using walk_list_below assms unfolding sound_def by blast
  moreover have "(p, n) \<in> set ns" using p by (simp add: walk_list_def)
  ultimately show "\<exists>r. normal r \<and> p = abs_path (ss @ r) \<and> at ns (ss @ r) = Some n" using sound_member [OF assms(1)] by blast
next
  assume "\<exists>r. normal r \<and> p = abs_path (ss @ r) \<and> at ns (ss @ r) = Some n"
  then obtain r where r: "normal r" "p = abs_path (ss @ r)" "at ns (ss @ r) = Some n" by blast
  have n: "normal (ss @ r)" using assms(2) r(1) by simp
  have "(p, n) \<in> set ns" using r(2,3) sound_member [OF assms(1)] by blast
  moreover have "p = abs_path ss \<or> inside (abs_path ss) p"
    unfolding r(2) inside_abs [OF assms(2) n] by (cases "r = []") (auto simp: strict_prefix_def)
  ultimately show "(p, n) \<in> set (walk_list (abs_path ss) ns)" by (simp add: walk_list_def)
qed

text \<open>A path at which nothing is, in a folder that is there.\<close>

definition spare :: "(string \<times> file_node) list \<Rightarrow> string list \<Rightarrow> bool" where
  "spare ns ps \<longleftrightarrow> normal ps \<and> 2 \<le> length ps \<and> at ns ps = None \<and> at ns (butlast ps) = Some Folder"

lemma spare_below: "sound_files ns \<Longrightarrow> spare ns es \<Longrightarrow> prefix es ps \<Longrightarrow> normal ps \<Longrightarrow> at ns ps = None"
  unfolding sound_files_def rooted_tree_def spare_def
  by (metis list.size(3) not_numeral_le_zero option.distinct(1) prefix_order.le_less)

lemma spare_road:
  assumes "sound_files ns" "spare ns es" "strict_prefix qs es" "qs \<noteq> []"
  shows "at ns qs = Some Folder"
proof -
  obtain ds x where es: "es = ds @ [x]" "ds \<noteq> []" using split_last assms(2) unfolding spare_def by blast
  then have d: "at ns ds = Some Folder" "normal ds" using assms(2) by (simp_all add: spare_def)
  show ?thesis
  proof (cases "qs = ds")
    case False
    then have "strict_prefix qs ds" using assms(3) es(1) by (auto simp: strict_prefix_def)
    then show ?thesis using d assms(1,4) unfolding sound_files_def rooted_tree_def by simp
  qed (use d in simp)
qed

definition with_copy :: "(string list \<Rightarrow> file_node option) \<Rightarrow> string list \<Rightarrow> string list \<Rightarrow> string list \<Rightarrow> file_node option" where
  "with_copy T ss es qs = (if prefix es qs then T (ss @ drop (length es) qs) else T qs)"

lemma with_copy_rooted:
  assumes "sound_files ns" "spare ns es" "normal ss" "ss \<noteq> []"
  shows "rooted_tree (with_copy (at ns) ss es)"
  unfolding rooted_tree_def
proof (intro allI impI)
  fix ps qs assume ps: "normal ps" "with_copy (at ns) ss es ps \<noteq> None" and qs: "qs \<noteq> []" "strict_prefix qs ps"
  have R: "at ns q = Some Folder" if "normal p" "at ns p \<noteq> None" "q \<noteq> []" "strict_prefix q p" for p q
    using assms(1) that unfolding sound_files_def rooted_tree_def by blast
  show "with_copy (at ns) ss es qs = Some Folder"
  proof (cases "prefix es ps")
    case True
    then obtain r where r: "ps = es @ r" by (auto simp: prefix_def)
    have at: "at ns (ss @ r) \<noteq> None" "normal (ss @ r)" using ps assms(3) r by (simp_all add: with_copy_def)
    show ?thesis
    proof (cases "prefix es qs")
      case True
      then obtain r' where r': "qs = es @ r'" by (auto simp: prefix_def)
      have "strict_prefix (ss @ r') (ss @ r)" using qs(2) r r' by (simp add: strict_prefix_def)
      moreover have "ss @ r' \<noteq> []" using assms(4) by simp
      ultimately show ?thesis using R [OF at(2,1)] r' by (simp add: with_copy_def)
    next
      case False
      then have "strict_prefix qs es" using qs(2) r by (metis prefix_append prefix_order.le_less prefix_same_cases prefix_order.less_imp_le)
      then show ?thesis using spare_road [OF assms(1,2) _ qs(1)] False by (simp add: with_copy_def)
    qed
  next
    case False
    then have "\<not> prefix es qs" using qs(2) by (metis prefix_order.order_trans prefix_order.less_imp_le)
    then show ?thesis using R [of ps qs] ps qs False by (simp add: with_copy_def)
  qed
qed

lemma copyTree_calm:
  assumes "sound_files ns" "spare ns es" "normal ss" "ss \<noteq> []" "at ns ss \<noteq> None"
  shows "\<exists>ns'. copyTree (abs_path ss) (abs_path es) (fault_free ns) = (Inr (), fault_free ns') \<and> sound_files ns' \<and>
    (\<forall>qs. normal qs \<longrightarrow> at ns' qs = with_copy (at ns) ss es qs)"
proof -
  let ?T = "with_copy (at ns) ss es" let ?L = "walk_list (abs_path ss) ns"
  have T: "rooted_tree ?T" by (rule with_copy_rooted [OF assms(1-4)])
  have s: "sound ns" using assms(1) by (simp add: sound_files_def)
  have es: "normal es" "2 \<le> length es" using assms(2) by (simp_all add: spare_def)
  have start: "growing ?T ns ns"
    using spare_below [OF assms(1,2)] by (intro growing_start s) (auto simp: with_copy_def)
  have L: "\<forall>(p, n) \<in> set ?L. \<exists>r. normal r \<and> p = abs_path (ss @ r) \<and> at ns (ss @ r) = Some n \<and> ?T (es @ r) = Some n"
    using walk_list_set [OF s assms(3)] by (fastforce simp: with_copy_def)
  from copy_nodes_grow [OF T assms(3) es start L] obtain ns' where
    ns': "copy_nodes (abs_path ss) (abs_path es) ?L (fault_free ns) = (Inr (), fault_free ns')" "grown ?T ns ns ns'"
      "\<forall>r n. normal r \<longrightarrow> (abs_path (ss @ r), n) \<in> set ?L \<longrightarrow> at ns' (es @ r) = Some n" by blast
  have g: "growing ?T ns ns'" using ns'(2) by (simp add: grown_def)
  have same: "at ns' qs = ?T qs" if qs: "normal qs" for qs
  proof (cases "?T qs")
    case None
    then show ?thesis using g qs unfolding growing_def by auto
  next
    case (Some n)
    show ?thesis
    proof (cases "prefix es qs")
      case True
      then obtain r where r: "qs = es @ r" by (auto simp: prefix_def)
      then have n: "normal r" "at ns (ss @ r) = Some n" using qs Some by (simp_all add: with_copy_def)
      have "(abs_path (ss @ r), n) \<in> set ?L"
        by (rule iffD2 [OF walk_list_set [OF s assms(3)]]) (intro exI [of _ r] conjI n refl)
      then have "at ns' (es @ r) = Some n" by (rule ns'(3) [rule_format, OF n(1)])
      then show ?thesis using Some r by simp
    next
      case False
      then show ?thesis using g qs Some unfolding growing_def by (auto simp: with_copy_def)
    qed
  qed
  have "rooted_tree (at ns')"
    by (rule rooted_cong [OF T same])
  then have "sound_files ns'" using g unfolding sound_files_def growing_def by blast
  moreover have "map_of ns (abs_path ss) \<noteq> None" using assms(5) by (simp add: at_def)
  then have "copyTree (abs_path ss) (abs_path es) (fault_free ns) = (Inr (), fault_free ns')"
    using ns'(1) unfolding copyTree_def calm_files by (simp only: if_False)
  ultimately show ?thesis using same by blast
qed

section \<open>A packed directory\<close>

definition entries_of :: "string \<Rightarrow> (string \<times> file_node) list \<Rightarrow> (string \<times> bool \<times> file_node) list" where
  "entries_of source L = map (\<lambda>(p, n). (path_rel source p, False, n)) (filter (\<lambda>(p, n). n \<noteq> Folder) L)"

lemma zip_nodes_calm:
  assumes "\<forall>(p, n) \<in> set L. map_of ns p = Some n"
  shows "zip_nodes source L es (fault_free ns) = ((None, es @ entries_of source L), fault_free ns)"
  using assms
  by (induction L arbitrary: es) (auto simp: entries_of_def next_fault_calm host_stat_calm Let_def)

lemma make_folders_there:
  assumes "sound_files ns" "normal ps" "ps \<noteq> []" "at ns ps = Some Folder"
  shows "\<exists>ns'. make_folders (abs_path ps) ns = Some ns' \<and> sound ns' \<and> (\<forall>qs. normal qs \<longrightarrow> at ns' qs = at ns qs)"
proof -
  have road: "at ns qs = Some Folder" if "qs \<noteq> []" "prefix qs ps" for qs
    using assms that unfolding sound_files_def rooted_tree_def by (cases "qs = ps") (auto simp: strict_prefix_def)
  then have free: "at ns qs \<in> {None, Some Folder}" if "qs \<noteq> []" "prefix qs ps" for qs using that by simp
  have "sound ns" using assms(1) by (simp add: sound_files_def)
  from make_folders_planted [OF this assms(2,3) free] obtain ns' where
    "make_folders (abs_path ps) ns = Some ns'" "planted ns ps Folder ns'" by blast
  then show ?thesis using road assms(4) unfolding planted_def by (intro exI [of _ ns']) (auto simp: strict_prefix_def)
qed

lemma zipDirectory_calm:
  assumes "sound_files ns" "spare ns out" "normal ss" "\<not> prefix ss out"
  shows "\<exists>ns' es. zipDirectory (abs_path ss) (abs_path out) (fault_free ns) = (Inr (), fault_free ns') \<and> sound ns' \<and>
    (\<forall>qs. normal qs \<longrightarrow> at ns' qs = (if qs = out then Some (Archive es) else at ns qs)) \<and>
    (\<forall>e. e \<in> set es \<longleftrightarrow> (\<exists>r n. normal r \<and> at ns (ss @ r) = Some n \<and> n \<noteq> Folder \<and>
       e = (path_rel (abs_path ss) (abs_path (ss @ r)), False, n)))"
proof -
  let ?o = "abs_path out"
  obtain ds x where out: "out = ds @ [x]" "ds \<noteq> []" using split_last assms(2) unfolding spare_def by blast
  have o: "normal out" "at ns out = None" "normal ds" "at ns ds = Some Folder" using assms(2) out by (simp_all add: spare_def)
  have dir: "path_dir ?o = abs_path ds" using path_dir_abs [OF o(3), of x] o(1) out by simp
  obtain ns1 where ns1: "make_folders (abs_path ds) ns = Some ns1" "sound ns1" "\<And>qs. normal qs \<Longrightarrow> at ns1 qs = at ns qs"
    using make_folders_there [OF assms(1) o(3) out(2) o(4)] by blast
  have free: "map_of ns ?o = None" "map_of ns1 ?o = None" "map_of ns1 (abs_path ds) = Some Folder"
    using o ns1(3) by (simp_all add: at_def)
  let ?ns2 = "map_put ?o Broken (map_put ?o (Content []) ns1)"
  have s2: "sound ?ns2" using ns1(2) o(1) out by (intro sound_put) auto
  have at2: "at ?ns2 qs = (if qs = out then Some Broken else at ns qs)" if "normal qs" for qs
    using that o(1) ns1(3) by (simp add: at_put)
  let ?L = "walk_list (abs_path ss) ?ns2" let ?es = "entries_of (abs_path ss) ?L"
  have L: "(p, n) \<in> set ?L \<longleftrightarrow> (\<exists>r. normal r \<and> p = abs_path (ss @ r) \<and> at ns (ss @ r) = Some n)" for p n
  proof -
    have "at ?ns2 (ss @ r) = at ns (ss @ r)" if "normal r" for r
      using at2 [of "ss @ r"] assms(3,4) that by (auto simp: prefix_def)
    then show ?thesis unfolding walk_list_set [OF s2 assms(3)] by metis
  qed
  have "\<forall>(p, n) \<in> set ?L. map_of ?ns2 p = Some n"
    by (auto simp: at_def dest!: iffD1 [OF walk_list_set [OF s2 assms(3)]])
  from zip_nodes_calm [OF this, of "abs_path ss" "[]"]
  have zip: "zip_nodes (abs_path ss) ?L [] (fault_free ?ns2) = ((None, ?es), fault_free ?ns2)" by simp
  have "zipDirectory (abs_path ss) ?o (fault_free ns) = (Inr (), fault_free (map_put ?o (Archive ?es) ?ns2))"
    using free ns1(1) zip
    by (simp add: zipDirectory_def fileExists_calm admin_call_calm dir create_file_def closeArchive_def)
  moreover have "sound (map_put ?o (Archive ?es) ?ns2)" using o(1) out by (intro sound_put [OF s2]) auto
  moreover have "at (map_put ?o (Archive ?es) ?ns2) qs = (if qs = out then Some (Archive ?es) else at ns qs)" if "normal qs" for qs
    unfolding at_put [OF o(1) that] ns1(3) [OF that] by simp
  moreover have "e \<in> set ?es \<longleftrightarrow> (\<exists>r n. normal r \<and> at ns (ss @ r) = Some n \<and> n \<noteq> Folder \<and>
       e = (path_rel (abs_path ss) (abs_path (ss @ r)), False, n))" for e
    using L unfolding entries_of_def by (auto simp: image_iff)
  ultimately show ?thesis by blast
qed

end
