(* ===== verification/Admin_Roundtrip.thy ===== *)
theory Admin_Roundtrip
  imports Admin_Trees
begin

text \<open>
  A backup and a restore of it on a host on which nothing fails: the database, the public configuration and the
  recordings come back as they were, and what was in their place is kept.
\<close>

section \<open>Single files\<close>







section \<open>Renaming\<close>










section \<open>Extracting\<close>








section \<open>Temporary directories\<close>




section \<open>Restoring\<close>











section \<open>Backing up\<close>









section \<open>The round trip\<close>














end
