(* ===== verification/Spec2Isabelle.thy ===== *)
theory Spec2Isabelle
  imports Sms_Multipart Call_State Voice_Bridge Call_Adapter Auth_Service Sms_Engine Recording_Manager Api_Replay
    Agent_Server Agent_Mdns Sip_Server Modem_Discovery Gateway_Config Voice_Backends Stage_Writes Usb_Profile
    Admin_Roundtrip
begin

text \<open>
  A verification development for CellBridge: a gateway that gives the clients of a private network the calls and messages of
  a cellular modem, the agent that runs on a module, and the tools with which an operator prepares a module and looks
  after a gateway. All of it is Go.

  \<^bold>\<open>The parts and how they interact.\<close> A client talks HTTP to the handlers of \<^verbatim>\<open>internal/api/server.go\<close>. A handler checks
  the token (\<^verbatim>\<open>internal/auth\<close>), claims the idempotency key of the request in the store (\<^verbatim>\<open>internal/db\<close>), has its effect, and
  records its answer under the key. Calls live twice: in the call controller (\<^verbatim>\<open>internal/call\<close>), which knows the one
  logical call and its states, and in the modem adapters (\<^verbatim>\<open>internal/modem\<close>, \<^verbatim>\<open>internal/modem/at\<close>), which know what the
  modem was told; events of the modem come back on a channel and move the controller. Messages go through the SMS engine
  (\<^verbatim>\<open>internal/sms\<close>) to the modem and, polled from it, into the store. The audio of a call runs from a voice backend
  through the bridge (\<^verbatim>\<open>internal/voice\<close>) to a WebRTC session (\<^verbatim>\<open>internal/webrtc\<close>) or a SIP call (\<^verbatim>\<open>internal/sip\<close>), and into
  recordings (\<^verbatim>\<open>internal/recording\<close>). Every change of the store gets a number in its synchronisation log, by which
  clients catch up, and an event on the bus (\<^verbatim>\<open>internal/eventbus\<close>).

  \<^bold>\<open>Theories and sources.\<close> Paths are under \<^verbatim>\<open>gateway/\<close> where nothing else is said.

  \<^item> Shared: \<^verbatim>\<open>Gateway_Prelude\<close> (bytes, runes, results, the functions of Go's \<^verbatim>\<open>strings\<close> and \<^verbatim>\<open>strconv\<close> that the sources
    call), \<^verbatim>\<open>Stream_Buffers\<close> (the contracts of dropping buffers and lossy channels, as locales), \<^verbatim>\<open>Json_Text\<close> (the part of
    \<^verbatim>\<open>encoding/json\<close> that is used), \<^verbatim>\<open>Host_Commands\<close> (chains of fallible steps, path names, texts for a shell).
  \<^item> Messages: \<^verbatim>\<open>Sms_Codec\<close>, \<^verbatim>\<open>Sms_Pdu\<close> (\<^verbatim>\<open>internal/sms/pdu.go\<close>), \<^verbatim>\<open>Sms_Roundtrip\<close> (its correctness), \<^verbatim>\<open>Sms_Multipart\<close>
    (\<^verbatim>\<open>multipart.go\<close>), \<^verbatim>\<open>Sms_Engine\<close> (\<^verbatim>\<open>engine.go\<close>).
  \<^item> Calls and the modem: \<^verbatim>\<open>Call_State\<close> (\<^verbatim>\<open>internal/call/state.go\<close>), \<^verbatim>\<open>At_Protocol\<close> (\<^verbatim>\<open>internal/modem/at/parser.go\<close>),
    \<^verbatim>\<open>At_Adapter\<close> (\<^verbatim>\<open>adapter.go\<close>, and \<^verbatim>\<open>internal/modem/qdc507/capabilities.go\<close>), \<^verbatim>\<open>Call_Adapter\<close> (\<^verbatim>\<open>internal/modem/call_adapter.go\<close>), \<^verbatim>\<open>Modem_Discovery\<close>
    (\<^verbatim>\<open>internal/modem/discovery\<close>).
  \<^item> Audio: \<^verbatim>\<open>Voice_Codec\<close>, \<^verbatim>\<open>Voice_Bridge\<close> (\<^verbatim>\<open>internal/voice/pcm.go\<close>, \<^verbatim>\<open>bridge.go\<close>), \<^verbatim>\<open>Alsa_Audio\<close> (\<^verbatim>\<open>alsa.go\<close>), \<^verbatim>\<open>Qdc507_Audio\<close>
    (\<^verbatim>\<open>qdc507/audio.go\<close>), \<^verbatim>\<open>Voice_Backends\<close> (the contract of a backend), \<^verbatim>\<open>Media_Session\<close> (\<^verbatim>\<open>internal/webrtc/engine.go\<close>),
    \<^verbatim>\<open>Recording_Manager\<close> (\<^verbatim>\<open>internal/recording/manager.go\<close>).
  \<^item> State: \<^verbatim>\<open>Gateway_Db\<close> (\<^verbatim>\<open>internal/db/db.go\<close>, with its SQL statements as functions on lists of rows), \<^verbatim>\<open>Db_Invariants\<close> and
    \<^verbatim>\<open>Db_Access\<close> (what it keeps), \<^verbatim>\<open>Event_Streams\<close> (\<^verbatim>\<open>internal/eventbus/bus.go\<close> and \<^verbatim>\<open>module-agent/internal/events/journal.go\<close>), \<^verbatim>\<open>Auth_Service\<close>,
    \<^verbatim>\<open>Net_Address\<close> (\<^verbatim>\<open>internal/auth/auth.go\<close>), \<^verbatim>\<open>Gateway_Config\<close> (\<^verbatim>\<open>internal/config\<close>, \<^verbatim>\<open>internal/discovery\<close>, \<^verbatim>\<open>internal/push\<close>).
  \<^item> The API, \<^verbatim>\<open>internal/api/server.go\<close>: \<^verbatim>\<open>Api_Base\<close>, \<^verbatim>\<open>Api_Messages\<close>, \<^verbatim>\<open>Api_Calls\<close>, \<^verbatim>\<open>Api_Recordings\<close>, \<^verbatim>\<open>Api_Media\<close>,
    \<^verbatim>\<open>Api_Router\<close> are the handlers; \<^verbatim>\<open>Api_Guarantees\<close> and \<^verbatim>\<open>Api_Replay\<close> what they promise.
  \<^item> SIP: \<^verbatim>\<open>Sip_Text\<close>, \<^verbatim>\<open>Sip_Session\<close>, \<^verbatim>\<open>Sip_Server\<close> (\<^verbatim>\<open>internal/sip\<close>).
  \<^item> The agent, \<^verbatim>\<open>module-agent/\<close>: \<^verbatim>\<open>Agent_Sms\<close>, \<^verbatim>\<open>Agent_Control\<close> (\<^verbatim>\<open>internal/control\<close>), \<^verbatim>\<open>Agent_Stream\<close>, \<^verbatim>\<open>Agent_Server\<close>
    (\<^verbatim>\<open>cmd/cellbridge-agent\<close>), \<^verbatim>\<open>Agent_Mdns\<close> (\<^verbatim>\<open>internal/mdns\<close>).
  \<^item> The tools for a module, \<^verbatim>\<open>tools/module-provisioner/\<close>: \<^verbatim>\<open>Adb_Wire\<close>, \<^verbatim>\<open>Adb_Services\<close>, \<^verbatim>\<open>Adb_Commands\<close>, \<^verbatim>\<open>Adb_Tool\<close>
    (\<^verbatim>\<open>qdc507-adb-readonly\<close>), \<^verbatim>\<open>Agent_Push\<close>, \<^verbatim>\<open>Agent_Stage\<close>, \<^verbatim>\<open>Stage_Writes\<close> (\<^verbatim>\<open>qdc507-agent-stage\<close>), \<^verbatim>\<open>Usb_At\<close>
    (\<^verbatim>\<open>qdc507-at-readonly.go\<close>), \<^verbatim>\<open>Usb_Profile\<close> (\<^verbatim>\<open>qdc507-usbcfg-profile-aware.go\<close>).
  \<^item> The operator's tool, \<^verbatim>\<open>cmd/cellbridge-admin\<close>: \<^verbatim>\<open>Gateway_Admin\<close>, \<^verbatim>\<open>Admin_Backup\<close>, and \<^verbatim>\<open>Admin_Paths\<close>, \<^verbatim>\<open>Admin_Trees\<close>,
    \<^verbatim>\<open>Admin_Restore\<close>, \<^verbatim>\<open>Admin_Roundtrip\<close> (what a backup and a restore do).

  \<^bold>\<open>How a component is modelled.\<close> Its state is a record with the fields of the struct, an operation a function from the state
  to its result and the new state, an error a value. What a mutex protects is one step; where the code lets its lock go, or works
  in several goroutines, the pieces are steps of their own: the bridge, the ALSA backend, the calls of the SIP server, the
  modem commands of the API, during which \<open>meanwhile\<close> or a list of \<open>steps\<close> happens to the gateway. What the code
  takes from elsewhere is an argument: clocks, random values, digests, what a device or program answers, and which
  call of the operating system or of the database driver fails.
\<close>

text \<open>
  \<^bold>\<open>What the lemmas show.\<close> The text above a theorem states what it says; in groups:

  \<^item> Round trips: an encoded message is decoded to its text, a reassembled message is what was split, a frame or record of a
    stream is read back however it was cut, a response carries the headers of its request, a backup is restored.
  \<^item> Invariants over every reachable state: the call controller, the store with its log, the agent, recordings in flight.
  \<^item> Effects at most once: the request keys of the API, refresh tokens, pairings, the idempotency keys of the controller.
  \<^item> Nothing without permission: requests without a token, revoked devices, the commands sent to a module, the files a restore
    may touch.
  \<^item> Exact results: command exchanges, audio on disk, the status of a sent message, pages of a thread.
  \<^item> Defects: theorems, with a run that shows them, about what the code does and should not. Their texts say so.

  \<^bold>\<open>Interfaces.\<close> The locales \<^verbatim>\<open>dropping_buffer\<close>, \<^verbatim>\<open>lossy_channel\<close>, \<^verbatim>\<open>token_store\<close>, \<^verbatim>\<open>modem_control\<close>, \<^verbatim>\<open>voice_audio\<close>,
  \<^verbatim>\<open>claimed_operation\<close> and \<^verbatim>\<open>recorded_operation\<close> state what one component relies on in another; each is interpreted on the
  definitions of the component that provides it.

  \<^bold>\<open>Bounds and fuel.\<close> Loops that read from a device recurse over the list of what the device will answer, so they end; a loop
  that would wait for ever is the result \<^term>\<open>None\<close>, and that an exchange does return is a theorem. The only fuel is in the
  client that reads a thread page by page: more than the length of the thread is enough.

  \<^bold>\<open>Where the model is coarser than the code.\<close>

  \<^item> A path without its trailing slash, such as \<^verbatim>\<open>/api/v1/devices\<close>, is answered 404 by \<^verbatim>\<open>route\<close>; the router of Go redirects it.
  \<^item> \<^verbatim>\<open>call_step\<close> has every operation of the controller but \<^verbatim>\<open>Rollback\<close>; \<^verbatim>\<open>reachable\<close> and \<^verbatim>\<open>controller_step\<close> have it too.
  \<^item> \<^verbatim>\<open>call_Hangup\<close> and \<^verbatim>\<open>finalize\<close> are single steps: an event between the command and the bookkeeping, or a deletion during
    the encoding, is not an interleaving of the model. Size and digest of a recording are those of the encoder's output.
  \<^item> \<^verbatim>\<open>NewSession\<close> has one error for its two calls of the library; \<^verbatim>\<open>readRemoteTrack\<close> always has a receiver;
    \<^verbatim>\<open>client_frame\<close> handles one frame of the client at a time.
  \<^item> Writes to a serial port (\<^verbatim>\<open>port_write\<close>, \<^verbatim>\<open>tryATPort\<close>) succeed or fail whole, and reads are the chunks of a list.
  \<^item> \<^verbatim>\<open>to_lower\<close> changes ASCII letters only, which are all the texts it is compared with.

  \<^bold>\<open>Not modelled.\<close> The start of the gateway and the probe tool (wiring of what is modelled), two bench programs, the settings of a
  serial port, the upgrade of the schema, drawing random identifiers, flags, logging, and whatever belongs to a library: SQLite,
  pion's WebRTC, TURN and ICE, the HTTP server, YAML, zip files, libusb, zeroconf, ffmpeg, \<^verbatim>\<open>aplay\<close> and \<^verbatim>\<open>arecord\<close>. What the
  code relies on in them is an argument or a named hypothesis.
\<close>

end
